(* ===== verification/Prelude.thy ===== *)
theory Prelude
  imports Main "HOL-Library.Word" "HOL-Library.AList" "HOL-Library.Monad_Syntax"
    "HOL-Library.Sublist"
begin

section \<open>Prelude: the Go vocabulary shared by every component\<close>

text \<open>
  This theory fixes how Go values are read in the development.
  \<^item> A Go \<open>string\<close> or \<open>[]byte\<close> is a list of bytes; strings use \<^typ>\<open>string\<close>.
  \<^item> An \<open>int64\<close> (and \<open>int\<close> on a 64-bit target) is an \<^typ>\<open>int\<close>; every sum that the code
    may overflow is wrapped with \<open>int64\<close>.
  \<^item> A function that may panic or block for ever has an \<open>option\<close> type:
    \<^const>\<open>None\<close> is "does not return normally". Errors are ordinary values returned beside
    the result, as in Go, so they never appear as \<^const>\<open>None\<close>.
  The collections \<open>go_defs\<close> and \<open>heap_simps\<close> gather definitions and memory equations used by the
  component proofs.
\<close>

named_theorems go_defs "definitions of small wrappers that proofs unfold"
named_theorems heap_simps "equations for the memory of byte slices"
named_theorems path_simps "equations for path operations on valid paths"

unbundle bit_operations_syntax

type_synonym byte = "8 word"
type_synonym file_mode = "32 word"
type_synonym time = int


subsection \<open>64-bit signed integers\<close>

definition int64 :: "int \<Rightarrow> int" where
  "int64 x = (x + 2 ^ 63) mod 2 ^ 64 - 2 ^ 63"

definition max_int64 :: int where
  "max_int64 = 2 ^ 63 - 1"

lemma int64_id [simp]:
  assumes "- (2 ^ 63) \<le> x" and "x \<le> max_int64"
  shows "int64 x = x"
  using assms by (simp add: int64_def max_int64_def)

lemma int64_bounds: "- (2 ^ 63) \<le> int64 x" "int64 x \<le> max_int64"
proof -
  have "0 \<le> (x + 2 ^ 63) mod 2 ^ 64" "(x + 2 ^ 63) mod 2 ^ 64 < (2 ^ 64 :: int)"
    by simp_all
  then show "- (2 ^ 63) \<le> int64 x" "int64 x \<le> max_int64"
    by (simp_all add: int64_def max_int64_def)
qed


subsection \<open>Decimal numbers, the \<open>%d\<close> of package \<open>fmt\<close>\<close>

fun fmt_nat :: "nat \<Rightarrow> string" where
  "fmt_nat n = (if n < 10 then [char_of (48 + n)] else fmt_nat (n div 10) @ [char_of (48 + n mod 10)])"

declare fmt_nat.simps [simp del]

definition fmt_d :: "int \<Rightarrow> string" where
  "fmt_d n = (if n < 0 then CHR ''-'' # fmt_nat (nat (- n)) else fmt_nat (nat n))"


subsection \<open>Slices of lists\<close>

text \<open>
  \<open>slice_of i j xs\<close> is the content of the Go slice expression \<open>xs[i:j]\<close>; \<open>go_copy\<close> is the builtin
  \<open>copy\<close> seen from its destination; \<open>overwrite\<close> is the specification of overwriting a byte range.
\<close>

definition slice_of :: "nat \<Rightarrow> nat \<Rightarrow> 'a list \<Rightarrow> 'a list" where
  "slice_of i j xs = take (j - i) (drop i xs)"

definition go_copy :: "'a list \<Rightarrow> 'a list \<Rightarrow> 'a list" where
  "go_copy dst src = take (length dst) src @ drop (length src) dst"

definition overwrite :: "nat \<Rightarrow> 'a list \<Rightarrow> 'a list \<Rightarrow> 'a list" where
  "overwrite n ys xs = take n xs @ ys @ drop (n + length ys) xs"

lemma length_slice_of [simp]: "length (slice_of i j xs) = min (j - i) (length xs - i)"
  by (simp add: slice_of_def min.commute)

lemma slice_of_all [simp]: "slice_of 0 (length xs) xs = xs"
  by (simp add: slice_of_def)

lemma slice_of_0: "slice_of 0 n xs = take n xs"
  by (simp add: slice_of_def)

lemma nth_slice_of: "k < j - i \<Longrightarrow> i + k < length xs \<Longrightarrow> slice_of i j xs ! k = xs ! (i + k)"
  by (simp add: slice_of_def)

lemma length_go_copy [simp]: "length (go_copy dst src) = length dst"
  by (simp add: go_copy_def)

lemma go_copy_all: "length src = length dst \<Longrightarrow> go_copy dst src = src"
  by (simp add: go_copy_def)

lemma length_overwrite [simp]:
  "n + length ys \<le> length xs \<Longrightarrow> length (overwrite n ys xs) = length xs"
  by (simp add: overwrite_def)

lemma overwrite_Nil [simp]: "overwrite n [] xs = xs"
  by (simp add: overwrite_def)

lemma slice_of_overwrite_same:
  assumes "n + length ys \<le> length xs"
  shows "slice_of n (n + length ys) (overwrite n ys xs) = ys"
  using assms by (simp add: slice_of_def overwrite_def)

lemma nth_overwrite:
  assumes "n + length ys \<le> length xs" "k < length xs"
  shows "overwrite n ys xs ! k = (if n \<le> k \<and> k < n + length ys then ys ! (k - n) else xs ! k)"
  using assms by (auto simp: overwrite_def nth_append min_def)

lemma slice_of_slice_of:
  assumes "i + b \<le> j"
  shows "slice_of a b (slice_of i j xs) = slice_of (i + a) (i + b) xs"
proof -
  have "drop a (take (j - i) (drop i xs)) = take (j - i - a) (drop (i + a) xs)"
    by (simp add: drop_take add.commute)
  moreover have "min (b - a) (j - i - a) = b - a" using assms by simp
  ultimately show ?thesis by (simp add: slice_of_def)
qed

lemma slice_of_overwrite_disjoint:
  assumes "j \<le> n \<or> n + length ys \<le> i" "n + length ys \<le> length xs"
  shows "slice_of i j (overwrite n ys xs) = slice_of i j xs"
proof (rule nth_equalityI)
  show "length (slice_of i j (overwrite n ys xs)) = length (slice_of i j xs)"
    using assms by simp
next
  fix k assume k: "k < length (slice_of i j (overwrite n ys xs))"
  then have "k < j - i" "i + k < length xs" using assms by auto
  then show "slice_of i j (overwrite n ys xs) ! k = slice_of i j xs ! k"
    using assms by (auto simp: nth_slice_of nth_overwrite)
qed

text \<open>Overwriting a range inside a window is overwriting that range of the window.\<close>

lemma slice_of_overwrite_inside:
  assumes "i \<le> n" "n + length ys \<le> j" "j \<le> length xs"
  shows "slice_of i j (overwrite n ys xs) = overwrite (n - i) ys (slice_of i j xs)"
proof (rule nth_equalityI)
  have l: "length (slice_of i j xs) = j - i" using assms by simp
  have fits: "n - i + length ys \<le> length (slice_of i j xs)" using assms by simp
  show "length (slice_of i j (overwrite n ys xs)) = length (overwrite (n - i) ys (slice_of i j xs))"
    using assms fits by simp
  fix k assume k: "k < length (slice_of i j (overwrite n ys xs))"
  then have "k < j - i" "i + k < length xs" using assms by auto
  then show "slice_of i j (overwrite n ys xs) ! k = overwrite (n - i) ys (slice_of i j xs) ! k"
    using assms fits l by (auto simp: nth_slice_of nth_overwrite add.commute)
qed


subsection \<open>Computations that may not return\<close>

lemma bind_Some_iff: "(Option.bind m f = Some y) \<longleftrightarrow> (\<exists>x. m = Some x \<and> f x = Some y)"
  by (cases m) auto

lemma bind_split: "P (Option.bind m f) \<longleftrightarrow> (m = None \<longrightarrow> P None) \<and> (\<forall>x. m = Some x \<longrightarrow> P (f x))"
  by (cases m) auto


subsection \<open>Association lists with distinct keys\<close>

lemma map_of_update [simp]: "map_of (AList.update k v al) = (map_of al)(k \<mapsto> v)"
  by (simp add: update_conv')

lemma map_of_delete [simp]: "map_of (AList.delete k al) = (map_of al)(k := None)"
  by (simp add: delete_conv')

lemma in_keys_iff: "k \<in> set (map fst al) \<longleftrightarrow> map_of al k \<noteq> None"
  by (simp add: map_of_eq_None_iff)

lemma keys_update: "set (map fst (AList.update k v al)) = insert k (set (map fst al))"
  by (rule set_eqI) (simp only: in_keys_iff insert_iff map_of_update fun_upd_apply, simp)

lemma keys_delete: "set (map fst (AList.delete k al)) = set (map fst al) - {k}"
  by (rule set_eqI) (simp only: in_keys_iff map_of_delete Diff_iff singleton_iff fun_upd_apply, simp)

lemma distinct_keys_update: "distinct (map fst al) \<Longrightarrow> distinct (map fst (AList.update k v al))"
  by (rule distinct_update)

lemma distinct_keys_delete: "distinct (map fst al) \<Longrightarrow> distinct (map fst (AList.delete k al))"
  by (simp add: distinct_delete)

end
