(* ===== verification/GoPath.thy ===== *)
theory GoPath
  imports Prelude
begin

section \<open>Path strings: the parts of Go's \<open>strings\<close>, \<open>path\<close> and \<open>io/fs\<close> the code calls\<close>

text \<open>
  Every component addresses files by slash-separated strings, checked with \<open>ValidPath\<close>
  (\<open>fs.go\<close>, which calls \<open>io/fs.ValidPath\<close>) and taken apart with \<open>path.Clean\<close>, \<open>Join\<close>, \<open>Dir\<close>,
  \<open>Base\<close> and \<open>Split\<close>. The functions below follow the documented rules of those packages.
  The second half gives the algebra that the components use: valid paths are exactly the strings
  \<open>path_of es\<close> for lists \<open>es\<close> of valid elements, and on them \<open>Join\<close> appends and \<open>Dir\<close>/\<open>Base\<close> split
  off the last element.
\<close>

abbreviation slash :: char where
  "slash \<equiv> CHR ''/''"

abbreviation dot :: string where
  "dot \<equiv> ''.''"

abbreviation dotdot :: string where
  "dotdot \<equiv> ''..''"


subsection \<open>Package \<open>strings\<close>\<close>

definition HasPrefix :: "string \<Rightarrow> string \<Rightarrow> bool" where
  "HasPrefix s p \<longleftrightarrow> take (length p) s = p"

definition HasSuffix :: "string \<Rightarrow> string \<Rightarrow> bool" where
  "HasSuffix s p \<longleftrightarrow> length p \<le> length s \<and> drop (length s - length p) s = p"

definition TrimPrefix :: "string \<Rightarrow> string \<Rightarrow> string" where
  "TrimPrefix s p = (if HasPrefix s p then drop (length p) s else s)"

definition TrimSuffix :: "string \<Rightarrow> string \<Rightarrow> string" where
  "TrimSuffix s p = (if HasSuffix s p then take (length s - length p) s else s)"

fun split_slash :: "string \<Rightarrow> string list" where
  "split_slash [] = [[]]"
| "split_slash (c # cs) =
     (if c = slash then [] # split_slash cs
      else (case split_slash cs of [] \<Rightarrow> [[c]] | w # ws \<Rightarrow> (c # w) # ws))"

fun join_slash :: "string list \<Rightarrow> string" where
  "join_slash [] = []"
| "join_slash [w] = w"
| "join_slash (w # v # ws) = w @ slash # join_slash (v # ws)"


subsection \<open>Package \<open>unicode/utf8\<close>: well-formed byte strings\<close>

text \<open>
  The lead byte decides which ranges the following bytes must lie in (the table of
  \<open>utf8.ValidString\<close>); \<open>utf8_run\<close> reads a string with a list of ranges still to be matched.
\<close>

definition utf8_lead :: "nat \<Rightarrow> (nat \<times> nat) list option" where
  "utf8_lead x =
     (if x < 0x80 then Some []
      else if x < 0xC2 then None
      else if x < 0xE0 then Some [(0x80, 0xBF)]
      else if x < 0xF0 then
        Some [(if x = 0xE0 then 0xA0 else 0x80, if x = 0xED then 0x9F else 0xBF), (0x80, 0xBF)]
      else if x < 0xF5 then
        Some [(if x = 0xF0 then 0x90 else 0x80, if x = 0xF4 then 0x8F else 0xBF),
              (0x80, 0xBF), (0x80, 0xBF)]
      else None)"

fun utf8_run :: "(nat \<times> nat) list \<Rightarrow> string \<Rightarrow> bool" where
  "utf8_run [] [] = True"
| "utf8_run (r # rs) [] = False"
| "utf8_run [] (c # cs) =
     (case utf8_lead (of_char c) of None \<Rightarrow> False | Some rs \<Rightarrow> utf8_run rs cs)"
| "utf8_run (r # rs) (c # cs) =
     (fst r \<le> of_char c \<and> of_char c \<le> snd r \<and> utf8_run rs cs)"

definition utf8_valid :: "string \<Rightarrow> bool" where
  "utf8_valid s = utf8_run [] s"


subsection \<open>Packages \<open>io/fs\<close> and \<open>path\<close>\<close>

definition valid_elem :: "string \<Rightarrow> bool" where
  "valid_elem e \<longleftrightarrow> e \<noteq> [] \<and> e \<noteq> dot \<and> e \<noteq> dotdot"

definition ValidPath :: "string \<Rightarrow> bool" where
  "ValidPath name \<longleftrightarrow>
     utf8_valid name \<and> (name = dot \<or> list_all valid_elem (split_slash name))"

definition clean_step :: "bool \<Rightarrow> string list \<Rightarrow> string \<Rightarrow> string list" where
  "clean_step rooted st e =
     (if e = [] \<or> e = dot then st
      else if e = dotdot then
        (case st of
           [] \<Rightarrow> if rooted then [] else [dotdot]
         | t # ts \<Rightarrow> if t = dotdot then dotdot # st else ts)
      else e # st)"

definition Clean :: "string \<Rightarrow> string" where
  "Clean p =
     (let rooted = (case p of c # _ \<Rightarrow> c = slash | [] \<Rightarrow> False);
          es = rev (foldl (clean_step rooted) [] (split_slash p))
      in if rooted then slash # join_slash es
         else if es = [] then dot else join_slash es)"

definition path_Split :: "string \<Rightarrow> string \<times> string" where
  "path_Split p =
     (let file = rev (takeWhile (\<lambda>c. c \<noteq> slash) (rev p))
      in (take (length p - length file) p, file))"

definition Dir :: "string \<Rightarrow> string" where
  "Dir p = Clean (fst (path_Split p))"

definition Base :: "string \<Rightarrow> string" where
  "Base p =
     (if p = [] then dot
      else (let q = rev (dropWhile (\<lambda>c. c = slash) (rev p)) in
            if q = [] then [slash] else snd (path_Split q)))"

fun join_raw :: "string \<Rightarrow> string list \<Rightarrow> string" where
  "join_raw buf [] = buf"
| "join_raw buf (e # es) =
     join_raw (if buf \<noteq> [] then buf @ slash # e else if e \<noteq> [] then e else buf) es"

definition Join :: "string list \<Rightarrow> string" where
  "Join es = (if concat es = [] then [] else Clean (join_raw [] es))"


subsection \<open>Splitting and joining at slashes\<close>

lemma split_slash_neq_Nil [simp]: "split_slash s \<noteq> []"
  by (cases s) (auto split: list.splits)

lemma split_slash_no_slash: "w \<in> set (split_slash s) \<Longrightarrow> slash \<notin> set w"
  by (induction s arbitrary: w) (auto split: list.splits if_splits)

lemma join_split [simp]: "join_slash (split_slash s) = s"
proof (induction s)
  case (Cons c cs)
  show ?case
  proof (cases "split_slash cs")
    case (Cons w ws)
    with Cons.IH show ?thesis by (cases ws) auto
  qed simp
qed simp

lemma split_slash_word: "slash \<notin> set w \<Longrightarrow> split_slash w = [w]"
  by (induction w) auto

lemma split_slash_append:
  "slash \<notin> set w \<Longrightarrow> split_slash (w @ slash # s) = w # split_slash s"
  by (induction w) auto

lemma split_join:
  "ws \<noteq> [] \<Longrightarrow> \<forall>w\<in>set ws. slash \<notin> set w \<Longrightarrow> split_slash (join_slash ws) = ws"
  by (induction ws rule: join_slash.induct) (auto simp: split_slash_word split_slash_append)

lemma join_slash_append:
  "xs \<noteq> [] \<Longrightarrow> ys \<noteq> [] \<Longrightarrow> join_slash (xs @ ys) = join_slash xs @ slash # join_slash ys"
proof (induction xs rule: join_slash.induct)
  case (2 w)
  then show ?case by (cases ys) auto
qed auto

lemma split_slash_split:
  "split_slash (a @ slash # b) = split_slash a @ split_slash b"
  by (induction a) (auto split: list.splits)


subsection \<open>UTF-8 is compatible with splitting at a slash\<close>

lemma utf8_lead_ge: "utf8_lead x = Some rs \<Longrightarrow> r \<in> set rs \<Longrightarrow> 0x80 \<le> fst r"
  by (auto simp: utf8_lead_def split: if_splits)

lemma utf8_run_split:
  "\<forall>r\<in>set rs. 0x80 \<le> fst r \<Longrightarrow>
   utf8_run rs (a @ slash # b) \<longleftrightarrow> utf8_run rs a \<and> utf8_run [] b"
proof (induction rs a rule: utf8_run.induct)
  case (3 c cs)
  then show ?case by (auto dest: utf8_lead_ge split: option.splits)
qed (auto simp: utf8_lead_def)

lemma utf8_valid_split:
  "utf8_valid (a @ slash # b) \<longleftrightarrow> utf8_valid a \<and> utf8_valid b"
  by (simp add: utf8_valid_def utf8_run_split)

lemma utf8_valid_join:
  "utf8_valid (join_slash ws) \<longleftrightarrow> list_all utf8_valid ws"
proof (induction ws rule: join_slash.induct)
  case 1
  show ?case by (simp add: utf8_valid_def)
next
  case (3 w v ws)
  then show ?case by (simp only: join_slash.simps utf8_valid_split list.pred_inject)
qed simp

lemma utf8_valid_dot [simp]: "utf8_valid dot"
  by (simp add: utf8_valid_def utf8_lead_def)


subsection \<open>Valid paths as lists of elements\<close>

text \<open>
  \<open>path_of\<close> prints a list of elements, \<open>elems\<close> reads it back. \<open>ok_elem\<close> is what one element of a
  valid path satisfies.
\<close>

definition ok_elem :: "string \<Rightarrow> bool" where
  "ok_elem e \<longleftrightarrow> valid_elem e \<and> slash \<notin> set e \<and> utf8_valid e"

definition path_of :: "string list \<Rightarrow> string" where
  "path_of es = (if es = [] then dot else join_slash es)"

definition elems :: "string \<Rightarrow> string list" where
  "elems p = (if p = dot then [] else split_slash p)"

lemma ok_elem_simps:
  "ok_elem e \<Longrightarrow> e \<noteq> []" "ok_elem e \<Longrightarrow> e \<noteq> dot" "ok_elem e \<Longrightarrow> e \<noteq> dotdot"
  "ok_elem e \<Longrightarrow> slash \<notin> set e" "ok_elem e \<Longrightarrow> utf8_valid e" "ok_elem e \<Longrightarrow> valid_elem e"
  by (auto simp: ok_elem_def valid_elem_def)

lemmas ok_elem_no_slash [simp] = ok_elem_simps(4)

lemma not_ok_elem [simp]: "\<not> ok_elem []" "\<not> ok_elem dot" "\<not> ok_elem dotdot"
  by (auto simp: ok_elem_def valid_elem_def)

lemma path_of_Nil [simp]: "path_of [] = dot"
  by (simp add: path_of_def)

lemma path_of_single [simp]: "path_of [e] = e"
  by (simp add: path_of_def)

lemma join_slash_neq_Nil: "list_all ok_elem es \<Longrightarrow> es \<noteq> [] \<Longrightarrow> join_slash es \<noteq> []"
  by (induction es rule: join_slash.induct) auto

lemma join_slash_neq_dot:
  assumes "list_all ok_elem es" "es \<noteq> []" shows "join_slash es \<noteq> dot"
proof
  assume eq: "join_slash es = dot"
  have "split_slash (join_slash es) = es"
    using assms by (intro split_join) (auto simp: list_all_iff)
  with eq have "es = [dot]" by simp
  with assms show False by (simp del: One_nat_def)
qed

lemma split_slash_path_of:
  "list_all ok_elem es \<Longrightarrow> split_slash (path_of es) = (if es = [] then [dot] else es)"
  by (auto simp: path_of_def split_join list_all_iff)

lemma elems_path_of [simp]:
  assumes "list_all ok_elem es" shows "elems (path_of es) = es"
  using assms split_slash_path_of [of es] join_slash_neq_dot [of es]
  by (cases "es = []") (simp_all add: elems_def path_of_def)

lemma ValidPath_elems:
  assumes "ValidPath p" shows "list_all ok_elem (elems p)" "path_of (elems p) = p"
proof -
  have "utf8_valid (join_slash (split_slash p))" using assms by (simp add: ValidPath_def)
  then have "list_all utf8_valid (split_slash p)" by (simp only: utf8_valid_join)
  then show "list_all ok_elem (elems p)"
    using assms by (auto simp: ValidPath_def elems_def ok_elem_def list_all_iff
        dest: split_slash_no_slash)
  show "path_of (elems p) = p"
    by (simp add: elems_def path_of_def)
qed

lemma ValidPath_path_of [simp]: "list_all ok_elem es \<Longrightarrow> ValidPath (path_of es)"
proof (cases "es = []")
  case False
  assume ok: "list_all ok_elem es"
  then have "list_all utf8_valid es" "list_all valid_elem es"
    by (auto simp: list_all_iff ok_elem_def)
  with False ok show ?thesis
    using split_slash_path_of [OF ok] by (simp add: ValidPath_def path_of_def utf8_valid_join)
qed (simp add: ValidPath_def)

lemma ValidPath_iff: "ValidPath p \<longleftrightarrow> (\<exists>es. list_all ok_elem es \<and> p = path_of es)"
  using ValidPath_elems by (metis ValidPath_path_of)

lemma ValidPathE:
  assumes "ValidPath p"
  obtains es where "list_all ok_elem es" "p = path_of es"
  using assms by (auto simp: ValidPath_iff)

lemma path_of_inject:
  "list_all ok_elem es \<Longrightarrow> list_all ok_elem fs \<Longrightarrow> path_of es = path_of fs \<longleftrightarrow> es = fs"
  by (metis elems_path_of)

lemma path_of_eq_dot: "list_all ok_elem es \<Longrightarrow> path_of es = dot \<longleftrightarrow> es = []"
  using path_of_inject [of es "[]"] by simp

lemma path_of_snoc:
  "es \<noteq> [] \<Longrightarrow> path_of (es @ [e]) = path_of es @ slash # e"
  by (simp add: path_of_def join_slash_append)

lemma path_of_append:
  "es \<noteq> [] \<Longrightarrow> fs \<noteq> [] \<Longrightarrow> path_of (es @ fs) = path_of es @ slash # path_of fs"
  by (simp add: path_of_def join_slash_append)

lemma not_ValidPath_Nil [simp]: "\<not> ValidPath []"
  by (simp add: ValidPath_def valid_elem_def)

lemma ValidPath_dot [simp]: "ValidPath dot"
  using ValidPath_path_of [of "[]"] by simp


subsection \<open>\<open>Clean\<close>, \<open>Join\<close>, \<open>Dir\<close> and \<open>Base\<close> on valid paths\<close>

lemma clean_step_ok [simp]: "ok_elem e \<Longrightarrow> clean_step r st e = e # st"
  by (simp add: clean_step_def ok_elem_simps)

lemma clean_step_skip [simp]: "clean_step r st [] = st" "clean_step r st dot = st"
  by (simp_all add: clean_step_def)

lemma foldl_clean_ok:
  "list_all ok_elem es \<Longrightarrow> foldl (clean_step r) st es = rev es @ st"
  by (induction es arbitrary: st) auto

lemma join_slash_hd:
  "list_all ok_elem es \<Longrightarrow> es \<noteq> [] \<Longrightarrow> \<exists>c cs. join_slash es = c # cs \<and> c \<noteq> slash"
proof (induction es rule: join_slash.induct)
  case (2 w)
  then show ?case by (cases w) (auto dest: ok_elem_no_slash)
next
  case (3 w v ws)
  then show ?case by (cases w) (auto dest: ok_elem_no_slash)
qed simp

text \<open>An unrooted path is cleaned element by element, and the result is printed by \<open>path_of\<close>.\<close>

definition rooted_path :: "string \<Rightarrow> bool" where
  "rooted_path p \<longleftrightarrow> (case p of c # _ \<Rightarrow> c = slash | [] \<Rightarrow> False)"

lemma rooted_path_of [simp]: "list_all ok_elem es \<Longrightarrow> \<not> rooted_path (path_of es)"
  using join_slash_hd [of es] by (auto simp: rooted_path_def path_of_def)

lemma rooted_path_append [simp]: "p \<noteq> [] \<Longrightarrow> rooted_path (p @ q) = rooted_path p"
  by (cases p) (auto simp: rooted_path_def)

lemma Clean_unrooted:
  "\<not> rooted_path p \<Longrightarrow> Clean p = path_of (rev (foldl (clean_step False) [] (split_slash p)))"
  by (simp add: Clean_def rooted_path_def path_of_def Let_def)

lemma path_of_neq_Nil [simp]: "list_all ok_elem es \<Longrightarrow> path_of es \<noteq> []"
  by (auto simp: path_of_def join_slash_neq_Nil)

lemma Clean_path_of [path_simps]: "list_all ok_elem es \<Longrightarrow> Clean (path_of es) = path_of es"
  by (simp add: Clean_unrooted split_slash_path_of foldl_clean_ok)

lemma Clean_ValidPath: "ValidPath p \<Longrightarrow> Clean p = p"
  by (auto elim!: ValidPathE simp: path_simps)

text \<open>Joining two valid paths concatenates their elements; the dot is neutral.\<close>

lemma Clean_slash_join:
  assumes "list_all ok_elem es" "list_all ok_elem fs"
  shows "Clean (path_of es @ slash # path_of fs) = path_of (es @ fs)"
  using assms by (simp add: Clean_unrooted split_slash_split split_slash_path_of foldl_clean_ok)

lemma Join_path_of [path_simps]:
  assumes "list_all ok_elem es" "list_all ok_elem fs"
  shows "Join [path_of es, path_of fs] = path_of (es @ fs)"
  using assms by (simp add: Join_def Clean_slash_join)

lemma Join_elem [path_simps]:
  assumes "list_all ok_elem es" "ok_elem e"
  shows "Join [path_of es, e] = path_of (es @ [e])"
  using Join_path_of [of es "[e]"] assms by simp

lemma path_Split_word:
  "slash \<notin> set e \<Longrightarrow> path_Split (d @ slash # e) = (d @ [slash], e)"
proof -
  assume e: "slash \<notin> set e"
  then have "takeWhile (\<lambda>c. c \<noteq> slash) (rev (d @ slash # e)) = rev e"
    using takeWhile_append2 [of "rev e" "\<lambda>c. c \<noteq> slash" "slash # rev d"] by auto
  then show ?thesis by (simp add: path_Split_def)
qed

lemma path_Split_no_slash: "slash \<notin> set e \<Longrightarrow> path_Split e = ([], e)"
proof -
  assume e: "slash \<notin> set e"
  have tw: "takeWhile (\<lambda>c. c \<noteq> slash) (rev e) = rev e"
    using e by (auto simp: takeWhile_eq_all_conv)
  show ?thesis unfolding path_Split_def Let_def tw by simp
qed

lemma Clean_trailing_slash:
  "list_all ok_elem es \<Longrightarrow> Clean (path_of es @ [slash]) = path_of es"
  using split_slash_split [of "path_of es" "[]"]
  by (simp add: Clean_unrooted split_slash_path_of foldl_clean_ok)

lemma Dir_snoc [path_simps]:
  assumes "list_all ok_elem es" "ok_elem e"
  shows "Dir (path_of (es @ [e])) = path_of es"
proof (cases "es = []")
  case True
  then show ?thesis
    using assms by (simp add: Dir_def path_Split_no_slash Clean_def)
next
  case False
  then show ?thesis
    using assms by (simp add: Dir_def path_of_snoc path_Split_word Clean_trailing_slash)
qed

lemma Dir_dot [path_simps]: "Dir dot = dot"
  by (simp add: Dir_def path_Split_no_slash Clean_def)

lemma Base_snoc [path_simps]:
  assumes "list_all ok_elem es" "ok_elem e"
  shows "Base (path_of (es @ [e])) = e"
proof -
  let ?p = "path_of (es @ [e])"
  obtain c cs where e: "rev e = c # cs" using assms by (cases "rev e") auto
  then have "c \<in> set e" by (metis list.set_intros(1) set_rev)
  then have c: "c \<noteq> slash" using assms by auto
  have rev: "\<exists>r. rev ?p = c # r"
    using e by (cases "es = []") (auto simp: path_of_snoc)
  have "snd (path_Split ?p) = e"
    using assms by (cases "es = []") (simp_all add: path_of_snoc path_Split_word path_Split_no_slash)
  moreover have "rev (dropWhile (\<lambda>c. c = slash) (rev ?p)) = ?p"
  proof -
    obtain r where r: "rev ?p = c # r" using rev by blast
    then have "dropWhile (\<lambda>c. c = slash) (rev ?p) = rev ?p" using c by simp
    then show ?thesis by simp
  qed
  ultimately show ?thesis
    using assms by (simp add: Base_def)
qed

lemma ValidPath_cases:
  assumes "ValidPath p"
  obtains (root) "p = dot"
  | (child) es e where "list_all ok_elem es" "ok_elem e" "p = path_of (es @ [e])" "p \<noteq> dot"
proof -
  obtain fs where fs: "list_all ok_elem fs" "p = path_of fs" using assms by (rule ValidPathE)
  show thesis
  proof (cases fs rule: rev_cases)
    case Nil
    with fs root show thesis by simp
  next
    case (snoc es e)
    with fs have ok: "list_all ok_elem es" "ok_elem e" by auto
    moreover have "p \<noteq> dot" using path_of_eq_dot [OF fs(1)] fs(2) snoc by simp
    ultimately show thesis using fs(2) snoc by (intro child) simp_all
  qed
qed

lemma ValidPath_Dir: "ValidPath p \<Longrightarrow> ValidPath (Dir p)"
  by (erule ValidPath_cases) (simp_all add: path_simps)

lemma ValidPath_Join_elem:
  "ValidPath p \<Longrightarrow> ok_elem e \<Longrightarrow> ValidPath (Join [p, e])"
  by (auto elim!: ValidPathE simp: path_simps)

text \<open>The parent of a valid path that is not the root is strictly shorter.\<close>

lemma length_Dir_less: "ValidPath p \<Longrightarrow> p \<noteq> dot \<Longrightarrow> length (elems (Dir p)) < length (elems p)"
  by (erule ValidPath_cases) (simp_all add: path_simps)

lemma Join_Dir_Base:
  "ValidPath p \<Longrightarrow> p \<noteq> dot \<Longrightarrow> Join [Dir p, Base p] = p"
  by (erule ValidPath_cases) (simp_all add: path_simps)

end
