(* ===== verification/FileTypes.thy ===== *)
theory FileTypes
  imports GoPath
begin

section \<open>Modes, flags and errors of package \<open>hackpadfs\<close>\<close>

text \<open>
  The constants of \<open>file.go\<close> (open flags and mode bits), the error values of \<open>errors.go\<close> and of
  \<open>internal/fserrors\<close>, \<open>errors.Is\<close> on them, and \<open>stripErrPathPrefix\<close> of \<open>mount.go\<close>.
  Open flags have the values of the Linux \<open>syscall\<close> package; mode bits are those of \<open>io/fs\<close>.
\<close>

type_synonym flag = "64 word"


subsection \<open>Open flags and file modes (\<open>file.go\<close>)\<close>

definition FlagReadOnly :: flag where "FlagReadOnly = 0"
definition FlagWriteOnly :: flag where "FlagWriteOnly = 1"
definition FlagReadWrite :: flag where "FlagReadWrite = 2"
definition FlagAppend :: flag where "FlagAppend = 0x400"
definition FlagCreate :: flag where "FlagCreate = 0x40"
definition FlagExclusive :: flag where "FlagExclusive = 0x80"
definition FlagSync :: flag where "FlagSync = 0x101000"
definition FlagTruncate :: flag where "FlagTruncate = 0x200"

lemmas flag_defs = FlagReadOnly_def FlagWriteOnly_def FlagReadWrite_def FlagAppend_def
  FlagCreate_def FlagExclusive_def FlagSync_def FlagTruncate_def

definition has_flag :: "flag \<Rightarrow> flag \<Rightarrow> bool" where
  "has_flag flag f \<longleftrightarrow> flag AND f \<noteq> 0"

definition ModeDir :: file_mode where "ModeDir = 0x80000000"
definition ModeSymlink :: file_mode where "ModeSymlink = 0x08000000"
definition ModeDevice :: file_mode where "ModeDevice = 0x04000000"
definition ModeNamedPipe :: file_mode where "ModeNamedPipe = 0x02000000"
definition ModeSocket :: file_mode where "ModeSocket = 0x01000000"
definition ModeSetuid :: file_mode where "ModeSetuid = 0x00800000"
definition ModeSetgid :: file_mode where "ModeSetgid = 0x00400000"
definition ModeCharDevice :: file_mode where "ModeCharDevice = 0x00200000"
definition ModeSticky :: file_mode where "ModeSticky = 0x00100000"
definition ModeIrregular :: file_mode where "ModeIrregular = 0x00080000"
definition ModePerm :: file_mode where "ModePerm = 0x1FF"

definition ModeType :: file_mode where
  "ModeType = ModeDir OR ModeSymlink OR ModeNamedPipe OR ModeSocket OR ModeDevice
     OR ModeCharDevice OR ModeIrregular"

lemmas mode_defs = ModeDir_def ModeSymlink_def ModeDevice_def ModeNamedPipe_def ModeSocket_def
  ModeSetuid_def ModeSetgid_def ModeCharDevice_def ModeSticky_def ModeIrregular_def ModePerm_def

definition IsDir :: "file_mode \<Rightarrow> bool" where
  "IsDir m \<longleftrightarrow> m AND ModeDir \<noteq> 0"

definition IsRegular :: "file_mode \<Rightarrow> bool" where
  "IsRegular m \<longleftrightarrow> m AND ModeType = 0"

definition Type :: "file_mode \<Rightarrow> file_mode" where
  "Type m = m AND ModeType"

lemma ModeType_val: "ModeType = 0x8F280000"
  by (simp add: ModeType_def mode_defs)

lemma mask_disjoint:
  fixes a b c :: "'a::len word"
  assumes "b AND c = 0" shows "(a AND b) AND c = 0"
  using assms by (simp add: and.assoc)

text \<open>A mode built from permission bits only is that of a regular file; adding the directory bit
  makes it a directory.\<close>

lemma IsRegular_perm [simp]: "IsRegular (p AND ModePerm)"
  unfolding IsRegular_def by (rule mask_disjoint) (simp add: ModePerm_def ModeType_val)

lemma IsDir_perm [simp]: "\<not> IsDir (p AND ModePerm)"
proof -
  have "(p AND ModePerm) AND ModeDir = 0"
    by (rule mask_disjoint) (simp add: mode_defs)
  then show ?thesis by (simp add: IsDir_def)
qed

lemma IsDir_ModeDir [simp]: "IsDir (ModeDir OR m)"
proof -
  have "(ModeDir OR m) AND ModeDir = ModeDir"
    by (rule bit_word_eqI) (auto simp: bit_simps)
  then show ?thesis by (simp add: IsDir_def mode_defs)
qed

lemma IsRegular_not_IsDir: "IsRegular m \<Longrightarrow> \<not> IsDir m"
proof -
  assume "IsRegular m"
  have "m AND ModeDir = (m AND ModeType) AND ModeDir"
    by (rule bit_word_eqI) (auto simp: bit_simps ModeType_def)
  with \<open>IsRegular m\<close> show ?thesis by (simp add: IsRegular_def IsDir_def)
qed


subsection \<open>Error values\<close>

text \<open>
  \<open>ErrInvalid\<close>, \<open>ErrIsDir\<close>, \<open>ErrNotDir\<close>, \<open>ErrNotEmpty\<close> and \<open>ErrNotImplemented\<close> are \<open>syscall.Errno\<close>
  values, the others are plain sentinels. \<open>ErrorString\<close> is \<open>errors.New\<close> or \<open>fmt.Errorf\<close>,
  \<open>Canceled\<close> is \<open>context.Canceled\<close>, \<open>Errno\<close> is any other \<open>syscall.Errno\<close> of Windows by its system error
  code, \<open>mappedErr\<close> is the type of \<open>os/errors_windows.go\<close>. A Go \<open>error\<close> is an \<open>err option\<close>: nil is \<^const>\<open>None\<close>.
\<close>

datatype err =
    ErrInvalid | ErrPermission | ErrExist | ErrNotExist | ErrClosed
  | ErrIsDir | ErrNotDir | ErrNotEmpty | ErrNotImplemented | SkipDir
  | EOF | Canceled
  | ErrorString string
  | PathError (err_op: string) (err_path: string) (err_err: err)
  | LinkError string string string err
  | messageError err string
  | Errno nat
  | mappedErr (normalized: err) (original: err)

primrec Unwrap :: "err \<Rightarrow> err option" where
  "Unwrap ErrInvalid = None"
| "Unwrap ErrPermission = None"
| "Unwrap ErrExist = None"
| "Unwrap ErrNotExist = None"
| "Unwrap ErrClosed = None"
| "Unwrap ErrIsDir = None"
| "Unwrap ErrNotDir = None"
| "Unwrap ErrNotEmpty = None"
| "Unwrap ErrNotImplemented = None"
| "Unwrap SkipDir = None"
| "Unwrap EOF = None"
| "Unwrap Canceled = None"
| "Unwrap (ErrorString s) = None"
| "Unwrap (PathError op p e) = Some e"
| "Unwrap (LinkError op old new e) = Some e"
| "Unwrap (messageError e m) = Some e"
| "Unwrap (Errno n) = None"
| "Unwrap (mappedErr n orig) = Some orig"

text \<open>
  \<open>syscall.Errno.Is\<close>: \<open>ENOTEMPTY\<close> also counts as \<open>ErrExist\<close>, and so do the Windows codes for "access
  denied", "file not found" and "already exists" for their sentinels. \<open>mappedErr.Is\<close> asks whether the
  target is the normalized error, and \<open>errors.Is\<close> goes on with the original one.
\<close>

definition Errno_Is :: "err \<Rightarrow> err \<Rightarrow> bool" where
  [simp]: "Errno_Is e target \<longleftrightarrow> e = ErrNotEmpty \<and> target = ErrExist
     \<or> target = ErrPermission \<and> e = Errno 5
     \<or> target = ErrExist \<and> e \<in> {Errno 183, Errno 145, Errno 80}
     \<or> target = ErrNotExist \<and> e \<in> {Errno 2, Errno 3, Errno 53}"

function (sequential) errors_Is :: "err \<Rightarrow> err \<Rightarrow> bool" where
  "errors_Is (PathError op p e) target = errors_Is e target"
| "errors_Is (LinkError op old new e) target = errors_Is e target"
| "errors_Is (messageError e m) target = errors_Is e target"
| "errors_Is (mappedErr n orig) target = (errors_Is target n \<or> errors_Is orig target)"
| "errors_Is e target = (e = target \<or> Errno_Is e target)"
  by pat_completeness auto
termination by (relation "measure (\<lambda>(e, t). size e + size t)") auto

definition is_err :: "err option \<Rightarrow> err \<Rightarrow> bool" where
  "is_err e target = (case e of None \<Rightarrow> False | Some e \<Rightarrow> errors_Is e target)"

lemma is_err_simps [simp]: "\<not> is_err None t" "is_err (Some e) t = errors_Is e t"
  by (simp_all add: is_err_def)

lemma errors_Is_Unwrap: "Unwrap e = Some e' \<Longrightarrow> errors_Is e' t \<Longrightarrow> errors_Is e t"
  by (cases e) auto

primrec Error :: "err \<Rightarrow> string" where
  "Error ErrInvalid = ''invalid argument''"
| "Error ErrPermission = ''permission denied''"
| "Error ErrExist = ''file already exists''"
| "Error ErrNotExist = ''file does not exist''"
| "Error ErrClosed = ''file already closed''"
| "Error ErrIsDir = ''is a directory''"
| "Error ErrNotDir = ''not a directory''"
| "Error ErrNotEmpty = ''directory not empty''"
| "Error ErrNotImplemented = ''function not implemented''"
| "Error SkipDir = ''skip this directory''"
| "Error EOF = ''EOF''"
| "Error Canceled = ''context canceled''"
| "Error (ErrorString s) = s"
| "Error (PathError op p e) = op @ '' '' @ p @ '': '' @ Error e"
| "Error (LinkError op old new e) = op @ '' '' @ old @ '' '' @ new @ '': '' @ Error e"
| "Error (messageError e m) = m @ '': '' @ Error e"
| "Error (Errno n) = ''winapi error #'' @ fmt_d (int n)"
| "Error (mappedErr n orig) = Error n @ '': '' @ Error orig"

text \<open>\<open>internal/fserrors\<close>.\<close>

definition WithMessage :: "err option \<Rightarrow> string \<Rightarrow> err option" where
  "WithMessage e message = (case e of None \<Rightarrow> None | Some e \<Rightarrow> Some (messageError e message))"

lemma WithMessage_is_err [simp]: "is_err (WithMessage e m) t = is_err e t"
  by (simp add: WithMessage_def split: option.split)


subsection \<open>\<open>stripErrPathPrefix\<close> (\<open>mount.go\<close>)\<close>

definition stripErrPathPrefix :: "err option \<Rightarrow> string \<Rightarrow> string \<Rightarrow> err option" where
  "stripErrPathPrefix e name mountSubPath =
     (case e of
        None \<Rightarrow> None
      | Some e \<Rightarrow>
          (let prefix = TrimSuffix mountSubPath name in
           Some (case e of
               PathError op p e' \<Rightarrow> PathError op (TrimPrefix p prefix) e'
             | LinkError op old new e' \<Rightarrow>
                 LinkError op (TrimPrefix old prefix) (TrimPrefix new prefix) e'
             | _ \<Rightarrow> e)))"

lemma stripErrPathPrefix_is_err [simp]:
  "is_err (stripErrPathPrefix e name sub) t = is_err e t"
  by (simp add: stripErrPathPrefix_def Let_def split: option.split err.split)

lemma TrimSuffix_append [simp]: "TrimSuffix (p @ s) s = p"
  by (simp add: TrimSuffix_def HasSuffix_def)

lemma TrimPrefix_append [simp]: "TrimPrefix (p @ s) p = s"
  by (simp add: TrimPrefix_def HasPrefix_def)

lemma TrimPrefix_Nil [simp]: "TrimPrefix s [] = s"
  by (simp add: TrimPrefix_def HasPrefix_def)

lemma HasPrefix_iff: "HasPrefix s p \<longleftrightarrow> prefix p s"
  by (auto simp: HasPrefix_def prefix_def) (metis append_take_drop_id)

lemma HasSuffix_iff: "HasSuffix s p \<longleftrightarrow> suffix p s"
proof
  assume "HasSuffix s p"
  then show "suffix p s" unfolding HasSuffix_def suffix_def by (metis append_take_drop_id)
qed (auto simp: HasSuffix_def suffix_def)

text \<open>
  Errors of a file system rooted at a directory name the caller's path: when the inner file system reports an error at
  \<open>Join(base, name)\<close>, stripping gives back \<open>name\<close>, for a path error and for both names of a link error, and the wrapped
  cause is unchanged.
\<close>

theorem stripErrPathPrefix_sub:
  assumes "list_all ok_elem bs" "list_all ok_elem es" "es \<noteq> []"
    and "sub = Join [path_of bs, path_of es]"
  shows "stripErrPathPrefix (Some (PathError op sub e)) (path_of es) sub
           = Some (PathError op (path_of es) e)
       \<and> stripErrPathPrefix (Some (LinkError op sub sub e)) (path_of es) sub
           = Some (LinkError op (path_of es) (path_of es) e)"
proof -
  obtain pre where "sub = pre @ path_of es"
  proof (cases "bs = []")
    case True
    with assms that [of "[]"] Join_path_of [of "[]" es] show thesis by simp
  next
    case False
    with assms that [of "path_of bs @ [slash]"] show thesis
      by (simp add: Join_path_of path_of_append)
  qed
  then show ?thesis by (simp add: stripErrPathPrefix_def)
qed

theorem stripErrPathPrefix_sub_witness:
  "stripErrPathPrefix (Some (PathError ''open'' ''biff/baz/bar'' ErrNotExist)) ''baz/bar''
     ''biff/baz/bar'' = Some (PathError ''open'' ''baz/bar'' ErrNotExist)"
  using stripErrPathPrefix_sub [of "[''biff'']" "[''baz'', ''bar'']" "''biff/baz/bar''" "''open''"
      ErrNotExist]
  by (simp add: ok_elem_def valid_elem_def utf8_valid_def utf8_lead_def path_of_def Join_def
      Clean_def clean_step_def)

text \<open>
  Under a mount point the stripping loses the path. \<open>mount.FS\<close> hands the inner file system the
  part of the name below the mount point, so the name is longer than the sub-path and the whole
  sub-path is taken for the prefix: the caller sees an empty path instead of the name it passed.
\<close>

theorem stripErrPathPrefix_mount_empty:
  assumes "name = mnt @ slash # sub"
  shows "stripErrPathPrefix (Some (PathError op sub e)) name sub = Some (PathError op '''' e)"
proof -
  have "\<not> HasSuffix sub name" using assms by (simp add: HasSuffix_def)
  then show ?thesis
    using TrimPrefix_append [of sub "[]"] by (simp add: stripErrPathPrefix_def TrimSuffix_def)
qed

theorem stripErrPathPrefix_mount_empty_witness:
  "stripErrPathPrefix (Some (PathError ''mkdir'' ''foo'' ErrExist)) ''mnt/foo'' ''foo''
     = Some (PathError ''mkdir'' '''' ErrExist)"
  using stripErrPathPrefix_mount_empty [of "''mnt/foo''" "''mnt''" "''foo''" "''mkdir''" ErrExist]
  by simp

end
