(* ===== verification/Blob.thy ===== *)
theory Blob
  imports FileTypes
begin

section \<open>Package \<open>keyvalue/blob\<close>: byte blobs over Go slices\<close>

text \<open>
  A \<open>Bytes\<close> blob is a pointer to a struct holding a byte slice, its length and a mutex. Slices
  share backing arrays (\<open>View\<close> returns a slice of the same array, \<open>append\<close> writes in place while
  capacity lasts), so the model keeps an explicit memory: arrays by address, \<open>Bytes\<close> structs by
  address, and mutexes by identity. The capacity that \<open>append\<close> reserves beyond the requested length
  is not fixed by the language: it is the component \<open>h_spare\<close>, over which every theorem quantifies.

  \<^item> Methods return \<^const>\<open>None\<close> where the code panics (a slice expression or a \<open>make\<close> out of
    range) or blocks for ever (locking a mutex the same call already holds).
  \<^item> \<open>content\<close> is the abstraction of a blob to its list of bytes; \<open>wf_heap\<close> is the memory
    invariant; \<open>apart\<close> says that two blobs do not share a backing array.
  \<^item> The locale \<open>blob_contract\<close> states what a client relies on, and is interpreted by the methods of
    \<open>Bytes\<close>.
\<close>

subsection \<open>Memory\<close>

record slice =
  sl_arr :: nat
  sl_off :: nat
  sl_len :: nat
  sl_cap :: nat

record Bytes =
  bytes_f :: slice
  length_f :: int
  mu_f :: nat

record heap =
  h_arr :: "nat \<Rightarrow> byte list"
  h_narr :: nat
  h_obj :: "nat \<Rightarrow> Bytes"
  h_nobj :: nat
  h_nmu :: nat
  h_spare :: "nat \<Rightarrow> nat"

type_synonym bref = nat

definition slice_get :: "heap \<Rightarrow> slice \<Rightarrow> byte list" where
  "slice_get h s = slice_of (sl_off s) (sl_off s + sl_len s) (h_arr h (sl_arr s))"

definition new_array :: "byte list \<Rightarrow> nat \<Rightarrow> heap \<Rightarrow> slice \<times> heap" where
  "new_array xs spare h =
     (\<lparr>sl_arr = h_narr h, sl_off = 0, sl_len = length xs, sl_cap = length xs + spare\<rparr>,
      h\<lparr>h_arr := (h_arr h)(h_narr h := xs @ replicate spare 0), h_narr := Suc (h_narr h)\<rparr>)"

text \<open>The slice expression \<open>s[i:j]\<close>: the upper bound is checked against the capacity.\<close>

definition reslice :: "slice \<Rightarrow> int \<Rightarrow> int \<Rightarrow> slice option" where
  "reslice s i j =
     (if 0 \<le> i \<and> i \<le> j \<and> j \<le> int (sl_cap s)
      then Some (s\<lparr>sl_off := sl_off s + nat i, sl_len := nat (j - i), sl_cap := sl_cap s - nat i\<rparr>)
      else None)"

text \<open>The builtin \<open>copy(dst, xs)\<close> and \<open>append(s, xs...)\<close>.\<close>

definition copy_into :: "slice \<Rightarrow> byte list \<Rightarrow> heap \<Rightarrow> nat \<times> heap" where
  "copy_into dst xs h =
     (let ys = take (sl_len dst) xs in
      (length ys,
       h\<lparr>h_arr := (h_arr h)(sl_arr dst := overwrite (sl_off dst) ys (h_arr h (sl_arr dst)))\<rparr>))"

definition append_slice :: "slice \<Rightarrow> byte list \<Rightarrow> heap \<Rightarrow> slice \<times> heap" where
  "append_slice s xs h =
     (if sl_len s + length xs \<le> sl_cap s
      then (s\<lparr>sl_len := sl_len s + length xs\<rparr>,
            h\<lparr>h_arr := (h_arr h)(sl_arr s :=
                 overwrite (sl_off s + sl_len s) xs (h_arr h (sl_arr s)))\<rparr>)
      else new_array (slice_get h s @ xs) (h_spare h (sl_len s + length xs)) h)"

definition alloc_Bytes :: "Bytes \<Rightarrow> heap \<Rightarrow> bref \<times> heap" where
  "alloc_Bytes b h = (h_nobj h, h\<lparr>h_obj := (h_obj h)(h_nobj h := b), h_nobj := Suc (h_nobj h)\<rparr>)"


subsection \<open>Constructors and methods (\<open>bytes.go\<close>)\<close>

definition NewBytes :: "slice \<Rightarrow> heap \<Rightarrow> bref \<times> heap" where
  "NewBytes buf h =
     alloc_Bytes \<lparr>bytes_f = buf, length_f = int (sl_len buf), mu_f = h_nmu h\<rparr>
       (h\<lparr>h_nmu := Suc (h_nmu h)\<rparr>)"

text \<open>\<open>NewBytes\<close> applied to a buffer the caller allocated for it; \<open>NewBytes(nil)\<close> is the empty case.\<close>

definition NewBytes_of :: "byte list \<Rightarrow> heap \<Rightarrow> bref \<times> heap" where
  "NewBytes_of xs h = (let (buf, h) = new_array xs 0 h in NewBytes buf h)"

definition NewBytesLength :: "int \<Rightarrow> heap \<Rightarrow> (bref \<times> heap) option" where
  "NewBytesLength n h = (if n < 0 then None else Some (NewBytes_of (replicate (nat n) 0) h))"

definition Bytes_Len :: "heap \<Rightarrow> bref \<Rightarrow> int" where
  "Bytes_Len h b = length_f (h_obj h b)"

definition Bytes_View :: "bref \<Rightarrow> int \<Rightarrow> int \<Rightarrow> heap \<Rightarrow> ((err + bref) \<times> heap) option" where
  "Bytes_View b start end h =
     (if start < 0 \<or> start > Bytes_Len h b
      then Some (Inl (ErrorString (''Start index out of bounds: '' @ fmt_d start)), h)
      else if end < 0 \<or> end > Bytes_Len h b
      then Some (Inl (ErrorString (''End index out of bounds: '' @ fmt_d end)), h)
      else do {
        buf \<leftarrow> reslice (bytes_f (h_obj h b)) start end;
        let (newB, h) = alloc_Bytes
              \<lparr>bytes_f = buf, length_f = int (sl_len buf), mu_f = mu_f (h_obj h b)\<rparr> h;
        Some (Inr newB, h)
      })"

definition Bytes_Slice :: "bref \<Rightarrow> int \<Rightarrow> int \<Rightarrow> heap \<Rightarrow> ((err + bref) \<times> heap) option" where
  "Bytes_Slice b start end h =
     (if start < 0 \<or> start > Bytes_Len h b
      then Some (Inl (ErrorString (''Start index out of bounds: '' @ fmt_d start)), h)
      else if end < 0 \<or> end > Bytes_Len h b
      then Some (Inl (ErrorString (''End index out of bounds: '' @ fmt_d end)), h)
      else if end - start < 0 then None
      else
        let (buf, h) = new_array (replicate (nat (end - start)) 0) 0 h;
            (_, h) = copy_into buf (slice_get h (bytes_f (h_obj h b))) h;
            (newB, h) = NewBytes buf h
        in Some (Inr newB, h))"

definition Bytes_Bytes :: "bref \<Rightarrow> heap \<Rightarrow> (slice \<times> heap) option" where
  "Bytes_Bytes b h =
     do {
       (r, h) \<leftarrow> Bytes_Slice b 0 (Bytes_Len h b) h;
       (case r of Inl _ \<Rightarrow> None | Inr newB \<Rightarrow> Some (bytes_f (h_obj h newB), h))
     }"

text \<open>
  \<open>Set\<close> calls \<open>src.Bytes()\<close>, which locks the mutex of \<open>src\<close>, while it holds the mutex of \<open>b\<close>: when
  the two blobs share their mutex, the call blocks for ever.
\<close>

definition Bytes_Set :: "bref \<Rightarrow> bref \<Rightarrow> int \<Rightarrow> heap \<Rightarrow> ((int \<times> err option) \<times> heap) option" where
  "Bytes_Set b src destStart h =
     (if destStart < 0 then Some ((0, Some (ErrorString ''negative offset'')), h)
      else if destStart \<ge> Bytes_Len h b \<and> destStart = 0 \<and> Bytes_Len h src > 0
      then Some ((0, Some (ErrorString (''Offset out of bounds: '' @ fmt_d destStart))), h)
      else if mu_f (h_obj h src) = mu_f (h_obj h b) then None
      else do {
        dst \<leftarrow> reslice (bytes_f (h_obj h b)) destStart (int (sl_len (bytes_f (h_obj h b))));
        (buf, h) \<leftarrow> Bytes_Bytes src h;
        let (n, h) = copy_into dst (slice_get h buf) h;
        Some ((int n, None), h)
      })"

definition Bytes_Grow :: "bref \<Rightarrow> int \<Rightarrow> heap \<Rightarrow> (err option \<times> heap) option" where
  "Bytes_Grow b offset h =
     (if offset < 0 then None
      else let (s, h) = append_slice (bytes_f (h_obj h b)) (replicate (nat offset) 0) h
           in Some (None,
                h\<lparr>h_obj := (h_obj h)(b := (h_obj h b)\<lparr>bytes_f := s, length_f := int (sl_len s)\<rparr>)\<rparr>))"

definition Bytes_Truncate :: "bref \<Rightarrow> int \<Rightarrow> heap \<Rightarrow> (err option \<times> heap) option" where
  "Bytes_Truncate b sz h =
     (if Bytes_Len h b < sz then Some (None, h)
      else do {
        s \<leftarrow> reslice (bytes_f (h_obj h b)) 0 sz;
        Some (None,
          h\<lparr>h_obj := (h_obj h)(b := (h_obj h b)\<lparr>bytes_f := s, length_f := int (sl_len s)\<rparr>)\<rparr>)
      })"


subsection \<open>Invariant and abstraction\<close>

definition wf_slice :: "heap \<Rightarrow> slice \<Rightarrow> bool" where
  "wf_slice h s \<longleftrightarrow> sl_arr s < h_narr h \<and> sl_len s \<le> sl_cap s
     \<and> sl_off s + sl_cap s \<le> length (h_arr h (sl_arr s))"

definition wf_obj :: "heap \<Rightarrow> Bytes \<Rightarrow> bool" where
  "wf_obj h b \<longleftrightarrow> wf_slice h (bytes_f b) \<and> length_f b = int (sl_len (bytes_f b)) \<and> mu_f b < h_nmu h"

definition wf_heap :: "heap \<Rightarrow> bool" where
  "wf_heap h \<longleftrightarrow> (\<forall>b < h_nobj h. wf_obj h (h_obj h b))"

definition live :: "heap \<Rightarrow> bref \<Rightarrow> bool" where
  "live h b \<longleftrightarrow> b < h_nobj h"

definition content :: "heap \<Rightarrow> bref \<Rightarrow> byte list" where
  "content h b = slice_get h (bytes_f (h_obj h b))"

definition apart :: "heap \<Rightarrow> bref \<Rightarrow> bref \<Rightarrow> bool" where
  "apart h a b \<longleftrightarrow> sl_arr (bytes_f (h_obj h a)) \<noteq> sl_arr (bytes_f (h_obj h b))"

definition same_mutex :: "heap \<Rightarrow> bref \<Rightarrow> bref \<Rightarrow> bool" where
  "same_mutex h a b \<longleftrightarrow> mu_f (h_obj h a) = mu_f (h_obj h b)"

text \<open>
  The frame of an operation that changes at most blob \<open>b\<close>: every other blob keeps its struct, and
  its bytes too unless it shares the backing array of \<open>b\<close>; no blob disappears.
\<close>

definition frame :: "heap \<Rightarrow> heap \<Rightarrow> bref \<Rightarrow> bool" where
  "frame h h' b \<longleftrightarrow>
     h_nobj h \<le> h_nobj h' \<and>
     (\<forall>a. live h a \<longrightarrow> a \<noteq> b \<longrightarrow> h_obj h' a = h_obj h a) \<and>
     (\<forall>a. live h a \<longrightarrow> a \<noteq> b \<longrightarrow> apart h a b \<longrightarrow> content h' a = content h a \<and> apart h' a b) \<and>
     mu_f (h_obj h' b) = mu_f (h_obj h b)"

text \<open>Nothing that exists changes.\<close>

definition extends :: "heap \<Rightarrow> heap \<Rightarrow> bool" where
  "extends h h' \<longleftrightarrow>
     h_nobj h \<le> h_nobj h' \<and> h_narr h \<le> h_narr h' \<and> h_nmu h \<le> h_nmu h' \<and>
     (\<forall>x. x < h_narr h \<longrightarrow> h_arr h' x = h_arr h x) \<and>
     (\<forall>a. live h a \<longrightarrow> h_obj h' a = h_obj h a \<and> content h' a = content h a)"

lemma extends_refl [simp]: "extends h h"
  by (simp add: extends_def)

lemma extends_trans: "extends h h1 \<Longrightarrow> extends h1 h2 \<Longrightarrow> extends h h2"
  by (auto simp: extends_def live_def)

lemma extends_live: "extends h h' \<Longrightarrow> live h a \<Longrightarrow> live h' a"
  by (auto simp: extends_def live_def)

lemma extends_content: "extends h h' \<Longrightarrow> live h a \<Longrightarrow> content h' a = content h a"
  by (simp add: extends_def)

lemma extends_obj: "extends h h' \<Longrightarrow> live h a \<Longrightarrow> h_obj h' a = h_obj h a"
  by (simp add: extends_def)

lemma extends_apart: "extends h h' \<Longrightarrow> live h a \<Longrightarrow> live h b \<Longrightarrow> apart h' a b = apart h a b"
  by (simp add: apart_def extends_obj)

lemma extends_frame: "extends h h' \<Longrightarrow> live h b \<Longrightarrow> frame h h' b"
  by (simp add: extends_def frame_def apart_def)

lemma frame_live: "frame h h' b \<Longrightarrow> live h a \<Longrightarrow> live h' a"
  by (auto simp: frame_def live_def)

lemma frame_extends_trans:
  assumes "extends h h1" "frame h1 h2 b" "live h b"
  shows "frame h h2 b"
proof -
  have l: "\<And>a. live h a \<Longrightarrow> live h1 a" using assms(1) by (rule extends_live)
  have ap: "\<And>a. live h a \<Longrightarrow> apart h1 a b = apart h a b"
    using extends_apart [OF assms(1)] assms(3) by blast
  have "h_nobj h \<le> h_nobj h1" using assms(1) by (simp add: extends_def)
  then show ?thesis
    using assms(2) l ap extends_obj [OF assms(1)] extends_content [OF assms(1)] assms(3)
    unfolding frame_def by (metis le_trans)
qed

lemma frame_trans:
  assumes "frame h h1 b" "frame h1 h2 b"
  shows "frame h h2 b"
proof -
  have l: "\<And>a. live h a \<Longrightarrow> live h1 a" using assms(1) by (rule frame_live)
  then show ?thesis using assms unfolding frame_def by (metis le_trans)
qed

lemma wf_objD: "wf_heap h \<Longrightarrow> live h b \<Longrightarrow> wf_obj h (h_obj h b)"
  by (simp add: wf_heap_def live_def)

lemma wf_live_sliceD:
  assumes "wf_heap h" "live h b"
  shows "wf_slice h (bytes_f (h_obj h b))" "length_f (h_obj h b) = int (sl_len (bytes_f (h_obj h b)))"
    "mu_f (h_obj h b) < h_nmu h"
  using wf_objD [OF assms] by (auto simp: wf_obj_def)

lemma length_slice_get: "wf_slice h s \<Longrightarrow> length (slice_get h s) = sl_len s"
  by (auto simp: wf_slice_def slice_get_def)

lemma length_content [heap_simps]:
  "wf_heap h \<Longrightarrow> live h b \<Longrightarrow> length (content h b) = sl_len (bytes_f (h_obj h b))"
  by (simp add: content_def length_slice_get wf_live_sliceD)

lemma Bytes_Len_content [heap_simps]:
  "wf_heap h \<Longrightarrow> live h b \<Longrightarrow> Bytes_Len h b = int (length (content h b))"
  by (simp add: Bytes_Len_def length_content wf_live_sliceD)


subsection \<open>Allocation\<close>

lemma NewBytes_of_spec:
  assumes "wf_heap h" "NewBytes_of xs h = (b, h')"
  shows "wf_heap h'" "extends h h'" "\<not> live h b" "live h' b" "content h' b = xs"
    and "live h a \<Longrightarrow> apart h' a b" "live h a \<Longrightarrow> \<not> same_mutex h' a b"
proof -
  have h': "b = h_nobj h" "h' = h\<lparr>h_nmu := Suc (h_nmu h),
      h_arr := (h_arr h)(h_narr h := xs), h_narr := Suc (h_narr h),
      h_obj := (h_obj h)(h_nobj h := \<lparr>bytes_f = \<lparr>sl_arr = h_narr h, sl_off = 0,
         sl_len = length xs, sl_cap = length xs\<rparr>, length_f = int (length xs), mu_f = h_nmu h\<rparr>),
      h_nobj := Suc (h_nobj h)\<rparr>"
    using assms(2) by (auto simp: NewBytes_of_def new_array_def NewBytes_def alloc_Bytes_def)
  have old: "wf_obj h (h_obj h a)" if "a < h_nobj h" for a
    using assms(1) that by (simp add: wf_heap_def)
  have arr: "sl_arr (bytes_f (h_obj h a)) \<noteq> h_narr h" if "a < h_nobj h" for a
    using old [OF that] by (simp add: wf_obj_def wf_slice_def)
  show "wf_heap h'"
    using old arr by (auto simp: wf_heap_def wf_obj_def wf_slice_def h' less_Suc_eq)
  show "extends h h'"
    using arr by (auto simp: extends_def live_def content_def slice_get_def h')
  show "\<not> live h b" "live h' b" by (simp_all add: live_def h')
  show "content h' b = xs" by (simp add: content_def slice_get_def h')
  show "live h a \<Longrightarrow> apart h' a b" "live h a \<Longrightarrow> \<not> same_mutex h' a b"
    using old [of a] by (auto simp: live_def apart_def same_mutex_def h' wf_obj_def wf_slice_def)
qed

lemma Bytes_Slice_eq:
  assumes "wf_heap h" "live h b" "0 \<le> i" "i \<le> j" "j \<le> Bytes_Len h b"
  shows "Bytes_Slice b i j h =
    Some (let (b', h') = NewBytes_of (take (nat (j - i)) (content h b)) h in (Inr b', h'))"
proof -
  let ?n = "nat (j - i)"
  have arr: "sl_arr (bytes_f (h_obj h b)) < h_narr h"
    using wf_live_sliceD(1) [OF assms(1,2)] by (simp add: wf_slice_def)
  have n: "?n \<le> length (content h b)"
    using assms by (simp add: Bytes_Len_content)
  have get: "slice_get (h\<lparr>h_arr := (h_arr h)(h_narr h := zs), h_narr := Suc (h_narr h)\<rparr>)
      (bytes_f (h_obj h b)) = content h b" for zs
    using arr by (simp add: slice_get_def content_def)
  have over: "overwrite 0 (take ?n (content h b)) (replicate ?n 0) = take ?n (content h b)"
    using n by (simp add: overwrite_def)
  show ?thesis
    using assms n over
    by (simp add: Bytes_Slice_def new_array_def copy_into_def NewBytes_of_def Let_def get
        NewBytes_def alloc_Bytes_def)
qed

lemma Bytes_Bytes_eq:
  assumes "wf_heap h" "live h b"
  obtains buf h' where "Bytes_Bytes b h = Some (buf, h')" "wf_heap h'" "extends h h'"
    "slice_get h' buf = content h b"
proof -
  obtain b' h' where new: "NewBytes_of (content h b) h = (b', h')" by fastforce
  have "Bytes_Slice b 0 (Bytes_Len h b) h = Some (Inr b', h')"
    using Bytes_Slice_eq [OF assms, of 0 "Bytes_Len h b"] new assms
    by (simp add: Bytes_Len_content)
  then have "Bytes_Bytes b h = Some (bytes_f (h_obj h' b'), h')"
    by (simp add: Bytes_Bytes_def)
  then show thesis
    using that NewBytes_of_spec [OF assms(1) new] by (simp add: content_def)
qed


subsection \<open>Views\<close>

lemma Bytes_View_spec:
  assumes "wf_heap h" "live h b" "0 \<le> i" "i \<le> j" "j \<le> Bytes_Len h b"
  obtains v h' where "Bytes_View b i j h = Some (Inr v, h')" "wf_heap h'" "extends h h'"
    "\<not> live h v" "live h' v" "content h' v = slice_of (nat i) (nat j) (content h b)"
    "same_mutex h' v b"
    "bytes_f (h_obj h' v) = (bytes_f (h_obj h b))
        \<lparr>sl_off := sl_off (bytes_f (h_obj h b)) + nat i, sl_len := nat (j - i),
         sl_cap := sl_cap (bytes_f (h_obj h b)) - nat i\<rparr>"
proof -
  let ?s = "bytes_f (h_obj h b)"
  let ?v = "?s\<lparr>sl_off := sl_off ?s + nat i, sl_len := nat (j - i), sl_cap := sl_cap ?s - nat i\<rparr>"
  let ?h = "h\<lparr>h_obj := (h_obj h)(h_nobj h :=
      \<lparr>bytes_f = ?v, length_f = int (nat (j - i)), mu_f = mu_f (h_obj h b)\<rparr>),
      h_nobj := Suc (h_nobj h)\<rparr>"
  have s: "wf_slice h ?s" "mu_f (h_obj h b) < h_nmu h" using wf_live_sliceD [OF assms(1,2)] by auto
  have len: "nat j \<le> sl_len ?s"
    using assms by (simp add: Bytes_Len_content length_content)
  have "Bytes_View b i j h = Some (Inr (h_nobj h), ?h)"
    using assms s len by (auto simp: Bytes_View_def reslice_def alloc_Bytes_def wf_slice_def)
  moreover have "wf_heap ?h"
    using assms(1) s len assms(3,4)
    by (auto simp: wf_heap_def wf_obj_def wf_slice_def less_Suc_eq)
  moreover have "extends h ?h"
    by (auto simp: extends_def live_def content_def slice_get_def)
  moreover have "content ?h (h_nobj h) = slice_of (nat i) (nat j) (content h b)"
    using len assms(3,4)
    by (simp add: content_def slice_get_def slice_of_slice_of nat_diff_distrib add.assoc)
  moreover have "same_mutex ?h (h_nobj h) b"
    using assms(2) by (simp add: same_mutex_def live_def)
  ultimately show thesis
    using that [of "h_nobj h" ?h] by (simp add: live_def)
qed


subsection \<open>Mutation: \<open>Set\<close>, \<open>Grow\<close> and \<open>Truncate\<close>\<close>

text \<open>Writing into a backing array keeps the invariant and every blob on another array.\<close>

lemma write_array:
  assumes "wf_heap h" "live h b" "n + length ys \<le> length (h_arr h (sl_arr (bytes_f (h_obj h b))))"
    and "h' = h\<lparr>h_arr := (h_arr h)(sl_arr (bytes_f (h_obj h b)) :=
            overwrite n ys (h_arr h (sl_arr (bytes_f (h_obj h b)))))\<rparr>"
  shows "wf_heap h'" "frame h h' b"
proof -
  show "wf_heap h'"
    using assms(1,3,4) by (auto simp: wf_heap_def wf_obj_def wf_slice_def)
  show "frame h h' b"
    using assms(4) by (auto simp: frame_def apart_def content_def slice_get_def)
qed

lemma Bytes_Set_spec:
  assumes wf: "wf_heap h" and b: "live h b" and src: "live h src" and d: "0 \<le> d" "d \<le> Bytes_Len h b"
    and mu: "\<not> same_mutex h src b" and ne: "d = 0 \<Longrightarrow> content h b = [] \<Longrightarrow> content h src = []"
  obtains h' where
    "Bytes_Set b src d h = Some ((int (min (length (content h b) - nat d) (length (content h src))), None), h')"
    "wf_heap h'" "frame h h' b" "\<And>a. live h a \<Longrightarrow> h_obj h' a = h_obj h a"
    "content h' b = overwrite (nat d) (take (length (content h b) - nat d) (content h src)) (content h b)"
    "h_arr h' (sl_arr (bytes_f (h_obj h b))) =
       overwrite (sl_off (bytes_f (h_obj h b)) + nat d)
         (take (length (content h b) - nat d) (content h src)) (h_arr h (sl_arr (bytes_f (h_obj h b))))"
proof -
  obtain buf h1 where bytes: "Bytes_Bytes src h = Some (buf, h1)" "wf_heap h1" "extends h h1"
    "slice_get h1 buf = content h src"
    using Bytes_Bytes_eq [OF wf src] .
  let ?s = "bytes_f (h_obj h b)"
  let ?ys = "take (length (content h b) - nat d) (content h src)"
  let ?h = "h1\<lparr>h_arr := (h_arr h1)(sl_arr ?s := overwrite (sl_off ?s + nat d) ?ys (h_arr h1 (sl_arr ?s)))\<rparr>"
  have s: "wf_slice h ?s" and len: "length (content h b) = sl_len ?s"
    using wf_live_sliceD(1) [OF wf b] length_content [OF wf b] .
  have obj: "h_obj h1 b = h_obj h b" and live1: "live h1 b"
    using bytes(3) b by (simp_all add: extends_obj extends_live)
  have arr: "h_arr h1 (sl_arr ?s) = h_arr h (sl_arr ?s)"
    using bytes(3) s by (simp add: extends_def wf_slice_def)
  have dlen: "nat d \<le> sl_len ?s" using d len by (simp add: Bytes_Len_content [OF wf b])
  have fits: "sl_off ?s + nat d + length ?ys \<le> length (h_arr h1 (sl_arr ?s))"
    using s dlen len by (auto simp: wf_slice_def arr)
  have res: "reslice ?s d (int (sl_len ?s)) =
      Some (?s\<lparr>sl_off := sl_off ?s + nat d, sl_len := sl_len ?s - nat d, sl_cap := sl_cap ?s - nat d\<rparr>)"
    using d dlen s by (auto simp: reslice_def wf_slice_def nat_diff_distrib)
  have guard: "\<not> (d \<ge> Bytes_Len h b \<and> d = 0 \<and> Bytes_Len h src > 0)"
    using ne by (auto simp: Bytes_Len_content wf b src)
  have set: "Bytes_Set b src d h = Some ((int (length ?ys), None), ?h)"
    using d(1) guard mu res bytes len
    by (simp add: Bytes_Set_def same_mutex_def copy_into_def Let_def)
  have w: "wf_heap ?h" "frame h1 ?h b"
    using write_array [OF bytes(2) live1, of "sl_off ?s + nat d" ?ys ?h] fits
    by (simp_all add: obj)
  moreover have "frame h ?h b" by (rule frame_extends_trans [OF bytes(3) w(2) b])
  moreover have objs: "h_obj ?h a = h_obj h a" if "live h a" for a
    using extends_obj [OF bytes(3) that] by simp
  moreover have "content ?h b = overwrite (nat d) ?ys (content h b)"
  proof -
    define ys where "ys = ?ys"
    have ys: "sl_off ?s + nat d + length ys \<le> sl_off ?s + sl_len ?s"
      "sl_off ?s + sl_len ?s \<le> length (h_arr h (sl_arr ?s))"
      using s dlen len by (auto simp: ys_def wf_slice_def)
    have "content ?h b = slice_of (sl_off ?s) (sl_off ?s + sl_len ?s)
        (overwrite (sl_off ?s + nat d) ys (h_arr h (sl_arr ?s)))"
      by (simp add: content_def slice_get_def obj arr ys_def)
    also have "\<dots> = overwrite (nat d) ys (slice_of (sl_off ?s) (sl_off ?s + sl_len ?s) (h_arr h (sl_arr ?s)))"
      using slice_of_overwrite_inside [OF _ ys] by simp
    finally show ?thesis unfolding ys_def by (simp add: content_def slice_get_def)
  qed
  moreover have "length ?ys = min (length (content h b) - nat d) (length (content h src))"
    by (simp add: min.commute)
  ultimately show thesis
    using that [of ?h] set by (simp add: arr)
qed

lemma Bytes_Grow_spec:
  assumes wf: "wf_heap h" and b: "live h b" and n: "0 \<le> n"
  obtains h' where "Bytes_Grow b n h = Some (None, h')" "wf_heap h'" "frame h h' b"
    "content h' b = content h b @ replicate (nat n) 0"
proof -
  let ?s = "bytes_f (h_obj h b)" and ?z = "replicate (nat n) (0 :: byte)"
  have s: "wf_slice h ?s" and mu: "mu_f (h_obj h b) < h_nmu h"
    using wf_live_sliceD [OF wf b] by simp_all
  have bn: "b < h_nobj h" using b by (simp add: live_def)
  have old: "wf_obj h (h_obj h a)" if "a < h_nobj h" for a
    using wf that by (simp add: wf_heap_def)
  have arrs: "sl_arr (bytes_f (h_obj h a)) \<noteq> h_narr h" if "a < h_nobj h" for a
    using old [OF that] by (simp add: wf_obj_def wf_slice_def)
  obtain s' h1 where app: "append_slice ?s ?z h = (s', h1)" by fastforce
  let ?h = "h1\<lparr>h_obj := (h_obj h1)(b := (h_obj h1 b)\<lparr>bytes_f := s', length_f := int (sl_len s')\<rparr>)\<rparr>"
  have grow: "Bytes_Grow b n h = Some (None, ?h)"
    using n app by (simp add: Bytes_Grow_def)
  have "wf_heap ?h \<and> frame h ?h b \<and> content ?h b = content h b @ ?z"
  proof (cases "sl_len ?s + nat n \<le> sl_cap ?s")
    case True
    have h1: "s' = ?s\<lparr>sl_len := sl_len ?s + nat n\<rparr>"
      "h1 = h\<lparr>h_arr := (h_arr h)(sl_arr ?s := overwrite (sl_off ?s + sl_len ?s) ?z (h_arr h (sl_arr ?s)))\<rparr>"
      using app True by (auto simp: append_slice_def)
    have fits: "sl_off ?s + sl_len ?s + length ?z \<le> length (h_arr h (sl_arr ?s))"
      using s True by (simp add: wf_slice_def)
    have w: "wf_heap h1" "frame h h1 b"
      using write_array [OF wf b, of "sl_off ?s + sl_len ?s" ?z h1] fits h1 by simp_all
    have "wf_heap ?h"
      using w(1) True s mu h1 fits by (auto simp: wf_heap_def wf_obj_def wf_slice_def)
    moreover have "frame h ?h b"
      using h1 by (auto simp: frame_def apart_def content_def slice_get_def live_def)
    moreover have "content ?h b = content h b @ ?z"
    proof -
      let ?a = "h_arr h (sl_arr ?s)" and ?o = "sl_off ?s" and ?l = "sl_len ?s"
      have "content ?h b = slice_of ?o (?o + (?l + nat n)) (overwrite (?o + ?l) ?z ?a)"
        by (simp add: content_def slice_get_def h1)
      also have "\<dots> = slice_of ?o (?o + ?l) ?a @ ?z"
      proof -
        have l: "?o + ?l \<le> length ?a" using fits by simp
        have "drop ?o (overwrite (?o + ?l) ?z ?a) =
            drop ?o (take (?o + ?l) ?a) @ ?z @ drop (?o + ?l + nat n) ?a"
          using l by (simp add: overwrite_def)
        then show ?thesis using l by (simp add: slice_of_def drop_take)
      qed
      finally show ?thesis by (simp add: content_def slice_get_def)
    qed
    ultimately show ?thesis by blast
  next
    case False
    let ?x = "slice_get h ?s @ ?z" and ?sp = "h_spare h (sl_len ?s + nat n)"
    have h1: "s' = \<lparr>sl_arr = h_narr h, sl_off = 0, sl_len = length ?x, sl_cap = length ?x + ?sp\<rparr>"
      "h1 = h\<lparr>h_arr := (h_arr h)(h_narr h := ?x @ replicate ?sp 0), h_narr := Suc (h_narr h)\<rparr>"
      using app False by (auto simp: append_slice_def new_array_def)
    have "wf_heap ?h"
      using old arrs mu h1 by (auto simp: wf_heap_def wf_obj_def wf_slice_def less_Suc_eq)
    moreover have "frame h ?h b"
      using h1 arrs bn by (auto simp: frame_def apart_def content_def slice_get_def live_def)
    moreover have "content ?h b = content h b @ ?z"
      using length_slice_get [OF s] by (simp add: content_def slice_get_def h1 slice_of_0)
    ultimately show ?thesis by blast
  qed
  with that grow show thesis by blast
qed

lemma Bytes_Truncate_spec:
  assumes wf: "wf_heap h" and b: "live h b" and n: "0 \<le> n"
  obtains h' where "Bytes_Truncate b n h = Some (None, h')" "wf_heap h'" "frame h h' b"
    "content h' b = take (nat n) (content h b)"
proof (cases "Bytes_Len h b < n")
  case True
  then have "take (nat n) (content h b) = content h b"
    by (simp add: Bytes_Len_content wf b)
  moreover have "frame h h b" by (rule extends_frame) (simp_all add: b)
  ultimately show thesis using True that [of h] wf by (simp add: Bytes_Truncate_def)
next
  case False
  let ?s = "bytes_f (h_obj h b)"
  let ?h = "h\<lparr>h_obj := (h_obj h)(b := (h_obj h b)\<lparr>bytes_f := ?s\<lparr>sl_len := nat n\<rparr>, length_f := n\<rparr>)\<rparr>"
  have s: "wf_slice h ?s" and mu: "mu_f (h_obj h b) < h_nmu h"
    using wf_live_sliceD [OF wf b] by simp_all
  have len: "nat n \<le> sl_len ?s"
    using False by (simp add: Bytes_Len_content length_content wf b)
  have "Bytes_Truncate b n h = Some (None, ?h)"
    using False n s len by (auto simp: Bytes_Truncate_def reslice_def wf_slice_def)
  moreover have "wf_heap ?h"
    using wf s mu len n by (auto simp: wf_heap_def wf_obj_def wf_slice_def)
  moreover have "frame h ?h b"
    by (auto simp: frame_def apart_def content_def slice_get_def)
  moreover have "content ?h b = take (nat n) (content h b)"
    using len by (simp add: content_def slice_get_def slice_of_def min_def)
  ultimately show thesis using that by blast
qed


subsection \<open>What a client of a mutable blob relies on\<close>

text \<open>
  The contract behind the interfaces \<open>SetBlob\<close>, \<open>GrowBlob\<close> and \<open>TruncateBlob\<close>: each method changes
  only the bytes of its receiver, and changes them as its documentation says. The file operations of
  \<open>keyvalue\<close> are correct for any blob that satisfies it.
\<close>

locale blob_contract =
  fixes inv :: "'h \<Rightarrow> bool"
    and live :: "'h \<Rightarrow> 'b \<Rightarrow> bool"
    and content :: "'h \<Rightarrow> 'b \<Rightarrow> byte list"
    and apart :: "'h \<Rightarrow> 'b \<Rightarrow> 'b \<Rightarrow> bool"
    and mutex :: "'h \<Rightarrow> 'b \<Rightarrow> 'b \<Rightarrow> bool"
    and frame :: "'h \<Rightarrow> 'h \<Rightarrow> 'b \<Rightarrow> bool"
    and Len :: "'h \<Rightarrow> 'b \<Rightarrow> int"
    and Set :: "'b \<Rightarrow> 'b \<Rightarrow> int \<Rightarrow> 'h \<Rightarrow> ((int \<times> err option) \<times> 'h) option"
    and Grow :: "'b \<Rightarrow> int \<Rightarrow> 'h \<Rightarrow> (err option \<times> 'h) option"
    and Truncate :: "'b \<Rightarrow> int \<Rightarrow> 'h \<Rightarrow> (err option \<times> 'h) option"
    and room :: "int \<Rightarrow> bool"
  assumes frame_refl: "live h b \<Longrightarrow> frame h h b"
    and frame_trans: "frame h h1 b \<Longrightarrow> frame h1 h2 b \<Longrightarrow> frame h h2 b"
    and frame_live: "frame h h' b \<Longrightarrow> live h a \<Longrightarrow> a = b \<or> apart h a b \<Longrightarrow> live h' a"
    and frame_content: "frame h h' b \<Longrightarrow> live h a \<Longrightarrow> apart h a b \<Longrightarrow>
          content h' a = content h a \<and> apart h' a b"
    and frame_mutex: "frame h h' b \<Longrightarrow> live h a \<Longrightarrow> apart h a b \<Longrightarrow> mutex h' a b = mutex h a b"
    and Len: "inv h \<Longrightarrow> live h b \<Longrightarrow> Len h b = int (length (content h b))"
    and Set: "inv h \<Longrightarrow> live h b \<Longrightarrow> live h src \<Longrightarrow> apart h src b \<Longrightarrow> \<not> mutex h src b \<Longrightarrow>
          0 \<le> d \<Longrightarrow> d + int (length (content h src)) \<le> int (length (content h b)) \<Longrightarrow>
          \<exists>h'. Set b src d h = Some ((int (length (content h src)), None), h')
            \<and> inv h' \<and> frame h h' b
            \<and> content h' b = overwrite (nat d) (content h src) (content h b)"
    and Grow: "inv h \<Longrightarrow> live h b \<Longrightarrow> 0 \<le> n \<Longrightarrow> room (int (length (content h b)) + n) \<Longrightarrow>
          \<exists>h'. Grow b n h = Some (None, h') \<and> inv h' \<and> frame h h' b
            \<and> content h' b = content h b @ replicate (nat n) 0"
    and Truncate: "inv h \<Longrightarrow> live h b \<Longrightarrow> 0 \<le> n \<Longrightarrow>
          \<exists>h'. Truncate b n h = Some (None, h') \<and> inv h' \<and> frame h h' b
            \<and> content h' b = take (nat n) (content h b)"
begin

text \<open>Growing so that the source fits and then setting writes the source at the offset, with zeros
  in a gap between the old end and the offset.\<close>

lemma grow_and_set:
  assumes "inv h" "live h b" "live h src" "apart h src b" "\<not> mutex h src b" "0 \<le> off"
    and room: "room (off + int (length (content h src)))"
  defines "end \<equiv> off + int (length (content h src))"
  shows "\<exists>h1 h2.
      (if Len h b < end then Grow b (end - Len h b) h = Some (None, h1) else h1 = h)
    \<and> Set b src off h1 = Some ((int (length (content h src)), None), h2)
    \<and> inv h2 \<and> frame h h2 b
    \<and> content h2 b = overwrite (nat off) (content h src)
        (content h b @ replicate (nat end - length (content h b)) 0)"
proof -
  obtain h1 where h1: "if Len h b < end then Grow b (end - Len h b) h = Some (None, h1) else h1 = h"
    and inv1: "inv h1" and frame1: "frame h h1 b"
    and c1: "content h1 b = content h b @ replicate (nat end - length (content h b)) 0"
  proof (cases "Len h b < end")
    case True
    have n: "nat (end - Len h b) = nat end - length (content h b)"
      using Len [OF assms(1,2)] by (simp add: nat_diff_distrib')
    have "0 \<le> end - Len h b" "room (int (length (content h b)) + (end - Len h b))"
      using True room Len [OF assms(1,2)] by (simp_all add: end_def)
    from Grow [OF assms(1,2) this] obtain h' where
      "Grow b (end - Len h b) h = Some (None, h')" "inv h'" "frame h h' b"
      "content h' b = content h b @ replicate (nat (end - Len h b)) 0" by blast
    with True that [of h'] show thesis unfolding n by simp
  next
    case False
    with Len [OF assms(1,2)] assms(1) frame_refl [OF assms(2)] that [of h] show thesis by simp
  qed
  have src: "content h1 src = content h src" "live h1 src" "live h1 b" "apart h1 src b" "\<not> mutex h1 src b"
    using frame_content [OF frame1 assms(3,4)] frame_live [OF frame1] frame_mutex [OF frame1 assms(3,4)]
      assms(2-5) by auto
  have "off + int (length (content h1 src)) \<le> int (length (content h1 b))"
    unfolding src(1) c1 end_def by simp
  from Set [OF inv1 src(3,2,4,5) assms(6) this] h1 frame_trans [OF frame1] src(1) c1
  show ?thesis by auto
qed

text \<open>Cutting a blob and growing it again never brings the cut bytes back.\<close>

lemma truncate_then_grow:
  assumes "inv h" "live h b" "0 \<le> n" "0 \<le> m" "room (int (length (take (nat n) (content h b))) + m)"
  shows "\<exists>h1 h2. Truncate b n h = Some (None, h1) \<and> Grow b m h1 = Some (None, h2)
    \<and> inv h2 \<and> frame h h2 b \<and> content h2 b = take (nat n) (content h b) @ replicate (nat m) 0"
proof -
  obtain h1 where h1: "Truncate b n h = Some (None, h1)" "inv h1" "frame h h1 b"
    "content h1 b = take (nat n) (content h b)" using Truncate [OF assms(1-3)] by blast
  obtain h2 where "Grow b m h1 = Some (None, h2)" "inv h2" "frame h1 h2 b"
    "content h2 b = content h1 b @ replicate (nat m) 0"
    using Grow [OF h1(2) frame_live [OF h1(3) assms(2)] assms(4)] assms(5) h1(4) by auto
  with h1 frame_trans show ?thesis by metis
qed

end

interpretation bytes: blob_contract wf_heap live content apart same_mutex frame
  Bytes_Len Bytes_Set Bytes_Grow Bytes_Truncate "\<lambda>_. True"
proof (unfold_locales, goal_cases)
  case (1 h b)
  then show ?case by (simp add: extends_frame)
next
  case (2 h h1 b h2)
  then show ?case by (rule frame_trans)
next
  case (3 h h' b a)
  then show ?case using frame_live by blast
next
  case (4 h h' b a)
  moreover have "a \<noteq> b" using 4 by (auto simp: apart_def)
  ultimately show ?case by (simp add: frame_def)
next
  case (5 h h' b a)
  moreover have "a \<noteq> b" using 5 by (auto simp: apart_def)
  ultimately show ?case by (simp add: frame_def same_mutex_def)
next
  case (6 h b)
  then show ?case by (rule Bytes_Len_content)
next
  case (7 h b src d)
  have "d \<le> Bytes_Len h b" using 7 by (simp add: Bytes_Len_content)
  moreover have "content h src = []" if "content h b = []"
    using 7(6,7) that by (simp flip: length_0_conv)
  moreover have "min (length (content h b) - nat d) (length (content h src)) = length (content h src)"
    "length (content h src) \<le> length (content h b) - nat d" using 7(6,7) by auto
  ultimately show ?case using Bytes_Set_spec [OF 7(1-3,6) _ 7(5)] by (metis take_all)
next
  case (8 h b n)
  then show ?case by (metis Bytes_Grow_spec)
next
  case (9 h b n)
  then show ?case by (metis Bytes_Truncate_spec)
qed


subsection \<open>A small memory for the concrete instances\<close>

definition empty_heap :: "(nat \<Rightarrow> nat) \<Rightarrow> heap" where
  "empty_heap spare = \<lparr>h_arr = (\<lambda>_. []), h_narr = 0,
     h_obj = (\<lambda>_. \<lparr>bytes_f = \<lparr>sl_arr = 0, sl_off = 0, sl_len = 0, sl_cap = 0\<rparr>, length_f = 0, mu_f = 0\<rparr>),
     h_nobj = 0, h_nmu = 0, h_spare = spare\<rparr>"

definition demo_heap :: heap where
  "demo_heap = snd (NewBytes_of [9, 8] (snd (NewBytes_of [1, 2, 3] (empty_heap (\<lambda>_. 2)))))"

lemma wf_empty_heap [simp]: "wf_heap (empty_heap spare)"
  by (simp add: wf_heap_def empty_heap_def)

lemma demo_heap_facts:
  "wf_heap demo_heap" "live demo_heap 0" "live demo_heap 1" "content demo_heap 0 = [1, 2, 3]"
  "content demo_heap 1 = [9, 8]" "apart demo_heap 1 0" "\<not> same_mutex demo_heap 1 0"
  "Bytes_Len demo_heap 0 = 3"
  by (simp_all add: demo_heap_def NewBytes_of_def NewBytes_def new_array_def alloc_Bytes_def
      empty_heap_def wf_heap_def wf_obj_def wf_slice_def live_def content_def slice_get_def
      slice_of_def apart_def same_mutex_def Bytes_Len_def less_Suc_eq)


subsection \<open>Properties\<close>

text \<open>
  Writing through a blob. Growing a blob so that the source fits and then setting the source at
  an offset returns the source's length, leaves the source's bytes at the offset, the old bytes
  elsewhere and zeros in any gap, and changes no blob on another backing array.
\<close>

theorem Bytes_grow_and_set:
  assumes "wf_heap h" "live h b" "live h src" "apart h src b" "\<not> same_mutex h src b" "0 \<le> off"
  shows "\<exists>h1 h2.
      (if Bytes_Len h b < off + int (length (content h src))
       then Bytes_Grow b (off + int (length (content h src)) - Bytes_Len h b) h = Some (None, h1)
       else h1 = h)
    \<and> Bytes_Set b src off h1 = Some ((int (length (content h src)), None), h2)
    \<and> wf_heap h2 \<and> frame h h2 b
    \<and> content h2 b = overwrite (nat off) (content h src)
        (content h b @ replicate (nat (off + int (length (content h src))) - length (content h b)) 0)"
  using assms TrueI by (rule bytes.grow_and_set)

theorem Bytes_grow_and_set_witness:
  "\<exists>h1 h2. Bytes_Grow 0 2 demo_heap = Some (None, h1)
     \<and> Bytes_Set 0 1 3 h1 = Some ((2, None), h2) \<and> content h2 0 = [1, 2, 3, 9, 8]"
  using Bytes_grow_and_set [OF demo_heap_facts(1,2,3,6,7), of 3]
  by (auto simp: demo_heap_facts overwrite_def simp del: One_nat_def)

text \<open>
  Cutting a blob and growing it again fills with zeros, although the bytes that were cut are
  still in the backing array and \<open>append\<close> reuses it.
\<close>

theorem Bytes_truncate_then_grow:
  assumes "wf_heap h" "live h b" "0 \<le> n" "0 \<le> m"
  shows "\<exists>h1 h2. Bytes_Truncate b n h = Some (None, h1) \<and> Bytes_Grow b m h1 = Some (None, h2)
    \<and> wf_heap h2 \<and> frame h h2 b
    \<and> content h2 b = take (nat n) (content h b) @ replicate (nat m) 0"
  using assms TrueI by (rule bytes.truncate_then_grow)

theorem Bytes_truncate_then_grow_witness:
  "\<exists>h1 h2. Bytes_Truncate 0 1 demo_heap = Some (None, h1) \<and> Bytes_Grow 0 2 h1 = Some (None, h2)
     \<and> content h2 0 = [1, 0, 0]"
  using Bytes_truncate_then_grow [OF demo_heap_facts(1,2), of 1 2]
  by (simp add: demo_heap_facts numeral_2_eq_2) blast

text \<open>
  C13: a view shares the bytes of the blob it was taken from: setting the view at 0 overwrites the
  viewed range of the original, as \<open>ViewBlob\<close> documents.
\<close>

theorem Bytes_view_set_aliases:
  assumes wf: "wf_heap h" and b: "live h b" and src: "live h src" "\<not> same_mutex h src b"
    and ij: "0 \<le> i" "i < j" "j \<le> Bytes_Len h b" and fits: "int (length (content h src)) \<le> j - i"
  shows "\<exists>v h1 h2. Bytes_View b i j h = Some (Inr v, h1)
    \<and> Bytes_Set v src 0 h1 = Some ((int (length (content h src)), None), h2)
    \<and> content h2 b = overwrite (nat i) (content h src) (content h b)"
proof -
  let ?s = "bytes_f (h_obj h b)"
  obtain v h1 where view: "Bytes_View b i j h = Some (Inr v, h1)" "wf_heap h1" "extends h h1"
    "\<not> live h v" "live h1 v" "content h1 v = slice_of (nat i) (nat j) (content h b)" "same_mutex h1 v b"
    and obj: "bytes_f (h_obj h1 v) = ?s\<lparr>sl_off := sl_off ?s + nat i, sl_len := nat (j - i),
        sl_cap := sl_cap ?s - nat i\<rparr>"
    using Bytes_View_spec [OF wf b ij(1) _ ij(3)] ij(2) by (metis less_imp_le)
  have len: "length (content h b) = sl_len ?s" "nat j \<le> sl_len ?s" and s: "wf_slice h ?s"
    using length_content [OF wf b] ij Bytes_Len_content [OF wf b] wf_live_sliceD(1) [OF wf b] by auto
  have lv: "length (content h1 v) = nat j - nat i"
    using len ij view(6) by simp
  have src1: "live h1 src" "content h1 src = content h src" "\<not> same_mutex h1 src v"
    using extends_live [OF view(3) src(1)] extends_content [OF view(3) src(1)]
      extends_obj [OF view(3) src(1)] extends_obj [OF view(3) b] src(2) view(7)
    by (auto simp: same_mutex_def)
  have tk: "take (length (content h1 v) - nat 0) (content h1 src) = content h src"
    using fits ij lv src1(2) by simp
  obtain h2 where set: "Bytes_Set v src 0 h1 = Some ((int (min (length (content h1 v) - nat 0)
        (length (content h1 src))), None), h2)"
    and obj2: "\<And>a. live h1 a \<Longrightarrow> h_obj h2 a = h_obj h1 a"
    and arr2: "h_arr h2 (sl_arr (bytes_f (h_obj h1 v))) = overwrite (sl_off (bytes_f (h_obj h1 v)) + nat 0)
         (take (length (content h1 v) - nat 0) (content h1 src)) (h_arr h1 (sl_arr (bytes_f (h_obj h1 v))))"
  proof (rule Bytes_Set_spec [OF view(2,5) src1(1) _ _ src1(3), of 0])
    show "0 \<le> Bytes_Len h1 v" using Bytes_Len_content [OF view(2,5)] by simp
    show "content h1 src = []" if "content h1 v = []" using that lv ij by simp
  qed simp_all
  have arr: "h_arr h1 (sl_arr ?s) = h_arr h (sl_arr ?s)"
    using view(3) s by (simp add: extends_def wf_slice_def)
  have "content h2 b = slice_of (sl_off ?s) (sl_off ?s + sl_len ?s)
      (overwrite (sl_off ?s + nat i) (content h src) (h_arr h (sl_arr ?s)))"
    using arr2 obj2 [OF extends_live [OF view(3) b]] extends_obj [OF view(3) b] tk
    by (simp add: content_def slice_get_def obj arr)
  also have "\<dots> = overwrite (nat i) (content h src) (content h b)"
    using fits ij len s slice_of_overwrite_inside [of "sl_off ?s" "sl_off ?s + nat i" "content h src"
        "sl_off ?s + sl_len ?s" "h_arr h (sl_arr ?s)"]
    by (simp add: content_def slice_get_def wf_slice_def)
  finally have "content h2 b = overwrite (nat i) (content h src) (content h b)" .
  moreover have "min (length (content h1 v) - nat 0) (length (content h1 src)) = length (content h src)"
    using fits ij lv src1(2) by simp
  ultimately show ?thesis using view(1) set by auto
qed

theorem Bytes_view_set_aliases_witness:
  "\<exists>v h1 h2. Bytes_View 0 1 3 demo_heap = Some (Inr v, h1)
     \<and> Bytes_Set v 1 0 h1 = Some ((2, None), h2) \<and> content h2 0 = [1, 9, 8]"
  using Bytes_view_set_aliases [OF demo_heap_facts(1,2,3,7), of 1 3]
  by (auto simp: demo_heap_facts overwrite_def simp del: One_nat_def)

text \<open>
  \<open>Slice(start, end)\<close> copies from the beginning of the blob, not from \<open>start\<close>: within bounds it
  returns a fresh blob, on its own backing array, that holds the first \<open>end - start\<close> bytes whatever
  \<open>start\<close> is.
\<close>

theorem Bytes_Slice_ignores_start:
  assumes "wf_heap h" "live h b" "0 \<le> i" "i \<le> j" "j \<le> Bytes_Len h b"
  shows "\<exists>c h'. Bytes_Slice b i j h = Some (Inr c, h') \<and> wf_heap h' \<and> extends h h' \<and> apart h' b c
    \<and> content h' c = take (nat (j - i)) (content h b)"
proof -
  obtain c h' where new: "NewBytes_of (take (nat (j - i)) (content h b)) h = (c, h')" by fastforce
  then show ?thesis
    using Bytes_Slice_eq [OF assms] NewBytes_of_spec [OF assms(1) new] assms(2) by auto
qed

theorem Bytes_Slice_ignores_start_witness:
  "\<exists>c h'. Bytes_Slice 0 1 3 demo_heap = Some (Inr c, h') \<and> content h' c = [1, 2]
     \<and> content h' c \<noteq> slice_of 1 3 (content demo_heap 0)"
  using Bytes_Slice_ignores_start [OF demo_heap_facts(1,2), of 1 3]
  by (auto simp: demo_heap_facts slice_of_def numeral_2_eq_2)

text \<open>
  Setting a blob from a view of itself never returns: \<open>Set\<close> holds the mutex while it asks the
  source for its bytes, and the view shares that mutex.
\<close>

theorem Bytes_Set_own_view_blocks:
  assumes wf: "wf_heap h" and b: "live h b" and ij: "0 \<le> i" "i < j" "j \<le> Bytes_Len h b" "0 \<le> d"
  shows "\<exists>v h1. Bytes_View b i j h = Some (Inr v, h1) \<and> Bytes_Set b v d h1 = None"
proof -
  obtain v h1 where view: "Bytes_View b i j h = Some (Inr v, h1)" "wf_heap h1" "extends h h1"
    "same_mutex h1 v b"
    using Bytes_View_spec [OF wf b ij(1) _ ij(3)] ij(2) by (metis less_imp_le)
  have "Bytes_Len h1 b = Bytes_Len h b"
    using extends_obj [OF view(3) b] by (simp add: Bytes_Len_def)
  then show ?thesis using view ij by (auto simp: Bytes_Set_def same_mutex_def)
qed

theorem Bytes_Set_own_view_blocks_witness:
  "\<exists>v h1. Bytes_View 0 0 2 demo_heap = Some (Inr v, h1) \<and> Bytes_Set 0 v 1 h1 = None"
  using Bytes_Set_own_view_blocks [OF demo_heap_facts(1,2), of 0 2 1]
  by (simp add: demo_heap_facts)

end
