(* ===== verification/KV_Record.thy ===== *)
theory KV_Record
  imports Blob
begin

section \<open>Package \<open>keyvalue\<close>: file records (\<open>record.go\<close>, \<open>fileData\<close> of \<open>file.go\<close>)\<close>

text \<open>
  The state every operation works on is a \<open>world\<close>: the memory of blobs, the clock read by
  \<open>time.Now\<close> (an arbitrary sequence of readings), and the state of the store behind the file system.

  A \<open>FileRecord\<close> is an interface. Its implementations in this development are \<open>BaseFileRecord\<close>, with
  getters as functions, the records a store returns (a type \<open>'r\<close> with a table \<open>rec_ops\<close> of methods),
  and the wrappers \<open>runOnceFileRecord\<close> and \<open>fileData\<close>, which cache what the getters returned. Calls
  that fill a cache return the updated wrapper.
\<close>

record 's world =
  w_heap :: heap
  w_clock :: "nat \<Rightarrow> time"
  w_tick :: nat
  w_store :: 's

lemma store_update_eq [simp]:
  "w\<lparr>w_store := a\<rparr> = w\<lparr>w_store := b\<rparr> \<longleftrightarrow> a = b"
  "w = w\<lparr>w_store := b\<rparr> \<longleftrightarrow> w_store w = b" "w\<lparr>w_store := b\<rparr> = w \<longleftrightarrow> b = w_store w"
  by (cases w; auto)+

definition time_Now :: "'s world \<Rightarrow> time \<times> 's world" where
  "time_Now w = (w_clock w (w_tick w), w\<lparr>w_tick := Suc (w_tick w)\<rparr>)"

text \<open>Run a heap operation in the world.\<close>

definition on_heap :: "(heap \<Rightarrow> ('a \<times> heap) option) \<Rightarrow> 's world \<Rightarrow> ('a \<times> 's world) option" where
  "on_heap f w = map_option (\<lambda>(x, h). (x, w\<lparr>w_heap := h\<rparr>)) (f (w_heap w))"

lemma on_heap_Some [simp]:
  "f (w_heap w) = Some (x, h) \<Longrightarrow> on_heap f w = Some (x, w\<lparr>w_heap := h\<rparr>)"
  by (simp add: on_heap_def)


subsection \<open>\<open>BaseFileRecord\<close>\<close>

record 'w BaseFileRecord =
  getData :: "('w \<Rightarrow> ((err + bref) \<times> 'w) option) option"
  getDirNames :: "('w \<Rightarrow> ((err + string list) \<times> 'w) option) option"
  initialSize :: int
  br_modTime :: time
  br_mode :: file_mode

definition NewBaseFileRecord ::
  "int \<Rightarrow> time \<Rightarrow> file_mode \<Rightarrow> ('w \<Rightarrow> ((err + bref) \<times> 'w) option) option \<Rightarrow>
   ('w \<Rightarrow> ((err + string list) \<times> 'w) option) option \<Rightarrow> 'w BaseFileRecord" where
  "NewBaseFileRecord initSize t m data dirNames =
     \<lparr>getData = data, getDirNames = dirNames, initialSize = initSize, br_modTime = t, br_mode = m\<rparr>"

definition Base_Data :: "'w BaseFileRecord \<Rightarrow> 'w \<Rightarrow> ((err + bref) \<times> 'w) option" where
  "Base_Data b w =
     (case getData b of
        None \<Rightarrow> Some (Inl (if IsDir (br_mode b) then ErrIsDir else ErrNotImplemented), w)
      | Some f \<Rightarrow> f w)"

definition Base_ReadDirNames :: "'w BaseFileRecord \<Rightarrow> 'w \<Rightarrow> ((err + string list) \<times> 'w) option" where
  "Base_ReadDirNames b w =
     (case getDirNames b of
        None \<Rightarrow> Some (Inl (if \<not> IsDir (br_mode b) then ErrNotDir else ErrNotImplemented), w)
      | Some f \<Rightarrow> f w)"


subsection \<open>Records of a store\<close>

record ('r, 'w) rec_ops =
  r_Data :: "'r \<Rightarrow> 'w \<Rightarrow> ((err + bref) \<times> 'w) option"
  r_ReadDirNames :: "'r \<Rightarrow> 'w \<Rightarrow> ((err + string list) \<times> 'w) option"
  r_Size :: "'r \<Rightarrow> 'w \<Rightarrow> int"
  r_Mode :: "'r \<Rightarrow> file_mode"
  r_ModTime :: "'r \<Rightarrow> time"

datatype ('r, 'w) FileRecord = BaseRec "'w BaseFileRecord" | StoreRec 'r

definition FR_Data ::
  "('r, 's world, 'z) rec_ops_scheme \<Rightarrow> ('r, 's world) FileRecord \<Rightarrow> 's world \<Rightarrow> ((err + bref) \<times> 's world) option" where
  "FR_Data ops r w = (case r of BaseRec b \<Rightarrow> Base_Data b w | StoreRec s \<Rightarrow> r_Data ops s w)"

definition FR_ReadDirNames ::
  "('r, 's world, 'z) rec_ops_scheme \<Rightarrow> ('r, 's world) FileRecord \<Rightarrow> 's world \<Rightarrow> ((err + string list) \<times> 's world) option" where
  "FR_ReadDirNames ops r w =
     (case r of BaseRec b \<Rightarrow> Base_ReadDirNames b w | StoreRec s \<Rightarrow> r_ReadDirNames ops s w)"

definition FR_Size ::
  "('r, 's world, 'z) rec_ops_scheme \<Rightarrow> ('r, 's world) FileRecord \<Rightarrow> 's world \<Rightarrow> int" where
  "FR_Size ops r w = (case r of BaseRec b \<Rightarrow> initialSize b | StoreRec s \<Rightarrow> r_Size ops s w)"

definition FR_Mode ::
  "('r, 's world, 'z) rec_ops_scheme \<Rightarrow> ('r, 's world) FileRecord \<Rightarrow> file_mode" where
  "FR_Mode ops r = (case r of BaseRec b \<Rightarrow> br_mode b | StoreRec s \<Rightarrow> r_Mode ops s)"

definition FR_ModTime ::
  "('r, 's world, 'z) rec_ops_scheme \<Rightarrow> ('r, 's world) FileRecord \<Rightarrow> time" where
  "FR_ModTime ops r = (case r of BaseRec b \<Rightarrow> br_modTime b | StoreRec s \<Rightarrow> r_ModTime ops s)"


subsection \<open>\<open>runOnceFileRecord\<close>\<close>

text \<open>
  A field \<open>ro_x = None\<close> says that the once-guard of \<open>x\<close> has not run. A nil record (\<open>ro_record = None\<close>)
  makes every method panic. After \<open>Data\<close> has run, \<open>Size\<close> asks the cached blob, which is nil when
  \<open>Data\<close> failed.
\<close>

record ('r, 'w) runOnceFileRecord =
  ro_record :: "('r, 'w) FileRecord option"
  ro_data :: "(err + bref) option"
  ro_dirNames :: "(err + string list) option"
  ro_size :: "int option"
  ro_mode :: "file_mode option"
  ro_modTime :: "time option"

definition runOnce_of :: "('r, 'w) FileRecord option \<Rightarrow> ('r, 'w) runOnceFileRecord" where
  "runOnce_of r = \<lparr>ro_record = r, ro_data = None, ro_dirNames = None, ro_size = None,
     ro_mode = None, ro_modTime = None\<rparr>"

definition RO_Data ::
  "('r, 's world, 'z) rec_ops_scheme \<Rightarrow> ('r, 's world) runOnceFileRecord \<Rightarrow> 's world \<Rightarrow> ((err + bref) \<times> ('r, 's world) runOnceFileRecord \<times> 's world) option" where
  "RO_Data ops r w =
     (case ro_data r of
        Some d \<Rightarrow> Some (d, r, w)
      | None \<Rightarrow> do { rec \<leftarrow> ro_record r; (d, w) \<leftarrow> FR_Data ops rec w; Some (d, r\<lparr>ro_data := Some d\<rparr>, w) })"

definition RO_ReadDirNames ::
  "('r, 's world, 'z) rec_ops_scheme \<Rightarrow> ('r, 's world) runOnceFileRecord \<Rightarrow> 's world \<Rightarrow> ((err + string list) \<times> ('r, 's world) runOnceFileRecord \<times> 's world) option" where
  "RO_ReadDirNames ops r w =
     (case ro_dirNames r of
        Some d \<Rightarrow> Some (d, r, w)
      | None \<Rightarrow> do { rec \<leftarrow> ro_record r; (d, w) \<leftarrow> FR_ReadDirNames ops rec w;
                   Some (d, r\<lparr>ro_dirNames := Some d\<rparr>, w) })"

definition RO_Size ::
  "('r, 's world, 'z) rec_ops_scheme \<Rightarrow> ('r, 's world) runOnceFileRecord \<Rightarrow> 's world \<Rightarrow> (int \<times> ('r, 's world) runOnceFileRecord) option" where
  "RO_Size ops r w =
     do {
       (sz, r) \<leftarrow> (case ro_size r of
                Some s \<Rightarrow> Some (s, r)
              | None \<Rightarrow> do { rec \<leftarrow> ro_record r;
                          Some (FR_Size ops rec w, r\<lparr>ro_size := Some (FR_Size ops rec w)\<rparr>) });
       (case ro_data r of
          Some (Inr b) \<Rightarrow> Some (Bytes_Len (w_heap w) b, r)
        | Some (Inl _) \<Rightarrow> None
        | None \<Rightarrow> Some (sz, r))
     }"

definition RO_Mode ::
  "('r, 's world, 'z) rec_ops_scheme \<Rightarrow> ('r, 's world) runOnceFileRecord \<Rightarrow> (file_mode \<times> ('r, 's world) runOnceFileRecord) option" where
  "RO_Mode ops r =
     (case ro_mode r of
        Some m \<Rightarrow> Some (m, r)
      | None \<Rightarrow> do { rec \<leftarrow> ro_record r; Some (FR_Mode ops rec, r\<lparr>ro_mode := Some (FR_Mode ops rec)\<rparr>) })"

definition RO_ModTime ::
  "('r, 's world, 'z) rec_ops_scheme \<Rightarrow> ('r, 's world) runOnceFileRecord \<Rightarrow> (time \<times> ('r, 's world) runOnceFileRecord) option" where
  "RO_ModTime ops r =
     (case ro_modTime r of
        Some t \<Rightarrow> Some (t, r)
      | None \<Rightarrow> do { rec \<leftarrow> ro_record r;
                  Some (FR_ModTime ops rec, r\<lparr>ro_modTime := Some (FR_ModTime ops rec)\<rparr>) })"


subsection \<open>\<open>fileData\<close>\<close>

text \<open>The zero \<open>time.Time\<close> is 0; an override equal to it counts as unset.\<close>

record ('r, 'w) fileData =
  fd_record :: "('r, 'w) runOnceFileRecord"
  modeOverride :: "file_mode option"
  modTimeOverride :: time
  fd_path :: string

definition FD_Data ::
  "('r, 's world, 'z) rec_ops_scheme \<Rightarrow> ('r, 's world) fileData \<Rightarrow> 's world \<Rightarrow> ((err + bref) \<times> ('r, 's world) fileData \<times> 's world) option" where
  "FD_Data ops f w = do { (d, r, w) \<leftarrow> RO_Data ops (fd_record f) w; Some (d, f\<lparr>fd_record := r\<rparr>, w) }"

definition FD_ReadDirNames ::
  "('r, 's world, 'z) rec_ops_scheme \<Rightarrow> ('r, 's world) fileData \<Rightarrow> 's world \<Rightarrow> ((err + string list) \<times> ('r, 's world) fileData \<times> 's world) option" where
  "FD_ReadDirNames ops f w =
     do { (d, r, w) \<leftarrow> RO_ReadDirNames ops (fd_record f) w; Some (d, f\<lparr>fd_record := r\<rparr>, w) }"

definition FD_Size ::
  "('r, 's world, 'z) rec_ops_scheme \<Rightarrow> ('r, 's world) fileData \<Rightarrow> 's world \<Rightarrow> (int \<times> ('r, 's world) fileData) option" where
  "FD_Size ops f w = do { (s, r) \<leftarrow> RO_Size ops (fd_record f) w; Some (s, f\<lparr>fd_record := r\<rparr>) }"

definition FD_Mode ::
  "('r, 's world, 'z) rec_ops_scheme \<Rightarrow> ('r, 's world) fileData \<Rightarrow> (file_mode \<times> ('r, 's world) fileData) option" where
  "FD_Mode ops f =
     (case modeOverride f of
        Some m \<Rightarrow> Some (m, f)
      | None \<Rightarrow> do { (m, r) \<leftarrow> RO_Mode ops (fd_record f); Some (m, f\<lparr>fd_record := r\<rparr>) })"

definition FD_ModTime ::
  "('r, 's world, 'z) rec_ops_scheme \<Rightarrow> ('r, 's world) fileData \<Rightarrow> (time \<times> ('r, 's world) fileData) option" where
  "FD_ModTime ops f =
     (if modTimeOverride f \<noteq> 0 then Some (modTimeOverride f, f)
      else do { (t, r) \<leftarrow> RO_ModTime ops (fd_record f); Some (t, f\<lparr>fd_record := r\<rparr>) })"

end
