(* ===== verification/KV_Store.thy ===== *)
theory KV_Store
  imports KV_Record
begin

section \<open>Package \<open>keyvalue\<close>: stores and transactions (\<open>store.go\<close>, \<open>txn_store.go\<close>, \<open>fs_txns.go\<close>)\<close>

text \<open>
  A \<open>TransactionStore\<close> is a table \<open>store_ops\<close> of its methods, extending the table of its record type;
  a plain \<open>Store\<close> is a table \<open>plain_store\<close> with \<open>Get\<close> and \<open>Set\<close> only. The methods take and return the
  world. \<open>Set\<close> receives the file data to store, or nil to delete; since it may fill the caches of that
  data, it returns it too. \<open>serial_ops\<close> is what \<open>TransactionOrSerial\<close> builds for a plain store: the
  table whose transactions run every action at once on the store.
\<close>

datatype TransactionMode = TransactionReadOnly | TransactionReadWrite

record ('r, 'w) OpResult =
  or_Op :: int
  or_Record :: "('r, 'w) FileRecord option"
  or_Err :: "err option"

record ('r, 'w, 't) store_ops = "('r, 'w) rec_ops" +
  so_Transaction :: "TransactionMode \<Rightarrow> 'w \<Rightarrow> ('t \<times> err option \<times> 'w) option"
  so_Get :: "string \<Rightarrow> 't \<Rightarrow> 'w \<Rightarrow> (int \<times> 't \<times> 'w) option"
  so_Set :: "string \<Rightarrow> ('r, 'w) fileData option \<Rightarrow> bref option \<Rightarrow> 't \<Rightarrow> 'w \<Rightarrow>
      (int \<times> 't \<times> ('r, 'w) fileData option \<times> 'w) option"
  so_Commit :: "'t \<Rightarrow> 'w \<Rightarrow> (('r, 'w) OpResult list \<times> err option \<times> 'w) option"
  so_Abort :: "'t \<Rightarrow> 'w \<Rightarrow> (err option \<times> 'w) option"

record ('r, 'w) plain_store = "('r, 'w) rec_ops" +
  ps_Get :: "string \<Rightarrow> 'w \<Rightarrow> ((err + ('r, 'w) FileRecord) \<times> 'w) option"
  ps_Set :: "string \<Rightarrow> ('r, 'w) fileData option \<Rightarrow> 'w \<Rightarrow>
      (err option \<times> ('r, 'w) fileData option \<times> 'w) option"


subsection \<open>\<open>unsafeSerialTransaction\<close>\<close>

text \<open>The context is a flag: cancelled or not.\<close>

record ('r, 'w) unsafeSerialTransaction =
  us_done :: bool
  us_nextOp :: int
  us_results :: "(int \<times> ('r, 'w) OpResult) list"

type_synonym ('r, 'w) serial_handler =
  "('r, 'w) unsafeSerialTransaction \<Rightarrow> ('r, 'w) OpResult \<Rightarrow> 'w \<Rightarrow>
   (err option \<times> ('r, 'w) unsafeSerialTransaction \<times> 'w) option"

definition new_serial :: "('r, 'w) unsafeSerialTransaction" where
  "new_serial = \<lparr>us_done = False, us_nextOp = 0, us_results = []\<rparr>"

definition us_newOp :: "('r, 'w) unsafeSerialTransaction \<Rightarrow> int \<times> ('r, 'w) unsafeSerialTransaction" where
  "us_newOp u = (us_nextOp u, u\<lparr>us_nextOp := us_nextOp u + 1\<rparr>)"

definition us_setResult ::
  "int \<Rightarrow> ('r, 'w) OpResult \<Rightarrow> ('r, 'w) unsafeSerialTransaction \<Rightarrow> ('r, 'w) unsafeSerialTransaction" where
  "us_setResult op result u = u\<lparr>us_results := AList.update op result (us_results u)\<rparr>"

definition abortErr :: "bool \<Rightarrow> bool option \<Rightarrow> err option" where
  "abortErr ctx extraCtx =
     (if (case extraCtx of None \<Rightarrow> False | Some d \<Rightarrow> d) then Some Canceled
      else if ctx then Some Canceled else None)"

definition merge_err :: "err option \<Rightarrow> err option \<Rightarrow> err option" where
  "merge_err result_err handler_err = (if result_err = None then handler_err else result_err)"

definition us_GetHandler ::
  "('r, 's world, 'z) plain_store_scheme \<Rightarrow> string \<Rightarrow> ('r, 's world) serial_handler \<Rightarrow>
   ('r, 's world) unsafeSerialTransaction \<Rightarrow> 's world \<Rightarrow>
   (int \<times> ('r, 's world) unsafeSerialTransaction \<times> 's world) option" where
  "us_GetHandler P path handler u w =
     (let (op, u) = us_newOp u in
      case abortErr (us_done u) None of
        Some e \<Rightarrow> Some (op, us_setResult op \<lparr>or_Op = op, or_Record = None, or_Err = Some e\<rparr> u, w)
      | None \<Rightarrow> do {
          (r, w) \<leftarrow> ps_Get P path w;
          let result = (case r of
                Inl e \<Rightarrow> \<lparr>or_Op = op, or_Record = None, or_Err = Some e\<rparr>
              | Inr rec \<Rightarrow> \<lparr>or_Op = op, or_Record = Some rec, or_Err = None\<rparr>);
          (e, u, w) \<leftarrow> handler u result w;
          Some (op, us_setResult op (result\<lparr>or_Err := merge_err (or_Err result) e\<rparr>) u, w)
        })"

definition us_Get where
  "us_Get P path u w = us_GetHandler P path (\<lambda>u _ w. Some (None, u, w)) u w"

definition us_SetHandler ::
  "('r, 's world, 'z) plain_store_scheme \<Rightarrow> string \<Rightarrow> ('r, 's world) fileData option \<Rightarrow> bref option \<Rightarrow>
   ('r, 's world) serial_handler \<Rightarrow> ('r, 's world) unsafeSerialTransaction \<Rightarrow> 's world \<Rightarrow>
   (int \<times> ('r, 's world) unsafeSerialTransaction \<times> ('r, 's world) fileData option \<times> 's world) option"
where
  "us_SetHandler P path src contents handler u w =
     (let (op, u) = us_newOp u in
      case abortErr (us_done u) None of
        Some e \<Rightarrow>
          Some (op, us_setResult op \<lparr>or_Op = op, or_Record = None, or_Err = Some e\<rparr> u, src, w)
      | None \<Rightarrow> do {
          (e, src, w) \<leftarrow> ps_Set P path src w;
          let result = \<lparr>or_Op = op, or_Record = None, or_Err = e\<rparr>;
          (e, u, w) \<leftarrow> handler u result w;
          Some (op, us_setResult op (result\<lparr>or_Err := merge_err (or_Err result) e\<rparr>) u, src, w)
        })"

definition us_Set where
  "us_Set P path src contents u w = us_SetHandler P path src contents (\<lambda>u _ w. Some (None, u, w)) u w"

definition us_Abort :: "('r, 'w) unsafeSerialTransaction \<Rightarrow> ('r, 'w) unsafeSerialTransaction" where
  "us_Abort u = u\<lparr>us_done := True\<rparr>"

definition us_Commit ::
  "bool option \<Rightarrow> ('r, 'w) unsafeSerialTransaction \<Rightarrow>
   (('r, 'w) OpResult list \<times> err option) \<times> ('r, 'w) unsafeSerialTransaction" where
  "us_Commit ctx u =
     (case abortErr (us_done u) ctx of
        Some e \<Rightarrow> (([], Some e), u)
      | None \<Rightarrow>
          ((map (\<lambda>i. case map_of (us_results u) (int i) of
                       Some r \<Rightarrow> r
                     | None \<Rightarrow> \<lparr>or_Op = 0, or_Record = None, or_Err = None\<rparr>)
              [0 ..< nat (us_nextOp u)], None), us_Abort u))"

text \<open>\<open>TransactionOrSerial\<close> on a plain store; the file system commits with the background context.\<close>

definition serial_ops ::
  "('r, 's world) plain_store \<Rightarrow> ('r, 's world, ('r, 's world) unsafeSerialTransaction) store_ops" where
  "serial_ops P =
     \<lparr>r_Data = r_Data P, r_ReadDirNames = r_ReadDirNames P, r_Size = r_Size P, r_Mode = r_Mode P,
      r_ModTime = r_ModTime P,
      so_Transaction = (\<lambda>_ w. Some (new_serial, None, w)),
      so_Get = us_Get P,
      so_Set = us_Set P,
      so_Commit = (\<lambda>u w. let ((rs, e), u) = us_Commit (Some False) u in Some (rs, e, w)),
      so_Abort = (\<lambda>u w. Some (None, w))\<rparr>"

end
