(* ===== verification/KV_File.thy ===== *)
theory KV_File
  imports KV_Store
begin

section \<open>Package \<open>keyvalue\<close>: file handles (\<open>file.go\<close>, \<open>file_rwonly.go\<close>)\<close>

text \<open>
  A handle is a \<open>file\<close> (here \<open>kv_file\<close>): its shared file data (nil after \<open>Close\<close>), an offset and the open flags. A
  method on a closed handle dereferences nil and panics, so it is \<^const>\<open>None\<close>; \<open>Close\<close> alone checks.
  Operations return their results, the updated handle and the world, in that order.
\<close>

record ('r, 'w) kv_file =
  f_data :: "('r, 'w) fileData option"
  f_offset :: int
  f_flag :: flag

definition fileData_of :: "string \<Rightarrow> ('r, 'w) FileRecord option \<Rightarrow> ('r, 'w) fileData" where
  "fileData_of path r =
     \<lparr>fd_record = runOnce_of r, modeOverride = None, modTimeOverride = 0, fd_path = path\<rparr>"


subsection \<open>Reading and writing the store\<close>

definition getFile ::
  "('r, 's world, 't, 'z) store_ops_scheme \<Rightarrow> string \<Rightarrow> 's world \<Rightarrow>
   ((err + ('r, 's world) kv_file) \<times> 's world) option" where
  "getFile ops path w =
     (if \<not> ValidPath path then Some (Inl ErrInvalid, w)
      else do {
        (txn, e, w) \<leftarrow> so_Transaction ops TransactionReadOnly w;
        (case e of
           Some e \<Rightarrow> Some (Inl e, w)
         | None \<Rightarrow> do {
             (_, txn, w) \<leftarrow> so_Get ops path txn w;
             (results, e, w) \<leftarrow> so_Commit ops txn w;
             (case e of
                Some e \<Rightarrow> Some (Inl e, w)
              | None \<Rightarrow>
                  (case results of
                     [] \<Rightarrow> None
                   | r # _ \<Rightarrow>
                       (case or_Err r of
                          Some e \<Rightarrow> Some (Inl e, w)
                        | None \<Rightarrow> Some (Inr \<lparr>f_data = Some (fileData_of path (or_Record r)),
                                            f_offset = 0, f_flag = 0\<rparr>, w))))
           })
      })"

definition setFileTxn ::
  "('r, 's world, 't, 'z) store_ops_scheme \<Rightarrow> 't \<Rightarrow> string \<Rightarrow> ('r, 's world) fileData option \<Rightarrow>
   bref option \<Rightarrow> 's world \<Rightarrow>
   (err option \<times> 't \<times> ('r, 's world) fileData option \<times> 's world) option" where
  "setFileTxn ops txn path file contents w =
     (if \<not> ValidPath path then Some (Some ErrInvalid, txn, file, w)
      else do {
        (regular, file) \<leftarrow> (case (contents, file) of
             (None, Some f) \<Rightarrow> do { (m, f) \<leftarrow> FD_Mode ops f; Some (IsRegular m, Some f) }
           | _ \<Rightarrow> Some (False, file));
        if regular then None
        else do {
          (_, txn, file, w) \<leftarrow> so_Set ops path file contents txn w;
          Some (None, txn, file, w)
        }
      })"

definition setFile ::
  "('r, 's world, 't, 'z) store_ops_scheme \<Rightarrow> string \<Rightarrow> ('r, 's world) fileData option \<Rightarrow> 's world \<Rightarrow>
   (err option \<times> ('r, 's world) fileData option \<times> 's world) option" where
  "setFile ops path file w =
     do {
       (e, contents, file, w) \<leftarrow> (case file of
            None \<Rightarrow> Some (None, None, None, w)
          | Some f \<Rightarrow> do {
              (m, f) \<leftarrow> FD_Mode ops f;
              if IsRegular m then do {
                (d, f, w) \<leftarrow> FD_Data ops f w;
                (case d of
                   Inl e \<Rightarrow> Some (Some e, None, Some f, w)
                 | Inr b \<Rightarrow> Some (None, Some b, Some f, w))
              } else Some (None, None, Some f, w)
            });
       (case e of
          Some e \<Rightarrow> Some (Some e, file, w)
        | None \<Rightarrow> do {
            (txn, e, w) \<leftarrow> so_Transaction ops TransactionReadWrite w;
            (case e of
               Some e \<Rightarrow> Some (Some e, file, w)
             | None \<Rightarrow> do {
                 (e, txn, file, w) \<leftarrow> setFileTxn ops txn path file contents w;
                 (case e of
                    Some e \<Rightarrow> Some (Some e, file, w)
                  | None \<Rightarrow> do {
                      (_, e, w) \<leftarrow> so_Commit ops txn w;
                      Some (e, file, w)
                    })
               })
          })
     }"

definition save ::
  "('r, 's world, 't, 'z) store_ops_scheme \<Rightarrow> ('r, 's world) fileData \<Rightarrow> 's world \<Rightarrow>
   (err option \<times> ('r, 's world) fileData \<times> 's world) option" where
  "save ops f w =
     do {
       (e, f', w) \<leftarrow> setFile ops (fd_path f) (Some f) w;
       f' \<leftarrow> f';
       Some (e, f', w)
     }"

definition newFile :: "string \<Rightarrow> flag \<Rightarrow> file_mode \<Rightarrow> 's world \<Rightarrow> ('r, 's world) kv_file \<times> 's world" where
  "newFile path flag mode w =
     (let (now, w) = time_Now w in
      (\<lparr>f_data = Some (fileData_of path (Some (BaseRec
            (NewBaseFileRecord 0 now mode
              (Some (\<lambda>w. on_heap (\<lambda>h. let (b, h) = NewBytes_of [] h in Some (Inr b, h)) w)) None)))),
        f_offset = 0, f_flag = flag\<rparr>, w))"


subsection \<open>\<open>fileInfo\<close>\<close>

text \<open>
  A \<open>fileInfo\<close> keeps a record and asks it on every call. \<open>fileData.info\<close> keeps the file data,
  \<open>file.Stat\<close> keeps the embedded \<open>runOnceFileRecord\<close> and so bypasses the overrides, \<open>statAll\<close> keeps
  the record a transaction returned, which is nil for a missing path.
\<close>

datatype ('r, 'w) info_record =
    InfoData "('r, 'w) fileData"
  | InfoOnce "('r, 'w) runOnceFileRecord"
  | InfoRec "('r, 'w) FileRecord option"

record ('r, 'w) fileInfo =
  fi_Record :: "('r, 'w) info_record"
  fi_Path :: string

definition info_Name :: "('r, 'w) fileInfo \<Rightarrow> string" where
  "info_Name i = Base (fi_Path i)"

definition info_Size ::
  "('r, 's world, 'z) rec_ops_scheme \<Rightarrow> ('r, 's world) fileInfo \<Rightarrow> 's world \<Rightarrow> int option" where
  "info_Size ops i w =
     (case fi_Record i of
        InfoData f \<Rightarrow> map_option fst (FD_Size ops f w)
      | InfoOnce r \<Rightarrow> map_option fst (RO_Size ops r w)
      | InfoRec r \<Rightarrow> map_option (\<lambda>r. FR_Size ops r w) r)"

definition info_Mode ::
  "('r, 's world, 'z) rec_ops_scheme \<Rightarrow> ('r, 's world) fileInfo \<Rightarrow> file_mode option" where
  "info_Mode ops i =
     (case fi_Record i of
        InfoData f \<Rightarrow> map_option fst (FD_Mode ops f)
      | InfoOnce r \<Rightarrow> map_option fst (RO_Mode ops r)
      | InfoRec r \<Rightarrow> map_option (FR_Mode ops) r)"

definition info_ModTime ::
  "('r, 's world, 'z) rec_ops_scheme \<Rightarrow> ('r, 's world) fileInfo \<Rightarrow> time option" where
  "info_ModTime ops i =
     (case fi_Record i of
        InfoData f \<Rightarrow> map_option fst (FD_ModTime ops f)
      | InfoOnce r \<Rightarrow> map_option fst (RO_ModTime ops r)
      | InfoRec r \<Rightarrow> map_option (FR_ModTime ops) r)"

definition info_IsDir ::
  "('r, 's world, 'z) rec_ops_scheme \<Rightarrow> ('r, 's world) fileInfo \<Rightarrow> bool option" where
  "info_IsDir ops i = map_option IsDir (info_Mode ops i)"

text \<open>The value of \<open>Sys\<close> is opaque; a record that is not there panics.\<close>

definition info_Sys :: "('r, 'w) fileInfo \<Rightarrow> unit option" where
  "info_Sys i =
     (case fi_Record i of
        InfoData f \<Rightarrow> map_option (\<lambda>_. ()) (ro_record (fd_record f))
      | InfoOnce r \<Rightarrow> map_option (\<lambda>_. ()) (ro_record r)
      | InfoRec r \<Rightarrow> map_option (\<lambda>_. ()) r)"

definition fileData_info :: "('r, 'w) fileData \<Rightarrow> ('r, 'w) fileInfo" where
  "fileData_info f = \<lparr>fi_Record = InfoData f, fi_Path = fd_path f\<rparr>"


subsection \<open>Methods of \<open>file\<close>\<close>

definition with_data ::
  "('r, 'w) kv_file \<Rightarrow> (('r, 'w) fileData \<Rightarrow> 'a option) \<Rightarrow> 'a option" where
  "with_data f k = Option.bind (f_data f) k"

definition file_Close :: "('r, 'w) kv_file \<Rightarrow> err option \<times> ('r, 'w) kv_file" where
  "file_Close f =
     (case f_data f of
        None \<Rightarrow> (Some ErrClosed, f)
      | Some _ \<Rightarrow> (None, f\<lparr>f_data := None\<rparr>))"

definition updateModTime :: "('r, 's world) fileData \<Rightarrow> 's world \<Rightarrow> ('r, 's world) fileData \<times> 's world" where
  "updateModTime f w = (let (now, w) = time_Now w in (f\<lparr>modTimeOverride := now\<rparr>, w))"

definition file_ReadBlobAt ::
  "('r, 's world, 't, 'z) store_ops_scheme \<Rightarrow> ('r, 's world) kv_file \<Rightarrow> int \<Rightarrow> int \<Rightarrow> 's world \<Rightarrow>
   (bref option \<times> int \<times> err option \<times> ('r, 's world) kv_file \<times> 's world) option" where
  "file_ReadBlobAt ops f len off w =
     with_data f (\<lambda>d. do {
       (max, d) \<leftarrow> FD_Size ops d w;
       if off \<ge> max then Some (None, 0, Some EOF, f\<lparr>f_data := Some d\<rparr>, w)
       else do {
         let end = int64 (off + len);
         let end = (if end > max then max else end);
         (data, d, w) \<leftarrow> FD_Data ops d w;
         (case data of
            Inl e \<Rightarrow> Some (None, 0, Some e, f\<lparr>f_data := Some d\<rparr>, w)
          | Inr data \<Rightarrow> do {
              (b, w) \<leftarrow> on_heap (Bytes_View data off end) w;
              (case b of
                 Inl e \<Rightarrow> Some (None, 0, Some e, f\<lparr>f_data := Some d\<rparr>, w)
               | Inr b \<Rightarrow>
                   let n = Bytes_Len (w_heap w) b in
                   Some (Some b, n, (if int64 (off + n) = max then Some EOF else None),
                         f\<lparr>f_data := Some d\<rparr>, w))
            })
       }
     })"

text \<open>\<open>ReadAt\<close> returns the new content of the caller's buffer \<open>p\<close> in front.\<close>

definition file_ReadAt ::
  "('r, 's world, 't, 'z) store_ops_scheme \<Rightarrow> ('r, 's world) kv_file \<Rightarrow> byte list \<Rightarrow> int \<Rightarrow> 's world \<Rightarrow>
   (byte list \<times> int \<times> err option \<times> ('r, 's world) kv_file \<times> 's world) option" where
  "file_ReadAt ops f p off w =
     do {
       (b, n, e, f, w) \<leftarrow> file_ReadBlobAt ops f (int (length p)) off w;
       (case b of
          None \<Rightarrow> Some (p, n, e, f, w)
        | Some b \<Rightarrow> do {
            (buf, w) \<leftarrow> on_heap (Bytes_Bytes b) w;
            Some (go_copy p (slice_get (w_heap w) buf), n, e, f, w)
          })
     }"

definition file_Read where
  "file_Read ops f p w =
     do {
       (p, n, e, f, w) \<leftarrow> file_ReadAt ops f p (f_offset f) w;
       Some (p, n, e, f\<lparr>f_offset := int64 (f_offset f + n)\<rparr>, w)
     }"

definition file_ReadBlob where
  "file_ReadBlob ops f len w =
     do {
       (b, n, e, f, w) \<leftarrow> file_ReadBlobAt ops f len (f_offset f) w;
       Some (b, n, e, f\<lparr>f_offset := int64 (f_offset f + n)\<rparr>, w)
     }"

datatype whence = SeekStart | SeekCurrent | SeekEnd | SeekOther

definition file_Seek ::
  "('r, 's world, 't, 'z) store_ops_scheme \<Rightarrow> ('r, 's world) kv_file \<Rightarrow> int \<Rightarrow> whence \<Rightarrow> 's world \<Rightarrow>
   (int \<times> err option \<times> ('r, 's world) kv_file) option" where
  "file_Seek ops f offset whence w =
     (let invalid = (\<lambda>f. with_data f (\<lambda>d.
            Some (0, Some (PathError ''seek'' (fd_path d) ErrInvalid), f)));
          move = (\<lambda>newOffset f. if newOffset < 0 then invalid f
            else Some (newOffset, None, f\<lparr>f_offset := newOffset\<rparr>))
      in case whence of
           SeekStart \<Rightarrow> move offset f
         | SeekCurrent \<Rightarrow> move (int64 (f_offset f + offset)) f
         | SeekEnd \<Rightarrow> with_data f (\<lambda>d. do {
             (sz, d) \<leftarrow> FD_Size ops d w;
             move (int64 (sz + offset)) (f\<lparr>f_data := Some d\<rparr>)
           })
         | SeekOther \<Rightarrow> invalid f)"

definition file_writeBlobAt ::
  "('r, 's world, 't, 'z) store_ops_scheme \<Rightarrow> string \<Rightarrow> ('r, 's world) kv_file \<Rightarrow> bref \<Rightarrow> int \<Rightarrow> 's world \<Rightarrow>
   (int \<times> err option \<times> ('r, 's world) kv_file \<times> 's world) option" where
  "file_writeBlobAt ops op f p off w =
     with_data f (\<lambda>d. do {
       let fail = (\<lambda>n e d w. Some (n, Some (PathError op (fd_path d) e), f\<lparr>f_data := Some d\<rparr>, w));
       (off, d) \<leftarrow> (if has_flag (f_flag f) FlagAppend then FD_Size ops d w else Some (off, d));
       let endIndex = int64 (off + Bytes_Len (w_heap w) p);
       (sz, d) \<leftarrow> FD_Size ops d w;
       (e, d, w) \<leftarrow> (if sz < endIndex then do {
            (data, d, w) \<leftarrow> FD_Data ops d w;
            (case data of
               Inl e \<Rightarrow> Some (Some e, d, w)
             | Inr data \<Rightarrow> do {
                 (sz, d) \<leftarrow> FD_Size ops d w;
                 (e, w) \<leftarrow> on_heap (Bytes_Grow data (int64 (endIndex - sz))) w;
                 Some (e, d, w)
               })
          } else Some (None, d, w));
       (case e of
          Some e \<Rightarrow> fail 0 e d w
        | None \<Rightarrow> do {
            (data, d, w) \<leftarrow> FD_Data ops d w;
            (case data of
               Inl e \<Rightarrow> fail 0 e d w
             | Inr data \<Rightarrow> do {
                 ((n, e), w) \<leftarrow> on_heap (Bytes_Set data p off) w;
                 (case e of
                    Some e \<Rightarrow> fail n e d w
                  | None \<Rightarrow> do {
                      let (d, w) = (if n \<noteq> 0 then updateModTime d w else (d, w));
                      (e, d, w) \<leftarrow> save ops d w;
                      Some (n, e, f\<lparr>f_data := Some d\<rparr>, w)
                    })
               })
          })
     })"

definition file_WriteBlob where
  "file_WriteBlob ops f p w =
     do {
       (n, e, f, w) \<leftarrow> file_writeBlobAt ops ''write'' f p (f_offset f) w;
       Some (n, e, f\<lparr>f_offset := int64 (f_offset f + n)\<rparr>, w)
     }"

definition file_WriteBlobAt where
  "file_WriteBlobAt ops f p off w = file_writeBlobAt ops ''writeat'' f p off w"

definition file_Write where
  "file_Write ops f p w =
     do {
       (b, w) \<leftarrow> on_heap (\<lambda>h. Some (NewBytes_of p h)) w;
       file_WriteBlob ops f b w
     }"

definition file_WriteAt where
  "file_WriteAt ops f p off w =
     do {
       (b, w) \<leftarrow> on_heap (\<lambda>h. Some (NewBytes_of p h)) w;
       file_WriteBlobAt ops f b off w
     }"

definition file_Stat :: "('r, 'w) kv_file \<Rightarrow> ('r, 'w) fileInfo option" where
  "file_Stat f =
     with_data f (\<lambda>d. Some \<lparr>fi_Record = InfoOnce (fd_record d), fi_Path = fd_path d\<rparr>)"

definition file_Truncate ::
  "('r, 's world, 't, 'z) store_ops_scheme \<Rightarrow> ('r, 's world) kv_file \<Rightarrow> int \<Rightarrow> 's world \<Rightarrow>
   (err option \<times> ('r, 's world) kv_file \<times> 's world) option" where
  "file_Truncate ops f sz w =
     with_data f (\<lambda>d. do {
       let fail = (\<lambda>e d w. Some (Some (PathError ''truncate'' (fd_path d) e), f\<lparr>f_data := Some d\<rparr>, w));
       (m, d) \<leftarrow> FD_Mode ops d;
       if IsDir m then fail ErrIsDir d w
       else do {
         (len, d) \<leftarrow> FD_Size ops d w;
         if sz < 0 then fail ErrInvalid d w
         else if sz = len then Some (None, f\<lparr>f_data := Some d\<rparr>, w)
         else do {
           (data, d, w) \<leftarrow> FD_Data ops d w;
           (case data of
              Inl e \<Rightarrow> fail e d w
            | Inr data \<Rightarrow> do {
                (e, w) \<leftarrow> on_heap (if sz > len then Bytes_Grow data (int64 (sz - len))
                                  else Bytes_Truncate data sz) w;
                (case e of
                   Some e \<Rightarrow> fail e d w
                 | None \<Rightarrow> do {
                     let (d, w) = updateModTime d w;
                     (e, d, w) \<leftarrow> save ops d w;
                     Some (e, f\<lparr>f_data := Some d\<rparr>, w)
                   })
              })
         }
       }
     })"

definition chmodBits :: file_mode where
  "chmodBits = ModePerm OR ModeSetuid OR ModeSetgid OR ModeSticky"

definition file_Chmod ::
  "('r, 's world, 't, 'z) store_ops_scheme \<Rightarrow> ('r, 's world) kv_file \<Rightarrow> file_mode \<Rightarrow> 's world \<Rightarrow>
   (err option \<times> ('r, 's world) kv_file \<times> 's world) option" where
  "file_Chmod ops f mode w =
     with_data f (\<lambda>d. do {
       (m, d) \<leftarrow> FD_Mode ops d;
       let newMode = (m AND NOT chmodBits) OR (mode AND chmodBits);
       (e, d, w) \<leftarrow> save ops (d\<lparr>modeOverride := Some newMode\<rparr>) w;
       Some (e, f\<lparr>f_data := Some d\<rparr>, w)
     })"

end
