(* ===== verification/KV_FS.thy ===== *)
theory KV_FS
  imports KV_File
begin

section \<open>Package \<open>keyvalue\<close>: the file system (\<open>fs.go\<close>, \<open>ReadDir\<close> of \<open>file.go\<close>, \<open>file_rwonly.go\<close>)\<close>

text \<open>
  Every operation of \<open>FS\<close> takes the table \<open>ops\<close> of its store and the world, and returns its result and
  the new world; \<^const>\<open>None\<close> is a panic or a call that never returns. \<open>OpenFile\<close> wraps a handle in
  \<open>readOnlyFile\<close> or \<open>writeOnlyFile\<close>, which hide some of its methods.
\<close>

definition ignoreErrExist :: "err option \<Rightarrow> err option" where
  "ignoreErrExist e = (if is_err e ErrExist then None else e)"

definition wrapperErr :: "string \<Rightarrow> string \<Rightarrow> err option \<Rightarrow> err option" where
  "wrapperErr op path e = (case e of None \<Rightarrow> None | Some e \<Rightarrow> Some (PathError op path e))"

lemma wrapperErr_simps [simp]:
  "wrapperErr op p None = None" "wrapperErr op p (Some e) = Some (PathError op p e)"
  by (simp_all add: wrapperErr_def)


subsection \<open>\<open>Stat\<close>, \<open>Mkdir\<close> and \<open>NewFS\<close>\<close>

definition kv_Stat ::
  "('r, 's world, 't, 'z) store_ops_scheme \<Rightarrow> string \<Rightarrow> 's world \<Rightarrow>
   ((err + ('r, 's world) fileInfo) \<times> 's world) option" where
  "kv_Stat ops name w =
     do {
       (r, w) \<leftarrow> getFile ops name w;
       (case r of
          Inl e \<Rightarrow> Some (Inl (PathError ''stat'' name e), w)
        | Inr f \<Rightarrow> with_data f (\<lambda>d. Some (Inr (fileData_info d), w)))
     }"

definition newDir :: "string \<Rightarrow> file_mode \<Rightarrow> 's world \<Rightarrow> ('r, 's world) kv_file \<times> 's world" where
  "newDir name perm w = newFile name 0 (ModeDir OR (perm AND ModePerm)) w"

definition kv_Mkdir ::
  "('r, 's world, 't, 'z) store_ops_scheme \<Rightarrow> string \<Rightarrow> file_mode \<Rightarrow> 's world \<Rightarrow>
   (err option \<times> 's world) option" where
  "kv_Mkdir ops name perm w =
     (let (file, w) = newDir name perm w in
      do {
        (r, w) \<leftarrow> kv_Stat ops name w;
        (case r of
           Inr _ \<Rightarrow> Some (wrapperErr ''mkdir'' name (Some ErrExist), w)
         | Inl e \<Rightarrow>
             if \<not> errors_Is e ErrNotExist then Some (Some e, w)
             else do {
               (e, w) \<leftarrow> (if name \<noteq> ''.'' then do {
                    (r, w) \<leftarrow> kv_Stat ops (Dir name) w;
                    Some (case r of Inl e \<Rightarrow> Some e | Inr _ \<Rightarrow> None, w)
                  } else Some (None, w));
               (case e of
                  Some e \<Rightarrow> Some (wrapperErr ''mkdir'' name (Some e), w)
                | None \<Rightarrow> with_data file (\<lambda>d. do {
                    (e, _, w) \<leftarrow> save ops d w;
                    Some (wrapperErr ''mkdir'' name e, w)
                  }))
             })
      })"

definition kv_NewFS ::
  "('r, 's world, 't, 'z) store_ops_scheme \<Rightarrow> 's world \<Rightarrow> (err option \<times> 's world) option" where
  "kv_NewFS ops w = do { (e, w) \<leftarrow> kv_Mkdir ops ''.'' 0x1B6 w; Some (ignoreErrExist e, w) }"


subsection \<open>Several records in one transaction\<close>

fun get_each ::
  "('r, 's world, 't, 'z) store_ops_scheme \<Rightarrow> string list \<Rightarrow> 't \<Rightarrow> 's world \<Rightarrow> ('t \<times> 's world) option" where
  "get_each ops [] txn w = Some (txn, w)"
| "get_each ops (path # paths) txn w =
     do { (_, txn, w) \<leftarrow> so_Get ops path txn w; get_each ops paths txn w }"

definition getFileRecords ::
  "('r, 's world, 't, 'z) store_ops_scheme \<Rightarrow> string list \<Rightarrow> 's world \<Rightarrow>
   ((('r, 's world) OpResult list \<times> err option) \<times> 's world) option" where
  "getFileRecords ops paths w =
     do {
       (txn, e, w) \<leftarrow> so_Transaction ops TransactionReadOnly w;
       (case e of
          Some e \<Rightarrow> Some (([], Some e), w)
        | None \<Rightarrow> do {
            (txn, w) \<leftarrow> get_each ops paths txn w;
            (results, e, w) \<leftarrow> so_Commit ops txn w;
            Some ((results, e), w)
          })
     }"

text \<open>\<open>results[i]\<close> for every \<open>i\<close> of \<open>range paths\<close>.\<close>

definition first_results :: "'a list \<Rightarrow> 'b list \<Rightarrow> 'b list option" where
  "first_results paths results =
     (if length paths \<le> length results then Some (take (length paths) results) else None)"

definition statAll ::
  "('r, 's world, 't, 'z) store_ops_scheme \<Rightarrow> string list \<Rightarrow> 's world \<Rightarrow>
   (('r, 's world) fileInfo list \<times> err option list \<times> 's world) option" where
  "statAll ops paths w =
     do {
       ((results, e), w) \<leftarrow> getFileRecords ops paths w;
       (case e of
          Some e \<Rightarrow> Some ([], [Some e], w)
        | None \<Rightarrow> do {
            rs \<leftarrow> first_results paths results;
            Some (map2 (\<lambda>p r. \<lparr>fi_Record = InfoRec (or_Record r), fi_Path = p\<rparr>) paths rs,
                  map or_Err rs, w)
          })
     }"

definition set_first :: "'a \<Rightarrow> 'a list \<Rightarrow> 'a list option" where
  "set_first x xs = (case xs of [] \<Rightarrow> None | _ # ys \<Rightarrow> Some (x # ys))"

definition getFiles ::
  "('r, 's world, 't, 'z) store_ops_scheme \<Rightarrow> string list \<Rightarrow> 's world \<Rightarrow>
   (('r, 's world) kv_file option list \<times> err option list \<times> 's world) option" where
  "getFiles ops paths w =
     (let nofiles = map (\<lambda>_. None) paths;
          fail = (\<lambda>e w. do { errs \<leftarrow> set_first (Some e) (map (\<lambda>_. None) paths); Some (nofiles, errs, w) })
      in if \<not> list_all ValidPath paths then fail ErrInvalid w
         else do {
           ((results, e), w) \<leftarrow> getFileRecords ops paths w;
           (case e of
              Some e \<Rightarrow> fail e w
            | None \<Rightarrow> do {
                rs \<leftarrow> first_results paths results;
                Some (map2 (\<lambda>p r. Some \<lparr>f_data = Some (fileData_of p (or_Record r)),
                                        f_offset = 0, f_flag = 0\<rparr>) paths rs,
                      map or_Err rs, w)
              })
         })"


subsection \<open>\<open>MkdirAll\<close>\<close>

text \<open>The loop from a path up to the root, exclusive.\<close>

partial_function (option) path_chain :: "string \<Rightarrow> string list option" where
  [code]: "path_chain currentPath =
     (if currentPath = ''.'' then Some []
      else do { rest \<leftarrow> path_chain (Dir currentPath); Some (currentPath # rest) })"

definition isMissingDir ::
  "('r, 's world, 'z) rec_ops_scheme \<Rightarrow> string \<Rightarrow> ('r, 's world) fileInfo \<Rightarrow> err option \<Rightarrow>
   (bool \<times> err option) option" where
  "isMissingDir ops path info e =
     (if is_err e ErrNotExist then Some (True, None)
      else if e \<noteq> None then Some (False, e)
      else do {
        isDir \<leftarrow> info_IsDir ops info;
        if isDir then Some (False, None)
        else Some (True, Some (PathError ''mkdir'' path ErrNotDir))
      })"

fun missing_loop ::
  "('r, 's world, 'z) rec_ops_scheme \<Rightarrow> string list \<Rightarrow> ('r, 's world) fileInfo list \<Rightarrow> err option list \<Rightarrow>
   (err + string list) option" where
  "missing_loop ops [] infos errs = Some (Inr [])"
| "missing_loop ops (p # ps) (i # infos) (e # errs) =
     do {
       (missing, e) \<leftarrow> isMissingDir ops p i e;
       (case e of
          Some e \<Rightarrow> Some (Inl e)
        | None \<Rightarrow>
            if missing then do {
              r \<leftarrow> missing_loop ops ps infos errs;
              Some (case r of Inl e \<Rightarrow> Inl e | Inr ds \<Rightarrow> Inr (p # ds))
            }
            else Some (Inr []))
     }"
| "missing_loop ops (p # ps) _ _ = None"

definition findMissingDirs ::
  "('r, 's world, 't, 'z) store_ops_scheme \<Rightarrow> string \<Rightarrow> 's world \<Rightarrow>
   ((err + string list) \<times> 's world) option" where
  "findMissingDirs ops name w =
     (if \<not> ValidPath name then Some (Inl ErrInvalid, w)
      else do {
        chain \<leftarrow> path_chain name;
        let paths = chain @ [''.''];
        (infos, errs, w) \<leftarrow> statAll ops paths w;
        r \<leftarrow> missing_loop ops paths infos errs;
        Some (r, w)
      })"

fun mkdir_each ::
  "('r, 's world, 't, 'z) store_ops_scheme \<Rightarrow> file_mode \<Rightarrow> string list \<Rightarrow> 's world \<Rightarrow>
   (err option \<times> 's world) option" where
  "mkdir_each ops perm [] w = Some (None, w)"
| "mkdir_each ops perm (name # names) w =
     (let (file, w) = newDir name perm w in
      with_data file (\<lambda>d. do {
        (e, _, w) \<leftarrow> save ops d w;
        let e = ignoreErrExist (wrapperErr ''mkdirall'' name e);
        if e \<noteq> None then Some (e, w) else mkdir_each ops perm names w
      }))"

definition kv_MkdirAll ::
  "('r, 's world, 't, 'z) store_ops_scheme \<Rightarrow> string \<Rightarrow> file_mode \<Rightarrow> 's world \<Rightarrow>
   (err option \<times> 's world) option" where
  "kv_MkdirAll ops path perm w =
     do {
       (r, w) \<leftarrow> findMissingDirs ops path w;
       (case r of
          Inl e \<Rightarrow> Some (Some e, w)
        | Inr missingDirs \<Rightarrow> mkdir_each ops perm (rev missingDirs) w)
     }"


subsection \<open>Handles returned by \<open>OpenFile\<close> (\<open>file_rwonly.go\<close>)\<close>

datatype ('r, 'w) handle =
    readOnlyFile (h_file: "('r, 'w) kv_file")
  | writeOnlyFile (h_file: "('r, 'w) kv_file")
  | readWriteFile (h_file: "('r, 'w) kv_file")

primrec h_with :: "('r, 'w) handle \<Rightarrow> ('r, 'w) kv_file \<Rightarrow> ('r, 'w) handle" where
  "h_with (readOnlyFile _) f = readOnlyFile f"
| "h_with (writeOnlyFile _) f = writeOnlyFile f"
| "h_with (readWriteFile _) f = readWriteFile f"

text \<open>
  The handles that have the methods \<open>ReadAt\<close>, \<open>ReadBlob\<close>, \<open>ReadBlobAt\<close> and \<open>ReadDir\<close>, and those that
  have \<open>Write\<close>, \<open>WriteAt\<close>, \<open>WriteBlob\<close> and \<open>WriteBlobAt\<close>: the file the type assertion gives.
\<close>

primrec as_reader :: "('r, 'w) handle \<Rightarrow> ('r, 'w) kv_file option" where
  "as_reader (readOnlyFile f) = Some f"
| "as_reader (writeOnlyFile f) = None"
| "as_reader (readWriteFile f) = Some f"

primrec as_writer :: "('r, 'w) handle \<Rightarrow> ('r, 'w) kv_file option" where
  "as_writer (readOnlyFile f) = None"
| "as_writer (writeOnlyFile f) = Some f"
| "as_writer (readWriteFile f) = Some f"

definition h_Read ::
  "('r, 's world, 't, 'z) store_ops_scheme \<Rightarrow> ('r, 's world) handle \<Rightarrow> byte list \<Rightarrow> 's world \<Rightarrow>
   (byte list \<times> int \<times> err option \<times> ('r, 's world) handle \<times> 's world) option" where
  "h_Read ops h p w =
     (case h of
        writeOnlyFile f \<Rightarrow> with_data f (\<lambda>d.
          Some (p, 0, Some (PathError ''read'' (fd_path d) ErrNotImplemented), h, w))
      | _ \<Rightarrow> do { (p, n, e, f, w) \<leftarrow> file_Read ops (h_file h) p w; Some (p, n, e, h_with h f, w) })"

definition h_Close :: "('r, 'w) handle \<Rightarrow> err option \<times> ('r, 'w) handle" where
  "h_Close h = (let (e, f) = file_Close (h_file h) in (e, h_with h f))"

definition h_Seek where
  "h_Seek ops h offset whence w =
     do { (n, e, f) \<leftarrow> file_Seek ops (h_file h) offset whence w; Some (n, e, h_with h f) }"

definition h_Stat :: "('r, 'w) handle \<Rightarrow> ('r, 'w) fileInfo option" where
  "h_Stat h = file_Stat (h_file h)"

definition h_Truncate where
  "h_Truncate ops h sz w =
     do { (e, f, w) \<leftarrow> file_Truncate ops (h_file h) sz w; Some (e, h_with h f, w) }"

definition h_Chmod where
  "h_Chmod ops h mode w =
     do { (e, f, w) \<leftarrow> file_Chmod ops (h_file h) mode w; Some (e, h_with h f, w) }"

definition h_ReadAt where
  "h_ReadAt ops h p off w =
     do { f \<leftarrow> as_reader h; (p, n, e, f, w) \<leftarrow> file_ReadAt ops f p off w; Some (p, n, e, h_with h f, w) }"

definition h_Write where
  "h_Write ops h p w =
     do { f \<leftarrow> as_writer h; (n, e, f, w) \<leftarrow> file_Write ops f p w; Some (n, e, h_with h f, w) }"

definition h_WriteAt where
  "h_WriteAt ops h p off w =
     do { f \<leftarrow> as_writer h; (n, e, f, w) \<leftarrow> file_WriteAt ops f p off w; Some (n, e, h_with h f, w) }"


subsection \<open>\<open>OpenFile\<close>\<close>

text \<open>The result is the returned file (nil or a handle), the error, and the world.\<close>

definition kv_OpenFile ::
  "('r, 's world, 't, 'z) store_ops_scheme \<Rightarrow> string \<Rightarrow> flag \<Rightarrow> file_mode \<Rightarrow> 's world \<Rightarrow>
   (('r, 's world) handle option \<times> err option \<times> 's world) option" where
  "kv_OpenFile ops name flag perm w =
     (let paths = name # (if has_flag flag FlagCreate then [Dir name] else []) in
      do {
        (files, errs, w) \<leftarrow> getFiles ops paths w;
        err0 \<leftarrow> (case errs of [] \<Rightarrow> None | e # _ \<Rightarrow> Some e);
        let fail = (\<lambda>e w. Some (Inl (Some (PathError ''open'' name e)), w));
        (opened, w) \<leftarrow>
          (case err0 of
             None \<Rightarrow> do {
               storeFile \<leftarrow> (case files of [] \<Rightarrow> None | f # _ \<Rightarrow> f);
               d \<leftarrow> f_data storeFile;
               (m, d) \<leftarrow> FD_Mode ops d;
               if IsDir m \<and> has_flag flag (FlagCreate OR FlagWriteOnly) then fail ErrIsDir w
               else Some (Inr (storeFile\<lparr>f_data := Some d, f_flag := flag\<rparr>), w)
             }
           | Some err \<Rightarrow>
               if errors_Is err ErrNotExist \<and> has_flag flag FlagCreate then do {
                 err1 \<leftarrow> (case errs of _ # e # _ \<Rightarrow> Some e | _ \<Rightarrow> None);
                 (case err1 of
                    Some e \<Rightarrow> fail e w
                  | None \<Rightarrow>
                      let (storeFile, w) = newFile name flag (perm AND ModePerm) w in
                      with_data storeFile (\<lambda>d. do {
                        (e, d, w) \<leftarrow> save ops d w;
                        (case e of
                           Some e \<Rightarrow> fail e w
                         | None \<Rightarrow> Some (Inr (storeFile\<lparr>f_data := Some d\<rparr>), w))
                      }))
               }
               else fail err w);
        (case opened of
           Inl e \<Rightarrow> Some (None, e, w)
         | Inr storeFile \<Rightarrow> do {
             let file = (if has_flag flag FlagWriteOnly then writeOnlyFile storeFile
                         else if has_flag flag FlagReadWrite then readWriteFile storeFile
                         else readOnlyFile storeFile);
             if has_flag flag FlagTruncate then do {
               (e, file, w) \<leftarrow> h_Truncate ops file 0 w;
               Some (Some file, wrapperErr ''open'' name e, w)
             }
             else Some (Some file, None, w)
           })
      })"

definition kv_Open where
  "kv_Open ops name w = kv_OpenFile ops name FlagReadOnly 0 w"


subsection \<open>\<open>Remove\<close> and \<open>Rename\<close>\<close>

definition kv_Remove ::
  "('r, 's world, 't, 'z) store_ops_scheme \<Rightarrow> string \<Rightarrow> 's world \<Rightarrow> (err option \<times> 's world) option" where
  "kv_Remove ops name w =
     do {
       (r, w) \<leftarrow> getFile ops name w;
       (case r of
          Inl e \<Rightarrow> Some (wrapperErr ''remove'' name (Some e), w)
        | Inr file \<Rightarrow> with_data file (\<lambda>d. do {
            (m, d) \<leftarrow> FD_Mode ops d;
            (stop, w) \<leftarrow> (if IsDir m then do {
                 (r, d, w) \<leftarrow> FD_ReadDirNames ops d w;
                 Some (case r of
                     Inl e \<Rightarrow> Some e
                   | Inr dirNames \<Rightarrow>
                       if dirNames \<noteq> [] then Some (PathError ''remove'' name ErrNotEmpty) else None, w)
               } else Some (None, w));
            (case stop of
               Some e \<Rightarrow> Some (Some e, w)
             | None \<Rightarrow> do { (e, _, w) \<leftarrow> setFile ops name None w; Some (e, w) })
          }))
     }"

text \<open>The branch of \<open>Rename\<close> for a file that is not a directory.\<close>

definition rename_file ::
  "('r, 's world, 't, 'z) store_ops_scheme \<Rightarrow> string \<Rightarrow> string \<Rightarrow> ('r, 's world) fileData \<Rightarrow> 's world \<Rightarrow>
   (err option \<times> 's world) option" where
  "rename_file ops oldname newname d w =
     (if oldname = newname then Some (None, w)
      else do {
        (r, d, w) \<leftarrow> FD_Data ops d w;
        (case r of
           Inl e \<Rightarrow> Some (Some e, w)
         | Inr contents \<Rightarrow> do {
             (txn, e, w) \<leftarrow> so_Transaction ops TransactionReadWrite w;
             (e, txn, w) \<leftarrow> (if e = None then do {
                  (e, txn, _, w) \<leftarrow> setFileTxn ops txn newname (Some d) (Some contents) w;
                  Some (e, txn, w)
                } else Some (e, txn, w));
             (e, txn, w) \<leftarrow> (if e = None then do {
                  (e, txn, _, w) \<leftarrow> setFileTxn ops txn oldname None None w;
                  Some (e, txn, w)
                } else Some (e, txn, w));
             (if e \<noteq> None then do { (_, w) \<leftarrow> so_Abort ops txn w; Some (e, w) }
              else do { (_, e, w) \<leftarrow> so_Commit ops txn w; Some (e, w) })
           })
      })"

text \<open>A loop that stops at the first error.\<close>

primrec until_err ::
  "('a \<Rightarrow> 'w \<Rightarrow> (err option \<times> 'w) option) \<Rightarrow> 'a list \<Rightarrow> 'w \<Rightarrow> (err option \<times> 'w) option" where
  "until_err step [] w = Some (None, w)"
| "until_err step (x # xs) w =
     Option.bind (step x w) (\<lambda>(e, w). if e \<noteq> None then Some (e, w) else until_err step xs w)"

lemma until_err_mono [partial_function_mono]:
  assumes "\<And>x w. mono_option (\<lambda>f. step f x w)"
  shows "mono_option (\<lambda>f. until_err (step f) xs w)"
  using assms
proof (induction xs arbitrary: w)
  case Nil
  show ?case by (simp add: option.const_mono)
next
  case (Cons x xs)
  have "mono_option (\<lambda>f. Option.bind (step f x w)
      (\<lambda>y. case y of (e, w) \<Rightarrow> if e \<noteq> None then Some (e, w) else until_err (step f) xs w))"
  proof (rule bind_mono)
    show "mono_option (\<lambda>f. step f x w)" by (rule Cons.prems)
    fix y :: "err option \<times> 'b"
    obtain e v where y: "y = (e, v)" by (cases y)
    show "mono_option (\<lambda>f. case y of (e, w) \<Rightarrow>
        if e \<noteq> None then Some (e, w) else until_err (step f) xs w)"
      unfolding y using Cons by (cases "e = None") (simp_all add: option.const_mono)
  qed
  then show ?case by simp
qed

partial_function (option) kv_Rename ::
  "('r, 's world, 't, 'z) store_ops_scheme \<Rightarrow> string \<Rightarrow> string \<Rightarrow> 's world \<Rightarrow>
   (err option \<times> 's world) option" where
  [code]: "kv_Rename ops oldname newname w =
     do {
       (r, w) \<leftarrow> getFile ops oldname w;
       (case r of
          Inl _ \<Rightarrow> Some (Some (LinkError ''rename'' oldname newname ErrNotExist), w)
        | Inr oldFile \<Rightarrow> do {
            d \<leftarrow> f_data oldFile;
            (m, rec) \<leftarrow> RO_Mode ops (fd_record d);
            let d = d\<lparr>fd_record := rec\<rparr>;
            if \<not> IsDir m then rename_file ops oldname newname d w
            else do {
              (r, w) \<leftarrow> getFile ops newname w;
              if (case r of Inl e \<Rightarrow> \<not> errors_Is e ErrNotExist | Inr _ \<Rightarrow> True)
              then Some (Some (LinkError ''rename'' oldname newname ErrExist), w)
              else do {
                (names, d, w) \<leftarrow> FD_ReadDirNames ops d w;
                (case names of
                   Inl e \<Rightarrow> Some (Some e, w)
                 | Inr files \<Rightarrow> do {
                     (e, d, w) \<leftarrow> setFile ops newname (Some d) w;
                     if e \<noteq> None then Some (e, w)
                     else do {
                       (e, w) \<leftarrow> until_err (\<lambda>name w.
                            kv_Rename ops (Join [oldname, name]) (Join [newname, name]) w) files w;
                       if e \<noteq> None then Some (e, w)
                       else do { (e, _, w) \<leftarrow> setFile ops oldname None w; Some (e, w) }
                     }
                   })
              }
            }
          })
     }"


subsection \<open>\<open>Chmod\<close>, \<open>Chtimes\<close> and \<open>ReadDir\<close>\<close>

definition kv_Chmod ::
  "('r, 's world, 't, 'z) store_ops_scheme \<Rightarrow> string \<Rightarrow> file_mode \<Rightarrow> 's world \<Rightarrow>
   (err option \<times> 's world) option" where
  "kv_Chmod ops name mode w =
     do {
       (r, w) \<leftarrow> getFile ops name w;
       (case r of
          Inl e \<Rightarrow> Some (wrapperErr ''chmod'' name (Some e), w)
        | Inr file \<Rightarrow> with_data file (\<lambda>d. do {
            (m, d) \<leftarrow> FD_Mode ops d;
            let newMode = (m AND NOT chmodBits) OR (mode AND chmodBits);
            (e, _, w) \<leftarrow> save ops (d\<lparr>modeOverride := Some newMode\<rparr>) w;
            Some (e, w)
          }))
     }"

definition kv_Chtimes ::
  "('r, 's world, 't, 'z) store_ops_scheme \<Rightarrow> string \<Rightarrow> time \<Rightarrow> time \<Rightarrow> 's world \<Rightarrow>
   (err option \<times> 's world) option" where
  "kv_Chtimes ops name atime mtime w =
     do {
       (r, w) \<leftarrow> getFile ops name w;
       (case r of
          Inl e \<Rightarrow> Some (wrapperErr ''chtimes'' name (Some e), w)
        | Inr file \<Rightarrow> with_data file (\<lambda>d. do {
            (e, _, w) \<leftarrow> save ops (d\<lparr>modTimeOverride := mtime\<rparr>) w;
            Some (e, w)
          }))
     }"

record ('r, 'w) dirEntry =
  de_baseName :: string
  de_info :: "('r, 'w) fileInfo"

definition dirEntry_IsDir ::
  "('r, 's world, 'z) rec_ops_scheme \<Rightarrow> ('r, 's world) dirEntry \<Rightarrow> bool option" where
  "dirEntry_IsDir ops d = map_option IsDir (info_Mode ops (de_info d))"

definition dirEntry_Type ::
  "('r, 's world, 'z) rec_ops_scheme \<Rightarrow> ('r, 's world) dirEntry \<Rightarrow> file_mode option" where
  "dirEntry_Type ops d = map_option Type (info_Mode ops (de_info d))"

definition dirEntry_Info :: "('r, 'w) dirEntry \<Rightarrow> err + ('r, 'w) fileInfo" where
  "dirEntry_Info d = Inr (de_info d)"

fun newDirEntries ::
  "('r, 's world, 't, 'z) store_ops_scheme \<Rightarrow> string \<Rightarrow> string list \<Rightarrow> 's world \<Rightarrow>
   ((err + ('r, 's world) dirEntry list) \<times> 's world) option" where
  "newDirEntries ops basePath [] w = Some (Inr [], w)"
| "newDirEntries ops basePath (name # names) w =
     do {
       (r, w) \<leftarrow> kv_Stat ops (Join [basePath, name]) w;
       (case r of
          Inl e \<Rightarrow> Some (Inl e, w)
        | Inr info \<Rightarrow> do {
            (es, w) \<leftarrow> newDirEntries ops basePath names w;
            Some (case es of Inl e \<Rightarrow> Inl e
                  | Inr es \<Rightarrow> Inr (\<lparr>de_baseName = name, de_info = info\<rparr> # es), w)
          })
     }"

definition dir_window :: "int \<Rightarrow> int \<Rightarrow> int \<Rightarrow> int \<times> int" where
  "dir_window offset n len =
     (let end = int64 (offset + n) in
      if n \<le> 0 then (0, len) else if end > len then (offset, len) else (offset, end))"

definition file_ReadDir ::
  "('r, 's world, 't, 'z) store_ops_scheme \<Rightarrow> ('r, 's world) kv_file \<Rightarrow> int \<Rightarrow> 's world \<Rightarrow>
   ((err + ('r, 's world) dirEntry list) \<times> ('r, 's world) kv_file \<times> 's world) option" where
  "file_ReadDir ops f n w =
     with_data f (\<lambda>d. do {
       (r, d, w) \<leftarrow> FD_ReadDirNames ops d w;
       let f = f\<lparr>f_data := Some d\<rparr>;
       (case r of
          Inl e \<Rightarrow> Some (Inl (PathError ''readdir'' (fd_path d) e), f, w)
        | Inr dirNames \<Rightarrow> do {
            let (start, end) = dir_window (f_offset f) n (int (length dirNames));
            if \<not> (0 \<le> start \<and> start \<le> end) then None
            else do {
              (es, w) \<leftarrow> newDirEntries ops (fd_path d) (slice_of (nat start) (nat end) dirNames) w;
              Some (es, (case es of
                  Inl _ \<Rightarrow> f
                | Inr _ \<Rightarrow> f\<lparr>f_offset := int64 (f_offset f + int64 (end - start))\<rparr>), w)
            }
          })
     })"

definition h_ReadDir where
  "h_ReadDir ops h n w =
     do { f \<leftarrow> as_reader h; (r, f, w) \<leftarrow> file_ReadDir ops f n w; Some (r, h_with h f, w) }"

end
