(* ===== verification/KV_Spec.thy ===== *)
theory KV_Spec
  imports KV_FS
begin

section \<open>What a file system over a key-value store promises\<close>

text \<open>
  \<^item> \<open>rep\<close> says what a \<open>fileData\<close> stands for: its blob, mode and modification time, whichever of its
    caches and overrides hold them.
  \<^item> The locale \<open>kv_store\<close> is the contract between \<open>keyvalue.FS\<close> and a transaction store that keeps
    its records in memory: an invariant \<open>idle\<close> between transactions, an invariant \<open>busy\<close> within one,
    and the map \<open>lookup\<close> from keys to records as the abstraction of the store.
  \<^item> An abstract file system \<open>fs_tree\<close> maps paths to nodes. The functions \<open>spec_*\<close> say what the
    operations do to it, and the lemmas of the locale show that the operations of \<open>KV_FS\<close> return and
    refine them, on every branch.
\<close>

subsection \<open>What a \<open>fileData\<close> stands for\<close>

definition mode_of :: "('r, 's world, 'z) rec_ops_scheme \<Rightarrow> ('r, 's world) fileData \<Rightarrow> ('r, 's world) FileRecord \<Rightarrow> file_mode" where
  "mode_of ops f rec =
     (case modeOverride f of
        Some m \<Rightarrow> m
      | None \<Rightarrow> (case ro_mode (fd_record f) of Some m \<Rightarrow> m | None \<Rightarrow> FR_Mode ops rec))"

definition time_of :: "('r, 's world, 'z) rec_ops_scheme \<Rightarrow> ('r, 's world) fileData \<Rightarrow> ('r, 's world) FileRecord \<Rightarrow> time" where
  "time_of ops f rec =
     (if modTimeOverride f \<noteq> 0 then modTimeOverride f
      else (case ro_modTime (fd_record f) of Some t \<Rightarrow> t | None \<Rightarrow> FR_ModTime ops rec))"

definition rep ::
  "('r, 's world, 'z) rec_ops_scheme \<Rightarrow> ('r \<Rightarrow> bref) \<Rightarrow> ('r, 's world) fileData \<Rightarrow>
   bref \<Rightarrow> file_mode \<Rightarrow> time \<Rightarrow> bool" where
  "rep ops blob f b m t \<longleftrightarrow>
     (\<exists>rec. ro_record (fd_record f) = Some rec
        \<and> (case ro_data (fd_record f) of
             Some d \<Rightarrow> d = Inr b
           | None \<Rightarrow> (\<exists>r. rec = StoreRec r \<and> blob r = b))
        \<and> mode_of ops f rec = m \<and> time_of ops f rec = t)"

text \<open>The size a \<open>fileData\<close> reports is stale when it was cached before the blob was loaded.\<close>

definition size_ok :: "('r, 'w) fileData \<Rightarrow> bref \<Rightarrow> heap \<Rightarrow> bool" where
  "size_ok f b h \<longleftrightarrow>
     ro_data (fd_record f) \<noteq> None \<or>
     (case ro_size (fd_record f) of None \<Rightarrow> True | Some s \<Rightarrow> s = Bytes_Len h b)"

text \<open>A record of \<open>newFile\<close> whose getters have not been called.\<close>

definition fresh_rec :: "file_mode \<Rightarrow> time \<Rightarrow> ('r, 's world) FileRecord" where
  "fresh_rec m t = BaseRec (NewBaseFileRecord 0 t m
     (Some (\<lambda>w. on_heap (\<lambda>h. let (b, h) = NewBytes_of [] h in Some (Inr b, h)) w)) None)"

text \<open>
  A file to be saved: its blob exists, or saving it allocates an empty one. The memory before and after
  its data is asked for is part of the relation.
\<close>

definition sourced ::
  "('r, 's world, 'z) rec_ops_scheme \<Rightarrow> ('r \<Rightarrow> bref) \<Rightarrow> ('r, 's world) fileData \<Rightarrow>
   bref \<Rightarrow> file_mode \<Rightarrow> time \<Rightarrow> heap \<Rightarrow> heap \<Rightarrow> bool" where
  "sourced ops blob f b m t h h' \<longleftrightarrow>
     (rep ops blob f b m t \<and> h' = h)
     \<or> (\<exists>m0 t0. ro_record (fd_record f) = Some (fresh_rec m0 t0) \<and> ro_data (fd_record f) = None
          \<and> mode_of ops f (fresh_rec m0 t0) = m \<and> time_of ops f (fresh_rec m0 t0) = t
          \<and> NewBytes_of [] h = (b, h'))"

lemma newFile_eq:
  "newFile path flag m w =
     (\<lparr>f_data = Some (fileData_of path (Some (fresh_rec m (w_clock w (w_tick w))))),
       f_offset = 0, f_flag = flag\<rparr>, w\<lparr>w_tick := Suc (w_tick w)\<rparr>)"
  by (simp add: newFile_def time_Now_def fresh_rec_def)

lemmas FR_defs = FR_Data_def FR_ReadDirNames_def FR_Size_def FR_Mode_def FR_ModTime_def
lemmas FD_defs = FD_Data_def FD_ReadDirNames_def FD_Size_def FD_Mode_def FD_ModTime_def
  RO_Data_def RO_ReadDirNames_def RO_Size_def RO_Mode_def RO_ModTime_def

lemma rep_Mode:
  assumes "rep ops blob f b m t"
  shows "\<exists>f'. FD_Mode ops f = Some (m, f') \<and> rep ops blob f' b m t \<and> fd_path f' = fd_path f
    \<and> (\<forall>h. size_ok f' b h = size_ok f b h) \<and> modTimeOverride f' = modTimeOverride f
    \<and> ro_data (fd_record f') = ro_data (fd_record f)"
proof (cases "modeOverride f")
  case None
  show ?thesis
  proof (cases "ro_mode (fd_record f)")
    case N: None
    show ?thesis
      using assms None N by (auto simp: rep_def mode_of_def time_of_def FD_Mode_def RO_Mode_def size_ok_def)
  next
    case (Some x)
    then show ?thesis
      using assms None by (auto simp: rep_def mode_of_def FD_Mode_def RO_Mode_def)
  qed
next
  case (Some x)
  then show ?thesis using assms by (auto simp: rep_def mode_of_def FD_Mode_def)
qed

lemma rep_ModTime:
  assumes "rep ops blob f b m t"
  shows "\<exists>f'. FD_ModTime ops f = Some (t, f') \<and> rep ops blob f' b m t \<and> fd_path f' = fd_path f
    \<and> (\<forall>h. size_ok f' b h = size_ok f b h) \<and> ro_data (fd_record f') = ro_data (fd_record f)"
proof (cases "modTimeOverride f \<noteq> 0")
  case True
  then show ?thesis using assms by (auto simp: rep_def time_of_def FD_ModTime_def)
next
  case False
  show ?thesis
  proof (cases "ro_modTime (fd_record f)")
    case None
    show ?thesis
      using assms False None
      by (cases "modeOverride f")
        (auto simp: rep_def mode_of_def time_of_def FD_ModTime_def RO_ModTime_def size_ok_def)
  next
    case (Some x)
    then show ?thesis
      using assms False by (auto simp: rep_def time_of_def FD_ModTime_def RO_ModTime_def)
  qed
qed

text \<open>The file data of an updated mode or time.\<close>

lemma rep_with_mode:
  "rep ops blob f b m t \<Longrightarrow> rep ops blob (f\<lparr>modeOverride := Some m'\<rparr>) b m' t"
  by (auto simp: rep_def mode_of_def time_of_def)

lemma rep_with_time:
  "rep ops blob f b m t \<Longrightarrow> t' \<noteq> 0 \<Longrightarrow> rep ops blob (f\<lparr>modTimeOverride := t'\<rparr>) b m t'"
  by (cases "modeOverride f") (auto simp: rep_def mode_of_def time_of_def)

lemma rep_store:
  "rep ops blob (fileData_of p (Some (StoreRec r))) (blob r) (r_Mode ops r) (r_ModTime ops r)"
  by (simp add: rep_def mode_of_def time_of_def fileData_of_def runOnce_of_def FR_defs)

lemma size_ok_new [simp]: "size_ok (fileData_of p r) b h"
  by (simp add: size_ok_def fileData_of_def runOnce_of_def)

lemma size_ok_updates [simp]:
  "size_ok (f\<lparr>modeOverride := x\<rparr>) b h = size_ok f b h"
  "size_ok (f\<lparr>modTimeOverride := y\<rparr>) b h = size_ok f b h"
  by (simp_all add: size_ok_def)

lemma fileData_of_path [simp]: "fd_path (fileData_of p r) = p"
  by (simp add: fileData_of_def)


subsection \<open>The abstract file system\<close>

record node =
  n_mode :: file_mode
  n_modTime :: time
  n_data :: "byte list"

lemma node_all_fields [simp]:
  "(nd :: node)\<lparr>n_data := x, n_mode := m, n_modTime := t\<rparr> = \<lparr>n_mode = m, n_modTime = t, n_data = x\<rparr>"
  by (cases nd) simp

type_synonym fs_tree = "string \<Rightarrow> node option"

definition dir_node :: "file_mode \<Rightarrow> time \<Rightarrow> node" where
  "dir_node perm t = \<lparr>n_mode = ModeDir OR (perm AND ModePerm), n_modTime = t, n_data = []\<rparr>"

definition is_dir :: "fs_tree \<Rightarrow> string \<Rightarrow> bool" where
  "is_dir fs p \<longleftrightarrow> (case fs p of None \<Rightarrow> False | Some nd \<Rightarrow> IsDir (n_mode nd))"

definition children :: "(string \<Rightarrow> 'a option) \<Rightarrow> string \<Rightarrow> string set" where
  "children fs p = {Base q | q. q \<in> dom fs \<and> q \<noteq> dot \<and> Dir q = p}"

definition node_of ::
  "('r, 's world, 'z) rec_ops_scheme \<Rightarrow> ('r \<Rightarrow> bref) \<Rightarrow> heap \<Rightarrow> 'r \<Rightarrow> node" where
  "node_of ops blob h r =
     \<lparr>n_mode = r_Mode ops r, n_modTime = r_ModTime ops r,
      n_data = (if IsDir (r_Mode ops r) then [] else content h (blob r))\<rparr>"

definition tree_of ::
  "('r, 's world, 'z) rec_ops_scheme \<Rightarrow> ('s \<Rightarrow> string \<Rightarrow> 'r option) \<Rightarrow> ('r \<Rightarrow> bref) \<Rightarrow>
   's world \<Rightarrow> fs_tree" where
  "tree_of ops lookup blob w = (\<lambda>p. map_option (node_of ops blob (w_heap w)) (lookup (w_store w) p))"

definition now :: "'s world \<Rightarrow> time" where
  "now w = w_clock w (w_tick w)"

text \<open>The specifications of the operations.\<close>

definition spec_get :: "fs_tree \<Rightarrow> string \<Rightarrow> err + node" where
  "spec_get fs p =
     (if \<not> ValidPath p then Inl ErrInvalid
      else (case fs p of None \<Rightarrow> Inl ErrNotExist | Some nd \<Rightarrow> Inr nd))"

definition spec_Mkdir :: "fs_tree \<Rightarrow> string \<Rightarrow> file_mode \<Rightarrow> time \<Rightarrow> err option \<times> fs_tree" where
  "spec_Mkdir fs name perm t =
     (case spec_get fs name of
        Inr _ \<Rightarrow> (Some (PathError ''mkdir'' name ErrExist), fs)
      | Inl e \<Rightarrow>
          if e = ErrInvalid then (Some (PathError ''stat'' name ErrInvalid), fs)
          else if name \<noteq> dot \<and> fs (Dir name) = None
          then (Some (PathError ''mkdir'' name (PathError ''stat'' (Dir name) ErrNotExist)), fs)
          else (None, fs(name \<mapsto> dir_node perm t)))"

definition spec_Chmod :: "fs_tree \<Rightarrow> string \<Rightarrow> file_mode \<Rightarrow> err option \<times> fs_tree" where
  "spec_Chmod fs name mode =
     (case spec_get fs name of
        Inl e \<Rightarrow> (Some (PathError ''chmod'' name e), fs)
      | Inr nd \<Rightarrow>
          (None, fs(name \<mapsto> nd\<lparr>n_mode := (n_mode nd AND NOT chmodBits) OR (mode AND chmodBits)\<rparr>)))"

definition spec_Chtimes :: "fs_tree \<Rightarrow> string \<Rightarrow> time \<Rightarrow> err option \<times> fs_tree" where
  "spec_Chtimes fs name mtime =
     (case spec_get fs name of
        Inl e \<Rightarrow> (Some (PathError ''chtimes'' name e), fs)
      | Inr nd \<Rightarrow> (None, if mtime = 0 then fs else fs(name \<mapsto> nd\<lparr>n_modTime := mtime\<rparr>)))"

definition spec_Remove :: "fs_tree \<Rightarrow> string \<Rightarrow> err option \<times> fs_tree" where
  "spec_Remove fs name =
     (case spec_get fs name of
        Inl e \<Rightarrow> (Some (PathError ''remove'' name e), fs)
      | Inr nd \<Rightarrow>
          if IsDir (n_mode nd) \<and> children fs name \<noteq> {}
          then (Some (PathError ''remove'' name ErrNotEmpty), fs)
          else (None, fs(name := None)))"

definition spec_Rename_file :: "fs_tree \<Rightarrow> string \<Rightarrow> string \<Rightarrow> err option \<times> fs_tree" where
  "spec_Rename_file fs old new =
     (if old = new then (None, fs)
      else if \<not> ValidPath new then (Some ErrInvalid, fs)
      else (None, fs(new := fs old, old := None)))"


subsection \<open>Mode bits\<close>

lemma chmodBits_val: "chmodBits = 0xD001FF"
  by (simp add: chmodBits_def mode_defs)

lemma chmod_keeps_type: "((m AND NOT chmodBits) OR (mode AND chmodBits)) AND ModeType = m AND ModeType"
proof -
  have "chmodBits AND ModeType = 0" by (simp add: chmodBits_val ModeType_val)
  then have b: "\<not> (bit chmodBits n \<and> bit ModeType n)" for n
    by (metis bit_and_iff bit_0_eq bot_apply bot_bool_def)
  show ?thesis by (rule bit_word_eqI) (use b in \<open>auto simp: bit_simps\<close>)
qed

lemma chmod_IsDir [simp]: "IsDir ((m AND NOT chmodBits) OR (mode AND chmodBits)) = IsDir m"
proof -
  have *: "x AND ModeDir = (x AND ModeType) AND ModeDir" for x :: file_mode
    by (rule bit_word_eqI) (auto simp: bit_simps ModeType_def)
  show ?thesis unfolding IsDir_def by (subst (1 2) *) (simp add: chmod_keeps_type)
qed

lemma chmod_IsRegular [simp]: "IsRegular ((m AND NOT chmodBits) OR (mode AND chmodBits)) = IsRegular m"
  by (simp add: IsRegular_def chmod_keeps_type)


subsection \<open>The contract of a store\<close>

definition get_result :: "int \<Rightarrow> 'r option \<Rightarrow> ('r, 'w) OpResult" where
  "get_result op r = \<lparr>or_Op = op, or_Record = map_option StoreRec r,
     or_Err = (if r = None then Some ErrNotExist else None)\<rparr>"

definition ok_result :: "int \<Rightarrow> ('r, 'w) OpResult" where
  "ok_result op = \<lparr>or_Op = op, or_Record = None, or_Err = None\<rparr>"

definition handle_of :: "string \<Rightarrow> 'r \<Rightarrow> ('r, 'w) kv_file" where
  "handle_of p r = \<lparr>f_data = Some (fileData_of p (Some (StoreRec r))), f_offset = 0, f_flag = 0\<rparr>"

definition get_outcome :: "(string \<Rightarrow> 'r option) \<Rightarrow> string \<Rightarrow> err + ('r, 'w) kv_file" where
  "get_outcome m p =
     (if \<not> ValidPath p then Inl ErrInvalid
      else (case m p of None \<Rightarrow> Inl ErrNotExist | Some r \<Rightarrow> Inr (handle_of p r)))"

lemma get_outcome_simps:
  "\<not> ValidPath p \<Longrightarrow> get_outcome m p = Inl ErrInvalid"
  "ValidPath p \<Longrightarrow> m p = None \<Longrightarrow> get_outcome m p = Inl ErrNotExist"
  "ValidPath p \<Longrightarrow> m p = Some r \<Longrightarrow> get_outcome m p = Inr (handle_of p r)"
  by (simp_all add: get_outcome_def)

lemma get_cases:
  obtains (invalid) "\<not> ValidPath p" | (missing) "ValidPath p" "m p = None"
  | (found) r where "ValidPath p" "m p = Some r"
  by (cases "m p") auto

text \<open>
  The invariant of a file system: its store is between transactions; the memory is well-formed and the
  clock does not read the zero time; every record is a directory or a regular file, over a live blob of
  a size that fits an \<open>int64\<close>; and no file shares its backing array with another record.
\<close>

definition rec_ok ::
  "('r, 's world, 'z) rec_ops_scheme \<Rightarrow> ('r \<Rightarrow> bref) \<Rightarrow> heap \<Rightarrow> 'r \<Rightarrow> bool" where
  "rec_ok ops blob h r \<longleftrightarrow> live h (blob r) \<and> (IsDir (r_Mode ops r) \<or> IsRegular (r_Mode ops r))
     \<and> int (length (content h (blob r))) \<le> max_int64"

definition unshared ::
  "('r, 's world, 'z) rec_ops_scheme \<Rightarrow> ('r \<Rightarrow> bref) \<Rightarrow> heap \<Rightarrow> (string \<Rightarrow> 'r option) \<Rightarrow> bool" where
  "unshared ops blob h m \<longleftrightarrow>
     (\<forall>p q r r'. m p = Some r \<longrightarrow> m q = Some r' \<longrightarrow> p \<noteq> q \<longrightarrow> \<not> IsDir (r_Mode ops r) \<longrightarrow>
        apart h (blob r) (blob r'))"

definition fs_ok ::
  "('r, 's world, 'z) rec_ops_scheme \<Rightarrow> ('s \<Rightarrow> bool) \<Rightarrow> ('s \<Rightarrow> string \<Rightarrow> 'r option) \<Rightarrow>
   ('r \<Rightarrow> bref) \<Rightarrow> 's world \<Rightarrow> bool" where
  "fs_ok ops idle lookup blob w \<longleftrightarrow>
     idle (w_store w) \<and> wf_heap (w_heap w) \<and> (\<forall>n. w_clock w n \<noteq> 0)
     \<and> (\<forall>p r. lookup (w_store w) p = Some r \<longrightarrow> rec_ok ops blob (w_heap w) r)
     \<and> unshared ops blob (w_heap w) (lookup (w_store w))"

locale kv_store =
  fixes ops :: "('r, 's world, 't) store_ops"
    and idle :: "'s \<Rightarrow> bool"
    and busy :: "'t \<Rightarrow> ('r, 's world) OpResult list \<Rightarrow> 's \<Rightarrow> bool"
    and lookup :: "'s \<Rightarrow> string \<Rightarrow> 'r option"
    and mk :: "string \<Rightarrow> bref \<Rightarrow> file_mode \<Rightarrow> time \<Rightarrow> 'r"
    and blob :: "'r \<Rightarrow> bref"
    and key :: "'r \<Rightarrow> string"
  assumes begin_law: "idle (w_store w) \<Longrightarrow>
      \<exists>t s. so_Transaction ops md w = Some (t, None, w\<lparr>w_store := s\<rparr>) \<and> busy t [] s
        \<and> lookup s = lookup (w_store w)"
    and get_law: "busy t rs (w_store w) \<Longrightarrow>
      \<exists>op t' s. so_Get ops p t w = Some (op, t', w\<lparr>w_store := s\<rparr>)
        \<and> busy t' (rs @ [get_result (int (length rs)) (lookup (w_store w) p)]) s
        \<and> lookup s = lookup (w_store w)"
    and put_law: "busy t rs (w_store w) \<Longrightarrow> ValidPath p \<Longrightarrow>
      FD_Data ops f w = Some (Inr b, f1, w1) \<Longrightarrow> w_store w1 = w_store w \<Longrightarrow>
      rep ops blob f1 b m mt \<Longrightarrow> ro_data (fd_record f1) = Some (Inr b) \<Longrightarrow>
      \<exists>op t' f' s. so_Set ops p (Some f) c t w = Some (op, t', Some f', w1\<lparr>w_store := s\<rparr>)
        \<and> busy t' (rs @ [ok_result (int (length rs))]) s
        \<and> lookup s = (lookup (w_store w))(p \<mapsto> mk p b m mt)
        \<and> rep ops blob f' b m mt \<and> ro_data (fd_record f') = Some (Inr b) \<and> fd_path f' = fd_path f1"
    and del_law: "busy t rs (w_store w) \<Longrightarrow> ValidPath p \<Longrightarrow>
      \<exists>op t' s. so_Set ops p None c t w = Some (op, t', None, w\<lparr>w_store := s\<rparr>)
        \<and> busy t' (rs @ [ok_result (int (length rs))]) s
        \<and> lookup s = (lookup (w_store w))(p := None)"
    and commit_law: "busy t rs (w_store w) \<Longrightarrow>
      \<exists>s. so_Commit ops t w = Some (rs, None, w\<lparr>w_store := s\<rparr>) \<and> idle s
        \<and> lookup s = lookup (w_store w)"
    and abort_law: "busy t rs (w_store w) \<Longrightarrow>
      \<exists>e s. so_Abort ops t w = Some (e, w\<lparr>w_store := s\<rparr>) \<and> idle s
        \<and> lookup s = lookup (w_store w)"
    and mk_laws: "r_Mode ops (mk p b m mt) = m" "r_ModTime ops (mk p b m mt) = mt"
      "blob (mk p b m mt) = b"
    and rec_laws: "r_Data ops r w = Some (Inr (blob r), w)"
      "r_Size ops r w = Bytes_Len (w_heap w) (blob r)"
    and key_law: "idle s \<Longrightarrow> lookup s p = Some r \<Longrightarrow> key r = p \<and> ValidPath p"
    and finite_law: "idle s \<Longrightarrow> finite (dom (lookup s))"
    and names_law: "idle (w_store w) \<Longrightarrow> lookup s' (key r) = Some r \<Longrightarrow> idle s' \<Longrightarrow>
      IsDir (r_Mode ops r) \<Longrightarrow>
      \<exists>names. r_ReadDirNames ops r w = Some (Inr names, w) \<and> distinct names
        \<and> set names = children (lookup (w_store w)) (key r)"
begin

abbreviation ok :: "'s world \<Rightarrow> bool" where
  "ok \<equiv> fs_ok ops idle lookup blob"

abbreviation tree :: "'s world \<Rightarrow> fs_tree" where
  "tree \<equiv> tree_of ops lookup blob"

abbreviation Rep where
  "Rep \<equiv> rep ops blob"


lemma Rep_Data:
  assumes "Rep f b m t"
  shows "\<exists>f'. FD_Data ops f w = Some (Inr b, f', w) \<and> Rep f' b m t
    \<and> ro_data (fd_record f') = Some (Inr b) \<and> fd_path f' = fd_path f"
proof (cases "ro_data (fd_record f)")
  case None
  then obtain r where r: "ro_record (fd_record f) = Some (StoreRec r)" "blob r = b"
    using assms by (auto simp: rep_def)
  have "FD_Data ops f w = Some (Inr b, f\<lparr>fd_record := (fd_record f)\<lparr>ro_data := Some (Inr b)\<rparr>\<rparr>, w)"
    using None r by (simp add: FD_Data_def RO_Data_def FR_Data_def rec_laws)
  moreover have "Rep (f\<lparr>fd_record := (fd_record f)\<lparr>ro_data := Some (Inr b)\<rparr>\<rparr>) b m t"
    using assms r by (cases "modeOverride f") (auto simp: rep_def mode_of_def time_of_def)
  ultimately show ?thesis by simp
next
  case (Some d)
  then show ?thesis using assms by (auto simp: rep_def FD_Data_def RO_Data_def)
qed

lemma Rep_Size:
  assumes "Rep f b m t" "size_ok f b (w_heap w)"
  shows "\<exists>f'. FD_Size ops f w = Some (Bytes_Len (w_heap w) b, f') \<and> Rep f' b m t
    \<and> size_ok f' b (w_heap w) \<and> fd_path f' = fd_path f"
proof -
  obtain rec where rec: "ro_record (fd_record f) = Some rec" using assms by (auto simp: rep_def)
  let ?f' = "f\<lparr>fd_record := (fd_record f)\<lparr>ro_size := Some (FR_Size ops rec w)\<rparr>\<rparr>"
  have rep': "Rep ?f' b m t"
    using assms by (cases "modeOverride f") (auto simp: rep_def mode_of_def time_of_def)
  show ?thesis
  proof (cases "ro_data (fd_record f)")
    case None
    then have "FR_Size ops rec w = Bytes_Len (w_heap w) b"
      using assms rec by (auto simp: rep_def FR_Size_def rec_laws)
    then show ?thesis
      using assms rec None rep'
      by (cases "ro_size (fd_record f)") (auto simp: FD_Size_def RO_Size_def size_ok_def)
  next
    case (Some d)
    then have "d = Inr b" using assms by (auto simp: rep_def)
    then show ?thesis
      using assms rec Some rep'
      by (cases "ro_size (fd_record f)") (auto simp: FD_Size_def RO_Size_def size_ok_def)
  qed
qed

lemma sourced_Data:
  assumes "sourced ops blob f b m t (w_heap w) h'"
  shows "\<exists>f'. FD_Data ops f w = Some (Inr b, f', w\<lparr>w_heap := h'\<rparr>) \<and> Rep f' b m t
    \<and> ro_data (fd_record f') = Some (Inr b) \<and> fd_path f' = fd_path f"
  using assms unfolding sourced_def
proof (elim disjE exE conjE)
  assume "Rep f b m t" "h' = w_heap w"
  then show ?thesis using Rep_Data [of f b m t w] by simp
next
  fix m0 t0
  assume *: "ro_record (fd_record f) = Some (fresh_rec m0 t0)" "ro_data (fd_record f) = None"
    "mode_of ops f (fresh_rec m0 t0) = m" "time_of ops f (fresh_rec m0 t0) = t"
    "NewBytes_of [] (w_heap w) = (b, h')"
  let ?f' = "f\<lparr>fd_record := (fd_record f)\<lparr>ro_data := Some (Inr b)\<rparr>\<rparr>"
  have "FD_Data ops f w = Some (Inr b, ?f', w\<lparr>w_heap := h'\<rparr>)"
    using * by (simp add: FD_Data_def RO_Data_def FR_Data_def Base_Data_def fresh_rec_def
        NewBaseFileRecord_def on_heap_def)
  moreover have "Rep ?f' b m t"
    using * by (cases "modeOverride f") (auto simp: rep_def mode_of_def time_of_def)
  ultimately show ?thesis by simp
qed

lemma sourced_Mode:
  assumes "sourced ops blob f b m t h h'"
  shows "\<exists>f'. FD_Mode ops f = Some (m, f') \<and> sourced ops blob f' b m t h h' \<and> fd_path f' = fd_path f"
  using assms unfolding sourced_def
proof (elim disjE exE conjE)
  assume "Rep f b m t" "h' = h"
  then show "\<exists>f'. FD_Mode ops f = Some (m, f') \<and> (Rep f' b m t \<and> h' = h \<or>
      (\<exists>m0 t0. ro_record (fd_record f') = Some (fresh_rec m0 t0) \<and> ro_data (fd_record f') = None
          \<and> mode_of ops f' (fresh_rec m0 t0) = m \<and> time_of ops f' (fresh_rec m0 t0) = t
          \<and> NewBytes_of [] h = (b, h'))) \<and> fd_path f' = fd_path f"
    using rep_Mode by blast
next
  fix m0 t0
  assume *: "ro_record (fd_record f) = Some (fresh_rec m0 t0)" "ro_data (fd_record f) = None"
    "mode_of ops f (fresh_rec m0 t0) = m" "time_of ops f (fresh_rec m0 t0) = t"
    "NewBytes_of [] h = (b, h')"
  have "\<exists>f'. FD_Mode ops f = Some (m, f') \<and> ro_record (fd_record f') = Some (fresh_rec m0 t0)
      \<and> ro_data (fd_record f') = None \<and> mode_of ops f' (fresh_rec m0 t0) = m
      \<and> time_of ops f' (fresh_rec m0 t0) = t \<and> fd_path f' = fd_path f"
  proof (cases "modeOverride f")
    case None
    then show ?thesis using *
      by (cases "ro_mode (fd_record f)") (auto simp: FD_Mode_def RO_Mode_def mode_of_def time_of_def)
  next
    case (Some x)
    then show ?thesis using * by (auto simp: FD_Mode_def mode_of_def)
  qed
  then show "\<exists>f'. FD_Mode ops f = Some (m, f') \<and> (Rep f' b m t \<and> h' = h \<or>
      (\<exists>m0 t0. ro_record (fd_record f') = Some (fresh_rec m0 t0) \<and> ro_data (fd_record f') = None
          \<and> mode_of ops f' (fresh_rec m0 t0) = m \<and> time_of ops f' (fresh_rec m0 t0) = t
          \<and> NewBytes_of [] h = (b, h'))) \<and> fd_path f' = fd_path f"
    using *(5) by blast
qed

lemma sourced_rep: "Rep f b m t \<Longrightarrow> sourced ops blob f b m t h h"
  by (simp add: sourced_def)

lemma sourced_fresh:
  "NewBytes_of [] h = (b, h') \<Longrightarrow>
   sourced ops blob (fileData_of p (Some (fresh_rec m t))) b m t h h'"
  by (auto simp: sourced_def fileData_of_def runOnce_of_def mode_of_def time_of_def fresh_rec_def
      NewBaseFileRecord_def FR_Mode_def FR_ModTime_def)


lemma getFile_spec:
  assumes "idle (w_store w)"
  shows "\<exists>s. getFile ops p w = Some (get_outcome (lookup (w_store w)) p, w\<lparr>w_store := s\<rparr>)
    \<and> idle s \<and> lookup s = lookup (w_store w)"
proof (cases "ValidPath p")
  case True
  obtain t s1 where 1: "so_Transaction ops TransactionReadOnly w = Some (t, None, w\<lparr>w_store := s1\<rparr>)"
      "busy t [] s1" "lookup s1 = lookup (w_store w)"
    using begin_law [OF assms] by blast
  obtain op t' s2 where 2: "so_Get ops p t (w\<lparr>w_store := s1\<rparr>) = Some (op, t', w\<lparr>w_store := s2\<rparr>)"
      "busy t' [get_result 0 (lookup (w_store w) p)] s2" "lookup s2 = lookup (w_store w)"
    using get_law [of t "[]" "w\<lparr>w_store := s1\<rparr>" p] 1 by auto
  obtain s3 where 3: "so_Commit ops t' (w\<lparr>w_store := s2\<rparr>)
      = Some ([get_result 0 (lookup (w_store w) p)], None, w\<lparr>w_store := s3\<rparr>)"
      "idle s3" "lookup s3 = lookup (w_store w)"
    using commit_law [of t' _ "w\<lparr>w_store := s2\<rparr>"] 2 by auto
  show ?thesis
    using True 1 2 3
    by (cases "lookup (w_store w) p")
      (auto simp: getFile_def get_outcome_def get_result_def handle_of_def intro!: exI [of _ s3])
next
  case False
  then show ?thesis using assms by (auto simp: getFile_def get_outcome_def intro!: exI [of _ "w_store w"])
qed

text \<open>Writing a record in a transaction of its own, and deleting one.\<close>

lemma setFileTxn_put:
  assumes "busy t rs (w_store w)" "ValidPath p" "sourced ops blob f b m mt (w_heap w) h'"
    and "c = None \<Longrightarrow> \<not> IsRegular m"
  shows "\<exists>t' f' s. setFileTxn ops t p (Some f) c w
        = Some (None, t', Some f', w\<lparr>w_heap := h', w_store := s\<rparr>)
      \<and> busy t' (rs @ [ok_result (int (length rs))]) s
      \<and> lookup s = (lookup (w_store w))(p \<mapsto> mk p b m mt)
      \<and> Rep f' b m mt \<and> ro_data (fd_record f') = Some (Inr b) \<and> fd_path f' = fd_path f"
proof -
  obtain f0 where f0: "FD_Mode ops f = Some (m, f0)" "sourced ops blob f0 b m mt (w_heap w) h'"
      "fd_path f0 = fd_path f"
    using sourced_Mode [OF assms(3)] by blast
  define g where "g = (if c = None then f0 else f)"
  have g: "sourced ops blob g b m mt (w_heap w) h'" "fd_path g = fd_path f"
    using f0 assms(3) by (simp_all add: g_def)
  obtain f1 where f1: "FD_Data ops g w = Some (Inr b, f1, w\<lparr>w_heap := h'\<rparr>)" "Rep f1 b m mt"
      "ro_data (fd_record f1) = Some (Inr b)" "fd_path f1 = fd_path g"
    using sourced_Data [OF g(1)] by blast
  obtain op t' f' s where "so_Set ops p (Some g) c t w
        = Some (op, t', Some f', w\<lparr>w_heap := h', w_store := s\<rparr>)"
      "busy t' (rs @ [ok_result (int (length rs))]) s"
      "lookup s = (lookup (w_store w))(p \<mapsto> mk p b m mt)"
      "Rep f' b m mt" "ro_data (fd_record f') = Some (Inr b)" "fd_path f' = fd_path f1"
    using put_law [OF assms(1,2) f1(1) _ f1(2,3), of c] by auto
  then show ?thesis
    using assms(2,4) f0(1) f1(4) g(2) by (cases c) (auto simp: setFileTxn_def g_def)
qed

lemma setFileTxn_del:
  assumes "busy t rs (w_store w)" "ValidPath p"
  shows "\<exists>t' s. setFileTxn ops t p None c w = Some (None, t', None, w\<lparr>w_store := s\<rparr>)
      \<and> busy t' (rs @ [ok_result (int (length rs))]) s
      \<and> lookup s = (lookup (w_store w))(p := None)"
  using del_law [OF assms, of c] assms(2) by (cases c) (auto simp: setFileTxn_def)

lemma setFile_put:
  assumes "idle (w_store w)" "ValidPath p" "sourced ops blob f b m mt (w_heap w) h'"
  shows "\<exists>f' s. setFile ops p (Some f) w = Some (None, Some f', w\<lparr>w_heap := h', w_store := s\<rparr>)
      \<and> idle s \<and> lookup s = (lookup (w_store w))(p \<mapsto> mk p b m mt)
      \<and> Rep f' b m mt \<and> ro_data (fd_record f') = Some (Inr b) \<and> fd_path f' = fd_path f"
proof -
  obtain f0 where f0: "FD_Mode ops f = Some (m, f0)" "sourced ops blob f0 b m mt (w_heap w) h'"
      "fd_path f0 = fd_path f"
    using sourced_Mode [OF assms(3)] by blast
  obtain f1 where f1: "FD_Data ops f0 w = Some (Inr b, f1, w\<lparr>w_heap := h'\<rparr>)" "Rep f1 b m mt"
      "fd_path f1 = fd_path f0"
    using sourced_Data [OF f0(2)] by blast
  define g where "g = (if IsRegular m then f1 else f0)"
  define h where "h = (if IsRegular m then h' else w_heap w)"
  define c where "c = (if IsRegular m then Some b else None)"
  have creg: "c = None \<Longrightarrow> \<not> IsRegular m" by (simp add: c_def split: if_splits)
  have g: "sourced ops blob g b m mt h h'" "fd_path g = fd_path f"
    using f0 f1 by (simp_all add: g_def h_def sourced_rep)
  obtain t s1 where 1: "so_Transaction ops TransactionReadWrite (w\<lparr>w_heap := h\<rparr>)
        = Some (t, None, w\<lparr>w_heap := h, w_store := s1\<rparr>)"
      "busy t [] s1" "lookup s1 = lookup (w_store w)"
    using begin_law [of "w\<lparr>w_heap := h\<rparr>" TransactionReadWrite] assms(1) by auto
  obtain t' f' s2 where 2: "setFileTxn ops t p (Some g) c (w\<lparr>w_heap := h, w_store := s1\<rparr>)
        = Some (None, t', Some f', w\<lparr>w_heap := h', w_store := s2\<rparr>)"
      "busy t' [ok_result 0] s2" "lookup s2 = (lookup (w_store w))(p \<mapsto> mk p b m mt)"
      "Rep f' b m mt" "ro_data (fd_record f') = Some (Inr b)" "fd_path f' = fd_path g"
    using setFileTxn_put [of t "[]" "w\<lparr>w_heap := h, w_store := s1\<rparr>" p g b m mt h' c, OF _ assms(2) _ creg] 1 g
    by auto
  obtain s3 where 3: "so_Commit ops t' (w\<lparr>w_heap := h', w_store := s2\<rparr>)
        = Some ([ok_result 0], None, w\<lparr>w_heap := h', w_store := s3\<rparr>)"
      "idle s3" "lookup s3 = lookup s2"
    using commit_law [of t' _ "w\<lparr>w_heap := h', w_store := s2\<rparr>"] 2 by auto
  have "setFile ops p (Some f) w = Some (None, Some f', w\<lparr>w_heap := h', w_store := s3\<rparr>)"
    using f0(1) f1(1) 1(1) 2(1) 3(1)
    by (cases "IsRegular m") (simp_all add: setFile_def g_def h_def c_def)
  then show ?thesis using 2 3 g by auto
qed

lemma setFile_del:
  assumes "idle (w_store w)" "ValidPath p"
  shows "\<exists>s. setFile ops p None w = Some (None, None, w\<lparr>w_store := s\<rparr>)
      \<and> idle s \<and> lookup s = (lookup (w_store w))(p := None)"
proof -
  obtain t s1 where 1: "so_Transaction ops TransactionReadWrite w = Some (t, None, w\<lparr>w_store := s1\<rparr>)"
      "busy t [] s1" "lookup s1 = lookup (w_store w)"
    using begin_law [OF assms(1)] by blast
  obtain t' s2 where 2: "setFileTxn ops t p None None (w\<lparr>w_store := s1\<rparr>)
        = Some (None, t', None, w\<lparr>w_store := s2\<rparr>)"
      "busy t' [ok_result 0] s2" "lookup s2 = (lookup (w_store w))(p := None)"
    using setFileTxn_del [of t "[]" "w\<lparr>w_store := s1\<rparr>" p None] 1 assms(2) by auto
  obtain s3 where 3: "so_Commit ops t' (w\<lparr>w_store := s2\<rparr>) = Some ([ok_result 0], None, w\<lparr>w_store := s3\<rparr>)"
      "idle s3" "lookup s3 = lookup s2"
    using commit_law [of t' _ "w\<lparr>w_store := s2\<rparr>"] 2 by auto
  show ?thesis using 1 2 3 by (auto simp: setFile_def)
qed

lemma save_put:
  assumes "idle (w_store w)" "ValidPath (fd_path f)" "sourced ops blob f b m mt (w_heap w) h'"
  shows "\<exists>f' s. save ops f w = Some (None, f', w\<lparr>w_heap := h', w_store := s\<rparr>)
      \<and> idle s \<and> lookup s = (lookup (w_store w))(fd_path f \<mapsto> mk (fd_path f) b m mt)
      \<and> Rep f' b m mt \<and> ro_data (fd_record f') = Some (Inr b) \<and> fd_path f' = fd_path f"
  using setFile_put [OF assms] by (auto simp: save_def)

text \<open>How the invariant and the tree change with the store and the memory.\<close>

lemma ok_D:
  assumes "ok w"
  shows "idle (w_store w)" "wf_heap (w_heap w)" "w_clock w n \<noteq> 0"
    and "lookup (w_store w) p = Some r \<Longrightarrow> rec_ok ops blob (w_heap w) r"
    and "unshared ops blob (w_heap w) (lookup (w_store w))"
  using assms by (auto simp: fs_ok_def)

lemma ok_store:
  assumes "ok w" "idle s" "lookup s = lookup (w_store w)"
  shows "ok (w\<lparr>w_store := s\<rparr>)" "tree (w\<lparr>w_store := s\<rparr>) = tree w"
  using assms by (simp_all add: fs_ok_def tree_of_def)

lemma ok_tick [simp]: "ok w \<Longrightarrow> ok (w\<lparr>w_tick := n\<rparr>)" "tree (w\<lparr>w_tick := n\<rparr>) = tree w"
  by (simp_all add: fs_ok_def tree_of_def)

lemma ok_extends:
  assumes "ok w" "wf_heap h" "extends (w_heap w) h"
  shows "ok (w\<lparr>w_heap := h\<rparr>)" "tree (w\<lparr>w_heap := h\<rparr>) = tree w"
proof -
  have r: "rec_ok ops blob h r" "content h (blob r) = content (w_heap w) (blob r)"
      "live (w_heap w) (blob r)"
    if "lookup (w_store w) p = Some r" for p r
    using ok_D(4) [OF assms(1) that] extends_live [OF assms(3)] extends_content [OF assms(3)]
    by (simp_all add: rec_ok_def)
  have "unshared ops blob h (lookup (w_store w))"
    using ok_D(5) [OF assms(1)] r(3) extends_apart [OF assms(3)] unfolding unshared_def by metis
  then show "ok (w\<lparr>w_heap := h\<rparr>)"
    using assms r(1) by (auto simp: fs_ok_def)
  show "tree (w\<lparr>w_heap := h\<rparr>) = tree w"
  proof
    fix p show "tree (w\<lparr>w_heap := h\<rparr>) p = tree w p"
      using r(2) by (cases "lookup (w_store w) p") (simp_all add: tree_of_def node_of_def)
  qed
qed

lemma ok_put:
  assumes "ok w" "idle s" "lookup s = (lookup (w_store w))(p \<mapsto> mk p b m t)"
    and "live (w_heap w) b" "IsDir m \<or> IsRegular m" "int (length (content (w_heap w) b)) \<le> max_int64"
    and ap: "\<And>q r. lookup (w_store w) q = Some r \<Longrightarrow> q \<noteq> p \<Longrightarrow> \<not> (IsDir m \<and> IsDir (r_Mode ops r)) \<Longrightarrow>
      apart (w_heap w) b (blob r)"
  shows "ok (w\<lparr>w_store := s\<rparr>)"
    "tree (w\<lparr>w_store := s\<rparr>) = (tree w)(p \<mapsto> \<lparr>n_mode = m, n_modTime = t,
       n_data = (if IsDir m then [] else content (w_heap w) b)\<rparr>)"
proof -
  have "unshared ops blob (w_heap w) (lookup s)"
    unfolding unshared_def
  proof (intro allI impI)
    fix p1 q r r'
    assume *: "lookup s p1 = Some r" "lookup s q = Some r'" "p1 \<noteq> q" "\<not> IsDir (r_Mode ops r)"
    consider "p1 = p" "q \<noteq> p" | "p1 \<noteq> p" "q = p" | "p1 \<noteq> p" "q \<noteq> p" using *(3) by blast
    then show "apart (w_heap w) (blob r) (blob r')"
    proof cases
      case 1
      then show ?thesis using * ap [of q r'] assms(3) by (auto simp: mk_laws)
    next
      case 2
      then have "apart (w_heap w) b (blob r)" using * ap [of p1 r] assms(3) by auto
      then show ?thesis using 2 * assms(3) by (auto simp: mk_laws apart_def)
    next
      case 3
      then have "lookup (w_store w) p1 = Some r" "lookup (w_store w) q = Some r'"
        using * assms(3) by auto
      then show ?thesis using ok_D(5) [OF assms(1)] * unfolding unshared_def by blast
    qed
  qed
  then show "ok (w\<lparr>w_store := s\<rparr>)"
    using assms by (auto simp: fs_ok_def rec_ok_def mk_laws)
  show "tree (w\<lparr>w_store := s\<rparr>) = (tree w)(p \<mapsto> \<lparr>n_mode = m, n_modTime = t,
       n_data = (if IsDir m then [] else content (w_heap w) b)\<rparr>)"
    using assms(3) by (auto simp: tree_of_def node_of_def mk_laws)
qed

text \<open>The same path, and the same blob: only mode and time change.\<close>

lemma ok_put_same:
  assumes "ok w" "idle s" "lookup s = (lookup (w_store w))(p \<mapsto> mk p (blob r) m t)"
    and r: "lookup (w_store w) p = Some r" and "IsDir m = IsDir (r_Mode ops r)"
      "IsRegular m = IsRegular (r_Mode ops r)"
  shows "ok (w\<lparr>w_store := s\<rparr>)"
    "tree (w\<lparr>w_store := s\<rparr>) = (tree w)(p \<mapsto> (node_of ops blob (w_heap w) r)\<lparr>n_mode := m, n_modTime := t\<rparr>)"
proof -
  have rok: "rec_ok ops blob (w_heap w) r" using ok_D(4) [OF assms(1) r] .
  have ap: "apart (w_heap w) (blob r) (blob r')"
    if "lookup (w_store w) q = Some r'" "q \<noteq> p" "\<not> (IsDir m \<and> IsDir (r_Mode ops r'))" for q r'
    using ok_D(5) [OF assms(1)] r that assms(5) unfolding unshared_def apart_def by metis
  note put = ok_put [OF assms(1,2,3) _ _ _ ap]
  show "ok (w\<lparr>w_store := s\<rparr>)"
    by (rule put(1)) (use rok assms(5,6) in \<open>auto simp: rec_ok_def\<close>)
  have "tree (w\<lparr>w_store := s\<rparr>) = (tree w)(p \<mapsto> \<lparr>n_mode = m, n_modTime = t,
       n_data = (if IsDir m then [] else content (w_heap w) (blob r))\<rparr>)"
    by (rule put(2)) (use rok assms(5,6) in \<open>auto simp: rec_ok_def\<close>)
  then show "tree (w\<lparr>w_store := s\<rparr>) = (tree w)(p \<mapsto> (node_of ops blob (w_heap w) r)\<lparr>n_mode := m, n_modTime := t\<rparr>)"
    using assms(5) by (simp add: node_of_def)
qed

text \<open>A new record over an empty blob.\<close>

lemma ok_put_new:
  assumes "ok w" "NewBytes_of [] (w_heap w) = (b, h')" "IsDir m \<or> IsRegular m" "idle s"
    and "lookup s = (lookup (w_store w))(p \<mapsto> mk p b m t)"
  shows "ok (w\<lparr>w_heap := h', w_store := s\<rparr>)"
    "tree (w\<lparr>w_heap := h', w_store := s\<rparr>) = (tree w)(p \<mapsto> \<lparr>n_mode = m, n_modTime = t, n_data = []\<rparr>)"
proof -
  note N = NewBytes_of_spec [OF ok_D(2) [OF assms(1)] assms(2)]
  note E = ok_extends [OF assms(1) N(1,2)]
  have ap: "apart h' b (blob r)" if "lookup (w_store w) q = Some r" for q r
    using ok_D(4) [OF assms(1) that] N(6) [of "blob r"] by (auto simp: rec_ok_def apart_def)
  note P = ok_put [OF E(1), of s p b m t]
  have c: "content h' b = []" "live h' b" using N by simp_all
  show "ok (w\<lparr>w_heap := h', w_store := s\<rparr>)"
    by (rule P(1)) (use assms c ap in \<open>auto simp: max_int64_def\<close>)
  have "tree (w\<lparr>w_heap := h', w_store := s\<rparr>) = (tree (w\<lparr>w_heap := h'\<rparr>))(p \<mapsto> \<lparr>n_mode = m, n_modTime = t,
       n_data = (if IsDir m then [] else content (w_heap (w\<lparr>w_heap := h'\<rparr>)) b)\<rparr>)"
    by (rule P(2)) (use assms c ap in \<open>auto simp: max_int64_def\<close>)
  then show "tree (w\<lparr>w_heap := h', w_store := s\<rparr>) = (tree w)(p \<mapsto> \<lparr>n_mode = m, n_modTime = t, n_data = []\<rparr>)"
    using E(2) c by simp
qed

lemma ok_del:
  assumes "ok w" "idle s" "lookup s = (lookup (w_store w))(p := None)"
  shows "ok (w\<lparr>w_store := s\<rparr>)" "tree (w\<lparr>w_store := s\<rparr>) = (tree w)(p := None)"
  using assms by (auto simp: fs_ok_def tree_of_def unshared_def split: if_splits)

end

end
