(* ===== verification/KV_Refine.thy ===== *)
theory KV_Refine
  imports KV_Spec
begin

section \<open>The operations of \<open>keyvalue.FS\<close> refine their specifications\<close>

text \<open>
  Within the contract \<open>kv_store\<close>: every operation returns (it neither panics nor blocks), keeps the
  invariant \<open>fs_ok\<close>, and changes the tree and reports errors as its specification says.
\<close>

text \<open>A \<open>FileInfo\<close> shows a node.\<close>

definition info_shows ::
  "('r, 's world, 'z) rec_ops_scheme \<Rightarrow> ('r, 's world) fileInfo \<Rightarrow> 's world \<Rightarrow> string \<Rightarrow> node \<Rightarrow> bool" where
  "info_shows ops i w name nd \<longleftrightarrow>
     info_Name i = Base name \<and> info_Mode ops i = Some (n_mode nd) \<and>
     info_ModTime ops i = Some (n_modTime nd) \<and>
     info_Sys i = Some () \<and>
     (\<not> IsDir (n_mode nd) \<longrightarrow> info_Size ops i w = Some (int (length (n_data nd))))"

definition stat_shows ::
  "('r, 's world, 'z) rec_ops_scheme \<Rightarrow> (err + ('r, 's world) fileInfo) \<Rightarrow> 's world \<Rightarrow> string \<Rightarrow>
   fs_tree \<Rightarrow> bool" where
  "stat_shows ops r w name fs \<longleftrightarrow>
     (case spec_get fs name of
        Inl e \<Rightarrow> r = Inl (PathError ''stat'' name e)
      | Inr nd \<Rightarrow> (\<exists>i. r = Inr i \<and> info_shows ops i w name nd))"

definition stat_outcome :: "(string \<Rightarrow> 'r option) \<Rightarrow> string \<Rightarrow> err + ('r, 'w) fileInfo" where
  "stat_outcome m name =
     (if \<not> ValidPath name then Inl (PathError ''stat'' name ErrInvalid)
      else (case m name of
              None \<Rightarrow> Inl (PathError ''stat'' name ErrNotExist)
            | Some r \<Rightarrow> Inr (fileData_info (fileData_of name (Some (StoreRec r))))))"

lemma stat_outcome_simps:
  "\<not> ValidPath p \<Longrightarrow> stat_outcome m p = Inl (PathError ''stat'' p ErrInvalid)"
  "ValidPath p \<Longrightarrow> m p = None \<Longrightarrow> stat_outcome m p = Inl (PathError ''stat'' p ErrNotExist)"
  "ValidPath p \<Longrightarrow> m p = Some r \<Longrightarrow> stat_outcome m p = Inr (fileData_info (fileData_of p (Some (StoreRec r))))"
  by (simp_all add: stat_outcome_def)

context kv_store
begin

lemma tree_None_iff [simp]: "tree w p = None \<longleftrightarrow> lookup (w_store w) p = None"
  by (simp add: tree_of_def)

lemma tree_Some:
  "lookup (w_store w) p = Some r \<Longrightarrow> tree w p = Some (node_of ops blob (w_heap w) r)"
  by (simp add: tree_of_def)

lemma spec_get_lookup:
  "spec_get (tree w) p = (if \<not> ValidPath p then Inl ErrInvalid
     else (case lookup (w_store w) p of None \<Rightarrow> Inl ErrNotExist
           | Some r \<Rightarrow> Inr (node_of ops blob (w_heap w) r)))"
  by (simp add: spec_get_def tree_of_def split: option.split)

lemma node_of_mode [simp]: "n_mode (node_of ops blob h r) = r_Mode ops r"
  by (simp add: node_of_def)

lemma kv_Stat_lookup:
  assumes "idle (w_store w)"
  shows "\<exists>s. kv_Stat ops name w = Some (stat_outcome (lookup (w_store w)) name, w\<lparr>w_store := s\<rparr>)
    \<and> idle s \<and> lookup s = lookup (w_store w)"
proof -
  obtain s where "getFile ops name w = Some (get_outcome (lookup (w_store w)) name, w\<lparr>w_store := s\<rparr>)"
      "idle s" "lookup s = lookup (w_store w)"
    using getFile_spec [OF assms] by blast
  then show ?thesis
    by (cases rule: get_cases [of name _ "lookup (w_store w)"])
      (auto simp: kv_Stat_def with_data_def handle_of_def get_outcome_simps stat_outcome_simps)
qed

lemma info_of_record:
  assumes "rec_ok ops blob (w_heap w) r" "wf_heap (w_heap w)"
  shows "info_shows ops (fileData_info (fileData_of name (Some (StoreRec r)))) w name
    (node_of ops blob (w_heap w) r)"
  using assms
  by (simp add: info_shows_def fileData_info_def info_Name_def info_Mode_def info_ModTime_def info_Sys_def
      info_Size_def fileData_of_def runOnce_of_def FD_defs FR_defs rec_laws node_of_def rec_ok_def
      Bytes_Len_content)

lemma Stat_refines:
  assumes "ok w"
  shows "\<exists>r w'. kv_Stat ops name w = Some (r, w') \<and> ok w' \<and> tree w' = tree w
    \<and> stat_shows ops r w' name (tree w)"
proof -
  obtain s where s: "kv_Stat ops name w = Some (stat_outcome (lookup (w_store w)) name, w\<lparr>w_store := s\<rparr>)"
      "idle s" "lookup s = lookup (w_store w)"
    using kv_Stat_lookup [OF ok_D(1) [OF assms]] by blast
  have "info_shows ops (fileData_info (fileData_of name (Some (StoreRec r)))) (w\<lparr>w_store := s\<rparr>) name
    (node_of ops blob (w_heap w) r)" if "lookup (w_store w) name = Some r" for r
    using info_of_record [of "w\<lparr>w_store := s\<rparr>" r name] ok_D [OF assms] that by simp
  then have "stat_shows ops (stat_outcome (lookup (w_store w)) name) (w\<lparr>w_store := s\<rparr>) name (tree w)"
    by (cases "lookup (w_store w) name") (simp_all add: stat_shows_def stat_outcome_def spec_get_lookup)
  then show ?thesis using s ok_store [OF assms s(2,3)] by blast
qed

text \<open>Saving the data of \<open>newFile\<close>.\<close>

lemma save_new:
  assumes "ok w" "ValidPath p" "IsDir m \<or> IsRegular m"
  shows "\<exists>f' b w'. save ops (fileData_of p (Some (fresh_rec m t))) w = Some (None, f', w')
    \<and> ok w' \<and> tree w' = (tree w)(p \<mapsto> \<lparr>n_mode = m, n_modTime = t, n_data = []\<rparr>)
    \<and> w_clock w' = w_clock w \<and> w_tick w' = w_tick w
    \<and> Rep f' b m t \<and> ro_data (fd_record f') = Some (Inr b) \<and> fd_path f' = p
    \<and> lookup (w_store w') p = Some (mk p b m t)"
proof -
  obtain b h' where N: "NewBytes_of [] (w_heap w) = (b, h')" by fastforce
  obtain f' s where *: "save ops (fileData_of p (Some (fresh_rec m t))) w
        = Some (None, f', w\<lparr>w_heap := h', w_store := s\<rparr>)"
      "idle s" "lookup s = (lookup (w_store w))(p \<mapsto> mk p b m t)"
      "Rep f' b m t" "ro_data (fd_record f') = Some (Inr b)" "fd_path f' = p"
    using save_put [OF ok_D(1) [OF assms(1)] _ sourced_fresh [OF N, of p m t]] assms(2) by auto
  then show ?thesis using ok_put_new [OF assms(1) N assms(3) *(2,3)] by auto
qed

lemma newDir_eq:
  "newDir p perm w = (\<lparr>f_data = Some (fileData_of p (Some (fresh_rec (ModeDir OR (perm AND ModePerm)) (now w)))),
     f_offset = 0, f_flag = 0\<rparr>, w\<lparr>w_tick := Suc (w_tick w)\<rparr>)"
  by (simp add: newDir_def newFile_eq now_def)

lemma Mkdir_refines:
  assumes "ok w"
  shows "\<exists>e w'. kv_Mkdir ops name perm w = Some (e, w') \<and> ok w' \<and>
    (e, tree w') = spec_Mkdir (tree w) name perm (now w)"
proof -
  let ?w1 = "w\<lparr>w_tick := Suc (w_tick w)\<rparr>"
  have ok1: "ok ?w1" "tree ?w1 = tree w" using ok_tick assms by auto
  obtain s where s: "kv_Stat ops name ?w1 = Some (stat_outcome (lookup (w_store w)) name, ?w1\<lparr>w_store := s\<rparr>)"
      "idle s" "lookup s = lookup (w_store w)"
    using kv_Stat_lookup [OF ok_D(1) [OF ok1(1)], of name] by auto
  have ok2: "ok (?w1\<lparr>w_store := s\<rparr>)" "tree (?w1\<lparr>w_store := s\<rparr>) = tree w"
    using ok_store [OF ok1(1) s(2)] s(3) ok1(2) by simp_all
  note D = kv_Mkdir_def newDir_eq spec_Mkdir_def spec_get_lookup stat_outcome_simps
  show ?thesis
  proof (cases rule: get_cases [of name _ "lookup (w_store w)"])
    case invalid
    then show ?thesis using s ok2 by (simp add: D)
  next
    case found
    then show ?thesis using s ok2 by (simp add: D)
  next
    case 3: missing
    define d where "d = fileData_of name (Some (fresh_rec (ModeDir OR (perm AND ModePerm)) (now w) :: ('r, 's world) FileRecord))"
    have save: "\<exists>f' w3. save ops d w2 = Some (None, f', w3) \<and> ok w3
        \<and> tree w3 = (tree w)(name \<mapsto> dir_node perm (now w))" if "ok w2" "tree w2 = tree w" for w2
      using save_new [OF that(1) 3(1), of "ModeDir OR (perm AND ModePerm)" "now w"] that(2)
      by (auto simp: d_def dir_node_def)
    obtain s' where s': "kv_Stat ops (Dir name) (?w1\<lparr>w_store := s\<rparr>)
        = Some (stat_outcome (lookup (w_store w)) (Dir name), ?w1\<lparr>w_store := s'\<rparr>)"
        "idle s'" "lookup s' = lookup (w_store w)"
      using kv_Stat_lookup [OF ok_D(1) [OF ok2(1)], of "Dir name"] s(3) by auto
    have ok3: "ok (?w1\<lparr>w_store := s'\<rparr>)" "tree (?w1\<lparr>w_store := s'\<rparr>) = tree w"
      using ok_store [OF ok1(1) s'(2)] s'(3) ok1(2) by simp_all
    have v: "ValidPath (Dir name)" using 3(1) by (rule ValidPath_Dir)
    show ?thesis
    proof (cases "name = dot")
      case True
      then show ?thesis using s save [OF ok2] 3 by (auto simp: D with_data_def d_def)
    next
      case False
      then show ?thesis using s s' save [OF ok3] ok3 3 v
        by (cases "lookup (w_store w) (Dir name)") (auto simp: D with_data_def d_def)
    qed
  qed
qed

lemma NewFS_root:
  assumes "ok w"
  shows "\<exists>w'. kv_NewFS ops w = Some (None, w') \<and> ok w' \<and>
    tree w' = (if tree w dot = None then (tree w)(dot \<mapsto> dir_node 0x1B6 (now w)) else tree w)"
proof -
  obtain e w' where *: "kv_Mkdir ops dot 0x1B6 w = Some (e, w')" "ok w'"
      "(e, tree w') = spec_Mkdir (tree w) dot 0x1B6 (now w)"
    using Mkdir_refines [OF assms] by blast
  show ?thesis
    using * by (cases "lookup (w_store w) dot")
      (auto simp: kv_NewFS_def spec_Mkdir_def spec_get_lookup ignoreErrExist_def)
qed

text \<open>Saving the data of an existing file with another mode or time.\<close>

lemma save_same:
  assumes "ok w" "lookup (w_store w) p = Some r" "Rep f (blob r) m t" "fd_path f = p"
    and "IsDir m = IsDir (r_Mode ops r)" "IsRegular m = IsRegular (r_Mode ops r)"
  shows "\<exists>f' s. save ops f w = Some (None, f', w\<lparr>w_store := s\<rparr>) \<and> ok (w\<lparr>w_store := s\<rparr>)
    \<and> tree (w\<lparr>w_store := s\<rparr>) = (tree w)(p \<mapsto> (node_of ops blob (w_heap w) r)\<lparr>n_mode := m, n_modTime := t\<rparr>)
    \<and> Rep f' (blob r) m t \<and> ro_data (fd_record f') = Some (Inr (blob r)) \<and> fd_path f' = p
    \<and> lookup s = (lookup (w_store w))(p \<mapsto> mk p (blob r) m t)"
proof -
  have v: "ValidPath (fd_path f)" using key_law [OF ok_D(1) [OF assms(1)] assms(2)] assms(4) by simp
  obtain f' s where *: "save ops f w = Some (None, f', w\<lparr>w_store := s\<rparr>)"
      "idle s" "lookup s = (lookup (w_store w))(p \<mapsto> mk p (blob r) m t)"
      "Rep f' (blob r) m t" "ro_data (fd_record f') = Some (Inr (blob r))" "fd_path f' = p"
    using save_put [OF ok_D(1) [OF assms(1)] v sourced_rep [OF assms(3)]] assms(4) by auto
  then show ?thesis using ok_put_same [OF assms(1) *(2,3) assms(2,5,6)] by auto
qed

lemma node_chmod:
  "(node_of ops blob h r)\<lparr>n_mode := m, n_modTime := r_ModTime ops r\<rparr> = (node_of ops blob h r)\<lparr>n_mode := m\<rparr>"
  "(node_of ops blob h r)\<lparr>n_mode := r_Mode ops r, n_modTime := t\<rparr> = (node_of ops blob h r)\<lparr>n_modTime := t\<rparr>"
  "(node_of ops blob h r)\<lparr>n_modTime := r_ModTime ops r\<rparr> = node_of ops blob h r"
  by (simp_all add: node_of_def)

lemma Chmod_refines:
  assumes "ok w"
  shows "\<exists>e w'. kv_Chmod ops name mode w = Some (e, w') \<and> ok w' \<and>
    (e, tree w') = spec_Chmod (tree w) name mode"
proof -
  obtain s where s: "getFile ops name w = Some (get_outcome (lookup (w_store w)) name, w\<lparr>w_store := s\<rparr>)"
      "idle s" "lookup s = lookup (w_store w)"
    using getFile_spec [OF ok_D(1) [OF assms]] by blast
  note ok1 = ok_store [OF assms s(2,3)]
  note D = kv_Chmod_def spec_Chmod_def spec_get_lookup get_outcome_simps
  show ?thesis
  proof (cases rule: get_cases [of name _ "lookup (w_store w)"])
    case (found r)
    let ?m = "(r_Mode ops r AND NOT chmodBits) OR (mode AND chmodBits)"
    obtain d where d: "FD_Mode ops (fileData_of name (Some (StoreRec r))) = Some (r_Mode ops r, d)"
        "Rep d (blob r) (r_Mode ops r) (r_ModTime ops r)" "fd_path d = name"
      using rep_Mode [OF rep_store [of ops blob name r]] by auto
    obtain f' s' where "save ops (d\<lparr>modeOverride := Some ?m\<rparr>) (w\<lparr>w_store := s\<rparr>) = Some (None, f', w\<lparr>w_store := s'\<rparr>)"
        "ok (w\<lparr>w_store := s'\<rparr>)"
        "tree (w\<lparr>w_store := s'\<rparr>) = (tree w)(name \<mapsto> (node_of ops blob (w_heap w) r)\<lparr>n_mode := ?m\<rparr>)"
      using save_same [OF ok1(1), of name r "d\<lparr>modeOverride := Some ?m\<rparr>" ?m "r_ModTime ops r"]
        rep_with_mode [OF d(2)] d(3) found s(3) ok1(2) by (auto simp: node_chmod)
    then show ?thesis using s found d by (simp add: D with_data_def handle_of_def)
  qed (use s ok1 in \<open>simp_all add: D\<close>)
qed

lemma Chtimes_refines:
  assumes "ok w"
  shows "\<exists>e w'. kv_Chtimes ops name atime mtime w = Some (e, w') \<and> ok w' \<and>
    (e, tree w') = spec_Chtimes (tree w) name mtime"
proof -
  obtain s where s: "getFile ops name w = Some (get_outcome (lookup (w_store w)) name, w\<lparr>w_store := s\<rparr>)"
      "idle s" "lookup s = lookup (w_store w)"
    using getFile_spec [OF ok_D(1) [OF assms]] by blast
  note ok1 = ok_store [OF assms s(2,3)]
  note D = kv_Chtimes_def spec_Chtimes_def spec_get_lookup get_outcome_simps
  show ?thesis
  proof (cases rule: get_cases [of name _ "lookup (w_store w)"])
    case (found r)
    let ?t = "if mtime = 0 then r_ModTime ops r else mtime"
    let ?d = "(fileData_of name (Some (StoreRec r)))\<lparr>modTimeOverride := mtime\<rparr>"
    have "Rep ?d (blob r) (r_Mode ops r) ?t"
      by (simp add: rep_def mode_of_def time_of_def fileData_of_def runOnce_of_def FR_defs)
    then obtain f' s' where *: "save ops ?d (w\<lparr>w_store := s\<rparr>) = Some (None, f', w\<lparr>w_store := s'\<rparr>)"
        "ok (w\<lparr>w_store := s'\<rparr>)"
        "tree (w\<lparr>w_store := s'\<rparr>) = (tree w)(name \<mapsto> (node_of ops blob (w_heap w) r)\<lparr>n_modTime := ?t\<rparr>)"
      using save_same [OF ok1(1), of name r ?d "r_Mode ops r" ?t] found s(3) ok1(2)
      by (auto simp: node_chmod)
    have "(tree w)(name \<mapsto> node_of ops blob (w_heap w) r) = tree w"
      using found tree_Some [of w name r] by (simp add: fun_upd_idem)
    then show ?thesis using s found *
      by (cases "mtime = 0") (simp_all add: D with_data_def handle_of_def node_chmod)
  qed (use s ok1 in \<open>simp_all add: D\<close>)
qed

lemma children_tree [simp]: "children (tree w) p = children (lookup (w_store w)) p"
  by (auto simp: children_def dom_def)

lemma dir_names:
  assumes "idle (w_store w)" "idle s'" "lookup s' p = Some r" "IsDir (r_Mode ops r)"
    "ro_record (fd_record d) = Some (StoreRec r)" "ro_dirNames (fd_record d) = None"
  shows "\<exists>names d'. FD_ReadDirNames ops d w = Some (Inr names, d', w) \<and> distinct names
    \<and> set names = children (lookup (w_store w)) p \<and> fd_path d' = fd_path d
    \<and> (\<forall>b m t. Rep d b m t \<longrightarrow> Rep d' b m t) \<and> ro_size (fd_record d') = ro_size (fd_record d)"
proof -
  have k: "key r = p" using key_law [OF assms(2,3)] by simp
  obtain names where "r_ReadDirNames ops r w = Some (Inr names, w)" "distinct names"
      "set names = children (lookup (w_store w)) p"
    using names_law [OF assms(1) _ assms(2,4)] assms(3) k by auto
  moreover have "Rep d b m t \<Longrightarrow> Rep (d\<lparr>fd_record := (fd_record d)\<lparr>ro_dirNames := x\<rparr>\<rparr>) b m t" for x b m t
    by (cases "modeOverride d") (auto simp: rep_def mode_of_def time_of_def)
  ultimately show ?thesis
    using assms(5,6) by (simp add: FD_ReadDirNames_def RO_ReadDirNames_def FR_ReadDirNames_def)
qed

lemma Remove_refines:
  assumes "ok w"
  shows "\<exists>e w'. kv_Remove ops name w = Some (e, w') \<and> ok w' \<and>
    (e, tree w') = spec_Remove (tree w) name"
proof -
  obtain s where s: "getFile ops name w = Some (get_outcome (lookup (w_store w)) name, w\<lparr>w_store := s\<rparr>)"
      "idle s" "lookup s = lookup (w_store w)"
    using getFile_spec [OF ok_D(1) [OF assms]] by blast
  note ok1 = ok_store [OF assms s(2,3)]
  note D = kv_Remove_def spec_Remove_def spec_get_lookup get_outcome_simps
  show ?thesis
  proof (cases rule: get_cases [of name _ "lookup (w_store w)"])
    case (found r)
    let ?d = "fileData_of name (Some (StoreRec r)) :: ('r, 's world) fileData"
    let ?d' = "?d\<lparr>fd_record := (fd_record ?d)\<lparr>ro_mode := Some (r_Mode ops r)\<rparr>\<rparr>"
    have m: "FD_Mode ops ?d = Some (r_Mode ops r, ?d')"
      by (simp add: FD_Mode_def RO_Mode_def FR_Mode_def fileData_of_def runOnce_of_def)
    obtain s' where s': "setFile ops name None (w\<lparr>w_store := s\<rparr>) = Some (None, None, w\<lparr>w_store := s'\<rparr>)"
        "idle s'" "lookup s' = (lookup (w_store w))(name := None)"
      using setFile_del [OF ok_D(1) [OF ok1(1)] found(1)] s(3) by auto
    have del: "ok (w\<lparr>w_store := s'\<rparr>)" "tree (w\<lparr>w_store := s'\<rparr>) = (tree w)(name := None)"
      using ok_del [OF assms s'(2,3)] by simp_all
    show ?thesis
    proof (cases "IsDir (r_Mode ops r)")
      case False
      then show ?thesis using s found m s' del by (simp add: D with_data_def handle_of_def)
    next
      case True
      obtain names d2 where "FD_ReadDirNames ops ?d' (w\<lparr>w_store := s\<rparr>) = Some (Inr names, d2, w\<lparr>w_store := s\<rparr>)"
          "set names = children (lookup (w_store w)) name"
        using dir_names [of "w\<lparr>w_store := s\<rparr>" s name r ?d'] s(2,3) found(2) True
        by (auto simp: fileData_of_def runOnce_of_def)
      moreover have "names = [] \<longleftrightarrow> children (lookup (w_store w)) name = {}"
        using calculation(2) by (metis set_empty)
      ultimately show ?thesis
        using s found m s' del ok1 True by (cases "names = []") (simp_all add: D with_data_def handle_of_def)
    qed
  qed (use s ok1 in \<open>simp_all add: D\<close>)
qed

end

end
