(* ===== verification/KV_Handle.thy ===== *)
theory KV_Handle
  imports KV_Refine
begin

section \<open>Open files: reading, writing, truncating\<close>

text \<open>
  A handle is \<open>attached\<close> to a path when the record of the path holds the blob the handle works on and
  the handle's view of the size is not stale. Its mode and time may differ from the record's: they are
  what the handle will write back. The lemmas say what the methods of an attached handle of a file do
  to the tree.
\<close>

definition attached ::
  "('r, 's world, 'z) rec_ops_scheme \<Rightarrow> ('s \<Rightarrow> string \<Rightarrow> 'r option) \<Rightarrow> ('r \<Rightarrow> bref) \<Rightarrow>
   's world \<Rightarrow> ('r, 's world) kv_file \<Rightarrow> string \<Rightarrow> file_mode \<Rightarrow> time \<Rightarrow> bool" where
  "attached ops lookup blob w f p m t \<longleftrightarrow>
     (\<exists>d r. f_data f = Some d \<and> fd_path d = p \<and> lookup (w_store w) p = Some r
        \<and> rep ops blob d (blob r) m t \<and> size_ok d (blob r) (w_heap w)
        \<and> IsDir m = IsDir (r_Mode ops r) \<and> IsRegular m = IsRegular (r_Mode ops r))"

text \<open>Writing bytes at an offset, with zeros in a gap; and setting the length.\<close>

definition write_at :: "nat \<Rightarrow> byte list \<Rightarrow> byte list \<Rightarrow> byte list" where
  "write_at off xs ys = overwrite off xs (ys @ replicate (off + length xs - length ys) 0)"

definition set_length :: "nat \<Rightarrow> byte list \<Rightarrow> byte list" where
  "set_length n ys = take n ys @ replicate (n - length ys) 0"

lemma length_write_at [simp]: "length (write_at off xs ys) = max (length ys) (off + length xs)"
  by (simp add: write_at_def)

lemma length_set_length [simp]: "length (set_length n ys) = n"
  by (simp add: set_length_def)

text \<open>The bytes written are read back, and the others are kept.\<close>

lemma write_at_read: "take (length xs) (drop off (write_at off xs ys)) = xs"
  by (simp add: write_at_def overwrite_def)

lemma write_at_before: "off \<le> length ys \<Longrightarrow> take off (write_at off xs ys) = take off ys"
  by (simp add: write_at_def overwrite_def)

lemma write_at_after: "drop (off + length xs) (write_at off xs ys) = drop (off + length xs) ys"
  by (cases "off + length xs \<le> length ys") (auto simp: write_at_def overwrite_def)

definition write_time :: "byte list \<Rightarrow> time \<Rightarrow> time \<Rightarrow> time" where
  "write_time xs t t' = (if xs = [] then t else t')"

definition write_offset :: "flag \<Rightarrow> int \<Rightarrow> byte list \<Rightarrow> int" where
  "write_offset flag off ys = (if has_flag flag FlagAppend then int (length ys) else off)"

definition trunc_err :: "file_mode \<Rightarrow> string \<Rightarrow> int \<Rightarrow> err option" where
  "trunc_err m p sz =
     (if IsDir m then Some (PathError ''truncate'' p ErrIsDir)
      else if sz < 0 then Some (PathError ''truncate'' p ErrInvalid) else None)"

definition trunc_changes :: "file_mode \<Rightarrow> int \<Rightarrow> byte list \<Rightarrow> bool" where
  "trunc_changes m sz ys \<longleftrightarrow> \<not> IsDir m \<and> 0 \<le> sz \<and> sz \<noteq> int (length ys)"

text \<open>
  The specification of \<open>OpenFile\<close>: the error, the tree, and whether a file is returned.
\<close>

definition spec_OpenFile ::
  "fs_tree \<Rightarrow> string \<Rightarrow> flag \<Rightarrow> file_mode \<Rightarrow> time \<Rightarrow> err option \<times> fs_tree \<times> bool" where
  "spec_OpenFile fs name flag perm t =
     (let fail = (\<lambda>e. (Some (PathError ''open'' name e), fs, False)) in
      case spec_get fs name of
        Inr nd \<Rightarrow>
          if IsDir (n_mode nd) \<and> has_flag flag (FlagCreate OR FlagWriteOnly) then fail ErrIsDir
          else if \<not> has_flag flag FlagTruncate then (None, fs, True)
          else if IsDir (n_mode nd)
          then (Some (PathError ''open'' name (PathError ''truncate'' name ErrIsDir)), fs, True)
          else (None, if n_data nd = [] then fs else fs(name \<mapsto> nd\<lparr>n_modTime := t, n_data := []\<rparr>), True)
      | Inl e \<Rightarrow>
          if e = ErrNotExist \<and> has_flag flag FlagCreate then
            if fs (Dir name) = None then fail ErrNotExist
            else (None, fs(name \<mapsto> \<lparr>n_mode = perm AND ModePerm, n_modTime = t, n_data = []\<rparr>), True)
          else fail e)"

definition open_kind :: "flag \<Rightarrow> ('r, 'w) kv_file \<Rightarrow> ('r, 'w) handle" where
  "open_kind flag f =
     (if has_flag flag FlagWriteOnly then writeOnlyFile f
      else if has_flag flag FlagReadWrite then readWriteFile f else readOnlyFile f)"

lemma open_kind_simps [simp]:
  "h_file (open_kind flag f) = f" "h_with (open_kind flag f) f' = open_kind flag f'"
  by (simp_all add: open_kind_def)

text \<open>Reading: the bytes from the offset, cut at the end of the file, and \<open>io.EOF\<close> when the end is
  reached.\<close>

definition read_bytes :: "nat \<Rightarrow> int \<Rightarrow> byte list \<Rightarrow> byte list" where
  "read_bytes n off ys = take n (drop (nat off) ys)"

definition read_err :: "nat \<Rightarrow> int \<Rightarrow> byte list \<Rightarrow> err option" where
  "read_err n off ys = (if off + int n \<ge> int (length ys) then Some EOF else None)"

text \<open>The new offset of a seek, unless it is invalid.\<close>

definition spec_Seek :: "int \<Rightarrow> nat \<Rightarrow> int \<Rightarrow> whence \<Rightarrow> int option" where
  "spec_Seek off len offset whence =
     (let seek = (\<lambda>n. if n < 0 then None else Some n)
      in case whence of SeekStart \<Rightarrow> seek offset | SeekCurrent \<Rightarrow> seek (off + offset)
         | SeekEnd \<Rightarrow> seek (int len + offset) | SeekOther \<Rightarrow> None)"

text \<open>What the caller of \<open>OpenFile\<close> gets: a handle of the kind the flags ask for, attached to the path
  with the node's mode and time, at offset 0.\<close>

definition opened ::
  "('r, 's world, 'z) rec_ops_scheme \<Rightarrow> ('s \<Rightarrow> string \<Rightarrow> 'r option) \<Rightarrow> ('r \<Rightarrow> bref) \<Rightarrow>
   's world \<Rightarrow> string \<Rightarrow> flag \<Rightarrow> ('r, 's world) handle \<Rightarrow> bool" where
  "opened ops lookup blob w name flag h \<longleftrightarrow>
     (\<exists>nd f. tree_of ops lookup blob w name = Some nd \<and> h = open_kind flag f
       \<and> attached ops lookup blob w f name (n_mode nd) (n_modTime nd) \<and> f_offset f = 0 \<and> f_flag f = flag)"

context kv_store
begin

abbreviation att where
  "att \<equiv> attached ops lookup blob"

abbreviation opnd where
  "opnd \<equiv> opened ops lookup blob"

lemma ok_mutate:
  assumes "ok w" "lookup (w_store w) p = Some r" "\<not> IsDir (r_Mode ops r)"
    "wf_heap h'" "frame (w_heap w) h' (blob r)" "int (length (content h' (blob r))) \<le> max_int64"
  shows "ok (w\<lparr>w_heap := h'\<rparr>)"
    "tree (w\<lparr>w_heap := h'\<rparr>) = (tree w)(p \<mapsto> (node_of ops blob (w_heap w) r)\<lparr>n_data := content h' (blob r)\<rparr>)"
proof -
  note fr = assms(5)
  have live: "live h' b" if "live (w_heap w) b" for b using frame_live [OF fr that] .
  have rok: "rec_ok ops blob (w_heap w) r" using ok_D(4) [OF assms(1,2)] .
  have other: "content h' (blob r') = content (w_heap w) (blob r')" "apart h' (blob r') (blob r)"
      "blob r' \<noteq> blob r" "live (w_heap w) (blob r')" "rec_ok ops blob h' r'"
      "h_obj h' (blob r') = h_obj (w_heap w) (blob r')"
    if "lookup (w_store w) q = Some r'" "q \<noteq> p" for q r'
  proof -
    have r': "rec_ok ops blob (w_heap w) r'" using ok_D(4) [OF assms(1) that(1)] .
    have ap: "apart (w_heap w) (blob r') (blob r)"
      using ok_D(5) [OF assms(1)] that assms(2,3) unfolding unshared_def apart_def by metis
    then show ne: "blob r' \<noteq> blob r" by (auto simp: apart_def)
    show "live (w_heap w) (blob r')" using r' by (simp add: rec_ok_def)
    then show c: "content h' (blob r') = content (w_heap w) (blob r')" "apart h' (blob r') (blob r)"
      using fr ne ap by (auto simp: frame_def)
    show "rec_ok ops blob h' r'" using r' live c(1) by (simp add: rec_ok_def)
    show "h_obj h' (blob r') = h_obj (w_heap w) (blob r')"
      using fr ne \<open>live (w_heap w) (blob r')\<close> by (auto simp: frame_def)
  qed
  have "rec_ok ops blob h' r" using rok live assms(6) by (simp add: rec_ok_def)
  then have recs: "rec_ok ops blob h' r'" if "lookup (w_store w) q = Some r'" for q r'
    using other(5) that assms(2) by (cases "q = p") auto
  have "unshared ops blob h' (lookup (w_store w))"
    unfolding unshared_def
  proof (intro allI impI)
    fix p1 q r1 r2
    assume *: "lookup (w_store w) p1 = Some r1" "lookup (w_store w) q = Some r2" "p1 \<noteq> q"
      "\<not> IsDir (r_Mode ops r1)"
    consider "p1 = p" | "p1 \<noteq> p" "q = p" | "p1 \<noteq> p" "q \<noteq> p" by blast
    then show "apart h' (blob r1) (blob r2)"
    proof cases
      case 1
      then show ?thesis using * other(2) [of q r2] assms(2) by (auto simp: apart_def)
    next
      case 2
      then show ?thesis using * other(2) [of p1 r1] assms(2) by auto
    next
      case 3
      have "apart (w_heap w) (blob r1) (blob r2)"
        using ok_D(5) [OF assms(1)] * unfolding unshared_def by blast
      then show ?thesis using other(6) [OF *(1) 3(1)] other(6) [OF *(2) 3(2)] by (simp add: apart_def)
    qed
  qed
  then show "ok (w\<lparr>w_heap := h'\<rparr>)"
    using assms(1,4) recs by (auto simp: fs_ok_def)
  show "tree (w\<lparr>w_heap := h'\<rparr>) = (tree w)(p \<mapsto> (node_of ops blob (w_heap w) r)\<lparr>n_data := content h' (blob r)\<rparr>)"
  proof
    fix q
    show "tree (w\<lparr>w_heap := h'\<rparr>) q
        = ((tree w)(p \<mapsto> (node_of ops blob (w_heap w) r)\<lparr>n_data := content h' (blob r)\<rparr>)) q"
      using other(1) [of q] assms(2,3)
      by (cases "lookup (w_store w) q") (auto simp: tree_of_def node_of_def)
  qed
qed

text \<open>Loading a value through \<open>updateModTime\<close> and \<open>save\<close>.\<close>

lemma attached_D:
  assumes "att w f p m t"
  obtains d r where "f_data f = Some d" "fd_path d = p" "lookup (w_store w) p = Some r"
    "Rep d (blob r) m t" "size_ok d (blob r) (w_heap w)"
    "IsDir m = IsDir (r_Mode ops r)" "IsRegular m = IsRegular (r_Mode ops r)"
  using assms by (auto simp: attached_def)

lemma save_touch:
  assumes "ok w" "lookup (w_store w) p = Some r" "Rep d (blob r) m t" "fd_path d = p"
    and "IsDir m = IsDir (r_Mode ops r)" "IsRegular m = IsRegular (r_Mode ops r)"
  shows "\<exists>d' w1 w' d1. updateModTime d w = (d1, w1) \<and> save ops d1 w1 = Some (None, d', w') \<and> ok w'
    \<and> tree w' = (tree w)(p \<mapsto> (node_of ops blob (w_heap w) r)\<lparr>n_mode := m, n_modTime := now w\<rparr>)
    \<and> att w' (f\<lparr>f_data := Some d'\<rparr>) p m (now w) \<and> w_heap w' = w_heap w"
proof -
  let ?w1 = "w\<lparr>w_tick := Suc (w_tick w)\<rparr>"
  let ?d1 = "d\<lparr>modTimeOverride := now w\<rparr>"
  have nz: "now w \<noteq> 0" using ok_D(3) [OF assms(1)] by (simp add: now_def)
  obtain d' s where *: "save ops ?d1 ?w1 = Some (None, d', ?w1\<lparr>w_store := s\<rparr>)"
      "ok (?w1\<lparr>w_store := s\<rparr>)"
      "tree (?w1\<lparr>w_store := s\<rparr>) = (tree w)(p \<mapsto> (node_of ops blob (w_heap w) r)\<lparr>n_mode := m, n_modTime := now w\<rparr>)"
      "Rep d' (blob r) m (now w)" "ro_data (fd_record d') = Some (Inr (blob r))" "fd_path d' = p"
      "lookup s = (lookup (w_store w))(p \<mapsto> mk p (blob r) m (now w))"
    using save_same [of ?w1 p r ?d1 m "now w"] assms rep_with_time [OF assms(3) nz] by auto
  have "updateModTime d w = (?d1, ?w1)" by (simp add: updateModTime_def time_Now_def now_def)
  moreover have "att (?w1\<lparr>w_store := s\<rparr>) (f\<lparr>f_data := Some d'\<rparr>) p m (now w)"
    using * assms(5,6) by (auto simp: attached_def size_ok_def mk_laws)
  ultimately show ?thesis using * by auto
qed

lemma save_plain:
  assumes "ok w" "lookup (w_store w) p = Some r" "Rep d (blob r) m t" "fd_path d = p"
    and "IsDir m = IsDir (r_Mode ops r)" "IsRegular m = IsRegular (r_Mode ops r)"
  shows "\<exists>d' w'. save ops d w = Some (None, d', w') \<and> ok w'
    \<and> tree w' = (tree w)(p \<mapsto> (node_of ops blob (w_heap w) r)\<lparr>n_mode := m, n_modTime := t\<rparr>)
    \<and> att w' (f\<lparr>f_data := Some d'\<rparr>) p m t \<and> w_heap w' = w_heap w"
proof -
  obtain d' s where *: "save ops d w = Some (None, d', w\<lparr>w_store := s\<rparr>)"
      "ok (w\<lparr>w_store := s\<rparr>)"
      "tree (w\<lparr>w_store := s\<rparr>) = (tree w)(p \<mapsto> (node_of ops blob (w_heap w) r)\<lparr>n_mode := m, n_modTime := t\<rparr>)"
      "Rep d' (blob r) m t" "ro_data (fd_record d') = Some (Inr (blob r))" "fd_path d' = p"
      "lookup s = (lookup (w_store w))(p \<mapsto> mk p (blob r) m t)"
    using save_same [OF assms] by auto
  moreover have "att (w\<lparr>w_store := s\<rparr>) (f\<lparr>f_data := Some d'\<rparr>) p m t"
    using * assms(5,6) by (auto simp: attached_def size_ok_def mk_laws)
  ultimately show ?thesis by auto
qed


text \<open>Growing the data of a handle so that a source fits at an offset.\<close>

lemma grow_part:
  assumes "Rep d b m t" "size_ok d b (w_heap w)" "sz = Bytes_Len (w_heap w) b"
    and "0 \<le> sz" "sz \<le> max_int64" "0 \<le> end" "end \<le> max_int64"
    and h1: "if sz < end then Bytes_Grow b (end - sz) (w_heap w) = Some (None, h1) else h1 = w_heap w"
  shows "\<exists>d'. (if sz < end then do {
            (data, d, w) \<leftarrow> FD_Data ops d w;
            (case data of
               Inl e \<Rightarrow> Some (Some e, d, w)
             | Inr data \<Rightarrow> do {
                 (sz, d) \<leftarrow> FD_Size ops d w;
                 (e, w) \<leftarrow> on_heap (Bytes_Grow data (int64 (end - sz))) w;
                 Some (e, d, w)
               })
          } else Some (None, d, w)) = Some (None, d', w\<lparr>w_heap := h1\<rparr>)
    \<and> Rep d' b m t \<and> fd_path d' = fd_path d"
proof (cases "sz < end")
  case True
  obtain d1 where d1: "FD_Data ops d w = Some (Inr b, d1, w)" "Rep d1 b m t"
      "ro_data (fd_record d1) = Some (Inr b)" "fd_path d1 = fd_path d"
    using Rep_Data [OF assms(1)] by blast
  have "size_ok d1 b (w_heap w)" using d1(3) by (simp add: size_ok_def)
  then obtain d2 where d2: "FD_Size ops d1 w = Some (sz, d2)" "Rep d2 b m t" "fd_path d2 = fd_path d1"
    using Rep_Size [OF d1(2)] assms(3) by blast
  have "int64 (end - sz) = end - sz" using assms(4-7) by (intro int64_id) (auto simp: max_int64_def)
  then show ?thesis using True d1 d2 h1 by simp
next
  case False
  then show ?thesis using assms by simp
qed

lemma writeBlobAt:
  assumes "ok w" "att w f p m t" "tree w p = Some nd" "\<not> IsDir m"
    and src: "live (w_heap w) src" "\<And>r. lookup (w_store w) p = Some r \<Longrightarrow>
        apart (w_heap w) src (blob r) \<and> \<not> same_mutex (w_heap w) src (blob r)"
    and xs: "xs = content (w_heap w) src"
    and off': "off' = write_offset (f_flag f) off (n_data nd)" "0 \<le> off'"
      "off' + int (length xs) \<le> max_int64"
  shows "\<exists>d' w'. file_writeBlobAt ops op f src off w = Some (int (length xs), None, f\<lparr>f_data := Some d'\<rparr>, w')
    \<and> ok w' \<and> att w' (f\<lparr>f_data := Some d'\<rparr>) p m (write_time xs t (now w))
    \<and> tree w' = (tree w)(p \<mapsto> \<lparr>n_mode = m, n_modTime = write_time xs t (now w),
         n_data = write_at (nat off') xs (n_data nd)\<rparr>)"
proof -
  obtain d r where d: "f_data f = Some d" "fd_path d = p" "lookup (w_store w) p = Some r"
    "Rep d (blob r) m t" "size_ok d (blob r) (w_heap w)"
    "IsDir m = IsDir (r_Mode ops r)" "IsRegular m = IsRegular (r_Mode ops r)"
    using assms(2) by (rule attached_D)
  let ?h = "w_heap w" and ?b = "blob r"
  have wf: "wf_heap ?h" and rok: "rec_ok ops blob ?h r" using ok_D(2,4) [OF assms(1)] d(3) by auto
  have lb: "live ?h ?b" and mx: "int (length (content ?h ?b)) \<le> max_int64"
    using rok by (auto simp: rec_ok_def)
  have nd: "nd = node_of ops blob ?h r" "n_data nd = content ?h ?b"
    using assms(3,4) tree_Some [OF d(3)] d(6) by (auto simp: node_of_def)
  have len: "Bytes_Len ?h ?b = int (length (n_data nd))" using Bytes_Len_content [OF wf lb] nd by simp
  have lsrc: "Bytes_Len ?h src = int (length xs)" using Bytes_Len_content [OF wf src(1)] xs by simp
  obtain d1 where d1: "(if has_flag (f_flag f) FlagAppend then FD_Size ops d w else Some (off, d)) = Some (off', d1)"
      "Rep d1 ?b m t" "size_ok d1 ?b ?h" "fd_path d1 = p"
  proof (cases "has_flag (f_flag f) FlagAppend")
    case True
    then show thesis using that Rep_Size [OF d(4,5)] d(2) off'(1) len by (auto simp: write_offset_def)
  next
    case False
    then show thesis using that [of d] d off'(1) by (simp add: write_offset_def)
  qed
  obtain d2 where d2: "FD_Size ops d1 w = Some (Bytes_Len ?h ?b, d2)"
      "Rep d2 ?b m t" "size_ok d2 ?b ?h" "fd_path d2 = p"
    using Rep_Size [OF d1(2,3)] d1(4) by auto
  let ?fin = "off' + int (length xs)"
  have e64: "int64 ?fin = ?fin" using off' by (intro int64_id) (auto simp: max_int64_def)
  obtain h1 h2 where h: "if Bytes_Len ?h ?b < ?fin then Bytes_Grow ?b (?fin - Bytes_Len ?h ?b) ?h = Some (None, h1) else h1 = ?h"
      "Bytes_Set ?b src off' h1 = Some ((int (length xs), None), h2)" "wf_heap h2" "frame ?h h2 ?b"
      "content h2 ?b = overwrite (nat off') xs (n_data nd @ replicate (nat ?fin - length (n_data nd)) 0)"
    using bytes.grow_and_set [OF wf lb src(1) _ _ off'(2)] src(2) [OF d(3)] xs nd(2) by auto
  obtain d3 where d3: "(if Bytes_Len ?h ?b < ?fin then do {
            (data, d, w) \<leftarrow> FD_Data ops d2 w;
            (case data of
               Inl e \<Rightarrow> Some (Some e, d, w)
             | Inr data \<Rightarrow> do {
                 (sz, d) \<leftarrow> FD_Size ops d w;
                 (e, w) \<leftarrow> on_heap (Bytes_Grow data (int64 (?fin - sz))) w;
                 Some (e, d, w)
               })
          } else Some (None, d2, w)) = Some (None, d3, w\<lparr>w_heap := h1\<rparr>)" "Rep d3 ?b m t" "fd_path d3 = p"
    using grow_part [OF d2(2,3) refl _ _ _ off'(3) h(1)] mx len nd off'(2) d2(4) by auto
  obtain d4 where d4: "FD_Data ops d3 (w\<lparr>w_heap := h1\<rparr>) = Some (Inr ?b, d4, w\<lparr>w_heap := h1\<rparr>)"
      "Rep d4 ?b m t" "fd_path d4 = p"
    using Rep_Data [OF d3(2)] d3(3) by metis
  have wr: "content h2 ?b = write_at (nat off') xs (n_data nd)"
    using h(5) off'(2) by (simp add: write_at_def nat_add_distrib)
  have lh2: "int (length (content h2 ?b)) \<le> max_int64"
    using mx nd off' by (simp add: wr)
  let ?w2 = "w\<lparr>w_heap := h2\<rparr>"
  have w2: "ok ?w2" "tree ?w2 = (tree w)(p \<mapsto> nd\<lparr>n_data := write_at (nat off') xs (n_data nd)\<rparr>)"
    using ok_mutate [OF assms(1) d(3) _ h(3,4) lh2] assms(4) d(6) wr nd(1) by auto
  have n2: "node_of ops blob h2 r = nd\<lparr>n_data := write_at (nat off') xs (n_data nd)\<rparr>"
    using assms(4) d(6) nd(1) wr by (simp add: node_of_def)
  have l2: "lookup (w_store ?w2) p = Some r" using d(3) by simp
  have sv: "\<exists>d6 w5 w6 d5. (if int (length xs) \<noteq> 0 then updateModTime d4 ?w2 else (d4, ?w2)) = (d5, w5)
      \<and> save ops d5 w5 = Some (None, d6, w6) \<and> ok w6
      \<and> tree w6 = (tree w)(p \<mapsto> \<lparr>n_mode = m, n_modTime = write_time xs t (now w),
         n_data = write_at (nat off') xs (n_data nd)\<rparr>)
      \<and> att w6 (f\<lparr>f_data := Some d6\<rparr>) p m (write_time xs t (now w))"
  proof (cases "xs = []")
    case True
    then show ?thesis using save_plain [OF w2(1) l2 d4(2,3) d(6,7), of f] n2 w2(2) by (auto simp: write_time_def)
  next
    case False
    have "now ?w2 = now w" by (simp add: now_def)
    then show ?thesis using False save_touch [OF w2(1) l2 d4(2,3) d(6,7), of f] n2 w2(2)
      by (auto simp: write_time_def)
  qed
  then obtain d6 w5 w6 d5 where fin: "(if int (length xs) \<noteq> 0 then updateModTime d4 ?w2 else (d4, ?w2)) = (d5, w5)"
      "save ops d5 w5 = Some (None, d6, w6)" "ok w6"
      "tree w6 = (tree w)(p \<mapsto> \<lparr>n_mode = m, n_modTime = write_time xs t (now w),
         n_data = write_at (nat off') xs (n_data nd)\<rparr>)"
      "att w6 (f\<lparr>f_data := Some d6\<rparr>) p m (write_time xs t (now w))" by blast
  have "file_writeBlobAt ops op f src off w = Some (int (length xs), None, f\<lparr>f_data := Some d6\<rparr>, w6)"
    unfolding file_writeBlobAt_def with_data_def d(1) bind.bind_lunit d1(1) prod.case Let_def lsrc
      e64 d2(1) d3(1)
    using d4(1) h(2) fin(1,2) by simp
  then show ?thesis using fin by blast
qed


lemma att_extends:
  assumes "ok w" "att w f p m t" "extends (w_heap w) h"
  shows "att (w\<lparr>w_heap := h\<rparr>) f p m t"
proof -
  obtain d r where d: "f_data f = Some d" "fd_path d = p" "lookup (w_store w) p = Some r"
    "Rep d (blob r) m t" "size_ok d (blob r) (w_heap w)"
    "IsDir m = IsDir (r_Mode ops r)" "IsRegular m = IsRegular (r_Mode ops r)"
    using assms(2) by (rule attached_D)
  have "live (w_heap w) (blob r)" using ok_D(4) [OF assms(1) d(3)] by (simp add: rec_ok_def)
  then have "Bytes_Len h (blob r) = Bytes_Len (w_heap w) (blob r)"
    using extends_obj [OF assms(3)] by (simp add: Bytes_Len_def)
  then have "size_ok d (blob r) h" using d(5) unfolding size_ok_def by metis
  then show ?thesis using d by (auto simp: attached_def)
qed

lemma now_heap [simp]: "now (w\<lparr>w_heap := h\<rparr>) = now w" "now (w\<lparr>w_store := s\<rparr>) = now w"
  by (simp_all add: now_def)

text \<open>A source allocated for the write.\<close>

lemma new_source:
  assumes "ok w" "NewBytes_of xs (w_heap w) = (src, h)"
  shows "ok (w\<lparr>w_heap := h\<rparr>)" "tree (w\<lparr>w_heap := h\<rparr>) = tree w" "live h src" "content h src = xs"
    "extends (w_heap w) h"
    "lookup (w_store w) p = Some r \<Longrightarrow> apart h src (blob r) \<and> \<not> same_mutex h src (blob r)"
proof -
  note N = NewBytes_of_spec [OF ok_D(2) [OF assms(1)] assms(2)]
  show "ok (w\<lparr>w_heap := h\<rparr>)" "tree (w\<lparr>w_heap := h\<rparr>) = tree w"
    using ok_extends [OF assms(1) N(1,2)] by simp_all
  show "live h src" "content h src = xs" "extends (w_heap w) h" using N by simp_all
  assume "lookup (w_store w) p = Some r"
  then have "live (w_heap w) (blob r)" using ok_D(4) [OF assms(1)] by (simp add: rec_ok_def)
  then show "apart h src (blob r) \<and> \<not> same_mutex h src (blob r)"
    using N(6,7) [of "blob r"] by (auto simp: apart_def same_mutex_def)
qed

lemma WriteAt_refines:
  assumes "ok w" "att w f p m t" "tree w p = Some nd" "\<not> IsDir m"
    and "off' = write_offset (f_flag f) off (n_data nd)" "0 \<le> off'" "off' + int (length xs) \<le> max_int64"
  shows "\<exists>f' w'. file_WriteAt ops f xs off w = Some (int (length xs), None, f', w')
    \<and> ok w' \<and> att w' f' p m (write_time xs t (now w))
    \<and> tree w' = (tree w)(p \<mapsto> \<lparr>n_mode = m, n_modTime = write_time xs t (now w),
         n_data = write_at (nat off') xs (n_data nd)\<rparr>)
    \<and> f_offset f' = f_offset f \<and> f_flag f' = f_flag f"
proof -
  obtain src h where N: "NewBytes_of xs (w_heap w) = (src, h)" by fastforce
  note S = new_source [OF assms(1) N]
  have a: "att (w\<lparr>w_heap := h\<rparr>) f p m t" using att_extends [OF assms(1,2) S(5)] .
  have t: "tree (w\<lparr>w_heap := h\<rparr>) p = Some nd" using S(2) assms(3) by simp
  obtain d' w' where "file_writeBlobAt ops ''writeat'' f src off (w\<lparr>w_heap := h\<rparr>)
        = Some (int (length xs), None, f\<lparr>f_data := Some d'\<rparr>, w')"
      "ok w'" "att w' (f\<lparr>f_data := Some d'\<rparr>) p m (write_time xs t (now w))"
      "tree w' = (tree w)(p \<mapsto> \<lparr>n_mode = m, n_modTime = write_time xs t (now w),
         n_data = write_at (nat off') xs (n_data nd)\<rparr>)"
    using writeBlobAt [OF S(1) a t assms(4), of src xs off' off "''writeat''"] S(2,3,4,6) assms(5-7) by auto
  then show ?thesis using N by (auto simp: file_WriteAt_def file_WriteBlobAt_def on_heap_def)
qed

lemma Write_refines:
  assumes "ok w" "att w f p m t" "tree w p = Some nd" "\<not> IsDir m"
    and "off' = write_offset (f_flag f) (f_offset f) (n_data nd)" "0 \<le> off'"
      "off' + int (length xs) \<le> max_int64"
  shows "\<exists>f' w'. file_Write ops f xs w = Some (int (length xs), None, f', w')
    \<and> ok w' \<and> att w' f' p m (write_time xs t (now w))
    \<and> tree w' = (tree w)(p \<mapsto> \<lparr>n_mode = m, n_modTime = write_time xs t (now w),
         n_data = write_at (nat off') xs (n_data nd)\<rparr>)
    \<and> f_offset f' = int64 (f_offset f + int (length xs)) \<and> f_flag f' = f_flag f"
proof -
  obtain src h where N: "NewBytes_of xs (w_heap w) = (src, h)" by fastforce
  note S = new_source [OF assms(1) N]
  have a: "att (w\<lparr>w_heap := h\<rparr>) f p m t" using att_extends [OF assms(1,2) S(5)] .
  have t: "tree (w\<lparr>w_heap := h\<rparr>) p = Some nd" using S(2) assms(3) by simp
  obtain d' w' where *: "file_writeBlobAt ops ''write'' f src (f_offset f) (w\<lparr>w_heap := h\<rparr>)
        = Some (int (length xs), None, f\<lparr>f_data := Some d'\<rparr>, w')"
      "ok w'" "att w' (f\<lparr>f_data := Some d'\<rparr>) p m (write_time xs t (now w))"
      "tree w' = (tree w)(p \<mapsto> \<lparr>n_mode = m, n_modTime = write_time xs t (now w),
         n_data = write_at (nat off') xs (n_data nd)\<rparr>)"
    using writeBlobAt [OF S(1) a t assms(4), of src xs off' "f_offset f" "''write''"] S(2,3,4,6) assms(5-7) by auto
  have "att w' (f\<lparr>f_data := Some d', f_offset := x\<rparr>) p m (write_time xs t (now w))" for x
    using *(3) by (auto simp: attached_def)
  then show ?thesis using N * by (auto simp: file_Write_def file_WriteBlob_def on_heap_def)
qed

lemma ReadAt_refines:
  assumes "ok w" "att w f p m t" "tree w p = Some nd" "\<not> IsDir m"
    and "0 \<le> off" "off + int (length buf) \<le> max_int64"
  shows "\<exists>f' w'. file_ReadAt ops f buf off w =
      Some (go_copy buf (read_bytes (length buf) off (n_data nd)),
        int (length (read_bytes (length buf) off (n_data nd))),
        read_err (length buf) off (n_data nd), f', w')
    \<and> ok w' \<and> att w' f' p m t \<and> tree w' = tree w \<and> f_offset f' = f_offset f \<and> f_flag f' = f_flag f"
proof -
  obtain d r where d: "f_data f = Some d" "fd_path d = p" "lookup (w_store w) p = Some r"
    "Rep d (blob r) m t" "size_ok d (blob r) (w_heap w)"
    "IsDir m = IsDir (r_Mode ops r)" "IsRegular m = IsRegular (r_Mode ops r)"
    using assms(2) by (rule attached_D)
  let ?h = "w_heap w" and ?b = "blob r" and ?ys = "n_data nd"
  have wf: "wf_heap ?h" and rok: "rec_ok ops blob ?h r" using ok_D(2,4) [OF assms(1)] d(3) by auto
  have lb: "live ?h ?b" and mx: "int (length (content ?h ?b)) \<le> max_int64"
    using rok by (auto simp: rec_ok_def)
  have nd: "?ys = content ?h ?b" using assms(3,4) tree_Some [OF d(3)] d(6) by (auto simp: node_of_def)
  have len: "Bytes_Len ?h ?b = int (length ?ys)" using Bytes_Len_content [OF wf lb] nd by simp
  obtain d1 where d1: "FD_Size ops d w = Some (int (length ?ys), d1)" "Rep d1 ?b m t"
      "size_ok d1 ?b ?h" "fd_path d1 = p"
    using Rep_Size [OF d(4,5)] d(2) len by auto
  have att1: "att w (f\<lparr>f_data := Some d1\<rparr>) p m t" using d d1 by (auto simp: attached_def)
  show ?thesis
  proof (cases "off \<ge> int (length ?ys)")
    case True
    then have "read_bytes (length buf) off ?ys = []" by (simp add: read_bytes_def)
    then show ?thesis using True d(1) d1(1) att1 assms(1,5)
      by (simp add: file_ReadAt_def file_ReadBlobAt_def with_data_def go_copy_def read_err_def)
  next
    case False
    define e where "e = (if off + int (length buf) > int (length ?ys) then int (length ?ys)
      else off + int (length buf))"
    have e: "off \<le> e" "e \<le> int (length ?ys)" using False by (auto simp: e_def)
    have e64: "int64 (off + int (length buf)) = off + int (length buf)"
      using assms(5,6) by (intro int64_id) (auto simp: max_int64_def)
    obtain d2 where d2: "FD_Data ops d1 w = Some (Inr ?b, d2, w)" "Rep d2 ?b m t"
        "ro_data (fd_record d2) = Some (Inr ?b)" "fd_path d2 = p"
      using Rep_Data [OF d1(2)] d1(4) by metis
    obtain v h1 where v: "Bytes_View ?b off e ?h = Some (Inr v, h1)" "wf_heap h1" "extends ?h h1"
        "live h1 v" "content h1 v = slice_of (nat off) (nat e) ?ys"
      using Bytes_View_spec [OF wf lb assms(5) e(1)] e(2) len nd by metis
    have c: "content h1 v = read_bytes (length buf) off ?ys"
      using v(5) False assms(5) by (auto simp: slice_of_def read_bytes_def nat_add_distrib e_def)
    let ?xs = "read_bytes (length buf) off ?ys"
    obtain bs h2 where bs: "Bytes_Bytes v h1 = Some (bs, h2)" "wf_heap h2" "extends h1 h2"
        "slice_get h2 bs = ?xs"
      using Bytes_Bytes_eq [OF v(2,4)] c by metis
    have lv: "Bytes_Len h1 v = int (length ?xs)" using Bytes_Len_content [OF v(2,4)] c by simp
    have lx: "int64 (off + int (length ?xs)) = off + int (length ?xs)"
      using assms(5,6) by (intro int64_id) (auto simp: max_int64_def read_bytes_def)
    have eof: "(off + int (length ?xs) = int (length ?ys)) = (off + int (length buf) \<ge> int (length ?ys))"
      using False assms(5) by (auto simp: read_bytes_def min_def)
    have rd: "file_ReadBlobAt ops f (int (length buf)) off w =
        Some (Some v, int (length ?xs), read_err (length buf) off ?ys, f\<lparr>f_data := Some d2\<rparr>, w\<lparr>w_heap := h1\<rparr>)"
      using False d(1) d1(1) d2(1) v(1) [unfolded e_def] lv lx eof e64
      by (simp add: file_ReadBlobAt_def with_data_def Let_def on_heap_def read_err_def)
    have ex: "extends ?h h2" using extends_trans [OF v(3) bs(3)] .
    note ok2 = ok_extends [OF assms(1) bs(2) ex]
    have "att w (f\<lparr>f_data := Some d2\<rparr>) p m t" using d d2 by (auto simp: attached_def size_ok_def)
    then have "att (w\<lparr>w_heap := h2\<rparr>) (f\<lparr>f_data := Some d2\<rparr>) p m t"
      using att_extends [OF assms(1) _ ex] by blast
    then show ?thesis using rd bs ok2 by (simp add: file_ReadAt_def on_heap_def)
  qed
qed


lemma Read_refines:
  assumes "ok w" "att w f p m t" "tree w p = Some nd" "\<not> IsDir m"
    and "0 \<le> f_offset f" "f_offset f + int (length buf) \<le> max_int64"
    and "xs = read_bytes (length buf) (f_offset f) (n_data nd)"
  shows "\<exists>f' w'. file_Read ops f buf w =
      Some (go_copy buf xs, int (length xs), read_err (length buf) (f_offset f) (n_data nd), f', w')
    \<and> ok w' \<and> att w' f' p m t \<and> tree w' = tree w
    \<and> f_offset f' = f_offset f + int (length xs) \<and> f_flag f' = f_flag f"
proof -
  obtain f' w' where r: "file_ReadAt ops f buf (f_offset f) w =
      Some (go_copy buf xs, int (length xs), read_err (length buf) (f_offset f) (n_data nd), f', w')"
    "ok w'" "att w' f' p m t" "tree w' = tree w" "f_offset f' = f_offset f" "f_flag f' = f_flag f"
    using ReadAt_refines [OF assms(1-6)] assms(7) by blast
  have "length xs \<le> length buf" using assms(7) by (simp add: read_bytes_def)
  then have "int64 (f_offset f + int (length xs)) = f_offset f + int (length xs)"
    using assms(5,6) by (intro int64_id) (auto simp: max_int64_def)
  moreover have "att w' (f'\<lparr>f_offset := x\<rparr>) p m t" for x using r(3) by (auto simp: attached_def)
  ultimately show ?thesis using r by (simp add: file_Read_def)
qed

text \<open>\<open>Stat\<close> of an attached file shows its size.\<close>

lemma att_offset: "att w f p m t \<Longrightarrow> att w (f\<lparr>f_offset := n\<rparr>) p m t"
  by (auto simp: attached_def)

lemma Seek_refines:
  assumes "ok w" "att w f p m t" "tree w p = Some nd" "\<not> IsDir m"
    and "0 \<le> f_offset f" "f_offset f + \<bar>offset\<bar> \<le> max_int64" "int (length (n_data nd)) + \<bar>offset\<bar> \<le> max_int64"
  shows "\<exists>f'. file_Seek ops f offset whence w =
      (case spec_Seek (f_offset f) (length (n_data nd)) offset whence of
         None \<Rightarrow> Some (0, Some (PathError ''seek'' p ErrInvalid), f')
       | Some n \<Rightarrow> Some (n, None, f'))
    \<and> att w f' p m t \<and> f_flag f' = f_flag f
    \<and> f_offset f' = (case spec_Seek (f_offset f) (length (n_data nd)) offset whence of None \<Rightarrow> f_offset f | Some n \<Rightarrow> n)"
proof -
  obtain d r where d: "f_data f = Some d" "fd_path d = p" "lookup (w_store w) p = Some r"
    "Rep d (blob r) m t" "size_ok d (blob r) (w_heap w)"
    "IsDir m = IsDir (r_Mode ops r)" "IsRegular m = IsRegular (r_Mode ops r)"
    using assms(2) by (rule attached_D)
  have wf: "wf_heap (w_heap w)" and rok: "rec_ok ops blob (w_heap w) r" using ok_D(2,4) [OF assms(1)] d(3) by auto
  have len: "Bytes_Len (w_heap w) (blob r) = int (length (n_data nd))"
    using Bytes_Len_content [OF wf] rok assms(3,4) tree_Some [OF d(3)] d(6) by (auto simp: node_of_def rec_ok_def)
  obtain d1 where d1: "FD_Size ops d w = Some (int (length (n_data nd)), d1)" "Rep d1 (blob r) m t"
      "size_ok d1 (blob r) (w_heap w)" "fd_path d1 = p"
    using Rep_Size [OF d(4,5)] d(2) len by auto
  have a1: "att w (f\<lparr>f_data := Some d1\<rparr>) p m t" using d d1 by (auto simp: attached_def)
  have i64: "int64 (f_offset f + offset) = f_offset f + offset"
      "int64 (int (length (n_data nd)) + offset) = int (length (n_data nd)) + offset"
    using assms(5-7) by (auto intro!: int64_id simp: max_int64_def)
  show ?thesis
    using d(1,2) d1(1,4) i64 att_offset [OF assms(2)] att_offset [OF a1] a1 assms(2)
    by (cases whence) (auto simp: file_Seek_def spec_Seek_def with_data_def Let_def)
qed

text \<open>
  A write at a negative offset reports the error after it has grown the data: the file is extended with
  zeros up to where the write would have ended.
\<close>

lemma WriteAt_negative:
  assumes "ok w" "att w f p m t" "tree w p = Some nd" "\<not> IsDir m" "\<not> has_flag (f_flag f) FlagAppend"
    and "- max_int64 \<le> off" "off < 0" "int (length xs) \<le> max_int64"
  shows "\<exists>d' w'. file_WriteAt ops f xs off w =
      Some (0, Some (PathError ''writeat'' p (ErrorString ''negative offset'')), f\<lparr>f_data := Some d'\<rparr>, w') \<and> ok w'
    \<and> tree w' = (tree w)(p \<mapsto> nd\<lparr>n_data := n_data nd @ replicate (nat (off + int (length xs)) - length (n_data nd)) 0\<rparr>)"
proof -
  obtain src h0 where N: "NewBytes_of xs (w_heap w) = (src, h0)" by fastforce
  note S = new_source [OF assms(1) N]
  let ?w = "w\<lparr>w_heap := h0\<rparr>" and ?fin = "off + int (length xs)"
  have a: "att ?w f p m t" using att_extends [OF assms(1,2) S(5)] .
  obtain d r where d: "f_data f = Some d" "fd_path d = p" "lookup (w_store ?w) p = Some r"
    "Rep d (blob r) m t" "size_ok d (blob r) (w_heap ?w)" "IsDir m = IsDir (r_Mode ops r)"
    using a by (rule attached_D)
  have wf: "wf_heap h0" and rok: "rec_ok ops blob h0 r" using ok_D(2,4) [OF S(1)] d(3) by auto
  have lb: "live h0 (blob r)" and mx: "int (length (content h0 (blob r))) \<le> max_int64" using rok by (auto simp: rec_ok_def)
  have nd: "nd = node_of ops blob h0 r" "n_data nd = content h0 (blob r)"
    using assms(3,4) S(2) tree_Some [OF d(3)] d(6) by (auto simp: node_of_def)
  have len: "Bytes_Len h0 (blob r) = int (length (n_data nd))" using Bytes_Len_content [OF wf lb] nd by simp
  have lsrc: "Bytes_Len h0 src = int (length xs)" using Bytes_Len_content [OF wf S(3)] S(4) by simp
  have e64: "int64 ?fin = ?fin" using assms(6-8) by (intro int64_id) (auto simp: max_int64_def)
  obtain d2 where d2: "FD_Size ops d ?w = Some (int (length (n_data nd)), d2)" "Rep d2 (blob r) m t"
      "size_ok d2 (blob r) h0" "fd_path d2 = p"
    using Rep_Size [OF d(4,5)] d(2) len by auto
  let ?ys = "n_data nd @ replicate (nat ?fin - length (n_data nd)) 0"
  obtain h1 where h1: "if Bytes_Len h0 (blob r) < ?fin then Bytes_Grow (blob r) (?fin - Bytes_Len h0 (blob r)) h0 = Some (None, h1) else h1 = h0"
      "wf_heap h1" "frame h0 h1 (blob r)" "content h1 (blob r) = ?ys"
  proof (cases "Bytes_Len h0 (blob r) < ?fin")
    case True
    then obtain h' where "Bytes_Grow (blob r) (?fin - Bytes_Len h0 (blob r)) h0 = Some (None, h')" "wf_heap h'"
        "frame h0 h' (blob r)" "content h' (blob r) = content h0 (blob r) @ replicate (nat (?fin - Bytes_Len h0 (blob r))) 0"
      using Bytes_Grow_spec [OF wf lb, of "?fin - Bytes_Len h0 (blob r)"] by auto
    then show thesis using that [of h'] True len nd(2) by (simp add: nat_diff_distrib)
  next
    case False
    then have "nat ?fin - length (n_data nd) = 0" using len by simp
    then show thesis using False wf bytes.frame_refl [OF lb] nd(2) by (intro that [of h0]) simp_all
  qed
  let ?lhs = "(if Bytes_Len h0 (blob r) < ?fin then do {
            (data, d, w) \<leftarrow> FD_Data ops d2 ?w;
            (case data of
               Inl e \<Rightarrow> Some (Some e, d, w)
             | Inr data \<Rightarrow> do {
                 (sz, d) \<leftarrow> FD_Size ops d w;
                 (e, w) \<leftarrow> on_heap (Bytes_Grow data (int64 (?fin - sz))) w;
                 Some (e, d, w)
               })
          } else Some (None, d2, ?w))"
  obtain d3 where d3: "?lhs = Some (None, d3, w\<lparr>w_heap := h1\<rparr>)" "Rep d3 (blob r) m t" "fd_path d3 = p"
  proof (cases "0 \<le> ?fin")
    case True
    have g: "if Bytes_Len h0 (blob r) < ?fin then Bytes_Grow (blob r) (?fin - Bytes_Len h0 (blob r)) (w_heap ?w) = Some (None, h1) else h1 = w_heap ?w"
      using h1(1) by simp
    have "size_ok d2 (blob r) (w_heap ?w)" "Bytes_Len h0 (blob r) = Bytes_Len (w_heap ?w) (blob r)" using d2(3) by simp_all
    moreover have "0 \<le> Bytes_Len h0 (blob r)" "Bytes_Len h0 (blob r) \<le> max_int64" "?fin \<le> max_int64"
      using mx len nd(2) assms(7,8) by simp_all
    ultimately have "\<exists>d3. ?lhs = Some (None, d3, w\<lparr>w_heap := h1\<rparr>) \<and> Rep d3 (blob r) m t \<and> fd_path d3 = p"
      using grow_part [OF d2(2) _ _ _ _ True _ g] d2(4) by simp
    then show thesis by (elim exE conjE) (rule that)
  next
    case False
    then show thesis using that [of d2] h1(1) d2(2,4) len by simp
  qed
  obtain d4 where d4: "FD_Data ops d3 (w\<lparr>w_heap := h1\<rparr>) = Some (Inr (blob r), d4, w\<lparr>w_heap := h1\<rparr>)" "fd_path d4 = p"
    using Rep_Data [OF d3(2)] d3(3) by metis
  have ap: "(if has_flag (f_flag f) FlagAppend then FD_Size ops d ?w else Some (off, d)) = Some (off, d)" using assms(5) by simp
  have ls: "Bytes_Len (w_heap ?w) src = int (length xs)" using lsrc by simp
  have "file_writeBlobAt ops ''writeat'' f src off ?w =
      Some (0, Some (PathError ''writeat'' p (ErrorString ''negative offset'')), f\<lparr>f_data := Some d4\<rparr>, w\<lparr>w_heap := h1\<rparr>)"
    unfolding file_writeBlobAt_def with_data_def d(1) bind.bind_lunit ap prod.case Let_def
    unfolding ls e64 d2(1) bind.bind_lunit prod.case d3(1) [unfolded len]
    using d4 assms(7) by (simp add: Bytes_Set_def)
  moreover have "int (length (content h1 (blob r))) \<le> max_int64"
    using h1(4) mx nd(2) assms(6-8) by (auto simp: max_int64_def)
  ultimately show ?thesis
    using N ok_mutate [OF S(1) d(3), of h1] h1(2-4) assms(4) d(6) nd(1) S(2)
    by (auto simp: file_WriteAt_def file_WriteBlobAt_def on_heap_def)
qed

lemma att_Stat:
  assumes "ok w" "att w f p m t" "tree w p = Some nd" "\<not> IsDir m"
  shows "\<exists>i. file_Stat f = Some i \<and> info_Size ops i w = Some (int (length (n_data nd)))"
proof -
  obtain d r where d: "f_data f = Some d" "fd_path d = p" "lookup (w_store w) p = Some r"
    "Rep d (blob r) m t" "size_ok d (blob r) (w_heap w)" "IsDir m = IsDir (r_Mode ops r)"
    using assms(2) by (rule attached_D)
  have wf: "wf_heap (w_heap w)" and rok: "rec_ok ops blob (w_heap w) r"
    using ok_D(2,4) [OF assms(1)] d(3) by auto
  then have "Bytes_Len (w_heap w) (blob r) = int (length (n_data nd))"
    using Bytes_Len_content [OF wf] assms(3,4) tree_Some [OF d(3)] d(6)
    by (auto simp: node_of_def rec_ok_def)
  then have "map_option fst (RO_Size ops (fd_record d) w) = Some (int (length (n_data nd)))"
    using Rep_Size [OF d(4,5)] by (auto simp: FD_Size_def bind_Some_iff)
  then show ?thesis using d(1) by (simp add: file_Stat_def with_data_def info_Size_def)
qed

lemma Truncate_refines:
  assumes "ok w" "att w f p m t" "tree w p = Some nd" "sz \<le> max_int64"
  defines "ch \<equiv> trunc_changes m sz (n_data nd)"
  shows "\<exists>f' w'. file_Truncate ops f sz w = Some (trunc_err m p sz, f', w') \<and> ok w'
    \<and> att w' f' p m (if ch then now w else t)
    \<and> tree w' = (if ch then (tree w)(p \<mapsto> \<lparr>n_mode = m, n_modTime = now w,
          n_data = set_length (nat sz) (n_data nd)\<rparr>) else tree w)
    \<and> f_offset f' = f_offset f \<and> f_flag f' = f_flag f"
proof -
  obtain d r where d: "f_data f = Some d" "fd_path d = p" "lookup (w_store w) p = Some r"
    "Rep d (blob r) m t" "size_ok d (blob r) (w_heap w)"
    "IsDir m = IsDir (r_Mode ops r)" "IsRegular m = IsRegular (r_Mode ops r)"
    using assms(2) by (rule attached_D)
  let ?h = "w_heap w" and ?b = "blob r" and ?ys = "n_data nd"
  obtain d1 where d1: "FD_Mode ops d = Some (m, d1)" "Rep d1 ?b m t" "size_ok d1 ?b ?h" "fd_path d1 = p"
    using rep_Mode [OF d(4)] d(2,5) by auto
  have att1: "att w (f\<lparr>f_data := Some d1\<rparr>) p m t" using d d1 by (auto simp: attached_def)
  show ?thesis
  proof (cases "IsDir m")
    case True
    then show ?thesis using d(1) d1 att1 assms(1)
      by (simp add: file_Truncate_def with_data_def trunc_err_def ch_def trunc_changes_def)
  next
    case reg: False
    have wf: "wf_heap ?h" and rok: "rec_ok ops blob ?h r" using ok_D(2,4) [OF assms(1)] d(3) by auto
    have lb: "live ?h ?b" and mx: "int (length (content ?h ?b)) \<le> max_int64"
      using rok by (auto simp: rec_ok_def)
    have nd: "nd = node_of ops blob ?h r" "?ys = content ?h ?b"
      using assms(3) reg tree_Some [OF d(3)] d(6) by (auto simp: node_of_def)
    have len: "Bytes_Len ?h ?b = int (length ?ys)" using Bytes_Len_content [OF wf lb] nd by simp
    obtain d2 where d2: "FD_Size ops d1 w = Some (int (length ?ys), d2)" "Rep d2 ?b m t"
        "size_ok d2 ?b ?h" "fd_path d2 = p"
      using Rep_Size [OF d1(2,3)] d1(4) len by auto
    have att2: "att w (f\<lparr>f_data := Some d2\<rparr>) p m t" using d d2 by (auto simp: attached_def)
    show ?thesis
    proof (cases "ch")
      case False
      then show ?thesis using reg d(1) d1 d2 att2 assms(1)
        by (auto simp: file_Truncate_def with_data_def trunc_err_def ch_def trunc_changes_def)
    next
      case True
      then have sz: "0 \<le> sz" "sz \<noteq> int (length ?ys)" by (auto simp: ch_def trunc_changes_def)
      obtain d3 where d3: "FD_Data ops d2 w = Some (Inr ?b, d3, w)" "Rep d3 ?b m t" "fd_path d3 = p"
        using Rep_Data [OF d2(2)] d2(4) by metis
      have g64: "sz > int (length ?ys) \<Longrightarrow> int64 (sz - int (length ?ys)) = sz - int (length ?ys)"
        using assms(4) sz by (intro int64_id) (auto simp: max_int64_def)
      obtain h' where h': "(if sz > int (length ?ys) then Bytes_Grow ?b (int64 (sz - int (length ?ys)))
            else Bytes_Truncate ?b sz) ?h = Some (None, h')"
          "wf_heap h'" "frame ?h h' ?b" "content h' ?b = set_length (nat sz) ?ys"
      proof (cases "sz > int (length ?ys)")
        case gt: True
        obtain h' where h': "Bytes_Grow ?b (sz - int (length ?ys)) ?h = Some (None, h')" "wf_heap h'"
            "frame ?h h' ?b" "content h' ?b = ?ys @ replicate (nat (sz - int (length ?ys))) 0"
          using Bytes_Grow_spec [OF wf lb, of "sz - int (length ?ys)"] gt nd(2) by auto
        have c: "content h' ?b = set_length (nat sz) ?ys"
          unfolding set_length_def using gt by (simp add: h'(4) nat_diff_distrib')
        show thesis using that [of h'] h'(1-3) c gt g64 by simp
      next
        case le: False
        obtain h' where h': "Bytes_Truncate ?b sz ?h = Some (None, h')" "wf_heap h'"
            "frame ?h h' ?b" "content h' ?b = take (nat sz) ?ys"
          using Bytes_Truncate_spec [OF wf lb sz(1)] nd(2) by auto
        have c: "content h' ?b = set_length (nat sz) ?ys"
          unfolding set_length_def using le by (simp add: h'(4))
        show thesis using that [of h'] h'(1-3) c le by simp
      qed
      have mx': "int (length (content h' ?b)) \<le> max_int64" using h'(4) assms(4) sz by simp
      let ?w2 = "w\<lparr>w_heap := h'\<rparr>"
      have w2: "ok ?w2" "tree ?w2 = (tree w)(p \<mapsto> nd\<lparr>n_data := set_length (nat sz) ?ys\<rparr>)"
        using ok_mutate [OF assms(1) d(3) _ h'(2,3) mx'] reg d(6) h'(4) nd(1) by auto
      have n2: "node_of ops blob h' r = nd\<lparr>n_data := set_length (nat sz) ?ys\<rparr>"
        using reg d(6) nd(1) h'(4) by (simp add: node_of_def)
      have l2: "lookup (w_store ?w2) p = Some r" using d(3) by simp
      obtain d5 w5 w6 d6 where fin: "updateModTime d3 ?w2 = (d5, w5)" "save ops d5 w5 = Some (None, d6, w6)"
          "ok w6" "tree w6 = (tree w)(p \<mapsto> \<lparr>n_mode = m, n_modTime = now w, n_data = set_length (nat sz) ?ys\<rparr>)"
          "att w6 (f\<lparr>f_data := Some d6\<rparr>) p m (now w)"
        using save_touch [OF w2(1) l2 d3(2,3) d(6,7), of f] n2 w2(2) by auto
      have "file_Truncate ops f sz w = Some (None, f\<lparr>f_data := Some d6\<rparr>, w6)"
        using reg sz d(1) d1(1) d2(1) d3(1) h'(1) fin(1,2)
        by (simp add: file_Truncate_def with_data_def on_heap_def)
      then show ?thesis using True fin reg sz by (simp add: trunc_err_def)
    qed
  qed
qed

text \<open>Several records in one transaction.\<close>

abbreviation get_results :: "(string \<Rightarrow> 'r option) \<Rightarrow> string list \<Rightarrow> ('r, 's world) OpResult list \<Rightarrow> bool" where
  "get_results m \<equiv> list_all2 (\<lambda>p res. \<exists>op. res = get_result op (m p))"

lemma get_each_busy:
  "busy t rs (w_store w) \<Longrightarrow>
   \<exists>t' s rs'. get_each ops ps t w = Some (t', w\<lparr>w_store := s\<rparr>) \<and> busy t' (rs @ rs') s
     \<and> lookup s = lookup (w_store w) \<and> get_results (lookup (w_store w)) ps rs'"
proof (induction ps arbitrary: t rs w)
  case Nil
  then show ?case by auto
next
  case (Cons p ps)
  obtain op t1 s1 where 1: "so_Get ops p t w = Some (op, t1, w\<lparr>w_store := s1\<rparr>)"
      "busy t1 (rs @ [get_result (int (length rs)) (lookup (w_store w) p)]) s1" "lookup s1 = lookup (w_store w)"
    using get_law [OF Cons.prems] by blast
  obtain t' s rs' where 2: "get_each ops ps t1 (w\<lparr>w_store := s1\<rparr>) = Some (t', w\<lparr>w_store := s\<rparr>)"
      "busy t' ((rs @ [get_result (int (length rs)) (lookup (w_store w) p)]) @ rs') s"
      "lookup s = lookup (w_store w)" "get_results (lookup (w_store w)) ps rs'"
    using Cons.IH [of t1 "rs @ [get_result (int (length rs)) (lookup (w_store w) p)]" "w\<lparr>w_store := s1\<rparr>"] 1 by auto
  have "get_results (lookup (w_store w)) (p # ps) (get_result (int (length rs)) (lookup (w_store w) p) # rs')"
    using 2(4) by auto
  moreover have "get_each ops (p # ps) t w = Some (t', w\<lparr>w_store := s\<rparr>)" using 1(1) 2(1) by simp
  ultimately show ?case using 2(2,3)
    by (intro exI [of _ t'] exI [of _ s] exI [of _ "get_result (int (length rs)) (lookup (w_store w) p) # rs'"])
      simp
qed

lemma getFileRecords_results:
  assumes "idle (w_store w)"
  shows "\<exists>rs s. getFileRecords ops ps w = Some ((rs, None), w\<lparr>w_store := s\<rparr>) \<and> idle s
    \<and> lookup s = lookup (w_store w) \<and> get_results (lookup (w_store w)) ps rs"
proof -
  obtain t s1 where 1: "so_Transaction ops TransactionReadOnly w = Some (t, None, w\<lparr>w_store := s1\<rparr>)"
      "busy t [] s1" "lookup s1 = lookup (w_store w)"
    using begin_law [OF assms] by blast
  obtain t' s2 rs where 2: "get_each ops ps t (w\<lparr>w_store := s1\<rparr>) = Some (t', w\<lparr>w_store := s2\<rparr>)"
      "busy t' rs s2" "lookup s2 = lookup (w_store w)" "get_results (lookup (w_store w)) ps rs"
    using get_each_busy [of t "[]" "w\<lparr>w_store := s1\<rparr>" ps] 1 by auto
  obtain s3 where 3: "so_Commit ops t' (w\<lparr>w_store := s2\<rparr>) = Some (rs, None, w\<lparr>w_store := s3\<rparr>)"
      "idle s3" "lookup s3 = lookup s2"
    using commit_law [of t' rs "w\<lparr>w_store := s2\<rparr>"] 2 by auto
  show ?thesis using 1 2 3 by (simp add: getFileRecords_def)
qed


lemma get_results_errs:
  "get_results m ps rs \<Longrightarrow> map or_Err rs = map (\<lambda>p. if m p = None then Some ErrNotExist else None) ps"
  by (induction rule: list_all2_induct) (auto simp: get_result_def)

lemma get_results_map2:
  "get_results m ps rs \<Longrightarrow> map2 (\<lambda>p r. g p (or_Record r)) ps rs = map (\<lambda>p. g p (map_option StoreRec (m p))) ps"
  by (induction rule: list_all2_induct) (auto simp: get_result_def)

lemma first_results_all: "length ps = length rs \<Longrightarrow> first_results ps rs = Some rs"
  by (simp add: first_results_def)

lemma getFiles_spec:
  assumes "idle (w_store w)" "list_all ValidPath ps"
  shows "\<exists>s. getFiles ops ps w = Some
      (map (\<lambda>p. Some \<lparr>f_data = Some (fileData_of p (map_option StoreRec (lookup (w_store w) p))), f_offset = 0, f_flag = 0\<rparr>) ps,
       map (\<lambda>p. if lookup (w_store w) p = None then Some ErrNotExist else None) ps, w\<lparr>w_store := s\<rparr>)
    \<and> idle s \<and> lookup s = lookup (w_store w)"
proof -
  obtain rs s where *: "getFileRecords ops ps w = Some ((rs, None), w\<lparr>w_store := s\<rparr>)" "idle s"
      "lookup s = lookup (w_store w)" "get_results (lookup (w_store w)) ps rs"
    using getFileRecords_results [OF assms(1)] by blast
  have "first_results ps rs = Some rs" using list_all2_lengthD [OF *(4)] by (rule first_results_all)
  then show ?thesis
    using * assms(2) get_results_errs [OF *(4)]
      get_results_map2 [OF *(4), of "\<lambda>p r. Some \<lparr>f_data = Some (fileData_of p r), f_offset = 0, f_flag = 0\<rparr>"]
    by (simp add: getFiles_def)
qed

lemma getFiles_invalid:
  "\<not> ValidPath p \<Longrightarrow> getFiles ops (p # ps) w = Some (None # map (\<lambda>_. None) ps,
     Some ErrInvalid # map (\<lambda>_. None) ps, w)"
  by (simp add: getFiles_def set_first_def)

lemma h_Truncate_file:
  "file_Truncate ops (h_file h) sz w = Some (e, f', w') \<Longrightarrow> h_Truncate ops h sz w = Some (e, h_with h f', w')"
  by (simp add: h_Truncate_def)

text \<open>The last part of \<open>OpenFile\<close>: truncating the opened file.\<close>

lemma open_truncate:
  assumes "ok w" "att w f name (n_mode nd) (n_modTime nd)" "tree w name = Some nd"
    "f_offset f = 0" "f_flag f = flag" "has_flag flag FlagTruncate"
  shows "\<exists>h' e w'. h_Truncate ops (open_kind flag f) 0 w = Some (e, h', w') \<and> ok w'
    \<and> opnd w' name flag h'
    \<and> (if IsDir (n_mode nd) then e = Some (PathError ''truncate'' name ErrIsDir) \<and> tree w' = tree w
       else e = None \<and> tree w' = (if n_data nd = [] then tree w
         else (tree w)(name \<mapsto> nd\<lparr>n_modTime := now w, n_data := []\<rparr>)))"
proof -
  obtain f' w' where t: "file_Truncate ops f 0 w = Some (trunc_err (n_mode nd) name 0, f', w')" "ok w'"
      "att w' f' name (n_mode nd) (if trunc_changes (n_mode nd) 0 (n_data nd) then now w else n_modTime nd)"
      "tree w' = (if trunc_changes (n_mode nd) 0 (n_data nd) then
          (tree w)(name \<mapsto> \<lparr>n_mode = n_mode nd, n_modTime = now w, n_data = set_length (nat 0) (n_data nd)\<rparr>)
          else tree w)"
      "f_offset f' = f_offset f" "f_flag f' = f_flag f"
    using Truncate_refines [OF assms(1,2,3), of 0] by (auto simp: max_int64_def)
  have z: "set_length (nat 0) (n_data nd) = []" by (simp add: set_length_def)
  have n: "nd\<lparr>n_modTime := now w, n_data := []\<rparr> = \<lparr>n_mode = n_mode nd, n_modTime = now w, n_data = []\<rparr>"
    by (cases nd) simp
  have "opnd w' name flag (open_kind flag f')"
    using t(3-6) assms(3-5) z unfolding opened_def by (auto split: if_splits)
  then show ?thesis
    using t h_Truncate_file [of "open_kind flag f" 0 w] z
    by (auto simp: trunc_err_def trunc_changes_def n)
qed


lemma OpenFile_found:
  assumes "ok w" "ValidPath name" "lookup (w_store w) name = Some r"
  shows "\<exists>h e w'. kv_OpenFile ops name flag perm w = Some (h, e, w') \<and> ok w' \<and>
    (e, tree w', h \<noteq> None) = spec_OpenFile (tree w) name flag perm (now w) \<and>
    (\<forall>hd. h = Some hd \<longrightarrow> opnd w' name flag hd)"
proof -
  let ?ps = "name # (if has_flag flag FlagCreate then [Dir name] else [])"
  let ?d = "fileData_of name (Some (StoreRec r)) :: ('r, 's world) fileData"
  let ?nd = "node_of ops blob (w_heap w) r"
  have v: "list_all ValidPath ?ps" using assms(2) ValidPath_Dir by simp
  obtain s where s: "getFiles ops ?ps w = Some
      (map (\<lambda>p. Some \<lparr>f_data = Some (fileData_of p (map_option StoreRec (lookup (w_store w) p))), f_offset = 0, f_flag = 0\<rparr>) ?ps,
       map (\<lambda>p. if lookup (w_store w) p = None then Some ErrNotExist else None) ?ps, w\<lparr>w_store := s\<rparr>)"
      "idle s" "lookup s = lookup (w_store w)"
    using getFiles_spec [OF ok_D(1) [OF assms(1)] v] by blast
  let ?w = "w\<lparr>w_store := s\<rparr>"
  have ok1: "ok ?w" "tree ?w = tree w" using ok_store [OF assms(1) s(2,3)] by simp_all
  have sg: "spec_get (tree w) name = Inr ?nd" using assms by (simp add: spec_get_lookup)
  obtain d where d: "FD_Mode ops ?d = Some (r_Mode ops r, d)" "Rep d (blob r) (r_Mode ops r) (r_ModTime ops r)"
      "fd_path d = name" "size_ok d (blob r) (w_heap w)"
    using rep_Mode [OF rep_store [of ops blob name r]] by auto
  let ?f = "\<lparr>f_data = Some d, f_offset = 0, f_flag = flag\<rparr>"
  have tn: "tree ?w name = Some ?nd" using tree_Some [OF assms(3)] ok1(2) by simp
  have nm: "n_mode ?nd = r_Mode ops r" "n_modTime ?nd = r_ModTime ops r" by (simp_all add: node_of_def)
  have at: "att ?w ?f name (n_mode ?nd) (n_modTime ?nd)"
    using d s(3) assms(3) by (auto simp: attached_def nm)
  show ?thesis
  proof (cases "IsDir (r_Mode ops r) \<and> has_flag flag (FlagCreate OR FlagWriteOnly)")
    case True
    then show ?thesis using s d sg ok1 assms(3)
      by (simp add: kv_OpenFile_def spec_OpenFile_def)
  next
    case False
    have pre: "kv_OpenFile ops name flag perm w =
       (if has_flag flag FlagTruncate then do {
               (e, file, w) \<leftarrow> h_Truncate ops (open_kind flag ?f) 0 ?w;
               Some (Some file, wrapperErr ''open'' name e, w)
             } else Some (Some (open_kind flag ?f), None, ?w))"
      using s(1) d(1) False assms(3) by (auto simp: kv_OpenFile_def open_kind_def)
    show ?thesis
    proof (cases "has_flag flag FlagTruncate")
      case no: False
      have "opnd ?w name flag (open_kind flag ?f)" using at tn unfolding opened_def by auto
      then show ?thesis using no pre False sg ok1 by (auto simp: spec_OpenFile_def)
    next
      case True
      obtain h' e w' where t: "h_Truncate ops (open_kind flag ?f) 0 ?w = Some (e, h', w')" "ok w'"
          "opnd w' name flag h'"
          "if IsDir (n_mode ?nd) then e = Some (PathError ''truncate'' name ErrIsDir) \<and> tree w' = tree ?w
           else e = None \<and> tree w' = (if n_data ?nd = [] then tree ?w
             else (tree ?w)(name \<mapsto> ?nd\<lparr>n_modTime := now ?w, n_data := []\<rparr>))"
        using open_truncate [OF ok1(1) at tn _ _ True] by auto
      have "(wrapperErr ''open'' name e, tree w', True) = spec_OpenFile (tree w) name flag perm (now w)"
        using t(4) True False sg ok1(2) by (auto simp: spec_OpenFile_def)
      then show ?thesis using t True pre by auto
    qed
  qed
qed

lemma OpenFile_missing:
  assumes "ok w" "ValidPath name" "lookup (w_store w) name = None"
  shows "\<exists>h e w'. kv_OpenFile ops name flag perm w = Some (h, e, w') \<and> ok w' \<and>
    (e, tree w', h \<noteq> None) = spec_OpenFile (tree w) name flag perm (now w) \<and>
    (\<forall>hd. h = Some hd \<longrightarrow> opnd w' name flag hd)"
proof -
  let ?ps = "name # (if has_flag flag FlagCreate then [Dir name] else [])"
  have v: "list_all ValidPath ?ps" using assms(2) ValidPath_Dir by simp
  obtain s where s: "getFiles ops ?ps w = Some
      (map (\<lambda>p. Some \<lparr>f_data = Some (fileData_of p (map_option StoreRec (lookup (w_store w) p))), f_offset = 0, f_flag = 0\<rparr>) ?ps,
       map (\<lambda>p. if lookup (w_store w) p = None then Some ErrNotExist else None) ?ps, w\<lparr>w_store := s\<rparr>)"
      "idle s" "lookup s = lookup (w_store w)"
    using getFiles_spec [OF ok_D(1) [OF assms(1)] v] by blast
  let ?w = "w\<lparr>w_store := s\<rparr>"
  have ok1: "ok ?w" "tree ?w = tree w" using ok_store [OF assms(1) s(2,3)] by simp_all
  have sg: "spec_get (tree w) name = Inl ErrNotExist" using assms by (simp add: spec_get_lookup)
  show ?thesis
  proof (cases "has_flag flag FlagCreate \<and> lookup (w_store w) (Dir name) \<noteq> None")
    case False
    then show ?thesis using s sg ok1 assms(3)
      by (cases "has_flag flag FlagCreate") (auto simp: kv_OpenFile_def spec_OpenFile_def)
  next
    case True
    let ?m = "perm AND ModePerm"
    let ?w1 = "?w\<lparr>w_tick := Suc (w_tick w)\<rparr>"
    obtain d b w' where d: "save ops (fileData_of name (Some (fresh_rec ?m (now w)))) ?w1 = Some (None, d, w')"
        "ok w'" "tree w' = (tree w)(name \<mapsto> \<lparr>n_mode = ?m, n_modTime = now w, n_data = []\<rparr>)"
        "Rep d b ?m (now w)" "ro_data (fd_record d) = Some (Inr b)" "fd_path d = name"
        "lookup (w_store w') name = Some (mk name b ?m (now w))"
      using save_new [of ?w1 name ?m "now w"] ok1 assms(2) by auto
    let ?f = "\<lparr>f_data = Some d, f_offset = 0, f_flag = flag\<rparr>"
    let ?nd = "\<lparr>n_mode = ?m, n_modTime = now w, n_data = []\<rparr>"
    have tn: "tree w' name = Some ?nd" using d(3) by simp
    have at: "att w' ?f name (n_mode ?nd) (n_modTime ?nd)"
      using d by (auto simp: attached_def size_ok_def mk_laws)
    have nf: "(newFile name flag ?m ?w :: ('r, 's world) kv_file \<times> 's world) = (\<lparr>f_data = Some (fileData_of name (Some (fresh_rec ?m (now w)))),
         f_offset = 0, f_flag = flag\<rparr>, ?w1)"
      by (simp add: newFile_eq now_def)
    have pre: "kv_OpenFile ops name flag perm w =
       (if has_flag flag FlagTruncate then do {
               (e, file, w) \<leftarrow> h_Truncate ops (open_kind flag ?f) 0 w';
               Some (Some file, wrapperErr ''open'' name e, w)
             } else Some (Some (open_kind flag ?f), None, w'))"
      using s(1) d(1) True assms(3) nf by (simp add: kv_OpenFile_def open_kind_def with_data_def)
    have sp: "spec_OpenFile (tree w) name flag perm (now w) = (None, tree w', True)"
      using True sg d(3) by (simp add: spec_OpenFile_def)
    show ?thesis
    proof (cases "has_flag flag FlagTruncate")
      case no: False
      have "opnd w' name flag (open_kind flag ?f)" using at tn unfolding opened_def by auto
      then show ?thesis using no pre sp d(2) by simp
    next
      case tr: True
      then show ?thesis using open_truncate [OF d(2) at tn _ _ tr] pre sp by auto
    qed
  qed
qed

lemma OpenFile_refines:
  assumes "ok w"
  shows "\<exists>h e w'. kv_OpenFile ops name flag perm w = Some (h, e, w') \<and> ok w' \<and>
    (e, tree w', h \<noteq> None) = spec_OpenFile (tree w) name flag perm (now w) \<and>
    (\<forall>hd. h = Some hd \<longrightarrow> opnd w' name flag hd)"
proof (cases rule: get_cases [of name _ "lookup (w_store w)"])
  case invalid
  then show ?thesis using assms getFiles_invalid
    by (simp add: kv_OpenFile_def spec_OpenFile_def spec_get_lookup)
next
  case missing
  then show ?thesis using OpenFile_missing [OF assms] by blast
next
  case found
  then show ?thesis using OpenFile_found [OF assms] by blast
qed

end

end
