(* ===== verification/KV_Dirs.thy ===== *)
theory KV_Dirs
  imports KV_Handle
begin

section \<open>Directories: \<open>MkdirAll\<close>, \<open>Rename\<close> and \<open>ReadDir\<close>\<close>

subsection \<open>\<open>MkdirAll\<close>\<close>

text \<open>A valid path and its ancestors, up to the root.\<close>

definition ancestors :: "string \<Rightarrow> string list" where
  "ancestors p = map (\<lambda>n. path_of (take n (elems p))) (rev [0 ..< Suc (length (elems p))])"

lemma path_chain_path_of:
  "list_all ok_elem es \<Longrightarrow>
   path_chain (path_of es) = Some (map (\<lambda>n. path_of (take n es)) (rev [1 ..< Suc (length es)]))"
proof (induction es rule: rev_induct)
  case Nil
  show ?case by (subst path_chain.simps) simp
next
  case (snoc e es)
  have ok: "list_all ok_elem es" "ok_elem e" using snoc.prems by simp_all
  have ne: "path_of (es @ [e]) \<noteq> dot" using snoc.prems by (simp add: path_of_eq_dot)
  have "map (\<lambda>n. path_of (take n (es @ [e]))) (rev [1 ..< Suc (length es)])
      = map (\<lambda>n. path_of (take n es)) (rev [1 ..< Suc (length es)])"
    by (rule map_cong) auto
  then show ?case
    using snoc.IH [OF ok(1)] ne Dir_snoc [OF ok] by (subst path_chain.simps) simp
qed

lemma path_chain_ancestors:
  assumes "ValidPath p"
  shows "\<exists>c. path_chain p = Some c \<and> c @ [dot] = ancestors p"
proof -
  obtain es where es: "list_all ok_elem es" "p = path_of es" using assms by (rule ValidPathE)
  have "rev [0 ..< Suc (length es)] = rev [1 ..< Suc (length es)] @ [0]"
    by (subst upt_conv_Cons) simp_all
  then show ?thesis using path_chain_path_of [OF es(1)] es by (simp add: ancestors_def)
qed

lemma ancestors_valid: "ValidPath p \<Longrightarrow> q \<in> set (ancestors p) \<Longrightarrow> ValidPath q"
  by (auto simp: ancestors_def list_all_iff dest!: in_set_takeD ValidPath_elems(1)
      intro!: ValidPath_path_of)

fun missing_dirs :: "fs_tree \<Rightarrow> string list \<Rightarrow> err + string list" where
  "missing_dirs fs [] = Inr []"
| "missing_dirs fs (p # ps) =
     (case fs p of
        None \<Rightarrow> (case missing_dirs fs ps of Inl e \<Rightarrow> Inl e | Inr ds \<Rightarrow> Inr (p # ds))
      | Some nd \<Rightarrow>
          if IsDir (n_mode nd) then Inr [] else Inl (PathError ''mkdir'' p ErrNotDir))"

fun add_dirs :: "file_mode \<Rightarrow> (nat \<Rightarrow> time) \<Rightarrow> nat \<Rightarrow> string list \<Rightarrow> fs_tree \<Rightarrow> fs_tree" where
  "add_dirs perm clock n [] fs = fs"
| "add_dirs perm clock n (d # ds) fs = add_dirs perm clock (Suc n) ds (fs(d \<mapsto> dir_node perm (clock n)))"

definition spec_MkdirAll ::
  "fs_tree \<Rightarrow> string \<Rightarrow> file_mode \<Rightarrow> (nat \<Rightarrow> time) \<Rightarrow> nat \<Rightarrow> err option \<times> fs_tree" where
  "spec_MkdirAll fs p perm clock n =
     (if \<not> ValidPath p then (Some ErrInvalid, fs)
      else (case missing_dirs fs (ancestors p) of
              Inl e \<Rightarrow> (Some e, fs)
            | Inr ds \<Rightarrow> (None, add_dirs perm clock n (rev ds) fs)))"

lemma missing_dirs_subset: "missing_dirs fs ps = Inr ds \<Longrightarrow> set ds \<subseteq> set ps"
  by (induction ps arbitrary: ds) (auto split: option.splits if_splits sum.splits)

lemma add_dirs_other: "q \<notin> set ds \<Longrightarrow> add_dirs perm clock n ds fs q = fs q"
  by (induction ds arbitrary: n fs) auto

lemma add_dirs_dir:
  "q \<in> set ds \<or> is_dir fs q \<Longrightarrow> is_dir (add_dirs perm clock n ds fs) q"
proof (induction ds arbitrary: n fs)
  case (Cons d ds)
  then show ?case by (auto simp: is_dir_def dir_node_def)
qed auto

text \<open>A tree in which every entry but the root lies in a directory, and the root is one.\<close>

definition tree_closed :: "fs_tree \<Rightarrow> bool" where
  "tree_closed fs \<longleftrightarrow> is_dir fs dot \<and> (\<forall>p. fs p \<noteq> None \<longrightarrow> p \<noteq> dot \<longrightarrow> is_dir fs (Dir p))"

lemma take_parent:
  assumes "list_all ok_elem es" "n < length es"
  shows "Dir (path_of (take (Suc n) es)) = path_of (take n es)" "path_of (take (Suc n) es) \<noteq> dot"
proof -
  have s: "take (Suc n) es = take n es @ [es ! n]" using assms(2) by (simp add: take_Suc_conv_app_nth)
  have ok: "list_all ok_elem (take n es)" "ok_elem (es ! n)"
    using assms by (auto simp: list_all_iff dest: in_set_takeD)
  show "Dir (path_of (take (Suc n) es)) = path_of (take n es)" unfolding s using ok by (rule Dir_snoc)
  have "list_all ok_elem (take (Suc n) es)" using ok s by simp
  then show "path_of (take (Suc n) es) \<noteq> dot" by (simp add: path_of_eq_dot) (use assms(2) in auto)
qed

text \<open>In such a tree the ancestors of an entry are directories.\<close>

lemma closed_ancestors:
  assumes "tree_closed fs" "list_all ok_elem es" "fs (path_of (take n es)) \<noteq> None" "m < n" "n \<le> length es"
  shows "is_dir fs (path_of (take m es))"
proof -
  have "is_dir fs (path_of (take (n - Suc k) es))" if "k < n" for k
    using that
  proof (induction k)
    case 0
    then obtain j where j: "n = Suc j" by (cases n) auto
    then show ?case using assms take_parent [OF assms(2), of j] unfolding tree_closed_def by auto
  next
    case (Suc k)
    then obtain j where j: "n - Suc k = Suc j" "n - Suc (Suc k) = j" by (metis Suc_diff_Suc)
    have "is_dir fs (path_of (take (Suc j) es))" using Suc j by simp
    then have "fs (path_of (take (Suc j) es)) \<noteq> None" by (auto simp: is_dir_def split: option.splits)
    moreover have "j < length es" using j assms(5) by linarith
    ultimately show ?case
      using assms(1) j(2) take_parent [OF assms(2), of j] unfolding tree_closed_def by metis
  qed
  from this [of "n - Suc m"] show ?thesis using assms(4) by simp
qed

lemma missing_dirs_all:
  assumes "\<forall>q \<in> set ps. fs q \<noteq> None \<longrightarrow> is_dir fs q"
    and "\<And>i j. i < j \<Longrightarrow> j < length ps \<Longrightarrow> fs (ps ! i) \<noteq> None \<Longrightarrow> is_dir fs (ps ! j)"
  shows "\<exists>ds. missing_dirs fs ps = Inr ds \<and> (\<forall>q \<in> set ps. q \<in> set ds \<or> is_dir fs q)
    \<and> (\<forall>q \<in> set ds. fs q = None)"
  using assms
proof (induction ps)
  case (Cons p ps)
  show ?case
  proof (cases "fs p")
    case None
    have "\<exists>ds. missing_dirs fs ps = Inr ds \<and> (\<forall>q \<in> set ps. q \<in> set ds \<or> is_dir fs q)
        \<and> (\<forall>q \<in> set ds. fs q = None)"
    proof (rule Cons.IH)
      show "\<forall>q\<in>set ps. fs q \<noteq> None \<longrightarrow> is_dir fs q" using Cons.prems(1) by simp
      show "is_dir fs (ps ! j)" if "i < j" "j < length ps" "fs (ps ! i) \<noteq> None" for i j
        using Cons.prems(2) [of "Suc i" "Suc j"] that by simp
    qed
    then show ?thesis using None by auto
  next
    case (Some nd)
    then have "is_dir fs p" using Cons.prems(1) by simp
    moreover have "is_dir fs q" if q: "q \<in> set ps" for q
    proof -
      obtain j where "j < length ps" "q = ps ! j" using q by (auto simp: in_set_conv_nth)
      then show ?thesis using Cons.prems(2) [of 0 "Suc j"] Some by simp
    qed
    ultimately show ?thesis using Some by (auto simp: is_dir_def)
  qed
qed simp

lemma nth_ancestors:
  "i \<le> length (elems p) \<Longrightarrow> ancestors p ! i = path_of (take (length (elems p) - i) (elems p))"
  by (simp add: ancestors_def rev_nth del: upt_Suc)

lemma spec_MkdirAll_dirs:
  assumes "tree_closed fs" "ValidPath p" "\<forall>q \<in> set (ancestors p). fs q \<noteq> None \<longrightarrow> is_dir fs q"
  shows "\<exists>fs'. spec_MkdirAll fs p perm clock n = (None, fs')
    \<and> (\<forall>q \<in> set (ancestors p). is_dir fs' q) \<and> (\<forall>q. fs q \<noteq> None \<longrightarrow> fs' q = fs q)
    \<and> (\<forall>q. q \<notin> set (ancestors p) \<longrightarrow> fs' q = fs q)"
proof -
  let ?es = "elems p"
  have ok: "list_all ok_elem ?es" using ValidPath_elems [OF assms(2)] by simp
  have len: "length (ancestors p) = Suc (length ?es)" by (simp add: ancestors_def)
  have "is_dir fs (ancestors p ! j)"
    if "i < j" "j < length (ancestors p)" "fs (ancestors p ! i) \<noteq> None" for i j
    using closed_ancestors [OF assms(1) ok, of "length ?es - i" "length ?es - j"] that len
    by (simp add: nth_ancestors)
  then obtain ds where ds: "missing_dirs fs (ancestors p) = Inr ds"
      "\<forall>q \<in> set (ancestors p). q \<in> set ds \<or> is_dir fs q" "\<forall>q \<in> set ds. fs q = None"
    using missing_dirs_all [OF assms(3)] by blast
  have sub: "set ds \<subseteq> set (ancestors p)" using missing_dirs_subset [OF ds(1)] .
  then show ?thesis
    using ds assms(2) by (auto simp: spec_MkdirAll_def intro!: add_dirs_dir add_dirs_other)
qed

context kv_store
begin

lemma missing_loop_results:
  "get_results m ps rs \<Longrightarrow>
   missing_loop ops ps (map2 (\<lambda>p r. \<lparr>fi_Record = InfoRec (or_Record r), fi_Path = p\<rparr>) ps rs) (map or_Err rs)
     = Some (missing_dirs (\<lambda>p. map_option (node_of ops blob h) (m p)) ps)"
proof (induction rule: list_all2_induct)
  case (Cons p ps r rs)
  then obtain op where "r = get_result op (m p)" by blast
  then show ?case
    using Cons.IH
    by (cases "m p") (auto simp: get_result_def isMissingDir_def info_IsDir_def info_Mode_def FR_Mode_def
        node_of_def split: sum.split)
qed simp

lemma findMissingDirs_spec:
  assumes "idle (w_store w)" "ValidPath p"
  shows "\<exists>s. findMissingDirs ops p w = Some (missing_dirs (tree w) (ancestors p), w\<lparr>w_store := s\<rparr>)
    \<and> idle s \<and> lookup s = lookup (w_store w)"
proof -
  obtain c where c: "path_chain p = Some c" "c @ [dot] = ancestors p"
    using path_chain_ancestors [OF assms(2)] by blast
  obtain rs s where *: "getFileRecords ops (ancestors p) w = Some ((rs, None), w\<lparr>w_store := s\<rparr>)" "idle s"
      "lookup s = lookup (w_store w)" "get_results (lookup (w_store w)) (ancestors p) rs"
    using getFileRecords_results [OF assms(1)] by blast
  have f: "first_results (ancestors p) rs = Some rs"
    using list_all2_lengthD [OF *(4)] by (rule first_results_all)
  have "missing_loop ops (ancestors p) (map2 (\<lambda>p r. \<lparr>fi_Record = InfoRec (or_Record r), fi_Path = p\<rparr>)
      (ancestors p) rs) (map or_Err rs) = Some (missing_dirs (tree w) (ancestors p))"
    using missing_loop_results [OF *(4), of "w_heap w"] by (simp add: tree_of_def)
  then show ?thesis
    using * c f assms(2) by (simp add: findMissingDirs_def statAll_def)
qed

lemma mkdir_each_refines:
  "ok w \<Longrightarrow> list_all ValidPath ds \<Longrightarrow>
   \<exists>w'. mkdir_each ops perm ds w = Some (None, w') \<and> ok w'
     \<and> tree w' = add_dirs perm (w_clock w) (w_tick w) ds (tree w)"
proof (induction ds arbitrary: w)
  case (Cons d ds)
  let ?w1 = "w\<lparr>w_tick := Suc (w_tick w)\<rparr>"
  obtain f w2 where 2: "save ops (fileData_of d (Some (fresh_rec (ModeDir OR (perm AND ModePerm)) (now w)))) ?w1
        = Some (None, f, w2)"
      "ok w2" "tree w2 = (tree w)(d \<mapsto> dir_node perm (now w))" "w_clock w2 = w_clock w"
      "w_tick w2 = Suc (w_tick w)"
    using save_new [of ?w1 d "ModeDir OR (perm AND ModePerm)" "now w"] Cons.prems
    by (auto simp: dir_node_def)
  obtain w' where "mkdir_each ops perm ds w2 = Some (None, w')" "ok w'"
      "tree w' = add_dirs perm (w_clock w2) (w_tick w2) ds (tree w2)"
    using Cons.IH [OF 2(2)] Cons.prems by auto
  then show ?case
    using 2 by (simp add: newDir_eq with_data_def ignoreErrExist_def now_def)
qed auto

lemma MkdirAll_refines:
  assumes "ok w"
  shows "\<exists>e w'. kv_MkdirAll ops path perm w = Some (e, w') \<and> ok w' \<and>
    (e, tree w') = spec_MkdirAll (tree w) path perm (w_clock w) (w_tick w)"
proof (cases "ValidPath path")
  case False
  then show ?thesis using assms by (simp add: kv_MkdirAll_def findMissingDirs_def spec_MkdirAll_def)
next
  case True
  obtain s where s: "findMissingDirs ops path w
        = Some (missing_dirs (tree w) (ancestors path), w\<lparr>w_store := s\<rparr>)"
      "idle s" "lookup s = lookup (w_store w)"
    using findMissingDirs_spec [OF ok_D(1) [OF assms] True] by blast
  note ok1 = ok_store [OF assms s(2,3)]
  show ?thesis
  proof (cases "missing_dirs (tree w) (ancestors path)")
    case (Inl e)
    then show ?thesis using s ok1 True by (simp add: kv_MkdirAll_def spec_MkdirAll_def)
  next
    case (Inr ds)
    have "list_all ValidPath (rev ds)"
      using missing_dirs_subset [OF Inr] ancestors_valid [OF True] by (auto simp: list_all_iff)
    from mkdir_each_refines [OF ok1(1) this, of perm] obtain w' where
      "mkdir_each ops perm (rev ds) (w\<lparr>w_store := s\<rparr>) = Some (None, w')" "ok w'"
      "tree w' = add_dirs perm (w_clock w) (w_tick w) (rev ds) (tree w)"
      using ok1(2) by auto
    then show ?thesis using s Inr True by (simp add: kv_MkdirAll_def spec_MkdirAll_def)
  qed
qed


text \<open>The branch of \<open>Rename\<close> for files: one transaction moves the record.\<close>

lemma ok_move:
  assumes "ok w" "idle s" "lookup (w_store w) old = Some r" "new \<noteq> old"
    and "lookup s = (lookup (w_store w))(new \<mapsto> mk new (blob r) (r_Mode ops r) (r_ModTime ops r), old := None)"
  shows "ok (w\<lparr>w_store := s\<rparr>)" "tree (w\<lparr>w_store := s\<rparr>) = (tree w)(new := tree w old, old := None)"
proof -
  let ?r' = "mk new (blob r) (r_Mode ops r) (r_ModTime ops r)"
  have n: "node_of ops blob h ?r' = node_of ops blob h r" "rec_ok ops blob h ?r' = rec_ok ops blob h r" for h
    by (simp_all add: node_of_def rec_ok_def mk_laws)
  have "unshared ops blob (w_heap w) (lookup s)"
    unfolding unshared_def
  proof (intro allI impI)
    fix p q r1 r2
    assume *: "lookup s p = Some r1" "lookup s q = Some r2" "p \<noteq> q" "\<not> IsDir (r_Mode ops r1)"
    define src where "src = (\<lambda>x. if x = new then old else x)"
    have src: "\<exists>r0. lookup (w_store w) (src x) = Some r0 \<and> blob r0 = blob rx \<and> r_Mode ops r0 = r_Mode ops rx"
      if "lookup s x = Some rx" for x rx
      using that assms(3,4,5) by (auto simp: src_def mk_laws split: if_splits)
    have "src p \<noteq> src q" using * assms(5) by (auto simp: src_def split: if_splits)
    then show "apart (w_heap w) (blob r1) (blob r2)"
      using src [OF *(1)] src [OF *(2)] *(4) ok_D(5) [OF assms(1)] unfolding unshared_def by metis
  qed
  moreover have "rec_ok ops blob (w_heap w) rx" if "lookup s p = Some rx" for p rx
    using that assms(5) ok_D(4) [OF assms(1)] assms(3) n(2) by (auto split: if_splits)
  ultimately show "ok (w\<lparr>w_store := s\<rparr>)" using assms(1,2) by (auto simp: fs_ok_def)
  show "tree (w\<lparr>w_store := s\<rparr>) = (tree w)(new := tree w old, old := None)"
    using assms(3,5) by (auto simp: tree_of_def n(1))
qed

lemma rename_file_refines:
  assumes "ok w" "lookup (w_store w) old = Some r" "Rep d (blob r) (r_Mode ops r) (r_ModTime ops r)"
  shows "\<exists>e w'. rename_file ops old new d w = Some (e, w') \<and> ok w'
    \<and> (e, tree w') = spec_Rename_file (tree w) old new"
proof (cases "old = new")
  case True
  then show ?thesis using assms(1) by (simp add: rename_file_def spec_Rename_file_def)
next
  case ne: False
  have vo: "ValidPath old" using key_law [OF ok_D(1) [OF assms(1)] assms(2)] by simp
  obtain d1 where d1: "FD_Data ops d w = Some (Inr (blob r), d1, w)"
      "Rep d1 (blob r) (r_Mode ops r) (r_ModTime ops r)"
    using Rep_Data [OF assms(3)] by blast
  obtain t s1 where 1: "so_Transaction ops TransactionReadWrite w = Some (t, None, w\<lparr>w_store := s1\<rparr>)"
      "busy t [] s1" "lookup s1 = lookup (w_store w)"
    using begin_law [OF ok_D(1) [OF assms(1)]] by blast
  show ?thesis
  proof (cases "ValidPath new")
    case False
    obtain e s2 where 2: "so_Abort ops t (w\<lparr>w_store := s1\<rparr>) = Some (e, w\<lparr>w_store := s2\<rparr>)" "idle s2"
        "lookup s2 = lookup (w_store w)"
      using abort_law [of t "[]" "w\<lparr>w_store := s1\<rparr>"] 1 by auto
    then show ?thesis using ne False d1 1 ok_store [OF assms(1) 2(2,3)]
      by (simp add: rename_file_def spec_Rename_file_def setFileTxn_def)
  next
    case True
    obtain t2 d2 s2 where 2: "setFileTxn ops t new (Some d1) (Some (blob r)) (w\<lparr>w_store := s1\<rparr>)
          = Some (None, t2, Some d2, w\<lparr>w_store := s2\<rparr>)"
        "busy t2 [ok_result 0] s2"
        "lookup s2 = (lookup (w_store w))(new \<mapsto> mk new (blob r) (r_Mode ops r) (r_ModTime ops r))"
      using setFileTxn_put [of t "[]" "w\<lparr>w_store := s1\<rparr>" new d1 "blob r" "r_Mode ops r" "r_ModTime ops r"
          "w_heap w" "Some (blob r)"] 1 True sourced_rep [OF d1(2)] by auto
    obtain t3 s3 where 3: "setFileTxn ops t2 old None None (w\<lparr>w_store := s2\<rparr>) = Some (None, t3, None, w\<lparr>w_store := s3\<rparr>)"
        "busy t3 [ok_result 0, ok_result 1] s3" "lookup s3 = (lookup s2)(old := None)"
      using setFileTxn_del [of t2 "[ok_result 0]" "w\<lparr>w_store := s2\<rparr>" old None] 2 vo by auto
    obtain s4 where 4: "so_Commit ops t3 (w\<lparr>w_store := s3\<rparr>) = Some ([ok_result 0, ok_result 1], None, w\<lparr>w_store := s4\<rparr>)"
        "idle s4" "lookup s4 = lookup s3"
      using commit_law [of t3 _ "w\<lparr>w_store := s3\<rparr>"] 3 by auto
    have "rename_file ops old new d w = Some (None, w\<lparr>w_store := s4\<rparr>)"
      using ne d1(1) 1(1) 2(1) 3(1) 4(1) by (simp add: rename_file_def)
    moreover note ok_move [OF assms(1) 4(2) assms(2), of new]
    ultimately show ?thesis using ne True 2(3) 3(3) 4(3) by (auto simp: spec_Rename_file_def)
  qed
qed

end

end
