(* ===== verification/KV_Rename.thy ===== *)
theory KV_Rename
  imports KV_Dirs
begin

section \<open>\<open>Rename\<close> moves a whole subtree\<close>

text \<open>
  Paths are lists of elements here (\<open>path_of\<close> and \<open>elems\<close> of \<open>GoPath\<close>). \<open>movable\<close> is the condition
  under which \<open>Rename\<close> works: the source exists and everything below it lies in directories, the
  destination is free with nothing below it, and the destination is not below the source. The
  recursion of the code follows the children of the source, so it ends after as many levels as the
  source has descendants. Without the last condition it may never end: \<open>Rename_into_itself\<close>.
\<close>

definition movable :: "fs_tree \<Rightarrow> string list \<Rightarrow> string list \<Rightarrow> bool" where
  "movable fs a b \<longleftrightarrow>
     list_all ok_elem a \<and> list_all ok_elem b \<and> \<not> prefix a b \<and> fs (path_of a) \<noteq> None \<and>
     (\<forall>es. list_all ok_elem es \<longrightarrow> prefix b es \<longrightarrow> fs (path_of es) = None) \<and>
     (\<forall>es e. list_all ok_elem (es @ [e]) \<longrightarrow> prefix a es \<longrightarrow> fs (path_of (es @ [e])) \<noteq> None \<longrightarrow>
        is_dir fs (path_of es))"

definition moved :: "fs_tree \<Rightarrow> fs_tree \<Rightarrow> string list \<Rightarrow> string list \<Rightarrow> bool" where
  "moved fs fs' a b \<longleftrightarrow>
     (\<forall>es. list_all ok_elem es \<longrightarrow> fs' (path_of es) =
        (if prefix a es then None
         else if prefix b es then fs (path_of (a @ drop (length b) es))
         else fs (path_of es)))"

text \<open>The tree while the children in \<open>C\<close> have been moved.\<close>

definition moving :: "fs_tree \<Rightarrow> fs_tree \<Rightarrow> string list \<Rightarrow> string list \<Rightarrow> string set \<Rightarrow> bool" where
  "moving fs fs' a b C \<longleftrightarrow>
     (\<forall>es. list_all ok_elem es \<longrightarrow> fs' (path_of es) =
        (if \<exists>c \<in> C. prefix (a @ [c]) es then None
         else if es = b then fs (path_of a)
         else if \<exists>c \<in> C. prefix (b @ [c]) es then fs (path_of (a @ drop (length b) es))
         else fs (path_of es)))"

definition below :: "fs_tree \<Rightarrow> string list \<Rightarrow> string list set" where
  "below fs a = {es. list_all ok_elem es \<and> strict_prefix a es \<and> fs (path_of es) \<noteq> None}"

lemma movable_D:
  assumes "movable fs a b"
  shows "list_all ok_elem a" "list_all ok_elem b" "fs (path_of a) \<noteq> None"
    "list_all ok_elem es \<Longrightarrow> prefix b es \<Longrightarrow> fs (path_of es) = None"
    "list_all ok_elem es \<Longrightarrow> ok_elem e \<Longrightarrow> prefix a es \<Longrightarrow> fs (path_of (es @ [e])) \<noteq> None \<Longrightarrow>
      is_dir fs (path_of es)"
  using assms by (auto simp: movable_def)

lemma movable_apart:
  assumes "movable fs a b"
  shows "\<not> prefix a b" "\<not> prefix b a" "prefix a es \<Longrightarrow> \<not> prefix b es" "prefix b es \<Longrightarrow> \<not> prefix a es"
proof -
  show 1: "\<not> prefix a b" "\<not> prefix b a" using assms by (auto simp: movable_def)
  show "prefix a es \<Longrightarrow> \<not> prefix b es" "prefix b es \<Longrightarrow> \<not> prefix a es"
    using 1 prefix_same_cases by blast+
qed

lemma prefix_child: "prefix (a @ [c]) es \<Longrightarrow> prefix a es"
  by (auto simp: prefix_def)

lemma prefix_child_unique: "prefix (a @ [c]) es \<Longrightarrow> prefix (a @ [c']) es \<Longrightarrow> c = c'"
  by (auto simp: prefix_def)

lemma list_all_child: "list_all ok_elem (a @ c # es) \<Longrightarrow> ok_elem c \<and> list_all ok_elem (a @ [c])"
  by simp

text \<open>Whatever lies below the source lies below one of its children.\<close>

lemma movable_child:
  assumes "movable fs a b" "list_all ok_elem es" "strict_prefix a es" "fs (path_of es) \<noteq> None"
  obtains c where "ok_elem c" "prefix (a @ [c]) es" "fs (path_of (a @ [c])) \<noteq> None" "is_dir fs (path_of a)"
proof -
  obtain c rest where es: "es = a @ c # rest" using assms(3) by (auto elim: strict_prefixE')
  have "fs (path_of (a @ [c])) \<noteq> None"
    using assms(2,4) unfolding es
  proof (induction rest rule: rev_induct)
    case (snoc x xs)
    have "is_dir fs (path_of (a @ c # xs))"
      using movable_D(5) [OF assms(1), of "a @ c # xs" x] snoc.prems by simp
    then have "fs (path_of (a @ c # xs)) \<noteq> None" by (auto simp: is_dir_def split: option.splits)
    then show ?case using snoc by simp
  qed simp
  moreover from this have "is_dir fs (path_of a)"
    using movable_D(5) [OF assms(1), of a c] assms(2) es by simp
  ultimately show thesis using that [of c] assms(2) es by simp
qed

lemma moving_start:
  assumes "movable fs a b" "fs' = fs(path_of b := fs (path_of a))"
  shows "moving fs fs' a b {}"
  using assms by (auto simp: moving_def movable_def path_of_inject)

lemma moving_inside:
  assumes "movable fs a b" "moving fs fs' a b C" "c \<notin> C" "list_all ok_elem es" "prefix (a @ [c]) es"
  shows "fs' (path_of es) = fs (path_of es)"
proof -
  have "\<not> prefix b es" "es \<noteq> b"
    using movable_apart(3) [OF assms(1) prefix_child [OF assms(5)]] by auto
  moreover have "\<not> (\<exists>c' \<in> C. prefix (a @ [c']) es)" using assms(3) prefix_child_unique [OF assms(5)] by auto
  moreover have "\<not> (\<exists>c' \<in> C. prefix (b @ [c']) es)" using calculation(1) prefix_child [of b _ es] by auto
  ultimately show ?thesis using assms(2,4) unfolding moving_def by simp
qed

lemma moving_movable:
  assumes "movable fs a b" "moving fs fs' a b C" "c \<notin> C" "ok_elem c" "fs (path_of (a @ [c])) \<noteq> None"
  shows "movable fs' (a @ [c]) (b @ [c])"
  unfolding movable_def
proof (intro conjI allI impI)
  note ins = moving_inside [OF assms(1-3)]
  show "list_all ok_elem (a @ [c])" "list_all ok_elem (b @ [c])"
    using assms(1,4) by (auto simp: movable_def)
  show "\<not> prefix (a @ [c]) (b @ [c])"
    using movable_apart(1,2) [OF assms(1)] by (auto dest!: prefix_child)
  show "fs' (path_of (a @ [c])) \<noteq> None"
    using ins [of "a @ [c]"] assms(4,5) movable_D(1) [OF assms(1)] by simp
  fix es
  show "fs' (path_of es) = None" if "list_all ok_elem es" "prefix (b @ [c]) es"
  proof -
    have b: "prefix b es" using that(2) by (rule prefix_child)
    have "es \<noteq> b" using that(2) by (auto simp: prefix_def)
    moreover have "\<not> (\<exists>c' \<in> C. prefix (a @ [c']) es)"
      using movable_apart(4) [OF assms(1) b] prefix_child [of a _ es] by auto
    moreover have "\<not> (\<exists>c' \<in> C. prefix (b @ [c']) es)"
      using assms(3) prefix_child_unique [OF that(2)] by auto
    ultimately show ?thesis using assms(2) that(1) movable_D(4) [OF assms(1) that(1) b]
      unfolding moving_def by simp
  qed
  fix e
  assume *: "list_all ok_elem (es @ [e])" "prefix (a @ [c]) es" "fs' (path_of (es @ [e])) \<noteq> None"
  have "fs' (path_of (es @ [e])) = fs (path_of (es @ [e]))" "fs' (path_of es) = fs (path_of es)"
    using ins [of "es @ [e]"] ins [of es] * by simp_all
  then show "is_dir fs' (path_of es)"
    using movable_D(5) [OF assms(1), of es e] * prefix_child [OF *(2)] by (simp add: is_dir_def)
qed

lemma moving_step:
  assumes "movable fs a b" "moving fs fs' a b C" "c \<notin> C" "moved fs' fs'' (a @ [c]) (b @ [c])" "ok_elem c"
  shows "moving fs fs'' a b (insert c C)"
  unfolding moving_def
proof (intro allI impI)
  fix es assume es: "list_all ok_elem es"
  have m: "fs'' (path_of es) = (if prefix (a @ [c]) es then None
         else if prefix (b @ [c]) es then fs' (path_of (a @ [c] @ drop (length (b @ [c])) es))
         else fs' (path_of es))"
    using assms(4) es unfolding moved_def by simp
  show "fs'' (path_of es) =
      (if \<exists>c \<in> insert c C. prefix (a @ [c]) es then None
       else if es = b then fs (path_of a)
       else if \<exists>c \<in> insert c C. prefix (b @ [c]) es then fs (path_of (a @ drop (length b) es))
       else fs (path_of es))"
  proof (cases "prefix (b @ [c]) es")
    case True
    then obtain rest where r: "es = b @ c # rest" by (auto simp: prefix_def)
    have na: "\<not> prefix (a @ [x]) es" for x
      using movable_apart(4) [OF assms(1) prefix_child [OF True]] prefix_child [of a x es] by auto
    have "fs' (path_of (a @ c # rest)) = fs (path_of (a @ c # rest))"
      using moving_inside [OF assms(1-3), of "a @ c # rest"] es movable_D(1) [OF assms(1)] r
      by (simp add: prefix_def)
    then show ?thesis using m True r na by simp
  next
    case False
    then show ?thesis using m assms(2) es unfolding moving_def by auto
  qed
qed

lemma moving_end:
  assumes "movable fs a b" "moving fs fs' a b C"
    and all: "\<And>c. ok_elem c \<Longrightarrow> fs (path_of (a @ [c])) \<noteq> None \<Longrightarrow> c \<in> C"
  shows "moved fs (fs'(path_of a := None)) a b"
  unfolding moved_def
proof (intro allI impI)
  fix es assume es: "list_all ok_elem es"
  have oka: "list_all ok_elem a" using movable_D(1) [OF assms(1)] .
  have m: "fs' (path_of es) = (if \<exists>c \<in> C. prefix (a @ [c]) es then None
         else if es = b then fs (path_of a)
         else if \<exists>c \<in> C. prefix (b @ [c]) es then fs (path_of (a @ drop (length b) es))
         else fs (path_of es))"
    using assms(2) es unfolding moving_def by simp
  have inj: "path_of es = path_of a \<longleftrightarrow> es = a" using path_of_inject [OF es oka] .
  consider "es = a" | "strict_prefix a es" | "\<not> prefix a es" "es = b" | "\<not> prefix a es" "strict_prefix b es"
    | "\<not> prefix a es" "\<not> prefix b es" by (metis strict_prefix_def)
  then show "(fs'(path_of a := None)) (path_of es) = (if prefix a es then None
         else if prefix b es then fs (path_of (a @ drop (length b) es)) else fs (path_of es))"
  proof cases
    case 2
    have "fs' (path_of es) = None"
    proof (cases "fs (path_of es) = None")
      case True
      have "\<not> prefix b es" using movable_apart(3) [OF assms(1)] 2 by (simp add: strict_prefix_def)
      then have "es \<noteq> b" "\<not> (\<exists>c \<in> C. prefix (b @ [c]) es)" using prefix_child [of b _ es] by auto
      then show ?thesis using m True by simp
    next
      case False
      show ?thesis using m all movable_child [OF assms(1) es 2 False] by metis
    qed
    then show ?thesis using 2 inj by (auto simp: strict_prefix_def)
  next
    case 4
    then obtain c rest where r: "es = b @ c # rest" by (auto elim: strict_prefixE')
    have ok': "list_all ok_elem (a @ c # rest)" using es oka r by simp
    have na: "\<not> prefix (a @ [x]) es" for x using 4 prefix_child [of a x es] by auto
    have "fs' (path_of es) = fs (path_of (a @ c # rest))"
    proof (cases "c \<in> C")
      case True
      then show ?thesis using m na r by (auto simp: prefix_def)
    next
      case False
      have "fs (path_of (a @ c # rest)) = None"
      proof (rule ccontr)
        assume "fs (path_of (a @ c # rest)) \<noteq> None"
        then obtain c' where "ok_elem c'" "prefix (a @ [c']) (a @ c # rest)" "fs (path_of (a @ [c'])) \<noteq> None"
          using movable_child [OF assms(1) ok'] by (metis strict_prefixI')
        then show False using all False by simp
      qed
      moreover have "fs (path_of es) = None"
        using movable_D(4) [OF assms(1) es] 4 by (simp add: strict_prefix_def)
      moreover have "\<not> (\<exists>c \<in> C. prefix (b @ [c]) es)" using False r by auto
      ultimately show ?thesis using m na 4(2) by (auto simp: strict_prefix_def)
    qed
    then show ?thesis using 4 inj r by (auto simp: strict_prefix_def)
  next
    case 3
    then show ?thesis using m inj prefix_child [of a _ es] by auto
  next
    case 5
    then show ?thesis using m inj prefix_child [of a _ es] prefix_child [of b _ es] by auto
  qed (use inj in auto)
qed

lemma children_path_of:
  assumes "\<And>p. m p \<noteq> None \<Longrightarrow> ValidPath p" "list_all ok_elem a"
  shows "children m (path_of a) = {c. ok_elem c \<and> m (path_of (a @ [c])) \<noteq> None}"
proof (intro set_eqI iffI)
  fix c assume "c \<in> children m (path_of a)"
  then obtain q where q: "c = Base q" "m q \<noteq> None" "q \<noteq> dot" "Dir q = path_of a"
    by (auto simp: children_def dom_def)
  from assms(1) [OF q(2)] show "c \<in> {c. ok_elem c \<and> m (path_of (a @ [c])) \<noteq> None}"
  proof (cases rule: ValidPath_cases)
    case (child es e)
    then have "es = a" using q(4) path_of_inject [OF child(1) assms(2)] by (simp add: path_simps)
    then show ?thesis using q child by (simp add: path_simps)
  qed (use q in simp)
next
  fix c assume c: "c \<in> {c. ok_elem c \<and> m (path_of (a @ [c])) \<noteq> None}"
  then have "Base (path_of (a @ [c])) = c" "Dir (path_of (a @ [c])) = path_of a" "path_of (a @ [c]) \<noteq> dot"
    using assms(2) by (simp_all add: path_simps path_of_eq_dot)
  then show "c \<in> children m (path_of a)"
    using c unfolding children_def by (auto intro!: exI [of _ "path_of (a @ [c])"])
qed

text \<open>The body of \<open>Rename\<close> over an arbitrary function for the recursive call.\<close>

definition rename_body ::
  "('r, 's world, 't, 'z) store_ops_scheme \<Rightarrow> (string \<Rightarrow> string \<Rightarrow> 's world \<Rightarrow> (err option \<times> 's world) option) \<Rightarrow>
   string \<Rightarrow> string \<Rightarrow> 's world \<Rightarrow> (err option \<times> 's world) option" where
  "rename_body ops rename oldname newname w =
     do {
       (r, w) \<leftarrow> getFile ops oldname w;
       (case r of
          Inl _ \<Rightarrow> Some (Some (LinkError ''rename'' oldname newname ErrNotExist), w)
        | Inr oldFile \<Rightarrow> do {
            d \<leftarrow> f_data oldFile;
            (m, rec) \<leftarrow> RO_Mode ops (fd_record d);
            let d = d\<lparr>fd_record := rec\<rparr>;
            if \<not> IsDir m then rename_file ops oldname newname d w
            else do {
              (r, w) \<leftarrow> getFile ops newname w;
              if (case r of Inl e \<Rightarrow> \<not> errors_Is e ErrNotExist | Inr _ \<Rightarrow> True)
              then Some (Some (LinkError ''rename'' oldname newname ErrExist), w)
              else do {
                (names, d, w) \<leftarrow> FD_ReadDirNames ops d w;
                (case names of
                   Inl e \<Rightarrow> Some (Some e, w)
                 | Inr files \<Rightarrow> do {
                     (e, d, w) \<leftarrow> setFile ops newname (Some d) w;
                     if e \<noteq> None then Some (e, w)
                     else do {
                       (e, w) \<leftarrow> until_err (\<lambda>name w.
                            rename (Join [oldname, name]) (Join [newname, name]) w) files w;
                       if e \<noteq> None then Some (e, w)
                       else do { (e, _, w) \<leftarrow> setFile ops oldname None w; Some (e, w) }
                     }
                   })
              }
            }
          })
     }"

lemma kv_Rename_body: "kv_Rename ops old new w = rename_body ops (kv_Rename ops) old new w"
  by (subst kv_Rename.simps) (simp only: rename_body_def)

text \<open>
  Moving a directory two levels below itself: the new directory is a child of the only child, so every
  recursive call meets the same situation one level deeper.
\<close>

definition into_itself :: "fs_tree \<Rightarrow> string \<Rightarrow> string \<Rightarrow> bool" where
  "into_itself fs old new \<longleftrightarrow>
     (\<exists>a x y. list_all ok_elem a \<and> ok_elem x \<and> ok_elem y \<and> old = path_of a \<and> new = path_of (a @ [x, y])
        \<and> is_dir fs (path_of a) \<and> is_dir fs (path_of (a @ [x])) \<and> below fs a = {a @ [x]})"

context kv_store
begin

lemma tree_valid: "idle (w_store w) \<Longrightarrow> lookup (w_store w) p \<noteq> None \<Longrightarrow> ValidPath p"
  using key_law by auto

lemma finite_below:
  assumes "idle (w_store w)"
  shows "finite (below (tree w) a)"
proof -
  have "path_of ` below (tree w) a \<subseteq> dom (lookup (w_store w))" by (auto simp: below_def)
  then have "finite (path_of ` below (tree w) a)" using finite_law [OF assms] finite_subset by blast
  moreover have "inj_on path_of (below (tree w) a)" by (auto simp: below_def inj_on_def path_of_inject)
  ultimately show ?thesis by (rule finite_imageD)
qed

lemma below_smaller:
  assumes "idle (w_store w0)" "movable (tree w0) a b" "moving (tree w0) fs' a b C" "c \<notin> C" "ok_elem c"
    "tree w0 (path_of (a @ [c])) \<noteq> None"
  shows "card (below fs' (a @ [c])) < card (below (tree w0) a)"
proof (rule psubset_card_mono)
  show "finite (below (tree w0) a)" using finite_below [OF assms(1)] .
  have oka: "list_all ok_elem (a @ [c])" using movable_D(1) [OF assms(2)] assms(5) by simp
  have "below fs' (a @ [c]) \<subseteq> below (tree w0) a"
  proof
    fix es assume "es \<in> below fs' (a @ [c])"
    then have es: "list_all ok_elem es" "strict_prefix (a @ [c]) es" "fs' (path_of es) \<noteq> None"
      by (auto simp: below_def)
    have pre: "prefix (a @ [c]) es" using es(2) by (simp add: strict_prefix_def)
    have "tree w0 (path_of es) \<noteq> None" using moving_inside [OF assms(2-4) es(1) pre] es(3) by simp
    moreover have "strict_prefix a es"
      using pre by (auto simp: prefix_def strict_prefix_def)
    ultimately show "es \<in> below (tree w0) a" using es(1) by (simp add: below_def)
  qed
  moreover have "a @ [c] \<in> below (tree w0) a" "a @ [c] \<notin> below fs' (a @ [c])"
    using oka assms(6) by (auto simp: below_def strict_prefix_def)
  ultimately show "below fs' (a @ [c]) \<subset> below (tree w0) a" by blast
qed

text \<open>The loop over the children, given that every recursive call moves its subtree.\<close>

lemma rename_children:
  assumes rec: "\<And>c w. card (below (tree w) (a @ [c])) < card (below (tree w0) a) \<Longrightarrow> ok w \<Longrightarrow>
      movable (tree w) (a @ [c]) (b @ [c]) \<Longrightarrow>
      \<exists>w'. kv_Rename ops (path_of (a @ [c])) (path_of (b @ [c])) w = Some (None, w') \<and> ok w'
        \<and> moved (tree w) (tree w') (a @ [c]) (b @ [c])"
    and 0: "idle (w_store w0)" "movable (tree w0) a b"
  shows "ok w \<Longrightarrow> moving (tree w0) (tree w) a b C \<Longrightarrow> distinct cs \<Longrightarrow> set cs \<inter> C = {} \<Longrightarrow>
    \<forall>c \<in> set cs. ok_elem c \<and> tree w0 (path_of (a @ [c])) \<noteq> None \<Longrightarrow>
    \<exists>w'. until_err (\<lambda>name w. kv_Rename ops (Join [path_of a, name]) (Join [path_of b, name]) w) cs w
        = Some (None, w')
      \<and> ok w' \<and> moving (tree w0) (tree w') a b (C \<union> set cs)"
proof (induction cs arbitrary: w C)
  case Nil
  then show ?case by simp
next
  case (Cons c cs)
  have c: "c \<notin> C" "ok_elem c" "tree w0 (path_of (a @ [c])) \<noteq> None" using Cons.prems by auto
  note m = moving_movable [OF 0(2) Cons.prems(2) c]
  obtain w1 where w1: "kv_Rename ops (path_of (a @ [c])) (path_of (b @ [c])) w = Some (None, w1)" "ok w1"
      "moved (tree w) (tree w1) (a @ [c]) (b @ [c])"
    using rec [OF below_smaller [OF 0 Cons.prems(2) c] Cons.prems(1) m] by blast
  have mv: "moving (tree w0) (tree w1) a b (insert c C)"
    using moving_step [OF 0(2) Cons.prems(2) c(1) w1(3) c(2)] .
  obtain w' where "until_err (\<lambda>name w. kv_Rename ops (Join [path_of a, name]) (Join [path_of b, name]) w) cs w1
        = Some (None, w')" "ok w'" "moving (tree w0) (tree w') a b (insert c C \<union> set cs)"
    using Cons.IH [OF w1(2) mv] Cons.prems(3-5) by auto
  moreover have "Join [path_of a, c] = path_of (a @ [c])" "Join [path_of b, c] = path_of (b @ [c])"
    using movable_D(1,2) [OF 0(2)] c(2) by (simp_all add: path_simps)
  ultimately show ?case using w1(1) by simp
qed

lemma ok_put_dir_copy:
  assumes "ok w" "lookup (w_store w) p = Some r" "IsDir (r_Mode ops r)" "idle s"
    and "lookup s = (lookup (w_store w))(q \<mapsto> mk q (blob r) (r_Mode ops r) (r_ModTime ops r))"
  shows "ok (w\<lparr>w_store := s\<rparr>)" "tree (w\<lparr>w_store := s\<rparr>) = (tree w)(q := tree w p)"
proof -
  have rok: "live (w_heap w) (blob r)" "int (length (content (w_heap w) (blob r))) \<le> max_int64"
    using ok_D(4) [OF assms(1,2)] by (simp_all add: rec_ok_def)
  have ap: "apart (w_heap w) (blob r) (blob r')"
    if "lookup (w_store w) x = Some r'" "\<not> (IsDir (r_Mode ops r) \<and> IsDir (r_Mode ops r'))" for x r'
    using ok_D(5) [OF assms(1)] that assms(2,3) unfolding unshared_def apart_def by (metis option.inject)
  show "ok (w\<lparr>w_store := s\<rparr>)"
    by (rule ok_put(1) [OF assms(1,4,5)]) (use rok ap assms(3) in auto)
  have "tree (w\<lparr>w_store := s\<rparr>) = (tree w)(q \<mapsto> \<lparr>n_mode = r_Mode ops r, n_modTime = r_ModTime ops r,
       n_data = (if IsDir (r_Mode ops r) then [] else content (w_heap w) (blob r))\<rparr>)"
    by (rule ok_put(2) [OF assms(1,4,5)]) (use rok ap assms(3) in auto)
  then show "tree (w\<lparr>w_store := s\<rparr>) = (tree w)(q := tree w p)"
    using tree_Some [OF assms(2)] assms(3) by (simp add: node_of_def)
qed

text \<open>The body of \<open>Rename\<close> up to the loop, for a directory and a free destination.\<close>

lemma Rename_dir_unfold:
  assumes "ok w" "ValidPath new" "lookup (w_store w) old = Some r" "IsDir (r_Mode ops r)"
    "lookup (w_store w) new = None"
  shows "\<exists>names w1. distinct names \<and> set names = children (lookup (w_store w)) old
    \<and> ok w1 \<and> tree w1 = (tree w)(new := tree w old)
    \<and> (\<forall>F. rename_body ops F old new w = do {
       (e, w) \<leftarrow> until_err (\<lambda>name w. F (Join [old, name]) (Join [new, name]) w) names w1;
       if e \<noteq> None then Some (e, w) else do { (e, _, w) \<leftarrow> setFile ops old None w; Some (e, w) }
     })"
proof -
  have vo: "ValidPath old" using key_law [OF ok_D(1) [OF assms(1)] assms(3)] by simp
  obtain s1 where s1: "getFile ops old w = Some (get_outcome (lookup (w_store w)) old, w\<lparr>w_store := s1\<rparr>)"
      "idle s1" "lookup s1 = lookup (w_store w)"
    using getFile_spec [OF ok_D(1) [OF assms(1)]] by blast
  obtain s2 where s2: "getFile ops new (w\<lparr>w_store := s1\<rparr>) = Some (get_outcome (lookup (w_store w)) new, w\<lparr>w_store := s2\<rparr>)"
      "idle s2" "lookup s2 = lookup (w_store w)"
    using getFile_spec [of "w\<lparr>w_store := s1\<rparr>" new] s1 by auto
  let ?d = "fileData_of old (Some (StoreRec r)) :: ('r, 's world) fileData"
  let ?d1 = "?d\<lparr>fd_record := (fd_record ?d)\<lparr>ro_mode := Some (r_Mode ops r)\<rparr>\<rparr>"
  have m: "RO_Mode ops (fd_record ?d) = Some (r_Mode ops r, fd_record ?d1)"
    by (simp add: RO_Mode_def FR_Mode_def fileData_of_def runOnce_of_def)
  have rep1: "Rep ?d1 (blob r) (r_Mode ops r) (r_ModTime ops r)"
    by (simp add: rep_def mode_of_def time_of_def fileData_of_def runOnce_of_def FR_defs)
  obtain names d2 where n: "FD_ReadDirNames ops ?d1 (w\<lparr>w_store := s2\<rparr>) = Some (Inr names, d2, w\<lparr>w_store := s2\<rparr>)"
      "distinct names" "set names = children (lookup (w_store w)) old"
      "Rep d2 (blob r) (r_Mode ops r) (r_ModTime ops r)"
    using dir_names [of "w\<lparr>w_store := s2\<rparr>" s2 old r ?d1] s2(2,3) assms(3,4) rep1
    by (auto simp: fileData_of_def runOnce_of_def)
  obtain d3 s3 where s3: "setFile ops new (Some d2) (w\<lparr>w_store := s2\<rparr>) = Some (None, Some d3, w\<lparr>w_store := s3\<rparr>)"
      "idle s3" "lookup s3 = (lookup (w_store w))(new \<mapsto> mk new (blob r) (r_Mode ops r) (r_ModTime ops r))"
    using setFile_put [of "w\<lparr>w_store := s2\<rparr>" new d2 "blob r" "r_Mode ops r" "r_ModTime ops r" "w_heap w"]
      s2(2,3) assms(2) sourced_rep [OF n(4)] by auto
  have "rename_body ops F old new w = do {
       (e, w) \<leftarrow> until_err (\<lambda>name w. F (Join [old, name]) (Join [new, name]) w) names (w\<lparr>w_store := s3\<rparr>);
       if e \<noteq> None then Some (e, w) else do { (e, _, w) \<leftarrow> setFile ops old None w; Some (e, w) }
     }" for F
    using s1(1) s2(1) m n(1) s3(1) assms vo
    by (simp add: rename_body_def get_outcome_simps handle_of_def)
  then show ?thesis
    using n(2,3) ok_put_dir_copy [OF assms(1,3,4) s3(2,3)]
    by (intro exI [of _ names] exI [of _ "w\<lparr>w_store := s3\<rparr>"]) simp
qed


lemma Rename_file_unfold:
  assumes "ok w" "lookup (w_store w) old = Some r" "\<not> IsDir (r_Mode ops r)"
  shows "\<exists>e w'. rename_body ops F old new w = Some (e, w') \<and> ok w'
    \<and> (e, tree w') = spec_Rename_file (tree w) old new"
proof -
  have vo: "ValidPath old" using key_law [OF ok_D(1) [OF assms(1)] assms(2)] by simp
  obtain s1 where s1: "getFile ops old w = Some (get_outcome (lookup (w_store w)) old, w\<lparr>w_store := s1\<rparr>)"
      "idle s1" "lookup s1 = lookup (w_store w)"
    using getFile_spec [OF ok_D(1) [OF assms(1)]] by blast
  note ok1 = ok_store [OF assms(1) s1(2,3)]
  let ?d = "fileData_of old (Some (StoreRec r)) :: ('r, 's world) fileData"
  let ?d1 = "?d\<lparr>fd_record := (fd_record ?d)\<lparr>ro_mode := Some (r_Mode ops r)\<rparr>\<rparr>"
  have m: "RO_Mode ops (fd_record ?d) = Some (r_Mode ops r, fd_record ?d1)"
    by (simp add: RO_Mode_def FR_Mode_def fileData_of_def runOnce_of_def)
  have rep1: "Rep ?d1 (blob r) (r_Mode ops r) (r_ModTime ops r)"
    by (simp add: rep_def mode_of_def time_of_def fileData_of_def runOnce_of_def FR_defs)
  have "rename_body ops F old new w = rename_file ops old new ?d1 (w\<lparr>w_store := s1\<rparr>)"
    using s1(1) m assms vo by (simp add: rename_body_def get_outcome_simps handle_of_def)
  then show ?thesis
    using rename_file_refines [OF ok1(1) _ rep1, of old new] s1(3) assms(2) ok1(2) by simp
qed

lemma Rename_subtree:
  assumes "ok w" "movable (tree w) a b"
  shows "\<exists>w'. kv_Rename ops (path_of a) (path_of b) w = Some (None, w') \<and> ok w'
    \<and> moved (tree w) (tree w') a b"
  using assms
proof (induction "card (below (tree w) a)" arbitrary: w a b rule: less_induct)
  case less
  note mov = movable_D [OF less.prems(2)]
  have vb: "ValidPath (path_of b)" using mov(2) by simp
  have ne: "path_of a \<noteq> path_of b"
    using movable_apart(1) [OF less.prems(2)] path_of_inject [OF mov(1,2)] by auto
  obtain r where r: "lookup (w_store w) (path_of a) = Some r" using mov(3) by auto
  show ?case
  proof (cases "IsDir (r_Mode ops r)")
    case False
    obtain e w' where *: "kv_Rename ops (path_of a) (path_of b) w = Some (e, w')" "ok w'"
        "(e, tree w') = spec_Rename_file (tree w) (path_of a) (path_of b)"
      using Rename_file_unfold [OF less.prems(1) r False, of "kv_Rename ops" "path_of b"] kv_Rename_body by metis
    have nd: "\<not> is_dir (tree w) (path_of a)" using False tree_Some [OF r] by (simp add: is_dir_def)
    have leaf: "tree w (path_of es) = None" if "list_all ok_elem es" "strict_prefix a es" for es
      using movable_child [OF less.prems(2) that] nd by blast
    have start: "moving (tree w) ((tree w)(path_of b := tree w (path_of a))) a b {}"
      using moving_start [OF less.prems(2) refl] .
    have "moved (tree w) ((tree w)(path_of b := tree w (path_of a), path_of a := None)) a b"
    proof (rule moving_end [OF less.prems(2) start])
      fix c assume "ok_elem c" "tree w (path_of (a @ [c])) \<noteq> None"
      then show "c \<in> {}" using leaf [of "a @ [c]"] mov(1) by (simp add: strict_prefix_def)
    qed
    then show ?thesis using * ne vb by (simp add: spec_Rename_file_def)
  next
    case True
    have free: "lookup (w_store w) (path_of b) = None" using mov(4) [OF mov(2)] by simp
    obtain names w1 where n: "distinct names" "set names = children (lookup (w_store w)) (path_of a)"
        "ok w1" "tree w1 = (tree w)(path_of b := tree w (path_of a))"
        "\<forall>F. rename_body ops F (path_of a) (path_of b) w = do {
           (e, w) \<leftarrow> until_err (\<lambda>name w. F (Join [path_of a, name]) (Join [path_of b, name]) w) names w1;
           if e \<noteq> None then Some (e, w) else do { (e, _, w) \<leftarrow> setFile ops (path_of a) None w; Some (e, w) }
         }"
      using Rename_dir_unfold [OF less.prems(1) vb r True free] by (elim exE conjE)
    have cs: "set names = {c. ok_elem c \<and> tree w (path_of (a @ [c])) \<noteq> None}"
      using n(2) children_path_of [OF tree_valid [OF ok_D(1) [OF less.prems(1)]] mov(1)] by simp
    have csD: "\<forall>c \<in> set names. ok_elem c \<and> tree w (path_of (a @ [c])) \<noteq> None" using cs by blast
    have start: "moving (tree w) (tree w1) a b {}" using moving_start [OF less.prems(2) n(4)] .
    obtain w2 where w2: "until_err (\<lambda>name w. kv_Rename ops (Join [path_of a, name]) (Join [path_of b, name]) w) names w1
          = Some (None, w2)" "ok w2" "moving (tree w) (tree w2) a b (set names)"
      using rename_children [OF less.hyps ok_D(1) [OF less.prems(1)] less.prems(2) n(3) start n(1)
          Int_empty_right csD] unfolding Un_empty_left by blast
    obtain s where s: "setFile ops (path_of a) None w2 = Some (None, None, w2\<lparr>w_store := s\<rparr>)"
        "idle s" "lookup s = (lookup (w_store w2))(path_of a := None)"
      using setFile_del [OF ok_D(1) [OF w2(2)] ValidPath_path_of [OF mov(1)]] by blast
    have "kv_Rename ops (path_of a) (path_of b) w = Some (None, w2\<lparr>w_store := s\<rparr>)"
      using kv_Rename_body [of ops "path_of a" "path_of b" w] n(5) [rule_format, of "kv_Rename ops"] w2(1) s(1) by simp
    moreover have "moved (tree w) ((tree w2)(path_of a := None)) a b"
      using moving_end [OF less.prems(2) w2(3)] cs by auto
    ultimately show ?thesis using ok_del [OF w2(2) s(2,3)] by auto
  qed
qed


lemma into_itself_step:
  assumes "idle (w_store w)" "list_all ok_elem a" "ok_elem x" "ok_elem y" "is_dir (tree w) (path_of a)"
    "is_dir (tree w) (path_of (a @ [x]))" "below (tree w) a = {a @ [x]}"
  shows "lookup (w_store w) (path_of (a @ [x, y])) = None"
    "children (lookup (w_store w)) (path_of a) = {x}"
    "into_itself ((tree w)(path_of (a @ [x, y]) := tree w (path_of a)))
       (path_of (a @ [x])) (path_of (a @ [x, y, x]))"
proof -
  have only: "es = a @ [x]" if "list_all ok_elem es" "strict_prefix a es" "tree w (path_of es) \<noteq> None" for es
    using assms(7) that unfolding below_def by blast
  show free: "lookup (w_store w) (path_of (a @ [x, y])) = None"
    using only [of "a @ [x, y]"] assms(2-4) by (cases "lookup (w_store w) (path_of (a @ [x, y]))")
      (auto simp: strict_prefix_def)
  have "children (lookup (w_store w)) (path_of a) = {c. ok_elem c \<and> lookup (w_store w) (path_of (a @ [c])) \<noteq> None}"
    using children_path_of [OF tree_valid [OF assms(1)] assms(2)] by simp
  moreover have "lookup (w_store w) (path_of (a @ [x])) \<noteq> None"
    using assms(6) by (auto simp: is_dir_def tree_of_def split: option.splits)
  moreover have "c = x" if "ok_elem c" "lookup (w_store w) (path_of (a @ [c])) \<noteq> None" for c
    using only [of "a @ [c]"] that assms(2) by (auto simp: strict_prefix_def)
  ultimately show "children (lookup (w_store w)) (path_of a) = {x}" using assms(3) by blast
  let ?fs = "(tree w)(path_of (a @ [x, y]) := tree w (path_of a))"
  have inj: "path_of es = path_of (a @ [x, y]) \<longleftrightarrow> es = a @ [x, y]" if "list_all ok_elem es" for es
    using path_of_inject [OF that, of "a @ [x, y]"] assms(2-4) by simp
  have "below ?fs (a @ [x]) = {a @ [x, y]}"
  proof (intro set_eqI iffI)
    fix es assume "es \<in> below ?fs (a @ [x])"
    then have es: "list_all ok_elem es" "strict_prefix (a @ [x]) es" "?fs (path_of es) \<noteq> None"
      by (auto simp: below_def)
    have "strict_prefix a es" "es \<noteq> a @ [x]"
      using es(2) by (auto simp: strict_prefix_def prefix_def)
    then show "es \<in> {a @ [x, y]}" using only [OF es(1)] es(3) inj [OF es(1)] by (metis fun_upd_other singletonI)
  next
    fix es assume "es \<in> {a @ [x, y]}"
    then show "es \<in> below ?fs (a @ [x])"
      using assms(2-5) by (auto simp: below_def strict_prefix_def is_dir_def split: option.splits)
  qed
  moreover have "is_dir ?fs (path_of (a @ [x]))"
    using assms(2,3,6) inj [of "a @ [x]"] by (simp add: is_dir_def)
  moreover have "is_dir ?fs (path_of (a @ [x, y]))" using assms(5) by (simp add: is_dir_def)
  ultimately show "into_itself ?fs (path_of (a @ [x])) (path_of (a @ [x, y, x]))"
    unfolding into_itself_def using assms(2-4)
    by (intro exI [of _ "a @ [x]"] exI [of _ y] exI [of _ x]) simp
qed

lemma rename_body_into_itself:
  assumes rec: "\<And>old new w. ok w \<Longrightarrow> into_itself (tree w) old new \<Longrightarrow> F old new w = None"
    and "ok w" "into_itself (tree w) old new"
  shows "rename_body ops F old new w = None"
proof -
  obtain a x y where a: "list_all ok_elem a" "ok_elem x" "ok_elem y" "is_dir (tree w) (path_of a)"
      "is_dir (tree w) (path_of (a @ [x]))" "below (tree w) a = {a @ [x]}"
    and on: "old = path_of a" "new = path_of (a @ [x, y])"
    using assms(3) unfolding into_itself_def by blast
  note st = into_itself_step [OF ok_D(1) [OF assms(2)] a]
  obtain r where r: "lookup (w_store w) old = Some r" "IsDir (r_Mode ops r)"
    using a(4) on(1) by (auto simp: is_dir_def tree_of_def split: option.splits)
  have vb: "ValidPath new" using a on by simp
  have free: "lookup (w_store w) new = None" using st(1) on by simp
  obtain names w1 where n: "distinct names" "set names = children (lookup (w_store w)) old"
      "ok w1" "tree w1 = (tree w)(new := tree w old)"
      "\<forall>F. rename_body ops F old new w = do {
         (e, w) \<leftarrow> until_err (\<lambda>name w. F (Join [old, name]) (Join [new, name]) w) names w1;
         if e \<noteq> None then Some (e, w) else do { (e, _, w) \<leftarrow> setFile ops old None w; Some (e, w) }
       }"
    using Rename_dir_unfold [OF assms(2) vb r free] by (elim exE conjE)
  have sx: "set names = {x}" using n(2) st(2) on(1) by simp
  then have "length names = 1" using distinct_card [OF n(1)] by simp
  then obtain z where "names = [z]" by (metis One_nat_def length_0_conv length_Suc_conv)
  with sx have nx: "names = [x]" by simp
  have "Join [old, x] = path_of (a @ [x])" "Join [new, x] = path_of (a @ [x, y, x])"
    using a on Join_elem [OF a(1,2)] Join_elem [of "a @ [x, y]" x] by simp_all
  moreover have "into_itself (tree w1) (path_of (a @ [x])) (path_of (a @ [x, y, x]))"
    using st(3) n(4) on by simp
  ultimately have "F (Join [old, x]) (Join [new, x]) w1 = None" using rec [OF n(3)] by simp
  then show ?thesis using n(5) [rule_format, of F] nx by simp
qed

lemma Rename_into_itself:
  assumes "ok w" "into_itself (tree w) old new"
  shows "kv_Rename ops old new w = None"
proof (rule ccontr)
  assume "kv_Rename ops old new w \<noteq> None"
  then obtain y where "kv_Rename ops old new w = Some y" by blast
  then have some: "kv_Rename ops old new w = Some y" .
  have "ops = ops \<longrightarrow> ok w \<longrightarrow> into_itself (tree w) old new \<longrightarrow> False"
  proof (rule kv_Rename.raw_induct [where P = "\<lambda>ops' old new w y. ops' = ops \<longrightarrow> ok w \<longrightarrow>
        into_itself (tree w) old new \<longrightarrow> False", OF _ some], goal_cases)
    case (1 F ops' old new w y)
    show ?case
    proof (intro impI)
      assume *: "ops' = ops" "ok w" "into_itself (tree w) old new"
      have rec: "F ops' old new w = None" if "ok w" "into_itself (tree w) old new" for old new w
        using 1(1) [of ops' old new w] that *(1) by (cases "F ops' old new w") auto
      have "rename_body ops (F ops') old new w = None"
        by (rule rename_body_into_itself [OF rec *(2,3)])
      moreover have "rename_body ops (F ops') old new w = Some y"
        using 1(2) unfolding *(1) rename_body_def .
      ultimately show False by simp
    qed
  qed
  then show False using assms by simp
qed

end

end
