(* ===== verification/KV_List.thy ===== *)
theory KV_List
  imports KV_Dirs
begin

section \<open>Listing directories: \<open>ReadDir\<close>\<close>

text \<open>
  A handle reads the names of its directory once and keeps them; \<open>ReadDir(n)\<close> walks over them with the
  handle's offset. \<open>read_pages\<close> calls it repeatedly, the way a caller pages through a directory.
\<close>

definition listing :: "('r, 'w) kv_file \<Rightarrow> string \<Rightarrow> string list \<Rightarrow> bool" where
  "listing f p names \<longleftrightarrow>
     (\<exists>d. f_data f = Some d \<and> fd_path d = p \<and> ro_dirNames (fd_record d) = Some (Inr names))"

fun read_pages ::
  "('r, 's world, 't, 'z) store_ops_scheme \<Rightarrow> ('r, 's world) kv_file \<Rightarrow> int \<Rightarrow> nat \<Rightarrow> 's world \<Rightarrow>
   ((err + string list) \<times> ('r, 's world) kv_file \<times> 's world) option" where
  "read_pages ops f n 0 w = Some (Inr [], f, w)"
| "read_pages ops f n (Suc k) w =
     do {
       (r, f, w) \<leftarrow> file_ReadDir ops f n w;
       (case r of
          Inl e \<Rightarrow> Some (Inl e, f, w)
        | Inr es \<Rightarrow> do {
            (r, f, w) \<leftarrow> read_pages ops f n k w;
            Some (case r of Inl e \<Rightarrow> Inl e | Inr ns \<Rightarrow> Inr (map de_baseName es @ ns), f, w)
          })
     }"

text \<open>The data of a file that was just opened for reading.\<close>

definition opened_data :: "('r, 's world, 'z) rec_ops_scheme \<Rightarrow> string \<Rightarrow> 'r \<Rightarrow> ('r, 's world) fileData" where
  "opened_data ops p r =
     (let d = fileData_of p (Some (StoreRec r)) in d\<lparr>fd_record := (fd_record d)\<lparr>ro_mode := Some (r_Mode ops r)\<rparr>\<rparr>)"

lemma opened_data_sel [simp]:
  "fd_path (opened_data ops p r) = p" "ro_record (fd_record (opened_data ops p r)) = Some (StoreRec r)"
  "ro_dirNames (fd_record (opened_data ops p r)) = None" "ro_mode (fd_record (opened_data ops p r)) = Some (r_Mode ops r)"
  by (simp_all add: opened_data_def Let_def fileData_of_def runOnce_of_def)

context kv_store
begin

text \<open>What an info shows depends on the bytes of its file, not on the store.\<close>

lemma info_shows_heap:
  assumes "info_shows ops j w q nd" "w_heap u = w_heap w"
  shows "info_shows ops j u q nd"
proof -
  have FR: "FR_Size ops rec u = FR_Size ops rec w" for rec
    using assms(2) by (simp add: FR_Size_def rec_laws split: FileRecord.split)
  have "info_Size ops j u = info_Size ops j w"
    unfolding info_Size_def FD_Size_def RO_Size_def FR assms(2) by (rule refl)
  then show ?thesis using assms(1) by (simp add: info_shows_def)
qed

lemma newDirEntries_refines:
  "ok w \<Longrightarrow> \<forall>n \<in> set names. tree w (Join [p, n]) \<noteq> None \<Longrightarrow>
   \<exists>es s. newDirEntries ops p names w = Some (Inr es, w\<lparr>w_store := s\<rparr>) \<and> map de_baseName es = names
     \<and> ok (w\<lparr>w_store := s\<rparr>) \<and> tree (w\<lparr>w_store := s\<rparr>) = tree w
     \<and> (\<forall>e \<in> set es. \<exists>nd. tree w (Join [p, de_baseName e]) = Some nd
          \<and> info_shows ops (de_info e) w (Join [p, de_baseName e]) nd)"
proof (induction names arbitrary: w)
  case Nil
  then show ?case by (auto intro!: exI [of _ "w_store w"])
next
  case (Cons n names)
  let ?q = "Join [p, n]"
  obtain r where r: "lookup (w_store w) ?q = Some r" using Cons.prems(2) by auto
  have v: "ValidPath ?q" using key_law [OF ok_D(1) [OF Cons.prems(1)] r] by simp
  obtain s where s: "kv_Stat ops ?q w = Some (stat_outcome (lookup (w_store w)) ?q, w\<lparr>w_store := s\<rparr>)"
      "idle s" "lookup s = lookup (w_store w)"
    using kv_Stat_lookup [OF ok_D(1) [OF Cons.prems(1)]] by blast
  note ok1 = ok_store [OF Cons.prems(1) s(2,3)]
  let ?i = "fileData_info (fileData_of ?q (Some (StoreRec r))) :: ('r, 's world) fileInfo"
  have i: "info_shows ops ?i w ?q (node_of ops blob (w_heap w) r)"
    using info_of_record ok_D(2,4) [OF Cons.prems(1)] r by blast
  obtain es s2 where e: "newDirEntries ops p names (w\<lparr>w_store := s\<rparr>) = Some (Inr es, w\<lparr>w_store := s2\<rparr>)"
      "map de_baseName es = names" "ok (w\<lparr>w_store := s2\<rparr>)" "tree (w\<lparr>w_store := s2\<rparr>) = tree w"
      "\<forall>e \<in> set es. \<exists>nd. tree w (Join [p, de_baseName e]) = Some nd
          \<and> info_shows ops (de_info e) (w\<lparr>w_store := s\<rparr>) (Join [p, de_baseName e]) nd"
    using Cons.IH [OF ok1(1)] Cons.prems(2) ok1(2) by auto
  have mono: "info_shows ops j (w\<lparr>w_store := s\<rparr>) q nd \<Longrightarrow> info_shows ops j w q nd" for j q nd
    by (erule info_shows_heap) simp
  have "newDirEntries ops p (n # names) w = Some (Inr (\<lparr>de_baseName = n, de_info = ?i\<rparr> # es), w\<lparr>w_store := s2\<rparr>)"
    using s(1) e(1) v r by (simp add: stat_outcome_simps)
  then show ?case using e i tree_Some [OF r] mono by fastforce
qed

lemma ReadDir_from:
  assumes "ok w" "f_data f = Some d0" "FD_ReadDirNames ops d0 w = Some (Inr names, d, w)" "fd_path d = p"
    and "\<forall>n \<in> set names. tree w (Join [p, n]) \<noteq> None"
    and off: "f_offset f = int k" "k \<le> length names" and n: "0 < n" "int k + int n \<le> max_int64"
      "int (length names) \<le> max_int64"
  shows "\<exists>es w'. file_ReadDir ops f (int n) w
      = Some (Inr es, f\<lparr>f_data := Some d, f_offset := int (min (k + n) (length names))\<rparr>, w') \<and> ok w' \<and> tree w' = tree w
    \<and> map de_baseName es = slice_of k (min (k + n) (length names)) names
    \<and> (\<forall>e \<in> set es. \<exists>nd. tree w (Join [p, de_baseName e]) = Some nd
          \<and> info_shows ops (de_info e) w (Join [p, de_baseName e]) nd) \<and> w_heap w' = w_heap w"
proof -
  have e64: "int64 (int k + int n) = int k + int n" using n by (intro int64_id) (auto simp: max_int64_def)
  let ?e = "min (k + n) (length names)"
  have win: "dir_window (int k) (int n) (int (length names)) = (int k, int ?e)"
    using n(1) e64 by (auto simp: dir_window_def Let_def)
  have sub: "set (slice_of k ?e names) \<subseteq> set names"
    by (auto simp: slice_of_def dest: in_set_takeD in_set_dropD)
  obtain es s where es: "newDirEntries ops p (slice_of k ?e names) w = Some (Inr es, w\<lparr>w_store := s\<rparr>)"
      "map de_baseName es = slice_of k ?e names" "ok (w\<lparr>w_store := s\<rparr>)" "tree (w\<lparr>w_store := s\<rparr>) = tree w"
      "\<forall>e \<in> set es. \<exists>nd. tree w (Join [p, de_baseName e]) = Some nd
          \<and> info_shows ops (de_info e) w (Join [p, de_baseName e]) nd"
    using newDirEntries_refines [OF assms(1), of "slice_of k ?e names" p] assms(5) sub by blast
  have o64: "int64 (int k + int64 (int ?e - int k)) = int ?e"
  proof -
    have "int64 (int ?e - int k) = int ?e - int k"
      using n off by (intro int64_id) (auto simp: max_int64_def)
    moreover have "int64 (int ?e) = int ?e" using n by (intro int64_id) (auto simp: max_int64_def)
    ultimately show ?thesis by simp
  qed
  have "file_ReadDir ops f (int n) w = Some (Inr es, f\<lparr>f_data := Some d, f_offset := int ?e\<rparr>, w\<lparr>w_store := s\<rparr>)"
    using assms(2-4) off es(1) o64 n by (simp add: file_ReadDir_def with_data_def win)
  then show ?thesis using es by (intro exI [of _ es] exI [of _ "w\<lparr>w_store := s\<rparr>"]) simp
qed

lemma ReadDir_page:
  assumes "ok w" "listing f p names" "\<forall>n \<in> set names. tree w (Join [p, n]) \<noteq> None"
    and off: "f_offset f = int k" "k \<le> length names" and n: "0 < n" "int k + int n \<le> max_int64"
      "int (length names) \<le> max_int64"
  shows "\<exists>es w'. file_ReadDir ops f (int n) w
      = Some (Inr es, f\<lparr>f_offset := int (min (k + n) (length names))\<rparr>, w') \<and> ok w' \<and> tree w' = tree w
    \<and> map de_baseName es = slice_of k (min (k + n) (length names)) names
    \<and> (\<forall>e \<in> set es. \<exists>nd. tree w (Join [p, de_baseName e]) = Some nd
          \<and> info_shows ops (de_info e) w (Join [p, de_baseName e]) nd)"
proof -
  obtain d where d: "f_data f = Some d" "fd_path d = p" "ro_dirNames (fd_record d) = Some (Inr names)"
    using assms(2) by (auto simp: listing_def)
  have "FD_ReadDirNames ops d w = Some (Inr names, d, w)"
    using d(3) by (simp add: FD_ReadDirNames_def RO_ReadDirNames_def)
  moreover have "f\<lparr>f_data := Some d, f_offset := x\<rparr> = f\<lparr>f_offset := x\<rparr>" for x using d(1) by (cases f) simp
  ultimately show ?thesis using ReadDir_from [OF assms(1) d(1) _ d(2) assms(3) off n] by simp blast
qed

text \<open>Paging from the start lists the first \<open>k * n\<close> names, each once and in order.\<close>

lemma read_pages_names:
  assumes "0 < n" "int (length names) + int n \<le> max_int64"
  shows "ok w \<Longrightarrow> listing f p names \<Longrightarrow> \<forall>x \<in> set names. tree w (Join [p, x]) \<noteq> None \<Longrightarrow>
    f_offset f = int j \<Longrightarrow> j \<le> length names \<Longrightarrow>
    \<exists>f' w'. read_pages ops f (int n) k w = Some (Inr (slice_of j (j + k * n) names), f', w')
      \<and> ok w' \<and> tree w' = tree w"
proof (induction k arbitrary: w f j)
  case 0
  then show ?case by (simp add: slice_of_def)
next
  case (Suc k)
  let ?e = "min (j + n) (length names)"
  have lim: "int j + int n \<le> max_int64" "int (length names) \<le> max_int64" using assms Suc.prems(5) by simp_all
  obtain es w1 where 1: "file_ReadDir ops f (int n) w = Some (Inr es, f\<lparr>f_offset := int ?e\<rparr>, w1)" "ok w1"
      "tree w1 = tree w" "map de_baseName es = slice_of j ?e names"
    using ReadDir_page [OF Suc.prems(1-5) assms(1) lim] by blast
  have l: "listing (f\<lparr>f_offset := int ?e\<rparr>) p names" using Suc.prems(2) by (auto simp: listing_def)
  have pr: "\<forall>x \<in> set names. tree w1 (Join [p, x]) \<noteq> None" using Suc.prems(3) 1(3) by simp
  obtain f' w' where 2: "read_pages ops (f\<lparr>f_offset := int ?e\<rparr>) (int n) k w1
        = Some (Inr (slice_of ?e (?e + k * n) names), f', w')" "ok w'" "tree w' = tree w"
    using Suc.IH [OF 1(2) l pr, of ?e] 1(3) by auto
  have "slice_of j ?e names @ slice_of ?e (?e + k * n) names = slice_of j (j + Suc k * n) names"
  proof (cases "j + n \<le> length names")
    case True
    then show ?thesis
      by (simp add: slice_of_def take_add add.commute [of n] add.assoc drop_drop min_def)
        (metis add.commute take_add drop_drop)
  next
    case False
    then show ?thesis using Suc.prems(5) by (simp add: slice_of_def min_def)
  qed
  then show ?case using 1 2 by simp
qed


text \<open>\<open>ReadDir\<close> without a limit lists everything from the start, whatever the offset.\<close>

lemma ReadDir_all:
  assumes "ok w" "f_data f = Some d" "fd_path d = p" "FD_ReadDirNames ops d w = Some (Inr names, d', w)"
    "fd_path d' = p" "\<forall>n \<in> set names. tree w (Join [p, n]) \<noteq> None" "n \<le> 0"
  shows "\<exists>es w'. file_ReadDir ops f n w = Some (Inr es,
        f\<lparr>f_data := Some d', f_offset := int64 (f_offset f + int64 (int (length names)))\<rparr>, w')
    \<and> ok w' \<and> tree w' = tree w \<and> map de_baseName es = names
    \<and> (\<forall>e \<in> set es. \<exists>nd. tree w (Join [p, de_baseName e]) = Some nd
          \<and> info_shows ops (de_info e) w (Join [p, de_baseName e]) nd) \<and> w_heap w' = w_heap w"
proof -
  have win: "dir_window (f_offset f) n (int (length names)) = (0, int (length names))"
    using assms(7) by (simp add: dir_window_def Let_def)
  have sl: "slice_of 0 (length names) names = names" by (simp add: slice_of_def)
  show ?thesis
    using newDirEntries_refines [OF assms(1,6)] assms(2-5) sl
    by (auto simp: file_ReadDir_def with_data_def win)
qed

text \<open>A positive limit with the offset beyond the names is a slice expression out of range.\<close>

lemma ReadDir_beyond:
  assumes "listing f p names" "int (length names) < f_offset f" "0 < n" "f_offset f + n \<le> max_int64"
  shows "file_ReadDir ops f n w = None"
proof -
  obtain d where d: "f_data f = Some d" "ro_dirNames (fd_record d) = Some (Inr names)"
    using assms(1) by (auto simp: listing_def)
  have "int64 (f_offset f + n) = f_offset f + n" using assms(2-4) by (intro int64_id) (auto simp: max_int64_def)
  then have "dir_window (f_offset f) n (int (length names)) = (f_offset f, int (length names))"
    using assms(2,3) by (simp add: dir_window_def Let_def)
  then show ?thesis
    using d assms(2) by (simp add: file_ReadDir_def with_data_def FD_ReadDirNames_def RO_ReadDirNames_def)
qed

text \<open>Opening a directory and listing it.\<close>

lemma Open_exact:
  assumes "ok w" "lookup (w_store w) p = Some r"
  shows "\<exists>s. kv_Open ops p w = Some (Some (readOnlyFile \<lparr>f_data = Some (opened_data ops p r), f_offset = 0, f_flag = 0\<rparr>), None, w\<lparr>w_store := s\<rparr>)
    \<and> idle s \<and> lookup s = lookup (w_store w)"
proof -
  have v: "list_all ValidPath [p]" using key_law [OF ok_D(1) [OF assms(1)] assms(2)] by simp
  obtain s where s: "getFiles ops [p] w = Some
      (map (\<lambda>p. Some \<lparr>f_data = Some (fileData_of p (map_option StoreRec (lookup (w_store w) p))), f_offset = 0, f_flag = 0\<rparr>) [p],
       map (\<lambda>p. if lookup (w_store w) p = None then Some ErrNotExist else None) [p], w\<lparr>w_store := s\<rparr>)"
      "idle s" "lookup s = lookup (w_store w)"
    using getFiles_spec [OF ok_D(1) [OF assms(1)] v] by blast
  have "FD_Mode ops (fileData_of p (Some (StoreRec r))) = Some (r_Mode ops r, opened_data ops p r)"
    by (simp add: FD_Mode_def RO_Mode_def FR_Mode_def fileData_of_def runOnce_of_def opened_data_def)
  then have "kv_Open ops p w = Some (Some (readOnlyFile \<lparr>f_data = Some (opened_data ops p r), f_offset = 0, f_flag = 0\<rparr>), None, w\<lparr>w_store := s\<rparr>)"
    using s(1) assms(2) by (simp add: kv_Open_def kv_OpenFile_def has_flag_def flag_defs)
  then show ?thesis using s(2,3) by blast
qed

lemma Open_entry:
  assumes "ok w" "lookup (w_store w) p = Some r"
  shows "\<exists>s d. kv_Open ops p w = Some (Some (readOnlyFile \<lparr>f_data = Some d, f_offset = 0, f_flag = 0\<rparr>), None, w\<lparr>w_store := s\<rparr>)
    \<and> idle s \<and> lookup s = lookup (w_store w) \<and> fd_path d = p
    \<and> ro_record (fd_record d) = Some (StoreRec r) \<and> ro_dirNames (fd_record d) = None
    \<and> ro_mode (fd_record d) = Some (r_Mode ops r)"
  using Open_exact [OF assms] opened_data_sel [of ops p r] by blast

text \<open>A file that was just opened: what its \<open>Stat\<close> shows, and what it lists.\<close>

lemma opened_shows:
  assumes "ok w" "lookup (w_store w) p = Some r"
  shows "\<exists>i. file_Stat \<lparr>f_data = Some (opened_data ops p r), f_offset = 0, f_flag = 0\<rparr> = Some i
    \<and> info_shows ops i w p (node_of ops blob (w_heap w) r)"
  using ok_D(2,4) [OF assms(1)] assms(2)
  by (auto simp: file_Stat_def with_data_def info_shows_def info_Name_def info_Mode_def info_ModTime_def info_Sys_def
      info_Size_def opened_data_def fileData_of_def runOnce_of_def RO_Size_def RO_Mode_def RO_ModTime_def FR_defs rec_laws node_of_def rec_ok_def
      Bytes_Len_content)

lemma opened_lists:
  assumes "ok w" "lookup (w_store w) p = Some r" "IsDir (r_Mode ops r)"
  shows "\<exists>names d'. FD_ReadDirNames ops (opened_data ops p r) w = Some (Inr names, d', w) \<and> distinct names
    \<and> set names = children (tree w) p \<and> fd_path d' = p \<and> ro_dirNames (fd_record d') = Some (Inr names)"
proof -
  obtain names d' where "FD_ReadDirNames ops (opened_data ops p r) w = Some (Inr names, d', w)" "distinct names"
      "set names = children (lookup (w_store w)) p" "fd_path d' = p"
    using dir_names [OF ok_D(1) [OF assms(1)] ok_D(1) [OF assms(1)] assms(2,3), of "opened_data ops p r"] by auto
  moreover have "ro_dirNames (fd_record d') = Some (Inr names)"
    using calculation(1) by (auto simp: FD_ReadDirNames_def RO_ReadDirNames_def bind_Some_iff split: option.splits prod.splits)
  ultimately show ?thesis by auto
qed

lemma Open_Stat:
  assumes "ok w" "tree w p = Some nd"
  shows "\<exists>h i w'. kv_Open ops p w = Some (Some h, None, w') \<and> ok w' \<and> tree w' = tree w
    \<and> h_Stat h = Some i \<and> info_Mode ops i = Some (n_mode nd)"
proof -
  obtain r where r: "lookup (w_store w) p = Some r" using assms(2) by (metis tree_None_iff option.exhaust option.distinct(1))
  then have nd: "n_mode nd = r_Mode ops r" using assms(2) tree_Some [OF r] by auto
  from Open_entry [OF assms(1) r] obtain s d where
    "kv_Open ops p w = Some (Some (readOnlyFile \<lparr>f_data = Some d, f_offset = 0, f_flag = 0\<rparr>), None, w\<lparr>w_store := s\<rparr>)"
    "idle s" "lookup s = lookup (w_store w)" "ro_mode (fd_record d) = Some (r_Mode ops r)" by blast
  then show ?thesis using ok_store [OF assms(1)] nd
    by (auto simp: h_Stat_def file_Stat_def with_data_def info_Mode_def RO_Mode_def)
qed

lemma child_path:
  assumes "idle (w_store w)" "c \<in> children (lookup (w_store w)) p"
  shows "lookup (w_store w) (Join [p, c]) \<noteq> None"
proof -
  obtain q where q: "c = Base q" "q \<in> dom (lookup (w_store w))" "q \<noteq> dot" "Dir q = p"
    using assms(2) by (auto simp: children_def)
  have "ValidPath q" using key_law [OF assms(1)] q(2) by auto
  then have "Join [p, c] = q" using Join_Dir_Base q by blast
  then show ?thesis using q(2) by auto
qed

lemma Open_ReadDir_heap:
  assumes "ok w" "is_dir (tree w) p" "n \<le> 0"
  shows "\<exists>h w1 es h' w2. kv_Open ops p w = Some (Some h, None, w1)
    \<and> h_ReadDir ops h n w1 = Some (Inr es, h', w2) \<and> ok w2 \<and> tree w2 = tree w
    \<and> distinct (map de_baseName es) \<and> set (map de_baseName es) = children (tree w) p
    \<and> (\<forall>e \<in> set es. \<exists>nd. tree w (Join [p, de_baseName e]) = Some nd
          \<and> info_shows ops (de_info e) w1 (Join [p, de_baseName e]) nd) \<and> w_heap w2 = w_heap w1 \<and> w_heap w1 = w_heap w"
proof -
  obtain r where r: "lookup (w_store w) p = Some r" "IsDir (r_Mode ops r)"
    using assms(2) by (auto simp: is_dir_def tree_of_def split: option.splits)
  obtain s d where o: "kv_Open ops p w = Some (Some (readOnlyFile \<lparr>f_data = Some d, f_offset = 0, f_flag = 0\<rparr>), None, w\<lparr>w_store := s\<rparr>)"
      "idle s" "lookup s = lookup (w_store w)" "fd_path d = p"
      "ro_record (fd_record d) = Some (StoreRec r)" "ro_dirNames (fd_record d) = None"
    using Open_entry [OF assms(1) r(1)] by blast
  let ?w = "w\<lparr>w_store := s\<rparr>" and ?f = "\<lparr>f_data = Some d, f_offset = 0, f_flag = 0\<rparr>"
  note ok1 = ok_store [OF assms(1) o(2,3)]
  have pre: "idle (w_store ?w)" "lookup s p = Some r" using o(2,3) r by simp_all
  obtain names d' where n: "FD_ReadDirNames ops d ?w = Some (Inr names, d', ?w)" "distinct names"
      "set names = children (lookup (w_store w)) p" "fd_path d' = p"
    using dir_names [OF pre(1) o(2) pre(2) r(2) o(5,6)] o(3,4) by auto
  have "\<forall>n \<in> set names. tree ?w (Join [p, n]) \<noteq> None"
    using child_path [OF ok_D(1) [OF assms(1)]] n(3) o(3) by auto
  then obtain es w' where es: "file_ReadDir ops ?f n ?w = Some (Inr es,
        ?f\<lparr>f_data := Some d', f_offset := int64 (f_offset ?f + int64 (int (length names)))\<rparr>, w')"
      "ok w'" "tree w' = tree ?w" "map de_baseName es = names"
      "\<forall>e \<in> set es. \<exists>nd. tree ?w (Join [p, de_baseName e]) = Some nd
          \<and> info_shows ops (de_info e) ?w (Join [p, de_baseName e]) nd" "w_heap w' = w_heap ?w"
    using ReadDir_all [OF ok1(1), of ?f d p names d' n] assms(3) o(4) n(1,4) by auto
  have "h_ReadDir ops (readOnlyFile ?f) n ?w = Some (Inr es,
      readOnlyFile (?f\<lparr>f_data := Some d', f_offset := int64 (f_offset ?f + int64 (int (length names)))\<rparr>), w')"
    using es(1) by (simp add: h_ReadDir_def)
  then show ?thesis using o(1) es n(2,3) ok1(2) by auto
qed

lemma Open_ReadDir:
  assumes "ok w" "is_dir (tree w) p" "n \<le> 0"
  shows "\<exists>h w1 es h' w2. kv_Open ops p w = Some (Some h, None, w1)
    \<and> h_ReadDir ops h n w1 = Some (Inr es, h', w2) \<and> ok w2 \<and> tree w2 = tree w
    \<and> distinct (map de_baseName es) \<and> set (map de_baseName es) = children (tree w) p
    \<and> (\<forall>e \<in> set es. \<exists>nd. tree w (Join [p, de_baseName e]) = Some nd
          \<and> info_shows ops (de_info e) w1 (Join [p, de_baseName e]) nd)"
  using Open_ReadDir_heap [OF assms] by blast

end

end
