(* ===== verification/Mem.thy ===== *)
theory Mem
  imports KV_Rename KV_List "HOL-Library.Multiset"
begin

section \<open>Package \<open>mem\<close>: the in-memory store and file system\<close>

text \<open>
  The store is a map from paths to records behind a mutex. A transaction locks the mutex when it is
  created and unlocks it when it is committed or aborted; its actions run at once. Locking a locked
  mutex blocks for ever, since nothing else runs in the model, and unlocking an unlocked one is a fatal
  error: both are \<^const>\<open>None\<close>. The order in which \<open>sync.Map.Range\<close> visits the keys is not
  specified: it is the component \<open>ms_order\<close>, a permutation about which nothing else is known.

  The store offers \<open>Get\<close> and \<open>Set\<close> without a transaction too. Both ways of using it satisfy the
  contract \<open>kv_store\<close>: the transactions of the store itself (\<open>mem_ops\<close>), and the serial transactions
  that \<open>TransactionOrSerial\<close> builds over the plain methods (\<open>serial_ops mem_plain\<close>).
\<close>

subsection \<open>\<open>store.go\<close>\<close>

record fileRecord =
  fr_path :: string
  fr_data :: bref
  fr_mode :: file_mode
  fr_modTime :: time

record mstore =
  ms_locked :: bool
  ms_records :: "(string \<times> fileRecord) list"
  ms_order :: "string list \<Rightarrow> string list"

definition newStore :: "(string list \<Rightarrow> string list) \<Rightarrow> mstore" where
  "newStore order = \<lparr>ms_locked = False, ms_records = [], ms_order = order\<rparr>"

definition fileRecord_Data ::
  "fileRecord \<Rightarrow> mstore world \<Rightarrow> ((err + bref) \<times> mstore world) option" where
  "fileRecord_Data f w = Some (Inr (fr_data f), w)"

definition fileRecord_Size :: "fileRecord \<Rightarrow> mstore world \<Rightarrow> int" where
  "fileRecord_Size f w = Bytes_Len (w_heap w) (fr_data f)"

definition dir_name :: "string \<Rightarrow> bool \<Rightarrow> string \<Rightarrow> string option" where
  "dir_name pre isRoot p =
     (if HasPrefix p pre then
        (let p = TrimPrefix p pre in
         if slash \<notin> set p \<and> \<not> (isRoot \<and> p = dot) then Some p else None)
      else None)"

definition fileRecord_ReadDirNames ::
  "fileRecord \<Rightarrow> mstore world \<Rightarrow> ((err + string list) \<times> mstore world) option" where
  "fileRecord_ReadDirNames f w =
     (if \<not> IsDir (fr_mode f) then Some (Inl ErrNotDir, w)
      else
        (let isRoot = (fr_path f = dot);
             pre = (if isRoot then [] else fr_path f @ [slash]);
             names = List.map_filter (dir_name pre isRoot)
                       (ms_order (w_store w) (map fst (ms_records (w_store w))))
         in Some (Inr names, w)))"

definition mem_rec_ops :: "(fileRecord, mstore world) rec_ops" where
  "mem_rec_ops = \<lparr>r_Data = fileRecord_Data, r_ReadDirNames = fileRecord_ReadDirNames,
     r_Size = fileRecord_Size, r_Mode = fr_mode, r_ModTime = fr_modTime\<rparr>"

type_synonym mworld = "mstore world"
type_synonym mfile = "(fileRecord, mworld) kv_file"
type_synonym mfileData = "(fileRecord, mworld) fileData"

definition store_Get :: "string \<Rightarrow> mworld \<Rightarrow> ((err + (fileRecord, mworld) FileRecord) \<times> mworld) option" where
  "store_Get path w =
     Some (case map_of (ms_records (w_store w)) path of
             None \<Rightarrow> Inl ErrNotExist
           | Some r \<Rightarrow> Inr (StoreRec r), w)"

definition store_set ::
  "string \<Rightarrow> mfileData option \<Rightarrow> mworld \<Rightarrow> (err option \<times> mfileData option \<times> mworld) option" where
  "store_set path src w =
     (case src of
        None \<Rightarrow>
          Some (None, None, w\<lparr>w_store := (w_store w)\<lparr>ms_records :=
                  AList.delete path (ms_records (w_store w))\<rparr>\<rparr>)
      | Some src \<Rightarrow> do {
          (d, src, w) \<leftarrow> FD_Data mem_rec_ops src w;
          (case d of
             Inl e \<Rightarrow> Some (Some e, Some src, w)
           | Inr data \<Rightarrow> do {
               (m, src) \<leftarrow> FD_Mode mem_rec_ops src;
               (t, src) \<leftarrow> FD_ModTime mem_rec_ops src;
               let record = \<lparr>fr_path = path, fr_data = data, fr_mode = m, fr_modTime = t\<rparr>;
               Some (None, Some src, w\<lparr>w_store := (w_store w)\<lparr>ms_records :=
                  AList.update path record (ms_records (w_store w))\<rparr>\<rparr>)
             })
        })"

definition store_Set ::
  "string \<Rightarrow> mfileData option \<Rightarrow> mworld \<Rightarrow> (err option \<times> mfileData option \<times> mworld) option" where
  "store_Set path src w =
     (case src of
        None \<Rightarrow> store_set path None w
      | Some src \<Rightarrow> do {
          (d, src, w) \<leftarrow> FD_Data mem_rec_ops src w;
          (case d of
             Inl e \<Rightarrow> Some (Some e, Some src, w)
           | Inr _ \<Rightarrow> store_set path (Some src) w)
        })"


subsection \<open>Transactions\<close>

record transaction =
  tx_done :: bool
  tx_op :: int
  tx_results :: "(fileRecord, mworld) OpResult list"

type_synonym mem_handler =
  "transaction \<Rightarrow> (fileRecord, mworld) OpResult \<Rightarrow> mworld \<Rightarrow> (err option \<times> transaction \<times> mworld) option"

definition store_Transaction :: "TransactionMode \<Rightarrow> mworld \<Rightarrow> (transaction \<times> err option \<times> mworld) option" where
  "store_Transaction md w =
     (if ms_locked (w_store w) then None
      else Some (\<lparr>tx_done = False, tx_op = 0, tx_results = []\<rparr>, None,
                 w\<lparr>w_store := (w_store w)\<lparr>ms_locked := True\<rparr>\<rparr>))"

definition prepOp :: "transaction \<Rightarrow> (err + int) \<times> transaction" where
  "prepOp t = (if tx_done t then (Inl Canceled, t) else (Inr (tx_op t), t\<lparr>tx_op := tx_op t + 1\<rparr>))"

definition add_result :: "(fileRecord, mworld) OpResult \<Rightarrow> transaction \<Rightarrow> transaction" where
  "add_result r t = t\<lparr>tx_results := tx_results t @ [r]\<rparr>"

definition transaction_GetHandler ::
  "string \<Rightarrow> mem_handler \<Rightarrow> transaction \<Rightarrow> mworld \<Rightarrow> (int \<times> transaction \<times> mworld) option" where
  "transaction_GetHandler path handler t w =
     (case prepOp t of
        (Inl e, t) \<Rightarrow> Some (0, add_result \<lparr>or_Op = 0, or_Record = None, or_Err = Some e\<rparr> t, w)
      | (Inr op, t) \<Rightarrow> do {
          (r, w) \<leftarrow> store_Get path w;
          let result = (case r of
                Inl e \<Rightarrow> \<lparr>or_Op = op, or_Record = None, or_Err = Some e\<rparr>
              | Inr record \<Rightarrow> \<lparr>or_Op = op, or_Record = Some record, or_Err = None\<rparr>);
          (e, t, w) \<leftarrow> handler t result w;
          Some (op, add_result (result\<lparr>or_Err := merge_err (or_Err result) e\<rparr>) t, w)
        })"

definition transaction_Get :: "string \<Rightarrow> transaction \<Rightarrow> mworld \<Rightarrow> (int \<times> transaction \<times> mworld) option" where
  "transaction_Get path t w = transaction_GetHandler path (\<lambda>t _ w. Some (None, t, w)) t w"

definition transaction_SetHandler ::
  "string \<Rightarrow> mfileData option \<Rightarrow> bref option \<Rightarrow> mem_handler \<Rightarrow> transaction \<Rightarrow> mworld \<Rightarrow>
   (int \<times> transaction \<times> mfileData option \<times> mworld) option" where
  "transaction_SetHandler path src contents handler t w =
     (case prepOp t of
        (Inl e, t) \<Rightarrow> Some (0, add_result \<lparr>or_Op = 0, or_Record = None, or_Err = Some e\<rparr> t, src, w)
      | (Inr op, t) \<Rightarrow> do {
          (e, src, w) \<leftarrow> store_set path src w;
          let result = \<lparr>or_Op = op, or_Record = None, or_Err = e\<rparr>;
          (e, t, w) \<leftarrow> handler t result w;
          Some (op, add_result (result\<lparr>or_Err := merge_err (or_Err result) e\<rparr>) t, src, w)
        })"

definition transaction_Set ::
  "string \<Rightarrow> mfileData option \<Rightarrow> bref option \<Rightarrow> transaction \<Rightarrow> mworld \<Rightarrow>
   (int \<times> transaction \<times> mfileData option \<times> mworld) option" where
  "transaction_Set path src contents t w =
     transaction_SetHandler path src contents (\<lambda>t _ w. Some (None, t, w)) t w"

definition store_unlock :: "mworld \<Rightarrow> mworld option" where
  "store_unlock w =
     (if ms_locked (w_store w) then Some (w\<lparr>w_store := (w_store w)\<lparr>ms_locked := False\<rparr>\<rparr>) else None)"

definition transaction_abort :: "transaction \<Rightarrow> transaction" where
  "transaction_abort t = t\<lparr>tx_done := True\<rparr>"

definition transaction_Commit ::
  "transaction \<Rightarrow> mworld \<Rightarrow>
   ((fileRecord, mworld) OpResult list \<times> err option \<times> transaction \<times> mworld) option" where
  "transaction_Commit t w =
     do { w \<leftarrow> store_unlock w; Some (tx_results t, None, transaction_abort t, w) }"

definition transaction_Abort :: "transaction \<Rightarrow> mworld \<Rightarrow> (err option \<times> transaction \<times> mworld) option" where
  "transaction_Abort t w = do { w \<leftarrow> store_unlock w; Some (None, transaction_abort t, w) }"

definition mem_ops :: "(fileRecord, mworld, transaction) store_ops" where
  "mem_ops =
     \<lparr>r_Data = fileRecord_Data, r_ReadDirNames = fileRecord_ReadDirNames,
      r_Size = fileRecord_Size, r_Mode = fr_mode, r_ModTime = fr_modTime,
      so_Transaction = store_Transaction, so_Get = transaction_Get, so_Set = transaction_Set,
      so_Commit = (\<lambda>t w. do { (rs, e, _, w) \<leftarrow> transaction_Commit t w; Some (rs, e, w) }),
      so_Abort = (\<lambda>t w. do { (e, _, w) \<leftarrow> transaction_Abort t w; Some (e, w) })\<rparr>"

text \<open>The store used through its plain methods.\<close>

definition mem_plain :: "(fileRecord, mworld) plain_store" where
  "mem_plain =
     \<lparr>r_Data = fileRecord_Data, r_ReadDirNames = fileRecord_ReadDirNames,
      r_Size = fileRecord_Size, r_Mode = fr_mode, r_ModTime = fr_modTime,
      ps_Get = store_Get, ps_Set = store_Set\<rparr>"


subsection \<open>\<open>fs.go\<close>\<close>

definition mem_NewFS where "mem_NewFS = kv_NewFS mem_ops"
definition mem_Open where "mem_Open = kv_Open mem_ops"
definition mem_OpenFile where "mem_OpenFile = kv_OpenFile mem_ops"
definition mem_Mkdir where "mem_Mkdir = kv_Mkdir mem_ops"
definition mem_MkdirAll where "mem_MkdirAll = kv_MkdirAll mem_ops"
definition mem_Remove where "mem_Remove = kv_Remove mem_ops"
definition mem_Rename where "mem_Rename = kv_Rename mem_ops"
definition mem_Stat where "mem_Stat = kv_Stat mem_ops"
definition mem_Chmod where "mem_Chmod = kv_Chmod mem_ops"
definition mem_Chtimes where "mem_Chtimes = kv_Chtimes mem_ops"


subsection \<open>The invariant of the store\<close>

definition store_ok :: "mstore \<Rightarrow> bool" where
  "store_ok s \<longleftrightarrow>
     distinct (map fst (ms_records s)) \<and>
     (\<forall>(p, r) \<in> set (ms_records s). ValidPath p \<and> fr_path r = p) \<and>
     (\<forall>ks. mset (ms_order s ks) = mset ks)"

definition mem_idle :: "mstore \<Rightarrow> bool" where
  "mem_idle s \<longleftrightarrow> store_ok s \<and> \<not> ms_locked s"

definition mem_busy :: "transaction \<Rightarrow> (fileRecord, mworld) OpResult list \<Rightarrow> mstore \<Rightarrow> bool" where
  "mem_busy t rs s \<longleftrightarrow> store_ok s \<and> ms_locked s \<and> \<not> tx_done t \<and> tx_op t = int (length rs)
     \<and> tx_results t = rs"

definition mem_lookup :: "mstore \<Rightarrow> string \<Rightarrow> fileRecord option" where
  "mem_lookup s = map_of (ms_records s)"

definition mem_mk :: "string \<Rightarrow> bref \<Rightarrow> file_mode \<Rightarrow> time \<Rightarrow> fileRecord" where
  "mem_mk p b m t = \<lparr>fr_path = p, fr_data = b, fr_mode = m, fr_modTime = t\<rparr>"

lemma store_ok_update:
  assumes "store_ok s" "ValidPath p" "fr_path r = p"
  shows "store_ok (s\<lparr>ms_records := AList.update p r (ms_records s)\<rparr>)"
proof -
  have "set (AList.update p r xs) \<subseteq> insert (p, r) (set xs)" for xs
    by (induction xs) auto
  then have "x \<in> set (AList.update p r (ms_records s)) \<Longrightarrow> x = (p, r) \<or> x \<in> set (ms_records s)" for x
    by blast
  then show ?thesis using assms by (fastforce simp: store_ok_def distinct_keys_update)
qed

lemma store_ok_delete:
  assumes "store_ok s"
  shows "store_ok (s\<lparr>ms_records := AList.delete p (ms_records s)\<rparr>)"
  using assms distinct_keys_delete [of "ms_records s" p]
  by (auto simp: store_ok_def AList.delete_eq)

lemma store_ok_lock [simp]: "store_ok (s\<lparr>ms_locked := x\<rparr>) = store_ok s"
  by (simp add: store_ok_def)

lemma mem_lookup_lock [simp]: "mem_lookup (s\<lparr>ms_locked := x\<rparr>) = mem_lookup s"
  by (simp add: mem_lookup_def)

text \<open>Tables with the record methods of the store.\<close>

definition mem_records :: "(fileRecord, mworld, 'z) rec_ops_scheme \<Rightarrow> bool" where
  "mem_records ops \<longleftrightarrow> r_Data ops = fileRecord_Data \<and> r_ReadDirNames ops = fileRecord_ReadDirNames
     \<and> r_Size ops = fileRecord_Size \<and> r_Mode ops = fr_mode \<and> r_ModTime ops = fr_modTime"

lemma mem_records_FD:
  assumes "mem_records ops"
  shows "FD_Data ops = FD_Data mem_rec_ops" "FD_Mode ops = FD_Mode mem_rec_ops"
    "FD_ModTime ops = FD_ModTime mem_rec_ops" "rep ops = rep mem_rec_ops"
proof -
  have FR: "FR_Data ops = FR_Data mem_rec_ops" "FR_Mode ops = FR_Mode mem_rec_ops"
      "FR_ModTime ops = FR_ModTime mem_rec_ops"
    using assms by (auto simp: mem_records_def mem_rec_ops_def FR_defs fun_eq_iff split: FileRecord.split)
  show "FD_Data ops = FD_Data mem_rec_ops" "FD_Mode ops = FD_Mode mem_rec_ops"
    "FD_ModTime ops = FD_ModTime mem_rec_ops" "rep ops = rep mem_rec_ops"
    unfolding FD_Data_def RO_Data_def FD_Mode_def RO_Mode_def FD_ModTime_def RO_ModTime_def
      rep_def mode_of_def time_of_def FR
    by (rule refl)+
qed

lemma store_set_put:
  assumes "FD_Data mem_rec_ops f w = Some (Inr b, f1, w1)" "w_store w1 = w_store w"
    "rep mem_rec_ops fr_data f1 b m t" "ro_data (fd_record f1) = Some (Inr b)"
  shows "\<exists>f'. store_set p (Some f) w = Some (None, Some f', w1\<lparr>w_store := (w_store w)\<lparr>ms_records :=
        AList.update p (mem_mk p b m t) (ms_records (w_store w))\<rparr>\<rparr>)
      \<and> rep mem_rec_ops fr_data f' b m t \<and> ro_data (fd_record f') = Some (Inr b) \<and> fd_path f' = fd_path f1"
proof -
  obtain f2 where f2: "FD_Mode mem_rec_ops f1 = Some (m, f2)" "rep mem_rec_ops fr_data f2 b m t"
      "fd_path f2 = fd_path f1" "ro_data (fd_record f2) = Some (Inr b)"
    using rep_Mode [OF assms(3)] assms(4) by auto
  obtain f3 where "FD_ModTime mem_rec_ops f2 = Some (t, f3)" "rep mem_rec_ops fr_data f3 b m t"
      "fd_path f3 = fd_path f1" "ro_data (fd_record f3) = Some (Inr b)"
    using rep_ModTime [OF f2(2)] f2 by auto
  then show ?thesis using assms f2 by (simp add: store_set_def mem_mk_def)
qed

lemma store_Set_put:
  assumes "FD_Data mem_rec_ops f w = Some (Inr b, f1, w1)" "w_store w1 = w_store w"
    "rep mem_rec_ops fr_data f1 b m t" "ro_data (fd_record f1) = Some (Inr b)"
  shows "\<exists>f'. store_Set p (Some f) w = Some (None, Some f', w1\<lparr>w_store := (w_store w)\<lparr>ms_records :=
        AList.update p (mem_mk p b m t) (ms_records (w_store w))\<rparr>\<rparr>)
      \<and> rep mem_rec_ops fr_data f' b m t \<and> ro_data (fd_record f') = Some (Inr b) \<and> fd_path f' = fd_path f1"
proof -
  have "FD_Data mem_rec_ops f1 w1 = Some (Inr b, f1, w1)"
    using assms(4) by (simp add: FD_Data_def RO_Data_def)
  from store_set_put [OF this refl assms(3,4), of p] show ?thesis
    using assms(1,2) by (simp add: store_Set_def)
qed


subsection \<open>Directory listings\<close>

lemma last_slash_unique:
  assumes "a @ slash # e = b @ slash # r" "slash \<notin> set e" "slash \<notin> set r"
  shows "a = b" "e = r"
proof -
  have "(a @ [slash], e) = (b @ [slash], r)"
    using path_Split_word [OF assms(2), of a] path_Split_word [OF assms(3), of b] assms(1) by metis
  then show "a = b" "e = r" by simp_all
qed

text \<open>A key is listed in a directory exactly when its parent is that directory.\<close>

lemma dir_name_iff:
  assumes "ValidPath d" "ValidPath q"
  shows "dir_name (if d = dot then [] else d @ [slash]) (d = dot) q
     = (if q \<noteq> dot \<and> Dir q = d then Some (Base q) else None)"
  using assms(2)
proof (cases rule: ValidPath_cases)
  case root
  then show ?thesis
    by (cases "d = dot") (auto simp: dir_name_def HasPrefix_def Let_def TrimPrefix_def)
next
  case (child es e)
  have D: "Dir q = path_of es" "Base q = e" using child by (simp_all add: path_simps)
  have e: "slash \<notin> set e" using child by simp
  show ?thesis
  proof (cases "d = dot")
    case True
    have "slash \<in> set q \<longleftrightarrow> es \<noteq> []" using child e by (cases "es = []") (auto simp: path_of_snoc)
    moreover have "path_of es = dot \<longleftrightarrow> es = []" using child path_of_eq_dot by simp
    moreover have "es = [] \<Longrightarrow> q = e" using child by simp
    ultimately show ?thesis
      using True child D by (auto simp: dir_name_def HasPrefix_def TrimPrefix_def Let_def)
  next
    case False
    have fwd: "Dir q = d \<and> r = e" if "q = d @ slash # r" "slash \<notin> set r" for r
    proof -
      have "es \<noteq> []" using that child e by (metis in_set_conv_decomp path_of_single append_Nil)
      then have "path_of es @ slash # e = d @ slash # r" using that child by (simp add: path_of_snoc)
      then show ?thesis using last_slash_unique [OF _ e that(2), of "path_of es" d] D by simp
    qed
    have bwd: "q = d @ slash # e" if "Dir q = d"
      using that False D child path_of_snoc [of es e] by (cases "es = []") auto
    have H: "HasPrefix q (d @ [slash]) \<longleftrightarrow> (\<exists>r. q = d @ slash # r)"
      by (auto simp: HasPrefix_iff prefix_def)
    show ?thesis
    proof (cases "Dir q = d")
      case True
      then show ?thesis using bwd [OF True] False D e child
        by (simp add: dir_name_def TrimPrefix_def HasPrefix_def)
    next
      case neq: False
      have "slash \<in> set (TrimPrefix q (d @ [slash]))" if pre: "HasPrefix q (d @ [slash])"
      proof -
        obtain r where r: "q = d @ slash # r" using pre H by blast
        then have "TrimPrefix q (d @ [slash]) = r" using pre by (simp add: TrimPrefix_def)
        then show ?thesis using fwd [OF r] neq by auto
      qed
      then show ?thesis using neq False by (simp add: dir_name_def Let_def)
    qed
  qed
qed

lemma ReadDirNames_children:
  assumes "store_ok (w_store w)" "ValidPath (fr_path r)" "IsDir (fr_mode r)"
  shows "\<exists>names. fileRecord_ReadDirNames r w = Some (Inr names, w) \<and> distinct names
    \<and> set names = children (mem_lookup (w_store w)) (fr_path r)"
proof -
  let ?d = "fr_path r"
  define keys where "keys = ms_order (w_store w) (map fst (ms_records (w_store w)))"
  define names where "names =
    List.map_filter (dir_name (if ?d = dot then [] else ?d @ [slash]) (?d = dot)) keys"
  have m: "mset keys = mset (map fst (ms_records (w_store w)))"
    using assms(1) by (simp add: store_ok_def keys_def)
  have setk: "set keys = dom (mem_lookup (w_store w))"
    using mset_eq_setD [OF m] by (simp add: mem_lookup_def dom_map_of_conv_image_fst)
  have dist: "distinct keys" using mset_eq_imp_distinct_iff [OF m] assms(1) by (simp add: store_ok_def)
  have valid: "ValidPath q" if "q \<in> set keys" for q
    using that mset_eq_setD [OF m] assms(1) by (auto simp: store_ok_def)
  have eq: "names = map Base (filter (\<lambda>q. q \<noteq> dot \<and> Dir q = ?d) keys)"
  proof -
    have "names = List.map_filter (\<lambda>q. if q \<noteq> dot \<and> Dir q = ?d then Some (Base q) else None) keys"
      unfolding names_def List.map_filter_def
      using dir_name_iff [OF assms(2) valid] by (auto intro!: map_cong filter_cong split: if_splits)
    then show ?thesis by (auto simp: List.map_filter_def intro!: map_cong filter_cong split: if_splits)
  qed
  have "inj_on Base (set (filter (\<lambda>q. q \<noteq> dot \<and> Dir q = ?d) keys))"
    using valid Join_Dir_Base by (auto simp: inj_on_def) metis
  then have "distinct names" unfolding eq using dist by (simp add: distinct_map)
  moreover have "set names = children (mem_lookup (w_store w)) ?d"
    unfolding eq children_def using setk by auto
  ultimately show ?thesis
    using assms(3) by (auto simp: fileRecord_ReadDirNames_def Let_def names_def keys_def)
qed



subsection \<open>The transactions of the store satisfy the contract\<close>

lemma mem_records_mem_ops: "mem_records mem_ops"
  by (simp add: mem_records_def mem_ops_def)

lemma mem_ops_sel [simp]:
  "r_Data mem_ops = fileRecord_Data" "r_ReadDirNames mem_ops = fileRecord_ReadDirNames"
  "r_Size mem_ops = fileRecord_Size" "r_Mode mem_ops = fr_mode" "r_ModTime mem_ops = fr_modTime"
  "so_Transaction mem_ops = store_Transaction" "so_Get mem_ops = transaction_Get"
  "so_Set mem_ops = transaction_Set"
  "so_Commit mem_ops = (\<lambda>t w. do { (rs, e, _, w) \<leftarrow> transaction_Commit t w; Some (rs, e, w) })"
  "so_Abort mem_ops = (\<lambda>t w. do { (e, _, w) \<leftarrow> transaction_Abort t w; Some (e, w) })"
  by (simp_all add: mem_ops_def)

lemma mem_lookup_valid:
  assumes "store_ok s" "mem_lookup s p = Some r"
  shows "ValidPath p" "fr_path r = p"
proof -
  have "(p, r) \<in> set (ms_records s)" using assms(2) by (simp add: mem_lookup_def map_of_SomeD)
  then have "case (p, r) of (p, r) \<Rightarrow> ValidPath p \<and> fr_path r = p"
    using assms(1) unfolding store_ok_def by blast
  then show "ValidPath p" "fr_path r = p" by simp_all
qed

lemma mem_busy_get:
  assumes "mem_busy t rs (w_store w)"
  shows "\<exists>op t'. transaction_Get p t w = Some (op, t', w)
    \<and> mem_busy t' (rs @ [get_result (int (length rs)) (mem_lookup (w_store w) p)]) (w_store w)"
  using assms
  by (cases "map_of (ms_records (w_store w)) p")
    (simp_all add: transaction_Get_def transaction_GetHandler_def prepOp_def mem_busy_def
      store_Get_def mem_lookup_def add_result_def merge_err_def get_result_def)

lemma mem_busy_put:
  assumes "mem_busy t rs (w_store w)" "ValidPath p"
    and "FD_Data mem_ops f w = Some (Inr b, f1, w1)" "w_store w1 = w_store w"
    and "rep mem_ops fr_data f1 b m mt" "ro_data (fd_record f1) = Some (Inr b)"
  shows "\<exists>op t' f' s. transaction_Set p (Some f) c t w = Some (op, t', Some f', w1\<lparr>w_store := s\<rparr>)
    \<and> mem_busy t' (rs @ [ok_result (int (length rs))]) s
    \<and> mem_lookup s = (mem_lookup (w_store w))(p \<mapsto> mem_mk p b m mt)
    \<and> rep mem_ops fr_data f' b m mt \<and> ro_data (fd_record f') = Some (Inr b) \<and> fd_path f' = fd_path f1"
proof -
  note M = mem_records_FD [OF mem_records_mem_ops]
  obtain f' where f': "store_set p (Some f) w = Some (None, Some f', w1\<lparr>w_store := (w_store w)\<lparr>ms_records :=
        AList.update p (mem_mk p b m mt) (ms_records (w_store w))\<rparr>\<rparr>)"
      "rep mem_rec_ops fr_data f' b m mt" "ro_data (fd_record f') = Some (Inr b)" "fd_path f' = fd_path f1"
    using store_set_put [of f w b f1 w1 m mt p] assms(3-6) M by auto
  have "store_ok ((w_store w)\<lparr>ms_records := AList.update p (mem_mk p b m mt) (ms_records (w_store w))\<rparr>)"
    using store_ok_update [of "w_store w" p "mem_mk p b m mt"] assms(1,2) by (simp add: mem_busy_def mem_mk_def)
  then show ?thesis
    using assms(1) f' M
    by (simp add: transaction_Set_def transaction_SetHandler_def prepOp_def mem_busy_def add_result_def
        merge_err_def ok_result_def mem_lookup_def)
qed

lemma mem_busy_del:
  assumes "mem_busy t rs (w_store w)"
  shows "\<exists>op t' s. transaction_Set p None c t w = Some (op, t', None, w\<lparr>w_store := s\<rparr>)
    \<and> mem_busy t' (rs @ [ok_result (int (length rs))]) s
    \<and> mem_lookup s = (mem_lookup (w_store w))(p := None)"
  using assms store_ok_delete [of "w_store w" p]
  by (simp add: transaction_Set_def transaction_SetHandler_def prepOp_def mem_busy_def add_result_def
      merge_err_def ok_result_def mem_lookup_def store_set_def)

interpretation mem: kv_store mem_ops mem_idle mem_busy mem_lookup mem_mk fr_data fr_path
proof
  fix w :: mworld and md t rs p c
  show "mem_idle (w_store w) \<Longrightarrow> \<exists>t s. so_Transaction mem_ops md w = Some (t, None, w\<lparr>w_store := s\<rparr>)
      \<and> mem_busy t [] s \<and> mem_lookup s = mem_lookup (w_store w)"
    by (simp add: store_Transaction_def mem_idle_def mem_busy_def)
  show "\<exists>op t' s. so_Get mem_ops p t w = Some (op, t', w\<lparr>w_store := s\<rparr>)
        \<and> mem_busy t' (rs @ [get_result (int (length rs)) (mem_lookup (w_store w) p)]) s
        \<and> mem_lookup s = mem_lookup (w_store w)" if b: "mem_busy t rs (w_store w)"
  proof -
    obtain op t' where "transaction_Get p t w = Some (op, t', w)"
      "mem_busy t' (rs @ [get_result (int (length rs)) (mem_lookup (w_store w) p)]) (w_store w)"
      using mem_busy_get [OF b] by blast
    then show ?thesis by simp
  qed
  show "\<exists>op t' f' s. so_Set mem_ops p (Some f) c t w = Some (op, t', Some f', w1\<lparr>w_store := s\<rparr>)
        \<and> mem_busy t' (rs @ [ok_result (int (length rs))]) s
        \<and> mem_lookup s = (mem_lookup (w_store w))(p \<mapsto> mem_mk p b m mt)
        \<and> rep mem_ops fr_data f' b m mt \<and> ro_data (fd_record f') = Some (Inr b) \<and> fd_path f' = fd_path f1"
    if "mem_busy t rs (w_store w)" "ValidPath p" "FD_Data mem_ops f w = Some (Inr b, f1, w1)"
      "w_store w1 = w_store w" "rep mem_ops fr_data f1 b m mt" "ro_data (fd_record f1) = Some (Inr b)"
    for f b f1 w1 m mt
    using mem_busy_put [OF that, of c] by simp
  show "\<exists>op t' s. so_Set mem_ops p None c t w = Some (op, t', None, w\<lparr>w_store := s\<rparr>)
        \<and> mem_busy t' (rs @ [ok_result (int (length rs))]) s
        \<and> mem_lookup s = (mem_lookup (w_store w))(p := None)" if "mem_busy t rs (w_store w)"
    using mem_busy_del [OF that, of p c] by simp
  show "mem_busy t rs (w_store w) \<Longrightarrow> \<exists>s. so_Commit mem_ops t w = Some (rs, None, w\<lparr>w_store := s\<rparr>)
        \<and> mem_idle s \<and> mem_lookup s = mem_lookup (w_store w)"
    by (simp add: transaction_Commit_def store_unlock_def mem_busy_def mem_idle_def)
  show "mem_busy t rs (w_store w) \<Longrightarrow> \<exists>e s. so_Abort mem_ops t w = Some (e, w\<lparr>w_store := s\<rparr>)
        \<and> mem_idle s \<and> mem_lookup s = mem_lookup (w_store w)"
    by (simp add: transaction_Abort_def store_unlock_def mem_busy_def mem_idle_def)
  show "r_Mode mem_ops (mem_mk p b m mt) = m" "r_ModTime mem_ops (mem_mk p b m mt) = mt"
    "fr_data (mem_mk p b m mt) = b" for b m mt
    by (simp_all add: mem_mk_def)
  show "r_Data mem_ops r w = Some (Inr (fr_data r), w)"
    "r_Size mem_ops r w = Bytes_Len (w_heap w) (fr_data r)" for r
    by (simp_all add: fileRecord_Data_def fileRecord_Size_def)
  show "mem_idle s \<Longrightarrow> mem_lookup s p = Some r \<Longrightarrow> fr_path r = p \<and> ValidPath p" for s r
    using mem_lookup_valid by (auto simp: mem_idle_def)
  show "mem_idle s \<Longrightarrow> finite (dom (mem_lookup s))" for s
    by (simp add: mem_lookup_def finite_dom_map_of)
  show "\<exists>names. r_ReadDirNames mem_ops r w = Some (Inr names, w) \<and> distinct names
        \<and> set names = children (mem_lookup (w_store w)) (fr_path r)"
    if "mem_idle (w_store w)" "mem_lookup s' (fr_path r) = Some r" "mem_idle s'" "IsDir (r_Mode mem_ops r)"
    for s' r
    using ReadDirNames_children [of w r] mem_lookup_valid [of s' "fr_path r" r] that by (simp add: mem_idle_def)
qed


subsection \<open>So do serial transactions over its plain methods\<close>

type_synonym serial_txn = "(fileRecord, mworld) unsafeSerialTransaction"

definition serial_mem :: "(fileRecord, mworld, serial_txn) store_ops" where
  "serial_mem = serial_ops mem_plain"

definition serial_busy :: "serial_txn \<Rightarrow> (fileRecord, mworld) OpResult list \<Rightarrow> mstore \<Rightarrow> bool" where
  "serial_busy u rs s \<longleftrightarrow> store_ok s \<and> \<not> us_done u \<and> us_nextOp u = int (length rs)
     \<and> (\<forall>i < length rs. map_of (us_results u) (int i) = Some (rs ! i))"

lemma serial_mem_sel [simp]:
  "r_Data serial_mem = fileRecord_Data" "r_ReadDirNames serial_mem = fileRecord_ReadDirNames"
  "r_Size serial_mem = fileRecord_Size" "r_Mode serial_mem = fr_mode" "r_ModTime serial_mem = fr_modTime"
  "so_Transaction serial_mem = (\<lambda>_ w. Some (new_serial, None, w))"
  "so_Get serial_mem = us_Get mem_plain" "so_Set serial_mem = us_Set mem_plain"
  "so_Commit serial_mem = (\<lambda>u w. let ((rs, e), u) = us_Commit (Some False) u in Some (rs, e, w))"
  "so_Abort serial_mem = (\<lambda>u w. Some (None, w))"
  by (simp_all add: serial_mem_def serial_ops_def mem_plain_def)

lemma mem_plain_sel [simp]: "ps_Get mem_plain = store_Get" "ps_Set mem_plain = store_Set"
  by (simp_all add: mem_plain_def)

lemma mem_records_serial: "mem_records serial_mem"
  by (simp add: mem_records_def)

lemma serial_busy_step:
  assumes "serial_busy u rs s" "store_ok s'"
  shows "serial_busy (us_setResult (int (length rs)) r (u\<lparr>us_nextOp := int (length rs) + 1\<rparr>)) (rs @ [r]) s'"
  using assms by (auto simp: serial_busy_def us_setResult_def nth_append less_Suc_eq)

lemma serial_busy_results:
  assumes "serial_busy u rs s"
  shows "us_Commit (Some False) u = ((rs, None), us_Abort u)"
proof -
  have "map (\<lambda>i. case map_of (us_results u) (int i) of
                Some r \<Rightarrow> r | None \<Rightarrow> \<lparr>or_Op = 0, or_Record = None, or_Err = None\<rparr>)
          [0 ..< nat (us_nextOp u)] = rs"
    using assms by (intro nth_equalityI) (simp_all add: serial_busy_def)
  then show ?thesis using assms by (simp add: us_Commit_def abortErr_def serial_busy_def)
qed

lemma serial_busy_get:
  assumes "serial_busy u rs (w_store w)"
  shows "\<exists>op u'. us_Get mem_plain p u w = Some (op, u', w)
    \<and> serial_busy u' (rs @ [get_result (int (length rs)) (mem_lookup (w_store w) p)]) (w_store w)"
  using assms serial_busy_step [OF assms, of "w_store w" "get_result (int (length rs)) (mem_lookup (w_store w) p)"]
  by (cases "map_of (ms_records (w_store w)) p")
    (simp_all add: us_Get_def us_GetHandler_def us_newOp_def abortErr_def store_Get_def merge_err_def
      get_result_def mem_lookup_def serial_busy_def [of u] Let_def)

lemma serial_busy_put:
  assumes "serial_busy u rs (w_store w)" "ValidPath p"
    and "FD_Data serial_mem f w = Some (Inr b, f1, w1)" "w_store w1 = w_store w"
    and "rep serial_mem fr_data f1 b m mt" "ro_data (fd_record f1) = Some (Inr b)"
  shows "\<exists>op u' f' s. us_Set mem_plain p (Some f) c u w = Some (op, u', Some f', w1\<lparr>w_store := s\<rparr>)
    \<and> serial_busy u' (rs @ [ok_result (int (length rs))]) s
    \<and> mem_lookup s = (mem_lookup (w_store w))(p \<mapsto> mem_mk p b m mt)
    \<and> rep serial_mem fr_data f' b m mt \<and> ro_data (fd_record f') = Some (Inr b) \<and> fd_path f' = fd_path f1"
proof -
  note M = mem_records_FD [OF mem_records_serial]
  let ?s = "(w_store w)\<lparr>ms_records := AList.update p (mem_mk p b m mt) (ms_records (w_store w))\<rparr>"
  obtain f' where f': "store_Set p (Some f) w = Some (None, Some f', w1\<lparr>w_store := ?s\<rparr>)"
      "rep mem_rec_ops fr_data f' b m mt" "ro_data (fd_record f') = Some (Inr b)" "fd_path f' = fd_path f1"
    using store_Set_put [of f w b f1 w1 m mt p] assms(3-6) M by auto
  have "store_ok ?s"
    using store_ok_update [of "w_store w" p "mem_mk p b m mt"] assms(1,2)
    by (simp add: serial_busy_def mem_mk_def)
  then have "serial_busy (us_setResult (int (length rs)) (ok_result (int (length rs)))
      (u\<lparr>us_nextOp := int (length rs) + 1\<rparr>)) (rs @ [ok_result (int (length rs))]) ?s"
    using serial_busy_step assms(1) by blast
  then show ?thesis
    using assms(1) f' M
    by (simp add: us_Set_def us_SetHandler_def us_newOp_def abortErr_def merge_err_def ok_result_def
        mem_lookup_def serial_busy_def [of u] Let_def)
qed

lemma serial_busy_del:
  assumes "serial_busy u rs (w_store w)"
  shows "\<exists>op u' s. us_Set mem_plain p None c u w = Some (op, u', None, w\<lparr>w_store := s\<rparr>)
    \<and> serial_busy u' (rs @ [ok_result (int (length rs))]) s
    \<and> mem_lookup s = (mem_lookup (w_store w))(p := None)"
proof -
  let ?s = "(w_store w)\<lparr>ms_records := AList.delete p (ms_records (w_store w))\<rparr>"
  have "serial_busy (us_setResult (int (length rs)) (ok_result (int (length rs)))
      (u\<lparr>us_nextOp := int (length rs) + 1\<rparr>)) (rs @ [ok_result (int (length rs))]) ?s"
    by (rule serial_busy_step [OF assms store_ok_delete]) (use assms in \<open>simp add: serial_busy_def\<close>)
  then show ?thesis
    using assms
    by (simp add: us_Set_def us_SetHandler_def us_newOp_def abortErr_def merge_err_def ok_result_def
        mem_lookup_def serial_busy_def [of u] Let_def store_Set_def store_set_def)
qed

interpretation serial: kv_store serial_mem store_ok serial_busy mem_lookup mem_mk fr_data fr_path
proof
  fix w :: mworld and md t rs p c
  show "store_ok (w_store w) \<Longrightarrow> \<exists>t s. so_Transaction serial_mem md w = Some (t, None, w\<lparr>w_store := s\<rparr>)
      \<and> serial_busy t [] s \<and> mem_lookup s = mem_lookup (w_store w)"
    by (simp add: serial_busy_def new_serial_def)
  show "\<exists>op t' s. so_Get serial_mem p t w = Some (op, t', w\<lparr>w_store := s\<rparr>)
        \<and> serial_busy t' (rs @ [get_result (int (length rs)) (mem_lookup (w_store w) p)]) s
        \<and> mem_lookup s = mem_lookup (w_store w)" if "serial_busy t rs (w_store w)"
    using serial_busy_get [OF that, of p] by auto
  show "\<exists>op t' f' s. so_Set serial_mem p (Some f) c t w = Some (op, t', Some f', w1\<lparr>w_store := s\<rparr>)
        \<and> serial_busy t' (rs @ [ok_result (int (length rs))]) s
        \<and> mem_lookup s = (mem_lookup (w_store w))(p \<mapsto> mem_mk p b m mt)
        \<and> rep serial_mem fr_data f' b m mt \<and> ro_data (fd_record f') = Some (Inr b) \<and> fd_path f' = fd_path f1"
    if "serial_busy t rs (w_store w)" "ValidPath p" "FD_Data serial_mem f w = Some (Inr b, f1, w1)"
      "w_store w1 = w_store w" "rep serial_mem fr_data f1 b m mt" "ro_data (fd_record f1) = Some (Inr b)"
    for f b f1 w1 m mt
    using serial_busy_put [OF that, of c] by simp
  show "\<exists>op t' s. so_Set serial_mem p None c t w = Some (op, t', None, w\<lparr>w_store := s\<rparr>)
        \<and> serial_busy t' (rs @ [ok_result (int (length rs))]) s
        \<and> mem_lookup s = (mem_lookup (w_store w))(p := None)" if "serial_busy t rs (w_store w)"
    using serial_busy_del [OF that, of p c] by simp
  show "\<exists>s. so_Commit serial_mem t w = Some (rs, None, w\<lparr>w_store := s\<rparr>)
        \<and> store_ok s \<and> mem_lookup s = mem_lookup (w_store w)" if "serial_busy t rs (w_store w)"
    using serial_busy_results [OF that] that by (simp add: serial_busy_def)
  show "serial_busy t rs (w_store w) \<Longrightarrow> \<exists>e s. so_Abort serial_mem t w = Some (e, w\<lparr>w_store := s\<rparr>)
        \<and> store_ok s \<and> mem_lookup s = mem_lookup (w_store w)"
    by (simp add: serial_busy_def)
  show "r_Mode serial_mem (mem_mk p b m mt) = m" "r_ModTime serial_mem (mem_mk p b m mt) = mt"
    "fr_data (mem_mk p b m mt) = b" for b m mt
    by (simp_all add: mem_mk_def)
  show "r_Data serial_mem r w = Some (Inr (fr_data r), w)"
    "r_Size serial_mem r w = Bytes_Len (w_heap w) (fr_data r)" for r
    by (simp_all add: fileRecord_Data_def fileRecord_Size_def)
  show "store_ok s \<Longrightarrow> mem_lookup s p = Some r \<Longrightarrow> fr_path r = p \<and> ValidPath p" for s r
    using mem_lookup_valid by auto
  show "store_ok s \<Longrightarrow> finite (dom (mem_lookup s))" for s
    by (simp add: mem_lookup_def finite_dom_map_of)
  show "\<exists>names. r_ReadDirNames serial_mem r w = Some (Inr names, w) \<and> distinct names
        \<and> set names = children (mem_lookup (w_store w)) (fr_path r)"
    if "store_ok (w_store w)" "mem_lookup s' (fr_path r) = Some r" "store_ok s'" "IsDir (r_Mode serial_mem r)"
    for s' r
    using ReadDirNames_children [of w r] mem_lookup_valid [of s' "fr_path r" r] that by simp
qed

end
