(* ===== verification/Mem_FS.thy ===== *)
theory Mem_FS
  imports Mem
begin

section \<open>What the in-memory file system does\<close>

text \<open>
  The properties of package \<open>mem\<close>, over the definitions of \<open>Mem\<close>: the lemmas of the contract
  \<open>kv_store\<close> for its transactions. \<open>mem_ok\<close> is the invariant and \<open>mem_tree\<close> the abstraction of a world
  to its tree of files. That the result of an operation is \<open>Some\<close> says that it neither panics nor
  blocks; that \<open>mem_ok\<close> holds afterwards says in particular that the mutex of the store is unlocked.
\<close>

definition mem_ok :: "mworld \<Rightarrow> bool" where
  "mem_ok = fs_ok mem_ops mem_idle mem_lookup fr_data"

definition mem_tree :: "mworld \<Rightarrow> fs_tree" where
  "mem_tree = tree_of mem_ops mem_lookup fr_data"

definition mem_attached :: "mworld \<Rightarrow> mfile \<Rightarrow> string \<Rightarrow> file_mode \<Rightarrow> time \<Rightarrow> bool" where
  "mem_attached = attached mem_ops mem_lookup fr_data"

definition mem_opened :: "mworld \<Rightarrow> string \<Rightarrow> flag \<Rightarrow> (fileRecord, mworld) handle \<Rightarrow> bool" where
  "mem_opened = opened mem_ops mem_lookup fr_data"

lemmas mem_FS_defs = mem_NewFS_def mem_Open_def mem_OpenFile_def mem_Mkdir_def mem_MkdirAll_def
  mem_Remove_def mem_Rename_def mem_Stat_def mem_Chmod_def mem_Chtimes_def
lemmas mem_abs_defs = mem_ok_def mem_tree_def mem_attached_def mem_opened_def


subsection \<open>A small file system for the concrete instances\<close>

definition demo_dir :: "string \<Rightarrow> bref \<Rightarrow> fileRecord" where
  "demo_dir p b = \<lparr>fr_path = p, fr_data = b, fr_mode = ModeDir OR 0x1FF, fr_modTime = 7\<rparr>"

definition demo_file :: "string \<Rightarrow> bref \<Rightarrow> fileRecord" where
  "demo_file p b = \<lparr>fr_path = p, fr_data = b, fr_mode = 0x1A4, fr_modTime = 7\<rparr>"

definition demo_store :: mstore where
  "demo_store = \<lparr>ms_locked = False,
     ms_records = [(''.'', demo_dir ''.'' 0), (''a'', demo_dir ''a'' 1), (''a/b'', demo_dir ''a/b'' 2),
                   (''f'', demo_file ''f'' 3)],
     ms_order = rev\<rparr>"

definition demo_mem :: heap where
  "demo_mem =
     (let h = empty_heap (\<lambda>_. 0);
          (_, h) = NewBytes_of [] h;
          (_, h) = NewBytes_of [] h;
          (_, h) = NewBytes_of [] h;
          (_, h) = NewBytes_of [104, 105, 33] h
      in h)"

definition demo_world :: mworld where
  "demo_world = \<lparr>w_heap = demo_mem, w_clock = (\<lambda>n. int n + 100), w_tick = 0, w_store = demo_store\<rparr>"

definition empty_world :: mworld where
  "empty_world = \<lparr>w_heap = empty_heap (\<lambda>_. 0), w_clock = (\<lambda>n. int n + 1), w_tick = 0, w_store = newStore rev\<rparr>"

lemma empty_ok: "mem_ok empty_world"
  by (simp add: mem_ok_def fs_ok_def mem_idle_def store_ok_def newStore_def mem_lookup_def unshared_def
      empty_world_def)

lemma empty_facts: "mem_tree empty_world = Map.empty" "now empty_world = 1"
  by (rule ext) (simp_all add: mem_tree_def tree_of_def mem_lookup_def newStore_def empty_world_def now_def)

lemma demo_clock:
  "now demo_world = 100" "w_clock demo_world = (\<lambda>n. int n + 100)" "w_tick demo_world = 0"
  by (simp_all add: now_def demo_world_def)

lemma demo_valid:
  "ok_elem ''a''" "ok_elem ''b''" "ok_elem ''f''" "ok_elem ''g''" "ok_elem ''c''"
  by (simp_all add: ok_elem_def valid_elem_def utf8_valid_def utf8_lead_def)

lemma demo_paths:
  "''a'' = path_of [''a'']" "''a/b'' = path_of [''a'', ''b'']" "''f'' = path_of [''f'']"
  "''a/g'' = path_of [''a'', ''g'']" "''a/b/c'' = path_of [''a'', ''b'', ''c'']" "''g'' = path_of [''g'']"
  by (simp_all add: path_of_def)

lemma demo_ValidPath [simp]:
  "ValidPath ''a''" "ValidPath ''a/b''" "ValidPath ''f''" "ValidPath ''a/g''" "ValidPath ''a/b/c''" "ValidPath ''g''"
  using ValidPath_path_of [of "[''a'']"] ValidPath_path_of [of "[''a'', ''b'']"]
    ValidPath_path_of [of "[''f'']"] ValidPath_path_of [of "[''a'', ''g'']"]
    ValidPath_path_of [of "[''a'', ''b'', ''c'']"] ValidPath_path_of [of "[''g'']"]
  by (simp_all add: demo_valid path_of_def)

lemma demo_mem_facts:
  "wf_heap demo_mem" "h_nobj demo_mem = 4"
  "content demo_mem 0 = []" "content demo_mem 1 = []" "content demo_mem 2 = []"
  "content demo_mem 3 = [104, 105, 33]"
  "sl_arr (bytes_f (h_obj demo_mem 0)) = 0" "sl_arr (bytes_f (h_obj demo_mem 1)) = 1"
  "sl_arr (bytes_f (h_obj demo_mem 2)) = 2" "sl_arr (bytes_f (h_obj demo_mem 3)) = 3"
  by (simp_all add: demo_mem_def NewBytes_of_def NewBytes_def new_array_def alloc_Bytes_def
      empty_heap_def wf_heap_def wf_obj_def wf_slice_def content_def slice_get_def
      slice_of_def less_Suc_eq numeral_eq_Suc)

lemma demo_modes:
  "IsDir (ModeDir OR 0x1FF)" "\<not> IsDir 0x1A4" "IsRegular 0x1A4"
  by (simp_all add: IsDir_def IsRegular_def ModeType_val mode_defs)

lemma demo_lookup:
  "mem_lookup demo_store = [''.'' \<mapsto> demo_dir ''.'' 0, ''a'' \<mapsto> demo_dir ''a'' 1,
     ''a/b'' \<mapsto> demo_dir ''a/b'' 2, ''f'' \<mapsto> demo_file ''f'' 3]"
  by (rule ext) (simp add: mem_lookup_def demo_store_def)

lemma demo_ok: "mem_ok demo_world"
proof -
  have i: "mem_idle demo_store"
    by (simp add: mem_idle_def store_ok_def demo_store_def demo_dir_def demo_file_def)
  have r: "rec_ok mem_ops fr_data demo_mem r" if "mem_lookup demo_store p = Some r" for p r
    using that demo_mem_facts
    by (auto simp: demo_lookup rec_ok_def demo_dir_def demo_file_def demo_modes live_def max_int64_def
        split: if_splits)
  have u: "unshared mem_ops fr_data demo_mem (mem_lookup demo_store)"
    unfolding unshared_def demo_lookup
    by (auto simp: demo_dir_def demo_file_def demo_modes apart_def demo_mem_facts
        split: if_splits simp del: One_nat_def)
  show ?thesis
    using i r u demo_mem_facts by (simp add: mem_ok_def fs_ok_def demo_world_def) 
qed

lemma demo_tree:
  "mem_tree demo_world = [''.'' \<mapsto> \<lparr>n_mode = ModeDir OR 0x1FF, n_modTime = 7, n_data = []\<rparr>,
     ''a'' \<mapsto> \<lparr>n_mode = ModeDir OR 0x1FF, n_modTime = 7, n_data = []\<rparr>,
     ''a/b'' \<mapsto> \<lparr>n_mode = ModeDir OR 0x1FF, n_modTime = 7, n_data = []\<rparr>,
     ''f'' \<mapsto> \<lparr>n_mode = 0x1A4, n_modTime = 7, n_data = [104, 105, 33]\<rparr>]"
  by (rule ext) (simp add: mem_tree_def tree_of_def demo_world_def demo_lookup demo_dir_def demo_file_def
      node_of_def demo_modes demo_mem_facts)


subsection \<open>Properties\<close>

text \<open>
  \<open>NewFS\<close> on any good store returns without error and leaves a root directory, keeping what the
  store already holds.
\<close>

theorem mem_NewFS_root:
  assumes "mem_ok w"
  shows "\<exists>w'. mem_NewFS w = Some (None, w') \<and> mem_ok w' \<and>
    mem_tree w' = (if mem_tree w dot = None then (mem_tree w)(dot \<mapsto> dir_node 0x1B6 (now w)) else mem_tree w)"
  unfolding mem_abs_defs mem_FS_defs by (rule mem.NewFS_root [OF assms [unfolded mem_ok_def]])

theorem mem_NewFS_root_witness:
  "\<exists>w'. mem_NewFS empty_world = Some (None, w') \<and> mem_ok w' \<and> mem_tree w' = [dot \<mapsto> dir_node 0x1B6 1]"
  using mem_NewFS_root [OF empty_ok] by (simp add: empty_facts)

text \<open>
  \<open>Stat\<close> always returns, changes nothing, and reports the name, the mode, the modification time
  and, for a file, the size of the node at the path, or the error: invalid name or no such entry.
\<close>

theorem mem_Stat_shows:
  assumes "mem_ok w"
  shows "\<exists>r w'. mem_Stat name w = Some (r, w') \<and> mem_ok w' \<and> mem_tree w' = mem_tree w
    \<and> stat_shows mem_ops r w' name (mem_tree w)"
  unfolding mem_abs_defs mem_FS_defs by (rule mem.Stat_refines [OF assms [unfolded mem_ok_def]])

theorem mem_Stat_shows_witness:
  "\<exists>i w'. mem_Stat ''f'' demo_world = Some (Inr i, w') \<and> info_Name i = Base ''f''
     \<and> info_Mode mem_ops i = Some 0x1A4 \<and> info_Size mem_ops i w' = Some 3"
  using mem_Stat_shows [OF demo_ok, of "''f''"]
  by (auto simp: stat_shows_def spec_get_def demo_tree info_shows_def demo_modes)




text \<open>
  C4: \<open>MkdirAll\<close> returns on every name and creates the missing ancestors of a valid one, outermost
  first, stopping at the nearest ancestor that exists; it fails with \<open>ErrNotDir\<close>, before creating
  anything, when that ancestor is not a directory.
\<close>

theorem mem_MkdirAll_refines:
  assumes "mem_ok w"
  shows "\<exists>e w'. mem_MkdirAll path perm w = Some (e, w') \<and> mem_ok w' \<and>
    (e, mem_tree w') = spec_MkdirAll (mem_tree w) path perm (w_clock w) (w_tick w)"
  unfolding mem_abs_defs mem_FS_defs by (rule mem.MkdirAll_refines [OF assms [unfolded mem_ok_def]])

lemma demo_ancestors: "ancestors ''a/b/c'' = [''a/b/c'', ''a/b'', ''a'', dot]"
  by (simp add: ancestors_def elems_def path_of_def upt_rec numeral_eq_Suc)

theorem mem_MkdirAll_refines_witness:
  "\<exists>w'. mem_MkdirAll ''a/b/c'' 0x1ED demo_world = Some (None, w') \<and> mem_ok w'
     \<and> mem_tree w' = (mem_tree demo_world)(''a/b/c'' \<mapsto> dir_node 0x1ED 100)"
  using mem_MkdirAll_refines [OF demo_ok, of "''a/b/c''" "0x1ED"]
  by (auto simp: spec_MkdirAll_def demo_ancestors demo_tree demo_clock demo_modes)

text \<open>
  in a tree whose entries all lie in directories, \<open>MkdirAll\<close> of a valid path none of whose
  ancestors is a file succeeds, and afterwards the path and all its ancestors are directories, while
  everything that existed, and every path that is not an ancestor, is unchanged.
\<close>

theorem mem_MkdirAll_creates:
  assumes "mem_ok w" "tree_closed (mem_tree w)" "ValidPath path"
    and "\<forall>q \<in> set (ancestors path). mem_tree w q \<noteq> None \<longrightarrow> is_dir (mem_tree w) q"
  shows "\<exists>w'. mem_MkdirAll path perm w = Some (None, w') \<and> mem_ok w'
    \<and> (\<forall>q \<in> set (ancestors path). is_dir (mem_tree w') q)
    \<and> (\<forall>q. mem_tree w q \<noteq> None \<longrightarrow> mem_tree w' q = mem_tree w q)
    \<and> (\<forall>q. q \<notin> set (ancestors path) \<longrightarrow> mem_tree w' q = mem_tree w q)"
proof -
  obtain e w' where "mem_MkdirAll path perm w = Some (e, w')" "mem_ok w'"
      "(e, mem_tree w') = spec_MkdirAll (mem_tree w) path perm (w_clock w) (w_tick w)"
    using mem.MkdirAll_refines [OF assms(1) [unfolded mem_ok_def], of path perm]
    by (auto simp: mem_abs_defs mem_FS_defs)
  then show ?thesis
    using spec_MkdirAll_dirs [OF assms(2-4), of perm "w_clock w" "w_tick w"] by (metis prod.inject)
qed

lemma demo_closed: "tree_closed (mem_tree demo_world)"
proof -
  have "Dir ''a'' = dot" "Dir ''a/b'' = ''a''" "Dir ''f'' = dot"
    using Dir_snoc [of "[]" "''a''"] Dir_snoc [of "[''a'']" "''b''"] Dir_snoc [of "[]" "''f''"]
    by (simp_all add: demo_valid path_of_def)
  then show ?thesis
    by (auto simp: tree_closed_def demo_tree is_dir_def demo_modes split: if_splits)
qed

theorem mem_MkdirAll_creates_witness:
  "\<exists>w'. mem_MkdirAll ''a/b/c'' 0x1ED demo_world = Some (None, w') \<and> mem_ok w'
     \<and> is_dir (mem_tree w') ''a/b/c'' \<and> mem_tree w' ''f'' = mem_tree demo_world ''f''"
  using mem_MkdirAll_creates [OF demo_ok demo_closed, of "''a/b/c''" "0x1ED"]
  by (auto simp: demo_ancestors demo_tree is_dir_def demo_modes)

text \<open>
  C11: \<open>Remove\<close> deletes exactly the named entry; it refuses a directory that has entries and reports
  an invalid or missing name, changing nothing.
\<close>

theorem mem_Remove_refines:
  assumes "mem_ok w"
  shows "\<exists>e w'. mem_Remove name w = Some (e, w') \<and> mem_ok w' \<and>
    (e, mem_tree w') = spec_Remove (mem_tree w) name"
  unfolding mem_abs_defs mem_FS_defs by (rule mem.Remove_refines [OF assms [unfolded mem_ok_def]])

theorem mem_Remove_refines_witness:
  "\<exists>w'. mem_Remove ''f'' demo_world = Some (None, w') \<and> mem_ok w'
     \<and> mem_tree w' = (mem_tree demo_world)(''f'' := None)"
  using mem_Remove_refines [OF demo_ok, of "''f''"]
  by (auto simp: spec_Remove_def spec_get_def demo_tree demo_modes)

text \<open>
  \<open>Chmod\<close> changes only the permission, setuid, setgid and sticky bits of the named entry, so a
  directory stays a directory and a file a file; its data, time and all other entries are unchanged.
\<close>

theorem mem_Chmod_refines:
  assumes "mem_ok w"
  shows "\<exists>e w'. mem_Chmod name mode w = Some (e, w') \<and> mem_ok w'
    \<and> (e, mem_tree w') = spec_Chmod (mem_tree w) name mode
    \<and> (\<forall>nd nd'. mem_tree w name = Some nd \<longrightarrow> mem_tree w' name = Some nd' \<longrightarrow> Type (n_mode nd') = Type (n_mode nd))"
proof -
  obtain e w' where *: "mem_Chmod name mode w = Some (e, w')" "mem_ok w'"
      "(e, mem_tree w') = spec_Chmod (mem_tree w) name mode"
    using mem.Chmod_refines [OF assms [unfolded mem_ok_def], of name mode]
    by (auto simp: mem_abs_defs mem_FS_defs)
  have "Type (n_mode nd') = Type (n_mode nd)"
    if "mem_tree w name = Some nd" "mem_tree w' name = Some nd'" for nd nd'
    using that *(3) by (auto simp: spec_Chmod_def spec_get_def Type_def chmod_keeps_type split: if_splits)
  then show ?thesis using * by blast
qed

theorem mem_Chmod_refines_witness:
  "\<exists>w'. mem_Chmod ''f'' 0x80000180 demo_world = Some (None, w') \<and> mem_ok w'
     \<and> mem_tree w' ''f'' = Some \<lparr>n_mode = 0x180, n_modTime = 7, n_data = [104, 105, 33]\<rparr>"
  using mem_Chmod_refines [OF demo_ok, of "''f''" "0x80000180"]
  by (auto simp: spec_Chmod_def spec_get_def demo_tree chmodBits_val)

text \<open>
  \<open>Chtimes\<close> sets the modification time of the named entry and nothing else. The zero time is
  ignored: the entry keeps its time, and no error is reported.
\<close>

theorem mem_Chtimes_refines:
  assumes "mem_ok w"
  shows "\<exists>e w'. mem_Chtimes name atime mtime w = Some (e, w') \<and> mem_ok w' \<and>
    (e, mem_tree w') = spec_Chtimes (mem_tree w) name mtime"
  unfolding mem_abs_defs mem_FS_defs by (rule mem.Chtimes_refines [OF assms [unfolded mem_ok_def]])

theorem mem_Chtimes_refines_witness:
  "\<exists>w'. mem_Chtimes ''f'' 1 42 demo_world = Some (None, w') \<and> mem_ok w'
     \<and> mem_tree w' ''f'' = Some \<lparr>n_mode = 0x1A4, n_modTime = 42, n_data = [104, 105, 33]\<rparr>"
  using mem_Chtimes_refines [OF demo_ok, of "''f''" 1 42]
  by (auto simp: spec_Chtimes_def spec_get_def demo_tree)


subsection \<open>Open files\<close>



definition demo_handle :: "flag \<Rightarrow> mfile" where
  "demo_handle flag = (handle_of ''f'' (demo_file ''f'' 3))\<lparr>f_flag := flag\<rparr>"

lemma demo_attached: "mem_attached demo_world (demo_handle flag) ''f'' 0x1A4 7"
  using rep_store [of mem_ops fr_data "''f''" "demo_file ''f'' 3"]
  by (simp add: mem_attached_def attached_def demo_handle_def handle_of_def demo_world_def demo_lookup demo_file_def)

lemma demo_f: "mem_tree demo_world ''f'' = Some \<lparr>n_mode = 0x1A4, n_modTime = 7, n_data = [104, 105, 33]\<rparr>"
  by (simp add: demo_tree)

text \<open>
  C6: \<open>WriteAt\<close> on an attached file writes all bytes at the offset (at the end, whatever the offset,
  when the file was opened for appending), fills a gap beyond the old end with zeros, keeps every other
  byte and every other file, and records the current time unless nothing was written.
\<close>

theorem mem_WriteAt_refines:
  assumes "mem_ok w" "mem_attached w f p m t" "mem_tree w p = Some nd" "\<not> IsDir m"
    and "off' = write_offset (f_flag f) off (n_data nd)" "0 \<le> off'" "off' + int (length xs) \<le> max_int64"
  shows "\<exists>f' w'. file_WriteAt mem_ops f xs off w = Some (int (length xs), None, f', w')
    \<and> mem_ok w' \<and> mem_attached w' f' p m (write_time xs t (now w))
    \<and> mem_tree w' = (mem_tree w)(p \<mapsto> \<lparr>n_mode = m, n_modTime = write_time xs t (now w),
         n_data = write_at (nat off') xs (n_data nd)\<rparr>)
    \<and> f_offset f' = f_offset f \<and> f_flag f' = f_flag f"
  using mem.WriteAt_refines [OF assms(1-3) [unfolded mem_abs_defs] assms(4-7)] unfolding mem_abs_defs .

theorem mem_WriteAt_refines_witness:
  "\<exists>f' w'. file_WriteAt mem_ops (demo_handle FlagReadWrite) [65, 66] 4 demo_world = Some (2, None, f', w')
     \<and> mem_tree w' ''f'' = Some \<lparr>n_mode = 0x1A4, n_modTime = 100, n_data = [104, 105, 33, 0, 65, 66]\<rparr>"
  using mem_WriteAt_refines [OF demo_ok demo_attached [of FlagReadWrite] demo_f demo_modes(2),
      of 4 4 "[65, 66]"]
  by (auto simp: write_offset_def demo_handle_def has_flag_def flag_defs max_int64_def write_time_def
      demo_clock write_at_def overwrite_def)

text \<open>
  A file opened with \<open>O_APPEND\<close> only grows: a write at any offset puts its bytes after the bytes
  that were there.
\<close>

theorem mem_append_only:
  assumes "mem_ok w" "mem_attached w f p m t" "mem_tree w p = Some nd" "\<not> IsDir m"
    and "has_flag (f_flag f) FlagAppend" "int (length (n_data nd)) + int (length xs) \<le> max_int64"
  shows "\<exists>f' w' nd'. file_WriteAt mem_ops f xs off w = Some (int (length xs), None, f', w')
    \<and> mem_tree w' p = Some nd' \<and> n_data nd' = n_data nd @ xs"
proof -
  have "write_at (length (n_data nd)) xs (n_data nd) = n_data nd @ xs"
    by (simp add: write_at_def overwrite_def)
  then show ?thesis
    using mem.WriteAt_refines [OF assms(1-3) [unfolded mem_abs_defs] assms(4),
        of "int (length (n_data nd))" off xs] assms(5,6)
    by (fastforce simp: write_offset_def mem_tree_def)
qed

theorem mem_append_only_witness:
  "\<exists>f' w' nd'. file_WriteAt mem_ops (demo_handle (FlagWriteOnly OR FlagAppend)) [65] 0 demo_world
       = Some (1, None, f', w')
     \<and> mem_tree w' ''f'' = Some nd' \<and> n_data nd' = [104, 105, 33, 65]"
  using mem_append_only [OF demo_ok demo_attached [of "FlagWriteOnly OR FlagAppend"] demo_f demo_modes(2),
      of "[65]" 0]
  by (simp add: demo_handle_def has_flag_def flag_defs max_int64_def)

text \<open>
  C7: \<open>ReadAt\<close> on an attached file fills the buffer with the bytes from the offset, as many as there
  are, returns their number, reports \<open>io.EOF\<close> exactly when the end of the file is reached, and changes
  no file.
\<close>

theorem mem_ReadAt_refines:
  assumes "mem_ok w" "mem_attached w f p m t" "mem_tree w p = Some nd" "\<not> IsDir m"
    and "0 \<le> off" "off + int (length buf) \<le> max_int64"
  shows "\<exists>f' w'. file_ReadAt mem_ops f buf off w =
      Some (go_copy buf (read_bytes (length buf) off (n_data nd)),
        int (length (read_bytes (length buf) off (n_data nd))),
        read_err (length buf) off (n_data nd), f', w')
    \<and> mem_ok w' \<and> mem_attached w' f' p m t \<and> mem_tree w' = mem_tree w
    \<and> f_offset f' = f_offset f \<and> f_flag f' = f_flag f"
  using mem.ReadAt_refines [OF assms(1-3) [unfolded mem_abs_defs] assms(4-6)] unfolding mem_abs_defs .

theorem mem_ReadAt_refines_witness:
  "\<exists>f' w'. file_ReadAt mem_ops (demo_handle FlagReadOnly) [0, 0, 0, 0] 1 demo_world
     = Some ([105, 33, 0, 0], 2, Some EOF, f', w')"
  using mem_ReadAt_refines [OF demo_ok demo_attached [of FlagReadOnly] demo_f demo_modes(2), of 1 "[0, 0, 0, 0]"]
  by (auto simp: read_bytes_def read_err_def go_copy_def max_int64_def)

text \<open>
  C5: bytes written through one handle are read back through another: after \<open>WriteAt\<close>, opening the
  path again and reading as many bytes at the same place returns exactly the bytes written.
\<close>

theorem mem_write_then_read:
  assumes "mem_ok w" "mem_attached w f p m t" "mem_tree w p = Some nd" "\<not> IsDir m" "ValidPath p"
    and "off' = write_offset (f_flag f) off (n_data nd)" "0 \<le> off'" "off' + int (length xs) \<le> max_int64"
  shows "\<exists>f' w1 h w2 e h' w3. file_WriteAt mem_ops f xs off w = Some (int (length xs), None, f', w1)
    \<and> mem_Open p w1 = Some (Some h, None, w2)
    \<and> h_ReadAt mem_ops h (replicate (length xs) 0) off' w2 = Some (xs, int (length xs), e, h', w3)
    \<and> mem_ok w3 \<and> mem_tree w3 = mem_tree w1"
proof -
  let ?t = "write_time xs t (now w)" and ?ys = "write_at (nat off') xs (n_data nd)"
  obtain f' w1 where 1: "file_WriteAt mem_ops f xs off w = Some (int (length xs), None, f', w1)"
      "mem.ok w1" "mem.tree w1 p = Some \<lparr>n_mode = m, n_modTime = ?t, n_data = ?ys\<rparr>"
    using mem.WriteAt_refines [OF assms(1-3) [unfolded mem_abs_defs] assms(4,6-8)] by auto
  have sp: "spec_OpenFile (mem.tree w1) p FlagReadOnly 0 (now w1) = (None, mem.tree w1, True)"
    using 1(3) assms(4,5) by (simp add: spec_OpenFile_def spec_get_def has_flag_def flag_defs)
  obtain h w2 where 2: "mem_Open p w1 = Some (Some h, None, w2)" "mem.ok w2"
      "mem.tree w2 = mem.tree w1" "mem.opnd w2 p FlagReadOnly h"
    using mem.OpenFile_refines [OF 1(2), of p FlagReadOnly 0] sp by (auto simp: mem_FS_defs kv_Open_def)
  obtain g where g: "h = readOnlyFile g" "mem.att w2 g p m ?t"
    using 2(3,4) 1(3) by (auto simp: opened_def open_kind_def has_flag_def flag_defs)
  have rb: "read_bytes (length xs) off' ?ys = xs" by (simp add: read_bytes_def write_at_read)
  obtain g' w3 where 3: "file_ReadAt mem_ops g (replicate (length xs) 0) off' w2
      = Some (xs, int (length xs), read_err (length xs) off' ?ys, g', w3)" "mem.ok w3" "mem.tree w3 = mem.tree w2"
    using mem.ReadAt_refines [OF 2(2) g(2) _ assms(4,7), of _ "replicate (length xs) 0"] 1(3) 2(3) assms(8) rb
    by (auto simp: go_copy_def)
  have "h_ReadAt mem_ops h (replicate (length xs) 0) off' w2
      = Some (xs, int (length xs), read_err (length xs) off' ?ys, readOnlyFile g', w3)"
    using 3(1) g(1) by (simp add: h_ReadAt_def)
  then show ?thesis using 1(1) 2(1,3) 3(2,3) by (auto simp: mem_abs_defs)
qed

theorem mem_write_then_read_witness:
  "\<exists>f' w1 h w2 e h' w3. file_WriteAt mem_ops (demo_handle FlagReadWrite) [65, 66] 4 demo_world
       = Some (2, None, f', w1)
     \<and> mem_Open ''f'' w1 = Some (Some h, None, w2)
     \<and> h_ReadAt mem_ops h [0, 0] 4 w2 = Some ([65, 66], 2, e, h', w3)"
  using mem_write_then_read [OF demo_ok demo_attached [of FlagReadWrite] demo_f demo_modes(2),
      of 4 4 "[65, 66]"]
  by (simp add: write_offset_def demo_handle_def has_flag_def flag_defs max_int64_def numeral_2_eq_2) blast

text \<open>
  C12: \<open>Truncate\<close> sets the length of an attached file, cutting or zero-filling, and records the current
  time; it does nothing when the length is already right, and fails on a directory or a negative length.
\<close>

theorem mem_Truncate_refines:
  assumes "mem_ok w" "mem_attached w f p m t" "mem_tree w p = Some nd" "sz \<le> max_int64"
    and "ch = trunc_changes m sz (n_data nd)"
  shows "\<exists>f' w'. file_Truncate mem_ops f sz w = Some (trunc_err m p sz, f', w') \<and> mem_ok w'
    \<and> mem_attached w' f' p m (if ch then now w else t)
    \<and> mem_tree w' = (if ch then (mem_tree w)(p \<mapsto> \<lparr>n_mode = m, n_modTime = now w,
          n_data = set_length (nat sz) (n_data nd)\<rparr>) else mem_tree w)
    \<and> f_offset f' = f_offset f \<and> f_flag f' = f_flag f"
  using mem.Truncate_refines [OF assms(1-3) [unfolded mem_abs_defs] assms(4)] unfolding mem_abs_defs assms(5) .

theorem mem_Truncate_refines_witness:
  "\<exists>f' w'. file_Truncate mem_ops (demo_handle FlagReadWrite) 1 demo_world = Some (None, f', w') \<and> mem_ok w'
     \<and> mem_tree w' ''f'' = Some \<lparr>n_mode = 0x1A4, n_modTime = 100, n_data = [104]\<rparr>"
  using mem_Truncate_refines [OF demo_ok demo_attached [of FlagReadWrite] demo_f, of 1 True]
  by (auto simp: trunc_changes_def trunc_err_def demo_modes max_int64_def demo_clock set_length_def)


subsection \<open>Moving and listing\<close>


lemma demo_present:
  assumes "list_all ok_elem es" "mem_tree demo_world (path_of es) \<noteq> None"
  shows "es \<in> {[], [''a''], [''a'', ''b''], [''f'']}"
proof -
  have "path_of es \<in> {path_of [], path_of [''a''], path_of [''a'', ''b''], path_of [''f'']}"
    using assms(2) by (auto simp: demo_tree path_of_def split: if_splits)
  moreover have "path_of es = path_of ds \<longleftrightarrow> es = ds" if "list_all ok_elem ds" for ds
    using path_of_inject [OF assms(1) that] .
  ultimately show ?thesis using demo_valid by (auto simp del: path_of_single path_of_Nil)
qed



text \<open>
  \<open>Rename\<close> of a directory two levels below itself never returns: it keeps creating the next level
  and descending into it, instead of failing with an invalid-argument error. Here the source has one
  entry, a directory, and the destination is a new name in that directory.
\<close>

theorem mem_Rename_into_itself:
  assumes "mem_ok w" "into_itself (mem_tree w) old new"
  shows "mem_Rename old new w = None"
  using mem.Rename_into_itself [OF assms [unfolded mem_abs_defs]] unfolding mem_FS_defs .

lemma demo_into_itself: "into_itself (mem_tree demo_world) ''a'' ''a/b/c''"
  unfolding into_itself_def
proof (intro exI conjI)
  show "''a'' = path_of [''a'']" "''a/b/c'' = path_of ([''a''] @ [''b'', ''c''])" by (simp_all add: path_of_def)
  show "is_dir (mem_tree demo_world) (path_of [''a''])" "is_dir (mem_tree demo_world) (path_of ([''a''] @ [''b'']))"
    by (simp_all add: is_dir_def demo_tree demo_modes path_of_def)
  show "below (mem_tree demo_world) [''a''] = {[''a''] @ [''b'']}"
  proof (intro set_eqI iffI)
    fix es assume "es \<in> below (mem_tree demo_world) [''a'']"
    then have "list_all ok_elem es" "strict_prefix [''a''] es" "mem_tree demo_world (path_of es) \<noteq> None"
      by (auto simp: below_def)
    then show "es \<in> {[''a''] @ [''b'']}" using demo_present [of es] by (auto simp: strict_prefix_def)
  next
    fix es assume "es \<in> {[''a''] @ [''b'']}"
    then show "es \<in> below (mem_tree demo_world) [''a'']"
      using demo_valid by (simp add: below_def demo_tree path_of_def)
  qed
qed (simp_all add: demo_valid)

theorem mem_Rename_into_itself_witness: "mem_Rename ''a'' ''a/b/c'' demo_world = None"
  using mem_Rename_into_itself [OF demo_ok demo_into_itself] .


definition demo_root :: mfile where
  "demo_root = \<lparr>f_data = Some ((fileData_of dot (Some (StoreRec (demo_dir dot 0))))
       \<lparr>fd_record := (runOnce_of (Some (StoreRec (demo_dir dot 0))))\<lparr>ro_dirNames := Some (Inr [''f'', ''a''])\<rparr>\<rparr>),
     f_offset = 0, f_flag = 0\<rparr>"

lemma demo_listing: "listing demo_root dot [''f'', ''a'']"
  by (simp add: listing_def demo_root_def)

lemma demo_Join: "Join [dot, ''f''] = ''f''" "Join [dot, ''a''] = ''a''"
  using Join_elem [of "[]" "''f''"] Join_elem [of "[]" "''a''"] demo_valid by simp_all


text \<open>
  \<open>ReadDir(n)\<close> with a positive \<open>n\<close> at the end of the directory returns no entries and no error.
  \<open>io/fs.ReadDirFile\<close>, which \<open>DirReaderFile\<close> mirrors, asks for \<open>io.EOF\<close> there, so a caller that pages
  until \<open>io.EOF\<close> does not stop.
\<close>

theorem mem_ReadDir_end_no_EOF:
  assumes "mem_ok w" "listing f p names" "\<forall>x \<in> set names. mem_tree w (Join [p, x]) \<noteq> None"
    and "f_offset f = int (length names)" "0 < n" "int (length names) + int n \<le> max_int64"
  shows "\<exists>w'. file_ReadDir mem_ops f (int n) w = Some (Inr [], f, w') \<and> mem_tree w' = mem_tree w"
proof -
  have ff: "f\<lparr>f_offset := int (length names)\<rparr> = f" using assms(4) by (cases f) simp
  have lim: "int (length names) \<le> max_int64" using assms(6) by simp
  obtain es w' where "file_ReadDir mem_ops f (int n) w
        = Some (Inr es, f\<lparr>f_offset := int (min (length names + n) (length names))\<rparr>, w')"
      "mem.tree w' = mem.tree w" "map de_baseName es = slice_of (length names) (min (length names + n) (length names)) names"
    using mem.ReadDir_page [OF assms(1) [unfolded mem_abs_defs] assms(2) assms(3) [unfolded mem_abs_defs]
        assms(4) le_refl assms(5,6) lim] by blast
  then show ?thesis using ff by (auto simp: slice_of_def mem_tree_def)
qed

theorem mem_ReadDir_end_no_EOF_witness:
  "\<exists>w'. file_ReadDir mem_ops (demo_root\<lparr>f_offset := 2\<rparr>) 1 demo_world = Some (Inr [], demo_root\<lparr>f_offset := 2\<rparr>, w')"
proof -
  have "listing (demo_root\<lparr>f_offset := 2\<rparr>) dot [''f'', ''a'']"
    using demo_listing by (auto simp: listing_def)
  from mem_ReadDir_end_no_EOF [OF demo_ok this, of 1] show ?thesis
    by (auto simp: demo_Join demo_tree max_int64_def)
qed


text \<open>
  C8: opening a directory and reading it without a limit lists exactly its entries: one entry per
  child, with the child's name, mode, time and size.
\<close>

theorem mem_Open_ReadDir:
  assumes "mem_ok w" "is_dir (mem_tree w) p" "n \<le> 0"
  shows "\<exists>h w1 es h' w2. mem_Open p w = Some (Some h, None, w1)
    \<and> h_ReadDir mem_ops h n w1 = Some (Inr es, h', w2) \<and> mem_ok w2 \<and> mem_tree w2 = mem_tree w
    \<and> distinct (map de_baseName es) \<and> set (map de_baseName es) = children (mem_tree w) p
    \<and> (\<forall>e \<in> set es. \<exists>nd. mem_tree w (Join [p, de_baseName e]) = Some nd
          \<and> info_shows mem_ops (de_info e) w1 (Join [p, de_baseName e]) nd)"
  using mem.Open_ReadDir [OF assms(1,2) [unfolded mem_abs_defs] assms(3)] unfolding mem_abs_defs mem_FS_defs .

theorem mem_Open_ReadDir_witness:
  "\<exists>h w1 es h' w2. mem_Open ''a'' demo_world = Some (Some h, None, w1)
    \<and> h_ReadDir mem_ops h 0 w1 = Some (Inr es, h', w2) \<and> set (map de_baseName es) = children (mem_tree demo_world) ''a''"
proof -
  have "is_dir (mem_tree demo_world) ''a''" by (simp add: is_dir_def demo_tree demo_modes)
  from mem_Open_ReadDir [OF demo_ok this, of 0] show ?thesis by auto
qed

text \<open>
  Listing a non-empty directory twice without a limit and then asking for one entry panics: the
  calls without a limit advance the offset past the end, and the next one slices beyond it.
\<close>

theorem mem_ReadDir_twice_panics:
  assumes "mem_ok w" "listing f p names" "\<forall>x \<in> set names. mem_tree w (Join [p, x]) \<noteq> None"
    and "f_offset f = 0" "names \<noteq> []" "2 * int (length names) < max_int64"
  shows "\<exists>es f1 w1 es' f2 w2. file_ReadDir mem_ops f 0 w = Some (Inr es, f1, w1)
    \<and> file_ReadDir mem_ops f1 0 w1 = Some (Inr es', f2, w2) \<and> file_ReadDir mem_ops f2 1 w2 = None"
proof -
  let ?n = "int (length names)"
  obtain d where d: "f_data f = Some d" "fd_path d = p" "ro_dirNames (fd_record d) = Some (Inr names)"
    using assms(2) by (auto simp: listing_def)
  have i64: "int64 ?n = ?n" "int64 (?n + ?n) = ?n + ?n"
    using assms(6) by (auto intro!: int64_id simp: max_int64_def)
  have rd: "FD_ReadDirNames mem_ops d v = Some (Inr names, d, v)" for v
    using d(3) by (simp add: FD_ReadDirNames_def RO_ReadDirNames_def)
  have step: "\<exists>es v'. file_ReadDir mem_ops g 0 v
        = Some (Inr es, g\<lparr>f_offset := int64 (f_offset g + ?n)\<rparr>, v') \<and> mem.ok v' \<and> mem.tree v' = mem.tree w"
    if "f_data g = Some d" "mem.ok v" "mem.tree v = mem.tree w" for g v
  proof -
    have "g\<lparr>f_data := Some d\<rparr> = g" using that(1) by (cases g) simp
    then show ?thesis
      using mem.ReadDir_all [OF that(2,1) d(2) rd d(2), of 0] assms(3) that(3) i64(1) by (auto simp: mem_tree_def)
  qed
  obtain es w1 where 1: "file_ReadDir mem_ops f 0 w = Some (Inr es, f\<lparr>f_offset := ?n\<rparr>, w1)" "mem.ok w1"
      "mem.tree w1 = mem.tree w"
    using step [OF d(1), of w] assms(1,4) i64 by (auto simp: mem_ok_def)
  obtain es' w2 where 2: "file_ReadDir mem_ops (f\<lparr>f_offset := ?n\<rparr>) 0 w1
        = Some (Inr es', f\<lparr>f_offset := ?n + ?n\<rparr>, w2)"
    using step [of "f\<lparr>f_offset := ?n\<rparr>" w1] d(1) 1 i64 by auto
  have "file_ReadDir mem_ops (f\<lparr>f_offset := ?n + ?n\<rparr>) 1 w2 = None"
    by (rule mem.ReadDir_beyond [where p = p and names = names])
      (use assms(2,5,6) in \<open>auto simp: listing_def\<close>)
  then show ?thesis using 1 2 by blast
qed

theorem mem_ReadDir_twice_panics_witness:
  "\<exists>es f1 w1 es' f2 w2. file_ReadDir mem_ops demo_root 0 demo_world = Some (Inr es, f1, w1)
    \<and> file_ReadDir mem_ops f1 0 w1 = Some (Inr es', f2, w2) \<and> file_ReadDir mem_ops f2 1 w2 = None"
  using mem_ReadDir_twice_panics [OF demo_ok demo_listing]
  by (simp add: demo_Join demo_tree demo_root_def max_int64_def)

end
