(* ===== verification/HackpadFS.thy ===== *)
theory HackpadFS
  imports KV_FS "HOL-Library.Char_ord" "HOL-Library.List_Lexorder"
begin

section \<open>The package \<open>hackpadfs\<close>: interfaces and helper functions (\<open>fs.go\<close>, \<open>file.go\<close>)\<close>

text \<open>
  The package declares one interface per operation and a helper function per operation, which calls
  the method when the value has it, goes through \<open>Mount\<close> when the value is a \<open>MountFS\<close>, and otherwise
  falls back to more basic operations or fails with \<open>ErrNotImplemented\<close>.

  The values of type \<open>FS\<close>, \<open>File\<close>, \<open>FileInfo\<close> and \<open>DirEntry\<close> are values of the type variables \<open>'f\<close>, \<open>'h\<close>,
  \<open>'i\<close> and \<open>'d\<close>, and two records hold their methods. A method that every value has is a function; a
  method of an optional interface is a function that gives \<^const>\<open>None\<close> for the values that lack it,
  so a type assertion of the code is a \<open>case\<close> on it. The helpers follow \<open>Mount\<close> as often as the values
  ask for, so they are partial functions: \<^const>\<open>None\<close> is "does not return".
\<close>

subsection \<open>The interfaces\<close>

type_synonym ('h, 'w) file_err = "(err option \<times> 'h \<times> 'w) option"
type_synonym ('h, 'w) file_count = "(int \<times> err option \<times> 'h \<times> 'w) option"
type_synonym ('h, 'w) file_bytes = "(byte list \<times> int \<times> err option \<times> 'h \<times> 'w) option"
type_synonym 'w fs_err = "(err option \<times> 'w) option"
type_synonym ('h, 'w) fs_file = "('h option \<times> err option \<times> 'w) option"
type_synonym ('i, 'w) fs_info = "((err + 'i) \<times> 'w) option"

record ('h, 'i, 'd, 'w) file_iface =
  fl_Stat :: "'h \<Rightarrow> 'w \<Rightarrow> ((err + 'i) \<times> 'h \<times> 'w) option"
  fl_Read :: "'h \<Rightarrow> byte list \<Rightarrow> 'w \<Rightarrow> ('h, 'w) file_bytes"
  fl_Close :: "'h \<Rightarrow> 'w \<Rightarrow> ('h, 'w) file_err"
  fl_Write :: "'h \<Rightarrow> (byte list \<Rightarrow> 'w \<Rightarrow> ('h, 'w) file_count) option"
  fl_ReadAt :: "'h \<Rightarrow> (byte list \<Rightarrow> int \<Rightarrow> 'w \<Rightarrow> ('h, 'w) file_bytes) option"
  fl_WriteAt :: "'h \<Rightarrow> (byte list \<Rightarrow> int \<Rightarrow> 'w \<Rightarrow> ('h, 'w) file_count) option"
  fl_ReadDir :: "'h \<Rightarrow> (int \<Rightarrow> 'w \<Rightarrow> ('d list \<times> err option \<times> 'h \<times> 'w) option) option"
  fl_Seek :: "'h \<Rightarrow> (int \<Rightarrow> whence \<Rightarrow> 'w \<Rightarrow> ('h, 'w) file_count) option"
  fl_Sync :: "'h \<Rightarrow> ('w \<Rightarrow> ('h, 'w) file_err) option"
  fl_Truncate :: "'h \<Rightarrow> (int \<Rightarrow> 'w \<Rightarrow> ('h, 'w) file_err) option"
  fl_Chmod :: "'h \<Rightarrow> (file_mode \<Rightarrow> 'w \<Rightarrow> ('h, 'w) file_err) option"
  fl_Chown :: "'h \<Rightarrow> (int \<Rightarrow> int \<Rightarrow> 'w \<Rightarrow> ('h, 'w) file_err) option"
  fl_Chtimes :: "'h \<Rightarrow> (time \<Rightarrow> time \<Rightarrow> 'w \<Rightarrow> ('h, 'w) file_err) option"
  in_Name :: "'i \<Rightarrow> string"
  in_Mode :: "'i \<Rightarrow> file_mode option"
  in_Size :: "'i \<Rightarrow> 'w \<Rightarrow> int option"
  de_Name :: "'d \<Rightarrow> string"

record ('f, 'h, 'i, 'd, 'w) fs_iface = "('h, 'i, 'd, 'w) file_iface" +
  i_Open :: "'f \<Rightarrow> string \<Rightarrow> 'w \<Rightarrow> ('h, 'w) fs_file"
  i_Sub :: "'f \<Rightarrow> (string \<Rightarrow> 'w \<Rightarrow> ('f option \<times> err option \<times> 'w) option) option"
  i_OpenFile :: "'f \<Rightarrow> (string \<Rightarrow> flag \<Rightarrow> file_mode \<Rightarrow> 'w \<Rightarrow> ('h, 'w) fs_file) option"
  i_Create :: "'f \<Rightarrow> (string \<Rightarrow> 'w \<Rightarrow> ('h, 'w) fs_file) option"
  i_Mkdir :: "'f \<Rightarrow> (string \<Rightarrow> file_mode \<Rightarrow> 'w \<Rightarrow> 'w fs_err) option"
  i_MkdirAll :: "'f \<Rightarrow> (string \<Rightarrow> file_mode \<Rightarrow> 'w \<Rightarrow> 'w fs_err) option"
  i_Remove :: "'f \<Rightarrow> (string \<Rightarrow> 'w \<Rightarrow> 'w fs_err) option"
  i_RemoveAll :: "'f \<Rightarrow> (string \<Rightarrow> 'w \<Rightarrow> 'w fs_err) option"
  i_Rename :: "'f \<Rightarrow> (string \<Rightarrow> string \<Rightarrow> 'w \<Rightarrow> 'w fs_err) option"
  i_Stat :: "'f \<Rightarrow> (string \<Rightarrow> 'w \<Rightarrow> ('i, 'w) fs_info) option"
  i_Lstat :: "'f \<Rightarrow> (string \<Rightarrow> 'w \<Rightarrow> ('i, 'w) fs_info) option"
  i_Chmod :: "'f \<Rightarrow> (string \<Rightarrow> file_mode \<Rightarrow> 'w \<Rightarrow> 'w fs_err) option"
  i_Chown :: "'f \<Rightarrow> (string \<Rightarrow> int \<Rightarrow> int \<Rightarrow> 'w \<Rightarrow> 'w fs_err) option"
  i_Chtimes :: "'f \<Rightarrow> (string \<Rightarrow> time \<Rightarrow> time \<Rightarrow> 'w \<Rightarrow> 'w fs_err) option"
  i_ReadDir :: "'f \<Rightarrow> (string \<Rightarrow> 'w \<Rightarrow> ('d list \<times> err option \<times> 'w) option) option"
  i_ReadFile :: "'f \<Rightarrow> (string \<Rightarrow> 'w \<Rightarrow> (byte list \<times> err option \<times> 'w) option) option"
  i_WriteFile :: "'f \<Rightarrow> (string \<Rightarrow> byte list \<Rightarrow> file_mode \<Rightarrow> 'w \<Rightarrow> 'w fs_err) option"
  i_Symlink :: "'f \<Rightarrow> (string \<Rightarrow> string \<Rightarrow> 'w \<Rightarrow> 'w fs_err) option"
  i_Mount :: "'f \<Rightarrow> (string \<Rightarrow> 'w \<Rightarrow> 'f \<times> string) option"
  rd_cap :: "nat \<Rightarrow> nat"

text \<open>
  \<open>rd_cap\<close> is not a method but the policy of the built-in \<open>append\<close>: by how much, beyond the one byte
  it needs, it grows a slice that is full.
\<close>


subsection \<open>Helpers on files (\<open>file.go\<close>)\<close>

text \<open>The common fallback: the error names the file by its \<open>Stat\<close>.\<close>

definition not_implemented ::
  "('h, 'i, 'd, 'w, 'z) file_iface_scheme \<Rightarrow> string \<Rightarrow> 'h \<Rightarrow> 'w \<Rightarrow> ('h, 'w) file_err" where
  "not_implemented I op f w =
     do {
       (r, f, w) \<leftarrow> fl_Stat I f w;
       Some (case r of Inl e \<Rightarrow> (Some e, f, w)
             | Inr info \<Rightarrow> (Some (PathError op (in_Name I info) ErrNotImplemented), f, w))
     }"

definition ChmodFile where
  "ChmodFile I f mode w =
     (case fl_Chmod I f of Some chmod \<Rightarrow> chmod mode w | None \<Rightarrow> not_implemented I ''chmod'' f w)"

definition ChownFile where
  "ChownFile I f uid gid w =
     (case fl_Chown I f of Some chown \<Rightarrow> chown uid gid w | None \<Rightarrow> not_implemented I ''chmod'' f w)"

definition ChtimesFile where
  "ChtimesFile I f atime mtime w =
     (case fl_Chtimes I f of Some chtimes \<Rightarrow> chtimes atime mtime w
      | None \<Rightarrow> not_implemented I ''chtimes'' f w)"

definition ReadAtFile ::
  "('h, 'i, 'd, 'w, 'z) file_iface_scheme \<Rightarrow> 'h \<Rightarrow> byte list \<Rightarrow> int \<Rightarrow> 'w \<Rightarrow> ('h, 'w) file_bytes" where
  "ReadAtFile I f p off w =
     (case fl_ReadAt I f of Some readAt \<Rightarrow> readAt p off w
      | None \<Rightarrow> do { (e, f, w) \<leftarrow> not_implemented I ''readat'' f w; Some (p, 0, e, f, w) })"

definition WriteFile ::
  "('h, 'i, 'd, 'w, 'z) file_iface_scheme \<Rightarrow> 'h \<Rightarrow> byte list \<Rightarrow> 'w \<Rightarrow> ('h, 'w) file_count" where
  "WriteFile I f p w =
     (case fl_Write I f of Some write \<Rightarrow> write p w
      | None \<Rightarrow> do { (e, f, w) \<leftarrow> not_implemented I ''write'' f w; Some (0, e, f, w) })"

definition WriteAtFile ::
  "('h, 'i, 'd, 'w, 'z) file_iface_scheme \<Rightarrow> 'h \<Rightarrow> byte list \<Rightarrow> int \<Rightarrow> 'w \<Rightarrow> ('h, 'w) file_count" where
  "WriteAtFile I f p off w =
     (case fl_WriteAt I f of Some writeAt \<Rightarrow> writeAt p off w
      | None \<Rightarrow> do { (e, f, w) \<leftarrow> not_implemented I ''writeat'' f w; Some (0, e, f, w) })"

definition ReadDirFile where
  "ReadDirFile I f n w =
     (case fl_ReadDir I f of Some readDir \<Rightarrow> readDir n w
      | None \<Rightarrow> do { (e, f, w) \<leftarrow> not_implemented I ''readdir'' f w; Some ([], e, f, w) })"

definition SeekFile ::
  "('h, 'i, 'd, 'w, 'z) file_iface_scheme \<Rightarrow> 'h \<Rightarrow> int \<Rightarrow> whence \<Rightarrow> 'w \<Rightarrow> ('h, 'w) file_count" where
  "SeekFile I f offset whence w =
     (case fl_Seek I f of Some seek \<Rightarrow> seek offset whence w
      | None \<Rightarrow> do { (e, f, w) \<leftarrow> not_implemented I ''seek'' f w; Some (0, e, f, w) })"

definition SyncFile where
  "SyncFile I f w =
     (case fl_Sync I f of Some sync \<Rightarrow> sync w | None \<Rightarrow> not_implemented I ''sync'' f w)"

definition TruncateFile where
  "TruncateFile I f sz w =
     (case fl_Truncate I f of Some trunc \<Rightarrow> trunc sz w
      | None \<Rightarrow> not_implemented I ''truncate'' f w)"


subsection \<open>Helpers on file systems (\<open>fs.go\<close>)\<close>

text \<open>
  \<open>newSubFS\<close> of \<open>sub.go\<close>, the fallback of \<open>Sub\<close>. The argument \<open>mk\<close> is the composite literal
  \<open>&subFS{basePath, rootFS}\<close> as a value of type \<open>FS\<close>.
\<close>

definition newSubFS :: "(string \<Rightarrow> 'f \<Rightarrow> 'f) \<Rightarrow> 'f \<Rightarrow> string \<Rightarrow> 'f option \<times> err option" where
  "newSubFS mk fs dir =
     (if \<not> ValidPath dir then (None, Some (PathError ''sub'' dir ErrInvalid))
      else (Some (mk dir fs), None))"

partial_function (option) Sub ::
  "(string \<Rightarrow> 'f \<Rightarrow> 'f) \<Rightarrow> ('f, 'h, 'i, 'd, 'w, 'z) fs_iface_scheme \<Rightarrow> 'f \<Rightarrow> string \<Rightarrow> 'w \<Rightarrow> ('f option \<times> err option \<times> 'w) option" where
  [code]: "Sub mk I fs dir w =
     (case i_Sub I fs of Some sub \<Rightarrow> sub dir w
      | None \<Rightarrow> (case i_Mount I fs of
          Some mount \<Rightarrow> (let (mountFS, subPath) = mount dir w in do {
            (sub, e, w) \<leftarrow> Sub mk I mountFS subPath w;
            Some (sub, stripErrPathPrefix e dir subPath, w)
          })
        | None \<Rightarrow> (let (sub, e) = newSubFS mk fs dir in Some (sub, e, w))))"

partial_function (option) OpenFile ::
  "('f, 'h, 'i, 'd, 'w, 'z) fs_iface_scheme \<Rightarrow> 'f \<Rightarrow> string \<Rightarrow> flag \<Rightarrow> file_mode \<Rightarrow> 'w \<Rightarrow> ('h, 'w) fs_file" where
  [code]: "OpenFile I fs name flag perm w =
     (if flag = FlagReadOnly then i_Open I fs name w
      else (case i_OpenFile I fs of Some openFile \<Rightarrow> openFile name flag perm w
      | None \<Rightarrow> (case i_Mount I fs of
          Some mount \<Rightarrow> (let (mountFS, subPath) = mount name w in do {
            (f, e, w) \<leftarrow> OpenFile I mountFS subPath flag perm w;
            Some (f, stripErrPathPrefix e name subPath, w)
          })
        | None \<Rightarrow> Some (None, Some (PathError ''open'' name ErrNotImplemented), w))))"

definition Create where
  "Create I fs name w =
     (case i_Create I fs of Some create \<Rightarrow> create name w
      | None \<Rightarrow> OpenFile I fs name (FlagReadWrite OR FlagCreate OR FlagTruncate) 0x1B6 w)"

partial_function (option) Mkdir ::
  "('f, 'h, 'i, 'd, 'w, 'z) fs_iface_scheme \<Rightarrow> 'f \<Rightarrow> string \<Rightarrow> file_mode \<Rightarrow> 'w \<Rightarrow> 'w fs_err" where
  [code]: "Mkdir I fs name perm w =
     (case i_Mkdir I fs of Some mkdir \<Rightarrow> mkdir name perm w
      | None \<Rightarrow> (case i_Mount I fs of
          Some mount \<Rightarrow> (let (mountFS, subPath) = mount name w in do {
            (e, w) \<leftarrow> Mkdir I mountFS subPath perm w;
            Some (stripErrPathPrefix e name subPath, w)
          })
        | None \<Rightarrow> Some (Some (PathError ''mkdir'' name ErrNotImplemented), w)))"

partial_function (option) Remove ::
  "('f, 'h, 'i, 'd, 'w, 'z) fs_iface_scheme \<Rightarrow> 'f \<Rightarrow> string \<Rightarrow> 'w \<Rightarrow> 'w fs_err" where
  [code]: "Remove I fs name w =
     (case i_Remove I fs of Some remove \<Rightarrow> remove name w
      | None \<Rightarrow> (case i_Mount I fs of
          Some mount \<Rightarrow> (let (mountFS, subPath) = mount name w in do {
            (e, w) \<leftarrow> Remove I mountFS subPath w;
            Some (stripErrPathPrefix e name subPath, w)
          })
        | None \<Rightarrow> Some (Some (PathError ''remove'' name ErrNotImplemented), w)))"

definition Rename where
  "Rename I fs oldName newName w =
     (case i_Rename I fs of Some rename \<Rightarrow> rename oldName newName w
      | None \<Rightarrow> Some (Some (LinkError ''rename'' oldName newName ErrNotImplemented), w))"

partial_function (option) Stat ::
  "('f, 'h, 'i, 'd, 'w, 'z) fs_iface_scheme \<Rightarrow> 'f \<Rightarrow> string \<Rightarrow> 'w \<Rightarrow> ('i, 'w) fs_info" where
  [code]: "Stat I fs name w =
     (case i_Stat I fs of Some stat \<Rightarrow> stat name w
      | None \<Rightarrow> (case i_Mount I fs of
          Some mount \<Rightarrow> (let (mountFS, subPath) = mount name w in do {
            (r, w) \<leftarrow> Stat I mountFS subPath w;
            Some (case r of Inl e \<Rightarrow> Inl (the (stripErrPathPrefix (Some e) name subPath)) | Inr i \<Rightarrow> Inr i, w)
          })
        | None \<Rightarrow> do {
            (f, e, w) \<leftarrow> i_Open I fs name w;
            (case e of
               Some e \<Rightarrow> Some (Inl e, w)
             | None \<Rightarrow> do {
                 f \<leftarrow> f;
                 (r, f, w) \<leftarrow> fl_Stat I f w;
                 (_, _, w) \<leftarrow> fl_Close I f w;
                 Some (r, w)
               })
          }))"

partial_function (option) Lstat ::
  "('f, 'h, 'i, 'd, 'w, 'z) fs_iface_scheme \<Rightarrow> 'f \<Rightarrow> string \<Rightarrow> 'w \<Rightarrow> ('i, 'w) fs_info" where
  [code]: "Lstat I fs name w =
     (case i_Lstat I fs of Some lstat \<Rightarrow> lstat name w
      | None \<Rightarrow> (case i_Mount I fs of
          Some mount \<Rightarrow> (let (mountFS, subPath) = mount name w in do {
            (r, w) \<leftarrow> Lstat I mountFS subPath w;
            Some (case r of Inl e \<Rightarrow> Inl (the (stripErrPathPrefix (Some e) name subPath)) | Inr i \<Rightarrow> Inr i, w)
          })
        | None \<Rightarrow> Some (Inl (PathError ''lstat'' name ErrNotImplemented), w)))"

partial_function (option) LstatOrStat ::
  "('f, 'h, 'i, 'd, 'w, 'z) fs_iface_scheme \<Rightarrow> 'f \<Rightarrow> string \<Rightarrow> 'w \<Rightarrow> ('i, 'w) fs_info" where
  [code]: "LstatOrStat I fs name w =
     (case i_Mount I fs of
        Some mount \<Rightarrow> (let (mountFS, subPath) = mount name w in do {
          (r, w) \<leftarrow> LstatOrStat I mountFS subPath w;
          Some (case r of Inl e \<Rightarrow> Inl (the (stripErrPathPrefix (Some e) name subPath)) | Inr i \<Rightarrow> Inr i, w)
        })
      | None \<Rightarrow> do {
          (r, w) \<leftarrow> Lstat I fs name w;
          (case r of Inl e \<Rightarrow> if errors_Is e ErrNotImplemented then Stat I fs name w else Some (r, w)
           | Inr _ \<Rightarrow> Some (r, w))
        })"

text \<open>\<open>Chmod\<close>, \<open>Chown\<close> and \<open>Chtimes\<close> open the file, run the file helper, and close the file.\<close>

definition with_file ::
  "('f, 'h, 'i, 'd, 'w, 'z) fs_iface_scheme \<Rightarrow> string \<Rightarrow> 'f \<Rightarrow> string \<Rightarrow> ('h \<Rightarrow> 'w \<Rightarrow> ('h, 'w) file_err) \<Rightarrow>
   'w \<Rightarrow> 'w fs_err" where
  "with_file I op fs name act w =
     do {
       (f, e, w) \<leftarrow> i_Open I fs name w;
       (case e of
          Some e \<Rightarrow> Some (Some (PathError op name e), w)
        | None \<Rightarrow> do {
            f \<leftarrow> f;
            (e, f, w) \<leftarrow> act f w;
            (_, _, w) \<leftarrow> fl_Close I f w;
            Some (e, w)
          })
     }"

partial_function (option) Chmod ::
  "('f, 'h, 'i, 'd, 'w, 'z) fs_iface_scheme \<Rightarrow> 'f \<Rightarrow> string \<Rightarrow> file_mode \<Rightarrow> 'w \<Rightarrow> 'w fs_err" where
  [code]: "Chmod I fs name mode w =
     (case i_Chmod I fs of Some chmod \<Rightarrow> chmod name mode w
      | None \<Rightarrow> (case i_Mount I fs of
          Some mount \<Rightarrow> (let (mountFS, subPath) = mount name w in do {
            (e, w) \<leftarrow> Chmod I mountFS subPath mode w;
            Some (stripErrPathPrefix e name subPath, w)
          })
        | None \<Rightarrow> with_file I ''chmod'' fs name (\<lambda>f. ChmodFile I f mode) w))"

partial_function (option) Chown ::
  "('f, 'h, 'i, 'd, 'w, 'z) fs_iface_scheme \<Rightarrow> 'f \<Rightarrow> string \<Rightarrow> int \<Rightarrow> int \<Rightarrow> 'w \<Rightarrow> 'w fs_err" where
  [code]: "Chown I fs name uid gid w =
     (case i_Chown I fs of Some chown \<Rightarrow> chown name uid gid w
      | None \<Rightarrow> (case i_Mount I fs of
          Some mount \<Rightarrow> (let (mountFS, subPath) = mount name w in do {
            (e, w) \<leftarrow> Chown I mountFS subPath uid gid w;
            Some (stripErrPathPrefix e name subPath, w)
          })
        | None \<Rightarrow> with_file I ''chown'' fs name (\<lambda>f. ChownFile I f uid gid) w))"

partial_function (option) Chtimes ::
  "('f, 'h, 'i, 'd, 'w, 'z) fs_iface_scheme \<Rightarrow> 'f \<Rightarrow> string \<Rightarrow> time \<Rightarrow> time \<Rightarrow> 'w \<Rightarrow> 'w fs_err" where
  [code]: "Chtimes I fs name atime mtime w =
     (case i_Chtimes I fs of Some chtimes \<Rightarrow> chtimes name atime mtime w
      | None \<Rightarrow> (case i_Mount I fs of
          Some mount \<Rightarrow> (let (mountFS, subPath) = mount name w in do {
            (e, w) \<leftarrow> Chtimes I mountFS subPath atime mtime w;
            Some (stripErrPathPrefix e name subPath, w)
          })
        | None \<Rightarrow> with_file I ''chtimes'' fs name (\<lambda>f. ChtimesFile I f atime mtime) w))"


text \<open>
  \<open>ReadDir\<close> and \<open>ReadFile\<close> of the standard package \<open>io/fs\<close>, on a value without these methods (the
  callers have tried them). \<open>ReadFile\<close> starts with a buffer of the size that \<open>Stat\<close> reports plus one
  byte, grows the buffer when it is full, and reads until an error or \<open>io.EOF\<close>.
\<close>

definition gofs_ReadDir ::
  "('f, 'h, 'i, 'd, 'w, 'z) fs_iface_scheme \<Rightarrow> 'f \<Rightarrow> string \<Rightarrow> 'w \<Rightarrow> ('d list \<times> err option \<times> 'w) option" where
  "gofs_ReadDir I fs name w =
     do {
       (f, e, w) \<leftarrow> i_Open I fs name w;
       (case e of
          Some e \<Rightarrow> Some ([], Some e, w)
        | None \<Rightarrow> do {
            f \<leftarrow> f;
            (case fl_ReadDir I f of
               None \<Rightarrow> do {
                 (_, _, w) \<leftarrow> fl_Close I f w;
                 Some ([], Some (PathError ''readdir'' name (ErrorString ''not implemented'')), w)
               }
             | Some readDir \<Rightarrow> do {
                 (list, e, f, w) \<leftarrow> readDir (-1) w;
                 (_, _, w) \<leftarrow> fl_Close I f w;
                 Some (sort_key (de_Name I) list, e, w)
               })
          })
     }"

partial_function (option) read_all ::
  "('f, 'h, 'i, 'd, 'w, 'z) fs_iface_scheme \<Rightarrow> 'h \<Rightarrow> byte list \<Rightarrow> nat \<Rightarrow> 'w \<Rightarrow>
   (byte list \<times> err option \<times> 'h \<times> 'w) option" where
  [code]: "read_all I f data cap w =
     (let cap = (if cap \<le> length data then cap + 1 + rd_cap I cap else cap) in
      do {
        (buf, n, e, f, w) \<leftarrow> fl_Read I f (replicate (cap - length data) 0) w;
        (if n < 0 \<or> int (cap - length data) < n then None
         else
           (let data = data @ take (nat n) buf in
            case e of
              Some e \<Rightarrow> Some (data, if e = EOF then None else Some e, f, w)
            | None \<Rightarrow> read_all I f data cap w))
      })"

definition gofs_ReadFile ::
  "('f, 'h, 'i, 'd, 'w, 'z) fs_iface_scheme \<Rightarrow> 'f \<Rightarrow> string \<Rightarrow> 'w \<Rightarrow> (byte list \<times> err option \<times> 'w) option" where
  "gofs_ReadFile I fs name w =
     do {
       (f, e, w) \<leftarrow> i_Open I fs name w;
       (case e of
          Some e \<Rightarrow> Some ([], Some e, w)
        | None \<Rightarrow> do {
            f \<leftarrow> f;
            (r, f, w) \<leftarrow> fl_Stat I f w;
            sz \<leftarrow> (case r of Inl _ \<Rightarrow> Some 0 | Inr info \<Rightarrow> in_Size I info w);
            if sz < -1 then None
            else do {
              (data, e, f, w) \<leftarrow> read_all I f [] (nat (sz + 1)) w;
              (_, _, w) \<leftarrow> fl_Close I f w;
              Some (data, e, w)
            }
          })
     }"

partial_function (option) ReadDir ::
  "('f, 'h, 'i, 'd, 'w, 'z) fs_iface_scheme \<Rightarrow> 'f \<Rightarrow> string \<Rightarrow> 'w \<Rightarrow> ('d list \<times> err option \<times> 'w) option" where
  [code]: "ReadDir I fs name w =
     (case i_ReadDir I fs of Some readDir \<Rightarrow> readDir name w
      | None \<Rightarrow> (case i_Mount I fs of
          Some mount \<Rightarrow> (let (mountFS, subPath) = mount name w in do {
            (dirEntries, e, w) \<leftarrow> ReadDir I mountFS subPath w;
            Some (dirEntries, stripErrPathPrefix e name subPath, w)
          })
        | None \<Rightarrow> gofs_ReadDir I fs name w))"

partial_function (option) ReadFile ::
  "('f, 'h, 'i, 'd, 'w, 'z) fs_iface_scheme \<Rightarrow> 'f \<Rightarrow> string \<Rightarrow> 'w \<Rightarrow> (byte list \<times> err option \<times> 'w) option" where
  [code]: "ReadFile I fs name w =
     (case i_ReadFile I fs of Some readFile \<Rightarrow> readFile name w
      | None \<Rightarrow> (case i_Mount I fs of
          Some mount \<Rightarrow> (let (mountFS, subPath) = mount name w in do {
            (b, e, w) \<leftarrow> ReadFile I mountFS subPath w;
            Some (b, stripErrPathPrefix e name subPath, w)
          })
        | None \<Rightarrow> gofs_ReadFile I fs name w))"

partial_function (option) WriteFullFile ::
  "('f, 'h, 'i, 'd, 'w, 'z) fs_iface_scheme \<Rightarrow> 'f \<Rightarrow> string \<Rightarrow> byte list \<Rightarrow> file_mode \<Rightarrow> 'w \<Rightarrow> 'w fs_err" where
  [code]: "WriteFullFile I fs name data perm w =
     (case i_WriteFile I fs of Some writeFile \<Rightarrow> writeFile name data perm w
      | None \<Rightarrow> (case i_Mount I fs of
          Some mount \<Rightarrow> (let (mountFS, subPath) = mount name w in do {
            (e, w) \<leftarrow> WriteFullFile I mountFS subPath data perm w;
            Some (stripErrPathPrefix e name subPath, w)
          })
        | None \<Rightarrow> do {
            (f, e, w) \<leftarrow> OpenFile I fs name (FlagWriteOnly OR FlagCreate OR FlagTruncate) perm w;
            (case e of
               Some e \<Rightarrow> Some (Some e, w)
             | None \<Rightarrow> do {
                 f \<leftarrow> f;
                 (_, e, f, w) \<leftarrow> WriteFile I f data w;
                 (closeErr, _, w) \<leftarrow> fl_Close I f w;
                 Some (if e = None then closeErr else e, w)
               })
          }))"

definition Symlink where
  "Symlink I fs oldname newname w =
     (case i_Symlink I fs of Some symlink \<Rightarrow> symlink oldname newname w
      | None \<Rightarrow> Some (Some (LinkError ''symlink'' oldname newname ErrNotImplemented), w))"


subsection \<open>\<open>MkdirAll\<close> and \<open>RemoveAll\<close>\<close>

text \<open>The values \<open>path[:i]\<close> for the positions \<open>i\<close> of a slash, in order.\<close>

definition slash_prefixes :: "string \<Rightarrow> string list" where
  "slash_prefixes path = map (\<lambda>i. take i path) (filter (\<lambda>i. path ! i = slash) [0..<length path])"

definition mkdir_prefix ::
  "('f, 'h, 'i, 'd, 'w, 'z) fs_iface_scheme \<Rightarrow> 'f \<Rightarrow> file_mode \<Rightarrow> string \<Rightarrow> 'w \<Rightarrow> 'w fs_err" where
  "mkdir_prefix I fs perm p w =
     do {
       (e, w) \<leftarrow> Mkdir I fs p perm w;
       (case e of
          Some (PathError op q e') \<Rightarrow>
            if \<not> errors_Is e' ErrExist then Some (e, w)
            else do {
              (r, w) \<leftarrow> Stat I fs q w;
              (case r of
                 Inl _ \<Rightarrow> Some (e, w)
               | Inr info \<Rightarrow> do {
                   m \<leftarrow> in_Mode I info;
                   Some (if \<not> IsDir m then Some (PathError ''mkdir'' q ErrNotDir) else None, w)
                 })
            }
        | _ \<Rightarrow> Some (e, w))
     }"

partial_function (option) MkdirAll ::
  "('f, 'h, 'i, 'd, 'w, 'z) fs_iface_scheme \<Rightarrow> 'f \<Rightarrow> string \<Rightarrow> file_mode \<Rightarrow> 'w \<Rightarrow> 'w fs_err" where
  [code]: "MkdirAll I fs path perm w =
     (case i_MkdirAll I fs of Some mkdirAll \<Rightarrow> mkdirAll path perm w
      | None \<Rightarrow> (case i_Mount I fs of
          Some mount \<Rightarrow> (let (mountFS, subPath) = mount path w in do {
            (e, w) \<leftarrow> MkdirAll I mountFS subPath perm w;
            Some (stripErrPathPrefix e path subPath, w)
          })
        | None \<Rightarrow>
            if \<not> ValidPath path then Some (Some (PathError ''mkdirall'' path ErrInvalid), w)
            else do {
              (e, w) \<leftarrow> until_err (mkdir_prefix I fs perm) (slash_prefixes path) w;
              if e \<noteq> None then Some (e, w) else Mkdir I fs path perm w
            }))"

partial_function (option) removeAll ::
  "('f, 'h, 'i, 'd, 'w, 'z) fs_iface_scheme \<Rightarrow> 'f \<Rightarrow> string \<Rightarrow> 'w \<Rightarrow> 'w fs_err" where
  [code]: "removeAll I fs path w =
     do {
       (r, w) \<leftarrow> Stat I fs path w;
       (case r of
          Inl e \<Rightarrow> Some (if errors_Is e ErrNotExist then None else Some e, w)
        | Inr info \<Rightarrow> do {
            m \<leftarrow> in_Mode I info;
            if \<not> IsDir m then do {
              (e, w) \<leftarrow> Remove I fs path w;
              Some (if is_err e ErrNotExist then None else e, w)
            }
            else do {
              (dir, e, w) \<leftarrow> ReadDir I fs path w;
              (case e of
                 Some e \<Rightarrow> Some (Some (PathError ''removeall'' path e), w)
               | None \<Rightarrow> do {
                   (e, w) \<leftarrow> until_err (\<lambda>dirEntry w. removeAll I fs (Join [path, de_Name I dirEntry]) w) dir w;
                   (case e of
                      Some e \<Rightarrow> Some (Some (PathError ''removeall'' path e), w)
                    | None \<Rightarrow> do {
                        (_, w) \<leftarrow> Remove I fs path w;
                        Some (None, w)
                      })
                 })
            }
          })
     }"

partial_function (option) RemoveAll ::
  "('f, 'h, 'i, 'd, 'w, 'z) fs_iface_scheme \<Rightarrow> 'f \<Rightarrow> string \<Rightarrow> 'w \<Rightarrow> 'w fs_err" where
  [code]: "RemoveAll I fs path w =
     (case i_RemoveAll I fs of Some rmAll \<Rightarrow> rmAll path w
      | None \<Rightarrow> (case i_Mount I fs of
          Some mount \<Rightarrow> (let (mountFS, subPath) = mount path w in do {
            (e, w) \<leftarrow> RemoveAll I mountFS subPath w;
            Some (stripErrPathPrefix e path subPath, w)
          })
        | None \<Rightarrow>
            if \<not> ValidPath path then Some (Some (PathError ''removeall'' path ErrInvalid), w)
            else removeAll I fs path w))"

end
