(* ===== verification/FS_Contract.thy ===== *)
theory FS_Contract
  imports HackpadFS KV_Dirs KV_Rename
begin

section \<open>What the helpers of \<open>hackpadfs\<close> rely on\<close>

text \<open>
  The helper \<open>RemoveAll\<close> falls back to \<open>Stat\<close>, \<open>ReadDir\<close> and \<open>Remove\<close>. The locale \<open>tree_fs\<close> states
  what it needs of them: they always return, keep the invariant, and act on the abstract tree of
  files. Inside the locale \<open>RemoveAll\<close> is shown to return and to delete exactly the subtree; the
  in-memory file system interprets it.
\<close>

text \<open>The paths at or below a path, and the tree without them.\<close>

definition at_or_below :: "string list \<Rightarrow> string \<Rightarrow> bool" where
  "at_or_below es q \<longleftrightarrow> ValidPath q \<and> prefix es (elems q)"

definition prune :: "string list \<Rightarrow> fs_tree \<Rightarrow> fs_tree" where
  "prune es fs = (\<lambda>q. if at_or_below es q then None else fs q)"

definition closed_below :: "fs_tree \<Rightarrow> string list \<Rightarrow> bool" where
  "closed_below fs a \<longleftrightarrow>
     (\<forall>es e. list_all ok_elem (es @ [e]) \<longrightarrow> prefix a es \<longrightarrow> fs (path_of (es @ [e])) \<noteq> None \<longrightarrow>
        is_dir fs (path_of es))"

lemma closed_below_tree: "tree_closed fs \<Longrightarrow> closed_below fs a"
  unfolding closed_below_def
proof (intro allI impI)
  fix es e
  assume "tree_closed fs" "list_all ok_elem (es @ [e])" "fs (path_of (es @ [e])) \<noteq> None"
  then show "is_dir fs (path_of es)"
    using Dir_snoc [of es e] path_of_eq_dot [of "es @ [e]"] by (auto simp: tree_closed_def)
qed

lemma is_dir_present: "is_dir fs p \<Longrightarrow> fs p \<noteq> None"
  by (auto simp: is_dir_def split: option.splits)

lemma closed_below_up:
  assumes "closed_below fs a" "prefix a es" "es \<noteq> es @ gs" "list_all ok_elem (es @ gs)"
    "fs (path_of (es @ gs)) \<noteq> None"
  shows "is_dir fs (path_of es)"
  using assms(3-5)
proof (induction gs rule: rev_induct)
  case (snoc g gs)
  have "prefix a (es @ gs)" using assms(2) by (auto simp: prefix_def)
  then have d: "is_dir fs (path_of (es @ gs))"
    using assms(1) snoc(3,4) unfolding closed_below_def by (metis append_assoc)
  show ?case
  proof (cases "gs = []")
    case False
    then show ?thesis using snoc d is_dir_present by simp
  qed (use d in simp)
qed simp

lemma at_or_below_path_of [simp]: "list_all ok_elem es \<Longrightarrow> at_or_below a (path_of es) \<longleftrightarrow> prefix a es"
  by (simp add: at_or_below_def)

lemma finite_below_dom: "finite (dom fs) \<Longrightarrow> finite (below fs a)"
proof -
  assume "finite (dom fs)"
  moreover have "below fs a \<subseteq> elems ` dom fs" unfolding below_def by force
  ultimately show ?thesis by (meson finite_imageI finite_subset)
qed

text \<open>The tree after the children in \<open>C\<close> have been removed.\<close>

definition pruned :: "string list \<Rightarrow> string set \<Rightarrow> fs_tree \<Rightarrow> fs_tree" where
  "pruned a C fs = (\<lambda>q. if \<exists>c \<in> C. at_or_below (a @ [c]) q then None else fs q)"

lemma pruned_empty [simp]: "pruned a {} fs = fs"
  by (simp add: pruned_def)

lemma pruned_step: "prune (a @ [c]) (pruned a C fs) = pruned a (insert c C) fs"
  by (auto simp: prune_def pruned_def fun_eq_iff)

lemma pruned_present: "pruned a C fs q \<noteq> None \<Longrightarrow> fs q \<noteq> None"
  by (auto simp: pruned_def split: if_splits)

lemma closed_pruned:
  assumes "closed_below fs a"
  shows "closed_below (pruned a C fs) (a @ [c])"
  unfolding closed_below_def
proof (intro allI impI)
  fix es e
  assume es: "list_all ok_elem (es @ [e])" "prefix (a @ [c]) es" "pruned a C fs (path_of (es @ [e])) \<noteq> None"
  then have "is_dir fs (path_of es)"
    using assms pruned_present [OF es(3)] prefix_child [OF es(2)] by (auto simp: closed_below_def)
  moreover have "\<not> (\<exists>c \<in> C. prefix (a @ [c]) es)"
    using es(1,3) by (auto simp: pruned_def split: if_splits)
  ultimately show "is_dir (pruned a C fs) (path_of es)"
    using es(1) by (simp add: is_dir_def pruned_def)
qed

lemma prune_leaf:
  assumes "closed_below fs a" "list_all ok_elem a" "\<not> is_dir fs (path_of a)" "\<And>p. fs p \<noteq> None \<Longrightarrow> ValidPath p"
  shows "prune a fs = fs(path_of a := None)"
proof (rule ext)
  fix q
  have "fs q = None" if here: "at_or_below a q" "q \<noteq> path_of a"
  proof (rule ccontr)
    assume n: "fs q \<noteq> None"
    have "ValidPath q" using here by (simp add: at_or_below_def)
    then have q: "list_all ok_elem (elems q)" "path_of (elems q) = q" using ValidPath_elems by auto
    obtain gs where gs: "elems q = a @ gs" using here by (auto simp: at_or_below_def prefix_def)
    with here q have "gs \<noteq> []" by auto
    then have "is_dir fs (path_of a)"
      using closed_below_up [OF assms(1), of a gs] q n gs by simp
    with assms(3) show False by simp
  qed
  then show "prune a fs q = (fs(path_of a := None)) q"
    using assms(2) by (auto simp: prune_def)
qed

lemma prune_children:
  assumes "closed_below fs a" "list_all ok_elem a" "\<And>p. fs p \<noteq> None \<Longrightarrow> ValidPath p"
  shows "(pruned a (children fs (path_of a)) fs)(path_of a := None) = prune a fs"
proof (rule ext)
  fix q
  let ?C = "children fs (path_of a)"
  have C: "?C = {c. ok_elem c \<and> fs (path_of (a @ [c])) \<noteq> None}"
    using children_path_of [OF assms(3,2)] .
  have "\<exists>c \<in> ?C. at_or_below (a @ [c]) q" if here: "at_or_below a q" "q \<noteq> path_of a" "fs q \<noteq> None"
  proof -
    have q: "list_all ok_elem (elems q)" "path_of (elems q) = q" using ValidPath_elems assms(3) here by auto
    obtain gs where gs: "elems q = a @ gs" using here by (auto simp: at_or_below_def prefix_def)
    with here q obtain c hs where hs: "gs = c # hs" by (cases gs) auto
    have "fs (path_of (a @ [c])) \<noteq> None"
    proof (cases "hs = []")
      case False
      then have "is_dir fs (path_of (a @ [c]))"
        using closed_below_up [OF assms(1), of "a @ [c]" hs] q gs hs here(3) by simp
      then show ?thesis by (rule is_dir_present)
    qed (use gs hs q here in auto)
    then show ?thesis using C q gs hs here(1) by (auto simp: at_or_below_def prefix_def)
  qed
  moreover have "at_or_below a q" if "at_or_below (a @ [c]) q" for c
    using that prefix_child by (auto simp: at_or_below_def)
  ultimately show "((pruned a ?C fs)(path_of a := None)) q = prune a fs q"
    using assms(2) by (cases "fs q = None") (auto simp: pruned_def prune_def)
qed

locale tree_fs =
  fixes I :: "('f, 'h, 'i, 'd, 'w, 'z) fs_iface_scheme"
    and fs :: 'f
    and good :: "'w \<Rightarrow> bool"
    and files :: "'w \<Rightarrow> fs_tree"
  assumes stat_law: "good w \<Longrightarrow> ValidPath p \<Longrightarrow>
      \<exists>r w'. Stat I fs p w = Some (r, w') \<and> good w' \<and> files w' = files w
        \<and> (case files w p of
             None \<Rightarrow> (\<exists>e. r = Inl e \<and> errors_Is e ErrNotExist)
           | Some nd \<Rightarrow> (\<exists>i. r = Inr i \<and> in_Mode I i = Some (n_mode nd)))"
    and readdir_law: "good w \<Longrightarrow> is_dir (files w) p \<Longrightarrow>
      \<exists>ds w'. ReadDir I fs p w = Some (ds, None, w') \<and> good w' \<and> files w' = files w
        \<and> distinct (map (de_Name I) ds) \<and> set (map (de_Name I) ds) = children (files w) p"
    and remove_law: "good w \<Longrightarrow> ValidPath p \<Longrightarrow> files w p \<noteq> None \<Longrightarrow>
      is_dir (files w) p \<longrightarrow> children (files w) p = {} \<Longrightarrow>
      \<exists>w'. Remove I fs p w = Some (None, w') \<and> good w' \<and> files w' = (files w)(p := None)"
    and valid_law: "good w \<Longrightarrow> files w p \<noteq> None \<Longrightarrow> ValidPath p"
    and finite_files: "good w \<Longrightarrow> finite (dom (files w))"
begin

lemma removeAll_children:
  assumes IH: "\<And>c w. c \<in> children F (path_of a) \<Longrightarrow> good w \<Longrightarrow> (\<exists>C. files w = pruned a C F) \<Longrightarrow>
      \<exists>w'. removeAll I fs (path_of (a @ [c])) w = Some (None, w') \<and> good w' \<and> files w' = prune (a @ [c]) (files w)"
    and "good w" "files w = pruned a C F" "set (map (de_Name I) ds) \<subseteq> children F (path_of a)"
    and a: "list_all ok_elem a" "\<forall>c \<in> children F (path_of a). ok_elem c"
  shows "\<exists>w'. until_err (\<lambda>d w. removeAll I fs (Join [path_of a, de_Name I d]) w) ds w = Some (None, w')
    \<and> good w' \<and> files w' = pruned a (C \<union> set (map (de_Name I) ds)) F"
  using assms(2-4)
proof (induction ds arbitrary: w C)
  case (Cons d ds)
  let ?c = "de_Name I d"
  have c: "?c \<in> children F (path_of a)" using Cons.prems by simp
  obtain w1 where w1: "removeAll I fs (path_of (a @ [?c])) w = Some (None, w1)" "good w1"
      "files w1 = pruned a (insert ?c C) F"
    using IH [OF c Cons.prems(1)] Cons.prems(2) pruned_step by metis
  have j: "Join [path_of a, ?c] = path_of (a @ [?c])" using Join_elem a c by simp
  obtain w2 where "until_err (\<lambda>d w. removeAll I fs (Join [path_of a, de_Name I d]) w) ds w1 = Some (None, w2)"
      "good w2" "files w2 = pruned a (insert ?c C \<union> set (map (de_Name I) ds)) F"
    using Cons.IH [OF w1(2,3)] Cons.prems(3) by auto
  then show ?case using w1(1) j by simp
qed simp

lemma removeAll_dir:
  assumes "good w" "list_all ok_elem a" "closed_below (files w) a" "is_dir (files w) (path_of a)"
    and step: "\<And>c u. c \<in> children (files w) (path_of a) \<Longrightarrow> good u \<Longrightarrow> (\<exists>C. files u = pruned a C (files w)) \<Longrightarrow>
      \<exists>w'. removeAll I fs (path_of (a @ [c])) u = Some (None, w') \<and> good w' \<and> files w' = prune (a @ [c]) (files u)"
  shows "\<exists>w'. removeAll I fs (path_of a) w = Some (None, w') \<and> good w' \<and> files w' = prune a (files w)"
proof -
  let ?p = "path_of a" and ?F = "files w"
  have v: "ValidPath ?p" using assms(2) by simp
  have vt: "\<And>p. ?F p \<noteq> None \<Longrightarrow> ValidPath p" using valid_law [OF assms(1)] .
  obtain nd where nd: "?F ?p = Some nd" "IsDir (n_mode nd)" using assms(4) by (auto simp: is_dir_def split: option.splits)
  obtain i w1 where st: "Stat I fs ?p w = Some (Inr i, w1)" "good w1" "files w1 = ?F" "in_Mode I i = Some (n_mode nd)"
    using stat_law [OF assms(1) v] nd(1) by fastforce
  obtain ds w2 where rd: "ReadDir I fs ?p w1 = Some (ds, None, w2)" "good w2" "files w2 = ?F"
      "set (map (de_Name I) ds) = children ?F ?p"
    using readdir_law [OF st(2)] st(3) assms(4) by metis
  have C: "children ?F ?p = {c. ok_elem c \<and> ?F (path_of (a @ [c])) \<noteq> None}"
    using children_path_of [OF vt assms(2)] .
  have "files w2 = pruned a {} ?F" "set (map (de_Name I) ds) \<subseteq> children ?F ?p"
    "\<forall>c \<in> children ?F ?p. ok_elem c" using rd(3,4) C by simp_all
  from removeAll_children [OF step rd(2) this(1,2) assms(2) this(3)]
  obtain w3 where w3: "until_err (\<lambda>d w. removeAll I fs (Join [?p, de_Name I d]) w) ds w2 = Some (None, w3)"
      "good w3" "files w3 = pruned a (children ?F ?p) ?F"
    using rd(4) by auto
  have gone: "files w3 (path_of (a @ [c])) = None" if "ok_elem c" for c
    using that w3(3) C assms(2) by (auto simp: pruned_def)
  have "children (files w3) ?p = {c. ok_elem c \<and> files w3 (path_of (a @ [c])) \<noteq> None}"
    using valid_law [OF w3(2)] by (intro children_path_of assms(2))
  then have "children (files w3) ?p = {}" using gone by auto
  moreover have "files w3 ?p = ?F ?p" using w3(3) assms(2) by (auto simp: pruned_def)
  ultimately obtain w4 where "Remove I fs ?p w3 = Some (None, w4)" "good w4" "files w4 = (files w3)(?p := None)"
    using remove_law [OF w3(2) v] nd by auto
  then show ?thesis
    using nd(2) st(1,4) rd(1) w3 prune_children [OF assms(3,2) vt] by (simp add: removeAll.simps [of I fs ?p w])
qed

lemma removeAll_leaf:
  assumes "good w" "list_all ok_elem a" "closed_below (files w) a" "\<not> is_dir (files w) (path_of a)"
  shows "\<exists>w'. removeAll I fs (path_of a) w = Some (None, w') \<and> good w' \<and> files w' = prune a (files w)"
proof -
  let ?p = "path_of a" and ?F = "files w"
  have v: "ValidPath ?p" using assms(2) by simp
  have pr: "prune a ?F = ?F(?p := None)"
    using prune_leaf [OF assms(3,2,4)] valid_law [OF assms(1)] by blast
  obtain r w1 where st: "Stat I fs ?p w = Some (r, w1)" "good w1" "files w1 = ?F"
      "case ?F ?p of None \<Rightarrow> (\<exists>e. r = Inl e \<and> errors_Is e ErrNotExist)
       | Some nd \<Rightarrow> (\<exists>i. r = Inr i \<and> in_Mode I i = Some (n_mode nd))"
    using stat_law [OF assms(1) v] by blast
  show ?thesis
  proof (cases "?F ?p")
    case None
    then have "prune a ?F = ?F" using pr by auto
    then show ?thesis using None st by (auto simp: removeAll.simps [of I fs ?p w])
  next
    case (Some nd)
    then obtain i where i: "r = Inr i" "in_Mode I i = Some (n_mode nd)" using st(4) by auto
    have "\<not> IsDir (n_mode nd)" using assms(4) Some by (simp add: is_dir_def)
    moreover obtain w2 where "Remove I fs ?p w1 = Some (None, w2)" "good w2" "files w2 = ?F(?p := None)"
      using remove_law [OF st(2) v] st(3) Some assms(4) by auto
    ultimately show ?thesis using st(1) i pr by (simp add: removeAll.simps [of I fs ?p w])
  qed
qed

lemma removeAll_prunes:
  assumes "good w" "list_all ok_elem a" "closed_below (files w) a"
  shows "\<exists>w'. removeAll I fs (path_of a) w = Some (None, w') \<and> good w' \<and> files w' = prune a (files w)"
  using assms
proof (induction "card (below (files w) a)" arbitrary: a w rule: less_induct)
  case less
  let ?F = "files w"
  show ?case
  proof (cases "is_dir ?F (path_of a)")
    case True
    have C: "children ?F (path_of a) = {c. ok_elem c \<and> ?F (path_of (a @ [c])) \<noteq> None}"
      using valid_law [OF less.prems(1)] by (intro children_path_of less.prems(2))
    show ?thesis
    proof (rule removeAll_dir [OF less.prems True])
      fix c u
      assume c: "c \<in> children ?F (path_of a)" and u: "good u" "\<exists>C. files u = pruned a C ?F"
      show "\<exists>w'. removeAll I fs (path_of (a @ [c])) u = Some (None, w') \<and> good w' \<and> files w' = prune (a @ [c]) (files u)"
      proof (rule less.hyps [OF _ u(1)])
        show ok: "list_all ok_elem (a @ [c])" using less.prems(2) c C by simp
        show "closed_below (files u) (a @ [c])" using u(2) closed_pruned [OF less.prems(3)] by auto
        have "below (files u) (a @ [c]) \<subseteq> below ?F a"
          using u(2) pruned_present by (fastforce simp: below_def strict_prefix_def dest: prefix_child)
        moreover have "a @ [c] \<in> below ?F a" "a @ [c] \<notin> below (files u) (a @ [c])"
          using c C ok by (auto simp: below_def strict_prefix_def)
        moreover have "finite (below ?F a)"
          using finite_files [OF less.prems(1)] by (rule finite_below_dom)
        ultimately show "card (below (files u) (a @ [c])) < card (below ?F a)"
          by (metis psubsetI psubset_card_mono)
      qed
    qed
  next
    case False
    then show ?thesis by (rule removeAll_leaf [OF less.prems])
  qed
qed

end

end
