(* ===== verification/Mount_FS.thy ===== *)
theory Mount_FS
  imports HackpadFS "HOL-Library.Multiset"
begin

section \<open>File systems at a directory and at mount points (\<open>sub.go\<close>, \<open>mount/fs.go\<close>)\<close>

text \<open>
  \<open>subFS\<close> roots a file system at a directory, \<open>mount.FS\<close> spreads several file systems over mount
  points. Both are \<open>MountFS\<close> values: the helpers of package \<open>hackpadfs\<close> ask \<open>Mount\<close> for the file system
  and the path to go on with. The content of the \<open>sync.Map\<close> of mounts is an association list; the
  order in which \<open>Range\<close> visits it is the parameter \<open>mnt_order\<close>.
\<close>

subsection \<open>\<open>subFS\<close>\<close>

definition sub_Mount :: "string \<Rightarrow> 'f \<Rightarrow> string \<Rightarrow> 'f \<times> string" where
  "sub_Mount basePath rootFS p =
     (if \<not> ValidPath p then (rootFS, p) else (rootFS, Join [basePath, p]))"

definition sub_Open ::
  "('f \<Rightarrow> string \<Rightarrow> 'w \<Rightarrow> ('h, 'w) fs_file) \<Rightarrow> string \<Rightarrow> 'f \<Rightarrow> string \<Rightarrow> 'w \<Rightarrow> ('h, 'w) fs_file" where
  "sub_Open open_fs basePath rootFS name w =
     (if \<not> ValidPath name then Some (None, Some (PathError ''open'' name ErrInvalid), w)
      else
        (let (mnt, subPath) = sub_Mount basePath rootFS name in do {
           (f, e, w) \<leftarrow> open_fs mnt subPath w;
           Some (f, stripErrPathPrefix e name subPath, w)
         }))"

text \<open>The values of type \<open>FS\<close> when \<open>subFS\<close> is added to file systems with methods \<open>I\<close>.\<close>

datatype 'f subbed = Root 'f | subFS (basePath: string) (rootFS: "'f subbed")

primrec subbed_Open ::
  "('f, 'h, 'i, 'd, 'w, 'z) fs_iface_scheme \<Rightarrow> 'f subbed \<Rightarrow> string \<Rightarrow> 'w \<Rightarrow> ('h, 'w) fs_file" where
  "subbed_Open I (Root fs) = i_Open I fs"
| "subbed_Open I (subFS base root) = sub_Open (\<lambda>_. subbed_Open I root) base root"

primrec on_root :: "('f \<Rightarrow> 'a option) \<Rightarrow> 'f subbed \<Rightarrow> 'a option" where
  "on_root m (Root fs) = m fs"
| "on_root m (subFS base root) = None"

definition with_sub ::
  "('f, 'h, 'i, 'd, 'w) fs_iface \<Rightarrow> ('f subbed, 'h, 'i, 'd, 'w) fs_iface" where
  "with_sub I =
     \<lparr>fl_Stat = fl_Stat I, fl_Read = fl_Read I, fl_Close = fl_Close I, fl_Write = fl_Write I,
      fl_ReadAt = fl_ReadAt I, fl_WriteAt = fl_WriteAt I, fl_ReadDir = fl_ReadDir I,
      fl_Seek = fl_Seek I, fl_Sync = fl_Sync I, fl_Truncate = fl_Truncate I, fl_Chmod = fl_Chmod I,
      fl_Chown = fl_Chown I, fl_Chtimes = fl_Chtimes I, in_Name = in_Name I, in_Mode = in_Mode I,
      in_Size = in_Size I, de_Name = de_Name I,
      i_Open = subbed_Open I,
      i_Sub = on_root (\<lambda>fs. map_option (\<lambda>sub dir w. do {
          (r, e, w) \<leftarrow> sub dir w; Some (map_option Root r, e, w) }) (i_Sub I fs)),
      i_OpenFile = on_root (i_OpenFile I), i_Create = on_root (i_Create I),
      i_Mkdir = on_root (i_Mkdir I), i_MkdirAll = on_root (i_MkdirAll I),
      i_Remove = on_root (i_Remove I), i_RemoveAll = on_root (i_RemoveAll I),
      i_Rename = on_root (i_Rename I), i_Stat = on_root (i_Stat I), i_Lstat = on_root (i_Lstat I),
      i_Chmod = on_root (i_Chmod I), i_Chown = on_root (i_Chown I), i_Chtimes = on_root (i_Chtimes I),
      i_ReadDir = on_root (i_ReadDir I), i_ReadFile = on_root (i_ReadFile I),
      i_WriteFile = on_root (i_WriteFile I), i_Symlink = on_root (i_Symlink I),
      i_Mount = (\<lambda>fs. case fs of
          Root fs \<Rightarrow> map_option (\<lambda>mount p w. let (m, s) = mount p w in (Root m, s)) (i_Mount I fs)
        | subFS base root \<Rightarrow> Some (\<lambda>p w. sub_Mount base root p)),
      rd_cap = rd_cap I\<rparr>"


subsection \<open>\<open>mount.FS\<close>\<close>

record 'f mountFS =
  mnt_rootFS :: 'f
  mnt_mounts :: "(string \<times> 'f) list"
  mnt_order :: "(string \<times> 'f) list \<Rightarrow> (string \<times> 'f) list"

definition mount_NewFS :: "((string \<times> 'f) list \<Rightarrow> (string \<times> 'f) list) \<Rightarrow> 'f \<Rightarrow> 'f mountFS" where
  "mount_NewFS order root = \<lparr>mnt_rootFS = root, mnt_mounts = [], mnt_order = order\<rparr>"

fun range_mounts :: "string \<Rightarrow> (string \<times> 'f) list \<Rightarrow> string \<Rightarrow> 'f \<Rightarrow> string \<times> 'f" where
  "range_mounts path [] resultPath resultFS = (resultPath, resultFS)"
| "range_mounts path ((mountPath, mountFS) # rest) resultPath resultFS =
     (if HasPrefix path (mountPath @ [slash]) then
        (if length mountPath > length resultPath then range_mounts path rest mountPath mountFS
         else range_mounts path rest resultPath resultFS)
      else if mountPath = path then (mountPath, mountFS)
      else range_mounts path rest resultPath resultFS)"

definition mountPoint :: "'f mountFS \<Rightarrow> string \<Rightarrow> 'f \<times> string \<times> string" where
  "mountPoint fs path =
     (let (resultPath, resultFS) =
            range_mounts path (mnt_order fs (mnt_mounts fs)) [] (mnt_rootFS fs);
          subPath = TrimPrefix path resultPath;
          subPath = TrimPrefix subPath [slash]
      in (resultFS, if resultPath = [] then dot else resultPath, if subPath = [] then dot else subPath))"

definition mount_Mount :: "'f mountFS \<Rightarrow> string \<Rightarrow> 'f \<times> string" where
  "mount_Mount fs path =
     (let (mnt, mountPath, subPath) = mountPoint fs path in
      if mountPath = dot then (mnt, path) else (mnt, subPath))"

definition mount_Open where
  "mount_Open I fs name w = (let (mountFS, subPath) = mount_Mount fs name in i_Open I mountFS subPath w)"

text \<open>\<open>AddMount\<close> returns the file system with the mount added beside the error.\<close>

definition addMount ::
  "('f, 'h, 'i, 'd, 'w, 'z) fs_iface_scheme \<Rightarrow> 'f mountFS \<Rightarrow> string \<Rightarrow> 'f \<Rightarrow> 'w \<Rightarrow>
   (err option \<times> 'f mountFS \<times> 'w) option" where
  "addMount I fs p mountFS w =
     (if \<not> ValidPath p \<or> p = dot then Some (Some ErrInvalid, fs, w)
      else if map_of (mnt_mounts fs) p \<noteq> None then Some (Some ErrExist, fs, w)
      else
        (let (dir, base) = path_Split p;
             (parentFS, subPath) = mount_Mount fs dir
         in do {
           (f, e, w) \<leftarrow> i_Open I parentFS (Join [subPath, base]) w;
           (case e of
              Some e \<Rightarrow> Some (Some e, fs, w)
            | None \<Rightarrow> do {
                f \<leftarrow> f;
                (r, f, w) \<leftarrow> fl_Stat I f w;
                (case r of
                   Inl e \<Rightarrow> do { (_, _, w) \<leftarrow> fl_Close I f w; Some (Some e, fs, w) }
                 | Inr info \<Rightarrow> do {
                     m \<leftarrow> in_Mode I info;
                     if \<not> IsDir m then do { (_, _, w) \<leftarrow> fl_Close I f w; Some (Some ErrNotDir, fs, w) }
                     else do {
                       (_, _, w) \<leftarrow> fl_Close I f w;
                       (case map_of (mnt_mounts fs) p of
                          Some _ \<Rightarrow> Some (Some ErrExist, fs, w)
                        | None \<Rightarrow> Some (None, fs\<lparr>mnt_mounts := AList.update p mountFS (mnt_mounts fs)\<rparr>, w))
                     }
                   })
              })
         }))"

definition AddMount where
  "AddMount I fs path mnt w =
     do {
       (e, fs, w) \<leftarrow> addMount I fs path mnt w;
       Some (map_option (PathError ''mount'' path) e, fs, w)
     }"

definition MountPoints :: "'f mountFS \<Rightarrow> string list" where
  "MountPoints fs = map fst (mnt_order fs (mnt_mounts fs))"

text \<open>
  \<open>io.Copy\<close> of the standard library, for a source without \<open>WriterTo\<close> and a destination without
  \<open>ReaderFrom\<close>: read into a buffer of 32 KiB, write what was read, until \<open>io.EOF\<close> or an error. The
  result is the error, the two files and the world.
\<close>

definition copy_buffer :: nat where "copy_buffer = 32768"

partial_function (option) io_Copy ::
  "('h, 'i, 'd, 'w, 'z) file_iface_scheme \<Rightarrow> ('h \<Rightarrow> byte list \<Rightarrow> 'w \<Rightarrow> ('h, 'w) file_count) \<Rightarrow> nat \<Rightarrow> 'h \<Rightarrow> 'h \<Rightarrow> 'w \<Rightarrow>
   (err option \<times> 'h \<times> 'h \<times> 'w) option" where
  [code]: "io_Copy I write bufsize dst src w =
     do {
       (buf, nr, er, src, w) \<leftarrow> fl_Read I src (replicate bufsize 0) w;
       (stop, dst, w) \<leftarrow> (if 0 < nr then do {
            _ \<leftarrow> (if int bufsize < nr then None else Some ());
            (nw, ew, dst, w) \<leftarrow> write dst (take (nat nr) buf) w;
            let bad = nw < 0 \<or> nr < nw;
            let ew = (if bad \<and> ew = None then Some (ErrorString ''invalid write result'') else ew);
            Some (if ew \<noteq> None then ew
                  else if nr \<noteq> nw then Some (ErrorString ''short write'') else None, dst, w)
          } else Some (None, dst, w));
       (case stop of
          Some e \<Rightarrow> Some (Some e, dst, src, w)
        | None \<Rightarrow> (case er of
              Some e \<Rightarrow> Some (if e = EOF then None else Some e, dst, src, w)
            | None \<Rightarrow> io_Copy I write bufsize dst src w))
     }"

definition mount_Rename ::
  "('f, 'h, 'i, 'd, 'w, 'z) fs_iface_scheme \<Rightarrow> 'f mountFS \<Rightarrow> string \<Rightarrow> string \<Rightarrow> 'w \<Rightarrow> 'w fs_err" where
  "mount_Rename I fs oldname newname w =
     (let (oldMount, oldPoint, oldSubPath) = mountPoint fs oldname;
          (newMount, newPoint, newSubPath) = mountPoint fs newname
      in do {
        (r, w) \<leftarrow> Stat I oldMount oldSubPath w;
        (case r of
           Inl e \<Rightarrow> Some (Some (LinkError ''rename'' oldname newname e), w)
         | Inr oldInfo \<Rightarrow> do {
             m \<leftarrow> in_Mode I oldInfo;
             if oldname = newname then
               Some (if \<not> IsDir m then None else Some (LinkError ''rename'' oldname newname ErrExist), w)
             else if oldPoint = newPoint then Rename I oldMount oldSubPath newSubPath w
             else if IsDir m then
               Some (Some (LinkError ''rename'' oldname newname ErrNotImplemented), w)
             else do {
               (oldFile, e, w) \<leftarrow> i_Open I oldMount oldSubPath w;
               (case e of
                  Some e \<Rightarrow> Some (Some e, w)
                | None \<Rightarrow> do {
                    oldFile \<leftarrow> oldFile;
                    (newFile, e, w) \<leftarrow> OpenFile I newMount newSubPath
                       (FlagWriteOnly OR FlagCreate OR FlagTruncate) m w;
                    (case e of
                       Some e \<Rightarrow> do { (_, _, w) \<leftarrow> fl_Close I oldFile w; Some (Some e, w) }
                     | None \<Rightarrow> do {
                         newFile \<leftarrow> newFile;
                         (case fl_Write I newFile of
                            None \<Rightarrow> do {
                              (_, _, w) \<leftarrow> fl_Close I oldFile w;
                              Some (Some (LinkError ''rename'' oldname newname ErrPermission), w)
                            }
                          | Some _ \<Rightarrow> do {
                              (e, newFile, oldFile, w) \<leftarrow>
                                io_Copy I (WriteFile I) copy_buffer newFile oldFile w;
                              (e, w) \<leftarrow> (case e of
                                   Some e \<Rightarrow> do { (_, w) \<leftarrow> Remove I newMount newSubPath w; Some (Some e, w) }
                                 | None \<Rightarrow> Remove I oldMount oldSubPath w);
                              (_, _, w) \<leftarrow> fl_Close I newFile w;
                              (_, _, w) \<leftarrow> fl_Close I oldFile w;
                              Some (e, w)
                            })
                       })
                  })
             }
           })
      })"


subsection \<open>Which mount serves a path\<close>

definition covers :: "string \<Rightarrow> string \<Rightarrow> bool" where
  "covers mp path \<longleftrightarrow> mp = path \<or> HasPrefix path (mp @ [slash])"

definition below_point :: "string \<Rightarrow> string \<Rightarrow> string" where
  "below_point mp path = (if path = mp then dot else drop (length mp + 1) path)"

definition mount_ok :: "'f mountFS \<Rightarrow> bool" where
  "mount_ok fs \<longleftrightarrow> distinct (map fst (mnt_mounts fs)) \<and>
     (\<forall>mp \<in> set (map fst (mnt_mounts fs)). ValidPath mp \<and> mp \<noteq> dot) \<and>
     (\<forall>ms. mset (mnt_order fs ms) = mset ms)"

lemma covers_prefix: "covers mp path \<Longrightarrow> prefix mp path"
  by (auto simp: covers_def HasPrefix_iff prefix_def)

lemma covers_length: "covers mp path \<Longrightarrow> length mp \<le> length path"
  by (drule covers_prefix) (rule prefix_length_le)

lemma covers_unique: "covers a path \<Longrightarrow> covers b path \<Longrightarrow> length a = length b \<Longrightarrow> a = b"
  by (drule covers_prefix, drule covers_prefix) (auto simp: prefix_def append_eq_append_conv)

lemma range_mounts_longest:
  assumes "rp = [] \<or> covers rp path" "range_mounts path ms rp rf = (q, g)"
  shows "((q, g) = (rp, rf) \<or> (q, g) \<in> set ms \<and> covers q path) \<and> length rp \<le> length q
    \<and> (\<forall>(mp, m) \<in> set ms. covers mp path \<longrightarrow> length mp \<le> length q)"
  using assms
proof (induction path ms rp rf rule: range_mounts.induct)
  case (2 path mp m rest rp rf)
  show ?case
  proof (cases "HasPrefix path (mp @ [slash])")
    case True
    then have c: "covers mp path" by (simp add: covers_def)
    show ?thesis
    proof (cases "length mp > length rp")
      case longer: True
      then have "range_mounts path rest mp m = (q, g)" using 2 True by simp
      with 2(1) [OF True longer] c longer show ?thesis by auto
    next
      case shorter: False
      then have "range_mounts path rest rp rf = (q, g)" using 2 True by simp
      with 2(2) [OF True shorter 2(4)] shorter show ?thesis by auto
    qed
  next
    case no: False
    show ?thesis
    proof (cases "mp = path")
      case True
      then have "q = path" "g = m" using 2 no by simp_all
      moreover have "length rp \<le> length path" using 2(4) covers_length by auto
      ultimately show ?thesis using True covers_length by (auto simp: covers_def)
    next
      case False
      then have "range_mounts path rest rp rf = (q, g)" using 2 no by simp
      with 2(3) [OF no False 2(4)] show ?thesis using no False by (auto simp: covers_def)
    qed
  qed
qed simp

lemma mount_order_set: "mount_ok fs \<Longrightarrow> set (mnt_order fs (mnt_mounts fs)) = set (mnt_mounts fs)"
  unfolding mount_ok_def by (metis set_mset_mset)

lemma strip_point:
  assumes "covers mp path" "mp \<noteq> []"
  shows "(let s = TrimPrefix (TrimPrefix path mp) [slash] in if s = [] then dot else s) =
    (if path = mp @ [slash] then dot else below_point mp path)"
proof -
  obtain s where s: "path = mp @ s" using covers_prefix [OF assms(1)] by (auto simp: prefix_def)
  have "s = [] \<or> (\<exists>t. s = slash # t)" using assms(1) s by (auto simp: covers_def HasPrefix_iff prefix_def)
  then show ?thesis
    using s by (auto simp: Let_def below_point_def TrimPrefix_def HasPrefix_def)
qed

text \<open>The point that serves a path, with the two cases of \<open>mountPoint\<close>.\<close>

lemma mountPoint_cases:
  assumes "mount_ok fs"
  obtains (root) "\<forall>mp \<in> set (map fst (mnt_mounts fs)). \<not> covers mp path"
      "mountPoint fs path = (mnt_rootFS fs, dot,
         let s = TrimPrefix path [slash] in if s = [] then dot else s)"
    | (mount) mp m where "(mp, m) \<in> set (mnt_mounts fs)" "covers mp path"
      "\<forall>q \<in> set (map fst (mnt_mounts fs)). covers q path \<longrightarrow> length q \<le> length mp"
      "mountPoint fs path = (m, mp, if path = mp @ [slash] then dot else below_point mp path)"
proof -
  obtain q g where r: "range_mounts path (mnt_order fs (mnt_mounts fs)) [] (mnt_rootFS fs) = (q, g)"
    by fastforce
  note l = range_mounts_longest [OF disjI1 [OF refl] r, unfolded mount_order_set [OF assms]]
  have ne: "\<And>mp. mp \<in> set (map fst (mnt_mounts fs)) \<Longrightarrow> mp \<noteq> []"
    using assms unfolding mount_ok_def by (metis not_ValidPath_Nil)
  show thesis
  proof (cases "q = []")
    case True
    have none: "\<forall>mp \<in> set (map fst (mnt_mounts fs)). \<not> covers mp path"
      using l ne unfolding True by fastforce
    then have "g = mnt_rootFS fs" using l True by force
    with r True have "mountPoint fs path = (mnt_rootFS fs, dot,
         let s = TrimPrefix path [slash] in if s = [] then dot else s)"
      by (simp add: mountPoint_def Let_def)
    with none show thesis by (rule root)
  next
    case False
    then have c: "(q, g) \<in> set (mnt_mounts fs)" "covers q path" using l by auto
    moreover have "\<forall>a \<in> set (map fst (mnt_mounts fs)). covers a path \<longrightarrow> length a \<le> length q"
      using l by auto
    moreover have "mountPoint fs path = (g, q, if path = q @ [slash] then dot else below_point q path)"
      using r False strip_point [OF c(2) False] by (simp add: mountPoint_def Let_def)
    ultimately show thesis by (rule mount)
  qed
qed

text \<open>On valid paths a mount point covers the paths whose elements it starts.\<close>

lemma covers_path_of:
  assumes es: "list_all ok_elem es" "es \<noteq> []" and fs: "list_all ok_elem fs"
  shows "covers (path_of es) (path_of fs) \<longleftrightarrow> prefix es fs"
proof
  assume "covers (path_of es) (path_of fs)"
  then consider "path_of es = path_of fs" | t where "path_of fs = path_of es @ slash # t"
    by (auto simp: covers_def HasPrefix_iff prefix_def)
  then show "prefix es fs"
  proof cases
    case 1
    then show ?thesis using es fs by (simp add: path_of_inject)
  next
    case 2
    then have "split_slash (path_of fs) = es @ split_slash t"
      using split_slash_split [of "path_of es" t] split_slash_path_of [OF es(1)] es(2) by simp
    moreover have "path_of fs \<noteq> dot" using 2 es by (auto simp: append_eq_Cons_conv)
    ultimately show ?thesis using split_slash_path_of [OF fs] fs by (auto simp: prefix_def split: if_splits)
  qed
next
  assume "prefix es fs"
  then obtain gs where "fs = es @ gs" by (auto simp: prefix_def)
  then show "covers (path_of es) (path_of fs)"
    using es(2) by (cases "gs = []") (auto simp: covers_def HasPrefix_iff prefix_def path_of_append)
qed

lemma below_point_path_of [simp]:
  assumes "list_all ok_elem es" "es \<noteq> []" "list_all ok_elem gs"
  shows "below_point (path_of es) (path_of (es @ gs)) = path_of gs"
  using assms by (cases "gs = []") (auto simp: below_point_def path_of_append)

lemma ValidPath_below:
  assumes "ValidPath mp" "mp \<noteq> dot" "ValidPath path" "covers mp path"
  shows "ValidPath (below_point mp path)" "Join [mp, below_point mp path] = path" "path \<noteq> mp @ [slash]"
proof -
  obtain es fs where es: "list_all ok_elem es" "mp = path_of es" "es \<noteq> []"
    and fs: "list_all ok_elem fs" "path = path_of fs"
    using assms by (metis ValidPathE path_of_Nil)
  then obtain gs where gs: "fs = es @ gs" using assms(4) covers_path_of by (auto simp: prefix_def)
  then have ok: "list_all ok_elem gs" using fs by simp
  show "ValidPath (below_point mp path)" "Join [mp, below_point mp path] = path"
    using es fs gs ok by (simp_all add: Join_path_of)
  show "path \<noteq> mp @ [slash]"
    using es fs gs ok by (cases "gs = []") (auto simp: path_of_append)
qed

lemma mountPoint_mount:
  assumes "mount_ok fs" "(mp, m) \<in> set (mnt_mounts fs)" "covers mp path" "ValidPath path"
    and "\<forall>q \<in> set (map fst (mnt_mounts fs)). covers q path \<longrightarrow> length q \<le> length mp"
  shows "mountPoint fs path = (m, mp, below_point mp path)"
  using assms(1)
proof (cases rule: mountPoint_cases [where path = path])
  case root
  then show ?thesis using assms by force
next
  case (mount mp' m')
  have "mp \<in> set (map fst (mnt_mounts fs))" "mp' \<in> set (map fst (mnt_mounts fs))"
    using assms(2) mount(1) by force+
  then have "length mp' = length mp" using mount(2,3) assms(3,5) by (meson le_antisym)
  then have eq: "mp' = mp" using mount assms covers_unique by blast
  then have "m' = m" using assms(1,2) mount(1) unfolding mount_ok_def by (metis eq_key_imp_eq_value)
  moreover have "path \<noteq> mp @ [slash]"
    using assms ValidPath_below(3) unfolding mount_ok_def by fastforce
  ultimately show ?thesis using mount(4) eq by simp
qed

lemma mountPoint_root:
  assumes "mount_ok fs" "ValidPath path" "\<forall>mp \<in> set (map fst (mnt_mounts fs)). \<not> covers mp path"
  shows "mountPoint fs path = (mnt_rootFS fs, dot, path)"
  using assms(1)
proof (cases rule: mountPoint_cases [where path = path])
  case root
  obtain es where "list_all ok_elem es" "path = path_of es" using assms by (auto elim!: ValidPathE)
  then have "\<not> rooted_path path" by simp
  then have "TrimPrefix path [slash] = path"
    by (auto simp: TrimPrefix_def HasPrefix_iff rooted_path_def prefix_def)
  then show ?thesis using root assms(2) by auto
next
  case (mount mp m)
  then show ?thesis using assms(3) by force
qed

lemma mountPoint_reordered:
  assumes "mount_ok fs" "mount_ok (fs\<lparr>mnt_order := order\<rparr>)"
  shows "mountPoint (fs\<lparr>mnt_order := order\<rparr>) path = mountPoint fs path"
  using assms(1)
proof (cases rule: mountPoint_cases [where path = path])
  case a: root
  from assms(2) show ?thesis
  proof (cases rule: mountPoint_cases [where path = path])
    case root
    with a show ?thesis by simp
  next
    case (mount mp m)
    with a show ?thesis by force
  qed
next
  case a: (mount mp m)
  from assms(2) show ?thesis
  proof (cases rule: mountPoint_cases [where path = path])
    case root
    with a show ?thesis by force
  next
    case (mount mp' m')
    have "mp \<in> set (map fst (mnt_mounts fs))" "mp' \<in> set (map fst (mnt_mounts fs))"
      using a(1) mount(1) by force+
    then have "length mp' = length mp" using mount(2,3) a(2,3) by (intro le_antisym) force+
    then have eq: "mp' = mp" using mount(2) a(2) covers_unique by blast
    then have "m' = m" using assms(1) mount(1) a(1) unfolding mount_ok_def by (metis eq_key_imp_eq_value mountFS.select_convs(2) mountFS.surjective mountFS.update_convs(3))
    with eq show ?thesis using mount(4) a(4) by simp
  qed
qed

lemma mountPoint_parts:
  assumes "mount_ok fs" "ValidPath path" "mountPoint fs path = (m, mp, sub)"
  shows "ValidPath sub" "Join [mp, sub] = path"
    "if \<exists>q \<in> set (map fst (mnt_mounts fs)). covers q path
       then (mp, m) \<in> set (mnt_mounts fs) \<and> covers mp path
         \<and> (\<forall>q \<in> set (map fst (mnt_mounts fs)). covers q path \<longrightarrow> length q \<le> length mp)
       else m = mnt_rootFS fs \<and> mp = dot"
proof -
  from assms(1) have "ValidPath sub \<and> Join [mp, sub] = path
    \<and> (if \<exists>q \<in> set (map fst (mnt_mounts fs)). covers q path
       then (mp, m) \<in> set (mnt_mounts fs) \<and> covers mp path
         \<and> (\<forall>q \<in> set (map fst (mnt_mounts fs)). covers q path \<longrightarrow> length q \<le> length mp)
       else m = mnt_rootFS fs \<and> mp = dot)"
  proof (cases rule: mountPoint_cases [where path = path])
    case root
    then have "(m, mp, sub) = (mnt_rootFS fs, dot, path)"
      using mountPoint_root [OF assms(1,2)] assms(3) by simp
    moreover have "Join [dot, path] = path"
      using assms(2) Join_path_of [of "[]"] by (auto elim!: ValidPathE)
    ultimately show ?thesis using root(1) assms(2) by auto
  next
    case (mount mp' m')
    then have eq: "(m, mp, sub) = (m', mp', below_point mp' path)"
      using mountPoint_mount [OF assms(1) mount(1,2) assms(2) mount(3)] assms(3) by simp
    have k: "mp' \<in> set (map fst (mnt_mounts fs))" using mount(1) by force
    then have "ValidPath mp'" "mp' \<noteq> dot" using assms(1) by (auto simp: mount_ok_def)
    then show ?thesis using eq k mount ValidPath_below(1,2) [of mp' path] assms(2) by auto
  qed
  then show "ValidPath sub" "Join [mp, sub] = path"
    "if \<exists>q \<in> set (map fst (mnt_mounts fs)). covers q path
       then (mp, m) \<in> set (mnt_mounts fs) \<and> covers mp path
         \<and> (\<forall>q \<in> set (map fst (mnt_mounts fs)). covers q path \<longrightarrow> length q \<le> length mp)
       else m = mnt_rootFS fs \<and> mp = dot" by simp_all
qed

text \<open>
  C16: a path is served by the mount with the longest mount point that covers it, and by the root file
  system when none does; the sub-path is valid, joining it to the mount point gives the path back, and
  the order in which the map of mounts is visited does not matter.
\<close>

theorem mountPoint_longest:
  assumes "mount_ok fs" "ValidPath path" "mountPoint fs path = (m, mp, sub)"
  shows "ValidPath sub \<and> Join [mp, sub] = path
    \<and> (if \<exists>q \<in> set (map fst (mnt_mounts fs)). covers q path
       then (mp, m) \<in> set (mnt_mounts fs) \<and> covers mp path
         \<and> (\<forall>q \<in> set (map fst (mnt_mounts fs)). covers q path \<longrightarrow> length q \<le> length mp)
       else m = mnt_rootFS fs \<and> mp = dot)
    \<and> (\<forall>order. mount_ok (fs\<lparr>mnt_order := order\<rparr>) \<longrightarrow> mountPoint (fs\<lparr>mnt_order := order\<rparr>) path = (m, mp, sub))"
  using mountPoint_parts [OF assms] mountPoint_reordered [OF assms(1)] assms(3) by auto

definition demo_mounts :: "nat mountFS" where
  "demo_mounts = \<lparr>mnt_rootFS = 0, mnt_mounts = [(''a'', 1), (''a/b'', 2)], mnt_order = rev\<rparr>"

lemma demo_mounts_ok: "mount_ok demo_mounts"
  by (simp add: mount_ok_def demo_mounts_def ValidPath_def valid_elem_def utf8_valid_def utf8_lead_def)

theorem mountPoint_longest_witness:
  "ValidPath ''a/b/c'' \<and> mountPoint demo_mounts ''a/b/c'' = (2, ''a/b'', ''c'') \<and> Join [''a/b'', ''c''] = ''a/b/c''"
proof -
  have v: "ValidPath ''a/b/c''" by (simp add: ValidPath_def valid_elem_def utf8_valid_def utf8_lead_def)
  have m: "mountPoint demo_mounts ''a/b/c'' = (2, ''a/b'', ''c'')"
    by (simp add: mountPoint_def demo_mounts_def HasPrefix_def TrimPrefix_def)
  show ?thesis using mountPoint_longest [OF demo_mounts_ok v m] v m by blast
qed

text \<open>A mount that \<open>AddMount\<close> accepts serves its mount point and what lies below, and nothing else.\<close>

lemma addMount_result:
  assumes "addMount I fs p m w = Some (None, fs', w')"
  shows "ValidPath p" "p \<noteq> dot" "map_of (mnt_mounts fs) p = None"
    "fs' = fs\<lparr>mnt_mounts := AList.update p m (mnt_mounts fs)\<rparr>"
  using assms
  by (auto simp: addMount_def Let_def bind_Some_iff split: prod.splits if_splits option.splits sum.splits)
    (metis sum.exhaust)

lemma mount_ok_update:
  assumes "mount_ok fs" "ValidPath p" "p \<noteq> dot"
  shows "mount_ok (fs\<lparr>mnt_mounts := AList.update p m (mnt_mounts fs)\<rparr>)"
  using assms by (auto simp: mount_ok_def distinct_keys_update keys_update simp del: set_map)

lemma mountPoint_update:
  assumes "mount_ok fs" "ValidPath p" "p \<noteq> dot" "map_of (mnt_mounts fs) p = None" "ValidPath path"
  shows "mountPoint (fs\<lparr>mnt_mounts := AList.update p m (mnt_mounts fs)\<rparr>) path =
    (if covers p path \<and> (\<forall>q \<in> set (map fst (mnt_mounts fs)). covers q path \<longrightarrow> length q < length p)
     then (m, p, below_point p path) else mountPoint fs path)"
proof -
  let ?fs' = "fs\<lparr>mnt_mounts := AList.update p m (mnt_mounts fs)\<rparr>"
  have ok': "mount_ok ?fs'" using assms by (intro mount_ok_update)
  have keys: "set (map fst (mnt_mounts ?fs')) = insert p (set (map fst (mnt_mounts fs)))"
    using keys_update [of p m "mnt_mounts fs"] by simp
  have mem: "(q, g) \<in> set (mnt_mounts ?fs') \<longleftrightarrow> (if q = p then g = m else (q, g) \<in> set (mnt_mounts fs))" for q g
    using ok' assms(1) map_of_eq_Some_iff [of "mnt_mounts ?fs'" q g] map_of_eq_Some_iff [of "mnt_mounts fs" q g]
    by (auto simp: mount_ok_def)
  have new: "p \<notin> set (map fst (mnt_mounts fs))" using assms(4) by (simp add: map_of_eq_None_iff)
  show ?thesis
  proof (cases "covers p path \<and> (\<forall>q \<in> set (map fst (mnt_mounts fs)). covers q path \<longrightarrow> length q < length p)")
    case True
    then have "mountPoint ?fs' path = (m, p, below_point p path)"
      using mem keys by (intro mountPoint_mount [OF ok' _ _ assms(5)]) (auto simp: less_imp_le)
    with True show ?thesis by simp
  next
    case other: False
    from assms(1) have "mountPoint ?fs' path = mountPoint fs path"
    proof (cases rule: mountPoint_cases [where path = path])
      case root
      then have "mountPoint ?fs' path = (mnt_rootFS ?fs', dot, path)"
        using other keys by (intro mountPoint_root [OF ok' assms(5)]) auto
      then show ?thesis using mountPoint_root [OF assms(1,5) root(1)] by simp
    next
      case (mount mp g)
      have k: "mp \<in> set (map fst (mnt_mounts fs))" using mount(1) by force
      have "covers p path \<Longrightarrow> length p \<le> length mp" using other mount(3) by fastforce
      then have "mountPoint ?fs' path = (g, mp, below_point mp path)"
        using mount mem keys k new by (intro mountPoint_mount [OF ok' _ _ assms(5)]) auto
      then show ?thesis using mountPoint_mount [OF assms(1) mount(1,2) assms(5) mount(3)] by simp
    qed
    then show ?thesis unfolding if_not_P [OF other] .
  qed
qed

text \<open>\<open>AddMount\<close> opens the mount point through the mount of its parent directory.\<close>

lemma not_ValidPath_slash [simp]: "\<not> ValidPath (x @ [slash])"
  using split_slash_split [of x "[]"] by (auto simp: ValidPath_def valid_elem_def)

lemma Join_trailing:
  assumes "list_all ok_elem bs" "ok_elem e"
  shows "Join [path_of bs @ [slash], e] = path_of (bs @ [e])"
  using assms split_slash_split [of "path_of bs" "slash # e"] ok_elem_simps(4) [OF assms(2)]
  by (simp add: Join_def Clean_unrooted split_slash_path_of split_slash_word foldl_clean_ok)

lemma covers_parent:
  assumes "list_all ok_elem es" "es \<noteq> []" "ok_elem e" "ValidPath q" "q \<noteq> path_of (es @ [e])"
  shows "covers q (path_of es @ [slash]) \<longleftrightarrow> covers q (path_of (es @ [e]))"
proof -
  have "q \<noteq> path_of es @ [slash]" using assms(4) by auto
  moreover have "prefix (q @ [slash]) (path_of es @ slash # e) \<longleftrightarrow> prefix (q @ [slash]) (path_of es @ [slash])"
  proof -
    have "\<not> (\<exists>us. us \<noteq> [] \<and> q @ [slash] = (path_of es @ [slash]) @ us \<and> prefix us e)"
    proof
      assume "\<exists>us. us \<noteq> [] \<and> q @ [slash] = (path_of es @ [slash]) @ us \<and> prefix us e"
      then obtain us where us: "us \<noteq> []" "q @ [slash] = (path_of es @ [slash]) @ us" "prefix us e" by blast
      then have "last us = slash" by (metis last_appendR last_snoc)
      then show False using us(1,3) ok_elem_simps(4) [OF assms(3)] by (metis last_in_set prefix_def in_set_conv_decomp append_assoc set_append UnCI)
    qed
    then show ?thesis using prefix_append [of "q @ [slash]" "path_of es @ [slash]" e] by auto
  qed
  ultimately show ?thesis using assms(2,5) by (simp add: covers_def HasPrefix_iff path_of_snoc)
qed

lemma mount_parent_root:
  assumes "mount_ok fs" "ok_elem e" "e \<notin> set (map fst (mnt_mounts fs))"
  shows "path_Split e = ([], e)" "mount_Mount fs [] = (mnt_rootFS fs, [])"
    "mountPoint fs e = (mnt_rootFS fs, dot, e)" "Join [[], e] = e"
proof -
  have ns: "slash \<notin> set e" using assms(2) by simp
  show "path_Split e = ([], e)" using ns by (rule path_Split_no_slash)
  have k: "mp \<noteq> []" if "mp \<in> set (map fst (mnt_mounts fs))" for mp
    using assms(1) that unfolding mount_ok_def by (metis not_ValidPath_Nil)
  have "\<forall>mp \<in> set (map fst (mnt_mounts fs)). \<not> covers mp []"
    using k by (auto simp: covers_def HasPrefix_iff)
  with assms(1) show "mount_Mount fs [] = (mnt_rootFS fs, [])"
  proof (cases rule: mountPoint_cases [where path = "[]"])
    case (mount mp m)
    then show ?thesis using k by (force simp: covers_def HasPrefix_iff)
  qed (simp add: mount_Mount_def)
  have "\<forall>mp \<in> set (map fst (mnt_mounts fs)). \<not> covers mp e"
    using assms(3) ns by (auto simp: covers_def HasPrefix_iff prefix_def)
  then show "mountPoint fs e = (mnt_rootFS fs, dot, e)"
    using mountPoint_root [OF assms(1)] ValidPath_path_of [of "[e]"] assms(2) by simp
  show "Join [[], e] = e" using assms(2) Clean_path_of [of "[e]"] by (auto simp: Join_def)
qed

lemma mount_parent_dir:
  assumes "mount_ok fs" "list_all ok_elem es" "es \<noteq> []" "ok_elem e" "path_of (es @ [e]) \<notin> set (map fst (mnt_mounts fs))"
    and "mount_Mount fs (path_of es @ [slash]) = (f, s)" "mountPoint fs (path_of (es @ [e])) = (i, mp, sub)"
  shows "f = i" "Join [s, e] = sub"
proof -
  let ?p = "path_of (es @ [e])" and ?d = "path_of es @ [slash]"
  have v: "ValidPath ?p" using assms(2,4) by simp
  have same: "covers q ?d \<longleftrightarrow> covers q ?p" if "q \<in> set (map fst (mnt_mounts fs))" for q
  proof (rule covers_parent [OF assms(2-4)])
    show "ValidPath q" using that assms(1) unfolding mount_ok_def by blast
    show "q \<noteq> ?p" using that assms(5) by blast
  qed
  from assms(1) have "f = i \<and> Join [s, e] = sub"
  proof (cases rule: mountPoint_cases [where path = ?d])
    case root
    then have "mountPoint fs ?p = (mnt_rootFS fs, dot, ?p)" using same by (intro mountPoint_root [OF assms(1) v]) auto
    then show ?thesis using root(2) assms(2,4,6,7) Join_trailing [OF assms(2,4)] by (auto simp: mount_Mount_def)
  next
    case (mount q m)
    have k: "q \<in> set (map fst (mnt_mounts fs))" using mount(1) by force
    then have q: "ValidPath q" "q \<noteq> dot" using assms(1) by (auto simp: mount_ok_def)
    have "\<forall>r \<in> set (map fst (mnt_mounts fs)). covers r ?p \<longrightarrow> length r \<le> length q" using mount(3) same by blast
    then have p: "mountPoint fs ?p = (m, q, below_point q ?p)"
      using mountPoint_mount [OF assms(1) mount(1) _ v] mount(2) same [OF k] by blast
    obtain as where as: "list_all ok_elem as" "q = path_of as" "as \<noteq> []" using q by (metis ValidPathE path_of_Nil)
    then have "prefix as (es @ [e])" using covers_path_of [of as "es @ [e]"] mount(2) same [OF k] assms(2,4) by simp
    moreover have "as \<noteq> es @ [e]" using k as assms(5) by auto
    ultimately obtain bs where bs: "es = as @ bs" by (metis prefix_snoc prefixE)
    then have b: "list_all ok_elem bs" using assms(2) by simp
    have sub: "below_point q ?p = path_of (bs @ [e])" using below_point_path_of [of as "bs @ [e]"] as bs b assms(4) by simp
    show ?thesis
    proof (cases "bs = []")
      case True
      then show ?thesis using p sub mount(4) assms(4,6,7) as bs q Join_path_of [of "[]" "[e]"]
        by (auto simp: mount_Mount_def)
    next
      case False
      then have "below_point q ?d = path_of bs @ [slash]" "?d \<noteq> q @ [slash]"
        using as bs by (simp_all add: below_point_def path_of_append)
      then show ?thesis using p sub mount(4) assms(6,7) q Join_trailing [OF b assms(4)] by (auto simp: mount_Mount_def)
    qed
  qed
  then show "f = i" "Join [s, e] = sub" by simp_all
qed

lemma mount_parent:
  assumes "mount_ok fs" "ValidPath p" "p \<noteq> dot" "p \<notin> set (map fst (mnt_mounts fs))"
    and "mountPoint fs p = (i, mp, sub)" "path_Split p = (dir, base)" "mount_Mount fs dir = (f, s)"
  shows "f = i" "Join [s, base] = sub"
proof -
  obtain es e where p: "list_all ok_elem es" "ok_elem e" "p = path_of (es @ [e])"
    using assms(2,3) by (auto elim: ValidPath_cases)
  have "f = i \<and> Join [s, base] = sub"
  proof (cases "es = []")
    case True
    then show ?thesis using mount_parent_root [OF assms(1) p(2)] assms(4-7) p(3) by simp
  next
    case False
    then have "dir = path_of es @ [slash]" "base = e"
      using assms(6) p path_Split_word [of e "path_of es"] by (simp_all add: path_of_snoc)
    then show ?thesis using mount_parent_dir [OF assms(1) p(1) False p(2)] assms(4,5,7) p(3) by blast
  qed
  then show "f = i" "Join [s, base] = sub" by simp_all
qed

end
