(* ===== verification/Mem_Iface.thy ===== *)
theory Mem_Iface
  imports Mem_FS FS_Contract Mount_FS
begin

section \<open>The in-memory file systems behind the interfaces\<close>

text \<open>
  The methods of \<open>mem.FS\<close> and of the files it opens, as the tables of methods of \<open>HackpadFS\<close>. Several
  file systems exist side by side, each with its own store, as mounting needs; a file system is named
  by a number, a file by that number and a handle. A method that the Go type lacks is \<^const>\<open>None\<close>:
  \<open>mem.FS\<close> has no \<open>ReadDir\<close>, \<open>ReadFile\<close>, \<open>WriteFile\<close>, \<open>RemoveAll\<close>, \<open>Sub\<close> or \<open>Create\<close> of its own, so the
  helpers fall back.
\<close>

type_synonym mems = "nat \<Rightarrow> mworld"
type_synonym mem_file = "nat \<times> (fileRecord, mworld) handle"
type_synonym mem_info = "nat \<times> (fileRecord, mworld) fileInfo"
type_synonym mem_entry = "nat \<times> (fileRecord, mworld) dirEntry"

definition run_err :: "nat \<Rightarrow> (mworld \<Rightarrow> (err option \<times> mworld) option) \<Rightarrow> mems \<Rightarrow> mems fs_err" where
  "run_err i act W = do { (e, w) \<leftarrow> act (W i); Some (e, W(i := w)) }"

definition run_open ::
  "nat \<Rightarrow> (mworld \<Rightarrow> ((fileRecord, mworld) handle option \<times> err option \<times> mworld) option) \<Rightarrow> mems \<Rightarrow>
   (mem_file, mems) fs_file" where
  "run_open i act W = do { (h, e, w) \<leftarrow> act (W i); Some (map_option (Pair i) h, e, W(i := w)) }"

definition run_stat ::
  "nat \<Rightarrow> (mworld \<Rightarrow> ((err + (fileRecord, mworld) fileInfo) \<times> mworld) option) \<Rightarrow> mems \<Rightarrow> (mem_info, mems) fs_info" where
  "run_stat i act W = do { (r, w) \<leftarrow> act (W i); Some (map_sum id (Pair i) r, W(i := w)) }"

definition mf_err where
  "mf_err i act W = do { (e, h, w) \<leftarrow> act (W i); Some (e, (i, h), W(i := w)) }"

definition mf_count where
  "mf_count i act W = do { (n, e, h, w) \<leftarrow> act (W i); Some (n, e, (i, h), W(i := w)) }"

definition mf_bytes where
  "mf_bytes i act W = do { (p, n, e, h, w) \<leftarrow> act (W i); Some (p, n, e, (i, h), W(i := w)) }"

definition when_reader :: "mem_file \<Rightarrow> 'a \<Rightarrow> 'a option" where
  "when_reader f x = (if as_reader (snd f) = None then None else Some x)"

definition when_writer :: "mem_file \<Rightarrow> 'a \<Rightarrow> 'a option" where
  "when_writer f x = (if as_writer (snd f) = None then None else Some x)"

definition mem_with :: "(nat \<Rightarrow> nat) \<Rightarrow> 'z \<Rightarrow> (nat, mem_file, mem_info, mem_entry, mems, 'z) fs_iface_scheme" where
  "mem_with cap z =
     \<lparr>fl_Stat = (\<lambda>(i, h) W. do { info \<leftarrow> h_Stat h; Some (Inr (i, info), (i, h), W) }),
      fl_Read = (\<lambda>(i, h) p. mf_bytes i (h_Read mem_ops h p)),
      fl_Close = (\<lambda>(i, h) W. let (e, h) = h_Close h in Some (e, (i, h), W)),
      fl_Write = (\<lambda>(i, h). when_writer (i, h) (\<lambda>p. mf_count i (h_Write mem_ops h p))),
      fl_ReadAt = (\<lambda>(i, h). when_reader (i, h) (\<lambda>p off. mf_bytes i (h_ReadAt mem_ops h p off))),
      fl_WriteAt = (\<lambda>(i, h). when_writer (i, h) (\<lambda>p off. mf_count i (h_WriteAt mem_ops h p off))),
      fl_ReadDir = (\<lambda>(i, h). when_reader (i, h) (\<lambda>n W. do {
          (r, h, w) \<leftarrow> h_ReadDir mem_ops h n (W i);
          Some (case r of Inl e \<Rightarrow> ([], Some e, (i, h), W(i := w)) | Inr es \<Rightarrow> (map (Pair i) es, None, (i, h), W(i := w))) })),
      fl_Seek = (\<lambda>(i, h). Some (\<lambda>off wh W. do {
          (n, e, h) \<leftarrow> h_Seek mem_ops h off wh (W i); Some (n, e, (i, h), W) })),
      fl_Sync = (\<lambda>_. None),
      fl_Truncate = (\<lambda>(i, h). Some (\<lambda>sz. mf_err i (h_Truncate mem_ops h sz))),
      fl_Chmod = (\<lambda>(i, h). Some (\<lambda>m. mf_err i (h_Chmod mem_ops h m))),
      fl_Chown = (\<lambda>_. None), fl_Chtimes = (\<lambda>_. None),
      in_Name = (\<lambda>(i, info). info_Name info), in_Mode = (\<lambda>(i, info). info_Mode mem_ops info),
      in_Size = (\<lambda>(i, info) W. info_Size mem_ops info (W i)), de_Name = de_baseName \<circ> snd,
      i_Open = (\<lambda>i name. run_open i (mem_Open name)), i_Sub = (\<lambda>_. None),
      i_OpenFile = (\<lambda>i. Some (\<lambda>name flag perm. run_open i (mem_OpenFile name flag perm))),
      i_Create = (\<lambda>_. None),
      i_Mkdir = (\<lambda>i. Some (\<lambda>name perm. run_err i (mem_Mkdir name perm))),
      i_MkdirAll = (\<lambda>i. Some (\<lambda>name perm. run_err i (mem_MkdirAll name perm))),
      i_Remove = (\<lambda>i. Some (\<lambda>name. run_err i (mem_Remove name))), i_RemoveAll = (\<lambda>_. None),
      i_Rename = (\<lambda>i. Some (\<lambda>old new. run_err i (mem_Rename old new))),
      i_Stat = (\<lambda>i. Some (\<lambda>name. run_stat i (mem_Stat name))), i_Lstat = (\<lambda>_. None),
      i_Chmod = (\<lambda>i. Some (\<lambda>name mode. run_err i (mem_Chmod name mode))), i_Chown = (\<lambda>_. None),
      i_Chtimes = (\<lambda>i. Some (\<lambda>name atime mtime. run_err i (mem_Chtimes name atime mtime))),
      i_ReadDir = (\<lambda>_. None), i_ReadFile = (\<lambda>_. None), i_WriteFile = (\<lambda>_. None),
      i_Symlink = (\<lambda>_. None), i_Mount = (\<lambda>_. None), rd_cap = cap, \<dots> = z\<rparr>"

abbreviation mem_iface :: "(nat \<Rightarrow> nat) \<Rightarrow> (nat, mem_file, mem_info, mem_entry, mems) fs_iface" where
  "mem_iface cap \<equiv> mem_with cap ()"

lemma mem_iface_sel [simp]:
  "fl_Stat (mem_with cap z) = (\<lambda>(i, h) W. do { info \<leftarrow> h_Stat h; Some (Inr (i, info), (i, h), W) })"
  "fl_Read (mem_with cap z) = (\<lambda>(i, h) p. mf_bytes i (h_Read mem_ops h p))"
  "fl_Close (mem_with cap z) = (\<lambda>(i, h) W. let (e, h) = h_Close h in Some (e, (i, h), W))"
  "fl_Write (mem_with cap z) = (\<lambda>(i, h). when_writer (i, h) (\<lambda>p. mf_count i (h_Write mem_ops h p)))"
  "fl_ReadDir (mem_with cap z) = (\<lambda>(i, h). when_reader (i, h) (\<lambda>n W. do {
          (r, h, w) \<leftarrow> h_ReadDir mem_ops h n (W i);
          Some (case r of Inl e \<Rightarrow> ([], Some e, (i, h), W(i := w)) | Inr es \<Rightarrow> (map (Pair i) es, None, (i, h), W(i := w))) }))"
  "in_Mode (mem_with cap z) = (\<lambda>(i, info). info_Mode mem_ops info)"
  "in_Size (mem_with cap z) = (\<lambda>(i, info) W. info_Size mem_ops info (W i))"
  "de_Name (mem_with cap z) = de_baseName \<circ> snd"
  "i_Open (mem_with cap z) = (\<lambda>i name. run_open i (mem_Open name))"
  "i_OpenFile (mem_with cap z) = (\<lambda>i. Some (\<lambda>name flag perm. run_open i (mem_OpenFile name flag perm)))"
  "i_Mkdir (mem_with cap z) = (\<lambda>i. Some (\<lambda>name perm. run_err i (mem_Mkdir name perm)))"
  "i_MkdirAll (mem_with cap z) = (\<lambda>i. Some (\<lambda>name perm. run_err i (mem_MkdirAll name perm)))"
  "i_Remove (mem_with cap z) = (\<lambda>i. Some (\<lambda>name. run_err i (mem_Remove name)))"
  "i_RemoveAll (mem_with cap z) = (\<lambda>_. None)" "i_ReadDir (mem_with cap z) = (\<lambda>_. None)"
  "i_ReadFile (mem_with cap z) = (\<lambda>_. None)" "i_WriteFile (mem_with cap z) = (\<lambda>_. None)"
  "i_Mount (mem_with cap z) = (\<lambda>_. None)" "rd_cap (mem_with cap z) = cap"
  "i_Stat (mem_with cap z) = (\<lambda>i. Some (\<lambda>name. run_stat i (mem_Stat name)))"
  "i_Rename (mem_with cap z) = (\<lambda>i. Some (\<lambda>old new. run_err i (mem_Rename old new)))"
  by (simp_all add: mem_with_def)

subsection \<open>The in-memory file system keeps the contract of the helpers\<close>

lemma mem_Stat_run:
  assumes "mem_ok (W i)" "ValidPath p"
  shows "\<exists>r W'. Stat (mem_with cap z) i p W = Some (r, W') \<and> mem_ok (W' i) \<and> mem_tree (W' i) = mem_tree (W i)
    \<and> (case mem_tree (W i) p of
         None \<Rightarrow> (\<exists>e. r = Inl e \<and> errors_Is e ErrNotExist)
       | Some nd \<Rightarrow> (\<exists>info. r = Inr info \<and> in_Mode (mem_with cap z) info = Some (n_mode nd)))
    \<and> (\<forall>j. j \<noteq> i \<longrightarrow> W' j = W j)"
proof -
  obtain r w' where st: "mem_Stat p (W i) = Some (r, w')" "mem_ok w'" "mem_tree w' = mem_tree (W i)"
      "stat_shows mem_ops r w' p (mem_tree (W i))"
    using mem.Stat_refines [OF assms(1) [unfolded mem_ok_def]] unfolding mem_abs_defs mem_FS_defs by blast
  have "Stat (mem_with cap z) i p W = Some (map_sum id (Pair i) r, W(i := w'))"
    using st(1) by (simp add: Stat.simps [of _ i] run_stat_def)
  then show ?thesis using st(2-4) assms(2)
    by (auto simp: stat_shows_def spec_get_def info_shows_def split: option.splits)
qed

lemma mem_Remove_run:
  assumes "mem_ok (W i)" "ValidPath p" "mem_tree (W i) p \<noteq> None"
    "is_dir (mem_tree (W i)) p \<longrightarrow> children (mem_tree (W i)) p = {}"
  shows "\<exists>w'. Remove (mem_with cap z) i p W = Some (None, W(i := w')) \<and> mem_ok w'
    \<and> mem_tree w' = (mem_tree (W i))(p := None)"
proof -
  obtain e w' where rm: "mem_Remove p (W i) = Some (e, w')" "mem_ok w'"
      "(e, mem_tree w') = spec_Remove (mem_tree (W i)) p"
    using mem.Remove_refines [OF assms(1) [unfolded mem_ok_def]] unfolding mem_abs_defs mem_FS_defs by blast
  then have "e = None" "mem_tree w' = (mem_tree (W i))(p := None)"
    using assms(2-4) by (auto simp: spec_Remove_def spec_get_def is_dir_def split: option.splits if_splits)
  then show ?thesis using rm(1,2) by (auto simp: Remove.simps [of _ i] run_err_def)
qed

lemma h_ReadDir_reader: "h_ReadDir ops h n w \<noteq> None \<Longrightarrow> as_reader h \<noteq> None"
  by (cases "as_reader h") (auto simp: h_ReadDir_def)

lemma when_reader_Some [simp]: "as_reader h \<noteq> None \<Longrightarrow> when_reader (i, h) x = Some x"
  by (simp add: when_reader_def)

lemma when_writer_Some [simp]: "as_writer h \<noteq> None \<Longrightarrow> when_writer (i, h) x = Some x"
  by (simp add: when_writer_def)

lemma mem_ReadDir_run:
  assumes "mem_ok (W i)" "is_dir (mem_tree (W i)) p"
  shows "\<exists>ds w'. ReadDir (mem_with cap z) i p W = Some (ds, None, W(i := w')) \<and> mem_ok w'
    \<and> mem_tree w' = mem_tree (W i) \<and> sorted (map (de_baseName \<circ> snd) ds) \<and> distinct (map (de_baseName \<circ> snd) ds)
    \<and> set (map (de_baseName \<circ> snd) ds) = children (mem_tree (W i)) p \<and> w_heap w' = w_heap (W i)
    \<and> (\<forall>d \<in> set ds. fst d = i \<and> (\<exists>nd. mem_tree (W i) (Join [p, de_baseName (snd d)]) = Some nd
          \<and> info_shows mem_ops (de_info (snd d)) (W i) (Join [p, de_baseName (snd d)]) nd))"
proof -
  obtain h w1 es h' w2 where o: "mem_Open p (W i) = Some (Some h, None, w1)"
      "h_ReadDir mem_ops h (-1) w1 = Some (Inr es, h', w2)" "mem_ok w2" "mem_tree w2 = mem_tree (W i)"
      "distinct (map de_baseName es)" "set (map de_baseName es) = children (mem_tree (W i)) p"
      "w_heap w2 = w_heap w1" "w_heap w1 = w_heap (W i)"
      "\<forall>e \<in> set es. \<exists>nd. mem_tree (W i) (Join [p, de_baseName e]) = Some nd
          \<and> info_shows mem_ops (de_info e) w1 (Join [p, de_baseName e]) nd"
    using mem.Open_ReadDir_heap [OF assms [unfolded mem_abs_defs], of "-1"] unfolding mem_abs_defs mem_FS_defs
    by auto
  obtain e h2 where c: "h_Close h' = (e, h2)" by fastforce
  have rd: "as_reader h \<noteq> None" using h_ReadDir_reader [of mem_ops h "-1" w1] o(2) by simp
  let ?ds = "sort_key (de_baseName \<circ> snd) (map (Pair i) es)"
  have m: "mset (map (de_baseName \<circ> snd) ?ds) = mset (map de_baseName es)" by (simp add: multiset.map_comp comp_def)
  have "ReadDir (mem_with cap z) i p W = Some (?ds, None, W(i := w2))"
    using o(1,2) c rd by (simp del: not_None_eq add: ReadDir.simps [of _ i] gofs_ReadDir_def run_open_def)
  moreover have "distinct (map (de_baseName \<circ> snd) ?ds)"
    using o(5) mset_eq_imp_distinct_iff [OF m] by simp
  moreover have "set (map (de_baseName \<circ> snd) ?ds) = children (mem_tree (W i)) p"
    using mset_eq_setD [OF m] o(6) by simp
  moreover have "sorted (map (de_baseName \<circ> snd) ?ds)" by (rule sorted_sort_key)
  moreover have "\<forall>d \<in> set ?ds. fst d = i \<and> (\<exists>nd. mem_tree (W i) (Join [p, de_baseName (snd d)]) = Some nd
          \<and> info_shows mem_ops (de_info (snd d)) (W i) (Join [p, de_baseName (snd d)]) nd)"
    using o(9) mem.info_shows_heap [of _ w1 _ _ "W i"] o(8) by fastforce
  ultimately show ?thesis using o(3,4,7,8) by (intro exI [of _ ?ds] exI [of _ w2]) simp
qed

text \<open>Working on one file system leaves the others alone.\<close>

definition mem_good :: "nat \<Rightarrow> mems \<Rightarrow> mems \<Rightarrow> bool" where
  "mem_good i W0 W \<longleftrightarrow> mem_ok (W i) \<and> (\<forall>j. j \<noteq> i \<longrightarrow> W j = W0 j)"

lemma mem_good_update [simp]: "mem_good i W0 W \<Longrightarrow> mem_ok w \<Longrightarrow> mem_good i W0 (W(i := w))"
  by (simp add: mem_good_def)

interpretation memfs: tree_fs "mem_with cap z" i "mem_good i W0" "\<lambda>W. mem_tree (W i)" for cap z i W0
proof (unfold_locales, goal_cases)
  case (1 W p)
  then show ?case using mem_Stat_run [of W i p cap z] by (force simp: mem_good_def)
next
  case (2 W p)
  then show ?case using mem_ReadDir_run [of W i p cap z] by (fastforce simp: mem_good_def)
next
  case (3 W p)
  then show ?case using mem_Remove_run [of W i p cap z] by (fastforce simp: mem_good_def)
next
  case (4 W p)
  then show ?case unfolding mem_good_def mem_abs_defs
    using mem.tree_valid mem.ok_D(1) by (metis mem.tree_None_iff)
next
  case (5 W)
  then show ?case using mem.finite_law [OF mem.ok_D(1)] unfolding mem_good_def mem_abs_defs
    by (auto simp: tree_of_def dom_def)
qed

end
