(* ===== verification/Mem_Helpers.thy ===== *)
theory Mem_Helpers
  imports Mem_Iface
begin

section \<open>The helpers on in-memory file systems\<close>

text \<open>
  The fallbacks of package \<open>hackpadfs\<close> on \<open>mem.FS\<close>: \<open>RemoveAll\<close>, \<open>WriteFullFile\<close>, \<open>ReadFile\<close>, through
  \<open>Sub\<close>, and across mount points. The lemmas on a single file system come from the contract \<open>kv_store\<close>
  of \<open>Mem\<close>, those on \<open>RemoveAll\<close> from the contract \<open>tree_fs\<close>.
\<close>

abbreviation create_flags :: flag where
  "create_flags \<equiv> FlagWriteOnly OR FlagCreate OR FlagTruncate"

lemma create_flags_bits [simp]:
  "has_flag create_flags FlagWriteOnly" "has_flag create_flags FlagCreate"
  "has_flag create_flags FlagTruncate" "\<not> has_flag create_flags FlagAppend"
  "has_flag create_flags (FlagCreate OR FlagWriteOnly)" "create_flags \<noteq> FlagReadOnly"
  by (simp_all add: has_flag_def flag_defs)

text \<open>A path that can be written: a file, or a new name in an existing directory.\<close>

definition writable :: "fs_tree \<Rightarrow> string \<Rightarrow> bool" where
  "writable fs p \<longleftrightarrow> ValidPath p \<and>
     (case fs p of Some nd \<Rightarrow> \<not> IsDir (n_mode nd) | None \<Rightarrow> fs (Dir p) \<noteq> None)"

definition new_mode :: "fs_tree \<Rightarrow> string \<Rightarrow> file_mode \<Rightarrow> file_mode" where
  "new_mode fs p perm = (case fs p of Some nd \<Rightarrow> n_mode nd | None \<Rightarrow> perm AND ModePerm)"

lemma mem_open_create:
  assumes "mem_ok w" "writable (mem_tree w) p"
  shows "\<exists>f w' t. mem_OpenFile p create_flags perm w = Some (Some (writeOnlyFile f), None, w') \<and> mem_ok w'
    \<and> mem_tree w' = (mem_tree w)(p \<mapsto> \<lparr>n_mode = new_mode (mem_tree w) p perm, n_modTime = t, n_data = []\<rparr>)
    \<and> mem_attached w' f p (new_mode (mem_tree w) p perm) t \<and> f_offset f = 0 \<and> f_flag f = create_flags"
proof -
  obtain h e w' where o: "mem_OpenFile p create_flags perm w = Some (h, e, w')" "mem_ok w'"
      "(e, mem_tree w', h \<noteq> None) = spec_OpenFile (mem_tree w) p create_flags perm (now w)"
      "\<forall>hd. h = Some hd \<longrightarrow> mem_opened w' p create_flags hd"
    using mem.OpenFile_refines [OF assms(1) [unfolded mem_ok_def], of p create_flags perm]
    unfolding mem_abs_defs mem_FS_defs by blast
  have r: "e = None \<and> h \<noteq> None \<and> (\<exists>t. mem_tree w' =
      (mem_tree w)(p \<mapsto> \<lparr>n_mode = new_mode (mem_tree w) p perm, n_modTime = t, n_data = []\<rparr>))"
  proof (cases "mem_tree w p")
    case None
    then show ?thesis using assms(2) o(3) by (auto simp: writable_def spec_OpenFile_def spec_get_def new_mode_def)
  next
    case (Some nd)
    then have "mem_tree w = (mem_tree w)(p \<mapsto> nd)" by auto
    then show ?thesis using Some assms(2) o(3)
      by (cases nd) (auto simp: writable_def spec_OpenFile_def spec_get_def new_mode_def split: if_splits)
  qed
  then obtain hd t where h: "h = Some hd" "mem_tree w' =
      (mem_tree w)(p \<mapsto> \<lparr>n_mode = new_mode (mem_tree w) p perm, n_modTime = t, n_data = []\<rparr>)" by blast
  then show ?thesis using o r unfolding mem_opened_def opened_def mem_attached_def mem_tree_def
    by (auto simp: open_kind_def)
qed

lemma mem_write:
  assumes "mem_ok w" "mem_attached w f p m t" "mem_tree w p = Some nd" "\<not> IsDir m"
    and "\<not> has_flag (f_flag f) FlagAppend" "0 \<le> f_offset f" "f_offset f + int (length xs) \<le> max_int64"
  shows "\<exists>f' w' t'. h_Write mem_ops (writeOnlyFile f) xs w = Some (int (length xs), None, writeOnlyFile f', w')
    \<and> mem_ok w' \<and> mem_attached w' f' p m t'
    \<and> mem_tree w' = (mem_tree w)(p \<mapsto> \<lparr>n_mode = m, n_modTime = t', n_data = write_at (nat (f_offset f)) xs (n_data nd)\<rparr>)
    \<and> f_offset f' = f_offset f + int (length xs) \<and> f_flag f' = f_flag f"
proof -
  have "int64 (f_offset f + int (length xs)) = f_offset f + int (length xs)"
    using assms(6,7) by (intro int64_id) (auto simp: max_int64_def)
  then show ?thesis
    using mem.Write_refines [OF assms(1-3) [unfolded mem_abs_defs] assms(4), of "f_offset f" xs] assms(5-7)
    unfolding mem_abs_defs by (fastforce simp: write_offset_def h_Write_def)
qed

lemma mem_read:
  assumes "mem_ok w" "mem_attached w f p m t" "mem_tree w p = Some nd" "\<not> IsDir m"
    and "0 \<le> f_offset f" "f_offset f + int (length buf) \<le> max_int64"
    and "xs = read_bytes (length buf) (f_offset f) (n_data nd)"
  shows "\<exists>f' w'. h_Read mem_ops (readOnlyFile f) buf w =
      Some (go_copy buf xs, int (length xs), read_err (length buf) (f_offset f) (n_data nd), readOnlyFile f', w')
    \<and> mem_ok w' \<and> mem_attached w' f' p m t \<and> mem_tree w' = mem_tree w
    \<and> f_offset f' = f_offset f + int (length xs) \<and> f_flag f' = f_flag f"
  using mem.Read_refines [OF assms(1-3) [unfolded mem_abs_defs] assms(4-7)]
  unfolding mem_abs_defs by (auto simp: h_Read_def)

lemma mem_open_read:
  assumes "mem_ok w" "mem_tree w p = Some nd" "ValidPath p"
  shows "\<exists>f w'. mem_Open p w = Some (Some (readOnlyFile f), None, w') \<and> mem_ok w'
    \<and> mem_tree w' = mem_tree w \<and> mem_attached w' f p (n_mode nd) (n_modTime nd) \<and> f_offset f = 0"
proof -
  obtain h e w' where o: "mem_Open p w = Some (h, e, w')" "mem_ok w'"
      "(e, mem_tree w', h \<noteq> None) = spec_OpenFile (mem_tree w) p FlagReadOnly 0 (now w)"
      "\<forall>hd. h = Some hd \<longrightarrow> mem_opened w' p FlagReadOnly hd"
    using mem.OpenFile_refines [OF assms(1) [unfolded mem_ok_def], of p FlagReadOnly 0]
    unfolding mem_abs_defs mem_FS_defs kv_Open_def by blast
  have "e = None" "h \<noteq> None" "mem_tree w' = mem_tree w"
    using o(3) assms(2,3) by (auto simp: spec_OpenFile_def spec_get_def has_flag_def flag_defs split: if_splits)
  then show ?thesis using o assms(2) unfolding mem_opened_def opened_def mem_attached_def mem_tree_def
    by (auto simp: open_kind_def has_flag_def flag_defs)
qed

lemma mem_file_size:
  assumes "mem_ok w" "mem_attached w f p m t" "mem_tree w p = Some nd" "\<not> IsDir m"
  shows "\<exists>i. h_Stat (readOnlyFile f) = Some i \<and> info_Size mem_ops i w = Some (int (length (n_data nd)))"
  using mem.att_Stat [OF assms(1-3) [unfolded mem_abs_defs] assms(4)] by (simp add: h_Stat_def)

lemma write_at_Nil [simp]: "write_at 0 xs [] = xs"
  by (simp add: write_at_def overwrite_def)

lemma writable_new_mode: "writable fs p \<Longrightarrow> \<not> IsDir (new_mode fs p perm)"
  by (auto simp: writable_def new_mode_def split: option.splits)


subsection \<open>\<open>WriteFullFile\<close>, \<open>ReadFile\<close> and \<open>RemoveAll\<close>\<close>

lemma mem_WriteFullFile_run:
  assumes "mem_ok (W i)" "writable (mem_tree (W i)) p" "int (length data) \<le> max_int64"
  shows "\<exists>w' t. WriteFullFile (mem_with cap z) i p data perm W = Some (None, W(i := w')) \<and> mem_ok w'
    \<and> mem_tree w' = (mem_tree (W i))(p \<mapsto>
        \<lparr>n_mode = new_mode (mem_tree (W i)) p perm, n_modTime = t, n_data = data\<rparr>)"
proof -
  let ?m = "new_mode (mem_tree (W i)) p perm"
  obtain f w1 t where o: "mem_OpenFile p create_flags perm (W i) = Some (Some (writeOnlyFile f), None, w1)"
      "mem_ok w1" "mem_tree w1 = (mem_tree (W i))(p \<mapsto> \<lparr>n_mode = ?m, n_modTime = t, n_data = []\<rparr>)"
      "mem_attached w1 f p ?m t" "f_offset f = 0" "f_flag f = create_flags"
    using mem_open_create [OF assms(1,2)] by metis
  obtain f' w2 t' where w: "h_Write mem_ops (writeOnlyFile f) data w1 = Some (int (length data), None, writeOnlyFile f', w2)"
      "mem_ok w2" "mem_attached w2 f' p ?m t'"
      "mem_tree w2 = (mem_tree w1)(p \<mapsto> \<lparr>n_mode = ?m, n_modTime = t', n_data = data\<rparr>)"
    using mem_write [OF o(2,4) _ writable_new_mode [OF assms(2)], of _ data] o(3,5,6) assms(3) by fastforce
  have c: "h_Close (writeOnlyFile f') = (None, writeOnlyFile (f'\<lparr>f_data := None\<rparr>))"
    using w(3) by (auto simp: mem_attached_def attached_def h_Close_def file_Close_def)
  have "WriteFullFile (mem_with cap z) i p data perm W = Some (None, W(i := w2))"
    using o(1) w(1) c by (simp add: WriteFullFile.simps [of _ i] OpenFile.simps [of _ i] WriteFile_def
        run_open_def mf_count_def)
  then show ?thesis using w(2,4) o(3) by auto
qed

lemma mem_ReadFile_run:
  assumes "mem_ok (W i)" "ValidPath p" "mem_tree (W i) p = Some nd" "\<not> IsDir (n_mode nd)"
    and "int (length (n_data nd)) < max_int64"
  shows "\<exists>w'. ReadFile (mem_with cap z) i p W = Some (n_data nd, None, W(i := w')) \<and> mem_ok w'
    \<and> mem_tree w' = mem_tree (W i)"
proof -
  let ?n = "length (n_data nd)"
  obtain f w1 where o: "mem_Open p (W i) = Some (Some (readOnlyFile f), None, w1)" "mem_ok w1"
      "mem_tree w1 = mem_tree (W i)" "mem_attached w1 f p (n_mode nd) (n_modTime nd)" "f_offset f = 0"
    using mem_open_read [OF assms(1,3,2)] by blast
  have nd: "mem_tree w1 p = Some nd" using o(3) assms(3) by simp
  obtain info where st: "h_Stat (readOnlyFile f) = Some info" "info_Size mem_ops info w1 = Some (int ?n)"
    using mem_file_size [OF o(2,4) nd assms(4)] by blast
  obtain f' w2 where r: "h_Read mem_ops (readOnlyFile f) (replicate (?n + 1) 0) w1 =
        Some (go_copy (replicate (?n + 1) 0) (n_data nd), int ?n, Some EOF, readOnlyFile f', w2)"
      "mem_ok w2" "mem_tree w2 = mem_tree w1"
    using mem_read [OF o(2,4) nd assms(4), of "replicate (?n + 1) 0" "n_data nd"] o(5) assms(5)
    by (auto simp: read_bytes_def read_err_def)
  have all: "read_all (mem_with cap z) (i, readOnlyFile f) [] (?n + 1) (W(i := w1)) =
      Some (n_data nd, None, (i, readOnlyFile f'), W(i := w2))"
    using r(1) by (simp add: read_all.simps [of _ "(i, readOnlyFile f)"] mf_bytes_def go_copy_def)
  obtain e h where "h_Close (readOnlyFile f') = (e, h)" by fastforce
  then have "ReadFile (mem_with cap z) i p W = Some (n_data nd, None, W(i := w2))"
    using o(1) st all by (simp add: ReadFile.simps [of _ i] gofs_ReadFile_def run_open_def nat_add_distrib)
  then show ?thesis using r(2,3) o(3) by auto
qed

lemma mem_RemoveAll_run:
  assumes "mem_ok (W i)" "tree_closed (mem_tree (W i))" "ValidPath path"
  shows "\<exists>W'. RemoveAll (mem_with cap z) i path W = Some (None, W') \<and> mem_ok (W' i)
    \<and> mem_tree (W' i) = prune (elems path) (mem_tree (W i)) \<and> (\<forall>j. j \<noteq> i \<longrightarrow> W' j = W j)"
proof -
  have ok: "list_all ok_elem (elems path)" "path_of (elems path) = path"
    using ValidPath_elems [OF assms(3)] by simp_all
  have "mem_good i W W" using assms(1) by (simp add: mem_good_def)
  from memfs.removeAll_prunes [where cap = cap and z = z, OF this ok(1) closed_below_tree [OF assms(2)]]
  show ?thesis using ok(2) assms(3) by (auto simp: mem_good_def RemoveAll.simps [of _ i])
qed

text \<open>
  C15: \<open>RemoveAll\<close> on an in-memory file system always returns without an error and deletes exactly the
  entries at and below the path; other file systems are not touched. (For the root this includes the
  root directory itself.)
\<close>

theorem mem_RemoveAll_prunes:
  assumes "mem_ok (W i)" "tree_closed (mem_tree (W i))" "ValidPath path"
  shows "\<exists>W'. RemoveAll (mem_iface cap) i path W = Some (None, W') \<and> mem_ok (W' i)
    \<and> mem_tree (W' i) = prune (elems path) (mem_tree (W i)) \<and> (\<forall>j. j \<noteq> i \<longrightarrow> W' j = W j)"
  by (rule mem_RemoveAll_run [of W i, OF assms])

theorem mem_RemoveAll_prunes_witness:
  "\<exists>W'. RemoveAll (mem_iface (\<lambda>_. 0)) 0 ''a'' (\<lambda>_. demo_world) = Some (None, W')
    \<and> mem_tree (W' 0) ''a/b'' = None \<and> mem_tree (W' 0) ''f'' = mem_tree demo_world ''f''"
proof -
  show ?thesis
    using mem_RemoveAll_prunes [where W = "\<lambda>_. demo_world" and i = 0 and path = "''a''" and cap = "\<lambda>_. 0"]
      demo_ok demo_closed
    by (force simp: prune_def at_or_below_def elems_def)
qed

text \<open>
  C18: \<open>WriteFullFile\<close> followed by \<open>ReadFile\<close> gives the data back: the file is created, or its old
  content replaced and its mode kept, and no other entry of the tree changes.
\<close>

theorem mem_write_full_then_read:
  assumes "mem_ok (W i)" "writable (mem_tree (W i)) p" "int (length data) < max_int64"
  shows "\<exists>W1 W2 t. WriteFullFile (mem_iface cap) i p data perm W = Some (None, W1)
    \<and> mem_tree (W1 i) = (mem_tree (W i))(p \<mapsto>
        \<lparr>n_mode = new_mode (mem_tree (W i)) p perm, n_modTime = t, n_data = data\<rparr>)
    \<and> ReadFile (mem_iface cap) i p W1 = Some (data, None, W2) \<and> mem_ok (W2 i)
    \<and> mem_tree (W2 i) = mem_tree (W1 i)"
proof -
  have v: "ValidPath p" using assms(2) by (simp add: writable_def)
  obtain w1 t where w: "WriteFullFile (mem_iface cap) i p data perm W = Some (None, W(i := w1))" "mem_ok w1"
      "mem_tree w1 = (mem_tree (W i))(p \<mapsto>
        \<lparr>n_mode = new_mode (mem_tree (W i)) p perm, n_modTime = t, n_data = data\<rparr>)"
    using mem_WriteFullFile_run [of W i p data cap "()" perm] assms by fastforce
  then obtain w2 where "ReadFile (mem_iface cap) i p (W(i := w1)) = Some (data, None, W(i := w2))"
      "mem_ok w2" "mem_tree w2 = mem_tree w1"
    using mem_ReadFile_run [of "W(i := w1)" i p _ cap "()"] v writable_new_mode [OF assms(2)] assms(3) by fastforce
  then show ?thesis using w by auto
qed

theorem mem_write_full_then_read_witness:
  "\<exists>W1 W2. WriteFullFile (mem_iface (\<lambda>_. 0)) 0 ''a/n'' [1, 2] 0x1A4 (\<lambda>_. demo_world) = Some (None, W1)
    \<and> ReadFile (mem_iface (\<lambda>_. 0)) 0 ''a/n'' W1 = Some ([1, 2], None, W2)"
proof -
  have "ValidPath ''a/n''" by (simp add: ValidPath_def valid_elem_def utf8_valid_def utf8_lead_def)
  moreover have "Dir ''a/n'' = ''a''" by code_simp
  ultimately have "writable (mem_tree ((\<lambda>_. demo_world) 0)) ''a/n''" by (simp add: writable_def demo_tree)
  then show ?thesis
    using mem_write_full_then_read [where W = "\<lambda>_. demo_world" and i = 0 and p = "''a/n''" and data = "[1, 2]"
        and perm = "0x1A4" and cap = "\<lambda>_. 0"] demo_ok by (auto simp: max_int64_def)
qed


subsection \<open>Creating a file and the directories above it\<close>

lemma Dir_ancestors:
  assumes "ValidPath p" "p \<noteq> dot"
  shows "p \<notin> set (ancestors (Dir p))" "Dir p \<in> set (ancestors (Dir p))"
proof -
  obtain es e where es: "list_all ok_elem (es @ [e])" "p = path_of (es @ [e])"
    using assms by (metis ValidPathE path_of_Nil rev_exhaust)
  then have d: "Dir p = path_of es" "elems (Dir p) = es" using Dir_snoc [of es e] by auto
  show "p \<notin> set (ancestors (Dir p))"
  proof
    assume "p \<in> set (ancestors (Dir p))"
    then obtain n where "p = path_of (take n es)" unfolding ancestors_def d(2) by (auto; metis order_refl take_all)
    then have "path_of (es @ [e]) = path_of (take n es)" using es(2) by simp
    moreover have "list_all ok_elem (take n es)" using es(1) by (auto simp: list_all_iff dest: in_set_takeD)
    ultimately have "es @ [e] = take n es" using es(1) by (simp add: path_of_inject)
    from arg_cong [OF this, of length] show False by simp
  qed
  show "Dir p \<in> set (ancestors (Dir p))" using d es by (auto simp: ancestors_def intro!: image_eqI [of _ _ "length es"])
qed

text \<open>A tree in which a file can be created at a path, with the directories above it: it has no entry there, and nothing but directories above.\<close>

definition can_create :: "fs_tree \<Rightarrow> string \<Rightarrow> bool" where
  "can_create fs p \<longleftrightarrow> tree_closed fs \<and> fs p = None \<and> (\<forall>q \<in> set (ancestors (Dir p)). fs q \<noteq> None \<longrightarrow> is_dir fs q)"

lemma mem_MkdirAll_run:
  assumes "mem_ok (W j)" "can_create (mem_tree (W j)) p" "ValidPath p" "p \<noteq> dot"
  shows "\<exists>w'. MkdirAll (mem_iface cap) j (Dir p) perm W = Some (None, W(j := w')) \<and> mem_ok w'
    \<and> writable (mem_tree w') p \<and> mem_tree w' p = None \<and> (\<forall>q. mem_tree (W j) q \<noteq> None \<longrightarrow> mem_tree w' q = mem_tree (W j) q)"
proof -
  note c = assms(2) [unfolded can_create_def] and d = Dir_ancestors [OF assms(3,4)]
  obtain w' where m: "mem_MkdirAll (Dir p) perm (W j) = Some (None, w')" "mem_ok w'"
      "\<forall>q \<in> set (ancestors (Dir p)). is_dir (mem_tree w') q"
      "\<forall>q. mem_tree (W j) q \<noteq> None \<longrightarrow> mem_tree w' q = mem_tree (W j) q"
      "\<forall>q. q \<notin> set (ancestors (Dir p)) \<longrightarrow> mem_tree w' q = mem_tree (W j) q"
    using mem_MkdirAll_creates [OF assms(1) _ ValidPath_Dir [OF assms(3)], of perm] c by auto
  have "mem_tree w' p = None" using m(5) d(1) c by simp
  moreover have "mem_tree w' (Dir p) \<noteq> None" using m(3) d(2) is_dir_present by blast
  ultimately show ?thesis using m(1,2,4) assms(3) by (auto simp: MkdirAll.simps [of _ j] run_err_def writable_def)
qed

lemma mem_create_file:
  assumes "mem_ok (W j)" "can_create (mem_tree (W j)) p" "ValidPath p" "p \<noteq> dot"
  shows "\<exists>w1 g w2 u. MkdirAll (mem_iface cap) j (Dir p) 0x1C0 W = Some (None, W(j := w1))
    \<and> mem_OpenFile p create_flags perm w1 = Some (Some (writeOnlyFile g), None, w2) \<and> mem_ok w2
    \<and> mem_tree w2 p = Some \<lparr>n_mode = perm AND ModePerm, n_modTime = u, n_data = []\<rparr>
    \<and> (\<forall>q. mem_tree (W j) q \<noteq> None \<longrightarrow> mem_tree w2 q = mem_tree (W j) q)
    \<and> mem_attached w2 g p (perm AND ModePerm) u \<and> f_offset g = 0 \<and> f_flag g = create_flags"
proof -
  obtain w1 where mk: "MkdirAll (mem_iface cap) j (Dir p) 0x1C0 W = Some (None, W(j := w1))" "mem_ok w1" "writable (mem_tree w1) p"
      "mem_tree w1 p = None" "\<forall>q. mem_tree (W j) q \<noteq> None \<longrightarrow> mem_tree w1 q = mem_tree (W j) q"
    using mem_MkdirAll_run [of W j p cap "0x1C0"] assms by blast
  have nm: "new_mode (mem_tree w1) p perm = perm AND ModePerm" using mk(4) by (simp add: new_mode_def)
  obtain g w2 u where o: "mem_OpenFile p create_flags perm w1 = Some (Some (writeOnlyFile g), None, w2)"
      "mem_ok w2" "mem_tree w2 = (mem_tree w1)(p \<mapsto> \<lparr>n_mode = perm AND ModePerm, n_modTime = u, n_data = []\<rparr>)"
      "mem_attached w2 g p (perm AND ModePerm) u" "f_offset g = 0" "f_flag g = create_flags"
    using mem_open_create [OF mk(2,3), of perm] nm by metis
  have "\<forall>q. mem_tree (W j) q \<noteq> None \<longrightarrow> mem_tree w2 q = mem_tree (W j) q"
    using mk(5) o(3) assms(2) by (auto simp: can_create_def)
  moreover have "mem_tree w2 p = Some \<lparr>n_mode = perm AND ModePerm, n_modTime = u, n_data = []\<rparr>" using o(3) by simp
  ultimately show ?thesis using mk(1) o(1,2,4-6) by blast
qed


subsection \<open>Across mount points\<close>

lemma write_at_end:
  assumes "k \<le> length data" "xs = take n (drop k data)"
  shows "write_at k xs (take k data) = take (k + n) data"
  using assms by (simp add: write_at_def overwrite_def take_add)

lemma io_Copy_mem:
  assumes ij: "i \<noteq> j" and src: "\<not> IsDir (n_mode nd)" "data = n_data nd"
    and dst: "\<not> IsDir m" and small: "int (length data) + int b \<le> max_int64" "0 < b"
    and "mem_ok (W i)" "mem_attached (W i) f p (n_mode nd) t" "mem_tree (W i) p = Some nd" "f_offset f = int k"
    and "mem_ok (W j)" "mem_attached (W j) g q m u"
      "mem_tree (W j) q = Some \<lparr>n_mode = m, n_modTime = u, n_data = take k data\<rparr>"
      "f_offset g = int k" "f_flag g = create_flags" "k \<le> length data"
  shows "\<exists>f' g' W' u'. io_Copy (mem_iface cap) (WriteFile (mem_iface cap)) b
        (j, writeOnlyFile g) (i, readOnlyFile f) W = Some (None, (j, writeOnlyFile g'), (i, readOnlyFile f'), W')
    \<and> mem_ok (W' i) \<and> mem_tree (W' i) = mem_tree (W i) \<and> mem_attached (W' i) f' p (n_mode nd) t \<and> mem_ok (W' j)
    \<and> mem_tree (W' j) = (mem_tree (W j))(q \<mapsto> \<lparr>n_mode = m, n_modTime = u', n_data = data\<rparr>)
    \<and> (\<forall>l. l \<noteq> i \<longrightarrow> l \<noteq> j \<longrightarrow> W' l = W l)"
  using assms(7-)
proof (induction "length data - k" arbitrary: k W f g u rule: less_induct)
  case less
  define xs where "xs = read_bytes b (int k) data"
  have xs: "xs = take b (drop k data)" by (simp add: xs_def read_bytes_def)
  obtain f' w1 where r: "h_Read mem_ops (readOnlyFile f) (replicate b 0) (W i) =
        Some (go_copy (replicate b 0) xs, int (length xs), read_err b (int k) data, readOnlyFile f', w1)"
      "mem_ok w1" "mem_attached w1 f' p (n_mode nd) t" "mem_tree w1 = mem_tree (W i)"
      "f_offset f' = int (k + length xs)"
    using mem_read [OF less.prems(1-3) src(1), of "replicate b 0" xs] less.prems(4,10) small src(2)
    by (auto simp: xs_def)
  have buf: "take (length xs) (go_copy (replicate b 0) xs) = xs" using xs by (simp add: go_copy_def min_def)
  have fits: "int k + int (length xs) \<le> max_int64" using xs small(1) less.prems(10) by simp
  obtain g' w2 u' where w: "h_Write mem_ops (writeOnlyFile g) xs (W j) = Some (int (length xs), None, writeOnlyFile g', w2)"
      "mem_ok w2" "mem_attached w2 g' q m u'"
      "mem_tree w2 = (mem_tree (W j))(q \<mapsto> \<lparr>n_mode = m, n_modTime = u', n_data = take (k + b) data\<rparr>)"
      "f_offset g' = int (k + length xs)" "f_flag g' = create_flags"
    using mem_write [OF less.prems(5-7) dst, of xs] less.prems(8,9) fits write_at_end [OF less.prems(10) xs]
    by auto
  note run = io_Copy.simps [of "mem_iface cap" "WriteFile (mem_iface cap)" b "(j, writeOnlyFile g)"]
  show ?case
  proof (cases "xs = []")
    case True
    then have k: "k = length data" using xs less.prems(10) small(2) by simp
    then have "(mem_tree (W j))(q \<mapsto> \<lparr>n_mode = m, n_modTime = u, n_data = data\<rparr>) = mem_tree (W j)"
      using less.prems(7) by auto
    then show ?thesis using r True k less.prems(5) ij
      by (auto simp: run mf_bytes_def read_err_def intro!: exI [of _ u])
  next
    case nonempty: False
    let ?W = "W(i := w1, j := w2)"
    have step: "io_Copy (mem_iface cap) (WriteFile (mem_iface cap)) b (j, writeOnlyFile g) (i, readOnlyFile f) W =
        (case read_err b (int k) data of
           Some e \<Rightarrow> Some (if e = EOF then None else Some e, (j, writeOnlyFile g'), (i, readOnlyFile f'), ?W)
         | None \<Rightarrow> io_Copy (mem_iface cap) (WriteFile (mem_iface cap)) b
             (j, writeOnlyFile g') (i, readOnlyFile f') ?W)"
    proof -
      have "WriteFile (mem_iface cap) (j, writeOnlyFile g) xs (W(i := w1)) =
          Some (int (length xs), None, (j, writeOnlyFile g'), ?W)"
        using w(1) ij by (simp add: WriteFile_def mf_count_def)
      moreover have "length xs \<le> b" using xs by simp
      ultimately show ?thesis using r(1) buf nonempty by (simp add: run mf_bytes_def)
    qed
    show ?thesis
    proof (cases "length data \<le> k + b")
      case True
      then show ?thesis using step r w ij by (auto simp: read_err_def)
    next
      case False
      then have l: "length xs = b" using xs by simp
      have "length data - (k + b) < length data - k" using False small(2) by simp
      from less.hyps [OF this, of ?W f' g' u'] show ?thesis
        using step False r w l ij less.prems(3) by (auto simp: read_err_def)
    qed
  qed
qed

lemma mem_Close_run: "\<exists>e h'. fl_Close (mem_with cap z) (i, h) W = Some (e, (i, h'), W)"
  by (simp add: split: prod.split)

text \<open>
  C14: \<open>mount.FS.Rename\<close> of a file from one mounted file system to another copies all its bytes, however
  many buffers that takes, creates or overwrites the destination, removes the source, and changes
  nothing else in either tree; the destination gets the permission bits of the source when it is new.
\<close>

theorem mount_Rename_across:
  assumes "mountPoint fs old = (i, op, os)" "mountPoint fs new = (j, np, ns)" "op \<noteq> np" "i \<noteq> j"
    and "mem_ok (W i)" "ValidPath os" "mem_tree (W i) os = Some nd" "\<not> IsDir (n_mode nd)"
    and "mem_ok (W j)" "writable (mem_tree (W j)) ns"
    and "int (length (n_data nd)) + int copy_buffer \<le> max_int64"
  shows "\<exists>W' t. mount_Rename (mem_iface cap) fs old new W = Some (None, W')
    \<and> mem_ok (W' i) \<and> mem_tree (W' i) = (mem_tree (W i))(os := None)
    \<and> mem_ok (W' j) \<and> mem_tree (W' j) = (mem_tree (W j))(ns \<mapsto>
         \<lparr>n_mode = new_mode (mem_tree (W j)) ns (n_mode nd), n_modTime = t, n_data = n_data nd\<rparr>)
    \<and> (\<forall>l. l \<noteq> i \<longrightarrow> l \<noteq> j \<longrightarrow> W' l = W l)"
proof -
  let ?I = "mem_iface cap" and ?m = "new_mode (mem_tree (W j)) ns (n_mode nd)"
  obtain info W1 where st: "Stat ?I i os W = Some (Inr info, W1)" "mem_ok (W1 i)" "mem_tree (W1 i) = mem_tree (W i)"
      "in_Mode ?I info = Some (n_mode nd)" "\<forall>l. l \<noteq> i \<longrightarrow> W1 l = W l"
    using mem_Stat_run [of W i os cap "()"] assms(5-7) by fastforce
  obtain f w2 where o: "mem_Open os (W1 i) = Some (Some (readOnlyFile f), None, w2)" "mem_ok w2"
      "mem_tree w2 = mem_tree (W i)" "mem_attached w2 f os (n_mode nd) (n_modTime nd)" "f_offset f = 0"
    using mem_open_read [OF st(2) _ assms(6), of nd] st(3) assms(7) by auto
  obtain g w3 t where c: "mem_OpenFile ns create_flags (n_mode nd) (W j) = Some (Some (writeOnlyFile g), None, w3)"
      "mem_ok w3" "mem_tree w3 = (mem_tree (W j))(ns \<mapsto> \<lparr>n_mode = ?m, n_modTime = t, n_data = []\<rparr>)"
      "mem_attached w3 g ns ?m t" "f_offset g = 0" "f_flag g = create_flags"
    using mem_open_create [OF assms(9,10)] by metis
  let ?W3 = "W1(i := w2, j := w3)"
  obtain f' g' W4 t' where cp: "io_Copy ?I (WriteFile ?I) copy_buffer (j, writeOnlyFile g) (i, readOnlyFile f) ?W3
        = Some (None, (j, writeOnlyFile g'), (i, readOnlyFile f'), W4)"
      "mem_ok (W4 i)" "mem_tree (W4 i) = mem_tree (W i)" "mem_ok (W4 j)"
      "mem_tree (W4 j) = (mem_tree (W j))(ns \<mapsto> \<lparr>n_mode = ?m, n_modTime = t', n_data = n_data nd\<rparr>)"
      "\<forall>l. l \<noteq> i \<longrightarrow> l \<noteq> j \<longrightarrow> W4 l = W l"
    using io_Copy_mem [OF assms(4,8) refl writable_new_mode [OF assms(10)] assms(11), of ?W3 f os "n_modTime nd" 0 g ns
        "n_mode nd" t cap] o c st(5) assms(4,7) by (auto simp: copy_buffer_def)
  obtain w5 where rm: "Remove ?I i os W4 = Some (None, W4(i := w5))" "mem_ok w5" "mem_tree w5 = (mem_tree (W i))(os := None)"
    using mem_Remove_run [of W4 i os cap "()"] cp(2,3) assms(6-8) by (auto simp: is_dir_def)
  obtain e1 h1 e2 h2 where cl: "h_Close (writeOnlyFile g') = (e1, h1)" "h_Close (readOnlyFile f') = (e2, h2)"
    by fastforce
  have "old \<noteq> new" using assms(1-3) by auto
  then have "mount_Rename ?I fs old new W = Some (None, W4(i := w5))"
    using assms(1-4,8) st(1,4,5) o(1) c(1) cp(1) rm(1) cl
    by (simp add: mount_Rename_def OpenFile.simps [of _ j] run_open_def)
  then show ?thesis using rm(2,3) cp(4-6) assms(4) by auto
qed

definition demo_mems :: mems where
  "demo_mems = (\<lambda>_. demo_world)"

theorem mount_Rename_across_witness:
  "\<exists>W' t. mount_Rename (mem_iface (\<lambda>_. 0)) demo_mounts ''f'' ''a/g'' demo_mems = Some (None, W')
    \<and> mem_tree (W' 0) ''f'' = None
    \<and> mem_tree (W' 1) ''g'' = Some \<lparr>n_mode = 0x1A4, n_modTime = t, n_data = [104, 105, 33]\<rparr>"
proof -
  have p: "mountPoint demo_mounts ''f'' = (0, ''.'', ''f'')" "mountPoint demo_mounts ''a/g'' = (1, ''a'', ''g'')"
    by (simp_all add: mountPoint_def demo_mounts_def HasPrefix_def TrimPrefix_def)
  have d: "mem_tree (demo_mems k) ''f'' = Some \<lparr>n_mode = 0x1A4, n_modTime = 7, n_data = [104, 105, 33]\<rparr>" for k
    by (simp add: demo_mems_def demo_tree)
  have w: "writable (mem_tree (demo_mems 1)) ''g''" and nm: "new_mode (mem_tree (demo_mems 1)) ''g'' 0x1A4 = 0x1A4"
    using Dir_snoc [of "[]" "''g''"]
    by (simp_all add: demo_mems_def writable_def new_mode_def demo_tree demo_valid path_of_def ModePerm_def)
  have ok: "mem_ok (demo_mems k)" for k using demo_ok by (simp add: demo_mems_def)
  have "\<not> IsDir 0x1A4" by (simp add: IsDir_def ModeDir_def)
  then show ?thesis
    using mount_Rename_across [OF p, of demo_mems _ "\<lambda>_. 0"] d ok w nm
    by (auto simp: copy_buffer_def max_int64_def)
qed

definition mount_err :: "nat mountFS \<Rightarrow> mems \<Rightarrow> string \<Rightarrow> err option" where
  "mount_err fs W p =
     (if \<not> ValidPath p \<or> p = dot then Some ErrInvalid
      else if p \<in> set (map fst (mnt_mounts fs)) then Some ErrExist
      else (case mountPoint fs p of (i, _, sub) \<Rightarrow>
        (case mem_tree (W i) sub of
           None \<Rightarrow> Some (PathError ''open'' sub ErrNotExist)
         | Some nd \<Rightarrow> if IsDir (n_mode nd) then None else Some ErrNotDir)))"

lemma mem_Open_missing:
  assumes "mem_ok w" "ValidPath p" "mem_tree w p = None"
  shows "\<exists>w'. mem_Open p w = Some (None, Some (PathError ''open'' p ErrNotExist), w') \<and> mem_ok w' \<and> mem_tree w' = mem_tree w"
proof -
  obtain h e w' where o: "mem_Open p w = Some (h, e, w')" "mem_ok w'"
      "(e, mem_tree w', h \<noteq> None) = spec_OpenFile (mem_tree w) p FlagReadOnly 0 (now w)"
    using mem.OpenFile_refines [OF assms(1) [unfolded mem_ok_def], of p FlagReadOnly 0]
    unfolding mem_abs_defs mem_FS_defs kv_Open_def by blast
  then show ?thesis using assms(2,3) by (auto simp: spec_OpenFile_def spec_get_def has_flag_def flag_defs)
qed

lemma mem_Open_Stat:
  assumes "mem_ok w" "mem_tree w p = Some nd"
  shows "\<exists>h info w'. mem_Open p w = Some (Some h, None, w') \<and> mem_ok w' \<and> mem_tree w' = mem_tree w
    \<and> h_Stat h = Some info \<and> info_Mode mem_ops info = Some (n_mode nd)"
  using mem.Open_Stat [OF assms [unfolded mem_abs_defs]] unfolding mem_abs_defs mem_FS_defs .

lemma addMount_mem:
  assumes "mount_ok fs" "mem_ok (W i)" "ValidPath p" "p \<noteq> dot" "p \<notin> set (map fst (mnt_mounts fs))"
    and "mountPoint fs p = (i, mp, sub)" "e = mount_err fs W p"
  shows "\<exists>w'. addMount (mem_iface cap) fs p m W =
      Some (e, if e = None then fs\<lparr>mnt_mounts := AList.update p m (mnt_mounts fs)\<rparr> else fs, W(i := w'))
    \<and> mem_ok w' \<and> mem_tree w' = mem_tree (W i)"
proof -
  obtain dir base s f where d: "path_Split p = (dir, base)" "mount_Mount fs dir = (f, s)" by (meson surj_pair)
  have [simp]: "f = i" "Join [s, base] = sub"
    using mount_parent [OF assms(1,3-6) d] by simp_all
  have new: "map_of (mnt_mounts fs) p = None" using assms(5) by (simp add: map_of_eq_None_iff)
  have v: "ValidPath sub" using mountPoint_parts(1) [OF assms(1,3,6)] .
  show ?thesis
  proof (cases "mem_tree (W i) sub")
    case None
    then have e: "e = Some (PathError ''open'' sub ErrNotExist)"
      using assms(3-7) by (auto simp: mount_err_def)
    from mem_Open_missing [OF assms(2) v None] show ?thesis
      using assms(3,4) new d e by (auto simp: addMount_def run_open_def)
  next
    case (Some nd)
    then have e: "e = (if IsDir (n_mode nd) then None else Some ErrNotDir)"
      using assms(3-7) by (auto simp: mount_err_def)
    obtain h info w' where o: "mem_Open sub (W i) = Some (Some h, None, w')" "mem_ok w'" "mem_tree w' = mem_tree (W i)"
        "h_Stat h = Some info" "info_Mode mem_ops info = Some (n_mode nd)"
      using mem_Open_Stat [OF assms(2) Some] by blast
    obtain e' h' where "h_Close h = (e', h')" by fastforce
    then show ?thesis using assms(3,4) new d e o by (auto simp: addMount_def run_open_def)
  qed
qed

text \<open>
  C17: \<open>AddMount\<close> over in-memory file systems succeeds exactly when the path is valid, not the root and
  not mounted yet, and a directory is there; otherwise it reports which of these fails and changes
  nothing. After a success the new mount serves its mount point and what lies below, except what a
  longer mount point serves already, and every other path is served as before.
\<close>

theorem AddMount_spec:
  assumes "mount_ok fs" "\<forall>i. mem_ok (W i)"
  shows "\<exists>fs' W'. AddMount (mem_iface cap) fs p m W =
      Some (map_option (PathError ''mount'' p) (mount_err fs W p), fs', W')
    \<and> (\<forall>i. mem_ok (W' i) \<and> mem_tree (W' i) = mem_tree (W i)) \<and> mount_ok fs'
    \<and> (mount_err fs W p \<noteq> None \<longrightarrow> fs' = fs)
    \<and> (mount_err fs W p = None \<longrightarrow> (\<forall>path. ValidPath path \<longrightarrow> mountPoint fs' path =
        (if covers p path \<and> (\<forall>q \<in> set (map fst (mnt_mounts fs)). covers q path \<longrightarrow> length q < length p)
         then (m, p, below_point p path) else mountPoint fs path)))"
proof (cases "ValidPath p \<and> p \<noteq> dot \<and> p \<notin> set (map fst (mnt_mounts fs))")
  case True
  then have v: "ValidPath p" "p \<noteq> dot" "p \<notin> set (map fst (mnt_mounts fs))" by simp_all
  let ?fs' = "fs\<lparr>mnt_mounts := AList.update p m (mnt_mounts fs)\<rparr>"
  obtain i mp sub where mp: "mountPoint fs p = (i, mp, sub)" by (metis prod_cases3)
  have "mem_ok (W i)" using assms(2) by simp
  from addMount_mem [OF assms(1) _ v mp, of W "mount_err fs W p" cap m] this
  obtain w' where "addMount (mem_iface cap) fs p m W =
      Some (mount_err fs W p, if mount_err fs W p = None then ?fs' else fs, W(i := w'))"
    "mem_ok w'" "mem_tree w' = mem_tree (W i)" by blast
  moreover have "mount_ok ?fs'" using mount_ok_update [OF assms(1) v(1,2)] .
  moreover have "map_of (mnt_mounts fs) p = None" using v(3) by (simp add: map_of_eq_None_iff)
  ultimately show ?thesis
    using assms mountPoint_update [OF assms(1) v(1,2)] by (auto simp: AddMount_def)
next
  case False
  then have "addMount (mem_iface cap) fs p m W = Some (mount_err fs W p, fs, W)" "mount_err fs W p \<noteq> None"
    by (auto simp: addMount_def mount_err_def map_of_eq_None_iff)
  then show ?thesis using assms by (auto simp: AddMount_def)
qed

theorem AddMount_spec_witness:
  "\<exists>fs' W'. AddMount (mem_iface (\<lambda>_. 0)) (mount_NewFS rev 0) ''a/b'' 1 demo_mems = Some (None, fs', W')
    \<and> mount_ok fs' \<and> mountPoint fs' ''a/b/c'' = (1, ''a/b'', ''c'')"
proof -
  have ok: "mount_ok (mount_NewFS rev (0::nat))" by (simp add: mount_ok_def mount_NewFS_def)
  have "mountPoint (mount_NewFS rev (0::nat)) ''a/b'' = (0, ''.'', ''a/b'')"
    by (simp add: mountPoint_def mount_NewFS_def TrimPrefix_def HasPrefix_def)
  then have e: "mount_err (mount_NewFS rev 0) demo_mems ''a/b'' = None"
    using demo_tree by (simp add: mount_err_def demo_mems_def demo_modes) (simp add: mount_NewFS_def)
  have "\<forall>i. mem_ok (demo_mems i)" using demo_ok by (simp add: demo_mems_def)
  from AddMount_spec [OF ok this, of "\<lambda>_. 0" "''a/b''" 1] e show ?thesis
    using demo_ValidPath(5) by (auto simp: mount_NewFS_def covers_def HasPrefix_def below_point_def)
qed

end
