(* ===== verification/Mem_Fallbacks.thy ===== *)
theory Mem_Fallbacks
  imports Mem_Helpers
begin

section \<open>\<open>Sub\<close>, and the fallbacks of \<open>MkdirAll\<close> and \<open>RemoveAll\<close>\<close>

text \<open>
  What a file system rooted at a directory shows of the tree, and two fallbacks of \<open>fs.go\<close> whose
  results differ from the optimised methods: \<open>MkdirAll\<close> on a directory that exists, and \<open>RemoveAll\<close>
  when the last \<open>Remove\<close> fails.
\<close>

definition sub_view :: "string \<Rightarrow> fs_tree \<Rightarrow> fs_tree" where
  "sub_view dir fs = (\<lambda>p. if ValidPath p then fs (Join [dir, p]) else None)"

lemma with_sub_sel [simp]:
  "fl_Write (with_sub I) = fl_Write I" "fl_Close (with_sub I) = fl_Close I" "fl_Stat (with_sub I) = fl_Stat I"
  "in_Name (with_sub I) = in_Name I"
  "i_OpenFile (with_sub I) = on_root (i_OpenFile I)" "i_WriteFile (with_sub I) = on_root (i_WriteFile I)"
  "i_Sub (with_sub I) (Root fs) = map_option (\<lambda>sub dir w. do {
          (r, e, w) \<leftarrow> sub dir w; Some (map_option Root r, e, w) }) (i_Sub I fs)"
  "i_Mount (with_sub I) (Root fs) =
     map_option (\<lambda>mount p w. let (m, s) = mount p w in (Root m, s)) (i_Mount I fs)"
  "i_Mount (with_sub I) (subFS base root) = Some (\<lambda>p w. sub_Mount base root p)"
  by (simp_all add: with_sub_def)

lemma WriteFullFile_root:
  assumes "i_Mount I fs = None"
  shows "WriteFullFile (with_sub I) (Root fs) name data perm w = WriteFullFile I fs name data perm w"
proof -
  have wf: "WriteFile (with_sub I) = WriteFile I"
    by (intro ext) (unfold WriteFile_def not_implemented_def with_sub_sel, rule refl)
  have op: "OpenFile (with_sub I) (Root fs) name create_flags perm w = OpenFile I fs name create_flags perm w"
    using assms create_flags_bits(6) by (simp add: OpenFile.simps [of _ "Root fs"] OpenFile.simps [of _ fs] split: option.split)
  show ?thesis
    unfolding WriteFullFile.simps [of _ "Root fs"] WriteFullFile.simps [of _ fs] with_sub_sel on_root.simps wf op
    using assms by (simp split: option.split)
qed

lemma WriteFullFile_sub:
  assumes "ValidPath name" "i_Mount I fs = None"
  shows "WriteFullFile (with_sub I) (subFS dir (Root fs)) name data perm w = do {
      (e, w) \<leftarrow> WriteFullFile I fs (Join [dir, name]) data perm w;
      Some (stripErrPathPrefix e name (Join [dir, name]), w) }"
  using assms by (simp add: WriteFullFile.simps [of _ "subFS dir (Root fs)"] sub_Mount_def WriteFullFile_root)

lemma Join_valid:
  assumes "ValidPath d" "ValidPath p"
  shows "ValidPath (Join [d, p])" "elems (Join [d, p]) = elems d @ elems p"
    "p \<noteq> dot \<Longrightarrow> Dir (Join [d, p]) = Join [d, Dir p]"
    "ValidPath q \<Longrightarrow> Join [d, p] = Join [d, q] \<longleftrightarrow> p = q"
proof -
  obtain a where a: "list_all ok_elem a" "d = path_of a" using assms(1) by (rule ValidPathE)
  obtain b where b: "list_all ok_elem b" "p = path_of b" using assms(2) by (rule ValidPathE)
  show "ValidPath (Join [d, p])" "elems (Join [d, p]) = elems d @ elems p"
    using a b by (simp_all add: Join_path_of)
  show "Dir (Join [d, p]) = Join [d, Dir p]" if pd: "p \<noteq> dot"
  proof -
    obtain c e where "b = c @ [e]" using b pd by (cases b rule: rev_cases) auto
    then show ?thesis using a b Dir_snoc [of "a @ c" e] Dir_snoc [of c e] by (simp add: Join_path_of)
  qed
  show "Join [d, p] = Join [d, q] \<longleftrightarrow> p = q" if q: "ValidPath q"
  proof -
    obtain c where "list_all ok_elem c" "q = path_of c" using q by (rule ValidPathE)
    then show ?thesis using a b by (simp add: Join_path_of path_of_inject)
  qed
qed

lemma writable_sub:
  assumes "ValidPath dir" "writable (sub_view dir fs) name"
  shows "writable fs (Join [dir, name])" "new_mode fs (Join [dir, name]) perm = new_mode (sub_view dir fs) name perm"
proof -
  have v: "ValidPath name" using assms(2) by (simp add: writable_def)
  have view: "sub_view dir fs name = fs (Join [dir, name])" using v by (simp add: sub_view_def)
  show "new_mode fs (Join [dir, name]) perm = new_mode (sub_view dir fs) name perm"
    by (simp add: new_mode_def view)
  show "writable fs (Join [dir, name])"
  proof (cases "fs (Join [dir, name])")
    case None
    then have "name \<noteq> dot" using assms(2) view by (auto simp: writable_def path_simps)
    moreover have "sub_view dir fs (Dir name) \<noteq> None" using assms(2) None view by (simp add: writable_def)
    ultimately have "fs (Dir (Join [dir, name])) \<noteq> None"
      using Join_valid(3) [OF assms(1) v] by (auto simp: sub_view_def split: if_splits)
    then show ?thesis using None Join_valid(1) [OF assms(1) v] by (simp add: writable_def)
  next
    case (Some nd)
    then show ?thesis using assms(2) view Join_valid(1) [OF assms(1) v] by (simp add: writable_def)
  qed
qed

text \<open>
  C19: a file system rooted at a directory works inside that directory only. Writing a whole file through
  it changes exactly that file of the tree it shows and nothing outside the directory, and the file
  system below reads the bytes back at the joined path.
\<close>

theorem sub_write_through:
  assumes "mem_ok (W i)" "ValidPath dir" "writable (sub_view dir (mem_tree (W i))) name" "int (length data) < max_int64"
  shows "\<exists>W1 W2 t. WriteFullFile (with_sub (mem_iface cap)) (subFS dir (Root i)) name data perm W = Some (None, W1)
    \<and> sub_view dir (mem_tree (W1 i)) = (sub_view dir (mem_tree (W i)))(name \<mapsto>
        \<lparr>n_mode = new_mode (sub_view dir (mem_tree (W i))) name perm, n_modTime = t, n_data = data\<rparr>)
    \<and> (\<forall>q. \<not> at_or_below (elems dir) q \<longrightarrow> mem_tree (W1 i) q = mem_tree (W i) q)
    \<and> ReadFile (mem_iface cap) i (Join [dir, name]) W1 = Some (data, None, W2)"
proof -
  let ?p = "Join [dir, name]"
  have v: "ValidPath name" using assms(3) by (simp add: writable_def)
  note wr = writable_sub [OF assms(2,3)]
  obtain w1 t where w: "WriteFullFile (mem_iface cap) i ?p data perm W = Some (None, W(i := w1))" "mem_ok w1"
      "mem_tree w1 = (mem_tree (W i))(?p \<mapsto>
        \<lparr>n_mode = new_mode (mem_tree (W i)) ?p perm, n_modTime = t, n_data = data\<rparr>)"
    using mem_WriteFullFile_run [of W i ?p data cap "()" perm] assms(1,4) wr(1) by fastforce
  obtain w2 where "ReadFile (mem_iface cap) i ?p (W(i := w1)) = Some (data, None, W(i := w2))"
    using mem_ReadFile_run [of "W(i := w1)" i ?p _ cap "()"] w(2,3) Join_valid(1) [OF assms(2) v]
      writable_new_mode [OF wr(1)] assms(4) by fastforce
  moreover have "sub_view dir (mem_tree w1) = (sub_view dir (mem_tree (W i)))(name \<mapsto>
        \<lparr>n_mode = new_mode (sub_view dir (mem_tree (W i))) name perm, n_modTime = t, n_data = data\<rparr>)"
    using w(3) wr(2) Join_valid(4) [OF assms(2) _ v] v by (auto simp: sub_view_def fun_eq_iff)
  moreover have "at_or_below (elems dir) ?p"
    using Join_valid(1,2) [OF assms(2) v] by (simp add: at_or_below_def)
  ultimately show ?thesis
    using w(1,3) WriteFullFile_sub [OF v, of "mem_iface cap" i dir data perm W]
    by (auto simp: stripErrPathPrefix_def)
qed

theorem sub_write_through_witness:
  "\<exists>W1 W2. WriteFullFile (with_sub (mem_iface (\<lambda>_. 0))) (subFS ''a'' (Root 0)) ''g'' [5] 0x1A4 demo_mems = Some (None, W1)
    \<and> ReadFile (mem_iface (\<lambda>_. 0)) 0 ''a/g'' W1 = Some ([5], None, W2)"
proof -
  have j: "Join [''a'', ''g''] = ''a/g''" "Join [''a'', ''.''] = ''a''" "Dir ''g'' = ''.''"
    using Join_path_of [of "[''a'']" "[''g'']"] Join_path_of [of "[''a'']" "[]"] Dir_snoc [of "[]" "''g''"]
    by (simp_all add: demo_valid path_of_def)
  have "writable (sub_view ''a'' (mem_tree (demo_mems 0))) ''g''"
    by (simp add: writable_def sub_view_def demo_mems_def demo_tree j)
  then show ?thesis
    using sub_write_through [where W = demo_mems and i = 0 and dir = "''a''" and name = "''g''" and data = "[5]"
        and perm = "0x1A4" and cap = "\<lambda>_. 0"] demo_ok j by (auto simp: max_int64_def demo_mems_def)
qed


subsection \<open>Fallbacks that differ from the methods they replace\<close>

definition no_MkdirAll :: "('f, 'h, 'i, 'd, 'w) fs_iface \<Rightarrow> ('f, 'h, 'i, 'd, 'w) fs_iface" where
  "no_MkdirAll I = I\<lparr>i_MkdirAll := \<lambda>_. None\<rparr>"

lemma no_MkdirAll_sel [simp]:
  "i_MkdirAll (no_MkdirAll I) = (\<lambda>_. None)" "i_Mount (no_MkdirAll I) = i_Mount I" "i_Mkdir (no_MkdirAll I) = i_Mkdir I"
  "i_Stat (no_MkdirAll I) = i_Stat I" "in_Mode (no_MkdirAll I) = in_Mode I"
  by (simp_all add: no_MkdirAll_def)

lemma Mkdir_existing:
  assumes "mem_ok (W i)" "ValidPath p" "is_dir (mem_tree (W i)) p"
  shows "\<exists>w'. Mkdir (no_MkdirAll (mem_iface cap)) i p perm W = Some (Some (PathError ''mkdir'' p ErrExist), W(i := w'))
    \<and> mem_ok w' \<and> mem_tree w' = mem_tree (W i)"
proof -
  obtain e w' where "mem_Mkdir p perm (W i) = Some (e, w')" "mem_ok w'"
      "(e, mem_tree w') = spec_Mkdir (mem_tree (W i)) p perm (now (W i))"
    using mem.Mkdir_refines [OF assms(1) [unfolded mem_ok_def]] unfolding mem_abs_defs mem_FS_defs by blast
  then show ?thesis using assms(2) is_dir_present [OF assms(3)]
    by (auto simp: Mkdir.simps [of _ i] run_err_def spec_Mkdir_def spec_get_def)
qed

lemma mkdir_prefix_existing:
  assumes "mem_ok (W i)" "ValidPath p" "is_dir (mem_tree (W i)) p"
  shows "\<exists>w'. mkdir_prefix (no_MkdirAll (mem_iface cap)) i perm p W = Some (None, W(i := w'))
    \<and> mem_ok w' \<and> mem_tree w' = mem_tree (W i)"
proof -
  let ?I = "no_MkdirAll (mem_iface cap)"
  obtain w1 where m: "Mkdir ?I i p perm W = Some (Some (PathError ''mkdir'' p ErrExist), W(i := w1))"
      "mem_ok w1" "mem_tree w1 = mem_tree (W i)"
    using Mkdir_existing [of W i p cap perm] assms by blast
  obtain nd where nd: "mem_tree (W i) p = Some nd" "IsDir (n_mode nd)"
    using assms(3) by (auto simp: is_dir_def split: option.splits)
  obtain r w2 where st: "mem_Stat p w1 = Some (r, w2)" "mem_ok w2" "mem_tree w2 = mem_tree w1"
      "stat_shows mem_ops r w2 p (mem_tree w1)"
    using mem.Stat_refines [OF m(2) [unfolded mem_ok_def]] unfolding mem_abs_defs mem_FS_defs by blast
  then obtain info where "r = Inr info" "info_Mode mem_ops info = Some (n_mode nd)"
    using nd assms(2) m(3) by (auto simp: stat_shows_def spec_get_def info_shows_def)
  then show ?thesis using m(1,3) st nd(2)
    by (auto simp: mkdir_prefix_def Stat.simps [of _ i] run_stat_def)
qed

lemma mkdir_prefixes_existing:
  assumes "mem_ok (W i)" "\<forall>p \<in> set ps. ValidPath p \<and> is_dir (mem_tree (W i)) p"
  shows "\<exists>w'. until_err (mkdir_prefix (no_MkdirAll (mem_iface cap)) i perm) ps W = Some (None, W(i := w'))
    \<and> mem_ok w' \<and> mem_tree w' = mem_tree (W i)"
  using assms
proof (induction ps arbitrary: W)
  case Nil
  then show ?case by (metis fun_upd_triv until_err.simps(1))
next
  case (Cons p ps)
  obtain w1 where "mkdir_prefix (no_MkdirAll (mem_iface cap)) i perm p W = Some (None, W(i := w1))"
      "mem_ok w1" "mem_tree w1 = mem_tree (W i)"
    using mkdir_prefix_existing [of W i p cap perm] Cons.prems by auto
  moreover from this have "\<exists>w'. until_err (mkdir_prefix (no_MkdirAll (mem_iface cap)) i perm) ps (W(i := w1)) = Some (None, W(i := w'))
    \<and> mem_ok w' \<and> mem_tree w' = mem_tree w1"
    using Cons.IH [of "W(i := w1)"] Cons.prems(2) by (simp del: fun_upd_apply add: fun_upd_same)
  ultimately show ?case by (simp del: fun_upd_apply)
qed

lemma slash_prefixes_closed:
  assumes "tree_closed fs" "ValidPath path" "fs path \<noteq> None" "p \<in> set (slash_prefixes path)"
  shows "ValidPath p \<and> is_dir fs p"
proof -
  obtain k where k: "k < length path" "path ! k = slash" "p = take k path"
    using assms(4) by (auto simp: slash_prefixes_def)
  define b where "b = drop (Suc k) path"
  have path: "path = p @ slash # b" using k id_take_nth_drop [of k path] by (simp add: b_def)
  have "slash \<in> set path" using path by simp
  then have nd: "path \<noteq> dot" by auto
  obtain es where es: "list_all ok_elem es" "path = path_of es" "es \<noteq> []"
    using assms(2) nd by (metis ValidPathE path_of_Nil)
  have eq: "es = split_slash p @ split_slash b"
    using split_slash_path_of [OF es(1)] es(2,3) split_slash_split [of p b] path by (metis (no_types))
  have a: "list_all ok_elem (split_slash p)" using es(1) unfolding eq by simp
  have p: "path_of (split_slash p) = p" by (simp add: path_of_def)
  have "is_dir fs (path_of (split_slash p))"
  proof (rule closed_below_up [OF closed_below_tree [OF assms(1)] prefix_order.refl])
    show "list_all ok_elem (split_slash p @ split_slash b)" using es(1) unfolding eq .
    show "fs (path_of (split_slash p @ split_slash b)) \<noteq> None" using assms(3) unfolding es(2) eq .
  qed simp
  then show ?thesis using ValidPath_path_of [OF a] unfolding p by simp
qed

lemma spec_MkdirAll_existing:
  assumes "ValidPath path" "is_dir fs path"
  shows "spec_MkdirAll fs path perm clock n = (None, fs)"
proof -
  obtain nd where "fs path = Some nd" "IsDir (n_mode nd)"
    using assms(2) by (auto simp: is_dir_def split: option.splits)
  moreover have "ancestors path = path # map (\<lambda>n. path_of (take n (elems path))) (rev [0 ..< length (elems path)])"
    using ValidPath_elems(2) [OF assms(1)] by (simp add: ancestors_def)
  ultimately show ?thesis using assms(1) by (simp add: spec_MkdirAll_def)
qed

text \<open>
  The fallback of \<open>MkdirAll\<close>, for file systems without the method, fails with \<open>ErrExist\<close> on a
  directory that exists already, where the optimised method of the same file system succeeds.
\<close>

theorem MkdirAll_fallback_exists:
  assumes "mem_ok (W i)" "tree_closed (mem_tree (W i))" "ValidPath path" "is_dir (mem_tree (W i)) path"
  shows "(\<exists>W'. MkdirAll (no_MkdirAll (mem_iface cap)) i path perm W = Some (Some (PathError ''mkdir'' path ErrExist), W')
      \<and> mem_tree (W' i) = mem_tree (W i))
    \<and> (\<exists>W'. MkdirAll (mem_iface cap) i path perm W = Some (None, W') \<and> mem_tree (W' i) = mem_tree (W i))"
proof
  have pre: "\<forall>p \<in> set (slash_prefixes path). ValidPath p \<and> is_dir (mem_tree (W i)) p"
    using slash_prefixes_closed [OF assms(2,3) is_dir_present [OF assms(4)]] by blast
  obtain w1 where u: "until_err (mkdir_prefix (no_MkdirAll (mem_iface cap)) i perm) (slash_prefixes path) W = Some (None, W(i := w1))"
      "mem_ok w1" "mem_tree w1 = mem_tree (W i)"
    using mkdir_prefixes_existing [of W i "slash_prefixes path" cap perm] assms(1) pre by blast
  then obtain w2 where "Mkdir (no_MkdirAll (mem_iface cap)) i path perm (W(i := w1)) =
      Some (Some (PathError ''mkdir'' path ErrExist), W(i := w2))" "mem_tree w2 = mem_tree (W i)"
    using Mkdir_existing [of "W(i := w1)" i path cap perm] assms(3,4) by auto
  then show "\<exists>W'. MkdirAll (no_MkdirAll (mem_iface cap)) i path perm W = Some (Some (PathError ''mkdir'' path ErrExist), W')
      \<and> mem_tree (W' i) = mem_tree (W i)"
    using u(1) assms(3) by (auto simp: MkdirAll.simps [of _ i])
  obtain e w' where m: "mem_MkdirAll path perm (W i) = Some (e, w')" "mem_ok w'"
      "(e, mem_tree w') = spec_MkdirAll (mem_tree (W i)) path perm (w_clock (W i)) (w_tick (W i))"
    using mem.MkdirAll_refines [OF assms(1) [unfolded mem_ok_def]] unfolding mem_abs_defs mem_FS_defs by blast
  then have "e = None" "mem_tree w' = mem_tree (W i)"
    using assms(3,4) spec_MkdirAll_existing [OF assms(3,4)] by auto
  then show "\<exists>W'. MkdirAll (mem_iface cap) i path perm W = Some (None, W') \<and> mem_tree (W' i) = mem_tree (W i)"
    using m(1) by (auto simp: MkdirAll.simps [of _ i] run_err_def)
qed

theorem MkdirAll_fallback_exists_witness:
  "(\<exists>W'. MkdirAll (no_MkdirAll (mem_iface (\<lambda>_. 0))) 0 ''a/b'' 0x1ED demo_mems = Some (Some (PathError ''mkdir'' ''a/b'' ErrExist), W'))
    \<and> (\<exists>W'. MkdirAll (mem_iface (\<lambda>_. 0)) 0 ''a/b'' 0x1ED demo_mems = Some (None, W'))"
proof -
  have "is_dir (mem_tree (demo_mems 0)) ''a/b''" by (simp add: is_dir_def demo_mems_def demo_tree demo_modes)
  then show ?thesis
    using MkdirAll_fallback_exists [of demo_mems 0 "''a/b''" "\<lambda>_. 0" "0x1ED"] demo_ok demo_closed
    by (auto simp: demo_mems_def)
qed

text \<open>
  \<open>RemoveAll\<close> of a directory hides the error of its last step: when the emptied directory cannot be
  removed, the helper still reports success.
\<close>

theorem RemoveAll_hides_error:
  assumes "i_RemoveAll I fs = None" "i_Mount I fs = None" "ValidPath path"
    and "Stat I fs path w = Some (Inr info, w1)" "in_Mode I info = Some m" "IsDir m"
    and "ReadDir I fs path w1 = Some ([], None, w2)" "Remove I fs path w2 = Some (Some e, w3)"
  shows "RemoveAll I fs path w = Some (None, w3)"
  using assms by (simp add: RemoveAll.simps [of I fs] removeAll.simps [of I fs])

lemma demo_children: "children (mem_tree demo_world) ''a/b'' = {}"
proof -
  have "Dir ''.'' = ''.''" "Dir ''a'' = ''.''" "Dir ''a/b'' = ''a''" "Dir ''f'' = ''.''"
    using Dir_dot Dir_snoc [of "[]" "''a''"] Dir_snoc [of "[''a'']" "''b''"] Dir_snoc [of "[]" "''f''"]
    by (simp_all add: demo_valid path_of_def)
  then show ?thesis by (auto simp: children_def demo_tree split: if_splits)
qed

definition read_only_mem :: "(nat, mem_file, mem_info, mem_entry, mems) fs_iface" where
  "read_only_mem = (mem_iface (\<lambda>_. 0))\<lparr>i_Remove := \<lambda>i. Some (\<lambda>p W. Some (Some (PathError ''remove'' p ErrPermission), W))\<rparr>"

lemma read_only_mem_sel:
  "fl_ReadDir read_only_mem = fl_ReadDir (mem_iface (\<lambda>_. 0))" "fl_Close read_only_mem = fl_Close (mem_iface (\<lambda>_. 0))"
  "i_Open read_only_mem = i_Open (mem_iface (\<lambda>_. 0))" "de_Name read_only_mem = de_Name (mem_iface (\<lambda>_. 0))"
  "i_ReadDir read_only_mem = (\<lambda>_. None)" "i_Mount read_only_mem = (\<lambda>_. None)" "i_RemoveAll read_only_mem = (\<lambda>_. None)"
  "i_Stat read_only_mem = i_Stat (mem_iface (\<lambda>_. 0))"
  by (simp_all add: read_only_mem_def)

lemma read_only_mem_same:
  "Stat read_only_mem i p W = Stat (mem_iface (\<lambda>_. 0)) i p W" "ReadDir read_only_mem i p W = ReadDir (mem_iface (\<lambda>_. 0)) i p W"
  unfolding Stat.simps [of _ i] ReadDir.simps [of _ i] gofs_ReadDir_def read_only_mem_sel by simp_all

theorem RemoveAll_hides_error_witness:
  "\<exists>W'. RemoveAll read_only_mem 0 ''a/b'' demo_mems = Some (None, W') \<and> mem_tree (W' 0) ''a/b'' \<noteq> None"
proof -
  let ?I = "mem_iface (\<lambda>_. 0)"
  have dir: "mem_tree (demo_mems 0) ''a/b'' = Some \<lparr>n_mode = ModeDir OR 0x1FF, n_modTime = 7, n_data = []\<rparr>"
    by (simp add: demo_mems_def demo_tree)
  obtain info W1 where st: "Stat ?I 0 ''a/b'' demo_mems = Some (Inr info, W1)" "mem_ok (W1 0)"
      "mem_tree (W1 0) = mem_tree (demo_mems 0)" "in_Mode ?I info = Some (ModeDir OR 0x1FF)"
    using mem_Stat_run [of demo_mems 0 "''a/b''" "\<lambda>_. 0" "()"] dir demo_ok by (auto simp: demo_mems_def)
  have empty: "children (mem_tree (demo_mems 0)) ''a/b'' = {}" by (simp add: demo_mems_def demo_children)
  have "is_dir (mem_tree (W1 0)) ''a/b''" using st(3) dir by (simp add: is_dir_def demo_modes)
  then obtain w2 where rd: "ReadDir ?I 0 ''a/b'' W1 = Some ([], None, W1(0 := w2))" "mem_tree w2 = mem_tree (W1 0)"
    using mem_ReadDir_run [of W1 0 "''a/b''" "\<lambda>_. 0" "()"] st(2,3) empty by fastforce
  have "RemoveAll read_only_mem 0 ''a/b'' demo_mems = Some (None, W1(0 := w2))"
  proof (rule RemoveAll_hides_error)
    show "Stat read_only_mem 0 ''a/b'' demo_mems = Some (Inr info, W1)" using st(1) by (simp add: read_only_mem_same)
    show "ReadDir read_only_mem 0 ''a/b'' W1 = Some ([], None, W1(0 := w2))" using rd(1) by (simp add: read_only_mem_same)
    show "in_Mode read_only_mem info = Some (ModeDir OR 0x1FF)" using st(4) by (simp add: read_only_mem_def)
    show "Remove read_only_mem 0 ''a/b'' (W1(0 := w2)) = Some (Some (PathError ''remove'' ''a/b'' ErrPermission), W1(0 := w2))"
      by (simp add: Remove.simps [of _ 0] read_only_mem_def)
  qed (simp_all add: read_only_mem_sel demo_modes)
  then show ?thesis using rd(2) st(3) dir by auto
qed

end
