(* ===== verification/OS_Path.thy ===== *)
theory OS_Path
  imports HackpadFS
begin

section \<open>Paths of the operating system (\<open>os/path.go\<close>, \<open>os/fs.go\<close>)\<close>

text \<open>
  \<open>os.FS\<close> hands every call to the package \<open>os\<close> with the path under its root directory. The platform is
  an argument: \<open>runtime.GOOS\<close>, \<open>filepath.Separator\<close>, \<open>filepath.VolumeName\<close> and \<open>filepath.IsAbs\<close>.
  \<open>linux\<close> is the instance for Unix systems, where volume names are empty. Windows is any platform with
  that \<open>GOOS\<close>; what the theorems need of its \<open>VolumeName\<close> is stated there.
\<close>

record platform =
  pl_GOOS :: string
  pl_Separator :: char
  pl_VolumeName :: "string \<Rightarrow> string"
  pl_IsAbs :: "string \<Rightarrow> bool"

definition linux :: platform where
  "linux = \<lparr>pl_GOOS = ''linux'', pl_Separator = slash, pl_VolumeName = (\<lambda>_. []), pl_IsAbs = (\<lambda>p. HasPrefix p [slash])\<rparr>"

definition goosWindows :: string where "goosWindows = ''windows''"

record osFS =
  os_root :: string
  os_volumeName :: string

definition os_NewFS :: osFS where
  "os_NewFS = \<lparr>os_root = [], os_volumeName = []\<rparr>"


subsection \<open>Conversions\<close>

definition TrimRight :: "string \<Rightarrow> char \<Rightarrow> string" where
  "TrimRight s c = rev (dropWhile (\<lambda>x. x = c) (rev s))"

definition TrimLeft :: "string \<Rightarrow> char \<Rightarrow> string" where
  "TrimLeft s c = dropWhile (\<lambda>x. x = c) s"

definition replace_char :: "char \<Rightarrow> char \<Rightarrow> string \<Rightarrow> string" where
  "replace_char a b s = map (\<lambda>c. if c = a then b else c) s"

definition joinSepPath :: "char \<Rightarrow> string \<Rightarrow> string \<Rightarrow> string" where
  "joinSepPath sep elem1 elem2 = TrimRight elem1 sep @ sep # TrimLeft elem2 sep"

definition fromSeparator :: "char \<Rightarrow> string \<Rightarrow> string" where
  "fromSeparator sep path = (if sep = slash then path else replace_char slash sep path)"

definition toSeparator :: "char \<Rightarrow> string \<Rightarrow> string" where
  "toSeparator sep path = (if sep = slash then path else replace_char sep slash path)"

definition getVolumeName :: "osFS \<Rightarrow> string \<Rightarrow> string" where
  "getVolumeName fs goos = (if goos = goosWindows \<and> os_volumeName fs = [] then ''C:'' else os_volumeName fs)"

definition toOSPath :: "osFS \<Rightarrow> string \<Rightarrow> char \<Rightarrow> string \<Rightarrow> string \<Rightarrow> err + string" where
  "toOSPath fs goos sep op fsPath =
     (if \<not> ValidPath fsPath then Inl (PathError op fsPath ErrInvalid)
      else
        (let fsPath = Join [[slash], os_root fs, fsPath]
         in Inr (joinSepPath sep (getVolumeName fs goos) (fromSeparator sep fsPath))))"

definition rootedPath :: "platform \<Rightarrow> osFS \<Rightarrow> string \<Rightarrow> string \<Rightarrow> err + string" where
  "rootedPath pl fs op name = toOSPath fs (pl_GOOS pl) (pl_Separator pl) op name"

definition osPathOp :: string where "osPathOp = ''ospath''"

definition ToOSPath :: "platform \<Rightarrow> osFS \<Rightarrow> string \<Rightarrow> err + string" where
  "ToOSPath pl fs fsPath = rootedPath pl fs osPathOp fsPath"

definition fromOSPath ::
  "osFS \<Rightarrow> string \<Rightarrow> char \<Rightarrow> (string \<Rightarrow> string) \<Rightarrow> string \<Rightarrow> string \<Rightarrow> err + string" where
  "fromOSPath fs goos sep volumeOf op osPath =
     (let errInvalid = PathError op osPath ErrInvalid;
          fsVolumeName = getVolumeName fs goos
      in if volumeOf osPath \<noteq> fsVolumeName then Inl errInvalid
         else
           (let osPath = TrimPrefix osPath fsVolumeName;
                osPath = TrimPrefix osPath [sep];
                fsPath = toSeparator sep osPath
            in if os_root fs \<noteq> [] \<and> fsPath \<noteq> os_root fs \<and> \<not> HasPrefix fsPath (os_root fs @ [slash])
               then Inl errInvalid
               else
                 (let fsPath = TrimPrefix fsPath (os_root fs);
                      fsPath = TrimPrefix fsPath [slash]
                  in Inr (if fsPath = [] then dot else fsPath))))"

definition FromOSPath :: "platform \<Rightarrow> osFS \<Rightarrow> string \<Rightarrow> err + string" where
  "FromOSPath pl fs osPath =
     (if \<not> pl_IsAbs pl osPath then Inl (PathError osPathOp osPath ErrInvalid)
      else fromOSPath fs (pl_GOOS pl) (pl_Separator pl) (pl_VolumeName pl) osPathOp osPath)"


subsection \<open>\<open>SubVolume\<close>, \<open>Sub\<close> and error wrapping\<close>

definition SubVolume :: "platform \<Rightarrow> osFS \<Rightarrow> string \<Rightarrow> err + osFS" where
  "SubVolume pl fs volumeName =
     (if os_root fs \<noteq> [] then
        Inl (PathError ''subvolume'' volumeName (ErrorString ''subvolume not supported on a SubFS''))
      else if os_volumeName fs \<noteq> [] then
        Inl (PathError ''subvolume'' volumeName (ErrorString ''subvolume can only be called once per os.FS''))
      else if pl_VolumeName pl volumeName \<noteq> volumeName then
        Inl (PathError ''subvolume'' volumeName (ErrorString (''sub volume must be equal to resolved volume: ''
          @ CHR 0x22 # volumeName @ CHR 0x22 # '' != '' @ CHR 0x22 # pl_VolumeName pl volumeName @ [CHR 0x22])))
      else Inr \<lparr>os_root = [], os_volumeName = volumeName\<rparr>)"

definition os_Sub :: "osFS \<Rightarrow> string \<Rightarrow> err + osFS" where
  "os_Sub fs dir =
     (if \<not> ValidPath dir then Inl (PathError ''sub'' dir ErrInvalid)
      else Inr \<lparr>os_root = Join [os_root fs, dir], os_volumeName = os_volumeName fs\<rparr>)"

text \<open>\<open>wrapRelPathErr\<close> panics when the root itself has no path, which \<open>.\<close> always has.\<close>

definition rel_path :: "platform \<Rightarrow> string \<Rightarrow> string \<Rightarrow> string" where
  "rel_path pl rooted p =
     TrimPrefix (replace_char (pl_Separator pl) slash (TrimPrefix p rooted)) [slash]"

definition wrapRelPathErr :: "platform \<Rightarrow> osFS \<Rightarrow> err option \<Rightarrow> err option option" where
  "wrapRelPathErr pl fs e =
     (case rootedPath pl fs [] dot of
        Inl _ \<Rightarrow> None
      | Inr rooted \<Rightarrow> Some (map_option (\<lambda>e. case e of
            PathError op p e' \<Rightarrow> PathError op (rel_path pl rooted p) e'
          | LinkError op old new e' \<Rightarrow> LinkError op (rel_path pl rooted old) (rel_path pl rooted new) e'
          | _ \<Rightarrow> e) e))"

text \<open>
  \<open>wrapNonStandardErrors\<close> is the identity on Unix (\<open>errors_other.go\<close>); on Windows it gives two system
  error codes a meaning (\<open>errors_windows.go\<close>).
\<close>

definition ERROR_NEGATIVE_SEEK :: nat where "ERROR_NEGATIVE_SEEK = 0x83"
definition ERROR_DIR_NOT_EMPTY :: nat where "ERROR_DIR_NOT_EMPTY = 0x91"

definition mapNonStandardError :: "err \<Rightarrow> err" where
  "mapNonStandardError e =
     (case e of
        Errno errno \<Rightarrow>
          if errno = ERROR_NEGATIVE_SEEK then mappedErr ErrInvalid (Errno errno)
          else if errno = ERROR_DIR_NOT_EMPTY then mappedErr ErrNotEmpty (Errno errno)
          else e
      | _ \<Rightarrow> e)"

definition wrapNonStandardErrors_windows :: "err option \<Rightarrow> err option" where
  "wrapNonStandardErrors_windows e =
     map_option (\<lambda>e. case e of
         PathError op p e' \<Rightarrow> PathError op p (mapNonStandardError e')
       | LinkError op old new e' \<Rightarrow> LinkError op old new (mapNonStandardError e')
       | _ \<Rightarrow> mapNonStandardError e) e"

definition wrapNonStandardErrors :: "platform \<Rightarrow> err option \<Rightarrow> err option" where
  "wrapNonStandardErrors pl e = (if pl_GOOS pl = goosWindows then wrapNonStandardErrors_windows e else e)"

definition os_wrapErr :: "platform \<Rightarrow> osFS \<Rightarrow> err option \<Rightarrow> err option option" where
  "os_wrapErr pl fs e = map_option (wrapNonStandardErrors pl) (wrapRelPathErr pl fs e)"


subsection \<open>Cleaning rooted paths\<close>

lemma foldl_clean_filter:
  "dotdot \<notin> set xs \<Longrightarrow> foldl (clean_step r) st xs = rev (filter (\<lambda>e. e \<noteq> [] \<and> e \<noteq> dot) xs) @ st"
  by (induction xs arbitrary: st) (auto simp: clean_step_def)

lemma Clean_rooted:
  assumes "dotdot \<notin> set (split_slash s)"
  shows "Clean (slash # s) = slash # join_slash (filter (\<lambda>e. e \<noteq> [] \<and> e \<noteq> dot) (split_slash s))"
  using assms foldl_clean_filter [of "split_slash (slash # s)" True "[]"]
  by (simp add: Clean_def Let_def)

text \<open>The root of a file system: none, or the elements of a valid path.\<close>

definition root_elems :: "osFS \<Rightarrow> string list option" where
  "root_elems fs = (if os_root fs = [] then Some [] else if ValidPath (os_root fs) then Some (elems (os_root fs)) else None)"

lemma split_filter_ok:
  assumes "list_all ok_elem es"
  shows "filter (\<lambda>e. e \<noteq> [] \<and> e \<noteq> dot) (split_slash (path_of es)) = es" "dotdot \<notin> set (split_slash (path_of es))"
  using assms split_slash_path_of [OF assms] by (auto simp: list_all_iff intro!: filter_True)

lemma Join_rooted:
  assumes "root_elems fs = Some rs" "list_all ok_elem es"
  shows "Join [[slash], os_root fs, path_of es] = slash # join_slash (rs @ es)" "list_all ok_elem rs"
proof -
  have rs: "list_all ok_elem rs" "os_root fs = [] \<and> rs = [] \<or> os_root fs = path_of rs"
    using assms(1) ValidPath_elems by (auto simp: root_elems_def split: if_splits)
  show "list_all ok_elem rs" by (rule rs(1))
  have s: "split_slash (slash # os_root fs @ slash # path_of es) = [] # split_slash (os_root fs) @ split_slash (path_of es)"
    using split_slash_split [of "[]" "os_root fs @ slash # path_of es"] split_slash_split [of "os_root fs" "path_of es"] by simp
  have f: "filter (\<lambda>e. e \<noteq> [] \<and> e \<noteq> dot) (split_slash (os_root fs)) = rs" "dotdot \<notin> set (split_slash (os_root fs))"
    using rs(2) split_filter_ok [OF rs(1)] by auto
  have "Join [[slash], os_root fs, path_of es] = Clean (slash # slash # os_root fs @ slash # path_of es)"
    by (simp add: Join_def)
  also have "\<dots> = slash # join_slash (rs @ es)"
    using s f split_filter_ok [OF assms(2)] by (subst Clean_rooted) (simp_all del: split_slash.simps)
  finally show "Join [[slash], os_root fs, path_of es] = slash # join_slash (rs @ es)" .
qed

subsection \<open>The path that reaches the operating system\<close>

text \<open>
  On a platform whose separator is not a slash, the separator must not occur inside an element, or
  elements run together. A volume name does not end in the separator.
\<close>

definition sep_free :: "char \<Rightarrow> string list \<Rightarrow> bool" where
  "sep_free sep xs \<longleftrightarrow> sep = slash \<or> (\<forall>x\<in>set xs. sep \<notin> set x)"

definition no_sep_end :: "char \<Rightarrow> string \<Rightarrow> bool" where
  "no_sep_end sep v \<longleftrightarrow> v = [] \<or> last v \<noteq> sep"

lemma TrimRight_no_sep_end: "no_sep_end sep v \<Longrightarrow> TrimRight v sep = v"
  by (cases v rule: rev_cases) (auto simp: TrimRight_def no_sep_end_def)

lemma set_join_slash: "set (join_slash xs) \<subseteq> insert slash (\<Union>x\<in>set xs. set x)"
  by (induction xs rule: join_slash.induct) auto

lemma join_slash_no_sep:
  assumes "sep_free sep xs" "sep \<noteq> slash" shows "sep \<notin> set (join_slash xs)"
  using assms set_join_slash [of xs] by (auto simp: sep_free_def)

lemma replace_char_inverse: "b \<notin> set s \<Longrightarrow> replace_char b a (replace_char a b s) = s"
  by (induction s) (auto simp: replace_char_def)

lemma to_from_separator: "sep_free sep xs \<Longrightarrow> toSeparator sep (fromSeparator sep (join_slash xs)) = join_slash xs"
  using join_slash_no_sep [of sep xs] by (auto simp: toSeparator_def fromSeparator_def replace_char_inverse)

lemma hd_fromSeparator:
  assumes "list_all ok_elem xs" "sep_free sep xs" "xs \<noteq> []"
  shows "\<exists>c cs. fromSeparator sep (join_slash xs) = c # cs \<and> c \<noteq> sep"
proof -
  obtain c cs where j: "join_slash xs = c # cs" "c \<noteq> slash"
    using join_slash_hd [of xs] assms by (cases "join_slash xs") (auto simp: join_slash_neq_Nil)
  then have "sep \<noteq> slash \<Longrightarrow> c \<noteq> sep" using join_slash_no_sep [OF assms(2)] by auto
  with j show ?thesis by (auto simp: fromSeparator_def replace_char_def)
qed

lemma TrimLeft_fromSeparator:
  assumes "list_all ok_elem xs" "sep_free sep xs"
  shows "TrimLeft (fromSeparator sep (slash # join_slash xs)) sep = fromSeparator sep (join_slash xs)"
proof -
  have "fromSeparator sep (slash # s) = sep # fromSeparator sep s" for s
    by (simp add: fromSeparator_def replace_char_def)
  then show ?thesis
    using hd_fromSeparator [OF assms]
    by (cases "xs = []") (auto simp: TrimLeft_def fromSeparator_def replace_char_def)
qed

lemma rootedPath_elems:
  assumes "root_elems fs = Some rs" "list_all ok_elem es" "sep_free (pl_Separator pl) (rs @ es)"
    and "no_sep_end (pl_Separator pl) (getVolumeName fs (pl_GOOS pl))"
  shows "rootedPath pl fs op (path_of es)
    = Inr (getVolumeName fs (pl_GOOS pl) @ pl_Separator pl # fromSeparator (pl_Separator pl) (join_slash (rs @ es)))"
  using Join_rooted [OF assms(1,2)] assms TrimLeft_fromSeparator [of "rs @ es" "pl_Separator pl"]
  by (simp add: rootedPath_def toOSPath_def joinSepPath_def TrimRight_no_sep_end)

lemma rootedPath_invalid: "\<not> ValidPath name \<Longrightarrow> rootedPath pl fs op name = Inl (PathError op name ErrInvalid)"
  by (simp add: rootedPath_def toOSPath_def)

lemma join_slash_app:
  assumes "list_all ok_elem rs" "rs \<noteq> []" "es \<noteq> []"
  shows "join_slash (rs @ es) = join_slash rs @ slash # join_slash es"
  using assms by (simp add: join_slash_append)

lemma fromSeparator_append: "fromSeparator sep (a @ slash # b) = fromSeparator sep a @ sep # fromSeparator sep b"
  by (simp add: fromSeparator_def replace_char_def)

lemma fromSeparator_Nil [simp]: "fromSeparator sep [] = []"
  by (simp add: fromSeparator_def replace_char_def)

text \<open>What is left of a rooted path without its root, the way \<open>wrapRelPathErr\<close> and \<open>FromOSPath\<close> cut it off.\<close>

lemma rel_path_elems:
  assumes ok: "list_all ok_elem rs" "list_all ok_elem es" and sf: "sep_free (pl_Separator pl) (rs @ es)"
  shows "rel_path pl (v @ pl_Separator pl # fromSeparator (pl_Separator pl) (join_slash rs))
      (v @ pl_Separator pl # fromSeparator (pl_Separator pl) (join_slash (rs @ es))) = join_slash es"
    (is "rel_path pl (?root rs) (?root (rs @ es)) = _")
proof -
  let ?sep = "pl_Separator pl"
  have es: "replace_char ?sep slash (fromSeparator ?sep (join_slash es)) = join_slash es"
    using to_from_separator [of ?sep es] sf
    by (cases "?sep = slash") (auto simp: sep_free_def toSeparator_def fromSeparator_def replace_char_def)
  have nohead: "es \<noteq> [] \<Longrightarrow> \<not> HasPrefix (join_slash es) [slash]"
    using join_slash_hd [OF ok(2)] by (auto simp: HasPrefix_def)
  consider "es = []" | "es \<noteq> []" "rs = []" | "es \<noteq> []" "rs \<noteq> []" by blast
  then show ?thesis
  proof cases
    case 1
    then show ?thesis using TrimPrefix_append [of "?root rs" "[]"] by (simp add: rel_path_def replace_char_def TrimPrefix_def HasPrefix_def)
  next
    case 2
    have "TrimPrefix (?root (rs @ es)) (?root rs) = fromSeparator ?sep (join_slash es)"
      using TrimPrefix_append [of "v @ [?sep]" "fromSeparator ?sep (join_slash es)"] 2
      by simp
    then show ?thesis using nohead 2 by (simp add: rel_path_def es TrimPrefix_def)
  next
    case 3
    have "TrimPrefix (?root (rs @ es)) (?root rs) = ?sep # fromSeparator ?sep (join_slash es)"
      using TrimPrefix_append [of "?root rs" "?sep # fromSeparator ?sep (join_slash es)"] 3
      by (simp add: join_slash_app [OF ok(1)] fromSeparator_append)
    moreover have "replace_char ?sep slash (?sep # s) = slash # replace_char ?sep slash s" for s
      by (simp add: replace_char_def)
    ultimately show ?thesis using TrimPrefix_append [of "[slash]" "join_slash es"] by (simp add: rel_path_def es)
  qed
qed

text \<open>What the theorems suppose of a platform: the volume has a name the platform itself recognises.\<close>

definition volume_ok :: "platform \<Rightarrow> osFS \<Rightarrow> bool" where
  "volume_ok pl fs \<longleftrightarrow> no_sep_end (pl_Separator pl) (getVolumeName fs (pl_GOOS pl))"

lemma volume_ok_linux [simp]: "volume_ok linux fs = no_sep_end slash (os_volumeName fs)"
  by (simp add: volume_ok_def getVolumeName_def linux_def goosWindows_def)

lemma wrapRelPathErr_elems:
  assumes "root_elems fs = Some rs" "sep_free (pl_Separator pl) rs" "volume_ok pl fs"
  shows "wrapRelPathErr pl fs e = Some (map_option (\<lambda>e. case e of
            PathError op p e' \<Rightarrow> PathError op (rel_path pl (getVolumeName fs (pl_GOOS pl) @ pl_Separator pl # fromSeparator (pl_Separator pl) (join_slash rs)) p) e'
          | LinkError op old new e' \<Rightarrow> LinkError op
              (rel_path pl (getVolumeName fs (pl_GOOS pl) @ pl_Separator pl # fromSeparator (pl_Separator pl) (join_slash rs)) old)
              (rel_path pl (getVolumeName fs (pl_GOOS pl) @ pl_Separator pl # fromSeparator (pl_Separator pl) (join_slash rs)) new) e'
          | _ \<Rightarrow> e) e)"
  using rootedPath_elems [OF assms(1), of "[]" pl "[]"] assms(2,3)
  by (simp add: wrapRelPathErr_def volume_ok_def)

subsection \<open>Properties\<close>

lemma root_elems_cases:
  assumes "root_elems fs = Some rs"
  obtains "os_root fs = []" "rs = []" | "os_root fs = path_of rs" "list_all ok_elem rs"
  using assms ValidPath_elems by (auto simp: root_elems_def split: if_splits)

lemma root_elems_ok: "root_elems fs = Some rs \<Longrightarrow> list_all ok_elem rs"
  by (erule root_elems_cases) simp_all

lemma os_Sub_root:
  assumes "root_elems fs = Some rs" "list_all ok_elem ds"
  shows "os_Sub fs (path_of ds) = Inr \<lparr>os_root = path_of (rs @ ds), os_volumeName = os_volumeName fs\<rparr>"
  using assms(1)
proof (cases rule: root_elems_cases)
  case 1
  then show ?thesis using assms(2) by (simp add: os_Sub_def Join_def Clean_path_of)
next
  case 2
  then show ?thesis using assms(2) by (simp add: os_Sub_def Join_path_of)
qed

text \<open>
  C29: \<open>FromOSPath\<close> undoes \<open>ToOSPath\<close>. For every file system whose root is unset or a valid path other than \<open>.\<close>, and every
  valid path, the conversion to a path of the operating system succeeds and the conversion back gives the same path. The
  platform must recognise the volume in the path it builds and call it absolute; the separator must not occur inside an
  element.
\<close>

theorem os_path_roundtrip:
  assumes "root_elems fs = Some rs" "os_root fs \<noteq> dot" "list_all ok_elem es"
    and "sep_free (pl_Separator pl) (rs @ es)" "volume_ok pl fs"
    and abs: "\<And>p. pl_IsAbs pl (getVolumeName fs (pl_GOOS pl) @ pl_Separator pl # p)"
    and vol: "\<And>p. pl_VolumeName pl (getVolumeName fs (pl_GOOS pl) @ pl_Separator pl # p) = getVolumeName fs (pl_GOOS pl)"
  shows "\<exists>osPath. ToOSPath pl fs (path_of es) = Inr osPath \<and> FromOSPath pl fs osPath = Inr (path_of es)"
proof -
  let ?sep = "pl_Separator pl" and ?v = "getVolumeName fs (pl_GOOS pl)"
  let ?p = "?v @ ?sep # fromSeparator ?sep (join_slash (rs @ es))"
  have cut: "TrimPrefix (TrimPrefix ?p ?v) [?sep] = fromSeparator ?sep (join_slash (rs @ es))"
    using TrimPrefix_append [of "[?sep]" "fromSeparator ?sep (join_slash (rs @ es))"] by simp
  have ok: "list_all ok_elem rs" using root_elems_ok [OF assms(1)] .
  have nohead: "es \<noteq> [] \<Longrightarrow> \<not> HasPrefix (join_slash es) [slash]"
    using join_slash_hd [OF assms(3)] by (auto simp: HasPrefix_def)
  have "FromOSPath pl fs ?p = Inr (path_of es)"
    using assms(1)
  proof (cases rule: root_elems_cases)
    case 1
    then show ?thesis using abs vol cut to_from_separator [OF assms(4)] nohead join_slash_neq_Nil [OF assms(3)]
      by (cases "es = []") (auto simp: FromOSPath_def fromOSPath_def Let_def TrimPrefix_def HasPrefix_def path_of_def)
  next
    case 2
    with assms(2) have r: "rs \<noteq> []" "os_root fs = join_slash rs" "join_slash rs \<noteq> []"
      by (auto simp: path_of_def join_slash_neq_Nil split: if_splits)
    show ?thesis
    proof (cases "es = []")
      case True
      then show ?thesis using abs vol cut to_from_separator [OF assms(4)] r TrimPrefix_append [of "join_slash rs" "[]"]
        by (simp add: FromOSPath_def fromOSPath_def Let_def TrimPrefix_def HasPrefix_def)
    next
      case False
      have j: "join_slash (rs @ es) = join_slash rs @ slash # join_slash es" using join_slash_app [OF ok r(1) False] .
      have "HasPrefix (join_slash rs @ slash # join_slash es) (join_slash rs @ [slash])"
        by (simp add: HasPrefix_def)
      moreover have "TrimPrefix (slash # join_slash es) [slash] = join_slash es"
        using TrimPrefix_append [of "[slash]"] by simp
      ultimately show ?thesis using abs vol cut to_from_separator [OF assms(4)] r False join_slash_neq_Nil [OF assms(3) False]
        by (simp add: FromOSPath_def fromOSPath_def Let_def j path_of_def)
    qed
  qed
  moreover have "ToOSPath pl fs (path_of es) = Inr ?p"
    using rootedPath_elems [OF assms(1,3,4)] assms(5) by (simp add: ToOSPath_def volume_ok_def)
  ultimately show ?thesis by blast
qed

text \<open>The platform Windows with drive letters only, enough for concrete paths.\<close>

definition windows :: platform where
  "windows = \<lparr>pl_GOOS = goosWindows, pl_Separator = CHR 0x5C,
     pl_VolumeName = (\<lambda>p. if 2 \<le> length p \<and> p ! 1 = CHR '':'' then take 2 p else []),
     pl_IsAbs = (\<lambda>p. 3 \<le> length p \<and> p ! 1 = CHR '':'' \<and> p ! 2 = CHR 0x5C)\<rparr>"

lemmas path_eval = ok_elem_def valid_elem_def utf8_valid_def utf8_lead_def path_of_def Join_def Clean_def clean_step_def

theorem os_path_roundtrip_witness:
  "\<exists>osPath. ToOSPath windows \<lparr>os_root = ''data'', os_volumeName = []\<rparr> ''a/b'' = Inr osPath
     \<and> FromOSPath windows \<lparr>os_root = ''data'', os_volumeName = []\<rparr> osPath = Inr ''a/b''"
  using os_path_roundtrip [of "\<lparr>os_root = ''data'', os_volumeName = []\<rparr>" "[''data'']" "[''a'', ''b'']" windows]
  by (simp add: root_elems_def ValidPath_def elems_def sep_free_def volume_ok_def no_sep_end_def windows_def
      getVolumeName_def goosWindows_def path_eval)

text \<open>The elements that the operating system resolves one after the other, from the root directory.\<close>

definition resolved :: "string \<Rightarrow> string list" where
  "resolved p = filter (\<lambda>e. e \<noteq> [] \<and> e \<noteq> dot) (split_slash p)"

lemma resolved_rooted:
  assumes "list_all ok_elem es" shows "resolved (slash # join_slash es) = es" "dotdot \<notin> set es"
proof -
  have "resolved (slash # join_slash es) = resolved (path_of es)"
    by (simp add: resolved_def path_of_def)
  then show "resolved (slash # join_slash es) = es" using split_filter_ok [OF assms] by (simp add: resolved_def)
  show "dotdot \<notin> set es" using assms by (auto simp: list_all_iff)
qed

lemma rootedPath_linux:
  assumes "root_elems fs = Some rs" "os_volumeName fs = []" "list_all ok_elem es"
  shows "rootedPath linux fs op (path_of es) = Inr (slash # join_slash (rs @ es))"
  using rootedPath_elems [OF assms(1,3), of linux] assms(2)
  by (simp add: linux_def sep_free_def no_sep_end_def getVolumeName_def fromSeparator_def goosWindows_def)

text \<open>
  C30: \<open>Sub\<close> is prefixing, and on Unix a sub file system is confined to its directory. Opening a sub file system at a
  valid directory succeeds, and a name in it and the joined name in the parent reach the operating system as the same
  path; the elements of that path begin with those of the directory, and none of them is \<open>..\<close>. An invalid name gives an
  error and no path.
\<close>

theorem os_Sub_confined:
  assumes "root_elems fs = Some rs" "os_volumeName fs = []" "list_all ok_elem ds"
  shows "\<exists>fs'. os_Sub fs (path_of ds) = Inr fs'
     \<and> (\<forall>es op. list_all ok_elem es \<longrightarrow>
          rootedPath linux fs' op (path_of es) = rootedPath linux fs op (Join [path_of ds, path_of es])
        \<and> (\<exists>p. rootedPath linux fs' op (path_of es) = Inr p
             \<and> resolved p = rs @ ds @ es \<and> dotdot \<notin> set (resolved p)))
     \<and> (\<forall>name op. \<not> ValidPath name \<longrightarrow> rootedPath linux fs' op name = Inl (PathError op name ErrInvalid))"
proof -
  let ?fs = "\<lparr>os_root = path_of (rs @ ds), os_volumeName = os_volumeName fs\<rparr>"
  note rs = root_elems_ok [OF assms(1)]
  have root: "root_elems ?fs = Some (rs @ ds)" using rs assms(3) by (simp add: root_elems_def)
  have "rootedPath linux ?fs op (path_of es) = rootedPath linux fs op (Join [path_of ds, path_of es])
        \<and> (\<exists>p. rootedPath linux ?fs op (path_of es) = Inr p \<and> resolved p = rs @ ds @ es \<and> dotdot \<notin> set (resolved p))"
    if "list_all ok_elem es" for es op
    using that assms rs rootedPath_linux [OF root, of es op] rootedPath_linux [OF assms(1,2), of "ds @ es" op]
      resolved_rooted [of "rs @ ds @ es"] by (simp add: Join_path_of)
  then show ?thesis using os_Sub_root [OF assms(1,3)] rootedPath_invalid by (intro exI [of _ ?fs]) blast
qed

theorem os_Sub_confined_witness:
  "\<exists>fs'. os_Sub os_NewFS ''srv/www'' = Inr fs' \<and> rootedPath linux fs' ''open'' ''../etc'' = Inl (PathError ''open'' ''../etc'' ErrInvalid)
     \<and> rootedPath linux fs' ''open'' ''a'' = rootedPath linux os_NewFS ''open'' ''srv/www/a''"
proof -
  have ok: "list_all ok_elem [''srv'', ''www'']" "list_all ok_elem [''a'']" "root_elems os_NewFS = Some []" "os_volumeName os_NewFS = []"
    by (simp_all add: path_eval root_elems_def os_NewFS_def)
  have p: "path_of [''srv'', ''www''] = ''srv/www''" "path_of [''a''] = ''a''" "Join [''srv/www'', ''a''] = ''srv/www/a''" "\<not> ValidPath ''../etc''"
    by (simp_all add: path_eval ValidPath_def)
  show ?thesis using os_Sub_confined [OF ok(3,4,1)] ok(2) p by metis
qed

text \<open>
  On Windows that confinement fails. A backslash is an ordinary character of a valid path, so a name may have an
  element that begins with two dots and a backslash; it passes the check and becomes the parent directory in the path for
  the operating system. The file system rooted at \<open>data\<close> asks for a path whose resolution leaves \<open>data\<close>, and converting
  the path back does not give the name.
\<close>

theorem os_windows_escape:
  "ValidPath (dotdot @ CHR 0x5C # ''secret'')
   \<and> rootedPath windows \<lparr>os_root = ''data'', os_volumeName = []\<rparr> ''open'' (dotdot @ CHR 0x5C # ''secret'')
     = Inr (''C:'' @ CHR 0x5C # ''data'' @ CHR 0x5C # dotdot @ CHR 0x5C # ''secret'')
   \<and> FromOSPath windows \<lparr>os_root = ''data'', os_volumeName = []\<rparr>
       (''C:'' @ CHR 0x5C # ''data'' @ CHR 0x5C # dotdot @ CHR 0x5C # ''secret'') = Inr ''../secret''"
  by (simp add: ValidPath_def path_eval rootedPath_def toOSPath_def windows_def getVolumeName_def goosWindows_def
      joinSepPath_def TrimRight_def TrimLeft_def fromSeparator_def replace_char_def FromOSPath_def fromOSPath_def
      TrimPrefix_def HasPrefix_def toSeparator_def)

text \<open>
  \<open>Sub(".")\<close> breaks \<open>FromOSPath\<close>. The file system it returns reaches the same paths as its parent, but it rejects
  every path that \<open>ToOSPath\<close> returns, which the parent accepts.
\<close>

theorem os_Sub_dot_rejects:
  "os_Sub os_NewFS dot = Inr \<lparr>os_root = dot, os_volumeName = []\<rparr>
   \<and> (ToOSPath linux \<lparr>os_root = dot, os_volumeName = []\<rparr> name = Inr p \<longrightarrow>
        ToOSPath linux os_NewFS name = Inr p \<and> FromOSPath linux os_NewFS p = Inr name
      \<and> FromOSPath linux \<lparr>os_root = dot, os_volumeName = []\<rparr> p = Inl (PathError osPathOp p ErrInvalid))"
proof -
  let ?fs = "\<lparr>os_root = dot, os_volumeName = []\<rparr>"
  have "ToOSPath linux os_NewFS name = Inr p \<and> FromOSPath linux os_NewFS p = Inr name
      \<and> FromOSPath linux ?fs p = Inl (PathError osPathOp p ErrInvalid)"
    if to: "ToOSPath linux ?fs name = Inr p"
  proof -
    have "ValidPath name" using to by (auto simp: ToOSPath_def rootedPath_def toOSPath_def split: if_splits)
    then obtain es where es: "list_all ok_elem es" "name = path_of es" by (rule ValidPathE)
    have roots: "root_elems ?fs = Some []" "root_elems os_NewFS = Some []"
      by (simp_all add: root_elems_def os_NewFS_def elems_def)
    have p: "p = slash # join_slash es" using to rootedPath_linux [OF roots(1) _ es(1)] es(2) by (simp add: ToOSPath_def)
    have dot: "join_slash es \<noteq> dot" using join_slash_neq_dot [OF es(1)] by (cases "es = []") auto
    have "\<not> HasPrefix (join_slash es) (dot @ [slash])"
    proof
      assume "HasPrefix (join_slash es) (dot @ [slash])"
      then obtain r where r: "join_slash es = dot @ slash # r" by (auto simp: HasPrefix_iff prefix_def)
      then have "es \<noteq> []" by auto
      then have "es = dot # split_slash r" using split_slash_path_of [OF es(1)] r split_slash_split [of dot r] by (simp add: path_of_def)
      then show False using es(1) by simp
    qed
    then show ?thesis
      using p es dot rootedPath_linux [OF roots(2) _ es(1)] join_slash_hd [OF es(1)]
      by (cases "es = []") (auto simp: ToOSPath_def os_NewFS_def FromOSPath_def fromOSPath_def Let_def linux_def getVolumeName_def
        goosWindows_def toSeparator_def TrimPrefix_def HasPrefix_def path_of_def)
  qed
  then show ?thesis by (simp add: os_Sub_def os_NewFS_def Join_def Clean_path_of [of "[]", simplified])
qed

theorem os_Sub_dot_rejects_witness:
  "FromOSPath linux \<lparr>os_root = dot, os_volumeName = []\<rparr> ''/a'' = Inl (PathError osPathOp ''/a'' ErrInvalid)"
  using os_Sub_dot_rejects [of "''a''" "''/a''"]
  by (simp add: ToOSPath_def rootedPath_def toOSPath_def linux_def getVolumeName_def goosWindows_def joinSepPath_def
      TrimRight_def TrimLeft_def fromSeparator_def ValidPath_def path_eval)

end
