(* ===== verification/OS_FS.thy ===== *)
theory OS_FS
  imports OS_Path
begin

section \<open>The file system of the operating system (\<open>os/fs.go\<close>, \<open>os/file.go\<close>)\<close>

text \<open>
  The functions of the package \<open>os\<close> and the methods of \<open>*os.File\<close> reach the operating system, so they are
  an argument: the record \<open>os_pkg\<close>, over any type \<open>'o\<close> of \<open>*os.File\<close> pointers (nil included) and any type
  \<open>'w\<close> of worlds. Every method of \<open>os.FS\<close> and of its files is one definition, and \<open>os_iface\<close> is the table of
  methods that the helpers of \<open>HackpadFS\<close> find on an \<open>os.FS\<close>. The methods \<open>ReadFrom\<close>, \<open>SetDeadline\<close>,
  \<open>SetReadDeadline\<close>, \<open>SetWriteDeadline\<close>, \<open>WriteString\<close> and \<open>Name\<close> belong to no interface of the package and are
  defined beside it.
\<close>

record ('o, 'i, 'd, 'w) os_pkg =
  os_Open :: "string \<Rightarrow> 'w \<Rightarrow> ('o \<times> err option \<times> 'w) option"
  os_OpenFile :: "string \<Rightarrow> flag \<Rightarrow> file_mode \<Rightarrow> 'w \<Rightarrow> ('o \<times> err option \<times> 'w) option"
  os_Create :: "string \<Rightarrow> 'w \<Rightarrow> ('o \<times> err option \<times> 'w) option"
  os_Mkdir :: "string \<Rightarrow> file_mode \<Rightarrow> 'w \<Rightarrow> 'w fs_err"
  os_MkdirAll :: "string \<Rightarrow> file_mode \<Rightarrow> 'w \<Rightarrow> 'w fs_err"
  os_Remove :: "string \<Rightarrow> 'w \<Rightarrow> 'w fs_err"
  os_RemoveAll :: "string \<Rightarrow> 'w \<Rightarrow> 'w fs_err"
  os_Rename :: "string \<Rightarrow> string \<Rightarrow> 'w \<Rightarrow> 'w fs_err"
  os_Stat :: "string \<Rightarrow> 'w \<Rightarrow> ('i, 'w) fs_info"
  os_Lstat :: "string \<Rightarrow> 'w \<Rightarrow> ('i, 'w) fs_info"
  os_Chmod :: "string \<Rightarrow> file_mode \<Rightarrow> 'w \<Rightarrow> 'w fs_err"
  os_Chown :: "string \<Rightarrow> int \<Rightarrow> int \<Rightarrow> 'w \<Rightarrow> 'w fs_err"
  os_Chtimes :: "string \<Rightarrow> time \<Rightarrow> time \<Rightarrow> 'w \<Rightarrow> 'w fs_err"
  os_ReadDir :: "string \<Rightarrow> 'w \<Rightarrow> ('d list \<times> err option \<times> 'w) option"
  os_ReadFile :: "string \<Rightarrow> 'w \<Rightarrow> (byte list \<times> err option \<times> 'w) option"
  os_WriteFile :: "string \<Rightarrow> byte list \<Rightarrow> file_mode \<Rightarrow> 'w \<Rightarrow> 'w fs_err"
  os_Symlink :: "string \<Rightarrow> string \<Rightarrow> 'w \<Rightarrow> 'w fs_err"
  of_Chmod :: "'o \<Rightarrow> file_mode \<Rightarrow> 'w \<Rightarrow> ('o, 'w) file_err"
  of_Chown :: "'o \<Rightarrow> int \<Rightarrow> int \<Rightarrow> 'w \<Rightarrow> ('o, 'w) file_err"
  of_Close :: "'o \<Rightarrow> 'w \<Rightarrow> ('o, 'w) file_err"
  of_Name :: "'o \<Rightarrow> string option"
  of_Read :: "'o \<Rightarrow> byte list \<Rightarrow> 'w \<Rightarrow> ('o, 'w) file_bytes"
  of_ReadAt :: "'o \<Rightarrow> byte list \<Rightarrow> int \<Rightarrow> 'w \<Rightarrow> ('o, 'w) file_bytes"
  of_ReadDir :: "'o \<Rightarrow> int \<Rightarrow> 'w \<Rightarrow> ('d list \<times> err option \<times> 'o \<times> 'w) option"
  of_ReadFrom :: "'o \<Rightarrow> byte list \<Rightarrow> 'w \<Rightarrow> ('o, 'w) file_count"
  of_Seek :: "'o \<Rightarrow> int \<Rightarrow> whence \<Rightarrow> 'w \<Rightarrow> ('o, 'w) file_count"
  of_SetDeadline :: "'o \<Rightarrow> time \<Rightarrow> 'w \<Rightarrow> ('o, 'w) file_err"
  of_SetReadDeadline :: "'o \<Rightarrow> time \<Rightarrow> 'w \<Rightarrow> ('o, 'w) file_err"
  of_SetWriteDeadline :: "'o \<Rightarrow> time \<Rightarrow> 'w \<Rightarrow> ('o, 'w) file_err"
  of_Stat :: "'o \<Rightarrow> 'w \<Rightarrow> ((err + 'i) \<times> 'o \<times> 'w) option"
  of_Sync :: "'o \<Rightarrow> 'w \<Rightarrow> ('o, 'w) file_err"
  of_Truncate :: "'o \<Rightarrow> int \<Rightarrow> 'w \<Rightarrow> ('o, 'w) file_err"
  of_Write :: "'o \<Rightarrow> byte list \<Rightarrow> 'w \<Rightarrow> ('o, 'w) file_count"
  of_WriteAt :: "'o \<Rightarrow> byte list \<Rightarrow> int \<Rightarrow> 'w \<Rightarrow> ('o, 'w) file_count"
  of_WriteString :: "'o \<Rightarrow> string \<Rightarrow> 'w \<Rightarrow> ('o, 'w) file_count"


subsection \<open>Files\<close>

record 'o os_file =
  of_fs :: osFS
  osFile :: 'o

definition wrapFile :: "osFS \<Rightarrow> 'o \<Rightarrow> 'o os_file" where
  "wrapFile fs f = \<lparr>of_fs = fs, osFile = f\<rparr>"

text \<open>The three shapes of a call on a file: an error, a count, bytes; each wraps the error it gets.\<close>

definition file_call :: "platform \<Rightarrow> 'o os_file \<Rightarrow> ('o, 'w) file_err \<Rightarrow> ('o os_file, 'w) file_err" where
  "file_call pl f r =
     do { (e, o', w) \<leftarrow> r; e \<leftarrow> os_wrapErr pl (of_fs f) e; Some (e, f\<lparr>osFile := o'\<rparr>, w) }"

definition count_call :: "platform \<Rightarrow> 'o os_file \<Rightarrow> ('o, 'w) file_count \<Rightarrow> ('o os_file, 'w) file_count" where
  "count_call pl f r =
     do { (n, e, o', w) \<leftarrow> r; e \<leftarrow> os_wrapErr pl (of_fs f) e; Some (n, e, f\<lparr>osFile := o'\<rparr>, w) }"

definition bytes_call :: "platform \<Rightarrow> 'o os_file \<Rightarrow> ('o, 'w) file_bytes \<Rightarrow> ('o os_file, 'w) file_bytes" where
  "bytes_call pl f r =
     do { (b, n, e, o', w) \<leftarrow> r; e \<leftarrow> os_wrapErr pl (of_fs f) e; Some (b, n, e, f\<lparr>osFile := o'\<rparr>, w) }"

definition osf_Chmod where
  "osf_Chmod pl pkg f mode w = file_call pl f (of_Chmod pkg (osFile f) mode w)"

definition osf_Chown where
  "osf_Chown pl pkg f uid gid w = file_call pl f (of_Chown pkg (osFile f) uid gid w)"

definition osf_Close where
  "osf_Close pl pkg f w = file_call pl f (of_Close pkg (osFile f) w)"

definition osf_Name where
  "osf_Name pkg f = of_Name pkg (osFile f)"

definition osf_Read where
  "osf_Read pl pkg f b w = bytes_call pl f (of_Read pkg (osFile f) b w)"

definition osf_ReadAt where
  "osf_ReadAt pl pkg f b off w = bytes_call pl f (of_ReadAt pkg (osFile f) b off w)"

definition osf_ReadDir where
  "osf_ReadDir pl pkg f n w =
     do { (entries, e, o', w) \<leftarrow> of_ReadDir pkg (osFile f) n w; e \<leftarrow> os_wrapErr pl (of_fs f) e; Some (entries, e, f\<lparr>osFile := o'\<rparr>, w) }"

definition osf_ReadFrom where
  "osf_ReadFrom pl pkg f r w = count_call pl f (of_ReadFrom pkg (osFile f) r w)"

definition osf_Seek where
  "osf_Seek pl pkg f offset wh w = count_call pl f (of_Seek pkg (osFile f) offset wh w)"

definition osf_SetDeadline where
  "osf_SetDeadline pl pkg f t w = file_call pl f (of_SetDeadline pkg (osFile f) t w)"

definition osf_SetReadDeadline where
  "osf_SetReadDeadline pl pkg f t w = file_call pl f (of_SetReadDeadline pkg (osFile f) t w)"

definition osf_SetWriteDeadline where
  "osf_SetWriteDeadline pl pkg f t w = file_call pl f (of_SetWriteDeadline pkg (osFile f) t w)"

definition osf_Stat where
  "osf_Stat pl pkg f w =
     do {
       (r, o', w) \<leftarrow> of_Stat pkg (osFile f) w;
       (case r of
          Inl e \<Rightarrow> do { e \<leftarrow> os_wrapErr pl (of_fs f) (Some e); e \<leftarrow> e; Some (Inl e, f\<lparr>osFile := o'\<rparr>, w) }
        | Inr info \<Rightarrow> Some (Inr info, f\<lparr>osFile := o'\<rparr>, w))
     }"

definition osf_Sync where
  "osf_Sync pl pkg f w = file_call pl f (of_Sync pkg (osFile f) w)"

definition osf_Truncate where
  "osf_Truncate pl pkg f sz w = file_call pl f (of_Truncate pkg (osFile f) sz w)"

definition osf_Write where
  "osf_Write pl pkg f b w = count_call pl f (of_Write pkg (osFile f) b w)"

definition osf_WriteAt where
  "osf_WriteAt pl pkg f b off w = count_call pl f (of_WriteAt pkg (osFile f) b off w)"

definition osf_WriteString where
  "osf_WriteString pl pkg f s w = count_call pl f (of_WriteString pkg (osFile f) s w)"


subsection \<open>The file system\<close>

definition os_FS_Open :: "platform \<Rightarrow> ('o, 'i, 'd, 'w) os_pkg \<Rightarrow> osFS \<Rightarrow> string \<Rightarrow> 'w \<Rightarrow> ('o os_file, 'w) fs_file" where
  "os_FS_Open pl pkg fs name w =
     (case rootedPath pl fs ''open'' name of
        Inl pathErr \<Rightarrow> Some (None, Some pathErr, w)
      | Inr name \<Rightarrow> do {
          (file, e, w) \<leftarrow> os_Open pkg name w;
          e \<leftarrow> os_wrapErr pl fs e;
          Some (Some (wrapFile fs file), e, w)
        })"

definition os_FS_OpenFile :: "platform \<Rightarrow> ('o, 'i, 'd, 'w) os_pkg \<Rightarrow> osFS \<Rightarrow> string \<Rightarrow> flag \<Rightarrow> file_mode \<Rightarrow> 'w \<Rightarrow> ('o os_file, 'w) fs_file" where
  "os_FS_OpenFile pl pkg fs name flag perm w =
     (case rootedPath pl fs ''open'' name of
        Inl pathErr \<Rightarrow> Some (None, Some pathErr, w)
      | Inr name \<Rightarrow> do {
          (file, e, w) \<leftarrow> os_OpenFile pkg name flag perm w;
          e \<leftarrow> os_wrapErr pl fs e;
          Some (Some (wrapFile fs file), e, w)
        })"

definition os_FS_Create :: "platform \<Rightarrow> ('o, 'i, 'd, 'w) os_pkg \<Rightarrow> osFS \<Rightarrow> string \<Rightarrow> 'w \<Rightarrow> ('o os_file, 'w) fs_file" where
  "os_FS_Create pl pkg fs name w =
     (case rootedPath pl fs ''create'' name of
        Inl pathErr \<Rightarrow> Some (None, Some pathErr, w)
      | Inr name \<Rightarrow> do {
          (file, e, w) \<leftarrow> os_Create pkg name w;
          e \<leftarrow> os_wrapErr pl fs e;
          Some (Some (wrapFile fs file), e, w)
        })"

text \<open>The shape shared by the methods that only return an error.\<close>

definition wrap_result :: "platform \<Rightarrow> osFS \<Rightarrow> 'w fs_err \<Rightarrow> 'w fs_err" where
  "wrap_result pl fs r = do { (e, w) \<leftarrow> r; e \<leftarrow> os_wrapErr pl fs e; Some (e, w) }"

definition os_FS_Mkdir :: "platform \<Rightarrow> ('o, 'i, 'd, 'w) os_pkg \<Rightarrow> osFS \<Rightarrow> string \<Rightarrow> file_mode \<Rightarrow> 'w \<Rightarrow> 'w fs_err" where
  "os_FS_Mkdir pl pkg fs name perm w =
     (case rootedPath pl fs ''mkdir'' name of
        Inl e \<Rightarrow> Some (Some e, w)
      | Inr name \<Rightarrow> wrap_result pl fs (os_Mkdir pkg name perm w))"

definition os_FS_MkdirAll :: "platform \<Rightarrow> ('o, 'i, 'd, 'w) os_pkg \<Rightarrow> osFS \<Rightarrow> string \<Rightarrow> file_mode \<Rightarrow> 'w \<Rightarrow> 'w fs_err" where
  "os_FS_MkdirAll pl pkg fs name perm w =
     (case rootedPath pl fs ''mkdirall'' name of
        Inl e \<Rightarrow> Some (Some e, w)
      | Inr name \<Rightarrow> wrap_result pl fs (os_MkdirAll pkg name perm w))"

definition os_FS_Remove :: "platform \<Rightarrow> ('o, 'i, 'd, 'w) os_pkg \<Rightarrow> osFS \<Rightarrow> string \<Rightarrow> 'w \<Rightarrow> 'w fs_err" where
  "os_FS_Remove pl pkg fs name w =
     (case rootedPath pl fs ''remove'' name of
        Inl e \<Rightarrow> Some (Some e, w)
      | Inr name \<Rightarrow> wrap_result pl fs (os_Remove pkg name w))"

definition os_FS_RemoveAll :: "platform \<Rightarrow> ('o, 'i, 'd, 'w) os_pkg \<Rightarrow> osFS \<Rightarrow> string \<Rightarrow> 'w \<Rightarrow> 'w fs_err" where
  "os_FS_RemoveAll pl pkg fs name w =
     (case rootedPath pl fs ''removeall'' name of
        Inl e \<Rightarrow> Some (Some e, w)
      | Inr name \<Rightarrow> wrap_result pl fs (os_RemoveAll pkg name w))"

text \<open>
  \<open>Rename\<close> and \<open>Symlink\<close> assign the results of \<open>rootedPath\<close> to their arguments before they build the error, so
  the name that is invalid is empty in it, and an old name that was valid is the rooted one.
\<close>

definition os_FS_Rename :: "platform \<Rightarrow> ('o, 'i, 'd, 'w) os_pkg \<Rightarrow> osFS \<Rightarrow> string \<Rightarrow> string \<Rightarrow> 'w \<Rightarrow> 'w fs_err" where
  "os_FS_Rename pl pkg fs oldname newname w =
     (case rootedPath pl fs [] oldname of
        Inl e \<Rightarrow> Some (Some (LinkError ''rename'' [] newname (err_err e)), w)
      | Inr oldname \<Rightarrow>
          (case rootedPath pl fs [] newname of
             Inl e \<Rightarrow> Some (Some (LinkError ''rename'' oldname [] (err_err e)), w)
           | Inr newname \<Rightarrow> wrap_result pl fs (os_Rename pkg oldname newname w)))"

definition os_FS_Stat :: "platform \<Rightarrow> ('o, 'i, 'd, 'w) os_pkg \<Rightarrow> osFS \<Rightarrow> string \<Rightarrow> 'w \<Rightarrow> ('i, 'w) fs_info" where
  "os_FS_Stat pl pkg fs name w =
     (case rootedPath pl fs ''stat'' name of
        Inl pathErr \<Rightarrow> Some (Inl pathErr, w)
      | Inr name \<Rightarrow> do {
          (r, w) \<leftarrow> os_Stat pkg name w;
          (case r of
             Inl e \<Rightarrow> do { e \<leftarrow> os_wrapErr pl fs (Some e); e \<leftarrow> e; Some (Inl e, w) }
           | Inr info \<Rightarrow> Some (Inr info, w))
        })"

definition os_FS_Lstat :: "platform \<Rightarrow> ('o, 'i, 'd, 'w) os_pkg \<Rightarrow> osFS \<Rightarrow> string \<Rightarrow> 'w \<Rightarrow> ('i, 'w) fs_info" where
  "os_FS_Lstat pl pkg fs name w =
     (case rootedPath pl fs ''lstat'' name of
        Inl pathErr \<Rightarrow> Some (Inl pathErr, w)
      | Inr name \<Rightarrow> do {
          (r, w) \<leftarrow> os_Lstat pkg name w;
          (case r of
             Inl e \<Rightarrow> do { e \<leftarrow> os_wrapErr pl fs (Some e); e \<leftarrow> e; Some (Inl e, w) }
           | Inr info \<Rightarrow> Some (Inr info, w))
        })"

definition os_FS_Chmod :: "platform \<Rightarrow> ('o, 'i, 'd, 'w) os_pkg \<Rightarrow> osFS \<Rightarrow> string \<Rightarrow> file_mode \<Rightarrow> 'w \<Rightarrow> 'w fs_err" where
  "os_FS_Chmod pl pkg fs name mode w =
     (case rootedPath pl fs ''chmod'' name of
        Inl e \<Rightarrow> Some (Some e, w)
      | Inr name \<Rightarrow> wrap_result pl fs (os_Chmod pkg name mode w))"

definition os_FS_Chown :: "platform \<Rightarrow> ('o, 'i, 'd, 'w) os_pkg \<Rightarrow> osFS \<Rightarrow> string \<Rightarrow> int \<Rightarrow> int \<Rightarrow> 'w \<Rightarrow> 'w fs_err" where
  "os_FS_Chown pl pkg fs name uid gid w =
     (case rootedPath pl fs ''chown'' name of
        Inl e \<Rightarrow> Some (Some e, w)
      | Inr name \<Rightarrow> wrap_result pl fs (os_Chown pkg name uid gid w))"

definition os_FS_Chtimes :: "platform \<Rightarrow> ('o, 'i, 'd, 'w) os_pkg \<Rightarrow> osFS \<Rightarrow> string \<Rightarrow> time \<Rightarrow> time \<Rightarrow> 'w \<Rightarrow> 'w fs_err" where
  "os_FS_Chtimes pl pkg fs name atime mtime w =
     (case rootedPath pl fs ''chtimes'' name of
        Inl e \<Rightarrow> Some (Some e, w)
      | Inr name \<Rightarrow> wrap_result pl fs (os_Chtimes pkg name atime mtime w))"

definition os_FS_ReadDir :: "platform \<Rightarrow> ('o, 'i, 'd, 'w) os_pkg \<Rightarrow> osFS \<Rightarrow> string \<Rightarrow> 'w \<Rightarrow> ('d list \<times> err option \<times> 'w) option" where
  "os_FS_ReadDir pl pkg fs name w =
     (case rootedPath pl fs ''readdir'' name of
        Inl pathErr \<Rightarrow> Some ([], Some pathErr, w)
      | Inr name \<Rightarrow> do {
          (entries, e, w) \<leftarrow> os_ReadDir pkg name w;
          e \<leftarrow> os_wrapErr pl fs e;
          Some (entries, e, w)
        })"

definition os_FS_ReadFile :: "platform \<Rightarrow> ('o, 'i, 'd, 'w) os_pkg \<Rightarrow> osFS \<Rightarrow> string \<Rightarrow> 'w \<Rightarrow> (byte list \<times> err option \<times> 'w) option" where
  "os_FS_ReadFile pl pkg fs name w =
     (case rootedPath pl fs ''readfile'' name of
        Inl pathErr \<Rightarrow> Some ([], Some pathErr, w)
      | Inr name \<Rightarrow> do {
          (contents, e, w) \<leftarrow> os_ReadFile pkg name w;
          e \<leftarrow> os_wrapErr pl fs e;
          Some (contents, e, w)
        })"

definition os_FS_WriteFile :: "platform \<Rightarrow> ('o, 'i, 'd, 'w) os_pkg \<Rightarrow> osFS \<Rightarrow> string \<Rightarrow> byte list \<Rightarrow> file_mode \<Rightarrow> 'w \<Rightarrow> 'w fs_err" where
  "os_FS_WriteFile pl pkg fs name data perm w =
     (case rootedPath pl fs ''writefile'' name of
        Inl e \<Rightarrow> Some (Some e, w)
      | Inr name \<Rightarrow> wrap_result pl fs (os_WriteFile pkg name data perm w))"

definition os_FS_Symlink :: "platform \<Rightarrow> ('o, 'i, 'd, 'w) os_pkg \<Rightarrow> osFS \<Rightarrow> string \<Rightarrow> string \<Rightarrow> 'w \<Rightarrow> 'w fs_err" where
  "os_FS_Symlink pl pkg fs oldname newname w =
     (case rootedPath pl fs ''symlink'' oldname of
        Inl e \<Rightarrow> Some (Some (LinkError ''symlink'' [] newname (err_err e)), w)
      | Inr oldname \<Rightarrow>
          (case rootedPath pl fs ''symlink'' newname of
             Inl e \<Rightarrow> Some (Some (LinkError ''symlink'' oldname [] (err_err e)), w)
           | Inr newname \<Rightarrow> wrap_result pl fs (os_Symlink pkg oldname newname w)))"

definition os_FS_Sub :: "osFS \<Rightarrow> string \<Rightarrow> 'w \<Rightarrow> (osFS option \<times> err option \<times> 'w) option" where
  "os_FS_Sub fs dir w = Some (case os_Sub fs dir of Inl e \<Rightarrow> (None, Some e, w) | Inr fs' \<Rightarrow> (Some fs', None, w))"

text \<open>
  The methods as the helpers see them. \<open>info\<close> is how package \<open>os\<close> reads its \<open>FileInfo\<close> and \<open>DirEntry\<close> values:
  name, mode, size and entry name. A file has no \<open>Chtimes\<close>.
\<close>

definition os_iface ::
  "platform \<Rightarrow> ('o, 'i, 'd, 'w) os_pkg \<Rightarrow> ('i \<Rightarrow> string) \<times> ('i \<Rightarrow> file_mode) \<times> ('i \<Rightarrow> int) \<times> ('d \<Rightarrow> string) \<Rightarrow> (nat \<Rightarrow> nat) \<Rightarrow>
   (osFS, 'o os_file, 'i, 'd, 'w) fs_iface" where
  "os_iface pl pkg info cap =
     \<lparr>fl_Stat = osf_Stat pl pkg, fl_Read = osf_Read pl pkg, fl_Close = osf_Close pl pkg,
      fl_Write = (\<lambda>f. Some (osf_Write pl pkg f)), fl_ReadAt = (\<lambda>f. Some (osf_ReadAt pl pkg f)),
      fl_WriteAt = (\<lambda>f. Some (osf_WriteAt pl pkg f)), fl_ReadDir = (\<lambda>f. Some (osf_ReadDir pl pkg f)),
      fl_Seek = (\<lambda>f. Some (osf_Seek pl pkg f)), fl_Sync = (\<lambda>f. Some (osf_Sync pl pkg f)),
      fl_Truncate = (\<lambda>f. Some (osf_Truncate pl pkg f)), fl_Chmod = (\<lambda>f. Some (osf_Chmod pl pkg f)),
      fl_Chown = (\<lambda>f. Some (osf_Chown pl pkg f)), fl_Chtimes = (\<lambda>f. None),
      in_Name = fst info, in_Mode = (\<lambda>i. Some (fst (snd info) i)), in_Size = (\<lambda>i w. Some (fst (snd (snd info)) i)),
      de_Name = snd (snd (snd info)),
      i_Open = os_FS_Open pl pkg, i_Sub = (\<lambda>fs. Some (os_FS_Sub fs)), i_OpenFile = (\<lambda>fs. Some (os_FS_OpenFile pl pkg fs)),
      i_Create = (\<lambda>fs. Some (os_FS_Create pl pkg fs)), i_Mkdir = (\<lambda>fs. Some (os_FS_Mkdir pl pkg fs)),
      i_MkdirAll = (\<lambda>fs. Some (os_FS_MkdirAll pl pkg fs)), i_Remove = (\<lambda>fs. Some (os_FS_Remove pl pkg fs)),
      i_RemoveAll = (\<lambda>fs. Some (os_FS_RemoveAll pl pkg fs)), i_Rename = (\<lambda>fs. Some (os_FS_Rename pl pkg fs)),
      i_Stat = (\<lambda>fs. Some (os_FS_Stat pl pkg fs)), i_Lstat = (\<lambda>fs. Some (os_FS_Lstat pl pkg fs)),
      i_Chmod = (\<lambda>fs. Some (os_FS_Chmod pl pkg fs)), i_Chown = (\<lambda>fs. Some (os_FS_Chown pl pkg fs)),
      i_Chtimes = (\<lambda>fs. Some (os_FS_Chtimes pl pkg fs)), i_ReadDir = (\<lambda>fs. Some (os_FS_ReadDir pl pkg fs)),
      i_ReadFile = (\<lambda>fs. Some (os_FS_ReadFile pl pkg fs)), i_WriteFile = (\<lambda>fs. Some (os_FS_WriteFile pl pkg fs)),
      i_Symlink = (\<lambda>fs. Some (os_FS_Symlink pl pkg fs)), i_Mount = (\<lambda>fs. None), rd_cap = cap\<rparr>"

subsection \<open>Properties\<close>

text \<open>Two operating systems that answer alike on every path below a directory.\<close>

definition below_root :: "string list \<Rightarrow> string \<Rightarrow> bool" where
  "below_root rs p \<longleftrightarrow> prefix rs (resolved p) \<and> dotdot \<notin> set (resolved p)"

definition agree_below :: "string list \<Rightarrow> ('o, 'i, 'd, 'w) os_pkg \<Rightarrow> ('o, 'i, 'd, 'w) os_pkg \<Rightarrow> bool" where
  "agree_below rs a b \<longleftrightarrow>
     (\<forall>p. below_root rs p \<longrightarrow>
        os_Open a p = os_Open b p \<and> os_OpenFile a p = os_OpenFile b p \<and> os_Create a p = os_Create b p
      \<and> os_Mkdir a p = os_Mkdir b p \<and> os_MkdirAll a p = os_MkdirAll b p \<and> os_Remove a p = os_Remove b p
      \<and> os_RemoveAll a p = os_RemoveAll b p \<and> os_Stat a p = os_Stat b p \<and> os_Lstat a p = os_Lstat b p
      \<and> os_Chmod a p = os_Chmod b p \<and> os_Chown a p = os_Chown b p \<and> os_Chtimes a p = os_Chtimes b p
      \<and> os_ReadDir a p = os_ReadDir b p \<and> os_ReadFile a p = os_ReadFile b p \<and> os_WriteFile a p = os_WriteFile b p
      \<and> (\<forall>q. below_root rs q \<longrightarrow> os_Rename a p q = os_Rename b p q \<and> os_Symlink a p q = os_Symlink b p q))"

lemma rootedPath_below:
  assumes "root_elems fs = Some rs" "os_volumeName fs = []" "rootedPath linux fs op name = Inr p"
  shows "below_root rs p"
proof -
  have "ValidPath name" using assms(3) rootedPath_invalid by fastforce
  then obtain es where "list_all ok_elem es" "name = path_of es" by (rule ValidPathE)
  then show ?thesis
    using rootedPath_linux [OF assms(1,2), of es op] assms(3) root_elems_ok [OF assms(1)] resolved_rooted [of "rs @ es"]
    by (auto simp: below_root_def)
qed

text \<open>
  C28: \<open>os.FS\<close> is confined to its root on Unix. Two operating systems that answer alike on all paths below the root, with
  no \<open>..\<close> in them, cannot be told apart by any method of the file system, whatever the name, its arguments and the state:
  no method reads or changes anything by a path outside the root.
\<close>

theorem os_FS_confined:
  assumes "root_elems fs = Some rs" "os_volumeName fs = []" "agree_below rs a b"
  shows "os_FS_Open linux a fs name w = os_FS_Open linux b fs name w
     \<and> os_FS_OpenFile linux a fs name flag perm w = os_FS_OpenFile linux b fs name flag perm w
     \<and> os_FS_Create linux a fs name w = os_FS_Create linux b fs name w
     \<and> os_FS_Mkdir linux a fs name perm w = os_FS_Mkdir linux b fs name perm w
     \<and> os_FS_MkdirAll linux a fs name perm w = os_FS_MkdirAll linux b fs name perm w
     \<and> os_FS_Remove linux a fs name w = os_FS_Remove linux b fs name w
     \<and> os_FS_RemoveAll linux a fs name w = os_FS_RemoveAll linux b fs name w
     \<and> os_FS_Rename linux a fs name newname w = os_FS_Rename linux b fs name newname w
     \<and> os_FS_Stat linux a fs name w = os_FS_Stat linux b fs name w
     \<and> os_FS_Lstat linux a fs name w = os_FS_Lstat linux b fs name w
     \<and> os_FS_Chmod linux a fs name perm w = os_FS_Chmod linux b fs name perm w
     \<and> os_FS_Chown linux a fs name uid gid w = os_FS_Chown linux b fs name uid gid w
     \<and> os_FS_Chtimes linux a fs name atime mtime w = os_FS_Chtimes linux b fs name atime mtime w
     \<and> os_FS_ReadDir linux a fs name w = os_FS_ReadDir linux b fs name w
     \<and> os_FS_ReadFile linux a fs name w = os_FS_ReadFile linux b fs name w
     \<and> os_FS_WriteFile linux a fs name data perm w = os_FS_WriteFile linux b fs name data perm w
     \<and> os_FS_Symlink linux a fs name newname w = os_FS_Symlink linux b fs name newname w"
  using assms(3) rootedPath_below [OF assms(1,2)] unfolding agree_below_def
  by (intro conjI)
    (simp_all add: os_FS_Open_def os_FS_OpenFile_def os_FS_Create_def os_FS_Mkdir_def os_FS_MkdirAll_def os_FS_Remove_def
      os_FS_RemoveAll_def os_FS_Rename_def os_FS_Stat_def os_FS_Lstat_def os_FS_Chmod_def os_FS_Chown_def os_FS_Chtimes_def
      os_FS_ReadDir_def os_FS_ReadFile_def os_FS_WriteFile_def os_FS_Symlink_def split: sum.split)

text \<open>An operating system that refuses everything with one error.\<close>

definition refusing_os :: "err \<Rightarrow> (unit, unit, unit, 'w) os_pkg" where
  "refusing_os e =
     \<lparr>os_Open = (\<lambda>p w. Some ((), Some (PathError ''open'' p e), w)),
      os_OpenFile = (\<lambda>p flag perm w. Some ((), Some (PathError ''open'' p e), w)),
      os_Create = (\<lambda>p w. Some ((), Some (PathError ''open'' p e), w)),
      os_Mkdir = (\<lambda>p perm w. Some (Some (PathError ''mkdir'' p e), w)),
      os_MkdirAll = (\<lambda>p perm w. Some (Some (PathError ''mkdir'' p e), w)),
      os_Remove = (\<lambda>p w. Some (Some (PathError ''remove'' p e), w)),
      os_RemoveAll = (\<lambda>p w. Some (Some (PathError ''unlinkat'' p e), w)),
      os_Rename = (\<lambda>p q w. Some (Some (LinkError ''rename'' p q e), w)),
      os_Stat = (\<lambda>p w. Some (Inl (PathError ''stat'' p e), w)),
      os_Lstat = (\<lambda>p w. Some (Inl (PathError ''lstat'' p e), w)),
      os_Chmod = (\<lambda>p m w. Some (Some (PathError ''chmod'' p e), w)),
      os_Chown = (\<lambda>p u g w. Some (Some (PathError ''chown'' p e), w)),
      os_Chtimes = (\<lambda>p a m w. Some (Some (PathError ''chtimes'' p e), w)),
      os_ReadDir = (\<lambda>p w. Some ([], Some (PathError ''open'' p e), w)),
      os_ReadFile = (\<lambda>p w. Some ([], Some (PathError ''open'' p e), w)),
      os_WriteFile = (\<lambda>p d m w. Some (Some (PathError ''open'' p e), w)),
      os_Symlink = (\<lambda>p q w. Some (Some (LinkError ''symlink'' p q e), w)),
      of_Chmod = (\<lambda>f m w. Some (Some ErrInvalid, f, w)), of_Chown = (\<lambda>f u g w. Some (Some ErrInvalid, f, w)),
      of_Close = (\<lambda>f w. Some (Some ErrInvalid, f, w)), of_Name = (\<lambda>f. None),
      of_Read = (\<lambda>f b w. Some (b, 0, Some ErrInvalid, f, w)), of_ReadAt = (\<lambda>f b off w. Some (b, 0, Some ErrInvalid, f, w)),
      of_ReadDir = (\<lambda>f n w. Some ([], Some ErrInvalid, f, w)), of_ReadFrom = (\<lambda>f r w. Some (0, Some ErrInvalid, f, w)),
      of_Seek = (\<lambda>f off wh w. Some (0, Some ErrInvalid, f, w)), of_SetDeadline = (\<lambda>f t w. Some (Some ErrInvalid, f, w)),
      of_SetReadDeadline = (\<lambda>f t w. Some (Some ErrInvalid, f, w)), of_SetWriteDeadline = (\<lambda>f t w. Some (Some ErrInvalid, f, w)),
      of_Stat = (\<lambda>f w. Some (Inl ErrInvalid, f, w)), of_Sync = (\<lambda>f w. Some (Some ErrInvalid, f, w)),
      of_Truncate = (\<lambda>f n w. Some (Some ErrInvalid, f, w)), of_Write = (\<lambda>f b w. Some (0, Some ErrInvalid, f, w)),
      of_WriteAt = (\<lambda>f b off w. Some (0, Some ErrInvalid, f, w)), of_WriteString = (\<lambda>f s w. Some (0, Some ErrInvalid, f, w))\<rparr>"

text \<open>The same, but it lets the file outside \<open>data\<close> be removed.\<close>

definition leaky_os :: "err \<Rightarrow> (unit, unit, unit, string list) os_pkg" where
  "leaky_os e = (refusing_os e)\<lparr>os_Remove := (\<lambda>p w. if below_root [''data''] p then Some (Some (PathError ''remove'' p e), w) else Some (None, p # w))\<rparr>"

theorem os_FS_confined_witness:
  "os_FS_Remove linux (leaky_os ErrPermission) \<lparr>os_root = ''data'', os_volumeName = []\<rparr> ''a'' []
     = os_FS_Remove linux (refusing_os ErrPermission) \<lparr>os_root = ''data'', os_volumeName = []\<rparr> ''a'' []
   \<and> os_Remove (leaky_os ErrPermission) ''/etc'' [] \<noteq> os_Remove (refusing_os ErrPermission) ''/etc'' []"
proof -
  have "agree_below [''data''] (leaky_os ErrPermission) (refusing_os ErrPermission)"
    by (simp add: agree_below_def leaky_os_def refusing_os_def)
  moreover have "root_elems \<lparr>os_root = ''data'', os_volumeName = []\<rparr> = Some [''data'']"
    by (simp add: root_elems_def ValidPath_def elems_def path_eval)
  ultimately show ?thesis
    using os_FS_confined [of "\<lparr>os_root = ''data'', os_volumeName = []\<rparr>" "[''data'']" "leaky_os ErrPermission" "refusing_os ErrPermission" "''a''" "[]"]
    by (simp add: leaky_os_def refusing_os_def below_root_def resolved_def)
qed

text \<open>
  C31: errors name the caller's path. When the operating system reports an error about the path it was given, or about
  the two paths of a rename, the caller gets the names it passed, with the same operation and with the cause the platform
  maps it to. This holds for every root, volume and separator, for names other than \<open>.\<close>; an error about \<open>.\<close> comes back
  with an empty path.
\<close>

theorem os_error_names:
  assumes "root_elems fs = Some rs" "volume_ok pl fs"
    and "list_all ok_elem es" "sep_free (pl_Separator pl) (rs @ es)" "rootedPath pl fs ''remove'' (path_of es) = Inr p"
    and "list_all ok_elem ns" "sep_free (pl_Separator pl) (rs @ ns)" "rootedPath pl fs [] (path_of ns) = Inr q"
  shows "(os_Remove pkg p w = Some (Some (PathError op p e), w') \<longrightarrow>
           os_FS_Remove pl pkg fs (path_of es) w
             = Some (wrapNonStandardErrors pl (Some (PathError op (if es = [] then [] else path_of es) e)), w'))
     \<and> (os_Rename pkg p q w = Some (Some (LinkError op p q e), w') \<longrightarrow>
           os_FS_Rename pl pkg fs (path_of es) (path_of ns) w
             = Some (wrapNonStandardErrors pl (Some (LinkError op (if es = [] then [] else path_of es)
                 (if ns = [] then [] else path_of ns) e)), w'))"
proof -
  let ?root = "\<lambda>xs. getVolumeName fs (pl_GOOS pl) @ pl_Separator pl # fromSeparator (pl_Separator pl) (join_slash xs)"
  note ok = root_elems_ok [OF assms(1)]
  have sf: "sep_free (pl_Separator pl) rs" using assms(4) by (auto simp: sep_free_def)
  have rooted: "rootedPath pl fs op (path_of xs) = Inr (?root (rs @ xs))"
    if "list_all ok_elem xs" "sep_free (pl_Separator pl) (rs @ xs)" for xs op
    using rootedPath_elems [OF assms(1) that] assms(2) by (simp add: volume_ok_def)
  have pq: "p = ?root (rs @ es)" "q = ?root (rs @ ns)" using rooted assms(3-8) by simp_all
  have rel: "rel_path pl (?root rs) (?root (rs @ xs)) = (if xs = [] then [] else path_of xs)"
    if "list_all ok_elem xs" "sep_free (pl_Separator pl) (rs @ xs)" for xs
    using rel_path_elems [OF ok that] by (simp add: path_of_def)
  show ?thesis
    using rooted [OF assms(3,4)] rooted [OF assms(6,7)] rel [OF assms(3,4)] rel [OF assms(6,7)]
    by (simp add: pq os_FS_Remove_def os_FS_Rename_def wrap_result_def os_wrapErr_def wrapRelPathErr_elems [OF assms(1) sf assms(2)])
qed

lemma windows_path:
  "root_elems \<lparr>os_root = ''data'', os_volumeName = []\<rparr> = Some [''data'']"
  "volume_ok windows \<lparr>os_root = ''data'', os_volumeName = []\<rparr>"
  "list_all ok_elem [''a'', ''b'']" "sep_free (pl_Separator windows) ([''data''] @ [''a'', ''b''])"
  "path_of [''a'', ''b''] = ''a/b''"
  "rootedPath windows \<lparr>os_root = ''data'', os_volumeName = []\<rparr> op ''a/b''
     = Inr (''C:'' @ CHR 0x5C # ''data'' @ CHR 0x5C # ''a'' @ CHR 0x5C # ''b'')"
  by (simp_all add: root_elems_def ValidPath_def elems_def sep_free_def volume_ok_def no_sep_end_def windows_def
      getVolumeName_def goosWindows_def path_eval rootedPath_def toOSPath_def joinSepPath_def TrimRight_def TrimLeft_def
      fromSeparator_def replace_char_def)

theorem os_error_names_witness:
  "os_FS_Remove windows (refusing_os (Errno 0x91)) \<lparr>os_root = ''data'', os_volumeName = []\<rparr> ''a/b'' ()
     = Some (Some (PathError ''remove'' ''a/b'' (mappedErr ErrNotEmpty (Errno 0x91))), ())"
proof -
  have r: "os_Remove (refusing_os e) p w = Some (Some (PathError ''remove'' p e), w)" for e :: err and p and w :: unit
    by (simp add: refusing_os_def)
  have g: "pl_GOOS windows = goosWindows" by (simp add: windows_def)
  show ?thesis
    using os_error_names [OF windows_path(1,2,3,4) _ windows_path(3,4), unfolded windows_path(5), OF windows_path(6) windows_path(6),
        of "refusing_os (Errno 0x91)" "()" "''remove''" "Errno 0x91" "()"]
    by (simp add: r wrapNonStandardErrors_def g wrapNonStandardErrors_windows_def mapNonStandardError_def
        ERROR_DIR_NOT_EMPTY_def ERROR_NEGATIVE_SEEK_def)
qed

text \<open>
  The mapping of Windows error codes only adds meaning. A mapped error matches every target that the original error
  matched; the code for "directory not empty" then also matches \<open>ErrNotEmpty\<close> and the one for "negative seek" also
  matches \<open>ErrInvalid\<close>, as the cause of a path error; nil stays nil.
\<close>

theorem windows_errors_refined:
  "(is_err e t \<longrightarrow> is_err (wrapNonStandardErrors windows e) t)
   \<and> (wrapNonStandardErrors windows e = None \<longleftrightarrow> e = None)
   \<and> is_err (wrapNonStandardErrors windows (Some (PathError op p (Errno ERROR_DIR_NOT_EMPTY)))) ErrNotEmpty
   \<and> is_err (wrapNonStandardErrors windows (Some (PathError op p (Errno ERROR_NEGATIVE_SEEK)))) ErrInvalid"
proof -
  have m: "errors_Is e t \<Longrightarrow> errors_Is (mapNonStandardError e) t" for e
    by (auto simp: mapNonStandardError_def split: err.split)
  then have "is_err e t \<Longrightarrow> is_err (wrapNonStandardErrors windows e) t"
    by (cases e) (auto simp: wrapNonStandardErrors_def windows_def wrapNonStandardErrors_windows_def split: err.splits)
  then show ?thesis
    by (simp add: wrapNonStandardErrors_def windows_def wrapNonStandardErrors_windows_def mapNonStandardError_def
        ERROR_DIR_NOT_EMPTY_def ERROR_NEGATIVE_SEEK_def)
qed

theorem windows_errors_refined_witness:
  "is_err (wrapNonStandardErrors windows (Some (PathError ''remove'' ''a'' (Errno 145)))) ErrExist"
  using windows_errors_refined [of "Some (PathError ''remove'' ''a'' (Errno 145))" ErrExist] by simp

text \<open>
  An invalid name in \<open>Rename\<close> is reported as an empty one, and the valid old name beside it as the path of the
  operating system: the error names neither what the caller passed nor which name was wrong.
\<close>

lemma os_Rename_invalid_names:
  assumes "root_elems fs = Some rs" "os_volumeName fs = []" "list_all ok_elem es" "\<not> ValidPath bad"
  shows "os_FS_Rename linux pkg fs bad new w = Some (Some (LinkError ''rename'' [] new ErrInvalid), w)"
    and "os_FS_Rename linux pkg fs (path_of es) bad w
      = Some (Some (LinkError ''rename'' (slash # join_slash (rs @ es)) [] ErrInvalid), w)"
  using assms rootedPath_linux [OF assms(1-3)] rootedPath_invalid [OF assms(4)] by (simp_all add: os_FS_Rename_def)

text \<open>A failed \<open>Open\<close> still returns a file: the wrapper around the nil pointer that \<open>os.Open\<close> returned.\<close>

lemma os_Open_error_file:
  assumes "rootedPath pl fs ''open'' name = Inr p" "os_Open pkg p w = Some (nil, Some e, w')"
    and "os_wrapErr pl fs (Some e) = Some e'"
  shows "os_FS_Open pl pkg fs name w = Some (Some (wrapFile fs nil), e', w')"
  using assms by (simp add: os_FS_Open_def)

end
