(* ===== verification/Cache_FS.thy ===== *)
theory Cache_FS
  imports Mount_FS
begin

section \<open>The read-only cache (\<open>cache/fs.go\<close>, \<open>cache/dir.go\<close>)\<close>

text \<open>
  \<open>ReadOnlyFS\<close> reads a source file system and keeps copies of its files in another one. Both are values
  of the table of methods \<open>I\<close>; \<open>sync.Map\<close> of cached infos is a map in the state, which every operation
  takes and returns. A call of \<open>Open\<close> holds the lock of its path from the look-up in the cache to the end
  (theory \<open>PathLock\<close>), so the calls on one path run one after the other, as they do here. The cache file
  system has the methods \<open>OpenFile\<close> and \<open>Mkdir\<close> by its type; a value without them does not occur and gives
  \<^const>\<open>None\<close>.
\<close>

record ('f, 'i) readOnlyFS =
  ro_sourceFS :: 'f
  ro_cacheFS :: 'f
  ro_RetainData :: "string \<Rightarrow> 'i \<Rightarrow> bool"

type_synonym 'i cache_info = "string \<rightharpoonup> 'i"

record cache_dir =
  cd_name :: string
  cd_offset :: int

datatype 'h cache_file = CacheDir cache_dir | SourceOrCached 'h

definition NewReadOnlyFS :: "'f \<Rightarrow> 'f \<Rightarrow> (string \<Rightarrow> 'i \<Rightarrow> bool) option \<Rightarrow> ('f, 'i) readOnlyFS" where
  "NewReadOnlyFS source cache RetainData =
     \<lparr>ro_sourceFS = source, ro_cacheFS = cache,
      ro_RetainData = (case RetainData of None \<Rightarrow> (\<lambda>_ _. True) | Some r \<Rightarrow> r)\<rparr>"

definition cache_Stat ::
  "('f, 'h, 'i, 'd, 'w, 'z) fs_iface_scheme \<Rightarrow> ('f, 'i) readOnlyFS \<Rightarrow> string \<Rightarrow> 'i cache_info \<Rightarrow> 'w \<Rightarrow>
   ((err + 'i) \<times> 'i cache_info \<times> 'w) option" where
  "cache_Stat I fs name infos w =
     (case infos name of
        Some info \<Rightarrow> Some (Inr info, infos, w)
      | None \<Rightarrow> do {
          (f, e, w) \<leftarrow> i_Open I (ro_sourceFS fs) name w;
          (case e of
             Some e \<Rightarrow> Some (Inl e, infos, w)
           | None \<Rightarrow> do {
               f \<leftarrow> f;
               (r, f, w) \<leftarrow> fl_Stat I f w;
               (_, _, w) \<leftarrow> fl_Close I f w;
               Some (case r of Inl e \<Rightarrow> (Inl e, infos, w) | Inr info \<Rightarrow> (Inr info, infos(name \<mapsto> info), w))
             })
        })"

text \<open>The copy goes through a buffer of 512 bytes.\<close>

definition copyFile ::
  "('f, 'h, 'i, 'd, 'w, 'z) fs_iface_scheme \<Rightarrow> ('f, 'i) readOnlyFS \<Rightarrow> string \<Rightarrow> 'h \<Rightarrow> 'i \<Rightarrow> 'w \<Rightarrow> ('h, 'w) file_err" where
  "copyFile I fs name f info w =
     (let parentName = Dir name in do {
        (e, w) \<leftarrow> MkdirAll I (ro_cacheFS fs) parentName 0x1C0 w;
        (case e of
           Some e \<Rightarrow> Some (Some (PathError ''open'' parentName e), f, w)
         | None \<Rightarrow> do {
             openFile \<leftarrow> i_OpenFile I (ro_cacheFS fs);
             mode \<leftarrow> in_Mode I info;
             (destFile, e, w) \<leftarrow> openFile name (FlagWriteOnly OR FlagCreate OR FlagTruncate) mode w;
             (case e of
                Some e \<Rightarrow> Some (Some e, f, w)
              | None \<Rightarrow> do {
                  destFile \<leftarrow> destFile;
                  (case fl_Write I destFile of
                     None \<Rightarrow> do {
                       (_, _, w) \<leftarrow> fl_Close I destFile w;
                       Some (Some (PathError ''open'' name ErrPermission), f, w)
                     }
                   | Some _ \<Rightarrow> do {
                       (e, destFile, f, w) \<leftarrow> io_Copy I (WriteFile I) 512 destFile f w;
                       (_, _, w) \<leftarrow> fl_Close I destFile w;
                       Some (e, f, w)
                     })
                })
           })
      })"

definition cache_Open ::
  "('f, 'h, 'i, 'd, 'w, 'z) fs_iface_scheme \<Rightarrow> ('f, 'i) readOnlyFS \<Rightarrow> string \<Rightarrow> 'i cache_info \<Rightarrow> 'w \<Rightarrow>
   ('h cache_file option \<times> err option \<times> 'i cache_info \<times> 'w) option" where
  "cache_Open I fs name infos w =
     do {
       (r, infos, w) \<leftarrow> cache_Stat I fs name infos w;
       (case r of
          Inl e \<Rightarrow> Some (None, Some e, infos, w)
        | Inr info \<Rightarrow> do {
            mode \<leftarrow> in_Mode I info;
            if IsDir mode then Some (Some (CacheDir \<lparr>cd_name = name, cd_offset = 0\<rparr>), None, infos, w)
            else do {
              (f, e, w) \<leftarrow> i_Open I (ro_cacheFS fs) name w;
              (case e of
                 None \<Rightarrow> Some (map_option SourceOrCached f, None, infos, w)
               | Some e \<Rightarrow>
                   if \<not> errors_Is e ErrNotExist then Some (None, Some e, infos, w)
                   else do {
                     (f, e, w) \<leftarrow> i_Open I (ro_sourceFS fs) name w;
                     (case e of
                        Some e \<Rightarrow> Some (None, Some e, infos, w)
                      | None \<Rightarrow> do {
                          f \<leftarrow> f;
                          if \<not> ro_RetainData fs name info then Some (Some (SourceOrCached f), None, infos, w)
                          else do {
                            (e, f, w) \<leftarrow> copyFile I fs name f info w;
                            (case e of
                               Some e \<Rightarrow> do { (_, _, w) \<leftarrow> fl_Close I f w; Some (None, Some e, infos, w) }
                             | None \<Rightarrow> do {
                                 (_, seekErr, f, w) \<leftarrow> SeekFile I f 0 SeekStart w;
                                 (case seekErr of
                                    None \<Rightarrow> Some (Some (SourceOrCached f), None, infos, w)
                                  | Some _ \<Rightarrow> do {
                                      (_, _, w) \<leftarrow> fl_Close I f w;
                                      (f, e, w) \<leftarrow> i_Open I (ro_cacheFS fs) name w;
                                      Some (map_option SourceOrCached f, e, infos, w)
                                    })
                               })
                          }
                        })
                   })
            }
          })
     }"


subsection \<open>Directories\<close>

definition cdir_Read :: "cache_dir \<Rightarrow> byte list \<Rightarrow> int \<times> err option" where
  "cdir_Read d p = (0, Some (PathError ''read'' (cd_name d) ErrIsDir))"

definition cdir_Close :: "cache_dir \<Rightarrow> err option" where
  "cdir_Close d = None"

definition cdir_Stat where
  "cdir_Stat I fs d infos w = cache_Stat I fs (cd_name d) infos w"

text \<open>The window of \<open>ReadDir\<close>: \<^const>\<open>None\<close> when the slice expression panics.\<close>

definition cdir_window :: "cache_dir \<Rightarrow> int \<Rightarrow> 'd list \<Rightarrow> ('d list \<times> err option \<times> cache_dir) option" where
  "cdir_window d n entries =
     (if 0 < n \<and> cd_offset d = int (length entries) then Some ([], Some EOF, d)
      else if n \<le> 0 \<or> int64 (cd_offset d + n) > int (length entries) then Some (entries, None, d\<lparr>cd_offset := n\<rparr>)
      else
        (let end = int64 (cd_offset d + n) in
         if 0 \<le> cd_offset d \<and> cd_offset d \<le> end then
           Some (slice_of (nat (cd_offset d)) (nat end) entries, None, d\<lparr>cd_offset := end\<rparr>)
         else None))"

definition cdir_ReadDir ::
  "('f, 'h, 'i, 'd, 'w, 'z) fs_iface_scheme \<Rightarrow> ('f, 'i) readOnlyFS \<Rightarrow> cache_dir \<Rightarrow> int \<Rightarrow> 'w \<Rightarrow>
   ('d list \<times> err option \<times> cache_dir \<times> 'w) option" where
  "cdir_ReadDir I fs d n w =
     do {
       (entries, e, w) \<leftarrow> ReadDir I (ro_sourceFS fs) (cd_name d) w;
       (case e of
          Some e \<Rightarrow> Some ([], Some e, d, w)
        | None \<Rightarrow> do { (entries, e, d) \<leftarrow> cdir_window d n entries; Some (entries, e, d, w) })
     }"

end
