(* ===== verification/Mem_Cache.thy ===== *)
theory Mem_Cache
  imports Mem_Helpers Cache_FS
begin

section \<open>The cache over in-memory file systems\<close>

text \<open>
  What \<open>cache.ReadOnlyFS\<close> returns when source and cache are in-memory file systems: the bytes of the
  source, once copied also without the source; and where it goes wrong: listing directories in pages, and
  a copy that fails half-way.
\<close>

lemma copyFile_mem:
  assumes ij: "i \<noteq> j" "ro_cacheFS fs = j" and name: "ValidPath name" "name \<noteq> dot"
    and src: "mem_ok (W i)" "mem_attached (W i) f name (n_mode nd) t" "mem_tree (W i) name = Some nd" "f_offset f = 0"
      "\<not> IsDir (n_mode nd)" "int (length (n_data nd)) + 512 \<le> max_int64"
    and info: "in_Mode (mem_iface cap) info = Some (n_mode nd)"
    and dst: "mem_ok (W j)" "can_create (mem_tree (W j)) name"
  shows "\<exists>f' W' u. copyFile (mem_iface cap) fs name (i, readOnlyFile f) info W = Some (None, (i, readOnlyFile f'), W')
    \<and> mem_ok (W' i) \<and> mem_tree (W' i) = mem_tree (W i) \<and> mem_attached (W' i) f' name (n_mode nd) t
    \<and> mem_ok (W' j) \<and> mem_tree (W' j) name = Some \<lparr>n_mode = n_mode nd AND ModePerm, n_modTime = u, n_data = n_data nd\<rparr>
    \<and> (\<forall>q. mem_tree (W j) q \<noteq> None \<longrightarrow> mem_tree (W' j) q = mem_tree (W j) q)"
proof -
  let ?I = "mem_iface cap" and ?m = "n_mode nd AND ModePerm"
  obtain w1 g w2 u where o: "MkdirAll ?I j (Dir name) 0x1C0 W = Some (None, W(j := w1))"
      "mem_OpenFile name create_flags (n_mode nd) w1 = Some (Some (writeOnlyFile g), None, w2)" "mem_ok w2"
      "mem_tree w2 name = Some \<lparr>n_mode = ?m, n_modTime = u, n_data = []\<rparr>"
      "\<forall>q. mem_tree (W j) q \<noteq> None \<longrightarrow> mem_tree w2 q = mem_tree (W j) q"
      "mem_attached w2 g name ?m u" "f_offset g = 0" "f_flag g = create_flags"
    using mem_create_file [of W j name cap "n_mode nd"] dst name by blast
  obtain f' g' W3 u' where cp: "io_Copy ?I (WriteFile ?I) 512 (j, writeOnlyFile g) (i, readOnlyFile f) (W(j := w2))
        = Some (None, (j, writeOnlyFile g'), (i, readOnlyFile f'), W3)"
      "mem_ok (W3 i)" "mem_tree (W3 i) = mem_tree (W i)" "mem_attached (W3 i) f' name (n_mode nd) t" "mem_ok (W3 j)"
      "mem_tree (W3 j) = (mem_tree w2)(name \<mapsto> \<lparr>n_mode = ?m, n_modTime = u', n_data = n_data nd\<rparr>)"
    using io_Copy_mem [OF ij(1) src(5) refl, of ?m 512 "W(j := w2)" f name t 0 g name u cap] src o ij(1) by auto
  obtain e h where cl: "h_Close (writeOnlyFile g') = (e, h)" by fastforce
  have "copyFile ?I fs name (i, readOnlyFile f) info W = Some (None, (i, readOnlyFile f'), W3)"
    using ij o(1,2) cp(1) cl info by (simp add: copyFile_def Let_def run_open_def)
  moreover have "\<forall>q. mem_tree (W j) q \<noteq> None \<longrightarrow> mem_tree (W3 j) q = mem_tree (W j) q"
    using o(5) cp(6) dst(2) by (auto simp: can_create_def)
  ultimately show ?thesis using cp by auto
qed

text \<open>
  What can be read from a handle just opened: a read with any buffer yields the first bytes of the data,
  and \<open>io.EOF\<close> when the buffer reaches the end.
\<close>

definition reads_as :: "(nat \<Rightarrow> nat) \<Rightarrow> mem_file cache_file option \<Rightarrow> mems \<Rightarrow> byte list \<Rightarrow> bool" where
  "reads_as cap f W data \<longleftrightarrow>
     (\<exists>h. f = Some (SourceOrCached h) \<and>
        (\<forall>buf. int (length buf) \<le> max_int64 \<longrightarrow>
           (\<exists>h' W'. fl_Read (mem_iface cap) h buf W =
              Some (go_copy buf (take (length buf) data), int (min (length buf) (length data)), read_err (length buf) 0 data, h', W'))))"

lemma reads_as_mem:
  assumes "mem_ok (W i)" "mem_attached (W i) f p m t" "mem_tree (W i) p = Some nd" "\<not> IsDir m" "f_offset f = 0"
  shows "reads_as cap (Some (SourceOrCached (i, readOnlyFile f))) W (n_data nd)"
proof -
  have "\<exists>h' W'. fl_Read (mem_iface cap) (i, readOnlyFile f) buf W = Some (go_copy buf (take (length buf) (n_data nd)),
      int (min (length buf) (length (n_data nd))), read_err (length buf) 0 (n_data nd), h', W')"
    if "int (length buf) \<le> max_int64" for buf
    using that mem_read [OF assms(1-4), of buf "take (length buf) (n_data nd)"] assms(5)
    by (auto simp: mf_bytes_def read_bytes_def min.commute)
  then show ?thesis unfolding reads_as_def by blast
qed

lemma Seek_start:
  "SeekFile (mem_iface cap) (i, readOnlyFile f) 0 SeekStart W = Some (0, None, (i, readOnlyFile (f\<lparr>f_offset := 0\<rparr>)), W)"
  by (simp add: SeekFile_def mem_with_def h_Seek_def file_Seek_def)

lemma attached_offset: "mem_attached w (f\<lparr>f_offset := x\<rparr>) p m t = mem_attached w f p m t"
  by (simp add: mem_attached_def attached_def)

lemma cache_Stat_mem:
  assumes "mem_ok (W i)" "mem_tree (W i) name = Some nd" "ro_sourceFS fs = i" "infos name = None"
  shows "\<exists>info w'. cache_Stat (mem_iface cap) fs name infos W = Some (Inr info, infos(name \<mapsto> info), W(i := w'))
    \<and> in_Mode (mem_iface cap) info = Some (n_mode nd) \<and> mem_ok w' \<and> mem_tree w' = mem_tree (W i)"
proof -
  obtain h info w' where o: "mem_Open name (W i) = Some (Some h, None, w')" "mem_ok w'" "mem_tree w' = mem_tree (W i)"
      "h_Stat h = Some info" "info_Mode mem_ops info = Some (n_mode nd)"
    using mem_Open_Stat [OF assms(1,2)] by blast
  obtain e h' where "h_Close h = (e, h')" by fastforce
  then show ?thesis using o assms(3,4) by (intro exI [of _ "(i, info)"] exI [of _ w']) (simp add: cache_Stat_def run_open_def)
qed

text \<open>
  C40: the cache is transparent. Opening a file of the source through the cache returns a file that reads as the source's
  data, leaves the source as it is and puts a copy of the same data into the cache file system, creating the directories
  above it and changing no entry that was there. From then on opening it needs no source: whatever has become of the source
  file system, the file opened through the cache still reads as that data.
\<close>

theorem cache_Open_transparent:
  assumes "i \<noteq> j" "ro_sourceFS fs = i" "ro_cacheFS fs = j" "\<And>info. ro_RetainData fs name info" "infos name = None"
    and "ValidPath name" "name \<noteq> dot" "mem_ok (W i)" "mem_tree (W i) name = Some nd" "\<not> IsDir (n_mode nd)"
    and "int (length (n_data nd)) + 512 \<le> max_int64" "mem_ok (W j)" "can_create (mem_tree (W j)) name"
  shows "\<exists>f infos' W'. cache_Open (mem_iface cap) fs name infos W = Some (f, None, infos', W')
    \<and> reads_as cap f W' (n_data nd) \<and> mem_tree (W' i) = mem_tree (W i)
    \<and> (\<exists>u. mem_tree (W' j) name = Some \<lparr>n_mode = n_mode nd AND ModePerm, n_modTime = u, n_data = n_data nd\<rparr>)
    \<and> (\<forall>q. mem_tree (W j) q \<noteq> None \<longrightarrow> mem_tree (W' j) q = mem_tree (W j) q)
    \<and> (\<forall>w. \<exists>f W''. cache_Open (mem_iface cap) fs name infos' (W'(i := w)) = Some (f, None, infos', W'')
          \<and> reads_as cap f W'' (n_data nd) \<and> W'' i = w)"
proof -
  let ?I = "mem_iface cap"
  obtain info w1 where st: "cache_Stat ?I fs name infos W = Some (Inr info, infos(name \<mapsto> info), W(i := w1))"
      "in_Mode ?I info = Some (n_mode nd)" "mem_ok w1" "mem_tree w1 = mem_tree (W i)"
    using cache_Stat_mem [of W i name nd fs infos cap] assms(2,5,8,9) by blast
  obtain w2 where miss: "mem_Open name (W j) = Some (None, Some (PathError ''open'' name ErrNotExist), w2)" "mem_ok w2"
      "mem_tree w2 = mem_tree (W j)"
    using mem_Open_missing [OF assms(12,6)] assms(13) by (auto simp: can_create_def)
  obtain f w3 where o: "mem_Open name w1 = Some (Some (readOnlyFile f), None, w3)" "mem_ok w3" "mem_tree w3 = mem_tree w1"
      "mem_attached w3 f name (n_mode nd) (n_modTime nd)" "f_offset f = 0"
    using mem_open_read [OF st(3) _ assms(6), of nd] st(4) assms(9) by auto
  let ?W = "W(i := w3, j := w2)"
  obtain f' W4 u where cp: "copyFile ?I fs name (i, readOnlyFile f) info ?W = Some (None, (i, readOnlyFile f'), W4)"
      "mem_ok (W4 i)" "mem_tree (W4 i) = mem_tree (W i)" "mem_attached (W4 i) f' name (n_mode nd) (n_modTime nd)" "mem_ok (W4 j)"
      "mem_tree (W4 j) name = Some \<lparr>n_mode = n_mode nd AND ModePerm, n_modTime = u, n_data = n_data nd\<rparr>"
      "\<forall>q. mem_tree (W j) q \<noteq> None \<longrightarrow> mem_tree (W4 j) q = mem_tree (W j) q"
    using copyFile_mem [OF assms(1,3,6,7), of ?W f nd "n_modTime nd" cap info] assms st(2,4) o miss by auto
  let ?f = "Some (SourceOrCached (i, readOnlyFile (f'\<lparr>f_offset := 0\<rparr>)))"
  have W: "W(i := w1, j := w2, i := w3) = ?W" using assms(1) by auto
  have "cache_Open ?I fs name infos W = Some (?f, None, infos(name \<mapsto> info), W4)"
    using assms(1-4,10) st(1,2) miss(1) o(1) cp(1) W
    by (simp add: cache_Open_def run_open_def Seek_start)
  moreover have "reads_as cap ?f W4 (n_data nd)"
    using reads_as_mem [of W4 i "f'\<lparr>f_offset := 0\<rparr>" name "n_mode nd" "n_modTime nd" nd] cp(2-4) assms(9,10)
    by (simp add: attached_offset)
  moreover have "\<exists>f W''. cache_Open ?I fs name (infos(name \<mapsto> info)) (W4(i := w)) = Some (f, None, infos(name \<mapsto> info), W'')
      \<and> reads_as cap f W'' (n_data nd) \<and> W'' i = w" for w
  proof -
    obtain g w5 where g: "mem_Open name (W4 j) = Some (Some (readOnlyFile g), None, w5)" "mem_ok w5" "mem_tree w5 = mem_tree (W4 j)"
        "mem_attached w5 g name (n_mode nd AND ModePerm) u" "f_offset g = 0"
      using mem_open_read [OF cp(5,6) assms(6)] by auto
    have "reads_as cap (Some (SourceOrCached (j, readOnlyFile g))) (W4(i := w, j := w5)) (n_data nd)"
      using reads_as_mem [of "W4(i := w, j := w5)" j g name "n_mode nd AND ModePerm" u] g cp(6) by fastforce
    then show ?thesis using g(1) st(2) assms(1,3,10)
      by (simp add: cache_Open_def cache_Stat_def run_open_def)
  qed
  ultimately show ?thesis using cp(3,6,7) by blast
qed

text \<open>A second file system without the file \<open>f\<close>.\<close>

lemma demo_without_f:
  "\<exists>w. mem_ok w \<and> mem_tree w = (mem_tree demo_world)(''f'' := None)"
proof -
  have "\<not> IsDir 0x1A4" by (simp add: IsDir_def ModeDir_def)
  then show ?thesis
    using mem_Remove_run [where W = demo_mems and i = 0 and z = "()" and p = "''f''"] demo_ok by (auto simp: demo_mems_def demo_tree is_dir_def)
qed

lemma demo_can_create:
  assumes "mem_tree w = (mem_tree demo_world)(''f'' := None)" shows "can_create (mem_tree w) ''f''"
proof -
  have d: "Dir ''a'' = dot" "Dir ''a/b'' = ''a''" "Dir ''f'' = dot"
    using Dir_snoc [of "[]" "''a''"] Dir_snoc [of "[''a'']" "''b''"] Dir_snoc [of "[]" "''f''"]
    by (simp_all add: demo_valid path_of_def)
  have "tree_closed (mem_tree w)"
    using d by (auto simp: assms tree_closed_def demo_tree is_dir_def demo_modes split: if_splits)
  then show ?thesis
    by (simp add: can_create_def assms d ancestors_def elems_def demo_tree is_dir_def demo_modes)
qed

theorem cache_Open_transparent_witness:
  "\<exists>w f infos' W'. cache_Open (mem_iface (\<lambda>_. 0)) (NewReadOnlyFS 0 1 None) ''f'' Map.empty (demo_mems(1 := w)) = Some (f, None, infos', W')
     \<and> mem_tree w ''f'' = None \<and> reads_as (\<lambda>_. 0) f W' [104, 105, 33]"
proof -
  obtain w where w: "mem_ok w" "mem_tree w = (mem_tree demo_world)(''f'' := None)" using demo_without_f by blast
  have nd: "mem_tree ((demo_mems(1 := w)) 0) ''f'' = Some \<lparr>n_mode = 0x1A4, n_modTime = 7, n_data = [104, 105, 33]\<rparr>"
    by (simp add: demo_mems_def demo_tree)
  show ?thesis
    using cache_Open_transparent [where i = 0 and j = 1 and fs = "NewReadOnlyFS 0 1 None" and name = "''f''" and infos = Map.empty
        and W = "demo_mems(1 := w)" and cap = "\<lambda>_. 0", OF _ _ _ _ _ _ _ _ nd] w demo_ok demo_can_create [OF w(2)]
    by (auto simp: NewReadOnlyFS_def demo_mems_def demo_modes max_int64_def demo_valid intro!: exI [of _ w])
qed


subsection \<open>Listing directories in pages\<close>

text \<open>
  Paging through a directory of the cache goes wrong. With a page size below the number of entries that does not fit in
  twice, the first page is right; but the second one has all the entries instead of the remaining ones, and
  so has every later one: the end of the directory is never reported. And asking for all entries, with a negative count,
  makes the next call for a page panic.
\<close>

theorem cdir_window_wrong:
  assumes "0 < n" "n < int (length entries)" "int (length entries) < 2 * n" "2 * n \<le> max_int64"
    and "0 < m" "m \<le> int (length entries)"
  shows "cdir_window \<lparr>cd_name = p, cd_offset = 0\<rparr> n entries = Some (take (nat n) entries, None, \<lparr>cd_name = p, cd_offset = n\<rparr>)
     \<and> cdir_window \<lparr>cd_name = p, cd_offset = n\<rparr> n entries = Some (entries, None, \<lparr>cd_name = p, cd_offset = n\<rparr>)
     \<and> cdir_window \<lparr>cd_name = p, cd_offset = 0\<rparr> (-1) entries = Some (entries, None, \<lparr>cd_name = p, cd_offset = -1\<rparr>)
     \<and> cdir_window \<lparr>cd_name = p, cd_offset = -1\<rparr> m entries = None"
proof -
  have "int64 x = x" if "- 1 \<le> x" "x \<le> 2 * n" for x using that assms(4) by (intro int64_id) auto
  then have "int64 (0 + n) = n" "int64 (n + n) = n + n" "int64 (-1 + m) = -1 + m" using assms by auto
  moreover have "entries \<noteq> []" using assms(1,2) by auto
  ultimately show ?thesis using assms by (simp add: cdir_window_def Let_def slice_of_0)
qed

theorem cdir_window_wrong_witness:
  "cdir_window \<lparr>cd_name = ''a'', cd_offset = 2\<rparr> 2 [''x'', ''y'', ''z'']
     = Some ([''x'', ''y'', ''z''], None, \<lparr>cd_name = ''a'', cd_offset = 2\<rparr>)"
  using cdir_window_wrong [of 2 "[''x'', ''y'', ''z'']" 1 "''a''"] by (simp add: max_int64_def)


subsection \<open>A copy that fails\<close>

text \<open>The first file system, whose files cannot be read.\<close>

definition bad_source :: "(nat \<Rightarrow> nat) \<Rightarrow> (nat, mem_file, mem_info, mem_entry, mems) fs_iface" where
  "bad_source cap = (mem_iface cap)\<lparr>fl_Read := (\<lambda>(k, h) p W. if k = 0 then Some (p, 0, Some ErrPermission, (k, h), W)
     else fl_Read (mem_iface cap) (k, h) p W)\<rparr>"

lemma bad_source_sel [simp]:
  "fl_Read (bad_source cap) (0, h) p W = Some (p, 0, Some ErrPermission, (0, h), W)"
  "fl_Write (bad_source cap) = fl_Write (mem_iface cap)" "fl_Close (bad_source cap) = fl_Close (mem_iface cap)"
  "fl_Stat (bad_source cap) = fl_Stat (mem_iface cap)" "in_Mode (bad_source cap) = in_Mode (mem_iface cap)"
  "i_Open (bad_source cap) = i_Open (mem_iface cap)" "i_OpenFile (bad_source cap) = i_OpenFile (mem_iface cap)"
  "i_MkdirAll (bad_source cap) = i_MkdirAll (mem_iface cap)"
  by (simp_all add: bad_source_def)

text \<open>
  A failed copy is served as the file. When the source cannot be read, opening its file through the cache reports the
  error, but leaves an empty file behind in the cache; opening the file again then succeeds, and the file reads as empty
  although the source has data.
\<close>

theorem cache_failed_copy_served:
  assumes "ro_sourceFS fs = 0" "ro_cacheFS fs = j" "j \<noteq> 0" "\<And>info. ro_RetainData fs name info" "infos name = None"
    and "ValidPath name" "name \<noteq> dot" "mem_ok (W 0)" "mem_tree (W 0) name = Some nd" "\<not> IsDir (n_mode nd)"
    and "mem_ok (W j)" "can_create (mem_tree (W j)) name"
  shows "\<exists>infos' W' f W''. cache_Open (bad_source cap) fs name infos W = Some (None, Some ErrPermission, infos', W')
    \<and> cache_Open (bad_source cap) fs name infos' W' = Some (f, None, infos', W'') \<and> reads_as cap f W'' []"
proof -
  let ?I = "bad_source cap" and ?M = "mem_iface cap"
  have stat: "cache_Stat ?I fs name xs V = cache_Stat ?M fs name xs V" for xs V
    unfolding cache_Stat_def bad_source_sel by (rule refl)
  obtain info w1 where st: "cache_Stat ?M fs name infos W = Some (Inr info, infos(name \<mapsto> info), W(0 := w1))"
      "in_Mode ?M info = Some (n_mode nd)" "mem_ok w1" "mem_tree w1 = mem_tree (W 0)"
    using cache_Stat_mem [of W 0 name nd fs infos cap] assms(1,5,8,9) by blast
  obtain w2 where miss: "mem_Open name (W j) = Some (None, Some (PathError ''open'' name ErrNotExist), w2)" "mem_ok w2"
      "mem_tree w2 = mem_tree (W j)"
    using mem_Open_missing [OF assms(11,6)] assms(12) by (auto simp: can_create_def)
  obtain f w3 where o: "mem_Open name w1 = Some (Some (readOnlyFile f), None, w3)"
    using mem_open_read [OF st(3) _ assms(6), of nd] st(4) assms(9) by auto
  let ?W = "W(0 := w3, j := w2)"
  obtain w4 g w5 u where c: "MkdirAll ?M j (Dir name) 0x1C0 ?W = Some (None, ?W(j := w4))"
      "mem_OpenFile name create_flags (n_mode nd) w4 = Some (Some (writeOnlyFile g), None, w5)" "mem_ok w5"
      "mem_tree w5 name = Some \<lparr>n_mode = n_mode nd AND ModePerm, n_modTime = u, n_data = []\<rparr>"
    using mem_create_file [of ?W j name cap "n_mode nd"] miss assms(3,6,7,12) by auto
  have mk: "MkdirAll ?I j (Dir name) 0x1C0 ?W = MkdirAll ?M j (Dir name) 0x1C0 ?W"
    by (simp add: MkdirAll.simps [of _ j])
  obtain e h where cl: "h_Close (writeOnlyFile g) = (e, h)" by fastforce
  obtain e' h' where cl': "h_Close (readOnlyFile f) = (e', h')" by fastforce
  have copy: "copyFile ?I fs name (0, readOnlyFile f) info ?W = Some (Some ErrPermission, (0, readOnlyFile f), ?W(j := w5))"
    using assms(2,3) mk c(1,2) st(2) cl
    by (simp add: copyFile_def Let_def run_open_def io_Copy.simps [of "bad_source cap"] mk)
  have W: "W(0 := w1, j := w2, 0 := w3) = ?W" using assms(3) by auto
  have first: "cache_Open ?I fs name infos W = Some (None, Some ErrPermission, infos(name \<mapsto> info), ?W(j := w5))"
    using assms(1-4,10) st(1,2) miss(1) o copy cl' W by (simp add: cache_Open_def stat run_open_def)
  obtain g' w6 where g: "mem_Open name w5 = Some (Some (readOnlyFile g'), None, w6)" "mem_ok w6" "mem_tree w6 = mem_tree w5"
      "mem_attached w6 g' name (n_mode nd AND ModePerm) u" "f_offset g' = 0"
    using mem_open_read [OF c(3,4) assms(6)] by auto
  have "cache_Open ?I fs name (infos(name \<mapsto> info)) (?W(j := w5))
      = Some (Some (SourceOrCached (j, readOnlyFile g')), None, infos(name \<mapsto> info), ?W(j := w6))"
    using g(1) st(2) assms(2,3,10) by (simp add: cache_Open_def cache_Stat_def run_open_def)
  moreover have "reads_as cap (Some (SourceOrCached (j, readOnlyFile g'))) (?W(j := w6)) []"
    using reads_as_mem [of "?W(j := w6)" j g' name "n_mode nd AND ModePerm" u] g c(4) by fastforce
  ultimately show ?thesis using first by blast
qed

theorem cache_failed_copy_served_witness:
  "\<exists>w infos' W' f W''. cache_Open (bad_source (\<lambda>_. 0)) (NewReadOnlyFS 0 1 None) ''f'' Map.empty (demo_mems(1 := w))
       = Some (None, Some ErrPermission, infos', W')
     \<and> cache_Open (bad_source (\<lambda>_. 0)) (NewReadOnlyFS 0 1 None) ''f'' infos' W' = Some (f, None, infos', W'') \<and> reads_as (\<lambda>_. 0) f W'' []"
proof -
  obtain w where w: "mem_ok w" "mem_tree w = (mem_tree demo_world)(''f'' := None)" using demo_without_f by blast
  have nd: "mem_tree ((demo_mems(1 := w)) 0) ''f'' = Some \<lparr>n_mode = 0x1A4, n_modTime = 7, n_data = [104, 105, 33]\<rparr>"
    by (simp add: demo_mems_def demo_tree)
  have "\<exists>infos' W' f W''. cache_Open (bad_source (\<lambda>_. 0)) (NewReadOnlyFS 0 1 None) ''f'' Map.empty (demo_mems(1 := w))
       = Some (None, Some ErrPermission, infos', W')
     \<and> cache_Open (bad_source (\<lambda>_. 0)) (NewReadOnlyFS 0 1 None) ''f'' infos' W' = Some (f, None, infos', W'') \<and> reads_as (\<lambda>_. 0) f W'' []"
  proof (rule cache_failed_copy_served [where W = "demo_mems(1 := w)" and j = 1, OF _ _ _ _ _ _ _ _ nd])
    show "can_create (mem_tree ((demo_mems(1 := w)) 1)) ''f''" "mem_ok ((demo_mems(1 := w)) 1)"
      using demo_can_create [OF w(2)] w(1) by simp_all
    show "mem_ok ((demo_mems(1 := w)) 0)" using demo_ok by (simp add: demo_mems_def)
  qed (simp_all add: NewReadOnlyFS_def demo_modes demo_valid)
  then show ?thesis by blast
qed

end
