(* ===== verification/Threads.thy ===== *)
theory Threads
  imports Prelude "HOL-Library.Multiset"
begin

section \<open>Goroutines\<close>

text \<open>
  Concurrent code is a step function: given the number of a goroutine, the shared state and the place
  where that goroutine stands, it lists the possible next shared states and places. An empty list means
  that the goroutine is blocked. A step is one access to shared memory, one channel operation or one
  section under a mutex. A system of goroutines takes steps of one goroutine at a time, in any order;
  \<open>reach\<close> collects the states it can get into. The locale \<open>thread_inv\<close> is the contract of an invariant of such a
  system; each concurrent component interprets it.
\<close>

type_synonym ('s, 'pc) thread_step = "nat \<Rightarrow> 's \<Rightarrow> 'pc \<Rightarrow> ('s \<times> 'pc) list"

inductive reach :: "('s, 'pc) thread_step \<Rightarrow> 's \<times> 'pc list \<Rightarrow> 's \<times> 'pc list \<Rightarrow> bool" for step init where
  reach_init: "reach step init init"
| reach_step: "reach step init (s, pcs) \<Longrightarrow> i < length pcs \<Longrightarrow> (s', pc') \<in> set (step i s (pcs ! i)) \<Longrightarrow>
    reach step init (s', pcs[i := pc'])"

definition blocked :: "('s, 'pc) thread_step \<Rightarrow> 's \<times> 'pc list \<Rightarrow> nat \<Rightarrow> bool" where
  "blocked step st i \<longleftrightarrow> step i (fst st) (snd st ! i) = []"

text \<open>A schedule names the goroutine and the choice of every step; running it gives a reachable state.\<close>

fun run_schedule :: "('s, 'pc) thread_step \<Rightarrow> (nat \<times> nat) list \<Rightarrow> 's \<times> 'pc list \<Rightarrow> ('s \<times> 'pc list) option" where
  "run_schedule step [] st = Some st"
| "run_schedule step ((i, k) # sch) (s, pcs) =
     (if i < length pcs \<and> k < length (step i s (pcs ! i)) then
        (let (s', pc') = step i s (pcs ! i) ! k in run_schedule step sch (s', pcs[i := pc']))
      else None)"

lemma run_schedule_reach:
  "reach step init st \<Longrightarrow> run_schedule step sch st = Some st' \<Longrightarrow> reach step init st'"
proof (induction step sch st rule: run_schedule.induct)
  case (2 step i k sch s pcs)
  then show ?case by (auto simp: Let_def split: if_splits prod.splits) (metis nth_mem reach_step)
qed simp

locale thread_inv =
  fixes step :: "('s, 'pc) thread_step"
    and init :: "'s \<times> 'pc list \<Rightarrow> bool"
    and Inv :: "'s \<times> 'pc list \<Rightarrow> bool"
  assumes inv_init: "init st \<Longrightarrow> Inv st"
    and inv_step: "Inv (s, pcs) \<Longrightarrow> i < length pcs \<Longrightarrow> (s', pc') \<in> set (step i s (pcs ! i)) \<Longrightarrow> Inv (s', pcs[i := pc'])"
begin

lemma inv_reach: "reach step st0 st \<Longrightarrow> init st0 \<Longrightarrow> Inv st"
  by (induction rule: reach.induct) (auto intro: inv_init inv_step)

end

lemma reach_length: "reach step init st \<Longrightarrow> length (snd st) = length (snd init)"
  by (induction rule: reach.induct) auto


subsection \<open>The places of all goroutines, as a multiset\<close>

lemma mset_at:
  assumes "i < length xs"
  obtains M where "mset xs = add_mset (xs ! i) M" "\<And>x. mset (xs[i := x]) = add_mset x M"
proof
  show "mset xs = add_mset (xs ! i) (mset xs - {#xs ! i#})" using assms by simp
  show "mset (xs[i := x]) = add_mset x (mset xs - {#xs ! i#})" for x using assms by (simp add: mset_update)
qed

lemma mset_two:
  assumes "i < length xs" "j < length xs" "i \<noteq> j"
  obtains M where "mset xs = add_mset (xs ! i) (add_mset (xs ! j) M)"
proof -
  have "mset xs = image_mset ((!) xs) (mset_set {0..<length xs})"
    by (metis map_nth mset_map mset_upt)
  also have "{0..<length xs} = insert i (insert j ({0..<length xs} - {i, j}))" using assms by auto
  also have "mset_set \<dots> = add_mset i (add_mset j (mset_set ({0..<length xs} - {i, j})))"
    using assms(3) by simp
  finally show thesis using that by simp
qed

end
