(* ===== verification/PathLock.thy ===== *)
theory PathLock
  imports Threads
begin

section \<open>Locks per path (\<open>internal/pathlock/lock.go\<close>)\<close>

text \<open>
  \<open>pathlock.Mutex\<close> for any number of goroutines, each of which locks a path, is in its section and unlocks
  it, once. \<open>sync.Map\<close> is the map \<open>pathLocks\<close>; mutexes are numbered in the order in which they are stored.
  A failed type assertion and the unlocking of an unlocked mutex end in \<open>Panicked\<close>.
\<close>

record pathMutex =
  pathLocks :: "string \<rightharpoonup> nat"
  mu_locked :: "nat \<Rightarrow> bool"
  mu_next :: nat

definition pathlock_New :: pathMutex where
  "pathlock_New = \<lparr>pathLocks = (\<lambda>_. None), mu_locked = (\<lambda>_. False), mu_next = 0\<rparr>"

datatype lock_pc = Lock_start string | Lock_mu string nat | Critical string | Released string | Panicked

definition LoadOrStore :: "pathMutex \<Rightarrow> string \<Rightarrow> nat \<times> pathMutex" where
  "LoadOrStore l path =
     (case pathLocks l path of
        Some mu \<Rightarrow> (mu, l)
      | None \<Rightarrow> (mu_next l, l\<lparr>pathLocks := (pathLocks l)(path \<mapsto> mu_next l), mu_next := mu_next l + 1\<rparr>))"

fun Lock_step :: "pathMutex \<Rightarrow> lock_pc \<Rightarrow> (pathMutex \<times> lock_pc) list" where
  "Lock_step l (Lock_start path) = (let (mu, l) = LoadOrStore l path in [(l, Lock_mu path mu)])"
| "Lock_step l (Lock_mu path mu) =
     (if mu_locked l mu then [] else [(l\<lparr>mu_locked := (mu_locked l)(mu := True)\<rparr>, Critical path)])"
| "Lock_step l _ = []"

fun Unlock_step :: "pathMutex \<Rightarrow> lock_pc \<Rightarrow> (pathMutex \<times> lock_pc) list" where
  "Unlock_step l (Critical path) =
     (case pathLocks l path of
        None \<Rightarrow> [(l, Panicked)]
      | Some mu \<Rightarrow>
          if \<not> mu_locked l mu then [(l, Panicked)]
          else [(l\<lparr>mu_locked := (mu_locked l)(mu := False)\<rparr>, Released path)])"
| "Unlock_step l _ = []"

definition lock_step :: "(pathMutex, lock_pc) thread_step" where
  "lock_step i l pc = Lock_step l pc @ Unlock_step l pc"

definition lock_init :: "pathMutex \<times> lock_pc list \<Rightarrow> bool" where
  "lock_init st \<longleftrightarrow> fst st = pathlock_New \<and> list_all (\<lambda>pc. case pc of Lock_start _ \<Rightarrow> True | _ \<Rightarrow> False) (snd st)"

text \<open>Different paths have different mutexes, and a mutex is locked when exactly one goroutine is in the section of its path.\<close>

definition lock_inv :: "pathMutex \<times> lock_pc list \<Rightarrow> bool" where
  "lock_inv st \<longleftrightarrow>
     (case st of (l, pcs) \<Rightarrow>
        Panicked \<notin># mset pcs
      \<and> (\<forall>p m. Lock_mu p m \<in># mset pcs \<longrightarrow> pathLocks l p = Some m)
      \<and> (\<forall>p. Multiset.count (mset pcs) (Critical p)
             = (case pathLocks l p of Some m \<Rightarrow> if mu_locked l m then 1 else 0 | None \<Rightarrow> 0))
      \<and> inj_on (pathLocks l) (dom (pathLocks l))
      \<and> (\<forall>p m. pathLocks l p = Some m \<longrightarrow> m < mu_next l) \<and> (\<forall>m. mu_locked l m \<longrightarrow> m < mu_next l))"

lemma lock_step_inv:
  assumes "lock_inv (l, pcs)" "i < length pcs" "(l', pc') \<in> set (lock_step i l (pcs ! i))"
  shows "lock_inv (l', pcs[i := pc'])"
proof -
  obtain M where M: "mset pcs = add_mset (pcs ! i) M" "\<And>x. mset (pcs[i := x]) = add_mset x M"
    using mset_at [OF assms(2)] by metis
  note inv = assms(1) [unfolded lock_inv_def prod.case M(1)]
  have inj: "pathLocks l p = Some m \<Longrightarrow> pathLocks l q = Some m \<Longrightarrow> p = q" for p q m
    using inv by (auto simp: inj_on_def dom_def)
  have counts: "Multiset.count (add_mset (pcs ! i) M) (Critical q)
      = (case pathLocks l q of Some k \<Rightarrow> if mu_locked l k then 1 else 0 | None \<Rightarrow> 0)" for q using inv by blast
  have fresh: "pathLocks l p \<noteq> Some (mu_next l)" "pathLocks l p = Some m \<Longrightarrow> m < Suc (mu_next l)" for p m
    using inv by (auto intro: less_SucI)
  show ?thesis
  proof (cases "pcs ! i")
    case (Lock_start p)
    then show ?thesis
      unfolding lock_inv_def prod.case M(2) using inv assms(3) fresh
      by (auto simp: lock_step_def LoadOrStore_def inj_on_def dom_def split: option.splits if_splits)
  next
    case (Lock_mu p m)
    have pm: "pathLocks l p = Some m" using inv Lock_mu by (metis union_single_eq_member)
    have other: "pathLocks l q = Some m \<Longrightarrow> q = p" for q using inj pm by blast
    have new: "\<not> mu_locked l m" "l' = l\<lparr>mu_locked := (mu_locked l)(m := True)\<rparr>" "pc' = Critical p"
      using assms(3) Lock_mu by (auto simp: lock_step_def split: if_splits)
    have "Multiset.count (add_mset (Critical p) M) (Critical q)
        = (case pathLocks l q of Some k \<Rightarrow> if mu_locked l' k then 1 else 0 | None \<Rightarrow> 0)" for q
    proof (cases "q = p")
      case True
      then show ?thesis using counts [of p] pm new Lock_mu by simp
    next
      case False
      then show ?thesis using counts [of q] other [of q] Lock_mu by (auto simp: new split: option.splits)
    qed
    then show ?thesis
      unfolding lock_inv_def prod.case M(2) using inv pm Lock_mu by (auto simp: new)
  next
    case (Critical p)
    obtain m where pm: "pathLocks l p = Some m" "mu_locked l m" using counts [of p] Critical by (auto split: option.splits if_splits)
    have other: "pathLocks l q = Some m \<Longrightarrow> q = p" for q using inj pm by blast
    have new: "l' = l\<lparr>mu_locked := (mu_locked l)(m := False)\<rparr>" "pc' = Released p"
      using assms(3) Critical pm by (auto simp: lock_step_def)
    have "Multiset.count (add_mset (Released p) M) (Critical q)
        = (case pathLocks l q of Some k \<Rightarrow> if mu_locked l' k then 1 else 0 | None \<Rightarrow> 0)" for q
    proof (cases "q = p")
      case True
      then show ?thesis using counts [of p] pm new Critical by simp
    next
      case False
      then show ?thesis using counts [of q] other [of q] Critical by (auto simp: new split: option.splits)
    qed
    then show ?thesis
      unfolding lock_inv_def prod.case M(2) using inv Critical by (auto simp: new)
  qed (use assms(3) in \<open>simp_all add: lock_step_def\<close>)
qed

interpretation locks: thread_inv lock_step lock_init lock_inv
proof (unfold_locales, goal_cases)
  case (1 st)
  have "Multiset.count (mset (snd st)) (Critical p) = 0" for p
    using 1 by (auto simp: lock_init_def list_all_iff not_in_iff [symmetric])
  with 1 show ?case by (cases st) (auto simp: lock_init_def lock_inv_def pathlock_New_def list_all_iff)
next
  case 2
  then show ?case by (rule lock_step_inv)
qed

text \<open>
  C39: locking a path is exclusive, for any number of goroutines and any interleaving: no two goroutines are in the section
  of the same path at once; unlocking never panics; and a goroutine is blocked in \<open>Lock\<close> only while another one is in the
  section of that same path, so different paths never block each other.
\<close>

theorem pathlock_exclusive:
  assumes "reach lock_step st0 (l, pcs)" "lock_init st0" "i < length pcs"
  shows "(\<forall>j<length pcs. j \<noteq> i \<and> pcs ! i = Critical p \<longrightarrow> pcs ! j \<noteq> Critical p)
     \<and> pcs ! i \<noteq> Panicked
     \<and> (pcs ! i = Lock_mu p m \<and> blocked lock_step (l, pcs) i \<longrightarrow> (\<exists>j<length pcs. pcs ! j = Critical p))"
proof (intro conjI allI impI)
  have inv: "lock_inv (l, pcs)" using locks.inv_reach [OF assms(1,2)] .
  have one: "Multiset.count (mset pcs) (Critical p) \<le> 1" using inv by (auto simp: lock_inv_def split: option.splits)
  have mem: "pcs ! i \<in> set pcs" using assms(3) by simp
  then show "pcs ! i \<noteq> Panicked" using inv by (auto simp: lock_inv_def)
  show "pcs ! j \<noteq> Critical p" if j: "j < length pcs" "j \<noteq> i \<and> pcs ! i = Critical p" for j
  proof
    assume c: "pcs ! j = Critical p"
    obtain M where M: "mset pcs = add_mset (pcs ! i) (add_mset (pcs ! j) M)" by (rule mset_two [OF assms(3) j(1)]) (use j in auto)
    show False using one M j c by simp
  qed
  assume b: "pcs ! i = Lock_mu p m \<and> blocked lock_step (l, pcs) i"
  then have "mu_locked l m" by (auto simp: blocked_def lock_step_def split: if_splits)
  moreover have "pathLocks l p = Some m" using inv b mem by (auto simp: lock_inv_def)
  ultimately have "Multiset.count (mset pcs) (Critical p) = 1" using inv by (auto simp: lock_inv_def)
  then have "Critical p \<in># mset pcs" by (metis count_eq_zero_iff zero_neq_one)
  then show "\<exists>j<length pcs. pcs ! j = Critical p" by (auto simp: in_set_conv_nth)
qed

theorem pathlock_exclusive_witness:
  "\<exists>l. reach lock_step (pathlock_New, [Lock_start ''a'', Lock_start ''a'', Lock_start ''b''])
         (l, [Critical ''a'', Lock_mu ''a'' 0, Critical ''b''])
     \<and> blocked lock_step (l, [Critical ''a'', Lock_mu ''a'' 0, Critical ''b'']) 1
     \<and> (\<exists>j<3. [Critical ''a'', Lock_mu ''a'' 0, Critical ''b''] ! j = Critical ''a'')"
proof -
  let ?l = "\<lparr>pathLocks = [''a'' \<mapsto> 0, ''b'' \<mapsto> 1], mu_locked = (\<lambda>_. False)(0 := True, 1 := True), mu_next = 2\<rparr>"
  have "run_schedule lock_step [(0, 0), (0, 0), (1, 0), (2, 0), (2, 0)] (pathlock_New, [Lock_start ''a'', Lock_start ''a'', Lock_start ''b''])
      = Some (?l, [Critical ''a'', Lock_mu ''a'' 0, Critical ''b''])"
    by (simp add: lock_step_def LoadOrStore_def pathlock_New_def)
  then have r: "reach lock_step (pathlock_New, [Lock_start ''a'', Lock_start ''a'', Lock_start ''b'']) (?l, [Critical ''a'', Lock_mu ''a'' 0, Critical ''b''])"
    by (rule run_schedule_reach [OF reach_init])
  have b: "blocked lock_step (?l, [Critical ''a'', Lock_mu ''a'' 0, Critical ''b'']) 1"
    by (simp add: blocked_def lock_step_def)
  have "lock_init (pathlock_New, [Lock_start ''a'', Lock_start ''a'', Lock_start ''b''])" by (simp add: lock_init_def)
  from pathlock_exclusive [OF r this, of 1 "''a''" 0] b r show ?thesis by (auto simp: numeral_3_eq_3)
qed

end
