(* ===== verification/Tar_Pool.thy ===== *)
theory Tar_Pool
  imports Threads
begin

section \<open>Buffer pools (\<open>tar/bufferpool.go\<close>)\<close>

text \<open>
  \<open>bufferPool\<close> with its atomic counter and its buffered channel, for any number of goroutines that take
  buffers with \<open>Wait\<close> and give them back with \<open>Done\<close>. Buffers are numbered in the order of their
  allocation; \<open>next_buffer\<close> is the number of buffers ever allocated. The channel is a list whose head is
  received next.
\<close>

record bufferPool =
  pool_count :: int
  pool_size :: nat
  pool_cap :: nat
  pool_buffers :: "nat list"
  next_buffer :: nat

text \<open>
  Where a goroutine stands: outside, at the \<open>select\<close> of \<open>Wait\<close>, at the load and at the compare-and-swap of
  \<open>addBuffer\<close>, at its send with the new buffer, at the last receive of \<open>Wait\<close>, or with a buffer in hand,
  before \<open>Done\<close>.
\<close>

datatype pool_pc = Idle | At_Wait | At_Load | At_CAS int | At_Send nat | At_Recv | Holding nat

definition send_buffer :: "bufferPool \<Rightarrow> nat \<Rightarrow> bufferPool list" where
  "send_buffer p b = (if length (pool_buffers p) < pool_cap p then [p\<lparr>pool_buffers := pool_buffers p @ [b]\<rparr>] else [])"

definition addBuffer_load :: "bufferPool \<Rightarrow> pool_pc" where
  "addBuffer_load p = (if pool_count p = int (pool_cap p) then At_Recv else At_CAS (pool_count p))"

definition addBuffer_cas :: "bufferPool \<Rightarrow> int \<Rightarrow> bufferPool \<times> pool_pc" where
  "addBuffer_cas p c =
     (if pool_count p = c then (p\<lparr>pool_count := int64 (c + 1), next_buffer := next_buffer p + 1\<rparr>, At_Send (next_buffer p))
      else (p, At_Load))"

fun pool_step :: "(bufferPool, pool_pc) thread_step" where
  "pool_step i p Idle = [(p, At_Wait)]"
| "pool_step i p At_Wait =
     (case pool_buffers p of b # bs \<Rightarrow> [(p\<lparr>pool_buffers := bs\<rparr>, Holding b)] | [] \<Rightarrow> [(p, At_Load)])"
| "pool_step i p At_Load = [(p, addBuffer_load p)]"
| "pool_step i p (At_CAS c) = [addBuffer_cas p c]"
| "pool_step i p (At_Send b) = map (\<lambda>p. (p, At_Recv)) (send_buffer p b)"
| "pool_step i p At_Recv = (case pool_buffers p of b # bs \<Rightarrow> [(p\<lparr>pool_buffers := bs\<rparr>, Holding b)] | [] \<Rightarrow> [])"
| "pool_step i p (Holding b) = map (\<lambda>p. (p, Idle)) (send_buffer p b)"

text \<open>\<open>newBufferPool\<close> calls \<open>addBuffer\<close> before anyone else has the pool: a load, a swap and a send.\<close>

definition newBufferPool :: "nat \<Rightarrow> nat \<Rightarrow> bufferPool option" where
  "newBufferPool bufferSize maxBuffers =
     (let maxBuffers = (if maxBuffers = 0 then 1 else maxBuffers);
          p = \<lparr>pool_count = 0, pool_size = bufferSize, pool_cap = maxBuffers, pool_buffers = [], next_buffer = 0\<rparr>
      in case run_schedule pool_step [(0, 0), (0, 0), (0, 0)] (p, [At_Load]) of
           Some (p, _) \<Rightarrow> Some p | None \<Rightarrow> None)"

lemma newBufferPool_eq:
  "newBufferPool sz n = Some \<lparr>pool_count = 1, pool_size = sz, pool_cap = max 1 n, pool_buffers = [0], next_buffer = 1\<rparr>"
  by (cases "n = 0") (simp_all add: newBufferPool_def addBuffer_load_def addBuffer_cas_def send_buffer_def Let_def max_def max_int64_def)


subsection \<open>The invariant\<close>

text \<open>
  Every buffer ever allocated is in exactly one place: the channel, the hands of one goroutine, or on its
  way into the channel. The counter is their number, between one and the capacity.
\<close>

fun held :: "pool_pc \<Rightarrow> nat multiset" where
  "held (At_Send b) = {#b#}"
| "held (Holding b) = {#b#}"
| "held _ = {#}"

definition places :: "bufferPool \<Rightarrow> pool_pc multiset \<Rightarrow> nat multiset" where
  "places p M = mset (pool_buffers p) + (\<Sum>pc\<in>#M. held pc)"

definition pool_inv :: "bufferPool \<times> pool_pc list \<Rightarrow> bool" where
  "pool_inv st \<longleftrightarrow>
     (case st of (p, pcs) \<Rightarrow>
        places p (mset pcs) = mset [0..<next_buffer p] \<and> pool_count p = int (next_buffer p)
      \<and> At_CAS (int (pool_cap p)) \<notin># mset pcs
      \<and> 1 \<le> next_buffer p \<and> next_buffer p \<le> pool_cap p \<and> int (pool_cap p) \<le> max_int64)"

definition pool_init :: "nat \<Rightarrow> nat \<Rightarrow> bufferPool \<times> pool_pc list \<Rightarrow> bool" where
  "pool_init sz n st \<longleftrightarrow> newBufferPool sz n = Some (fst st) \<and> int n \<le> max_int64 \<and> set (snd st) \<subseteq> {Idle}"

lemma held_sum_Idle: "set pcs \<subseteq> {Idle} \<Longrightarrow> (\<Sum>pc\<in>#mset pcs. held pc) = {#}"
  by (induction pcs) auto

lemma ids_Suc [simp]: "mset_set {0..<Suc n} = add_mset n (mset_set {0..<n})"
  by (simp add: atLeast0_lessThan_Suc)

lemma pool_step_inv:
  assumes "pool_inv (p, pcs)" "i < length pcs" "(p', pc') \<in> set (pool_step i p (pcs ! i))"
  shows "pool_inv (p', pcs[i := pc'])"
proof -
  obtain M where M: "mset pcs = add_mset (pcs ! i) M" "\<And>x. mset (pcs[i := x]) = add_mset x M"
    using mset_at [OF assms(2)] by metis
  note inv = assms(1) [unfolded pool_inv_def prod.case M(1)]
  show ?thesis
    unfolding pool_inv_def prod.case M(2) using inv assms(3)
    by (cases "pcs ! i"; cases "pool_buffers p")
      (auto simp: places_def add_mset_commute addBuffer_load_def addBuffer_cas_def send_buffer_def split: list.splits if_splits)
qed

interpretation pool: thread_inv pool_step "pool_init sz n" pool_inv
proof (unfold_locales, goal_cases)
  case (1 st)
  then show ?case
    using held_sum_Idle [of "snd st"]
    by (cases st) (auto simp: pool_init_def newBufferPool_eq pool_inv_def places_def max_int64_def)
next
  case 2
  then show ?case by (rule pool_step_inv)
qed

lemma pool_cap_const: "reach pool_step st0 st \<Longrightarrow> pool_cap (fst st) = pool_cap (fst st0) \<and> pool_size (fst st) = pool_size (fst st0)"
proof (induction rule: reach.induct)
  case (reach_step s pcs i s' pc')
  then show ?case
    by (cases "pcs ! i") (auto simp: addBuffer_cas_def send_buffer_def split: list.splits if_splits)
qed simp

lemma pool_places:
  assumes "reach pool_step st0 st" "pool_init sz n st0"
  shows "places (fst st) (mset (snd st)) = mset [0..<next_buffer (fst st)]" "pool_cap (fst st) = max 1 n" "pool_size (fst st) = sz"
    "1 \<le> next_buffer (fst st)" "next_buffer (fst st) \<le> max 1 n"
proof -
  have "fst st0 = \<lparr>pool_count = 1, pool_size = sz, pool_cap = max 1 n, pool_buffers = [0], next_buffer = 1\<rparr>"
    using assms(2) by (simp add: pool_init_def newBufferPool_eq)
  then show "places (fst st) (mset (snd st)) = mset [0..<next_buffer (fst st)]" "pool_cap (fst st) = max 1 n" "pool_size (fst st) = sz"
    "1 \<le> next_buffer (fst st)" "next_buffer (fst st) \<le> max 1 n"
    using pool.inv_reach [OF assms] pool_cap_const [OF assms(1)] by (auto simp: pool_inv_def split: prod.splits)
qed

lemma held_sum_empty: "(\<Sum>pc\<in>#mset pcs. held pc) \<noteq> {#} \<Longrightarrow> \<exists>j b. j < length pcs \<and> pcs ! j \<in> {Holding b, At_Send b}"
proof -
  assume "(\<Sum>pc\<in>#mset pcs. held pc) \<noteq> {#}"
  then obtain pc where "pc \<in> set pcs" "held pc \<noteq> {#}" by (induction pcs) auto
  then obtain j where "j < length pcs" "held (pcs ! j) \<noteq> {#}" by (auto simp: in_set_conv_nth)
  then show ?thesis by (cases "pcs ! j") auto
qed

text \<open>A goroutine with a buffer in hand finds room in the channel, and its buffer is nowhere else.\<close>

lemma pool_held:
  assumes "reach pool_step st0 (p, pcs)" "pool_init sz n st0" "i < length pcs" "pcs ! i \<in> {Holding b, At_Send b}"
  shows "b \<notin> set (pool_buffers p)" "\<not> blocked pool_step (p, pcs) i"
proof -
  note pl = pool_places [OF assms(1,2), unfolded fst_conv snd_conv places_def]
  have size: "length (pool_buffers p) + size (\<Sum>pc\<in>#mset pcs. held pc) = next_buffer p"
    using arg_cong [OF pl(1), of size] by simp
  have "Multiset.count (mset (pool_buffers p) + (\<Sum>pc\<in>#mset pcs. held pc)) b \<le> 1"
    unfolding pl(1) by (simp add: count_mset_set')
  moreover obtain M where M: "mset pcs = add_mset (pcs ! i) M" by (rule mset_at [OF assms(3)])
  then have h: "(\<Sum>pc\<in>#mset pcs. held pc) = add_mset b (\<Sum>pc\<in>#M. held pc)" using assms(4) by auto
  ultimately have "Multiset.count (mset (pool_buffers p)) b = 0" by simp
  then show "b \<notin> set (pool_buffers p)" by (metis count_eq_zero_iff set_mset_mset)
  show "\<not> blocked pool_step (p, pcs) i" using assms(4) pl(2,5) size h by (auto simp: blocked_def send_buffer_def)
qed


subsection \<open>Properties\<close>

text \<open>
  C35: the pool is bounded and exclusive, for any number of goroutines and any interleaving. At most the given number of
  buffers (one if zero was asked for) is ever allocated; no two goroutines hold the same buffer, and a buffer that is held
  is not in the channel; a goroutine that gives a buffer back, or adds one, is never blocked.
\<close>

theorem bufferPool_safe:
  assumes "reach pool_step st0 (p, pcs)" "pool_init sz n st0"
  shows "next_buffer p \<le> max 1 n \<and> length (pool_buffers p) \<le> max 1 n
     \<and> (\<forall>i j b. i < length pcs \<and> j < length pcs \<and> i \<noteq> j \<and> pcs ! i = Holding b \<longrightarrow> pcs ! j \<noteq> Holding b)
     \<and> (\<forall>i b. i < length pcs \<and> pcs ! i = Holding b \<longrightarrow> b \<notin> set (pool_buffers p))
     \<and> (\<forall>i b. i < length pcs \<and> pcs ! i \<in> {Holding b, At_Send b} \<longrightarrow> \<not> blocked pool_step (p, pcs) i)"
proof (intro conjI allI impI)
  note pl = pool_places [OF assms, unfolded fst_conv snd_conv places_def]
  have distinct: "Multiset.count (mset (pool_buffers p) + (\<Sum>pc\<in>#mset pcs. held pc)) b \<le> 1" for b
    unfolding pl(1) by (simp add: count_mset_set')
  have size: "length (pool_buffers p) + size (\<Sum>pc\<in>#mset pcs. held pc) = next_buffer p"
    using arg_cong [OF pl(1), of size] by simp
  show "next_buffer p \<le> max 1 n" "length (pool_buffers p) \<le> max 1 n" using pl(5) size by linarith+
  show "b \<notin> set (pool_buffers p)" if "i < length pcs \<and> pcs ! i = Holding b" for i b using pool_held [OF assms] that by blast
  show "\<not> blocked pool_step (p, pcs) i" if "i < length pcs \<and> pcs ! i \<in> {Holding b, At_Send b}" for i b
    using pool_held [OF assms] that by blast
  show "pcs ! j \<noteq> Holding b" if "i < length pcs \<and> j < length pcs \<and> i \<noteq> j \<and> pcs ! i = Holding b" for i j b
  proof
    assume j: "pcs ! j = Holding b"
    have ij: "i < length pcs" "j < length pcs" "i \<noteq> j" using that by auto
    obtain M where M: "mset pcs = add_mset (pcs ! i) (add_mset (pcs ! j) M)" by (rule mset_two [OF ij])
    show False using distinct [of b] that j by (simp add: M)
  qed
qed

text \<open>
  C36: no buffer is lost. When a goroutine is blocked in \<open>Wait\<close>, another one holds a buffer, or is about to put one into
  the channel, and is not blocked itself; so the goroutines are never all stuck, and as soon as a buffer is given
  back the waiting goroutine can go on.
\<close>

theorem bufferPool_progress:
  assumes "reach pool_step st0 (p, pcs)" "pool_init sz n st0" "i < length pcs" "blocked pool_step (p, pcs) i"
  shows "\<exists>j b. j < length pcs \<and> pcs ! j \<in> {Holding b, At_Send b} \<and> \<not> blocked pool_step (p, pcs) j"
proof -
  note pl = pool_places [OF assms(1,2), unfolded fst_conv snd_conv places_def]
  have "pool_buffers p = [] \<or> (\<exists>b. pcs ! i = At_Send b \<or> pcs ! i = Holding b)"
    using assms(4) by (cases "pcs ! i") (auto simp: blocked_def split: list.splits)
  moreover have "\<not> (pcs ! i = At_Send b \<or> pcs ! i = Holding b)" for b
    using pool_held(2) [OF assms(1-3), of b] assms(4) by auto
  ultimately have "pool_buffers p = []" by blast
  then have "size (\<Sum>pc\<in>#mset pcs. held pc) = next_buffer p" using arg_cong [OF pl(1), of size] by simp
  then have "(\<Sum>pc\<in>#mset pcs. held pc) \<noteq> {#}" using pl(4) by fastforce
  then show ?thesis using held_sum_empty pool_held(2) [OF assms(1,2)] by metis
qed

text \<open>Two goroutines share a pool of one buffer: the second one waits for the first.\<close>

definition one_buffer :: bufferPool where
  "one_buffer = \<lparr>pool_count = 1, pool_size = 4, pool_cap = 1, pool_buffers = [0], next_buffer = 1\<rparr>"

lemma one_buffer_run:
  "pool_init 4 1 (one_buffer, [Idle, Idle])"
  "reach pool_step (one_buffer, [Idle, Idle]) (one_buffer\<lparr>pool_buffers := []\<rparr>, [Holding 0, At_Recv])"
proof -
  show "pool_init 4 1 (one_buffer, [Idle, Idle])"
    by (simp add: pool_init_def newBufferPool_eq one_buffer_def max_int64_def)
  have "run_schedule pool_step [(0, 0), (0, 0), (1, 0), (1, 0), (1, 0)] (one_buffer, [Idle, Idle])
      = Some (one_buffer\<lparr>pool_buffers := []\<rparr>, [Holding 0, At_Recv])"
    by (simp add: one_buffer_def addBuffer_load_def)
  then show "reach pool_step (one_buffer, [Idle, Idle]) (one_buffer\<lparr>pool_buffers := []\<rparr>, [Holding 0, At_Recv])"
    by (rule run_schedule_reach [OF reach_init])
qed

theorem bufferPool_safe_witness:
  "next_buffer (one_buffer\<lparr>pool_buffers := []\<rparr>) \<le> 1
   \<and> \<not> blocked pool_step (one_buffer\<lparr>pool_buffers := []\<rparr>, [Holding 0, At_Recv]) 0"
  using bufferPool_safe [OF one_buffer_run(2,1)] by auto

theorem bufferPool_progress_witness:
  "blocked pool_step (one_buffer\<lparr>pool_buffers := []\<rparr>, [Holding 0, At_Recv]) 1
   \<and> (\<exists>j b. j < 2 \<and> [Holding 0, At_Recv] ! j \<in> {Holding b, At_Send b}
        \<and> \<not> blocked pool_step (one_buffer\<lparr>pool_buffers := []\<rparr>, [Holding 0, At_Recv]) j)"
proof -
  have b: "blocked pool_step (one_buffer\<lparr>pool_buffers := []\<rparr>, [Holding 0, At_Recv]) 1"
    by (simp add: blocked_def)
  show ?thesis using bufferPool_progress [OF one_buffer_run(2,1) _ b] b by (simp add: numeral_2_eq_2)
qed

end
