(* ===== verification/Tar_Pubsub.thy ===== *)
theory Tar_Pubsub
  imports Threads
begin

section \<open>Announcing unpacked files (\<open>tar/pubsub.go\<close>)\<close>

text \<open>
  \<open>pubsub\<close> for any number of goroutines, each of which makes one call of \<open>Emit\<close> or \<open>Wait\<close>, or cancels the
  context the \<open>pubsub\<close> was made with. The sections under the mutex are one step each. A context made by
  \<open>context.WithCancel\<close> is the key it waits for with a fresh number, and its \<open>CancelFunc\<close> is the context itself;
  \<open>ps_cancelled\<close> holds the contexts whose function was called.
\<close>

type_synonym ctx = "string \<times> nat"

record pubsub =
  ps_subscribers :: "string \<Rightarrow> ctx list"
  ps_visited :: "string \<Rightarrow> bool"
  ps_ctx_done :: bool
  ps_cancelled :: "ctx \<Rightarrow> bool"
  ps_next :: nat

definition newPubsub :: pubsub where
  "newPubsub = \<lparr>ps_subscribers = (\<lambda>_. []), ps_visited = (\<lambda>_. False), ps_ctx_done = False, ps_cancelled = (\<lambda>_. False), ps_next = 0\<rparr>"

datatype ps_pc =
    Emit_start string | Emit_lock string | Emit_cancel string "ctx list" | Emitted string
  | Wait_start string | Wait_lock string | Wait_block string ctx | Waited string
  | Cancel_ctx | Ctx_cancelled

fun Emit_step :: "pubsub \<Rightarrow> ps_pc \<Rightarrow> (pubsub \<times> ps_pc) list" where
  "Emit_step ps (Emit_start key) = [(ps, if ps_visited ps key then Emitted key else Emit_lock key)]"
| "Emit_step ps (Emit_lock key) =
     [(ps\<lparr>ps_visited := (ps_visited ps)(key := True), ps_subscribers := (ps_subscribers ps)(key := [])\<rparr>,
       Emit_cancel key (ps_subscribers ps key))]"
| "Emit_step ps (Emit_cancel key (cancel # funcs)) =
     [(ps\<lparr>ps_cancelled := (ps_cancelled ps)(cancel := True)\<rparr>, Emit_cancel key funcs)]"
| "Emit_step ps (Emit_cancel key []) = [(ps, Emitted key)]"
| "Emit_step ps _ = []"

fun Wait_step :: "pubsub \<Rightarrow> ps_pc \<Rightarrow> (pubsub \<times> ps_pc) list" where
  "Wait_step ps (Wait_start key) = [(ps, if ps_ctx_done ps then Waited key else Wait_lock key)]"
| "Wait_step ps (Wait_lock key) =
     (if ps_visited ps key then [(ps, Waited key)]
      else
        (let ctx = (key, ps_next ps) in
         [(ps\<lparr>ps_subscribers := (ps_subscribers ps)(key := ps_subscribers ps key @ [ctx]), ps_next := ps_next ps + 1\<rparr>,
           Wait_block key ctx)]))"
| "Wait_step ps (Wait_block key ctx) = (if ps_ctx_done ps \<or> ps_cancelled ps ctx then [(ps, Waited key)] else [])"
| "Wait_step ps _ = []"

fun cancel_step :: "pubsub \<Rightarrow> ps_pc \<Rightarrow> (pubsub \<times> ps_pc) list" where
  "cancel_step ps Cancel_ctx = [(ps\<lparr>ps_ctx_done := True\<rparr>, Ctx_cancelled)]"
| "cancel_step ps _ = []"

definition ps_step :: "(pubsub, ps_pc) thread_step" where
  "ps_step i ps pc = Emit_step ps pc @ Wait_step ps pc @ cancel_step ps pc"

definition ps_init :: "pubsub \<times> ps_pc list \<Rightarrow> bool" where
  "ps_init st \<longleftrightarrow> fst st = newPubsub
     \<and> list_all (\<lambda>pc. case pc of Emit_start _ \<Rightarrow> True | Wait_start _ \<Rightarrow> True | Cancel_ctx \<Rightarrow> True | _ \<Rightarrow> False) (snd st)"


subsection \<open>The invariant\<close>

text \<open>
  A goroutine that waits for a key is among the subscribers until the key is visited; from then on its
  context is cancelled, or a goroutine in \<open>Emit\<close> still has it on its list. A key is visited only by \<open>Emit\<close>.
\<close>

definition emits :: "string \<Rightarrow> ps_pc \<Rightarrow> bool" where
  "emits k pc \<longleftrightarrow> (case pc of Emitted k' \<Rightarrow> k' = k | Emit_cancel k' _ \<Rightarrow> k' = k | _ \<Rightarrow> False)"

lemma emits_simps [simp]: "emits k (Emitted k') \<longleftrightarrow> k' = k" "emits k (Emit_cancel k' cs) \<longleftrightarrow> k' = k"
  "\<not> emits k (Emit_start k')" "\<not> emits k (Emit_lock k')" "\<not> emits k (Wait_start k')" "\<not> emits k (Wait_lock k')"
  "\<not> emits k (Wait_block k' c)" "\<not> emits k (Waited k')" "\<not> emits k Cancel_ctx" "\<not> emits k Ctx_cancelled"
  by (simp_all add: emits_def)

definition key_emitted :: "ps_pc multiset \<Rightarrow> string \<Rightarrow> bool" where
  "key_emitted M k \<longleftrightarrow> (\<exists>pc. pc \<in># M \<and> emits k pc)"

definition pc_ok :: "pubsub \<Rightarrow> ps_pc multiset \<Rightarrow> ps_pc \<Rightarrow> bool" where
  "pc_ok ps M pc \<longleftrightarrow>
     (case pc of
        Wait_block k c \<Rightarrow> fst c = k \<and>
          (if ps_visited ps k then ps_cancelled ps c \<or> (\<exists>cs. Emit_cancel k cs \<in># M \<and> c \<in> set cs)
           else c \<in> set (ps_subscribers ps k))
      | Emit_cancel k cs \<Rightarrow> ps_visited ps k \<and> (\<forall>c\<in>set cs. fst c = k)
      | Emitted k \<Rightarrow> ps_visited ps k
      | Waited k \<Rightarrow> ps_visited ps k \<or> ps_ctx_done ps
      | _ \<Rightarrow> True)"

definition ps_inv :: "pubsub \<times> ps_pc list \<Rightarrow> bool" where
  "ps_inv st \<longleftrightarrow>
     (case st of (ps, pcs) \<Rightarrow>
        (\<forall>pc\<in>#mset pcs. pc_ok ps (mset pcs) pc)
      \<and> (\<forall>k. ps_visited ps k \<longrightarrow> ps_subscribers ps k = [] \<and> key_emitted (mset pcs) k)
      \<and> (\<forall>k. \<forall>c\<in>set (ps_subscribers ps k). fst c = k)
      \<and> (\<forall>c. ps_cancelled ps c \<longrightarrow> ps_visited ps (fst c)))"

lemma ps_step_cases:
  obtains k where "pc = Emit_start k" | k where "pc = Emit_lock k" | k where "pc = Emit_cancel k []"
  | k c cs where "pc = Emit_cancel k (c # cs)" | k where "pc = Emitted k" | k where "pc = Wait_start k"
  | k where "pc = Wait_lock k" | k c where "pc = Wait_block k c" | k where "pc = Waited k" | "pc = Cancel_ctx" | "pc = Ctx_cancelled"
  by (cases pc; metis list.exhaust)

lemma pc_ok_simps [simp]:
  "pc_ok ps M (Wait_block k c) \<longleftrightarrow> fst c = k \<and>
     (if ps_visited ps k then ps_cancelled ps c \<or> (\<exists>cs. Emit_cancel k cs \<in># M \<and> c \<in> set cs) else c \<in> set (ps_subscribers ps k))"
  "pc_ok ps M (Emit_cancel k cs) \<longleftrightarrow> ps_visited ps k \<and> (\<forall>c\<in>set cs. fst c = k)"
  "pc_ok ps M (Emitted k) \<longleftrightarrow> ps_visited ps k"
  "pc_ok ps M (Waited k) \<longleftrightarrow> ps_visited ps k \<or> ps_ctx_done ps"
  "pc_ok ps M (Emit_start k)" "pc_ok ps M (Emit_lock k)" "pc_ok ps M (Wait_start k)" "pc_ok ps M (Wait_lock k)"
  "pc_ok ps M Cancel_ctx" "pc_ok ps M Ctx_cancelled"
  by (simp_all add: pc_ok_def)

text \<open>A step of one goroutine keeps the others in order when it wakes or hands on the contexts they wait for.\<close>

lemma pc_ok_mono:
  assumes "pc_ok ps N pc"
    and "\<And>k. ps_visited ps k \<Longrightarrow> ps_visited ps' k" "ps_ctx_done ps \<Longrightarrow> ps_ctx_done ps'" "\<And>c. ps_cancelled ps c \<Longrightarrow> ps_cancelled ps' c"
    and "\<And>k c. c \<in> set (ps_subscribers ps k) \<Longrightarrow> \<not> ps_visited ps k \<Longrightarrow>
      (if ps_visited ps' k then \<exists>cs. Emit_cancel k cs \<in># N' \<and> c \<in> set cs else c \<in> set (ps_subscribers ps' k))"
    and "\<And>k c cs. Emit_cancel k cs \<in># N \<Longrightarrow> c \<in> set cs \<Longrightarrow> ps_cancelled ps' c \<or> (\<exists>cs. Emit_cancel k cs \<in># N' \<and> c \<in> set cs)"
  shows "pc_ok ps' N' pc"
proof (cases pc)
  case (Wait_block k c)
  show ?thesis
  proof (cases "ps_visited ps k")
    case True
    then show ?thesis using Wait_block assms(1,2) assms(4) [of c] assms(6) [of k _ c] by auto
  next
    case False
    then show ?thesis using Wait_block assms(1) assms(5) [of c k] by (auto split: if_splits)
  qed
qed (use assms(1-3) in auto)

lemma ps_inv_step:
  assumes inv: "ps_inv (ps, pcs)" and i: "i < length pcs"
    and mono: "\<And>k. ps_visited ps k \<Longrightarrow> ps_visited ps' k" "ps_ctx_done ps \<Longrightarrow> ps_ctx_done ps'" "\<And>c. ps_cancelled ps c \<Longrightarrow> ps_cancelled ps' c"
    and subs: "\<And>k c. c \<in> set (ps_subscribers ps k) \<Longrightarrow> \<not> ps_visited ps k \<Longrightarrow>
      (if ps_visited ps' k then \<exists>cs. pc' = Emit_cancel k cs \<and> c \<in> set cs else c \<in> set (ps_subscribers ps' k))"
    and lists: "\<And>k c cs. pcs ! i = Emit_cancel k cs \<Longrightarrow> c \<in> set cs \<Longrightarrow> ps_cancelled ps' c \<or> (\<exists>cs. pc' = Emit_cancel k cs \<and> c \<in> set cs)"
    and emit: "\<And>k. emits k (pcs ! i) \<Longrightarrow> emits k pc'"
    and new: "\<And>M. pc_ok ps' (add_mset pc' M) pc'"
    and shared: "\<And>k. ps_visited ps' k \<Longrightarrow> ps_subscribers ps' k = [] \<and> (ps_visited ps k \<or> (\<exists>cs. pc' = Emit_cancel k cs))"
      "\<And>k c. c \<in> set (ps_subscribers ps' k) \<Longrightarrow> fst c = k" "\<And>c. ps_cancelled ps' c \<Longrightarrow> ps_visited ps' (fst c)"
  shows "ps_inv (ps', pcs[i := pc'])"
proof -
  obtain M where M: "mset pcs = add_mset (pcs ! i) M" "\<And>x. mset (pcs[i := x]) = add_mset x M"
    using mset_at [OF i] by metis
  note inv = inv [unfolded ps_inv_def prod.case M(1)]
  have "pc_ok ps' (add_mset pc' M) pc" if "pc \<in># M" for pc
  proof (rule pc_ok_mono [OF _ mono])
    show "pc_ok ps (add_mset (pcs ! i) M) pc" using inv that by simp
    show "if ps_visited ps' k then \<exists>cs. Emit_cancel k cs \<in># add_mset pc' M \<and> c \<in> set cs else c \<in> set (ps_subscribers ps' k)"
      if "c \<in> set (ps_subscribers ps k)" "\<not> ps_visited ps k" for k c
      using subs [OF that] by (auto split: if_splits)
    show "ps_cancelled ps' c \<or> (\<exists>cs. Emit_cancel k cs \<in># add_mset pc' M \<and> c \<in> set cs)"
      if "Emit_cancel k cs \<in># add_mset (pcs ! i) M" "c \<in> set cs" for k c cs
      using that lists [of k cs c] by auto
  qed
  moreover have "key_emitted (add_mset pc' M) k" if vis: "ps_visited ps' k" for k
  proof -
    consider "key_emitted (add_mset (pcs ! i) M) k" | cs where "pc' = Emit_cancel k cs" using shared(1) [OF vis] inv by blast
    then show ?thesis using emit [of k] by cases (auto simp: key_emitted_def)
  qed
  ultimately show ?thesis
    unfolding ps_inv_def prod.case M(2) using new shared by auto
qed

lemma ps_step_inv:
  assumes "ps_inv (ps, pcs)" "i < length pcs" "(ps', pc') \<in> set (ps_step i ps (pcs ! i))"
  shows "ps_inv (ps', pcs[i := pc'])"
proof -
  have ok: "pc_ok ps (mset pcs) (pcs ! i)" using assms(1,2) by (auto simp: ps_inv_def)
  have vis: "\<And>k. ps_visited ps k \<Longrightarrow> ps_subscribers ps k = []" and own: "\<And>k c. c \<in> set (ps_subscribers ps k) \<Longrightarrow> fst c = k"
    and canc: "\<And>c. ps_cancelled ps c \<Longrightarrow> ps_visited ps (fst c)"
    using assms(1) by (simp_all add: ps_inv_def del: split_paired_All)
  note step = ps_inv_step [OF assms(1,2)]
  show ?thesis
  proof (cases "pcs ! i" rule: ps_step_cases)
    case (1 k)
    then have "ps' = ps" "pc' = (if ps_visited ps k then Emitted k else Emit_lock k)" using assms(3) by (simp_all add: ps_step_def)
    with 1 show ?thesis by (intro step) (simp_all add: vis own canc)
  next
    case (2 k)
    then have new: "ps' = ps\<lparr>ps_visited := (ps_visited ps)(k := True), ps_subscribers := (ps_subscribers ps)(k := [])\<rparr>"
      "pc' = Emit_cancel k (ps_subscribers ps k)" using assms(3) by (simp_all add: ps_step_def)
    show ?thesis
      using vis own canc by (intro step) (auto simp: 2 new split: if_splits)
  next
    case (3 k)
    then have "ps' = ps" "pc' = Emitted k" using assms(3) by (simp_all add: ps_step_def)
    with 3 ok show ?thesis by (intro step) (simp_all add: vis own canc)
  next
    case (4 k c cs)
    then have new: "ps' = ps\<lparr>ps_cancelled := (ps_cancelled ps)(c := True)\<rparr>" "pc' = Emit_cancel k cs"
      using assms(3) by (simp_all add: ps_step_def)
    show ?thesis
      using ok by (intro step) (auto simp: 4 new vis own canc split: if_splits)
  next
    case (6 k)
    then have "ps' = ps" "pc' = (if ps_ctx_done ps then Waited k else Wait_lock k)" using assms(3) by (simp_all add: ps_step_def)
    with 6 show ?thesis by (intro step) (simp_all add: vis own canc)
  next
    case (7 k)
    show ?thesis
    proof (cases "ps_visited ps k")
      case True
      then have "ps' = ps" "pc' = Waited k" using 7 assms(3) by (simp_all add: ps_step_def)
      with 7 True show ?thesis by (intro step) (simp_all add: vis own canc)
    next
      case False
      then have new: "ps' = ps\<lparr>ps_subscribers := (ps_subscribers ps)(k := ps_subscribers ps k @ [(k, ps_next ps)]), ps_next := ps_next ps + 1\<rparr>"
        "pc' = Wait_block k (k, ps_next ps)" using 7 assms(3) by (simp_all add: ps_step_def Let_def)
      have own': "(a, b) \<in> set (ps_subscribers ps k') \<Longrightarrow> a = k'" for a b k' using own by force
      show ?thesis using False by (intro step) (auto simp: 7 new vis own canc dest: own' split: if_splits)
    qed
  next
    case (8 k c)
    then have "ps_ctx_done ps \<or> ps_cancelled ps c" "ps' = ps" "pc' = Waited k" using assms(3) by (simp_all add: ps_step_def split: if_splits)
    moreover have "fst c = k" using ok 8 by simp
    ultimately show ?thesis using canc [of c] 8 by (intro step) (auto simp: vis own canc)
  next
    case 10
    then have "ps' = ps\<lparr>ps_ctx_done := True\<rparr>" "pc' = Ctx_cancelled" using assms(3) by (simp_all add: ps_step_def)
    with 10 show ?thesis by (intro step) (simp_all add: vis own canc)
  qed (use assms(3) in \<open>simp_all add: ps_step_def\<close>)
qed


interpretation ps: thread_inv ps_step ps_init ps_inv
proof (unfold_locales, goal_cases)
  case (1 st)
  have "pc_ok ps M pc" if "case pc of Emit_start _ \<Rightarrow> True | Wait_start _ \<Rightarrow> True | Cancel_ctx \<Rightarrow> True | _ \<Rightarrow> False" for ps M pc
    using that by (cases pc) simp_all
  with 1 show ?case by (cases st) (auto simp: ps_init_def ps_inv_def newPubsub_def list_all_iff)
next
  case 2
  then show ?case by (rule ps_step_inv)
qed


subsection \<open>Properties\<close>

text \<open>
  C34: \<open>Wait\<close> and \<open>Emit\<close> meet, for any number of goroutines and any interleaving. A call of \<open>Wait\<close> returns only after an
  \<open>Emit\<close> of its key has marked it, or after the context was cancelled. A goroutine is blocked in \<open>Wait\<close> only while the
  context is not cancelled, and no wake-up is lost: either no \<open>Emit\<close> of the key has taken the lock yet, or one of them
  still has this goroutine on its list and can go on. \<open>Emit\<close> itself never blocks.
\<close>

theorem pubsub_wait:
  assumes "reach ps_step st0 (ps, pcs)" "ps_init st0" "i < length pcs"
  shows "(pcs ! i = Waited k \<longrightarrow> ps_ctx_done ps \<or> (\<exists>j<length pcs. emits k (pcs ! j)))
     \<and> (pcs ! i = Wait_block k c \<and> blocked ps_step (ps, pcs) i \<longrightarrow>
          \<not> ps_ctx_done ps
        \<and> ((\<forall>j<length pcs. \<not> emits k (pcs ! j))
           \<or> (\<exists>j<length pcs. \<exists>cs. pcs ! j = Emit_cancel k cs \<and> c \<in> set cs)))
     \<and> (pcs ! i \<in> {Emit_start k, Emit_lock k, Emit_cancel k cs} \<longrightarrow> \<not> blocked ps_step (ps, pcs) i)"
proof (intro conjI impI)
  have inv: "ps_inv (ps, pcs)" using ps.inv_reach [OF assms(1,2)] .
  have at: "pc \<in># mset pcs \<longleftrightarrow> (\<exists>j<length pcs. pcs ! j = pc)" for pc by (auto simp: in_set_conv_nth)
  have emitted: "ps_visited ps k \<longleftrightarrow> (\<exists>j<length pcs. emits k (pcs ! j))"
  proof
    assume "ps_visited ps k"
    then have "key_emitted (mset pcs) k" using inv by (simp add: ps_inv_def)
    then show "\<exists>j<length pcs. emits k (pcs ! j)" unfolding key_emitted_def at by blast
  next
    assume "\<exists>j<length pcs. emits k (pcs ! j)"
    then obtain j where "emits k (pcs ! j)" "pc_ok ps (mset pcs) (pcs ! j)" using inv by (auto simp: ps_inv_def)
    then show "ps_visited ps k" by (cases "pcs ! j") auto
  qed
  have ok: "pc_ok ps (mset pcs) (pcs ! i)" using inv assms(3) by (simp add: ps_inv_def)
  show "ps_ctx_done ps \<or> (\<exists>j<length pcs. emits k (pcs ! j))" if "pcs ! i = Waited k"
    using ok that emitted by auto
  assume "pcs ! i = Wait_block k c \<and> blocked ps_step (ps, pcs) i"
  then have b: "pcs ! i = Wait_block k c" "\<not> ps_ctx_done ps" "\<not> ps_cancelled ps c" by (auto simp: blocked_def ps_step_def split: if_splits)
  then show "\<not> ps_ctx_done ps" by simp
  show "(\<forall>j<length pcs. \<not> emits k (pcs ! j)) \<or> (\<exists>j<length pcs. \<exists>cs. pcs ! j = Emit_cancel k cs \<and> c \<in> set cs)"
  proof (cases "ps_visited ps k")
    case True
    then obtain cs where "Emit_cancel k cs \<in># mset pcs" "c \<in> set cs" using ok b by auto
    then show ?thesis unfolding at by blast
  next
    case False
    then show ?thesis using emitted by blast
  qed
next
  show "\<not> blocked ps_step (ps, pcs) i" if "pcs ! i \<in> {Emit_start k, Emit_lock k, Emit_cancel k cs}"
    using that by (cases cs) (auto simp: blocked_def ps_step_def)
qed

text \<open>One goroutine waits for \<open>a\<close>, one emits it.\<close>

lemma pubsub_run:
  "reach ps_step (newPubsub, [Wait_start ''a'', Emit_start ''a''])
     (newPubsub\<lparr>ps_subscribers := (\<lambda>_. [])(''a'' := []), ps_visited := (\<lambda>_. False)(''a'' := True), ps_next := 1\<rparr>,
      [Wait_block ''a'' (''a'', 0), Emit_cancel ''a'' [(''a'', 0)]])"
proof (rule run_schedule_reach [OF reach_init])
  show "run_schedule ps_step [(0, 0), (0, 0), (1, 0), (1, 0)] (newPubsub, [Wait_start ''a'', Emit_start ''a''])
    = Some (newPubsub\<lparr>ps_subscribers := (\<lambda>_. [])(''a'' := []), ps_visited := (\<lambda>_. False)(''a'' := True), ps_next := 1\<rparr>,
        [Wait_block ''a'' (''a'', 0), Emit_cancel ''a'' [(''a'', 0)]])"
    by (simp add: ps_step_def newPubsub_def Let_def)
qed

theorem pubsub_wait_witness:
  "\<exists>j<2. \<exists>cs. [Wait_block ''a'' (''a'', 0), Emit_cancel ''a'' [(''a'', 0)]] ! j = Emit_cancel ''a'' cs \<and> (''a'', 0) \<in> set cs"
proof -
  have "ps_init (newPubsub, [Wait_start ''a'', Emit_start ''a''])" by (simp add: ps_init_def)
  from pubsub_wait [OF pubsub_run this, of 0 "''a''" "(''a'', 0)" "[]"] show ?thesis
    by (auto simp: blocked_def ps_step_def newPubsub_def numeral_2_eq_2 less_Suc_eq)
qed

end
