(* ===== verification/Tar_FS.thy ===== *)
theory Tar_FS
  imports Mount_FS Tar_Pool Tar_Pubsub
begin

section \<open>The file system of a tar archive (\<open>tar/fs.go\<close>)\<close>

text \<open>
  \<open>ReaderFS\<close> unpacks an archive into another file system while it is used. The archive is what package
  \<open>archive/tar\<close> makes of the input: a list of headers, each with a reader of its content, and the error
  of \<open>Next\<close> after the last one, \<open>io.EOF\<close> when the archive is complete. A reader returns its content in
  pieces of any size, and its final error alone or together with the last piece.

  The goroutines that finish a directory or a small file in the background are tasks, which run in any order
  while the loop goes on; one task is one step. The pools of buffers (theory \<open>Tar_Pool\<close>) bound how many tasks
  hold data at once; the announcements of unpacked files go to the \<open>pubsub\<close> (theory \<open>Tar_Pubsub\<close>).
\<close>

subsection \<open>Readers\<close>

record reader =
  rd_chunks :: "byte list list"
  rd_end :: err
  rd_eager :: bool

fun rd_Read :: "reader \<Rightarrow> nat \<Rightarrow> byte list \<times> err option \<times> reader" where
  "rd_Read r n =
     (case rd_chunks r of
        [] \<Rightarrow> ([], Some (rd_end r), r)
      | c # cs \<Rightarrow>
          if length c \<le> n then (c, if cs = [] \<and> rd_eager r then Some (rd_end r) else None, r\<lparr>rd_chunks := cs\<rparr>)
          else (take n c, None, r\<lparr>rd_chunks := drop n c # cs\<rparr>))"

declare rd_Read.simps [simp del]

text \<open>\<open>io.ReadFull\<close>, and \<open>io.ErrUnexpectedEOF\<close>.\<close>

definition ErrUnexpectedEOF :: err where
  "ErrUnexpectedEOF = ErrorString ''unexpected EOF''"

function read_loop :: "reader \<Rightarrow> nat \<Rightarrow> byte list \<Rightarrow> byte list \<times> err option \<times> reader" where
  "read_loop r n acc =
     (if n \<le> length acc then (acc, None, r)
      else
        (case rd_Read r (n - length acc) of
           (xs, Some e, r) \<Rightarrow> (acc @ xs, Some e, r)
         | (xs, None, r) \<Rightarrow> read_loop r n (acc @ xs)))"
  by pat_completeness auto
termination
  by (relation "measure (\<lambda>(r, n, acc). length (rd_chunks r) + (n - length acc))")
    (auto simp: rd_Read.simps split: list.splits if_splits)

declare read_loop.simps [simp del]

definition ReadFull :: "reader \<Rightarrow> nat \<Rightarrow> byte list \<times> err option \<times> reader" where
  "ReadFull r n =
     (let (xs, e, r) = read_loop r n [] in
      (xs, if n \<le> length xs then None else if xs \<noteq> [] \<and> e = Some EOF then Some ErrUnexpectedEOF else e, r))"

definition fullReader_Read :: "reader \<Rightarrow> nat \<Rightarrow> byte list \<times> err option \<times> reader" where
  "fullReader_Read r n =
     (let (xs, e, r) = ReadFull r n in (xs, if e = Some ErrUnexpectedEOF then Some EOF else e, r))"


subsection \<open>Unpacking one entry\<close>

record tar_header =
  th_Name :: string
  th_Mode :: file_mode

definition resolvePath :: "string \<Rightarrow> string" where
  "resolvePath p =
     (let p = Clean p;
          p = TrimPrefix p [slash]
      in if p = [] then dot else p)"

text \<open>\<open>io.CopyBuffer\<close> from a \<open>fullReader\<close>, for a writer without \<open>ReadFrom\<close>.\<close>

partial_function (option) CopyBuffer ::
  "('h, 'i, 'd, 'w, 'z) file_iface_scheme \<Rightarrow> nat \<Rightarrow> 'h \<Rightarrow> reader \<Rightarrow> 'w \<Rightarrow> (err option \<times> 'h \<times> reader \<times> 'w) option" where
  [code]: "CopyBuffer I bufsize dst r w =
     (case fullReader_Read r bufsize of (xs, er, r) \<Rightarrow> do {
        (stop, dst, w) \<leftarrow> (if xs \<noteq> [] then do {
            (nw, ew, dst, w) \<leftarrow> WriteFile I dst xs w;
            let bad = nw < 0 \<or> int (length xs) < nw;
            let ew = (if bad \<and> ew = None then Some (ErrorString ''invalid write result'') else ew);
            Some (if ew \<noteq> None then ew
                  else if int (length xs) \<noteq> nw then Some (ErrorString ''short write'') else None, dst, w)
          } else Some (None, dst, w));
        (case stop of
           Some e \<Rightarrow> Some (Some e, dst, r, w)
         | None \<Rightarrow> (case er of
               Some e \<Rightarrow> Some (if e = EOF then None else Some e, dst, r, w)
             | None \<Rightarrow> CopyBuffer I bufsize dst r w))
      })"

text \<open>
  \<open>writeFile\<close>; the second component of the result tells whether the path is announced. Without a reader the
  first bytes are the whole file. The destination file system has the methods it calls by its type.
\<close>

definition writeFile ::
  "('f, 'h, 'i, 'd, 'w, 'z) fs_iface_scheme \<Rightarrow> 'f \<Rightarrow> string \<Rightarrow> file_mode \<Rightarrow> byte list \<Rightarrow> (reader \<times> nat) option \<Rightarrow> 'w \<Rightarrow>
   (err option \<times> bool \<times> reader option \<times> 'w) option" where
  "writeFile I fs path mode initial r w =
     do {
       openFile \<leftarrow> i_OpenFile I fs;
       (f, e, w) \<leftarrow> openFile path (FlagWriteOnly OR FlagCreate OR FlagTruncate) mode w;
       (case e of
          Some e \<Rightarrow> Some (WithMessage (Some e) ''opening destination file'', False, map_option fst r, w)
        | None \<Rightarrow> do {
            f \<leftarrow> f;
            (e, f, r, w) \<leftarrow> (case fl_Write I f of
                None \<Rightarrow> Some (Some ErrNotImplemented, f, map_option fst r, w)
              | Some write \<Rightarrow> do {
                  (_, e, f, w) \<leftarrow> write initial w;
                  (case e of
                     Some e \<Rightarrow> Some (WithMessage (Some e) ''write: copying file'', f, map_option fst r, w)
                   | None \<Rightarrow> (case r of
                         None \<Rightarrow> Some (None, f, None, w)
                       | Some (r, bufsize) \<Rightarrow> do {
                           (e, f, r, w) \<leftarrow> CopyBuffer I bufsize f r w;
                           Some (WithMessage e ''copybuf: copying file'', f, Some r, w)
                         }))
                });
            (_, _, w) \<leftarrow> fl_Close I f w;
            Some (e, e = None, r, w)
          })
     }"

text \<open>The tasks left to the background, and what each does when it runs.\<close>

datatype task = Mkdir_task string file_mode | Write_task string file_mode "byte list" | Send_task err

definition run_Mkdir ::
  "('f, 'h, 'i, 'd, 'w, 'z) fs_iface_scheme \<Rightarrow> 'f \<Rightarrow> string \<Rightarrow> file_mode \<Rightarrow> 'w \<Rightarrow> 'w fs_err" where
  "run_Mkdir I fs p mode w =
     do {
       mkdir \<leftarrow> i_Mkdir I fs;
       (e, w) \<leftarrow> mkdir p mode w;
       (case e of
          None \<Rightarrow> Some (None, w)
        | Some e \<Rightarrow>
            if \<not> errors_Is e ErrExist then Some (WithMessage (Some e) ''copying dir'', w)
            else do {
              chmod \<leftarrow> i_Chmod I fs;
              (e, w) \<leftarrow> chmod p mode w;
              Some (WithMessage e ''copying dir'', w)
            })
     }"

definition cachedMkdirAll ::
  "('f, 'h, 'i, 'd, 'w, 'z) fs_iface_scheme \<Rightarrow> 'f \<Rightarrow> string \<Rightarrow> file_mode \<Rightarrow> string list \<Rightarrow> 'w \<Rightarrow> (err option \<times> string list \<times> 'w) option" where
  "cachedMkdirAll I fs path perm mkdirCache w =
     (if path \<in> set mkdirCache then Some (None, mkdirCache, w)
      else do {
        (e, w) \<leftarrow> MkdirAll I fs path perm w;
        Some (e, if e = None then path # mkdirCache else mkdirCache, w)
      })"

text \<open>
  \<open>readProcessFile\<close>, with the sizes of the two kinds of buffers. It returns the error, the tasks it started,
  the path it announced itself, the cache of directories and the state.
\<close>

definition readProcessFile ::
  "('f, 'h, 'i, 'd, 'w, 'z) fs_iface_scheme \<Rightarrow> 'f \<Rightarrow> nat \<Rightarrow> nat \<Rightarrow> bool \<Rightarrow> tar_header \<Rightarrow> reader \<Rightarrow> string list \<Rightarrow> 'w \<Rightarrow>
   (err option \<times> task list \<times> string list \<times> string list \<times> 'w) option" where
  "readProcessFile I fs small big cancelled header r mkdirCache w =
     (if cancelled then Some (Some Canceled, [], [], mkdirCache, w)
      else
        (let p = resolvePath (th_Name header); dir = Dir p in do {
           (e, mkdirCache, w) \<leftarrow> cachedMkdirAll I fs dir 0x1C0 mkdirCache w;
           if e \<noteq> None then Some (WithMessage e ''prepping base dir'', [], [], mkdirCache, w)
           else if IsDir (th_Mode header) then Some (None, [Mkdir_task p (th_Mode header)], [], mkdirCache, w)
           else
             (case fullReader_Read r small of
                (data, Some EOF, r) \<Rightarrow> Some (None, [Write_task p (th_Mode header) data], [], mkdirCache, w)
              | (data, None, r) \<Rightarrow> do {
                  (e, emitted, _, w) \<leftarrow> writeFile I fs p (th_Mode header) data (Some (r, big)) w;
                  Some (e, [], if emitted then [p] else [], mkdirCache, w)
                }
              | (_, Some e, _) \<Rightarrow> Some (Some e, [], [], mkdirCache, w))
         }))"


subsection \<open>The loop and its background tasks\<close>

text \<open>The sizes of \<open>readErr\<close>.\<close>

definition mebibyte :: nat where "mebibyte = 2 ^ 20"
definition kibibyte :: nat where "kibibyte = 2 ^ 10"
definition maxMemory :: nat where "maxMemory = 20 * mebibyte"
definition bigBufMemory :: nat where "bigBufMemory = 4 * mebibyte"
definition smallBufMemory :: nat where "smallBufMemory = 150 * kibibyte"
definition bigBufCount :: nat where "bigBufCount = 2"
definition smallBufCount :: nat where "smallBufCount = (maxMemory - bigBufCount * bigBufMemory) div smallBufMemory"

record 'w unarchive =
  ua_entries :: "(tar_header \<times> reader) list"
  ua_next_err :: err
  ua_cache :: "string list"
  ua_tasks :: "task list"
  ua_errs :: "err list"
  ua_emitted :: "string list"
  ua_returned :: "err option option"
  ua_ctx_done :: bool
  ua_unarchiveErr :: "err option"
  ua_reader_done :: bool
  ua_world :: 'w

definition ua_start :: "(tar_header \<times> reader) list \<Rightarrow> err \<Rightarrow> 'w \<Rightarrow> 'w unarchive" where
  "ua_start entries e w =
     \<lparr>ua_entries = entries, ua_next_err = e, ua_cache = [], ua_tasks = [], ua_errs = [], ua_emitted = [],
      ua_returned = None, ua_ctx_done = False, ua_unarchiveErr = None, ua_reader_done = False, ua_world = w\<rparr>"

text \<open>
  One round of the loop of \<open>readErr\<close>: an error from a task ends it; otherwise the next header is processed.
  After the last header, \<open>readErr\<close> takes the error if there is one, or returns nil when all tasks are done; when both
  are possible, \<open>select\<close> takes either. Leaving the loop and the last \<open>select\<close> are one step, so an error that
  arrives between them is in the channel before that step.
\<close>

definition loop_step ::
  "('f, 'h, 'i, 'd, 'w, 'z) fs_iface_scheme \<Rightarrow> 'f \<Rightarrow> 'w unarchive \<Rightarrow> 'w unarchive list option" where
  "loop_step I fs u =
     (case ua_errs u of
        e # es \<Rightarrow> Some [u\<lparr>ua_errs := es, ua_returned := Some (Some e)\<rparr>]
      | [] \<Rightarrow>
          (case ua_entries u of
             [] \<Rightarrow> Some []
           | (header, r) # entries \<Rightarrow> do {
               (e, tasks, emitted, mkdirCache, w) \<leftarrow>
                 readProcessFile I fs smallBufMemory bigBufMemory (ua_ctx_done u) header r (ua_cache u) (ua_world u);
               Some [u\<lparr>ua_entries := entries, ua_cache := mkdirCache, ua_tasks := ua_tasks u @ tasks,
                       ua_emitted := ua_emitted u @ emitted, ua_returned := map_option Some e, ua_world := w\<rparr>]
             }))"

definition end_step :: "'w unarchive \<Rightarrow> 'w unarchive list" where
  "end_step u =
     (if ua_entries u \<noteq> [] then []
      else if ua_next_err u \<noteq> EOF then
        (if ua_errs u = [] then [u\<lparr>ua_returned := Some (WithMessage (Some (ua_next_err u)) ''next tar file'')\<rparr>] else [])
      else
        (case ua_errs u of e # es \<Rightarrow> [u\<lparr>ua_errs := es, ua_returned := Some (Some e)\<rparr>] | [] \<Rightarrow> [])
        @ (if ua_tasks u = [] then [u\<lparr>ua_returned := Some None\<rparr>] else []))"

text \<open>A task runs; when it fails, it sends the error on the channel, which has room for one.\<close>

definition task_step ::
  "('f, 'h, 'i, 'd, 'w, 'z) fs_iface_scheme \<Rightarrow> 'f \<Rightarrow> nat \<Rightarrow> 'w unarchive \<Rightarrow> 'w unarchive list option" where
  "task_step I fs k u =
     (if length (ua_tasks u) \<le> k then Some []
      else
        (let rest = take k (ua_tasks u) @ drop (Suc k) (ua_tasks u) in
         case ua_tasks u ! k of
           Mkdir_task p mode \<Rightarrow> do {
             (e, w) \<leftarrow> run_Mkdir I fs p mode (ua_world u);
             Some [u\<lparr>ua_world := w, ua_tasks := (case e of None \<Rightarrow> rest | Some e \<Rightarrow> rest @ [Send_task e])\<rparr>]
           }
         | Write_task p mode data \<Rightarrow> do {
             (e, emitted, _, w) \<leftarrow> writeFile I fs p mode data None (ua_world u);
             Some [u\<lparr>ua_world := w, ua_emitted := ua_emitted u @ (if emitted then [p] else []),
                     ua_tasks := (case e of None \<Rightarrow> rest | Some e \<Rightarrow> rest @ [Send_task e])\<rparr>]
           }
         | Send_task e \<Rightarrow>
             Some (if ua_errs u = [] then [u\<lparr>ua_errs := [e], ua_tasks := rest\<rparr>] else [])))"

text \<open>
  The end of \<open>read\<close>: it stores the error, cancels the context, which wakes every \<open>Wait\<close>, and closes \<open>Done\<close>.
  The caller may cancel the context at any time.
\<close>

inductive ua_step ::
  "('f, 'h, 'i, 'd, 'w, 'z) fs_iface_scheme \<Rightarrow> 'f \<Rightarrow> 'w unarchive \<Rightarrow> 'w unarchive \<Rightarrow> bool" for I fs where
  ua_loop: "ua_returned u = None \<Longrightarrow> loop_step I fs u = Some us \<Longrightarrow> u' \<in> set us \<Longrightarrow> ua_step I fs u u'"
| ua_end: "ua_returned u = None \<Longrightarrow> u' \<in> set (end_step u) \<Longrightarrow> ua_step I fs u u'"
| ua_task: "task_step I fs k u = Some us \<Longrightarrow> u' \<in> set us \<Longrightarrow> ua_step I fs u u'"
| ua_store: "ua_returned u = Some (Some e) \<Longrightarrow> \<not> ua_reader_done u \<Longrightarrow> ua_step I fs u (u\<lparr>ua_unarchiveErr := Some e\<rparr>)"
| ua_finish: "ua_returned u = Some e \<Longrightarrow> ua_unarchiveErr u = e \<Longrightarrow>
    ua_step I fs u (u\<lparr>ua_ctx_done := True, ua_reader_done := True\<rparr>)"
| ua_cancel: "ua_step I fs u (u\<lparr>ua_ctx_done := True\<rparr>)"

inductive ua_reach ::
  "('f, 'h, 'i, 'd, 'w, 'z) fs_iface_scheme \<Rightarrow> 'f \<Rightarrow> 'w unarchive \<Rightarrow> 'w unarchive \<Rightarrow> bool" for I fs u where
  ua_refl: "ua_reach I fs u u"
| ua_trans: "ua_reach I fs u v \<Longrightarrow> ua_step I fs v v' \<Longrightarrow> ua_reach I fs u v'"

inductive_cases ua_stepE: "ua_step I fs u u'"


subsection \<open>\<open>NewReaderFS\<close> and \<open>Open\<close>\<close>

text \<open>
  \<open>newmem\<close> is \<open>mem.NewFS\<close>, the default destination; \<open>msg\<close> is how \<open>fmt\<close> prints the destination's type, the error and
  the names in the message.
\<close>

definition NewReaderFS ::
  "('f, 'h, 'i, 'd, 'w, 'z) fs_iface_scheme \<Rightarrow> ('w \<Rightarrow> ((err + 'f) \<times> 'w) option) \<Rightarrow> (err option \<Rightarrow> string list \<Rightarrow> string) \<Rightarrow>
   'f option \<Rightarrow> (tar_header \<times> reader) list \<Rightarrow> err \<Rightarrow> 'w \<Rightarrow> ((err + 'f \<times> 'w unarchive) \<times> 'w) option" where
  "NewReaderFS I newmem msg UnarchiveFS entries next_err w =
     do {
       (r, w) \<leftarrow> (case UnarchiveFS of Some fs \<Rightarrow> Some (Inr fs, w) | None \<Rightarrow> newmem w);
       (case r of
          Inl e \<Rightarrow> Some (Inl (messageError e ''tar''), w)
        | Inr fs \<Rightarrow> do {
            (dirEntries, e, w) \<leftarrow> ReadDir I fs dot w;
            Some (if e \<noteq> None \<or> dirEntries \<noteq> []
                  then (Inl (messageError (ErrorString (msg e (map (de_Name I) dirEntries))) ''tar''), w)
                  else (Inr (fs, ua_start entries next_err w), w))
          })
     }"

text \<open>\<open>Open\<close> after \<open>Wait\<close> has returned; it can return when the name was announced or the context is done.\<close>

definition Wait_returns :: "'w unarchive \<Rightarrow> string \<Rightarrow> bool" where
  "Wait_returns u name \<longleftrightarrow> ua_ctx_done u \<or> name \<in> set (ua_emitted u)"

definition tar_Open ::
  "('f, 'h, 'i, 'd, 'w, 'z) fs_iface_scheme \<Rightarrow> 'f \<Rightarrow> 'w unarchive \<Rightarrow> string \<Rightarrow> ('h option \<times> err option \<times> 'w unarchive) option" where
  "tar_Open I fs u name =
     (if \<not> ValidPath name then Some (None, Some (PathError ''open'' name ErrInvalid), u)
      else if \<not> Wait_returns u name then None
      else
        (case ua_unarchiveErr u of
           Some e \<Rightarrow> Some (None, Some (PathError ''open'' name e), u)
         | None \<Rightarrow> do { (f, e, w) \<leftarrow> i_Open I fs name (ua_world u); Some (f, e, u\<lparr>ua_world := w\<rparr>) }))"

definition tar_Done :: "'w unarchive \<Rightarrow> bool" where
  "tar_Done u = ua_reader_done u"

definition UnarchiveErr :: "'w unarchive \<Rightarrow> err option" where
  "UnarchiveErr u = ua_unarchiveErr u"

subsection \<open>Names of the archive\<close>

text \<open>What \<open>path.Clean\<close> leaves: elements, after some \<open>..\<close> when the path is not rooted.\<close>

definition clean_stack :: "bool \<Rightarrow> string list \<Rightarrow> bool" where
  "clean_stack rooted st \<longleftrightarrow> (\<exists>k es. st = rev es @ replicate k dotdot \<and> list_all ok_elem es \<and> (rooted \<longrightarrow> k = 0))"

lemma clean_stack_step:
  assumes "clean_stack rooted st" "slash \<notin> set e" "utf8_valid e"
  shows "clean_stack rooted (clean_step rooted st e)"
proof -
  obtain k es where st: "st = rev es @ replicate k dotdot" "list_all ok_elem es" "rooted \<longrightarrow> k = 0"
    using assms(1) by (auto simp: clean_stack_def)
  consider "e = [] \<or> e = dot" | "e = dotdot" | "ok_elem e" using assms(2,3) by (auto simp: ok_elem_def valid_elem_def)
  then show ?thesis
  proof cases
    case 1
    then show ?thesis using assms(1) by (auto simp: clean_step_def)
  next
    case 3
    then have "e # st = rev (es @ [e]) @ replicate k dotdot" "list_all ok_elem (es @ [e])" using st by simp_all
    with 3 st(3) show ?thesis unfolding clean_stack_def by (metis clean_step_ok)
  next
    case 2
    show ?thesis
    proof (cases es rule: rev_cases)
      case Nil
      then have "clean_step rooted st e = (if rooted then [] else replicate (Suc k) dotdot)"
        using 2 st by (cases k) (simp_all add: clean_step_def)
      then show ?thesis unfolding clean_stack_def
        by (intro exI [of _ "if rooted then 0 else Suc k"] exI [of _ "[]"]) simp
    next
      case (snoc fs f)
      then have "clean_step rooted st e = rev fs @ replicate k dotdot" "list_all ok_elem fs"
        using 2 st by (auto simp: clean_step_def)
      then show ?thesis using st(3) unfolding clean_stack_def by blast
    qed
  qed
qed

lemma clean_stack_foldl:
  "clean_stack rooted st \<Longrightarrow> list_all (\<lambda>e. slash \<notin> set e \<and> utf8_valid e) es \<Longrightarrow> clean_stack rooted (foldl (clean_step rooted) st es)"
  by (induction es arbitrary: st) (auto intro: clean_stack_step)

text \<open>
  C38: the names of an archive cannot lead out of the destination. Whatever a header says, as long as it is valid UTF-8,
  \<open>resolvePath\<close> gives a valid path of the destination file system, or one whose first element is \<open>..\<close>, which is
  not a valid path and is refused by every operation; and it keeps a name that is a valid path already.
\<close>

theorem resolvePath_valid:
  assumes "utf8_valid name"
  shows "(ValidPath (resolvePath name) \<or> (hd (split_slash (resolvePath name)) = dotdot \<and> \<not> ValidPath (resolvePath name)))
     \<and> (ValidPath name \<longrightarrow> resolvePath name = name)"
proof -
  have same: "resolvePath name = name" if v: "ValidPath name"
  proof -
    have "\<not> rooted_path name" "name \<noteq> []" using v by (auto elim!: ValidPathE)
    then show ?thesis using Clean_ValidPath [OF v]
      by (cases name) (auto simp: resolvePath_def TrimPrefix_def HasPrefix_def rooted_path_def)
  qed
  define rooted where "rooted = rooted_path name"
  define st where "st = foldl (clean_step rooted) [] (split_slash name)"
  have "list_all utf8_valid (split_slash name)" using assms utf8_valid_join [of "split_slash name"] by simp
  then have "list_all (\<lambda>e. slash \<notin> set e \<and> utf8_valid e) (split_slash name)"
    using split_slash_no_slash by (auto simp: list_all_iff)
  moreover have "clean_stack rooted []" unfolding clean_stack_def by (intro exI [of _ 0] exI [of _ "[]"]) simp
  ultimately have "clean_stack rooted st" unfolding st_def by (intro clean_stack_foldl)
  then obtain k es where st: "st = rev es @ replicate k dotdot" "list_all ok_elem es" "rooted \<longrightarrow> k = 0"
    by (auto simp: clean_stack_def)
  have rev: "rev st = replicate k dotdot @ es" using st(1) by simp
  have words: "\<forall>w\<in>set (rev st). slash \<notin> set w" using st(2) by (auto simp: rev list_all_iff)
  have head: "\<exists>c cs. join_slash (rev st) = c # cs \<and> c \<noteq> slash" if "rev st \<noteq> []"
    using that st(2) join_slash_hd [of es] rev by (cases "rev st"; cases k; cases "tl (rev st)") auto
  have res: "resolvePath name = path_of (rev st)"
  proof (cases rooted)
    case True
    then have "Clean name = slash # join_slash (rev st)"
      by (cases name) (auto simp: rooted_def rooted_path_def Clean_def st_def Let_def)
    then show ?thesis using TrimPrefix_append [of "[slash]" "join_slash (rev st)"] head
      by (cases "st = []") (auto simp: resolvePath_def Let_def path_of_def)
  next
    case False
    then have "Clean name = path_of (rev st)" using Clean_unrooted [of name] by (simp add: rooted_def st_def)
    then show ?thesis using head
      by (cases "st = []") (auto simp: resolvePath_def Let_def path_of_def TrimPrefix_def HasPrefix_def)
  qed
  show ?thesis
  proof (cases k)
    case 0
    then show ?thesis using res rev st(2) same by auto
  next
    case (Suc m)
    then have "split_slash (resolvePath name) = dotdot # replicate m dotdot @ es"
      using res rev split_join [of "rev st"] words by (simp add: path_of_def)
    moreover from this have "\<not> ValidPath (resolvePath name)" by (auto simp: ValidPath_def valid_elem_def)
    ultimately show ?thesis using same by auto
  qed
qed

theorem resolvePath_valid_witness:
  "resolvePath ''a/./b'' = ''a/b'' \<and> resolvePath ''../x'' = ''../x'' \<and> \<not> ValidPath (resolvePath ''../x'') \<and> resolvePath ''a/b'' = ''a/b''"
proof -
  have u: "utf8_valid ''../x''" "utf8_valid ''a/b''" "ValidPath ''a/b''"
    by (simp_all add: utf8_valid_def utf8_lead_def ValidPath_def valid_elem_def)
  have r: "resolvePath ''a/./b'' = ''a/b''" "resolvePath ''../x'' = ''../x''"
    by (simp_all add: resolvePath_def Clean_def clean_step_def TrimPrefix_def HasPrefix_def)
  show ?thesis using resolvePath_valid [OF u(1)] resolvePath_valid [OF u(2)] u(3) r by (simp add: ValidPath_def valid_elem_def)
qed

subsection \<open>Every file is announced, or an error is on its way\<close>

definition failed :: "'w unarchive \<Rightarrow> bool" where
  "failed u \<longleftrightarrow> (\<exists>e. Send_task e \<in> set (ua_tasks u)) \<or> ua_errs u \<noteq> [] \<or> (\<exists>e. ua_returned u = Some (Some e))"

definition accounted :: "'w unarchive \<Rightarrow> tar_header \<Rightarrow> bool" where
  "accounted u h \<longleftrightarrow> IsDir (th_Mode h) \<or> resolvePath (th_Name h) \<in> set (ua_emitted u)
     \<or> (\<exists>m d. Write_task (resolvePath (th_Name h)) m d \<in> set (ua_tasks u)) \<or> failed u"

definition ua_inv :: "(tar_header \<times> reader) list \<Rightarrow> 'w unarchive \<Rightarrow> bool" where
  "ua_inv entries u \<longleftrightarrow>
     (\<exists>processed. entries = processed @ ua_entries u \<and> (\<forall>h\<in>set (map fst processed). accounted u h))
   \<and> (ua_returned u = Some None \<longrightarrow> ua_entries u = [] \<and> ua_tasks u = [])"

lemma writeFile_emitted: "writeFile I fs p m xs r w = Some (e, emitted, r', w') \<Longrightarrow> emitted = (e = None)"
  by (auto simp: writeFile_def WithMessage_def bind_Some_iff split: option.splits)

lemma readProcessFile_accounts:
  assumes "readProcessFile I fs small big c h r cache w = Some (None, tasks, emitted, cache', w')" "\<not> IsDir (th_Mode h)"
  shows "resolvePath (th_Name h) \<in> set emitted \<or> (\<exists>m d. Write_task (resolvePath (th_Name h)) m d \<in> set tasks)"
  using assms
  by (auto simp: readProcessFile_def Let_def bind_Some_iff WithMessage_def split: if_splits option.splits prod.splits err.splits
      dest!: writeFile_emitted)

lemma accounted_mono:
  assumes "accounted u h" "set (ua_emitted u) \<subseteq> set (ua_emitted u')" "failed u \<Longrightarrow> failed u'"
    and "\<And>m d. Write_task (resolvePath (th_Name h)) m d \<in> set (ua_tasks u) \<Longrightarrow>
      Write_task (resolvePath (th_Name h)) m d \<in> set (ua_tasks u') \<or> resolvePath (th_Name h) \<in> set (ua_emitted u') \<or> failed u'"
  shows "accounted u' h"
  using assms unfolding accounted_def by blast

lemma nth_rest:
  assumes "k < length xs" "x \<in> set xs"
  shows "x = xs ! k \<or> x \<in> set (take k xs @ drop (Suc k) xs)"
  using assms id_take_nth_drop [OF assms(1)] by (metis Un_iff set_ConsD set_append)

lemma task_step_accounts:
  assumes "task_step I fs k u = Some us" "u' \<in> set us"
  shows "accounted u h \<Longrightarrow> accounted u' h" "ua_entries u' = ua_entries u" "ua_returned u' = ua_returned u"
    "ua_tasks u = [] \<Longrightarrow> ua_tasks u' = []"
proof -
  have k: "k < length (ua_tasks u)" using assms by (auto simp: task_step_def split: if_splits)
  show "ua_tasks u = [] \<Longrightarrow> ua_tasks u' = []" using k by simp
  let ?rest = "take k (ua_tasks u) @ drop (Suc k) (ua_tasks u)"
  obtain t where t: "ua_tasks u ! k = t" by blast
  show "ua_entries u' = ua_entries u" "ua_returned u' = ua_returned u"
    using assms k by (cases t; auto simp: task_step_def Let_def t bind_Some_iff split: if_splits)+
  have sub: "x \<in> set (ua_tasks u) \<Longrightarrow> x = t \<or> x \<in> set ?rest" for x using nth_rest [OF k] t by blast
  show "accounted u' h" if acc: "accounted u h"
  proof (cases t)
    case (Mkdir_task p m)
    then obtain e w where "u' = u\<lparr>ua_world := w, ua_tasks := (case e of None \<Rightarrow> ?rest | Some e \<Rightarrow> ?rest @ [Send_task e])\<rparr>"
      using assms k by (auto simp: task_step_def Let_def t bind_Some_iff)
    then show ?thesis using sub Mkdir_task
      by (intro accounted_mono [OF acc]) (fastforce simp: failed_def split: option.splits)+
  next
    case (Write_task p m d)
    then obtain e emitted r w where wf: "writeFile I fs p m d None (ua_world u) = Some (e, emitted, r, w)"
      and u': "u' = u\<lparr>ua_world := w, ua_emitted := ua_emitted u @ (if emitted then [p] else []),
        ua_tasks := (case e of None \<Rightarrow> ?rest | Some e \<Rightarrow> ?rest @ [Send_task e])\<rparr>"
      using assms k by (auto simp: task_step_def Let_def t bind_Some_iff)
    have em: "emitted = (e = None)" using writeFile_emitted [OF wf] .
    show ?thesis unfolding u' em using sub Write_task
      by (intro accounted_mono [OF acc]) (fastforce simp: failed_def split: option.splits)+
  next
    case (Send_task e)
    then have "u' = u\<lparr>ua_errs := [e], ua_tasks := ?rest\<rparr>"
      using assms k by (auto simp: task_step_def Let_def t split: if_splits)
    then have "failed u'" by (simp add: failed_def)
    then show ?thesis by (simp add: accounted_def)
  qed
qed

lemma loop_step_inv:
  assumes "ua_inv entries u" "ua_returned u = None" "loop_step I fs u = Some us" "u' \<in> set us"
  shows "ua_inv entries u'"
proof -
  obtain processed where d: "entries = processed @ ua_entries u" "\<forall>h\<in>set (map fst processed). accounted u h"
    using assms(1) by (auto simp: ua_inv_def)
  show ?thesis
  proof (cases "ua_errs u")
    case (Cons e es)
    then have "u' = u\<lparr>ua_errs := es, ua_returned := Some (Some e)\<rparr>" using assms(3,4) by (auto simp: loop_step_def)
    moreover have "accounted u' h" for h using \<open>u' = _\<close> by (simp add: accounted_def failed_def)
    ultimately show ?thesis using d by (auto simp: ua_inv_def)
  next
    case Nil
    then obtain h r rest e tasks em cache w where n: "ua_entries u = (h, r) # rest"
        "readProcessFile I fs smallBufMemory bigBufMemory (ua_ctx_done u) h r (ua_cache u) (ua_world u) = Some (e, tasks, em, cache, w)"
        "u' = u\<lparr>ua_entries := rest, ua_cache := cache, ua_tasks := ua_tasks u @ tasks,
           ua_emitted := ua_emitted u @ em, ua_returned := map_option Some e, ua_world := w\<rparr>"
      using assms(3,4) by (auto simp: loop_step_def bind_Some_iff split: list.splits)
    have old: "accounted u' h'" if "accounted u h'" for h'
      by (rule accounted_mono [OF that]) (auto simp: n(3) failed_def assms(2))
    have new: "accounted u' h"
    proof (cases e)
      case None
      then show ?thesis using readProcessFile_accounts [OF n(2) [unfolded None]] by (auto simp: accounted_def n(3))
    next
      case (Some x)
      then show ?thesis by (simp add: accounted_def failed_def n(3))
    qed
    have "entries = (processed @ [(h, r)]) @ ua_entries u'" "\<forall>h'\<in>set (map fst (processed @ [(h, r)])). accounted u' h'"
      using d n(1,3) old new by auto
    moreover have "ua_returned u' \<noteq> Some None" by (cases e) (simp_all add: n(3))
    ultimately show ?thesis unfolding ua_inv_def by blast
  qed
qed

lemma ua_inv_same:
  assumes "ua_inv entries u" "ua_entries u' = ua_entries u" "\<And>h. accounted u h \<Longrightarrow> accounted u' h"
    "ua_returned u' = Some None \<Longrightarrow> ua_entries u' = [] \<and> ua_tasks u' = []"
  shows "ua_inv entries u'"
  using assms unfolding ua_inv_def by metis

lemma ua_step_inv:
  assumes "ua_step I fs u u'" "ua_inv entries u"
  shows "ua_inv entries u'"
  using assms(1)
proof (cases rule: ua_step.cases)
  case (ua_loop us)
  show ?thesis by (rule loop_step_inv [OF assms(2) ua_loop])
next
  case ua_end
  then show ?thesis
    by (intro ua_inv_same [OF assms(2)])
      (auto simp: end_step_def WithMessage_def accounted_def failed_def split: if_splits list.splits)
next
  case (ua_task k us)
  note t = task_step_accounts [OF ua_task]
  show ?thesis
    by (rule ua_inv_same [OF assms(2)]) (use t assms(2) in \<open>auto simp: ua_inv_def\<close>)
next
  case (ua_store e)
  show ?thesis by (rule ua_inv_same [OF assms(2)]) (use assms(2) ua_store in \<open>auto simp: ua_inv_def accounted_def failed_def\<close>)
next
  case (ua_finish e)
  show ?thesis by (rule ua_inv_same [OF assms(2)]) (use assms(2) ua_finish in \<open>auto simp: ua_inv_def accounted_def failed_def\<close>)
next
  case ua_cancel
  show ?thesis by (rule ua_inv_same [OF assms(2)]) (use assms(2) ua_cancel in \<open>auto simp: ua_inv_def accounted_def failed_def\<close>)
qed

lemma ua_reach_inv: "ua_reach I fs u0 u \<Longrightarrow> ua_inv entries u0 \<Longrightarrow> ua_inv entries u"
  by (induction rule: ua_reach.induct) (auto intro: ua_step_inv)

text \<open>
  C33: when unpacking ends without an error, it is complete, in whatever order the background tasks ran and whether or not
  the caller cancelled: no header and no task is left, and the path of every file in the archive has been
  announced, so every \<open>Wait\<close> for it returns, unless an error is still waiting in the channel.
\<close>

theorem tar_complete:
  assumes "ua_reach I fs (ua_start entries e w) u" "ua_returned u = Some None"
  shows "ua_entries u = [] \<and> ua_tasks u = []
     \<and> (ua_errs u = [] \<longrightarrow> (\<forall>(h, r)\<in>set entries. \<not> IsDir (th_Mode h) \<longrightarrow>
          resolvePath (th_Name h) \<in> set (ua_emitted u) \<and> Wait_returns u (resolvePath (th_Name h))))"
proof -
  have "ua_inv entries (ua_start entries e w)" by (simp add: ua_inv_def ua_start_def)
  from ua_reach_inv [OF assms(1) this] have inv: "ua_inv entries u" .
  then have "ua_entries u = []" "ua_tasks u = []" using assms(2) by (auto simp: ua_inv_def)
  moreover have "resolvePath (th_Name h) \<in> set (ua_emitted u)" if "ua_errs u = []" "(h, r) \<in> set entries" "\<not> IsDir (th_Mode h)" for h r
  proof -
    have "accounted u h" using inv that(2) \<open>ua_entries u = []\<close> by (force simp: ua_inv_def)
    then show ?thesis using that \<open>ua_tasks u = []\<close> assms(2) by (auto simp: accounted_def failed_def)
  qed
  ultimately show ?thesis by (auto simp: Wait_returns_def)
qed

text \<open>
  C37: unpacking stays within its memory budget. With the pool sizes of \<open>readErr\<close>, all buffers of both pools that any
  number of goroutines ever make hold at most \<open>maxMemory\<close> bytes together.
\<close>

theorem tar_memory_bound:
  assumes "reach pool_step st0 (small, pcs)" "pool_init smallBufMemory smallBufCount st0"
    and "reach pool_step st1 (big, pcs')" "pool_init bigBufMemory bigBufCount st1"
  shows "next_buffer small * pool_size small + next_buffer big * pool_size big \<le> maxMemory"
proof -
  have s: "smallBufMemory = 153600" "bigBufMemory = 4194304" "bigBufCount = 2" "maxMemory = 20971520" "smallBufCount = 81"
    by (simp_all add: smallBufMemory_def bigBufMemory_def bigBufCount_def maxMemory_def smallBufCount_def mebibyte_def kibibyte_def)
  have "next_buffer small \<le> 81" "pool_size small = 153600" "next_buffer big \<le> 2" "pool_size big = 4194304"
    using pool_places(3,5) [OF assms(1,2)] pool_places(3,5) [OF assms(3,4)] by (simp_all add: s)
  then show ?thesis by (simp add: s)
qed

end
