(* ===== verification/Tar_Unpack.thy ===== *)
theory Tar_Unpack
  imports Tar_FS Mem_Fallbacks
begin

section \<open>Unpacking into an in-memory file system\<close>

text \<open>
  The content of an archive's file arrives unchanged, whatever pieces the reader returns and however its size
  compares with the buffers; and an error of a background task can be lost.
\<close>

definition rd_data :: "reader \<Rightarrow> byte list" where
  "rd_data r = concat (rd_chunks r)"

lemma read_loop_data:
  assumes "length acc \<le> n"
  shows "\<exists>e r'. read_loop r n acc = (take n (acc @ rd_data r), e, r') \<and> rd_data r' = drop (n - length acc) (rd_data r)
    \<and> rd_end r' = rd_end r \<and> (length acc + length (rd_data r) < n \<longrightarrow> e = Some (rd_end r))"
  using assms
proof (induction r n acc rule: read_loop.induct)
  case (1 r n acc)
  show ?case
  proof (cases "n \<le> length acc")
    case True
    then show ?thesis using 1(2) by (simp add: read_loop.simps [of r])
  next
    case False
    note IH = 1(1) [OF False]
    show ?thesis
    proof (cases "rd_chunks r")
      case Nil
      then show ?thesis using False by (simp add: read_loop.simps [of r] rd_Read.simps rd_data_def)
    next
      case (Cons c cs)
      show ?thesis
      proof (cases "length c \<le> n - length acc")
        case fits: True
        let ?r = "r\<lparr>rd_chunks := cs\<rparr>"
        show ?thesis
        proof (cases "cs = [] \<and> rd_eager r")
          case True
          then show ?thesis using False Cons fits by (simp add: read_loop.simps [of r] rd_Read.simps rd_data_def)
        next
          case more: False
          then have rd: "rd_Read r (n - length acc) = (c, None, ?r)" using Cons fits by (simp add: rd_Read.simps)
          have "read_loop r n acc = read_loop ?r n (acc @ c)" using False rd by (simp add: read_loop.simps [of r])
          moreover have "drop (n - length acc) (rd_data r) = drop (n - (length acc + length c)) (rd_data ?r)"
            using Cons fits by (simp add: rd_data_def)
          ultimately show ?thesis using IH [OF rd [symmetric] refl refl] fits False Cons by (auto simp: rd_data_def add.assoc)
        qed
      next
        case long: False
        let ?r = "r\<lparr>rd_chunks := drop (n - length acc) c # cs\<rparr>"
        have rd: "rd_Read r (n - length acc) = (take (n - length acc) c, None, ?r)" using Cons long by (simp add: rd_Read.simps)
        have "read_loop r n acc = (acc @ take (n - length acc) c, None, ?r)"
          using False rd long by (simp add: read_loop.simps [of r] read_loop.simps [of ?r])
        then show ?thesis using Cons long False by (auto simp: rd_data_def)
      qed
    qed
  qed
qed

lemma fullReader_data:
  assumes "rd_end r = EOF"
  shows "\<exists>r'. fullReader_Read r n = (take n (rd_data r), if length (rd_data r) < n then Some EOF else None, r')
    \<and> rd_data r' = drop n (rd_data r) \<and> rd_end r' = EOF"
proof -
  obtain e r' where "read_loop r n [] = (take n (rd_data r), e, r')" "rd_data r' = drop n (rd_data r)" "rd_end r' = rd_end r"
      "length (rd_data r) < n \<longrightarrow> e = Some (rd_end r)"
    using read_loop_data [of "[]" n r] by auto
  then show ?thesis using assms by (auto simp: fullReader_Read_def ReadFull_def ErrUnexpectedEOF_def)
qed

lemma CopyBuffer_mem:
  assumes m: "\<not> IsDir m" and b: "0 < b" "int (length data) \<le> max_int64"
    and "mem_ok (W i)" "mem_attached (W i) g q m u" "mem_tree (W i) q = Some \<lparr>n_mode = m, n_modTime = u, n_data = take k data\<rparr>"
      "f_offset g = int k" "f_flag g = create_flags" "k \<le> length data" "rd_data r = drop k data" "rd_end r = EOF"
  shows "\<exists>g' r' w' u'. CopyBuffer (mem_iface cap) b (i, writeOnlyFile g) r W = Some (None, (i, writeOnlyFile g'), r', W(i := w'))
    \<and> mem_ok w' \<and> mem_tree w' = (mem_tree (W i))(q \<mapsto> \<lparr>n_mode = m, n_modTime = u', n_data = data\<rparr>)"
  using assms(4-)
proof (induction "length data - k" arbitrary: k W g u r rule: less_induct)
  case less
  define xs where "xs = take b (drop k data)"
  obtain r' where fr: "fullReader_Read r b = (xs, if length data - k < b then Some EOF else None, r')"
      "rd_data r' = drop b (drop k data)" "rd_end r' = EOF"
    using fullReader_data [OF less.prems(8), of b] less.prems(7) by (auto simp: xs_def)
  note run = CopyBuffer.simps [of "mem_iface cap" b "(i, writeOnlyFile g)" r]
  show ?case
  proof (cases "xs = []")
    case True
    then have k: "k = length data" using less.prems(6) b by (simp add: xs_def)
    then have "(mem_tree (W i))(q \<mapsto> \<lparr>n_mode = m, n_modTime = u, n_data = data\<rparr>) = mem_tree (W i)" using less.prems(3) by auto
    then show ?thesis using fr(1) True k b less.prems(1) by (intro exI [of _ g] exI [of _ r'] exI [of _ "W i"] exI [of _ u]) (simp add: run)
  next
    case False
    have fits: "int k + int (length xs) \<le> max_int64" using b(2) less.prems(6) by (simp add: xs_def)
    obtain g' w2 u' where w: "h_Write mem_ops (writeOnlyFile g) xs (W i) = Some (int (length xs), None, writeOnlyFile g', w2)"
        "mem_ok w2" "mem_attached w2 g' q m u'"
        "mem_tree w2 = (mem_tree (W i))(q \<mapsto> \<lparr>n_mode = m, n_modTime = u', n_data = take (k + b) data\<rparr>)"
        "f_offset g' = int (k + length xs)" "f_flag g' = create_flags"
      using mem_write [OF less.prems(1-3) m, of xs] less.prems(4,5) fits write_at_end [OF less.prems(6) xs_def] by auto
    have step: "CopyBuffer (mem_iface cap) b (i, writeOnlyFile g) r W =
        (if length data - k < b then Some (None, (i, writeOnlyFile g'), r', W(i := w2))
         else CopyBuffer (mem_iface cap) b (i, writeOnlyFile g') r' (W(i := w2)))"
      using fr(1) False w(1) by (simp add: run WriteFile_def mf_count_def)
    show ?thesis
    proof (cases "length data - k < b")
      case True
      then show ?thesis using step w by auto
    next
      case more: False
      then have l: "length xs = b" using less.prems(6) by (simp add: xs_def)
      have "length data - (k + b) < length data - k" using more b(1) less.prems(6) False by (simp add: xs_def)
      from less.hyps [OF this, of "W(i := w2)" g' u' r'] show ?thesis
        using step more w l fr less.prems(6) by (auto simp: add.commute)
    qed
  qed
qed

lemma mem_write_open:
  assumes "mem_ok w" "mem_attached w g p m u" "mem_tree w p = Some \<lparr>n_mode = m, n_modTime = u, n_data = []\<rparr>"
    "\<not> IsDir m" "f_offset g = 0" "f_flag g = create_flags" "int (length xs) \<le> max_int64"
  shows "\<exists>g' w' u'. h_Write mem_ops (writeOnlyFile g) xs w = Some (int (length xs), None, writeOnlyFile g', w')
    \<and> mem_ok w' \<and> mem_attached w' g' p m u' \<and> mem_tree w' = (mem_tree w)(p \<mapsto> \<lparr>n_mode = m, n_modTime = u', n_data = xs\<rparr>)
    \<and> f_offset g' = int (length xs) \<and> f_flag g' = create_flags"
  using mem_write [OF assms(1-4), of xs] assms(5-7) by auto

lemma file_unpacked:
  assumes "mem_ok (W i)" "can_create (mem_tree (W i)) p" "p = resolvePath (th_Name h)" "ValidPath p" "p \<noteq> dot"
    and "\<not> IsDir (th_Mode h)" "rd_end r = EOF" "data = rd_data r" "0 < big" "int (length data) \<le> max_int64"
  shows "\<exists>tasks announced cache' W1 W2 t.
      readProcessFile (mem_iface cap) i small big False h r [] W = Some (None, tasks, announced, cache', W1)
    \<and> (if length data < small
       then tasks = [Write_task p (th_Mode h) data] \<and> announced = []
          \<and> writeFile (mem_iface cap) i p (th_Mode h) data None W1 = Some (None, True, None, W2)
       else tasks = [] \<and> announced = [p] \<and> W2 = W1)
    \<and> mem_tree (W2 i) p = Some \<lparr>n_mode = th_Mode h AND ModePerm, n_modTime = t, n_data = data\<rparr>
    \<and> (\<forall>q. mem_tree (W i) q \<noteq> None \<longrightarrow> mem_tree (W2 i) q = mem_tree (W i) q)"
proof -
  let ?I = "mem_iface cap" and ?m = "th_Mode h AND ModePerm"
  obtain w1 g w2 u where o: "MkdirAll ?I i (Dir p) 0x1C0 W = Some (None, W(i := w1))"
      "mem_OpenFile p create_flags (th_Mode h) w1 = Some (Some (writeOnlyFile g), None, w2)" "mem_ok w2"
      "mem_tree w2 p = Some \<lparr>n_mode = ?m, n_modTime = u, n_data = []\<rparr>"
      "\<forall>q. mem_tree (W i) q \<noteq> None \<longrightarrow> mem_tree w2 q = mem_tree (W i) q"
      "mem_attached w2 g p ?m u" "f_offset g = 0" "f_flag g = create_flags"
    using mem_create_file [of W i p cap "th_Mode h"] assms(1,2,4,5) by blast
  have old: "\<forall>q. mem_tree (W i) q \<noteq> None \<longrightarrow> ((mem_tree w2)(p \<mapsto> nd)) q = mem_tree (W i) q" for nd
    using o(5) assms(2) by (auto simp: can_create_def)
  obtain r' where fr: "fullReader_Read r small = (take small data, if length data < small then Some EOF else None, r')"
      "rd_data r' = drop small data" "rd_end r' = EOF"
    using fullReader_data [OF assms(7), of small] assms(8) by auto
  have mk: "cachedMkdirAll ?I i (Dir p) 0x1C0 [] W = Some (None, [Dir p], W(i := w1))"
    using o(1) by (simp add: cachedMkdirAll_def)
  have len: "int (length (take small data)) \<le> max_int64" using assms(10) by simp
  obtain g1 w3 u3 where w: "h_Write mem_ops (writeOnlyFile g) (take small data) w2 = Some (int (length (take small data)), None, writeOnlyFile g1, w3)"
      "mem_ok w3" "mem_attached w3 g1 p ?m u3" "mem_tree w3 = (mem_tree w2)(p \<mapsto> \<lparr>n_mode = ?m, n_modTime = u3, n_data = take small data\<rparr>)"
      "f_offset g1 = int (length (take small data))" "f_flag g1 = create_flags"
    using mem_write_open [OF o(3,6,4) IsDir_perm o(7,8) len] by blast
  show ?thesis
  proof (cases "length data < small")
    case True
    obtain e c where "h_Close (writeOnlyFile g1) = (e, c)" by fastforce
    then have "writeFile ?I i p (th_Mode h) data None (W(i := w1)) = Some (None, True, None, W(i := w3))"
      using o(2) w(1) True by (simp add: writeFile_def run_open_def mf_count_def)
    then show ?thesis using True fr(1) mk assms(3,6) w(4) old by (fastforce simp: readProcessFile_def Let_def)
  next
    case False
    obtain g2 r2 w4 u4 where cp: "CopyBuffer ?I big (i, writeOnlyFile g1) r' (W(i := w3)) = Some (None, (i, writeOnlyFile g2), r2, W(i := w4))"
        "mem_ok w4" "mem_tree w4 = (mem_tree w3)(p \<mapsto> \<lparr>n_mode = ?m, n_modTime = u4, n_data = data\<rparr>)"
      using CopyBuffer_mem [of ?m big data "W(i := w3)" i g1 p u3 small r' cap] assms(9,10) w fr(2,3) False by auto
    obtain e c where "h_Close (writeOnlyFile g2) = (e, c)" by fastforce
    then have "writeFile ?I i p (th_Mode h) (take small data) (Some (r', big)) (W(i := w1)) = Some (None, True, Some r2, W(i := w4))"
      using o(2) w(1) cp(1) by (simp add: writeFile_def run_open_def mf_count_def WithMessage_def)
    then show ?thesis using False fr(1) mk assms(3,6) cp(3) w(4) old by (fastforce simp: readProcessFile_def Let_def)
  qed
qed

text \<open>
  C32: a file of the archive is unpacked byte for byte. For every way the reader may cut the content into pieces, and every
  size of the buffers, a file entry is processed without error: either it is written at once and announced, or, when it
  is shorter than a small buffer, one task is left in the background, which writes and announces it when it
  runs. In both cases the destination then has exactly the content of the entry, with its permission bits, below
  directories that were created as needed, and what was there before is unchanged.
\<close>

theorem tar_file_unpacked:
  assumes "mem_ok (W i)" "can_create (mem_tree (W i)) p" "p = resolvePath (th_Name h)" "ValidPath p" "p \<noteq> dot"
    and "\<not> IsDir (th_Mode h)" "rd_end r = EOF" "data = rd_data r" "0 < big" "int (length data) \<le> max_int64"
  shows "\<exists>tasks announced cache' W1 W2 t.
      readProcessFile (mem_iface cap) i small big False h r [] W = Some (None, tasks, announced, cache', W1)
    \<and> (if length data < small
       then tasks = [Write_task p (th_Mode h) data] \<and> announced = []
          \<and> writeFile (mem_iface cap) i p (th_Mode h) data None W1 = Some (None, True, None, W2)
       else tasks = [] \<and> announced = [p] \<and> W2 = W1)
    \<and> mem_tree (W2 i) p = Some \<lparr>n_mode = th_Mode h AND ModePerm, n_modTime = t, n_data = data\<rparr>
    \<and> (\<forall>q. mem_tree (W i) q \<noteq> None \<longrightarrow> mem_tree (W2 i) q = mem_tree (W i) q)"
  by (rule file_unpacked [where W = W and i = i, OF assms])

text \<open>An archive with one small file.\<close>

definition demo_header :: tar_header where
  "demo_header = \<lparr>th_Name = ''./n'', th_Mode = 0x1A4\<rparr>"

definition demo_reader :: reader where
  "demo_reader = \<lparr>rd_chunks = [[1], [2, 3]], rd_end = EOF, rd_eager = True\<rparr>"

lemma demo_archive:
  "resolvePath (th_Name demo_header) = ''n''" "ValidPath ''n''" "rd_end demo_reader = EOF" "rd_data demo_reader = [1, 2, 3]"
  "\<not> IsDir (th_Mode demo_header)" "mem_ok (demo_mems 0)" "can_create (mem_tree (demo_mems 0)) ''n''"
proof -
  have d: "Dir ''n'' = dot" using Dir_snoc [of "[]" "''n''"] by (simp add: demo_valid path_of_def ok_elem_def valid_elem_def utf8_valid_def utf8_lead_def)
  show "can_create (mem_tree (demo_mems 0)) ''n''"
    using demo_closed by (simp add: can_create_def demo_mems_def d ancestors_def elems_def demo_tree is_dir_def demo_modes)
  show "resolvePath (th_Name demo_header) = ''n''"
    by (simp add: demo_header_def resolvePath_def Clean_def clean_step_def TrimPrefix_def HasPrefix_def)
  show "ValidPath ''n''" by (simp add: ValidPath_def valid_elem_def utf8_valid_def utf8_lead_def)
  show "mem_ok (demo_mems 0)" using demo_ok by (simp add: demo_mems_def)
qed (simp_all add: demo_reader_def rd_data_def demo_header_def demo_modes)

lemmas demo_entry = demo_archive(6,7) demo_archive(1) [symmetric] demo_archive(2)

theorem tar_file_unpacked_witness:
  "\<exists>cache' W1 t. readProcessFile (mem_iface (\<lambda>_. 0)) 0 2 2 False demo_header demo_reader [] demo_mems = Some (None, [], [''n''], cache', W1)
     \<and> mem_tree (W1 0) ''n'' = Some \<lparr>n_mode = th_Mode demo_header AND ModePerm, n_modTime = t, n_data = [1, 2, 3]\<rparr>"
proof -
  have *: "''n'' \<noteq> dot" "0 < (2::nat)" "int (length [1, 2, 3 :: byte]) \<le> max_int64" "\<not> length [1, 2, 3 :: byte] < 2"
    by (simp_all add: max_int64_def)
  from tar_file_unpacked [where W = demo_mems and i = 0 and cap = "\<lambda>_. 0" and small = 2,
      OF demo_entry *(1) demo_archive(5,3) demo_archive(4) [symmetric] *(2,3)]
  show ?thesis unfolding if_not_P [OF *(4)] by metis
qed

theorem tar_complete_witness:
  "\<exists>u. ua_reach (mem_iface (\<lambda>_. 0)) 0 (ua_start [(demo_header, demo_reader)] EOF demo_mems) u \<and> ua_returned u = Some None
     \<and> ua_tasks u = [] \<and> ''n'' \<in> set (ua_emitted u)"
proof -
  let ?I = "mem_iface (\<lambda>_. 0)" and ?u = "ua_start [(demo_header, demo_reader)] EOF demo_mems"
  have *: "''n'' \<noteq> dot" "0 < bigBufMemory" "int (length [1, 2, 3 :: byte]) \<le> max_int64" "length [1, 2, 3 :: byte] < smallBufMemory"
    by (simp_all add: max_int64_def bigBufMemory_def mebibyte_def smallBufMemory_def kibibyte_def)
  obtain cache' W1 W2 where f:
      "readProcessFile ?I 0 smallBufMemory bigBufMemory False demo_header demo_reader [] demo_mems
         = Some (None, [Write_task ''n'' (th_Mode demo_header) [1, 2, 3]], [], cache', W1)"
      "writeFile ?I 0 ''n'' (th_Mode demo_header) [1, 2, 3] None W1 = Some (None, True, None, W2)"
    using file_unpacked [where W = demo_mems and i = 0 and cap = "\<lambda>_. 0" and small = smallBufMemory,
      OF demo_entry *(1) demo_archive(5,3) demo_archive(4) [symmetric] *(2,3)] unfolding if_P [OF *(4)] by metis
  let ?u1 = "?u\<lparr>ua_entries := [], ua_cache := cache', ua_tasks := [Write_task ''n'' (th_Mode demo_header) [1, 2, 3]], ua_world := W1\<rparr>"
  let ?u2 = "?u1\<lparr>ua_world := W2, ua_emitted := [''n''], ua_tasks := []\<rparr>"
  have "ua_step ?I 0 ?u ?u1" by (rule ua_loop [where us = "[?u1]"]) (simp_all add: loop_step_def f(1) ua_start_def)
  moreover have "ua_step ?I 0 ?u1 ?u2" by (rule ua_task [where k = 0 and us = "[?u2]"]) (simp_all add: task_step_def f(2) ua_start_def Let_def)
  moreover have "ua_step ?I 0 ?u2 (?u2\<lparr>ua_returned := Some None\<rparr>)" by (rule ua_end) (simp_all add: end_step_def ua_start_def)
  ultimately have r: "ua_reach ?I 0 ?u (?u2\<lparr>ua_returned := Some None\<rparr>)" by (blast intro: ua_refl ua_trans)
  have "ua_returned (?u2\<lparr>ua_returned := Some None\<rparr>) = Some None" by simp
  from tar_complete [OF r this] r show ?thesis using demo_archive(1,5)
    by (intro exI [of _ "?u2\<lparr>ua_returned := Some None\<rparr>"]) (simp add: ua_start_def)
qed


text \<open>One goroutine uses a small buffer, none a big one.\<close>

theorem tar_memory_bound_witness:
  "next_buffer (the (newBufferPool smallBufMemory smallBufCount)) * smallBufMemory
     + next_buffer (the (newBufferPool bigBufMemory bigBufCount)) * bigBufMemory \<le> maxMemory"
proof -
  have c: "int smallBufCount \<le> max_int64" "int bigBufCount \<le> max_int64"
    by (simp_all add: smallBufCount_def bigBufCount_def max_int64_def maxMemory_def mebibyte_def bigBufMemory_def smallBufMemory_def kibibyte_def)
  have i: "pool_init smallBufMemory smallBufCount (the (newBufferPool smallBufMemory smallBufCount), [Idle])"
    "pool_init bigBufMemory bigBufCount (the (newBufferPool bigBufMemory bigBufCount), [])"
    using c by (simp_all add: pool_init_def newBufferPool_eq)
  have r: "reach pool_step (the (newBufferPool smallBufMemory smallBufCount), [Idle])
      (the (newBufferPool smallBufMemory smallBufCount), [Idle][0 := At_Wait])"
    by (rule reach_step [OF reach_init]) simp_all
  show ?thesis
    using tar_memory_bound [OF r i(1) reach_init i(2)] by (simp add: newBufferPool_eq)
qed


subsection \<open>A lost error\<close>

lemma mem_OpenFile_invalid:
  assumes "mem_ok w" "\<not> ValidPath p"
  shows "\<exists>h w'. mem_OpenFile p flag perm w = Some (h, Some (PathError ''open'' p ErrInvalid), w')"
proof -
  obtain h e w' where "mem_OpenFile p flag perm w = Some (h, e, w')" "(e, mem_tree w', h \<noteq> None) = spec_OpenFile (mem_tree w) p flag perm (now w)"
    using mem.OpenFile_refines [OF assms(1) [unfolded mem_ok_def], of p flag perm] unfolding mem_abs_defs mem_FS_defs by blast
  then show ?thesis using assms(2) by (auto simp: spec_OpenFile_def spec_get_def)
qed

text \<open>
  An error of the last files can be lost. An archive whose only file is called \<open>..\<close> cannot be unpacked: the background
  task that writes it fails. But when it has sent its error and finished, \<open>readErr\<close> finds both the error and the end of
  all tasks, and may choose the latter: \<open>Done\<close> is closed, \<open>UnarchiveErr\<close> is nil, and the file is missing.
\<close>

theorem tar_error_lost:
  assumes "mem_ok (W i)" "is_dir (mem_tree (W i)) dot" "rd_end r = EOF" "length (rd_data r) < smallBufMemory"
  shows "\<exists>u. ua_reach (mem_iface cap) i (ua_start [(\<lparr>th_Name = dotdot, th_Mode = 0x1A4\<rparr>, r)] EOF W) u
    \<and> tar_Done u \<and> UnarchiveErr u = None \<and> ua_emitted u = [] \<and> ua_errs u \<noteq> []"
proof -
  let ?I = "mem_iface cap" and ?h = "\<lparr>th_Name = dotdot, th_Mode = 0x1A4\<rparr>"
  let ?u = "ua_start [(?h, r)] EOF W"
  have n: "resolvePath dotdot = dotdot" "Dir dotdot = dot" "\<not> ValidPath dotdot"
    by (simp_all add: resolvePath_def Clean_def clean_step_def TrimPrefix_def HasPrefix_def Dir_def path_Split_def ValidPath_def valid_elem_def)
  obtain e w1 where m: "mem_MkdirAll dot 0x1C0 (W i) = Some (e, w1)" "mem_ok w1"
      "(e, mem_tree w1) = spec_MkdirAll (mem_tree (W i)) dot 0x1C0 (w_clock (W i)) (w_tick (W i))"
    using mem.MkdirAll_refines [OF assms(1) [unfolded mem_ok_def], of dot "0x1C0"] by (auto simp: mem_abs_defs mem_FS_defs)
  then have "e = None" using spec_MkdirAll_existing [OF ValidPath_dot assms(2)] by simp
  then have mk: "cachedMkdirAll ?I i dot 0x1C0 [] W = Some (None, [dot], W(i := w1))"
    using m(1) by (simp add: cachedMkdirAll_def MkdirAll.simps [of _ i] run_err_def)
  obtain r' where "fullReader_Read r smallBufMemory = (rd_data r, Some EOF, r')"
    using fullReader_data [OF assms(3), of smallBufMemory] assms(4) by auto
  then have proc: "readProcessFile ?I i smallBufMemory bigBufMemory False ?h r [] W
      = Some (None, [Write_task dotdot 0x1A4 (rd_data r)], [], [dot], W(i := w1))"
    using mk n demo_modes(2) by (simp add: readProcessFile_def Let_def)
  obtain h w2 where "mem_OpenFile dotdot create_flags 0x1A4 w1 = Some (h, Some (PathError ''open'' dotdot ErrInvalid), w2)"
    using mem_OpenFile_invalid [OF m(2) n(3)] by blast
  then obtain e2 W2 where wf: "writeFile ?I i dotdot 0x1A4 (rd_data r) None (W(i := w1)) = Some (Some e2, False, None, W2)"
    by (simp add: writeFile_def run_open_def WithMessage_def)
  let ?u1 = "?u\<lparr>ua_entries := [], ua_cache := [dot], ua_tasks := [Write_task dotdot 0x1A4 (rd_data r)], ua_world := W(i := w1)\<rparr>"
  let ?u2 = "?u1\<lparr>ua_world := W2, ua_tasks := [Send_task e2]\<rparr>"
  let ?u3 = "?u2\<lparr>ua_errs := [e2], ua_tasks := []\<rparr>"
  let ?u4 = "?u3\<lparr>ua_returned := Some None\<rparr>"
  have s1: "ua_step ?I i ?u ?u1" by (rule ua_loop [where us = "[?u1]"]) (simp_all add: loop_step_def proc ua_start_def)
  have s2: "ua_step ?I i ?u1 ?u2" by (rule ua_task [where k = 0 and us = "[?u2]"]) (simp_all add: task_step_def wf ua_start_def Let_def)
  have s3: "ua_step ?I i ?u2 ?u3" by (rule ua_task [where k = 0 and us = "[?u3]"]) (simp_all add: task_step_def ua_start_def Let_def)
  have s4: "ua_step ?I i ?u3 ?u4" by (rule ua_end) (simp_all add: end_step_def ua_start_def)
  have s5: "ua_step ?I i ?u4 (?u4\<lparr>ua_ctx_done := True, ua_reader_done := True\<rparr>)"
    by (rule ua_finish [where e = None]) (simp_all add: ua_start_def)
  have "ua_reach ?I i ?u (?u4\<lparr>ua_ctx_done := True, ua_reader_done := True\<rparr>)" 
    by (rule ua_trans [OF ua_trans [OF ua_trans [OF ua_trans [OF ua_trans [OF ua_refl s1] s2] s3] s4] s5])
  then show ?thesis
    by (intro exI [of _ "?u4\<lparr>ua_ctx_done := True, ua_reader_done := True\<rparr>"]) (simp add: tar_Done_def UnarchiveErr_def ua_start_def)
qed

theorem tar_error_lost_witness:
  "\<exists>u. ua_reach (mem_iface (\<lambda>_. 0)) 0 (ua_start [(\<lparr>th_Name = dotdot, th_Mode = 0x1A4\<rparr>, demo_reader)] EOF demo_mems) u
     \<and> tar_Done u \<and> UnarchiveErr u = None \<and> ua_emitted u = [] \<and> ua_errs u \<noteq> []"
proof (rule tar_error_lost [where W = demo_mems and i = 0])
  show "is_dir (mem_tree (demo_mems 0)) dot" by (simp add: demo_mems_def demo_tree is_dir_def demo_modes)
  show "length (rd_data demo_reader) < smallBufMemory" using demo_archive(4) by (simp add: smallBufMemory_def kibibyte_def)
qed (rule demo_archive)+

end
