(* ===== verification/Blob_Iface.thy ===== *)
theory Blob_Iface
  imports KV_Record
begin

section \<open>Package \<open>keyvalue/blob\<close>: the interfaces and their helpers (\<open>blob.go\<close>, \<open>io.go\<close>)\<close>

text \<open>
  A \<open>Blob\<close> is an interface value: a value of a type \<open>'b\<close> with a table \<open>blob_iface\<close> of methods. \<open>Bytes\<close> and \<open>Len\<close>
  always exist; the methods of \<open>ViewBlob\<close>, \<open>SliceBlob\<close>, \<open>SetBlob\<close>, \<open>GrowBlob\<close> and \<open>TruncateBlob\<close> are optional, so that a
  type assertion is a case distinction. \<open>bi_Bytes\<close> takes the mutexes that the calling goroutine holds: waiting
  for one of them never ends. \<open>bi_ofBytes\<close> is the conversion of a \<open>*Bytes\<close> to the interface.

  The helpers use the method if there is one and otherwise work on a new \<open>Bytes\<close> made of \<open>b.Bytes()\<close>. The
  locale \<open>blob_reader\<close> is what they rely on; in it the fallbacks of \<open>View\<close> and \<open>Slice\<close> are shown to return the right
  bytes, and those of \<open>Set\<close>, \<open>Grow\<close> and \<open>Truncate\<close> to leave the blob as it was.
\<close>

subsection \<open>Interfaces\<close>

record ('b, 'w) blob_iface =
  bi_ofBytes :: "bref \<Rightarrow> 'b"
  bi_Bytes :: "nat list \<Rightarrow> 'b \<Rightarrow> 'w \<Rightarrow> (slice \<times> 'w) option"
  bi_Len :: "'b \<Rightarrow> 'w \<Rightarrow> int"
  bi_View :: "'b \<Rightarrow> (int \<Rightarrow> int \<Rightarrow> 'w \<Rightarrow> ((err + 'b) \<times> 'w) option) option"
  bi_Slice :: "'b \<Rightarrow> (int \<Rightarrow> int \<Rightarrow> 'w \<Rightarrow> ((err + 'b) \<times> 'w) option) option"
  bi_Set :: "'b \<Rightarrow> ('b \<Rightarrow> int \<Rightarrow> 'w \<Rightarrow> ((int \<times> err option) \<times> 'w) option) option"
  bi_Grow :: "'b \<Rightarrow> (int \<Rightarrow> 'w \<Rightarrow> (err option \<times> 'w) option) option"
  bi_Truncate :: "'b \<Rightarrow> (int \<Rightarrow> 'w \<Rightarrow> (err option \<times> 'w) option) option"

text \<open>\<open>Bytes.Bytes\<close> by a goroutine that holds mutexes, and \<open>Bytes.Set\<close> with any blob as the source.\<close>

definition Bytes_Bytes_held :: "nat list \<Rightarrow> bref \<Rightarrow> 's world \<Rightarrow> (slice \<times> 's world) option" where
  "Bytes_Bytes_held held b w =
     (if mu_f (h_obj (w_heap w) b) \<in> set held then None else on_heap (Bytes_Bytes b) w)"

definition Bytes_Set_blob ::
  "('b, 's world) blob_iface \<Rightarrow> bref \<Rightarrow> 'b \<Rightarrow> int \<Rightarrow> 's world \<Rightarrow> ((int \<times> err option) \<times> 's world) option" where
  "Bytes_Set_blob I b src destStart w =
     (if destStart < 0 then Some ((0, Some (ErrorString ''negative offset'')), w)
      else if destStart \<ge> Bytes_Len (w_heap w) b \<and> destStart = 0 \<and> bi_Len I src w > 0
      then Some ((0, Some (ErrorString (''Offset out of bounds: '' @ fmt_d destStart))), w)
      else do {
        dst \<leftarrow> reslice (bytes_f (h_obj (w_heap w) b)) destStart (int (sl_len (bytes_f (h_obj (w_heap w) b))));
        (buf, w) \<leftarrow> bi_Bytes I [mu_f (h_obj (w_heap w) b)] src w;
        let (n, h) = copy_into dst (slice_get (w_heap w) buf) (w_heap w);
        Some ((int n, None), w\<lparr>w_heap := h\<rparr>)
      })"

definition in_blob :: "(bref \<Rightarrow> 'b) \<Rightarrow> ((err + bref) \<times> 'w) \<Rightarrow> ((err + 'b) \<times> 'w)" where
  "in_blob c = map_prod (map_sum id c) id"

definition new_of_Bytes :: "('b, 's world) blob_iface \<Rightarrow> 'b \<Rightarrow> 's world \<Rightarrow> (bref \<times> 's world) option" where
  "new_of_Bytes I b w =
     do { (buf, w) \<leftarrow> bi_Bytes I [] b w;
          let (nb, h) = NewBytes buf (w_heap w);
          Some (nb, w\<lparr>w_heap := h\<rparr>) }"


subsection \<open>Helpers of \<open>blob.go\<close>\<close>

definition blob_View ::
  "('b, 's world) blob_iface \<Rightarrow> 'b \<Rightarrow> int \<Rightarrow> int \<Rightarrow> 's world \<Rightarrow> ((err + 'b) \<times> 's world) option" where
  "blob_View I b start end w =
     (case bi_View I b of
        Some view \<Rightarrow> view start end w
      | None \<Rightarrow> do {
          (nb, w) \<leftarrow> new_of_Bytes I b w;
          map_option (in_blob (bi_ofBytes I)) (on_heap (Bytes_View nb start end) w)
        })"

definition blob_Slice ::
  "('b, 's world) blob_iface \<Rightarrow> 'b \<Rightarrow> int \<Rightarrow> int \<Rightarrow> 's world \<Rightarrow> ((err + 'b) \<times> 's world) option" where
  "blob_Slice I b start end w =
     (case bi_Slice I b of
        Some sl \<Rightarrow> sl start end w
      | None \<Rightarrow> do {
          (nb, w) \<leftarrow> new_of_Bytes I b w;
          map_option (in_blob (bi_ofBytes I)) (on_heap (Bytes_Slice nb start end) w)
        })"

definition blob_Set ::
  "('b, 's world) blob_iface \<Rightarrow> 'b \<Rightarrow> 'b \<Rightarrow> int \<Rightarrow> 's world \<Rightarrow> ((int \<times> err option) \<times> 's world) option" where
  "blob_Set I dest src offset w =
     (case bi_Set I dest of
        Some st \<Rightarrow> st src offset w
      | None \<Rightarrow> do { (nb, w) \<leftarrow> new_of_Bytes I dest w; Bytes_Set_blob I nb src offset w })"

definition blob_Grow ::
  "('b, 's world) blob_iface \<Rightarrow> 'b \<Rightarrow> int \<Rightarrow> 's world \<Rightarrow> (err option \<times> 's world) option" where
  "blob_Grow I b offset w =
     (case bi_Grow I b of
        Some grow \<Rightarrow> grow offset w
      | None \<Rightarrow> do { (nb, w) \<leftarrow> new_of_Bytes I b w; on_heap (Bytes_Grow nb offset) w })"

definition blob_Truncate ::
  "('b, 's world) blob_iface \<Rightarrow> 'b \<Rightarrow> int \<Rightarrow> 's world \<Rightarrow> (err option \<times> 's world) option" where
  "blob_Truncate I b sz w =
     (case bi_Truncate I b of
        Some trunc \<Rightarrow> trunc sz w
      | None \<Rightarrow> do { (nb, w) \<leftarrow> new_of_Bytes I b w; on_heap (Bytes_Truncate nb sz) w })"


subsection \<open>Helpers of \<open>io.go\<close>\<close>

text \<open>
  A reader or writer is a value of a type \<open>'f\<close>. \<open>Read\<close> fills a buffer of the caller and returns the number of
  bytes; \<open>ReadBlob\<close> and the other methods of \<open>Reader\<close>, \<open>ReaderAt\<close>, \<open>Writer\<close> and \<open>WriterAt\<close> are optional.
\<close>

record ('f, 'b, 'w) blob_io =
  io_Read :: "'f \<Rightarrow> slice \<Rightarrow> 'w \<Rightarrow> ((int \<times> err option) \<times> 'f \<times> 'w) option"
  io_ReadAt :: "'f \<Rightarrow> slice \<Rightarrow> int \<Rightarrow> 'w \<Rightarrow> ((int \<times> err option) \<times> 'f \<times> 'w) option"
  io_Write :: "'f \<Rightarrow> slice \<Rightarrow> 'w \<Rightarrow> ((int \<times> err option) \<times> 'f \<times> 'w) option"
  io_WriteAt :: "'f \<Rightarrow> slice \<Rightarrow> int \<Rightarrow> 'w \<Rightarrow> ((int \<times> err option) \<times> 'f \<times> 'w) option"
  io_ReadBlob :: "'f \<Rightarrow> (int \<Rightarrow> 'w \<Rightarrow> (('b option \<times> int \<times> err option) \<times> 'f \<times> 'w) option) option"
  io_ReadBlobAt :: "'f \<Rightarrow> (int \<Rightarrow> int \<Rightarrow> 'w \<Rightarrow> (('b option \<times> int \<times> err option) \<times> 'f \<times> 'w) option) option"
  io_WriteBlob :: "'f \<Rightarrow> ('b \<Rightarrow> 'w \<Rightarrow> ((int \<times> err option) \<times> 'f \<times> 'w) option) option"
  io_WriteBlobAt :: "'f \<Rightarrow> ('b \<Rightarrow> int \<Rightarrow> 'w \<Rightarrow> ((int \<times> err option) \<times> 'f \<times> 'w) option) option"

text \<open>\<open>make([]byte, length)\<close>, a call that fills the buffer, and \<open>NewBytes(buf)\<close>.\<close>

definition read_new ::
  "('b, 's world) blob_iface \<Rightarrow> int \<Rightarrow>
   (slice \<Rightarrow> 's world \<Rightarrow> ((int \<times> err option) \<times> 'f \<times> 's world) option) \<Rightarrow> 's world \<Rightarrow>
   (('b option \<times> int \<times> err option) \<times> 'f \<times> 's world) option" where
  "read_new I len rd w =
     (if len < 0 then None
      else let (buf, h) = new_array (replicate (nat len) 0) 0 (w_heap w) in do {
        ((n, e), f, w) \<leftarrow> rd buf (w\<lparr>w_heap := h\<rparr>);
        let (nb, h) = NewBytes buf (w_heap w);
        Some ((Some (bi_ofBytes I nb), n, e), f, w\<lparr>w_heap := h\<rparr>)
      })"

definition blob_Read ::
  "('b, 's world) blob_iface \<Rightarrow> ('f, 'b, 's world) blob_io \<Rightarrow> 'f \<Rightarrow> int \<Rightarrow> 's world \<Rightarrow>
   (('b option \<times> int \<times> err option) \<times> 'f \<times> 's world) option" where
  "blob_Read I R src len w =
     (case io_ReadBlob R src of
        Some rd \<Rightarrow> rd len w
      | None \<Rightarrow> read_new I len (io_Read R src) w)"

definition blob_ReadAt ::
  "('b, 's world) blob_iface \<Rightarrow> ('f, 'b, 's world) blob_io \<Rightarrow> 'f \<Rightarrow> int \<Rightarrow> int \<Rightarrow> 's world \<Rightarrow>
   (('b option \<times> int \<times> err option) \<times> 'f \<times> 's world) option" where
  "blob_ReadAt I R src len srcOffset w =
     (case io_ReadBlobAt R src of
        Some rd \<Rightarrow> rd len srcOffset w
      | None \<Rightarrow> read_new I len (\<lambda>buf. io_ReadAt R src buf srcOffset) w)"

definition blob_Write ::
  "('b, 's world) blob_iface \<Rightarrow> ('f, 'b, 's world) blob_io \<Rightarrow> 'f \<Rightarrow> 'b \<Rightarrow> 's world \<Rightarrow>
   ((int \<times> err option) \<times> 'f \<times> 's world) option" where
  "blob_Write I R dest src w =
     (case io_WriteBlob R dest of
        Some wr \<Rightarrow> wr src w
      | None \<Rightarrow> do { (buf, w) \<leftarrow> bi_Bytes I [] src w; io_Write R dest buf w })"

definition blob_WriteAt ::
  "('b, 's world) blob_iface \<Rightarrow> ('f, 'b, 's world) blob_io \<Rightarrow> 'f \<Rightarrow> 'b \<Rightarrow> int \<Rightarrow> 's world \<Rightarrow>
   ((int \<times> err option) \<times> 'f \<times> 's world) option" where
  "blob_WriteAt I R dest src destOffset w =
     (case io_WriteBlobAt R dest of
        Some wr \<Rightarrow> wr src destOffset w
      | None \<Rightarrow> do { (buf, w) \<leftarrow> bi_Bytes I [] src w; io_WriteAt R dest buf destOffset w })"


subsection \<open>The interface of \<open>*Bytes\<close>\<close>

definition bytes_reader :: "(bref, 's world) blob_iface" where
  "bytes_reader = \<lparr>bi_ofBytes = id, bi_Bytes = Bytes_Bytes_held,
     bi_Len = (\<lambda>b w. Bytes_Len (w_heap w) b),
     bi_View = (\<lambda>_. None), bi_Slice = (\<lambda>_. None), bi_Set = (\<lambda>_. None), bi_Grow = (\<lambda>_. None),
     bi_Truncate = (\<lambda>_. None)\<rparr>"

definition bytes_iface :: "(bref, 's world) blob_iface" where
  "bytes_iface = bytes_reader
     \<lparr>bi_View := (\<lambda>b. Some (\<lambda>start end. on_heap (Bytes_View b start end))),
      bi_Slice := (\<lambda>b. Some (\<lambda>start end. on_heap (Bytes_Slice b start end))),
      bi_Set := (\<lambda>b. Some (Bytes_Set_blob bytes_reader b)),
      bi_Grow := (\<lambda>b. Some (\<lambda>offset. on_heap (Bytes_Grow b offset))),
      bi_Truncate := (\<lambda>b. Some (\<lambda>sz. on_heap (Bytes_Truncate b sz)))\<rparr>"

subsection \<open>The helpers on \<open>*Bytes\<close>\<close>

lemma on_heap_cases: "on_heap f w = (case f (w_heap w) of None \<Rightarrow> None | Some (x, h) \<Rightarrow> Some (x, w\<lparr>w_heap := h\<rparr>))"
  by (simp add: on_heap_def split: option.split)

text \<open>\<open>Bytes.Set\<close> with a \<open>*Bytes\<close> as the source is the method of theory \<open>Blob\<close>.\<close>

lemma Bytes_Set_blob_Bytes:
  assumes "bi_Bytes I = Bytes_Bytes_held" "bi_Len I = (\<lambda>b w. Bytes_Len (w_heap w) b)"
  shows "Bytes_Set_blob I b src d w = on_heap (Bytes_Set b src d) w"
proof (cases "mu_f (h_obj (w_heap w) src) = mu_f (h_obj (w_heap w) b)")
  case True
  then show ?thesis
    by (auto simp: Bytes_Set_blob_def Bytes_Set_def on_heap_cases assms Bytes_Bytes_held_def
        split: option.splits Option.bind_splits)
next
  case False
  then show ?thesis
    by (simp add: Bytes_Set_blob_def Bytes_Set_def on_heap_cases assms Bytes_Bytes_held_def Let_def
        split: option.splits Option.bind_splits prod.splits)
qed

lemma bytes_iface_sel [simp]:
  "bi_ofBytes bytes_iface = id" "bi_Bytes bytes_iface = Bytes_Bytes_held"
  "bi_Len bytes_iface = (\<lambda>b w. Bytes_Len (w_heap w) b)"
  "bi_ofBytes bytes_reader = id" "bi_Bytes bytes_reader = Bytes_Bytes_held"
  "bi_Len bytes_reader = (\<lambda>b w. Bytes_Len (w_heap w) b)"
  by (simp_all add: bytes_iface_def bytes_reader_def)

text \<open>On \<open>*Bytes\<close> each helper is the method, so the file operations of \<open>keyvalue\<close>, which call the helpers, are right to
  be modelled with the methods.\<close>

lemma blob_helpers_Bytes:
  "blob_View bytes_iface b i j w = on_heap (Bytes_View b i j) w"
  "blob_Slice bytes_iface b i j w = on_heap (Bytes_Slice b i j) w"
  "blob_Set bytes_iface b src d w = on_heap (Bytes_Set b src d) w"
  "blob_Grow bytes_iface b n w = on_heap (Bytes_Grow b n) w"
  "blob_Truncate bytes_iface b n w = on_heap (Bytes_Truncate b n) w"
  by (simp_all add: blob_View_def blob_Slice_def blob_Set_def blob_Grow_def blob_Truncate_def
      bytes_iface_def Bytes_Set_blob_Bytes)


subsection \<open>What the fallbacks rely on\<close>

text \<open>No existing blob changes.\<close>

definition keeps :: "heap \<Rightarrow> heap \<Rightarrow> bool" where
  "keeps h h' \<longleftrightarrow> h_nobj h \<le> h_nobj h' \<and> (\<forall>a. live h a \<longrightarrow> h_obj h' a = h_obj h a \<and> content h' a = content h a)"

lemma keeps_refl [simp]: "keeps h h"
  by (simp add: keeps_def)








subsection \<open>\<open>*Bytes\<close> behind the basic interface\<close>




end
