(* ===== verification/IDB_Blob.thy ===== *)
theory IDB_Blob
  imports Blob_Iface
begin

section \<open>Package \<open>indexeddb/idbblob\<close>: blobs over JavaScript byte arrays\<close>

text \<open>
  A \<open>Blob\<close> of this package wraps a \<open>Uint8Array\<close>; a copy of its bytes on the Go side is made on the first call of \<open>Bytes\<close> and
  kept beside it. Every method that changes the blob changes both. \<open>Uint8Array\<close> and the package \<open>safejs\<close> that calls it
  are not part of the repository: they are the parameter \<open>js_pkg\<close>, a record of the calls the package makes, over
  a type \<open>'v\<close> of JavaScript values and a type \<open>'j\<close> of JavaScript memories. The locale \<open>uint8_arrays\<close> states what ECMAScript
  documents of those calls on byte arrays, and memories with enough room. \<open>u8_pkg\<close> is a memory that satisfies it.

  A blob value of a program is a \<open>*blob.Bytes\<close> or a \<open>*idbblob.Blob\<close> (the type \<open>blobv\<close>); the latter is an index into the
  structs of the state. Inside the locale the methods are shown to satisfy \<open>blob_contract\<close>, the contract that
  \<open>blob.Bytes\<close> satisfies too, for blobs that share no array.
\<close>

subsection \<open>JavaScript values and memory\<close>

record ('v, 'j) js_pkg =
  js_Truthy :: "'v \<Rightarrow> 'j \<Rightarrow> err + bool"
  js_InstanceOf :: "'v \<Rightarrow> 'j \<Rightarrow> err + bool"
  js_New :: "int \<Rightarrow> 'j \<Rightarrow> (err + 'v) \<times> 'j"
  js_Length :: "'v \<Rightarrow> 'j \<Rightarrow> err + int"
  js_CopyBytesToJS :: "'v \<Rightarrow> byte list \<Rightarrow> 'j \<Rightarrow> (err + int) \<times> 'j"
  js_CopyBytesToGo :: "int \<Rightarrow> 'v \<Rightarrow> 'j \<Rightarrow> err + byte list"
  js_subarray :: "'v \<Rightarrow> int \<Rightarrow> int \<Rightarrow> 'j \<Rightarrow> (err + 'v) \<times> 'j"
  js_slice :: "'v \<Rightarrow> int \<Rightarrow> int \<Rightarrow> 'j \<Rightarrow> (err + 'v) \<times> 'j"
  js_set :: "'v \<Rightarrow> 'v \<Rightarrow> int \<Rightarrow> 'j \<Rightarrow> err option \<times> 'j"
  js_fmt :: "'v \<Rightarrow> string"


subsection \<open>State\<close>

record 'v Blob =
  jb_bytes :: "bref option"
  jb_jsValue :: 'v
  jb_length :: int

record ('v, 'j) jst =
  j_js :: 'j
  j_obj :: "nat \<Rightarrow> 'v Blob"
  j_nobj :: nat

datatype blobv = BytesBlob bref | IdbBlob nat

type_synonym ('v, 'j) jworld = "('v, 'j) jst world"

definition js_of :: "('v, 'j) jworld \<Rightarrow> 'j" where
  "js_of w = j_js (w_store w)"

definition jb :: "('v, 'j) jworld \<Rightarrow> nat \<Rightarrow> 'v Blob" where
  "jb w i = j_obj (w_store w) i"

definition on_js :: "('j \<Rightarrow> 'a \<times> 'j) \<Rightarrow> ('v, 'j) jworld \<Rightarrow> 'a \<times> ('v, 'j) jworld" where
  "on_js f w = (let (x, j) = f (js_of w) in (x, w\<lparr>w_store := (w_store w)\<lparr>j_js := j\<rparr>\<rparr>))"

definition set_jb :: "nat \<Rightarrow> 'v Blob \<Rightarrow> ('v, 'j) jworld \<Rightarrow> ('v, 'j) jworld" where
  "set_jb i b w = w\<lparr>w_store := (w_store w)\<lparr>j_obj := (j_obj (w_store w))(i := b)\<rparr>\<rparr>"

definition alloc_jb :: "'v Blob \<Rightarrow> ('v, 'j) jworld \<Rightarrow> nat \<times> ('v, 'j) jworld" where
  "alloc_jb b w = (j_nobj (w_store w),
     w\<lparr>w_store := (w_store w)\<lparr>j_obj := (j_obj (w_store w))(j_nobj (w_store w) := b),
       j_nobj := Suc (j_nobj (w_store w))\<rparr>\<rparr>)"


subsection \<open>Methods\<close>

definition newBlob :: "('v, 'j) js_pkg \<Rightarrow> 'v \<Rightarrow> ('v, 'j) jworld \<Rightarrow> (err + nat) \<times> ('v, 'j) jworld" where
  "newBlob J buf w =
     (case js_Length J buf (js_of w) of
        Inl e \<Rightarrow> (Inl e, w)
      | Inr len \<Rightarrow> let (i, w) = alloc_jb \<lparr>jb_bytes = None, jb_jsValue = buf, jb_length = len\<rparr> w in (Inr i, w))"

definition NewLength :: "('v, 'j) js_pkg \<Rightarrow> int \<Rightarrow> ('v, 'j) jworld \<Rightarrow> (err + nat) \<times> ('v, 'j) jworld" where
  "NewLength J len w =
     (case on_js (js_New J len) w of
        (Inl e, w) \<Rightarrow> (Inl e, w)
      | (Inr jsBuf, w) \<Rightarrow> newBlob J jsBuf w)"

definition Blob_JSValue :: "nat \<Rightarrow> ('v, 'j) jworld \<Rightarrow> 'v" where
  "Blob_JSValue i w = jb_jsValue (jb w i)"

definition Blob_Len :: "nat \<Rightarrow> ('v, 'j) jworld \<Rightarrow> int" where
  "Blob_Len i w = jb_length (jb w i)"

definition getBytes ::
  "('v, 'j) js_pkg \<Rightarrow> nat list \<Rightarrow> nat \<Rightarrow> ('v, 'j) jworld \<Rightarrow> ((err + slice) \<times> ('v, 'j) jworld) option" where
  "getBytes J held i w =
     (case jb_bytes (jb w i) of
        Some c \<Rightarrow> map_option (\<lambda>(buf, w). (Inr buf, w)) (Bytes_Bytes_held held c w)
      | None \<Rightarrow>
          (let jsBuf = jb_jsValue (jb w i) in
           case js_Length J jsBuf (js_of w) of
             Inl e \<Rightarrow> Some (Inl e, w)
           | Inr len \<Rightarrow>
               if len < 0 then None
               else case js_CopyBytesToGo J len jsBuf (js_of w) of
                 Inl e \<Rightarrow> Some (Inl e, w)
               | Inr bs \<Rightarrow>
                   let (buf, h) = new_array bs 0 (w_heap w);
                       (c, h) = NewBytes buf h;
                       w = w\<lparr>w_heap := h\<rparr>
                   in Some (Inr buf, set_jb i ((jb w i)\<lparr>jb_bytes := Some c\<rparr>) w)))"

definition Blob_Bytes ::
  "('v, 'j) js_pkg \<Rightarrow> nat list \<Rightarrow> nat \<Rightarrow> ('v, 'j) jworld \<Rightarrow> (slice \<times> ('v, 'j) jworld) option" where
  "Blob_Bytes J held i w =
     do { (r, w) \<leftarrow> getBytes J held i w; (case r of Inl _ \<Rightarrow> None | Inr buf \<Rightarrow> Some (buf, w)) }"

text \<open>The methods of the interface \<open>blob.Blob\<close> on either type.\<close>

definition idb_reader :: "('v, 'j) js_pkg \<Rightarrow> (blobv, ('v, 'j) jworld) blob_iface" where
  "idb_reader J = \<lparr>bi_ofBytes = BytesBlob,
     bi_Bytes = (\<lambda>held b w. case b of BytesBlob c \<Rightarrow> Bytes_Bytes_held held c w | IdbBlob i \<Rightarrow> Blob_Bytes J held i w),
     bi_Len = (\<lambda>b w. case b of BytesBlob c \<Rightarrow> Bytes_Len (w_heap w) c | IdbBlob i \<Rightarrow> Blob_Len i w),
     bi_View = (\<lambda>_. None), bi_Slice = (\<lambda>_. None), bi_Set = (\<lambda>_. None), bi_Grow = (\<lambda>_. None),
     bi_Truncate = (\<lambda>_. None)\<rparr>"

definition fromBlob ::
  "('v, 'j) js_pkg \<Rightarrow> blobv \<Rightarrow> ('v, 'j) jworld \<Rightarrow> ((err + nat) \<times> ('v, 'j) jworld) option" where
  "fromBlob J b w =
     (case b of
        IdbBlob i \<Rightarrow> Some (newBlob J (Blob_JSValue i w) w)
      | BytesBlob c \<Rightarrow> do {
          (buf, w) \<leftarrow> Bytes_Bytes_held [] c w;
          let bs = slice_get (w_heap w) buf;
          (case on_js (js_New J (int (length bs))) w of
             (Inl e, w) \<Rightarrow> Some (Inl e, w)
           | (Inr jsBuf, w) \<Rightarrow>
               (case on_js (js_CopyBytesToJS J jsBuf bs) w of
                  (Inl e, w) \<Rightarrow> Some (Inl e, w)
                | (Inr _, w) \<Rightarrow> Some (newBlob J jsBuf w)))
        })"

definition FromBlob :: "('v, 'j) js_pkg \<Rightarrow> blobv \<Rightarrow> ('v, 'j) jworld \<Rightarrow> (nat \<times> ('v, 'j) jworld) option" where
  "FromBlob J b w =
     do { (r, w) \<leftarrow> fromBlob J b w; (case r of Inl _ \<Rightarrow> None | Inr i \<Rightarrow> Some (i, w)) }"

definition idbblob_New :: "('v, 'j) js_pkg \<Rightarrow> 'v \<Rightarrow> ('v, 'j) jworld \<Rightarrow> ((err + nat) \<times> ('v, 'j) jworld) option" where
  "idbblob_New J buf w =
     (case js_Truthy J buf (js_of w) of
        Inl e \<Rightarrow> Some (Inl e, w)
      | Inr truthy \<Rightarrow>
          if \<not> truthy then
            (let (c, h) = NewBytes_of [] (w_heap w) in
             map_option (\<lambda>(i, w). (Inr i, w)) (FromBlob J (BytesBlob c) (w\<lparr>w_heap := h\<rparr>)))
          else case js_InstanceOf J buf (js_of w) of
            Inl e \<Rightarrow> Some (Inl e, w)
          | Inr instanceOf \<Rightarrow>
              if \<not> instanceOf then Some (Inl (ErrorString (''invalid JS array type: '' @ js_fmt J buf)), w)
              else Some (newBlob J buf w))"

definition Blob_View ::
  "('v, 'j) js_pkg \<Rightarrow> nat \<Rightarrow> int \<Rightarrow> int \<Rightarrow> ('v, 'j) jworld \<Rightarrow> ((err + blobv) \<times> ('v, 'j) jworld) option" where
  "Blob_View J i start end w =
     (if start = 0 \<and> end = Blob_Len i w then Some (Inr (IdbBlob i), w)
      else case on_js (js_subarray J (Blob_JSValue i w) start end) w of
        (Inl e, w) \<Rightarrow> Some (Inl e, w)
      | (Inr subarray, w) \<Rightarrow> do {
          (r, w) \<leftarrow> idbblob_New J subarray w;
          (case r of
             Inl e \<Rightarrow> Some (Inl e, w)
           | Inr k \<Rightarrow>
               (case jb_bytes (jb w i) of
                  None \<Rightarrow> Some (Inr (IdbBlob k), w)
                | Some c \<Rightarrow> do {
                    (r, w) \<leftarrow> on_heap (Bytes_View c start end) w;
                    (case r of
                       Inl e \<Rightarrow> Some (Inl e, w)
                     | Inr newBytes \<Rightarrow>
                         Some (Inr (IdbBlob k), set_jb k ((jb w k)\<lparr>jb_bytes := Some newBytes\<rparr>) w))
                  }))
        })"

definition Blob_Slice ::
  "('v, 'j) js_pkg \<Rightarrow> nat \<Rightarrow> int \<Rightarrow> int \<Rightarrow> ('v, 'j) jworld \<Rightarrow> ((err + blobv) \<times> ('v, 'j) jworld) option" where
  "Blob_Slice J i start end w =
     (if start < 0 \<or> start > Blob_Len i w
      then Some (Inl (ErrorString (''Start index out of bounds: '' @ fmt_d start)), w)
      else if end < 0 \<or> end > Blob_Len i w
      then Some (Inl (ErrorString (''End index out of bounds: '' @ fmt_d end)), w)
      else case on_js (js_slice J (Blob_JSValue i w) start end) w of
        (Inl e, w) \<Rightarrow> Some (Inl e, w)
      | (Inr sl, w) \<Rightarrow> do {
          (r, w) \<leftarrow> idbblob_New J sl w;
          (case r of
             Inl e \<Rightarrow> Some (Inl e, w)
           | Inr k \<Rightarrow>
               (case jb_bytes (jb w i) of
                  None \<Rightarrow> Some (Inr (IdbBlob k), w)
                | Some c \<Rightarrow> do {
                    (r, w) \<leftarrow> on_heap (Bytes_Slice c start end) w;
                    (case r of
                       Inl e \<Rightarrow> Some (Inl e, w)
                     | Inr newBytes \<Rightarrow>
                         Some (Inr (IdbBlob k), set_jb k ((jb w k)\<lparr>jb_bytes := Some newBytes\<rparr>) w))
                  }))
        })"

definition Blob_Set ::
  "('v, 'j) js_pkg \<Rightarrow> nat \<Rightarrow> blobv \<Rightarrow> int \<Rightarrow> ('v, 'j) jworld \<Rightarrow> ((int \<times> err option) \<times> ('v, 'j) jworld) option" where
  "Blob_Set J i src destStart w =
     (if destStart < 0 then Some ((0, Some (ErrorString ''negative offset'')), w)
      else if destStart \<ge> Blob_Len i w \<and> destStart = 0 \<and> bi_Len (idb_reader J) src w > 0
      then Some ((0, Some (ErrorString (''Offset out of bounds: '' @ fmt_d destStart))), w)
      else do {
        (k, w) \<leftarrow> FromBlob J src w;
        (case on_js (js_set J (Blob_JSValue i w) (Blob_JSValue k w) destStart) w of
           (Some e, w) \<Rightarrow> Some ((0, Some e), w)
         | (None, w) \<Rightarrow>
             (let n = bi_Len (idb_reader J) src w in
              case jb_bytes (jb w i) of
                None \<Rightarrow> Some ((n, None), w)
              | Some c \<Rightarrow> do {
                  ((_, e), w) \<leftarrow> Bytes_Set_blob (idb_reader J) c src destStart w;
                  (case e of Some e \<Rightarrow> Some ((0, Some e), w) | None \<Rightarrow> Some ((n, None), w))
                }))
      })"

definition Blob_Grow ::
  "('v, 'j) js_pkg \<Rightarrow> nat \<Rightarrow> int \<Rightarrow> ('v, 'j) jworld \<Rightarrow> (err option \<times> ('v, 'j) jworld) option" where
  "Blob_Grow J i off w =
     (let newLength = int64 (Blob_Len i w + off);
          buf = jb_jsValue (jb w i)
      in case on_js (js_New J newLength) w of
        (Inl e, w) \<Rightarrow> Some (Some e, w)
      | (Inr biggerBuf, w) \<Rightarrow>
          (case on_js (js_set J biggerBuf buf 0) w of
             (Some e, w) \<Rightarrow> Some (Some e, w)
           | (None, w) \<Rightarrow>
               (let w = set_jb i ((jb w i)\<lparr>jb_jsValue := biggerBuf, jb_length := newLength\<rparr>) w in
                case jb_bytes (jb w i) of
                  None \<Rightarrow> Some (None, w)
                | Some c \<Rightarrow> on_heap (Bytes_Grow c off) w)))"

definition Blob_Truncate ::
  "('v, 'j) js_pkg \<Rightarrow> nat \<Rightarrow> int \<Rightarrow> ('v, 'j) jworld \<Rightarrow> (err option \<times> ('v, 'j) jworld) option" where
  "Blob_Truncate J i sz w =
     (if Blob_Len i w < sz then Some (None, w)
      else case on_js (js_slice J (Blob_JSValue i w) 0 sz) w of
        (Inl e, w) \<Rightarrow> Some (Some e, w)
      | (Inr smallerBuf, w) \<Rightarrow>
          (let w = set_jb i ((jb w i)\<lparr>jb_jsValue := smallerBuf, jb_length := sz\<rparr>) w in
           case jb_bytes (jb w i) of
             None \<Rightarrow> Some (None, w)
           | Some c \<Rightarrow> on_heap (Bytes_Truncate c sz) w))"

definition idb_blob_iface :: "('v, 'j) js_pkg \<Rightarrow> (blobv, ('v, 'j) jworld) blob_iface" where
  "idb_blob_iface J = (idb_reader J)
     \<lparr>bi_View := (\<lambda>b. Some (case b of
          BytesBlob c \<Rightarrow> \<lambda>start end w. map_option (in_blob BytesBlob) (on_heap (Bytes_View c start end) w)
        | IdbBlob i \<Rightarrow> Blob_View J i)),
      bi_Slice := (\<lambda>b. Some (case b of
          BytesBlob c \<Rightarrow> \<lambda>start end w. map_option (in_blob BytesBlob) (on_heap (Bytes_Slice c start end) w)
        | IdbBlob i \<Rightarrow> Blob_Slice J i)),
      bi_Set := (\<lambda>b. Some (case b of BytesBlob c \<Rightarrow> Bytes_Set_blob (idb_reader J) c | IdbBlob i \<Rightarrow> Blob_Set J i)),
      bi_Grow := (\<lambda>b. Some (case b of BytesBlob c \<Rightarrow> \<lambda>n. on_heap (Bytes_Grow c n) | IdbBlob i \<Rightarrow> Blob_Grow J i)),
      bi_Truncate := (\<lambda>b. Some (case b of BytesBlob c \<Rightarrow> \<lambda>n. on_heap (Bytes_Truncate c n) | IdbBlob i \<Rightarrow> Blob_Truncate J i))\<rparr>"

subsection \<open>Byte arrays, as ECMAScript documents them\<close>

text \<open>
  \<open>u8 j v\<close> says that \<open>v\<close> is a \<open>Uint8Array\<close> of the memory \<open>j\<close>, \<open>arr j v\<close> are its elements, and \<open>bufid v\<close> is the identity of
  its \<open>ArrayBuffer\<close>, which \<open>subarray\<close> shares and \<open>slice\<close> copies.
\<close>

definition js_fresh :: "('j \<Rightarrow> 'v \<Rightarrow> bool) \<Rightarrow> ('j \<Rightarrow> 'v \<Rightarrow> byte list) \<Rightarrow> ('v \<Rightarrow> nat) \<Rightarrow> 'j \<Rightarrow> 'v \<Rightarrow> 'j \<Rightarrow> bool" where
  "js_fresh u8 arr bufid j v j' \<longleftrightarrow> u8 j' v \<and>
     (\<forall>v'. u8 j v' \<longrightarrow> u8 j' v' \<and> arr j' v' = arr j v' \<and> bufid v' \<noteq> bufid v)"

definition js_written ::
  "('j \<Rightarrow> 'v \<Rightarrow> bool) \<Rightarrow> ('j \<Rightarrow> 'v \<Rightarrow> byte list) \<Rightarrow> ('v \<Rightarrow> nat) \<Rightarrow> 'j \<Rightarrow> 'v \<Rightarrow> byte list \<Rightarrow> 'j \<Rightarrow> bool" where
  "js_written u8 arr bufid j v bs j' \<longleftrightarrow> arr j' v = bs \<and>
     (\<forall>v'. u8 j v' \<longrightarrow> u8 j' v' \<and> (bufid v' \<noteq> bufid v \<longrightarrow> arr j' v' = arr j v'))"

text \<open>The state of a blob: the struct describes its array, and the bytes kept on the Go side are those of the array.\<close>

definition jb_ok ::
  "('j \<Rightarrow> 'v \<Rightarrow> bool) \<Rightarrow> ('j \<Rightarrow> 'v \<Rightarrow> byte list) \<Rightarrow> ('v, 'j) jworld \<Rightarrow> nat \<Rightarrow> bool" where
  "jb_ok u8 arr w i \<longleftrightarrow> i < j_nobj (w_store w) \<and> u8 (js_of w) (jb_jsValue (jb w i)) \<and>
     jb_length (jb w i) = int (length (arr (js_of w) (jb_jsValue (jb w i)))) \<and>
     (\<forall>c. jb_bytes (jb w i) = Some c \<longrightarrow> live (w_heap w) c \<and>
        content (w_heap w) c = arr (js_of w) (jb_jsValue (jb w i)))"

definition bv_live ::
  "('j \<Rightarrow> 'v \<Rightarrow> bool) \<Rightarrow> ('j \<Rightarrow> 'v \<Rightarrow> byte list) \<Rightarrow> ('v, 'j) jworld \<Rightarrow> blobv \<Rightarrow> bool" where
  "bv_live u8 arr w b = (case b of BytesBlob c \<Rightarrow> live (w_heap w) c | IdbBlob i \<Rightarrow> jb_ok u8 arr w i)"

definition bv_content :: "('j \<Rightarrow> 'v \<Rightarrow> byte list) \<Rightarrow> ('v, 'j) jworld \<Rightarrow> blobv \<Rightarrow> byte list" where
  "bv_content arr w b =
     (case b of BytesBlob c \<Rightarrow> content (w_heap w) c | IdbBlob i \<Rightarrow> arr (js_of w) (jb_jsValue (jb w i)))"

text \<open>The Go bytes and the array of a blob.\<close>

definition bv_refs :: "('v, 'j) jworld \<Rightarrow> blobv \<Rightarrow> bref set" where
  "bv_refs w b = (case b of BytesBlob c \<Rightarrow> {c} | IdbBlob i \<Rightarrow> set_option (jb_bytes (jb w i)))"

definition bv_arrs :: "('v, 'j) jworld \<Rightarrow> blobv \<Rightarrow> 'v set" where
  "bv_arrs w b = (case b of BytesBlob c \<Rightarrow> {} | IdbBlob i \<Rightarrow> {jb_jsValue (jb w i)})"

definition bv_apart :: "('v \<Rightarrow> nat) \<Rightarrow> ('v, 'j) jworld \<Rightarrow> blobv \<Rightarrow> blobv \<Rightarrow> bool" where
  "bv_apart bufid w a b \<longleftrightarrow> a \<noteq> b \<and> (\<forall>x \<in> bv_refs w a. \<forall>y \<in> bv_refs w b. apart (w_heap w) x y) \<and>
     (\<forall>v \<in> bv_arrs w a. \<forall>v' \<in> bv_arrs w b. bufid v \<noteq> bufid v')"

definition bv_locks :: "('v, 'j) jworld \<Rightarrow> blobv \<Rightarrow> nat set" where
  "bv_locks w b = (\<lambda>c. mu_f (h_obj (w_heap w) c)) ` bv_refs w b"

definition bv_mutex :: "('v, 'j) jworld \<Rightarrow> blobv \<Rightarrow> blobv \<Rightarrow> bool" where
  "bv_mutex w a b \<longleftrightarrow> bv_locks w a \<inter> bv_locks w b \<noteq> {}"

text \<open>What an operation on \<open>b\<close> leaves alone: every blob that is apart from \<open>b\<close>.\<close>

definition bv_keep ::
  "('j \<Rightarrow> 'v \<Rightarrow> bool) \<Rightarrow> ('j \<Rightarrow> 'v \<Rightarrow> byte list) \<Rightarrow> ('v \<Rightarrow> nat) \<Rightarrow> ('v, 'j) jworld \<Rightarrow> ('v, 'j) jworld \<Rightarrow> blobv \<Rightarrow> bool" where
  "bv_keep u8 arr bufid w w' b \<longleftrightarrow>
     (\<forall>a. bv_live u8 arr w a \<longrightarrow> bv_apart bufid w a b \<longrightarrow>
        bv_live u8 arr w' a \<and> bv_content arr w' a = bv_content arr w a \<and> bv_apart bufid w' a b
        \<and> bv_mutex w' a b = bv_mutex w a b)"

definition bv_frame ::
  "('j \<Rightarrow> 'v \<Rightarrow> bool) \<Rightarrow> ('j \<Rightarrow> 'v \<Rightarrow> byte list) \<Rightarrow> ('v \<Rightarrow> nat) \<Rightarrow> ('v, 'j) jworld \<Rightarrow> ('v, 'j) jworld \<Rightarrow> blobv \<Rightarrow> bool" where
  "bv_frame u8 arr bufid w w' b \<longleftrightarrow>
     (bv_live u8 arr w b \<longrightarrow> bv_live u8 arr w' b) \<and> bv_keep u8 arr bufid w w' b"

text \<open>The struct, the array and the Go bytes of the blob exist, whether or not they agree.\<close>

definition bv_known :: "('j \<Rightarrow> 'v \<Rightarrow> bool) \<Rightarrow> ('v, 'j) jworld \<Rightarrow> blobv \<Rightarrow> bool" where
  "bv_known u8 w b \<longleftrightarrow> (\<forall>c \<in> bv_refs w b. live (w_heap w) c) \<and> (\<forall>v \<in> bv_arrs w b. u8 (js_of w) v) \<and>
     (\<forall>i. b = IdbBlob i \<longrightarrow> i < j_nobj (w_store w))"

lemma bv_simps [simp]:
  "bv_live u8 arr w (BytesBlob c) = live (w_heap w) c" "bv_live u8 arr w (IdbBlob i) = jb_ok u8 arr w i"
  "bv_content arr w (BytesBlob c) = content (w_heap w) c"
  "bv_content arr w (IdbBlob i) = arr (js_of w) (jb_jsValue (jb w i))"
  "bv_refs w (BytesBlob c) = {c}" "bv_refs w (IdbBlob i) = set_option (jb_bytes (jb w i))"
  "bv_arrs w (BytesBlob c) = {}" "bv_arrs w (IdbBlob i) = {jb_jsValue (jb w i)}"
  by (simp_all add: bv_live_def bv_content_def bv_refs_def bv_arrs_def)

lemma bv_live_refs: "bv_live u8 arr w b \<Longrightarrow> c \<in> bv_refs w b \<Longrightarrow> live (w_heap w) c"
  by (cases b) (auto simp: jb_ok_def)

lemma bv_live_known: "bv_live u8 arr w b \<Longrightarrow> bv_known u8 w b"
  by (cases b) (auto simp: jb_ok_def bv_known_def)

lemma bv_keep_trans: "bv_keep u8 arr bufid w w1 b \<Longrightarrow> bv_keep u8 arr bufid w1 w2 b \<Longrightarrow> bv_keep u8 arr bufid w w2 b"
  by (simp add: bv_keep_def)

lemma bv_keep_refl [simp]: "bv_keep u8 arr bufid w w b"
  by (simp add: bv_keep_def)

text \<open>
  The steps the methods are made of. Growing: nothing that exists changes.
\<close>

definition jw_grows ::
  "('j \<Rightarrow> 'v \<Rightarrow> bool) \<Rightarrow> ('j \<Rightarrow> 'v \<Rightarrow> byte list) \<Rightarrow> ('v, 'j) jworld \<Rightarrow> ('v, 'j) jworld \<Rightarrow> bool" where
  "jw_grows u8 arr w w' \<longleftrightarrow> extends (w_heap w) (w_heap w') \<and>
     (\<forall>v. u8 (js_of w) v \<longrightarrow> u8 (js_of w') v \<and> arr (js_of w') v = arr (js_of w) v) \<and>
     j_nobj (w_store w) \<le> j_nobj (w_store w') \<and>
     (\<forall>i < j_nobj (w_store w). jb w' i = jb w i)"

lemma jw_grows_refl [simp]: "jw_grows u8 arr w w"
  by (simp add: jw_grows_def)

lemma jw_grows_trans:
  assumes "jw_grows u8 arr w w1" "jw_grows u8 arr w1 w2"
  shows "jw_grows u8 arr w w2"
proof -
  have "extends (w_heap w) (w_heap w2)" using assms extends_trans by (fastforce simp: jw_grows_def)
  then show ?thesis using assms by (simp add: jw_grows_def)
qed

lemma jw_grows_blob:
  assumes "jw_grows u8 arr w w'" "bv_known u8 w b"
  shows "bv_refs w' b = bv_refs w b" "bv_arrs w' b = bv_arrs w b" "bv_known u8 w' b"
    "bv_locks w' b = bv_locks w b" "bv_content arr w' b = bv_content arr w b"
    "bv_live u8 arr w b \<Longrightarrow> bv_live u8 arr w' b"
proof -
  show r: "bv_refs w' b = bv_refs w b" "bv_arrs w' b = bv_arrs w b"
    using assms by (cases b; simp add: jw_grows_def bv_known_def)+
  have e: "extends (w_heap w) (w_heap w')" using assms by (simp add: jw_grows_def)
  show "bv_known u8 w' b" unfolding bv_known_def r
    using assms extends_live [OF e] by (auto simp: jw_grows_def bv_known_def)
  show "bv_locks w' b = bv_locks w b" unfolding bv_locks_def r
    using assms(2) extends_obj [OF e] by (auto simp: bv_known_def)
  show "bv_content arr w' b = bv_content arr w b"
    using assms extends_content [OF e] by (cases b) (auto simp: jw_grows_def bv_known_def)
  show "bv_live u8 arr w b \<Longrightarrow> bv_live u8 arr w' b"
    using assms extends_live [OF e] extends_content [OF e] by (cases b) (auto simp: jw_grows_def bv_known_def jb_ok_def)
qed

lemma jw_grows_keep:
  assumes "jw_grows u8 arr w w'" "bv_known u8 w b"
  shows "bv_keep u8 arr bufid w w' b"
  unfolding bv_keep_def
proof (intro allI impI)
  fix a assume a: "bv_live u8 arr w a" "bv_apart bufid w a b"
  note A = jw_grows_blob [OF assms(1) bv_live_known [OF a(1)]] and B = jw_grows_blob [OF assms]
  have e: "extends (w_heap w) (w_heap w')" using assms by (simp add: jw_grows_def)
  have "apart (w_heap w') x y" if "x \<in> bv_refs w a" "y \<in> bv_refs w b" for x y
    using a(2) that extends_apart [OF e] bv_live_refs [OF a(1)] assms(2)
    by (auto simp: bv_apart_def bv_known_def)
  then show "bv_live u8 arr w' a \<and> bv_content arr w' a = bv_content arr w a \<and> bv_apart bufid w' a b
      \<and> bv_mutex w' a b = bv_mutex w a b"
    using A B a by (simp add: bv_apart_def bv_mutex_def)
qed

locale uint8_arrays =
  fixes J :: "('v, 'j) js_pkg"
    and u8 :: "'j \<Rightarrow> 'v \<Rightarrow> bool"
    and arr :: "'j \<Rightarrow> 'v \<Rightarrow> byte list"
    and bufid :: "'v \<Rightarrow> nat"
  assumes truthy: "u8 j v \<Longrightarrow> js_Truthy J v j = Inr True"
    and instance_of: "u8 j v \<Longrightarrow> js_InstanceOf J v j = Inr True"
    and len: "u8 j v \<Longrightarrow> js_Length J v j = Inr (int (length (arr j v)))"
    and new: "0 \<le> n \<Longrightarrow> \<exists>v j'. js_New J n j = (Inr v, j') \<and> js_fresh u8 arr bufid j v j'
        \<and> arr j' v = replicate (nat n) 0"
    and to_js: "u8 j v \<Longrightarrow> length bs = length (arr j v) \<Longrightarrow>
        \<exists>j'. js_CopyBytesToJS J v bs j = (Inr (int (length bs)), j') \<and> js_written u8 arr bufid j v bs j'"
    and to_go: "u8 j v \<Longrightarrow> js_CopyBytesToGo J (int (length (arr j v))) v j = Inr (arr j v)"
    and subarray: "u8 j v \<Longrightarrow> 0 \<le> s \<Longrightarrow> s \<le> e \<Longrightarrow> e \<le> int (length (arr j v)) \<Longrightarrow>
        \<exists>v' j'. js_subarray J v s e j = (Inr v', j') \<and> u8 j' v' \<and> bufid v' = bufid v
          \<and> arr j' v' = slice_of (nat s) (nat e) (arr j v)
          \<and> (\<forall>x. u8 j x \<longrightarrow> u8 j' x \<and> arr j' x = arr j x)"
    and slice: "u8 j v \<Longrightarrow> 0 \<le> s \<Longrightarrow> s \<le> e \<Longrightarrow> e \<le> int (length (arr j v)) \<Longrightarrow>
        \<exists>v' j'. js_slice J v s e j = (Inr v', j') \<and> js_fresh u8 arr bufid j v' j'
          \<and> arr j' v' = slice_of (nat s) (nat e) (arr j v)"
    and set_fits: "u8 j v \<Longrightarrow> u8 j x \<Longrightarrow> 0 \<le> off \<Longrightarrow> off + int (length (arr j x)) \<le> int (length (arr j v)) \<Longrightarrow>
        \<exists>j'. js_set J v x off j = (None, j') \<and>
          js_written u8 arr bufid j v (overwrite (nat off) (arr j x) (arr j v)) j'"
    and set_range: "u8 j v \<Longrightarrow> u8 j x \<Longrightarrow> int (length (arr j v)) < off + int (length (arr j x)) \<Longrightarrow>
        \<exists>e. js_set J v x off j = (Some e, j)"

text \<open>Writing the array of the blob.\<close>

lemma js_written_keep:
  assumes "js_written u8 arr bufid (js_of w) v bs (js_of w')" "v \<in> bv_arrs w b" "bv_known u8 w b"
    and same: "w_heap w' = w_heap w" "j_obj (w_store w') = j_obj (w_store w)" "j_nobj (w_store w') = j_nobj (w_store w)"
  shows "bv_keep u8 arr bufid w w' b" "bv_known u8 w' b"
proof -
  have jb: "jb w' = jb w" using same by (simp add: jb_def fun_eq_iff)
  have r: "bv_refs w' a = bv_refs w a" "bv_arrs w' a = bv_arrs w a" "bv_locks w' a = bv_locks w a" for a
    by (cases a; simp add: jb same bv_locks_def)+
  show "bv_known u8 w' b" using assms unfolding bv_known_def r by (auto simp: js_written_def)
  have "bv_live u8 arr w' a \<and> bv_content arr w' a = bv_content arr w a"
    if "bv_live u8 arr w a" "bv_apart bufid w a b" for a
    using that assms by (cases a) (auto simp: jb jb_ok_def bv_apart_def js_written_def)
  then show "bv_keep u8 arr bufid w w' b"
    by (simp add: bv_keep_def bv_apart_def bv_mutex_def r same)
qed

text \<open>Changing the Go bytes of the blob.\<close>

lemma heap_keep:
  assumes "frame (w_heap w) h c" "bv_refs w b = {c}" "bv_known u8 w b"
  shows "bv_keep u8 arr bufid w (w\<lparr>w_heap := h\<rparr>) b" "bv_known u8 (w\<lparr>w_heap := h\<rparr>) b"
proof -
  let ?w = "w\<lparr>w_heap := h\<rparr>"
  have jb: "jb ?w = jb w" "js_of ?w = js_of w" by (simp_all add: jb_def fun_eq_iff js_of_def)
  have r: "bv_refs ?w a = bv_refs w a" "bv_arrs ?w a = bv_arrs w a" for a by (cases a; simp add: jb)+
  have lc: "live (w_heap w) c" using assms(2,3) by (simp add: bv_known_def)
  show "bv_known u8 ?w b" using assms frame_live unfolding bv_known_def r by (auto simp: jb)
  show "bv_keep u8 arr bufid w ?w b"
    unfolding bv_keep_def
  proof (intro allI impI)
    fix a assume a: "bv_live u8 arr w a" "bv_apart bufid w a b"
    have x: "live (w_heap w) x \<and> apart (w_heap w) x c \<and> x \<noteq> c" if "x \<in> bv_refs w a" for x
      using a assms(2) that bv_live_refs [OF a(1)] by (auto simp: bv_apart_def apart_def)
    then have y: "live h x \<and> content h x = content (w_heap w) x \<and> apart h x c \<and> h_obj h x = h_obj (w_heap w) x"
      if "x \<in> bv_refs w a" for x
      using assms(1) that frame_live [OF assms(1)] by (auto simp: frame_def)
    have "bv_live u8 arr ?w a \<and> bv_content arr ?w a = bv_content arr w a"
      using a(1) y by (cases a) (auto simp: jb_ok_def jb)
    moreover have "bv_apart bufid ?w a b" using a(2) y assms(2) by (simp add: bv_apart_def r)
    moreover have "mu_f (h_obj h c) = mu_f (h_obj (w_heap w) c)" using assms(1) by (simp add: frame_def)
    ultimately show "bv_live u8 arr ?w a \<and> bv_content arr ?w a = bv_content arr w a \<and> bv_apart bufid ?w a b
        \<and> bv_mutex ?w a b = bv_mutex w a b"
      using y by (auto simp: bv_mutex_def bv_locks_def r assms(2))
  qed
qed

text \<open>Giving the blob a new array.\<close>

lemma swap_keep:
  assumes "js_fresh u8 arr bufid (js_of w) v (js_of w')" "bv_known u8 w (IdbBlob i)"
    and same: "w_heap w' = w_heap w" "j_nobj (w_store w') = j_nobj (w_store w)"
      "j_obj (w_store w') = (j_obj (w_store w))(i := (jb w i)\<lparr>jb_jsValue := v, jb_length := n\<rparr>)"
  shows "bv_keep u8 arr bufid w w' (IdbBlob i)" "bv_known u8 w' (IdbBlob i)"
proof -
  have jb: "jb w' k = (if k = i then (jb w i)\<lparr>jb_jsValue := v, jb_length := n\<rparr> else jb w k)" for k
    using same by (simp add: jb_def)
  have r: "bv_refs w' a = bv_refs w a" for a by (cases a) (simp_all add: jb)
  show "bv_known u8 w' (IdbBlob i)" using assms by (simp add: bv_known_def jb js_fresh_def)
  show "bv_keep u8 arr bufid w w' (IdbBlob i)"
    unfolding bv_keep_def
  proof (intro allI impI)
    fix a assume a: "bv_live u8 arr w a" "bv_apart bufid w a (IdbBlob i)"
    have "a \<noteq> IdbBlob i" using a(2) by (simp add: bv_apart_def)
    then have ar: "bv_arrs w' a = bv_arrs w a" by (cases a) (auto simp: jb)
    have "bv_live u8 arr w' a \<and> bv_content arr w' a = bv_content arr w a"
      using a assms(1) \<open>a \<noteq> IdbBlob i\<close> by (cases a) (auto simp: jb jb_ok_def same js_fresh_def)
    moreover have "bufid x \<noteq> bufid v" if "x \<in> bv_arrs w a" for x
      using that a(1) assms(1) by (cases a) (auto simp: jb_ok_def js_fresh_def)
    ultimately show "bv_live u8 arr w' a \<and> bv_content arr w' a = bv_content arr w a
        \<and> bv_apart bufid w' a (IdbBlob i) \<and> bv_mutex w' a (IdbBlob i) = bv_mutex w a (IdbBlob i)"
      using a(2) by (auto simp: bv_apart_def bv_mutex_def bv_locks_def r ar same jb)
  qed
qed

text \<open>Copying the bytes of another blob to the Go side.\<close>

lemma cache_keep:
  assumes e: "extends (w_heap w) (w_heap w')" and c: "\<not> live (w_heap w) c" "live (w_heap w') c"
      "\<And>x. live (w_heap w) x \<Longrightarrow> apart (w_heap w') x c \<and> apart (w_heap w') c x \<and> \<not> same_mutex (w_heap w') c x"
      "content (w_heap w') c = arr (js_of w) (jb_jsValue (jb w k))"
    and same: "js_of w' = js_of w" "j_nobj (w_store w') = j_nobj (w_store w)"
      "j_obj (w_store w') = (j_obj (w_store w))(k := (jb w k)\<lparr>jb_bytes := Some c\<rparr>)"
    and none: "jb_bytes (jb w k) = None" and b: "bv_known u8 w b" "b \<noteq> IdbBlob k"
  shows "bv_keep u8 arr bufid w w' b" "bv_known u8 w' b"
proof -
  have jb: "jb w' i = (if i = k then (jb w k)\<lparr>jb_bytes := Some c\<rparr> else jb w i)" for i
    using same by (simp add: jb_def)
  have r: "bv_refs w' a = (if a = IdbBlob k then {c} else bv_refs w a)" "bv_arrs w' a = bv_arrs w a" for a
    by (cases a; simp add: jb)+
  have lb: "live (w_heap w) y" if "y \<in> bv_refs w b" for y using b(1) that by (simp add: bv_known_def)
  show "bv_known u8 w' b"
    using b extends_live [OF e] by (auto simp: bv_known_def r same)
  show "bv_keep u8 arr bufid w w' b"
    unfolding bv_keep_def
  proof (intro allI impI)
    fix a assume a: "bv_live u8 arr w a" "bv_apart bufid w a b"
    have la: "live (w_heap w) x" if "x \<in> bv_refs w a" for x using a(1) that by (rule bv_live_refs)
    have "bv_live u8 arr w' a \<and> bv_content arr w' a = bv_content arr w a"
      using a(1) extends_live [OF e] extends_content [OF e] c(2,4) none
      by (cases a) (auto simp: jb jb_ok_def same)
    moreover have "bv_apart bufid w' a b"
      using a(2) b(2) la lb c(3) extends_apart [OF e] by (auto simp: bv_apart_def r)
    moreover have "bv_mutex w' a b = bv_mutex w a b"
      using b(2) la lb c(3) extends_obj [OF e] none
      by (cases "a = IdbBlob k") (auto simp: bv_mutex_def bv_locks_def r same_mutex_def jb)
    ultimately show "bv_live u8 arr w' a \<and> bv_content arr w' a = bv_content arr w a \<and> bv_apart bufid w' a b
        \<and> bv_mutex w' a b = bv_mutex w a b" by blast
  qed
qed

lemma jworld_simps [simp]:
  "js_of (w\<lparr>w_heap := h\<rparr>) = js_of w" "jb (w\<lparr>w_heap := h\<rparr>) i = jb w i"
  "js_of (w\<lparr>w_store := s\<rparr>) = j_js s" "jb (w\<lparr>w_store := s\<rparr>) i = j_obj s i"
  "js_of (set_jb i b w) = js_of w" "jb (set_jb i b w) k = (if k = i then b else jb w k)"
  "w_heap (set_jb i b w) = w_heap w" "j_nobj (w_store (set_jb i b w)) = j_nobj (w_store w)"
  "j_obj (w_store (set_jb i b w)) = (j_obj (w_store w))(i := b)"
  "set_jb i b w\<lparr>w_heap := h\<rparr> = set_jb i b (w\<lparr>w_heap := h\<rparr>)"
  by (simp_all add: js_of_def jb_def set_jb_def)

lemma jb_js_update: "jb (w\<lparr>w_store := (w_store w)\<lparr>j_js := j\<rparr>\<rparr>) i = jb w i"
  by (simp add: jb_def)

lemma set_option_single [simp]: "set_option x = {c} \<longleftrightarrow> x = Some c"
  by (cases x) auto

lemma bv_refs_cases: "bv_refs w b \<noteq> {} \<Longrightarrow> \<exists>c. bv_refs w b = {c}"
  by (cases b) auto

lemma on_js_eq: "f (js_of w) = (x, j) \<Longrightarrow> on_js f w = (x, w\<lparr>w_store := (w_store w)\<lparr>j_js := j\<rparr>\<rparr>)"
  by (simp add: on_js_def)

context uint8_arrays
begin

lemma newBlob_spec:
  assumes "u8 (js_of w) v"
  obtains k w' where "newBlob J v w = (Inr k, w')" "jw_grows u8 arr w w'" "w_heap w' = w_heap w"
    "js_of w' = js_of w" "k = j_nobj (w_store w)" "jb_jsValue (jb w' k) = v"
    "jb_ok u8 arr w' k"
  using assms len [OF assms]
  by (simp add: newBlob_def alloc_jb_def jw_grows_def jb_ok_def js_of_def jb_def)

text \<open>\<open>FromBlob\<close> gives an array with the bytes of the blob.\<close>

lemma FromBlob_spec:
  assumes wf: "wf_heap (w_heap w)" and b: "bv_live u8 arr w b"
  obtains k w' where "FromBlob J b w = Some (k, w')" "jw_grows u8 arr w w'" "wf_heap (w_heap w')"
    "jb_ok u8 arr w' k" "arr (js_of w') (jb_jsValue (jb w' k)) = bv_content arr w b" "j_nobj (w_store w) \<le> k"
proof (cases b)
  case (IdbBlob i)
  then have "u8 (js_of w) (Blob_JSValue i w)" using b by (simp add: jb_ok_def Blob_JSValue_def)
  from newBlob_spec [OF this] obtain k w' where "newBlob J (Blob_JSValue i w) w = (Inr k, w')"
    "jw_grows u8 arr w w'" "w_heap w' = w_heap w" "js_of w' = js_of w" "k = j_nobj (w_store w)"
    "jb_jsValue (jb w' k) = Blob_JSValue i w" "jb_ok u8 arr w' k" .
  then show thesis using that wf IdbBlob by (simp add: FromBlob_def fromBlob_def Blob_JSValue_def)
next
  case (BytesBlob c)
  with b have "live (w_heap w) c" by simp
  from Bytes_Bytes_eq [OF wf this] obtain buf h where B: "Bytes_Bytes c (w_heap w) = Some (buf, h)" "wf_heap h"
    "extends (w_heap w) h" "slice_get h buf = content (w_heap w) c" .
  let ?bs = "content (w_heap w) c"
  obtain v j1 where v: "js_New J (int (length ?bs)) (js_of w) = (Inr v, j1)" "js_fresh u8 arr bufid (js_of w) v j1"
    "arr j1 v = replicate (length ?bs) 0"
    using new [of "int (length ?bs)" "js_of w"] by auto
  obtain j2 where j2: "js_CopyBytesToJS J v ?bs j1 = (Inr (int (length ?bs)), j2)" "js_written u8 arr bufid j1 v ?bs j2"
    using to_js [of j1 v ?bs] v by (auto simp: js_fresh_def)
  define w1 where "w1 = w\<lparr>w_heap := h\<rparr>\<lparr>w_store := (w_store w)\<lparr>j_js := j2\<rparr>\<rparr>"
  have u: "u8 (js_of w1) v" "arr (js_of w1) v = ?bs"
    using v(2) j2(2) by (simp_all add: w1_def js_fresh_def js_written_def)
  have g: "jw_grows u8 arr w w1"
    using B(3) v(2) j2(2) by (simp add: jw_grows_def w1_def js_fresh_def js_written_def jb_def)
  from newBlob_spec [OF u(1)] obtain k w' where "newBlob J v w1 = (Inr k, w')"
    "jw_grows u8 arr w1 w'" "w_heap w' = w_heap w1" "js_of w' = js_of w1" "k = j_nobj (w_store w1)"
    "jb_jsValue (jb w' k) = v" "jb_ok u8 arr w' k" .
  moreover have "on_js (js_New J (int (length ?bs))) (w\<lparr>w_heap := h\<rparr>) =
      (Inr v, w\<lparr>w_heap := h\<rparr>\<lparr>w_store := (w_store w)\<lparr>j_js := j1\<rparr>\<rparr>)"
    using on_js_eq [of _ "w\<lparr>w_heap := h\<rparr>"] v(1) by simp
  moreover have "on_js (js_CopyBytesToJS J v ?bs) (w\<lparr>w_heap := h\<rparr>\<lparr>w_store := (w_store w)\<lparr>j_js := j1\<rparr>\<rparr>) =
      (Inr (int (length ?bs)), w1)"
    using on_js_eq [of _ "w\<lparr>w_heap := h\<rparr>\<lparr>w_store := (w_store w)\<lparr>j_js := j1\<rparr>\<rparr>"] j2(1) by (simp add: w1_def)
  ultimately show thesis
    using that [of k w'] jw_grows_trans [OF g] B u BytesBlob
    by (simp add: FromBlob_def fromBlob_def Bytes_Bytes_held_def w1_def)
qed

text \<open>\<open>Bytes\<close> returns the bytes; the first call on a blob over an array keeps them on the Go side.\<close>

lemma Bytes_spec:
  assumes wf: "wf_heap (w_heap w)" and b: "bv_live u8 arr w b" and held: "set held \<inter> bv_locks w b = {}"
  obtains buf w' where "bi_Bytes (idb_reader J) held b w = Some (buf, w')" "wf_heap (w_heap w')"
    "slice_get (w_heap w') buf = bv_content arr w b" "extends (w_heap w) (w_heap w')"
    "bv_live u8 arr w' b" "bv_content arr w' b = bv_content arr w b"
    "\<And>a. bv_known u8 w a \<Longrightarrow> a \<noteq> b \<Longrightarrow> bv_keep u8 arr bufid w w' a \<and> bv_known u8 w' a"
    "js_of w' = js_of w" "j_nobj (w_store w') = j_nobj (w_store w)" "\<And>i. IdbBlob i \<noteq> b \<Longrightarrow> jb w' i = jb w i"
    "\<And>i. jb w' i = (jb w i)\<lparr>jb_bytes := jb_bytes (jb w' i)\<rparr>"
proof (cases "bv_refs w b = {}")
  case False
  then obtain c where c: "bv_refs w b = {c}" using bv_refs_cases by blast
  have lc: "live (w_heap w) c" using bv_live_refs [OF b] c by simp
  have cc: "content (w_heap w) c = bv_content arr w b" using b c by (cases b) (auto simp: jb_ok_def)
  from Bytes_Bytes_eq [OF wf lc] obtain buf h where B: "Bytes_Bytes c (w_heap w) = Some (buf, h)" "wf_heap h"
    "extends (w_heap w) h" "slice_get h buf = content (w_heap w) c" .
  have "mu_f (h_obj (w_heap w) c) \<notin> set held" using held c by (auto simp: bv_locks_def)
  then have H: "Bytes_Bytes_held held c w = Some (buf, w\<lparr>w_heap := h\<rparr>)"
    using B(1) by (simp add: Bytes_Bytes_held_def)
  have "bi_Bytes (idb_reader J) held b w = Some (buf, w\<lparr>w_heap := h\<rparr>)"
    using H c by (cases b) (auto simp: idb_reader_def Blob_Bytes_def getBytes_def)
  moreover have g: "jw_grows u8 arr w (w\<lparr>w_heap := h\<rparr>)" using B by (simp add: jw_grows_def)
  moreover note jw_grows_blob(5,6) [OF g bv_live_known [OF b]]
  moreover have "bv_keep u8 arr bufid w (w\<lparr>w_heap := h\<rparr>) a \<and> bv_known u8 (w\<lparr>w_heap := h\<rparr>) a"
    if "bv_known u8 w a" for a
    using jw_grows_keep [OF g that] jw_grows_blob(3) [OF g that] by blast
  ultimately show thesis
    using that [of buf "w\<lparr>w_heap := h\<rparr>"] B cc b by simp
next
  case True
  then obtain k where k: "b = IdbBlob k" "jb_bytes (jb w k) = None" by (cases b) auto
  let ?v = "jb_jsValue (jb w k)" and ?bs = "bv_content arr w b"
  have u: "u8 (js_of w) ?v" "?bs = arr (js_of w) ?v" using b k by (simp_all add: jb_ok_def)
  obtain c h where n: "NewBytes_of ?bs (w_heap w) = (c, h)" by fastforce
  note N = NewBytes_of_spec [OF wf n]
  obtain buf h0 where buf: "new_array ?bs 0 (w_heap w) = (buf, h0)" by fastforce
  have obj: "bytes_f (h_obj h c) = buf"
    using n buf by (auto simp: NewBytes_of_def NewBytes_def alloc_Bytes_def)
  define w' where "w' = set_jb k ((jb w k)\<lparr>jb_bytes := Some c\<rparr>) (w\<lparr>w_heap := h\<rparr>)"
  have nb: "NewBytes buf h0 = (c, h)" using n buf by (simp add: NewBytes_of_def)
  have "getBytes J held k w = Some (Inr buf, w')"
    using k(2) len [OF u(1)] to_go [OF u(1)] nb buf by (simp add: getBytes_def u w'_def)
  then have R: "bi_Bytes (idb_reader J) held b w = Some (buf, w')"
    by (simp add: idb_reader_def k Blob_Bytes_def)
  have E: "w_heap w' = h" "js_of w' = js_of w" "j_nobj (w_store w') = j_nobj (w_store w)"
    by (simp_all add: w'_def)
  have sg: "slice_get h buf = ?bs" using N(5) obj by (simp add: content_def)
  have ap: "apart h x c \<and> apart h c x \<and> \<not> same_mutex h c x" if "live (w_heap w) x" for x
    using N(6,7) [OF that] by (auto simp: apart_def same_mutex_def)
  have bl: "bv_live u8 arr w' b" using b k N(4,5) u by (auto simp: w'_def jb_ok_def)
  have kp: "bv_keep u8 arr bufid w w' a \<and> bv_known u8 w' a" if "bv_known u8 w a" "a \<noteq> b" for a
    using cache_keep(1) [of w w' c arr k u8 a bufid] cache_keep(2) [of w w' c arr k u8 a]
      N(2-5) ap E that k u by (simp add: w'_def)
  show thesis
    using that [of buf w'] R E N sg bl kp k by (auto simp: w'_def)
qed

end

context uint8_arrays
begin

lemma Len_spec:
  "wf_heap (w_heap w) \<Longrightarrow> bv_live u8 arr w b \<Longrightarrow> bi_Len (idb_reader J) b w = int (length (bv_content arr w b))"
  by (cases b) (simp_all add: idb_reader_def Bytes_Len_content Blob_Len_def jb_ok_def)

text \<open>\<open>Bytes.Set\<close> from either kind of blob, on the Go bytes \<open>c\<close> of the blob \<open>b\<close>.\<close>

lemma Bytes_Set_blob_spec:
  assumes wf: "wf_heap (w_heap w)" and b: "bv_refs w b = {c}" "bv_known u8 w b"
    and src: "bv_live u8 arr w src" "bv_apart bufid w src b" "\<not> bv_mutex w src b"
    and d: "0 \<le> d" "d + int (length (bv_content arr w src)) \<le> int (length (content (w_heap w) c))"
  obtains w' where
    "Bytes_Set_blob (idb_reader J) c src d w = Some ((int (length (bv_content arr w src)), None), w')"
    "wf_heap (w_heap w')" "content (w_heap w') c = overwrite (nat d) (bv_content arr w src) (content (w_heap w) c)"
    "bv_keep u8 arr bufid w w' b" "bv_known u8 w' b" "js_of w' = js_of w"
    "j_nobj (w_store w') = j_nobj (w_store w)" "\<And>i. IdbBlob i \<noteq> src \<Longrightarrow> jb w' i = jb w i"
proof -
  let ?s = "bytes_f (h_obj (w_heap w) c)" and ?m = "mu_f (h_obj (w_heap w) c)" and ?bs = "bv_content arr w src"
  have lc: "live (w_heap w) c" using b by (simp add: bv_known_def)
  have "set [?m] \<inter> bv_locks w src = {}" using src(3) b(1) by (auto simp: bv_mutex_def bv_locks_def)
  from Bytes_spec [OF wf src(1) this] obtain buf w2 where
    w2: "bi_Bytes (idb_reader J) [?m] src w = Some (buf, w2)" "wf_heap (w_heap w2)"
      "slice_get (w_heap w2) buf = ?bs" "extends (w_heap w) (w_heap w2)"
    and k2: "\<And>a. bv_known u8 w a \<Longrightarrow> a \<noteq> src \<Longrightarrow> bv_keep u8 arr bufid w w2 a \<and> bv_known u8 w2 a"
    and st: "js_of w2 = js_of w" "j_nobj (w_store w2) = j_nobj (w_store w)" "\<And>i. IdbBlob i \<noteq> src \<Longrightarrow> jb w2 i = jb w i"
    by metis
  have ne: "b \<noteq> src" using src(2) by (auto simp: bv_apart_def)
  have obj: "h_obj (w_heap w2) c = h_obj (w_heap w) c" and cc: "content (w_heap w2) c = content (w_heap w) c"
    and l2: "live (w_heap w2) c"
    using w2(4) lc by (simp_all add: extends_obj extends_content extends_live)
  have r2: "bv_refs w2 b = {c}" using b(1) ne st(3) by (cases b) auto
  have s: "wf_slice (w_heap w2) ?s" and len: "sl_len ?s = length (content (w_heap w) c)"
    using wf_live_sliceD(1) [OF w2(2) l2] length_content [OF wf lc] obj by simp_all
  define h3 where "h3 = (w_heap w2)\<lparr>h_arr := (h_arr (w_heap w2))(sl_arr ?s :=
      overwrite (sl_off ?s + nat d) ?bs (h_arr (w_heap w2) (sl_arr ?s)))\<rparr>"
  have fit: "nat d + length ?bs \<le> sl_len ?s" using d len by simp
  have h3: "wf_heap h3" "frame (w_heap w2) h3 c"
    using write_array [OF w2(2) l2, of "sl_off ?s + nat d" ?bs h3] s fit by (auto simp: obj h3_def wf_slice_def)
  have c3: "content h3 c = overwrite (nat d) ?bs (content (w_heap w) c)"
  proof -
    have "content h3 c = slice_of (sl_off ?s) (sl_off ?s + sl_len ?s)
        (overwrite (sl_off ?s + nat d) ?bs (h_arr (w_heap w2) (sl_arr ?s)))"
      by (simp add: h3_def content_def slice_get_def obj)
    also have "\<dots> = overwrite (nat d) ?bs (content (w_heap w2) c)"
      using slice_of_overwrite_inside [of "sl_off ?s" "sl_off ?s + nat d" ?bs "sl_off ?s + sl_len ?s"] s fit
      by (simp add: content_def slice_get_def obj wf_slice_def)
    finally show ?thesis by (simp add: cc)
  qed
  have res: "reslice ?s d (int (sl_len ?s)) =
      Some (?s\<lparr>sl_off := sl_off ?s + nat d, sl_len := sl_len ?s - nat d, sl_cap := sl_cap ?s - nat d\<rparr>)"
    using d(1) fit s by (auto simp: reslice_def wf_slice_def nat_diff_distrib)
  have guard: "\<not> (d \<ge> Bytes_Len (w_heap w) c \<and> d = 0 \<and> bi_Len (idb_reader J) src w > 0)"
    unfolding Bytes_Len_content [OF wf lc] Len_spec [OF wf src(1)] using d by linarith
  have tk: "take (sl_len ?s - nat d) ?bs = ?bs" using fit by simp
  have "Bytes_Set_blob (idb_reader J) c src d w = Some ((int (length ?bs), None), w2\<lparr>w_heap := h3\<rparr>)"
    using d(1) guard res w2(1,3) tk by (simp add: Bytes_Set_blob_def copy_into_def h3_def Let_def)
  moreover have kk: "bv_known u8 w2 b" "bv_keep u8 arr bufid w w2 b" using k2 [OF b(2) ne] by auto
  moreover have "bv_keep u8 arr bufid w (w2\<lparr>w_heap := h3\<rparr>) b" "bv_known u8 (w2\<lparr>w_heap := h3\<rparr>) b"
    using bv_keep_trans [OF kk(2)] heap_keep [OF h3(2) r2 kk(1)] by blast+
  ultimately show thesis
    using that [of "w2\<lparr>w_heap := h3\<rparr>"] h3(1) c3 st by simp
qed

lemma Blob_Set_spec:
  assumes wf: "wf_heap (w_heap w)" and b: "jb_ok u8 arr w i"
    and src: "bv_live u8 arr w src" "bv_apart bufid w src (IdbBlob i)" "\<not> bv_mutex w src (IdbBlob i)"
    and d: "0 \<le> d" "d + int (length (bv_content arr w src)) \<le> int (length (bv_content arr w (IdbBlob i)))"
  obtains w' where "Blob_Set J i src d w = Some ((int (length (bv_content arr w src)), None), w')"
    "wf_heap (w_heap w')" "bv_frame u8 arr bufid w w' (IdbBlob i)"
    "bv_content arr w' (IdbBlob i) = overwrite (nat d) (bv_content arr w src) (bv_content arr w (IdbBlob i))"
proof -
  let ?b = "IdbBlob i" and ?bs = "bv_content arr w src" and ?v = "jb_jsValue (jb w i)"
  let ?new = "overwrite (nat d) ?bs (bv_content arr w ?b)"
  have kb: "bv_known u8 w ?b" using b bv_live_known [of u8 arr w ?b] by simp
  have i: "i < j_nobj (w_store w)" using b by (simp add: jb_ok_def)
  have ne: "?b \<noteq> src" using src(2) by (auto simp: bv_apart_def)
  from FromBlob_spec [OF wf src(1)] obtain k w1 where F: "FromBlob J src w = Some (k, w1)" "jw_grows u8 arr w w1"
    "wf_heap (w_heap w1)" "jb_ok u8 arr w1 k" "arr (js_of w1) (jb_jsValue (jb w1 k)) = ?bs" .
  note G = jw_grows_blob [OF F(2) kb]
  have jb1: "jb w1 i = jb w i" using F(2) i by (simp add: jw_grows_def)
  have u1: "u8 (js_of w1) ?v" "arr (js_of w1) ?v = bv_content arr w ?b" "u8 (js_of w1) (jb_jsValue (jb w1 k))"
    using G(5) F(2,4) b jb1 by (auto simp: jb_ok_def jw_grows_def)
  from set_fits [OF u1(1,3) d(1)] d(2) obtain j2 where
    j2: "js_set J ?v (jb_jsValue (jb w1 k)) d (js_of w1) = (None, j2)" "js_written u8 arr bufid (js_of w1) ?v ?new j2"
    unfolding F(5) u1(2) by auto
  define w2 where "w2 = w1\<lparr>w_store := (w_store w1)\<lparr>j_js := j2\<rparr>\<rparr>"
  have w2: "w_heap w2 = w_heap w1" "j_obj (w_store w2) = j_obj (w_store w1)"
    "j_nobj (w_store w2) = j_nobj (w_store w1)" "js_of w2 = j2" "\<And>i. jb w2 i = jb w1 i"
    by (simp_all add: w2_def jb_def)
  have K1: "bv_keep u8 arr bufid w w1 ?b" by (rule jw_grows_keep [OF F(2) kb])
  have K2: "bv_keep u8 arr bufid w1 w2 ?b" "bv_known u8 w2 ?b"
    using js_written_keep [of u8 arr bufid w1 ?v ?new w2 ?b] j2(2) G(3) w2 jb1 by simp_all
  have K: "bv_keep u8 arr bufid w w2 ?b" using bv_keep_trans K1 K2(1) by blast
  from K src(1,2) have s2: "bv_live u8 arr w2 src" "bv_content arr w2 src = ?bs" "bv_apart bufid w2 src ?b"
    "\<not> bv_mutex w2 src ?b" using src(3) unfolding bv_keep_def by blast+
  have a2: "arr (js_of w2) ?v = ?new" "u8 (js_of w2) ?v" "length ?new = length (bv_content arr w ?b)"
    using j2(2) w2 u1 d by (auto simp: js_written_def)
  have lenb: "jb_length (jb w i) = int (length (bv_content arr w ?b))" using b by (simp add: jb_ok_def)
  have guard: "\<not> (d \<ge> Blob_Len i w \<and> d = 0 \<and> bi_Len (idb_reader J) src w > 0)"
    unfolding Blob_Len_def Len_spec [OF wf src(1)] lenb using d by linarith
  have n: "bi_Len (idb_reader J) src w2 = int (length ?bs)"
    using Len_spec [of w2 src] F(3) w2(1) s2 by simp
  have oj: "on_js (js_set J ?v (jb_jsValue (jb w1 k)) d) w1 = (None, w2)"
    using j2(1) by (simp add: on_js_eq w2_def)
  have jbb: "jb w2 i = jb w i" using w2(5) jb1 by simp
  show thesis
  proof (cases "jb_bytes (jb w i)")
    case None
    have "Blob_Set J i src d w = Some ((int (length ?bs), None), w2)"
      using d(1) guard F(1) oj n None by (simp add: Blob_Set_def Blob_JSValue_def jb1 jbb)
    moreover have "jb_ok u8 arr w2 i"
      using b None a2 lenb F(2) i w2 jbb by (simp add: jb_ok_def jw_grows_def)
    ultimately show thesis using that [of w2] F(3) w2 K a2 jbb by (simp add: bv_frame_def)
  next
    case (Some c)
    have c: "content (w_heap w2) c = bv_content arr w ?b" "bv_refs w2 ?b = {c}"
      using b Some F(2) w2 jbb by (auto simp: jb_ok_def jw_grows_def extends_content)
    from Bytes_Set_blob_spec [OF _ c(2) K2(2) s2(1,3,4) d(1)] d(2) F(3) w2(1) s2(2) c(1)
    obtain w3 where w3: "Bytes_Set_blob (idb_reader J) c src d w2 = Some ((int (length ?bs), None), w3)"
      "wf_heap (w_heap w3)" "content (w_heap w3) c = ?new" "bv_keep u8 arr bufid w2 w3 ?b" "bv_known u8 w3 ?b"
      "js_of w3 = js_of w2" "j_nobj (w_store w3) = j_nobj (w_store w2)" "\<And>i. IdbBlob i \<noteq> src \<Longrightarrow> jb w3 i = jb w2 i"
      by (metis (no_types, lifting))
    have jb3: "jb w3 i = jb w i" using w3(8) ne jbb by simp
    have "Blob_Set J i src d w = Some ((int (length ?bs), None), w3)"
      using d(1) guard F(1) oj n Some w3(1) by (simp add: Blob_Set_def Blob_JSValue_def jb1 jbb)
    moreover have "jb_ok u8 arr w3 i"
      using Some a2 lenb F(2) i w2 w3 jb3 by (auto simp: jb_ok_def jw_grows_def bv_known_def)
    ultimately show thesis
      using that [of w3] w3 bv_keep_trans [OF K] a2 jb3 by (simp add: bv_frame_def)
  qed
qed

end

context uint8_arrays
begin

text \<open>The last part of \<open>Grow\<close> and \<open>Truncate\<close>: the blob has a new array, and its Go bytes are changed in the same way.\<close>

lemma swap_bytes_spec:
  assumes wf: "wf_heap (w_heap w)" and b: "jb_ok u8 arr w i" and fresh: "js_fresh u8 arr bufid (js_of w) v j"
    and n: "n = int (length (arr j v))"
    and op: "\<And>h c. wf_heap h \<Longrightarrow> live h c \<Longrightarrow> content h c = arr (js_of w) (jb_jsValue (jb w i)) \<Longrightarrow>
        \<exists>h'. f c h = Some (None, h') \<and> wf_heap h' \<and> frame h h' c \<and> content h' c = arr j v"
  defines "w1 \<equiv> set_jb i ((jb w i)\<lparr>jb_jsValue := v, jb_length := n\<rparr>) (w\<lparr>w_store := (w_store w)\<lparr>j_js := j\<rparr>\<rparr>)"
  obtains w' where "(case jb_bytes (jb w i) of None \<Rightarrow> Some (None, w1) | Some c \<Rightarrow> on_heap (f c) w1) = Some (None, w')"
    "wf_heap (w_heap w')" "bv_frame u8 arr bufid w w' (IdbBlob i)" "bv_content arr w' (IdbBlob i) = arr j v"
proof -
  let ?b = "IdbBlob i"
  have kb: "bv_known u8 w ?b" using b bv_live_known [of u8 arr w ?b] by simp
  have w1: "w_heap w1 = w_heap w" "js_of w1 = j" "j_nobj (w_store w1) = j_nobj (w_store w)"
    "j_obj (w_store w1) = (j_obj (w_store w))(i := (jb w i)\<lparr>jb_jsValue := v, jb_length := n\<rparr>)"
    "jb w1 i = (jb w i)\<lparr>jb_jsValue := v, jb_length := n\<rparr>"
    by (simp_all add: w1_def)
  have K: "bv_keep u8 arr bufid w w1 ?b" "bv_known u8 w1 ?b"
    using swap_keep [OF _ kb, of arr bufid v w1 n] fresh w1 by simp_all
  have uv: "u8 j v" using fresh by (simp add: js_fresh_def)
  show thesis
  proof (cases "jb_bytes (jb w i)")
    case None
    have "jb_ok u8 arr w1 i" using b None uv n w1 by (simp add: jb_ok_def)
    then show thesis using that [of w1] None wf w1 K by (simp add: bv_frame_def)
  next
    case (Some c)
    have c: "live (w_heap w) c" "content (w_heap w) c = arr (js_of w) (jb_jsValue (jb w i))"
      using b Some by (simp_all add: jb_ok_def)
    from op [OF wf c] obtain h' where h': "f c (w_heap w) = Some (None, h')" "wf_heap h'" "frame (w_heap w) h' c"
      "content h' c = arr j v" by blast
    have "bv_refs w1 ?b = {c}" using Some w1 by simp
    from heap_keep [OF _ this K(2), of h'] h'(3) w1(1)
    have K2: "bv_keep u8 arr bufid w1 (w1\<lparr>w_heap := h'\<rparr>) ?b" "bv_known u8 (w1\<lparr>w_heap := h'\<rparr>) ?b" by simp_all
    have "on_heap (f c) w1 = Some (None, w1\<lparr>w_heap := h'\<rparr>)" using h'(1) w1(1) by simp
    moreover have "jb_ok u8 arr (w1\<lparr>w_heap := h'\<rparr>) i"
      using b Some uv n w1 h' frame_live [OF h'(3) c(1)] by (simp add: jb_ok_def)
    moreover have "bv_keep u8 arr bufid w (w1\<lparr>w_heap := h'\<rparr>) ?b" using bv_keep_trans [OF K(1) K2(1)] .
    ultimately show thesis
      using that [of "w1\<lparr>w_heap := h'\<rparr>"] Some h' w1 by (simp add: bv_frame_def)
  qed
qed

lemma Blob_Grow_spec:
  assumes wf: "wf_heap (w_heap w)" and b: "jb_ok u8 arr w i" and n: "0 \<le> n"
    and small: "Blob_Len i w + n \<le> max_int64"
  obtains w' where "Blob_Grow J i n w = Some (None, w')" "wf_heap (w_heap w')" "bv_frame u8 arr bufid w w' (IdbBlob i)"
    "bv_content arr w' (IdbBlob i) = bv_content arr w (IdbBlob i) @ replicate (nat n) 0"
proof -
  let ?v = "jb_jsValue (jb w i)" and ?l = "Blob_Len i w"
  have l: "?l = int (length (arr (js_of w) ?v))" and u: "u8 (js_of w) ?v"
    using b by (simp_all add: jb_ok_def Blob_Len_def)
  have i64: "int64 (?l + n) = ?l + n" using small n l by (simp add: max_int64_def)
  obtain v j1 where v: "js_New J (?l + n) (js_of w) = (Inr v, j1)" "js_fresh u8 arr bufid (js_of w) v j1"
    "arr j1 v = replicate (nat (?l + n)) 0"
    using new [of "?l + n" "js_of w"] n l by auto
  have u1: "u8 j1 v" "u8 j1 ?v" "arr j1 ?v = arr (js_of w) ?v" using v(2) u by (simp_all add: js_fresh_def)
  have fits: "0 + int (length (arr j1 ?v)) \<le> int (length (arr j1 v))" using u1 v(3) l n by simp
  obtain j2 where j2: "js_set J v ?v 0 j1 = (None, j2)"
    "js_written u8 arr bufid j1 v (overwrite 0 (arr (js_of w) ?v) (arr j1 v)) j2"
    using set_fits [OF u1(1,2) _ fits] u1(3) by auto
  have a2: "arr j2 v = arr (js_of w) ?v @ replicate (nat n) 0"
    using j2(2) v(3) l n by (simp add: js_written_def overwrite_def nat_add_distrib)
  have fr: "js_fresh u8 arr bufid (js_of w) v j2"
    using v(2) j2(2) u1 by (auto simp: js_fresh_def js_written_def)
  have len2: "?l + n = int (length (arr j2 v))" using a2 l n by simp
  have op: "\<exists>h'. Bytes_Grow c n h = Some (None, h') \<and> wf_heap h' \<and> frame h h' c \<and> content h' c = arr j2 v"
    if "wf_heap h" "live h c" "content h c = arr (js_of w) ?v" for h c
    using Bytes_Grow_spec [OF that(1,2) n] that(3) a2 by metis
  from swap_bytes_spec [OF wf b fr len2, of "\<lambda>c. Bytes_Grow c n", OF op]
  obtain w' where W: "(case jb_bytes (jb w i) of
        None \<Rightarrow> Some (None, set_jb i ((jb w i)\<lparr>jb_jsValue := v, jb_length := ?l + n\<rparr>) (w\<lparr>w_store := (w_store w)\<lparr>j_js := j2\<rparr>\<rparr>))
      | Some c \<Rightarrow> on_heap (Bytes_Grow c n)
          (set_jb i ((jb w i)\<lparr>jb_jsValue := v, jb_length := ?l + n\<rparr>) (w\<lparr>w_store := (w_store w)\<lparr>j_js := j2\<rparr>\<rparr>))) = Some (None, w')"
    "wf_heap (w_heap w')" "bv_frame u8 arr bufid w w' (IdbBlob i)" "bv_content arr w' (IdbBlob i) = arr j2 v" .
  have "Blob_Grow J i n w = Some (None, w')"
    using v(1) j2(1) W(1) by (cases "jb_bytes (jb w i)") (simp_all add: Blob_Grow_def i64 on_js_eq Let_def jb_js_update del: jworld_simps(4))
  with that W a2 show thesis by simp
qed

lemma Blob_Truncate_spec:
  assumes wf: "wf_heap (w_heap w)" and b: "jb_ok u8 arr w i" and n: "0 \<le> n"
  obtains w' where "Blob_Truncate J i n w = Some (None, w')" "wf_heap (w_heap w')"
    "bv_frame u8 arr bufid w w' (IdbBlob i)"
    "bv_content arr w' (IdbBlob i) = take (nat n) (bv_content arr w (IdbBlob i))"
proof (cases "Blob_Len i w < n")
  case True
  then have "take (nat n) (bv_content arr w (IdbBlob i)) = bv_content arr w (IdbBlob i)"
    using b by (simp add: jb_ok_def Blob_Len_def)
  then show thesis using that [of w] True wf b by (simp add: Blob_Truncate_def bv_frame_def)
next
  case False
  let ?v = "jb_jsValue (jb w i)"
  have u: "u8 (js_of w) ?v" and le: "n \<le> int (length (arr (js_of w) ?v))"
    using b False by (simp_all add: jb_ok_def Blob_Len_def)
  from slice [OF u _ n le] obtain v j where v: "js_slice J ?v 0 n (js_of w) = (Inr v, j)"
    "js_fresh u8 arr bufid (js_of w) v j" "arr j v = take (nat n) (arr (js_of w) ?v)"
    by (auto simp: slice_of_0)
  have len: "n = int (length (arr j v))" using v(3) le n by simp
  have op: "\<exists>h'. Bytes_Truncate c n h = Some (None, h') \<and> wf_heap h' \<and> frame h h' c \<and> content h' c = arr j v"
    if "wf_heap h" "live h c" "content h c = arr (js_of w) ?v" for h c
    using Bytes_Truncate_spec [OF that(1,2) n] that(3) v(3) by metis
  from swap_bytes_spec [OF wf b v(2) len, of "\<lambda>c. Bytes_Truncate c n", OF op]
  obtain w' where W: "(case jb_bytes (jb w i) of
        None \<Rightarrow> Some (None, set_jb i ((jb w i)\<lparr>jb_jsValue := v, jb_length := n\<rparr>) (w\<lparr>w_store := (w_store w)\<lparr>j_js := j\<rparr>\<rparr>))
      | Some c \<Rightarrow> on_heap (Bytes_Truncate c n)
          (set_jb i ((jb w i)\<lparr>jb_jsValue := v, jb_length := n\<rparr>) (w\<lparr>w_store := (w_store w)\<lparr>j_js := j\<rparr>\<rparr>))) = Some (None, w')"
    "wf_heap (w_heap w')" "bv_frame u8 arr bufid w w' (IdbBlob i)" "bv_content arr w' (IdbBlob i) = arr j v" .
  have "Blob_Truncate J i n w = Some (None, w')"
    using False v(1) W(1) by (cases "jb_bytes (jb w i)") (simp_all add: Blob_Truncate_def Blob_JSValue_def on_js_eq Let_def jb_js_update del: jworld_simps(4))
  with that W v(3) show thesis by simp
qed

end

subsection \<open>The contract\<close>

sublocale uint8_arrays \<subseteq> idbc: blob_contract "\<lambda>w. wf_heap (w_heap w)" "bv_live u8 arr" "bv_content arr"
  "bv_apart bufid" bv_mutex "bv_frame u8 arr bufid" "\<lambda>w b. bi_Len (idb_blob_iface J) b w"
  "blob_Set (idb_blob_iface J)" "blob_Grow (idb_blob_iface J)" "blob_Truncate (idb_blob_iface J)"
  "\<lambda>n. n \<le> max_int64"
proof (unfold_locales, goal_cases)
  case (1 w b)
  then show ?case by (simp add: bv_frame_def)
next
  case (2 w w1 b w2)
  then show ?case using bv_keep_trans by (auto simp: bv_frame_def)
next
  case (3 w w' b a)
  then show ?case by (auto simp: bv_frame_def bv_keep_def)
next
  case (4 w w' b a)
  then show ?case by (auto simp: bv_frame_def bv_keep_def)
next
  case (5 w w' b a)
  then show ?case by (auto simp: bv_frame_def bv_keep_def)
next
  case (6 w b)
  then show ?case using Len_spec by (simp add: idb_blob_iface_def)
next
  case (7 w b src d)
  show ?case
  proof (cases b)
    case (BytesBlob c)
    have k: "bv_known u8 w b" "bv_refs w b = {c}" using 7(2) bv_live_known BytesBlob by fastforce+
    have d: "d + int (length (bv_content arr w src)) \<le> int (length (content (w_heap w) c))" using 7(7) BytesBlob by simp
    from Bytes_Set_blob_spec [OF 7(1) k(2,1) 7(3,4,5,6) d] obtain w' where
      "Bytes_Set_blob (idb_reader J) c src d w = Some ((int (length (bv_content arr w src)), None), w')"
      "wf_heap (w_heap w')" "content (w_heap w') c = overwrite (nat d) (bv_content arr w src) (content (w_heap w) c)"
      "bv_keep u8 arr bufid w w' b" "bv_known u8 w' b" .
    then show ?thesis using BytesBlob by (simp add: blob_Set_def idb_blob_iface_def bv_frame_def bv_known_def)
  next
    case (IdbBlob i)
    have b: "jb_ok u8 arr w i" using 7(2) IdbBlob by simp
    from Blob_Set_spec [OF 7(1) b 7(3) 7(4,5,6,7) [unfolded IdbBlob]] obtain w' where
      "Blob_Set J i src d w = Some ((int (length (bv_content arr w src)), None), w')"
      "wf_heap (w_heap w')" "bv_frame u8 arr bufid w w' (IdbBlob i)"
      "bv_content arr w' (IdbBlob i) = overwrite (nat d) (bv_content arr w src) (bv_content arr w (IdbBlob i))" .
    then show ?thesis unfolding IdbBlob by (simp add: blob_Set_def idb_blob_iface_def)
  qed
next
  case (8 w b n)
  show ?case
  proof (cases b)
    case (BytesBlob c)
    have k: "bv_known u8 w b" "bv_refs w b = {c}" "live (w_heap w) c" using 8(2) bv_live_known BytesBlob by fastforce+
    from Bytes_Grow_spec [OF 8(1) k(3) 8(3)] obtain h where "Bytes_Grow c n (w_heap w) = Some (None, h)" "wf_heap h"
      "frame (w_heap w) h c" "content h c = content (w_heap w) c @ replicate (nat n) 0" .
    then show ?thesis using heap_keep [OF _ k(2,1)] frame_live [OF _ k(3)] BytesBlob
      by (auto simp: blob_Grow_def idb_blob_iface_def bv_frame_def)
  next
    case (IdbBlob i)
    have b: "jb_ok u8 arr w i" "Blob_Len i w + n \<le> max_int64"
      using 8(2,4) IdbBlob by (simp_all add: jb_ok_def Blob_Len_def)
    from Blob_Grow_spec [OF 8(1) b(1) 8(3) b(2)] show ?thesis
      unfolding IdbBlob by (fastforce simp: blob_Grow_def idb_blob_iface_def)
  qed
next
  case (9 w b n)
  show ?case
  proof (cases b)
    case (BytesBlob c)
    have k: "bv_known u8 w b" "bv_refs w b = {c}" "live (w_heap w) c" using 9(2) bv_live_known BytesBlob by fastforce+
    from Bytes_Truncate_spec [OF 9(1) k(3) 9(3)] obtain h where "Bytes_Truncate c n (w_heap w) = Some (None, h)" "wf_heap h"
      "frame (w_heap w) h c" "content h c = take (nat n) (content (w_heap w) c)" .
    then show ?thesis using heap_keep [OF _ k(2,1)] frame_live [OF _ k(3)] BytesBlob
      by (auto simp: blob_Truncate_def idb_blob_iface_def bv_frame_def)
  next
    case (IdbBlob i)
    have b: "jb_ok u8 arr w i" using 9(2) IdbBlob by simp
    from Blob_Truncate_spec [OF 9(1) b 9(3)] show ?thesis
      unfolding IdbBlob by (fastforce simp: blob_Truncate_def idb_blob_iface_def)
  qed
qed

subsection \<open>A memory of byte arrays\<close>

text \<open>
  An array is a window of a buffer; \<^const>\<open>None\<close> is \<open>undefined\<close>. Indices of \<open>subarray\<close> and \<open>slice\<close> are relative to the end when
  they are negative and cut at the bounds, and \<open>set\<close> beyond the end throws a \<open>RangeError\<close>, as in ECMAScript.
\<close>

record u8v =
  u_buf :: nat
  u_off :: nat
  u_len :: nat

record u8mem =
  um_bufs :: "nat \<Rightarrow> byte list"
  um_n :: nat

definition RangeError :: err where
  "RangeError = ErrorString ''RangeError''"

definition TypeError :: err where
  "TypeError = ErrorString ''TypeError''"

definition u8_arr :: "u8mem \<Rightarrow> u8v option \<Rightarrow> byte list" where
  "u8_arr j v = (case v of None \<Rightarrow> [] | Some v \<Rightarrow> slice_of (u_off v) (u_off v + u_len v) (um_bufs j (u_buf v)))"

definition u8_ok :: "u8mem \<Rightarrow> u8v option \<Rightarrow> bool" where
  "u8_ok j v = (case v of None \<Rightarrow> False
     | Some v \<Rightarrow> u_buf v < um_n j \<and> u_off v + u_len v \<le> length (um_bufs j (u_buf v)))"

definition u8_bufid :: "u8v option \<Rightarrow> nat" where
  "u8_bufid v = (case v of None \<Rightarrow> 0 | Some v \<Rightarrow> u_buf v)"

definition u8_alloc :: "byte list \<Rightarrow> u8mem \<Rightarrow> (err + u8v option) \<times> u8mem" where
  "u8_alloc bs j = (Inr (Some \<lparr>u_buf = um_n j, u_off = 0, u_len = length bs\<rparr>),
     j\<lparr>um_bufs := (um_bufs j)(um_n j := bs), um_n := Suc (um_n j)\<rparr>)"

definition u8_write :: "u8v \<Rightarrow> nat \<Rightarrow> byte list \<Rightarrow> u8mem \<Rightarrow> u8mem" where
  "u8_write v off bs j =
     j\<lparr>um_bufs := (um_bufs j)(u_buf v := overwrite (u_off v + off) bs (um_bufs j (u_buf v)))\<rparr>"

definition u8_rel :: "nat \<Rightarrow> int \<Rightarrow> nat" where
  "u8_rel n i = (if i < 0 then nat (max (int n + i) 0) else min (nat i) n)"

definition u8_pkg :: "(u8v option, u8mem) js_pkg" where
  "u8_pkg = \<lparr>js_Truthy = (\<lambda>v j. Inr (v \<noteq> None)), js_InstanceOf = (\<lambda>v j. Inr (v \<noteq> None)),
     js_New = (\<lambda>n j. if n < 0 then (Inl RangeError, j) else u8_alloc (replicate (nat n) 0) j),
     js_Length = (\<lambda>v j. case v of None \<Rightarrow> Inl TypeError | Some v \<Rightarrow> Inr (int (u_len v))),
     js_CopyBytesToJS = (\<lambda>v bs j. case v of None \<Rightarrow> (Inl TypeError, j)
        | Some v \<Rightarrow> (Inr (int (min (u_len v) (length bs))), u8_write v 0 (take (u_len v) bs) j)),
     js_CopyBytesToGo = (\<lambda>n v j. if v = None then Inl TypeError
        else Inr (take (nat n) (u8_arr j v) @ replicate (nat n - length (u8_arr j v)) 0)),
     js_subarray = (\<lambda>v s e j. case v of None \<Rightarrow> (Inl TypeError, j)
        | Some v \<Rightarrow> (let b = u8_rel (u_len v) s; e = u8_rel (u_len v) e
            in (Inr (Some (v\<lparr>u_off := u_off v + b, u_len := e - b\<rparr>)), j))),
     js_slice = (\<lambda>v s e j. case v of None \<Rightarrow> (Inl TypeError, j)
        | Some x \<Rightarrow> u8_alloc (slice_of (u8_rel (u_len x) s) (u8_rel (u_len x) e) (u8_arr j v)) j),
     js_set = (\<lambda>v x off j. case v of None \<Rightarrow> (Some TypeError, j)
        | Some v \<Rightarrow> if x = None then (Some TypeError, j)
            else if off < 0 \<or> int (u_len v) < off + int (length (u8_arr j x)) then (Some RangeError, j)
            else (None, u8_write v (nat off) (u8_arr j x) j)),
     js_fmt = (\<lambda>_. ''undefined'')\<rparr>"

lemma u8_length: "u8_ok j (Some v) \<Longrightarrow> length (u8_arr j (Some v)) = u_len v"
  by (auto simp: u8_ok_def u8_arr_def)

lemma u8_ok_Some: "u8_ok j v \<Longrightarrow> v \<noteq> None"
  by (auto simp: u8_ok_def split: option.splits)

lemma u8_alloc_fresh:
  "\<exists>v j'. u8_alloc bs j = (Inr v, j') \<and> js_fresh u8_ok u8_arr u8_bufid j v j' \<and> u8_arr j' v = bs"
  by (auto simp: u8_alloc_def js_fresh_def u8_ok_def u8_arr_def u8_bufid_def slice_of_0 split: option.splits)

lemma u8_write_written:
  assumes "u8_ok j (Some v)" "n + length bs \<le> u_len v"
  shows "js_written u8_ok u8_arr u8_bufid j (Some v) (overwrite n bs (u8_arr j (Some v))) (u8_write v n bs j)"
proof -
  have fit: "u_off v + n + length bs \<le> length (um_bufs j (u_buf v))" using assms by (simp add: u8_ok_def)
  have "slice_of (u_off v) (u_off v + u_len v) (overwrite (u_off v + n) bs (um_bufs j (u_buf v))) =
      overwrite n bs (slice_of (u_off v) (u_off v + u_len v) (um_bufs j (u_buf v)))"
    using slice_of_overwrite_inside [of "u_off v" "u_off v + n" bs "u_off v + u_len v" "um_bufs j (u_buf v)"] assms
    by (simp add: u8_ok_def)
  then show ?thesis
    using fit by (auto simp: js_written_def u8_write_def u8_arr_def u8_ok_def u8_bufid_def split: option.splits)
qed

interpretation u8m: uint8_arrays u8_pkg u8_ok u8_arr u8_bufid
proof (unfold_locales, goal_cases)
  case (4 n j)
  then show ?case using u8_alloc_fresh [of "replicate (nat n) 0" j] by (simp add: u8_pkg_def)
next
  case (5 j v bs)
  then obtain x where "v = Some x" "length bs = u_len x" "u8_ok j (Some x)"
    by (cases v) (auto simp: u8_ok_def u8_length)
  then show ?case
    using u8_write_written [of j x 0 bs] u8_length [of j x] by (simp add: u8_pkg_def overwrite_def)
next
  case (7 j v s e)
  then obtain x where "v = Some x" "u8_ok j (Some x)" by (cases v) (auto simp: u8_ok_def)
  with 7 show ?case
    by (auto simp: u8_pkg_def u8_rel_def u8_ok_def u8_arr_def u8_bufid_def slice_of_slice_of Let_def)
next
  case (8 j v s e)
  then obtain x where x: "v = Some x" "u8_ok j (Some x)" by (cases v) (auto simp: u8_ok_def)
  then have "u8_rel (u_len x) s = nat s" "u8_rel (u_len x) e = nat e"
    using 8 u8_length by (auto simp: u8_rel_def)
  with x show ?case using u8_alloc_fresh [of "slice_of (nat s) (nat e) (u8_arr j v)" j] by (simp add: u8_pkg_def)
next
  case (9 j v x off)
  then obtain a where a: "v = Some a" "u8_ok j (Some a)" by (cases v) (auto simp: u8_ok_def)
  have "x \<noteq> None" using 9(2) by (rule u8_ok_Some)
  with a 9 show ?case
    using u8_write_written [OF a(2), of "nat off" "u8_arr j x"] u8_length [OF a(2)] by (auto simp: u8_pkg_def)
next
  case (10 j v x off)
  then obtain a where a: "v = Some a" "u8_ok j (Some a)" by (cases v) (auto simp: u8_ok_def)
  have "x \<noteq> None" using 10(2) by (rule u8_ok_Some)
  with a 10 show ?case using u8_length [OF a(2)] by (simp add: u8_pkg_def)
qed (auto simp: u8_pkg_def u8_ok_def u8_length split: option.splits)

subsection \<open>Properties\<close>

context uint8_arrays
begin

lemmas write_through = idbc.grow_and_set

lemma Set_too_long:
  assumes wf: "wf_heap (w_heap w)" and b: "jb_ok u8 arr w i" and src: "bv_live u8 arr w src"
    and long: "d < 0 \<or> int (length (bv_content arr w (IdbBlob i))) < d + int (length (bv_content arr w src))"
  shows "\<exists>e w'. Blob_Set J i src d w = Some ((0, Some e), w')
    \<and> wf_heap (w_heap w') \<and> bv_frame u8 arr bufid w w' (IdbBlob i)
    \<and> bv_content arr w' (IdbBlob i) = bv_content arr w (IdbBlob i)"
proof (cases "d < 0 \<or> (d \<ge> Blob_Len i w \<and> d = 0 \<and> bi_Len (idb_reader J) src w > 0)")
  case True
  then show ?thesis using wf b by (auto simp: Blob_Set_def bv_frame_def)
next
  case False
  let ?v = "jb_jsValue (jb w i)"
  from FromBlob_spec [OF wf src] obtain k w1 where F: "FromBlob J src w = Some (k, w1)" "jw_grows u8 arr w w1"
    "wf_heap (w_heap w1)" "jb_ok u8 arr w1 k" "arr (js_of w1) (jb_jsValue (jb w1 k)) = bv_content arr w src" .
  have kb: "bv_known u8 w (IdbBlob i)" using b bv_live_known [of u8 arr w "IdbBlob i"] by simp
  note G = jw_grows_blob [OF F(2) kb]
  have jb1: "jb w1 i = jb w i" using F(2) b by (simp add: jw_grows_def jb_ok_def)
  have u: "u8 (js_of w1) ?v" "arr (js_of w1) ?v = bv_content arr w (IdbBlob i)" "u8 (js_of w1) (jb_jsValue (jb w1 k))"
    using G(5) F(2,4) b jb1 by (auto simp: jb_ok_def jw_grows_def)
  obtain e where "js_set J ?v (jb_jsValue (jb w1 k)) d (js_of w1) = (Some e, js_of w1)"
    using set_range [OF u(1,3)] long False unfolding u(2) F(5) by blast
  then have "on_js (js_set J ?v (jb_jsValue (jb w1 k)) d) w1 = (Some e, w1)"
    by (simp add: on_js_eq js_of_def)
  then have "Blob_Set J i src d w = Some ((0, Some e), w1)"
    using False F(1) by (auto simp: Blob_Set_def Blob_JSValue_def jb1)
  moreover have "bv_frame u8 arr bufid w w1 (IdbBlob i)"
    using G(6) jw_grows_keep [OF F(2) kb] by (simp add: bv_frame_def)
  ultimately show ?thesis using F(3) G(5) by blast
qed

end

text \<open>A small world: blob 0 wraps the array \<open>[1, 2, 3]\<close> and has its bytes on the Go side as \<open>*Bytes\<close> 0; \<open>*Bytes\<close> 1 holds \<open>[9, 8]\<close>.\<close>

definition demo_jw :: "bref option \<Rightarrow> (u8v option, u8mem) jworld" where
  "demo_jw c = \<lparr>w_heap = demo_heap, w_clock = \<lambda>_. 0, w_tick = 0,
     w_store = \<lparr>j_js = \<lparr>um_bufs = (\<lambda>_. [])(0 := [1, 2, 3]), um_n = 1\<rparr>,
       j_obj = (\<lambda>_. \<lparr>jb_bytes = c, jb_jsValue = Some \<lparr>u_buf = 0, u_off = 0, u_len = 3\<rparr>, jb_length = 3\<rparr>),
       j_nobj = 1\<rparr>\<rparr>"

lemma demo_jw_facts:
  "wf_heap (w_heap (demo_jw c))" "bv_live u8_ok u8_arr (demo_jw (Some 0)) (IdbBlob 0)"
  "bv_live u8_ok u8_arr (demo_jw (Some 0)) (BytesBlob 1)"
  "bv_apart u8_bufid (demo_jw (Some 0)) (BytesBlob 1) (IdbBlob 0)"
  "\<not> bv_mutex (demo_jw (Some 0)) (BytesBlob 1) (IdbBlob 0)"
  "bv_content u8_arr (demo_jw (Some 0)) (IdbBlob 0) = [1, 2, 3]"
  "bv_content u8_arr (demo_jw (Some 0)) (BytesBlob 1) = [9, 8]"
  "bi_Len (idb_blob_iface u8_pkg) (IdbBlob 0) (demo_jw (Some 0)) = 3"
  using demo_heap_facts
  by (simp_all add: demo_jw_def jb_ok_def js_of_def jb_def u8_ok_def u8_arr_def bv_apart_def bv_mutex_def
      bv_locks_def same_mutex_def slice_of_def idb_blob_iface_def idb_reader_def Blob_Len_def)

text \<open>
  C23: writing through a blob over a JavaScript array, for every implementation of the arrays that behaves as
  documented. Growing the blob so that the source fits and setting the source at an offset returns the source's length, leaves the
  source's bytes at the offset, the old bytes elsewhere and zeros in a gap; the array and the copy of its bytes on the Go side
  agree afterwards; every blob that shares neither array nor bytes with it stays as it was. The source may be
  either kind of blob, and so may the destination.
\<close>

theorem idb_grow_and_set:
  assumes "uint8_arrays J u8 arr bufid" "wf_heap (w_heap w)" "bv_live u8 arr w b" "bv_live u8 arr w src"
    and "bv_apart bufid w src b" "\<not> bv_mutex w src b" "0 \<le> off"
    and "off + int (length (bv_content arr w src)) \<le> max_int64"
  shows "\<exists>w1 w2.
      (if bi_Len (idb_blob_iface J) b w < off + int (length (bv_content arr w src))
       then blob_Grow (idb_blob_iface J) b
              (off + int (length (bv_content arr w src)) - bi_Len (idb_blob_iface J) b w) w = Some (None, w1)
       else w1 = w)
    \<and> blob_Set (idb_blob_iface J) b src off w1 = Some ((int (length (bv_content arr w src)), None), w2)
    \<and> wf_heap (w_heap w2) \<and> bv_frame u8 arr bufid w w2 b
    \<and> bv_content arr w2 b = overwrite (nat off) (bv_content arr w src)
        (bv_content arr w b @
         replicate (nat (off + int (length (bv_content arr w src))) - length (bv_content arr w b)) 0)"
  using assms by (rule uint8_arrays.write_through)

theorem idb_grow_and_set_witness:
  "\<exists>w1 w2. blob_Grow (idb_blob_iface u8_pkg) (IdbBlob 0) 2 (demo_jw (Some 0)) = Some (None, w1)
    \<and> blob_Set (idb_blob_iface u8_pkg) (IdbBlob 0) (BytesBlob 1) 3 w1 = Some ((2, None), w2)
    \<and> bv_content u8_arr w2 (IdbBlob 0) = [1, 2, 3, 9, 8]"
  using idb_grow_and_set [OF u8m.uint8_arrays_axioms demo_jw_facts(1-5), of 3]
  by (auto simp: demo_jw_facts(6-) overwrite_def max_int64_def simp del: One_nat_def bv_simps)

text \<open>
  A source that does not fit. Setting a source that would reach beyond the end of the array, or at a negative offset, returns
  0 and an error and changes no bytes, on either side.
\<close>

theorem idb_Set_too_long:
  assumes "uint8_arrays J u8 arr bufid" "wf_heap (w_heap w)" "jb_ok u8 arr w i" "bv_live u8 arr w src"
    and "d < 0 \<or> int (length (bv_content arr w (IdbBlob i))) < d + int (length (bv_content arr w src))"
  shows "\<exists>e w'. Blob_Set J i src d w = Some ((0, Some e), w')
    \<and> wf_heap (w_heap w') \<and> bv_frame u8 arr bufid w w' (IdbBlob i)
    \<and> bv_content arr w' (IdbBlob i) = bv_content arr w (IdbBlob i)"
  using uint8_arrays.Set_too_long [OF assms] .

theorem idb_Set_too_long_witness:
  "\<exists>e w'. Blob_Set u8_pkg 0 (BytesBlob 1) 2 (demo_jw (Some 0)) = Some ((0, Some e), w')
    \<and> bv_content u8_arr w' (IdbBlob 0) = [1, 2, 3]"
  using idb_Set_too_long [OF u8m.uint8_arrays_axioms demo_jw_facts(1), of "Some 0" 0 "BytesBlob 1" 2]
    demo_jw_facts(2,3,6,7) by (auto simp del: One_nat_def)

subsection \<open>Where the two copies part\<close>

text \<open>
  A view taken before the bytes of the original were copied to the Go side has no such copy; setting the view then changes
  the array they share and leaves the copy of the original: \<open>Bytes\<close> of the original returns the old bytes.
\<close>

lemma idb_view_stale:
  "do {
     (r, w) \<leftarrow> Blob_View u8_pkg 0 0 2 (demo_jw None);
     (_, w) \<leftarrow> Blob_Bytes u8_pkg [] 0 w;
     (_, w) \<leftarrow> Blob_Set u8_pkg 1 (BytesBlob 1) 0 w;
     (buf, w) \<leftarrow> Blob_Bytes u8_pkg [] 0 w;
     Some (r, slice_get (w_heap w) buf, u8_arr (js_of w) (Blob_JSValue 0 w))
   } = Some (Inr (IdbBlob 1), [1, 2, 3], [9, 8, 3])"
  by code_simp

text \<open>\<open>Slice\<close> of a blob with Go bytes: the array holds the bytes from \<open>start\<close>, the Go bytes those from 0.\<close>

lemma idb_slice_differs:
  "do {
     (r, w) \<leftarrow> Blob_Slice u8_pkg 0 1 3 (demo_jw (Some 0));
     (buf, w) \<leftarrow> Blob_Bytes u8_pkg [] 1 w;
     Some (r, slice_get (w_heap w) buf, u8_arr (js_of w) (Blob_JSValue 1 w))
   } = Some (Inr (IdbBlob 1), [1, 2], [2, 3])"
  by code_simp

text \<open>\<open>View\<close> does not check its bounds unless there are Go bytes: an end beyond the array is cut, a negative start counts from the end.\<close>

lemma idb_view_unchecked:
  "do { (r, w) \<leftarrow> Blob_View u8_pkg 0 (-1) 9 (demo_jw None); Some (r, Blob_Len 1 w) } = Some (Inr (IdbBlob 1), 1)"
  "map_option fst (Blob_View u8_pkg 0 (-1) 9 (demo_jw (Some 0))) =
     Some (Inl (ErrorString ''Start index out of bounds: -1''))"
  by code_simp+

end
