(* ===== verification/IDB_Store.thy ===== *)
theory IDB_Store
  imports KV_FS IDB_Blob
begin

section \<open>Package \<open>indexeddb\<close>: a store in IndexedDB (\<open>store.go\<close>, \<open>transaction.go\<close>, \<open>fs.go\<close>)\<close>

text \<open>
  IndexedDB and the package \<open>idb\<close> that calls it are not part of the repository: they are the parameter \<open>idb_pkg\<close>, a record of the calls,
  over a type \<open>'d\<close> of states of the database. A call that issues a request returns its number; requests are carried out later, and
  \<open>ip_Deliver\<close> is the next event of a transaction: a request has succeeded or failed, or the transaction has completed or was
  aborted. Listening to a request stores a callback with it, and waiting for a transaction runs the callbacks of the events in
  their order. Handlers passed by the caller are values of a type \<open>'h\<close>, which the parameter \<open>H\<close> runs, since they may use the
  transaction that holds them.

  A JavaScript number is a \<open>float64\<close>: storing an integer rounds it to 53 significant bits (\<open>float64\<close>). The bytes of a file are stored
  as a copy of the bytes of the blob, and read as a new blob with those bytes; theory \<open>IDB_Blob\<close> has the blobs of both kinds. Contexts are
  not cancelled in this model, and \<open>safejs.ValueOf\<close> does not fail on strings and on maps of numbers and strings.
\<close>

subsection \<open>Numbers and times\<close>

fun bitlen :: "nat \<Rightarrow> nat" where
  "bitlen n = (if n = 0 then 0 else Suc (bitlen (n div 2)))"

declare bitlen.simps [simp del]

definition round_to :: "nat \<Rightarrow> nat \<Rightarrow> nat" where
  "round_to k n =
     (let q = n div 2 ^ k; r = n mod 2 ^ k in
      (if 2 * r > 2 ^ k \<or> 2 * r = 2 ^ k \<and> odd q then q + 1 else q) * 2 ^ k)"

definition float64 :: "int \<Rightarrow> int" where
  "float64 x = sgn x * int (round_to (bitlen (nat \<bar>x\<bar>) - 53) (nat \<bar>x\<bar>))"

text \<open>The time 0 is the zero \<open>time.Time\<close>, in the year 1; Unix time starts in 1970.\<close>

definition unix_epoch :: time where "unix_epoch = 62135596800 * 10 ^ 9"

definition UnixNano :: "time \<Rightarrow> int" where "UnixNano t = int64 (t - unix_epoch)"

definition time_Unix :: "int \<Rightarrow> int \<Rightarrow> time" where "time_Unix sec nsec = unix_epoch + sec * 10 ^ 9 + nsec"

definition js_Int :: "int \<Rightarrow> int" where "js_Int x = min x max_int64"


subsection \<open>The database\<close>

record file_info =
  fi_ModTime :: int
  fi_Mode :: int
  fi_Size :: int
  fi_Parent :: "string option"

datatype idb_val = VInfo file_info | VBytes "byte list" | VKeys "string list"

datatype idb_request =
    RGet string string
  | RPut string string idb_val
  | RDelete string string
  | RClear string
  | RAllKeys string string string

datatype idb_event = EvSuccess nat | EvError nat | EvComplete | EvAbort err

record 'd idb_pkg =
  ip_Transaction :: "bool \<Rightarrow> string list \<Rightarrow> 'd \<Rightarrow> (err + nat) \<times> 'd"
  ip_ObjectStore :: "nat \<Rightarrow> string \<Rightarrow> 'd \<Rightarrow> err option"
  ip_Request :: "nat \<Rightarrow> idb_request \<Rightarrow> 'd \<Rightarrow> (err + nat) \<times> 'd"
  ip_Listen :: "nat \<Rightarrow> 'd \<Rightarrow> err option"
  ip_Deliver :: "nat \<Rightarrow> 'd \<Rightarrow> idb_event \<times> 'd"
  ip_Result :: "nat \<Rightarrow> 'd \<Rightarrow> err + idb_val option"
  ip_Err :: "nat \<Rightarrow> 'd \<Rightarrow> err option"
  ip_Abort :: "nat \<Rightarrow> 'd \<Rightarrow> err option \<times> 'd"
  ip_Commit :: "nat \<Rightarrow> 'd \<Rightarrow> err option \<times> 'd"

definition on_idb :: "('d \<Rightarrow> 'a \<times> 'd) \<Rightarrow> 'd world \<Rightarrow> 'a \<times> 'd world" where
  "on_idb f w = (let (x, d) = f (w_store w) in (x, w\<lparr>w_store := d\<rparr>))"

lemma on_idb_eq: "f (w_store w) = (x, d) \<Longrightarrow> on_idb f w = (x, w\<lparr>w_store := d\<rparr>)"
  by (simp add: on_idb_def)

definition contentsStore :: string where "contentsStore = ''contents''"

definition infoStore :: string where "infoStore = ''info''"

definition parentKey :: string where "parentKey = ''Parent''"

definition idb_root :: string where "idb_root = ''.''"

definition errAborted :: err where "errAborted = ErrorString ''AbortError''"

definition js_type_error :: err where "js_type_error = ErrorString ''invalid JavaScript type''"


subsection \<open>Records (\<open>store.go\<close>)\<close>

text \<open>\<open>req.Await\<close>: events of the transaction until one is about the request.\<close>

partial_function (option) req_Await ::
  "'d idb_pkg \<Rightarrow> nat \<Rightarrow> nat \<Rightarrow> 'd world \<Rightarrow> ((err + idb_val option) \<times> 'd world) option" where
  "req_Await P txn req w =
     (case on_idb (ip_Deliver P txn) w of
        (EvSuccess r, w) \<Rightarrow> if r = req then Some (ip_Result P req (w_store w), w) else req_Await P txn req w
      | (EvError r, w) \<Rightarrow> if r = req then Some (ip_Result P req (w_store w), w) else req_Await P txn req w
      | (EvComplete, w) \<Rightarrow> None
      | (EvAbort e, w) \<Rightarrow> Some (Inl e, w))"

definition getFileData :: "'d idb_pkg \<Rightarrow> string \<Rightarrow> 'd world \<Rightarrow> ((err + bref) \<times> 'd world) option" where
  "getFileData P path w =
     (case on_idb (ip_Transaction P False [contentsStore]) w of
        (Inl e, w) \<Rightarrow> Some (Inl e, w)
      | (Inr txn, w) \<Rightarrow>
          (case ip_ObjectStore P txn contentsStore (w_store w) of
             Some e \<Rightarrow> Some (Inl e, w)
           | None \<Rightarrow>
               (case on_idb (ip_Request P txn (RGet contentsStore path)) w of
                  (Inl e, w) \<Rightarrow> Some (Inl e, w)
                | (Inr req, w) \<Rightarrow> do {
                    (value, w) \<leftarrow> req_Await P txn req w;
                    (case value of
                       Inl e \<Rightarrow> Some (Inl ErrNotExist, w)
                     | Inr None \<Rightarrow> Some (Inl ErrNotExist, w)
                     | Inr (Some (VBytes bs)) \<Rightarrow>
                         (let (b, h) = NewBytes_of bs (w_heap w) in Some (Inr b, w\<lparr>w_heap := h\<rparr>))
                     | Inr (Some _) \<Rightarrow> Some (Inl js_type_error, w))
                  })))"

definition idb_getDirNames :: "'d idb_pkg \<Rightarrow> string \<Rightarrow> 'd world \<Rightarrow> ((err + string list) \<times> 'd world) option" where
  "idb_getDirNames P name w =
     (case on_idb (ip_Transaction P False [infoStore]) w of
        (Inl e, w) \<Rightarrow> Some (Inl e, w)
      | (Inr txn, w) \<Rightarrow>
          (case ip_ObjectStore P txn infoStore (w_store w) of
             Some e \<Rightarrow> Some (Inl e, w)
           | None \<Rightarrow>
               (case on_idb (ip_Request P txn (RAllKeys infoStore parentKey name)) w of
                  (Inl e, w) \<Rightarrow> Some (Inl e, w)
                | (Inr req, w) \<Rightarrow> do {
                    (jsKeys, w) \<leftarrow> req_Await P txn req w;
                    Some (case jsKeys of
                            Inl e \<Rightarrow> Inl e
                          | Inr (Some (VKeys keys)) \<Rightarrow> Inr (map Base keys)
                          | Inr _ \<Rightarrow> Inl js_type_error, w)
                  })))"

definition getMode :: "idb_val \<Rightarrow> err + file_mode" where
  "getMode v = (case v of VInfo fi \<Rightarrow> Inr (of_int (js_Int (fi_Mode fi))) | _ \<Rightarrow> Inl js_type_error)"

text \<open>An undefined result is reported as a missing file before the error of the request is looked at.\<close>

definition parseResult ::
  "'d idb_pkg \<Rightarrow> string \<Rightarrow> idb_val option \<Rightarrow> err option \<Rightarrow> err + (unit, 'd world) FileRecord" where
  "parseResult P path result e =
     (case result of
        None \<Rightarrow> Inl ErrNotExist
      | Some v \<Rightarrow>
          (case e of
             Some e \<Rightarrow> Inl e
           | None \<Rightarrow>
               (case (v, getMode v) of
                  (VInfo fi, Inr mode) \<Rightarrow>
                    Inr (BaseRec (NewBaseFileRecord (js_Int (fi_Size fi)) (time_Unix 0 (js_Int (fi_ModTime fi))) mode
                      (if IsDir mode then None else Some (getFileData P path))
                      (if IsDir mode then Some (idb_getDirNames P path) else None)))
                | (_, Inl e) \<Rightarrow> Inl e
                | _ \<Rightarrow> Inl js_type_error)))"

definition getFileRequest_Result :: "'d idb_pkg \<Rightarrow> string \<Rightarrow> nat \<Rightarrow> 'd \<Rightarrow> err + (unit, 'd world) FileRecord" where
  "getFileRequest_Result P path req d =
     (case ip_Result P req d of
        Inl e \<Rightarrow> parseResult P path None (Some e)
      | Inr v \<Rightarrow> parseResult P path v None)"

subsection \<open>Transactions (\<open>transaction.go\<close>)\<close>

type_synonym 'd idb_result = "(unit, 'd world) OpResult"

datatype idb_pending = PendGet int string nat | PendParent int nat

datatype 'h idb_callback = CbParent | CbGet int string 'h | CbSet int 'h

text \<open>\<open>it_notExists\<close> are the parent requests whose flag \<open>notExists\<close> is set; \<open>it_listen\<close> the callbacks by request.\<close>

record ('d, 'h) itxn =
  it_txn :: nat
  it_nextOp :: int
  it_results :: "(int \<times> 'd idb_result) list"
  it_pending :: "idb_pending list"
  it_listen :: "(nat \<times> 'h idb_callback) list"
  it_notExists :: "nat list"

definition idb_newOp :: "('d, 'h) itxn \<Rightarrow> int \<times> ('d, 'h) itxn" where
  "idb_newOp t = (it_nextOp t, t\<lparr>it_nextOp := it_nextOp t + 1\<rparr>)"

definition idb_setResult :: "int \<Rightarrow> 'd idb_result \<Rightarrow> ('d, 'h) itxn \<Rightarrow> ('d, 'h) itxn" where
  "idb_setResult op result t = t\<lparr>it_results := AList.update op result (it_results t)\<rparr>"

definition op_error :: "int \<Rightarrow> err option \<Rightarrow> 'd idb_result" where
  "op_error op e = \<lparr>or_Op = op, or_Record = None, or_Err = e\<rparr>"

definition op_record :: "int \<Rightarrow> (err + (unit, 'd world) FileRecord) \<Rightarrow> 'd idb_result" where
  "op_record op r = (case r of
     Inl e \<Rightarrow> \<lparr>or_Op = op, or_Record = None, or_Err = Some e\<rparr>
   | Inr rec \<Rightarrow> \<lparr>or_Op = op, or_Record = Some rec, or_Err = None\<rparr>)"

definition setPending :: "idb_pending \<Rightarrow> ('d, 'h) itxn \<Rightarrow> ('d, 'h) itxn" where
  "setPending p t = t\<lparr>it_pending := it_pending t @ [p]\<rparr>"

definition add_listener :: "nat \<Rightarrow> 'h idb_callback \<Rightarrow> ('d, 'h) itxn \<Rightarrow> ('d, 'h) itxn" where
  "add_listener req cb t = t\<lparr>it_listen := it_listen t @ [(req, cb)]\<rparr>"

definition idb_Transaction ::
  "'d idb_pkg \<Rightarrow> TransactionMode \<Rightarrow> 'd world \<Rightarrow> (('d, 'h) itxn \<times> err option \<times> 'd world) option" where
  "idb_Transaction P md w =
     (let rw = (md = TransactionReadWrite);
          stores = (if rw then [infoStore, contentsStore] else [infoStore]);
          (r, w) = on_idb (ip_Transaction P rw stores) w
      in Some (\<lparr>it_txn = (case r of Inl _ \<Rightarrow> 0 | Inr txn \<Rightarrow> txn), it_nextOp = 0, it_results = [], it_pending = [],
                it_listen = [], it_notExists = []\<rparr>,
               (case r of Inl e \<Rightarrow> Some e | Inr _ \<Rightarrow> None), w))"

text \<open>The common part of \<open>Get\<close> and \<open>GetHandler\<close>: the object store and the request.\<close>

definition idb_getFile :: "'d idb_pkg \<Rightarrow> string \<Rightarrow> ('d, 'h) itxn \<Rightarrow> 'd world \<Rightarrow> (err + nat) \<times> 'd world" where
  "idb_getFile P path t w =
     (case ip_ObjectStore P (it_txn t) infoStore (w_store w) of
        Some e \<Rightarrow> (Inl e, w)
      | None \<Rightarrow> on_idb (ip_Request P (it_txn t) (RGet infoStore path)) w)"

definition idb_Get ::
  "'d idb_pkg \<Rightarrow> string \<Rightarrow> ('d, 'h) itxn \<Rightarrow> 'd world \<Rightarrow> (int \<times> ('d, 'h) itxn \<times> 'd world) option" where
  "idb_Get P path t w =
     (let (op, t) = idb_newOp t in
      case idb_getFile P path t w of
        (Inl e, w) \<Rightarrow> Some (op, idb_setResult op (op_error op (Some e)) t, w)
      | (Inr req, w) \<Rightarrow> Some (op, setPending (PendGet op path req) t, w))"

definition idb_GetHandler ::
  "'d idb_pkg \<Rightarrow> string \<Rightarrow> 'h \<Rightarrow> ('d, 'h) itxn \<Rightarrow> 'd world \<Rightarrow> (int \<times> ('d, 'h) itxn \<times> 'd world) option" where
  "idb_GetHandler P path handler t w =
     (let (op, t) = idb_newOp t in
      case idb_getFile P path t w of
        (Inl e, w) \<Rightarrow> Some (op, idb_setResult op (op_error op (Some e)) t, w)
      | (Inr req, w) \<Rightarrow>
          (case ip_Listen P req (w_store w) of
             Some e \<Rightarrow> Some (op, idb_setResult op (op_error op (Some e)) t, w)
           | None \<Rightarrow> Some (op, add_listener req (CbGet op path handler) t, w)))"

definition deleteRecord :: "'d idb_pkg \<Rightarrow> string \<Rightarrow> nat \<Rightarrow> 'd world \<Rightarrow> (err + nat) \<times> 'd world" where
  "deleteRecord P name txn w =
     (case on_idb (ip_Request P txn (RDelete infoStore name)) w of
        (Inl e, w) \<Rightarrow> (Inl e, w)
      | (Inr _, w) \<Rightarrow> on_idb (ip_Request P txn (RDelete contentsStore name)) w)"

definition setFileContents ::
  "'d idb_pkg \<Rightarrow> string \<Rightarrow> bref \<Rightarrow> nat \<Rightarrow> 'd world \<Rightarrow> ((err + nat) \<times> 'd world) option" where
  "setFileContents P name data txn w =
     do { (buf, w) \<leftarrow> on_heap (Bytes_Bytes data) w;
          Some (on_idb (ip_Request P txn (RPut contentsStore name (VBytes (slice_get (w_heap w) buf)))) w) }"

text \<open>The request for the parent, if one is needed, and the listener on it.\<close>

definition requireParentDirectoryExists ::
  "'d idb_pkg \<Rightarrow> string \<Rightarrow> ('d, 'h) itxn \<Rightarrow> 'd world \<Rightarrow> (err + nat option) \<times> ('d, 'h) itxn \<times> 'd world" where
  "requireParentDirectoryExists P name t w =
     (let dir = Dir name in
      if dir = [] \<or> dir = idb_root then (Inr None, t, w)
      else case on_idb (ip_Request P (it_txn t) (RGet infoStore dir)) w of
        (Inl e, w) \<Rightarrow> (Inl e, t, w)
      | (Inr req, w) \<Rightarrow>
          (case ip_Listen P req (w_store w) of
             Some e \<Rightarrow> (Inl e, t, w)
           | None \<Rightarrow> (Inr (Some req), add_listener req CbParent t, w)))"

definition idb_rec_ops :: "(unit, 'd world) rec_ops" where
  "idb_rec_ops = \<lparr>r_Data = \<lambda>_ _. None, r_ReadDirNames = \<lambda>_ _. None, r_Size = \<lambda>_ _. 0, r_Mode = \<lambda>_. 0, r_ModTime = \<lambda>_. 0\<rparr>"

definition validateAndSetFileMeta ::
  "'d idb_pkg \<Rightarrow> string \<Rightarrow> (unit, 'd world) fileData \<Rightarrow> bref option \<Rightarrow> ('d, 'h) itxn \<Rightarrow> 'd world \<Rightarrow>
   ((err + nat \<times> nat option) \<times> (unit, 'd world) fileData \<times> ('d, 'h) itxn \<times> 'd world) option" where
  "validateAndSetFileMeta P name record data t w =
     do {
       (sz, record) \<leftarrow> (case data of
           None \<Rightarrow> FD_Size idb_rec_ops record w
         | Some b \<Rightarrow> Some (Bytes_Len (w_heap w) b, record));
       (mt, record) \<leftarrow> FD_ModTime idb_rec_ops record;
       (m, record) \<leftarrow> FD_Mode idb_rec_ops record;
       let fileInfo = \<lparr>fi_ModTime = float64 (UnixNano mt), fi_Mode = float64 (uint m), fi_Size = float64 sz,
             fi_Parent = (if name \<noteq> idb_root then Some (Dir name) else None)\<rparr>;
       (case requireParentDirectoryExists P name t w of
          (Inl e, t, w) \<Rightarrow> Some (Inl e, record, t, w)
        | (Inr parentExistsReq, t, w) \<Rightarrow>
            (case on_idb (ip_Request P (it_txn t) (RPut infoStore name (VInfo fileInfo))) w of
               (Inl e, w) \<Rightarrow> Some (Inl e, record, t, w)
             | (Inr req, w) \<Rightarrow> Some (Inr (req, parentExistsReq), record, t, w)))
     }"

definition setPendingValidateErr :: "int \<Rightarrow> nat option \<Rightarrow> ('d, 'h) itxn \<Rightarrow> ('d, 'h) itxn" where
  "setPendingValidateErr op parentExistsReq t =
     (case parentExistsReq of None \<Rightarrow> t | Some req \<Rightarrow> setPending (PendParent op req) t)"

definition idb_set ::
  "'d idb_pkg \<Rightarrow> int \<Rightarrow> string \<Rightarrow> (unit, 'd world) fileData option \<Rightarrow> bref option \<Rightarrow> ('d, 'h) itxn \<Rightarrow> 'd world \<Rightarrow>
   ((err + nat) \<times> (unit, 'd world) fileData option \<times> ('d, 'h) itxn \<times> 'd world) option" where
  "idb_set P op name record data t w =
     (case ip_ObjectStore P (it_txn t) infoStore (w_store w) of
        Some e \<Rightarrow> Some (Inl e, record, t, w)
      | None \<Rightarrow>
          (case ip_ObjectStore P (it_txn t) contentsStore (w_store w) of
             Some e \<Rightarrow> Some (Inl e, record, t, w)
           | None \<Rightarrow>
               (let t = idb_setResult op (op_error op None) t in
                case record of
                  None \<Rightarrow>
                    if name = idb_root then Some (Inl ErrNotImplemented, None, t, w)
                    else let (r, w) = deleteRecord P name (it_txn t) w in Some (r, None, t, w)
                | Some rec \<Rightarrow> do {
                    (r, w) \<leftarrow> (case data of
                        None \<Rightarrow> Some (Inr 0, w)
                      | Some b \<Rightarrow> setFileContents P name b (it_txn t) w);
                    (case r of
                       Inl e \<Rightarrow> Some (Inl e, Some rec, t, w)
                     | Inr _ \<Rightarrow> do {
                         (r, rec, t, w) \<leftarrow> validateAndSetFileMeta P name rec data t w;
                         (case r of
                            Inl e \<Rightarrow> Some (Inl e, Some rec, t, w)
                          | Inr (req, parentExistsReq) \<Rightarrow>
                              Some (Inr req, Some rec, setPendingValidateErr op parentExistsReq t, w))
                       })
                  })))"

definition idb_Set ::
  "'d idb_pkg \<Rightarrow> string \<Rightarrow> (unit, 'd world) fileData option \<Rightarrow> bref option \<Rightarrow> ('d, 'h) itxn \<Rightarrow> 'd world \<Rightarrow>
   (int \<times> ('d, 'h) itxn \<times> (unit, 'd world) fileData option \<times> 'd world) option" where
  "idb_Set P name record contents t w =
     (let (op, t) = idb_newOp t in
      do { (r, record, t, w) \<leftarrow> idb_set P op name record contents t w;
           Some (op, (case r of Inl e \<Rightarrow> idb_setResult op (op_error op (Some e)) t | Inr _ \<Rightarrow> t), record, w) })"

definition idb_SetHandler ::
  "'d idb_pkg \<Rightarrow> string \<Rightarrow> (unit, 'd world) fileData option \<Rightarrow> bref option \<Rightarrow> 'h \<Rightarrow> ('d, 'h) itxn \<Rightarrow> 'd world \<Rightarrow>
   (int \<times> ('d, 'h) itxn \<times> (unit, 'd world) fileData option \<times> 'd world) option" where
  "idb_SetHandler P name record data handler t w =
     (let (op, t) = idb_newOp t in
      do { (r, record, t, w) \<leftarrow> idb_set P op name record data t w;
           Some (op,
             (case r of
                Inl e \<Rightarrow> idb_setResult op (op_error op (Some e)) t
              | Inr req \<Rightarrow>
                  (case ip_Listen P req (w_store w) of
                     Some e \<Rightarrow> idb_setResult op (op_error op (Some e)) t
                   | None \<Rightarrow> add_listener req (CbSet op handler) t)), record, w) })"

definition idb_Abort :: "'d idb_pkg \<Rightarrow> ('d, 'h) itxn \<Rightarrow> 'd world \<Rightarrow> (err option \<times> 'd world) option" where
  "idb_Abort P t w = Some (on_idb (ip_Abort P (it_txn t)) w)"


subsection \<open>Waiting for a transaction\<close>

type_synonym ('d, 'h) idb_handlers =
  "'h \<Rightarrow> ('d, 'h) itxn \<Rightarrow> 'd idb_result \<Rightarrow> 'd world \<Rightarrow> (err option \<times> ('d, 'h) itxn \<times> 'd world) option"

definition handle_result ::
  "('d, 'h) idb_handlers \<Rightarrow> 'h \<Rightarrow> int \<Rightarrow> 'd idb_result \<Rightarrow> ('d, 'h) itxn \<Rightarrow> 'd world \<Rightarrow> (('d, 'h) itxn \<times> 'd world) option" where
  "handle_result H handler op result t w =
     do { (e, t, w) \<leftarrow> H handler t result w;
          let result = (case e of None \<Rightarrow> result | Some e \<Rightarrow> result\<lparr>or_Err := Some e\<rparr>);
          Some (idb_setResult op result t, w) }"

text \<open>The listener of \<open>requireParentDirectoryExists\<close>.\<close>

definition parent_listener :: "'d idb_pkg \<Rightarrow> nat \<Rightarrow> ('d, 'h) itxn \<Rightarrow> 'd world \<Rightarrow> ('d, 'h) itxn \<times> 'd world" where
  "parent_listener P req t w =
     (let missing = (t\<lparr>it_notExists := req # it_notExists t\<rparr>, snd (on_idb (ip_Abort P (it_txn t)) w)) in
      case ip_Result P req (w_store w) of
        Inl _ \<Rightarrow> missing
      | Inr None \<Rightarrow> missing
      | Inr (Some v) \<Rightarrow>
          (case getMode v of
             Inl _ \<Rightarrow> (t, w)
           | Inr mode \<Rightarrow> if \<not> IsDir mode then missing else (t, w)))"

definition run_success ::
  "'d idb_pkg \<Rightarrow> ('d, 'h) idb_handlers \<Rightarrow> nat \<Rightarrow> 'h idb_callback \<Rightarrow> ('d, 'h) itxn \<Rightarrow> 'd world \<Rightarrow>
   (('d, 'h) itxn \<times> 'd world) option" where
  "run_success P H req cb t w =
     (case cb of
        CbParent \<Rightarrow> Some (parent_listener P req t w)
      | CbGet op path handler \<Rightarrow>
          handle_result H handler op (op_record op (getFileRequest_Result P path req (w_store w))) t w
      | CbSet op handler \<Rightarrow> handle_result H handler op (op_error op (ip_Err P req (w_store w))) t w)"

definition run_error ::
  "'d idb_pkg \<Rightarrow> nat \<Rightarrow> 'h idb_callback \<Rightarrow> ('d, 'h) itxn \<Rightarrow> 'd world \<Rightarrow> ('d, 'h) itxn" where
  "run_error P req cb t w =
     (case cb of
        CbParent \<Rightarrow> t
      | CbGet op path handler \<Rightarrow> idb_setResult op (op_error op (ip_Err P req (w_store w))) t
      | CbSet op handler \<Rightarrow> idb_setResult op (op_error op (ip_Err P req (w_store w))) t)"

fun run_listeners ::
  "(nat \<Rightarrow> 'h idb_callback \<Rightarrow> ('d, 'h) itxn \<Rightarrow> 'd world \<Rightarrow> (('d, 'h) itxn \<times> 'd world) option) \<Rightarrow> nat \<Rightarrow>
   (nat \<times> 'h idb_callback) list \<Rightarrow> ('d, 'h) itxn \<Rightarrow> 'd world \<Rightarrow> (('d, 'h) itxn \<times> 'd world) option" where
  "run_listeners f req [] t w = Some (t, w)"
| "run_listeners f req ((r, cb) # ls) t w =
     (if r = req then do { (t, w) \<leftarrow> f req cb t w; run_listeners f req ls t w } else run_listeners f req ls t w)"

partial_function (option) txn_Await ::
  "'d idb_pkg \<Rightarrow> ('d, 'h) idb_handlers \<Rightarrow> ('d, 'h) itxn \<Rightarrow> 'd world \<Rightarrow> (err option \<times> ('d, 'h) itxn \<times> 'd world) option" where
  "txn_Await P H t w =
     (case on_idb (ip_Deliver P (it_txn t)) w of
        (EvComplete, w) \<Rightarrow> Some (None, t, w)
      | (EvAbort e, w) \<Rightarrow> Some (Some e, t, w)
      | (EvSuccess req, w) \<Rightarrow> do {
          (t, w) \<leftarrow> run_listeners (run_success P H) req (it_listen t) t w;
          txn_Await P H t w }
      | (EvError req, w) \<Rightarrow> do {
          (t, w) \<leftarrow> run_listeners (\<lambda>req cb t w. Some (run_error P req cb t w, w)) req (it_listen t) t w;
          txn_Await P H t w })"

definition parentDirExistsReq_Err :: "'d idb_pkg \<Rightarrow> nat \<Rightarrow> ('d, 'h) itxn \<Rightarrow> 'd \<Rightarrow> err option" where
  "parentDirExistsReq_Err P req t d = (if req \<in> set (it_notExists t) then Some ErrNotDir else ip_Err P req d)"

definition run_pending :: "'d idb_pkg \<Rightarrow> 'd \<Rightarrow> idb_pending \<Rightarrow> ('d, 'h) itxn \<Rightarrow> ('d, 'h) itxn" where
  "run_pending P d p t =
     (case p of
        PendGet op path req \<Rightarrow> idb_setResult op (op_record op (getFileRequest_Result P path req d)) t
      | PendParent op req \<Rightarrow> idb_setResult op (op_error op (parentDirExistsReq_Err P req t d)) t)"

definition idb_Commit ::
  "'d idb_pkg \<Rightarrow> ('d, 'h) idb_handlers \<Rightarrow> ('d, 'h) itxn \<Rightarrow> 'd world \<Rightarrow> ('d idb_result list \<times> err option \<times> 'd world) option" where
  "idb_Commit P H t w =
     do { (awaitErr, t, w) \<leftarrow> txn_Await P H t w;
          let t = fold (run_pending P (w_store w)) (it_pending t) t;
          Some (sort_key or_Op (map snd (it_results t)), awaitErr, w) }"


subsection \<open>\<open>Get\<close> and \<open>Set\<close> of the store\<close>

definition getFirstCommitError :: "'d idb_result list \<Rightarrow> err option \<Rightarrow> err option" where
  "getFirstCommitError ops e =
     (if e = None \<or> e = Some errAborted
      then (case List.map_filter or_Err ops of [] \<Rightarrow> e | op_err # _ \<Rightarrow> Some op_err)
      else e)"

definition idb_store_Get ::
  "'d idb_pkg \<Rightarrow> ('d, 'h) idb_handlers \<Rightarrow> string \<Rightarrow> 'd world \<Rightarrow> ((err + (unit, 'd world) FileRecord option) \<times> 'd world) option" where
  "idb_store_Get P H path w =
     do { (t, e, w) \<leftarrow> (idb_Transaction P TransactionReadOnly w :: (('d, 'h) itxn \<times> err option \<times> 'd world) option);
          (case e of
             Some e \<Rightarrow> Some (Inl e, w)
           | None \<Rightarrow> do {
               (_, t, w) \<leftarrow> idb_Get P path t w;
               (ops, e, w) \<leftarrow> idb_Commit P H t w;
               (case getFirstCommitError ops e of
                  Some e \<Rightarrow> Some (Inl e, w)
                | None \<Rightarrow> (case ops of [] \<Rightarrow> None | r # _ \<Rightarrow> Some (Inr (or_Record r), w)))
             }) }"

definition idb_store_Set ::
  "'d idb_pkg \<Rightarrow> ('d, 'h) idb_handlers \<Rightarrow> string \<Rightarrow> (unit, 'd world) fileData option \<Rightarrow> 'd world \<Rightarrow>
   (err option \<times> (unit, 'd world) fileData option \<times> 'd world) option" where
  "idb_store_Set P H name record w =
     do {
       (d, record, w) \<leftarrow> (case record of
           None \<Rightarrow> Some (Inr None, None, w)
         | Some rec \<Rightarrow> do {
             (m, rec) \<leftarrow> FD_Mode idb_rec_ops rec;
             if IsRegular m then do {
               (d, rec, w) \<leftarrow> FD_Data idb_rec_ops rec w;
               Some (map_sum id Some d, Some rec, w)
             } else Some (Inr None, Some rec, w)
           });
       (case d of
          Inl e \<Rightarrow> Some (Some e, record, w)
        | Inr data \<Rightarrow> do {
            (t, e, w) \<leftarrow> (idb_Transaction P TransactionReadWrite w :: (('d, 'h) itxn \<times> err option \<times> 'd world) option);
            (case e of
               Some e \<Rightarrow> Some (Some e, record, w)
             | None \<Rightarrow> do {
                 (_, t, record, w) \<leftarrow> idb_Set P name record data t w;
                 (ops, e, w) \<leftarrow> idb_Commit P H t w;
                 Some (getFirstCommitError ops e, record, w)
               })
          })
     }"


subsection \<open>\<open>fs.go\<close>\<close>

definition idb_ops :: "'d idb_pkg \<Rightarrow> ('d, 'h) idb_handlers \<Rightarrow> (unit, 'd world, ('d, 'h) itxn) store_ops" where
  "idb_ops P H =
     \<lparr>r_Data = r_Data idb_rec_ops, r_ReadDirNames = r_ReadDirNames idb_rec_ops, r_Size = r_Size idb_rec_ops,
      r_Mode = r_Mode (idb_rec_ops :: (unit, 'd world) rec_ops), r_ModTime = r_ModTime (idb_rec_ops :: (unit, 'd world) rec_ops),
      so_Transaction = idb_Transaction P, so_Get = idb_Get P, so_Set = idb_Set P, so_Commit = idb_Commit P H,
      so_Abort = idb_Abort P\<rparr>"

definition idb_NewFS where "idb_NewFS P H = kv_NewFS (idb_ops P H)"

definition idb_Open where "idb_Open P H = kv_Open (idb_ops P H)"

definition idb_OpenFile where "idb_OpenFile P H = kv_OpenFile (idb_ops P H)"

definition idb_Mkdir where "idb_Mkdir P H = kv_Mkdir (idb_ops P H)"

definition idb_MkdirAll where "idb_MkdirAll P H = kv_MkdirAll (idb_ops P H)"

definition idb_Remove where "idb_Remove P H = kv_Remove (idb_ops P H)"

definition idb_Rename where "idb_Rename P H = kv_Rename (idb_ops P H)"

definition idb_Stat where "idb_Stat P H = kv_Stat (idb_ops P H)"

definition idb_Chmod where "idb_Chmod P H = kv_Chmod (idb_ops P H)"

definition idb_Chtimes where "idb_Chtimes P H = kv_Chtimes (idb_ops P H)"

text \<open>\<open>Clear\<close>: the two object stores are cleared in one transaction, and the root is made again.\<close>

fun clear_stores :: "'d idb_pkg \<Rightarrow> nat \<Rightarrow> string list \<Rightarrow> 'd world \<Rightarrow> err option \<times> 'd world" where
  "clear_stores P txn [] w = (None, w)"
| "clear_stores P txn (name # names) w =
     (case ip_ObjectStore P txn name (w_store w) of
        Some e \<Rightarrow> (Some e, w)
      | None \<Rightarrow>
          (case on_idb (ip_Request P txn (RClear name)) w of
             (Inl e, w) \<Rightarrow> (Some e, w)
           | (Inr _, w) \<Rightarrow> clear_stores P txn names w))"

definition bare_txn :: "nat \<Rightarrow> ('d, 'h) itxn" where
  "bare_txn txn = \<lparr>it_txn = txn, it_nextOp = 0, it_results = [], it_pending = [], it_listen = [], it_notExists = []\<rparr>"

definition idb_Clear :: "'d idb_pkg \<Rightarrow> ('d, 'h) idb_handlers \<Rightarrow> 'd world \<Rightarrow> (err option \<times> 'd world) option" where
  "idb_Clear P H w =
     (case on_idb (ip_Transaction P True [contentsStore, infoStore]) w of
        (Inl e, w) \<Rightarrow> Some (Some e, w)
      | (Inr txn, w) \<Rightarrow>
          (case clear_stores P txn [contentsStore, infoStore] w of
             (Some e, w) \<Rightarrow> Some (Some e, w)
           | (None, w) \<Rightarrow>
               (case on_idb (ip_Commit P txn) w of
                  (Some e, w) \<Rightarrow> Some (Some e, w)
                | (None, w) \<Rightarrow> do {
                    (e, _, w) \<leftarrow> txn_Await P H (bare_txn txn) w;
                    (case e of
                       Some e \<Rightarrow> Some (Some e, w)
                     | None \<Rightarrow> idb_Mkdir P H idb_root 438 w)
                  })))"

end
