(* ===== verification/IDB_Laws.thy ===== *)
theory IDB_Laws
  imports IDB_Store
begin

section \<open>The store in IndexedDB is correct on a database that behaves as documented\<close>

text \<open>
  The locale \<open>indexed_db\<close> states what the IndexedDB specification says of the calls the store makes: the requests of a transaction are carried
  out in the order they were issued, aborting a transaction undoes them all and fails the pending ones, and a transaction
  without pending requests completes. Storage is assumed not to run out. Inside it \<open>Set\<close>, \<open>Get\<close> and the listing of a directory are
  shown to return and to do what they should. \<open>idb_mem\<close> is a database that satisfies it.
\<close>

subsection \<open>Rounding to a \<open>float64\<close>\<close>

lemma bitlen_le: "n < 2 ^ k \<Longrightarrow> bitlen n \<le> k"
proof (induction n arbitrary: k rule: bitlen.induct)
  case (1 n)
  show ?case
  proof (cases "n = 0")
    case False
    then obtain j where j: "k = Suc j" using 1(2) by (cases k) auto
    then have "n div 2 < 2 ^ j" using 1(2) by auto
    then show ?thesis using 1(1) [of j] False j by (simp add: bitlen.simps [of n])
  qed (simp add: bitlen.simps)
qed

lemma round_to_0 [simp]: "round_to 0 n = n"
  by (simp add: round_to_def)

lemma round_to_error: "2 * \<bar>int (round_to k n) - int n\<bar> \<le> 2 ^ k"
proof -
  define p q r where "p = int (2 ^ k)" and "q = n div 2 ^ k" and "r = n mod 2 ^ k"
  have "n = q * 2 ^ k + r" by (simp only: q_def r_def div_mult_mod_eq)
  then have n: "int n = int q * p + int r" by (simp add: p_def)
  have "r < 2 ^ k" by (simp add: r_def)
  then have "int r < int (2 ^ k)" by (simp only: of_nat_less_iff)
  then have r: "int r < p" by (simp only: p_def)
  have "2 * \<bar>int (round_to k n) - int n\<bar> \<le> p"
  proof (cases "2 * r > 2 ^ k \<or> 2 * r = 2 ^ k \<and> odd q")
    case True
    then have up: "round_to k n = (q + 1) * 2 ^ k" by (simp only: round_to_def Let_def if_True q_def r_def)
    have "int (round_to k n) - int n = p - int r" unfolding up n by (simp add: p_def algebra_simps)
    moreover have "2 ^ k \<le> 2 * r" using True by linarith
    then have "int (2 ^ k) \<le> int (2 * r)" by (simp only: of_nat_le_iff)
    then have "p \<le> 2 * int r" by (simp only: p_def of_nat_mult of_nat_numeral)
    then have "2 * (p - int r) \<le> p" by (simp add: right_diff_distrib)
    moreover have "\<bar>p - int r\<bar> = p - int r" using r by simp
    ultimately show ?thesis by (simp only:)
  next
    case False
    then have down: "round_to k n = q * 2 ^ k" by (simp only: round_to_def Let_def if_False q_def r_def)
    have "int (round_to k n) - int n = - int r" unfolding down n by (simp add: p_def)
    moreover have "2 * r \<le> 2 ^ k" using False by linarith
    then have "int (2 * r) \<le> int (2 ^ k)" by (simp only: of_nat_le_iff)
    then have "2 * int r \<le> p" by (simp only: p_def of_nat_mult of_nat_numeral)
    ultimately show ?thesis by simp
  qed
  then show ?thesis by (simp add: p_def)
qed

lemma float64_exact: "\<bar>x\<bar> < 2 ^ 53 \<Longrightarrow> float64 x = x"
proof -
  assume "\<bar>x\<bar> < 2 ^ 53"
  then have "nat \<bar>x\<bar> < 2 ^ 53" by simp
  then have "bitlen (nat \<bar>x\<bar>) - 53 = 0" using bitlen_le by simp
  then show ?thesis by (simp add: float64_def sgn_mult_abs flip: abs_sgn)
qed

lemma float64_error:
  assumes "\<bar>x\<bar> < 2 ^ 63" shows "\<bar>float64 x - x\<bar> \<le> 512"
proof -
  let ?n = "nat \<bar>x\<bar>" and ?k = "bitlen (nat \<bar>x\<bar>) - 53"
  have "?n < 2 ^ 63" using assms by simp
  then have "?k \<le> 10" using bitlen_le [of ?n 63] by simp
  then have "(2 :: int) ^ ?k \<le> 2 ^ 10" by (rule power_increasing) simp
  then have "2 * \<bar>int (round_to ?k ?n) - int ?n\<bar> \<le> 1024" using round_to_error [of ?k ?n] by simp
  then have e: "\<bar>int (round_to ?k ?n) - \<bar>x\<bar>\<bar> \<le> 512" by simp
  show ?thesis
  proof (cases "x < 0")
    case True
    then have "float64 x - x = - (int (round_to ?k ?n) - \<bar>x\<bar>)" by (simp add: float64_def)
    then show ?thesis using e by (simp only: abs_minus_cancel)
  next
    case False
    then show ?thesis using e by (cases "x = 0") (simp_all add: float64_def)
  qed
qed


subsection \<open>What IndexedDB promises\<close>

type_synonym idb_data = "string \<Rightarrow> string \<rightharpoonup> idb_val"

text \<open>
  The view of a database: the object stores, what they held when the running transaction began, the requests of the transaction not
  yet carried out, what the finished ones returned, and whether the transaction is being aborted.
\<close>

record idb_view =
  v_data :: idb_data
  v_saved :: idb_data
  v_queue :: "(nat \<times> idb_request) list"
  v_res :: "nat \<rightharpoonup> err + idb_val option"
  v_txn :: nat
  v_scope :: "string list"
  v_write :: bool
  v_aborted :: bool

fun req_store :: "idb_request \<Rightarrow> string" where
  "req_store (RGet s k) = s"
| "req_store (RPut s k v) = s"
| "req_store (RDelete s k) = s"
| "req_store (RClear s) = s"
| "req_store (RAllKeys s i k) = s"

fun req_writes :: "idb_request \<Rightarrow> bool" where
  "req_writes (RGet s k) = False"
| "req_writes (RAllKeys s i k) = False"
| "req_writes _ = True"

fun req_effect :: "idb_request \<Rightarrow> idb_data \<Rightarrow> idb_data" where
  "req_effect (RPut s k v) D = D(s := (D s)(k \<mapsto> v))"
| "req_effect (RDelete s k) D = D(s := (D s)(k := None))"
| "req_effect (RClear s) D = D(s := Map.empty)"
| "req_effect _ D = D"

fun run_requests :: "(nat \<times> idb_request) list \<Rightarrow> idb_data \<Rightarrow> idb_data" where
  "run_requests [] D = D"
| "run_requests ((n, r) # q) D = run_requests q (req_effect r D)"

definition children :: "idb_data \<Rightarrow> string \<Rightarrow> string set" where
  "children D p = {k. \<exists>fi. D infoStore k = Some (VInfo fi) \<and> fi_Parent fi = Some p}"

fun req_result :: "idb_request \<Rightarrow> idb_data \<Rightarrow> idb_val option \<Rightarrow> bool" where
  "req_result (RGet s k) D x \<longleftrightarrow> x = D s k"
| "req_result (RAllKeys s i k) D x \<longleftrightarrow>
     (s = infoStore \<longrightarrow> i = parentKey \<longrightarrow> (\<exists>ks. x = Some (VKeys ks) \<and> distinct ks \<and> set ks = children D k))"
| "req_result _ D x \<longleftrightarrow> True"

definition idle :: "idb_view \<Rightarrow> bool" where
  "idle v \<longleftrightarrow> v_queue v = [] \<and> \<not> v_aborted v"

definition running :: "idb_view \<Rightarrow> nat \<Rightarrow> bool" where
  "running v txn \<longleftrightarrow> v_txn v = txn \<and> \<not> v_aborted v"

locale indexed_db =
  fixes P :: "'d idb_pkg" and view :: "'d \<Rightarrow> idb_view"
  assumes begin_txn: "idle (view d) \<Longrightarrow> ss \<noteq> [] \<Longrightarrow> set ss \<subseteq> {infoStore, contentsStore} \<Longrightarrow>
      \<exists>txn d'. ip_Transaction P rw ss d = (Inr txn, d')
        \<and> view d' = (view d)\<lparr>v_saved := v_data (view d), v_txn := txn, v_scope := ss, v_write := rw\<rparr>"
    and object_store: "running (view d) txn \<Longrightarrow> s \<in> set (v_scope (view d)) \<Longrightarrow> ip_ObjectStore P txn s d = None"
    and request: "running (view d) txn \<Longrightarrow> req_store r \<in> set (v_scope (view d)) \<Longrightarrow> (req_writes r \<longrightarrow> v_write (view d)) \<Longrightarrow>
      \<exists>n d'. ip_Request P txn r d = (Inr n, d') \<and> n \<notin> fst ` set (v_queue (view d)) \<and> v_res (view d) n = None
        \<and> view d' = (view d)\<lparr>v_queue := v_queue (view d) @ [(n, r)]\<rparr>"
    and listen: "n \<in> fst ` set (v_queue (view d)) \<Longrightarrow> ip_Listen P n d = None"
    and deliver: "running (view d) txn \<Longrightarrow> v_queue (view d) = (n, r) # q \<Longrightarrow>
      \<exists>x d'. ip_Deliver P txn d = (EvSuccess n, d') \<and> req_result r (v_data (view d)) x
        \<and> view d' = (view d)\<lparr>v_data := req_effect r (v_data (view d)), v_queue := q, v_res := (v_res (view d))(n \<mapsto> Inr x)\<rparr>"
    and complete: "running (view d) txn \<Longrightarrow> v_queue (view d) = [] \<Longrightarrow>
      \<exists>d'. ip_Deliver P txn d = (EvComplete, d') \<and> view d' = view d"
    and abort: "running (view d) txn \<Longrightarrow>
      \<exists>d'. ip_Abort P txn d = (None, d') \<and> view d' = (view d)\<lparr>v_data := v_saved (view d), v_aborted := True\<rparr>"
    and deliver_aborted: "v_aborted (view d) \<Longrightarrow> v_txn (view d) = txn \<Longrightarrow> v_queue (view d) = (n, r) # q \<Longrightarrow>
      \<exists>d'. ip_Deliver P txn d = (EvError n, d')
        \<and> view d' = (view d)\<lparr>v_queue := q, v_res := (v_res (view d))(n \<mapsto> Inl errAborted)\<rparr>"
    and aborted: "v_aborted (view d) \<Longrightarrow> v_txn (view d) = txn \<Longrightarrow> v_queue (view d) = [] \<Longrightarrow>
      \<exists>d'. ip_Deliver P txn d = (EvAbort errAborted, d') \<and> view d' = (view d)\<lparr>v_aborted := False\<rparr>"
    and commit: "running (view d) txn \<Longrightarrow> \<exists>d'. ip_Commit P txn d = (None, d') \<and> view d' = view d"
    and result: "v_res (view d) n = Some x \<Longrightarrow> ip_Result P n d = x \<and> ip_Err P n d = (case x of Inl e \<Rightarrow> Some e | Inr _ \<Rightarrow> None)"
begin

text \<open>Waiting for requests nobody listens to.\<close>

lemma run_listeners_none: "n \<notin> fst ` set ls \<Longrightarrow> run_listeners f n ls t w = Some (t, w)"
  by (induction ls) auto

lemma await_prefix:
  assumes "running (view (w_store w)) (it_txn t)" "v_queue (view (w_store w)) = pre @ q"
    and "fst ` set pre \<inter> fst ` set (it_listen t) = {}"
  shows "\<exists>d R. txn_Await P H t w = txn_Await P H t (w\<lparr>w_store := d\<rparr>)
    \<and> view d = (view (w_store w))\<lparr>v_data := run_requests pre (v_data (view (w_store w))), v_queue := q, v_res := R\<rparr>
    \<and> (\<forall>n. n \<notin> fst ` set pre \<longrightarrow> R n = v_res (view (w_store w)) n)"
  using assms
proof (induction pre arbitrary: w)
  case Nil
  then have "view (w_store w) = (view (w_store w))\<lparr>v_data := run_requests [] (v_data (view (w_store w))), v_queue := q,
    v_res := v_res (view (w_store w))\<rparr>" by simp
  then show ?case by (intro exI [of _ "w_store w"] exI [of _ "v_res (view (w_store w))"]) simp
next
  case (Cons nr pre)
  obtain n r where nr: "nr = (n, r)" by (cases nr)
  obtain x d where d: "ip_Deliver P (it_txn t) (w_store w) = (EvSuccess n, d)"
    "view d = (view (w_store w))\<lparr>v_data := req_effect r (v_data (view (w_store w))), v_queue := pre @ q,
       v_res := (v_res (view (w_store w)))(n \<mapsto> Inr x)\<rparr>"
    using deliver [OF Cons.prems(1)] Cons.prems(2) nr by fastforce
  have "txn_Await P H t w = txn_Await P H t (w\<lparr>w_store := d\<rparr>)"
    using Cons.prems(3) nr by (subst txn_Await.simps) (simp add: on_idb_def d(1) run_listeners_none)
  moreover obtain d' R where "txn_Await P H t (w\<lparr>w_store := d\<rparr>) = txn_Await P H t (w\<lparr>w_store := d'\<rparr>)"
    "view d' = (view d)\<lparr>v_data := run_requests pre (v_data (view d)), v_queue := q, v_res := R\<rparr>"
    "\<forall>n. n \<notin> fst ` set pre \<longrightarrow> R n = v_res (view d) n"
    using Cons.IH [of "w\<lparr>w_store := d\<rparr>"] Cons.prems d(2) by (auto simp: running_def)
  ultimately show ?case using d(2) nr by (intro exI [of _ d'] exI [of _ R]) simp
qed

lemma await_complete:
  assumes "running (view (w_store w)) (it_txn t)" "fst ` set (v_queue (view (w_store w))) \<inter> fst ` set (it_listen t) = {}"
  shows "\<exists>d R. txn_Await P H t w = Some (None, t, w\<lparr>w_store := d\<rparr>)
    \<and> view d = (view (w_store w))\<lparr>v_data := run_requests (v_queue (view (w_store w))) (v_data (view (w_store w))),
         v_queue := [], v_res := R\<rparr>
    \<and> (\<forall>n. n \<notin> fst ` set (v_queue (view (w_store w))) \<longrightarrow> R n = v_res (view (w_store w)) n)"
proof -
  obtain d R where d: "txn_Await P H t w = txn_Await P H t (w\<lparr>w_store := d\<rparr>)"
    "view d = (view (w_store w))\<lparr>v_data := run_requests (v_queue (view (w_store w))) (v_data (view (w_store w))),
         v_queue := [], v_res := R\<rparr>"
    "\<forall>n. n \<notin> fst ` set (v_queue (view (w_store w))) \<longrightarrow> R n = v_res (view (w_store w)) n"
    using await_prefix [OF assms(1) _ assms(2), of "[]" H] by auto
  have "running (view d) (it_txn t)" "v_queue (view d) = []" using assms(1) d(2) by (simp_all add: running_def)
  from complete [OF this] obtain d' where d': "ip_Deliver P (it_txn t) d = (EvComplete, d')" "view d' = view d" by blast
  have "txn_Await P H t (w\<lparr>w_store := d\<rparr>) = Some (None, t, w\<lparr>w_store := d'\<rparr>)"
    by (subst txn_Await.simps) (simp add: on_idb_def d')
  then show ?thesis using d d'(2) by (intro exI [of _ d'] exI [of _ R]) simp
qed

text \<open>Waiting for a transaction that is being aborted.\<close>

lemma run_listeners_parent:
  "\<forall>(n, cb) \<in> set ls. cb = CbParent \<Longrightarrow> run_listeners (\<lambda>req cb t w. Some (run_error P req cb t w, w)) n ls t w = Some (t, w)"
  by (induction ls) (auto simp: run_error_def)

lemma await_aborted:
  assumes "v_aborted (view (w_store w))" "v_txn (view (w_store w)) = it_txn t" "\<forall>(n, cb) \<in> set (it_listen t). cb = CbParent"
  shows "\<exists>d. txn_Await P H t w = Some (Some errAborted, t, w\<lparr>w_store := d\<rparr>)
    \<and> idle (view d) \<and> v_data (view d) = v_data (view (w_store w))"
  using assms
proof (induction "v_queue (view (w_store w))" arbitrary: w)
  case Nil
  then obtain d where "ip_Deliver P (it_txn t) (w_store w) = (EvAbort errAborted, d)" "view d = (view (w_store w))\<lparr>v_aborted := False\<rparr>"
    using aborted [of "w_store w" "it_txn t"] by auto
  then show ?case using Nil(1) by (subst txn_Await.simps) (simp add: on_idb_eq idle_def)
next
  case (Cons nr q)
  obtain n r where nr: "nr = (n, r)" by (cases nr)
  obtain d where d: "ip_Deliver P (it_txn t) (w_store w) = (EvError n, d)"
    "view d = (view (w_store w))\<lparr>v_queue := q, v_res := (v_res (view (w_store w)))(n \<mapsto> Inl errAborted)\<rparr>"
    using deliver_aborted [OF Cons.prems(1,2)] Cons.hyps(2) nr by metis
  have "txn_Await P H t w = txn_Await P H t (w\<lparr>w_store := d\<rparr>)"
    by (subst txn_Await.simps) (simp add: on_idb_def d(1) run_listeners_parent [OF Cons.prems(3)])
  then show ?case using Cons.hyps(1) [of "w\<lparr>w_store := d\<rparr>"] Cons.prems d(2) by simp
qed

end


subsection \<open>Reading\<close>

definition file_of :: "'d idb_pkg \<Rightarrow> string \<Rightarrow> file_info \<Rightarrow> 'd world BaseFileRecord" where
  "file_of P p fi =
     (let mode = of_int (js_Int (fi_Mode fi)) in
      NewBaseFileRecord (js_Int (fi_Size fi)) (time_Unix 0 (js_Int (fi_ModTime fi))) mode
        (if IsDir mode then None else Some (getFileData P p)) (if IsDir mode then Some (idb_getDirNames P p) else None))"

lemma parseResult_simps [simp]:
  "parseResult P p None e = Inl ErrNotExist"
  "parseResult P p (Some (VInfo fi)) None = Inr (BaseRec (file_of P p fi))"
  by (simp_all add: parseResult_def file_of_def getMode_def Let_def)

definition typed :: "idb_data \<Rightarrow> bool" where
  "typed D \<longleftrightarrow> (\<forall>k v. D infoStore k = Some v \<longrightarrow> (\<exists>fi. v = VInfo fi))"

lemmas txn_simps = idb_newOp_def idb_setResult_def setPending_def add_listener_def op_error_def op_record_def

context indexed_db
begin

lemma issue:
  assumes "running (view (w_store w)) txn" "req_store r \<in> set (v_scope (view (w_store w)))"
    and "req_writes r \<longrightarrow> v_write (view (w_store w))"
  obtains n d where "on_idb (ip_Request P txn r) w = (Inr n, w\<lparr>w_store := d\<rparr>)"
    "n \<notin> fst ` set (v_queue (view (w_store w)))" "v_res (view (w_store w)) n = None"
    "view d = (view (w_store w))\<lparr>v_queue := v_queue (view (w_store w)) @ [(n, r)]\<rparr>"
  using request [OF assms] by (auto simp: on_idb_def)

lemma first_request:
  assumes "running (view d) txn" "v_queue (view d) = []" "req_store r \<in> set (v_scope (view d))" "req_writes r \<longrightarrow> v_write (view d)"
  shows "\<exists>n d'. on_idb (ip_Request P txn r) (w\<lparr>w_store := d\<rparr>) = (Inr n, w\<lparr>w_store := d'\<rparr>) \<and> view d' = (view d)\<lparr>v_queue := [(n, r)]\<rparr>"
  using request [OF assms(1,3,4)] assms(2) by (auto simp: on_idb_def)

lemma start:
  assumes "idle (view (w_store w))" "ss \<noteq> []" "set ss \<subseteq> {infoStore, contentsStore}"
  obtains txn d where "on_idb (ip_Transaction P rw ss) w = (Inr txn, w\<lparr>w_store := d\<rparr>)"
    "view d = (view (w_store w))\<lparr>v_saved := v_data (view (w_store w)), v_txn := txn, v_scope := ss, v_write := rw\<rparr>"
    "running (view d) txn" "v_queue (view d) = []"
  using begin_txn [OF assms, of rw] assms(1) by (fastforce simp: on_idb_def running_def idle_def)

lemma Transaction_spec:
  assumes "idle (view (w_store w))"
  obtains txn d where "idb_Transaction P md w = Some (bare_txn txn, None, w\<lparr>w_store := d\<rparr>)"
    "view d = (view (w_store w))\<lparr>v_saved := v_data (view (w_store w)), v_txn := txn,
       v_scope := (if md = TransactionReadWrite then [infoStore, contentsStore] else [infoStore]), v_write := (md = TransactionReadWrite)\<rparr>"
    "running (view d) txn" "v_queue (view d) = []"
proof -
  obtain txn d where "on_idb (ip_Transaction P (md = TransactionReadWrite)
      (if md = TransactionReadWrite then [infoStore, contentsStore] else [infoStore])) w = (Inr txn, w\<lparr>w_store := d\<rparr>)"
    "view d = (view (w_store w))\<lparr>v_saved := v_data (view (w_store w)), v_txn := txn,
       v_scope := (if md = TransactionReadWrite then [infoStore, contentsStore] else [infoStore]), v_write := (md = TransactionReadWrite)\<rparr>"
    "running (view d) txn" "v_queue (view d) = []"
    by (rule start [where rw = "md = TransactionReadWrite"
        and ss = "if md = TransactionReadWrite then [infoStore, contentsStore] else [infoStore]", OF assms]) auto
  then show thesis using that by (simp add: idb_Transaction_def bare_txn_def)
qed

lemma step_one:
  assumes "running (view d) txn" "v_queue (view d) = [(n, r)]"
  obtains x d' where "ip_Deliver P txn d = (EvSuccess n, d')" "req_result r (v_data (view d)) x" "ip_Result P n d' = Inr x"
    "ip_Err P n d' = None" "v_res (view d') n = Some (Inr x)" "running (view d') txn" "v_queue (view d') = []"
    "v_data (view d') = req_effect r (v_data (view d))"
proof -
  obtain x d' where *: "ip_Deliver P txn d = (EvSuccess n, d')" "req_result r (v_data (view d)) x"
    "view d' = (view d)\<lparr>v_data := req_effect r (v_data (view d)), v_queue := [], v_res := (v_res (view d))(n \<mapsto> Inr x)\<rparr>"
    using deliver [OF assms] by blast
  then show thesis using that [OF *(1,2)] result [of d' n "Inr x"] assms(1) by (simp add: running_def)
qed

lemma await_one:
  assumes "running (view (w_store w)) (it_txn t)" "v_queue (view (w_store w)) = [(n, r)]" "n \<notin> fst ` set (it_listen t)"
  shows "\<exists>x d. txn_Await P H t w = Some (None, t, w\<lparr>w_store := d\<rparr>) \<and> req_result r (v_data (view (w_store w))) x
    \<and> ip_Result P n d = Inr x \<and> idle (view d) \<and> v_data (view d) = req_effect r (v_data (view (w_store w)))"
proof -
  obtain x d where d: "ip_Deliver P (it_txn t) (w_store w) = (EvSuccess n, d)" "req_result r (v_data (view (w_store w))) x"
    "v_res (view d) n = Some (Inr x)" "running (view d) (it_txn t)" "v_queue (view d) = []"
    "v_data (view d) = req_effect r (v_data (view (w_store w)))"
    using step_one [OF assms(1,2)] by metis
  obtain d' where d': "ip_Deliver P (it_txn t) d = (EvComplete, d')" "view d' = view d" using complete [OF d(4,5)] by blast
  have "txn_Await P H t w = Some (None, t, w\<lparr>w_store := d'\<rparr>)"
  proof -
    have "txn_Await P H t w = txn_Await P H t (w\<lparr>w_store := d\<rparr>)"
      by (subst txn_Await.simps) (simp add: on_idb_def d run_listeners_none [OF assms(3)])
    moreover have "txn_Await P H t (w\<lparr>w_store := d\<rparr>) = Some (None, t, w\<lparr>w_store := d'\<rparr>)"
      by (subst txn_Await.simps) (simp add: on_idb_def d')
    ultimately show ?thesis by simp
  qed
  then show ?thesis using d d'(2) result [of d' n "Inr x"] by (intro exI [of _ x] exI [of _ d']) (simp add: idle_def running_def)
qed

lemma req_await_one:
  assumes "running (view (w_store w)) txn" "v_queue (view (w_store w)) = [(n, r)]"
  shows "\<exists>x d. req_Await P txn n w = Some (Inr x, w\<lparr>w_store := d\<rparr>) \<and> req_result r (v_data (view (w_store w))) x
    \<and> idle (view d) \<and> v_data (view d) = req_effect r (v_data (view (w_store w)))"
proof -
  obtain x d where d: "ip_Deliver P txn (w_store w) = (EvSuccess n, d)" "req_result r (v_data (view (w_store w))) x"
    "ip_Result P n d = Inr x" "running (view d) txn" "v_queue (view d) = []"
    "v_data (view d) = req_effect r (v_data (view (w_store w)))"
    using step_one [OF assms] by metis
  have "req_Await P txn n w = Some (Inr x, w\<lparr>w_store := d\<rparr>)" by (subst req_Await.simps) (simp add: on_idb_def d)
  then show ?thesis using d by (intro exI [of _ x] exI [of _ d]) (simp add: idle_def running_def)
qed

text \<open>\<open>Get\<close> returns what the database holds under that name, and changes nothing.\<close>

lemma Get_spec:
  fixes H :: "('d, 'h) idb_handlers"
  assumes "idle (view (w_store w))" "typed (v_data (view (w_store w)))"
  obtains d where "idb_store_Get P H p w = Some (case v_data (view (w_store w)) infoStore p of
       Some (VInfo fi) \<Rightarrow> Inr (Some (BaseRec (file_of P p fi))) | _ \<Rightarrow> Inl ErrNotExist, w\<lparr>w_store := d\<rparr>)"
    "idle (view d)" "v_data (view d) = v_data (view (w_store w))"
proof -
  let ?D = "v_data (view (w_store w))"
  obtain txn d1 where d1: "idb_Transaction P TransactionReadOnly w = Some (bare_txn txn :: ('d, 'h) itxn, None, w\<lparr>w_store := d1\<rparr>)"
    "view d1 = (view (w_store w))\<lparr>v_saved := ?D, v_txn := txn, v_scope := [infoStore], v_write := False\<rparr>"
    "running (view d1) txn" "v_queue (view d1) = []"
    by (rule Transaction_spec [OF assms(1), of TransactionReadOnly]) simp
  have os: "ip_ObjectStore P txn infoStore d1 = None" by (rule object_store [OF d1(3)]) (simp add: d1(2))
  obtain n d2 where d2: "on_idb (ip_Request P txn (RGet infoStore p)) (w\<lparr>w_store := d1\<rparr>) = (Inr n, w\<lparr>w_store := d2\<rparr>)"
    "view d2 = (view d1)\<lparr>v_queue := [(n, RGet infoStore p)]\<rparr>"
    using first_request [OF d1(3,4), of "RGet infoStore p" w] d1(2) by auto
  let ?t = "setPending (PendGet 0 p n) ((bare_txn txn :: ('d, 'h) itxn)\<lparr>it_nextOp := 1\<rparr>)"
  have get: "idb_Get P p (bare_txn txn) (w\<lparr>w_store := d1\<rparr>) = Some (0, ?t, w\<lparr>w_store := d2\<rparr>)"
    by (simp add: idb_Get_def idb_getFile_def idb_newOp_def bare_txn_def os d2(1))
  have "running (view d2) (it_txn ?t)" "v_queue (view d2) = [(n, RGet infoStore p)]" "n \<notin> fst ` set (it_listen ?t)"
    using d1(3) d2(2) by (simp_all add: running_def setPending_def bare_txn_def)
  then obtain x d3 where d3: "txn_Await P H ?t (w\<lparr>w_store := d2\<rparr>) = Some (None, ?t, w\<lparr>w_store := d3\<rparr>)"
    "x = ?D infoStore p" "ip_Result P n d3 = Inr x" "idle (view d3)" "v_data (view d3) = ?D"
    using await_one [of "w\<lparr>w_store := d2\<rparr>" ?t n "RGet infoStore p" H] d1(2) d2(2) by (auto simp: running_def)
  let ?r = "parseResult P p x None"
  have "idb_Commit P H ?t (w\<lparr>w_store := d2\<rparr>) = Some ([op_record 0 ?r], None, w\<lparr>w_store := d3\<rparr>)"
    by (simp add: idb_Commit_def d3(1)) (simp add: setPending_def bare_txn_def run_pending_def getFileRequest_Result_def d3(3) idb_setResult_def)
  moreover have "?r = (case ?D infoStore p of Some (VInfo fi) \<Rightarrow> Inr (BaseRec (file_of P p fi)) | _ \<Rightarrow> Inl ErrNotExist)"
    using assms(2) d3(2) by (auto simp: typed_def split: option.split idb_val.split)
  ultimately have "idb_store_Get P H p w = Some (case ?D infoStore p of
       Some (VInfo fi) \<Rightarrow> Inr (Some (BaseRec (file_of P p fi))) | _ \<Rightarrow> Inl ErrNotExist, w\<lparr>w_store := d3\<rparr>)"
    by (simp add: idb_store_Get_def d1(1) get getFirstCommitError_def op_record_def map_filter_simps split: option.split idb_val.split)
  then show thesis using that d3(4,5) by blast
qed

text \<open>The getters of a record read the contents and the names of the entries.\<close>

lemma getFileData_spec:
  assumes "idle (view (w_store w))" "v_data (view (w_store w)) contentsStore p = Some (VBytes bs)" "NewBytes_of bs (w_heap w) = (b, h)"
  obtains d where "getFileData P p w = Some (Inr b, w\<lparr>w_store := d, w_heap := h\<rparr>)" "idle (view d)"
    "v_data (view d) = v_data (view (w_store w))"
proof -
  obtain txn d1 where d1: "on_idb (ip_Transaction P False [contentsStore]) w = (Inr txn, w\<lparr>w_store := d1\<rparr>)"
    "view d1 = (view (w_store w))\<lparr>v_saved := v_data (view (w_store w)), v_txn := txn, v_scope := [contentsStore], v_write := False\<rparr>"
    "running (view d1) txn" "v_queue (view d1) = []"
    by (rule start [where rw = False and ss = "[contentsStore]", OF assms(1)]) auto
  have os: "ip_ObjectStore P txn contentsStore d1 = None" by (rule object_store [OF d1(3)]) (simp add: d1(2))
  obtain n d2 where d2: "on_idb (ip_Request P txn (RGet contentsStore p)) (w\<lparr>w_store := d1\<rparr>) = (Inr n, w\<lparr>w_store := d2\<rparr>)"
    "view d2 = (view d1)\<lparr>v_queue := [(n, RGet contentsStore p)]\<rparr>"
    using first_request [OF d1(3,4), of "RGet contentsStore p" w] d1(2) by auto
  obtain d3 where "req_Await P txn n (w\<lparr>w_store := d2\<rparr>) = Some (Inr (Some (VBytes bs)), w\<lparr>w_store := d3\<rparr>)"
    "idle (view d3)" "v_data (view d3) = v_data (view (w_store w))"
    using req_await_one [of "w\<lparr>w_store := d2\<rparr>" txn n "RGet contentsStore p"] d1(2,3) d2(2) assms(2) by (auto simp: running_def)
  then show thesis using that by (simp add: getFileData_def d1(1) os d2(1) assms(3))
qed

lemma getDirNames_spec:
  assumes "idle (view (w_store w))"
  obtains ks d where "idb_getDirNames P p w = Some (Inr (map Base ks), w\<lparr>w_store := d\<rparr>)" "distinct ks"
    "set ks = children (v_data (view (w_store w))) p" "idle (view d)" "v_data (view d) = v_data (view (w_store w))"
proof -
  obtain txn d1 where d1: "on_idb (ip_Transaction P False [infoStore]) w = (Inr txn, w\<lparr>w_store := d1\<rparr>)"
    "view d1 = (view (w_store w))\<lparr>v_saved := v_data (view (w_store w)), v_txn := txn, v_scope := [infoStore], v_write := False\<rparr>"
    "running (view d1) txn" "v_queue (view d1) = []"
    by (rule start [where rw = False and ss = "[infoStore]", OF assms(1)]) auto
  have os: "ip_ObjectStore P txn infoStore d1 = None" by (rule object_store [OF d1(3)]) (simp add: d1(2))
  obtain n d2 where d2: "on_idb (ip_Request P txn (RAllKeys infoStore parentKey p)) (w\<lparr>w_store := d1\<rparr>) = (Inr n, w\<lparr>w_store := d2\<rparr>)"
    "view d2 = (view d1)\<lparr>v_queue := [(n, RAllKeys infoStore parentKey p)]\<rparr>"
    using first_request [OF d1(3,4), of "RAllKeys infoStore parentKey p" w] d1(2) by auto
  obtain ks d3 where "req_Await P txn n (w\<lparr>w_store := d2\<rparr>) = Some (Inr (Some (VKeys ks)), w\<lparr>w_store := d3\<rparr>)"
    "distinct ks" "set ks = children (v_data (view (w_store w))) p" "idle (view d3)" "v_data (view d3) = v_data (view (w_store w))"
    using req_await_one [of "w\<lparr>w_store := d2\<rparr>" txn n "RAllKeys infoStore parentKey p"] d1(2,3) d2(2) by (auto simp: running_def)
  then show thesis using that by (simp add: idb_getDirNames_def d1(1) os d2(1))
qed

end


subsection \<open>Writing\<close>

definition dir_info :: "idb_val option \<Rightarrow> bool" where
  "dir_info v = (case v of Some (VInfo fi) \<Rightarrow> IsDir (of_int (js_Int (fi_Mode fi))) | _ \<Rightarrow> False)"

text \<open>\<open>Set\<close> looks for the parent unless that is the root.\<close>

definition top_level :: "string \<Rightarrow> bool" where
  "top_level p \<longleftrightarrow> Dir p = [] \<or> Dir p = idb_root"

definition info_of :: "string \<Rightarrow> time \<Rightarrow> file_mode \<Rightarrow> int \<Rightarrow> file_info" where
  "info_of p t m sz = \<lparr>fi_ModTime = float64 (UnixNano t), fi_Mode = float64 (uint m), fi_Size = float64 sz,
     fi_Parent = (if p \<noteq> idb_root then Some (Dir p) else None)\<rparr>"

lemma run_requests_append: "run_requests (q @ q') D = run_requests q' (run_requests q D)"
  by (induction q arbitrary: D) auto

context indexed_db
begin

text \<open>Committing a transaction whose requests have no listener.\<close>

lemma commit_plain:
  assumes "running (view (w_store w)) (it_txn t)" "it_listen t = []" "it_pending t = []"
  shows "\<exists>d. idb_Commit P H t w = Some (sort_key or_Op (map snd (it_results t)), None, w\<lparr>w_store := d\<rparr>) \<and> idle (view d)
    \<and> v_data (view d) = run_requests (v_queue (view (w_store w))) (v_data (view (w_store w)))"
proof -
  obtain d R where d: "txn_Await P H t w = Some (None, t, w\<lparr>w_store := d\<rparr>)"
    "view d = (view (w_store w))\<lparr>v_data := run_requests (v_queue (view (w_store w))) (v_data (view (w_store w))),
         v_queue := [], v_res := R\<rparr>"
    using await_complete [OF assms(1), of H] assms(2) by auto
  then show ?thesis using assms by (intro exI [of _ d]) (simp add: idb_Commit_def idle_def running_def)
qed

text \<open>Committing a \<open>Set\<close> that asked for the parent, up to the answer.\<close>

lemma await_parent:
  assumes "running (view (w_store w)) (it_txn t)" "v_queue (view (w_store w)) = pre @ (n, RGet infoStore dir) # q"
    and "it_listen t = [(n, CbParent)]" "n \<notin> fst ` set pre" "n \<notin> fst ` set q"
  shows "\<exists>d. txn_Await P H t w = (case parent_listener P n t (w\<lparr>w_store := d\<rparr>) of (t, w) \<Rightarrow> txn_Await P H t w)
    \<and> running (view d) (it_txn t) \<and> v_queue (view d) = q \<and> v_saved (view d) = v_saved (view (w_store w))
    \<and> v_data (view d) = run_requests pre (v_data (view (w_store w)))
    \<and> v_res (view d) n = Some (Inr (v_data (view d) infoStore dir))"
proof -
  obtain d R where d: "txn_Await P H t w = txn_Await P H t (w\<lparr>w_store := d\<rparr>)"
    "view d = (view (w_store w))\<lparr>v_data := run_requests pre (v_data (view (w_store w))), v_queue := (n, RGet infoStore dir) # q, v_res := R\<rparr>"
    using await_prefix [OF assms(1,2), of H] assms(3,4) by auto
  then have "running (view d) (it_txn t)" "v_queue (view d) = (n, RGet infoStore dir) # q" using assms(1) by (simp_all add: running_def)
  from deliver [OF this] obtain d' where d': "ip_Deliver P (it_txn t) d = (EvSuccess n, d')"
    "view d' = (view d)\<lparr>v_queue := q, v_res := (v_res (view d))(n \<mapsto> Inr (v_data (view d) infoStore dir))\<rparr>" by auto
  have "txn_Await P H t (w\<lparr>w_store := d\<rparr>) = (case parent_listener P n t (w\<lparr>w_store := d'\<rparr>) of (t, w) \<Rightarrow> txn_Await P H t w)"
    by (subst txn_Await.simps) (simp add: on_idb_def d'(1) assms(3) run_success_def split: prod.split)
  then show ?thesis using d d'(2) assms(1) by (intro exI [of _ d']) (simp add: running_def)
qed

lemma commit_parent_ok:
  assumes "running (view (w_store w)) (it_txn t)" "v_queue (view (w_store w)) = pre @ (n, RGet infoStore dir) # q"
    and "it_listen t = [(n, CbParent)]" "n \<notin> fst ` set pre" "n \<notin> fst ` set q"
    and "it_pending t = [PendParent 0 n]" "it_results t = [(0, op_error 0 None)]" "it_notExists t = []"
    and "dir_info (run_requests pre (v_data (view (w_store w))) infoStore dir)"
  shows "\<exists>d. idb_Commit P H t w = Some ([op_error 0 None], None, w\<lparr>w_store := d\<rparr>) \<and> idle (view d)
    \<and> v_data (view d) = run_requests (pre @ q) (v_data (view (w_store w)))"
proof -
  obtain d where d: "txn_Await P H t w = (case parent_listener P n t (w\<lparr>w_store := d\<rparr>) of (t, w) \<Rightarrow> txn_Await P H t w)"
    "running (view d) (it_txn t)" "v_queue (view d) = q" "v_data (view d) = run_requests pre (v_data (view (w_store w)))"
    "v_res (view d) n = Some (Inr (v_data (view d) infoStore dir))"
    using await_parent [OF assms(1-5), of H] by blast
  obtain fi where fi: "v_data (view d) infoStore dir = Some (VInfo fi)" "IsDir (of_int (js_Int (fi_Mode fi)))"
    using assms(9) d(4) by (auto simp: dir_info_def split: option.splits idb_val.splits)
  have "parent_listener P n t (w\<lparr>w_store := d\<rparr>) = (t, w\<lparr>w_store := d\<rparr>)"
    using result [OF d(5)] fi by (simp add: parent_listener_def getMode_def)
  moreover obtain d' R where d': "txn_Await P H t (w\<lparr>w_store := d\<rparr>) = Some (None, t, w\<lparr>w_store := d'\<rparr>)"
    "view d' = (view d)\<lparr>v_data := run_requests q (v_data (view d)), v_queue := [], v_res := R\<rparr>" "R n = v_res (view d) n"
    using await_complete [of "w\<lparr>w_store := d\<rparr>" t H] d(2,3) assms(3,5) by auto
  ultimately have "txn_Await P H t w = Some (None, t, w\<lparr>w_store := d'\<rparr>)" using d(1) by simp
  moreover have "ip_Err P n d' = None" using result [of d' n] d'(2,3) d(5) by simp
  ultimately show ?thesis using d'(2) d(2,4) assms(6-8)
    by (intro exI [of _ d'])
      (simp add: idb_Commit_def run_pending_def parentDirExistsReq_Err_def idb_setResult_def idle_def running_def run_requests_append)
qed

lemma commit_parent_missing:
  assumes "running (view (w_store w)) (it_txn t)" "v_queue (view (w_store w)) = pre @ (n, RGet infoStore dir) # q"
    and "it_listen t = [(n, CbParent)]" "n \<notin> fst ` set pre" "n \<notin> fst ` set q"
    and "it_pending t = [PendParent 0 n]" "it_results t = [(0, op_error 0 None)]" "it_notExists t = []"
    and "\<not> dir_info (run_requests pre (v_data (view (w_store w))) infoStore dir)" "typed (run_requests pre (v_data (view (w_store w))))"
  shows "\<exists>d. idb_Commit P H t w = Some ([op_error 0 (Some ErrNotDir)], Some errAborted, w\<lparr>w_store := d\<rparr>) \<and> idle (view d)
    \<and> v_data (view d) = v_saved (view (w_store w))"
proof -
  obtain d where d: "txn_Await P H t w = (case parent_listener P n t (w\<lparr>w_store := d\<rparr>) of (t, w) \<Rightarrow> txn_Await P H t w)"
    "running (view d) (it_txn t)" "v_queue (view d) = q" "v_data (view d) = run_requests pre (v_data (view (w_store w)))"
    "v_res (view d) n = Some (Inr (v_data (view d) infoStore dir))" "v_saved (view d) = v_saved (view (w_store w))"
    using await_parent [OF assms(1-5), of H] by blast
  obtain d1 where d1: "ip_Abort P (it_txn t) d = (None, d1)" "view d1 = (view d)\<lparr>v_data := v_saved (view d), v_aborted := True\<rparr>"
    using abort [OF d(2)] by blast
  let ?t = "t\<lparr>it_notExists := [n]\<rparr>"
  have "parent_listener P n t (w\<lparr>w_store := d\<rparr>) = (?t, w\<lparr>w_store := d1\<rparr>)"
    using result [OF d(5)] assms(8-10) d(4) d1(1)
    by (auto simp: parent_listener_def getMode_def on_idb_def dir_info_def typed_def split: option.splits idb_val.splits)
  moreover obtain d' where "txn_Await P H ?t (w\<lparr>w_store := d1\<rparr>) = Some (Some errAborted, ?t, w\<lparr>w_store := d'\<rparr>)"
    "idle (view d')" "v_data (view d') = v_saved (view d)"
    using await_aborted [of "w\<lparr>w_store := d1\<rparr>" ?t H] d(2) d1(2) assms(3) by (auto simp: running_def)
  ultimately show ?thesis using d(1,6) assms(6-8)
    by (intro exI [of _ d'])
      (simp add: idb_Commit_def run_pending_def parentDirExistsReq_Err_def idb_setResult_def)
qed

end


text \<open>What \<open>Set\<close> learns of a record: its mode, the contents of a regular file or the size of another, and its time.\<close>

definition idb_known ::
  "(unit, 'd world) fileData \<Rightarrow> file_mode \<Rightarrow> bref option \<Rightarrow> int \<Rightarrow> time \<Rightarrow> (unit, 'd world) fileData \<Rightarrow> bool" where
  "idb_known src m data sz t src' \<longleftrightarrow> (\<exists>s1 s2 s3 s4. FD_Mode idb_rec_ops src = Some (m, s1) \<and>
     (case data of
        Some b \<Rightarrow> IsRegular m \<and> (\<forall>w. FD_Data idb_rec_ops s1 w = Some (Inr b, s2, w)) \<and> s3 = s2
      | None \<Rightarrow> \<not> IsRegular m \<and> s2 = s1 \<and> (\<forall>w. FD_Size idb_rec_ops s2 w = Some (sz, s3))) \<and>
     FD_ModTime idb_rec_ops s3 = Some (t, s4) \<and> FD_Mode idb_rec_ops s4 = Some (m, src'))"

definition writes :: "string \<Rightarrow> byte list option \<Rightarrow> file_info \<Rightarrow> idb_data \<Rightarrow> idb_data" where
  "writes p bytes fi D =
     D(infoStore := (D infoStore)(p \<mapsto> VInfo fi),
       contentsStore := (case bytes of None \<Rightarrow> D contentsStore | Some bs \<Rightarrow> (D contentsStore)(p \<mapsto> VBytes bs)))"

lemma stores_differ [simp]: "infoStore \<noteq> contentsStore" "contentsStore \<noteq> infoStore"
  by (simp_all add: infoStore_def contentsStore_def)

lemma validate_eq:
  assumes "(case data of None \<Rightarrow> FD_Size idb_rec_ops rec w | Some b \<Rightarrow> Some (Bytes_Len (w_heap w) b, rec)) = Some (sz, rec1)"
    and "FD_ModTime idb_rec_ops rec1 = Some (mt, rec2)" "FD_Mode idb_rec_ops rec2 = Some (m, rec3)"
  shows "validateAndSetFileMeta P p rec data t w =
    (case requireParentDirectoryExists P p t w of
       (Inl e, t, w) \<Rightarrow> Some (Inl e, rec3, t, w)
     | (Inr q, t, w) \<Rightarrow>
         (case on_idb (ip_Request P (it_txn t) (RPut infoStore p (VInfo (info_of p mt m sz)))) w of
            (Inl e, w) \<Rightarrow> Some (Inl e, rec3, t, w)
          | (Inr req, w) \<Rightarrow> Some (Inr (req, q), rec3, t, w)))"
  unfolding validateAndSetFileMeta_def info_of_def Let_def assms(1) bind.bind_lunit prod.case assms(2,3) ..

context indexed_db
begin

text \<open>A transaction that can write to both object stores.\<close>

definition writable :: "'d \<Rightarrow> nat \<Rightarrow> bool" where
  "writable d txn \<longleftrightarrow> running (view d) txn \<and> v_scope (view d) = [infoStore, contentsStore] \<and> v_write (view d)"

lemma put_request:
  assumes "writable d txn" "req_store r \<in> {infoStore, contentsStore}"
  shows "\<exists>n d'. on_idb (ip_Request P txn r) (w\<lparr>w_store := d\<rparr>) = (Inr n, w\<lparr>w_store := d'\<rparr>) \<and> n \<notin> fst ` set (v_queue (view d))
    \<and> view d' = (view d)\<lparr>v_queue := v_queue (view d) @ [(n, r)]\<rparr> \<and> writable d' txn"
  using request [of d txn r] assms by (auto simp: on_idb_def writable_def running_def)

lemma meta_top:
  assumes "writable d (it_txn t)" "top_level p"
    and "(case data of None \<Rightarrow> FD_Size idb_rec_ops rec (w\<lparr>w_store := d\<rparr>)
       | Some b \<Rightarrow> Some (Bytes_Len (w_heap (w\<lparr>w_store := d\<rparr>)) b, rec)) = Some (sz, rec1)"
    and "FD_ModTime idb_rec_ops rec1 = Some (mt, rec2)" "FD_Mode idb_rec_ops rec2 = Some (m, rec3)"
  shows "\<exists>n d'. validateAndSetFileMeta P p rec data t (w\<lparr>w_store := d\<rparr>) = Some (Inr (n, None), rec3, t, w\<lparr>w_store := d'\<rparr>)
    \<and> view d' = (view d)\<lparr>v_queue := v_queue (view d) @ [(n, RPut infoStore p (VInfo (info_of p mt m sz)))]\<rparr> \<and> writable d' (it_txn t)"
proof -
  let ?r = "RPut infoStore p (VInfo (info_of p mt m sz))"
  obtain n d' where d': "on_idb (ip_Request P (it_txn t) ?r) (w\<lparr>w_store := d\<rparr>) = (Inr n, w\<lparr>w_store := d'\<rparr>)"
    "view d' = (view d)\<lparr>v_queue := v_queue (view d) @ [(n, ?r)]\<rparr>" "writable d' (it_txn t)"
    using put_request [OF assms(1), of ?r w] by auto
  have "requireParentDirectoryExists P p t (w\<lparr>w_store := d\<rparr>) = (Inr None, t, w\<lparr>w_store := d\<rparr>)"
    using assms(2) by (simp add: requireParentDirectoryExists_def top_level_def)
  then have "validateAndSetFileMeta P p rec data t (w\<lparr>w_store := d\<rparr>) = Some (Inr (n, None), rec3, t, w\<lparr>w_store := d'\<rparr>)"
    using d'(1) by (simp add: validate_eq [OF assms(3-5)])
  then show ?thesis using d'(2,3) by blast
qed

lemma meta_parent:
  assumes "writable d (it_txn t)" "\<not> top_level p"
    and "(case data of None \<Rightarrow> FD_Size idb_rec_ops rec (w\<lparr>w_store := d\<rparr>)
       | Some b \<Rightarrow> Some (Bytes_Len (w_heap (w\<lparr>w_store := d\<rparr>)) b, rec)) = Some (sz, rec1)"
    and "FD_ModTime idb_rec_ops rec1 = Some (mt, rec2)" "FD_Mode idb_rec_ops rec2 = Some (m, rec3)"
  shows "\<exists>n n' d'. validateAndSetFileMeta P p rec data t (w\<lparr>w_store := d\<rparr>)
      = Some (Inr (n', Some n), rec3, add_listener n CbParent t, w\<lparr>w_store := d'\<rparr>)
    \<and> view d' = (view d)\<lparr>v_queue := v_queue (view d) @
        [(n, RGet infoStore (Dir p)), (n', RPut infoStore p (VInfo (info_of p mt m sz)))]\<rparr>
    \<and> n \<notin> fst ` set (v_queue (view d)) \<and> n' \<noteq> n \<and> writable d' (it_txn t)"
proof -
  let ?g = "RGet infoStore (Dir p)" and ?r = "RPut infoStore p (VInfo (info_of p mt m sz))"
  obtain n d1 where d1: "on_idb (ip_Request P (it_txn t) ?g) (w\<lparr>w_store := d\<rparr>) = (Inr n, w\<lparr>w_store := d1\<rparr>)"
    "n \<notin> fst ` set (v_queue (view d))" "view d1 = (view d)\<lparr>v_queue := v_queue (view d) @ [(n, ?g)]\<rparr>" "writable d1 (it_txn t)"
    using put_request [OF assms(1), of ?g w] by auto
  obtain n' d' where d': "on_idb (ip_Request P (it_txn t) ?r) (w\<lparr>w_store := d1\<rparr>) = (Inr n', w\<lparr>w_store := d'\<rparr>)"
    "n' \<notin> fst ` set (v_queue (view d1))" "view d' = (view d1)\<lparr>v_queue := v_queue (view d1) @ [(n', ?r)]\<rparr>" "writable d' (it_txn t)"
    using put_request [OF d1(4), of ?r w] by auto
  have "ip_Listen P n d1 = None" by (rule listen) (simp add: d1(3))
  then have "requireParentDirectoryExists P p t (w\<lparr>w_store := d\<rparr>) = (Inr (Some n), add_listener n CbParent t, w\<lparr>w_store := d1\<rparr>)"
    using assms(2) d1(1) by (simp add: requireParentDirectoryExists_def top_level_def Let_def)
  then have "validateAndSetFileMeta P p rec data t (w\<lparr>w_store := d\<rparr>)
      = Some (Inr (n', Some n), rec3, add_listener n CbParent t, w\<lparr>w_store := d'\<rparr>)"
    using d'(1) by (simp add: validate_eq [OF assms(3-5)] add_listener_def)
  then show ?thesis using d1(2,3) d'(2-4) by (intro exI [of _ n] exI [of _ n'] exI [of _ d']) simp
qed

end


lemma idb_Set_eq:
  assumes "ip_ObjectStore P txn infoStore d = None" "ip_ObjectStore P txn contentsStore d = None"
    and "(case data of None \<Rightarrow> Some (Inr 0, w\<lparr>w_store := d\<rparr>) | Some b \<Rightarrow> setFileContents P p b txn (w\<lparr>w_store := d\<rparr>)) = Some (Inr x, w1)"
    and "validateAndSetFileMeta P p rec data (idb_setResult 0 (op_error 0 None) ((bare_txn txn)\<lparr>it_nextOp := 1\<rparr>)) w1
      = Some (Inr (n, par), rec', t', w2)"
  shows "idb_Set P p (Some rec) data (bare_txn txn) (w\<lparr>w_store := d\<rparr>) = Some (0, setPendingValidateErr 0 par t', Some rec', w2)"
proof -
  let ?t = "idb_setResult 0 (op_error 0 None) ((bare_txn txn)\<lparr>it_nextOp := 1\<rparr>)"
  have t: "it_txn ?t = txn" "it_txn ((bare_txn txn)\<lparr>it_nextOp := 1\<rparr>) = txn" "w_store (w\<lparr>w_store := d\<rparr>) = d"
    by (simp_all add: idb_setResult_def bare_txn_def)
  have "idb_set P 0 p (Some rec) data ((bare_txn txn)\<lparr>it_nextOp := 1\<rparr>) (w\<lparr>w_store := d\<rparr>)
      = Some (Inr n, Some rec', setPendingValidateErr 0 par t', w2)"
    unfolding idb_set_def Let_def t assms(1,2) option.case assms(3) bind.bind_lunit prod.case sum.case assms(4) ..
  then show ?thesis by (simp add: idb_Set_def idb_newOp_def bare_txn_def)
qed

context indexed_db
begin

lemma contents_step:
  fixes data :: "bref option"
  defines "bytes \<equiv> \<lambda>h. map_option (content h) data"
  assumes "writable d txn" "v_queue (view d) = []" "wf_heap (w_heap w)" "\<forall>b \<in> set_option data. live (w_heap w) b"
  shows "\<exists>x h q d'. (case data of None \<Rightarrow> Some (Inr 0, w\<lparr>w_store := d\<rparr>) | Some b \<Rightarrow> setFileContents P p b txn (w\<lparr>w_store := d\<rparr>))
      = Some (Inr x, w\<lparr>w_heap := h, w_store := d'\<rparr>)
    \<and> wf_heap h \<and> extends (w_heap w) h \<and> view d' = (view d)\<lparr>v_queue := q\<rparr> \<and> writable d' txn
    \<and> (\<forall>D. run_requests q D = D(contentsStore :=
         case bytes (w_heap w) of None \<Rightarrow> D contentsStore | Some bs \<Rightarrow> (D contentsStore)(p \<mapsto> VBytes bs)))"
proof (cases data)
  case None
  then show ?thesis using assms(3,4) by (intro exI [of _ 0] exI [of _ "w_heap w"] exI [of _ "[]"] exI [of _ d]) (simp add: assms(1,2))
next
  case (Some b)
  have "live (w_heap w) b" using assms(5) Some by simp
  with assms(4) obtain buf h where h: "Bytes_Bytes b (w_heap w) = Some (buf, h)" "wf_heap h" "extends (w_heap w) h"
    "slice_get h buf = content (w_heap w) b" by (rule Bytes_Bytes_eq)
  let ?r = "RPut contentsStore p (VBytes (content (w_heap w) b))"
  obtain n d' where "on_idb (ip_Request P txn ?r) (w\<lparr>w_heap := h\<rparr>\<lparr>w_store := d\<rparr>) = (Inr n, w\<lparr>w_heap := h\<rparr>\<lparr>w_store := d'\<rparr>)"
    "view d' = (view d)\<lparr>v_queue := [(n, ?r)]\<rparr>" "writable d' txn"
    using put_request [OF assms(2), of ?r "w\<lparr>w_heap := h\<rparr>"] assms(3) by auto
  then show ?thesis using h Some
    by (intro exI [of _ n] exI [of _ h] exI [of _ "[(n, ?r)]"] exI [of _ d'])
      (simp add: setFileContents_def on_idb_def assms(1) split: prod.splits)
qed

text \<open>\<open>set\<close> issues its requests; the transaction then holds the listener on the parent.\<close>

lemma set_spec:
  fixes t :: "('d, 'h) itxn"
  assumes "writable d txn" "v_queue (view d) = []" "wf_heap (w_heap w)" "\<forall>b \<in> set_option data. live (w_heap w) b"
    and rec: "\<And>w. (case data of None \<Rightarrow> FD_Size idb_rec_ops rec w | Some b \<Rightarrow> Some (Bytes_Len (w_heap w) b, rec))
        = Some (case data of None \<Rightarrow> sz | Some b \<Rightarrow> Bytes_Len (w_heap w) b, rec1)"
      "FD_ModTime idb_rec_ops rec1 = Some (mt, rec2)" "FD_Mode idb_rec_ops rec2 = Some (m, rec3)"
    and sz: "\<forall>b \<in> set_option data. sz = int (length (content (w_heap w) b))"
  shows "\<exists>t' h pre q d'. idb_Set P p (Some rec) data (bare_txn txn :: ('d, 'h) itxn) (w\<lparr>w_store := d\<rparr>)
      = Some (0, t', Some rec3, w\<lparr>w_heap := h, w_store := d'\<rparr>)
    \<and> it_txn t' = txn \<and> it_results t' = [(0, op_error 0 None)] \<and> it_notExists t' = []
    \<and> wf_heap h \<and> extends (w_heap w) h \<and> writable d' txn \<and> view d' = (view d)\<lparr>v_queue := pre @ q\<rparr>
    \<and> (\<forall>D. run_requests pre D infoStore = D infoStore)
    \<and> (\<forall>D. run_requests (pre @ q) D = writes p (map_option (content (w_heap w)) data) (info_of p mt m sz) D)
    \<and> (if top_level p then it_listen t' = [] \<and> it_pending t' = []
       else \<exists>n q'. q = (n, RGet infoStore (Dir p)) # q' \<and> n \<notin> fst ` set pre \<and> n \<notin> fst ` set q'
         \<and> it_listen t' = [(n, CbParent)] \<and> it_pending t' = [PendParent 0 n])"
proof -
  let ?t = "idb_setResult 0 (op_error 0 None) ((bare_txn txn :: ('d, 'h) itxn)\<lparr>it_nextOp := 1\<rparr>)"
  have t: "it_txn ?t = txn" "it_results ?t = [(0, op_error 0 None)]" "it_notExists ?t = []" "it_listen ?t = []" "it_pending ?t = []"
    by (simp_all add: idb_setResult_def bare_txn_def)
  have os: "ip_ObjectStore P txn infoStore d = None" "ip_ObjectStore P txn contentsStore d = None"
    using assms(1) by (auto simp: writable_def intro!: object_store)
  obtain x h pre d1 where pre: "(case data of None \<Rightarrow> Some (Inr 0, w\<lparr>w_store := d\<rparr>)
      | Some b \<Rightarrow> setFileContents P p b txn (w\<lparr>w_store := d\<rparr>)) = Some (Inr x, w\<lparr>w_heap := h, w_store := d1\<rparr>)"
    "wf_heap h" "extends (w_heap w) h" "view d1 = (view d)\<lparr>v_queue := pre\<rparr>" "writable d1 txn"
    "\<And>D. run_requests pre D = D(contentsStore :=
         case map_option (content (w_heap w)) data of None \<Rightarrow> D contentsStore | Some bs \<Rightarrow> (D contentsStore)(p \<mapsto> VBytes bs))"
    using contents_step [OF assms(1-4)] by blast
  have len: "(case data of None \<Rightarrow> sz | Some b \<Rightarrow> Bytes_Len h b) = sz"
    using sz pre(2,3) assms(4) by (cases data) (auto simp: Bytes_Len_content extends_live extends_content)
  have size: "(case data of None \<Rightarrow> FD_Size idb_rec_ops rec (w\<lparr>w_heap := h\<rparr>\<lparr>w_store := d1\<rparr>)
      | Some b \<Rightarrow> Some (Bytes_Len (w_heap (w\<lparr>w_heap := h\<rparr>\<lparr>w_store := d1\<rparr>)) b, rec)) = Some (sz, rec1)"
    using rec(1) [of "w\<lparr>w_heap := h\<rparr>\<lparr>w_store := d1\<rparr>"] len by (cases data) simp_all
  have keep: "run_requests pre D infoStore = D infoStore" for D by (simp add: pre(6))
  have eff: "run_requests (pre @ [(n', RPut infoStore p (VInfo fi))]) D = writes p (map_option (content (w_heap w)) data) fi D"
    "run_requests (pre @ [(n, RGet s k), (n', RPut infoStore p (VInfo fi))]) D = writes p (map_option (content (w_heap w)) data) fi D"
    for n n' s k fi D
    by (simp_all add: run_requests_append pre(6) fun_upd_twist writes_def)
  have Set_eq: "idb_Set P p (Some rec) data (bare_txn txn) (w\<lparr>w_store := d\<rparr>) =
      Some (0, setPendingValidateErr 0 par t', Some rec3, w\<lparr>w_heap := h, w_store := d'\<rparr>)"
    if "validateAndSetFileMeta P p rec data ?t (w\<lparr>w_heap := h, w_store := d1\<rparr>) = Some (Inr (n, par), rec3, t', w\<lparr>w_heap := h, w_store := d'\<rparr>)"
    for n par t' d'
    by (rule idb_Set_eq [OF os pre(1) that])
  show ?thesis
  proof (cases "top_level p")
    case True
    obtain n d' where d': "validateAndSetFileMeta P p rec data ?t (w\<lparr>w_heap := h\<rparr>\<lparr>w_store := d1\<rparr>)
        = Some (Inr (n, None), rec3, ?t, w\<lparr>w_heap := h\<rparr>\<lparr>w_store := d'\<rparr>)"
      "view d' = (view d1)\<lparr>v_queue := v_queue (view d1) @ [(n, RPut infoStore p (VInfo (info_of p mt m sz)))]\<rparr>" "writable d' txn"
      using meta_top [OF _ True size rec(2,3), of ?t] pre(5) t(1) by auto
    show ?thesis using Set_eq [OF d'(1)] d'(2,3) pre(2-4) t True
      by - (rule exI [of _ ?t], rule exI [of _ h], rule exI [of _ pre],
          rule exI [of _ "[(n, RPut infoStore p (VInfo (info_of p mt m sz)))]"], rule exI [of _ d'],
        simp add: eff keep setPendingValidateErr_def)
  next
    case False
    obtain n n' d' where d': "validateAndSetFileMeta P p rec data ?t (w\<lparr>w_heap := h\<rparr>\<lparr>w_store := d1\<rparr>)
        = Some (Inr (n', Some n), rec3, add_listener n CbParent ?t, w\<lparr>w_heap := h\<rparr>\<lparr>w_store := d'\<rparr>)"
      "view d' = (view d1)\<lparr>v_queue := v_queue (view d1) @
          [(n, RGet infoStore (Dir p)), (n', RPut infoStore p (VInfo (info_of p mt m sz)))]\<rparr>"
      "n \<notin> fst ` set (v_queue (view d1))" "n' \<noteq> n" "writable d' txn"
      using meta_parent [OF _ False size rec(2,3), of ?t] pre(5) t(1) by auto
    show ?thesis using Set_eq [OF d'(1)] d'(2-) pre(2-4) t False
      by - (rule exI [of _ "setPendingValidateErr 0 (Some n) (add_listener n CbParent ?t)"], rule exI [of _ h], rule exI [of _ pre],
          rule exI [of _ "[(n, RGet infoStore (Dir p)), (n', RPut infoStore p (VInfo (info_of p mt m sz)))]"], rule exI [of _ d'],
        simp add: eff keep setPendingValidateErr_def setPending_def add_listener_def)
  qed
qed

end


lemma getFirstCommitError_simps [simp]:
  "getFirstCommitError [op_error 0 None] None = None"
  "getFirstCommitError [op_error 0 (Some e)] None = Some e"
  "getFirstCommitError [op_error 0 (Some e)] (Some errAborted) = Some e"
  by (simp_all add: getFirstCommitError_def op_error_def map_filter_simps)

context indexed_db
begin

text \<open>The commit of a \<open>Set\<close>: the parent is a directory, or the transaction is undone.\<close>

lemma commit_set:
  assumes run: "running (view (w_store w)) (it_txn t)" and D: "v_saved (view (w_store w)) = v_data (view (w_store w))"
      "v_queue (view (w_store w)) = pre @ q" "typed (v_data (view (w_store w)))"
    and t: "it_results t = [(0, op_error 0 None)]" "it_notExists t = []"
    and keep: "\<And>D. run_requests pre D infoStore = D infoStore"
    and eff: "\<And>D. run_requests (pre @ q) D = writes p bytes fi D"
    and par: "if top_level p then it_listen t = [] \<and> it_pending t = []
      else \<exists>n q'. q = (n, RGet infoStore (Dir p)) # q' \<and> n \<notin> fst ` set pre \<and> n \<notin> fst ` set q'
         \<and> it_listen t = [(n, CbParent)] \<and> it_pending t = [PendParent 0 n]"
    and ok: "ok = (top_level p \<or> dir_info (v_data (view (w_store w)) infoStore (Dir p)))"
  shows "\<exists>ops e d. idb_Commit P H t w = Some (ops, e, w\<lparr>w_store := d\<rparr>) \<and> idle (view d)
    \<and> getFirstCommitError ops e = (if ok then None else Some ErrNotDir)
    \<and> v_data (view d) = (if ok then writes p bytes fi else id) (v_data (view (w_store w)))"
proof (cases "top_level p")
  case True
  then obtain d where "idb_Commit P H t w = Some ([op_error 0 None], None, w\<lparr>w_store := d\<rparr>)"
    "idle (view d)" "v_data (view d) = run_requests (pre @ q) (v_data (view (w_store w)))"
    using commit_plain [OF run, of H] t(1) par D(2) by auto
  then show ?thesis using True eff ok by (intro exI [of _ "[op_error 0 None]"] exI [of _ None] exI [of _ d]) simp
next
  case False
  then obtain n q' where q: "v_queue (view (w_store w)) = pre @ (n, RGet infoStore (Dir p)) # q'" "it_listen t = [(n, CbParent)]"
    "n \<notin> fst ` set pre" "n \<notin> fst ` set q'" "it_pending t = [PendParent 0 n]" "q = (n, RGet infoStore (Dir p)) # q'"
    using par D(2) by auto
  have eff': "run_requests (pre @ q') D = writes p bytes fi D" for D
    using eff [of D] q(6) by (simp add: run_requests_append)
  show ?thesis
  proof (cases ok)
    case True
    then have "dir_info (run_requests pre (v_data (view (w_store w))) infoStore (Dir p))" using False ok keep by simp
    from commit_parent_ok [OF run q(1-5) t this, of H] obtain d where
      "idb_Commit P H t w = Some ([op_error 0 None], None, w\<lparr>w_store := d\<rparr>)"
      "idle (view d)" "v_data (view d) = run_requests (pre @ q') (v_data (view (w_store w)))" by auto
    then show ?thesis using True eff' by (intro exI [of _ "[op_error 0 None]"] exI [of _ None] exI [of _ d]) simp
  next
    case bad: False
    have "\<not> dir_info (run_requests pre (v_data (view (w_store w))) infoStore (Dir p))" "typed (run_requests pre (v_data (view (w_store w))))"
      using bad ok keep D(3) by (simp_all add: typed_def)
    from commit_parent_missing [OF run q(1-5) t this, of H] obtain d where
      "idb_Commit P H t w = Some ([op_error 0 (Some ErrNotDir)], Some errAborted, w\<lparr>w_store := d\<rparr>)"
      "idle (view d)" "v_data (view d) = v_data (view (w_store w))" using D(1) by auto
    then show ?thesis using bad by (intro exI [of _ "[op_error 0 (Some ErrNotDir)]"] exI [of _ "Some errAborted"] exI [of _ d]) simp
  qed
qed

text \<open>\<open>Set\<close> of a record: it is stored when its parent is a directory, and otherwise nothing is.\<close>

lemma Set_spec:
  fixes H :: "('d, 'h) idb_handlers" and data :: "bref option"
  defines "bytes \<equiv> \<lambda>h. map_option (content h) data"
  assumes "idle (view (w_store w))" "typed (v_data (view (w_store w)))" "wf_heap (w_heap w)"
    and "\<forall>b \<in> set_option data. live (w_heap w) b \<and> sz = int (length (content (w_heap w) b))"
    and src: "idb_known src m data sz mt src'"
    and "ok = (top_level p \<or> dir_info (v_data (view (w_store w)) infoStore (Dir p)))"
  shows "\<exists>h d. idb_store_Set P H p (Some src) w = Some (if ok then None else Some ErrNotDir, Some src', w\<lparr>w_heap := h, w_store := d\<rparr>)
    \<and> wf_heap h \<and> extends (w_heap w) h \<and> idle (view d)
    \<and> v_data (view d) = (if ok then writes p (bytes (w_heap w)) (info_of p mt m sz) else id) (v_data (view (w_store w)))"
proof -
  let ?D = "v_data (view (w_store w))"
  obtain s1 s2 s3 s4 where s: "FD_Mode idb_rec_ops src = Some (m, s1)"
    "case data of Some b \<Rightarrow> IsRegular m \<and> (\<forall>w. FD_Data idb_rec_ops s1 w = Some (Inr b, s2, w)) \<and> s3 = s2
      | None \<Rightarrow> \<not> IsRegular m \<and> s2 = s1 \<and> (\<forall>w. FD_Size idb_rec_ops s2 w = Some (sz, s3))"
    "FD_ModTime idb_rec_ops s3 = Some (mt, s4)" "FD_Mode idb_rec_ops s4 = Some (m, src')"
    using src by (auto simp: idb_known_def)
  have rec: "(case data of None \<Rightarrow> FD_Size idb_rec_ops s2 w | Some b \<Rightarrow> Some (Bytes_Len (w_heap w) b, s2))
      = Some (case data of None \<Rightarrow> sz | Some b \<Rightarrow> Bytes_Len (w_heap w) b, s3)" for w
    using s(2) by (cases data) auto
  obtain txn d where d: "idb_Transaction P TransactionReadWrite w = Some (bare_txn txn :: ('d, 'h) itxn, None, w\<lparr>w_store := d\<rparr>)"
    "view d = (view (w_store w))\<lparr>v_saved := ?D, v_txn := txn, v_scope := [infoStore, contentsStore], v_write := True\<rparr>"
    "running (view d) txn" "v_queue (view d) = []"
    by (rule Transaction_spec [OF assms(2), of TransactionReadWrite]) simp
  have "writable d txn" using d(2,3) by (simp add: writable_def)
  moreover have "\<forall>b \<in> set_option data. live (w_heap w) b" "\<forall>b \<in> set_option data. sz = int (length (content (w_heap w) b))"
    using assms(5) by auto
  ultimately obtain t h pre q d1 where set: "idb_Set P p (Some s2) data (bare_txn txn :: ('d, 'h) itxn) (w\<lparr>w_store := d\<rparr>)
      = Some (0, t, Some src', w\<lparr>w_heap := h, w_store := d1\<rparr>)"
    "it_txn t = txn" "it_results t = [(0, op_error 0 None)]" "it_notExists t = []"
    "wf_heap h" "extends (w_heap w) h" "writable d1 txn" "view d1 = (view d)\<lparr>v_queue := pre @ q\<rparr>"
    "\<And>D. run_requests pre D infoStore = D infoStore"
    "\<And>D. run_requests (pre @ q) D = writes p (bytes (w_heap w)) (info_of p mt m sz) D"
    "if top_level p then it_listen t = [] \<and> it_pending t = []
     else \<exists>n q'. q = (n, RGet infoStore (Dir p)) # q' \<and> n \<notin> fst ` set pre \<and> n \<notin> fst ` set q'
         \<and> it_listen t = [(n, CbParent)] \<and> it_pending t = [PendParent 0 n]"
    using set_spec [OF _ d(4) assms(4) _ rec s(3,4), where p = p] unfolding bytes_def by blast
  have set_eq: "idb_store_Set P H p (Some src) w = Some (getFirstCommitError ops e, Some src', w')"
    if "idb_Commit P H t (w\<lparr>w_heap := h, w_store := d1\<rparr>) = Some (ops, e, w')" for ops e w'
    using s(1,2) d(1) set(1) that by (cases data) (auto simp: idb_store_Set_def)
  let ?w = "w\<lparr>w_heap := h, w_store := d1\<rparr>"
  have "running (view (w_store ?w)) (it_txn t)" using set(2,7) by (simp add: writable_def)
  then have "\<exists>ops e d2. idb_Commit P H t ?w = Some (ops, e, ?w\<lparr>w_store := d2\<rparr>) \<and> idle (view d2)
    \<and> getFirstCommitError ops e = (if ok then None else Some ErrNotDir)
    \<and> v_data (view d2) = (if ok then writes p (bytes (w_heap w)) (info_of p mt m sz) else id) (v_data (view (w_store ?w)))"
    by (rule commit_set [OF _ _ _ _ set(3,4,9-11)]) (simp_all add: set(8) d(2) assms(3,7))
  then obtain ops e d2 where c: "idb_Commit P H t ?w = Some (ops, e, w\<lparr>w_heap := h, w_store := d2\<rparr>)" "idle (view d2)"
    "getFirstCommitError ops e = (if ok then None else Some ErrNotDir)"
    "v_data (view d2) = (if ok then writes p (bytes (w_heap w)) (info_of p mt m sz) else id) ?D"
    using set(8) d(2) by auto
  have "idb_store_Set P H p (Some src) w = Some (if ok then None else Some ErrNotDir, Some src', w\<lparr>w_heap := h, w_store := d2\<rparr>)"
    using set_eq [OF c(1)] unfolding c(3) .
  then show ?thesis using c(2,4) set(5,6) by blast
qed

end

end
