(* ===== verification/IDB_Props.thy ===== *)
theory IDB_Props
  imports IDB_Laws
begin

section \<open>The store in IndexedDB: round trip, atomicity, listing\<close>

text \<open>
  \<open>idb_mem\<close> is an IndexedDB database in memory: it satisfies the laws of \<open>indexed_db\<close>, so the theorems apply to it. The properties below are stated for
  every database that satisfies them.
\<close>

subsection \<open>A database in memory\<close>

type_synonym idb_table = "((string \<times> string) \<times> idb_val) list"

record idb_mem =
  im_data :: idb_table
  im_saved :: idb_table
  im_queue :: "(nat \<times> idb_request) list"
  im_res :: "(nat \<times> (err + idb_val option)) list"
  im_txn :: nat
  im_scope :: "string list"
  im_write :: bool
  im_aborted :: bool

definition table_view :: "idb_table \<Rightarrow> idb_data" where
  "table_view T = (\<lambda>s k. map_of T (s, k))"

definition table_keys :: "idb_table \<Rightarrow> string \<Rightarrow> string \<Rightarrow> string list" where
  "table_keys T s p =
     remdups (filter (\<lambda>k. case map_of T (s, k) of Some (VInfo fi) \<Rightarrow> fi_Parent fi = Some p | _ \<Rightarrow> False)
       (map (snd \<circ> fst) T))"

fun table_run :: "idb_request \<Rightarrow> idb_table \<Rightarrow> idb_table" where
  "table_run (RPut s k v) T = AList.update (s, k) v T"
| "table_run (RDelete s k) T = AList.delete (s, k) T"
| "table_run (RClear s) T = filter (\<lambda>e. fst (fst e) \<noteq> s) T"
| "table_run _ T = T"

fun table_result :: "idb_request \<Rightarrow> idb_table \<Rightarrow> idb_val option" where
  "table_result (RGet s k) T = map_of T (s, k)"
| "table_result (RAllKeys s i p) T = Some (VKeys (table_keys T s p))"
| "table_result _ T = None"

definition im_view :: "idb_mem \<Rightarrow> idb_view" where
  "im_view d = \<lparr>v_data = table_view (im_data d), v_saved = table_view (im_saved d), v_queue = im_queue d, v_res = map_of (im_res d),
     v_txn = im_txn d, v_scope = im_scope d, v_write = im_write d, v_aborted = im_aborted d\<rparr>"

definition im_fresh :: "idb_mem \<Rightarrow> nat" where
  "im_fresh d = Suc (sum_list (map fst (im_queue d)) + sum_list (map fst (im_res d)))"

definition inactive :: err where "inactive = ErrorString ''TransactionInactiveError''"

definition im_Deliver :: "nat \<Rightarrow> idb_mem \<Rightarrow> idb_event \<times> idb_mem" where
  "im_Deliver txn d =
     (case im_queue d of
        [] \<Rightarrow> if im_aborted d then (EvAbort errAborted, d\<lparr>im_aborted := False\<rparr>) else (EvComplete, d)
      | (n, r) # q \<Rightarrow>
          if im_aborted d then (EvError n, d\<lparr>im_queue := q, im_res := (n, Inl errAborted) # im_res d\<rparr>)
          else (EvSuccess n, d\<lparr>im_data := table_run r (im_data d), im_queue := q,
                  im_res := (n, Inr (table_result r (im_data d))) # im_res d\<rparr>))"

definition idb_mem_pkg :: "idb_mem idb_pkg" where
  "idb_mem_pkg =
     \<lparr>ip_Transaction = \<lambda>rw ss d. (Inr (Suc (im_txn d)),
        d\<lparr>im_saved := im_data d, im_txn := Suc (im_txn d), im_scope := ss, im_write := rw\<rparr>),
      ip_ObjectStore = \<lambda>txn s d. if im_aborted d \<or> s \<notin> set (im_scope d) then Some inactive else None,
      ip_Request = \<lambda>txn r d.
        if im_aborted d \<or> req_store r \<notin> set (im_scope d) \<or> req_writes r \<and> \<not> im_write d then (Inl inactive, d)
        else (Inr (im_fresh d), d\<lparr>im_queue := im_queue d @ [(im_fresh d, r)]\<rparr>),
      ip_Listen = \<lambda>n d. None,
      ip_Deliver = im_Deliver,
      ip_Result = \<lambda>n d. case map_of (im_res d) n of None \<Rightarrow> Inl inactive | Some x \<Rightarrow> x,
      ip_Err = \<lambda>n d. case map_of (im_res d) n of Some (Inl e) \<Rightarrow> Some e | _ \<Rightarrow> None,
      ip_Abort = \<lambda>txn d. if im_aborted d then (Some inactive, d) else (None, d\<lparr>im_data := im_saved d, im_aborted := True\<rparr>),
      ip_Commit = \<lambda>txn d. (None, d)\<rparr>"

lemma table_run_view: "table_view (table_run r T) = req_effect r (table_view T)"
proof (cases r)
  case (RClear s)
  have "map_of (filter (\<lambda>e. fst (fst e) \<noteq> s) T) (s', k) = (if s' = s then None else map_of T (s', k))" for s' k
    by (induction T) auto
  then show ?thesis using RClear by (auto simp: table_view_def fun_eq_iff)
qed (auto simp: table_view_def update_conv delete_conv fun_eq_iff)

lemma table_result_view: "req_result r (table_view T) (table_result r T)"
proof (cases r)
  case (RAllKeys s i p)
  have "set (table_keys T s p) = {k. \<exists>fi. map_of T (s, k) = Some (VInfo fi) \<and> fi_Parent fi = Some p}"
  proof (rule set_eqI)
    fix k
    have "k \<in> (snd \<circ> fst) ` set T" if "map_of T (s, k) = Some v" for v
      using imageI [OF map_of_SomeD [OF that], of "snd \<circ> fst"] by simp
    then show "k \<in> set (table_keys T s p) \<longleftrightarrow> k \<in> {k. \<exists>fi. map_of T (s, k) = Some (VInfo fi) \<and> fi_Parent fi = Some p}"
      by (cases "map_of T (s, k)") (auto simp: table_keys_def split: idb_val.splits)
  qed
  moreover have "distinct (table_keys T s p)" by (simp add: table_keys_def)
  ultimately show ?thesis using RAllKeys by (auto simp: children_def table_view_def)
qed (simp_all add: table_view_def)

lemma im_fresh_new: "im_fresh d \<notin> fst ` set (im_queue d)" "map_of (im_res d) (im_fresh d) = None"
proof -
  have "n \<le> sum_list (map fst xs)" if "(n, x) \<in> set xs" for n x and xs :: "(nat \<times> 'x) list"
    using that by (induction xs) auto
  note le = this
  show "im_fresh d \<notin> fst ` set (im_queue d)" using le by (fastforce simp: im_fresh_def)
  show "map_of (im_res d) (im_fresh d) = None"
    using le [of "im_fresh d" _ "im_res d"] by (cases "map_of (im_res d) (im_fresh d)") (auto simp: im_fresh_def dest!: map_of_SomeD)
qed

interpretation imem: indexed_db idb_mem_pkg im_view
proof unfold_locales
  show "\<exists>x d'. ip_Deliver idb_mem_pkg txn d = (EvSuccess n, d') \<and> req_result r (v_data (im_view d)) x
      \<and> im_view d' = (im_view d)\<lparr>v_data := req_effect r (v_data (im_view d)), v_queue := q, v_res := (v_res (im_view d))(n \<mapsto> Inr x)\<rparr>"
    if "running (im_view d) txn" "v_queue (im_view d) = (n, r) # q" for d txn n r q
    using that by (intro exI [of _ "table_result r (im_data d)"])
      (simp add: idb_mem_pkg_def im_Deliver_def im_view_def running_def table_run_view table_result_view)
qed (auto simp: idb_mem_pkg_def im_view_def im_Deliver_def running_def idle_def im_fresh_new split: option.splits sum.splits)


subsection \<open>What is stored is what is read\<close>

lemma stored_mode: "of_int (js_Int (float64 (uint (m :: file_mode)))) = m"
proof -
  have "uint m < 2 ^ LENGTH(32)" by (rule unsigned_less)
  then have "float64 (uint m) = uint m" "uint m \<le> max_int64" by (simp_all add: float64_exact max_int64_def)
  then show ?thesis by (simp add: js_Int_def)
qed

lemma stored_size: "0 \<le> sz \<Longrightarrow> sz < 2 ^ 53 \<Longrightarrow> js_Int (float64 sz) = sz"
  by (simp add: float64_exact js_Int_def max_int64_def)

lemma stored_time:
  assumes "\<bar>t - unix_epoch\<bar> \<le> 2 ^ 62"
  shows "\<bar>time_Unix 0 (js_Int (float64 (UnixNano t))) - t\<bar> \<le> 512"
proof -
  define x where "x = t - unix_epoch"
  have x: "\<bar>x\<bar> \<le> 2 ^ 62" using assms by (simp add: x_def)
  then have "UnixNano t = x" by (simp add: UnixNano_def x_def max_int64_def abs_le_iff)
  moreover have e: "\<bar>float64 x - x\<bar> \<le> 512" by (rule float64_error) (use x in simp)
  then have "js_Int (float64 x) = float64 x" using x by (simp add: js_Int_def max_int64_def)
  ultimately show ?thesis using e by (simp add: time_Unix_def x_def)
qed

text \<open>Every file has a valid name and is indexed under the directory that holds it.\<close>

definition info_ok :: "string \<Rightarrow> idb_val \<Rightarrow> bool" where
  "info_ok k v \<longleftrightarrow> (case v of
     VInfo fi \<Rightarrow> ValidPath k \<and> fi_Parent fi = (if k = idb_root then None else Some (Dir k)) | _ \<Rightarrow> False)"

definition idb_wf :: "idb_data \<Rightarrow> bool" where
  "idb_wf D \<longleftrightarrow> (\<forall>k v. D infoStore k = Some v \<longrightarrow> info_ok k v)"

lemma info_okE:
  assumes "idb_wf D" "D infoStore k = Some v"
  obtains fi where "v = VInfo fi" "ValidPath k" "fi_Parent fi = (if k = idb_root then None else Some (Dir k))"
proof -
  have "info_ok k v" using assms by (simp add: idb_wf_def)
  then show thesis using that by (cases v) (auto simp: info_ok_def)
qed

lemma idb_wf_typed: "idb_wf D \<Longrightarrow> typed D"
  unfolding typed_def by (blast elim: info_okE)

lemma idb_wf_writes: "idb_wf D \<Longrightarrow> ValidPath p \<Longrightarrow> idb_wf (writes p bytes (info_of p t m sz) D)"
  by (auto simp: idb_wf_def writes_def info_of_def info_ok_def)

text \<open>The children of a directory are its entries.\<close>

lemma idb_wf_children:
  assumes "idb_wf D" "ValidPath p"
  shows "children D p = (\<lambda>e. Join [p, e]) ` {e. ok_elem e \<and> D infoStore (Join [p, e]) \<noteq> None}"
proof -
  obtain es where es: "list_all ok_elem es" "p = path_of es" using assms(2) by (rule ValidPathE)
  have join: "Join [p, e] = path_of (es @ [e])" if "ok_elem e" for e using es that by (simp add: path_simps)
  have "k \<in> children D p \<longleftrightarrow> k \<in> (\<lambda>e. Join [p, e]) ` {e. ok_elem e \<and> D infoStore (Join [p, e]) \<noteq> None}" for k
  proof
    assume "k \<in> children D p"
    then obtain fi where fi: "D infoStore k = Some (VInfo fi)" "fi_Parent fi = Some p" by (auto simp: children_def)
    have "ValidPath k" "fi_Parent fi = (if k = idb_root then None else Some (Dir k))"
      using fi(1) by (auto elim: info_okE [OF assms(1)])
    then have k: "ValidPath k" "k \<noteq> idb_root" "Dir k = p" using fi(2) by (simp_all split: if_splits)
    then obtain e where "ok_elem e" "k = Join [p, e]"
      by (elim ValidPath_cases) (auto simp: idb_root_def path_simps)
    then show "k \<in> (\<lambda>e. Join [p, e]) ` {e. ok_elem e \<and> D infoStore (Join [p, e]) \<noteq> None}" using fi(1) by auto
  next
    assume "k \<in> (\<lambda>e. Join [p, e]) ` {e. ok_elem e \<and> D infoStore (Join [p, e]) \<noteq> None}"
    then obtain e v where e: "ok_elem e" "k = Join [p, e]" "D infoStore k = Some v" by auto
    from e have k: "k = path_of (es @ [e])" by (simp add: join)
    have "k \<noteq> idb_root" using es e(1) path_of_eq_dot [of "es @ [e]"] by (simp add: k idb_root_def)
    moreover have "Dir k = p" using es e(1) by (simp add: k path_simps)
    moreover obtain fi where "v = VInfo fi" "fi_Parent fi = (if k = idb_root then None else Some (Dir k))"
      using e(3) by (rule info_okE [OF assms(1)])
    ultimately show "k \<in> children D p" using e(3) by (simp add: children_def)
  qed
  then show ?thesis by blast
qed


context indexed_db
begin

lemma Set_then_Get:
  fixes H :: "('d, 'h) idb_handlers"
  assumes "idle (view (w_store w))" "idb_wf (v_data (view (w_store w)))" "wf_heap (w_heap w)" "live (w_heap w) b"
    and "ValidPath p" "idb_known src m (Some b) sz t src'" "top_level p \<or> dir_info (v_data (view (w_store w)) infoStore (Dir p))"
    and "length (content (w_heap w) b) < 2 ^ 53" "\<bar>t - unix_epoch\<bar> \<le> 2 ^ 62"
  shows "\<exists>w1 w2 w3 r b'. idb_store_Set P H p (Some src) w = Some (None, Some src', w1)
    \<and> idle (view (w_store w1)) \<and> idb_wf (v_data (view (w_store w1)))
    \<and> idb_store_Get P H p w1 = Some (Inr (Some (BaseRec r)), w2)
    \<and> br_mode r = m \<and> \<bar>br_modTime r - t\<bar> \<le> 512 \<and> initialSize r = int (length (content (w_heap w) b))
    \<and> Base_Data r w2 = Some (Inr b', w3) \<and> content (w_heap w3) b' = content (w_heap w) b
    \<and> (\<forall>s k. k \<noteq> p \<longrightarrow> v_data (view (w_store w1)) s k = v_data (view (w_store w)) s k)"
proof -
  let ?D = "v_data (view (w_store w))" and ?bs = "content (w_heap w) b"
  let ?fi = "info_of p t m (int (length ?bs))"
  have src: "idb_known src m (Some b) (int (length ?bs)) t src'" "IsRegular m" using assms(6) by (auto simp: idb_known_def)
  have "\<forall>b' \<in> set_option (Some b). live (w_heap w) b' \<and> int (length ?bs) = int (length (content (w_heap w) b'))"
    using assms(4) by simp
  from Set_spec [OF assms(1) idb_wf_typed [OF assms(2)] assms(3) this src(1), of True p H] obtain h d where
    set: "idb_store_Set P H p (Some src) w = Some (None, Some src', w\<lparr>w_heap := h, w_store := d\<rparr>)" "wf_heap h" "idle (view d)"
      "v_data (view d) = writes p (Some ?bs) ?fi ?D"
    using assms(7) by auto
  let ?w = "w\<lparr>w_heap := h, w_store := d\<rparr>"
  have wf: "idb_wf (v_data (view d))" using set(4) idb_wf_writes [OF assms(2,5)] by simp
  have D: "v_data (view d) infoStore p = Some (VInfo ?fi)" "v_data (view d) contentsStore p = Some (VBytes ?bs)"
    using set(4) by (simp_all add: writes_def)
  have "idle (view (w_store ?w))" "typed (v_data (view (w_store ?w)))" using set(3) idb_wf_typed [OF wf] by simp_all
  then obtain d2 where get: "idb_store_Get P H p ?w = Some (Inr (Some (BaseRec (file_of P p ?fi))), ?w\<lparr>w_store := d2\<rparr>)"
    "idle (view d2)" "v_data (view d2) = v_data (view d)"
    by (rule Get_spec [where p = p and H = H]) (simp add: D(1))
  obtain b' h' where b': "NewBytes_of ?bs h = (b', h')" by fastforce
  obtain d3 where data: "getFileData P p (?w\<lparr>w_store := d2\<rparr>) = Some (Inr b', ?w\<lparr>w_store := d3, w_heap := h'\<rparr>)"
    using getFileData_spec [of "?w\<lparr>w_store := d2\<rparr>" p ?bs b' h'] get(2,3) D(2) b' by auto
  let ?r = "file_of P p ?fi"
  have r: "br_mode ?r = m" "\<bar>br_modTime ?r - t\<bar> \<le> 512" "initialSize ?r = int (length ?bs)" "getData ?r = Some (getFileData P p)"
    using stored_time [OF assms(9)] stored_size [of "int (length ?bs)"] assms(8) IsRegular_not_IsDir [OF src(2)]
    by (simp_all add: file_of_def NewBaseFileRecord_def info_of_def stored_mode)
  have other: "v_data (view d) s k = ?D s k" if "k \<noteq> p" for s k using set(4) that by (simp add: writes_def)
  have "content h' b' = ?bs" by (rule NewBytes_of_spec(5) [OF set(2) b'])
  then show ?thesis using set(1,3) wf get(1) r other data
    by (intro exI [of _ ?w] exI [of _ "?w\<lparr>w_store := d2\<rparr>"] exI [of _ "?w\<lparr>w_store := d3, w_heap := h'\<rparr>"] exI [of _ ?r] exI [of _ b'])
      (simp add: Base_Data_def)
qed

lemma listing:
  assumes "idle (view (w_store w))" "idb_wf (v_data (view (w_store w)))" "ValidPath p"
  shows "\<exists>names d. idb_getDirNames P p w = Some (Inr names, w\<lparr>w_store := d\<rparr>) \<and> idle (view d)
    \<and> v_data (view d) = v_data (view (w_store w)) \<and> distinct names
    \<and> set names = {e. ok_elem e \<and> v_data (view (w_store w)) infoStore (Join [p, e]) \<noteq> None}"
proof -
  let ?E = "{e. ok_elem e \<and> v_data (view (w_store w)) infoStore (Join [p, e]) \<noteq> None}"
  obtain ks d where ks: "idb_getDirNames P p w = Some (Inr (map Base ks), w\<lparr>w_store := d\<rparr>)" "distinct ks"
    "set ks = (\<lambda>e. Join [p, e]) ` ?E" "idle (view d)" "v_data (view d) = v_data (view (w_store w))"
    using getDirNames_spec [OF assms(1), of p] idb_wf_children [OF assms(2,3)] by metis
  have base: "Base (Join [p, e]) = e" if "ok_elem e" for e
    using assms(3) that by (auto elim!: ValidPathE simp: path_simps)
  have "set (map Base ks) = ?E" using base by (auto simp: ks(3) image_image)
  moreover have "inj_on Base (set ks)" using base by (auto simp: ks(3) intro!: inj_onI)
  then have "distinct (map Base ks)" using ks(2) by (simp add: distinct_map)
  ultimately show ?thesis using ks(1,4,5) by blast
qed

end


context indexed_db
begin

text \<open>\<open>Set\<close> with a nil record removes the file from both object stores; the root cannot be removed.\<close>

lemma Delete_spec:
  fixes H :: "('d, 'h) idb_handlers"
  assumes "idle (view (w_store w))"
  shows "\<exists>d. idb_store_Set P H p None w = Some (if p = idb_root then Some ErrNotImplemented else None, None, w\<lparr>w_store := d\<rparr>)
    \<and> idle (view d)
    \<and> v_data (view d) = (if p = idb_root then v_data (view (w_store w))
        else run_requests [(0, RDelete infoStore p), (0, RDelete contentsStore p)] (v_data (view (w_store w))))"
proof -
  let ?D = "v_data (view (w_store w))"
  obtain txn d where d: "idb_Transaction P TransactionReadWrite w = Some (bare_txn txn :: ('d, 'h) itxn, None, w\<lparr>w_store := d\<rparr>)"
    "view d = (view (w_store w))\<lparr>v_saved := ?D, v_txn := txn, v_scope := [infoStore, contentsStore], v_write := True\<rparr>"
    "running (view d) txn" "v_queue (view d) = []"
    by (rule Transaction_spec [OF assms, of TransactionReadWrite]) simp
  have wr: "writable d txn" using d(2,3) by (simp add: writable_def)
  have os: "ip_ObjectStore P txn infoStore d = None" "ip_ObjectStore P txn contentsStore d = None"
    using wr by (auto simp: writable_def intro!: object_store)
  define r t where "r = (if p = idb_root then Some ErrNotImplemented else None)"
    and "t = (bare_txn txn :: ('d, 'h) itxn)\<lparr>it_nextOp := 1, it_results := [(0, op_error 0 r)]\<rparr>"
  have "\<exists>d'. idb_Set P p None None (bare_txn txn :: ('d, 'h) itxn) (w\<lparr>w_store := d\<rparr>) = Some (0, t, None, w\<lparr>w_store := d'\<rparr>)
    \<and> running (view d') txn \<and> run_requests (v_queue (view d')) (v_data (view d'))
      = (if p = idb_root then ?D else run_requests [(0, RDelete infoStore p), (0, RDelete contentsStore p)] ?D)"
  proof (cases "p = idb_root")
    case True
    then show ?thesis using d(2-4) os
      by (intro exI [of _ d]) (simp add: idb_Set_def idb_newOp_def idb_set_def bare_txn_def t_def r_def idb_setResult_def)
  next
    case False
    obtain n1 d1 where d1: "on_idb (ip_Request P txn (RDelete infoStore p)) (w\<lparr>w_store := d\<rparr>) = (Inr n1, w\<lparr>w_store := d1\<rparr>)"
      "view d1 = (view d)\<lparr>v_queue := [(n1, RDelete infoStore p)]\<rparr>" "writable d1 txn"
      using put_request [OF wr, of "RDelete infoStore p" w] d(4) by auto
    obtain n2 d2 where d2: "on_idb (ip_Request P txn (RDelete contentsStore p)) (w\<lparr>w_store := d1\<rparr>) = (Inr n2, w\<lparr>w_store := d2\<rparr>)"
      "view d2 = (view d)\<lparr>v_queue := [(n1, RDelete infoStore p), (n2, RDelete contentsStore p)]\<rparr>" "writable d2 txn"
      using put_request [OF d1(3), of "RDelete contentsStore p" w] d1(2) by auto
    then show ?thesis using False os d1(1) d(2)
      by (intro exI [of _ d2])
        (simp add: idb_Set_def idb_newOp_def idb_set_def deleteRecord_def bare_txn_def t_def r_def idb_setResult_def writable_def)
  qed
  then obtain d1 where d1: "idb_Set P p None None (bare_txn txn :: ('d, 'h) itxn) (w\<lparr>w_store := d\<rparr>) = Some (0, t, None, w\<lparr>w_store := d1\<rparr>)"
    "running (view d1) txn" "run_requests (v_queue (view d1)) (v_data (view d1))
      = (if p = idb_root then ?D else run_requests [(0, RDelete infoStore p), (0, RDelete contentsStore p)] ?D)" by blast
  obtain d2 where d2: "idb_Commit P H t (w\<lparr>w_store := d1\<rparr>) = Some ([op_error 0 r], None, w\<lparr>w_store := d2\<rparr>)" "idle (view d2)"
    "v_data (view d2) = run_requests (v_queue (view d1)) (v_data (view d1))"
    using commit_plain [of "w\<lparr>w_store := d1\<rparr>" t H] d1(2) by (auto simp: t_def bare_txn_def)
  have "idb_store_Set P H p None w = Some (r, None, w\<lparr>w_store := d2\<rparr>)"
    using d(1) d1(1) d2(1) by (cases r) (simp_all add: idb_store_Set_def)
  then show ?thesis using d2(2,3) d1(3) unfolding r_def by (intro exI [of _ d2]) simp
qed

end

subsection \<open>Properties\<close>

definition no_handlers :: "('d, unit) idb_handlers" where
  "no_handlers = (\<lambda>_ t _ w. Some (None, t, w))"

definition demo_idb :: "idb_mem world" where
  "demo_idb = \<lparr>w_heap = demo_heap, w_clock = (\<lambda>n. int n), w_tick = 0,
     w_store = \<lparr>im_data =
         [((infoStore, ''.''), VInfo \<lparr>fi_ModTime = 0, fi_Mode = 2147484141, fi_Size = 0, fi_Parent = None\<rparr>),
          ((infoStore, ''a''), VInfo \<lparr>fi_ModTime = 0, fi_Mode = 2147484141, fi_Size = 0, fi_Parent = Some ''.''\<rparr>),
          ((infoStore, ''f''), VInfo \<lparr>fi_ModTime = 0, fi_Mode = 420, fi_Size = 1, fi_Parent = Some ''.''\<rparr>),
          ((contentsStore, ''f''), VBytes [7])],
       im_saved = [], im_queue = [], im_res = [], im_txn = 0, im_scope = [], im_write = False, im_aborted = False\<rparr>\<rparr>"

definition demo_new :: "(unit, idb_mem world) fileData" where
  "demo_new = \<lparr>fd_record = (runOnce_of (Some (BaseRec (NewBaseFileRecord 0 0 420 None None))))\<lparr>ro_data := Some (Inr 0)\<rparr>,
     modeOverride = None, modTimeOverride = unix_epoch + 2 ^ 60 + 1, fd_path = ''a/b''\<rparr>"

lemma demo_new_known: "\<exists>src'. idb_known demo_new 420 (Some 0) sz (unix_epoch + 2 ^ 60 + 1) src'"
proof -
  have "IsRegular 420" by code_simp
  then show ?thesis
    by (simp add: idb_known_def demo_new_def FD_Mode_def FD_Data_def FD_ModTime_def RO_Mode_def RO_Data_def
      runOnce_of_def NewBaseFileRecord_def FR_Mode_def unix_epoch_def)
qed

lemma demo_idb_facts:
  "idle (im_view (w_store demo_idb))" "idb_wf (v_data (im_view (w_store demo_idb)))" "w_heap demo_idb = demo_heap"
  "ValidPath ''a''" "ValidPath ''a/b''" "ValidPath ''f/b''" "Dir ''a/b'' = ''a''" "Dir ''f/b'' = ''f''"
  "dir_info (v_data (im_view (w_store demo_idb)) infoStore ''a'')"
  "\<not> dir_info (v_data (im_view (w_store demo_idb)) infoStore ''f'')" "\<not> top_level ''f/b''"
proof -
  show v: "ValidPath ''a''" "ValidPath ''a/b''" "ValidPath ''f/b''" and dir: "Dir ''a/b'' = ''a''" "Dir ''f/b'' = ''f''"
    by code_simp+
  have "ValidPath ''f''" "ValidPath ''.''" "Dir ''a'' = ''.''" "Dir ''f'' = ''.''" by code_simp+
  with v show "idb_wf (v_data (im_view (w_store demo_idb)))"
    by (simp add: idb_wf_def info_ok_def demo_idb_def im_view_def table_view_def idb_root_def split: if_splits)
  show "\<not> top_level ''f/b''" by (simp add: top_level_def dir idb_root_def)
  have "IsDir (of_int (js_Int 2147484141))" "\<not> IsDir (of_int (js_Int 420))" by code_simp+
  then show "dir_info (v_data (im_view (w_store demo_idb)) infoStore ''a'')"
    "\<not> dir_info (v_data (im_view (w_store demo_idb)) infoStore ''f'')"
    by (simp_all add: dir_info_def demo_idb_def im_view_def table_view_def)
qed (simp_all add: demo_idb_def im_view_def idle_def)



text \<open>
  C21: \<open>Set\<close> is atomic. A record whose parent is missing or is not a directory is refused with \<open>ErrNotDir\<close>, although the contents of the file were
  requested to be stored before the parent was looked up: the listener aborts the transaction, and the database is as it was.
\<close>

theorem idb_Set_no_parent:
  assumes "indexed_db P view" "idle (view (w_store w))" "idb_wf (v_data (view (w_store w)))" "wf_heap (w_heap w)"
    and "\<forall>b \<in> set_option data. live (w_heap w) b \<and> sz = int (length (content (w_heap w) b))" "idb_known src m data sz t src'"
    and "\<not> top_level p" "\<not> dir_info (v_data (view (w_store w)) infoStore (Dir p))"
  shows "\<exists>h d. idb_store_Set P H p (Some src) w = Some (Some ErrNotDir, Some src', w\<lparr>w_heap := h, w_store := d\<rparr>)
    \<and> extends (w_heap w) h \<and> idle (view d) \<and> v_data (view d) = v_data (view (w_store w))"
  using indexed_db.Set_spec [OF assms(1,2) idb_wf_typed [OF assms(3)] assms(4-6), of False p H] assms(7,8) by auto

theorem idb_Set_no_parent_witness:
  "\<exists>src' h d. idb_store_Set idb_mem_pkg no_handlers ''f/b'' (Some demo_new) demo_idb
      = Some (Some ErrNotDir, Some src', demo_idb\<lparr>w_heap := h, w_store := d\<rparr>)
    \<and> v_data (im_view d) = v_data (im_view (w_store demo_idb))"
proof -
  obtain src' where src: "idb_known demo_new 420 (Some 0) 3 (unix_epoch + 2 ^ 60 + 1) src'" using demo_new_known by blast
  have "wf_heap (w_heap demo_idb)"
    "\<forall>b \<in> set_option (Some 0). live (w_heap demo_idb) b \<and> 3 = int (length (content (w_heap demo_idb) b))"
    by (simp_all add: demo_idb_facts demo_heap_facts)
  then show ?thesis
    using idb_Set_no_parent [OF imem.indexed_db_axioms demo_idb_facts(1,2) _ _ src demo_idb_facts(11), of no_handlers] demo_idb_facts(8,10)
    by metis
qed

text \<open>
  C22: listing a directory of the IndexedDB store. The index on the parent gives the names of its entries, each once, and nothing else.
\<close>

theorem idb_ReadDirNames:
  assumes "indexed_db P view" "idle (view (w_store w))" "idb_wf (v_data (view (w_store w)))" "ValidPath p"
  shows "\<exists>names d. idb_getDirNames P p w = Some (Inr names, w\<lparr>w_store := d\<rparr>) \<and> idle (view d)
    \<and> v_data (view d) = v_data (view (w_store w)) \<and> distinct names
    \<and> set names = {e. ok_elem e \<and> v_data (view (w_store w)) infoStore (Join [p, e]) \<noteq> None}"
  using assms by (rule indexed_db.listing)

theorem idb_ReadDirNames_witness:
  "\<exists>names d. idb_getDirNames idb_mem_pkg ''a'' demo_idb = Some (Inr names, demo_idb\<lparr>w_store := d\<rparr>) \<and> distinct names
    \<and> set names = {e. ok_elem e \<and> v_data (im_view (w_store demo_idb)) infoStore (Join [''a'', e]) \<noteq> None}"
  using idb_ReadDirNames [OF imem.indexed_db_axioms demo_idb_facts(1,2,4)] by blast

end
