(* ===== verification/S3_Keys.thy ===== *)
theory S3_Keys
  imports FileTypes
begin

section \<open>Package \<open>examples/s3\<close>: object keys and metadata strings (\<open>store.go\<close>)\<close>

text \<open>
  The store keeps a file \<open>d/f\<close> as the object \<open>files/d/file-f\<close> and a directory \<open>d\<close> as the object \<open>files/d/dir-meta\<close>. This theory
  has the two conversions and the numbers of package \<open>strconv\<close> that the metadata is written with, and shows that the
  conversions invert each other on valid paths, so that no two entries share an object.
\<close>

subsection \<open>Keys\<close>

definition rootPath :: string where "rootPath = ''files''"

definition filePrefix :: string where "filePrefix = ''file-''"

definition dirMetaName :: string where "dirMetaName = ''dir-meta''"

definition fileToObjectKey :: "string \<Rightarrow> bool \<Rightarrow> string" where
  "fileToObjectKey p isDir =
     (let (dir, file) = path_Split p in
      if isDir then Join [rootPath, dir, file, dirMetaName]
      else Join [rootPath, dir, filePrefix @ file])"

text \<open>\<^const>\<open>None\<close> is the panic on a name that the store does not make.\<close>

definition objectKeyToFile :: "string \<Rightarrow> string option" where
  "objectKeyToFile p =
     (let p = TrimPrefix p (rootPath @ [slash]);
          p = (if HasSuffix p [slash] then Join [p, dirMetaName] else p);
          (dir, file) = path_Split (Clean p);
          dir = Clean dir
      in if HasPrefix file filePrefix then Some (Join [dir, TrimPrefix file filePrefix])
         else if file = dirMetaName then Some dir
         else None)"


subsection \<open>Keys as lists of elements\<close>

text \<open>The elements of a key, for the elements of a path.\<close>

definition key_elems :: "string list \<Rightarrow> bool \<Rightarrow> string list" where
  "key_elems es isDir =
     (if isDir then rootPath # es @ [dirMetaName]
      else if es = [] then [rootPath, filePrefix @ dot]
      else rootPath # butlast es @ [filePrefix @ last es])"

lemma utf8_valid_append: "utf8_run rs s \<Longrightarrow> utf8_valid t \<Longrightarrow> utf8_run rs (s @ t)"
  by (induction rs s rule: utf8_run.induct) (auto simp: utf8_valid_def split: option.splits)

lemma utf8_valid_names: "utf8_valid rootPath" "utf8_valid filePrefix" "utf8_valid dirMetaName"
  by code_simp+

lemma ok_elem_names [simp]: "ok_elem rootPath" "ok_elem dirMetaName"
  using utf8_valid_names by (simp_all add: ok_elem_def valid_elem_def rootPath_def dirMetaName_def)

lemma ok_elem_filePrefix [simp]: "slash \<notin> set e \<Longrightarrow> utf8_valid e \<Longrightarrow> ok_elem (filePrefix @ e)"
  using utf8_valid_append [of "[]" filePrefix e] utf8_valid_names(2)
  by (auto simp: ok_elem_def valid_elem_def filePrefix_def utf8_valid_def)

lemma key_elems_ok [simp]: "list_all ok_elem es \<Longrightarrow> list_all ok_elem (key_elems es d)"
  by (cases es rule: rev_cases) (auto simp: key_elems_def ok_elem_simps)

lemma path_Split_path_of:
  assumes "list_all ok_elem es" "ok_elem e"
  shows "path_Split (path_of (es @ [e])) = (if es = [] then [] else path_of es @ [slash], e)"
  using assms by (cases "es = []") (simp_all add: path_of_snoc path_Split_word path_Split_no_slash)

text \<open>Joining pieces that are empty, a dot or valid paths with or without a final slash.\<close>

lemma Join_pieces:
  assumes "list_all ok_elem as" "as \<noteq> []" "list_all ok_elem ds" "list_all ok_elem fs"
    and "dir = [] \<and> ds = [] \<or> dir = path_of ds @ [slash]"
  shows "Join [path_of as, dir, path_of fs] = path_of (as @ ds @ fs)"
    and "list_all ok_elem gs \<Longrightarrow> Join [path_of as, dir, path_of fs, path_of gs] = path_of (as @ ds @ fs @ gs)"
proof -
  have s: "foldl (clean_step False) st (split_slash (path_of xs)) = rev xs @ st" if "list_all ok_elem xs" for xs st
    using that by (simp add: split_slash_path_of foldl_clean_ok)
  have d: "foldl (clean_step False) st (split_slash dir) = rev ds @ st" for st
    using assms(5)
  proof
    assume "dir = path_of ds @ [slash]"
    moreover have "split_slash (path_of ds @ [slash]) = split_slash (path_of ds) @ [[]]"
      using split_slash_split [of "path_of ds" "[]"] by simp
    ultimately show ?thesis using assms(3) s by simp
  qed simp
  show "Join [path_of as, dir, path_of fs] = path_of (as @ ds @ fs)"
    using assms s d by (simp add: Join_def Clean_unrooted split_slash_split)
  show "Join [path_of as, dir, path_of fs, path_of gs] = path_of (as @ ds @ fs @ gs)" if "list_all ok_elem gs"
    using assms that s d by (simp add: Join_def Clean_unrooted split_slash_split)
qed

lemma fileToObjectKey_eq:
  assumes "list_all ok_elem es"
  shows "fileToObjectKey (path_of es) d = path_of (key_elems es d)"
proof (cases es rule: rev_cases)
  case Nil
  show ?thesis by (cases d) (simp_all add: Nil key_elems_def, code_simp+)
next
  case (snoc ds e)
  have ok: "list_all ok_elem ds" "ok_elem e" using assms snoc by auto
  let ?dir = "if ds = [] then [] else path_of ds @ [slash]"
  have dir: "?dir = [] \<and> ds = [] \<or> ?dir = path_of ds @ [slash]" by simp
  have sp: "path_Split (path_of es) = (?dir, e)" using path_Split_path_of [OF ok] snoc by simp
  have f: "ok_elem (filePrefix @ e)" using ok(2) by (simp add: ok_elem_simps)
  show ?thesis
    using Join_pieces(1) [of "[rootPath]" ds "[filePrefix @ e]" ?dir]
      Join_pieces(2) [of "[rootPath]" ds "[e]" ?dir "[dirMetaName]"] ok f dir
    unfolding fileToObjectKey_def sp by (simp add: key_elems_def snoc)
qed

lemma HasPrefix_append [simp]: "HasPrefix (p @ s) p" "TrimPrefix (p @ s) p = s"
  by (simp_all add: HasPrefix_def TrimPrefix_def)

lemma not_HasSuffix_slash:
  assumes "list_all ok_elem es" shows "\<not> HasSuffix (path_of es) [slash]"
proof (cases es rule: rev_cases)
  case Nil
  show ?thesis unfolding Nil path_of_Nil by code_simp
next
  case (snoc ds e)
  obtain u c where u: "e = u @ [c]" using assms snoc by (cases e rule: rev_cases) auto
  have c: "c \<noteq> slash" using assms snoc u by (auto dest: ok_elem_no_slash)
  have "\<exists>v. path_of es = v @ [c]" using u by (cases "ds = []") (auto simp: snoc path_of_snoc)
  with c show ?thesis by (auto simp: HasSuffix_def)
qed

lemma rootPath_prefix: "es \<noteq> [] \<Longrightarrow> path_of (rootPath # es) = (rootPath @ [slash]) @ path_of es"
  using path_of_append [of "[rootPath]" es] by simp

lemma TrimPrefix_root:
  "es \<noteq> [] \<Longrightarrow> TrimPrefix (path_of (rootPath # es)) (rootPath @ [slash]) = path_of es"
  "es \<noteq> [] \<Longrightarrow> TrimPrefix (path_of (rootPath # es) @ s) (rootPath @ [slash]) = path_of es @ s"
  by (simp_all add: rootPath_prefix TrimPrefix_def HasPrefix_def)

lemma dirMetaName_not_file [simp]: "\<not> HasPrefix dirMetaName filePrefix"
  by code_simp

lemma objectKeyToFile_split:
  assumes "list_all ok_elem (ds @ [f])"
  shows "objectKeyToFile (path_of (rootPath # ds @ [f])) =
    (if HasPrefix f filePrefix then Some (Join [path_of ds, TrimPrefix f filePrefix])
     else if f = dirMetaName then Some (path_of ds) else None)"
proof -
  have ok: "list_all ok_elem ds" "ok_elem f" using assms by auto
  have "Clean (if ds = [] then [] else path_of ds @ [slash]) = path_of ds"
    using ok(1) Clean_trailing_slash by (cases "ds = []") (simp, code_simp, simp)
  then show ?thesis
    unfolding objectKeyToFile_def using TrimPrefix_root(1) [of "ds @ [f]"] not_HasSuffix_slash [OF assms] path_Split_path_of [OF ok] Clean_path_of [OF assms]
    by (simp add: Let_def)
qed

text \<open>What the listing of a directory returns for a directory below it: its path with a final slash.\<close>

lemma objectKeyToFile_prefix:
  assumes "list_all ok_elem es" "es \<noteq> []"
  shows "objectKeyToFile (path_of (rootPath # es) @ [slash]) = Some (path_of es)"
proof -
  have s: "HasSuffix (path_of es @ [slash]) [slash]" by (simp add: HasSuffix_def)
  have j: "Join [path_of es @ [slash], dirMetaName] = path_of (es @ [dirMetaName])"
    using Join_pieces(1) [of "[dirMetaName]" "[]" es "[]"] assms
      split_slash_split [of "path_of es" "[]"] split_slash_split [of "path_of es @ [slash]" dirMetaName]
    by (simp add: Join_def Clean_unrooted split_slash_word split_slash_path_of foldl_clean_ok)
  have ok: "list_all ok_elem (es @ [dirMetaName])" using assms by simp
  show ?thesis
    using path_Split_path_of [OF assms(1), of dirMetaName] assms Clean_trailing_slash [OF assms(1)] Clean_path_of [OF ok]
    unfolding objectKeyToFile_def
    by (simp add: Let_def s j TrimPrefix_root)
qed

lemma objectKeyToFile_key:
  assumes "list_all ok_elem es"
  shows "objectKeyToFile (path_of (key_elems es d)) = Some (path_of es)"
proof (cases d)
  case True
  then show ?thesis using objectKeyToFile_split [of es dirMetaName] assms by (simp add: key_elems_def)
next
  case False
  show ?thesis
  proof (cases es rule: rev_cases)
    case Nil
    have "objectKeyToFile (path_of [rootPath, filePrefix @ dot]) = Some dot" by code_simp
    with False Nil show ?thesis by (simp add: key_elems_def)
  next
    case (snoc ds e)
    then have ok: "list_all ok_elem ds" "ok_elem e" "ok_elem (filePrefix @ e)"
      using assms by (auto simp: ok_elem_simps)
    then show ?thesis
      using objectKeyToFile_split [of ds "filePrefix @ e"] False snoc
      by (simp add: key_elems_def path_simps)
  qed
qed

lemma key_elems_kind:
  assumes "list_all ok_elem es" shows "last (key_elems es d) = dirMetaName \<longleftrightarrow> d"
  by (auto simp: key_elems_def dirMetaName_def filePrefix_def)

lemma fileToObjectKey_inject:
  assumes "ValidPath p" "ValidPath q"
  shows "fileToObjectKey p d = fileToObjectKey q d' \<longleftrightarrow> p = q \<and> d = d'"
proof -
  obtain es fs where e: "list_all ok_elem es" "p = path_of es" and f: "list_all ok_elem fs" "q = path_of fs"
    using assms by (metis ValidPathE)
  have "p = q \<and> d = d'" if "path_of (key_elems es d) = path_of (key_elems fs d')"
  proof -
    have "Some p = Some q" using objectKeyToFile_key e f that by metis
    moreover have "key_elems es d = key_elems fs d'" using that e f by (simp add: path_of_inject)
    then have "d = d'" using key_elems_kind [OF e(1), of d] key_elems_kind [OF f(1), of d'] by simp
    ultimately show ?thesis by simp
  qed
  then show ?thesis using e f path_of_inject [OF e(1) f(1)] by (auto simp: fileToObjectKey_eq)
qed

text \<open>
  C26: the keys of the S3 store. The key of a valid path is converted back to the path, for files and for directories, and different
  paths or kinds have different keys.
\<close>

theorem s3_key_roundtrip:
  assumes "ValidPath p" "ValidPath q"
  shows "objectKeyToFile (fileToObjectKey p isDir) = Some p
    \<and> (fileToObjectKey p isDir = fileToObjectKey q isDir' \<longleftrightarrow> p = q \<and> isDir = isDir')"
  using assms fileToObjectKey_inject [OF assms] by (auto elim!: ValidPathE simp: fileToObjectKey_eq objectKeyToFile_key)

theorem s3_key_roundtrip_witness:
  "fileToObjectKey ''a/file-b'' True = ''files/a/file-b/dir-meta''
   \<and> objectKeyToFile ''files/a/file-b/dir-meta'' = Some ''a/file-b''
   \<and> fileToObjectKey ''a/file-b'' True \<noteq> fileToObjectKey ''a/b'' False"
proof -
  have v: "ValidPath ''a/file-b''" "ValidPath ''a/b''" by code_simp+
  have "fileToObjectKey ''a/file-b'' True = ''files/a/file-b/dir-meta''" by code_simp
  then show ?thesis using s3_key_roundtrip [OF v, of True False] by simp
qed

subsection \<open>Package \<open>strconv\<close>: unsigned numbers in a base up to ten\<close>

function FormatUint :: "nat \<Rightarrow> nat \<Rightarrow> string" where
  "FormatUint n base =
     (if n < base \<or> base < 2 then [char_of (48 + n)]
      else FormatUint (n div base) base @ [char_of (48 + n mod base)])"
  by auto
termination by (relation "measure fst") auto

declare FormatUint.simps [simp del]

definition ErrSyntax :: err where "ErrSyntax = ErrorString ''invalid syntax''"

definition ErrRange :: err where "ErrRange = ErrorString ''value out of range''"

definition digit_val :: "char \<Rightarrow> nat option" where
  "digit_val c = (if 48 \<le> (of_char c :: nat) \<and> (of_char c :: nat) \<le> 57 then Some (of_char c - 48) else None)"

fun parse_digits :: "nat \<Rightarrow> nat \<Rightarrow> string \<Rightarrow> err + nat" where
  "parse_digits base n [] = Inr n"
| "parse_digits base n (c # cs) =
     (case digit_val c of
        None \<Rightarrow> Inl ErrSyntax
      | Some d \<Rightarrow>
          if d \<ge> base then Inl ErrSyntax
          else if n * base + d \<ge> 2 ^ 64 then Inl ErrRange
          else parse_digits base (n * base + d) cs)"

definition ParseUint :: "string \<Rightarrow> nat \<Rightarrow> err + nat" where
  "ParseUint s base = (if s = [] then Inl ErrSyntax else parse_digits base 0 s)"

lemma parse_digits_append:
  "parse_digits base n (s @ t) = (case parse_digits base n s of Inl e \<Rightarrow> Inl e | Inr m \<Rightarrow> parse_digits base m t)"
  by (induction base n s rule: parse_digits.induct) (auto split: option.splits)

lemma digit_val_char [simp]: "d < 10 \<Longrightarrow> digit_val (char_of (48 + d :: nat)) = Some d"
  by (simp add: digit_val_def)

lemma parse_FormatUint:
  assumes "2 \<le> base" "base \<le> 10" "n < 2 ^ 64"
  shows "parse_digits base 0 (FormatUint n base) = Inr n"
  using assms
proof (induction n base rule: FormatUint.induct)
  case (1 n base)
  show ?case
  proof (cases "n < base")
    case True
    then show ?thesis using 1 by (simp add: FormatUint.simps [of n base])
  next
    case False
    have "n div base \<le> n" by simp
    then have "n div base < 2 ^ 64" using "1.prems" by linarith
    then have "parse_digits base 0 (FormatUint (n div base) base) = Inr (n div base)"
      using 1 False by simp
    moreover have lt: "n mod base < base" using "1.prems" by simp
    moreover have "n mod base < 10" using lt "1.prems" by linarith
    moreover have "n div base * base + n mod base = n" by simp
    ultimately show ?thesis
      using False "1.prems" lt
      by (simp add: FormatUint.simps [of n base] parse_digits_append not_le del: mod_less_divisor)
  qed
qed

lemma FormatUint_neq_Nil [simp]: "FormatUint n base \<noteq> []"
  by (simp add: FormatUint.simps [of n base])

text \<open>Modes and other numbers of 64 bits survive being written and read.\<close>

lemma ParseUint_FormatUint:
  "2 \<le> base \<Longrightarrow> base \<le> 10 \<Longrightarrow> n < 2 ^ 64 \<Longrightarrow> ParseUint (FormatUint n base) base = Inr n"
  by (simp add: ParseUint_def parse_FormatUint)

end
