(* ===== verification/S3_Store.thy ===== *)
theory S3_Store
  imports S3_Keys KV_FS
begin

section \<open>Package \<open>examples/s3\<close>: a store in an S3 bucket (\<open>store.go\<close>, \<open>fs.go\<close>)\<close>

text \<open>
  The S3 client (package \<open>minio\<close>) is not part of the repository: it is the parameter \<open>minio\<close>, a record of the calls
  that the store makes, over a type \<open>'s\<close> of states of the service and a type \<open>'o\<close> of open objects. Times are written and
  read with \<open>time.RFC3339Nano\<close>; the two conversions are components of the record too, since their result depends on the
  time zone. The locale \<open>s3_service\<close> states the documented behaviour: objects by key, listing with a delimiter, strong
  consistency. \<open>bucket_client\<close> is a service that satisfies it.
\<close>

subsection \<open>The client\<close>

type_synonym metadata = "string \<rightharpoonup> string"

record ObjectInfo =
  oi_Key :: string
  oi_Size :: int
  oi_LastModified :: time
  oi_UserMetadata :: metadata

record ('o, 's) minio =
  mc_StatObject :: "string \<Rightarrow> 's \<Rightarrow> (err + ObjectInfo) \<times> 's"
  mc_ListObjects :: "string \<Rightarrow> 's \<Rightarrow> (err + ObjectInfo) list \<times> 's"
  mc_GetObject :: "string \<Rightarrow> 's \<Rightarrow> (err + 'o) \<times> 's"
  mc_PutObject :: "string \<Rightarrow> byte list \<Rightarrow> int \<Rightarrow> metadata \<Rightarrow> 's \<Rightarrow> err option \<times> 's"
  mc_RemoveObject :: "string \<Rightarrow> 's \<Rightarrow> err option \<times> 's"
  mo_Stat :: "'o \<Rightarrow> 's \<Rightarrow> (err + ObjectInfo) \<times> 's"
  mo_ReadAt :: "'o \<Rightarrow> nat \<Rightarrow> int \<Rightarrow> 's \<Rightarrow> (byte list \<times> err option) \<times> 's"
  mo_Close :: "'o \<Rightarrow> 's \<Rightarrow> err option \<times> 's"
  mc_ErrorCode :: "err \<Rightarrow> string"
  time_Format :: "time \<Rightarrow> string"
  time_Parse :: "string \<Rightarrow> err + time"

definition on_s3 :: "('s \<Rightarrow> 'a \<times> 's) \<Rightarrow> 's world \<Rightarrow> 'a \<times> 's world" where
  "on_s3 f w = (let (x, s) = f (w_store w) in (x, w\<lparr>w_store := s\<rparr>))"

lemma on_s3_eq: "f (w_store w) = (x, s) \<Longrightarrow> on_s3 f w = (x, w\<lparr>w_store := s\<rparr>)"
  by (simp add: on_s3_def)


subsection \<open>\<open>store.go\<close>\<close>

definition modeMetadataKey :: string where "modeMetadataKey = ''Mode''"

definition modTimeMetadataKey :: string where "modTimeMetadataKey = ''Modtime''"

definition octalSize :: nat where "octalSize = 8"

definition wrapS3Err :: "('o, 's) minio \<Rightarrow> err \<Rightarrow> err" where
  "wrapS3Err C e = (if mc_ErrorCode C e = ''NoSuchKey'' then ErrNotExist else e)"

definition s3_stat :: "('o, 's) minio \<Rightarrow> string \<Rightarrow> 's world \<Rightarrow> (err + ObjectInfo) \<times> 's world" where
  "s3_stat C key w =
     (let (info, w) = on_s3 (mc_StatObject C key) w in (map_sum (wrapS3Err C) id info, w))"

text \<open>The names of the objects that a listing returns, in order; \<^const>\<open>None\<close> is the panic of \<open>objectKeyToFile\<close>.\<close>

fun list_names ::
  "('o, 's) minio \<Rightarrow> string \<Rightarrow> (err + ObjectInfo) list \<Rightarrow> string list \<Rightarrow> (err + string list) option" where
  "list_names C key [] names = Some (Inr names)"
| "list_names C key (Inl e # infos) names = Some (Inl (wrapS3Err C e))"
| "list_names C key (Inr info # infos) names =
     (if oi_Key info \<noteq> key then do {
        filePath \<leftarrow> objectKeyToFile (oi_Key info);
        list_names C key infos (names @ [Base filePath])
      } else list_names C key infos names)"

definition getDirNamesFunc ::
  "('o, 's) minio \<Rightarrow> string \<Rightarrow> 's world \<Rightarrow> ((err + string list) \<times> 's world) option" where
  "getDirNamesFunc C key w =
     (let (prefix, _) = path_Split (Clean key);
          (infos, w) = on_s3 (mc_ListObjects C prefix) w
      in map_option (\<lambda>r. (r, w)) (list_names C key infos []))"

text \<open>The body of the getter and the deferred \<open>Close\<close>, whose error is returned only if there is no other.\<close>

definition getDataFunc ::
  "('o, 's) minio \<Rightarrow> string \<Rightarrow> 's world \<Rightarrow> ((err + bref) \<times> 's world) option" where
  "getDataFunc C key w =
     (case on_s3 (mc_GetObject C key) w of
        (Inl e, w) \<Rightarrow> Some (Inl (wrapS3Err C e), w)
      | (Inr obj, w) \<Rightarrow> do {
          (r, w) \<leftarrow>
            (case on_s3 (mo_Stat C obj) w of
               (Inl e, w) \<Rightarrow> Some (Inl (wrapS3Err C e), w)
             | (Inr info, w) \<Rightarrow>
                 if oi_Size info < 0 then None
                 else let ((bs, e), w) = on_s3 (mo_ReadAt C obj (nat (oi_Size info)) 0) w;
                          e = (if e = Some EOF then None else e)
                      in case e of
                           Some e \<Rightarrow> Some (Inl (wrapS3Err C e), w)
                         | None \<Rightarrow>
                             let (b, h) = NewBytes_of (go_copy (replicate (nat (oi_Size info)) 0) bs) (w_heap w)
                             in Some (Inr b, w\<lparr>w_heap := h\<rparr>));
          let (e, w) = on_s3 (mo_Close C obj) w;
          Some (case r of
                  Inl e1 \<Rightarrow> Inl e1
                | Inr b \<Rightarrow> (case e of None \<Rightarrow> Inr b | Some e1 \<Rightarrow> Inl e1), w)
        })"

definition s3_Get ::
  "('o, 's) minio \<Rightarrow> string \<Rightarrow> 's world \<Rightarrow> ((err + (unit, 's world) FileRecord) \<times> 's world) option" where
  "s3_Get C name w =
     (let key = fileToObjectKey name True;
          (info, w) = s3_stat C key w;
          (key, info, w) =
            (case info of
               Inl e \<Rightarrow> if errors_Is e ErrNotExist
                        then let key = fileToObjectKey name False; (info, w) = s3_stat C key w in (key, info, w)
                        else (key, info, w)
             | Inr _ \<Rightarrow> (key, info, w))
      in case info of
           Inl e \<Rightarrow> Some (Inl e, w)
         | Inr info \<Rightarrow>
             (case (case oi_UserMetadata info modTimeMetadataKey of
                      None \<Rightarrow> Inr (oi_LastModified info)
                    | Some modTimeStr \<Rightarrow> time_Parse C modTimeStr) of
                Inl e \<Rightarrow> Some (Inl e, w)
              | Inr modTime \<Rightarrow>
                  (case oi_UserMetadata info modeMetadataKey of
                     None \<Rightarrow> Some (Inl ErrInvalid, w)
                   | Some modeStr \<Rightarrow>
                       (case ParseUint modeStr octalSize of
                          Inl e \<Rightarrow> Some (Inl e, w)
                        | Inr modeInt \<Rightarrow>
                            (let mode = of_nat modeInt :: file_mode in
                             Some (Inr (BaseRec (NewBaseFileRecord (oi_Size info) modTime mode
                               (if IsDir mode then None else Some (getDataFunc C key))
                               (if IsDir mode then Some (getDirNamesFunc C key) else None))), w))))))"

definition s3_meta :: "('o, 's) minio \<Rightarrow> file_mode \<Rightarrow> time \<Rightarrow> metadata" where
  "s3_meta C m t =
     [modeMetadataKey \<mapsto> FormatUint (unat m) octalSize, modTimeMetadataKey \<mapsto> time_Format C t]"

text \<open>The methods of the records: all are \<open>BaseFileRecord\<close>s.\<close>

definition s3_rec_ops :: "(unit, 's world) rec_ops" where
  "s3_rec_ops = \<lparr>r_Data = \<lambda>_ _. None, r_ReadDirNames = \<lambda>_ _. None, r_Size = \<lambda>_ _. 0, r_Mode = \<lambda>_. 0, r_ModTime = \<lambda>_. 0\<rparr>"

definition s3_Set ::
  "('o, 's) minio \<Rightarrow> string \<Rightarrow> (unit, 's world) fileData option \<Rightarrow> 's world \<Rightarrow>
   (err option \<times> (unit, 's world) fileData option \<times> 's world) option" where
  "s3_Set C name record w =
     (case record of
        None \<Rightarrow> do {
          (r, w) \<leftarrow> s3_Get C name w;
          (case r of
             Inl e \<Rightarrow> Some (if errors_Is e ErrNotExist then None else Some e, None, w)
           | Inr getRecord \<Rightarrow>
               (let isDir = IsDir (FR_Mode s3_rec_ops getRecord);
                    key = fileToObjectKey name isDir;
                    key = (if isDir then Dir key else key);
                    (e, w) = on_s3 (mc_RemoveObject C key) w
                in Some (e, None, w)))
        }
      | Some src \<Rightarrow> do {
          (m, src) \<leftarrow> FD_Mode s3_rec_ops src;
          let key = fileToObjectKey name (IsDir m);
          (e, w) \<leftarrow> (if \<not> IsDir m then do {
              (r, w) \<leftarrow> s3_Get C name w;
              Some (case r of
                      Inl e \<Rightarrow> if errors_Is e ErrNotExist then None else Some e
                    | Inr existingRecord \<Rightarrow>
                        if IsDir (FR_Mode s3_rec_ops existingRecord) then Some ErrIsDir else None, w)
            } else Some (None, w));
          (case e of
             Some e \<Rightarrow> Some (Some e, Some src, w)
           | None \<Rightarrow> do {
               (d, src, w) \<leftarrow> FD_Data s3_rec_ops src w;
               (case d of
                  Inl e \<Rightarrow> Some (Some e, Some src, w)
                | Inr b \<Rightarrow> do {
                    (data, w) \<leftarrow> on_heap (Bytes_Bytes b) w;
                    let len = Bytes_Len (w_heap w) b;
                    (t, src) \<leftarrow> FD_ModTime s3_rec_ops src;
                    let (e, w) = on_s3 (mc_PutObject C key (slice_get (w_heap w) data) len (s3_meta C m t)) w;
                    Some (e, Some src, w)
                  })
             })
        })"

definition s3_store :: "('o, 's) minio \<Rightarrow> (unit, 's world) plain_store" where
  "s3_store C = \<lparr>r_Data = r_Data s3_rec_ops, r_ReadDirNames = r_ReadDirNames s3_rec_ops, r_Size = r_Size s3_rec_ops,
     r_Mode = r_Mode (s3_rec_ops :: (unit, 's world) rec_ops),
     r_ModTime = r_ModTime (s3_rec_ops :: (unit, 's world) rec_ops), ps_Get = s3_Get C, ps_Set = s3_Set C\<rparr>"

subsection \<open>\<open>fs.go\<close>\<close>

definition s3_ops :: "('o, 's) minio \<Rightarrow> (unit, 's world, (unit, 's world) unsafeSerialTransaction) store_ops" where
  "s3_ops C = serial_ops (s3_store C)"

definition s3_NewFS where "s3_NewFS C = kv_NewFS (s3_ops C)"

definition s3_Open where "s3_Open C = kv_Open (s3_ops C)"

definition s3_OpenFile where "s3_OpenFile C = kv_OpenFile (s3_ops C)"

definition s3_Mkdir where "s3_Mkdir C = kv_Mkdir (s3_ops C)"

definition s3_MkdirAll where "s3_MkdirAll C = kv_MkdirAll (s3_ops C)"

definition s3_Remove where "s3_Remove C = kv_Remove (s3_ops C)"

definition s3_Rename where "s3_Rename C = kv_Rename (s3_ops C)"

definition s3_Stat where "s3_Stat C = kv_Stat (s3_ops C)"

definition s3_Chmod where "s3_Chmod C = kv_Chmod (s3_ops C)"

definition s3_Chtimes where "s3_Chtimes C = kv_Chtimes (s3_ops C)"


subsection \<open>The service, as S3 documents it\<close>

text \<open>What a listing with a delimiter returns below a prefix: the objects with no further slash, and the common prefixes.\<close>

definition listed :: "string set \<Rightarrow> string \<Rightarrow> string set" where
  "listed K pre = {k \<in> K. \<exists>r. k = pre @ r \<and> slash \<notin> set r}
     \<union> {k. \<exists>r t. k = pre @ r @ [slash] \<and> slash \<notin> set r \<and> pre @ r @ slash # t \<in> K}"

text \<open>Times that \<open>RFC3339\<close> can write in every time zone: from the zero time to the last day but one of the year 9999.\<close>

definition rfc3339_time :: "time \<Rightarrow> bool" where
  "rfc3339_time t \<longleftrightarrow> 0 \<le> t \<and> t < 315537811200 * 10 ^ 9"

text \<open>The objects the store makes: of valid paths, with the mode and time of the entry, and a directory's mode exactly on directories.\<close>

definition bucket_ok ::
  "('o, 's) minio \<Rightarrow> ('s \<Rightarrow> string \<Rightarrow> (byte list \<times> metadata \<times> time) option) \<Rightarrow> 's \<Rightarrow> bool" where
  "bucket_ok C objs s \<longleftrightarrow> (\<forall>k d md u. objs s k = Some (d, md, u) \<longrightarrow>
     (\<exists>p isDir m t. ValidPath p \<and> k = fileToObjectKey p isDir \<and> md = s3_meta C m t \<and> rfc3339_time t
        \<and> IsDir m = isDir))"

locale s3_service =
  fixes C :: "('o, 's) minio"
    and objs :: "'s \<Rightarrow> string \<Rightarrow> (byte list \<times> metadata \<times> time) option"
    and obj_key :: "'o \<Rightarrow> string"
  assumes stat: "objs s k = Some (d, m, t) \<Longrightarrow>
      mc_StatObject C k s = (Inr \<lparr>oi_Key = k, oi_Size = int (length d), oi_LastModified = t, oi_UserMetadata = m\<rparr>, s)"
    and stat_none: "objs s k = None \<Longrightarrow> \<exists>e. mc_StatObject C k s = (Inl e, s) \<and> mc_ErrorCode C e = ''NoSuchKey''"
    and get: "objs s k \<noteq> None \<Longrightarrow> \<exists>obj s'. mc_GetObject C k s = (Inr obj, s') \<and> obj_key obj = k \<and> objs s' = objs s"
    and obj_stat: "objs s (obj_key obj) = Some (d, m, t) \<Longrightarrow>
      \<exists>info s'. mo_Stat C obj s = (Inr info, s') \<and> oi_Size info = int (length d) \<and> objs s' = objs s"
    and obj_read: "objs s (obj_key obj) = Some (d, m, t) \<Longrightarrow>
      \<exists>e s'. mo_ReadAt C obj (length d) 0 s = ((d, e), s') \<and> (e = None \<or> e = Some EOF) \<and> objs s' = objs s"
    and obj_close: "\<exists>s'. mo_Close C obj s = (None, s') \<and> objs s' = objs s"
    and put: "n = int (length d) \<Longrightarrow>
      \<exists>t s'. mc_PutObject C k d n m s = (None, s') \<and> objs s' = (objs s)(k \<mapsto> (d, m, t))"
    and remove: "\<exists>s'. mc_RemoveObject C k s = (None, s') \<and> objs s' = (objs s)(k := None)"
    and list: "\<exists>infos. mc_ListObjects C pre s = (map Inr infos, s) \<and> distinct (map oi_Key infos)
        \<and> set (map oi_Key infos) = listed (dom (objs s)) pre"
    and time: "rfc3339_time t \<Longrightarrow> time_Parse C (time_Format C t) = Inr t"

lemma parse_mode: "ParseUint (FormatUint (unat (m :: file_mode)) octalSize) octalSize = Inr (unat m)"
proof -
  have "unat m < 2 ^ LENGTH(32)" by (rule unsigned_less)
  then have "unat m < 2 ^ 64" by simp
  then show ?thesis by (simp add: octalSize_def ParseUint_FormatUint)
qed

lemma s3_meta_sel [simp]:
  "s3_meta C m t modeMetadataKey = Some (FormatUint (unat m) octalSize)"
  "s3_meta C m t modTimeMetadataKey = Some (time_Format C t)"
  by (simp_all add: s3_meta_def modeMetadataKey_def modTimeMetadataKey_def)

context s3_service
begin

lemma stat_spec:
  "objs (w_store w) k = Some (d, m, t) \<Longrightarrow> s3_stat C k w =
     (Inr \<lparr>oi_Key = k, oi_Size = int (length d), oi_LastModified = t, oi_UserMetadata = m\<rparr>, w)"
  "objs (w_store w) k = None \<Longrightarrow> s3_stat C k w = (Inl ErrNotExist, w)"
  using stat [of "w_store w" k d m t] stat_none [of "w_store w" k]
  by (auto simp: s3_stat_def on_s3_eq wrapS3Err_def)

text \<open>\<open>Get\<close> finds the directory or the file of that name.\<close>

lemma Get_none:
  "objs (w_store w) (fileToObjectKey p True) = None \<Longrightarrow> objs (w_store w) (fileToObjectKey p False) = None \<Longrightarrow>
   s3_Get C p w = Some (Inl ErrNotExist, w)"
  by (simp add: s3_Get_def stat_spec)

lemma Get_dir:
  assumes "objs (w_store w) (fileToObjectKey p True) = Some (d, s3_meta C m t, u)" "rfc3339_time t" "IsDir m"
  shows "s3_Get C p w = Some (Inr (BaseRec (NewBaseFileRecord (int (length d)) t m None
    (Some (getDirNamesFunc C (fileToObjectKey p True))))), w)"
  using assms by (simp add: s3_Get_def stat_spec time parse_mode)

lemma Get_file:
  assumes "objs (w_store w) (fileToObjectKey p True) = None"
    and "objs (w_store w) (fileToObjectKey p False) = Some (d, s3_meta C m t, u)" "rfc3339_time t" "\<not> IsDir m"
  shows "s3_Get C p w = Some (Inr (BaseRec (NewBaseFileRecord (int (length d)) t m
    (Some (getDataFunc C (fileToObjectKey p False))) None)), w)"
  using assms by (simp add: s3_Get_def stat_spec time parse_mode Let_def)

lemma bucket_okE:
  assumes "bucket_ok C objs s" "ValidPath p" "objs s (fileToObjectKey p isDir) = Some (d, md, u)"
  obtains m t where "md = s3_meta C m t" "rfc3339_time t" "IsDir m = isDir"
proof -
  obtain q q' m t where q: "ValidPath q" "fileToObjectKey p isDir = fileToObjectKey q q'" "md = s3_meta C m t"
    "rfc3339_time t" "IsDir m = q'"
    using assms(1,3) unfolding bucket_ok_def by metis
  then have "isDir = q'" using fileToObjectKey_inject [OF assms(2)] by metis
  with q that show thesis by blast
qed

text \<open>The data of a file are read back in full, whatever the service says about the end of the object.\<close>

lemma getData_spec:
  assumes "objs (w_store w) k = Some (d, md, u)" "wf_heap (w_heap w)"
  obtains b w' where "getDataFunc C k w = Some (Inr b, w')" "wf_heap (w_heap w')" "extends (w_heap w) (w_heap w')"
    "live (w_heap w') b" "content (w_heap w') b = d" "objs (w_store w') = objs (w_store w)"
proof -
  obtain obj s1 where o: "mc_GetObject C k (w_store w) = (Inr obj, s1)" "obj_key obj = k" "objs s1 = objs (w_store w)"
    using get [of "w_store w" k] assms(1) by auto
  obtain info s2 where i: "mo_Stat C obj s1 = (Inr info, s2)" "oi_Size info = int (length d)" "objs s2 = objs s1"
    using obj_stat [of s1 obj d md u] assms(1) o by auto
  obtain e s3 where r: "mo_ReadAt C obj (length d) 0 s2 = ((d, e), s3)" "e = None \<or> e = Some EOF" "objs s3 = objs s2"
    using obj_read [of s2 obj d md u] assms(1) o i by auto
  obtain s4 where c: "mo_Close C obj s3 = (None, s4)" "objs s4 = objs s3" using obj_close by blast
  obtain b h where n: "NewBytes_of d (w_heap w) = (b, h)" by fastforce
  have "go_copy (replicate (length d) 0) d = d" by (simp add: go_copy_def)
  then have "getDataFunc C k w = Some (Inr b, w\<lparr>w_heap := h, w_store := s4\<rparr>)"
    using o i r c n by (auto simp: getDataFunc_def on_s3_def Let_def)
  moreover note NewBytes_of_spec(1,2,4,5) [OF assms(2) n]
  ultimately show thesis using that [of b "w\<lparr>w_heap := h, w_store := s4\<rparr>"] o i r c by simp
qed

end

text \<open>A record whose mode, data and time are known without asking the store.\<close>

definition s3_known ::
  "(unit, 's world) fileData \<Rightarrow> file_mode \<Rightarrow> bref \<Rightarrow> time \<Rightarrow> (unit, 's world) fileData \<Rightarrow> bool" where
  "s3_known src m b t src' \<longleftrightarrow> (\<exists>src1 src2. FD_Mode s3_rec_ops src = Some (m, src1)
     \<and> (\<forall>w. FD_Data s3_rec_ops src1 w = Some (Inr b, src2, w)) \<and> FD_ModTime s3_rec_ops src2 = Some (t, src'))"

lemma Dir_key:
  assumes "list_all ok_elem es" shows "Dir (fileToObjectKey (path_of es) True) = path_of (rootPath # es)"
  using Dir_snoc [of "rootPath # es" dirMetaName] assms by (simp add: fileToObjectKey_eq key_elems_def)

context s3_service
begin

lemma bucket_ok_put:
  assumes "bucket_ok C objs s" "ValidPath p" "rfc3339_time t" "IsDir m = isDir"
    and "objs s' = (objs s)(fileToObjectKey p isDir \<mapsto> (d, s3_meta C m t, u))"
  shows "bucket_ok C objs s'"
  using assms unfolding bucket_ok_def by (auto simp del: fun_upd_apply simp: fun_upd_def split: if_splits)

lemma Set_spec:
  assumes ok: "bucket_ok C objs (w_store w)" and wf: "wf_heap (w_heap w)" "live (w_heap w) b" and p: "ValidPath p"
    and src: "s3_known src m b t src'" and t: "rfc3339_time t"
    and free: "IsDir m \<or> objs (w_store w) (fileToObjectKey p True) = None"
  obtains w' u where "s3_Set C p (Some src) w = Some (None, Some src', w')"
    "objs (w_store w') = (objs (w_store w))(fileToObjectKey p (IsDir m) \<mapsto> (content (w_heap w) b, s3_meta C m t, u))"
    "bucket_ok C objs (w_store w')" "wf_heap (w_heap w')" "extends (w_heap w) (w_heap w')"
proof -
  obtain src1 src2 where s: "FD_Mode s3_rec_ops src = Some (m, src1)"
    "\<And>w. FD_Data s3_rec_ops src1 w = Some (Inr b, src2, w)" "FD_ModTime s3_rec_ops src2 = Some (t, src')"
    using src by (auto simp: s3_known_def)
  let ?d = "content (w_heap w) b" and ?k = "fileToObjectKey p (IsDir m)"
  obtain buf h where B: "Bytes_Bytes b (w_heap w) = Some (buf, h)" "wf_heap h" "extends (w_heap w) h" "slice_get h buf = ?d"
    using Bytes_Bytes_eq [OF wf] .
  have len: "Bytes_Len h b = int (length ?d)"
    using Bytes_Len_content [OF B(2) extends_live [OF B(3) wf(2)]] extends_content [OF B(3) wf(2)] by simp
  obtain u s' where P: "mc_PutObject C ?k ?d (int (length ?d)) (s3_meta C m t) (w_store w) = (None, s')"
    "objs s' = (objs (w_store w))(?k \<mapsto> (?d, s3_meta C m t, u))"
    using put by blast
  have pre: "(if \<not> IsDir m then do {
        (r, w) \<leftarrow> s3_Get C p w;
        Some (case r of Inl e \<Rightarrow> if errors_Is e ErrNotExist then None else Some e
          | Inr e \<Rightarrow> if IsDir (FR_Mode s3_rec_ops e) then Some ErrIsDir else None, w) }
      else Some (None, w)) = Some (None, w)"
  proof (cases "IsDir m")
    case False
    with free have n: "objs (w_store w) (fileToObjectKey p True) = None" by simp
    show ?thesis
    proof (cases "objs (w_store w) (fileToObjectKey p False)")
      case None
      then show ?thesis using Get_none [OF n None] False by simp
    next
      case (Some x)
      then obtain d md u where x: "objs (w_store w) (fileToObjectKey p False) = Some (d, md, u)" by (cases x) auto
      from bucket_okE [OF ok p x] obtain m' t' where m': "md = s3_meta C m' t'" "rfc3339_time t'" "\<not> IsDir m'" by auto
      show ?thesis
        using Get_file [OF n x [unfolded m'(1)] m'(2,3)] m'(3) False by (simp add: FR_Mode_def NewBaseFileRecord_def)
    qed
  qed simp
  have "s3_Set C p (Some src) w = Some (None, Some src', w\<lparr>w_heap := h, w_store := s'\<rparr>)"
    unfolding s3_Set_def using s B(1,4) len P(1) by (simp add: pre on_s3_def Let_def)
  moreover have "bucket_ok C objs s'" by (rule bucket_ok_put [OF ok p t refl P(2)])
  ultimately show thesis using that [of "w\<lparr>w_heap := h, w_store := s'\<rparr>" u] P(2) B by simp
qed

text \<open>A file is not put where a directory is.\<close>

lemma Set_on_dir:
  assumes "bucket_ok C objs (w_store w)" "ValidPath p" "objs (w_store w) (fileToObjectKey p True) \<noteq> None"
    and "FD_Mode s3_rec_ops src = Some (m, src')" "\<not> IsDir m"
  shows "s3_Set C p (Some src) w = Some (Some ErrIsDir, Some src', w)"
proof -
  obtain d md u where x: "objs (w_store w) (fileToObjectKey p True) = Some (d, md, u)" using assms(3) by auto
  from bucket_okE [OF assms(1,2) x] obtain m' t' where m': "md = s3_meta C m' t'" "rfc3339_time t'" "IsDir m'" by auto
  show ?thesis
    unfolding s3_Set_def using Get_dir [OF x [unfolded m'(1)] m'(2,3)] m'(3) assms(4,5)
    by (simp add: FR_Mode_def NewBaseFileRecord_def)
qed

lemma Remove_file:
  assumes "bucket_ok C objs (w_store w)" "ValidPath p" "objs (w_store w) (fileToObjectKey p True) = None"
  obtains s' where "s3_Set C p None w = Some (None, None, w\<lparr>w_store := s'\<rparr>)"
    "objs s' = (objs (w_store w))(fileToObjectKey p False := None)"
proof (cases "objs (w_store w) (fileToObjectKey p False)")
  case None
  have "objs (w_store w) = (objs (w_store w))(fileToObjectKey p False := None)" using None by auto
  then show thesis using that [of "w_store w"] Get_none [OF assms(3) None] by (simp add: s3_Set_def)
next
  case (Some x)
  then obtain d md u where x: "objs (w_store w) (fileToObjectKey p False) = Some (d, md, u)" by (cases x) auto
  from bucket_okE [OF assms(1,2) x] obtain m' t' where m': "md = s3_meta C m' t'" "rfc3339_time t'" "\<not> IsDir m'" by auto
  obtain s' where "mc_RemoveObject C (fileToObjectKey p False) (w_store w) = (None, s')"
    "objs s' = (objs (w_store w))(fileToObjectKey p False := None)" using remove by blast
  then show thesis
    using that [of s'] Get_file [OF assms(3) x [unfolded m'(1)] m'(2,3)] m'(3)
    by (simp add: s3_Set_def FR_Mode_def NewBaseFileRecord_def on_s3_def)
qed

lemma Remove_dir:
  assumes "bucket_ok C objs (w_store w)" "ValidPath p" "objs (w_store w) (fileToObjectKey p True) \<noteq> None"
  obtains s' where "s3_Set C p None w = Some (None, None, w\<lparr>w_store := s'\<rparr>)"
    "objs s' = (objs (w_store w))(Dir (fileToObjectKey p True) := None)"
proof -
  obtain d md u where x: "objs (w_store w) (fileToObjectKey p True) = Some (d, md, u)" using assms(3) by auto
  from bucket_okE [OF assms(1,2) x] obtain m' t' where m': "md = s3_meta C m' t'" "rfc3339_time t'" "IsDir m'" by auto
  obtain s' where "mc_RemoveObject C (Dir (fileToObjectKey p True)) (w_store w) = (None, s')"
    "objs s' = (objs (w_store w))(Dir (fileToObjectKey p True) := None)" using remove by blast
  then show thesis
    using that [of s'] Get_dir [OF x [unfolded m'(1)] m'(2,3)] m'(3)
    by (simp add: s3_Set_def FR_Mode_def NewBaseFileRecord_def on_s3_def)
qed

end

subsection \<open>Listing a directory\<close>

text \<open>The objects form a tree: no path is both a file and a directory, the root is no file, and what exists has a parent.\<close>

definition bucket_tree :: "('s \<Rightarrow> string \<Rightarrow> (byte list \<times> metadata \<times> time) option) \<Rightarrow> 's \<Rightarrow> bool" where
  "bucket_tree objs s \<longleftrightarrow> objs s (fileToObjectKey dot False) = None \<and>
     (\<forall>p. ValidPath p \<longrightarrow> objs s (fileToObjectKey p True) = None \<or> objs s (fileToObjectKey p False) = None) \<and>
     (\<forall>p e d. ValidPath p \<longrightarrow> ok_elem e \<longrightarrow> objs s (fileToObjectKey (Join [p, e]) d) \<noteq> None \<longrightarrow>
        objs s (fileToObjectKey p True) \<noteq> None)"

lemma list_names_Inr:
  assumes "\<And>i. i \<in> set infos \<Longrightarrow> oi_Key i \<noteq> key \<Longrightarrow> objectKeyToFile (oi_Key i) \<noteq> None"
  shows "list_names C key (map Inr infos) names =
    Some (Inr (names @ map (\<lambda>k. Base (the (objectKeyToFile k))) (filter (\<lambda>k. k \<noteq> key) (map oi_Key infos))))"
  using assms
proof (induction infos arbitrary: names)
  case (Cons a infos)
  show ?case
  proof (cases "oi_Key a = key")
    case False
    then obtain y where "objectKeyToFile (oi_Key a) = Some y" using Cons.prems [of a] by auto
    with False Cons show ?thesis by simp
  qed (use Cons in simp)
qed simp

lemma bucket_tree_up:
  assumes "bucket_tree objs s" "list_all ok_elem (as @ bs)" "bs \<noteq> []"
    and "objs s (fileToObjectKey (path_of (as @ bs)) d) \<noteq> None"
  shows "objs s (fileToObjectKey (path_of as) True) \<noteq> None"
  using assms(2-)
proof (induction bs arbitrary: d rule: rev_induct)
  case (snoc b bs)
  have ok: "list_all ok_elem (as @ bs)" "ok_elem b" using snoc.prems(1) by auto
  have "objs s (fileToObjectKey (Join [path_of (as @ bs), b]) d) \<noteq> None"
    using snoc.prems(3) Join_elem [OF ok] by simp
  then have "objs s (fileToObjectKey (path_of (as @ bs)) True) \<noteq> None"
    using assms(1) ok ValidPath_path_of [OF ok(1)] unfolding bucket_tree_def by blast
  with snoc.IH ok show ?case by (cases "bs = []") auto
qed simp

lemma butlast_key_elems:
  "butlast (key_elems qs d) = rootPath # (if d then qs else butlast qs)"
  by (auto simp: key_elems_def butlast_append)

text \<open>The keys below the prefix of the directory with elements \<open>es\<close>, by the element that follows.\<close>

definition listed_as ::
  "('s \<Rightarrow> string \<Rightarrow> (byte list \<times> metadata \<times> time) option) \<Rightarrow> 's \<Rightarrow> string list \<Rightarrow> string \<Rightarrow> string \<Rightarrow> bool \<Rightarrow> bool" where
  "listed_as objs s es k e isDir \<longleftrightarrow> ok_elem e \<and> objs s (fileToObjectKey (path_of (es @ [e])) isDir) \<noteq> None \<and>
     k = (if isDir then path_of (rootPath # es @ [e]) @ [slash] else path_of (rootPath # es @ [filePrefix @ e]))"

lemma split_key_prefix:
  assumes "list_all ok_elem es"
  shows "split_slash ((path_of (rootPath # es) @ [slash]) @ r) = rootPath # es @ split_slash r"
  using split_slash_split [of "path_of (rootPath # es)" r] split_slash_path_of [of "rootPath # es"] assms by simp

lemma split_key:
  assumes "list_all ok_elem qs" shows "split_slash (path_of (key_elems qs d)) = key_elems qs d"
  using split_slash_path_of [OF key_elems_ok [OF assms, of d]] by (auto simp: key_elems_def split: if_splits)

context s3_service
begin

lemma listed_cases:
  assumes ok: "bucket_ok C objs s" and tree: "bucket_tree objs s" and es: "list_all ok_elem es"
    and k: "k \<in> listed (dom (objs s)) (path_of (rootPath # es) @ [slash])" "k \<noteq> fileToObjectKey (path_of es) True"
  obtains e isDir where "listed_as objs s es k e isDir"
proof -
  let ?pre = "path_of (rootPath # es) @ [slash]"
  have keyE: "\<exists>qs d. list_all ok_elem qs \<and> x = path_of (key_elems qs d) \<and> objs s (fileToObjectKey (path_of qs) d) \<noteq> None"
    if "x \<in> dom (objs s)" for x
  proof -
    from that ok obtain q d where q: "ValidPath q" "x = fileToObjectKey q d"
      unfolding bucket_ok_def by (metis domIff option.exhaust prod_cases3)
    then show ?thesis using that by (metis ValidPathE domIff fileToObjectKey_eq)
  qed
  show thesis
  proof (cases "\<exists>r. k = ?pre @ r \<and> slash \<notin> set r \<and> k \<in> dom (objs s)")
    case True
    then obtain r qs d where r: "k = ?pre @ r" "slash \<notin> set r" and q: "list_all ok_elem qs"
      "k = path_of (key_elems qs d)" "objs s (fileToObjectKey (path_of qs) d) \<noteq> None" using keyE by metis
    have eq: "key_elems qs d = rootPath # es @ [r]"
      using split_key [OF q(1), of d] split_key_prefix [OF es, of r] r q(2) split_slash_word by metis
    have nd: "\<not> d"
    proof
      assume d
      then have "qs = es" using eq by (simp add: key_elems_def)
      with \<open>d\<close> k(2) q(1,2) show False by (simp add: fileToObjectKey_eq)
    qed
    moreover have "qs \<noteq> []" using q(3) nd tree by (auto simp: bucket_tree_def)
    ultimately have "es = butlast qs" "r = filePrefix @ last qs" using eq by (auto simp: key_elems_def)
    then have "qs = es @ [last qs]" "k = path_of (rootPath # es @ [filePrefix @ last qs])"
      using \<open>qs \<noteq> []\<close> q(2) eq by simp_all
    then show thesis using that [of "last qs" False] q nd \<open>qs \<noteq> []\<close>
      by (simp add: listed_as_def list_all_iff)
  next
    case False
    then obtain r t where r: "k = ?pre @ r @ [slash]" "slash \<notin> set r" "?pre @ r @ slash # t \<in> dom (objs s)"
      using k(1) unfolding listed_def by blast
    obtain qs d where q: "list_all ok_elem qs" "?pre @ r @ slash # t = path_of (key_elems qs d)"
      "objs s (fileToObjectKey (path_of qs) d) \<noteq> None" using keyE [OF r(3)] by blast
    have "split_slash (r @ slash # t) = r # split_slash t"
      using split_slash_split [of r t] split_slash_word [OF r(2)] by simp
    then have eq: "key_elems qs d = rootPath # es @ r # split_slash t"
      using split_key [OF q(1), of d] split_key_prefix [OF es, of "r @ slash # t"] q(2) by simp
    have "butlast (key_elems qs d) = rootPath # es @ r # butlast (split_slash t)"
      unfolding eq by (simp add: butlast_append)
    then have pre: "(if d then qs else butlast qs) = (es @ [r]) @ butlast (split_slash t)"
      by (simp add: butlast_key_elems)
    have ok': "list_all ok_elem (if d then qs else butlast qs)"
      using q(1) by (auto simp: list_all_iff dest: in_set_butlastD)
    then have okr: "ok_elem r" "list_all ok_elem (es @ [r])" unfolding pre using es by auto
    have "objs s (fileToObjectKey (path_of (es @ [r])) True) \<noteq> None"
    proof (cases "d \<and> butlast (split_slash t) = []")
      case True
      then show ?thesis using q(3) pre by simp
    next
      case False
      obtain bs where bs: "qs = (es @ [r]) @ bs" "bs \<noteq> []"
      proof (cases d)
        case True
        with that pre False show thesis by simp
      next
        case False
        then have "qs \<noteq> []" using pre by auto
        then have "qs = butlast qs @ [last qs]" by simp
        then have "qs = (es @ [r]) @ butlast (split_slash t) @ [last qs]" using pre False by simp
        then show thesis by (rule that) simp
      qed
      show ?thesis using bucket_tree_up [OF tree, of "es @ [r]" bs d] q(1,3) bs by simp
    qed
    moreover have "k = path_of (rootPath # es @ [r]) @ [slash]"
      using r(1) path_of_snoc [of "rootPath # es" r] by simp
    ultimately show thesis using that [of r True] okr by (simp add: listed_as_def)
  qed
qed

end

lemma listed_as_name:
  assumes "list_all ok_elem es" "listed_as objs s es k e isDir"
  shows "objectKeyToFile k = Some (path_of (es @ [e]))" "Base (the (objectKeyToFile k)) = e"
proof -
  have e: "ok_elem e" "list_all ok_elem (es @ [e])" using assms by (simp_all add: listed_as_def)
  show *: "objectKeyToFile k = Some (path_of (es @ [e]))"
  proof (cases isDir)
    case True
    then show ?thesis using objectKeyToFile_prefix [of "es @ [e]"] e assms(2) by (simp add: listed_as_def)
  next
    case False
    have "k = path_of (key_elems (es @ [e]) False)" using False assms(2) by (simp add: listed_as_def key_elems_def)
    then show ?thesis using objectKeyToFile_key [OF e(2), of False] by simp
  qed
  show "Base (the (objectKeyToFile k)) = e" using Base_snoc [OF assms(1) e(1)] by (simp add: *)
qed

context s3_service
begin

lemma listed_intro:
  assumes "list_all ok_elem es" "ok_elem e" "objs s (fileToObjectKey (path_of (es @ [e])) isDir) \<noteq> None"
  shows "\<exists>k. k \<in> listed (dom (objs s)) (path_of (rootPath # es) @ [slash])
    \<and> k \<noteq> fileToObjectKey (path_of es) True \<and> listed_as objs s es k e isDir"
proof -
  let ?pre = "path_of (rootPath # es) @ [slash]"
  have ok: "list_all ok_elem (es @ [e])" using assms by simp
  have last: "path_of (rootPath # xs @ [f]) = path_of (rootPath # xs) @ slash # f" for xs f
    using path_of_snoc [of "rootPath # xs" f] by simp
  have key: "fileToObjectKey (path_of es) True = path_of (rootPath # es @ [dirMetaName])"
    using assms(1) by (simp add: fileToObjectKey_eq key_elems_def)
  show ?thesis
  proof (cases isDir)
    case True
    let ?k = "path_of (rootPath # es @ [e]) @ [slash]"
    have "fileToObjectKey (path_of (es @ [e])) True = ?pre @ e @ slash # dirMetaName"
      using ok last [of es e] last [of "es @ [e]" dirMetaName] by (simp add: fileToObjectKey_eq key_elems_def)
    with assms(3) True have "?pre @ e @ slash # dirMetaName \<in> dom (objs s)" by (simp add: domIff)
    moreover have "?k = ?pre @ e @ [slash]" by (simp add: last)
    ultimately have "?k \<in> listed (dom (objs s)) ?pre" using assms(2) unfolding listed_def by auto
    moreover have "last ?k \<noteq> last (fileToObjectKey (path_of es) True)"
      unfolding key last by (simp add: dirMetaName_def)
    then have "?k \<noteq> fileToObjectKey (path_of es) True" by metis
    ultimately show ?thesis using assms True by (auto simp: listed_as_def)
  next
    case False
    let ?k = "path_of (rootPath # es @ [filePrefix @ e])"
    have k: "fileToObjectKey (path_of (es @ [e])) False = ?k" using ok by (simp add: fileToObjectKey_eq key_elems_def)
    have "?k = ?pre @ filePrefix @ e" by (simp add: last)
    moreover have "slash \<notin> set (filePrefix @ e)" using assms(2) by (simp add: filePrefix_def)
    ultimately have "?k \<in> listed (dom (objs s)) ?pre"
      using assms(3) False k unfolding listed_def by (auto simp: domIff)
    moreover have "?k \<noteq> fileToObjectKey (path_of es) True"
      unfolding key last by (simp add: filePrefix_def dirMetaName_def)
    ultimately show ?thesis using assms False k by (auto simp: listed_as_def)
  qed
qed

text \<open>The names of a directory: each entry once.\<close>

lemma names_spec:
  assumes ok: "bucket_ok C objs (w_store w)" and tree: "bucket_tree objs (w_store w)" and p: "ValidPath p"
  obtains names where "getDirNamesFunc C (fileToObjectKey p True) w = Some (Inr names, w)" "distinct names"
    "set names = {e. ok_elem e \<and> (\<exists>d. objs (w_store w) (fileToObjectKey (Join [p, e]) d) \<noteq> None)}"
proof -
  obtain es where es: "list_all ok_elem es" "p = path_of es" using p by (rule ValidPathE)
  let ?s = "w_store w" and ?key = "fileToObjectKey p True" and ?pre = "path_of (rootPath # es) @ [slash]"
  have keyp: "?key = path_of ((rootPath # es) @ [dirMetaName])" using es by (simp add: fileToObjectKey_eq key_elems_def)
  have pk: "list_all ok_elem ((rootPath # es) @ [dirMetaName])" using es by simp
  have sp: "path_Split (Clean ?key) = (?pre, dirMetaName)"
    unfolding keyp Clean_path_of [OF pk] using path_Split_path_of [of "rootPath # es" dirMetaName] es by simp
  obtain infos where l: "mc_ListObjects C ?pre ?s = (map Inr infos, ?s)" "distinct (map oi_Key infos)"
    "set (map oi_Key infos) = listed (dom (objs ?s)) ?pre" using list by blast
  define ks where "ks = filter (\<lambda>k. k \<noteq> ?key) (map oi_Key infos)"
  define nm where "nm = (\<lambda>k. Base (the (objectKeyToFile k)))"
  have ks: "distinct ks" "set ks = listed (dom (objs ?s)) ?pre - {?key}"
    using l(2,3) by (auto simp: ks_def)
  have as: "\<exists>e d. listed_as objs ?s es k e d" if "k \<in> set ks" for k
    using listed_cases [OF ok tree es(1), of k] that ks(2) es(2) by (metis Diff_iff insertI1)
  have conv: "objectKeyToFile (oi_Key i) \<noteq> None" if "i \<in> set infos" "oi_Key i \<noteq> ?key" for i
    using as [of "oi_Key i"] that listed_as_name(1) [OF es(1)] by (fastforce simp: ks_def)
  have "list_names C ?key (map Inr infos) [] = Some (Inr ([] @ map nm ks))"
    unfolding nm_def ks_def by (rule list_names_Inr [OF conv])
  then have "getDirNamesFunc C ?key w = Some (Inr (map nm ks), w)"
    using l(1) by (simp add: getDirNamesFunc_def sp on_s3_def ks_def nm_def)
  moreover have "inj_on nm (set ks)"
  proof (rule inj_onI)
    fix k k' assume kk: "k \<in> set ks" "k' \<in> set ks" "nm k = nm k'"
    obtain e d e' d' where a: "listed_as objs ?s es k e d" "listed_as objs ?s es k' e' d'" using as kk by metis
    have "e = e'" using listed_as_name(2) [OF es(1)] a kk(3) unfolding nm_def by metis
    moreover have "d = d'"
    proof (rule ccontr)
      assume "d \<noteq> d'"
      then have "objs ?s (fileToObjectKey (path_of (es @ [e])) True) \<noteq> None"
        "objs ?s (fileToObjectKey (path_of (es @ [e])) False) \<noteq> None"
        using a \<open>e = e'\<close> by (cases d; cases d'; simp add: listed_as_def)+
      moreover have "ValidPath (path_of (es @ [e]))" using es(1) a by (simp add: listed_as_def)
      ultimately show False
        using tree [unfolded bucket_tree_def, THEN conjunct2, THEN conjunct1, rule_format, of "path_of (es @ [e])"] by auto
    qed
    ultimately show "k = k'" using a by (simp add: listed_as_def)
  qed
  then have "distinct (map nm ks)" using ks(1) by (simp add: distinct_map)
  moreover have "set (map nm ks) = {e. ok_elem e \<and> (\<exists>d. objs ?s (fileToObjectKey (Join [p, e]) d) \<noteq> None)}"
  proof (intro set_eqI iffI)
    fix e assume "e \<in> set (map nm ks)"
    then obtain k where k: "k \<in> set ks" "e = nm k" by auto
    from as [OF k(1)] obtain e' d where a: "listed_as objs ?s es k e' d" by blast
    have "e = e'" using listed_as_name(2) [OF es(1) a] k(2) by (simp add: nm_def)
    with a show "e \<in> {e. ok_elem e \<and> (\<exists>d. objs ?s (fileToObjectKey (Join [p, e]) d) \<noteq> None)}"
      using Join_elem [OF es(1)] es(2) by (auto simp: listed_as_def)
  next
    fix e assume "e \<in> {e. ok_elem e \<and> (\<exists>d. objs ?s (fileToObjectKey (Join [p, e]) d) \<noteq> None)}"
    then obtain d where e: "ok_elem e" "objs ?s (fileToObjectKey (Join [p, e]) d) \<noteq> None" by blast
    then have "objs ?s (fileToObjectKey (path_of (es @ [e])) d) \<noteq> None" using Join_elem [OF es(1) e(1)] es(2) by simp
    from listed_intro [OF es(1) e(1) this] obtain k where "k \<in> set ks" "listed_as objs ?s es k e d"
      using ks(2) es(2) by auto
    then show "e \<in> set (map nm ks)" using listed_as_name(2) [OF es(1)] by (fastforce simp: nm_def)
  qed
  ultimately show thesis using that by blast
qed

end

subsection \<open>A service in memory\<close>

text \<open>Objects in a list; times as seconds and nanoseconds in decimal.\<close>

type_synonym bucket = "(string \<times> (byte list \<times> metadata \<times> time)) list"

definition NoSuchKey :: err where "NoSuchKey = ErrorString ''NoSuchKey''"

definition bucket_info :: "bucket \<Rightarrow> string \<Rightarrow> err + ObjectInfo" where
  "bucket_info s k = (case map_of s k of
     None \<Rightarrow> Inl NoSuchKey
   | Some (d, m, t) \<Rightarrow> Inr \<lparr>oi_Key = k, oi_Size = int (length d), oi_LastModified = t, oi_UserMetadata = m\<rparr>)"

definition list_key :: "string \<Rightarrow> string \<Rightarrow> string" where
  "list_key pre k =
     (let r = drop (length pre) k in
      if slash \<in> set r then pre @ takeWhile (\<lambda>c. c \<noteq> slash) r @ [slash] else k)"

definition list_keys :: "string \<Rightarrow> string list \<Rightarrow> string list" where
  "list_keys pre ks = remdups (map (list_key pre) (filter (\<lambda>k. HasPrefix k pre) ks))"

definition dec_Format :: "time \<Rightarrow> string" where
  "dec_Format t = FormatUint (nat (t div 10 ^ 9)) 10 @ CHR ''.'' # FormatUint (nat (t mod 10 ^ 9)) 10"

definition dec_Parse :: "string \<Rightarrow> err + time" where
  "dec_Parse s =
     (case (ParseUint (takeWhile (\<lambda>c. c \<noteq> CHR ''.'') s) 10, ParseUint (tl (dropWhile (\<lambda>c. c \<noteq> CHR ''.'') s)) 10) of
        (Inr a, Inr b) \<Rightarrow> Inr (int a * 10 ^ 9 + int b)
      | _ \<Rightarrow> Inl ErrSyntax)"

definition bucket_client :: "(string, bucket) minio" where
  "bucket_client = \<lparr>
     mc_StatObject = (\<lambda>k s. (bucket_info s k, s)),
     mc_ListObjects = (\<lambda>pre s. (map (\<lambda>k. Inr \<lparr>oi_Key = k, oi_Size = 0, oi_LastModified = 0, oi_UserMetadata = Map.empty\<rparr>)
        (list_keys pre (map fst s)), s)),
     mc_GetObject = (\<lambda>k s. (Inr k, s)),
     mc_PutObject = (\<lambda>k d n m s. (None, AList.update k (d, m, 0) s)),
     mc_RemoveObject = (\<lambda>k s. (None, AList.delete k s)),
     mo_Stat = (\<lambda>k s. (bucket_info s k, s)),
     mo_ReadAt = (\<lambda>k n off s. (case map_of s k of None \<Rightarrow> ([], Some NoSuchKey)
        | Some (d, m, t) \<Rightarrow> (take n (drop (nat off) d), Some EOF), s)),
     mo_Close = (\<lambda>_ s. (None, s)),
     mc_ErrorCode = (\<lambda>e. if e = NoSuchKey then ''NoSuchKey'' else []),
     time_Format = dec_Format, time_Parse = dec_Parse\<rparr>"

lemma takeWhile_until: "x \<notin> set r \<Longrightarrow> takeWhile (\<lambda>c. c \<noteq> x) (r @ x # t) = r"
  by (induction r) auto

lemma list_keys_listed: "set (list_keys pre ks) = listed (set ks) pre"
proof (intro set_eqI iffI)
  fix x assume "x \<in> set (list_keys pre ks)"
  then obtain k where k: "k \<in> set ks" "HasPrefix k pre" "x = list_key pre k" by (auto simp: list_keys_def)
  obtain r where r: "k = pre @ r" using k(2) append_take_drop_id [of "length pre" k] by (metis HasPrefix_def)
  show "x \<in> listed (set ks) pre"
  proof (cases "slash \<in> set r")
    case True
    obtain r1 r2 where sp: "r = r1 @ slash # r2" "slash \<notin> set r1" using split_list_first [OF True] by blast
    have "takeWhile (\<lambda>c. c \<noteq> slash) r = r1" unfolding sp(1) by (rule takeWhile_until [OF sp(2)])
    then have "x = pre @ r1 @ [slash]" using k(3) r True by (simp add: list_key_def)
    then show ?thesis using k(1) r sp by (auto simp: listed_def)
  next
    case False
    then show ?thesis using k r by (simp add: list_key_def listed_def)
  qed
next
  fix x assume "x \<in> listed (set ks) pre"
  then consider (obj) r where "x \<in> set ks" "x = pre @ r" "slash \<notin> set r"
    | (sub) r t where "x = pre @ r @ [slash]" "slash \<notin> set r" "pre @ r @ slash # t \<in> set ks"
    by (auto simp: listed_def)
  then show "x \<in> set (list_keys pre ks)"
  proof cases
    case obj
    then have "list_key pre x = x" by (simp add: list_key_def)
    with obj show ?thesis by (force simp: list_keys_def)
  next
    case sub
    have "takeWhile (\<lambda>c. c \<noteq> slash) (r @ slash # t) = r" by (rule takeWhile_until [OF sub(2)])
    then have "list_key pre (pre @ r @ slash # t) = x" using sub(1) by (simp add: list_key_def)
    with sub(3) show ?thesis by (force simp: list_keys_def)
  qed
qed

lemma FormatUint_digits: "base \<le> 10 \<Longrightarrow> 2 \<le> base \<Longrightarrow> c \<in> set (FormatUint n base) \<Longrightarrow> c \<noteq> CHR ''.''"
proof (induction n base rule: FormatUint.induct)
  case (1 n base)
  have dig: "char_of (48 + d :: nat) \<noteq> CHR ''.''" if "d < 10" for d
  proof
    assume "char_of (48 + d) = CHR ''.''"
    then have "(of_char (char_of (48 + d)) :: nat) = of_char (CHR ''.'')" by simp
    with that show False by simp
  qed
  have m: "n mod base < 10"
  proof -
    have "n mod base < base" using 1(3) by simp
    then show ?thesis using 1(2) by linarith
  qed
  show ?case
  proof (cases "n < base")
    case True
    have "FormatUint n base = [char_of (48 + n)]" using True by (subst FormatUint.simps) simp
    then have "c = char_of (48 + n)" using 1(4) by simp
    moreover have "n < 10" using True 1(2) by linarith
    ultimately show ?thesis using dig by metis
  next
    case False
    then have "FormatUint n base = FormatUint (n div base) base @ [char_of (48 + n mod base)]"
      using 1(3) by (subst FormatUint.simps) simp
    then have "c \<in> set (FormatUint (n div base) base) \<or> c = char_of (48 + n mod base)" using 1(4) by auto
    then show ?thesis
    proof
      assume "c \<in> set (FormatUint (n div base) base)"
      then show ?thesis using 1(1) [OF _ 1(2,3)] 1(3) False by simp
    next
      assume "c = char_of (48 + n mod base)"
      then show ?thesis using dig [OF m] by metis
    qed
  qed
qed

lemma dec_Parse_Format: "rfc3339_time t \<Longrightarrow> dec_Parse (dec_Format t) = Inr t"
proof -
  assume t: "rfc3339_time t"
  let ?a = "nat (t div 10 ^ 9)" and ?b = "nat (t mod 10 ^ 9)"
  have ab: "?a < 2 ^ 64" "?b < 2 ^ 64"
    using t by (simp_all add: rfc3339_time_def nat_less_iff) linarith
  have a: "\<And>c. c \<in> set (FormatUint ?a 10) \<Longrightarrow> c \<noteq> CHR ''.''" using FormatUint_digits [of 10] by simp
  have "takeWhile (\<lambda>c. c \<noteq> CHR ''.'') (dec_Format t) = FormatUint ?a 10"
    "dropWhile (\<lambda>c. c \<noteq> CHR ''.'') (dec_Format t) = CHR ''.'' # FormatUint ?b 10"
    using a by (simp_all add: dec_Format_def takeWhile_append2 dropWhile_append2)
  moreover have "int ?a * 10 ^ 9 + int ?b = t" using t by (simp add: rfc3339_time_def)
  ultimately show ?thesis using ab by (simp add: dec_Parse_def ParseUint_FormatUint)
qed

interpretation mem_s3: s3_service bucket_client map_of id
proof (unfold_locales, goal_cases)
  case (7 n d k m s)
  then show ?case by (auto simp: bucket_client_def)
next
  case (9 pre s)
  show ?case
    by (rule exI [of _ "map (\<lambda>k. \<lparr>oi_Key = k, oi_Size = 0, oi_LastModified = 0, oi_UserMetadata = Map.empty\<rparr>)
        (list_keys pre (map fst s))"])
      (simp add: bucket_client_def comp_def list_keys_listed dom_map_of_conv_image_fst image_image,
       simp add: list_keys_def)
qed (auto simp: bucket_client_def bucket_info_def NoSuchKey_def dec_Parse_Format)

subsection \<open>Properties\<close>

context s3_service
begin

lemma Set_then_Get:
  assumes ok: "bucket_ok C objs (w_store w)" and wf: "wf_heap (w_heap w)" "live (w_heap w) b" and p: "ValidPath p"
    and src: "s3_known src m b t src'" and t: "rfc3339_time t" and m: "\<not> IsDir m"
    and free: "objs (w_store w) (fileToObjectKey p True) = None"
  shows "\<exists>w' r b' w''. s3_Set C p (Some src) w = Some (None, Some src', w') \<and> bucket_ok C objs (w_store w')
    \<and> s3_Get C p w' = Some (Inr (BaseRec r), w')
    \<and> br_mode r = m \<and> br_modTime r = t \<and> initialSize r = int (length (content (w_heap w) b))
    \<and> Base_Data r w' = Some (Inr b', w'') \<and> content (w_heap w'') b' = content (w_heap w) b
    \<and> (\<forall>k. k \<noteq> fileToObjectKey p False \<longrightarrow> objs (w_store w') k = objs (w_store w) k)"
proof -
  let ?d = "content (w_heap w) b"
  obtain w' u where S: "s3_Set C p (Some src) w = Some (None, Some src', w')"
    "objs (w_store w') = (objs (w_store w))(fileToObjectKey p False \<mapsto> (?d, s3_meta C m t, u))"
    "bucket_ok C objs (w_store w')" "wf_heap (w_heap w')"
    using Set_spec [OF ok wf p src t disjI2 [OF free]] m unfolding m [THEN eq_False [THEN iffD2]] by blast
  have k: "objs (w_store w') (fileToObjectKey p False) = Some (?d, s3_meta C m t, u)"
    "objs (w_store w') (fileToObjectKey p True) = None"
    using S(2) free fileToObjectKey_inject [OF p p, of True False] by simp_all
  obtain b' w'' where D: "getDataFunc C (fileToObjectKey p False) w' = Some (Inr b', w'')" "content (w_heap w'') b' = ?d"
    using getData_spec [OF k(1) S(4)] by metis
  show ?thesis
    using S D Get_file [OF k(2,1) t m] by (auto simp: NewBaseFileRecord_def Base_Data_def)
qed

end

text \<open>An empty bucket with the root directory, and a world with it.\<close>

definition demo_bucket :: bucket where
  "demo_bucket = [(''files/dir-meta'', ([], s3_meta bucket_client ModeDir 7, 0)),
     (''files/a/dir-meta'', ([], s3_meta bucket_client ModeDir 8, 0)),
     (''files/a/file-b'', ([5], s3_meta bucket_client 420 9, 0))]"

definition demo_s3 :: "bucket world" where
  "demo_s3 = \<lparr>w_heap = demo_heap, w_clock = \<lambda>_. 0, w_tick = 0, w_store = demo_bucket\<rparr>"

definition demo_src :: "(unit, bucket world) fileData" where
  "demo_src = \<lparr>fd_record = (runOnce_of (Some (BaseRec (NewBaseFileRecord 0 11 420 None None))))\<lparr>ro_data := Some (Inr 0)\<rparr>,
     modeOverride = None, modTimeOverride = 0, fd_path = ''x''\<rparr>"

lemma demo_keys:
  "fileToObjectKey dot True = ''files/dir-meta''" "fileToObjectKey ''a'' True = ''files/a/dir-meta''"
  "fileToObjectKey ''a/b'' False = ''files/a/file-b''" "ValidPath ''a''" "ValidPath ''a/b''" "ValidPath ''x''"
  "fileToObjectKey ''x'' True = ''files/x/dir-meta''" "fileToObjectKey ''x'' False = ''files/file-x''"
  by code_simp+

lemma demo_bucket_ok: "bucket_ok bucket_client map_of demo_bucket"
proof -
  have md: "IsDir ModeDir" "\<not> IsDir 420" by code_simp+
  have t: "rfc3339_time 7" "rfc3339_time 8" "rfc3339_time 9" by (simp_all add: rfc3339_time_def)
  show ?thesis
    unfolding bucket_ok_def
  proof (intro allI impI)
    fix k d m u assume "map_of demo_bucket k = Some (d, m, u)"
    then consider "k = fileToObjectKey dot True" "m = s3_meta bucket_client ModeDir 7"
      | "k = fileToObjectKey ''a'' True" "m = s3_meta bucket_client ModeDir 8"
      | "k = fileToObjectKey ''a/b'' False" "m = s3_meta bucket_client 420 9"
      by (auto simp: demo_bucket_def demo_keys(1-3) split: if_splits)
    then show "\<exists>p isDir m' t. ValidPath p \<and> k = fileToObjectKey p isDir \<and> m = s3_meta bucket_client m' t \<and> rfc3339_time t
        \<and> IsDir m' = isDir"
      using md t demo_keys(4,5) ValidPath_dot by cases metis+
  qed
qed

lemma demo_entries:
  assumes "ValidPath p"
  shows "map_of demo_bucket (fileToObjectKey p d) = None \<longleftrightarrow>
    \<not> (p = dot \<and> d \<or> p = ''a'' \<and> d \<or> p = ''a/b'' \<and> \<not> d)"
  using fileToObjectKey_inject [OF assms ValidPath_dot, of d True] fileToObjectKey_inject [OF assms demo_keys(4), of d True]
    fileToObjectKey_inject [OF assms demo_keys(5), of d False]
  by (simp add: demo_bucket_def demo_keys(1-3))

lemma demo_bucket_tree: "bucket_tree map_of demo_bucket"
proof -
  have n: "map_of demo_bucket (fileToObjectKey dot False) = None" using demo_entries [OF ValidPath_dot, of False] by simp
  have b: "map_of demo_bucket (fileToObjectKey p True) = None \<or> map_of demo_bucket (fileToObjectKey p False) = None"
    if "ValidPath p" for p
    using demo_entries [OF that, of True] demo_entries [OF that, of False] by auto
  have u: "map_of demo_bucket (fileToObjectKey p True) \<noteq> None"
    if p: "ValidPath p" "ok_elem e" "map_of demo_bucket (fileToObjectKey (Join [p, e]) d) \<noteq> None" for p e d
  proof -
    obtain es where es: "list_all ok_elem es" "p = path_of es" using p(1) by (rule ValidPathE)
    have J: "Join [p, e] = path_of (es @ [e])" "Dir (Join [p, e]) = p" "Join [p, e] \<noteq> dot"
      using es p(2) path_of_eq_dot [of "es @ [e]"] by (simp_all add: path_simps)
    have "Join [p, e] = ''a'' \<or> Join [p, e] = ''a/b''"
      using demo_entries [OF ValidPath_Join_elem [OF p(1,2)], of d] p(3) J(3) by blast
    moreover have "Dir ''a'' = dot" "Dir ''a/b'' = ''a''" by code_simp+
    ultimately have "p = dot \<or> p = ''a''" using J(2) by auto
    then show ?thesis using demo_entries [OF p(1), of True] by blast
  qed
  show ?thesis unfolding bucket_tree_def using n b u by blast
qed

lemma demo_src_known: "\<exists>src'. s3_known demo_src 420 0 11 src'"
  by (simp add: s3_known_def demo_src_def FD_Mode_def FD_Data_def FD_ModTime_def RO_Mode_def RO_Data_def RO_ModTime_def
      runOnce_of_def NewBaseFileRecord_def FR_Mode_def FR_ModTime_def)

text \<open>
  C24: what is put into the S3 store is what is found there, for every service that behaves as documented. Setting a file of a valid name that is
  not a directory succeeds and changes only the object of that file; a following \<open>Get\<close> returns a record with the same mode, the same
  time to the nanosecond and the size, and its data are the bytes that were set.
\<close>

theorem s3_Set_then_Get:
  assumes "s3_service C objs obj_key" "bucket_ok C objs (w_store w)" "wf_heap (w_heap w)" "live (w_heap w) b"
    and "ValidPath p" "s3_known src m b t src'" "rfc3339_time t" "\<not> IsDir m"
    and "objs (w_store w) (fileToObjectKey p True) = None"
  shows "\<exists>w' r b' w''. s3_Set C p (Some src) w = Some (None, Some src', w') \<and> bucket_ok C objs (w_store w')
    \<and> s3_Get C p w' = Some (Inr (BaseRec r), w')
    \<and> br_mode r = m \<and> br_modTime r = t \<and> initialSize r = int (length (content (w_heap w) b))
    \<and> Base_Data r w' = Some (Inr b', w'') \<and> content (w_heap w'') b' = content (w_heap w) b
    \<and> (\<forall>k. k \<noteq> fileToObjectKey p False \<longrightarrow> objs (w_store w') k = objs (w_store w) k)"
  using assms by (rule s3_service.Set_then_Get)

theorem s3_Set_then_Get_witness:
  "\<exists>src' w' r b' w''. s3_Set bucket_client ''x'' (Some demo_src) demo_s3 = Some (None, Some src', w')
    \<and> s3_Get bucket_client ''x'' w' = Some (Inr (BaseRec r), w') \<and> br_mode r = 420 \<and> br_modTime r = 11
    \<and> Base_Data r w' = Some (Inr b', w'') \<and> content (w_heap w'') b' = [1, 2, 3]"
proof -
  obtain src' where src: "s3_known demo_src 420 0 11 src'" using demo_src_known by blast
  have "bucket_ok bucket_client map_of (w_store demo_s3)" "wf_heap (w_heap demo_s3)" "live (w_heap demo_s3) 0"
    "content (w_heap demo_s3) 0 = [1, 2, 3]" "rfc3339_time 11"
    using demo_bucket_ok by (simp_all add: demo_s3_def demo_heap_facts rfc3339_time_def)
  moreover have "map_of (w_store demo_s3) (fileToObjectKey ''x'' True) = None"
    by (simp add: demo_s3_def demo_bucket_def demo_keys)
  moreover have "\<not> IsDir 420" by code_simp
  ultimately show ?thesis
    using s3_Set_then_Get [OF mem_s3.s3_service_axioms _ _ _ demo_keys(6) src, of demo_s3] by metis
qed

text \<open>
  C25: listing a directory of the S3 store. In a bucket whose objects form a tree the names of a directory are those of its entries, files and
  directories, each once.
\<close>

theorem s3_ReadDirNames:
  assumes "s3_service C objs obj_key" "bucket_ok C objs (w_store w)" "bucket_tree objs (w_store w)" "ValidPath p"
  shows "\<exists>names. getDirNamesFunc C (fileToObjectKey p True) w = Some (Inr names, w) \<and> distinct names
    \<and> set names = {e. ok_elem e \<and> (\<exists>isDir. objs (w_store w) (fileToObjectKey (Join [p, e]) isDir) \<noteq> None)}"
  by (rule s3_service.names_spec [OF assms]) blast

theorem s3_ReadDirNames_witness:
  "\<exists>names. getDirNamesFunc bucket_client (fileToObjectKey ''a'' True) demo_s3 = Some (Inr names, demo_s3)
    \<and> set names = {e. ok_elem e \<and> (\<exists>isDir. map_of demo_bucket (fileToObjectKey (Join [''a'', e]) isDir) \<noteq> None)}"
  using s3_ReadDirNames [OF mem_s3.s3_service_axioms _ _ demo_keys(4), of demo_s3] demo_bucket_ok demo_bucket_tree
  by (simp add: demo_s3_def) blast

text \<open>
  Removing a directory from the S3 store. \<open>Set\<close> with a nil record removes the object named by the path of the directory, which is not
  its \<open>dir-meta\<close> object: the call succeeds and the directory is still there. When the directory is called \<open>file-x\<close>, the object removed is the
  file \<open>x\<close> beside it.
\<close>

theorem s3_Remove_dir:
  assumes "s3_service C objs obj_key" "bucket_ok C objs (w_store w)" "ValidPath p"
    and "objs (w_store w) (fileToObjectKey p True) \<noteq> None"
  shows "\<exists>s'. s3_Set C p None w = Some (None, None, w\<lparr>w_store := s'\<rparr>)
    \<and> objs s' (fileToObjectKey p True) = objs (w_store w) (fileToObjectKey p True)
    \<and> (\<forall>q x. p = Join [q, filePrefix @ x] \<longrightarrow> ValidPath q \<longrightarrow> ok_elem x \<longrightarrow>
         objs s' (fileToObjectKey (Join [q, x]) False) = None)"
proof -
  obtain es where es: "list_all ok_elem es" "p = path_of es" using assms(3) by (rule ValidPathE)
  obtain s' where s': "s3_Set C p None w = Some (None, None, w\<lparr>w_store := s'\<rparr>)"
    "objs s' = (objs (w_store w))(Dir (fileToObjectKey p True) := None)"
    using s3_service.Remove_dir [OF assms] by blast
  have ne: "fileToObjectKey p True \<noteq> Dir (fileToObjectKey p True)"
    using es path_of_inject [of "rootPath # es @ [dirMetaName]" "rootPath # es"]
    unfolding es(2) Dir_key [OF es(1)] by (simp add: fileToObjectKey_eq key_elems_def)
  have "Dir (fileToObjectKey p True) = fileToObjectKey (Join [q, x]) False"
    if "p = Join [q, filePrefix @ x]" "ValidPath q" "ok_elem x" for q x
  proof -
    obtain qs where qs: "list_all ok_elem qs" "q = path_of qs" using \<open>ValidPath q\<close> by (rule ValidPathE)
    have fx: "ok_elem (filePrefix @ x)" using \<open>ok_elem x\<close> by (simp add: ok_elem_simps)
    have "p = path_of (qs @ [filePrefix @ x])" using that(1) qs Join_elem [OF qs(1) fx] by simp
    then show ?thesis using qs fx \<open>ok_elem x\<close> Join_elem [OF qs(1) \<open>ok_elem x\<close>] Dir_key [of "qs @ [filePrefix @ x]"]
      by (simp add: fileToObjectKey_eq [of "qs @ [x]"] key_elems_def)
  qed
  with s' ne show ?thesis by auto
qed

theorem s3_Remove_dir_witness:
  "\<exists>s'. s3_Set bucket_client ''a'' None demo_s3 = Some (None, None, demo_s3\<lparr>w_store := s'\<rparr>)
    \<and> map_of s' ''files/a/dir-meta'' \<noteq> None"
  using s3_Remove_dir [OF mem_s3.s3_service_axioms _ demo_keys(4), of demo_s3] demo_bucket_ok demo_entries [OF demo_keys(4), of True]
  by (simp add: demo_s3_def demo_keys) metis

end
