(* ===== verification/Testing.thy ===== *)
theory Testing
  imports FileTypes
begin

section \<open>Package \<open>testing\<close>, as the conformance suite uses it\<close>

text \<open>
  A test is a program over a state: the world of the file systems under test, the open \<open>File\<close> values,
  the running tests, and the maps of skipped tests. Running tests form a stack, a test is known by its
  depth \<open>tb\<close>. A program ends in one of three ways: it returns a value, it leaves the goroutine as
  \<open>runtime.Goexit\<close> does after \<open>Skip\<close> or \<open>FailNow\<close> (with the depth of the test that was ended), or it panics
  or never returns, \<^const>\<open>None\<close>. Beside its outcome it yields the subtests that called \<open>Parallel\<close>: \<open>Run\<close>
  returns as soon as a subtest does so, and the subtest goes on when the function of its parent is done.

  The tests only ever register one kind of cleanup, closing a file, so cleanups are file references.
  Parallel subtests have file systems of their own; the model runs them one after the other.
\<close>

subsection \<open>Test programs\<close>

datatype 'a outcome = Ret 'a | Exit nat

type_synonym ('s, 'a) prog = "'s \<Rightarrow> ('a outcome \<times> 's \<times> ('s \<Rightarrow> 's option) list) option"

definition ret :: "'a \<Rightarrow> ('s, 'a) prog" where
  "ret x s = Some (Ret x, s, [])"

definition go_panic :: "('s, 'a) prog" where
  "go_panic s = None"

definition seq :: "('s, 'a) prog \<Rightarrow> ('a \<Rightarrow> ('s, 'b) prog) \<Rightarrow> ('s, 'b) prog" where
  "seq m f s =
     (case m s of
        None \<Rightarrow> None
      | Some (Exit l, s, ps) \<Rightarrow> Some (Exit l, s, ps)
      | Some (Ret x, s, ps) \<Rightarrow>
          (case f x s of None \<Rightarrow> None | Some (r, s, qs) \<Rightarrow> Some (r, s, ps @ qs)))"

text \<open>An \<open>if\<close> without \<open>else\<close> on the result of a call, and a \<open>range\<close> loop.\<close>

definition if_then :: "('s, bool) prog \<Rightarrow> ('s, unit) prog \<Rightarrow> ('s, unit) prog" where
  "if_then c m = seq c (\<lambda>b. if b then m else ret ())"

primrec for_each :: "'a list \<Rightarrow> ('a \<Rightarrow> ('s, unit) prog) \<Rightarrow> ('s, unit) prog" where
  "for_each [] body = ret ()"
| "for_each (x # xs) body = seq (body x) (\<lambda>_. for_each xs body)"

primrec map_each :: "('a \<Rightarrow> ('s, 'b) prog) \<Rightarrow> 'a list \<Rightarrow> ('s, 'b list) prog" where
  "map_each f [] = ret []"
| "map_each f (x # xs) = seq (f x) (\<lambda>y. seq (map_each f xs) (\<lambda>ys. ret (y # ys)))"


subsection \<open>The state of a test run\<close>

text \<open>
  The dynamic type of a \<open>testing.TB\<close>: \<open>*testing.T\<close>, \<open>*testing.B\<close>, or another one. A benchmark without
  sub-benchmarks is called again after its first round; how often depends on the time it takes.
\<close>

datatype tbKind = TestT | TestB nat | OtherTB

record frame =
  fr_kind :: tbKind
  fr_name :: string
  fr_failed :: bool
  fr_skipped :: bool
  fr_finished :: bool
  fr_hasSub :: bool
  fr_cleanup :: "nat list"

record ('w, 'h, 'k) tstate =
  t_world :: 'w
  t_files :: "'h list"
  t_stack :: "frame list"
  t_maps :: "'k list list"

definition new_frame :: "tbKind \<Rightarrow> string \<Rightarrow> frame" where
  "new_frame k name = \<lparr>fr_kind = k, fr_name = name, fr_failed = False, fr_skipped = False,
     fr_finished = False, fr_hasSub = False, fr_cleanup = []\<rparr>"

definition upd_frame :: "nat \<Rightarrow> (frame \<Rightarrow> frame) \<Rightarrow> ('w, 'h, 'k) tstate \<Rightarrow> ('w, 'h, 'k) tstate" where
  "upd_frame tb f s = s\<lparr>t_stack := (t_stack s)[tb := f (t_stack s ! tb)]\<rparr>"

text \<open>\<open>Fail\<close> marks the test and every test around it.\<close>

definition mark_failed :: "nat \<Rightarrow> ('w, 'h, 'k) tstate \<Rightarrow> ('w, 'h, 'k) tstate" where
  "mark_failed tb s =
     s\<lparr>t_stack := map (\<lambda>f. f\<lparr>fr_failed := True\<rparr>) (take (Suc tb) (t_stack s)) @ drop (Suc tb) (t_stack s)\<rparr>"

definition failed :: "nat \<Rightarrow> ('w, 'h, 'k) tstate \<Rightarrow> bool" where
  "failed tb s = fr_failed (t_stack s ! tb)"

definition tb_Error :: "nat \<Rightarrow> (('w, 'h, 'k) tstate, unit) prog" where
  "tb_Error tb s = ret () (mark_failed tb s)"

definition tb_FailNow :: "nat \<Rightarrow> (('w, 'h, 'k) tstate, 'a) prog" where
  "tb_FailNow tb s = Some (Exit tb, upd_frame tb (fr_finished_update (\<lambda>_. True)) (mark_failed tb s), [])"

definition tb_Fatal :: "nat \<Rightarrow> (('w, 'h, 'k) tstate, 'a) prog" where
  "tb_Fatal tb = seq (tb_Error tb) (\<lambda>_. tb_FailNow tb)"

definition tb_Skip :: "nat \<Rightarrow> (('w, 'h, 'k) tstate, unit) prog" where
  "tb_Skip tb s =
     Some (Exit tb, upd_frame tb (\<lambda>f. f\<lparr>fr_skipped := True, fr_finished := True\<rparr>) s, [])"

definition tb_Cleanup :: "nat \<Rightarrow> nat \<Rightarrow> (('w, 'h, 'k) tstate, unit) prog" where
  "tb_Cleanup tb f s = ret () (upd_frame tb (\<lambda>fr. fr\<lparr>fr_cleanup := f # fr_cleanup fr\<rparr>) s)"

definition tb_Name :: "nat \<Rightarrow> ('w, 'h, 'k) tstate \<Rightarrow> string" where
  "tb_Name tb s = fr_name (t_stack s ! tb)"

definition tb_kind :: "nat \<Rightarrow> ('w, 'h, 'k) tstate \<Rightarrow> tbKind" where
  "tb_kind tb s = fr_kind (t_stack s ! tb)"


subsection \<open>\<open>Run\<close>\<close>

text \<open>
  The name of a subtest: spaces become underscores. (Names of the suite are printable and siblings have
  different names, so nothing else is rewritten and no number is appended.)
\<close>

definition is_space :: "char \<Rightarrow> bool" where
  "is_space c \<longleftrightarrow> c = CHR '' '' \<or> of_char c \<in> {9, 10, 11, 12, 13 :: nat}"

definition fullName :: "string \<Rightarrow> string \<Rightarrow> string" where
  "fullName parent name = parent @ ''/'' @ map (\<lambda>c. if is_space c then CHR ''_'' else c) name"

primrec run_parallel :: "('s \<Rightarrow> 's option) list \<Rightarrow> 's \<Rightarrow> 's option" where
  "run_parallel [] s = Some s"
| "run_parallel (p # ps) s = do { s \<leftarrow> p s; run_parallel ps s }"

text \<open>Cleanups run last in, first out. They only report failures, they never end the goroutine.\<close>

primrec run_cleanups :: "(nat \<Rightarrow> ('s, unit) prog) \<Rightarrow> nat list \<Rightarrow> 's \<Rightarrow> 's option" where
  "run_cleanups cl [] s = Some s"
| "run_cleanups cl (f # fs) s = do { (_, s, _) \<leftarrow> cl f s; run_cleanups cl fs s }"

text \<open>One round of a test function: the function, its parallel subtests, its cleanups.\<close>

definition t_round ::
  "(nat \<Rightarrow> nat \<Rightarrow> (('w, 'h, 'k) tstate, unit) prog) \<Rightarrow> nat \<Rightarrow> (nat \<Rightarrow> (('w, 'h, 'k) tstate, unit) prog) \<Rightarrow>
   ('w, 'h, 'k) tstate \<Rightarrow> (unit outcome \<times> ('w, 'h, 'k) tstate) option" where
  "t_round cl tb body s =
     do {
       (r, s, ps) \<leftarrow> body tb s;
       s \<leftarrow> run_parallel ps s;
       let fs = fr_cleanup (t_stack s ! tb);
       s \<leftarrow> run_cleanups (cl tb) fs (upd_frame tb (fr_cleanup_update (\<lambda>_. [])) s);
       Some (r, s)
     }"

definition push_frame :: "nat \<Rightarrow> string \<Rightarrow> ('w, 'h, 'k) tstate \<Rightarrow> ('w, 'h, 'k) tstate" where
  "push_frame tb name s =
     s\<lparr>t_stack := take (Suc tb) (t_stack s) @ [new_frame (tb_kind tb s) (fullName (tb_Name tb s) name)]\<rparr>"

definition pop_frame :: "nat \<Rightarrow> ('w, 'h, 'k) tstate \<Rightarrow> ('w, 'h, 'k) tstate" where
  "pop_frame tb s = s\<lparr>t_stack := take (Suc tb) (t_stack s)\<rparr>"

definition t_exec where
  "t_exec cl tb name body s =
     do {
       (r, s) \<leftarrow> t_round cl (Suc tb) body (push_frame tb name s);
       Some (r, pop_frame tb s)
     }"

text \<open>
  \<open>(*testing.T).Run\<close>. The flag \<open>par\<close> says that the subtest calls \<open>Parallel\<close> before anything else it
  does. A subtest that ends a test around it is itself marked as failed, and so is ended its caller; a
  parallel one panics.
\<close>

definition t_Run ::
  "(nat \<Rightarrow> nat \<Rightarrow> (('w, 'h, 'k) tstate, unit) prog) \<Rightarrow> bool \<Rightarrow> nat \<Rightarrow> string \<Rightarrow>
   (nat \<Rightarrow> (('w, 'h, 'k) tstate, unit) prog) \<Rightarrow> (('w, 'h, 'k) tstate, unit) prog" where
  "t_Run cl par tb name body s =
     (if par then
        Some (Ret (), s, [\<lambda>s. do {
          (r, s) \<leftarrow> t_exec cl tb name body s;
          (case r of Exit l \<Rightarrow> if l = Suc tb then Some s else None | Ret _ \<Rightarrow> Some s) }])
      else do {
        (r, s) \<leftarrow> t_exec cl tb name body s;
        Some (case r of
                Exit l \<Rightarrow> if l = Suc tb then (Ret (), s, []) else (Exit l, mark_failed tb s, [])
              | Ret _ \<Rightarrow> (Ret (), s, []))
      })"

text \<open>
  \<open>(*testing.B).Run\<close>: one round, and more rounds unless the benchmark failed, was ended, or has
  sub-benchmarks.
\<close>

primrec bench_rounds where
  "bench_rounds cl 0 tb body s = Some s"
| "bench_rounds cl (Suc n) tb body s =
     (if failed tb s then Some s
      else do { (_, s) \<leftarrow> t_round cl tb body s; bench_rounds cl n tb body s })"

definition b_Run ::
  "(nat \<Rightarrow> nat \<Rightarrow> (('w, 'h, 'k) tstate, unit) prog) \<Rightarrow> nat \<Rightarrow> nat \<Rightarrow> string \<Rightarrow>
   (nat \<Rightarrow> (('w, 'h, 'k) tstate, unit) prog) \<Rightarrow> (('w, 'h, 'k) tstate, unit) prog" where
  "b_Run cl n tb name body s =
     do {
       let s = upd_frame tb (fr_hasSub_update (\<lambda>_. True)) s;
       (_, s) \<leftarrow> t_round cl (Suc tb) body (push_frame tb name s);
       let fr = t_stack s ! Suc tb;
       s \<leftarrow> (if fr_failed fr \<or> fr_finished fr \<or> fr_hasSub fr then Some s
             else bench_rounds cl n (Suc tb) body s);
       ret () (pop_frame tb s)
     }"


subsection \<open>Calls on file systems and files\<close>

text \<open>
  A \<open>File\<close> is a pointer: the state holds the file values, a program holds their numbers, \<^const>\<open>None\<close> is
  the nil interface, and calling a method on it panics. The lifted calls differ in how many results
  they return.
\<close>

definition fs_call1 :: "('w \<Rightarrow> ('x \<times> 'w) option) \<Rightarrow> (('w, 'h, 'k) tstate, 'x) prog" where
  "fs_call1 m s = do { (x, w) \<leftarrow> m (t_world s); ret x (s\<lparr>t_world := w\<rparr>) }"

definition fs_call2 :: "('w \<Rightarrow> ('x \<times> 'y \<times> 'w) option) \<Rightarrow> (('w, 'h, 'k) tstate, 'x \<times> 'y) prog" where
  "fs_call2 m s = do { (x, y, w) \<leftarrow> m (t_world s); ret (x, y) (s\<lparr>t_world := w\<rparr>) }"

definition fs_open ::
  "('w \<Rightarrow> ('h option \<times> err option \<times> 'w) option) \<Rightarrow> (('w, 'h, 'k) tstate, nat option \<times> err option) prog" where
  "fs_open m s =
     do {
       (h, e, w) \<leftarrow> m (t_world s);
       (case h of
          None \<Rightarrow> ret (None, e) (s\<lparr>t_world := w\<rparr>)
        | Some h \<Rightarrow> ret (Some (length (t_files s)), e) (s\<lparr>t_world := w, t_files := t_files s @ [h]\<rparr>))
     }"

definition get_file :: "nat option \<Rightarrow> ('w, 'h, 'k) tstate \<Rightarrow> (nat \<times> 'h) option" where
  "get_file f s =
     (case f of None \<Rightarrow> None
      | Some n \<Rightarrow> if n < length (t_files s) then Some (n, t_files s ! n) else None)"

definition put_file :: "nat \<Rightarrow> 'h \<Rightarrow> 'w \<Rightarrow> ('w, 'h, 'k) tstate \<Rightarrow> ('w, 'h, 'k) tstate" where
  "put_file n h w s = s\<lparr>t_world := w, t_files := (t_files s)[n := h]\<rparr>"

definition file_call1 ::
  "nat option \<Rightarrow> ('h \<Rightarrow> 'w \<Rightarrow> ('x \<times> 'h \<times> 'w) option) \<Rightarrow> (('w, 'h, 'k) tstate, 'x) prog" where
  "file_call1 f m s =
     do { (n, h) \<leftarrow> get_file f s; (x, h, w) \<leftarrow> m h (t_world s); ret x (put_file n h w s) }"

definition file_call2 ::
  "nat option \<Rightarrow> ('h \<Rightarrow> 'w \<Rightarrow> ('x \<times> 'y \<times> 'h \<times> 'w) option) \<Rightarrow> (('w, 'h, 'k) tstate, 'x \<times> 'y) prog" where
  "file_call2 f m s =
     do { (n, h) \<leftarrow> get_file f s; (x, y, h, w) \<leftarrow> m h (t_world s); ret (x, y) (put_file n h w s) }"

definition file_call3 ::
  "nat option \<Rightarrow> ('h \<Rightarrow> 'w \<Rightarrow> ('x \<times> 'y \<times> 'z \<times> 'h \<times> 'w) option) \<Rightarrow>
   (('w, 'h, 'k) tstate, 'x \<times> 'y \<times> 'z) prog" where
  "file_call3 f m s =
     do { (n, h) \<leftarrow> get_file f s; (x, y, z, h, w) \<leftarrow> m h (t_world s); ret (x, y, z) (put_file n h w s) }"

text \<open>A call that needs no state change, such as a method of a \<open>FileInfo\<close>.\<close>

definition val_of :: "('w \<Rightarrow> 'x option) \<Rightarrow> (('w, 'h, 'k) tstate, 'x) prog" where
  "val_of m s = do { x \<leftarrow> m (t_world s); ret x s }"


subsection \<open>Laws of test programs\<close>

lemma seq_ret [simp]: "seq (ret x) f = f x"
  by (rule ext) (auto simp: seq_def ret_def split: option.split)

lemma seq_ret_right: "seq m ret = m"
  by (rule ext) (auto simp: seq_def ret_def split: option.split outcome.split)

lemma seq_assoc: "seq (seq m f) g = seq m (\<lambda>x. seq (f x) g)"
  by (rule ext) (auto simp: seq_def split: option.split outcome.split)

text \<open>Symbolic execution: a step that returns, one that ends the test.\<close>

lemma seq_step: "m s = Some (Ret x, s', []) \<Longrightarrow> seq m f s = f x s'"
  by (auto simp: seq_def split: option.split)

lemma seq_exit: "m s = Some (Exit l, s', ps) \<Longrightarrow> seq m f s = Some (Exit l, s', ps)"
  by (simp add: seq_def)

lemma seq_tb_Error [simp]: "seq (tb_Error tb) f s = f () (mark_failed tb s)"
  by (rule seq_step) (simp add: tb_Error_def ret_def)

lemma seq_tb_Skip [simp]: "seq (tb_Skip tb) f = tb_Skip tb"
  by (rule ext) (simp add: seq_def tb_Skip_def)

lemma seq_tb_FailNow [simp]: "seq (tb_FailNow tb) f = tb_FailNow tb"
  by (rule ext) (simp add: seq_def tb_FailNow_def)

lemma if_then_ret [simp]: "if_then (ret True) m = m" "if_then (ret False) m = ret ()"
  by (simp_all add: if_then_def)

end
