(* ===== verification/Assert.thy ===== *)
theory Assert
  imports Testing
begin

section \<open>The assertions (\<open>internal/assert\<close>)\<close>

text \<open>
  An assertion reports a failure to the test and returns whether it held; it never ends the test.
  \<open>reflect.DeepEqual\<close> on two values of one type is equality. Where an assertion looks at the kind of a
  value, the value is given as a \<open>goval\<close>, the values of type \<open>interface{}\<close> as far as the tests use them.
\<close>

text \<open>
  A slice is nil or has elements, a pointer that is not nil is a \<open>VPtr\<close>, and an error is the dynamic
  value of the interface: a pointer, or a number for a \<open>syscall.Errno\<close>.
\<close>

datatype goval =
    VNil
  | VBool bool
  | VInt int
  | VMode file_mode
  | VString string
  | VErr err
  | VPtr nat
  | VStruct "goval list"
  | VSlice "goval list option"
  | VMap "(string \<times> goval) list"

primrec IsZero :: "goval \<Rightarrow> bool option" where
  "IsZero VNil = None"
| "IsZero (VBool b) = Some (\<not> b)"
| "IsZero (VInt i) = Some (i = 0)"
| "IsZero (VMode m) = Some (m = 0)"
| "IsZero (VString s) = Some (s = [])"
| "IsZero (VErr e) = Some (e = Errno 0)"
| "IsZero (VPtr p) = Some False"
| "IsZero (VStruct vs) = Some (list_all (\<lambda>z. z \<noteq> Some False) (map IsZero vs))"
| "IsZero (VSlice xs) = Some (xs = None)"
| "IsZero (VMap m) = Some False"

definition errval :: "err option \<Rightarrow> goval" where
  "errval e = (case e of None \<Rightarrow> VNil | Some e \<Rightarrow> VErr e)"

definition fileval :: "nat option \<Rightarrow> goval" where
  "fileval f = (case f of None \<Rightarrow> VNil | Some n \<Rightarrow> VPtr n)"


subsection \<open>Assertions on single values\<close>

definition complain :: "nat \<Rightarrow> (('w, 'h, 'k) tstate, bool) prog" where
  "complain tb = seq (tb_Error tb) (\<lambda>_. ret False)"

definition assert_Error :: "nat \<Rightarrow> err option \<Rightarrow> (('w, 'h, 'k) tstate, bool) prog" where
  "assert_Error tb e = (if e = None then complain tb else ret True)"

definition assert_NoError :: "nat \<Rightarrow> err option \<Rightarrow> (('w, 'h, 'k) tstate, bool) prog" where
  "assert_NoError tb e = (if e \<noteq> None then complain tb else ret True)"

text \<open>\<open>reflect.ValueOf(nil).IsZero()\<close> panics; \<open>NotZero\<close> checks for nil first, \<open>Zero\<close> does not.\<close>

definition assert_Zero :: "nat \<Rightarrow> goval \<Rightarrow> (('w, 'h, 'k) tstate, bool) prog" where
  "assert_Zero tb v =
     (case IsZero v of None \<Rightarrow> go_panic | Some z \<Rightarrow> if \<not> z then complain tb else ret True)"

definition assert_NotZero :: "nat \<Rightarrow> goval \<Rightarrow> (('w, 'h, 'k) tstate, bool) prog" where
  "assert_NotZero tb v = (if v = VNil \<or> IsZero v = Some True then complain tb else ret True)"

definition assert_Equal :: "nat \<Rightarrow> 'a \<Rightarrow> 'a \<Rightarrow> (('w, 'h, 'k) tstate, bool) prog" where
  "assert_Equal tb expected actual = (if expected \<noteq> actual then complain tb else ret True)"

definition assert_NotEqual :: "nat \<Rightarrow> 'a \<Rightarrow> 'a \<Rightarrow> (('w, 'h, 'k) tstate, bool) prog" where
  "assert_NotEqual tb expected actual = (if expected = actual then complain tb else ret True)"

definition assert_Prefix :: "nat \<Rightarrow> string \<Rightarrow> string \<Rightarrow> (('w, 'h, 'k) tstate, bool) prog" where
  "assert_Prefix tb expected actual = (if \<not> HasPrefix actual expected then complain tb else ret True)"

definition assert_Suffix :: "nat \<Rightarrow> string \<Rightarrow> string \<Rightarrow> (('w, 'h, 'k) tstate, bool) prog" where
  "assert_Suffix tb expected actual = (if \<not> HasSuffix actual expected then complain tb else ret True)"

definition assert_ErrorIs :: "nat \<Rightarrow> err \<Rightarrow> err option \<Rightarrow> (('w, 'h, 'k) tstate, bool) prog" where
  "assert_ErrorIs tb target e = (if is_err e target then ret True else complain tb)"

text \<open>\<open>reflect.TypeOf\<close>, as the name of the type; nil has none.\<close>

definition err_type :: "err \<Rightarrow> string" where
  "err_type e =
     (case e of
        PathError _ _ _ \<Rightarrow> ''*fs.PathError''
      | LinkError _ _ _ _ \<Rightarrow> ''*hackpadfs.LinkError''
      | messageError _ _ \<Rightarrow> ''*fserrors.messageError''
      | mappedErr _ _ \<Rightarrow> ''*os.mappedErr''
      | _ \<Rightarrow> if e \<in> {ErrInvalid, ErrIsDir, ErrNotDir, ErrNotEmpty, ErrNotImplemented} \<or> (\<exists>n. e = Errno n)
            then ''syscall.Errno'' else ''*errors.errorString'')"

primrec TypeOf :: "goval \<Rightarrow> string option" where
  "TypeOf VNil = None"
| "TypeOf (VBool b) = Some ''bool''"
| "TypeOf (VInt i) = Some ''int''"
| "TypeOf (VMode m) = Some ''fs.FileMode''"
| "TypeOf (VString s) = Some ''string''"
| "TypeOf (VErr e) = Some (err_type e)"
| "TypeOf (VPtr p) = Some ''ptr''"
| "TypeOf (VStruct vs) = Some ''struct''"
| "TypeOf (VSlice xs) = Some ''slice''"
| "TypeOf (VMap m) = Some ''map''"

definition assert_IsType :: "nat \<Rightarrow> goval \<Rightarrow> goval \<Rightarrow> (('w, 'h, 'k) tstate, bool) prog" where
  "assert_IsType tb expected actual = assert_Equal tb (TypeOf expected) (TypeOf actual)"


subsection \<open>Collections\<close>

definition Contains_str :: "string \<Rightarrow> string \<Rightarrow> bool" where
  "Contains_str s sub = list_ex (\<lambda>i. HasPrefix (drop i s) sub) [0..<Suc (length s)]"

definition slice_elems :: "goval list option \<Rightarrow> goval list" where
  "slice_elems xs = (case xs of None \<Rightarrow> [] | Some vs \<Rightarrow> vs)"

definition contains :: "nat \<Rightarrow> goval \<Rightarrow> goval \<Rightarrow> (('w, 'h, 'k) tstate, bool) prog" where
  "contains tb collection item =
     (case collection of
        VSlice xs \<Rightarrow> ret (list_ex (\<lambda>candidateItem. candidateItem = item) (slice_elems xs))
      | VString s \<Rightarrow>
          (case item of VString sub \<Rightarrow> ret (Contains_str s sub) | _ \<Rightarrow> complain tb)
      | _ \<Rightarrow> complain tb)"

definition assert_Contains :: "nat \<Rightarrow> goval \<Rightarrow> goval \<Rightarrow> (('w, 'h, 'k) tstate, bool) prog" where
  "assert_Contains tb collection item =
     seq (contains tb collection item) (\<lambda>found. if \<not> found then complain tb else ret True)"

definition assert_NotContains :: "nat \<Rightarrow> goval \<Rightarrow> goval \<Rightarrow> (('w, 'h, 'k) tstate, bool) prog" where
  "assert_NotContains tb collection item =
     seq (contains tb collection item) (\<lambda>found. if found then complain tb else ret True)"

primrec all_contained :: "nat \<Rightarrow> goval \<Rightarrow> goval list \<Rightarrow> (('w, 'h, 'k) tstate, bool) prog" where
  "all_contained tb super [] = ret True"
| "all_contained tb super (v # vs) =
     seq (contains tb super v) (\<lambda>found. if \<not> found then ret False else all_contained tb super vs)"

definition same_kind :: "goval \<Rightarrow> goval \<Rightarrow> bool" where
  "same_kind a b =
     (case (a, b) of
        (VMap _, VMap _) \<Rightarrow> True | (VSlice _, VSlice _) \<Rightarrow> True
      | (VMap _, _) \<Rightarrow> False | (VSlice _, _) \<Rightarrow> False
      | (_, VMap _) \<Rightarrow> False | (_, VSlice _) \<Rightarrow> False
      | (VErr e, VErr e') \<Rightarrow> (err_type e = ''syscall.Errno'') = (err_type e' = ''syscall.Errno'')
      | _ \<Rightarrow> TypeOf a = TypeOf b)"

definition subset_of :: "nat \<Rightarrow> goval \<Rightarrow> goval \<Rightarrow> (('w, 'h, 'k) tstate, bool) prog" where
  "subset_of tb sub super =
     (if \<not> same_kind sub super then ret False
      else
        (case (sub, super) of
           (VMap m, VMap m') \<Rightarrow> ret (list_all (\<lambda>(k, v). map_of m' k = Some v) m)
         | (VSlice xs, _) \<Rightarrow> all_contained tb super (slice_elems xs)
         | _ \<Rightarrow> complain tb))"

definition assert_Subset :: "nat \<Rightarrow> goval \<Rightarrow> goval \<Rightarrow> (('w, 'h, 'k) tstate, bool) prog" where
  "assert_Subset tb sub super =
     seq (subset_of tb sub super) (\<lambda>ok. if \<not> ok then complain tb else ret True)"


subsection \<open>Assertions on functions\<close>

text \<open>
  A function that panics has the value \<^const>\<open>None\<close>; its effects before the panic are not kept. When it
  returns, \<open>recover\<close> gives nil. A function that leaves the goroutine leaves it through the deferred
  function, which sees no panic either.
\<close>

definition assert_Panics ::
  "nat \<Rightarrow> (('w, 'h, 'k) tstate, unit) prog \<Rightarrow> (('w, 'h, 'k) tstate, bool) prog" where
  "assert_Panics tb fn s =
     (case fn s of
        None \<Rightarrow> ret True s
      | Some (Ret _, s, ps) \<Rightarrow> Some (Ret False, mark_failed tb s, ps)
      | Some (Exit l, s, ps) \<Rightarrow> Some (Exit l, mark_failed tb s, ps))"

definition assert_NotPanics ::
  "nat \<Rightarrow> (('w, 'h, 'k) tstate, unit) prog \<Rightarrow> (('w, 'h, 'k) tstate, bool) prog" where
  "assert_NotPanics tb fn s =
     (case fn s of
        None \<Rightarrow> complain tb s
      | Some (Ret _, s, ps) \<Rightarrow> Some (Ret True, s, ps)
      | Some (Exit l, s, ps) \<Rightarrow> Some (Exit l, s, ps))"

text \<open>
  \<open>Eventually\<close>: the condition is checked, then checked again after every interval until the total time
  is over. Time is counted from the start, and \<open>dur k\<close> is how long the \<open>k\<close>-th check takes; when the
  deadline and the timer fire at the same moment the deadline is taken.
\<close>

partial_function (option) eventually_loop ::
  "nat \<Rightarrow> (nat \<Rightarrow> (('w, 'h, 'k) tstate, bool) prog) \<Rightarrow> (nat \<Rightarrow> int) \<Rightarrow> int \<Rightarrow> int \<Rightarrow> nat \<Rightarrow> int \<Rightarrow>
   (('w, 'h, 'k) tstate, bool) prog" where
  [code]: "eventually_loop tb fn dur totalWait checkInterval k now s =
     do {
       (r, s, ps) \<leftarrow> fn k s;
       (case r of
          Exit l \<Rightarrow> Some (Exit l, s, ps)
        | Ret success \<Rightarrow>
            if success then Some (Ret True, s, ps)
            else if totalWait \<le> now + dur k + checkInterval then Some (Ret False, mark_failed tb s, ps)
            else do {
              (r, s, qs) \<leftarrow> eventually_loop tb fn dur totalWait checkInterval (Suc k) (now + dur k + checkInterval) s;
              Some (r, s, ps @ qs)
            })
     }"

definition assert_Eventually ::
  "nat \<Rightarrow> (nat \<Rightarrow> (('w, 'h, 'k) tstate, bool) prog) \<Rightarrow> (nat \<Rightarrow> int) \<Rightarrow> int \<Rightarrow> int \<Rightarrow>
   (('w, 'h, 'k) tstate, bool) prog" where
  "assert_Eventually tb fn dur totalWait checkInterval s =
     eventually_loop tb fn dur totalWait checkInterval 0 0 s"


subsection \<open>What the assertions do\<close>

named_theorems asserts "an assertion that holds returns true and changes nothing"

lemma complain_step [simp]: "complain tb s = Some (Ret False, mark_failed tb s, [])"
  by (simp add: complain_def ret_def)

lemma assert_holds [asserts]:
  "assert_NoError tb None = ret True" "assert_Error tb (Some e) = ret True"
  "assert_Equal tb x x = ret True" "assert_NotZero tb (VPtr n) = ret True"
  by (simp_all add: assert_NoError_def assert_Error_def assert_Equal_def assert_NotZero_def)

lemma assert_fileval [asserts]: "assert_NotZero tb (fileval (Some n)) = ret True"
  by (simp add: fileval_def asserts)

text \<open>
  An assertion on values always returns, and its result says whether it held: exactly when it does not,
  the test and all tests around it are marked as failed. Nothing else changes.
\<close>

definition reports :: "nat \<Rightarrow> bool \<Rightarrow> (('w, 'h, 'k) tstate, bool) prog \<Rightarrow> bool" where
  "reports tb ok m \<longleftrightarrow> (\<forall>s. m s = Some (Ret ok, if ok then s else mark_failed tb s, []))"

lemma mark_failed_idem [simp]: "mark_failed tb (mark_failed tb s) = mark_failed tb s"
  by (simp add: mark_failed_def min_def)

lemma mark_failed_failed: "tb < length (t_stack s) \<Longrightarrow> l \<le> tb \<Longrightarrow> failed l (mark_failed tb s)"
  by (simp add: failed_def mark_failed_def nth_append min_def)

lemma mark_failed_keeps [simp]:
  "t_world (mark_failed tb s) = t_world s" "t_files (mark_failed tb s) = t_files s"
  "t_maps (mark_failed tb s) = t_maps s" "length (t_stack (mark_failed tb s)) = length (t_stack s)"
  by (simp_all add: mark_failed_def)

lemma assert_reports:
  "reports tb (e \<noteq> None) (assert_Error tb e)" "reports tb (e = None) (assert_NoError tb e)"
  "reports tb (x = y) (assert_Equal tb x y)" "reports tb (x \<noteq> y) (assert_NotEqual tb x y)"
  "reports tb (HasPrefix b a) (assert_Prefix tb a b)" "reports tb (HasSuffix b a) (assert_Suffix tb a b)"
  "reports tb (is_err e t) (assert_ErrorIs tb t e)"
  "reports tb (v \<noteq> VNil \<and> IsZero v \<noteq> Some True) (assert_NotZero tb v)"
  "reports tb (TypeOf v = TypeOf u) (assert_IsType tb v u)"
  by (auto simp: reports_def assert_Error_def assert_NoError_def assert_Equal_def assert_NotEqual_def
      assert_Prefix_def assert_Suffix_def assert_ErrorIs_def assert_NotZero_def assert_IsType_def ret_def)

lemma all_contained_slice [simp]:
  "all_contained tb (VSlice ys) vs = ret (list_all (\<lambda>v. v \<in> set (slice_elems ys)) vs)"
  by (induction vs) (auto simp: contains_def list_ex_iff)

lemma subset_slices: "subset_of tb (VSlice xs) (VSlice ys) = ret (set (slice_elems xs) \<subseteq> set (slice_elems ys))"
  by (simp add: subset_of_def same_kind_def list_all_iff subset_iff Ball_def)

lemma subset_maps:
  assumes "distinct (map fst m)"
  shows "subset_of tb (VMap m) (VMap m') = ret (map_of m \<subseteq>\<^sub>m map_of m')"
proof -
  have "list_all (\<lambda>(k, v). map_of m' k = Some v) m \<longleftrightarrow> (\<forall>k v. map_of m k = Some v \<longrightarrow> map_of m' k = Some v)"
    using map_of_eq_Some_iff [OF assms] by (auto simp: list_all_iff)
  also have "\<dots> \<longleftrightarrow> map_of m \<subseteq>\<^sub>m map_of m'" by (force simp: map_le_def)
  finally show ?thesis by (simp add: subset_of_def same_kind_def)
qed

lemma assert_Subset_reports:
  assumes "subset_of tb sub super = (ret ok :: (('w, 'h, 'k) tstate, bool) prog)"
  shows "reports tb ok (assert_Subset tb sub super :: (('w, 'h, 'k) tstate, bool) prog)"
  using assms
  by (simp add: reports_def assert_Subset_def) (simp add: ret_def)

end
