(* ===== verification/FSTest.thy ===== *)
theory FSTest
  imports Assert HackpadFS
begin

section \<open>The conformance suite: options, subtests and comparisons (\<open>fstest/fstest.go\<close>, \<open>fstest/assert.go\<close>)\<close>

text \<open>
  The suite runs every operation of a file system, and of the files it opens, against what the \<open>os\<close>
  package does. A caller passes \<open>FSOptions\<close> with a function that prepares a file system; every subtest
  prepares one of its own. This theory holds the options, how a subtest is run and how skipped ones are
  recorded, and the comparisons the tests make; the tests are in the theories after it.
\<close>

subsection \<open>Values\<close>

text \<open>
  The methods of \<open>FileInfo\<close> and \<open>DirEntry\<close> that only the suite calls, beside the tables of \<open>HackpadFS\<close>.
  \<^const>\<open>None\<close> is a panic.
\<close>

record ('f, 'h, 'i, 'd, 'w) test_iface = "('f, 'h, 'i, 'd, 'w) fs_iface" +
  in_IsDir :: "'i \<Rightarrow> bool option"
  in_ModTime :: "'i \<Rightarrow> time option"
  in_Sys :: "'i \<Rightarrow> unit option"
  de_IsDir :: "'d \<Rightarrow> bool option"
  de_Type :: "'d \<Rightarrow> file_mode option"
  de_Info :: "'d \<Rightarrow> 'w \<Rightarrow> ((err + 'i) \<times> 'w) option"

record Facets =
  fct_Name :: string

record Constraints =
  FileModeMask :: file_mode
  AllowErrPathPrefix :: bool

type_synonym ('w, 'h) tst = "('w, 'h, Facets) tstate"

text \<open>
  \<open>skippedTests\<close> points to a \<open>sync.Map\<close>, the number of a map in the state of the run. The last two fields
  are no options: the time that \<open>time.Now\<close> gives, and the order in which the goroutines of
  \<open>concurrentTasks\<close> run.
\<close>

record ('f, 's) FSOptions =
  opt_Name :: string
  TestFS :: "(nat \<Rightarrow> ('s, 'f) prog) option"
  Setup :: "(nat \<Rightarrow> ('s, 'f \<times> ('s, 'f) prog) prog) option"
  opt_Constraints :: Constraints
  ShouldSkip :: "(Facets \<Rightarrow> bool) option"
  skippedTests :: nat
  opt_now :: time
  opt_sched :: "nat \<Rightarrow> nat list"

text \<open>The defaults. Every call makes a new, empty map of skipped tests.\<close>

definition new_map :: "('w, 'h) tst \<Rightarrow> nat \<times> ('w, 'h) tst" where
  "new_map s = (length (t_maps s), s\<lparr>t_maps := t_maps s @ [[]]\<rparr>)"

definition setupOptions ::
  "('f, ('w, 'h) tst) FSOptions \<Rightarrow> ('w, 'h) tst \<Rightarrow>
   err option \<times> ('f, ('w, 'h) tst) FSOptions \<times> ('w, 'h) tst" where
  "setupOptions options s =
     (let (m, s) = new_map s; options = options\<lparr>skippedTests := m\<rparr> in
      if opt_Name options = '''' then (Some (ErrorString ''FS test name is required''), options, s)
      else if TestFS options = None \<and> Setup options = None
      then (Some (ErrorString ''TestFS func is required''), options, s)
      else
        (let options = (if Setup options = None
               then options\<lparr>Setup := Some (\<lambda>tb.
                 seq (the (TestFS options) tb) (\<lambda>fs. ret (fs, ret fs)))\<rparr>
               else options);
             options = (if ShouldSkip options = None then options\<lparr>ShouldSkip := Some (\<lambda>_. False)\<rparr> else options)
         in (None, options, s)))"

definition Setup_FS ::
  "('f, ('w, 'h) tst) FSOptions \<Rightarrow> nat \<Rightarrow> (('w, 'h) tst, 'f \<times> (('w, 'h) tst, 'f) prog) prog" where
  "Setup_FS opts tb = (case Setup opts of None \<Rightarrow> go_panic | Some fn \<Rightarrow> fn tb)"


subsection \<open>Running a subtest\<close>

text \<open>The only cleanup of the tests: \<open>assert.NoError(tb, file.Close())\<close>.\<close>

definition f_Close where
  "f_Close I f = file_call1 f (fl_Close I)"

definition assert_Close where
  "assert_Close I tb f = seq (f_Close I f) (\<lambda>e. assert_NoError tb e)"

definition close_cleanup where
  "close_cleanup I tb n = seq (assert_Close I tb (Some n)) (\<lambda>_. ret ())"

definition store_skip :: "nat \<Rightarrow> Facets \<Rightarrow> ('w, 'h) tst \<Rightarrow> ('w, 'h) tst" where
  "store_skip m facets s = s\<lparr>t_maps := (t_maps s)[m := List.insert facets (t_maps s ! m)]\<rparr>"

definition facets_of :: "nat \<Rightarrow> ('w, 'h) tst \<Rightarrow> Facets" where
  "facets_of tb s = \<lparr>fct_Name = tb_Name tb s\<rparr>"

text \<open>The deferred function: it runs however the subtest ends, but not when the process panics.\<close>

definition defer_skip ::
  "nat \<Rightarrow> nat \<Rightarrow> Facets \<Rightarrow> (('w, 'h) tst, unit) prog \<Rightarrow> (('w, 'h) tst, unit) prog" where
  "defer_skip m tb facets body s =
     (case body s of
        None \<Rightarrow> None
      | Some (r, s, ps) \<Rightarrow>
          Some (r, if fr_skipped (t_stack s ! tb) then store_skip m facets s else s, ps))"

definition tbRunInner ::
  "('f, ('w, 'h) tst) FSOptions \<Rightarrow> (nat \<Rightarrow> (('w, 'h) tst, unit) prog) \<Rightarrow> nat \<Rightarrow> (('w, 'h) tst, unit) prog" where
  "tbRunInner opts subtest tb s =
     (let facets = facets_of tb s in
      defer_skip (skippedTests opts) tb facets
        (case ShouldSkip opts of
           None \<Rightarrow> go_panic
         | Some shouldSkip \<Rightarrow>
             seq (if shouldSkip facets then tb_Skip tb else ret ()) (\<lambda>_. subtest tb)) s)"

text \<open>
  \<open>tbRun\<close>. The flag \<open>par\<close> says that the subtest begins with \<open>tbParallel\<close>, which calls \<open>Parallel\<close> on a
  \<open>*testing.T\<close> and does nothing on other types; a subtest that \<open>ShouldSkip\<close> rejects does not get there.
\<close>

definition tbParallel :: "('f, ('w, 'h) tst) FSOptions \<Rightarrow> bool \<Rightarrow> nat \<Rightarrow> string \<Rightarrow> ('w, 'h) tst \<Rightarrow> bool" where
  "tbParallel opts par tb name s \<longleftrightarrow>
     par \<and> (case ShouldSkip opts of None \<Rightarrow> False
            | Some shouldSkip \<Rightarrow> \<not> shouldSkip \<lparr>fct_Name = fullName (tb_Name tb s) name\<rparr>)"

definition tbRun ::
  "('f, 'h, 'i, 'd, 'w, 'z) test_iface_scheme \<Rightarrow> ('f, ('w, 'h) tst) FSOptions \<Rightarrow> bool \<Rightarrow> nat \<Rightarrow> string \<Rightarrow>
   (nat \<Rightarrow> (('w, 'h) tst, unit) prog) \<Rightarrow> (('w, 'h) tst, unit) prog" where
  "tbRun I opts par tb name subtest s =
     (case tb_kind tb s of
        TestT \<Rightarrow> t_Run (close_cleanup I) (tbParallel opts par tb name s) tb name (tbRunInner opts subtest) s
      | TestB n \<Rightarrow> b_Run (close_cleanup I) n tb name (tbRunInner opts subtest) s
      | OtherTB \<Rightarrow> tb_Error tb s)"

text \<open>\<open>TestData\<close> and \<open>generateTestData\<close>.\<close>

record TestData =
  Skips :: "Facets list"

definition generateTestData :: "('f, ('w, 'h) tst) FSOptions \<Rightarrow> (('w, 'h) tst, TestData) prog" where
  "generateTestData opts s = ret \<lparr>Skips = t_maps s ! skippedTests opts\<rparr> s"

definition skipNotImplemented :: "nat \<Rightarrow> err option \<Rightarrow> (('w, 'h) tst, unit) prog" where
  "skipNotImplemented tb e = (if is_err e ErrNotImplemented then tb_Skip tb else ret ())"


subsection \<open>\<open>fsEntry\<close> and \<open>quickInfo\<close>\<close>

record fsEntry =
  fe_Size :: int
  fe_Mode :: file_mode
  fe_IsDir :: bool

record quickInfo =
  qi_Name :: string
  qi_Size :: int
  qi_Mode :: file_mode
  qi_IsDir :: bool

definition mk_entry :: "int \<Rightarrow> file_mode \<Rightarrow> bool \<Rightarrow> fsEntry" where
  "mk_entry sz mode isDir = \<lparr>fe_Size = sz, fe_Mode = mode, fe_IsDir = isDir\<rparr>"

definition mk_info :: "string \<Rightarrow> int \<Rightarrow> file_mode \<Rightarrow> bool \<Rightarrow> quickInfo" where
  "mk_info name sz mode isDir = \<lparr>qi_Name = name, qi_Size = sz, qi_Mode = mode, qi_IsDir = isDir\<rparr>"

definition entry_val :: "fsEntry \<Rightarrow> goval" where
  "entry_val e = VStruct [VInt (fe_Size e), VMode (fe_Mode e), VBool (fe_IsDir e)]"

definition info_val :: "quickInfo \<Rightarrow> goval" where
  "info_val q = VStruct [VString (qi_Name q), VInt (qi_Size q), VMode (qi_Mode q), VBool (qi_IsDir q)]"

text \<open>The two results \<open>info, err\<close> of a call: the info is nil when there is an error.\<close>

definition err_of :: "err + 'i \<Rightarrow> err option" where
  "err_of r = (case r of Inl e \<Rightarrow> Some e | Inr _ \<Rightarrow> None)"

definition info_of :: "err + 'i \<Rightarrow> 'i option" where
  "info_of r = (case r of Inl _ \<Rightarrow> None | Inr i \<Rightarrow> Some i)"

definition asQuickInfo ::
  "('f, 'h, 'i, 'd, 'w, 'z) test_iface_scheme \<Rightarrow> 'i option \<Rightarrow> (('w, 'h) tst, quickInfo) prog" where
  "asQuickInfo I info =
     (case info of
        None \<Rightarrow> ret (mk_info '''' 0 0 False)
      | Some info \<Rightarrow>
          seq (val_of (\<lambda>_. in_IsDir I info)) (\<lambda>isDir.
          seq (if isDir then ret 0 else val_of (in_Size I info)) (\<lambda>sz.
          seq (val_of (\<lambda>_. in_Mode I info)) (\<lambda>mode.
          ret (mk_info (in_Name I info) sz mode isDir)))))"

definition asQuickDirInfo ::
  "('f, 'h, 'i, 'd, 'w, 'z) test_iface_scheme \<Rightarrow> nat \<Rightarrow> 'd \<Rightarrow> (('w, 'h) tst, quickInfo) prog" where
  "asQuickDirInfo I tb entry =
     seq (val_of (\<lambda>_. de_Type I entry)) (\<lambda>mode.
     seq (fs_call1 (de_Info I entry)) (\<lambda>r.
     seq (assert_NoError tb (err_of r)) (\<lambda>_.
     seq (case r of
            Inl _ \<Rightarrow> ret (mode, 0)
          | Inr info \<Rightarrow>
              seq (val_of (\<lambda>_. in_Mode I info)) (\<lambda>mode.
              seq (val_of (\<lambda>_. de_IsDir I entry)) (\<lambda>isDir.
              seq (if \<not> isDir then val_of (in_Size I info) else ret 0) (\<lambda>sz.
              ret (mode, sz))))) (\<lambda>(mode, sz).
     seq (val_of (\<lambda>_. de_IsDir I entry)) (\<lambda>isDir.
     ret (mk_info (de_Name I entry) sz mode isDir))))))"

definition asQuickDirInfos ::
  "('f, 'h, 'i, 'd, 'w, 'z) test_iface_scheme \<Rightarrow> nat \<Rightarrow> 'd list \<Rightarrow> (('w, 'h) tst, quickInfo list) prog" where
  "asQuickDirInfos I tb entries = map_each (asQuickDirInfo I tb) entries"


subsection \<open>Comparing file systems\<close>

definition modeMask :: "('f, 's) FSOptions \<Rightarrow> file_mode" where
  "modeMask opts = FileModeMask (opt_Constraints opts)"

text \<open>The loop over a directory: every entry changes the map of entries.\<close>

primrec fold_each :: "('a \<Rightarrow> 'b \<Rightarrow> ('s, 'b) prog) \<Rightarrow> 'a list \<Rightarrow> 'b \<Rightarrow> ('s, 'b) prog" where
  "fold_each f [] acc = ret acc"
| "fold_each f (x # xs) acc = seq (f x acc) (\<lambda>acc. fold_each f xs acc)"

lemma seq_mono [partial_function_mono]:
  assumes "\<And>s. mono_option (\<lambda>f. m f s)" "\<And>x s. mono_option (\<lambda>f. k f x s)"
  shows "mono_option (\<lambda>f. seq (m f) (k f) s)"
proof -
  have e: "seq (m f) (k f) s = Option.bind (m f s) (\<lambda>(r, s, ps).
      case r of Exit l \<Rightarrow> Some (Exit l, s, ps)
      | Ret x \<Rightarrow> Option.bind (k f x s) (\<lambda>(r, s, qs). Some (r, s, ps @ qs)))" for f
    by (cases "m f s") (auto simp: seq_def split: outcome.split option.split)
  have c: "mono_option (\<lambda>f. case r of Exit l \<Rightarrow> Some (Exit l, s, ps)
      | Ret x \<Rightarrow> Option.bind (k f x s) (\<lambda>(r, s, qs). Some (r, s, ps @ qs)))" for r s ps
    by (cases r) (simp_all add: option.const_mono bind_mono assms(2))
  have "mono_option (\<lambda>f. Option.bind (m f s) (\<lambda>(r, s, ps).
      case r of Exit l \<Rightarrow> Some (Exit l, s, ps)
      | Ret x \<Rightarrow> Option.bind (k f x s) (\<lambda>(r, s, qs). Some (r, s, ps @ qs))))"
    by (rule bind_mono [OF assms(1)]) (auto simp: c split: prod.split)
  then show ?thesis by (simp add: e)
qed

lemma fold_each_mono [partial_function_mono]:
  assumes "\<And>x acc s. mono_option (\<lambda>f. g f x acc s)"
  shows "mono_option (\<lambda>f. fold_each (g f) xs acc s)"
proof (induction xs arbitrary: acc s)
  case Nil
  show ?case by (simp add: option.const_mono)
next
  case (Cons x xs)
  show ?case by (simp only: fold_each.simps) (rule seq_mono [OF assms Cons.IH])
qed

text \<open>What is recorded of a directory entry: its size and its masked mode, by its path.\<close>

definition walk_entry ::
  "('f, 'h, 'i, 'd, 'w, 'z) test_iface_scheme \<Rightarrow> file_mode \<Rightarrow> nat \<Rightarrow> string \<Rightarrow> 'd \<Rightarrow> (string \<times> fsEntry) list \<Rightarrow>
   (('w, 'h) tst, bool \<times> string \<times> (string \<times> fsEntry) list) prog" where
  "walk_entry I m tb dir entry entries =
     seq (val_of (\<lambda>_. de_IsDir I entry)) (\<lambda>isDir.
     seq (val_of (\<lambda>_. de_Type I entry)) (\<lambda>mode.
     seq (fs_call1 (de_Info I entry)) (\<lambda>r.
     seq (assert_NoError tb (err_of r)) (\<lambda>_.
     seq (case r of
            Inl _ \<Rightarrow> ret (mode, 0)
          | Inr info \<Rightarrow>
              seq (val_of (\<lambda>_. in_Mode I info)) (\<lambda>mode.
              seq (if \<not> isDir then val_of (in_Size I info) else ret 0) (\<lambda>sz.
              ret (mode, sz)))) (\<lambda>(mode, sz).
     (let mode = mode AND m; name = de_Name I entry in
      seq (assert_Equal tb True (ValidPath name)) (\<lambda>_.
      (let filePath = Join [dir, name]; exists = (filePath \<in> fst ` set entries) in
       seq (assert_Equal tb False exists) (\<lambda>_.
       ret (isDir, filePath, AList.update filePath (mk_entry sz mode isDir) entries))))))))))"

partial_function (option) walkFSEntries ::
  "('f, 'h, 'i, 'd, 'w, 'z) test_iface_scheme \<Rightarrow> file_mode \<Rightarrow> nat \<Rightarrow> 'f \<Rightarrow> string \<Rightarrow>
   (string \<times> fsEntry) list \<Rightarrow> (('w, 'h) tst, (string \<times> fsEntry) list) prog" where
  [code]: "walkFSEntries I m tb fs dir entries s =
     (let dir = (if dir = '''' then dot else dir) in
      seq (fs_call2 (ReadDir I fs dir)) (\<lambda>dirs s.
      if is_err (snd dirs) ErrNotImplemented then ret entries s
      else
        seq (assert_NoError tb (snd dirs)) (\<lambda>_ s.
        fold_each (\<lambda>entry entries s.
          seq (walk_entry I m tb dir entry entries) (\<lambda>r s.
          if fst r
          then walkFSEntries I m tb fs (fst (snd r)) (snd (snd r)) s
          else ret (snd (snd r)) s) s) (fst dirs) entries s) s) s)"

definition mask_entries :: "file_mode \<Rightarrow> (string \<times> fsEntry) list \<Rightarrow> (string \<times> fsEntry) list" where
  "mask_entries m expected = map (\<lambda>(p, e). (p, e\<lparr>fe_Mode := fe_Mode e AND m\<rparr>)) expected"

definition entries_val :: "(string \<times> fsEntry) list \<Rightarrow> goval" where
  "entries_val m = VMap (map (\<lambda>(p, e). (p, entry_val e)) m)"

definition tryAssertEqualFS ::
  "('f, 'h, 'i, 'd, 'w, 'z) test_iface_scheme \<Rightarrow> ('f, ('w, 'h) tst) FSOptions \<Rightarrow> nat \<Rightarrow>
   (string \<times> fsEntry) list \<Rightarrow> 'f \<Rightarrow> (('w, 'h) tst, unit) prog" where
  "tryAssertEqualFS I opts tb expected actual =
     (let expected = mask_entries (modeMask opts) expected in
      seq (walkFSEntries I (modeMask opts) tb actual '''' []) (\<lambda>entries.
      seq (assert_Subset tb (entries_val expected) (entries_val entries)) (\<lambda>_. ret ())))"

definition mask_info :: "file_mode \<Rightarrow> quickInfo \<Rightarrow> quickInfo" where
  "mask_info m q = q\<lparr>qi_Mode := qi_Mode q AND m\<rparr>"

definition assertEqualQuickInfo ::
  "('f, ('w, 'h) tst) FSOptions \<Rightarrow> nat \<Rightarrow> quickInfo \<Rightarrow> quickInfo \<Rightarrow> (('w, 'h) tst, bool) prog" where
  "assertEqualQuickInfo opts tb a b = assert_Equal tb (mask_info (modeMask opts) a) (mask_info (modeMask opts) b)"

definition assertEqualQuickInfos ::
  "('f, ('w, 'h) tst) FSOptions \<Rightarrow> nat \<Rightarrow> quickInfo list \<Rightarrow> quickInfo list \<Rightarrow> (('w, 'h) tst, bool) prog" where
  "assertEqualQuickInfos opts tb a b =
     assert_Equal tb (map (mask_info (modeMask opts)) a) (map (mask_info (modeMask opts)) b)"

definition infos_val :: "quickInfo list \<Rightarrow> goval" where
  "infos_val qs = VSlice (if qs = [] then None else Some (map info_val qs))"

definition assertSubsetQuickInfos ::
  "('f, ('w, 'h) tst) FSOptions \<Rightarrow> nat \<Rightarrow> quickInfo list \<Rightarrow> quickInfo list \<Rightarrow> (('w, 'h) tst, bool) prog" where
  "assertSubsetQuickInfos opts tb a b =
     assert_Subset tb (infos_val (map (mask_info (modeMask opts)) a)) (infos_val (map (mask_info (modeMask opts)) b))"


subsection \<open>Comparing errors\<close>

definition assertEqualErrPath ::
  "('f, ('w, 'h) tst) FSOptions \<Rightarrow> nat \<Rightarrow> string \<Rightarrow> string \<Rightarrow> (('w, 'h) tst, unit) prog" where
  "assertEqualErrPath opts tb expected actual =
     seq (if AllowErrPathPrefix (opt_Constraints opts) \<and> expected \<noteq> actual
          then assert_Suffix tb (''/'' @ expected) actual
          else assert_Equal tb expected actual) (\<lambda>_. ret ())"

definition assertEqualErrField :: "nat \<Rightarrow> err \<Rightarrow> err \<Rightarrow> (('w, 'h) tst, unit) prog" where
  "assertEqualErrField tb expected actual =
     seq (assert_NotZero tb (VErr expected)) (\<lambda>ok.
     seq (if ok then assert_NotZero tb (VErr actual) else ret False) (\<lambda>ok.
     if \<not> ok then ret ()
     else if \<not> errors_Is actual expected \<and> Error expected \<noteq> Error actual
     then seq (assert_ErrorIs tb expected (Some actual)) (\<lambda>_. ret ())
     else ret ()))"

text \<open>The expected error is \<open>&PathError{op, path, e}\<close>.\<close>

definition assertEqualPathErr ::
  "('f, ('w, 'h) tst) FSOptions \<Rightarrow> nat \<Rightarrow> string \<Rightarrow> string \<Rightarrow> err \<Rightarrow> err option \<Rightarrow> (('w, 'h) tst, unit) prog" where
  "assertEqualPathErr opts tb op path e actual =
     seq (assert_IsType tb (VErr (PathError op path e)) (errval actual)) (\<lambda>ok.
     case actual of
       Some (PathError op' path' e') \<Rightarrow>
         if \<not> ok then ret ()
         else
           seq (assert_Equal tb op op') (\<lambda>_.
           seq (assertEqualErrPath opts tb path path') (\<lambda>_.
           assertEqualErrField tb e e'))
     | _ \<Rightarrow> ret ())"

definition assertEqualLinkErr ::
  "('f, ('w, 'h) tst) FSOptions \<Rightarrow> nat \<Rightarrow> string \<Rightarrow> string \<Rightarrow> string \<Rightarrow> err \<Rightarrow> err option \<Rightarrow>
   (('w, 'h) tst, unit) prog" where
  "assertEqualLinkErr opts tb op old new e actual =
     seq (assert_IsType tb (VErr (LinkError op old new e)) (errval actual)) (\<lambda>ok.
     case actual of
       Some (LinkError op' old' new' e') \<Rightarrow>
         if \<not> ok then ret ()
         else
           seq (assert_Equal tb op op') (\<lambda>_.
           seq (assertEqualErrPath opts tb old old') (\<lambda>_.
           seq (assertEqualErrPath opts tb new new') (\<lambda>_.
           assertEqualErrField tb e e')))
     | _ \<Rightarrow> ret ())"


subsection \<open>Calls the tests make\<close>

definition fs_Open where
  "fs_Open I fs name = fs_open (i_Open I fs name)"

definition f_Read where
  "f_Read I f buf = file_call3 f (\<lambda>h. fl_Read I h buf)"

definition f_Write where
  "f_Write I f data = file_call2 f (\<lambda>h. WriteFile I h data)"

definition f_ReadDir where
  "f_ReadDir I f n = file_call2 f (\<lambda>h. ReadDirFile I h n)"

text \<open>The methods that every \<open>SetupFS\<close> has.\<close>

definition setup_OpenFile where
  "setup_OpenFile I fs name flag perm =
     (case i_OpenFile I fs of None \<Rightarrow> go_panic | Some openFile \<Rightarrow> fs_open (openFile name flag perm))"

definition setup_Mkdir where
  "setup_Mkdir I fs name perm =
     (case i_Mkdir I fs of None \<Rightarrow> go_panic | Some mkdir \<Rightarrow> fs_call1 (mkdir name perm))"

text \<open>The bytes of a string, and the expression \<open>buf[:n]\<close>.\<close>

definition bytes :: "string \<Rightarrow> byte list" where
  "bytes s = map of_char s"

definition slice_to :: "byte list \<Rightarrow> int \<Rightarrow> (('w, 'h) tst, byte list) prog" where
  "slice_to buf n = val_of (\<lambda>_. if 0 \<le> n \<and> n \<le> int (length buf) then Some (take (nat n) buf) else None)"

text \<open>\<open>io.ReadFull\<close>: it reads until the buffer is full or there is an error.\<close>

partial_function (option) read_full_loop where
  [code]: "read_full_loop I h buf n w =
     (if length buf \<le> n then Some (buf, n, None, h, w)
      else do {
        (b, k, e, h, w) \<leftarrow> fl_Read I h (drop n buf) w;
        if k < 0 \<or> int (length buf) < int n + k then None
        else
          (case e of
             None \<Rightarrow> read_full_loop I h (take n buf @ b) (n + nat k) w
           | Some e \<Rightarrow> Some (take n buf @ b, n + nat k, Some e, h, w))
      })"

definition io_ReadFull where
  "io_ReadFull I h buf w =
     do {
       (buf', n, e, h, w) \<leftarrow> read_full_loop I h buf 0 w;
       Some (buf', int n,
         (if length buf \<le> n then None
          else if 0 < n \<and> e = Some EOF then Some (ErrorString ''unexpected EOF'') else e), h, w)
     }"

text \<open>
  \<open>Format(time.RFC3339)\<close> writes a time without its fraction of a second; a time counts nanoseconds.
\<close>

definition second :: time where
  "second = 1000000000"

definition rfc3339 :: "time \<Rightarrow> int" where
  "rfc3339 t = t div second"

end
