(* ===== verification/FSTest_FS.thy ===== *)
theory FSTest_FS
  imports FSTest
begin

section \<open>The tests of a file system (\<open>fstest/fs.go\<close>)\<close>

text \<open>
  One definition per test function and per subtest, statement by statement. A subtest has the name of
  its test followed by its own.
\<close>

abbreviation createFlags :: flag where
  "createFlags \<equiv> FlagReadWrite OR FlagCreate OR FlagTruncate"


subsection \<open>The base tests\<close>

definition TestBaseCreate where
  "TestBaseCreate I opts tb =
     seq (Setup_FS opts tb) (\<lambda>(_, commit).
     seq commit (\<lambda>fs.
     seq (fs_open (Create I fs ''foo'')) (\<lambda>(file, err).
     seq (skipNotImplemented tb err) (\<lambda>_.
     seq (assert_NoError tb err) (\<lambda>_.
     seq (if_then (assert_NotZero tb (fileval file))
         (seq (assert_Close I tb file) (\<lambda>_.
          ret ()))) (\<lambda>_.
     ret ()))))))"

definition TestBaseMkdir where
  "TestBaseMkdir I opts tb =
     seq (Setup_FS opts tb) (\<lambda>(_, commit).
     seq commit (\<lambda>fs.
     seq (fs_call1 (Mkdir I fs ''foo'' 0x180)) (\<lambda>err.
     seq (skipNotImplemented tb err) (\<lambda>_.
     seq (assert_NoError tb err) (\<lambda>_.
     ret ())))))"

definition TestBaseChmod where
  "TestBaseChmod I opts tb =
     seq (Setup_FS opts tb) (\<lambda>(setupFS, commit).
     seq (fs_open (Create I setupFS ''foo'')) (\<lambda>(f, err).
     seq (if_then (assert_NoError tb err)
         (seq (assert_Close I tb f) (\<lambda>_.
          ret ()))) (\<lambda>_.
     seq commit (\<lambda>fs.
     seq (fs_call1 (Chmod I fs ''foo'' 0x1ED)) (\<lambda>err.
     seq (skipNotImplemented tb err) (\<lambda>_.
     seq (assert_NoError tb err) (\<lambda>_.
     ret ())))))))"

definition TestBaseChtimes where
  "TestBaseChtimes I opts tb =
     (let accessTime = opt_now opts in
     (let modifyTime = accessTime - 10 * second in
     seq (Setup_FS opts tb) (\<lambda>(setupFS, commit).
     seq (fs_open (Create I setupFS ''foo'')) (\<lambda>(f, err).
     seq (if_then (assert_NoError tb err)
         (seq (assert_Close I tb f) (\<lambda>_.
          ret ()))) (\<lambda>_.
     seq commit (\<lambda>fs.
     seq (fs_call1 (Chtimes I fs ''foo'' accessTime modifyTime)) (\<lambda>err.
     seq (skipNotImplemented tb err) (\<lambda>_.
     seq (assert_NoError tb err) (\<lambda>_.
     ret ())))))))))"

subsection \<open>\<open>Create\<close>\<close>

text \<open>
  \<open>createFn\<close> is the operation under test. The functions that the tests pass skip through the \<open>tb\<close> of
  the test they were made in, not of the subtest that calls them.
\<close>

definition testCreate_new_file where
  "testCreate_new_file I opts createFn tb =
     seq (Setup_FS opts tb) (\<lambda>(_, commit).
     seq commit (\<lambda>fs.
     seq (createFn fs ''foo'') (\<lambda>(file, err).
     seq (assert_NoError tb err) (\<lambda>_.
     seq (if_then (assert_NotZero tb (fileval file))
         (seq (assert_Close I tb file) (\<lambda>_.
          ret ()))) (\<lambda>_.
     seq (fs_call1 (Stat I fs ''foo'')) (\<lambda>r.
     seq (assert_NoError tb (err_of r)) (\<lambda>_.
     seq (asQuickInfo I (info_of r)) (\<lambda>q.
     seq (assertEqualQuickInfo opts tb (mk_info ''foo'' 0 0x1B6 False) q) (\<lambda>_.
     ret ())))))))))"

definition testCreate_existing_file where
  "testCreate_existing_file I opts createFn tb =
     (let fileContents = bytes ''hello world'' in
     seq (Setup_FS opts tb) (\<lambda>(setupFS, commit).
     seq (setup_OpenFile I setupFS ''foo'' (FlagReadWrite OR FlagCreate) 0x1ED) (\<lambda>(file, err).
     seq (if_then (assert_NoError tb err)
         (seq (f_Write I file fileContents) (\<lambda>(_, err).
          seq (assert_NoError tb err) (\<lambda>_.
          seq (assert_Close I tb file) (\<lambda>_.
          ret ()))))) (\<lambda>_.
     seq commit (\<lambda>fs.
     seq (createFn fs ''foo'') (\<lambda>(file, err).
     seq (if_then (assert_NoError tb err)
         (seq (assert_Close I tb file) (\<lambda>_.
          ret ()))) (\<lambda>_.
     seq (fs_call1 (Stat I fs ''foo'')) (\<lambda>r.
     seq (assert_NoError tb (err_of r)) (\<lambda>_.
     seq (asQuickInfo I (info_of r)) (\<lambda>q.
     seq (assertEqualQuickInfo opts tb (mk_info ''foo'' 0 0x1ED False) q) (\<lambda>_.
     ret ())))))))))))"

definition testCreate_existing_directory where
  "testCreate_existing_directory I opts createFn tb =
     seq (Setup_FS opts tb) (\<lambda>(setupFS, commit).
     seq (setup_Mkdir I setupFS ''foo'' 0x1C0) (\<lambda>e.
     seq (assert_NoError tb e) (\<lambda>_.
     seq commit (\<lambda>fs.
     seq (createFn fs ''foo'') (\<lambda>(_, err).
     seq (assertEqualPathErr opts tb ''open'' ''foo'' ErrIsDir err) (\<lambda>_.
     ret ()))))))"

definition testCreate_parent_directory_must_exist where
  "testCreate_parent_directory_must_exist I opts createFn tb =
     seq (Setup_FS opts tb) (\<lambda>(_, commit).
     seq commit (\<lambda>fs.
     seq (createFn fs ''foo/bar'') (\<lambda>(_, err).
     seq (assertEqualPathErr opts tb ''open'' ''foo/bar'' ErrNotExist err) (\<lambda>_.
     ret ()))))"

definition testCreate where
  "testCreate I opts createFn tb =
     seq (Setup_FS opts tb) (\<lambda>(_, commit).
     seq commit (\<lambda>fs.
     seq (createFn fs ''foo'') (\<lambda>(f, err).
     seq (if_then (assert_NoError tb err)
         (seq (assert_Close I tb f) (\<lambda>_.
          ret ()))) (\<lambda>_.
     seq (tbRun I opts False tb ''new file'' (testCreate_new_file I opts createFn)) (\<lambda>_.
     seq (tbRun I opts False tb ''existing file'' (testCreate_existing_file I opts createFn)) (\<lambda>_.
     seq (tbRun I opts False tb ''existing directory'' (testCreate_existing_directory I opts createFn)) (\<lambda>_.
     seq (tbRun I opts False tb ''parent directory must exist'' (testCreate_parent_directory_must_exist I opts createFn)) (\<lambda>_.
     ret ()))))))))"

definition TestCreate where
  "TestCreate I opts tb =
     testCreate I opts (\<lambda>fs name.
     seq (fs_open (Create I fs name)) (\<lambda>(file, err).
     seq (skipNotImplemented tb err) (\<lambda>_.
     ret (file, err)))) tb"

subsection \<open>\<open>Mkdir\<close>\<close>

definition TestMkdir_fail_dir_exists where
  "TestMkdir_fail_dir_exists I opts tb =
     seq (Setup_FS opts tb) (\<lambda>(_, commit).
     seq commit (\<lambda>fs.
     seq (fs_call1 (Mkdir I fs ''foo'' 0x180)) (\<lambda>err.
     seq (skipNotImplemented tb err) (\<lambda>_.
     seq (assert_NoError tb err) (\<lambda>_.
     seq (fs_call1 (Mkdir I fs ''foo'' 0x180)) (\<lambda>err.
     seq (assertEqualPathErr opts tb ''mkdir'' ''foo'' ErrExist err) (\<lambda>_.
     seq (tryAssertEqualFS I opts tb [(''foo'', mk_entry 0 (ModeDir OR 0x180) True)] fs) (\<lambda>_.
     ret ()))))))))"

definition TestMkdir_fail_file_exists where
  "TestMkdir_fail_file_exists I opts tb =
     seq (Setup_FS opts tb) (\<lambda>(setupFS, commit).
     seq (fs_open (Create I setupFS ''foo'')) (\<lambda>(f, err).
     seq (if_then (assert_NoError tb err)
         (seq (assert_Close I tb f) (\<lambda>_.
          ret ()))) (\<lambda>_.
     seq commit (\<lambda>fs.
     seq (fs_call1 (Mkdir I fs ''foo'' 0x180)) (\<lambda>err.
     seq (skipNotImplemented tb err) (\<lambda>_.
     seq (assertEqualPathErr opts tb ''mkdir'' ''foo'' ErrExist err) (\<lambda>_.
     seq (tryAssertEqualFS I opts tb [(''foo'', mk_entry 0 0x1B6 False)] fs) (\<lambda>_.
     ret ()))))))))"

definition TestMkdir_create_sub_dir where
  "TestMkdir_create_sub_dir I opts tb =
     seq (Setup_FS opts tb) (\<lambda>(_, commit).
     seq commit (\<lambda>fs.
     seq (fs_call1 (Mkdir I fs ''foo'' 0x1C0)) (\<lambda>err.
     seq (skipNotImplemented tb err) (\<lambda>_.
     seq (assert_NoError tb err) (\<lambda>_.
     seq (fs_call1 (Mkdir I fs ''foo/bar'' 0x180)) (\<lambda>err.
     seq (assert_NoError tb err) (\<lambda>_.
     seq (tryAssertEqualFS I opts tb
          [(''foo'', mk_entry 0 (ModeDir OR 0x1C0) True),
           (''foo/bar'', mk_entry 0 (ModeDir OR 0x180) True)] fs) (\<lambda>_.
     ret ()))))))))"

definition TestMkdir_only_permission_bits_allowed where
  "TestMkdir_only_permission_bits_allowed I opts tb =
     seq (Setup_FS opts tb) (\<lambda>(_, commit).
     seq commit (\<lambda>fs.
     seq (fs_call1 (Mkdir I fs ''foo'' (ModeSocket OR 0x1ED))) (\<lambda>err.
     seq (skipNotImplemented tb err) (\<lambda>_.
     seq (assert_NoError tb err) (\<lambda>_.
     seq (tryAssertEqualFS I opts tb [(''foo'', mk_entry 0 (ModeDir OR 0x1ED) True)] fs) (\<lambda>_.
     ret ()))))))"

definition TestMkdir_parent_directory_must_exist where
  "TestMkdir_parent_directory_must_exist I opts tb =
     seq (Setup_FS opts tb) (\<lambda>(_, commit).
     seq commit (\<lambda>fs.
     seq (fs_call1 (Mkdir I fs ''foo/bar'' 0x1ED)) (\<lambda>err.
     seq (skipNotImplemented tb err) (\<lambda>_.
     seq (assertEqualPathErr opts tb ''mkdir'' ''foo/bar'' ErrNotExist err) (\<lambda>_.
     seq (tryAssertEqualFS I opts tb [] fs) (\<lambda>_.
     ret ()))))))"

definition TestMkdir where
  "TestMkdir I opts tb =
     seq (tbRun I opts False tb ''fail dir exists'' (TestMkdir_fail_dir_exists I opts)) (\<lambda>_.
     seq (tbRun I opts False tb ''fail file exists'' (TestMkdir_fail_file_exists I opts)) (\<lambda>_.
     seq (tbRun I opts False tb ''create sub dir'' (TestMkdir_create_sub_dir I opts)) (\<lambda>_.
     seq (tbRun I opts False tb ''only permission bits allowed'' (TestMkdir_only_permission_bits_allowed I opts)) (\<lambda>_.
     seq (tbRun I opts False tb ''parent directory must exist'' (TestMkdir_parent_directory_must_exist I opts)) (\<lambda>_.
     ret ())))))"

subsection \<open>\<open>MkdirAll\<close>\<close>

definition TestMkdirAll_create_one_directory where
  "TestMkdirAll_create_one_directory I opts tb =
     seq (Setup_FS opts tb) (\<lambda>(_, commit).
     seq commit (\<lambda>fs.
     seq (fs_call1 (MkdirAll I fs ''foo'' 0x1C0)) (\<lambda>err.
     seq (skipNotImplemented tb err) (\<lambda>_.
     seq (assert_NoError tb err) (\<lambda>_.
     seq (tryAssertEqualFS I opts tb [(''foo'', mk_entry 0 (ModeDir OR 0x1C0) True)] fs) (\<lambda>_.
     ret ()))))))"

definition TestMkdirAll_create_multiple_directories where
  "TestMkdirAll_create_multiple_directories I opts tb =
     seq (Setup_FS opts tb) (\<lambda>(_, commit).
     seq commit (\<lambda>fs.
     seq (fs_call1 (MkdirAll I fs ''foo/bar'' 0x1C0)) (\<lambda>err.
     seq (skipNotImplemented tb err) (\<lambda>_.
     seq (assert_NoError tb err) (\<lambda>_.
     seq (tryAssertEqualFS I opts tb
          [(''foo'', mk_entry 0 (ModeDir OR 0x1C0) True),
           (''foo/bar'', mk_entry 0 (ModeDir OR 0x1C0) True)] fs) (\<lambda>_.
     ret ()))))))"

definition TestMkdirAll_all_directories_exist where
  "TestMkdirAll_all_directories_exist I opts tb =
     seq (Setup_FS opts tb) (\<lambda>(setupFS, commit).
     seq (setup_Mkdir I setupFS ''foo'' 0x1C0) (\<lambda>e.
     seq (assert_NoError tb e) (\<lambda>_.
     seq (setup_Mkdir I setupFS ''foo/bar'' 0x1A4) (\<lambda>e.
     seq (assert_NoError tb e) (\<lambda>_.
     seq commit (\<lambda>fs.
     seq (fs_call1 (MkdirAll I fs ''foo/bar'' 0x180)) (\<lambda>err.
     seq (skipNotImplemented tb err) (\<lambda>_.
     seq (assert_NoError tb err) (\<lambda>_.
     seq (tryAssertEqualFS I opts tb
          [(''foo'', mk_entry 0 (ModeDir OR 0x1C0) True),
           (''foo/bar'', mk_entry 0 (ModeDir OR 0x1A4) True)] fs) (\<lambda>_.
     ret ()))))))))))"

definition TestMkdirAll_file_exists where
  "TestMkdirAll_file_exists I opts tb =
     seq (Setup_FS opts tb) (\<lambda>(setupFS, commit).
     seq (fs_open (Create I setupFS ''foo'')) (\<lambda>(f, err).
     seq (if_then (assert_NoError tb err)
         (seq (assert_Close I tb f) (\<lambda>_.
          ret ()))) (\<lambda>_.
     seq commit (\<lambda>fs.
     seq (fs_call1 (MkdirAll I fs ''foo/bar'' 0x1C0)) (\<lambda>err.
     seq (skipNotImplemented tb err) (\<lambda>_.
     seq (assertEqualPathErr opts tb ''mkdir'' ''foo'' ErrNotDir err) (\<lambda>_.
     seq (tryAssertEqualFS I opts tb [(''foo'', mk_entry 0 0x1B6 False)] fs) (\<lambda>_.
     ret ()))))))))"

definition TestMkdirAll_illegal_permission_bits where
  "TestMkdirAll_illegal_permission_bits I opts tb =
     seq (Setup_FS opts tb) (\<lambda>(_, commit).
     seq commit (\<lambda>fs.
     seq (fs_call1 (MkdirAll I fs ''foo/bar'' (ModeSocket OR 0x1FF))) (\<lambda>err.
     seq (skipNotImplemented tb err) (\<lambda>_.
     seq (assert_NoError tb err) (\<lambda>_.
     seq (tryAssertEqualFS I opts tb
          [(''foo'', mk_entry 0 (ModeDir OR 0x1FF) True),
           (''foo/bar'', mk_entry 0 (ModeDir OR 0x1FF) True)] fs) (\<lambda>_.
     ret ()))))))"

definition TestMkdirAll where
  "TestMkdirAll I opts tb =
     seq (tbRun I opts False tb ''create one directory'' (TestMkdirAll_create_one_directory I opts)) (\<lambda>_.
     seq (tbRun I opts False tb ''create multiple directories'' (TestMkdirAll_create_multiple_directories I opts)) (\<lambda>_.
     seq (tbRun I opts False tb ''all directories exist'' (TestMkdirAll_all_directories_exist I opts)) (\<lambda>_.
     seq (tbRun I opts False tb ''file exists'' (TestMkdirAll_file_exists I opts)) (\<lambda>_.
     seq (tbRun I opts False tb ''illegal permission bits'' (TestMkdirAll_illegal_permission_bits I opts)) (\<lambda>_.
     ret ())))))"

subsection \<open>\<open>Open\<close>\<close>

definition testOpen_invalid_path where
  "testOpen_invalid_path opts openFn tb =
     seq (Setup_FS opts tb) (\<lambda>(_, commit).
     seq commit (\<lambda>fs.
     seq (openFn fs ''foo/../bar'') (\<lambda>(_, err).
     seq (assertEqualPathErr opts tb ''open'' ''foo/../bar'' ErrInvalid err) (\<lambda>_.
     ret ()))))"

definition testOpen_does_not_exist where
  "testOpen_does_not_exist opts openFn tb =
     seq (Setup_FS opts tb) (\<lambda>(_, commit).
     seq commit (\<lambda>fs.
     seq (openFn fs ''foo'') (\<lambda>(_, err).
     seq (assertEqualPathErr opts tb ''open'' ''foo'' ErrNotExist err) (\<lambda>_.
     ret ()))))"

definition testOpen_open_file where
  "testOpen_open_file I opts openFn tb =
     seq (Setup_FS opts tb) (\<lambda>(setupFS, commit).
     seq (fs_open (Create I setupFS ''foo'')) (\<lambda>(f, err).
     seq (if_then (assert_NoError tb err)
         (seq (assert_Close I tb f) (\<lambda>_.
          ret ()))) (\<lambda>_.
     seq commit (\<lambda>fs.
     seq (openFn fs ''foo'') (\<lambda>(f, err).
     seq (assert_NoError tb err) (\<lambda>_.
     seq (if_then (assert_NotZero tb (fileval f))
         (seq (assert_Close I tb f) (\<lambda>_.
          ret ()))) (\<lambda>_.
     ret ())))))))"

text \<open>A variable that only the body of an \<open>if\<close> sets is the result of that statement.\<close>

definition write_contents where
  "write_contents I tb f contents =
     seq (f_Write I f contents) (\<lambda>(n, err).
     seq (assert_NoError tb err) (\<lambda>_.
     seq (assert_Close I tb f) (\<lambda>_.
     ret n)))"

definition testOpen_supports_reads where
  "testOpen_supports_reads I opts openFn tb =
     (let fileContents = bytes ''hello world'' in
     seq (Setup_FS opts tb) (\<lambda>(setupFS, commit).
     seq (fs_open (Create I setupFS ''foo'')) (\<lambda>(f, err).
     seq (assert_NoError tb err) (\<lambda>ok.
     seq (if ok then write_contents I tb f fileContents else ret 0) (\<lambda>n.
     seq commit (\<lambda>fs.
     seq (openFn fs ''foo'') (\<lambda>(f, err).
     seq (assert_NoError tb err) (\<lambda>ok.
     seq (if \<not> ok then tb_FailNow tb else ret ()) (\<lambda>_.
     seq (val_of (\<lambda>_. if n < 0 then None else Some (replicate (nat n) 0))) (\<lambda>buf.
     seq (file_call3 f (\<lambda>h. io_ReadFull I h buf)) (\<lambda>(buf, n2, err).
     seq (assert_NoError tb err) (\<lambda>_.
     seq (assert_Equal tb n n2) (\<lambda>_.
     seq (assert_Equal tb fileContents buf) (\<lambda>_.
     seq (assert_Close I tb f) (\<lambda>_.
     ret ())))))))))))))))"

definition testOpen_fails_writes where
  "testOpen_fails_writes I opts openFn tb =
     seq (Setup_FS opts tb) (\<lambda>(setupFS, commit).
     seq (fs_open (Create I setupFS ''foo'')) (\<lambda>(f, err).
     seq (if_then (assert_NoError tb err)
         (seq (assert_Close I tb f) (\<lambda>_.
          ret ()))) (\<lambda>_.
     seq commit (\<lambda>fs.
     seq (openFn fs ''foo'') (\<lambda>(f, err).
     seq (if_then (assert_NoError tb err)
         (seq (f_Write I f (bytes ''bar'')) (\<lambda>(_, err).
          seq (assert_Error tb err) (\<lambda>_.
          seq (assert_Close I tb f) (\<lambda>_.
          ret ()))))) (\<lambda>_.
     ret ()))))))"

definition testOpen where
  "testOpen I opts openFn tb =
     seq (tbRun I opts False tb ''invalid path'' (testOpen_invalid_path opts openFn)) (\<lambda>_.
     seq (tbRun I opts False tb ''does not exist'' (testOpen_does_not_exist opts openFn)) (\<lambda>_.
     seq (tbRun I opts False tb ''open file'' (testOpen_open_file I opts openFn)) (\<lambda>_.
     seq (tbRun I opts False tb ''supports reads'' (testOpen_supports_reads I opts openFn)) (\<lambda>_.
     seq (tbRun I opts False tb ''fails writes'' (testOpen_fails_writes I opts openFn)) (\<lambda>_.
     ret ())))))"

definition TestOpen where
  "TestOpen I opts tb =
     testOpen I opts (\<lambda>fs name. fs_Open I fs name) tb"

subsection \<open>\<open>OpenFile\<close>\<close>

definition TestOpenFile_read_only where
  "TestOpenFile_read_only I opts tb =
     testOpen I opts (\<lambda>fs name.
     seq (fs_open (OpenFile I fs name FlagReadOnly 0x1FF)) (\<lambda>(file, err).
     seq (skipNotImplemented tb err) (\<lambda>_.
     ret (file, err)))) tb"

definition TestOpenFile_create where
  "TestOpenFile_create I opts tb =
     testCreate I opts (\<lambda>fs name.
     seq (fs_open (OpenFile I fs name createFlags 0x1B6)) (\<lambda>(file, err).
     seq (skipNotImplemented tb err) (\<lambda>_.
     ret (file, err)))) tb"

definition TestOpenFile_create_illegal_perms where
  "TestOpenFile_create_illegal_perms I opts tb =
     seq (Setup_FS opts tb) (\<lambda>(_, commit).
     seq commit (\<lambda>fs.
     seq (fs_open (OpenFile I fs ''foo'' (FlagReadOnly OR FlagCreate) (ModeSocket OR 0x1FF))) (\<lambda>(f, err).
     seq (skipNotImplemented tb err) (\<lambda>_.
     seq (if_then (assert_NoError tb err)
         (seq (assert_Close I tb f) (\<lambda>_.
          ret ()))) (\<lambda>_.
     seq (tryAssertEqualFS I opts tb [(''foo'', mk_entry 0 0x1FF False)] fs) (\<lambda>_.
     ret ()))))))"

definition TestOpenFile_truncate_on_existing_file where
  "TestOpenFile_truncate_on_existing_file I opts tb =
     (let fileContents = bytes ''hello world'' in
     seq (Setup_FS opts tb) (\<lambda>(setupFS, commit).
     seq (fs_open (Create I setupFS ''foo'')) (\<lambda>(f, err).
     seq (if_then (assert_NoError tb err)
         (seq (f_Write I f fileContents) (\<lambda>(_, err).
          seq (assert_NoError tb err) (\<lambda>_.
          seq (assert_Close I tb f) (\<lambda>_.
          ret ()))))) (\<lambda>_.
     seq commit (\<lambda>fs.
     seq (fs_open (OpenFile I fs ''foo'' (FlagTruncate OR FlagWriteOnly) 0x1C0)) (\<lambda>(f, err).
     seq (skipNotImplemented tb err) (\<lambda>_.
     seq (if_then (assert_NoError tb err)
         (seq (assert_Close I tb f) (\<lambda>_.
          ret ()))) (\<lambda>_.
     seq (tryAssertEqualFS I opts tb [(''foo'', mk_entry 0 0x1B6 False)] fs) (\<lambda>_.
     ret ())))))))))"

definition TestOpenFile_truncate_on_non_existent_file where
  "TestOpenFile_truncate_on_non_existent_file I opts tb =
     seq (Setup_FS opts tb) (\<lambda>(_, commit).
     seq commit (\<lambda>fs.
     seq (fs_open (OpenFile I fs ''foo'' (FlagTruncate OR FlagWriteOnly) 0x1C0)) (\<lambda>(_, err).
     seq (skipNotImplemented tb err) (\<lambda>_.
     seq (assertEqualPathErr opts tb ''open'' ''foo'' ErrNotExist err) (\<lambda>_.
     ret ())))))"

definition TestOpenFile_truncate_on_existing_dir where
  "TestOpenFile_truncate_on_existing_dir I opts tb =
     seq (Setup_FS opts tb) (\<lambda>(setupFS, commit).
     seq (setup_Mkdir I setupFS ''foo'' 0x1C0) (\<lambda>e.
     seq (assert_NoError tb e) (\<lambda>_.
     seq commit (\<lambda>fs.
     seq (fs_open (OpenFile I fs ''foo'' (FlagTruncate OR FlagWriteOnly) 0x1C0)) (\<lambda>(_, err).
     seq (skipNotImplemented tb err) (\<lambda>_.
     seq (assertEqualPathErr opts tb ''open'' ''foo'' ErrIsDir err) (\<lambda>_.
     ret ())))))))"

definition TestOpenFile_append_flag_writes_to_end where
  "TestOpenFile_append_flag_writes_to_end I opts tb =
     (let fileContents1 = bytes ''hello world'' in
     (let fileContents2 = bytes ''sup '' in
     seq (Setup_FS opts tb) (\<lambda>(setupFS, commit).
     seq (fs_open (Create I setupFS ''foo'')) (\<lambda>(f, err).
     seq (if_then (assert_NoError tb err)
         (seq (f_Write I f fileContents1) (\<lambda>(_, err).
          seq (assert_NoError tb err) (\<lambda>_.
          seq (assert_Close I tb f) (\<lambda>_.
          ret ()))))) (\<lambda>_.
     seq commit (\<lambda>fs.
     seq (fs_open (OpenFile I fs ''foo'' (FlagReadWrite OR FlagAppend) 0x1C0)) (\<lambda>(f, err).
     seq (skipNotImplemented tb err) (\<lambda>_.
     seq (if_then (assert_NoError tb err)
         (seq (f_Write I f fileContents2) (\<lambda>(_, err).
          seq (assert_NoError tb err) (\<lambda>_.
          seq (assert_Close I tb f) (\<lambda>_.
          ret ()))))) (\<lambda>_.
     seq (tryAssertEqualFS I opts tb
          [(''foo'', mk_entry (int (length fileContents1 + length fileContents2)) 0x1B6 False)] fs) (\<lambda>_.
     ret ()))))))))))"

definition TestOpenFile where
  "TestOpenFile I opts tb =
     seq (tbRun I opts False tb ''read-only'' (TestOpenFile_read_only I opts)) (\<lambda>_.
     seq (tbRun I opts False tb ''create'' (TestOpenFile_create I opts)) (\<lambda>_.
     seq (tbRun I opts False tb ''create illegal perms'' (TestOpenFile_create_illegal_perms I opts)) (\<lambda>_.
     seq (tbRun I opts False tb ''truncate on existing file'' (TestOpenFile_truncate_on_existing_file I opts)) (\<lambda>_.
     seq (tbRun I opts False tb ''truncate on non-existent file'' (TestOpenFile_truncate_on_non_existent_file I opts)) (\<lambda>_.
     seq (tbRun I opts False tb ''truncate on existing dir'' (TestOpenFile_truncate_on_existing_dir I opts)) (\<lambda>_.
     seq (tbRun I opts False tb ''append flag writes to end'' (TestOpenFile_append_flag_writes_to_end I opts)) (\<lambda>_.
     ret ())))))))"

subsection \<open>\<open>Remove\<close>\<close>

definition TestRemove_remove_file where
  "TestRemove_remove_file I opts tb =
     seq (Setup_FS opts tb) (\<lambda>(setupFS, commit).
     seq (fs_open (Create I setupFS ''foo'')) (\<lambda>(f, err).
     seq (if_then (assert_NoError tb err)
         (seq (assert_Close I tb f) (\<lambda>_.
          ret ()))) (\<lambda>_.
     seq commit (\<lambda>fs.
     seq (fs_call1 (Remove I fs ''foo'')) (\<lambda>err.
     seq (skipNotImplemented tb err) (\<lambda>_.
     seq (assert_NoError tb err) (\<lambda>_.
     seq (tryAssertEqualFS I opts tb [] fs) (\<lambda>_.
     ret ()))))))))"

definition TestRemove_remove_empty_dir where
  "TestRemove_remove_empty_dir I opts tb =
     seq (Setup_FS opts tb) (\<lambda>(setupFS, commit).
     seq (setup_Mkdir I setupFS ''foo'' 0x1C0) (\<lambda>e.
     seq (assert_NoError tb e) (\<lambda>_.
     seq commit (\<lambda>fs.
     seq (fs_call1 (Remove I fs ''foo'')) (\<lambda>err.
     seq (skipNotImplemented tb err) (\<lambda>_.
     seq (tryAssertEqualFS I opts tb [] fs) (\<lambda>_.
     ret ())))))))"

definition TestRemove_remove_non_existing_file where
  "TestRemove_remove_non_existing_file I opts tb =
     seq (Setup_FS opts tb) (\<lambda>(_, commit).
     seq commit (\<lambda>fs.
     seq (fs_call1 (Remove I fs ''foo'')) (\<lambda>err.
     seq (skipNotImplemented tb err) (\<lambda>_.
     seq (assertEqualPathErr opts tb ''remove'' ''foo'' ErrNotExist err) (\<lambda>_.
     seq (tryAssertEqualFS I opts tb [] fs) (\<lambda>_.
     ret ()))))))"

definition TestRemove_remove_non_empty_dir where
  "TestRemove_remove_non_empty_dir I opts tb =
     seq (Setup_FS opts tb) (\<lambda>(setupFS, commit).
     seq (setup_Mkdir I setupFS ''foo'' 0x1C0) (\<lambda>e.
     seq (assert_NoError tb e) (\<lambda>_.
     seq (fs_open (Create I setupFS ''foo/bar'')) (\<lambda>(f, err).
     seq (if_then (assert_NoError tb err)
         (seq (assert_Close I tb f) (\<lambda>_.
          ret ()))) (\<lambda>_.
     seq commit (\<lambda>fs.
     seq (fs_call1 (Remove I fs ''foo'')) (\<lambda>err.
     seq (skipNotImplemented tb err) (\<lambda>_.
     seq (assertEqualPathErr opts tb ''remove'' ''foo'' ErrNotEmpty err) (\<lambda>_.
     seq (tryAssertEqualFS I opts tb
          [(''foo'', mk_entry 0 (ModeDir OR 0x1C0) True), (''foo/bar'', mk_entry 0 0x1B6 False)] fs) (\<lambda>_.
     ret ()))))))))))"

definition TestRemove where
  "TestRemove I opts tb =
     seq (tbRun I opts False tb ''remove file'' (TestRemove_remove_file I opts)) (\<lambda>_.
     seq (tbRun I opts False tb ''remove empty dir'' (TestRemove_remove_empty_dir I opts)) (\<lambda>_.
     seq (tbRun I opts False tb ''remove non-existing file'' (TestRemove_remove_non_existing_file I opts)) (\<lambda>_.
     seq (tbRun I opts False tb ''remove non-empty dir'' (TestRemove_remove_non_empty_dir I opts)) (\<lambda>_.
     ret ()))))"

subsection \<open>\<open>RemoveAll\<close>\<close>

definition TestRemoveAll_remove_file where
  "TestRemoveAll_remove_file I opts tb =
     seq (Setup_FS opts tb) (\<lambda>(setupFS, commit).
     seq (fs_open (Create I setupFS ''foo'')) (\<lambda>(f, err).
     seq (if_then (assert_NoError tb err)
         (seq (assert_Close I tb f) (\<lambda>_.
          ret ()))) (\<lambda>_.
     seq commit (\<lambda>fs.
     seq (fs_call1 (RemoveAll I fs ''foo'')) (\<lambda>err.
     seq (skipNotImplemented tb err) (\<lambda>_.
     seq (assert_NoError tb err) (\<lambda>_.
     seq (tryAssertEqualFS I opts tb [] fs) (\<lambda>_.
     ret ()))))))))"

definition TestRemoveAll_remove_empty_dir where
  "TestRemoveAll_remove_empty_dir I opts tb =
     seq (Setup_FS opts tb) (\<lambda>(setupFS, commit).
     seq (setup_Mkdir I setupFS ''foo'' 0x1C0) (\<lambda>e.
     seq (assert_NoError tb e) (\<lambda>_.
     seq commit (\<lambda>fs.
     seq (fs_call1 (RemoveAll I fs ''foo'')) (\<lambda>err.
     seq (skipNotImplemented tb err) (\<lambda>_.
     seq (assert_NoError tb err) (\<lambda>_.
     seq (tryAssertEqualFS I opts tb [] fs) (\<lambda>_.
     ret ()))))))))"

definition TestRemoveAll_remove_non_existing_file where
  "TestRemoveAll_remove_non_existing_file I opts tb =
     seq (Setup_FS opts tb) (\<lambda>(_, commit).
     seq commit (\<lambda>fs.
     seq (fs_call1 (RemoveAll I fs ''foo'')) (\<lambda>err.
     seq (skipNotImplemented tb err) (\<lambda>_.
     seq (assert_NoError tb err) (\<lambda>_.
     seq (tryAssertEqualFS I opts tb [] fs) (\<lambda>_.
     ret ()))))))"

definition TestRemoveAll_remove_non_empty_dir where
  "TestRemoveAll_remove_non_empty_dir I opts tb =
     seq (Setup_FS opts tb) (\<lambda>(setupFS, commit).
     seq (setup_Mkdir I setupFS ''foo'' 0x1C0) (\<lambda>e.
     seq (assert_NoError tb e) (\<lambda>_.
     seq (fs_open (Create I setupFS ''foo/bar'')) (\<lambda>(f, err).
     seq (if_then (assert_NoError tb err)
         (seq (assert_Close I tb f) (\<lambda>_.
          ret ()))) (\<lambda>_.
     seq commit (\<lambda>fs.
     seq (fs_call1 (RemoveAll I fs ''foo'')) (\<lambda>err.
     seq (skipNotImplemented tb err) (\<lambda>_.
     seq (assert_NoError tb err) (\<lambda>_.
     seq (tryAssertEqualFS I opts tb [] fs) (\<lambda>_.
     ret ()))))))))))"

definition TestRemoveAll where
  "TestRemoveAll I opts tb =
     seq (tbRun I opts False tb ''remove file'' (TestRemoveAll_remove_file I opts)) (\<lambda>_.
     seq (tbRun I opts False tb ''remove empty dir'' (TestRemoveAll_remove_empty_dir I opts)) (\<lambda>_.
     seq (tbRun I opts False tb ''remove non-existing file'' (TestRemoveAll_remove_non_existing_file I opts)) (\<lambda>_.
     seq (tbRun I opts False tb ''remove non-empty dir'' (TestRemoveAll_remove_non_empty_dir I opts)) (\<lambda>_.
     ret ()))))"

subsection \<open>\<open>Rename\<close>\<close>

definition TestRename_oldpath_does_not_exist where
  "TestRename_oldpath_does_not_exist I opts tb =
     seq (Setup_FS opts tb) (\<lambda>(_, commit).
     seq commit (\<lambda>fs.
     seq (fs_call1 (Rename I fs ''foo'' ''bar'')) (\<lambda>err.
     seq (skipNotImplemented tb err) (\<lambda>_.
     seq (assertEqualLinkErr opts tb ''rename'' ''foo'' ''bar'' ErrNotExist err) (\<lambda>_.
     ret ())))))"

definition TestRename_inside_same_directory where
  "TestRename_inside_same_directory I opts tb =
     seq (Setup_FS opts tb) (\<lambda>(setupFS, commit).
     seq (setup_Mkdir I setupFS ''foo'' 0x1C0) (\<lambda>e.
     seq (assert_NoError tb e) (\<lambda>_.
     seq (fs_open (Create I setupFS ''foo/bar'')) (\<lambda>(f, err).
     seq (if_then (assert_NoError tb err)
         (seq (assert_Close I tb f) (\<lambda>_.
          ret ()))) (\<lambda>_.
     seq commit (\<lambda>fs.
     seq (fs_call1 (Rename I fs ''foo/bar'' ''foo/baz'')) (\<lambda>err.
     seq (skipNotImplemented tb err) (\<lambda>_.
     seq (assert_NoError tb err) (\<lambda>_.
     seq (tryAssertEqualFS I opts tb
          [(''foo'', mk_entry 0 (ModeDir OR 0x1C0) True), (''foo/baz'', mk_entry 0 0x1B6 False)] fs) (\<lambda>_.
     ret ()))))))))))"

definition TestRename_inside_same_directory_in_root where
  "TestRename_inside_same_directory_in_root I opts tb =
     seq (Setup_FS opts tb) (\<lambda>(setupFS, commit).
     seq (fs_open (Create I setupFS ''bar'')) (\<lambda>(f, err).
     seq (if_then (assert_NoError tb err)
         (seq (assert_Close I tb f) (\<lambda>_.
          ret ()))) (\<lambda>_.
     seq commit (\<lambda>fs.
     seq (fs_call1 (Rename I fs ''bar'' ''baz'')) (\<lambda>err.
     seq (skipNotImplemented tb err) (\<lambda>_.
     seq (assert_NoError tb err) (\<lambda>_.
     seq (tryAssertEqualFS I opts tb [(''baz'', mk_entry 0 0x1B6 False)] fs) (\<lambda>_.
     ret ()))))))))"

definition TestRename_same_file where
  "TestRename_same_file I opts tb =
     (let fileContents = bytes ''hello world'' in
     seq (Setup_FS opts tb) (\<lambda>(setupFS, commit).
     seq (setup_Mkdir I setupFS ''foo'' 0x1C0) (\<lambda>e.
     seq (assert_NoError tb e) (\<lambda>_.
     seq (fs_call1 (WriteFullFile I setupFS ''foo/bar'' fileContents 0x1B6)) (\<lambda>e.
     seq (assert_NoError tb e) (\<lambda>_.
     seq commit (\<lambda>fs.
     seq (fs_call1 (Rename I fs ''foo/bar'' ''foo/bar'')) (\<lambda>err.
     seq (skipNotImplemented tb err) (\<lambda>_.
     seq (assert_NoError tb err) (\<lambda>_.
     seq (tryAssertEqualFS I opts tb
          [(''foo'', mk_entry 0 (ModeDir OR 0x1C0) True),
           (''foo/bar'', mk_entry (int (length fileContents)) 0x1B6 False)] fs) (\<lambda>_.
     ret ())))))))))))"

text \<open>
  The error of renaming onto a directory: a link error of this package, or one of package \<open>os\<close>, which
  is known by the name of its type and its text.
\<close>

definition assert_rename_exists where
  "assert_rename_exists opts tb old new err =
     seq (assert_Error tb err) (\<lambda>ok.
     if \<not> ok then ret ()
     else
       (case err of
          Some (LinkError _ _ _ _) \<Rightarrow> assertEqualLinkErr opts tb ''rename'' old new ErrExist err
        | Some e \<Rightarrow>
            seq (assert_Equal tb ''*os.LinkError'' (err_type e)) (\<lambda>_.
            seq (assert_Equal tb (''rename '' @ old @ '' '' @ new @ '': file exists'') (Error e)) (\<lambda>_.
            seq (assert_ErrorIs tb ErrExist err) (\<lambda>_.
            ret ())))
        | None \<Rightarrow> ret ()))"

definition TestRename_same_directory where
  "TestRename_same_directory I opts tb =
     seq (Setup_FS opts tb) (\<lambda>(setupFS, commit).
     seq (setup_Mkdir I setupFS ''foo'' 0x1C0) (\<lambda>e.
     seq (assert_NoError tb e) (\<lambda>_.
     seq commit (\<lambda>fs.
     seq (fs_call1 (Rename I fs ''foo'' ''foo'')) (\<lambda>err.
     seq (skipNotImplemented tb err) (\<lambda>_.
     seq (assert_rename_exists opts tb ''foo'' ''foo'' err) (\<lambda>_.
     seq (tryAssertEqualFS I opts tb [(''foo'', mk_entry 0 (ModeDir OR 0x1C0) True)] fs) (\<lambda>_.
     ret ()))))))))"

definition TestRename_newpath_is_directory where
  "TestRename_newpath_is_directory I opts tb =
     seq (Setup_FS opts tb) (\<lambda>(setupFS, commit).
     seq (setup_Mkdir I setupFS ''foo'' 0x1C0) (\<lambda>e.
     seq (assert_NoError tb e) (\<lambda>_.
     seq (setup_Mkdir I setupFS ''bar'' 0x1C0) (\<lambda>e.
     seq (assert_NoError tb e) (\<lambda>_.
     seq commit (\<lambda>fs.
     seq (fs_call1 (Rename I fs ''foo'' ''bar'')) (\<lambda>err.
     seq (skipNotImplemented tb err) (\<lambda>_.
     seq (assert_rename_exists opts tb ''foo'' ''bar'' err) (\<lambda>_.
     seq (tryAssertEqualFS I opts tb
          [(''foo'', mk_entry 0 (ModeDir OR 0x1C0) True), (''bar'', mk_entry 0 (ModeDir OR 0x1C0) True)] fs) (\<lambda>_.
     ret ()))))))))))"

definition TestRename_newpath_in_root where
  "TestRename_newpath_in_root I opts tb =
     (let fileContents = bytes ''hello world'' in
     seq (Setup_FS opts tb) (\<lambda>(setupFS, commit).
     seq (setup_Mkdir I setupFS ''foo'' 0x1C0) (\<lambda>e.
     seq (assert_NoError tb e) (\<lambda>_.
     seq (fs_call1 (WriteFullFile I setupFS ''foo/bar'' fileContents 0x1B6)) (\<lambda>e.
     seq (assert_NoError tb e) (\<lambda>_.
     seq commit (\<lambda>fs.
     seq (fs_call1 (Rename I fs ''foo/bar'' ''baz'')) (\<lambda>err.
     seq (skipNotImplemented tb err) (\<lambda>_.
     seq (assert_NoError tb err) (\<lambda>_.
     seq (tryAssertEqualFS I opts tb
          [(''foo'', mk_entry 0 (ModeDir OR 0x1C0) True),
           (''baz'', mk_entry (int (length fileContents)) 0x1B6 False)] fs) (\<lambda>_.
     ret ())))))))))))"

definition TestRename_newpath_in_subdirectory where
  "TestRename_newpath_in_subdirectory I opts tb =
     (let fileContents = bytes ''hello world'' in
     seq (Setup_FS opts tb) (\<lambda>(setupFS, commit).
     seq (setup_Mkdir I setupFS ''foo'' 0x1C0) (\<lambda>e.
     seq (assert_NoError tb e) (\<lambda>_.
     seq (fs_call1 (WriteFullFile I setupFS ''bar'' fileContents 0x1B6)) (\<lambda>e.
     seq (assert_NoError tb e) (\<lambda>_.
     seq commit (\<lambda>fs.
     seq (fs_call1 (Rename I fs ''bar'' ''foo/baz'')) (\<lambda>err.
     seq (skipNotImplemented tb err) (\<lambda>_.
     seq (assert_NoError tb err) (\<lambda>_.
     seq (tryAssertEqualFS I opts tb
          [(''foo'', mk_entry 0 (ModeDir OR 0x1C0) True),
           (''foo/baz'', mk_entry (int (length fileContents)) 0x1B6 False)] fs) (\<lambda>_.
     ret ())))))))))))"

definition TestRename_non_empty_directory where
  "TestRename_non_empty_directory I opts tb =
     (let fileContents = bytes ''hello world'' in
     seq (Setup_FS opts tb) (\<lambda>(setupFS, commit).
     seq (setup_Mkdir I setupFS ''foo'' 0x1C0) (\<lambda>e.
     seq (assert_NoError tb e) (\<lambda>_.
     seq (fs_call1 (WriteFullFile I setupFS ''foo/bar'' fileContents 0x1B6)) (\<lambda>e.
     seq (assert_NoError tb e) (\<lambda>_.
     seq commit (\<lambda>fs.
     seq (fs_call1 (Rename I fs ''foo'' ''baz'')) (\<lambda>err.
     seq (skipNotImplemented tb err) (\<lambda>_.
     seq (assert_NoError tb err) (\<lambda>_.
     seq (tryAssertEqualFS I opts tb
          [(''baz'', mk_entry 0 (ModeDir OR 0x1C0) True),
           (''baz/bar'', mk_entry (int (length fileContents)) 0x1B6 False)] fs) (\<lambda>_.
     ret ())))))))))))"

definition TestRename where
  "TestRename I opts tb =
     seq (tbRun I opts False tb ''oldpath does not exist'' (TestRename_oldpath_does_not_exist I opts)) (\<lambda>_.
     seq (tbRun I opts False tb ''inside same directory'' (TestRename_inside_same_directory I opts)) (\<lambda>_.
     seq (tbRun I opts False tb ''inside same directory in root'' (TestRename_inside_same_directory_in_root I opts)) (\<lambda>_.
     seq (tbRun I opts False tb ''same file'' (TestRename_same_file I opts)) (\<lambda>_.
     seq (tbRun I opts False tb ''same directory'' (TestRename_same_directory I opts)) (\<lambda>_.
     seq (tbRun I opts False tb ''newpath is directory'' (TestRename_newpath_is_directory I opts)) (\<lambda>_.
     seq (tbRun I opts False tb ''newpath in root'' (TestRename_newpath_in_root I opts)) (\<lambda>_.
     seq (tbRun I opts False tb ''newpath in subdirectory'' (TestRename_newpath_in_subdirectory I opts)) (\<lambda>_.
     seq (tbRun I opts False tb ''non-empty directory'' (TestRename_non_empty_directory I opts)) (\<lambda>_.
     ret ())))))))))"

subsection \<open>\<open>Stat\<close>\<close>

definition testStat_invalid_path where
  "testStat_invalid_path opts stater tb =
     seq (Setup_FS opts tb) (\<lambda>(_, commit).
     seq commit (\<lambda>fs.
     seq (stater tb fs ''foo/../bar'') (\<lambda>r.
     seq (assert_IsType tb (VErr (PathError [] [] ErrInvalid)) (errval (err_of r))) (\<lambda>ok.
     (case err_of r of
     Some (PathError op path e) \<Rightarrow>
     if \<not> ok then ret ()
     else
     seq (assert_Equal tb ''foo/../bar'' path) (\<lambda>_.
     seq (assert_ErrorIs tb ErrInvalid (err_of r)) (\<lambda>_.
     ret ()))
     | _ \<Rightarrow> ret ())))))"

definition testStat_stat_root where
  "testStat_stat_root I opts stater tb =
     seq (Setup_FS opts tb) (\<lambda>(_, commit).
     seq commit (\<lambda>fs.
     seq (stater tb fs dot) (\<lambda>r.
     seq (if_then (assert_NoError tb (err_of r))
         (seq (val_of (\<lambda>_. do { info \<leftarrow> info_of r; in_IsDir I info })) (\<lambda>isDir.
          seq (assert_Equal tb True isDir) (\<lambda>_.
          ret ())))) (\<lambda>_.
     ret ()))))"

definition testStat_stat_a_file where
  "testStat_stat_a_file I opts stater tb =
     seq (Setup_FS opts tb) (\<lambda>(setupFS, commit).
     seq (fs_open (Create I setupFS ''foo'')) (\<lambda>(f, err).
     seq (if_then (assert_NoError tb err)
         (seq (assert_Close I tb f) (\<lambda>_.
          ret ()))) (\<lambda>_.
     seq (fs_call1 (Chmod I setupFS ''foo'' 0x1ED)) (\<lambda>e.
     seq (assert_NoError tb e) (\<lambda>_.
     seq commit (\<lambda>fs.
     seq (stater tb fs ''foo'') (\<lambda>r.
     seq (assert_NoError tb (err_of r)) (\<lambda>_.
     seq (asQuickInfo I (info_of r)) (\<lambda>q.
     seq (assertEqualQuickInfo opts tb (mk_info ''foo'' 0 0x1ED False) q) (\<lambda>_.
     seq (assert_NotPanics tb (val_of (\<lambda>_. do { info \<leftarrow> info_of r; in_Sys I info }))) (\<lambda>_.
     ret ())))))))))))"

definition testStat_stat_a_directory where
  "testStat_stat_a_directory I opts stater tb =
     seq (Setup_FS opts tb) (\<lambda>(setupFS, commit).
     seq (setup_Mkdir I setupFS ''foo'' 0x1ED) (\<lambda>err.
     seq (assert_NoError tb err) (\<lambda>_.
     seq commit (\<lambda>fs.
     seq (stater tb fs ''foo'') (\<lambda>r.
     seq (assert_NoError tb (err_of r)) (\<lambda>_.
     seq (asQuickInfo I (info_of r)) (\<lambda>q.
     seq (assertEqualQuickInfo opts tb (mk_info ''foo'' 0 (ModeDir OR 0x1ED) True) q) (\<lambda>_.
     ret ()))))))))"

definition testStat_stat_nested_files where
  "testStat_stat_nested_files I opts stater tb =
     seq (Setup_FS opts tb) (\<lambda>(setupFS, commit).
     seq (setup_Mkdir I setupFS ''foo'' 0x1ED) (\<lambda>err.
     seq (assert_NoError tb err) (\<lambda>_.
     seq (setup_Mkdir I setupFS ''foo/bar'' 0x1ED) (\<lambda>err.
     seq (assert_NoError tb err) (\<lambda>_.
     seq (fs_open (Create I setupFS ''foo/bar/baz'')) (\<lambda>(f, err).
     seq (if_then (assert_NoError tb err)
         (seq (assert_Close I tb f) (\<lambda>_.
          ret ()))) (\<lambda>_.
     seq commit (\<lambda>fs.
     seq (stater tb fs ''foo/bar'') (\<lambda>r1.
     seq (assert_NoError tb (err_of r1)) (\<lambda>_.
     seq (stater tb fs ''foo/bar/baz'') (\<lambda>r2.
     seq (assert_NoError tb (err_of r2)) (\<lambda>_.
     seq (asQuickInfo I (info_of r1)) (\<lambda>q1.
     seq (assertEqualQuickInfo opts tb (mk_info ''bar'' 0 (ModeDir OR 0x1ED) True) q1) (\<lambda>_.
     seq (asQuickInfo I (info_of r2)) (\<lambda>q2.
     seq (assertEqualQuickInfo opts tb (mk_info ''baz'' 0 0x1B6 False) q2) (\<lambda>_.
     ret ()))))))))))))))))"

definition testStat where
  "testStat I opts stater tb =
     seq (tbRun I opts False tb ''invalid path'' (testStat_invalid_path opts stater)) (\<lambda>_.
     seq (tbRun I opts False tb ''stat root'' (testStat_stat_root I opts stater)) (\<lambda>_.
     seq (tbRun I opts False tb ''stat a file'' (testStat_stat_a_file I opts stater)) (\<lambda>_.
     seq (tbRun I opts False tb ''stat a directory'' (testStat_stat_a_directory I opts stater)) (\<lambda>_.
     seq (tbRun I opts False tb ''stat nested files'' (testStat_stat_nested_files I opts stater)) (\<lambda>_.
     ret ())))))"

definition TestStat where
  "TestStat I opts tb =
     testStat I opts (\<lambda>tb fs path.
     seq (fs_call1 (Stat I fs path)) (\<lambda>r.
     seq (skipNotImplemented tb (err_of r)) (\<lambda>_.
     ret r))) tb"

subsection \<open>\<open>Chmod\<close> and \<open>Chtimes\<close>\<close>

definition TestChmod_change_permission_bits where
  "TestChmod_change_permission_bits I opts tb =
     seq (Setup_FS opts tb) (\<lambda>(setupFS, commit).
     seq (fs_open (Create I setupFS ''foo'')) (\<lambda>(f, err).
     seq (if_then (assert_NoError tb err)
         (seq (assert_Close I tb f) (\<lambda>_.
          ret ()))) (\<lambda>_.
     seq commit (\<lambda>fs.
     seq (fs_call1 (Chmod I fs ''foo'' 0x1ED)) (\<lambda>err.
     seq (skipNotImplemented tb err) (\<lambda>_.
     seq (assert_NoError tb err) (\<lambda>_.
     seq (fs_call1 (Stat I fs ''foo'')) (\<lambda>r.
     seq (assert_NoError tb (err_of r)) (\<lambda>_.
     seq (asQuickInfo I (info_of r)) (\<lambda>q.
     seq (assertEqualQuickInfo opts tb (mk_info ''foo'' 0 0x1ED False) q) (\<lambda>_.
     ret ())))))))))))"

definition TestChmod_change_symlink_target_permission_bits where
  "TestChmod_change_symlink_target_permission_bits I opts tb =
     seq (Setup_FS opts tb) (\<lambda>(setupFS, commit).
     seq (if i_Symlink I setupFS = None then tb_Skip tb else ret ()) (\<lambda>_.
     seq (fs_open (Create I setupFS ''foo'')) (\<lambda>(f, err).
     seq (if_then (assert_NoError tb err)
         (seq (assert_Close I tb f) (\<lambda>_.
          ret ()))) (\<lambda>_.
     seq (fs_call1 (Symlink I setupFS ''foo'' ''bar'')) (\<lambda>e.
     seq (assert_NoError tb e) (\<lambda>_.
     seq commit (\<lambda>fs.
     seq (fs_call1 (Chmod I fs ''foo'' 0x1ED)) (\<lambda>err.
     seq (skipNotImplemented tb err) (\<lambda>_.
     seq (assert_NoError tb err) (\<lambda>_.
     seq (fs_call1 (Stat I fs ''foo'')) (\<lambda>linkInfo.
     seq (assert_NoError tb (err_of linkInfo)) (\<lambda>_.
     seq (fs_call1 (Stat I fs ''bar'')) (\<lambda>info.
     seq (assert_NoError tb (err_of info)) (\<lambda>_.
     seq (asQuickInfo I (info_of linkInfo)) (\<lambda>q.
     seq (assertEqualQuickInfo opts tb (mk_info ''foo'' 0 0x1ED False) q) (\<lambda>_.
     seq (asQuickInfo I (info_of info)) (\<lambda>q.
     seq (assertEqualQuickInfo opts tb (mk_info ''bar'' 0 0x1ED False) q) (\<lambda>_.
     ret ()))))))))))))))))))"

definition TestChmod where
  "TestChmod I opts tb =
     seq (tbRun I opts False tb ''change permission bits'' (TestChmod_change_permission_bits I opts)) (\<lambda>_.
     seq (tbRun I opts False tb ''change symlink target permission bits''
          (TestChmod_change_symlink_target_permission_bits I opts)) (\<lambda>_.
     ret ()))"

definition TestChtimes_file_does_not_exist where
  "TestChtimes_file_does_not_exist I opts accessTime modifyTime tb =
     seq (Setup_FS opts tb) (\<lambda>(_, commit).
     seq commit (\<lambda>fs.
     seq (fs_call1 (Chtimes I fs ''foo'' accessTime modifyTime)) (\<lambda>err.
     seq (skipNotImplemented tb err) (\<lambda>_.
     seq (assertEqualPathErr opts tb ''chtimes'' ''foo'' ErrNotExist err) (\<lambda>_.
     ret ())))))"

definition TestChtimes_change_access_and_modify_times where
  "TestChtimes_change_access_and_modify_times I opts accessTime modifyTime tb =
     seq (Setup_FS opts tb) (\<lambda>(setupFS, commit).
     seq (fs_open (Create I setupFS ''foo'')) (\<lambda>(f, err).
     seq (if_then (assert_NoError tb err)
         (seq (assert_Close I tb f) (\<lambda>_.
          ret ()))) (\<lambda>_.
     seq commit (\<lambda>fs.
     seq (fs_call1 (Chtimes I fs ''foo'' accessTime modifyTime)) (\<lambda>err.
     seq (skipNotImplemented tb err) (\<lambda>_.
     seq (assert_NoError tb err) (\<lambda>_.
     seq (fs_call1 (Stat I fs ''foo'')) (\<lambda>r.
     seq (assert_NoError tb (err_of r)) (\<lambda>_.
     seq (asQuickInfo I (info_of r)) (\<lambda>q.
     seq (if_then (assertEqualQuickInfo opts tb (mk_info ''foo'' 0 0x1B6 False) q)
         (seq (val_of (\<lambda>_. do { info \<leftarrow> info_of r; in_ModTime I info })) (\<lambda>t.
          seq (assert_Equal tb (rfc3339 modifyTime) (rfc3339 t)) (\<lambda>_.
          ret ())))) (\<lambda>_.
     ret ())))))))))))"

definition TestChtimes where
  "TestChtimes I opts tb =
     (let accessTime = opt_now opts in
     (let modifyTime = accessTime - 60 * second in
     seq (tbRun I opts False tb ''file does not exist'' (TestChtimes_file_does_not_exist I opts accessTime modifyTime)) (\<lambda>_.
     seq (tbRun I opts False tb ''change access and modify times''
          (TestChtimes_change_access_and_modify_times I opts accessTime modifyTime)) (\<lambda>_.
     ret ()))))"

subsection \<open>\<open>ReadFile\<close>, \<open>ReadDir\<close> and \<open>WriteFile\<close>\<close>

definition TestReadFile_not_exists where
  "TestReadFile_not_exists I opts tb =
     seq (Setup_FS opts tb) (\<lambda>(_, commit).
     seq commit (\<lambda>fs.
     seq (fs_call2 (ReadFile I fs ''foo'')) (\<lambda>(_, err).
     seq (skipNotImplemented tb err) (\<lambda>_.
     seq (assertEqualPathErr opts tb ''open'' ''foo'' ErrNotExist err) (\<lambda>_.
     ret ())))))"

definition TestReadFile_exists where
  "TestReadFile_exists I opts tb =
     seq (Setup_FS opts tb) (\<lambda>(setupFS, commit).
     (let contents = bytes ''hello'' in
     seq (fs_call1 (WriteFullFile I setupFS ''foo'' contents 0x1B6)) (\<lambda>e.
     seq (assert_NoError tb e) (\<lambda>_.
     seq commit (\<lambda>fs.
     seq (fs_call2 (ReadFile I fs ''foo'')) (\<lambda>(buf, err).
     seq (skipNotImplemented tb err) (\<lambda>_.
     seq (assert_NoError tb err) (\<lambda>_.
     seq (assert_Equal tb contents buf) (\<lambda>_.
     ret ())))))))))"

definition TestReadFile where
  "TestReadFile I opts tb =
     seq (tbRun I opts False tb ''not exists'' (TestReadFile_not_exists I opts)) (\<lambda>_.
     seq (tbRun I opts False tb ''exists'' (TestReadFile_exists I opts)) (\<lambda>_.
     ret ()))"

text \<open>The checks on one entry of the listing.\<close>

definition assert_dir_entry where
  "assert_dir_entry I tb entry name mode isDir typ =
     seq (assert_Equal tb name (de_Name I entry)) (\<lambda>_.
     seq (fs_call1 (de_Info I entry)) (\<lambda>r.
     seq (assert_NoError tb (err_of r)) (\<lambda>_.
     seq (asQuickInfo I (info_of r)) (\<lambda>q.
     seq (assert_Equal tb (mk_info name 0 mode isDir) q) (\<lambda>_.
     seq (val_of (\<lambda>_. de_IsDir I entry)) (\<lambda>d.
     seq (assert_Equal tb isDir d) (\<lambda>_.
     seq (val_of (\<lambda>_. de_Type I entry)) (\<lambda>t.
     seq (assert_Equal tb typ t) (\<lambda>_.
     ret ())))))))))"

definition TestReadDir_exists where
  "TestReadDir_exists I opts tb =
     seq (Setup_FS opts tb) (\<lambda>(setupFS, commit).
     seq (fs_call1 (MkdirAll I setupFS ''foo/bar'' 0x1FF)) (\<lambda>err.
     seq (assert_NoError tb err) (\<lambda>_.
     seq (fs_open (Create I setupFS ''foo/baz'')) (\<lambda>(f, err).
     seq (if_then (assert_NoError tb err)
         (seq (assert_Close I tb f) (\<lambda>_.
          ret ()))) (\<lambda>_.
     seq (fs_open (Create I setupFS ''foo/biff'')) (\<lambda>(f, err).
     seq (if_then (assert_NoError tb err)
         (seq (assert_Close I tb f) (\<lambda>_.
          ret ()))) (\<lambda>_.
     seq commit (\<lambda>fs.
     seq (fs_call2 (ReadDir I fs ''foo'')) (\<lambda>(dir, err).
     seq (skipNotImplemented tb err) (\<lambda>_.
     seq (assert_NoError tb err) (\<lambda>_.
     seq (if_then (assert_Equal tb 3 (length dir))
         (seq (assert_dir_entry I tb (dir ! 0) ''bar'' (ModeDir OR 0x1FF) True ModeDir) (\<lambda>_.
          seq (assert_dir_entry I tb (dir ! 1) ''baz'' 0x1B6 False 0) (\<lambda>_.
          seq (assert_dir_entry I tb (dir ! 2) ''biff'' 0x1B6 False 0) (\<lambda>_.
          ret ()))))) (\<lambda>_.
     ret ()))))))))))))"

definition TestReadDir_not_exists where
  "TestReadDir_not_exists I opts tb =
     seq (Setup_FS opts tb) (\<lambda>(_, commit).
     seq commit (\<lambda>fs.
     seq (fs_call2 (ReadDir I fs ''foo'')) (\<lambda>(_, err).
     seq (skipNotImplemented tb err) (\<lambda>_.
     seq (assertEqualPathErr opts tb ''open'' ''foo'' ErrNotExist err) (\<lambda>_.
     ret ())))))"

text \<open>The error of listing a file; the operation it names depends on the system.\<close>

definition assert_not_dir where
  "assert_not_dir opts tb err =
     seq (assert_IsType tb (VErr (PathError [] [] ErrInvalid)) (errval err)) (\<lambda>ok.
     (case err of
     Some (PathError op path e) \<Rightarrow>
     if \<not> ok then ret ()
     else
     seq (assert_ErrorIs tb ErrNotDir err) (\<lambda>_.
     seq (assert_Contains tb (VSlice (Some
     [VString ''fdopendir'', VString ''readdirent'', VString ''readdir''])) (VString op)) (\<lambda>_.
     assertEqualErrPath opts tb ''foo'' path))
     | _ \<Rightarrow> ret ()))"

definition TestReadDir_file_is_not_a_dir where
  "TestReadDir_file_is_not_a_dir I opts tb =
     seq (Setup_FS opts tb) (\<lambda>(setupFS, commit).
     seq (fs_open (Create I setupFS ''foo'')) (\<lambda>(f, err).
     seq (if_then (assert_NoError tb err)
         (seq (assert_Close I tb f) (\<lambda>_.
          ret ()))) (\<lambda>_.
     seq commit (\<lambda>fs.
     seq (fs_call2 (ReadDir I fs ''foo'')) (\<lambda>(_, err).
     seq (skipNotImplemented tb err) (\<lambda>_.
     seq (assert_not_dir opts tb err) (\<lambda>_.
     ret ())))))))"

definition TestReadDir where
  "TestReadDir I opts tb =
     seq (tbRun I opts False tb ''exists'' (TestReadDir_exists I opts)) (\<lambda>_.
     seq (tbRun I opts False tb ''not exists'' (TestReadDir_not_exists I opts)) (\<lambda>_.
     seq (tbRun I opts False tb ''file is not a dir'' (TestReadDir_file_is_not_a_dir I opts)) (\<lambda>_.
     ret ())))"

definition TestWriteFile_not_exists where
  "TestWriteFile_not_exists I opts tb =
     seq (Setup_FS opts tb) (\<lambda>(_, commit).
     seq commit (\<lambda>fs.
     seq (fs_call1 (WriteFullFile I fs ''foo'' (bytes ''bar'') 0x1F5)) (\<lambda>err.
     seq (skipNotImplemented tb err) (\<lambda>_.
     seq (assert_NoError tb err) (\<lambda>_.
     seq (tryAssertEqualFS I opts tb [(''foo'', mk_entry 3 0x1F5 False)] fs) (\<lambda>_.
     seq (fs_call2 (ReadFile I fs ''foo'')) (\<lambda>(contents, err).
     seq (assert_NoError tb err) (\<lambda>_.
     seq (assert_Equal tb (bytes ''bar'') contents) (\<lambda>_.
     ret ())))))))))"

definition TestWriteFile_file_exists where
  "TestWriteFile_file_exists I opts tb =
     seq (Setup_FS opts tb) (\<lambda>(setupFS, commit).
     seq (setup_OpenFile I setupFS ''foo'' (FlagWriteOnly OR FlagCreate) 0x1B6) (\<lambda>(f, err).
     seq (if_then (assert_NoError tb err)
         (seq (f_Write I f (bytes ''bar'')) (\<lambda>(_, err).
          seq (assert_NoError tb err) (\<lambda>_.
          seq (assert_Close I tb f) (\<lambda>_.
          ret ()))))) (\<lambda>_.
     seq commit (\<lambda>fs.
     (let newContents = bytes ''baz'' in
     seq (fs_call1 (WriteFullFile I fs ''foo'' newContents 0x1F5)) (\<lambda>err.
     seq (skipNotImplemented tb err) (\<lambda>_.
     seq (assert_NoError tb err) (\<lambda>_.
     seq (tryAssertEqualFS I opts tb [(''foo'', mk_entry 3 0x1B6 False)] fs) (\<lambda>_.
     seq (fs_call2 (ReadFile I fs ''foo'')) (\<lambda>(buf, err).
     seq (assert_NoError tb err) (\<lambda>_.
     seq (assert_Equal tb newContents buf) (\<lambda>_.
     ret ()))))))))))))"

definition TestWriteFile_dir_exists where
  "TestWriteFile_dir_exists I opts tb =
     seq (Setup_FS opts tb) (\<lambda>(setupFS, commit).
     seq (setup_Mkdir I setupFS ''foo'' 0x1C0) (\<lambda>err.
     seq (assert_NoError tb err) (\<lambda>_.
     seq commit (\<lambda>fs.
     seq (fs_call1 (WriteFullFile I fs ''foo'' (bytes ''bar'') 0x1F5)) (\<lambda>err.
     seq (skipNotImplemented tb err) (\<lambda>_.
     seq (assertEqualPathErr opts tb ''open'' ''foo'' ErrIsDir err) (\<lambda>_.
     seq (tryAssertEqualFS I opts tb [(''foo'', mk_entry 0 0x1C0 True)] fs) (\<lambda>_.
     ret ()))))))))"

definition TestWriteFile where
  "TestWriteFile I opts tb =
     seq (tbRun I opts False tb ''not exists'' (TestWriteFile_not_exists I opts)) (\<lambda>_.
     seq (tbRun I opts False tb ''file exists'' (TestWriteFile_file_exists I opts)) (\<lambda>_.
     seq (tbRun I opts False tb ''dir exists'' (TestWriteFile_dir_exists I opts)) (\<lambda>_.
     ret ())))"

end
