(* ===== verification/FSTest_File.thy ===== *)
theory FSTest_File
  imports FSTest_FS
begin

section \<open>The tests of files (\<open>fstest/file.go\<close>)\<close>

text \<open>One definition per test function and per subtest, statement by statement.\<close>

subsection \<open>\<open>Close\<close> and \<open>Read\<close>\<close>

definition TestFileClose where
  "TestFileClose I opts tb =
     seq (Setup_FS opts tb) (\<lambda>(setupFS, commit).
     seq (fs_open (Create I setupFS ''foo'')) (\<lambda>(f, err).
     seq (if_then (assert_NoError tb err)
         (seq (assert_Close I tb f) (\<lambda>_.
          ret ()))) (\<lambda>_.
     seq commit (\<lambda>fs.
     seq (fs_Open I fs ''foo'') (\<lambda>(f, err).
     seq (if_then (assert_NoError tb err)
         (seq (assert_Close I tb f) (\<lambda>_.
          seq (f_Close I f) (\<lambda>e.
          seq (assert_Error tb e) (\<lambda>_.
          ret ()))))) (\<lambda>_.
     ret ()))))))"

definition TestFileRead_read_empty where
  "TestFileRead_read_empty I opts tb =
     seq (Setup_FS opts tb) (\<lambda>(setupFS, commit).
     seq (fs_open (Create I setupFS ''foo'')) (\<lambda>(f, err).
     seq (if_then (assert_NoError tb err)
         (seq (assert_Close I tb f) (\<lambda>_.
          ret ()))) (\<lambda>_.
     seq commit (\<lambda>fs.
     seq (fs_Open I fs ''foo'') (\<lambda>(f, err).
     seq (assert_NoError tb err) (\<lambda>ok.
     seq (if \<not> ok then tb_FailNow tb else ret ()) (\<lambda>_.
     (let buf = replicate 10 0 in
     seq (f_Read I f buf) (\<lambda>(buf, n, err).
     seq (assert_Equal tb 0 n) (\<lambda>_.
     seq (assert_Equal tb (Some EOF) err) (\<lambda>_.
     seq (assert_Close I tb f) (\<lambda>_.
     ret ()))))))))))))"

definition TestFileRead_read_a_few_bytes_at_a_time where
  "TestFileRead_read_a_few_bytes_at_a_time I opts tb =
     (let fileContents = bytes ''hello world'' in
     (let firstBufLen = 2 in
     seq (Setup_FS opts tb) (\<lambda>(setupFS, commit).
     seq (fs_open (Create I setupFS ''foo'')) (\<lambda>(f, err).
     seq (if_then (assert_NoError tb err)
         (seq (f_Write I f fileContents) (\<lambda>(_, err).
          seq (assert_NoError tb err) (\<lambda>_.
          seq (assert_Close I tb f) (\<lambda>_.
          ret ()))))) (\<lambda>_.
     seq commit (\<lambda>fs.
     seq (fs_Open I fs ''foo'') (\<lambda>(f, err).
     seq (assert_NoError tb err) (\<lambda>ok.
     seq (if \<not> ok then tb_FailNow tb else ret ()) (\<lambda>_.
     seq (f_Read I f (replicate firstBufLen 0)) (\<lambda>(buf, n, err).
     seq (assert_Equal tb (int firstBufLen) n) (\<lambda>_.
     seq (assert_NoError tb err) (\<lambda>_.
     seq (assert_Equal tb (bytes ''he'') buf) (\<lambda>_.
     seq (f_Read I f (replicate (length fileContents * 2) 0)) (\<lambda>(buf, n, err).
     seq (assert_Equal tb (int (length fileContents - firstBufLen)) n) (\<lambda>_.
     seq (if err = None then
            seq (f_Read I f (replicate (length buf) 0)) (\<lambda>(_, zeroN, err).
            seq (assert_Equal tb 0 zeroN) (\<lambda>_.
            ret err))
          else ret err) (\<lambda>err.
     seq (assert_Equal tb (Some EOF) err) (\<lambda>_.
     seq (slice_to buf n) (\<lambda>part.
     seq (assert_Equal tb (bytes ''llo world'') part) (\<lambda>_.
     seq (assert_Close I tb f) (\<lambda>_.
     ret ()))))))))))))))))))))"

definition TestFileRead where
  "TestFileRead I opts tb =
     seq (tbRun I opts False tb ''read empty'' (TestFileRead_read_empty I opts)) (\<lambda>_.
     seq (tbRun I opts False tb ''read a few bytes at a time'' (TestFileRead_read_a_few_bytes_at_a_time I opts)) (\<lambda>_.
     ret ()))"

subsection \<open>\<open>ReadAt\<close>\<close>

record readAt_case =
  rc_description :: string
  rc_bufSize :: nat
  rc_off :: int
  rc_expectN :: int
  rc_expectBuf :: string
  rc_expectErr :: "err option"

definition readAt_cases :: "readAt_case list" where
  "readAt_cases =
     [\<lparr>rc_description = ''at start'', rc_bufSize = 11, rc_off = 0, rc_expectN = 11,
       rc_expectBuf = ''hello world'', rc_expectErr = None\<rparr>,
      \<lparr>rc_description = ''negative offset'', rc_bufSize = 11, rc_off = -1, rc_expectN = 0,
       rc_expectBuf = '''', rc_expectErr = Some (ErrorString ''negative offset'')\<rparr>,
      \<lparr>rc_description = ''small byte offset'', rc_bufSize = 11, rc_off = 2, rc_expectN = 9,
       rc_expectBuf = ''llo world'', rc_expectErr = Some EOF\<rparr>,
      \<lparr>rc_description = ''small read at offset'', rc_bufSize = 2, rc_off = 2, rc_expectN = 2,
       rc_expectBuf = ''ll'', rc_expectErr = None\<rparr>,
      \<lparr>rc_description = ''full read at offset'', rc_bufSize = 11, rc_off = 2, rc_expectN = 9,
       rc_expectBuf = ''llo world'', rc_expectErr = Some EOF\<rparr>]"

text \<open>\<open>defer func() { assert.NoError(tb, file.Close()) }()\<close>: it also runs when the test is ended.\<close>

definition defer_Close where
  "defer_Close I tb file body s =
     (case body s of
        None \<Rightarrow> None
      | Some (r, s, ps) \<Rightarrow>
          (case assert_Close I tb file s of
             None \<Rightarrow> None
           | Some (_, s, qs) \<Rightarrow> Some (r, s, ps @ qs)))"

definition readAt_check where
  "readAt_check I opts tc file tb =
     (let buf = replicate (rc_bufSize tc) 0 in
     seq (file_call3 file (\<lambda>h. ReadAtFile I h buf (rc_off tc))) (\<lambda>(buf, n, err).
     seq (skipNotImplemented tb err) (\<lambda>_.
     (let err = (if n = int (rc_bufSize tc) \<and> err = Some EOF then None else err) in
     (case rc_expectErr tc of
     Some e \<Rightarrow>
     (case err of
     Some (PathError _ _ _) \<Rightarrow> assertEqualPathErr opts tb ''readat'' ''foo'' e err
     | _ \<Rightarrow> ret ())
     | None \<Rightarrow>
     seq (assert_NoError tb err) (\<lambda>_.
     seq (assert_Equal tb (rc_expectN tc) n) (\<lambda>_.
     seq (slice_to buf n) (\<lambda>part.
     seq (assert_Equal tb (bytes (rc_expectBuf tc)) part) (\<lambda>_.
     ret ())))))))))"

definition TestFileReadAt_case where
  "TestFileReadAt_case I opts fs tc tb =
     seq (fs_Open I fs ''foo'') (\<lambda>(file, err).
     seq (assert_NoError tb err) (\<lambda>ok.
     (if \<not> ok then ret () else defer_Close I tb file (readAt_check I opts tc file tb))))"

text \<open>
  The variable \<open>tc\<close> of the loop is one variable (the module declares Go 1.18), and the subtests read it
  when they run. Parallel subtests of a \<open>*testing.T\<close> run after the loop and all see its last value;
  benchmarks run at once. The name of the subtest is read in the loop.
\<close>

definition captured_tc :: "tbKind \<Rightarrow> readAt_case \<Rightarrow> readAt_case" where
  "captured_tc kind tc = (case kind of TestT \<Rightarrow> last readAt_cases | _ \<Rightarrow> tc)"

definition TestFileReadAt where
  "TestFileReadAt I opts tb =
     (let fileContents = bytes ''hello world'' in
     seq (Setup_FS opts tb) (\<lambda>(setupFS, commit).
     seq (fs_call1 (WriteFullFile I setupFS ''foo'' fileContents 0x1B6)) (\<lambda>e.
     seq (assert_NoError tb e) (\<lambda>_.
     seq commit (\<lambda>fs.
     for_each readAt_cases (\<lambda>tc s.
       tbRun I opts True tb (rc_description tc) (TestFileReadAt_case I opts fs (captured_tc (tb_kind tb s) tc)) s))))))"

subsection \<open>\<open>Seek\<close>\<close>

text \<open>Most of the tests begin with a file that has some contents.\<close>

definition setup_contents where
  "setup_contents I tb setupFS fileContents =
     seq (fs_open (Create I setupFS ''foo'')) (\<lambda>(file, err).
     seq (if_then (assert_NoError tb err)
         (seq (f_Write I file fileContents) (\<lambda>(_, err).
          seq (assert_NoError tb err) (\<lambda>_.
          seq (assert_Close I tb file) (\<lambda>_.
          ret ()))))) (\<lambda>_.
     ret ()))"

definition TestFileSeek_seek_unknown_start where
  "TestFileSeek_seek_unknown_start I opts tb =
     seq (Setup_FS opts tb) (\<lambda>(setupFS, commit).
     seq (setup_contents I tb setupFS (bytes ''hello world'')) (\<lambda>_.
     seq commit (\<lambda>fs.
     seq (fs_Open I fs ''foo'') (\<lambda>(file, err).
     seq (assert_NoError tb err) (\<lambda>_.
     seq (file_call2 file (\<lambda>h. SeekFile I h 0 SeekOther)) (\<lambda>(_, err).
     seq (skipNotImplemented tb err) (\<lambda>_.
     seq (assertEqualPathErr opts tb ''seek'' ''foo'' ErrInvalid err) (\<lambda>_.
     seq (assert_Close I tb file) (\<lambda>_.
     ret ())))))))))"

definition TestFileSeek_seek_negative_offset where
  "TestFileSeek_seek_negative_offset I opts tb =
     seq (Setup_FS opts tb) (\<lambda>(setupFS, commit).
     seq (setup_contents I tb setupFS (bytes ''hello world'')) (\<lambda>_.
     seq commit (\<lambda>fs.
     seq (fs_Open I fs ''foo'') (\<lambda>(file, err).
     seq (assert_NoError tb err) (\<lambda>_.
     seq (file_call2 file (\<lambda>h. SeekFile I h (-1) SeekStart)) (\<lambda>(_, err).
     seq (skipNotImplemented tb err) (\<lambda>_.
     seq (assertEqualPathErr opts tb ''seek'' ''foo'' ErrInvalid err) (\<lambda>_.
     seq (assert_Close I tb file) (\<lambda>_.
     ret ())))))))))"

text \<open>Reading the rest of the file after a seek.\<close>

definition read_rest where
  "read_rest I tb file fileContents rest =
     seq (f_Read I file (replicate (length fileContents) 0)) (\<lambda>(buf, n, err).
     seq (assert_Equal tb True (err = None \<or> err = Some EOF)) (\<lambda>_.
     seq (slice_to buf n) (\<lambda>part.
     seq (assert_Equal tb (bytes rest) part) (\<lambda>_.
     seq (assert_Close I tb file) (\<lambda>_.
     ret ())))))"

definition TestFileSeek_seek_start where
  "TestFileSeek_seek_start I opts tb =
     (let fileContents = bytes ''hello world'' in
     seq (Setup_FS opts tb) (\<lambda>(setupFS, commit).
     seq (setup_contents I tb setupFS fileContents) (\<lambda>_.
     seq commit (\<lambda>fs.
     seq (fs_Open I fs ''foo'') (\<lambda>(file, err).
     seq (assert_NoError tb err) (\<lambda>_.
     seq (file_call2 file (\<lambda>h. SeekFile I h 1 SeekStart)) (\<lambda>(off, err).
     seq (skipNotImplemented tb err) (\<lambda>_.
     seq (assert_NoError tb err) (\<lambda>_.
     seq (assert_Equal tb 1 off) (\<lambda>_.
     seq (read_rest I tb file fileContents ''ello world'') (\<lambda>_.
     ret ())))))))))))"

definition TestFileSeek_seek_current where
  "TestFileSeek_seek_current I opts tb =
     (let fileContents = bytes ''hello world'' in
     seq (Setup_FS opts tb) (\<lambda>(setupFS, commit).
     seq (fs_call1 (WriteFullFile I setupFS ''foo'' fileContents 0x1B6)) (\<lambda>e.
     seq (assert_NoError tb e) (\<lambda>_.
     seq commit (\<lambda>fs.
     seq (fs_Open I fs ''foo'') (\<lambda>(file, err).
     seq (assert_NoError tb err) (\<lambda>_.
     seq (file_call2 file (\<lambda>h. SeekFile I h 5 SeekStart)) (\<lambda>(_, err).
     seq (skipNotImplemented tb err) (\<lambda>_.
     seq (assert_NoError tb err) (\<lambda>_.
     seq (file_call2 file (\<lambda>h. SeekFile I h (-1) SeekCurrent)) (\<lambda>(off, err).
     seq (assert_NoError tb err) (\<lambda>_.
     seq (assert_Equal tb (5 + -1) off) (\<lambda>_.
     seq (read_rest I tb file fileContents ''o world'') (\<lambda>_.
     ret ()))))))))))))))"

definition TestFileSeek_seek_end where
  "TestFileSeek_seek_end I opts tb =
     (let fileContents = bytes ''hello world'' in
     seq (Setup_FS opts tb) (\<lambda>(setupFS, commit).
     seq (setup_contents I tb setupFS fileContents) (\<lambda>_.
     seq commit (\<lambda>fs.
     seq (fs_Open I fs ''foo'') (\<lambda>(file, err).
     seq (assert_NoError tb err) (\<lambda>_.
     seq (file_call2 file (\<lambda>h. SeekFile I h (-1) SeekEnd)) (\<lambda>(off, err).
     seq (skipNotImplemented tb err) (\<lambda>_.
     seq (assert_NoError tb err) (\<lambda>_.
     seq (assert_Equal tb (int (length fileContents) + -1) off) (\<lambda>_.
     seq (read_rest I tb file fileContents ''d'') (\<lambda>_.
     ret ())))))))))))"

definition TestFileSeek where
  "TestFileSeek I opts tb =
     seq (tbRun I opts False tb ''seek unknown start'' (TestFileSeek_seek_unknown_start I opts)) (\<lambda>_.
     seq (tbRun I opts False tb ''seek negative offset'' (TestFileSeek_seek_negative_offset I opts)) (\<lambda>_.
     seq (tbRun I opts False tb ''seek start'' (TestFileSeek_seek_start I opts)) (\<lambda>_.
     seq (tbRun I opts False tb ''seek current'' (TestFileSeek_seek_current I opts)) (\<lambda>_.
     seq (tbRun I opts False tb ''seek end'' (TestFileSeek_seek_end I opts)) (\<lambda>_.
     ret ())))))"

subsection \<open>\<open>Write\<close> and \<open>WriteAt\<close>\<close>

text \<open>What a file holds afterwards, read through a new handle.\<close>

definition read_back where
  "read_back I tb fs contents =
     seq (fs_Open I fs ''foo'') (\<lambda>(f, err).
     seq (assert_NoError tb err) (\<lambda>_.
     seq (f_Read I f (replicate (length contents) 0)) (\<lambda>(buf, _, _).
     seq (assert_Equal tb contents buf) (\<lambda>_.
     seq (assert_Close I tb f) (\<lambda>_.
     ret ())))))"

definition testFileWrite_write_read where
  "testFileWrite_write_read I opts writer tb =
     (let fileContents = bytes ''hello world'' in
     seq (Setup_FS opts tb) (\<lambda>(setupFS, commit).
     seq (fs_open (Create I setupFS ''foo'')) (\<lambda>(f, err).
     seq (if_then (assert_NoError tb err)
         (seq (assert_Close I tb f) (\<lambda>_.
          ret ()))) (\<lambda>_.
     seq commit (\<lambda>fs.
     seq (fs_open (OpenFile I fs ''foo'' FlagReadWrite 0)) (\<lambda>(f, err).
     seq (skipNotImplemented tb err) (\<lambda>_.
     seq (assert_NoError tb err) (\<lambda>_.
     seq (writer f fileContents) (\<lambda>(n, err).
     seq (assert_Equal tb (int (length fileContents)) n) (\<lambda>_.
     seq (assert_NoError tb err) (\<lambda>_.
     seq (assert_Close I tb f) (\<lambda>_.
     seq (read_back I tb fs fileContents) (\<lambda>_.
     ret ())))))))))))))"

definition testFileWrite_write_truncate_write_read where
  "testFileWrite_write_truncate_write_read I opts writer tb =
     (let fileContents = bytes ''hello world'' in
     seq (Setup_FS opts tb) (\<lambda>(setupFS, commit).
     seq (fs_call1 (WriteFullFile I setupFS ''foo'' fileContents 0x1B6)) (\<lambda>e.
     seq (assert_NoError tb e) (\<lambda>_.
     seq commit (\<lambda>fs.
     seq (fs_open (OpenFile I fs ''foo'' (FlagReadWrite OR FlagTruncate) 0)) (\<lambda>(file, err).
     seq (skipNotImplemented tb err) (\<lambda>_.
     seq (assert_NoError tb err) (\<lambda>_.
     seq (writer file fileContents) (\<lambda>(n, err).
     seq (assert_Equal tb (int (length fileContents)) n) (\<lambda>_.
     seq (assert_NoError tb err) (\<lambda>_.
     seq (assert_Close I tb file) (\<lambda>_.
     seq (read_back I tb fs fileContents) (\<lambda>_.
     ret ())))))))))))))"

definition testFileWrite where
  "testFileWrite I opts writer tb =
     seq (tbRun I opts False tb ''write-read'' (testFileWrite_write_read I opts writer)) (\<lambda>_.
     seq (tbRun I opts False tb ''write-truncate-write-read'' (testFileWrite_write_truncate_write_read I opts writer)) (\<lambda>_.
     ret ()))"

definition TestFileWrite where
  "TestFileWrite I opts tb =
     testFileWrite I opts (\<lambda>file b.
     seq (f_Write I file b) (\<lambda>(n, err).
     seq (skipNotImplemented tb err) (\<lambda>_.
     ret (n, err)))) tb"

text \<open>The tests of \<open>WriteAt\<close> open an empty file for writing.\<close>

definition open_empty where
  "open_empty I opts tb =
     seq (Setup_FS opts tb) (\<lambda>(setupFS, commit).
     seq (fs_open (Create I setupFS ''foo'')) (\<lambda>(file, err).
     seq (if_then (assert_NoError tb err)
         (seq (assert_Close I tb file) (\<lambda>_.
          ret ()))) (\<lambda>_.
     seq commit (\<lambda>fs.
     seq (fs_open (OpenFile I fs ''foo'' FlagReadWrite 0)) (\<lambda>(file, err).
     seq (skipNotImplemented tb err) (\<lambda>_.
     seq (assert_NoError tb err) (\<lambda>_.
     ret (fs, file))))))))"

definition TestFileWriteAt_negative_offset where
  "TestFileWriteAt_negative_offset I opts tb =
     seq (open_empty I opts tb) (\<lambda>(_, file).
     seq (file_call2 file (\<lambda>h. WriteAtFile I h (bytes ''hello'') (-1))) (\<lambda>(n, err).
     seq (assert_Equal tb 0 n) (\<lambda>_.
     seq (assert_Error tb err) (\<lambda>_.
     seq (assert_Close I tb file) (\<lambda>_.
     seq (assertEqualPathErr opts tb ''writeat'' ''foo'' (ErrorString ''negative offset'') err) (\<lambda>_.
     ret ()))))))"

definition TestFileWriteAt_no_offset where
  "TestFileWriteAt_no_offset I opts tb =
     seq (open_empty I opts tb) (\<lambda>(fs, file).
     (let fileContents = bytes ''hello world'' in
     seq (file_call2 file (\<lambda>h. WriteAtFile I h fileContents 0)) (\<lambda>(n, err).
     seq (assert_Equal tb (int (length fileContents)) n) (\<lambda>_.
     seq (assert_NoError tb err) (\<lambda>_.
     seq (assert_Close I tb file) (\<lambda>_.
     seq (read_back I tb fs fileContents) (\<lambda>_.
     ret ())))))))"

definition TestFileWriteAt_offset_inside_file where
  "TestFileWriteAt_offset_inside_file I opts tb =
     seq (open_empty I opts tb) (\<lambda>(fs, file).
     (let fileContents = bytes ''hello world'' in
     (let newContents = bytes ''hi'' in
     seq (file_call2 file (\<lambda>h. WriteAtFile I h fileContents 0)) (\<lambda>(_, err).
     seq (skipNotImplemented tb err) (\<lambda>_.
     seq (assert_NoError tb err) (\<lambda>_.
     seq (file_call2 file (\<lambda>h. WriteAtFile I h newContents 5)) (\<lambda>(n, err).
     seq (assert_Equal tb (int (length newContents)) n) (\<lambda>_.
     seq (assert_NoError tb err) (\<lambda>_.
     seq (assert_Close I tb file) (\<lambda>_.
     seq (read_back I tb fs (bytes ''hellohiorld'')) (\<lambda>_.
     ret ())))))))))))"

definition TestFileWriteAt_offset_outside_file where
  "TestFileWriteAt_offset_outside_file I opts tb =
     seq (open_empty I opts tb) (\<lambda>(fs, file).
     (let fileContents = bytes ''hello world'' in
     seq (file_call2 file (\<lambda>h. WriteAtFile I h fileContents 5)) (\<lambda>(n, err).
     seq (assert_Equal tb (int (length fileContents)) n) (\<lambda>_.
     seq (assert_NoError tb err) (\<lambda>_.
     seq (assert_Close I tb file) (\<lambda>_.
     seq (read_back I tb fs (replicate 5 0 @ fileContents)) (\<lambda>_.
     ret ())))))))"

definition TestFileWriteAt where
  "TestFileWriteAt I opts tb =
     seq (tbRun I opts False tb ''negative offset'' (TestFileWriteAt_negative_offset I opts)) (\<lambda>_.
     seq (tbRun I opts False tb ''no offset'' (TestFileWriteAt_no_offset I opts)) (\<lambda>_.
     seq (tbRun I opts False tb ''offset inside file'' (TestFileWriteAt_offset_inside_file I opts)) (\<lambda>_.
     seq (tbRun I opts False tb ''offset outside file'' (TestFileWriteAt_offset_outside_file I opts)) (\<lambda>_.
     ret ()))))"

subsection \<open>\<open>ReadDir\<close>\<close>

definition TestFileReadDir_list_initial_root where
  "TestFileReadDir_list_initial_root I opts tb =
     seq (Setup_FS opts tb) (\<lambda>(_, commit).
     seq commit (\<lambda>fs.
     seq (fs_Open I fs dot) (\<lambda>(file, err).
     seq (assert_NoError tb err) (\<lambda>_.
     seq (f_ReadDir I file 0) (\<lambda>(_, err).
     seq (skipNotImplemented tb err) (\<lambda>_.
     seq (assert_NoError tb err) (\<lambda>_.
     seq (assert_Close I tb file) (\<lambda>_.
     ret ()))))))))"

definition setup_foo_bar where
  "setup_foo_bar I tb setupFS =
     seq (fs_open (Create I setupFS ''foo'')) (\<lambda>(file, err).
     seq (if_then (assert_NoError tb err)
         (seq (assert_Close I tb file) (\<lambda>_.
          ret ()))) (\<lambda>_.
     seq (setup_Mkdir I setupFS ''bar'' 0x1C0) (\<lambda>e.
     seq (assert_NoError tb e) (\<lambda>_.
     ret ()))))"

definition TestFileReadDir_list_root where
  "TestFileReadDir_list_root I opts tb =
     seq (Setup_FS opts tb) (\<lambda>(setupFS, commit).
     seq (setup_foo_bar I tb setupFS) (\<lambda>_.
     seq commit (\<lambda>fs.
     seq (fs_Open I fs dot) (\<lambda>(file, err).
     seq (assert_NoError tb err) (\<lambda>_.
     seq (f_ReadDir I file 0) (\<lambda>(entries, err).
     seq (skipNotImplemented tb err) (\<lambda>_.
     seq (assert_NoError tb err) (\<lambda>_.
     seq (assert_Close I tb file) (\<lambda>_.
     (let entries = sort_key (de_Name I) entries in
     seq (asQuickDirInfos I tb entries) (\<lambda>infos.
     seq (assertSubsetQuickInfos opts tb
          [mk_info ''bar'' 0 (ModeDir OR 0x1C0) True, mk_info ''foo'' 0 0x1B6 False] infos) (\<lambda>_.
     ret ()))))))))))))"

definition TestFileReadDir_readdir_batches where
  "TestFileReadDir_readdir_batches I opts tb =
     seq (Setup_FS opts tb) (\<lambda>(setupFS, commit).
     seq (setup_foo_bar I tb setupFS) (\<lambda>_.
     seq commit (\<lambda>fs.
     seq (fs_Open I fs dot) (\<lambda>(file, err).
     seq (assert_NoError tb err) (\<lambda>_.
     seq (f_ReadDir I file 1) (\<lambda>(entries1, err).
     seq (skipNotImplemented tb err) (\<lambda>_.
     seq (assert_NoError tb err) (\<lambda>_.
     seq (f_ReadDir I file 1) (\<lambda>(entries2, err).
     seq (skipNotImplemented tb err) (\<lambda>_.
     seq (assert_NoError tb err) (\<lambda>_.
     seq (assert_Close I tb file) (\<lambda>_.
     seq (fs_Open I fs dot) (\<lambda>(file, err).
     seq (assert_NoError tb err) (\<lambda>_.
     seq (f_ReadDir I file 0) (\<lambda>(entriesAll, err).
     seq (skipNotImplemented tb err) (\<lambda>_.
     seq (assert_NoError tb err) (\<lambda>_.
     seq (assert_Close I tb file) (\<lambda>_.
     (let entries = entries1 @ entries2 in
     seq (assert_Equal tb 2 (length entries)) (\<lambda>_.
     seq (asQuickDirInfos I tb entries) (\<lambda>infos.
     seq (asQuickDirInfos I tb entriesAll) (\<lambda>infosAll.
     seq (assertSubsetQuickInfos opts tb infos infosAll) (\<lambda>_.
     seq (asQuickDirInfos I tb entriesAll) (\<lambda>infosAll.
     seq (assertSubsetQuickInfos opts tb
          [mk_info ''bar'' 0 (ModeDir OR 0x1C0) True, mk_info ''foo'' 0 0x1B6 False] infosAll) (\<lambda>_.
     ret ())))))))))))))))))))))))))"

definition TestFileReadDir_readdir_high_N where
  "TestFileReadDir_readdir_high_N I opts tb =
     seq (Setup_FS opts tb) (\<lambda>(setupFS, commit).
     seq (setup_Mkdir I setupFS ''bar'' 0x1C0) (\<lambda>e.
     seq (assert_NoError tb e) (\<lambda>_.
     seq commit (\<lambda>fs.
     seq (fs_Open I fs dot) (\<lambda>(file, err).
     seq (assert_NoError tb err) (\<lambda>_.
     seq (f_ReadDir I file 100000000) (\<lambda>(entries, err).
     seq (skipNotImplemented tb err) (\<lambda>_.
     seq (assert_NoError tb err) (\<lambda>_.
     seq (assert_Close I tb file) (\<lambda>_.
     seq (asQuickDirInfos I tb entries) (\<lambda>infos.
     seq (assertSubsetQuickInfos opts tb [mk_info ''bar'' 0 (ModeDir OR 0x1C0) True] infos) (\<lambda>_.
     ret ()))))))))))))"

definition TestFileReadDir_list_empty_subdirectory where
  "TestFileReadDir_list_empty_subdirectory I opts tb =
     seq (Setup_FS opts tb) (\<lambda>(setupFS, commit).
     seq (setup_Mkdir I setupFS ''foo'' 0x1C0) (\<lambda>e.
     seq (assert_NoError tb e) (\<lambda>_.
     seq commit (\<lambda>fs.
     seq (fs_Open I fs ''foo'') (\<lambda>(file, err).
     seq (assert_NoError tb err) (\<lambda>_.
     seq (f_ReadDir I file 0) (\<lambda>(entries, err).
     seq (skipNotImplemented tb err) (\<lambda>_.
     seq (assert_NoError tb err) (\<lambda>_.
     seq (assert_Close I tb file) (\<lambda>_.
     seq (assert_Equal tb 0 (length entries)) (\<lambda>_.
     ret ())))))))))))"

definition TestFileReadDir_list_subdirectory where
  "TestFileReadDir_list_subdirectory I opts tb =
     seq (Setup_FS opts tb) (\<lambda>(setupFS, commit).
     seq (setup_Mkdir I setupFS ''foo'' 0x1C0) (\<lambda>e.
     seq (assert_NoError tb e) (\<lambda>_.
     seq (fs_open (Create I setupFS ''foo/bar'')) (\<lambda>(file, err).
     seq (if_then (assert_NoError tb err)
         (seq (assert_Close I tb file) (\<lambda>_.
          ret ()))) (\<lambda>_.
     seq (fs_open (Create I setupFS ''foo/baz'')) (\<lambda>(file, err).
     seq (if_then (assert_NoError tb err)
         (seq (assert_Close I tb file) (\<lambda>_.
          ret ()))) (\<lambda>_.
     seq (setup_Mkdir I setupFS ''foo/boo'' 0x1C0) (\<lambda>e.
     seq (assert_NoError tb e) (\<lambda>_.
     seq commit (\<lambda>fs.
     seq (fs_Open I fs ''foo'') (\<lambda>(file, err).
     seq (assert_NoError tb err) (\<lambda>_.
     seq (f_ReadDir I file 0) (\<lambda>(entries, err).
     seq (skipNotImplemented tb err) (\<lambda>_.
     seq (assert_NoError tb err) (\<lambda>_.
     seq (assert_Close I tb file) (\<lambda>_.
     (let entries = sort_key (de_Name I) entries in
     seq (asQuickDirInfos I tb entries) (\<lambda>infos.
     seq (assertEqualQuickInfos opts tb
          [mk_info ''bar'' 0 0x1B6 False, mk_info ''baz'' 0 0x1B6 False,
           mk_info ''boo'' 0 (ModeDir OR 0x1C0) True] infos) (\<lambda>_.
     ret ())))))))))))))))))))"

text \<open>\<open>tb.Cleanup\<close> with the function that closes the file; a nil file would make it panic.\<close>

definition cleanup_Close where
  "cleanup_Close tb file = (case file of None \<Rightarrow> go_panic | Some n \<Rightarrow> tb_Cleanup tb n)"

definition TestFileReadDir_list_on_file where
  "TestFileReadDir_list_on_file I opts tb =
     seq (Setup_FS opts tb) (\<lambda>(setupFS, commit).
     seq (fs_open (Create I setupFS ''foo'')) (\<lambda>(f, err).
     seq (if_then (assert_NoError tb err)
         (seq (assert_Close I tb f) (\<lambda>_.
          ret ()))) (\<lambda>_.
     seq commit (\<lambda>fs.
     seq (fs_Open I fs ''foo'') (\<lambda>(file, err).
     seq (assert_NoError tb err) (\<lambda>_.
     seq (cleanup_Close tb file) (\<lambda>_.
     seq (f_ReadDir I file 0) (\<lambda>(entries, err).
     seq (skipNotImplemented tb err) (\<lambda>_.
     seq (assert_not_dir opts tb err) (\<lambda>_.
     seq (assert_Equal tb 0 (length entries)) (\<lambda>_.
     ret ())))))))))))"

definition TestFileReadDir where
  "TestFileReadDir I opts tb =
     seq (tbRun I opts False tb ''list initial root'' (TestFileReadDir_list_initial_root I opts)) (\<lambda>_.
     seq (tbRun I opts False tb ''list root'' (TestFileReadDir_list_root I opts)) (\<lambda>_.
     seq (tbRun I opts False tb ''readdir batches'' (TestFileReadDir_readdir_batches I opts)) (\<lambda>_.
     seq (tbRun I opts False tb ''readdir high N'' (TestFileReadDir_readdir_high_N I opts)) (\<lambda>_.
     seq (tbRun I opts False tb ''list empty subdirectory'' (TestFileReadDir_list_empty_subdirectory I opts)) (\<lambda>_.
     seq (tbRun I opts False tb ''list subdirectory'' (TestFileReadDir_list_subdirectory I opts)) (\<lambda>_.
     seq (tbRun I opts False tb ''list on file'' (TestFileReadDir_list_on_file I opts)) (\<lambda>_.
     ret ())))))))"

subsection \<open>\<open>Stat\<close>, \<open>Sync\<close> and \<open>Truncate\<close>\<close>

definition TestFileStat where
  "TestFileStat I opts tb =
     testStat I opts (\<lambda>tb fs path.
     seq (fs_Open I fs path) (\<lambda>(f, err).
     case err of
     Some e \<Rightarrow> ret (Inl e)
     | None \<Rightarrow>
     seq (cleanup_Close tb f) (\<lambda>_.
     file_call1 f (fl_Stat I)))) tb"

definition TestFileSync where
  "TestFileSync I opts tb =
     seq (Setup_FS opts tb) (\<lambda>(setupFS, commit).
     seq (setup_contents I tb setupFS (bytes ''hello world'')) (\<lambda>_.
     seq commit (\<lambda>fs.
     seq (case i_OpenFile I fs of
            Some openFile \<Rightarrow> fs_open (openFile ''foo'' FlagWriteOnly 0)
          | None \<Rightarrow> fs_Open I fs ''foo'') (\<lambda>(file, err).
     seq (assert_NoError tb err) (\<lambda>_.
     seq (f_Write I file (bytes ''hello'')) (\<lambda>(_, err).
     seq (skipNotImplemented tb err) (\<lambda>_.
     seq (assert_NoError tb err) (\<lambda>_.
     seq (file_call1 file (SyncFile I)) (\<lambda>err.
     seq (skipNotImplemented tb err) (\<lambda>_.
     seq (assert_NoError tb err) (\<lambda>_.
     seq (assert_Close I tb file) (\<lambda>_.
     ret ()))))))))))))"

record truncate_case =
  tc_description :: string
  tc_size :: int
  tc_expectErrKind :: "err option"

definition truncate_cases :: "truncate_case list" where
  "truncate_cases =
     [\<lparr>tc_description = ''negative size'', tc_size = -1, tc_expectErrKind = Some ErrInvalid\<rparr>,
      \<lparr>tc_description = ''zero size'', tc_size = 0, tc_expectErrKind = None\<rparr>,
      \<lparr>tc_description = ''small size'', tc_size = 1, tc_expectErrKind = None\<rparr>,
      \<lparr>tc_description = ''too big'', tc_size = 22, tc_expectErrKind = None\<rparr>]"

definition TestFileTruncate_case where
  "TestFileTruncate_case I opts tc tb =
     (let fileContents = bytes ''hello world'' in
     seq (Setup_FS opts tb) (\<lambda>(setupFS, commit).
     seq (setup_contents I tb setupFS fileContents) (\<lambda>_.
     seq commit (\<lambda>fs.
     seq (fs_open (OpenFile I fs ''foo'' FlagReadWrite 0)) (\<lambda>(file, err).
     seq (skipNotImplemented tb err) (\<lambda>_.
     seq (assert_NoError tb err) (\<lambda>_.
     seq (file_call1 file (\<lambda>h. TruncateFile I h (tc_size tc))) (\<lambda>err.
     seq (skipNotImplemented tb err) (\<lambda>_.
     seq (assert_Close I tb file) (\<lambda>_.
     (case tc_expectErrKind tc of
     Some kind \<Rightarrow>
     seq (assert_Error tb err) (\<lambda>_.
     seq (assertEqualPathErr opts tb ''truncate'' ''foo'' kind err) (\<lambda>_.
     tryAssertEqualFS I opts tb [(''foo'', mk_entry (int (length fileContents)) 0x1B6 False)] fs))
     | None \<Rightarrow>
     seq (assert_NoError tb err) (\<lambda>_.
     tryAssertEqualFS I opts tb [(''foo'', mk_entry (tc_size tc) 0x1B6 False)] fs))))))))))))"

definition TestFileTruncate where
  "TestFileTruncate I opts tb =
     for_each truncate_cases (\<lambda>tc. tbRun I opts False tb (tc_description tc) (TestFileTruncate_case I opts tc))"

end
