(* ===== verification/FSTest_Concurrent.thy ===== *)
theory FSTest_Concurrent
  imports FSTest_File
begin

section \<open>The concurrent tests and the suite (\<open>fs_concurrent.go\<close>, \<open>file_concurrent.go\<close>, \<open>fstest.go\<close>)\<close>

text \<open>
  \<open>concurrentTasks\<close> runs its first task in the test itself and every other one in a goroutine of its own.
  The model runs the goroutines to their end one after the other, in any order: \<open>opt_sched\<close> lists the
  numbers of the tasks. A task that skips the test only ends its goroutine.
\<close>

definition defaultConcurrentTasks :: nat where
  "defaultConcurrentTasks = 10"

definition go_task :: "('s, unit) prog \<Rightarrow> ('s, unit) prog" where
  "go_task task s = (case task s of None \<Rightarrow> None | Some (_, s, ps) \<Rightarrow> Some (Ret (), s, ps))"

definition concurrentTasks ::
  "('f, 's) FSOptions \<Rightarrow> nat \<Rightarrow> (nat \<Rightarrow> ('s, unit) prog) \<Rightarrow> ('s, unit) prog" where
  "concurrentTasks opts count task =
     (let count = (if count = 0 then defaultConcurrentTasks else count) in
      seq (task 0) (\<lambda>_.
      for_each (opt_sched opts count) (\<lambda>i. go_task (task i))))"

definition foo_d :: "nat \<Rightarrow> string" where
  "foo_d i = ''foo-'' @ fmt_d (int i)"


subsection \<open>File systems\<close>

definition create_task where
  "create_task I tb fs name =
     seq (fs_open (Create I fs name)) (\<lambda>(f, err).
     seq (skipNotImplemented tb err) (\<lambda>_.
     seq (if_then (assert_NoError tb err)
         (seq (assert_Close I tb f) (\<lambda>_.
          ret ()))) (\<lambda>_.
     ret ())))"

definition TestConcurrentCreate_same_file_path where
  "TestConcurrentCreate_same_file_path I opts tb =
     seq (Setup_FS opts tb) (\<lambda>(_, commit).
     seq commit (\<lambda>fs.
     seq (concurrentTasks opts 0 (\<lambda>_. create_task I tb fs ''foo'')) (\<lambda>_.
     ret ())))"

definition TestConcurrentCreate_different_file_paths where
  "TestConcurrentCreate_different_file_paths I opts tb =
     seq (Setup_FS opts tb) (\<lambda>(_, commit).
     seq commit (\<lambda>fs.
     seq (concurrentTasks opts 0 (\<lambda>i. create_task I tb fs (foo_d i))) (\<lambda>_.
     ret ())))"

definition TestConcurrentCreate where
  "TestConcurrentCreate I opts tb =
     seq (tbRun I opts False tb ''same file path'' (TestConcurrentCreate_same_file_path I opts)) (\<lambda>_.
     seq (tbRun I opts False tb ''different file paths'' (TestConcurrentCreate_different_file_paths I opts)) (\<lambda>_.
     ret ()))"

definition openCreate_task where
  "openCreate_task I tb fs name =
     seq (fs_open (OpenFile I fs name createFlags 0x1B6)) (\<lambda>(f, err).
     seq (skipNotImplemented tb err) (\<lambda>_.
     seq (if_then (assert_NoError tb err)
         (seq (assert_Close I tb f) (\<lambda>_.
          ret ()))) (\<lambda>_.
     ret ())))"

definition TestConcurrentOpenFileCreate_same_file_path where
  "TestConcurrentOpenFileCreate_same_file_path I opts tb =
     seq (Setup_FS opts tb) (\<lambda>(_, commit).
     seq commit (\<lambda>fs.
     seq (concurrentTasks opts 0 (\<lambda>_. openCreate_task I tb fs ''foo'')) (\<lambda>_.
     ret ())))"

definition TestConcurrentOpenFileCreate_different_file_paths where
  "TestConcurrentOpenFileCreate_different_file_paths I opts tb =
     seq (Setup_FS opts tb) (\<lambda>(_, commit).
     seq commit (\<lambda>fs.
     seq (concurrentTasks opts 0 (\<lambda>i. openCreate_task I tb fs (foo_d i))) (\<lambda>_.
     ret ())))"

definition TestConcurrentOpenFileCreate where
  "TestConcurrentOpenFileCreate I opts tb =
     seq (tbRun I opts False tb ''same file path'' (TestConcurrentOpenFileCreate_same_file_path I opts)) (\<lambda>_.
     seq (tbRun I opts False tb ''different file paths'' (TestConcurrentOpenFileCreate_different_file_paths I opts)) (\<lambda>_.
     ret ()))"

definition setup_create where
  "setup_create I tb setupFS name =
     seq (fs_open (Create I setupFS name)) (\<lambda>(f, err).
     seq (if_then (assert_NoError tb err)
         (seq (assert_Close I tb f) (\<lambda>_.
          ret ()))) (\<lambda>_.
     ret ()))"

definition TestConcurrentRemove_same_file_path where
  "TestConcurrentRemove_same_file_path I opts tb =
     seq (Setup_FS opts tb) (\<lambda>(setupFS, commit).
     seq (setup_create I tb setupFS ''foo'') (\<lambda>_.
     seq commit (\<lambda>fs.
     seq (concurrentTasks opts 0 (\<lambda>_.
          seq (fs_call1 (Remove I fs ''foo'')) (\<lambda>err.
          seq (skipNotImplemented tb err) (\<lambda>_.
          seq (assert_Equal tb True (err = None \<or> is_err err ErrNotExist)) (\<lambda>_.
          ret ()))))) (\<lambda>_.
     ret ()))))"

definition TestConcurrentRemove_different_file_paths where
  "TestConcurrentRemove_different_file_paths I opts tb =
     seq (Setup_FS opts tb) (\<lambda>(setupFS, commit).
     (let fileCount = defaultConcurrentTasks in
     seq (for_each [0..<fileCount] (\<lambda>i. setup_create I tb setupFS (foo_d i))) (\<lambda>_.
     seq commit (\<lambda>fs.
     seq (concurrentTasks opts fileCount (\<lambda>i.
          seq (fs_call1 (Remove I fs (foo_d i))) (\<lambda>err.
          seq (skipNotImplemented tb err) (\<lambda>_.
          seq (assert_NoError tb err) (\<lambda>_.
          ret ()))))) (\<lambda>_.
     ret ())))))"

definition TestConcurrentRemove where
  "TestConcurrentRemove I opts tb =
     seq (tbRun I opts False tb ''same file path'' (TestConcurrentRemove_same_file_path I opts)) (\<lambda>_.
     seq (tbRun I opts False tb ''different file paths'' (TestConcurrentRemove_different_file_paths I opts)) (\<lambda>_.
     ret ()))"

definition TestConcurrentMkdir_same_file_path where
  "TestConcurrentMkdir_same_file_path I opts tb =
     seq (Setup_FS opts tb) (\<lambda>(_, commit).
     seq commit (\<lambda>fs.
     seq (concurrentTasks opts 0 (\<lambda>_.
          seq (fs_call1 (Mkdir I fs ''foo'' 0x1FF)) (\<lambda>err.
          seq (skipNotImplemented tb err) (\<lambda>_.
          seq (assert_Equal tb True (err = None \<or> is_err err ErrExist)) (\<lambda>_.
          ret ()))))) (\<lambda>_.
     ret ())))"

definition TestConcurrentMkdir_different_file_paths where
  "TestConcurrentMkdir_different_file_paths I opts tb =
     seq (Setup_FS opts tb) (\<lambda>(_, commit).
     seq commit (\<lambda>fs.
     seq (concurrentTasks opts 0 (\<lambda>i.
          seq (fs_call1 (Mkdir I fs (foo_d i) 0x1FF)) (\<lambda>err.
          seq (skipNotImplemented tb err) (\<lambda>_.
          seq (assert_NoError tb err) (\<lambda>_.
          ret ()))))) (\<lambda>_.
     ret ())))"

definition TestConcurrentMkdir where
  "TestConcurrentMkdir I opts tb =
     seq (tbRun I opts False tb ''same file path'' (TestConcurrentMkdir_same_file_path I opts)) (\<lambda>_.
     seq (tbRun I opts False tb ''different file paths'' (TestConcurrentMkdir_different_file_paths I opts)) (\<lambda>_.
     ret ()))"

definition mkdirAll_task where
  "mkdirAll_task I tb fs name =
     seq (fs_call1 (MkdirAll I fs name 0x1FF)) (\<lambda>err.
     seq (skipNotImplemented tb err) (\<lambda>_.
     seq (assert_NoError tb err) (\<lambda>_.
     ret ())))"

definition TestConcurrentMkdirAll_same_file_path where
  "TestConcurrentMkdirAll_same_file_path I opts tb =
     seq (Setup_FS opts tb) (\<lambda>(_, commit).
     seq commit (\<lambda>fs.
     seq (concurrentTasks opts 0 (\<lambda>_. mkdirAll_task I tb fs ''foo'')) (\<lambda>_.
     ret ())))"

definition TestConcurrentMkdirAll_different_file_paths where
  "TestConcurrentMkdirAll_different_file_paths I opts tb =
     seq (Setup_FS opts tb) (\<lambda>(_, commit).
     seq commit (\<lambda>fs.
     seq (concurrentTasks opts 0 (\<lambda>i. mkdirAll_task I tb fs (foo_d i))) (\<lambda>_.
     ret ())))"

definition TestConcurrentMkdirAll where
  "TestConcurrentMkdirAll I opts tb =
     seq (tbRun I opts False tb ''same file path'' (TestConcurrentMkdirAll_same_file_path I opts)) (\<lambda>_.
     seq (tbRun I opts False tb ''different file paths'' (TestConcurrentMkdirAll_different_file_paths I opts)) (\<lambda>_.
     ret ()))"

subsection \<open>Files\<close>

definition read_task where
  "read_task I tb fs name =
     seq (fs_Open I fs name) (\<lambda>(f, err).
     seq (if_then (assert_NoError tb err)
         (seq (f_Read I f (replicate 5 0)) (\<lambda>(buf, n, err).
          seq (assert_Equal tb 5 n) (\<lambda>_.
          seq (assert_NoError tb err) (\<lambda>_.
          seq (assert_Equal tb (bytes ''hello'') buf) (\<lambda>_.
          seq (assert_Close I tb f) (\<lambda>_.
          ret ()))))))) (\<lambda>_.
     ret ()))"

definition TestConcurrentFileRead_same_file_path where
  "TestConcurrentFileRead_same_file_path I opts tb =
     seq (Setup_FS opts tb) (\<lambda>(setupFS, commit).
     seq (fs_call1 (WriteFullFile I setupFS ''foo'' (bytes ''hello world'') 0x1B6)) (\<lambda>e.
     seq (assert_NoError tb e) (\<lambda>_.
     seq commit (\<lambda>fs.
     seq (concurrentTasks opts 0 (\<lambda>_. read_task I tb fs ''foo'')) (\<lambda>_.
     ret ())))))"

definition TestConcurrentFileRead_different_file_paths where
  "TestConcurrentFileRead_different_file_paths I opts tb =
     seq (Setup_FS opts tb) (\<lambda>(setupFS, commit).
     seq (for_each [0..<10] (\<lambda>i.
          seq (fs_call1 (WriteFullFile I setupFS (foo_d i) (bytes ''hello world'') 0x1B6)) (\<lambda>e.
          seq (assert_NoError tb e) (\<lambda>_.
          ret ())))) (\<lambda>_.
     seq commit (\<lambda>fs.
     seq (concurrentTasks opts 10 (\<lambda>i. read_task I tb fs (foo_d i))) (\<lambda>_.
     ret ()))))"

definition TestConcurrentFileRead where
  "TestConcurrentFileRead I opts tb =
     seq (tbRun I opts False tb ''same file path'' (TestConcurrentFileRead_same_file_path I opts)) (\<lambda>_.
     seq (tbRun I opts False tb ''different file paths'' (TestConcurrentFileRead_different_file_paths I opts)) (\<lambda>_.
     ret ()))"

definition write_task where
  "write_task I tb fs name =
     seq (fs_open (OpenFile I fs name FlagWriteOnly 0)) (\<lambda>(f, err).
     seq (skipNotImplemented tb err) (\<lambda>_.
     seq (f_Write I f (bytes ''hello'')) (\<lambda>(n, err).
     seq (skipNotImplemented tb err) (\<lambda>_.
     seq (assert_Equal tb 5 n) (\<lambda>_.
     seq (assert_NoError tb err) (\<lambda>_.
     seq (assert_Close I tb f) (\<lambda>_.
     ret ())))))))"

definition TestConcurrentFileWrite_same_file_path where
  "TestConcurrentFileWrite_same_file_path I opts tb =
     seq (Setup_FS opts tb) (\<lambda>(setupFS, commit).
     seq (setup_create I tb setupFS ''foo'') (\<lambda>_.
     seq commit (\<lambda>fs.
     seq (concurrentTasks opts 0 (\<lambda>_. write_task I tb fs ''foo'')) (\<lambda>_.
     ret ()))))"

definition TestConcurrentFileWrite_different_file_paths where
  "TestConcurrentFileWrite_different_file_paths I opts tb =
     seq (Setup_FS opts tb) (\<lambda>(setupFS, commit).
     seq (for_each [0..<10] (\<lambda>i. setup_create I tb setupFS (foo_d i))) (\<lambda>_.
     seq commit (\<lambda>fs.
     seq (concurrentTasks opts 10 (\<lambda>i. write_task I tb fs (foo_d i))) (\<lambda>_.
     ret ()))))"

definition TestConcurrentFileWrite where
  "TestConcurrentFileWrite I opts tb =
     seq (tbRun I opts False tb ''same file path'' (TestConcurrentFileWrite_same_file_path I opts)) (\<lambda>_.
     seq (tbRun I opts False tb ''different file paths'' (TestConcurrentFileWrite_different_file_paths I opts)) (\<lambda>_.
     ret ()))"

definition stat_task where
  "stat_task I tb fs =
     seq (fs_Open I fs ''foo'') (\<lambda>(f, err).
     seq (if_then (assert_NoError tb err)
         (seq (file_call1 f (fl_Stat I)) (\<lambda>r.
          seq (assert_NoError tb (err_of r)) (\<lambda>_.
          seq (asQuickInfo I (info_of r)) (\<lambda>q.
          seq (assert_Equal tb (mk_info ''foo'' 0 0x1B6 False) q) (\<lambda>_.
          seq (assert_Close I tb f) (\<lambda>_.
          ret ()))))))) (\<lambda>_.
     ret ()))"

definition TestConcurrentFileStat where
  "TestConcurrentFileStat I opts tb =
     seq (Setup_FS opts tb) (\<lambda>(setupFS, commit).
     seq (setup_create I tb setupFS ''foo'') (\<lambda>_.
     seq commit (\<lambda>fs.
     seq (concurrentTasks opts 0 (\<lambda>_. stat_task I tb fs)) (\<lambda>_.
     ret ()))))"

subsection \<open>The suite\<close>

definition runner_Run where
  "runner_Run I opts tb name subtask = tbRun I opts True tb name (subtask I opts)"

definition runFS where
  "runFS I opts tb =
     seq (runner_Run I opts tb ''base fs.Create'' TestBaseCreate) (\<lambda>_.
     seq (runner_Run I opts tb ''base fs.Mkdir'' TestBaseMkdir) (\<lambda>_.
     seq (runner_Run I opts tb ''base fs.Chmod'' TestBaseChmod) (\<lambda>_.
     seq (runner_Run I opts tb ''base fs.Chtimes'' TestBaseChtimes) (\<lambda>_.
     seq (runner_Run I opts tb ''fs.Chmod'' TestChmod) (\<lambda>_.
     seq (runner_Run I opts tb ''fs.Chtimes'' TestChtimes) (\<lambda>_.
     seq (runner_Run I opts tb ''fs.Create'' TestCreate) (\<lambda>_.
     seq (runner_Run I opts tb ''fs.Mkdir'' TestMkdir) (\<lambda>_.
     seq (runner_Run I opts tb ''fs.MkdirAll'' TestMkdirAll) (\<lambda>_.
     seq (runner_Run I opts tb ''fs.Open'' TestOpen) (\<lambda>_.
     seq (runner_Run I opts tb ''fs.OpenFile'' TestOpenFile) (\<lambda>_.
     seq (runner_Run I opts tb ''fs.ReadDir'' TestReadDir) (\<lambda>_.
     seq (runner_Run I opts tb ''fs.ReadFile'' TestReadFile) (\<lambda>_.
     seq (runner_Run I opts tb ''fs.Remove'' TestRemove) (\<lambda>_.
     seq (runner_Run I opts tb ''fs.RemoveAll'' TestRemoveAll) (\<lambda>_.
     seq (runner_Run I opts tb ''fs.Rename'' TestRename) (\<lambda>_.
     seq (runner_Run I opts tb ''fs.Stat'' TestStat) (\<lambda>_.
     seq (runner_Run I opts tb ''fs.WriteFile'' TestWriteFile) (\<lambda>_.
     seq (runner_Run I opts tb ''fs_concurrent.Create'' TestConcurrentCreate) (\<lambda>_.
     seq (runner_Run I opts tb ''fs_concurrent.OpenFileCreate'' TestConcurrentOpenFileCreate) (\<lambda>_.
     seq (runner_Run I opts tb ''fs_concurrent.Mkdir'' TestConcurrentMkdir) (\<lambda>_.
     seq (runner_Run I opts tb ''fs_concurrent.MkdirAll'' TestConcurrentMkdirAll) (\<lambda>_.
     seq (runner_Run I opts tb ''fs_concurrent.Remove'' TestConcurrentRemove) (\<lambda>_.
     ret ())))))))))))))))))))))))"

definition runFile where
  "runFile I opts tb =
     seq (runner_Run I opts tb ''base file.Close'' TestFileClose) (\<lambda>_.
     seq (runner_Run I opts tb ''file.Read'' TestFileRead) (\<lambda>_.
     seq (runner_Run I opts tb ''file.ReadAt'' TestFileReadAt) (\<lambda>_.
     seq (runner_Run I opts tb ''file.Seek'' TestFileSeek) (\<lambda>_.
     seq (runner_Run I opts tb ''file.Write'' TestFileWrite) (\<lambda>_.
     seq (runner_Run I opts tb ''file.WriteAt'' TestFileWriteAt) (\<lambda>_.
     seq (runner_Run I opts tb ''file.ReadDir'' TestFileReadDir) (\<lambda>_.
     seq (runner_Run I opts tb ''file.Stat'' TestFileStat) (\<lambda>_.
     seq (runner_Run I opts tb ''file.Sync'' TestFileSync) (\<lambda>_.
     seq (runner_Run I opts tb ''file.Truncate'' TestFileTruncate) (\<lambda>_.
     seq (runner_Run I opts tb ''file_concurrent.Read'' TestConcurrentFileRead) (\<lambda>_.
     seq (runner_Run I opts tb ''file_concurrent.Write'' TestConcurrentFileWrite) (\<lambda>_.
     seq (runner_Run I opts tb ''file_concurrent.Stat'' TestConcurrentFileStat) (\<lambda>_.
     ret ())))))))))))))"

text \<open>The two entry points, \<open>FS\<close> and \<open>File\<close>.\<close>

definition fstest_FS where
  "fstest_FS I tb options s =
     (let (err, options, s) = setupOptions options s in
      if err \<noteq> None then tb_Fatal tb s
      else
        seq (tbRun I options True tb (opt_Name options @ ''_FS'') (runFS I options)) (\<lambda>_.
        generateTestData options) s)"

definition fstest_File where
  "fstest_File I tb options s =
     (let (err, options, s) = setupOptions options s in
      if err \<noteq> None then tb_Fatal tb s
      else
        seq (tbRun I options True tb (opt_Name options @ ''_File'') (runFile I options)) (\<lambda>_.
        generateTestData options) s)"

end
