(* ===== verification/FSTest_Laws.thy ===== *)
theory FSTest_Laws
  imports FSTest_Concurrent
begin

section \<open>How the suite runs its tests\<close>

text \<open>
  What holds whatever the file system is: how subtests pass, fail and are skipped, what the comparisons
  see and what they do not, and what the callers of the suite are told.
\<close>

subsection \<open>Programs that return\<close>

text \<open>\<open>wp m s Q\<close>: from \<open>s\<close> the program returns, leaves no parallel subtests, and \<open>Q\<close> holds afterwards.\<close>

definition wp :: "('s, 'a) prog \<Rightarrow> 's \<Rightarrow> ('a \<Rightarrow> 's \<Rightarrow> bool) \<Rightarrow> bool" where
  "wp m s Q \<longleftrightarrow> (\<exists>x s'. m s = Some (Ret x, s', []) \<and> Q x s')"

lemma wp_ret [simp]: "wp (ret x) s Q \<longleftrightarrow> Q x s"
  by (simp add: wp_def ret_def)

lemma wp_seq: "wp m s (\<lambda>x s'. wp (f x) s' Q) \<Longrightarrow> wp (seq m f) s Q"
  by (fastforce simp: wp_def seq_def)

lemma wp_mono: "wp m s Q \<Longrightarrow> (\<And>x s'. Q x s' \<Longrightarrow> R x s') \<Longrightarrow> wp m s R"
  by (auto simp: wp_def)

lemma seq_app: "(\<lambda>s. f s) = f" by simp


subsection \<open>Passing\<close>

text \<open>
  A test has its stack of running tests and the maps of skipped ones; a program passes when it returns
  and leaves both as they were: nothing failed, nothing was skipped, and no cleanup is left behind.
\<close>

type_synonym rest = "frame list \<times> Facets list list"

definition at_rest :: "rest \<Rightarrow> ('w, 'h) tst \<Rightarrow> bool" where
  "at_rest X s \<longleftrightarrow> t_stack s = fst X \<and> t_maps s = snd X"

text \<open>A test \<open>tb\<close> that runs on top of the stack of tests, as a \<open>*testing.T\<close>.\<close>

definition on_top :: "nat \<Rightarrow> rest \<Rightarrow> bool" where
  "on_top tb X \<longleftrightarrow> length (fst X) = Suc tb \<and> fr_kind (fst X ! tb) = TestT"

definition passes :: "(nat \<Rightarrow> (('w, 'h) tst, unit) prog) \<Rightarrow> bool" where
  "passes test \<longleftrightarrow> (\<forall>X s tb. at_rest X s \<longrightarrow> on_top tb X \<longrightarrow> wp (test tb) s (\<lambda>_. at_rest X))"

lemma passesI:
  "(\<And>X s tb. at_rest X s \<Longrightarrow> on_top tb X \<Longrightarrow> wp (test tb) s (\<lambda>_. at_rest X)) \<Longrightarrow> passes test"
  unfolding passes_def by blast

lemma passesD: "passes test \<Longrightarrow> at_rest X s \<Longrightarrow> on_top tb X \<Longrightarrow> wp (test tb) s (\<lambda>_. at_rest X)"
  unfolding passes_def by blast

lemma new_frame_sel [simp]:
  "fr_kind (new_frame k n) = k" "fr_name (new_frame k n) = n" "\<not> fr_failed (new_frame k n)"
  "\<not> fr_skipped (new_frame k n)" "\<not> fr_finished (new_frame k n)" "fr_cleanup (new_frame k n) = []"
  by (simp_all add: new_frame_def)

lemma push_stack:
  "on_top tb X \<Longrightarrow> at_rest X s \<Longrightarrow>
   at_rest (fst X @ [new_frame TestT (fullName (tb_Name tb s) name)], snd X) (push_frame tb name s)"
  by (simp add: push_frame_def at_rest_def on_top_def tb_kind_def)

text \<open>The end of a round in which the function of the test has returned and left nothing behind.\<close>

lemma upd_same: "tb < length (t_stack s) \<Longrightarrow> f (t_stack s ! tb) = t_stack s ! tb \<Longrightarrow> upd_frame tb f s = s"
  by (simp add: upd_frame_def)

lemma t_round_pass:
  assumes "body tb s = Some (Ret (), s', [])" "tb < length (t_stack s')" "fr_cleanup (t_stack s' ! tb) = []"
  shows "t_round cl tb body s = Some (Ret (), s')"
proof -
  have "upd_frame tb (fr_cleanup_update (\<lambda>_. [])) s' = s'"
    using assms(2,3) by (intro upd_same) (cases "t_stack s' ! tb", auto)
  then show ?thesis using assms by (simp add: t_round_def)
qed

lemma tbRun_passes:
  assumes "passes test" "at_rest X s" "on_top tb X" "ShouldSkip opts = Some (\<lambda>_. False)"
  shows "wp (tbRun I opts False tb name test) s (\<lambda>_. at_rest X)"
proof -
  let ?n = "new_frame TestT (fullName (tb_Name tb s) name)" and ?s = "push_frame tb name s"
  have p: "at_rest (fst X @ [?n], snd X) ?s" using push_stack assms(2,3) by blast
  have l: "length (fst X) = Suc tb" using assms(3) by (simp add: on_top_def)
  obtain s' where s': "test (Suc tb) ?s = Some (Ret (), s', [])" "at_rest (fst X @ [?n], snd X) s'"
    using passesD [OF assms(1) p, of "Suc tb"] l by (auto simp: wp_def on_top_def nth_append)
  have top: "t_stack s' ! Suc tb = ?n" "Suc tb < length (t_stack s')"
    using s'(2) l by (simp_all add: at_rest_def nth_append)
  have "tbRunInner opts test (Suc tb) ?s = Some (Ret (), s', [])"
    using s'(1) assms(4) top by (simp add: tbRunInner_def defer_skip_def Let_def)
  then have "t_round (close_cleanup I) (Suc tb) (tbRunInner opts test) ?s = Some (Ret (), s')"
    using top by (intro t_round_pass) auto
  moreover have "at_rest X (pop_frame tb s')"
    using s'(2) l by (simp add: at_rest_def pop_frame_def)
  moreover have "tb_kind tb s = TestT" using assms(2,3) by (simp add: tb_kind_def at_rest_def on_top_def)
  ultimately show ?thesis
    by (simp add: wp_def tbRun_def tbParallel_def t_Run_def t_exec_def)
qed

text \<open>Running one subtest after the other; the last one is followed by \<open>ret ()\<close>.\<close>

lemma tbRun_then:
  assumes "at_rest X s" "on_top tb X \<and> ShouldSkip opts = Some (\<lambda>_. False) \<and> passes test
      \<and> (\<forall>s'. at_rest X s' \<longrightarrow> wp (k ()) s' Q)"
  shows "wp (seq (tbRun I opts False tb name test) k) s Q"
  using tbRun_passes [of test X s tb opts I name] assms by (intro wp_seq) (auto elim!: wp_mono)

subsection \<open>Skipping\<close>

text \<open>A subtest that skips itself is recorded as skipped.\<close>

lemma tbRun_skips:
  assumes "at_rest X s" "on_top tb X" "ShouldSkip opts = Some (\<lambda>_. False)"
    and "test (Suc tb) (push_frame tb name s) = tb_Skip (Suc tb) ((push_frame tb name s)\<lparr>t_world := W\<rparr>)"
  shows "tbRun I opts False tb name test s =
    Some (Ret (), store_skip (skippedTests opts) \<lparr>fct_Name = fullName (tb_Name tb s) name\<rparr> (s\<lparr>t_world := W\<rparr>), [])"
proof -
  let ?f = "\<lparr>fct_Name = fullName (tb_Name tb s) name\<rparr>" and ?m = "skippedTests opts"
  let ?s = "push_frame tb name s"
  let ?s1 = "upd_frame (Suc tb) (\<lambda>f. f\<lparr>fr_skipped := True, fr_finished := True\<rparr>) (?s\<lparr>t_world := W\<rparr>)"
  let ?s2 = "store_skip ?m ?f ?s1"
  have l: "length (t_stack s) = Suc tb" "tb_kind tb s = TestT" using assms(1,2) by (simp_all add: at_rest_def on_top_def tb_kind_def)
  have f: "facets_of (Suc tb) ?s = ?f"
    using l by (simp add: facets_of_def tb_Name_def push_frame_def nth_append)
  have sk: "fr_skipped (t_stack ?s1 ! Suc tb)" and c: "fr_cleanup (t_stack ?s1 ! Suc tb) = []"
    using l by (simp_all add: upd_frame_def push_frame_def nth_append)
  have inner: "tbRunInner opts test (Suc tb) ?s = Some (Exit (Suc tb), ?s2, [])"
    using assms(3,4) sk f by (simp add: tbRunInner_def defer_skip_def Let_def) (simp add: tb_Skip_def)
  have st: "t_stack ?s2 = t_stack ?s1" by (simp add: store_skip_def)
  have "upd_frame (Suc tb) (fr_cleanup_update (\<lambda>_. [])) ?s2 = ?s2"
    using c st l by (intro upd_same) (auto simp: upd_frame_def push_frame_def new_frame_def)
  then have "t_round (close_cleanup I) (Suc tb) (tbRunInner opts test) ?s = Some (Exit (Suc tb), ?s2)"
    using inner c st by (simp add: t_round_def)
  moreover have "pop_frame tb ?s2 = store_skip ?m ?f (s\<lparr>t_world := W\<rparr>)"
    using l by (simp add: pop_frame_def store_skip_def upd_frame_def push_frame_def list_update_append)
  ultimately show ?thesis
    using l(2) assms(3) by (simp add: tbRun_def tbParallel_def t_Run_def t_exec_def)
qed

text \<open>
  A subtest that \<open>ShouldSkip\<close> rejects is not run at all, parallel or not: it is recorded as skipped and
  nothing else changes, whatever the subtest is.
\<close>

theorem ShouldSkip_skips:
  assumes "tb_kind tb s = TestT" "length (t_stack s) = Suc tb" "ShouldSkip opts = Some shouldSkip"
    and "facets = \<lparr>fct_Name = fullName (tb_Name tb s) name\<rparr>" "shouldSkip facets"
  shows "tbRun I opts par tb name subtest s = Some (Ret (), store_skip (skippedTests opts) facets s, [])"
proof -
  let ?s = "push_frame tb name s"
  let ?s1 = "upd_frame (Suc tb) (\<lambda>f. f\<lparr>fr_skipped := True, fr_finished := True\<rparr>) ?s"
  let ?s2 = "store_skip (skippedTests opts) facets ?s1"
  have f: "facets_of (Suc tb) ?s = facets"
    using assms(2,4) by (simp add: facets_of_def tb_Name_def push_frame_def nth_append)
  have sk: "fr_skipped (t_stack ?s1 ! Suc tb)" and c: "fr_cleanup (t_stack ?s1 ! Suc tb) = []"
    using assms(2) by (simp_all add: upd_frame_def push_frame_def nth_append)
  have inner: "tbRunInner opts subtest (Suc tb) ?s = Some (Exit (Suc tb), ?s2, [])"
    using assms(3,5) sk f by (simp add: tbRunInner_def defer_skip_def Let_def) (simp add: tb_Skip_def)
  have st: "t_stack ?s2 = t_stack ?s1" by (simp add: store_skip_def)
  have "upd_frame (Suc tb) (fr_cleanup_update (\<lambda>_. [])) ?s2 = ?s2"
    using c st assms(2)
    by (intro upd_same) (auto simp: upd_frame_def push_frame_def new_frame_def)
  then have "t_round (close_cleanup I) (Suc tb) (tbRunInner opts subtest) ?s = Some (Exit (Suc tb), ?s2)"
    using inner c st by (simp add: t_round_def)
  moreover have "pop_frame tb ?s2 = store_skip (skippedTests opts) facets s"
    using assms(2) by (simp add: pop_frame_def store_skip_def upd_frame_def push_frame_def list_update_append)
  ultimately show ?thesis
    using assms(1,3-5) by (simp add: tbRun_def tbParallel_def t_Run_def t_exec_def)
qed

text \<open>The options after \<open>setupOptions\<close>.\<close>

definition with_defaults :: "nat \<Rightarrow> ('f, ('w, 'h) tst) FSOptions \<Rightarrow> ('f, ('w, 'h) tst) FSOptions" where
  "with_defaults m options = options\<lparr>skippedTests := m,
     Setup := (if Setup options = None
               then Some (\<lambda>tb. seq (the (TestFS options) tb) (\<lambda>fs. ret (fs, ret fs))) else Setup options),
     ShouldSkip := (if ShouldSkip options = None then Some (\<lambda>_. False) else ShouldSkip options)\<rparr>"

lemma setupOptions_ok:
  assumes "opt_Name options \<noteq> []" "TestFS options \<noteq> None \<or> Setup options \<noteq> None"
  shows "setupOptions options s =
    (None, with_defaults (length (t_maps s)) options, s\<lparr>t_maps := t_maps s @ [[]]\<rparr>)"
  using assms by (cases options) (auto simp: setupOptions_def new_map_def with_defaults_def)

text \<open>
  \<open>FS\<close> and \<open>File\<close> on a \<open>*testing.T\<close> report that no test was skipped, before they have run one: the suite
  is a parallel subtest, so \<open>Run\<close> returns at once and \<open>generateTestData\<close> reads an empty map. The world of
  the file systems has not been touched.
\<close>

theorem FS_reports_before_running:
  assumes "opt_Name options \<noteq> ''''" "TestFS options \<noteq> None \<or> Setup options \<noteq> None" "tb_kind tb s = TestT"
    and "\<forall>f n. ShouldSkip options = Some f \<longrightarrow> \<not> f \<lparr>fct_Name = n\<rparr>"
  shows "\<exists>p q. fstest_FS I tb options s = Some (Ret \<lparr>Skips = []\<rparr>, s\<lparr>t_maps := t_maps s @ [[]]\<rparr>, [p])
    \<and> fstest_File I tb options s = Some (Ret \<lparr>Skips = []\<rparr>, s\<lparr>t_maps := t_maps s @ [[]]\<rparr>, [q])"
proof -
  note o = setupOptions_ok [OF assms(1,2), of s]
  have "\<exists>f. ShouldSkip (with_defaults m options) = Some f \<and> (\<forall>n. \<not> f \<lparr>fct_Name = n\<rparr>)" for m
    using assms(4) by (cases "ShouldSkip options") (auto simp: with_defaults_def)
  then obtain f where "ShouldSkip (with_defaults (length (t_maps s)) options) = Some f" "\<forall>n. \<not> f \<lparr>fct_Name = n\<rparr>"
    by blast
  moreover have "skippedTests (with_defaults m options) = m" for m by (simp add: with_defaults_def)
  ultimately show ?thesis
    using assms(3) o
    by (simp add: fstest_FS_def fstest_File_def seq_def tbRun_def tb_kind_def t_Run_def tbParallel_def
        generateTestData_def ret_def)
qed


subsection \<open>What the comparisons see\<close>

lemma assertEqualQuickInfo_reports:
  "reports tb (qi_Name a = qi_Name b \<and> qi_Size a = qi_Size b \<and> qi_IsDir a = qi_IsDir b
      \<and> qi_Mode a AND modeMask opts = qi_Mode b AND modeMask opts) (assertEqualQuickInfo opts tb a b)"
proof -
  have "(mask_info (modeMask opts) a = mask_info (modeMask opts) b) =
      (qi_Name a = qi_Name b \<and> qi_Size a = qi_Size b \<and> qi_IsDir a = qi_IsDir b
      \<and> qi_Mode a AND modeMask opts = qi_Mode b AND modeMask opts)"
    by (cases a; cases b) (auto simp: mask_info_def)
  then show ?thesis using assert_reports(3) [of tb "mask_info (modeMask opts) a" "mask_info (modeMask opts) b"]
    unfolding assertEqualQuickInfo_def by simp
qed

text \<open>
  The default of \<open>FileModeMask\<close> is zero, which disables every check of a mode: two entries that differ
  only in their modes are equal for the suite.
\<close>

theorem zero_mask_ignores_modes:
  assumes "FileModeMask (opt_Constraints opts) = 0"
  shows "reports tb (qi_Name a = qi_Name b \<and> qi_Size a = qi_Size b \<and> qi_IsDir a = qi_IsDir b)
    (assertEqualQuickInfo opts tb a b)"
  using assertEqualQuickInfo_reports [of tb a b opts] assms by (simp add: modeMask_def)

end
