(* ===== verification/FSTest_Walk.thy ===== *)
theory FSTest_Walk
  imports FSTest_Laws FS_Contract
begin

section \<open>What the suite sees of a file system: \<open>walkFSEntries\<close>\<close>

text \<open>
  The locale \<open>listed_fs\<close> is what the walk relies on: a file system has a tree of files, and listing a
  directory returns its entries with what they show. Inside it the walk is shown to return and to record
  exactly the tree.
\<close>

text \<open>A \<open>FileInfo\<close>, and a \<open>DirEntry\<close>, that shows a node of the tree.\<close>

definition info_is ::
  "('f, 'h, 'i, 'd, 'w, 'z) test_iface_scheme \<Rightarrow> 'i \<Rightarrow> string \<Rightarrow> node \<Rightarrow> 'w \<Rightarrow> bool" where
  "info_is I info p nd W \<longleftrightarrow>
     in_Name I info = Base p \<and> in_IsDir I info = Some (IsDir (n_mode nd)) \<and> in_Mode I info = Some (n_mode nd)
     \<and> in_ModTime I info = Some (n_modTime nd) \<and> in_Sys I info = Some ()
     \<and> (\<not> IsDir (n_mode nd) \<longrightarrow> in_Size I info W = Some (int (length (n_data nd))))"

definition entry_is ::
  "('f, 'h, 'i, 'd, 'w, 'z) test_iface_scheme \<Rightarrow> 'd \<Rightarrow> string \<Rightarrow> node \<Rightarrow> 'w \<Rightarrow> bool" where
  "entry_is I d p nd W \<longleftrightarrow>
     de_IsDir I d = Some (IsDir (n_mode nd)) \<and> de_Type I d = Some (Type (n_mode nd))
     \<and> (\<exists>info. de_Info I d W = Some (Inr info, W) \<and> info_is I info p nd W)"

definition node_entry :: "file_mode \<Rightarrow> node \<Rightarrow> fsEntry" where
  "node_entry m nd = mk_entry (if IsDir (n_mode nd) then 0 else int (length (n_data nd))) (n_mode nd AND m)
     (IsDir (n_mode nd))"

text \<open>The entries of a tree strictly below a path, and those at or below it.\<close>

definition seen_below :: "file_mode \<Rightarrow> fs_tree \<Rightarrow> string list \<Rightarrow> string \<Rightarrow> fsEntry option" where
  "seen_below m T a q =
     (if ValidPath q \<and> strict_prefix a (elems q) then map_option (node_entry m) (T q) else None)"

definition seen_at :: "file_mode \<Rightarrow> fs_tree \<Rightarrow> string list \<Rightarrow> string \<Rightarrow> fsEntry option" where
  "seen_at m T a q =
     (if ValidPath q \<and> prefix a (elems q) then map_option (node_entry m) (T q) else None)"

definition seen_in :: "file_mode \<Rightarrow> fs_tree \<Rightarrow> string list \<Rightarrow> string set \<Rightarrow> string \<Rightarrow> fsEntry option" where
  "seen_in m T a C q =
     (if ValidPath q \<and> (\<exists>c \<in> C. prefix (a @ [c]) (elems q)) then map_option (node_entry m) (T q) else None)"

lemma seen_at_split:
  assumes "list_all ok_elem a" "T (path_of a) = Some nd"
  shows "M ++ seen_at m T a = M(path_of a \<mapsto> node_entry m nd) ++ seen_below m T a"
proof (rule ext)
  fix q
  have "elems q = a \<longleftrightarrow> q = path_of a" if "ValidPath q"
    using that assms(1) ValidPath_elems by auto
  then show "(M ++ seen_at m T a) q = (M(path_of a \<mapsto> node_entry m nd) ++ seen_below m T a) q"
    using assms by (auto simp: seen_at_def seen_below_def map_add_def strict_prefix_def split: option.split)
qed

lemma seen_below_leaf:
  assumes "closed_below T b" "prefix b a" "\<not> is_dir T (path_of a)"
  shows "seen_below m T a = Map.empty"
proof (rule ext)
  fix q
  show "seen_below m T a q = None"
  proof (cases "ValidPath q \<and> strict_prefix a (elems q) \<and> T q \<noteq> None")
    case True
    then obtain gs where gs: "elems q = a @ gs" "gs \<noteq> []" by (auto simp: strict_prefix_def prefix_def)
    have "is_dir T (path_of a)"
      using closed_below_up [OF assms(1,2), of gs] True gs ValidPath_elems [of q] by auto
    with assms(3) show ?thesis by simp
  qed (auto simp: seen_below_def)
qed

lemma seen_in_step:
  assumes "c \<notin> C"
  shows "M ++ seen_at m T (a @ [c]) ++ seen_in m T a C = M ++ seen_in m T a (insert c C)"
  by (rule ext) (auto simp: seen_at_def seen_in_def map_add_def split: option.split)

lemma seen_in_children:
  assumes "closed_below T a" "list_all ok_elem a" "\<And>p. T p \<noteq> None \<Longrightarrow> ValidPath p"
  shows "seen_in m T a (children T (path_of a)) = seen_below m T a"
proof (rule ext)
  fix q
  have C: "children T (path_of a) = {c. ok_elem c \<and> T (path_of (a @ [c])) \<noteq> None}"
    using children_path_of [OF assms(3,2)] .
  have "\<exists>c \<in> children T (path_of a). prefix (a @ [c]) (elems q)"
    if q: "ValidPath q" "strict_prefix a (elems q)" "T q \<noteq> None"
  proof -
    obtain c hs where e: "elems q = a @ c # hs"
      using q(2) by (metis append_self_conv neq_Nil_conv prefix_def strict_prefix_def)
    have ok: "list_all ok_elem (a @ c # hs)" "path_of (a @ c # hs) = q" using ValidPath_elems [OF q(1)] e by auto
    have "T (path_of (a @ [c])) \<noteq> None"
    proof (cases "hs = []")
      case False
      then have "is_dir T (path_of (a @ [c]))"
        using closed_below_up [OF assms(1), of "a @ [c]" hs] ok q(3) by simp
      then show ?thesis by (rule is_dir_present)
    qed (use ok q(3) in simp)
    then show ?thesis using C ok(1) e by (intro bexI [of _ c]) auto
  qed
  then show "seen_in m T a (children T (path_of a)) q = seen_below m T a q"
    by (cases "T q") (auto simp: seen_in_def seen_below_def strict_prefix_def prefix_def)
qed

lemma below_child:
  assumes "finite (below T a)" "list_all ok_elem (a @ [c])" "T (path_of (a @ [c])) \<noteq> None"
  shows "card (below T (a @ [c])) < card (below T a)"
proof (rule psubset_card_mono [OF assms(1)])
  have "below T (a @ [c]) \<subseteq> below T a" by (auto simp: below_def strict_prefix_def prefix_def)
  moreover have "a @ [c] \<in> below T a" "a @ [c] \<notin> below T (a @ [c])"
    using assms(2,3) by (auto simp: below_def strict_prefix_def)
  ultimately show "below T (a @ [c]) \<subset> below T a" by blast
qed

text \<open>The expected entries are in the tree.\<close>

definition matches :: "file_mode \<Rightarrow> (string \<times> fsEntry) list \<Rightarrow> fs_tree \<Rightarrow> bool" where
  "matches m expected T \<longleftrightarrow>
     list_all (\<lambda>(p, e). p \<noteq> dot \<and> map_option (node_entry m) (T p) = Some (e\<lparr>fe_Mode := fe_Mode e AND m\<rparr>)) expected"

text \<open>The body of the loop of the walk.\<close>

definition walk_step where
  "walk_step I m tb fs dir entry entries s =
     seq (walk_entry I m tb dir entry entries) (\<lambda>r s.
     if fst r then walkFSEntries I m tb fs (fst (snd r)) (snd (snd r)) s else ret (snd (snd r)) s) s"

lemma walk_unfold:
  assumes "dir \<noteq> []" "ReadDir I fs dir (t_world s) = Some (ds, None, W)"
  shows "walkFSEntries I m tb fs dir entries s =
    fold_each (walk_step I m tb fs dir) ds entries (s\<lparr>t_world := W\<rparr>)"
proof -
  have c: "seq (fs_call2 (ReadDir I fs dir)) k s = k (ds, None) (s\<lparr>t_world := W\<rparr>)" for k
    by (rule seq_step) (use assms(2) in \<open>simp add: fs_call2_def ret_def\<close>)
  show ?thesis
    using assms(1) by (subst walkFSEntries.simps) (simp add: c asserts walk_step_def [abs_def])
qed

locale listed_fs =
  fixes I :: "('f, 'h, 'i, 'd, 'w, 'z) test_iface_scheme"
    and good :: "'f \<Rightarrow> 'w \<Rightarrow> bool"
    and tree :: "'f \<Rightarrow> 'w \<Rightarrow> fs_tree"
    and later :: "'f \<Rightarrow> 'w \<Rightarrow> 'w \<Rightarrow> bool"
  assumes later_refl: "later fs W W"
    and later_trans: "later fs U V \<Longrightarrow> later fs V W \<Longrightarrow> later fs U W"
    and tree_valid: "good fs W \<Longrightarrow> tree fs W p \<noteq> None \<Longrightarrow> ValidPath p"
    and tree_finite: "good fs W \<Longrightarrow> finite (dom (tree fs W))"
    and ReadDir_law: "good fs W \<Longrightarrow> is_dir (tree fs W) p \<Longrightarrow>
      \<exists>ds W'. ReadDir I fs p W = Some (ds, None, W') \<and> good fs W' \<and> tree fs W' = tree fs W \<and> later fs W W'
        \<and> sorted (map (de_Name I) ds) \<and> distinct (map (de_Name I) ds)
        \<and> set (map (de_Name I) ds) = children (tree fs W) p
        \<and> (\<forall>d \<in> set ds. \<exists>nd. tree fs W (Join [p, de_Name I d]) = Some nd
             \<and> (\<forall>U. later fs W' U \<longrightarrow> entry_is I d (Join [p, de_Name I d]) nd U))"
begin

lemma walk_entry_step:
  assumes "entry_is I d p nd (t_world s)" "p = Join [dir, de_Name I d]" "ValidPath (de_Name I d)"
    "map_of entries p = None"
  shows "walk_entry I m tb dir d entries s =
    Some (Ret (IsDir (n_mode nd), p, AList.update p (node_entry m nd) entries), s, [])"
proof -
  obtain info where info: "de_Info I d (t_world s) = Some (Inr info, t_world s)" "info_is I info p nd (t_world s)"
    and d: "de_IsDir I d = Some (IsDir (n_mode nd))" "de_Type I d = Some (Type (n_mode nd))"
    using assms(1) by (auto simp: entry_is_def)
  have new: "p \<notin> fst ` set entries" using assms(4) by (simp add: map_of_eq_None_iff)
  have call: "seq (fs_call1 (de_Info I d)) k s = k (Inr info) s" for k :: "err + 'i \<Rightarrow> (('w, 'h) tst, 'y) prog"
    by (rule seq_step) (use info(1) in \<open>simp add: fs_call1_def ret_def\<close>)
  have v: "seq (val_of (\<lambda>_. Some x)) k = k x" for x :: 'x and k :: "'x \<Rightarrow> (('w, 'h) tst, 'y) prog"
    by (rule ext) (auto simp: seq_def val_of_def ret_def split: option.split)
  have sz: "seq (if \<not> IsDir (n_mode nd) then val_of (in_Size I info) else ret 0) k s =
      k (if IsDir (n_mode nd) then 0 else int (length (n_data nd))) s" for k :: "int \<Rightarrow> (('w, 'h) tst, 'y) prog"
    using info(2) by (cases "IsDir (n_mode nd)") (auto simp: seq_def val_of_def info_is_def ret_def split: option.split)
  show ?thesis
    using info(2) d assms(2,3) new
    by (simp add: walk_entry_def v call err_of_def asserts info_is_def seq_assoc sz node_entry_def)
      (simp add: ret_def Let_def)
qed

lemma walk_child:
  assumes IH: "\<And>s entries. good fs (t_world s) \<Longrightarrow> tree fs (t_world s) = T \<Longrightarrow> is_dir T (path_of (a @ [c])) \<Longrightarrow>
      (\<forall>q. seen_below m T (a @ [c]) q \<noteq> None \<longrightarrow> map_of entries q = None) \<Longrightarrow>
      \<exists>W' es. walkFSEntries I m tb fs (path_of (a @ [c])) entries s = Some (Ret es, s\<lparr>t_world := W'\<rparr>, [])
        \<and> good fs W' \<and> tree fs W' = T \<and> later fs (t_world s) W'
        \<and> map_of es = map_of entries ++ seen_below m T (a @ [c])"
    and "good fs (t_world s)" "tree fs (t_world s) = T" "list_all ok_elem (a @ [c])" "closed_below T a"
    and "T (path_of (a @ [c])) = Some nd" "entry_is I d (path_of (a @ [c])) nd (t_world s)" "de_Name I d = c"
    and "\<forall>q. seen_at m T (a @ [c]) q \<noteq> None \<longrightarrow> map_of entries q = None"
  shows "\<exists>W' es. walk_step I m tb fs (path_of a) d entries s = Some (Ret es, s\<lparr>t_world := W'\<rparr>, [])
    \<and> good fs W' \<and> tree fs W' = T \<and> later fs (t_world s) W' \<and> map_of es = map_of entries ++ seen_at m T (a @ [c])"
proof -
  let ?p = "path_of (a @ [c])"
  let ?es = "AList.update ?p (node_entry m nd) entries"
  have ok: "list_all ok_elem a" "ok_elem c" using assms(4) by auto
  have j: "Join [path_of a, c] = ?p" using Join_elem [of a c] ok by simp
  have vc: "ValidPath c" using ValidPath_path_of [of "[c]"] ok(2) by (simp add: path_of_def)
  have vp: "ValidPath ?p" "elems ?p = a @ [c]" using assms(4) by simp_all
  have new: "map_of entries ?p = None" using assms(6,9) vp by (auto simp: seen_at_def)
  have we: "seq (walk_entry I m tb (path_of a) d entries) k s = k (IsDir (n_mode nd), ?p, ?es) s" for k
    using walk_entry_step [OF assms(7), of "path_of a" entries m tb] assms(8) j vc new by (intro seq_step) simp
  have sp: "map_of ?es ++ seen_below m T (a @ [c]) = map_of entries ++ seen_at m T (a @ [c])"
    using seen_at_split [of "a @ [c]" T nd "map_of entries" m] assms(4,6) by (simp add: update_conv')
  show ?thesis
  proof (cases "IsDir (n_mode nd)")
    case True
    have d: "is_dir T ?p" using True assms(6) by (simp add: is_dir_def)
    have "\<forall>q. seen_below m T (a @ [c]) q \<noteq> None \<longrightarrow> map_of ?es q = None"
      using assms(9) vp by (auto simp: seen_below_def seen_at_def update_conv' strict_prefix_def split: if_splits)
    from IH [OF assms(2,3) d this] show ?thesis unfolding sp using True by (simp add: walk_step_def we)
  next
    case False
    then have "\<not> is_dir T ?p" using assms(6) by (simp add: is_dir_def)
    then have "seen_below m T (a @ [c]) = Map.empty" by (intro seen_below_leaf [OF assms(5)]) auto
    then have "map_of ?es = map_of entries ++ seen_at m T (a @ [c])" using sp by simp
    then show ?thesis using False assms(2,3) later_refl
      by (auto simp: walk_step_def we ret_def intro!: exI [of _ "t_world s"])
  qed
qed

lemma walk_children:
  assumes step: "\<And>d s entries. d \<in> set ds \<Longrightarrow> good fs (t_world s) \<Longrightarrow> tree fs (t_world s) = T \<Longrightarrow> later fs W (t_world s) \<Longrightarrow>
      (\<forall>q. seen_at m T (a @ [de_Name I d]) q \<noteq> None \<longrightarrow> map_of entries q = None) \<Longrightarrow>
      \<exists>W' es. walk_step I m tb fs p d entries s = Some (Ret es, s\<lparr>t_world := W'\<rparr>, [])
        \<and> good fs W' \<and> tree fs W' = T \<and> later fs (t_world s) W'
        \<and> map_of es = map_of entries ++ seen_at m T (a @ [de_Name I d])"
    and "good fs (t_world s)" "tree fs (t_world s) = T" "later fs W (t_world s)" "distinct (map (de_Name I) ds)"
    and "\<forall>c \<in> set (map (de_Name I) ds). \<forall>q. seen_at m T (a @ [c]) q \<noteq> None \<longrightarrow> map_of entries q = None"
  shows "\<exists>W' es. fold_each (walk_step I m tb fs p) ds entries s = Some (Ret es, s\<lparr>t_world := W'\<rparr>, [])
    \<and> good fs W' \<and> tree fs W' = T \<and> later fs (t_world s) W'
    \<and> map_of es = map_of entries ++ seen_in m T a (set (map (de_Name I) ds))"
  using assms
proof (induction ds arbitrary: s entries)
  case Nil
  then show ?case using later_refl by (auto simp: ret_def seen_in_def map_add_def intro!: exI [of _ "t_world s"])
next
  case (Cons d ds)
  let ?c = "de_Name I d"
  obtain W1 es where 1: "walk_step I m tb fs p d entries s = Some (Ret es, s\<lparr>t_world := W1\<rparr>, [])"
      "good fs W1" "tree fs W1 = T" "later fs (t_world s) W1" "map_of es = map_of entries ++ seen_at m T (a @ [?c])"
    using Cons.prems(1) [of d s entries] Cons.prems(2-4,6) by auto
  have apart: "map_of es q = None" if q: "c \<in> set (map (de_Name I) ds)" "seen_at m T (a @ [c]) q \<noteq> None" for c q
  proof -
    have "?c \<notin> set (map (de_Name I) ds)" using Cons.prems(5) by simp
    then have "c \<noteq> ?c" using q(1) by blast
    then have "seen_at m T (a @ [?c]) q = None"
      using q(2) prefix_child_unique [of a c "elems q" ?c] by (auto simp: seen_at_def split: if_splits)
    moreover have "map_of entries q = None" using q Cons.prems(6) by auto
    ultimately show ?thesis using 1(5) by (simp add: map_add_def)
  qed
  have "\<exists>W' es'. fold_each (walk_step I m tb fs p) ds es (s\<lparr>t_world := W1\<rparr>) = Some (Ret es', s\<lparr>t_world := W1\<rparr>\<lparr>t_world := W'\<rparr>, [])
    \<and> good fs W' \<and> tree fs W' = T \<and> later fs (t_world (s\<lparr>t_world := W1\<rparr>)) W'
    \<and> map_of es' = map_of es ++ seen_in m T a (set (map (de_Name I) ds))"
    using Cons.prems(1,5) 1(2-4) later_trans [OF Cons.prems(4) 1(4)] apart by (intro Cons.IH) auto
  then obtain W2 es' where 2: "fold_each (walk_step I m tb fs p) ds es (s\<lparr>t_world := W1\<rparr>) = Some (Ret es', s\<lparr>t_world := W2\<rparr>, [])"
      "good fs W2" "tree fs W2 = T" "later fs W1 W2"
      "map_of es' = map_of es ++ seen_in m T a (set (map (de_Name I) ds))" by auto
  have "?c \<notin> set (map (de_Name I) ds)" using Cons.prems(5) by auto
  then have "map_of es' = map_of entries ++ seen_in m T a (set (map (de_Name I) (d # ds)))"
    using 2(5) 1(5) seen_in_step by simp
  moreover have "fold_each (walk_step I m tb fs p) (d # ds) entries s = Some (Ret es', s\<lparr>t_world := W2\<rparr>, [])"
    using 1(1) 2(1) by (simp add: seq_def)
  ultimately show ?case using 2(2-4) later_trans [OF 1(4)] by blast
qed

text \<open>The walk from a directory records the tree strictly below it.\<close>

lemma walk_below:
  assumes "good fs (t_world s)" "tree fs (t_world s) = T" "list_all ok_elem a" "is_dir T (path_of a)" "closed_below T a"
    and "\<forall>q. seen_below m T a q \<noteq> None \<longrightarrow> map_of entries q = None"
  shows "\<exists>W' es. walkFSEntries I m tb fs (path_of a) entries s = Some (Ret es, s\<lparr>t_world := W'\<rparr>, [])
    \<and> good fs W' \<and> tree fs W' = T \<and> later fs (t_world s) W' \<and> map_of es = map_of entries ++ seen_below m T a"
  using assms
proof (induction "card (below T a)" arbitrary: a s entries rule: less_induct)
  case less
  note valid = tree_valid [OF less.prems(1), unfolded less.prems(2)]
  let ?p = "path_of a"
  obtain ds W where rd: "ReadDir I fs ?p (t_world s) = Some (ds, None, W)" "good fs W" "tree fs W = T"
      "later fs (t_world s) W" "distinct (map (de_Name I) ds)" "set (map (de_Name I) ds) = children T ?p"
      "\<forall>d \<in> set ds. \<exists>nd. T (Join [?p, de_Name I d]) = Some nd
         \<and> (\<forall>U. later fs W U \<longrightarrow> entry_is I d (Join [?p, de_Name I d]) nd U)"
    using ReadDir_law [OF less.prems(1), of ?p] less.prems(2,4) by auto
  have C: "children T ?p = {c. ok_elem c \<and> T (path_of (a @ [c])) \<noteq> None}"
    using children_path_of [OF valid less.prems(3)] .
  have fin: "finite (below T a)" using finite_below_dom tree_finite [OF less.prems(1)] less.prems(2) by auto
  have sin: "seen_in m T a (set (map (de_Name I) ds)) = seen_below m T a"
    using seen_in_children [OF less.prems(5,3) valid] rd(6) by simp
  have ne: "?p \<noteq> []" using ValidPath_path_of [OF less.prems(3)] by auto
  have "\<exists>W' es. fold_each (walk_step I m tb fs ?p) ds entries (s\<lparr>t_world := W\<rparr>)
        = Some (Ret es, s\<lparr>t_world := W\<rparr>\<lparr>t_world := W'\<rparr>, [])
      \<and> good fs W' \<and> tree fs W' = T \<and> later fs (t_world (s\<lparr>t_world := W\<rparr>)) W'
      \<and> map_of es = map_of entries ++ seen_in m T a (set (map (de_Name I) ds))"
  proof (rule walk_children [where W = W])
    fix d and u :: "('w, 'h) tst" and es :: "(string \<times> fsEntry) list"
    assume d: "d \<in> set ds" and u: "good fs (t_world u)" "tree fs (t_world u) = T" "later fs W (t_world u)"
      and es: "\<forall>q. seen_at m T (a @ [de_Name I d]) q \<noteq> None \<longrightarrow> map_of es q = None"
    let ?c = "de_Name I d"
    have "?c \<in> children T ?p" using d rd(6) by auto
    then have ok: "list_all ok_elem (a @ [?c])" "T (path_of (a @ [?c])) \<noteq> None" using C less.prems(3) by auto
    have j: "Join [?p, ?c] = path_of (a @ [?c])" using Join_elem [of a ?c] ok(1) by simp
    obtain nd where nd: "T (path_of (a @ [?c])) = Some nd" "entry_is I d (path_of (a @ [?c])) nd (t_world u)"
      using rd(7) d u(3) j by metis
    have cb: "closed_below T (a @ [?c])" using less.prems(5) unfolding closed_below_def by (metis prefix_child)
    show "\<exists>W' es'. walk_step I m tb fs ?p d es u = Some (Ret es', u\<lparr>t_world := W'\<rparr>, [])
        \<and> good fs W' \<and> tree fs W' = T \<and> later fs (t_world u) W'
        \<and> map_of es' = map_of es ++ seen_at m T (a @ [?c])"
      using less.hyps [OF below_child [OF fin ok]] ok(1) cb
      by (intro walk_child [OF _ u(1,2) ok(1) less.prems(5) nd refl es]) blast
  next
    show "\<forall>c \<in> set (map (de_Name I) ds). \<forall>q. seen_at m T (a @ [c]) q \<noteq> None \<longrightarrow> map_of entries q = None"
      using less.prems(6)
      by (auto simp: seen_at_def seen_below_def strict_prefix_def prefix_def split: if_splits)
  qed (use rd later_refl in simp_all)
  then show ?case using walk_unfold [OF ne rd(1), of m tb entries] rd(4) sin later_trans by fastforce
qed

text \<open>
  \<open>tryAssertEqualFS\<close> holds exactly when every expected entry is in the tree; entries that are not expected
  do not matter.
\<close>

lemma tryAssertEqualFS_sees:
  assumes "good fs (t_world s)" "tree fs (t_world s) = T" "tree_closed T"
  shows "\<exists>W'. tryAssertEqualFS I opts tb expected fs s =
      Some (Ret (), (if matches (modeMask opts) expected T then s else mark_failed tb s)\<lparr>t_world := W'\<rparr>, [])
    \<and> good fs W' \<and> tree fs W' = T \<and> later fs (t_world s) W'"
proof -
  let ?m = "modeMask opts"
  have d: "is_dir T (path_of [])" "closed_below T []"
    using assms(3) closed_below_tree by (simp_all add: tree_closed_def)
  obtain W' es where w: "walkFSEntries I ?m tb fs (path_of []) [] s = Some (Ret es, s\<lparr>t_world := W'\<rparr>, [])"
      "good fs W'" "tree fs W' = T" "later fs (t_world s) W'" "map_of es = seen_below ?m T []"
    using walk_below [OF assms(1,2) _ d, of ?m "[]" tb] by auto
  have w0: "walkFSEntries I ?m tb fs [] [] s = walkFSEntries I ?m tb fs (path_of []) [] s"
    by (subst (1 2) walkFSEntries.simps) simp
  have seen: "map_of es p = (if p = dot then None else map_option (node_entry ?m) (T p))" for p
  proof -
    have "elems p = [] \<longleftrightarrow> p = dot" if "ValidPath p" using ValidPath_elems [OF that] by (auto simp: elems_def)
    then show ?thesis using w(5) tree_valid [OF assms(1), of p] assms(2)
      by (cases "T p") (auto simp: seen_below_def strict_prefix_def)
  qed
  have vals: "map_of (map (\<lambda>(p, e). (p, entry_val e)) es) p = map_option entry_val (map_of es p)" for p
    by (induction es) auto
  have inj: "entry_val e = entry_val e' \<longleftrightarrow> e = e'" for e e' by (cases e; cases e') (simp add: entry_val_def)
  let ?sub = "entries_val (mask_entries ?m expected)"
  have "list_all (\<lambda>(k, v). map_of (map (\<lambda>(p, e). (p, entry_val e)) es) k = Some v)
        (map (\<lambda>(p, e). (p, entry_val e)) (mask_entries ?m expected)) = matches ?m expected T"
    by (auto simp: mask_entries_def matches_def list_all_iff vals seen inj split_beta split: if_splits)
  then have "subset_of tb ?sub (entries_val es) = (ret (matches ?m expected T) :: (('w, 'h) tst, bool) prog)"
    by (simp add: subset_of_def entries_val_def same_kind_def)
  from assert_Subset_reports [OF this]
  have r: "assert_Subset tb ?sub (entries_val es) u =
      Some (Ret (matches ?m expected T), if matches ?m expected T then u else mark_failed tb u, [])" for u :: "('w, 'h) tst"
    by (simp add: reports_def)
  have "tryAssertEqualFS I opts tb expected fs s =
      Some (Ret (), if matches ?m expected T then s\<lparr>t_world := W'\<rparr> else mark_failed tb (s\<lparr>t_world := W'\<rparr>), [])"
    using w(1) w0 r by (simp add: tryAssertEqualFS_def Let_def seq_def ret_def)
  moreover have "mark_failed tb (s\<lparr>t_world := W'\<rparr>) = (mark_failed tb s)\<lparr>t_world := W'\<rparr>"
    by (simp add: mark_failed_def)
  ultimately show ?thesis using w(2-4) by auto
qed

end

end
