(* ===== verification/FSTest_Contract.thy ===== *)
theory FSTest_Contract
  imports FSTest_Walk Mem_Helpers
begin

section \<open>A file system that the suite accepts\<close>

text \<open>
  The locale \<open>test_target\<close> collects what the operations of a file system promise on its tree of files,
  in terms of the specifications \<open>spec_*\<close> of \<open>KV_Spec\<close>, \<open>KV_Handle\<close> and \<open>KV_Dirs\<close>, and that the setup
  function of the options makes a new one. Inside the locale every test of the suite is run symbolically
  and shown to pass.
\<close>

subsection \<open>Evaluating a test\<close>

text \<open>
  \<open>seval\<close> evaluates a program up to its next call on a file system, \<open>steps\<close> holds the rule for every such
  call: its first premise is the state before the call, its last one the rest of the program.
\<close>

named_theorems seval "evaluation of test programs"
named_theorems steps "symbolic execution of one call"

lemma wp_val_of [seval]:
  "wp (seq (val_of f) k) s Q \<longleftrightarrow> (case f (t_world s) of None \<Rightarrow> False | Some x \<Rightarrow> wp (k x) s Q)"
  by (cases "f (t_world s)") (auto simp: wp_def seq_def val_of_def ret_def split: option.splits)

lemma wp_call_same: "m (t_world s) = Some (x, t_world s) \<Longrightarrow> wp (seq (fs_call1 m) k) s Q \<longleftrightarrow> wp (k x) s Q"
  by (auto simp: wp_def seq_def fs_call1_def ret_def split: option.splits)

lemma wp_NotPanics:
  "f (t_world s) = Some x \<Longrightarrow> wp (seq (assert_NotPanics tb (val_of f)) k) s Q \<longleftrightarrow> wp (k True) s Q"
  by (simp add: wp_def seq_def assert_NotPanics_def val_of_def ret_def split: option.splits outcome.splits)

lemma length_bytes [simp]: "length (bytes s) = length s" "bytes s = [] \<longleftrightarrow> s = []"
  by (simp_all add: bytes_def)

lemma seq_if [seval]: "seq (if b then m else m') k = (if b then seq m k else seq m' k)"
  by simp

lemma assert_eval [seval]:
  "skipNotImplemented tb None = ret ()"
  "\<not> errors_Is e ErrNotImplemented \<Longrightarrow> skipNotImplemented tb (Some e) = ret ()"
  "assertEqualQuickInfo opts tb q q = ret True"
  "assert_ErrorIs tb t (Some e) = (if errors_Is e t then ret True else complain tb)"
  by (simp_all add: skipNotImplemented_def assertEqualQuickInfo_def asserts assert_ErrorIs_def)

lemma assertEqualErrPath_same [seval]: "assertEqualErrPath opts tb p p = ret ()"
  by (simp add: assertEqualErrPath_def asserts)

lemma assertEqualErrField_is [seval]:
  "errors_Is e' e \<Longrightarrow> e \<noteq> Errno 0 \<Longrightarrow> e' \<noteq> Errno 0 \<Longrightarrow> assertEqualErrField tb e e' = ret ()"
  by (simp add: assertEqualErrField_def assert_NotZero_def)

lemma assertEqualPathErr_is [seval]:
  "errors_Is e' e \<Longrightarrow> e \<noteq> Errno 0 \<Longrightarrow> e' \<noteq> Errno 0 \<Longrightarrow>
   assertEqualPathErr opts tb op p e (Some (PathError op p e')) = ret ()"
  by (simp add: assertEqualPathErr_def assert_IsType_def errval_def err_type_def asserts seval)

lemma assertEqualLinkErr_is [seval]:
  "errors_Is e' e \<Longrightarrow> e \<noteq> Errno 0 \<Longrightarrow> e' \<noteq> Errno 0 \<Longrightarrow>
   assertEqualLinkErr opts tb op old new e (Some (LinkError op old new e')) = ret ()"
  by (simp add: assertEqualLinkErr_def assert_IsType_def errval_def err_type_def asserts seval)

lemmas seval_defs = asserts if_then_def err_of_def info_of_def asQuickInfo_def info_is_def

subsection \<open>The paths, modes and flags of the tests\<close>

lemma test_elems: "ok_elem ''foo''" "ok_elem ''bar''" "ok_elem ''baz''" "ok_elem ''biff''" "ok_elem ''boo''"
  by (simp_all add: ok_elem_def valid_elem_def utf8_valid_def utf8_lead_def)

lemma test_paths:
  "''foo'' = path_of [''foo'']" "''bar'' = path_of [''bar'']" "''baz'' = path_of [''baz'']"
  "''foo/bar'' = path_of [''foo'', ''bar'']" "''foo/baz'' = path_of [''foo'', ''baz'']"
  "''foo/biff'' = path_of [''foo'', ''biff'']" "''foo/boo'' = path_of [''foo'', ''boo'']"
  "''baz/bar'' = path_of [''baz'', ''bar'']" "''foo/bar/baz'' = path_of [''foo'', ''bar'', ''baz'']"
  by (simp_all add: path_of_def)

lemma test_ValidPath [seval]:
  "ValidPath ''foo''" "ValidPath ''bar''" "ValidPath ''baz''" "ValidPath ''foo/bar''" "ValidPath ''foo/baz''"
  "ValidPath ''foo/biff''" "ValidPath ''foo/boo''" "ValidPath ''baz/bar''" "ValidPath ''foo/bar/baz''"
  "\<not> ValidPath ''foo/../bar''"
  by code_simp+

lemma test_Dir [seval]:
  "Dir ''foo'' = dot" "Dir ''bar'' = dot" "Dir ''baz'' = dot" "Dir ''foo/bar'' = ''foo''" "Dir ''foo/baz'' = ''foo''"
  "Dir ''foo/biff'' = ''foo''" "Dir ''foo/boo'' = ''foo''" "Dir ''baz/bar'' = ''baz''" "Dir ''foo/bar/baz'' = ''foo/bar''"
  by code_simp+

lemma test_Base [seval]:
  "Base ''foo'' = ''foo''" "Base ''bar'' = ''bar''" "Base ''baz'' = ''baz''" "Base ''foo/bar'' = ''bar''"
  "Base ''foo/bar/baz'' = ''baz''" "Base ''foo/baz'' = ''baz''" "Base ''foo/biff'' = ''biff''" "Base ''foo/boo'' = ''boo''"
  by code_simp+

lemma test_ancestors [seval]:
  "ancestors ''foo'' = [''foo'', dot]" "ancestors ''foo/bar'' = [''foo/bar'', ''foo'', dot]"
  by (simp_all add: ancestors_def elems_def path_of_def upt_rec numeral_eq_Suc)

lemma test_modes [seval]:
  "\<not> IsDir 0x1B6" "\<not> IsDir 0x1ED" "\<not> IsDir 0x1FF" "\<not> IsDir 0x1F5"
  "0x180 AND ModePerm = 0x180" "0x1C0 AND ModePerm = 0x1C0" "0x1B6 AND ModePerm = 0x1B6"
  "0x1ED AND ModePerm = 0x1ED" "0x1FF AND ModePerm = 0x1FF" "0x1A4 AND ModePerm = 0x1A4" "0x1F5 AND ModePerm = 0x1F5"
  "(ModeSocket OR 0x1ED) AND ModePerm = 0x1ED" "(ModeSocket OR 0x1FF) AND ModePerm = 0x1FF"
  by (simp_all add: IsDir_def mode_defs)

lemma test_elems_of [seval]:
  "elems dot = []" "elems ''foo'' = [''foo'']" "elems ''bar'' = [''bar'']" "elems ''baz'' = [''baz'']"
  "elems ''foo/bar'' = [''foo'', ''bar'']" "elems ''foo/baz'' = [''foo'', ''baz'']" "elems ''baz/bar'' = [''baz'', ''bar'']"
  by (simp_all add: elems_def)

lemma test_Join [seval]:
  "Join [''foo'', ''bar''] = ''foo/bar''" "Join [''foo'', ''baz''] = ''foo/baz''" "Join [''foo'', ''biff''] = ''foo/biff''"
  by code_simp+

lemma test_types [seval]: "IsRegular 0x1B6" "Type 0x1B6 = 0" "Type (ModeDir OR 0x1FF) = ModeDir"
  by (simp_all add: IsRegular_def Type_def ModeType_def mode_defs)

lemma readdir_op: "wp (seq (assert_Contains tb (VSlice (Some
     [VString ''fdopendir'', VString ''readdirent'', VString ''readdir''])) (VString ''readdir'')) k) s Q \<longleftrightarrow> wp (k True) s Q"
  by (auto simp: assert_Contains_def contains_def slice_elems_def wp_def seq_def ret_def split: option.splits)

lemma three_entries [seval]: "assert_Equal tb 3 (Suc (Suc (Suc 0))) = ret True"
  by (simp add: assert_Equal_def)

lemma chmod_modes [seval]: "(0x1B6 AND NOT chmodBits) OR (0x1ED AND chmodBits) = 0x1ED"
  by (simp add: chmodBits_def mode_defs)

text \<open>Trees that grow one entry at a time.\<close>

lemma children_grow [seval]:
  "children Map.empty p = {}"
  "children (T(q \<mapsto> nd)) p = (if q \<noteq> dot \<and> Dir q = p then insert (Base q) (children T p) else children T p)"
  by (auto simp: children_def split: if_splits)

lemma prune_grow [seval]:
  "prune a Map.empty = Map.empty"
  "prune a (T(q \<mapsto> nd)) = (if at_or_below a q then prune a T else (prune a T)(q \<mapsto> nd))"
  by (auto simp: prune_def fun_eq_iff)

lemma closed_root [seval]: "IsDir (n_mode nd) \<Longrightarrow> tree_closed [dot \<mapsto> nd]"
  by (auto simp: tree_closed_def is_dir_def split: if_splits)

lemma closed_new:
  assumes "tree_closed T" "T p = None" "is_dir T (Dir p)"
  shows "tree_closed (T(p \<mapsto> nd))"
proof -
  have ne: "q \<noteq> p" if "is_dir T q" for q using that assms(2) by (auto simp: is_dir_def)
  have keep: "is_dir (T(p \<mapsto> nd)) q" if "is_dir T q" for q using that ne [OF that] by (simp add: is_dir_def)
  show ?thesis using assms keep by (auto simp: tree_closed_def)
qed

lemma closed_put:
  assumes "tree_closed T" "T p = Some nd0" "IsDir (n_mode nd) = IsDir (n_mode nd0)"
  shows "tree_closed (T(p \<mapsto> nd))"
  using assms by (auto simp: tree_closed_def is_dir_def split: if_splits)

lemma is_dir_eval [seval]: "is_dir T p \<longleftrightarrow> (case T p of None \<Rightarrow> False | Some nd \<Rightarrow> IsDir (n_mode nd))"
  by (simp add: is_dir_def)

lemma dir_node_mode [simp]: "n_mode (dir_node perm t) = ModeDir OR (perm AND ModePerm)" "n_data (dir_node perm t) = []"
  by (simp_all add: dir_node_def)

subsection \<open>The contract\<close>

abbreviation can_write :: "flag \<Rightarrow> bool" where
  "can_write fl \<equiv> has_flag fl FlagWriteOnly \<or> has_flag fl FlagReadWrite"

abbreviation can_read :: "flag \<Rightarrow> bool" where
  "can_read fl \<equiv> \<not> has_flag fl FlagWriteOnly"

text \<open>A path that can be written: a file, or a new name in an existing directory.\<close>

locale test_target = listed_fs I good tree later
  for I :: "('f, 'h, 'i, 'd, 'w, 'z) test_iface_scheme"
    and good :: "'f \<Rightarrow> 'w \<Rightarrow> bool"
    and tree :: "'f \<Rightarrow> 'w \<Rightarrow> fs_tree"
    and later :: "'f \<Rightarrow> 'w \<Rightarrow> 'w \<Rightarrow> bool" +
  fixes at :: "'f \<Rightarrow> 'w \<Rightarrow> 'h \<Rightarrow> string \<Rightarrow> flag \<Rightarrow> int \<Rightarrow> bool"
    and opts :: "('f, ('w, 'h) tst) FSOptions"
  assumes Setup_law: "\<exists>fs W' root. Setup_FS opts tb s = Some (Ret (fs, ret fs), s\<lparr>t_world := W'\<rparr>, [])
      \<and> good fs W' \<and> tree fs W' = [dot \<mapsto> root] \<and> IsDir (n_mode root)"
    and ShouldSkip_law: "ShouldSkip opts = Some (\<lambda>_. False)"
    and mask_law: "modeMask opts AND ModeDir = 0"
    and now_law: "60 * second < opt_now opts"
    and sched_law: "mset (opt_sched opts n) = mset [1..<n]"
    and methods_law: "i_OpenFile I fs \<noteq> None" "i_Mkdir I fs \<noteq> None" "i_Symlink I fs = None"
    and Create_law: "Create I fs p W = OpenFile I fs p createFlags 0x1B6 W"
    and Stat_law: "good fs W \<Longrightarrow> \<exists>r W'. Stat I fs p W = Some (r, W') \<and> good fs W' \<and> tree fs W' = tree fs W
      \<and> (case spec_get (tree fs W) p of
           Inl e \<Rightarrow> r = Inl (PathError ''stat'' p e)
         | Inr nd \<Rightarrow> (\<exists>i. r = Inr i \<and> info_is I i p nd W'))"
    and Mkdir_law: "good fs W \<Longrightarrow> \<exists>t W'. Mkdir I fs p perm W = Some (fst (spec_Mkdir (tree fs W) p perm t), W')
      \<and> good fs W' \<and> tree fs W' = snd (spec_Mkdir (tree fs W) p perm t)"
    and MkdirAll_law: "good fs W \<Longrightarrow> \<exists>clock n W'. MkdirAll I fs p perm W = Some (fst (spec_MkdirAll (tree fs W) p perm clock n), W')
      \<and> good fs W' \<and> tree fs W' = snd (spec_MkdirAll (tree fs W) p perm clock n)"
    and Remove_law: "good fs W \<Longrightarrow> \<exists>W'. Remove I fs p W = Some (fst (spec_Remove (tree fs W) p), W')
      \<and> good fs W' \<and> tree fs W' = snd (spec_Remove (tree fs W) p)"
    and RemoveAll_law: "good fs W \<Longrightarrow> tree_closed (tree fs W) \<Longrightarrow> ValidPath p \<Longrightarrow>
      \<exists>W'. RemoveAll I fs p W = Some (None, W') \<and> good fs W' \<and> tree fs W' = prune (elems p) (tree fs W)"
    and Chmod_law: "good fs W \<Longrightarrow> \<exists>W'. Chmod I fs p mode W = Some (fst (spec_Chmod (tree fs W) p mode), W')
      \<and> good fs W' \<and> tree fs W' = snd (spec_Chmod (tree fs W) p mode)"
    and Chtimes_law: "good fs W \<Longrightarrow> \<exists>W'. Chtimes I fs p acc mt W = Some (fst (spec_Chtimes (tree fs W) p mt), W')
      \<and> good fs W' \<and> tree fs W' = snd (spec_Chtimes (tree fs W) p mt)"
    and OpenFile_law: "good fs W \<Longrightarrow> \<exists>h t W'. OpenFile I fs p fl perm W = Some (h, fst (spec_OpenFile (tree fs W) p fl perm t), W')
      \<and> good fs W' \<and> (tree fs W', h \<noteq> None) = snd (spec_OpenFile (tree fs W) p fl perm t)
      \<and> (\<forall>hd. h = Some hd \<longrightarrow> at fs W' hd p fl 0)"
    and Close_law: "at fs W h p fl off \<Longrightarrow> \<exists>h'. fl_Close I h W = Some (None, h', W)"
    and Write_law: "good fs W \<Longrightarrow> at fs W h p fl off \<Longrightarrow> can_write fl \<Longrightarrow> tree fs W p = Some nd \<Longrightarrow> \<not> IsDir (n_mode nd) \<Longrightarrow>
      0 \<le> off \<Longrightarrow> off + int (length (n_data nd)) + int (length xs) \<le> max_int64 \<Longrightarrow>
      \<exists>h' W' t. WriteFile I h xs W = Some (int (length xs), None, h', W') \<and> good fs W'
        \<and> tree fs W' = (tree fs W)(p \<mapsto> nd\<lparr>n_modTime := t, n_data := write_at (nat (write_offset fl off (n_data nd))) xs (n_data nd)\<rparr>)
        \<and> at fs W' h' p fl (off + int (length xs))"
    and Write_readonly: "good fs W \<Longrightarrow> at fs W h p fl off \<Longrightarrow> \<not> can_write fl \<Longrightarrow>
      \<exists>h' W' e. WriteFile I h xs W = Some (0, Some e, h', W') \<and> good fs W' \<and> tree fs W' = tree fs W \<and> at fs W' h' p fl off"
    and Read_law: "good fs W \<Longrightarrow> at fs W h p fl off \<Longrightarrow> can_read fl \<Longrightarrow> tree fs W p = Some nd \<Longrightarrow> \<not> IsDir (n_mode nd) \<Longrightarrow>
      0 \<le> off \<Longrightarrow> off + int (length buf) \<le> max_int64 \<Longrightarrow> xs = read_bytes (length buf) off (n_data nd) \<Longrightarrow>
      \<exists>h' W'. fl_Read I h buf W = Some (go_copy buf xs, int (length xs), read_err (length buf) off (n_data nd), h', W')
        \<and> good fs W' \<and> tree fs W' = tree fs W \<and> at fs W' h' p fl (off + int (length xs))"
    and WriteFullFile_law: "good fs W \<Longrightarrow> writable (tree fs W) p \<Longrightarrow> int (length xs) \<le> max_int64 \<Longrightarrow>
      \<exists>t W'. WriteFullFile I fs p xs perm W = Some (None, W') \<and> good fs W'
        \<and> tree fs W' = (tree fs W)(p \<mapsto> \<lparr>n_mode = new_mode (tree fs W) p perm, n_modTime = t, n_data = xs\<rparr>)"
    and WriteFullFile_dir: "good fs W \<Longrightarrow> is_dir (tree fs W) p \<Longrightarrow>
      \<exists>W'. WriteFullFile I fs p xs perm W = Some (Some (PathError ''open'' p ErrIsDir), W') \<and> good fs W' \<and> tree fs W' = tree fs W"
    and ReadFile_law: "good fs W \<Longrightarrow> tree fs W p = Some nd \<Longrightarrow> \<not> IsDir (n_mode nd) \<Longrightarrow> int (length (n_data nd)) < max_int64 \<Longrightarrow>
      \<exists>W'. ReadFile I fs p W = Some (n_data nd, None, W') \<and> good fs W' \<and> tree fs W' = tree fs W"
    and ReadFile_missing: "good fs W \<Longrightarrow> ValidPath p \<Longrightarrow> tree fs W p = None \<Longrightarrow>
      \<exists>b W'. ReadFile I fs p W = Some (b, Some (PathError ''open'' p ErrNotExist), W') \<and> good fs W' \<and> tree fs W' = tree fs W"
    and ReadDir_missing: "good fs W \<Longrightarrow> ValidPath p \<Longrightarrow> tree fs W p = None \<Longrightarrow>
      \<exists>ds W'. ReadDir I fs p W = Some (ds, Some (PathError ''open'' p ErrNotExist), W') \<and> good fs W' \<and> tree fs W' = tree fs W"
    and ReadDir_file: "good fs W \<Longrightarrow> tree fs W p = Some nd \<Longrightarrow> IsRegular (n_mode nd) \<Longrightarrow>
      \<exists>ds e W'. ReadDir I fs p W = Some (ds, Some (PathError ''readdir'' p e), W') \<and> errors_Is e ErrNotDir
        \<and> \<not> errors_Is e ErrNotImplemented \<and> good fs W' \<and> tree fs W' = tree fs W"
    and Rename_missing: "good fs W \<Longrightarrow> ValidPath p \<Longrightarrow> tree fs W p = None \<Longrightarrow>
      \<exists>W'. Rename I fs p q W = Some (Some (LinkError ''rename'' p q ErrNotExist), W') \<and> good fs W' \<and> tree fs W' = tree fs W"
    and Rename_file: "good fs W \<Longrightarrow> tree fs W p = Some nd \<Longrightarrow> \<not> IsDir (n_mode nd) \<Longrightarrow> ValidPath q \<Longrightarrow>
      \<exists>W'. Rename I fs p q W = Some (None, W') \<and> good fs W'
        \<and> tree fs W' = (if p = q then tree fs W else (tree fs W)(q \<mapsto> nd, p := None))"
    and Rename_onto: "good fs W \<Longrightarrow> is_dir (tree fs W) p \<Longrightarrow> tree fs W q \<noteq> None \<Longrightarrow>
      \<exists>W'. Rename I fs p q W = Some (Some (LinkError ''rename'' p q ErrExist), W') \<and> good fs W' \<and> tree fs W' = tree fs W"
    and Rename_dir: "good fs W \<Longrightarrow> movable (tree fs W) a b \<Longrightarrow>
      \<exists>W'. Rename I fs (path_of a) (path_of b) W = Some (None, W') \<and> good fs W' \<and> moved (tree fs W) (tree fs W') a b"
begin

definition at_state :: "'f \<Rightarrow> fs_tree \<Rightarrow> rest \<Rightarrow> ('w, 'h) tst \<Rightarrow> bool" where
  "at_state fs T X s \<longleftrightarrow> good fs (t_world s) \<and> tree fs (t_world s) = T \<and> at_rest X s"

definition at_file :: "'f \<Rightarrow> fs_tree \<Rightarrow> rest \<Rightarrow> ('w, 'h) tst \<Rightarrow> nat \<Rightarrow> string \<Rightarrow> flag \<Rightarrow> int \<Rightarrow> bool" where
  "at_file fs T X s n p fl off \<longleftrightarrow>
     at_state fs T X s \<and> n < length (t_files s) \<and> at fs (t_world s) (t_files s ! n) p fl off"

definition open_post :: "'f \<Rightarrow> fs_tree \<Rightarrow> rest \<Rightarrow> ('w, 'h) tst \<Rightarrow> nat option \<Rightarrow> string \<Rightarrow> flag \<Rightarrow> bool \<Rightarrow> bool" where
  "open_post fs T X s f p fl b \<longleftrightarrow>
     (if b then (\<exists>n. f = Some n \<and> at_file fs T X s n p fl 0) else f = None \<and> at_state fs T X s)"

lemma open_post_simps [simp]:
  "open_post fs T X s f p fl True \<longleftrightarrow> (\<exists>n. f = Some n \<and> at_file fs T X s n p fl 0)"
  "open_post fs T X s f p fl False \<longleftrightarrow> f = None \<and> at_state fs T X s"
  by (simp_all add: open_post_def)

lemma at_restI: "at_state fs T X s \<Longrightarrow> at_rest X s"
  by (simp add: at_state_def)

lemma done_step: "at_state fs T X s \<Longrightarrow> wp (ret x) s (\<lambda>_. at_rest X)"
  by (simp add: at_state_def)

lemma call1_step:
  assumes "m (t_world s) = Some (x, W')" "good fs W'" "tree fs W' = T'" "at_rest X s"
    and "\<And>s'. at_state fs T' X s' \<Longrightarrow> t_world s' = W' \<Longrightarrow> wp (k x) s' Q"
  shows "wp (seq (fs_call1 m) k) s Q"
proof -
  have "wp (k x) (s\<lparr>t_world := W'\<rparr>) Q" using assms(2-4) by (intro assms(5)) (simp_all add: at_state_def at_rest_def)
  then show ?thesis using assms(1) by (auto simp: wp_def seq_def fs_call1_def ret_def)
qed

lemma call2_step:
  assumes "m (t_world s) = Some (x, y, W')" "good fs W'" "tree fs W' = T'" "at_rest X s"
    and "\<And>s'. at_state fs T' X s' \<Longrightarrow> t_world s' = W' \<Longrightarrow> wp (k (x, y)) s' Q"
  shows "wp (seq (fs_call2 m) k) s Q"
proof -
  have "wp (k (x, y)) (s\<lparr>t_world := W'\<rparr>) Q" using assms(2-4) by (intro assms(5)) (simp_all add: at_state_def at_rest_def)
  then show ?thesis using assms(1) by (auto simp: wp_def seq_def fs_call2_def ret_def)
qed

lemma Setup_step [steps]:
  assumes "at_rest X s" "\<And>fs s' root. at_state fs [dot \<mapsto> root] X s' \<Longrightarrow> IsDir (n_mode root) \<Longrightarrow> wp (k (fs, ret fs)) s' Q"
  shows "wp (seq (Setup_FS opts tb) k) s Q"
proof -
  obtain fs W' root where w: "Setup_FS opts tb s = Some (Ret (fs, ret fs), s\<lparr>t_world := W'\<rparr>, [])"
      "good fs W'" "tree fs W' = [dot \<mapsto> root]" "IsDir (n_mode root)"
    using Setup_law by blast
  then have "wp (k (fs, ret fs)) (s\<lparr>t_world := W'\<rparr>) Q"
    using assms by (intro assms(2)) (simp_all add: at_state_def at_rest_def)
  then show ?thesis using w(1) by (auto simp: wp_def seq_def)
qed

lemma Mkdir_step [steps]:
  assumes "at_state fs T X s"
    and "\<And>s' t. at_state fs (snd (spec_Mkdir T p m t)) X s' \<Longrightarrow> wp (k (fst (spec_Mkdir T p m t))) s' Q"
  shows "wp (seq (fs_call1 (Mkdir I fs p m)) k) s Q"
proof -
  obtain t W' where "Mkdir I fs p m (t_world s) = Some (fst (spec_Mkdir T p m t), W')" "good fs W'"
      "tree fs W' = snd (spec_Mkdir T p m t)"
    using Mkdir_law [of fs "t_world s" p m] assms(1) by (auto simp: at_state_def)
  then show ?thesis by (rule call1_step [OF _ _ _ at_restI [OF assms(1)]]) (rule assms(2))
qed

lemma setup_Mkdir_step [steps]:
  assumes "at_state fs T X s"
    and "\<And>s' t. at_state fs (snd (spec_Mkdir T p m t)) X s' \<Longrightarrow> wp (k (fst (spec_Mkdir T p m t))) s' Q"
  shows "wp (seq (setup_Mkdir I fs p m) k) s Q"
proof -
  obtain f where f: "i_Mkdir I fs = Some f" using methods_law(2) by auto
  then have "f p m = Mkdir I fs p m" by (intro ext) (simp add: Mkdir.simps [of I fs])
  then show ?thesis using Mkdir_step [of fs T X s p m k Q] assms f by (simp add: setup_Mkdir_def)
qed

lemma tryAssertEqualFS_step [steps]:
  assumes "at_state fs T X s"
    and "tree_closed T \<and> matches (modeMask opts) expected T \<and> (\<forall>s'. at_state fs T X s' \<longrightarrow> wp (k ()) s' Q)"
  shows "wp (seq (tryAssertEqualFS I opts tb expected fs) k) s Q"
proof -
  have g: "good fs (t_world s)" "tree fs (t_world s) = T" "at_rest X s" using assms(1) by (simp_all add: at_state_def)
  obtain W' where w: "tryAssertEqualFS I opts tb expected fs s = Some (Ret (), s\<lparr>t_world := W'\<rparr>, [])"
      "good fs W'" "tree fs W' = T"
    using tryAssertEqualFS_sees [OF g(1,2), of opts tb expected] assms(2) by auto
  then have "wp (k ()) (s\<lparr>t_world := W'\<rparr>) Q" using assms(2) g(3) by (simp add: at_state_def at_rest_def)
  then show ?thesis using w(1) by (auto simp: wp_def seq_def)
qed

lemma MkdirAll_step [steps]:
  assumes "at_state fs T X s"
    and "\<And>s' c n. at_state fs (snd (spec_MkdirAll T p m c n)) X s' \<Longrightarrow> wp (k (fst (spec_MkdirAll T p m c n))) s' Q"
  shows "wp (seq (fs_call1 (MkdirAll I fs p m)) k) s Q"
proof -
  obtain c n W' where "MkdirAll I fs p m (t_world s) = Some (fst (spec_MkdirAll T p m c n), W')" "good fs W'"
      "tree fs W' = snd (spec_MkdirAll T p m c n)"
    using MkdirAll_law [of fs "t_world s" p m] assms(1) by (auto simp: at_state_def)
  then show ?thesis by (rule call1_step [OF _ _ _ at_restI [OF assms(1)]]) (rule assms(2))
qed

lemma Remove_step [steps]:
  assumes "at_state fs T X s"
    and "\<And>s'. at_state fs (snd (spec_Remove T p)) X s' \<Longrightarrow> wp (k (fst (spec_Remove T p))) s' Q"
  shows "wp (seq (fs_call1 (Remove I fs p)) k) s Q"
proof -
  obtain W' where "Remove I fs p (t_world s) = Some (fst (spec_Remove T p), W')" "good fs W'"
      "tree fs W' = snd (spec_Remove T p)"
    using Remove_law [of fs "t_world s" p] assms(1) by (auto simp: at_state_def)
  then show ?thesis by (rule call1_step [OF _ _ _ at_restI [OF assms(1)]]) (rule assms(2))
qed

lemma RemoveAll_step [steps]:
  assumes "at_state fs T X s"
    and "tree_closed T \<and> ValidPath p \<and> (\<forall>s'. at_state fs (prune (elems p) T) X s' \<longrightarrow> wp (k None) s' Q)"
  shows "wp (seq (fs_call1 (RemoveAll I fs p)) k) s Q"
proof -
  obtain W' where "RemoveAll I fs p (t_world s) = Some (None, W')" "good fs W'" "tree fs W' = prune (elems p) T"
    using RemoveAll_law [of fs "t_world s" p] assms by (auto simp: at_state_def)
  then show ?thesis by (rule call1_step [OF _ _ _ at_restI [OF assms(1)]]) (use assms(2) in blast)
qed

lemma Chmod_step [steps]:
  assumes "at_state fs T X s"
    and "\<And>s'. at_state fs (snd (spec_Chmod T p m)) X s' \<Longrightarrow> wp (k (fst (spec_Chmod T p m))) s' Q"
  shows "wp (seq (fs_call1 (Chmod I fs p m)) k) s Q"
proof -
  obtain W' where "Chmod I fs p m (t_world s) = Some (fst (spec_Chmod T p m), W')" "good fs W'"
      "tree fs W' = snd (spec_Chmod T p m)"
    using Chmod_law [of fs "t_world s" p m] assms(1) by (auto simp: at_state_def)
  then show ?thesis by (rule call1_step [OF _ _ _ at_restI [OF assms(1)]]) (rule assms(2))
qed

lemma Chtimes_step [steps]:
  assumes "at_state fs T X s"
    and "\<And>s'. at_state fs (snd (spec_Chtimes T p mt)) X s' \<Longrightarrow> wp (k (fst (spec_Chtimes T p mt))) s' Q"
  shows "wp (seq (fs_call1 (Chtimes I fs p acc mt)) k) s Q"
proof -
  obtain W' where "Chtimes I fs p acc mt (t_world s) = Some (fst (spec_Chtimes T p mt), W')" "good fs W'"
      "tree fs W' = snd (spec_Chtimes T p mt)"
    using Chtimes_law [of fs "t_world s" p acc mt] assms(1) by (auto simp: at_state_def)
  then show ?thesis by (rule call1_step [OF _ _ _ at_restI [OF assms(1)]]) (rule assms(2))
qed

lemma Stat_step [steps]:
  assumes "at_state fs T X s"
    and "\<And>s' r. at_state fs T X s' \<Longrightarrow> (case spec_get T p of
           Inl e \<Rightarrow> r = Inl (PathError ''stat'' p e)
         | Inr nd \<Rightarrow> (\<exists>i. r = Inr i \<and> info_is I i p nd (t_world s'))) \<Longrightarrow> wp (k r) s' Q"
  shows "wp (seq (fs_call1 (Stat I fs p)) k) s Q"
proof -
  obtain r W' where w: "Stat I fs p (t_world s) = Some (r, W')" "good fs W'" "tree fs W' = T"
      "case spec_get T p of Inl e \<Rightarrow> r = Inl (PathError ''stat'' p e) | Inr nd \<Rightarrow> (\<exists>i. r = Inr i \<and> info_is I i p nd W')"
    using Stat_law [of fs "t_world s" p] assms(1) by (auto simp: at_state_def)
  show ?thesis
    by (rule call1_step [where m = "Stat I fs p", OF w(1-3) at_restI [OF assms(1)]]) (use w(4) assms(2) in blast)
qed

lemma OpenFile_step [steps]:
  assumes "at_state fs T X s"
    and "\<And>s' t f. open_post fs (fst (snd (spec_OpenFile T p fl perm t))) X s' f p fl (snd (snd (spec_OpenFile T p fl perm t))) \<Longrightarrow>
      wp (k (f, fst (spec_OpenFile T p fl perm t))) s' Q"
  shows "wp (seq (fs_open (OpenFile I fs p fl perm)) k) s Q"
proof -
  obtain h t W' where w: "OpenFile I fs p fl perm (t_world s) = Some (h, fst (spec_OpenFile T p fl perm t), W')" "good fs W'"
      "(tree fs W', h \<noteq> None) = snd (spec_OpenFile T p fl perm t)" "\<forall>hd. h = Some hd \<longrightarrow> at fs W' hd p fl 0"
    using OpenFile_law [of fs "t_world s" p fl perm] assms(1) by (auto simp: at_state_def)
  have r: "at_rest X s" using assms(1) by (simp add: at_state_def)
  show ?thesis
  proof (cases h)
    case None
    let ?s = "s\<lparr>t_world := W'\<rparr>"
    have "open_post fs (fst (snd (spec_OpenFile T p fl perm t))) X ?s None p fl (snd (snd (spec_OpenFile T p fl perm t)))"
      using w(2,3) r None by (cases "snd (spec_OpenFile T p fl perm t)") (auto simp: at_state_def at_rest_def)
    from assms(2) [OF this] show ?thesis using w(1) None by (auto simp: wp_def seq_def fs_open_def ret_def)
  next
    case (Some hd)
    let ?s = "s\<lparr>t_world := W', t_files := t_files s @ [hd]\<rparr>"
    have "open_post fs (fst (snd (spec_OpenFile T p fl perm t))) X ?s (Some (length (t_files s))) p fl (snd (snd (spec_OpenFile T p fl perm t)))"
      using w(2-4) r Some by (cases "snd (spec_OpenFile T p fl perm t)") (auto simp: at_state_def at_rest_def at_file_def)
    from assms(2) [OF this] show ?thesis using w(1) Some by (auto simp: wp_def seq_def fs_open_def ret_def)
  qed
qed

lemma Create_is [seval]: "Create I fs p = OpenFile I fs p createFlags 0x1B6"
  by (rule ext) (rule Create_law)

lemma Open_is [seval]: "fs_Open I fs p = fs_open (OpenFile I fs p FlagReadOnly 0)"
proof -
  have "i_Open I fs p = OpenFile I fs p FlagReadOnly 0" by (rule ext) (simp add: OpenFile.simps [of I fs])
  then show ?thesis by (simp add: fs_Open_def)
qed

lemma setup_OpenFile_is [seval]: "fl \<noteq> FlagReadOnly \<Longrightarrow> setup_OpenFile I fs p fl perm = fs_open (OpenFile I fs p fl perm)"
proof -
  assume fl: "fl \<noteq> FlagReadOnly"
  obtain f where f: "i_OpenFile I fs = Some f" using methods_law(1) by auto
  then have "f p fl perm = OpenFile I fs p fl perm" by (intro ext) (simp add: OpenFile.simps [of I fs] fl)
  then show ?thesis using f by (simp add: setup_OpenFile_def)
qed

text \<open>Calls on an open file.\<close>

lemma file1_step:
  assumes "at_file fs T X s n p fl off" "m (t_files s ! n) (t_world s) = Some (x, h', W')" "good fs W'" "tree fs W' = T'"
    and "\<And>s'. at_state fs T' X s' \<Longrightarrow> n < length (t_files s') \<Longrightarrow> t_files s' ! n = h' \<Longrightarrow> t_world s' = W' \<Longrightarrow> wp (k x) s' Q"
  shows "wp (seq (file_call1 (Some n) m) k) s Q"
proof -
  have "wp (k x) (put_file n h' W' s) Q"
    using assms(1,3,4) by (intro assms(5)) (auto simp: at_file_def at_state_def at_rest_def put_file_def)
  then show ?thesis using assms(1,2) by (auto simp: wp_def seq_def file_call1_def get_file_def ret_def at_file_def)
qed

lemma file2_step:
  assumes "at_file fs T X s n p fl off" "m (t_files s ! n) (t_world s) = Some (x, y, h', W')" "good fs W'" "tree fs W' = T'"
    and "\<And>s'. at_state fs T' X s' \<Longrightarrow> n < length (t_files s') \<Longrightarrow> t_files s' ! n = h' \<Longrightarrow> t_world s' = W' \<Longrightarrow> wp (k (x, y)) s' Q"
  shows "wp (seq (file_call2 (Some n) m) k) s Q"
proof -
  have "wp (k (x, y)) (put_file n h' W' s) Q"
    using assms(1,3,4) by (intro assms(5)) (auto simp: at_file_def at_state_def at_rest_def put_file_def)
  then show ?thesis using assms(1,2) by (auto simp: wp_def seq_def file_call2_def get_file_def ret_def at_file_def)
qed

lemma file3_step:
  assumes "at_file fs T X s n p fl off" "m (t_files s ! n) (t_world s) = Some (x, y, z, h', W')" "good fs W'" "tree fs W' = T'"
    and "\<And>s'. at_state fs T' X s' \<Longrightarrow> n < length (t_files s') \<Longrightarrow> t_files s' ! n = h' \<Longrightarrow> t_world s' = W' \<Longrightarrow> wp (k (x, y, z)) s' Q"
  shows "wp (seq (file_call3 (Some n) m) k) s Q"
proof -
  have "wp (k (x, y, z)) (put_file n h' W' s) Q"
    using assms(1,3,4) by (intro assms(5)) (auto simp: at_file_def at_state_def at_rest_def put_file_def)
  then show ?thesis using assms(1,2) by (auto simp: wp_def seq_def file_call3_def get_file_def ret_def at_file_def)
qed

lemma Close_step [steps]:
  assumes "at_file fs T X s n p fl off" "\<And>s'. at_state fs T X s' \<Longrightarrow> wp (k True) s' Q"
  shows "wp (seq (assert_Close I tb (Some n)) k) s Q"
proof -
  have g: "good fs (t_world s)" "tree fs (t_world s) = T" using assms(1) by (simp_all add: at_file_def at_state_def)
  obtain h' where "fl_Close I (t_files s ! n) (t_world s) = Some (None, h', t_world s)"
    using Close_law assms(1) unfolding at_file_def by blast
  from file1_step [where m = "fl_Close I" and k = "\<lambda>e. seq (assert_NoError tb e) k", OF assms(1) this g, of Q] assms(2)
  show ?thesis by (simp add: assert_Close_def f_Close_def seq_assoc asserts)
qed

lemma Write_step [steps]:
  assumes "at_file fs T X s n p fl off"
    and "if can_write fl then
       (case T p of None \<Rightarrow> False
        | Some nd \<Rightarrow> \<not> IsDir (n_mode nd) \<and> 0 \<le> off \<and> off + int (length (n_data nd)) + int (length xs) \<le> max_int64
            \<and> (\<forall>s' t. at_file fs (T(p \<mapsto> nd\<lparr>n_modTime := t, n_data := write_at (nat (write_offset fl off (n_data nd))) xs (n_data nd)\<rparr>))
                  X s' n p fl (off + int (length xs)) \<longrightarrow> wp (k (int (length xs), None)) s' Q))
       else (\<forall>s' e. at_file fs T X s' n p fl off \<longrightarrow> wp (k (0, Some e)) s' Q)"
  shows "wp (seq (f_Write I (Some n) xs) k) s Q"
proof -
  let ?h = "t_files s ! n"
  have g: "good fs (t_world s)" "tree fs (t_world s) = T" "at fs (t_world s) ?h p fl off"
    using assms(1) by (simp_all add: at_file_def at_state_def)
  show ?thesis
  proof (cases "can_write fl")
    case True
    then obtain nd where nd: "T p = Some nd" "\<not> IsDir (n_mode nd)" "0 \<le> off"
        "off + int (length (n_data nd)) + int (length xs) \<le> max_int64"
      using assms(2) by (auto split: option.splits)
    let ?T = "\<lambda>t. T(p \<mapsto> nd\<lparr>n_modTime := t, n_data := write_at (nat (write_offset fl off (n_data nd))) xs (n_data nd)\<rparr>)"
    obtain h' W' t where w: "WriteFile I ?h xs (t_world s) = Some (int (length xs), None, h', W')" "good fs W'"
        "tree fs W' = ?T t" "at fs W' h' p fl (off + int (length xs))"
      using Write_law [OF g(1,3) True] nd g(2) by metis
    show ?thesis unfolding f_Write_def
    proof (rule file2_step [where m = "\<lambda>h. WriteFile I h xs", OF assms(1) w(1-3)])
      fix s' assume "at_state fs (?T t) X s'" "n < length (t_files s')" "t_files s' ! n = h'" "t_world s' = W'"
      then have "at_file fs (?T t) X s' n p fl (off + int (length xs))" using w(4) by (simp add: at_file_def)
      then show "wp (k (int (length xs), None)) s' Q" using assms(2) True nd by auto
    qed
  next
    case False
    then obtain h' W' e where w: "WriteFile I ?h xs (t_world s) = Some (0, Some e, h', W')" "good fs W'"
        "tree fs W' = T" "at fs W' h' p fl off"
      using Write_readonly [OF g(1,3)] g(2) by metis
    show ?thesis unfolding f_Write_def
    proof (rule file2_step [where m = "\<lambda>h. WriteFile I h xs", OF assms(1) w(1-3)])
      fix s' assume "at_state fs T X s'" "n < length (t_files s')" "t_files s' ! n = h'" "t_world s' = W'"
      then have "at_file fs T X s' n p fl off" using w(4) by (simp add: at_file_def)
      then show "wp (k (0, Some e)) s' Q" using assms(2) False by simp
    qed
  qed
qed

lemma Read_step [steps]:
  assumes "at_file fs T X s n p fl off"
    and "can_read fl \<and> (case T p of None \<Rightarrow> False
        | Some nd \<Rightarrow> \<not> IsDir (n_mode nd) \<and> 0 \<le> off \<and> off + int (length buf) \<le> max_int64
            \<and> (\<forall>s'. at_file fs T X s' n p fl (off + int (length (read_bytes (length buf) off (n_data nd)))) \<longrightarrow>
                wp (k (go_copy buf (read_bytes (length buf) off (n_data nd)),
                  int (length (read_bytes (length buf) off (n_data nd))), read_err (length buf) off (n_data nd))) s' Q))"
  shows "wp (seq (f_Read I (Some n) buf) k) s Q"
proof -
  let ?h = "t_files s ! n"
  have g: "good fs (t_world s)" "tree fs (t_world s) = T" "at fs (t_world s) ?h p fl off"
    using assms(1) by (simp_all add: at_file_def at_state_def)
  obtain nd where nd: "T p = Some nd" "\<not> IsDir (n_mode nd)" "0 \<le> off" "off + int (length buf) \<le> max_int64"
    using assms(2) by (auto split: option.splits)
  let ?xs = "read_bytes (length buf) off (n_data nd)"
  obtain h' W' where w: "fl_Read I ?h buf (t_world s) = Some (go_copy buf ?xs, int (length ?xs), read_err (length buf) off (n_data nd), h', W')"
      "good fs W'" "tree fs W' = T" "at fs W' h' p fl (off + int (length ?xs))"
    using Read_law [OF g(1,3) _ _ nd(2-4) refl] assms(2) nd(1) g(2) by auto
  show ?thesis unfolding f_Read_def
  proof (rule file3_step [where m = "\<lambda>h. fl_Read I h buf", OF assms(1) w(1-3)])
    fix s' assume "at_state fs T X s'" "n < length (t_files s')" "t_files s' ! n = h'" "t_world s' = W'"
    then have "at_file fs T X s' n p fl (off + int (length ?xs))" using w(4) by (simp add: at_file_def)
    then show "wp (k (go_copy buf ?xs, int (length ?xs), read_err (length buf) off (n_data nd))) s' Q"
      using assms(2) nd by simp
  qed
qed

text \<open>\<open>io.ReadFull\<close> of the whole file.\<close>

lemma ReadFull_step [steps]:
  assumes "at_file fs T X s n p fl 0"
    and "can_read fl \<and> (case T p of None \<Rightarrow> False
        | Some nd \<Rightarrow> \<not> IsDir (n_mode nd) \<and> length buf = length (n_data nd) \<and> n_data nd \<noteq> [] \<and> int (length buf) \<le> max_int64
            \<and> (\<forall>s'. at_file fs T X s' n p fl (int (length buf)) \<longrightarrow> wp (k (n_data nd, int (length buf), None)) s' Q))"
  shows "wp (seq (file_call3 (Some n) (\<lambda>h. io_ReadFull I h buf)) k) s Q"
proof -
  let ?h = "t_files s ! n"
  have g: "good fs (t_world s)" "tree fs (t_world s) = T" "at fs (t_world s) ?h p fl 0"
    using assms(1) by (simp_all add: at_file_def at_state_def)
  obtain nd where nd: "T p = Some nd" "\<not> IsDir (n_mode nd)" "length buf = length (n_data nd)" "n_data nd \<noteq> []"
      "int (length buf) \<le> max_int64"
    using assms(2) by (auto split: option.splits)
  have e: "read_bytes (length buf) 0 (n_data nd) = n_data nd" "read_err (length buf) 0 (n_data nd) = Some EOF"
    "go_copy buf (n_data nd) = n_data nd"
    using nd(3) by (simp_all add: read_bytes_def read_err_def go_copy_def)
  obtain h' W' where w: "fl_Read I ?h buf (t_world s) = Some (n_data nd, int (length (n_data nd)), Some EOF, h', W')"
      "good fs W'" "tree fs W' = T" "at fs W' h' p fl (int (length (n_data nd)))"
    using Read_law [OF g(1,3) _ _ nd(2), of buf] assms(2) nd g(2) e by auto
  have full: "io_ReadFull I ?h buf (t_world s) = Some (n_data nd, int (length (n_data nd)), None, h', W')"
    using w(1) nd(3,4) by (simp add: io_ReadFull_def read_full_loop.simps [of I ?h])
  show ?thesis
  proof (rule file3_step [where m = "\<lambda>h. io_ReadFull I h buf", OF assms(1) full w(2,3)])
    fix s' assume "at_state fs T X s'" "n < length (t_files s')" "t_files s' ! n = h'" "t_world s' = W'"
    then have "at_file fs T X s' n p fl (int (length buf))" using w(4) nd(3) by (simp add: at_file_def)
    then show "wp (k (n_data nd, int (length (n_data nd)), None)) s' Q" using assms(2) nd by simp
  qed
qed

text \<open>Whole files.\<close>

lemma WriteFullFile_step [steps]:
  assumes "at_state fs T X s"
    and "if is_dir T p then (\<forall>s'. at_state fs T X s' \<longrightarrow> wp (k (Some (PathError ''open'' p ErrIsDir))) s' Q)
      else writable T p \<and> int (length xs) \<le> max_int64 \<and>
        (\<forall>s' t. at_state fs (T(p \<mapsto> \<lparr>n_mode = new_mode T p perm, n_modTime = t, n_data = xs\<rparr>)) X s' \<longrightarrow> wp (k None) s' Q)"
  shows "wp (seq (fs_call1 (WriteFullFile I fs p xs perm)) k) s Q"
proof -
  have g: "good fs (t_world s)" "tree fs (t_world s) = T" using assms(1) by (simp_all add: at_state_def)
  show ?thesis
  proof (cases "is_dir T p")
    case True
    then obtain W' where "WriteFullFile I fs p xs perm (t_world s) = Some (Some (PathError ''open'' p ErrIsDir), W')"
        "good fs W'" "tree fs W' = T"
      using WriteFullFile_dir [OF g(1)] g(2) by metis
    then show ?thesis by (rule call1_step [OF _ _ _ at_restI [OF assms(1)]]) (use assms(2) True in auto)
  next
    case False
    then obtain t W' where "WriteFullFile I fs p xs perm (t_world s) = Some (None, W')"
        "good fs W'" "tree fs W' = T(p \<mapsto> \<lparr>n_mode = new_mode T p perm, n_modTime = t, n_data = xs\<rparr>)"
      using WriteFullFile_law [OF g(1), of p xs perm] assms(2) g(2) by auto
    then show ?thesis by (rule call1_step [OF _ _ _ at_restI [OF assms(1)]]) (use assms(2) False in auto)
  qed
qed

lemma ReadFile_step [steps]:
  assumes "at_state fs T X s"
    and "case T p of
        None \<Rightarrow> ValidPath p \<and> (\<forall>s' b. at_state fs T X s' \<longrightarrow> wp (k (b, Some (PathError ''open'' p ErrNotExist))) s' Q)
      | Some nd \<Rightarrow> \<not> IsDir (n_mode nd) \<and> int (length (n_data nd)) < max_int64
          \<and> (\<forall>s'. at_state fs T X s' \<longrightarrow> wp (k (n_data nd, None)) s' Q)"
  shows "wp (seq (fs_call2 (ReadFile I fs p)) k) s Q"
proof -
  have g: "good fs (t_world s)" "tree fs (t_world s) = T" using assms(1) by (simp_all add: at_state_def)
  show ?thesis
  proof (cases "T p")
    case None
    then obtain b W' where "ReadFile I fs p (t_world s) = Some (b, Some (PathError ''open'' p ErrNotExist), W')"
        "good fs W'" "tree fs W' = T"
      using ReadFile_missing [OF g(1)] g(2) assms(2) by (metis (no_types, lifting) option.simps(4))
    then show ?thesis by (rule call2_step [OF _ _ _ at_restI [OF assms(1)]]) (use assms(2) None in auto)
  next
    case (Some nd)
    then obtain W' where "ReadFile I fs p (t_world s) = Some (n_data nd, None, W')" "good fs W'" "tree fs W' = T"
      using ReadFile_law [OF g(1), of p nd] g(2) assms(2) by auto
    then show ?thesis by (rule call2_step [OF _ _ _ at_restI [OF assms(1)]]) (use assms(2) Some in auto)
  qed
qed

text \<open>A rename that does not move a directory.\<close>

lemma Rename_step [steps]:
  assumes "at_state fs T X s"
    and "case T p of
        None \<Rightarrow> ValidPath p \<and>
          (\<forall>s'. at_state fs T X s' \<longrightarrow> wp (k (Some (LinkError ''rename'' p q ErrNotExist))) s' Q)
      | Some nd \<Rightarrow>
          if IsDir (n_mode nd) then T q \<noteq> None \<and>
            (\<forall>s'. at_state fs T X s' \<longrightarrow> wp (k (Some (LinkError ''rename'' p q ErrExist))) s' Q)
          else ValidPath q \<and>
            (\<forall>s'. at_state fs (if p = q then T else T(q \<mapsto> nd, p := None)) X s' \<longrightarrow> wp (k None) s' Q)"
  shows "wp (seq (fs_call1 (Rename I fs p q)) k) s Q"
proof -
  have g: "good fs (t_world s)" "tree fs (t_world s) = T" using assms(1) by (simp_all add: at_state_def)
  note fin = call1_step [OF _ _ _ at_restI [OF assms(1)]]
  show ?thesis
  proof (cases "T p")
    case None
    then obtain W' where "Rename I fs p q (t_world s) = Some (Some (LinkError ''rename'' p q ErrNotExist), W')"
        "good fs W'" "tree fs W' = T"
      using Rename_missing [OF g(1), of p q] g(2) assms(2) by auto
    then show ?thesis by (rule fin) (use assms(2) None in auto)
  next
    case (Some nd)
    show ?thesis
    proof (cases "IsDir (n_mode nd)")
      case True
      then obtain W' where "Rename I fs p q (t_world s) = Some (Some (LinkError ''rename'' p q ErrExist), W')"
          "good fs W'" "tree fs W' = T"
        using Rename_onto [OF g(1), of p q] g(2) assms(2) Some by (auto simp: is_dir_def)
      then show ?thesis by (rule fin) (use assms(2) Some True in auto)
    next
      case False
      then obtain W' where "Rename I fs p q (t_world s) = Some (None, W')" "good fs W'"
          "tree fs W' = (if p = q then T else T(q \<mapsto> nd, p := None))"
        using Rename_file [OF g(1), of p nd q] g(2) assms(2) Some by auto
      then show ?thesis by (rule fin) (use assms(2) Some False in auto)
    qed
  qed
qed

lemma ReadDir_step [steps]:
  assumes "at_state fs T X s"
    and "case T p of
        None \<Rightarrow> ValidPath p \<and> (\<forall>s' ds. at_state fs T X s' \<longrightarrow> wp (k (ds, Some (PathError ''open'' p ErrNotExist))) s' Q)
      | Some nd \<Rightarrow> if IsDir (n_mode nd) then
            (\<forall>s' ds. at_state fs T X s' \<longrightarrow> map (de_Name I) ds = sorted_list_of_set (children T p) \<longrightarrow>
               (\<forall>d \<in> set ds. \<exists>nd. T (Join [p, de_Name I d]) = Some nd \<and> entry_is I d (Join [p, de_Name I d]) nd (t_world s')) \<longrightarrow>
               wp (k (ds, None)) s' Q)
          else IsRegular (n_mode nd) \<and>
            (\<forall>s' ds e. at_state fs T X s' \<longrightarrow> errors_Is e ErrNotDir \<longrightarrow> \<not> errors_Is e ErrNotImplemented \<longrightarrow>
               wp (k (ds, Some (PathError ''readdir'' p e))) s' Q)"
  shows "wp (seq (fs_call2 (ReadDir I fs p)) k) s Q"
proof -
  have g: "good fs (t_world s)" "tree fs (t_world s) = T" using assms(1) by (simp_all add: at_state_def)
  show ?thesis
  proof (cases "T p")
    case None
    then obtain ds W' where "ReadDir I fs p (t_world s) = Some (ds, Some (PathError ''open'' p ErrNotExist), W')"
        "good fs W'" "tree fs W' = T"
      using ReadDir_missing [OF g(1), of p] g(2) assms(2) by auto
    then show ?thesis by (rule call2_step [OF _ _ _ at_restI [OF assms(1)]]) (use assms(2) None in auto)
  next
    case (Some nd)
    show ?thesis
    proof (cases "IsDir (n_mode nd)")
      case False
      then obtain ds e W' where r: "ReadDir I fs p (t_world s) = Some (ds, Some (PathError ''readdir'' p e), W')"
          "good fs W'" "tree fs W' = T" "errors_Is e ErrNotDir" "\<not> errors_Is e ErrNotImplemented"
        using ReadDir_file [OF g(1), of p nd] g(2) assms(2) Some by auto
      show ?thesis
        by (rule call2_step [where m = "ReadDir I fs p", OF r(1-3) at_restI [OF assms(1)]]) (use assms(2) Some False r(4,5) in auto)
    next
      case True
      then have d: "is_dir (tree fs (t_world s)) p" using Some g(2) by (simp add: is_dir_def)
      obtain ds W' where r: "ReadDir I fs p (t_world s) = Some (ds, None, W')" "good fs W'" "tree fs W' = T"
          "sorted (map (de_Name I) ds)" "distinct (map (de_Name I) ds)" "set (map (de_Name I) ds) = children T p"
          "\<forall>d \<in> set ds. \<exists>nd. T (Join [p, de_Name I d]) = Some nd
             \<and> (\<forall>U. later fs W' U \<longrightarrow> entry_is I d (Join [p, de_Name I d]) nd U)"
        using ReadDir_law [OF g(1) d] g(2) by metis
      have names: "map (de_Name I) ds = sorted_list_of_set (children T p)"
        using sorted_list_of_set.idem_if_sorted_distinct [OF r(4,5)] r(6) by simp
      have es: "\<forall>d \<in> set ds. \<exists>nd. T (Join [p, de_Name I d]) = Some nd \<and> entry_is I d (Join [p, de_Name I d]) nd W'"
        using r(7) later_refl by blast
      show ?thesis
        by (rule call2_step [where m = "ReadDir I fs p", OF r(1-3) at_restI [OF assms(1)]]) (use assms(2) Some True names es in auto)
    qed
  qed
qed
lemma tbRun_step [steps]:
  assumes "at_rest X s" "on_top tb X \<and> passes test \<and> (\<forall>s'. at_rest X s' \<longrightarrow> wp (k ()) s' Q)"
  shows "wp (seq (tbRun I opts False tb name test) k) s Q"
  using tbRun_then [OF assms(1), of tb opts test k Q I name] assms(2) ShouldSkip_law by blast

lemmas tbRun_state_step [steps] = tbRun_step [OF at_restI]

end

end
