(* ===== verification/FSTest_Passes.thy ===== *)
theory FSTest_Passes
  imports FSTest_Contract
begin

section \<open>Every test of a file system passes on a file system that keeps the contract\<close>

text \<open>
  Each subtest is run symbolically from a new file system to its end: it returns, none of its assertions
  fails, and no test is skipped except the one that needs symbolic links.
\<close>

named_theorems oks "tests that pass"

context test_target
begin

lemmas spec_defs = spec_get_def spec_Mkdir_def spec_MkdirAll_def spec_Remove_def spec_Chmod_def spec_Chtimes_def spec_OpenFile_def
lemmas match_defs = matches_def node_entry_def mk_entry_def closed_new closed_put
lemmas run = seq_assoc seval seval_defs spec_defs match_defs has_flag_def flag_defs fun_upd_idem max_int64_def
  writable_def new_mode_def write_offset_def at_or_below_def assert_rename_exists_def

lemma TestBaseCreate_ok [oks]: "passes (TestBaseCreate I opts)"
  by (rule passesI, unfold TestBaseCreate_def, (erule steps, clarsimp simp: run)+, erule at_restI)

lemma TestBaseMkdir_ok [oks]: "passes (TestBaseMkdir I opts)"
  by (rule passesI, unfold TestBaseMkdir_def, (erule steps, clarsimp simp: run)+, erule at_restI)

lemma TestBaseChmod_ok [oks]: "passes (TestBaseChmod I opts)"
  by (rule passesI, unfold TestBaseChmod_def, (erule steps, clarsimp simp: run)+, erule at_restI)

lemma TestBaseChtimes_ok [oks]: "passes (TestBaseChtimes I opts)"
  by (rule passesI, unfold TestBaseChtimes_def Let_def, (erule steps, clarsimp simp: run)+, erule at_restI)

lemma TestMkdir_fail_dir_exists_ok [oks]: "passes (TestMkdir_fail_dir_exists I opts)"
  by (rule passesI, unfold TestMkdir_fail_dir_exists_def, (erule steps, clarsimp simp: run)+, erule at_restI)

lemma TestMkdir_fail_file_exists_ok [oks]: "passes (TestMkdir_fail_file_exists I opts)"
  by (rule passesI, unfold TestMkdir_fail_file_exists_def, (erule steps, clarsimp simp: run)+, erule at_restI)

lemma TestMkdir_create_sub_dir_ok [oks]: "passes (TestMkdir_create_sub_dir I opts)"
  by (rule passesI, unfold TestMkdir_create_sub_dir_def, (erule steps, clarsimp simp: run)+, erule at_restI)

lemma TestMkdir_only_permission_bits_allowed_ok [oks]: "passes (TestMkdir_only_permission_bits_allowed I opts)"
  by (rule passesI, unfold TestMkdir_only_permission_bits_allowed_def, (erule steps, clarsimp simp: run)+, erule at_restI)

lemma TestMkdir_parent_directory_must_exist_ok [oks]: "passes (TestMkdir_parent_directory_must_exist I opts)"
  by (rule passesI, unfold TestMkdir_parent_directory_must_exist_def, (erule steps, clarsimp simp: run)+, erule at_restI)

lemma TestMkdirAll_create_one_directory_ok [oks]: "passes (TestMkdirAll_create_one_directory I opts)"
  by (rule passesI, unfold TestMkdirAll_create_one_directory_def, (erule steps, clarsimp simp: run)+, erule at_restI)

lemma TestMkdirAll_create_multiple_directories_ok [oks]: "passes (TestMkdirAll_create_multiple_directories I opts)"
  by (rule passesI, unfold TestMkdirAll_create_multiple_directories_def, (erule steps, clarsimp simp: run)+, erule at_restI)

lemma TestMkdirAll_all_directories_exist_ok [oks]: "passes (TestMkdirAll_all_directories_exist I opts)"
  by (rule passesI, unfold TestMkdirAll_all_directories_exist_def, (erule steps, clarsimp simp: run)+, erule at_restI)

lemma TestMkdirAll_file_exists_ok [oks]: "passes (TestMkdirAll_file_exists I opts)"
  by (rule passesI, unfold TestMkdirAll_file_exists_def, (erule steps, clarsimp simp: run)+, erule at_restI)

lemma TestMkdirAll_illegal_permission_bits_ok [oks]: "passes (TestMkdirAll_illegal_permission_bits I opts)"
  by (rule passesI, unfold TestMkdirAll_illegal_permission_bits_def, (erule steps, clarsimp simp: run)+, erule at_restI)

lemma TestOpenFile_create_illegal_perms_ok [oks]: "passes (TestOpenFile_create_illegal_perms I opts)"
  by (rule passesI, unfold TestOpenFile_create_illegal_perms_def, (erule steps, clarsimp simp: run)+, erule at_restI)

lemma TestOpenFile_truncate_on_existing_file_ok [oks]: "passes (TestOpenFile_truncate_on_existing_file I opts)"
  by (rule passesI, unfold TestOpenFile_truncate_on_existing_file_def Let_def, (erule steps, clarsimp simp: run)+, erule at_restI)

lemma TestOpenFile_truncate_on_non_existent_file_ok [oks]: "passes (TestOpenFile_truncate_on_non_existent_file I opts)"
  by (rule passesI, unfold TestOpenFile_truncate_on_non_existent_file_def, (erule steps, clarsimp simp: run)+, erule at_restI)

lemma TestOpenFile_truncate_on_existing_dir_ok [oks]: "passes (TestOpenFile_truncate_on_existing_dir I opts)"
  by (rule passesI, unfold TestOpenFile_truncate_on_existing_dir_def, (erule steps, clarsimp simp: run)+, erule at_restI)

lemma TestOpenFile_append_flag_writes_to_end_ok [oks]: "passes (TestOpenFile_append_flag_writes_to_end I opts)"
  by (rule passesI, unfold TestOpenFile_append_flag_writes_to_end_def Let_def, (erule steps, clarsimp simp: run)+, erule at_restI)

lemma TestRemove_remove_file_ok [oks]: "passes (TestRemove_remove_file I opts)"
  by (rule passesI, unfold TestRemove_remove_file_def, (erule steps, clarsimp simp: run)+, erule at_restI)

lemma TestRemove_remove_empty_dir_ok [oks]: "passes (TestRemove_remove_empty_dir I opts)"
  by (rule passesI, unfold TestRemove_remove_empty_dir_def, (erule steps, clarsimp simp: run)+, erule at_restI)

lemma TestRemove_remove_non_existing_file_ok [oks]: "passes (TestRemove_remove_non_existing_file I opts)"
  by (rule passesI, unfold TestRemove_remove_non_existing_file_def, (erule steps, clarsimp simp: run)+, erule at_restI)

lemma TestRemove_remove_non_empty_dir_ok [oks]: "passes (TestRemove_remove_non_empty_dir I opts)"
  by (rule passesI, unfold TestRemove_remove_non_empty_dir_def, (erule steps, clarsimp simp: run)+, erule at_restI)

lemma TestRemoveAll_remove_file_ok [oks]: "passes (TestRemoveAll_remove_file I opts)"
  by (rule passesI, unfold TestRemoveAll_remove_file_def, (erule steps, clarsimp simp: run)+, erule at_restI)

lemma TestRemoveAll_remove_empty_dir_ok [oks]: "passes (TestRemoveAll_remove_empty_dir I opts)"
  by (rule passesI, unfold TestRemoveAll_remove_empty_dir_def, (erule steps, clarsimp simp: run)+, erule at_restI)

lemma TestRemoveAll_remove_non_existing_file_ok [oks]: "passes (TestRemoveAll_remove_non_existing_file I opts)"
  by (rule passesI, unfold TestRemoveAll_remove_non_existing_file_def, (erule steps, clarsimp simp: run)+, erule at_restI)

lemma TestRemoveAll_remove_non_empty_dir_ok [oks]: "passes (TestRemoveAll_remove_non_empty_dir I opts)"
  by (rule passesI, unfold TestRemoveAll_remove_non_empty_dir_def, (erule steps, clarsimp simp: run)+, erule at_restI)

lemma TestRename_oldpath_does_not_exist_ok [oks]: "passes (TestRename_oldpath_does_not_exist I opts)"
  by (rule passesI, unfold TestRename_oldpath_does_not_exist_def, (erule steps, clarsimp simp: run)+, erule at_restI)

lemma TestRename_inside_same_directory_ok [oks]: "passes (TestRename_inside_same_directory I opts)"
  by (rule passesI, unfold TestRename_inside_same_directory_def, (erule steps, clarsimp simp: run)+, erule at_restI)

lemma TestRename_inside_same_directory_in_root_ok [oks]: "passes (TestRename_inside_same_directory_in_root I opts)"
  by (rule passesI, unfold TestRename_inside_same_directory_in_root_def, (erule steps, clarsimp simp: run)+, erule at_restI)

lemma TestRename_same_file_ok [oks]: "passes (TestRename_same_file I opts)"
  by (rule passesI, unfold TestRename_same_file_def Let_def, (erule steps, clarsimp simp: run)+, erule at_restI)

lemma TestRename_same_directory_ok [oks]: "passes (TestRename_same_directory I opts)"
  by (rule passesI, unfold TestRename_same_directory_def, (erule steps, clarsimp simp: run)+, erule at_restI)

lemma TestRename_newpath_is_directory_ok [oks]: "passes (TestRename_newpath_is_directory I opts)"
  by (rule passesI, unfold TestRename_newpath_is_directory_def, (erule steps, clarsimp simp: run)+, erule at_restI)

lemma TestRename_newpath_in_root_ok [oks]: "passes (TestRename_newpath_in_root I opts)"
  by (rule passesI, unfold TestRename_newpath_in_root_def Let_def, (erule steps, clarsimp simp: run)+, erule at_restI)

lemma TestRename_newpath_in_subdirectory_ok [oks]: "passes (TestRename_newpath_in_subdirectory I opts)"
  by (rule passesI, unfold TestRename_newpath_in_subdirectory_def Let_def, (erule steps, clarsimp simp: run)+, erule at_restI)

lemma TestChmod_change_permission_bits_ok [oks]: "passes (TestChmod_change_permission_bits I opts)"
  by (rule passesI, unfold TestChmod_change_permission_bits_def, (erule steps, clarsimp simp: run)+, erule at_restI)

lemma TestChtimes_file_does_not_exist_ok [oks]: "passes (TestChtimes_file_does_not_exist I opts accessTime modifyTime)"
  by (rule passesI, unfold TestChtimes_file_does_not_exist_def, (erule steps, clarsimp simp: run)+, erule at_restI)

lemma TestReadFile_not_exists_ok [oks]: "passes (TestReadFile_not_exists I opts)"
  by (rule passesI, unfold TestReadFile_not_exists_def, (erule steps, clarsimp simp: run)+, erule at_restI)

lemma TestReadFile_exists_ok [oks]: "passes (TestReadFile_exists I opts)"
  by (rule passesI, unfold TestReadFile_exists_def Let_def, (erule steps, clarsimp simp: run)+, erule at_restI)

lemma TestWriteFile_not_exists_ok [oks]: "passes (TestWriteFile_not_exists I opts)"
  by (rule passesI, unfold TestWriteFile_not_exists_def, (erule steps, clarsimp simp: run)+, erule at_restI)

lemma TestWriteFile_file_exists_ok [oks]: "passes (TestWriteFile_file_exists I opts)"
  by (rule passesI, unfold TestWriteFile_file_exists_def Let_def, (erule steps, clarsimp simp: run)+, erule at_restI)

lemma Chtimes_change_ok: "modifyTime \<noteq> 0 \<Longrightarrow> passes (TestChtimes_change_access_and_modify_times I opts accessTime modifyTime)"
  by (rule passesI, unfold TestChtimes_change_access_and_modify_times_def, (erule steps, clarsimp simp: run)+, erule at_restI)

lemma dir_masked: "(ModeDir OR x) AND modeMask opts = x AND modeMask opts"
proof -
  have "(ModeDir OR x) AND modeMask opts = (modeMask opts AND ModeDir) OR (x AND modeMask opts)"
    by (simp add: bit.conj_disj_distrib2 bit.conj_disj_distrib ac_simps)
  then show ?thesis using mask_law by simp
qed

lemma TestWriteFile_dir_exists_ok [oks]: "passes (TestWriteFile_dir_exists I opts)"
  by (rule passesI, unfold TestWriteFile_dir_exists_def, (erule steps, clarsimp simp: run dir_masked)+, erule at_restI)

definition open_fn :: "nat \<Rightarrow> flag \<Rightarrow> file_mode \<Rightarrow> 'f \<Rightarrow> string \<Rightarrow> (('w, 'h) tst, nat option \<times> err option) prog" where
  "open_fn tb0 fl m fs name = seq (fs_open (OpenFile I fs name fl m)) (\<lambda>(file, err). seq (skipNotImplemented tb0 err) (\<lambda>_. ret (file, err)))"

lemma testCreate_oks:
  assumes cf: "\<And>fs name. createFn fs name = open_fn tb0 createFlags 0x1B6 fs name"
  shows "passes (testCreate_new_file I opts createFn)"
  "passes (testCreate_existing_file I opts createFn)"
  "passes (testCreate_existing_directory I opts createFn)"
  "passes (testCreate_parent_directory_must_exist I opts createFn)"
  unfolding testCreate_new_file_def testCreate_existing_file_def testCreate_existing_directory_def
    testCreate_parent_directory_must_exist_def Let_def
  by ((rule passesI, (erule steps, clarsimp simp: run cf open_fn_def)+, erule at_restI))+

lemma testCreate_ok:
  assumes cf: "\<And>fs name. createFn fs name = open_fn tb0 createFlags 0x1B6 fs name"
  shows "passes (testCreate I opts createFn)"
  by (rule passesI, unfold testCreate_def, (erule steps, clarsimp simp: run cf open_fn_def testCreate_oks [OF cf])+)

lemma TestOpenFile_create_ok [oks]: "passes (TestOpenFile_create I opts)"
  by (rule passesI, unfold TestOpenFile_create_def, rule passesD [OF testCreate_ok]) (auto simp: open_fn_def)
lemma TestCreate_ok [oks]: "passes (TestCreate I opts)"
  by (rule passesI, unfold TestCreate_def, rule passesD [OF testCreate_ok]) (auto simp: open_fn_def Create_is)

lemma testOpen_oks:
  assumes f: "\<And>fs name. openFn fs name = (if b then open_fn tb0 FlagReadOnly m fs name else fs_open (OpenFile I fs name FlagReadOnly m))"
  shows "passes (testOpen_invalid_path opts openFn)" "passes (testOpen_does_not_exist opts openFn)"
   "passes (testOpen_open_file I opts openFn)"
   "passes (testOpen_supports_reads I opts openFn)" "passes (testOpen_fails_writes I opts openFn)"
  unfolding testOpen_invalid_path_def testOpen_does_not_exist_def testOpen_open_file_def testOpen_supports_reads_def Let_def
    write_contents_def testOpen_fails_writes_def
  by (cases b, ((rule passesI, (erule steps, clarsimp simp: run f open_fn_def)+, erule at_restI))+)+

lemma testOpen_ok:
  assumes f: "\<And>fs name. openFn fs name = (if b then open_fn tb0 FlagReadOnly m fs name else fs_open (OpenFile I fs name FlagReadOnly m))"
  shows "passes (testOpen I opts openFn)"
  by (rule passesI, unfold testOpen_def, (erule steps, clarsimp simp: testOpen_oks [OF f])+)

lemma TestOpenFile_read_only_ok [oks]: "passes (TestOpenFile_read_only I opts)"
  by (rule passesI, unfold TestOpenFile_read_only_def, rule passesD [OF testOpen_ok [where b = True]]) (auto simp: open_fn_def)
lemma TestOpen_ok [oks]: "passes (TestOpen I opts)"
  by (rule passesI, unfold TestOpen_def, rule passesD [OF testOpen_ok [where b = False]]) (auto simp: Open_is)

lemma testStat_oks:
  assumes f: "\<And>tb fs p. stater tb fs p =
    seq (fs_call1 (Stat I fs p)) (\<lambda>r. seq (skipNotImplemented tb (err_of r)) (\<lambda>_. ret r))"
  shows "passes (testStat_invalid_path opts stater)" "passes (testStat_stat_root I opts stater)"
    "passes (testStat_stat_a_file I opts stater)" "passes (testStat_stat_a_directory I opts stater)"
    "passes (testStat_stat_nested_files I opts stater)"
  unfolding testStat_invalid_path_def testStat_stat_root_def testStat_stat_a_file_def testStat_stat_a_directory_def
    testStat_stat_nested_files_def assert_IsType_def errval_def err_type_def
  subgoal apply (rule passesI, (erule steps, clarsimp simp: run f err_type_def)+) by (erule at_restI)
  subgoal by (rule passesI, (erule steps, clarsimp simp: run f)+, erule at_restI)
  subgoal apply (rule passesI, (erule steps, clarsimp simp: run f wp_NotPanics)+) by (erule at_restI) 
  subgoal by (rule passesI, (erule steps, clarsimp simp: run f)+, erule at_restI)
  subgoal by (rule passesI, (erule steps, clarsimp simp: run f)+, erule at_restI)
  done

lemma TestStat_ok [oks]: "passes (TestStat I opts)"
  by (rule passesI, unfold TestStat_def testStat_def, (erule steps, clarsimp simp: testStat_oks)+)
lemma TestReadDir_not_exists_ok [oks]: "passes (TestReadDir_not_exists I opts)"
  by (rule passesI, unfold TestReadDir_not_exists_def, (erule steps, clarsimp simp: run)+, erule at_restI)

lemma TestReadDir_file_is_not_a_dir_ok [oks]: "passes (TestReadDir_file_is_not_a_dir I opts)"
  by (rule passesI, unfold TestReadDir_file_is_not_a_dir_def assert_not_dir_def assert_IsType_def errval_def,
      (erule steps, clarsimp simp: run seval err_type_def readdir_op)+, erule at_restI)

lemma assert_dir_entry_is:
  assumes "entry_is I d p nd (t_world s)" "de_Name I d = name" "name = Base p" "n_data nd = []"
    and "m = n_mode nd" "b = IsDir (n_mode nd)" "t = Type (n_mode nd)"
  shows "wp (seq (assert_dir_entry I tb d name m b t) k) s Q \<longleftrightarrow> wp (k ()) s Q"
proof -
  obtain info where info: "de_Info I d (t_world s) = Some (Inr info, t_world s)" "info_is I info p nd (t_world s)"
    and d: "de_IsDir I d = Some (IsDir (n_mode nd))" "de_Type I d = Some (Type (n_mode nd))"
    using assms(1) by (auto simp: entry_is_def)
  show ?thesis using info assms d
    by (cases "IsDir (n_mode nd)") (simp_all add: assert_dir_entry_def seval seval_defs seq_assoc wp_call_same)
qed

lemma TestReadDir_exists_ok [oks]: "passes (TestReadDir_exists I opts)"
  apply (rule passesI, unfold TestReadDir_exists_def, (erule steps, clarsimp simp: run seval assert_dir_entry_is)+) 
  apply (erule at_restI)
  done
lemma TestMkdir_ok [oks]: "passes (TestMkdir I opts)"
  by (rule passesI, unfold TestMkdir_def, (erule steps, clarsimp simp: oks)+)
lemma TestMkdirAll_ok [oks]: "passes (TestMkdirAll I opts)"
  by (rule passesI, unfold TestMkdirAll_def, (erule steps, clarsimp simp: oks)+)
lemma TestOpenFile_ok [oks]: "passes (TestOpenFile I opts)"
  by (rule passesI, unfold TestOpenFile_def, (erule steps, clarsimp simp: oks)+)
lemma TestRemove_ok [oks]: "passes (TestRemove I opts)"
  by (rule passesI, unfold TestRemove_def, (erule steps, clarsimp simp: oks)+)
lemma TestRemoveAll_ok [oks]: "passes (TestRemoveAll I opts)"
  by (rule passesI, unfold TestRemoveAll_def, (erule steps, clarsimp simp: oks)+)
lemma TestReadFile_ok [oks]: "passes (TestReadFile I opts)"
  by (rule passesI, unfold TestReadFile_def, (erule steps, clarsimp simp: oks)+)
lemma TestReadDir_ok [oks]: "passes (TestReadDir I opts)"
  by (rule passesI, unfold TestReadDir_def, (erule steps, clarsimp simp: oks)+)
lemma TestWriteFile_ok [oks]: "passes (TestWriteFile I opts)"
  by (rule passesI, unfold TestWriteFile_def, (erule steps, clarsimp simp: oks)+)

lemma TestChmod_runs:
  assumes "at_rest X s" "on_top tb X"
  shows "wp (TestChmod I opts tb) s (\<lambda>_ s'. t_stack s' = fst X \<and> t_maps s' = (snd X)[skippedTests opts :=
    List.insert \<lparr>fct_Name = fullName (fr_name (fst X ! tb)) ''change symlink target permission bits''\<rparr> (snd X ! skippedTests opts)])"
    (is "wp _ _ ?Q")
  unfolding TestChmod_def
proof (rule tbRun_step [OF assms(1)], intro conjI allI impI)
  show "on_top tb X" by fact
  show "passes (TestChmod_change_permission_bits I opts)" by (rule oks)
  fix s' :: "('w, 'h) tst" assume s': "at_rest X s'"
  let ?n = "''change symlink target permission bits''"
  let ?t = "TestChmod_change_symlink_target_permission_bits I opts"
  obtain fs W' where "Setup_FS opts (Suc tb) (push_frame tb ?n s') = Some (Ret (fs, ret fs), (push_frame tb ?n s')\<lparr>t_world := W'\<rparr>, [])"
    using Setup_law by blast
  then have "?t (Suc tb) (push_frame tb ?n s') = tb_Skip (Suc tb) ((push_frame tb ?n s')\<lparr>t_world := W'\<rparr>)"
    by (simp add: TestChmod_change_symlink_target_permission_bits_def seq_step methods_law(3))
  from tbRun_skips [where test = ?t and name = ?n and I = I, OF s' assms(2) ShouldSkip_law this]
  show "wp (seq (tbRun I opts False tb ?n ?t) (\<lambda>_. ret ())) s' ?Q"
    using s' by (simp add: wp_def seq_def ret_def store_skip_def at_rest_def tb_Name_def)
qed


lemma foo_tree:
  assumes "list_all ok_elem es"
  shows "[dot \<mapsto> root, ''foo'' \<mapsto> nd, ''foo/bar'' \<mapsto> nd'] (path_of es) =
    (if es = [] then Some root else if es = [''foo''] then Some nd else if es = [''foo'', ''bar''] then Some nd' else None)"
proof -
  have "path_of es = dot \<longleftrightarrow> es = []" "path_of es = ''foo'' \<longleftrightarrow> es = [''foo'']" "path_of es = ''foo/bar'' \<longleftrightarrow> es = [''foo'', ''bar'']"
    using elems_path_of [OF assms] test_elems_of test_paths by (metis path_of_Nil)+
  then show ?thesis by auto
qed

lemma rename_foo_moved:
  assumes "moved [dot \<mapsto> root, ''foo'' \<mapsto> nd, ''foo/bar'' \<mapsto> nd'] T' [''foo''] [''baz'']" "\<And>q. T' q \<noteq> None \<Longrightarrow> ValidPath q"
  shows "T' = [dot \<mapsto> root, ''baz'' \<mapsto> nd, ''baz/bar'' \<mapsto> nd']"
proof (rule ext)
  fix q
  show "T' q = [dot \<mapsto> root, ''baz'' \<mapsto> nd, ''baz/bar'' \<mapsto> nd'] q"
  proof (cases "ValidPath q")
    case True
    define es where "es = elems q"
    define T where "T = [dot \<mapsto> root, ''foo'' \<mapsto> nd, ''foo/bar'' \<mapsto> nd']"
    have es: "list_all ok_elem es" "q = path_of es" using ValidPath_elems [OF True] by (simp_all add: es_def)
    have rhs: "q = dot \<longleftrightarrow> es = []" "q = ''baz'' \<longleftrightarrow> es = [''baz'']" "q = ''baz/bar'' \<longleftrightarrow> es = [''baz'', ''bar'']"
      using elems_path_of [OF es(1)] es test_elems_of test_paths by (metis path_of_Nil)+
    have ft: "T (path_of es) = (if es = [] then Some root else if es = [''foo''] then Some nd
        else if es = [''foo'', ''bar''] then Some nd' else None)" if "list_all ok_elem es" for es
      unfolding T_def by (rule foo_tree [OF that])
    have "T' q = (if prefix [''foo''] es then None else if prefix [''baz''] es then T (path_of (''foo'' # drop 1 es)) else T (path_of es))"
      using assms(1) es unfolding moved_def T_def [symmetric] by simp
    moreover have "T dot = Some root" "T ''foo'' = Some nd" by (simp_all add: T_def)
    ultimately show ?thesis using es(1) test_elems by (cases es) (auto simp: rhs ft)
  next
    case False
    then have "T' q = None" using assms(2) by blast
    moreover have "q \<noteq> dot" "q \<noteq> ''baz''" "q \<noteq> ''baz/bar''" using False test_ValidPath by auto
    ultimately show ?thesis by simp
  qed
qed

lemma rename_foo_step:
  assumes "at_state fs [dot \<mapsto> root, ''foo'' \<mapsto> nd, ''foo/bar'' \<mapsto> nd'] X s"
    and "IsDir (n_mode nd) \<and> (\<forall>s'. at_state fs [dot \<mapsto> root, ''baz'' \<mapsto> nd, ''baz/bar'' \<mapsto> nd'] X s' \<longrightarrow> wp (k None) s' Q)"
  shows "wp (seq (fs_call1 (Rename I fs ''foo'' ''baz'')) k) s Q"
proof -
  let ?T = "[dot \<mapsto> root, ''foo'' \<mapsto> nd, ''foo/bar'' \<mapsto> nd']"
  have g: "good fs (t_world s)" "tree fs (t_world s) = ?T" using assms(1) by (simp_all add: at_state_def)
  define T where "T = ?T"
  have ft: "T (path_of es) = (if es = [] then Some root else if es = [''foo''] then Some nd
      else if es = [''foo'', ''bar''] then Some nd' else None)" if "list_all ok_elem es" for es
    unfolding T_def by (rule foo_tree [OF that])
  have foo: "T ''foo'' = Some nd" by (simp add: T_def)
  have "movable T [''foo''] [''baz'']"
    using assms(2) test_elems foo by (auto simp: movable_def ft is_dir_def prefix_def split: if_splits)
  then have "movable ?T [''foo''] [''baz'']" by (simp only: T_def)
  then obtain W' where w: "Rename I fs ''foo'' ''baz'' (t_world s) = Some (None, W')" "good fs W'" "moved ?T (tree fs W') [''foo''] [''baz'']"
    using Rename_dir [OF g(1), of "[''foo'']" "[''baz'']"] g(2) test_paths by auto
  show ?thesis
    by (rule call1_step [where m = "Rename I fs ''foo'' ''baz''", OF w(1,2) rename_foo_moved [OF w(3) tree_valid [OF w(2)]] at_restI [OF assms(1)]])
      (use assms(2) in auto)
qed

lemma TestRename_non_empty_directory_ok [oks]: "passes (TestRename_non_empty_directory I opts)"
  apply (rule passesI, unfold TestRename_non_empty_directory_def Let_def, erule steps, clarsimp simp: run)
  apply (erule steps, clarsimp simp: run) 
  apply (erule steps, clarsimp simp: run) 
  apply (erule rename_foo_step, clarsimp simp: run)
  apply (erule steps, clarsimp simp: run) 
  apply (erule at_restI)
  done
lemma TestRename_ok [oks]: "passes (TestRename I opts)"
  by (rule passesI, unfold TestRename_def, (erule steps, clarsimp simp: oks)+)

lemma TestChtimes_ok [oks]: "passes (TestChtimes I opts)"
proof -
  have "opt_now opts - 60 * second \<noteq> 0" using now_law by simp
  then show ?thesis
    by (intro passesI) (unfold TestChtimes_def Let_def, (erule steps, clarsimp simp: oks Chtimes_change_ok)+)
qed

end

end
