(* ===== verification/FSTest_Suite.thy ===== *)
theory FSTest_Suite
  imports FSTest_Passes
begin

section \<open>The concurrent tests, and the suite as a whole\<close>

text \<open>
  The tasks of a concurrent test run in any order; an invariant of the tree, indexed by the tasks that are
  done, holds throughout. The suite runs its tests as parallel subtests, after its own function is done.
\<close>

lemma foo_d_facts:
  assumes "i < 10"
  shows "ValidPath (foo_d i)" "Dir (foo_d i) = dot" "foo_d i \<noteq> dot" "ancestors (foo_d i) = [foo_d i, dot]"
proof -
  have c: "i \<in> set [0..<10]" using assms by simp
  have "list_all (\<lambda>i. ValidPath (foo_d i) \<and> Dir (foo_d i) = dot \<and> foo_d i \<noteq> dot \<and> ancestors (foo_d i) = [foo_d i, dot]) [0..<10]"
    by code_simp
  then show "ValidPath (foo_d i)" "Dir (foo_d i) = dot" "foo_d i \<noteq> dot" "ancestors (foo_d i) = [foo_d i, dot]"
    using c by (auto simp: list_all_iff)
qed

lemma foo_d_inj: "i < 10 \<Longrightarrow> j < 10 \<Longrightarrow> foo_d i = foo_d j \<longleftrightarrow> i = j"
proof -
  assume ij: "i < 10" "j < 10"
  have "distinct (map foo_d [0..<10])" by code_simp
  then have "inj_on foo_d {0..<10}" by (simp only: distinct_map set_upt)
  then show ?thesis using ij by (auto simp: inj_on_def)
qed

definition flat :: "fs_tree \<Rightarrow> bool" where
  "flat T \<longleftrightarrow> is_dir T dot \<and> (\<forall>p nd. p \<noteq> dot \<longrightarrow> T p = Some nd \<longrightarrow> \<not> IsDir (n_mode nd))"

definition only_dirs :: "fs_tree \<Rightarrow> bool" where
  "only_dirs T \<longleftrightarrow> is_dir T dot \<and> (\<forall>p nd. T p = Some nd \<longrightarrow> IsDir (n_mode nd))"

context test_target
begin

lemma for_each_wp:
  assumes "at_state fs T X s" "P D T" "distinct xs" "set xs \<inter> D = {}"
    and "\<And>i D T s. i \<in> set xs \<Longrightarrow> i \<notin> D \<Longrightarrow> P D T \<Longrightarrow> at_state fs T X s \<Longrightarrow>
      wp (body i) s (\<lambda>_ s'. \<exists>T'. at_state fs T' X s' \<and> P (insert i D) T')"
  shows "wp (for_each xs body) s (\<lambda>_ s'. \<exists>T'. at_state fs T' X s' \<and> P (D \<union> set xs) T')"
  using assms
proof (induction xs arbitrary: s T D)
  case (Cons x xs)
  have "wp (body x) s (\<lambda>_ s'. \<exists>T'. at_state fs T' X s' \<and> P (insert x D) T')"
    using Cons.prems by (intro Cons.prems(5)) auto
  then show ?case unfolding for_each.simps
  proof (rule wp_seq [OF wp_mono])
    fix u s' assume "\<exists>T'. at_state fs T' X s' \<and> P (insert x D) T'"
    then obtain T' where T': "at_state fs T' X s'" "P (insert x D) T'" by blast
    have "wp (for_each xs body) s' (\<lambda>_ s'. \<exists>T'. at_state fs T' X s' \<and> P (insert x D \<union> set xs) T')"
      using Cons.prems by (intro Cons.IH [OF T']) auto
    then show "wp (for_each xs body) s' (\<lambda>_ s'. \<exists>T'. at_state fs T' X s' \<and> P (D \<union> set (x # xs)) T')" by simp
  qed
qed auto

lemma go_task_wp: "wp m s Q \<Longrightarrow> wp (go_task m) s Q"
  by (auto simp: wp_def go_task_def)

lemma tasks_wp:
  assumes "at_state fs T X s" "P {} T" "n = (if cnt = 0 then defaultConcurrentTasks else cnt)"
    and task: "\<And>i D T s. i < n \<Longrightarrow> i \<notin> D \<Longrightarrow> P D T \<Longrightarrow> at_state fs T X s \<Longrightarrow>
      wp (task i) s (\<lambda>_ s'. \<exists>T'. at_state fs T' X s' \<and> P (insert i D) T')"
  shows "wp (concurrentTasks opts cnt task) s (\<lambda>_. at_rest X)"
proof -
  let ?xs = "opt_sched opts n"
  have n: "0 < n" using assms(3) by (simp add: defaultConcurrentTasks_def)
  have xs: "distinct ?xs" "set ?xs = {1..<n}"
    using sched_law [of n] by (metis distinct_upt mset_eq_imp_distinct_iff, metis set_mset_mset set_upt)
  have "wp (seq (task 0) (\<lambda>_. for_each ?xs (\<lambda>i. go_task (task i)))) s (\<lambda>_. at_rest X)"
  proof (rule wp_seq [OF wp_mono [OF task [OF n _ assms(2,1)]]])
    fix u s' assume "\<exists>T'. at_state fs T' X s' \<and> P {0} T'"
    then obtain T' where T': "at_state fs T' X s'" "P {0} T'" by blast
    have "wp (for_each ?xs (\<lambda>i. go_task (task i))) s' (\<lambda>_ s'. \<exists>T'. at_state fs T' X s' \<and> P ({0} \<union> set ?xs) T')"
      using xs by (intro for_each_wp [where P = P, OF T']) (auto intro!: go_task_wp task)
    then show "wp (for_each ?xs (\<lambda>i. go_task (task i))) s' (\<lambda>_. at_rest X)"
      by (rule wp_mono) (auto intro: at_restI)
  qed auto
  then show ?thesis unfolding concurrentTasks_def Let_def assms(3) [symmetric] .
qed

lemma tasks_step:
  assumes "at_state fs T X s" "P {} T"
    and "\<And>i D T s. i < (if cnt = 0 then defaultConcurrentTasks else cnt) \<Longrightarrow> i \<notin> D \<Longrightarrow> P D T \<Longrightarrow> at_state fs T X s \<Longrightarrow>
      wp (task i) s (\<lambda>_ s'. \<exists>T'. at_state fs T' X s' \<and> P (insert i D) T')"
  shows "wp (seq (concurrentTasks opts cnt task) ret) s (\<lambda>_. at_rest X)"
  by (rule wp_seq [OF wp_mono [OF tasks_wp [where P = P, OF assms(1,2) refl assms(3)]]]) auto

lemma flat_create:
  assumes "flat T" "ValidPath p" "Dir p = dot" "p \<noteq> dot"
  shows "\<exists>nd. spec_OpenFile T p createFlags 0x1B6 t = (None, T(p \<mapsto> nd), True) \<and> flat (T(p \<mapsto> nd))"
proof -
  obtain r where r: "T dot = Some r" "IsDir (n_mode r)" using assms(1) by (auto simp: flat_def is_dir_def split: option.splits)
  show ?thesis
  proof (cases "T p")
    case None
    then show ?thesis using assms r by (auto simp: run flat_def)
  next
    case (Some nd)
    then have "\<not> IsDir (n_mode nd)" using assms by (auto simp: flat_def)
    then show ?thesis using assms r Some
      by (auto simp: run flat_def intro!: exI [of _ "if n_data nd = [] then nd else nd\<lparr>n_modTime := t, n_data := []\<rparr>"])
  qed
qed

lemma create_task_wp:
  assumes "at_state fs T X s" "flat T" "ValidPath p" "Dir p = dot" "p \<noteq> dot"
  shows "wp (create_task I tb fs p) s (\<lambda>_ s'. \<exists>T'. at_state fs T' X s' \<and> flat T' \<and> T' p \<noteq> None \<and> (\<forall>q. q \<noteq> p \<longrightarrow> T' q = T q))"
    (is "wp _ _ ?Q")
  unfolding create_task_def Create_is
proof (rule OpenFile_step [OF assms(1)])
  fix s' :: "('w, 'h) tst" and t f
  obtain nd where nd: "spec_OpenFile T p createFlags 0x1B6 t = (None, T(p \<mapsto> nd), True)" "flat (T(p \<mapsto> nd))"
    using flat_create [OF assms(2-5)] by blast
  assume "open_post fs (fst (snd (spec_OpenFile T p createFlags 0x1B6 t))) X s' f p createFlags (snd (snd (spec_OpenFile T p createFlags 0x1B6 t)))"
  then obtain n where n: "f = Some n" "at_file fs (T(p \<mapsto> nd)) X s' n p createFlags 0" by (auto simp: nd)
  show "wp (case (f, fst (spec_OpenFile T p createFlags 0x1B6 t)) of (f, err) \<Rightarrow>
     seq (skipNotImplemented tb err) (\<lambda>_.
     seq (if_then (assert_NoError tb err) (seq (assert_Close I tb f) (\<lambda>_. ret ()))) (\<lambda>_. ret ()))) s' ?Q"
    using n nd(2) by (simp add: nd(1) n(1) seval seval_defs seq_assoc) (erule Close_step, auto)
qed

lemma flat_root: "IsDir (n_mode root) \<Longrightarrow> flat [dot \<mapsto> root]"
  by (auto simp: flat_def is_dir_def split: if_splits)

lemma openCreate_is: "openCreate_task I tb fs p = create_task I tb fs p"
  by (simp add: openCreate_task_def create_task_def Create_is)

lemma setup_create_wp:
  assumes "at_state fs T X s" "flat T" "ValidPath p" "Dir p = dot" "p \<noteq> dot"
  shows "wp (setup_create I tb fs p) s (\<lambda>_ s'. \<exists>T'. at_state fs T' X s' \<and> flat T' \<and> T' p \<noteq> None \<and> (\<forall>q. q \<noteq> p \<longrightarrow> T' q = T q))"
    (is "wp _ _ ?Q")
  unfolding setup_create_def Create_is
proof (rule OpenFile_step [OF assms(1)])
  fix s' :: "('w, 'h) tst" and t f
  obtain nd where nd: "spec_OpenFile T p createFlags 0x1B6 t = (None, T(p \<mapsto> nd), True)" "flat (T(p \<mapsto> nd))"
    using flat_create [OF assms(2-5)] by blast
  assume "open_post fs (fst (snd (spec_OpenFile T p createFlags 0x1B6 t))) X s' f p createFlags (snd (snd (spec_OpenFile T p createFlags 0x1B6 t)))"
  then obtain n where n: "f = Some n" "at_file fs (T(p \<mapsto> nd)) X s' n p createFlags 0" by (auto simp: nd)
  show "wp (case (f, fst (spec_OpenFile T p createFlags 0x1B6 t)) of (f, err) \<Rightarrow>
     seq (if_then (assert_NoError tb err) (seq (assert_Close I tb f) (\<lambda>_. ret ()))) (\<lambda>_. ret ())) s' ?Q"
    using n nd(2) by (simp add: nd(1) n(1) seval seval_defs seq_assoc) (erule Close_step, auto)
qed

lemma create_same_ok [oks]: "passes (TestConcurrentCreate_same_file_path I opts)"
  by (rule passesI, unfold TestConcurrentCreate_same_file_path_def, erule steps, clarsimp,
      erule tasks_step [where P = "\<lambda>_. flat", OF _ flat_root])
    (auto intro!: wp_mono [OF create_task_wp] simp: seval)

lemma create_different_ok [oks]: "passes (TestConcurrentCreate_different_file_paths I opts)"
  by (rule passesI, unfold TestConcurrentCreate_different_file_paths_def, erule steps, clarsimp,
      erule tasks_step [where P = "\<lambda>_. flat", OF _ flat_root])
    (auto intro!: wp_mono [OF create_task_wp] simp: foo_d_facts defaultConcurrentTasks_def)

lemma openCreate_same_ok [oks]: "passes (TestConcurrentOpenFileCreate_same_file_path I opts)"
  using create_same_ok unfolding TestConcurrentOpenFileCreate_same_file_path_def TestConcurrentCreate_same_file_path_def openCreate_is .
lemma openCreate_different_ok [oks]: "passes (TestConcurrentOpenFileCreate_different_file_paths I opts)"
  using create_different_ok unfolding TestConcurrentOpenFileCreate_different_file_paths_def TestConcurrentCreate_different_file_paths_def openCreate_is .
end

lemma flat_del: "flat T \<Longrightarrow> p \<noteq> dot \<Longrightarrow> flat (T(p := None))"
  by (auto simp: flat_def is_dir_def)

lemma flat_file: "flat T \<Longrightarrow> T ''foo'' = Some nd \<Longrightarrow> \<not> IsDir (n_mode nd)"
  by (auto simp: flat_def)

lemma only_dirs_put: "only_dirs T \<Longrightarrow> only_dirs (T(p \<mapsto> dir_node m t))"
  by (auto simp: only_dirs_def is_dir_def split: option.splits)

lemma only_dirs_sel: "only_dirs T \<Longrightarrow> T dot \<noteq> None" "only_dirs T \<Longrightarrow> T p = Some nd \<Longrightarrow> IsDir (n_mode nd)"
  by (auto simp: only_dirs_def is_dir_def split: option.splits)

lemma only_dirs_root: "IsDir (n_mode root) \<Longrightarrow> only_dirs [dot \<mapsto> root]"
  by (auto simp: only_dirs_def is_dir_def split: if_splits)

context test_target
begin

lemma remove_same_ok [oks]: "passes (TestConcurrentRemove_same_file_path I opts)"
  apply (rule passesI, unfold TestConcurrentRemove_same_file_path_def, erule steps, clarsimp)
  apply (rule wp_seq, rule wp_mono, erule setup_create_wp)
  apply (auto simp: flat_root seval)[4]
  apply clarsimp
  apply (erule tasks_step [where P = "\<lambda>_. flat"])
  apply assumption
  apply (erule Remove_step)
  apply (fastforce simp: spec_Remove_def spec_get_def seval seval_defs split: option.splits intro: flat_del dest: flat_file)
  done

definition unremoved :: "nat set \<Rightarrow> fs_tree \<Rightarrow> bool" where
  "unremoved D T \<longleftrightarrow> flat T \<and> (\<forall>j < 10. j \<notin> D \<longrightarrow> T (foo_d j) \<noteq> None)"

lemma remove_task_wp:
  assumes "i < 10" "i \<notin> D" "unremoved D T" "at_state fs T X s"
  shows "wp (seq (fs_call1 (Remove I fs (foo_d i))) (\<lambda>err.
          seq (skipNotImplemented tb err) (\<lambda>_.
          seq (assert_NoError tb err) (\<lambda>_. ret ())))) s (\<lambda>_ s'. \<exists>T'. at_state fs T' X s' \<and> unremoved (insert i D) T')"
proof (rule Remove_step [OF assms(4)])
  obtain nd where nd: "T (foo_d i) = Some nd" "\<not> IsDir (n_mode nd)"
    using assms(1-3) foo_d_facts(3) [OF assms(1)] by (fastforce simp: unremoved_def flat_def)
  then have sp: "spec_Remove T (foo_d i) = (None, T(foo_d i := None))"
    using foo_d_facts(1) [OF assms(1)] by (simp add: spec_Remove_def spec_get_def)
  have u: "unremoved (insert i D) (T(foo_d i := None))"
    using assms(1,3) foo_d_facts(3) [OF assms(1)] by (auto simp: unremoved_def flat_def is_dir_def foo_d_inj)
  fix s' assume "at_state fs (snd (spec_Remove T (foo_d i))) X s'"
  then show "wp (seq (skipNotImplemented tb (fst (spec_Remove T (foo_d i)))) (\<lambda>_.
          seq (assert_NoError tb (fst (spec_Remove T (foo_d i)))) (\<lambda>_. ret ()))) s' (\<lambda>_ s'. \<exists>T'. at_state fs T' X s' \<and> unremoved (insert i D) T')"
    using u by (auto simp: sp seval seval_defs)
qed

definition created :: "nat set \<Rightarrow> fs_tree \<Rightarrow> bool" where
  "created D T \<longleftrightarrow> flat T \<and> (\<forall>j \<in> D. T (foo_d j) \<noteq> None)"

lemma setup_creates:
  assumes "at_state fs [dot \<mapsto> root] X s" "IsDir (n_mode root)"
  shows "wp (for_each [0..<10] (\<lambda>i. setup_create I tb fs (foo_d i))) s (\<lambda>_ s'. \<exists>T'. at_state fs T' X s' \<and> created {0..<10} T')"
proof -
  have "wp (for_each [0..<10] (\<lambda>i. setup_create I tb fs (foo_d i))) s (\<lambda>_ s'. \<exists>T'. at_state fs T' X s' \<and> created ({} \<union> set [0..<10]) T')"
  proof (rule for_each_wp [where P = created, OF assms(1)])
    fix i D T s assume *: "i \<in> set [0..<10]" "created D T" "at_state fs T X s"
    then have i: "i < 10" by simp
    show "wp (setup_create I tb fs (foo_d i)) s (\<lambda>_ s'. \<exists>T'. at_state fs T' X s' \<and> created (insert i D) T')"
      using * by (intro wp_mono [OF setup_create_wp [OF *(3) _ foo_d_facts(1-3) [OF i]]])
         (metis (no_types, lifting) created_def insertE)+
  qed (use assms(2) in \<open>auto simp: created_def flat_root\<close>)
  then show ?thesis by simp
qed

lemma remove_different_ok [oks]: "passes (TestConcurrentRemove_different_file_paths I opts)"
  apply (rule passesI, unfold TestConcurrentRemove_different_file_paths_def Let_def defaultConcurrentTasks_def, erule steps, clarsimp)
  apply (rule wp_seq, rule wp_mono, erule (1) setup_creates)
  apply clarsimp
  apply (erule tasks_step [where P = unremoved])
   apply (simp add: unremoved_def created_def)
  using remove_task_wp apply simp
  done

lemma mkdir_same_ok [oks]: "passes (TestConcurrentMkdir_same_file_path I opts)"
  apply (rule passesI, unfold TestConcurrentMkdir_same_file_path_def, erule steps, clarsimp)
  apply (erule tasks_step [where P = "\<lambda>_. only_dirs"])
   apply (erule only_dirs_root)
  apply (erule Mkdir_step)
  apply (auto simp: spec_Mkdir_def spec_get_def seval seval_defs split: option.splits dest: only_dirs_sel intro: only_dirs_put)
  done

definition unmade :: "nat set \<Rightarrow> fs_tree \<Rightarrow> bool" where
  "unmade D T \<longleftrightarrow> T dot \<noteq> None \<and> (\<forall>j < 10. j \<notin> D \<longrightarrow> T (foo_d j) = None)"

lemma mkdir_different_ok [oks]: "passes (TestConcurrentMkdir_different_file_paths I opts)"
  apply (rule passesI, unfold TestConcurrentMkdir_different_file_paths_def, erule steps, clarsimp)
  apply (erule tasks_step [where P = unmade])
   apply (auto simp: unmade_def foo_d_facts)[1]
  apply (erule Mkdir_step)
  apply (auto simp: defaultConcurrentTasks_def foo_d_facts foo_d_inj unmade_def spec_Mkdir_def spec_get_def seval seval_defs split: option.splits)
  done

lemma mkdirAll_task_wp:
  assumes "at_state fs T X s" "only_dirs T" "ValidPath p" "ancestors p = [p, dot]"
  shows "wp (mkdirAll_task I tb fs p) s (\<lambda>_ s'. \<exists>T'. at_state fs T' X s' \<and> only_dirs T')"
  unfolding mkdirAll_task_def
  apply (rule MkdirAll_step [OF assms(1)])
  using assms(2-4)
  apply (auto simp: spec_MkdirAll_def seval seval_defs split: option.splits dest: only_dirs_sel intro: only_dirs_put)
  done

lemma mkdirAll_same_ok [oks]: "passes (TestConcurrentMkdirAll_same_file_path I opts)"
  apply (rule passesI, unfold TestConcurrentMkdirAll_same_file_path_def, erule steps, clarsimp)
  apply (erule tasks_step [where P = "\<lambda>_. only_dirs"])
   apply (erule only_dirs_root)
  apply (erule mkdirAll_task_wp)
  apply (auto simp: seval)
  done
lemma mkdirAll_different_ok [oks]: "passes (TestConcurrentMkdirAll_different_file_paths I opts)"
  apply (rule passesI, unfold TestConcurrentMkdirAll_different_file_paths_def, erule steps, clarsimp)
  apply (erule tasks_step [where P = "\<lambda>_. only_dirs"])
   apply (erule only_dirs_root)
  apply (erule mkdirAll_task_wp)
  apply (auto simp: foo_d_facts defaultConcurrentTasks_def)
  done
lemma conc_oks [oks]: "passes (TestConcurrentCreate I opts)" "passes (TestConcurrentOpenFileCreate I opts)"
  "passes (TestConcurrentMkdir I opts)" "passes (TestConcurrentMkdirAll I opts)" "passes (TestConcurrentRemove I opts)"
  unfolding TestConcurrentCreate_def TestConcurrentOpenFileCreate_def TestConcurrentMkdir_def TestConcurrentMkdirAll_def TestConcurrentRemove_def
  by (rule passesI, (erule steps, clarsimp simp: oks)+)+
end

text \<open>A subtest that has called \<open>Parallel\<close>: what runs when the function of its parent is done.\<close>

definition parallel_rest where
  "parallel_rest I opts tb nt s =
     do {
       (r, s) \<leftarrow> t_exec (close_cleanup I) tb (fst nt) (tbRunInner opts (snd nt)) s;
       (case r of Exit l \<Rightarrow> if l = Suc tb then Some s else None | Ret _ \<Rightarrow> Some s)
     }"

lemma tbRun_parallel:
  assumes "tb_kind tb s = TestT" "ShouldSkip opts = Some (\<lambda>_. False)"
  shows "tbRun I opts True tb name test s = Some (Ret (), s, [parallel_rest I opts tb (name, test)])"
  using assms by (simp add: tbRun_def t_Run_def tbParallel_def parallel_rest_def [abs_def])

lemma t_exec_runs:
  assumes "on_top tb X" "ShouldSkip opts = Some (\<lambda>_. False)" "at_rest X s"
    and "test (Suc tb) (push_frame tb name s) = Some (Ret (), s1, ps)" "run_parallel ps s1 = Some s2"
    and "at_rest (fst X @ [new_frame TestT (fullName (tb_Name tb s) name)], M1) s1"
    and "at_rest (fst X @ [new_frame TestT (fullName (tb_Name tb s) name)], M2) s2"
  shows "\<exists>s'. t_exec (close_cleanup I) tb name (tbRunInner opts test) s = Some (Ret (), s') \<and> at_rest (fst X, M2) s'"
proof -
  let ?n = "new_frame TestT (fullName (tb_Name tb s) name)"
  have l: "length (fst X) = Suc tb" using assms(1) by (simp add: on_top_def)
  have top: "t_stack s1 ! Suc tb = ?n" "t_stack s2 ! Suc tb = ?n" "Suc tb < length (t_stack s2)"
    using assms(6,7) l by (simp_all add: at_rest_def nth_append)
  have "tbRunInner opts test (Suc tb) (push_frame tb name s) = Some (Ret (), s1, ps)"
    using assms(2,4) top by (simp add: tbRunInner_def defer_skip_def Let_def)
  moreover have "upd_frame (Suc tb) (fr_cleanup_update (\<lambda>_. [])) s2 = s2"
    using top by (intro upd_same) (auto simp: new_frame_def)
  ultimately have "t_round (close_cleanup I) (Suc tb) (tbRunInner opts test) (push_frame tb name s) = Some (Ret (), s2)"
    using assms(5) top by (simp add: t_round_def)
  moreover have "at_rest (fst X, M2) (pop_frame tb s2)"
    using assms(7) l by (simp add: at_rest_def pop_frame_def)
  ultimately show ?thesis by (simp add: t_exec_def)
qed

lemma parallel_passes:
  assumes "passes (snd nt)" "ShouldSkip opts = Some (\<lambda>_. False)" "at_rest X s" "on_top tb X"
  shows "\<exists>s'. parallel_rest I opts tb nt s = Some s' \<and> at_rest X s'"
proof -
  let ?n = "new_frame TestT (fullName (tb_Name tb s) (fst nt))" and ?s = "push_frame tb (fst nt) s"
  have p: "at_rest (fst X @ [?n], snd X) ?s" using push_stack assms(3,4) by blast
  obtain s' where s': "snd nt (Suc tb) ?s = Some (Ret (), s', [])" "at_rest (fst X @ [?n], snd X) s'"
    using passesD [OF assms(1) p, of "Suc tb"] assms(4) by (auto simp: wp_def on_top_def nth_append)
  from t_exec_runs [where test = "snd nt" and name = "fst nt" and I = I, OF assms(4,2,3) s'(1) _ s'(2) s'(2)]
  show ?thesis by (auto simp: parallel_rest_def)
qed

lemma run_parallel_append: "run_parallel (ps @ qs) s = Option.bind (run_parallel ps s) (run_parallel qs)"
  by (induction ps arbitrary: s) (auto split: Option.bind_splits)

lemma run_parallel_passes:
  assumes "list_all (\<lambda>nt. passes (snd nt)) nts" "ShouldSkip opts = Some (\<lambda>_. False)" "at_rest X s" "on_top tb X"
  shows "\<exists>s'. run_parallel (map (parallel_rest I opts tb) nts) s = Some s' \<and> at_rest X s'"
  using assms
proof (induction nts arbitrary: s)
  case (Cons nt nts)
  obtain s1 where "parallel_rest I opts tb nt s = Some s1" "at_rest X s1"
    using parallel_passes [of nt opts X s tb I] Cons.prems by auto
  then show ?case using Cons by auto
qed simp

definition fs_tests1 where
  "fs_tests1 I opts =
    [(''base fs.Create'', TestBaseCreate I opts), (''base fs.Mkdir'', TestBaseMkdir I opts),
     (''base fs.Chmod'', TestBaseChmod I opts), (''base fs.Chtimes'', TestBaseChtimes I opts)]"

definition fs_tests2 where
  "fs_tests2 I opts =
    [(''fs.Chtimes'', TestChtimes I opts), (''fs.Create'', TestCreate I opts), (''fs.Mkdir'', TestMkdir I opts),
     (''fs.MkdirAll'', TestMkdirAll I opts), (''fs.Open'', TestOpen I opts), (''fs.OpenFile'', TestOpenFile I opts),
     (''fs.ReadDir'', TestReadDir I opts), (''fs.ReadFile'', TestReadFile I opts), (''fs.Remove'', TestRemove I opts),
     (''fs.RemoveAll'', TestRemoveAll I opts), (''fs.Rename'', TestRename I opts), (''fs.Stat'', TestStat I opts),
     (''fs.WriteFile'', TestWriteFile I opts), (''fs_concurrent.Create'', TestConcurrentCreate I opts),
     (''fs_concurrent.OpenFileCreate'', TestConcurrentOpenFileCreate I opts), (''fs_concurrent.Mkdir'', TestConcurrentMkdir I opts),
     (''fs_concurrent.MkdirAll'', TestConcurrentMkdirAll I opts), (''fs_concurrent.Remove'', TestConcurrentRemove I opts)]"

lemma seq_more: "m s = Some (Ret x, s', ps) \<Longrightarrow> f x s' = Some (r, s'', qs) \<Longrightarrow> seq m f s = Some (r, s'', ps @ qs)"
  by (simp add: seq_def)

lemma runFS_starts:
  assumes "tb_kind tb s = TestT" "ShouldSkip opts = Some (\<lambda>_. False)"
  shows "runFS I opts tb s = Some (Ret (), s,
    map (parallel_rest I opts tb) (fs_tests1 I opts @ (''fs.Chmod'', TestChmod I opts) # fs_tests2 I opts))"
  unfolding runFS_def runner_Run_def
  by (rule trans, (rule seq_more, rule tbRun_parallel, fact, fact)+, rule ret_def, simp add: fs_tests1_def fs_tests2_def)

text \<open>The maps of skipped tests after the test \<open>n\<close> was skipped, and the test that needs symbolic links.\<close>

definition with_skip :: "nat \<Rightarrow> string \<Rightarrow> Facets list list \<Rightarrow> Facets list list" where
  "with_skip m n M = M[m := List.insert \<lparr>fct_Name = n\<rparr> (M ! m)]"

abbreviation symlink_test :: "string \<Rightarrow> string" where
  "symlink_test n \<equiv> fullName (fullName n ''fs.Chmod'') ''change symlink target permission bits''"

text \<open>The entry points start the suite as one parallel subtest.\<close>

lemma suite_starts:
  assumes "opt_Name options \<noteq> []" "TestFS options \<noteq> None \<or> Setup options \<noteq> None" "ShouldSkip options = None"
    and "tb_kind tb s = TestT" "d = with_defaults (length (t_maps s)) options"
  shows "fstest_FS I tb options s = Some (Ret \<lparr>Skips = []\<rparr>, s\<lparr>t_maps := t_maps s @ [[]]\<rparr>,
      [parallel_rest I d tb (opt_Name options @ ''_FS'', runFS I d)])"
    and "fstest_File I tb options s = Some (Ret \<lparr>Skips = []\<rparr>, s\<lparr>t_maps := t_maps s @ [[]]\<rparr>,
      [parallel_rest I d tb (opt_Name options @ ''_File'', runFile I d)])"
proof -
  let ?s = "s\<lparr>t_maps := t_maps s @ [[]]\<rparr>"
  have k: "tb_kind tb ?s = TestT" using assms(4) by (simp add: tb_kind_def)
  have d: "ShouldSkip d = Some (\<lambda>_. False)" "skippedTests d = length (t_maps s)" "opt_Name d = opt_Name options"
    using assms(3,5) by (simp_all add: with_defaults_def)
  have g: "generateTestData d ?s = Some (Ret \<lparr>Skips = []\<rparr>, ?s, [])"
    by (simp add: generateTestData_def d(2) ret_def)
  note so = setupOptions_ok [OF assms(1,2), of s, folded assms(5)]
  show "fstest_FS I tb options s = Some (Ret \<lparr>Skips = []\<rparr>, ?s, [parallel_rest I d tb (opt_Name options @ ''_FS'', runFS I d)])"
    "fstest_File I tb options s = Some (Ret \<lparr>Skips = []\<rparr>, ?s, [parallel_rest I d tb (opt_Name options @ ''_File'', runFile I d)])"
    using g by (simp_all add: fstest_FS_def fstest_File_def so d(3) seq_def tbRun_parallel [OF k d(1)])
qed

context test_target
begin

lemma fs_tests_pass: "list_all (\<lambda>nt. passes (snd nt)) (fs_tests1 I opts)" "list_all (\<lambda>nt. passes (snd nt)) (fs_tests2 I opts)"
  by (simp_all add: fs_tests1_def fs_tests2_def oks)

lemma Chmod_parallel:
  assumes "at_rest X s" "on_top tb X"
  shows "\<exists>s'. parallel_rest I opts tb (''fs.Chmod'', TestChmod I opts) s = Some s'
    \<and> at_rest (fst X, with_skip (skippedTests opts) (symlink_test (fr_name (fst X ! tb))) (snd X)) s'"
proof -
  let ?N = "fullName (tb_Name tb s) ''fs.Chmod''" and ?s = "push_frame tb ''fs.Chmod'' s"
  let ?n = "new_frame TestT ?N"
  have l: "length (fst X) = Suc tb" using assms(2) by (simp add: on_top_def)
  have N: "tb_Name tb s = fr_name (fst X ! tb)" using assms(1) by (simp add: tb_Name_def at_rest_def)
  have p: "at_rest (fst X @ [?n], snd X) ?s" using push_stack assms by blast
  obtain s' where s': "TestChmod I opts (Suc tb) ?s = Some (Ret (), s', [])"
      "at_rest (fst X @ [?n], with_skip (skippedTests opts) (symlink_test (fr_name (fst X ! tb))) (snd X)) s'"
    using TestChmod_runs [OF p, of "Suc tb"] l
    by (auto simp: wp_def on_top_def nth_append at_rest_def with_skip_def N [symmetric])
  from t_exec_runs [where test = "TestChmod I opts" and name = "''fs.Chmod''" and I = I, OF assms(2) ShouldSkip_law assms(1) s'(1) _ s'(2) s'(2)]
  show ?thesis by (auto simp: parallel_rest_def)
qed

lemma runFS_parallel:
  assumes "at_rest X s" "on_top tb X"
  shows "\<exists>s'. parallel_rest I opts tb (name, runFS I opts) s = Some s'
    \<and> at_rest (fst X, with_skip (skippedTests opts) (symlink_test (fullName (fr_name (fst X ! tb)) name)) (snd X)) s'"
proof -
  let ?N = "fullName (tb_Name tb s) name" and ?s = "push_frame tb name s"
  let ?n = "new_frame TestT ?N"
  let ?Y = "(fst X @ [?n], snd X)" and ?Z = "(fst X @ [?n], with_skip (skippedTests opts) (symlink_test ?N) (snd X))"
  note p = push_stack [OF assms(2,1), of name]
  have top: "on_top (Suc tb) ?Y" "on_top (Suc tb) ?Z" using assms(2) by (simp_all add: on_top_def nth_append)
  have k: "tb_kind (Suc tb) ?s = TestT" using p assms(2) by (simp add: tb_kind_def at_rest_def on_top_def nth_append)
  have N: "fr_name (fst ?Y ! Suc tb) = ?N" "tb_Name tb s = fr_name (fst X ! tb)"
    using assms by (simp_all add: on_top_def nth_append tb_Name_def at_rest_def)
  obtain s1 where s1: "run_parallel (map (parallel_rest I opts (Suc tb)) (fs_tests1 I opts)) ?s = Some s1" "at_rest ?Y s1"
    using run_parallel_passes [OF fs_tests_pass(1) ShouldSkip_law p top(1), of I] by blast
  obtain s2 where s2: "parallel_rest I opts (Suc tb) (''fs.Chmod'', TestChmod I opts) s1 = Some s2" "at_rest ?Z s2"
    using Chmod_parallel [OF s1(2) top(1)] N(1) by auto
  obtain s3 where s3: "run_parallel (map (parallel_rest I opts (Suc tb)) (fs_tests2 I opts)) s2 = Some s3" "at_rest ?Z s3"
    using run_parallel_passes [OF fs_tests_pass(2) ShouldSkip_law s2(2) top(2), of I] by blast
  have r: "run_parallel (map (parallel_rest I opts (Suc tb)) (fs_tests1 I opts @ (''fs.Chmod'', TestChmod I opts) # fs_tests2 I opts)) ?s = Some s3"
    using s1(1) s2(1) s3(1) by (simp add: run_parallel_append)
  from t_exec_runs [where test = "runFS I opts" and name = name and I = I, OF assms(2) ShouldSkip_law assms(1) runFS_starts [OF k ShouldSkip_law] r p s3(2)]
  show ?thesis by (auto simp: parallel_rest_def N(2))
qed

end

end
