(* ===== verification/FSTest_Mem.thy ===== *)
theory FSTest_Mem
  imports FSTest_Suite
begin

section \<open>\<open>mem.FS\<close> passes the suite (\<open>mem/fs_test.go\<close>)\<close>

text \<open>
  The in-memory file system keeps the contract \<open>test_target\<close>: every law comes from the lemmas of
  \<open>kv_store\<close> on the store of package \<open>mem\<close>. So the whole suite \<open>fstest.FS\<close> passes.
\<close>

text \<open>The methods of \<open>FileInfo\<close> and \<open>DirEntry\<close> that the suite calls.\<close>

definition mem_info_methods where
  "mem_info_methods = test_iface.fields
     (\<lambda>(i :: nat, info). info_IsDir mem_ops info) (\<lambda>(i :: nat, info). info_ModTime mem_ops info) (\<lambda>(i :: nat, info). info_Sys info)
     (\<lambda>(i :: nat, d). dirEntry_IsDir mem_ops d) (\<lambda>(i :: nat, d). dirEntry_Type mem_ops d)
     (\<lambda>(i :: nat, d) (W :: mems). Some (map_sum id (Pair i) (dirEntry_Info d), W))"

definition mem_tiface :: "(nat \<Rightarrow> nat) \<Rightarrow> (nat, mem_file, mem_info, mem_entry, mems) test_iface" where
  "mem_tiface cap = mem_with cap mem_info_methods"

lemma mem_tiface_sel [simp]:
  "in_Name (mem_tiface cap) = (\<lambda>(i, info). info_Name info)"
  "in_IsDir (mem_tiface cap) = (\<lambda>(i, info). info_IsDir mem_ops info)"
  "in_ModTime (mem_tiface cap) = (\<lambda>(i, info). info_ModTime mem_ops info)"
  "in_Sys (mem_tiface cap) = (\<lambda>(i, info). info_Sys info)"
  "de_IsDir (mem_tiface cap) = (\<lambda>(i, d). dirEntry_IsDir mem_ops d)"
  "de_Type (mem_tiface cap) = (\<lambda>(i, d). dirEntry_Type mem_ops d)"
  "de_Info (mem_tiface cap) = (\<lambda>(i, d) W. Some (map_sum id (Pair i) (dirEntry_Info d), W))"
  by (simp_all add: mem_tiface_def mem_info_methods_def mem_with_def test_iface.fields_def)

lemma mem_with_sel [simp]:
  "i_Chmod (mem_with cap z) = (\<lambda>i. Some (\<lambda>name mode. run_err i (mem_Chmod name mode)))"
  "i_Chtimes (mem_with cap z) = (\<lambda>i. Some (\<lambda>name atime mtime. run_err i (mem_Chtimes name atime mtime)))"
  "i_Create (mem_with cap z) = (\<lambda>_. None)" "i_Symlink (mem_with cap z) = (\<lambda>_. None)"
  by (simp_all add: mem_with_def)

text \<open>The file system of every test is a new one.\<close>

definition fresh_world :: "(string list \<Rightarrow> string list) \<Rightarrow> (nat \<Rightarrow> nat) \<Rightarrow> (nat \<Rightarrow> time) \<Rightarrow> mworld" where
  "fresh_world order grow clock = \<lparr>w_heap = empty_heap grow, w_clock = clock, w_tick = 0, w_store = newStore order\<rparr>"

definition mem_TestFS ::
  "(string list \<Rightarrow> string list) \<Rightarrow> (nat \<Rightarrow> nat) \<Rightarrow> (nat \<Rightarrow> time) \<Rightarrow> nat \<Rightarrow> ((mems, mem_file) tst, nat) prog" where
  "mem_TestFS order grow clock tb =
     seq (fs_call1 (\<lambda>W. do { (err, w) \<leftarrow> mem_NewFS (fresh_world order grow clock); Some (err, W(0 := w)) })) (\<lambda>err.
     seq (assert_NoError tb err) (\<lambda>ok.
     seq (if \<not> ok then tb_FailNow tb else ret ()) (\<lambda>_.
     ret 0)))"

definition mem_options ::
  "(string list \<Rightarrow> string list) \<Rightarrow> (nat \<Rightarrow> nat) \<Rightarrow> (nat \<Rightarrow> time) \<Rightarrow> file_mode \<Rightarrow> time \<Rightarrow> (nat \<Rightarrow> nat list) \<Rightarrow>
   (nat, (mems, mem_file) tst) FSOptions" where
  "mem_options order grow clock m t sched =
     \<lparr>opt_Name = ''mem'', TestFS = Some (mem_TestFS order grow clock), Setup = None,
      opt_Constraints = \<lparr>FileModeMask = m, AllowErrPathPrefix = False\<rparr>,
      ShouldSkip = None, skippedTests = 0, opt_now = t, opt_sched = sched\<rparr>"

lemma fresh_ok: "\<forall>xs. mset (order xs) = mset xs \<Longrightarrow> \<forall>n. clock n \<noteq> 0 \<Longrightarrow> mem_ok (fresh_world order grow clock)"
  by (simp add: mem_ok_def fs_ok_def mem_idle_def store_ok_def newStore_def mem_lookup_def unshared_def
      fresh_world_def)

lemma fresh_tree: "mem_tree (fresh_world order grow clock) = Map.empty"
  by (rule ext) (simp add: mem_tree_def tree_of_def mem_lookup_def newStore_def fresh_world_def)

lemma mem_TestFS_runs:
  assumes "\<forall>xs. mset (order xs) = mset xs" "\<forall>n. clock n \<noteq> 0"
  shows "\<exists>w t. mem_TestFS order grow clock tb s = Some (Ret 0, s\<lparr>t_world := (t_world s)(0 := w)\<rparr>, [])
    \<and> mem_ok w \<and> mem_tree w = [dot \<mapsto> dir_node 0x1B6 t]"
proof -
  let ?w = "fresh_world order grow clock"
  obtain w where "mem_NewFS ?w = Some (None, w)" "mem_ok w" "mem_tree w = [dot \<mapsto> dir_node 0x1B6 (now ?w)]"
    using mem.NewFS_root [OF fresh_ok [OF assms, of grow, unfolded mem_ok_def]] fresh_tree [of order grow clock]
    unfolding mem_abs_defs mem_FS_defs by auto
  then show ?thesis by (auto simp: mem_TestFS_def seq_def fs_call1_def ret_def asserts)
qed

text \<open>A file that was opened with flags \<open>fl\<close> at path \<open>p\<close> and stands at \<open>off\<close>.\<close>

definition mem_at :: "nat \<Rightarrow> mems \<Rightarrow> mem_file \<Rightarrow> string \<Rightarrow> flag \<Rightarrow> int \<Rightarrow> bool" where
  "mem_at i W h p fl off \<longleftrightarrow>
     (\<exists>f nd. h = (i, open_kind fl f) \<and> mem_tree (W i) p = Some nd \<and> mem_attached (W i) f p (n_mode nd) (n_modTime nd)
       \<and> f_offset f = off \<and> f_flag f = fl)"

lemma info_is_mem: "info_shows mem_ops info (W i) p nd \<Longrightarrow> info_is (mem_tiface cap) (i, info) p nd W"
  by (auto simp: info_is_def info_shows_def info_IsDir_def) (simp_all add: mem_tiface_def)

lemma test_ReadDir:
  assumes "mem_ok (W i)" "is_dir (mem_tree (W i)) p"
  shows "\<exists>ds W'. ReadDir (mem_tiface cap) i p W = Some (ds, None, W') \<and> mem_ok (W' i) \<and> mem_tree (W' i) = mem_tree (W i)
     \<and> w_heap (W' i) = w_heap (W i)
     \<and> sorted (map (de_Name (mem_tiface cap)) ds) \<and> distinct (map (de_Name (mem_tiface cap)) ds)
     \<and> set (map (de_Name (mem_tiface cap)) ds) = children (mem_tree (W i)) p
     \<and> (\<forall>d \<in> set ds. \<exists>nd. mem_tree (W i) (Join [p, de_Name (mem_tiface cap) d]) = Some nd
             \<and> (\<forall>U. w_heap (U i) = w_heap (W' i) \<longrightarrow> entry_is (mem_tiface cap) d (Join [p, de_Name (mem_tiface cap) d]) nd U))"
proof -
  obtain ds w' where r: "ReadDir (mem_tiface cap) i p W = Some (ds, None, W(i := w'))" "mem_ok w'" "mem_tree w' = mem_tree (W i)"
      "sorted (map (de_baseName \<circ> snd) ds)" "distinct (map (de_baseName \<circ> snd) ds)"
      "set (map (de_baseName \<circ> snd) ds) = children (mem_tree (W i)) p" "w_heap w' = w_heap (W i)"
      "\<forall>d \<in> set ds. fst d = i \<and> (\<exists>nd. mem_tree (W i) (Join [p, de_baseName (snd d)]) = Some nd
          \<and> info_shows mem_ops (de_info (snd d)) (W i) (Join [p, de_baseName (snd d)]) nd)"
    using mem_ReadDir_run [of W i p cap mem_info_methods, OF assms, folded mem_tiface_def] by (elim exE conjE) (rule that)
  have n: "de_Name (mem_tiface cap) = de_baseName \<circ> snd" by (simp add: mem_tiface_def)
  have es: "entry_is (mem_tiface cap) (i, d) q nd U"
    if "info_shows mem_ops (de_info d) (W i) q nd" "w_heap (U i) = w_heap (W i)" for d q nd U
  proof -
    have sh: "info_shows mem_ops (de_info d) (U i) q nd" using mem.info_shows_heap that by blast
    then show ?thesis using info_is_mem [of "de_info d" U i q nd cap, OF sh]
      by (auto simp: entry_is_def dirEntry_IsDir_def dirEntry_Type_def dirEntry_Info_def info_shows_def)
  qed
  have "\<forall>d \<in> set ds. \<exists>nd. mem_tree (W i) (Join [p, de_Name (mem_tiface cap) d]) = Some nd
       \<and> (\<forall>U. w_heap (U i) = w_heap w' \<longrightarrow> entry_is (mem_tiface cap) d (Join [p, de_Name (mem_tiface cap) d]) nd U)"
  proof
    fix d assume "d \<in> set ds"
    with r(8) have *: "fst d = i \<and> (\<exists>nd. mem_tree (W i) (Join [p, de_baseName (snd d)]) = Some nd
          \<and> info_shows mem_ops (de_info (snd d)) (W i) (Join [p, de_baseName (snd d)]) nd)" by (rule bspec)
    then obtain b nd where d: "d = (i, b)" "mem_tree (W i) (Join [p, de_baseName b]) = Some nd"
        "info_shows mem_ops (de_info b) (W i) (Join [p, de_baseName b]) nd"
      by (cases d) auto
    then show "\<exists>nd. mem_tree (W i) (Join [p, de_Name (mem_tiface cap) d]) = Some nd
       \<and> (\<forall>U. w_heap (U i) = w_heap w' \<longrightarrow> entry_is (mem_tiface cap) d (Join [p, de_Name (mem_tiface cap) d]) nd U)"
      using es [OF d(3)] r(7) by (simp add: n)
  qed
  then show ?thesis using r(1-7) n by (intro exI [of _ ds] exI [of _ "W(i := w')"]) simp
qed

abbreviation tI :: "(nat \<Rightarrow> nat) \<Rightarrow> (nat, mem_file, mem_info, mem_entry, mems) test_iface" where
  "tI \<equiv> mem_tiface"

lemma test_Stat:
  assumes "mem_ok (W i)"
  shows "\<exists>r W'. Stat (tI cap) i p W = Some (r, W') \<and> mem_ok (W' i) \<and> mem_tree (W' i) = mem_tree (W i)
      \<and> (case spec_get (mem_tree (W i)) p of
           Inl e \<Rightarrow> r = Inl (PathError ''stat'' p e)
         | Inr nd \<Rightarrow> (\<exists>i. r = Inr i \<and> info_is (tI cap) i p nd W'))"
proof -
  obtain r w' where st: "mem_Stat p (W i) = Some (r, w')" "mem_ok w'" "mem_tree w' = mem_tree (W i)"
      "stat_shows mem_ops r w' p (mem_tree (W i))"
    using mem.Stat_refines [OF assms [unfolded mem_ok_def]] unfolding mem_abs_defs mem_FS_defs by blast
  have run: "Stat (tI cap) i p W = Some (map_sum id (Pair i) r, W(i := w'))"
    using st(1) by (simp add: mem_tiface_def Stat.simps [of _ i] run_stat_def)
  have "case spec_get (mem_tree (W i)) p of
           Inl e \<Rightarrow> map_sum id (Pair i) r = Inl (PathError ''stat'' p e)
         | Inr nd \<Rightarrow> (\<exists>j. map_sum id (Pair i) r = Inr j \<and> info_is (tI cap) j p nd (W(i := w')))"
    using st(4) info_is_mem [of _ "W(i := w')" i] by (auto simp: stat_shows_def split: sum.splits)
  with run st(2,3) show ?thesis by (intro exI [of _ "map_sum id (Pair i) r"] exI [of _ "W(i := w')"]) simp
qed

lemma test_Mkdir:
  assumes "mem_ok (W i)"
  shows "\<exists>t W'. Mkdir (tI cap) i p perm W = Some (fst (spec_Mkdir (mem_tree (W i)) p perm t), W')
      \<and> mem_ok (W' i) \<and> mem_tree (W' i) = snd (spec_Mkdir (mem_tree (W i)) p perm t)"
proof -
  obtain e w' where "mem_Mkdir p perm (W i) = Some (e, w')" "mem_ok w'"
      "(e, mem_tree w') = spec_Mkdir (mem_tree (W i)) p perm (now (W i))"
    using mem.Mkdir_refines [OF assms [unfolded mem_ok_def]] unfolding mem_abs_defs mem_FS_defs by blast
  then show ?thesis
    by (intro exI [of _ "now (W i)"] exI [of _ "W(i := w')"]) (simp add: mem_tiface_def Mkdir.simps [of _ i] run_err_def prod_eq_iff)
qed

lemma test_MkdirAll:
  assumes "mem_ok (W i)"
  shows "\<exists>clock n W'. MkdirAll (tI cap) i p perm W = Some (fst (spec_MkdirAll (mem_tree (W i)) p perm clock n), W')
      \<and> mem_ok (W' i) \<and> mem_tree (W' i) = snd (spec_MkdirAll (mem_tree (W i)) p perm clock n)"
proof -
  obtain e w' where "mem_MkdirAll p perm (W i) = Some (e, w')" "mem_ok w'"
      "(e, mem_tree w') = spec_MkdirAll (mem_tree (W i)) p perm (w_clock (W i)) (w_tick (W i))"
    using mem.MkdirAll_refines [OF assms [unfolded mem_ok_def]] unfolding mem_abs_defs mem_FS_defs by blast
  then show ?thesis
    by (intro exI [of _ "w_clock (W i)"] exI [of _ "w_tick (W i)"] exI [of _ "W(i := w')"])
      (simp add: mem_tiface_def MkdirAll.simps [of _ i] run_err_def prod_eq_iff)
qed

lemma test_Remove:
  assumes "mem_ok (W i)"
  shows "\<exists>W'. Remove (tI cap) i p W = Some (fst (spec_Remove (mem_tree (W i)) p), W')
      \<and> mem_ok (W' i) \<and> mem_tree (W' i) = snd (spec_Remove (mem_tree (W i)) p)"
proof -
  obtain e w' where "mem_Remove p (W i) = Some (e, w')" "mem_ok w'" "(e, mem_tree w') = spec_Remove (mem_tree (W i)) p"
    using mem.Remove_refines [OF assms [unfolded mem_ok_def]] unfolding mem_abs_defs mem_FS_defs by blast
  then show ?thesis
    by (intro exI [of _ "W(i := w')"]) (simp add: mem_tiface_def Remove.simps [of _ i] run_err_def prod_eq_iff)
qed

lemma test_RemoveAll:
  assumes "mem_ok (W i)" "tree_closed (mem_tree (W i))" "ValidPath p"
  shows "\<exists>W'. RemoveAll (tI cap) i p W = Some (None, W') \<and> mem_ok (W' i) \<and> mem_tree (W' i) = prune (elems p) (mem_tree (W i))"
  using mem_RemoveAll_run [of W i p cap mem_info_methods, OF assms, folded mem_tiface_def] by blast

lemma test_Chmod:
  assumes "mem_ok (W i)"
  shows "\<exists>W'. Chmod (tI cap) i p mode W = Some (fst (spec_Chmod (mem_tree (W i)) p mode), W')
      \<and> mem_ok (W' i) \<and> mem_tree (W' i) = snd (spec_Chmod (mem_tree (W i)) p mode)"
proof -
  obtain e w' where "mem_Chmod p mode (W i) = Some (e, w')" "mem_ok w'" "(e, mem_tree w') = spec_Chmod (mem_tree (W i)) p mode"
    using mem.Chmod_refines [OF assms [unfolded mem_ok_def], of p mode] by (auto simp: mem_abs_defs mem_FS_defs)
  then show ?thesis
    by (intro exI [of _ "W(i := w')"]) (simp add: mem_tiface_def Chmod.simps [of _ i] run_err_def prod_eq_iff)
qed

lemma test_Chtimes:
  assumes "mem_ok (W i)"
  shows "\<exists>W'. Chtimes (tI cap) i p acc mt W = Some (fst (spec_Chtimes (mem_tree (W i)) p mt), W')
      \<and> mem_ok (W' i) \<and> mem_tree (W' i) = snd (spec_Chtimes (mem_tree (W i)) p mt)"
proof -
  obtain e w' where "mem_Chtimes p acc mt (W i) = Some (e, w')" "mem_ok w'" "(e, mem_tree w') = spec_Chtimes (mem_tree (W i)) p mt"
    using mem.Chtimes_refines [OF assms [unfolded mem_ok_def]] unfolding mem_abs_defs mem_FS_defs by blast
  then show ?thesis
    by (intro exI [of _ "W(i := w')"]) (simp add: mem_tiface_def Chtimes.simps [of _ i] run_err_def prod_eq_iff)
qed

lemma mem_at_opened: "mem_opened w p fl h \<Longrightarrow> mem_at i (W(i := w)) (i, h) p fl 0"
  unfolding mem_at_def mem_opened_def opened_def mem_tree_def mem_attached_def by auto

lemma test_OpenFile:
  assumes "mem_ok (W i)"
  shows "\<exists>h t W'. OpenFile (tI cap) i p fl perm W = Some (h, fst (spec_OpenFile (mem_tree (W i)) p fl perm t), W')
      \<and> mem_ok (W' i) \<and> (mem_tree (W' i), h \<noteq> None) = snd (spec_OpenFile (mem_tree (W i)) p fl perm t)
      \<and> (\<forall>hd. h = Some hd \<longrightarrow> mem_at i W' hd p fl 0)"
proof -
  obtain h e w' where o: "mem_OpenFile p fl perm (W i) = Some (h, e, w')" "mem_ok w'"
      "(e, mem_tree w', h \<noteq> None) = spec_OpenFile (mem_tree (W i)) p fl perm (now (W i))"
      "\<forall>hd. h = Some hd \<longrightarrow> mem_opened w' p fl hd"
    using mem.OpenFile_refines [OF assms [unfolded mem_ok_def]] unfolding mem_abs_defs mem_FS_defs by blast
  have c: "OpenFile (tI cap) i p fl perm W = Some (map_option (Pair i) h, e, W(i := w'))" if "fl \<noteq> FlagReadOnly"
    using o(1) that by (simp add: mem_tiface_def OpenFile.simps [of _ i] run_open_def)
  have sp: "spec_OpenFile T p FlagReadOnly perm t = spec_OpenFile T p FlagReadOnly 0 t" for T t
    by (simp add: spec_OpenFile_def has_flag_def flag_defs split: sum.splits)
  have a: "\<forall>hd. map_option (Pair i) h = Some hd \<longrightarrow> mem_at i (W(i := w')) hd p fl 0"
    using mem_at_opened o(4) by auto
  show ?thesis
  proof (cases "fl = FlagReadOnly")
    case False
    from c [OF this] a o(2,3) show ?thesis
      by (intro exI [of _ "map_option (Pair i) h"] exI [of _ "now (W i)"] exI [of _ "W(i := w')"]) (auto simp: prod_eq_iff)
  next
    case True
    obtain h e w' where o: "mem_Open p (W i) = Some (h, e, w')" "mem_ok w'"
      "(e, mem_tree w', h \<noteq> None) = spec_OpenFile (mem_tree (W i)) p FlagReadOnly 0 (now (W i))"
      "\<forall>hd. h = Some hd \<longrightarrow> mem_opened w' p FlagReadOnly hd"
      using mem.OpenFile_refines [OF assms [unfolded mem_ok_def], of p FlagReadOnly 0]
      unfolding mem_abs_defs mem_FS_defs kv_Open_def by blast
    have "OpenFile (tI cap) i p fl perm W = Some (map_option (Pair i) h, e, W(i := w'))"
      using o(1) True by (simp add: mem_tiface_def OpenFile.simps [of _ i] run_open_def)
    moreover have "\<forall>hd. map_option (Pair i) h = Some hd \<longrightarrow> mem_at i (W(i := w')) hd p fl 0"
      using mem_at_opened o(4) True by auto
    ultimately show ?thesis using o(2,3) True sp
      by (intro exI [of _ "map_option (Pair i) h"] exI [of _ "now (W i)"] exI [of _ "W(i := w')"]) (auto simp: prod_eq_iff)
  qed
qed

lemma test_Close:
  assumes "mem_at i W h p fl off"
  shows "\<exists>h'. fl_Close (tI cap) h W = Some (None, h', W)"
  using assms by (auto simp: mem_tiface_def mem_at_def mem_attached_def attached_def h_Close_def file_Close_def)

lemma test_Write:
  assumes "mem_ok (W i)" "mem_at i W h p fl off" "can_write fl" "mem_tree (W i) p = Some nd" "\<not> IsDir (n_mode nd)"
    "0 \<le> off" "off + int (length (n_data nd)) + int (length xs) \<le> max_int64"
  shows "\<exists>h' W' t. WriteFile (tI cap) h xs W = Some (int (length xs), None, h', W') \<and> mem_ok (W' i)
        \<and> mem_tree (W' i) = (mem_tree (W i))(p \<mapsto> nd\<lparr>n_modTime := t, n_data := write_at (nat (write_offset fl off (n_data nd))) xs (n_data nd)\<rparr>)
        \<and> mem_at i W' h' p fl (off + int (length xs))"
proof -
  obtain f where f: "h = (i, open_kind fl f)" "mem_attached (W i) f p (n_mode nd) (n_modTime nd)" "f_offset f = off" "f_flag f = fl"
    using assms(2,4) by (auto simp: mem_at_def)
  let ?o = "write_offset fl off (n_data nd)" and ?t = "write_time xs (n_modTime nd) (now (W i))"
  have o: "0 \<le> ?o" "?o + int (length xs) \<le> max_int64" using assms(6,7) by (auto simp: write_offset_def)
  have i64: "int64 (off + int (length xs)) = off + int (length xs)"
    using assms(6,7) by (intro int64_id) (auto simp: max_int64_def)
  obtain f' w' where w: "file_Write mem_ops f xs (W i) = Some (int (length xs), None, f', w')" "mem_ok w'"
      "mem_attached w' f' p (n_mode nd) ?t"
      "mem_tree w' = (mem_tree (W i))(p \<mapsto> \<lparr>n_mode = n_mode nd, n_modTime = ?t, n_data = write_at (nat ?o) xs (n_data nd)\<rparr>)"
      "f_offset f' = off + int (length xs)" "f_flag f' = fl"
    using mem.Write_refines [OF assms(1) [unfolded mem_abs_defs] f(2) [unfolded mem_abs_defs] assms(4) [unfolded mem_abs_defs] assms(5), of ?o xs]
      o f(3,4) i64 unfolding mem_abs_defs by auto
  have nd: "\<lparr>n_mode = n_mode nd, n_modTime = u, n_data = ys\<rparr> = nd\<lparr>n_modTime := u, n_data := ys\<rparr>" for u ys by (cases nd) simp
  have aw: "as_writer (open_kind fl f) = Some f" using assms(3) by (auto simp: open_kind_def)
  have "WriteFile (tI cap) h xs W = Some (int (length xs), None, (i, open_kind fl f'), W(i := w'))"
    using w(1) aw f(1) by (simp add: mem_tiface_def WriteFile_def mf_count_def h_Write_def)
  moreover have "mem_at i (W(i := w')) (i, open_kind fl f') p fl (off + int (length xs))"
    using w(3-6) by (auto simp: mem_at_def)
  ultimately show ?thesis using w(2,4) nd by (intro exI [of _ "(i, open_kind fl f')"] exI [of _ "W(i := w')"] exI [of _ ?t]) simp
qed

lemma test_Write_readonly:
  assumes "mem_ok (W i)" "mem_at i W h p fl off" "\<not> can_write fl"
  shows "\<exists>h' W' e. WriteFile (tI cap) h xs W = Some (0, Some e, h', W') \<and> mem_ok (W' i) \<and> mem_tree (W' i) = mem_tree (W i)
    \<and> mem_at i W' h' p fl off"
proof -
  obtain f and nd :: node where f: "h = (i, readOnlyFile f)" "mem_attached (W i) f p (n_mode nd) (n_modTime nd)"
  proof -
    obtain f and nd :: node where "h = (i, open_kind fl f)" "mem_attached (W i) f p (n_mode nd) (n_modTime nd)"
      using assms(2) unfolding mem_at_def by blast
    then show thesis using that [of f nd] assms(3) by (simp add: open_kind_def)
  qed
  then obtain info where "h_Stat (readOnlyFile f) = Some info"
    by (auto simp: mem_attached_def attached_def h_Stat_def file_Stat_def with_data_def)
  then show ?thesis using f(1) assms(1,2)
    by (auto simp: mem_tiface_def WriteFile_def not_implemented_def when_writer_def)
qed

lemma test_Read:
  assumes "mem_ok (W i)" "mem_at i W h p fl off" "can_read fl" "mem_tree (W i) p = Some nd" "\<not> IsDir (n_mode nd)"
    "0 \<le> off" "off + int (length buf) \<le> max_int64" "xs = read_bytes (length buf) off (n_data nd)"
  shows "\<exists>h' W'. fl_Read (tI cap) h buf W = Some (go_copy buf xs, int (length xs), read_err (length buf) off (n_data nd), h', W')
        \<and> mem_ok (W' i) \<and> mem_tree (W' i) = mem_tree (W i) \<and> mem_at i W' h' p fl (off + int (length xs))"
proof -
  obtain f where f: "h = (i, open_kind fl f)" "mem_attached (W i) f p (n_mode nd) (n_modTime nd)" "f_offset f = off" "f_flag f = fl"
    using assms(2,4) by (auto simp: mem_at_def)
  obtain f' w' where w: "file_Read mem_ops f buf (W i) =
        Some (go_copy buf xs, int (length xs), read_err (length buf) off (n_data nd), f', w')" "mem_ok w'"
      "mem_attached w' f' p (n_mode nd) (n_modTime nd)" "mem_tree w' = mem_tree (W i)"
      "f_offset f' = off + int (length xs)" "f_flag f' = fl"
    using mem.Read_refines [OF assms(1) [unfolded mem_abs_defs] f(2) [unfolded mem_abs_defs] assms(4) [unfolded mem_abs_defs] assms(5), of buf xs]
      assms(6-8) f(3,4) unfolding mem_abs_defs by auto
  have "fl_Read (tI cap) h buf W = Some (go_copy buf xs, int (length xs), read_err (length buf) off (n_data nd), (i, open_kind fl f'), W(i := w'))"
    using w(1) assms(3) f(1) by (auto simp: mem_tiface_def mf_bytes_def h_Read_def open_kind_def)
  moreover have "mem_at i (W(i := w')) (i, open_kind fl f') p fl (off + int (length xs))"
    using w(3-6) assms(4) by (auto simp: mem_at_def)
  ultimately show ?thesis using w(2,4) by (intro exI [of _ "(i, open_kind fl f')"] exI [of _ "W(i := w')"]) simp
qed

lemma test_WriteFullFile:
  assumes "mem_ok (W i)" "writable (mem_tree (W i)) p" "int (length xs) \<le> max_int64"
  shows "\<exists>t W'. WriteFullFile (tI cap) i p xs perm W = Some (None, W') \<and> mem_ok (W' i)
        \<and> mem_tree (W' i) = (mem_tree (W i))(p \<mapsto> \<lparr>n_mode = new_mode (mem_tree (W i)) p perm, n_modTime = t, n_data = xs\<rparr>)"
  using mem_WriteFullFile_run [of W i, OF assms, where cap = cap and perm = perm] unfolding mem_tiface_def
  by (metis fun_upd_same)

lemma test_WriteFullFile_dir:
  assumes "mem_ok (W i)" "is_dir (mem_tree (W i)) p"
  shows "\<exists>W'. WriteFullFile (tI cap) i p xs perm W = Some (Some (PathError ''open'' p ErrIsDir), W') \<and> mem_ok (W' i)
    \<and> mem_tree (W' i) = mem_tree (W i)"
proof -
  have v: "ValidPath p" using assms mem.tree_valid mem.ok_D(1)
    unfolding mem_abs_defs is_dir_def by (metis option.case_eq_if mem.tree_None_iff)
  obtain h e w' where o: "mem_OpenFile p create_flags perm (W i) = Some (h, e, w')" "mem_ok w'"
      "(e, mem_tree w', h \<noteq> None) = spec_OpenFile (mem_tree (W i)) p create_flags perm (now (W i))"
    using mem.OpenFile_refines [OF assms(1) [unfolded mem_ok_def], of p create_flags perm]
    unfolding mem_abs_defs mem_FS_defs by blast
  then have "e = Some (PathError ''open'' p ErrIsDir)" "mem_tree w' = mem_tree (W i)"
    using assms(2) v by (auto simp: spec_OpenFile_def spec_get_def is_dir_def split: option.splits)
  then show ?thesis using o(1,2)
    by (intro exI [of _ "W(i := w')"]) (simp add: mem_tiface_def WriteFullFile.simps [of _ i] OpenFile.simps [of _ i] run_open_def)
qed

lemma test_ReadFile:
  assumes "mem_ok (W i)" "mem_tree (W i) p = Some nd" "\<not> IsDir (n_mode nd)" "int (length (n_data nd)) < max_int64"
  shows "\<exists>W'. ReadFile (tI cap) i p W = Some (n_data nd, None, W') \<and> mem_ok (W' i) \<and> mem_tree (W' i) = mem_tree (W i)"
proof -
  have "ValidPath p" using assms(1,2) mem.tree_valid mem.ok_D(1)
    unfolding mem_abs_defs by (metis mem.tree_None_iff option.distinct(1))
  from mem_ReadFile_run [of W i, OF assms(1) this assms(2-4), where cap = cap]
  show ?thesis unfolding mem_tiface_def by (metis fun_upd_same)
qed

lemma test_missing:
  assumes "mem_ok (W i)" "ValidPath p" "mem_tree (W i) p = None"
  shows "\<exists>b W'. ReadFile (tI cap) i p W = Some (b, Some (PathError ''open'' p ErrNotExist), W') \<and> mem_ok (W' i) \<and> mem_tree (W' i) = mem_tree (W i)"
    "\<exists>ds W'. ReadDir (tI cap) i p W = Some (ds, Some (PathError ''open'' p ErrNotExist), W') \<and> mem_ok (W' i) \<and> mem_tree (W' i) = mem_tree (W i)"
proof -
  obtain w' where o: "mem_Open p (W i) = Some (None, Some (PathError ''open'' p ErrNotExist), w')" "mem_ok w'" "mem_tree w' = mem_tree (W i)"
    using mem_Open_missing [OF assms] by blast
  have "ReadFile (tI cap) i p W = Some ([], Some (PathError ''open'' p ErrNotExist), W(i := w'))"
    "ReadDir (tI cap) i p W = Some ([], Some (PathError ''open'' p ErrNotExist), W(i := w'))"
    using o(1) by (simp_all add: mem_tiface_def ReadFile.simps [of _ i] gofs_ReadFile_def ReadDir.simps [of _ i] gofs_ReadDir_def run_open_def)
  then show "\<exists>b W'. ReadFile (tI cap) i p W = Some (b, Some (PathError ''open'' p ErrNotExist), W') \<and> mem_ok (W' i) \<and> mem_tree (W' i) = mem_tree (W i)"
    "\<exists>ds W'. ReadDir (tI cap) i p W = Some (ds, Some (PathError ''open'' p ErrNotExist), W') \<and> mem_ok (W' i) \<and> mem_tree (W' i) = mem_tree (W i)"
    using o(2,3) by (metis fun_upd_same)+
qed

lemma test_ReadDir_file:
  assumes "mem_ok (W i)" "mem_tree (W i) p = Some nd" "IsRegular (n_mode nd)"
  shows "\<exists>ds e W'. ReadDir (tI cap) i p W = Some (ds, Some (PathError ''readdir'' p e), W') \<and> errors_Is e ErrNotDir
        \<and> \<not> errors_Is e ErrNotImplemented \<and> mem_ok (W' i) \<and> mem_tree (W' i) = mem_tree (W i)"
proof -
  obtain r where r: "mem_lookup (w_store (W i)) p = Some r" "n_mode nd = fr_mode r"
    using assms(2) by (auto simp: mem_tree_def tree_of_def node_of_def)
  obtain s d where o: "mem_Open p (W i) = Some (Some (readOnlyFile \<lparr>f_data = Some d, f_offset = 0, f_flag = 0\<rparr>), None, (W i)\<lparr>w_store := s\<rparr>)"
      "mem_idle s" "mem_lookup s = mem_lookup (w_store (W i))" "fd_path d = p"
      "ro_record (fd_record d) = Some (StoreRec r)" "ro_dirNames (fd_record d) = None"
    using mem.Open_entry [OF assms(1) [unfolded mem_ok_def] r(1)] unfolding mem_FS_defs by blast
  note ok1 = mem.ok_store [OF assms(1) [unfolded mem_ok_def] o(2,3), folded mem_ok_def mem_tree_def]
  have nd: "\<not> IsDir (fr_mode r)" using assms(3) r(2) IsRegular_not_IsDir by simp
  obtain d' where rd: "h_ReadDir mem_ops (readOnlyFile \<lparr>f_data = Some d, f_offset = 0, f_flag = 0\<rparr>) (-1) ((W i)\<lparr>w_store := s\<rparr>)
      = Some (Inl (PathError ''readdir'' p ErrNotDir), readOnlyFile \<lparr>f_data = Some d', f_offset = 0, f_flag = 0\<rparr>, (W i)\<lparr>w_store := s\<rparr>)"
    using nd o(4-6) by (auto simp: h_ReadDir_def file_ReadDir_def with_data_def FD_ReadDirNames_def RO_ReadDirNames_def
        FR_ReadDirNames_def fileRecord_ReadDirNames_def)
  obtain e h2 where c: "h_Close (readOnlyFile \<lparr>f_data = Some d', f_offset = 0, f_flag = 0\<rparr>) = (e, h2)" by fastforce
  have "ReadDir (tI cap) i p W = Some ([], Some (PathError ''readdir'' p ErrNotDir), W(i := (W i)\<lparr>w_store := s\<rparr>))"
    using o(1) rd c by (simp del: not_None_eq add: mem_tiface_def ReadDir.simps [of _ i] gofs_ReadDir_def run_open_def)
  then show ?thesis using ok1 by (intro exI [of _ "[]"] exI [of _ ErrNotDir] exI [of _ "W(i := (W i)\<lparr>w_store := s\<rparr>)"]) simp
qed

lemma test_Rename_missing:
  assumes "mem_ok (W i)" "ValidPath p" "mem_tree (W i) p = None"
  shows "\<exists>W'. Rename (tI cap) i p q W = Some (Some (LinkError ''rename'' p q ErrNotExist), W') \<and> mem_ok (W' i) \<and> mem_tree (W' i) = mem_tree (W i)"
proof -
  have l: "mem_lookup (w_store (W i)) p = None" using assms(3) by (simp add: mem_tree_def tree_of_def)
  obtain s where s: "getFile mem_ops p (W i) = Some (Inl ErrNotExist, (W i)\<lparr>w_store := s\<rparr>)" "mem_idle s" "mem_lookup s = mem_lookup (w_store (W i))"
    using mem.getFile_spec [OF mem.ok_D(1) [OF assms(1) [unfolded mem_ok_def]], of p] get_outcome_simps(2) [of p "mem_lookup (w_store (W i))", OF assms(2) l] by metis
  note ok1 = mem.ok_store [OF assms(1) [unfolded mem_ok_def] s(2,3), folded mem_ok_def mem_tree_def]
  have "mem_Rename p q (W i) = Some (Some (LinkError ''rename'' p q ErrNotExist), (W i)\<lparr>w_store := s\<rparr>)"
    using s(1) by (simp add: mem_FS_defs kv_Rename.simps [of mem_ops p])
  then show ?thesis using ok1
    by (intro exI [of _ "W(i := (W i)\<lparr>w_store := s\<rparr>)"]) (simp add: mem_tiface_def Rename_def run_err_def)
qed

lemma test_Rename_file:
  assumes "mem_ok (W i)" "mem_tree (W i) p = Some nd" "\<not> IsDir (n_mode nd)" "ValidPath q"
  shows "\<exists>W'. Rename (tI cap) i p q W = Some (None, W') \<and> mem_ok (W' i)
        \<and> mem_tree (W' i) = (if p = q then mem_tree (W i) else (mem_tree (W i))(q \<mapsto> nd, p := None))"
proof -
  obtain r where r: "mem_lookup (w_store (W i)) p = Some r" "n_mode nd = fr_mode r"
    using assms(2) by (auto simp: mem_tree_def tree_of_def node_of_def)
  obtain e w' where "mem_Rename p q (W i) = Some (e, w')" "mem_ok w'" "(e, mem_tree w') = spec_Rename_file (mem_tree (W i)) p q"
    using mem.Rename_file_unfold [OF assms(1) [unfolded mem_ok_def] r(1), of "kv_Rename mem_ops" q] assms(3) r(2)
    unfolding mem_abs_defs mem_FS_defs kv_Rename_body [symmetric] by auto
  then show ?thesis using assms(2,4)
    by (intro exI [of _ "W(i := w')"]) (auto simp: mem_tiface_def Rename_def run_err_def spec_Rename_file_def)
qed

lemma test_Rename_onto:
  assumes "mem_ok (W i)" "is_dir (mem_tree (W i)) p" "mem_tree (W i) q \<noteq> None"
  shows "\<exists>W'. Rename (tI cap) i p q W = Some (Some (LinkError ''rename'' p q ErrExist), W') \<and> mem_ok (W' i) \<and> mem_tree (W' i) = mem_tree (W i)"
proof -
  note ok = assms(1) [unfolded mem_ok_def]
  obtain r where r: "mem_lookup (w_store (W i)) p = Some r" "IsDir (fr_mode r)"
    using assms(2) by (auto simp: mem_tree_def tree_of_def node_of_def is_dir_def split: option.splits)
  obtain r' where r': "mem_lookup (w_store (W i)) q = Some r'" using assms(3) by (auto simp: mem_tree_def tree_of_def)
  have v: "ValidPath p" "ValidPath q" using mem.key_law [OF mem.ok_D(1) [OF ok]] r(1) r' by auto
  obtain s where s: "getFile mem_ops p (W i) = Some (Inr (handle_of p r), (W i)\<lparr>w_store := s\<rparr>)" "mem_idle s" "mem_lookup s = mem_lookup (w_store (W i))"
    using mem.getFile_spec [OF mem.ok_D(1) [OF ok], of p] get_outcome_simps(3) [of p "mem_lookup (w_store (W i))", OF v(1) r(1)] by metis
  obtain s2 where s2: "getFile mem_ops q ((W i)\<lparr>w_store := s\<rparr>) = Some (Inr (handle_of q r'), (W i)\<lparr>w_store := s2\<rparr>)" "mem_idle s2" "mem_lookup s2 = mem_lookup (w_store (W i))"
    using mem.getFile_spec [of "(W i)\<lparr>w_store := s\<rparr>" q] get_outcome_simps(3) [of q "mem_lookup (w_store (W i))", OF v(2) r'] s(2,3) by auto
  note ok2 = mem.ok_store [OF ok s2(2,3), folded mem_ok_def mem_tree_def]
  have "mem_Rename p q (W i) = Some (Some (LinkError ''rename'' p q ErrExist), (W i)\<lparr>w_store := s2\<rparr>)"
    using s(1) s2(1) r(2) by (simp add: mem_FS_defs kv_Rename.simps [of mem_ops p] handle_of_def fileData_of_def runOnce_of_def RO_Mode_def FR_Mode_def)
  then show ?thesis using ok2
    by (intro exI [of _ "W(i := (W i)\<lparr>w_store := s2\<rparr>)"]) (simp add: mem_tiface_def Rename_def run_err_def)
qed

lemma test_Rename_dir:
  assumes "mem_ok (W i)" "movable (mem_tree (W i)) a b"
  shows "\<exists>W'. Rename (tI cap) i (path_of a) (path_of b) W = Some (None, W') \<and> mem_ok (W' i) \<and> moved (mem_tree (W i)) (mem_tree (W' i)) a b"
proof -
  obtain w' where "mem_Rename (path_of a) (path_of b) (W i) = Some (None, w')" "mem_ok w'" "moved (mem_tree (W i)) (mem_tree w') a b"
    using mem.Rename_subtree [OF assms [unfolded mem_abs_defs]] unfolding mem_abs_defs mem_FS_defs by blast
  then show ?thesis
    by (intro exI [of _ "W(i := w')"]) (simp add: mem_tiface_def Rename_def run_err_def)
qed

definition mem_good_at :: "nat \<Rightarrow> mems \<Rightarrow> bool" where
  "mem_good_at i W \<longleftrightarrow> mem_ok (W i)"

definition mem_tree_at :: "nat \<Rightarrow> mems \<Rightarrow> fs_tree" where
  "mem_tree_at i W = mem_tree (W i)"

definition same_bytes :: "nat \<Rightarrow> mems \<Rightarrow> mems \<Rightarrow> bool" where
  "same_bytes i W W' \<longleftrightarrow> w_heap (W' i) = w_heap (W i)"

lemmas mem_at_defs = mem_good_at_def mem_tree_at_def same_bytes_def

interpretation listed_mem: listed_fs "mem_tiface cap" mem_good_at mem_tree_at same_bytes for cap
proof (unfold_locales, goal_cases)
  case (3 i W p)
  then show ?case unfolding mem_at_defs mem_abs_defs using mem.tree_valid mem.ok_D(1) by (metis mem.tree_None_iff)
next
  case (4 i W)
  then show ?case using mem.finite_law [OF mem.ok_D(1)] unfolding mem_at_defs mem_abs_defs by (auto simp: tree_of_def dom_def)
next
  case (5 i W p)
  then show ?case using test_ReadDir [of W i p cap] unfolding mem_at_defs by simp
qed (simp_all add: same_bytes_def)

lemmas test_laws = test_Stat test_Mkdir test_MkdirAll test_Remove test_RemoveAll test_Chmod test_Chtimes test_OpenFile
  test_Close test_Write test_Write_readonly test_Read test_WriteFullFile test_WriteFullFile_dir test_ReadFile test_missing
  test_ReadDir_file test_Rename_missing test_Rename_file test_Rename_onto test_Rename_dir

text \<open>
  What the run of the suite depends on beside the code: the order in which Go iterates over a map, the clock, the order
  in which goroutines run, and the mask of the options.
\<close>

locale mem_suite =
  fixes order :: "string list \<Rightarrow> string list" and clock :: "nat \<Rightarrow> time" and m :: file_mode and t :: time
    and sched :: "nat \<Rightarrow> nat list"
  assumes order_law: "mset (order xs) = mset xs"
    and clock_law: "clock n \<noteq> 0"
    and mask_law: "m AND ModeDir = 0"
    and now_law: "60 * second < t"
    and sched_law: "mset (sched n) = mset [1..<n]"

sublocale mem_suite \<subseteq> suite: test_target "mem_tiface cap" mem_good_at mem_tree_at same_bytes mem_at
  "with_defaults k (mem_options order grow clock m t sched)" for cap k grow
proof (unfold_locales, goal_cases)
  case (1 tb s)
  have "\<forall>xs. mset (order xs) = mset xs" "\<forall>n. clock n \<noteq> 0" using order_law clock_law by simp_all
  from mem_TestFS_runs [OF this, of grow tb s] obtain w u where w: "mem_TestFS order grow clock tb s = Some (Ret 0, s\<lparr>t_world := (t_world s)(0 := w)\<rparr>, [])"
     "mem_ok w" "mem_tree w = [dot \<mapsto> dir_node 0x1B6 u]" by blast
  have "Setup_FS (with_defaults k (mem_options order grow clock m t sched)) tb = seq (mem_TestFS order grow clock tb) (\<lambda>fs. ret (fs, ret fs))"
    by (simp add: Setup_FS_def with_defaults_def mem_options_def)
  then have "Setup_FS (with_defaults k (mem_options order grow clock m t sched)) tb s = Some (Ret (0, ret 0), s\<lparr>t_world := (t_world s)(0 := w)\<rparr>, [])"
    using w(1) by (simp add: seq_def ret_def)
  moreover have "IsDir (n_mode (dir_node 0x1B6 u))" by simp
  ultimately show ?case using w(2,3)
    by (intro exI [of _ 0] exI [of _ "(t_world s)(0 := w)"] exI [of _ "dir_node 0x1B6 u"]) (simp add: mem_at_defs)
next
  case 2 then show ?case by (simp add: with_defaults_def mem_options_def)
next
  case 3 then show ?case using mask_law by (simp add: with_defaults_def mem_options_def modeMask_def)
next
  case 4 then show ?case using now_law by (simp add: with_defaults_def mem_options_def)
next
  case 5 then show ?case using sched_law by (simp add: with_defaults_def mem_options_def)
qed (unfold mem_at_defs, ((rule test_laws; assumption) | (simp add: mem_tiface_def Create_def; fail))+)


context mem_suite
begin

lemmas FS_suite = suite.runFS_parallel

end

text \<open>
  C2: \<open>mem.FS\<close> passes the conformance suite for file systems, \<open>fstest.FS\<close>, with the options of \<open>mem/fs_test.go\<close>, for
  every order of map iteration and of goroutines and with any check of permission bits: the suite runs to its end,
  no test fails or panics, and the only test that is skipped is the one that needs symbolic links. The caller was told
  before that no test was skipped.
\<close>

theorem mem_FS_passes_suite:
  assumes "\<forall>xs. mset (order xs) = mset xs" "\<forall>n. clock n \<noteq> 0" "m AND ModeDir = 0" "60 * second < t"
    and "\<forall>n. mset (sched n) = mset [1..<n]" "length (t_stack s) = Suc tb" "tb_kind tb s = TestT"
  shows "\<exists>rest s'. fstest_FS (mem_tiface cap) tb (mem_options order grow clock m t sched) s =
      Some (Ret \<lparr>Skips = []\<rparr>, s\<lparr>t_maps := t_maps s @ [[]]\<rparr>, [rest])
    \<and> rest (s\<lparr>t_maps := t_maps s @ [[]]\<rparr>) = Some s' \<and> t_stack s' = t_stack s
    \<and> t_maps s' = t_maps s @ [[\<lparr>fct_Name = tb_Name tb s @ ''/mem_FS/fs.Chmod/change_symlink_target_permission_bits''\<rparr>]]"
proof -
  have suite: "mem_suite order clock m t sched" using assms(1-5) by unfold_locales auto
  let ?o = "mem_options order grow clock m t sched" and ?s = "s\<lparr>t_maps := t_maps s @ [[]]\<rparr>"
  let ?d = "with_defaults (length (t_maps s)) ?o" and ?X = "(t_stack s, t_maps s @ [[]])"
  let ?rest = "parallel_rest (mem_tiface cap) ?d tb (''mem_FS'', runFS (mem_tiface cap) ?d)"
  have "fstest_FS (mem_tiface cap) tb ?o s = Some (Ret \<lparr>Skips = []\<rparr>, ?s, [?rest])"
    using suite_starts(1) [of ?o tb s ?d "mem_tiface cap"] assms(7) by (simp add: mem_options_def)
  moreover have at: "at_rest ?X ?s" "on_top tb ?X" using assms(6,7) by (simp_all add: at_rest_def on_top_def tb_kind_def)
  obtain s' where "?rest ?s = Some s'"
      "at_rest (t_stack s, with_skip (length (t_maps s)) (symlink_test (fullName (tb_Name tb s) ''mem_FS'')) (t_maps s @ [[]])) s'"
    using mem_suite.FS_suite [OF suite at, of cap "length (t_maps s)" grow "''mem_FS''"]
    by (auto simp: with_defaults_def tb_Name_def)
  moreover have "symlink_test (fullName (tb_Name tb s) ''mem_FS'') =
      tb_Name tb s @ ''/mem_FS/fs.Chmod/change_symlink_target_permission_bits''"
    by (simp add: fullName_def is_space_def)
  ultimately show ?thesis by (auto simp: at_rest_def with_skip_def)
qed

interpretation mem_default: mem_suite rev "\<lambda>n. int n + 1" "0x1FF" "100 * second" "\<lambda>n. rev [1..<n]"
  by unfold_locales (simp_all add: second_def ModeDir_def)

definition test_start :: "(mems, mem_file) tst" where
  "test_start = \<lparr>t_world = (\<lambda>_. fresh_world rev (\<lambda>_. 0) (\<lambda>n. int n + 1)), t_files = [], t_stack = [new_frame TestT ''TestFS''], t_maps = []\<rparr>"

theorem mem_FS_passes_suite_witness:
  "\<exists>rest s'. fstest_FS (mem_tiface (\<lambda>_. 0)) 0 (mem_options rev (\<lambda>_. 0) (\<lambda>n. int n + 1) 0x1FF (100 * second) (\<lambda>n. rev [1..<n])) test_start =
      Some (Ret \<lparr>Skips = []\<rparr>, test_start\<lparr>t_maps := [[]]\<rparr>, [rest])
    \<and> rest (test_start\<lparr>t_maps := [[]]\<rparr>) = Some s' \<and> t_stack s' = t_stack test_start
    \<and> t_maps s' = [[\<lparr>fct_Name = ''TestFS/mem_FS/fs.Chmod/change_symlink_target_permission_bits''\<rparr>]]"
  using mem_FS_passes_suite [of rev "\<lambda>n. int n + 1" "0x1FF" "100 * second" "\<lambda>n. rev [1..<n]" test_start 0 "\<lambda>_. 0" "\<lambda>_. 0"]
  by (auto simp: test_start_def second_def ModeDir_def tb_kind_def tb_Name_def)

end
